(* ===== verification/Prelude.thy ===== *)
theory Prelude
  imports Main "HOL-Library.Word" "HOL-Library.Char_ord" "HOL-Library.List_Lexorder"
    "HOL-Library.Product_Lexorder"
begin

text \<open>
  What every component shares: the error values of the Go code, actions that pass a
  state along and may fail, and generic facts about lists.

  A Go \<open>error\<close> is a value of type \<open>err\<close>. The constructors follow the ways the
  module builds errors: \<open>notification.NewError\<close> (internal/domain/notification/model/error.go),
  \<open>errors.New\<close>/\<open>fmt.Errorf\<close> without and with \<open>%w\<close>, the sentinel variables of the
  packages, \<open>mutation.MutationConflict\<close> of the foundation library, the errors
  that come from outside (the SQL driver, an interface the host implements), and the \<open>Error\<close> of the
  notification SDK (status, code, retryable, cause) that the module hands to its callers.
\<close>

section \<open>Errors\<close>

datatype error_kind = ErrorInvalid | ErrorNotFound | ErrorConflict | ErrorForbidden
  | ErrorUnavailable | ErrorInternal

datatype sentinel = ErrRecordConflict | ErrRecordNotFound | ErrPublicationConflict
  | ErrPublicationNotFound | ErrFrequencyExceeded | ErrDuplicate | ErrExactPermissionDenied
  | ErrWorkspaceIDRequired | ErrUserIDRequired

datatype conflict_kind = ConflictOptimistic | ConflictLeaseLost | ConflictIdempotency

datatype err =
    NotificationError error_kind string "(string \<times> string) list" "err option"
  | ErrorText string
  | Wrapped string err
  | Sentinel sentinel
  | MutationConflict string string conflict_kind
  | DriverError
  | ConstraintError string
  | HostError string
  | SdkError int string bool "err option"

text \<open>
  \<open>errors.Unwrap\<close>: an \<open>*Error\<close> unwraps to its cause, a \<open>%w\<close> error to what it wraps.
  \<open>errors.Is\<close> and \<open>errors.As\<close> walk that chain.
\<close>

fun errors_is :: "err \<Rightarrow> sentinel \<Rightarrow> bool" where
  "errors_is (Sentinel s) t = (s = t)"
| "errors_is (NotificationError k c p (Some e)) t = errors_is e t"
| "errors_is (Wrapped m e) t = errors_is e t"
| "errors_is _ t = False"

fun error_code :: "err \<Rightarrow> string" where
  "error_code (NotificationError k c p w) = c"
| "error_code (Wrapped m e) = error_code e"
| "error_code _ = ''''"

fun error_kind_of :: "err \<Rightarrow> error_kind option" where
  "error_kind_of (NotificationError k c p w) = Some k"
| "error_kind_of (Wrapped m e) = error_kind_of e"
| "error_kind_of _ = None"

text \<open>
  \<open>NewError(kind, code, cause, params)\<close>; the parameter map is kept as an association list.
\<close>

definition new_error :: "error_kind \<Rightarrow> string \<Rightarrow> err option \<Rightarrow> (string \<times> string) list \<Rightarrow> err" where
  "new_error kind code cause params = NotificationError kind code params cause"

lemma error_code_new_error [simp]: "error_code (new_error k c w p) = c"
  by (simp add: new_error_def)

lemma error_kind_new_error [simp]: "error_kind_of (new_error k c w p) = Some k"
  by (simp add: new_error_def)

section \<open>Actions\<close>

named_theorems io_simps \<open>equations of the action combinators\<close>

text \<open>
  An action reads and changes a state \<open>'w\<close> and returns either an error or a value: the
  shape of every Go function \<open>(T, error)\<close> that has effects. \<open>attempt\<close> hands the error to
  the caller as a value, for the places where the Go code looks at \<open>err\<close> and goes on.
\<close>

type_synonym ('w, 'a) io = "'w \<Rightarrow> (err + 'a) \<times> 'w"

definition ret :: "'a \<Rightarrow> ('w, 'a) io" where
  "ret a w = (Inr a, w)"

definition fail :: "err \<Rightarrow> ('w, 'a) io" where
  "fail e w = (Inl e, w)"

definition bind_io :: "('w, 'a) io \<Rightarrow> ('a \<Rightarrow> ('w, 'b) io) \<Rightarrow> ('w, 'b) io" where
  "bind_io m f w = (case m w of (Inl e, w') \<Rightarrow> (Inl e, w') | (Inr a, w') \<Rightarrow> f a w')"

definition attempt :: "('w, 'a) io \<Rightarrow> ('w, err + 'a) io" where
  "attempt m w = (case m w of (r, w') \<Rightarrow> (Inr r, w'))"

definition guard_io :: "bool \<Rightarrow> err \<Rightarrow> ('w, 'a) io \<Rightarrow> ('w, 'a) io" where
  "guard_io bad e m = (if bad then fail e else m)"

lemma bind_io_ret [io_simps]: "bind_io (ret a) f = f a"
  by (rule ext) (simp add: bind_io_def ret_def)

lemma bind_io_fail [io_simps]: "bind_io (fail e) f = fail e"
  by (rule ext) (simp add: bind_io_def fail_def)

lemma bind_io_assoc: "bind_io (bind_io m f) g = bind_io m (\<lambda>a. bind_io (f a) g)"
  by (rule ext) (simp add: bind_io_def split: prod.splits sum.splits)

lemma bind_io_Inr:
  "bind_io m f w = (Inr b, w'') \<longleftrightarrow> (\<exists>a w'. m w = (Inr a, w') \<and> f a w' = (Inr b, w''))"
  by (auto simp: bind_io_def split: prod.splits sum.splits)

lemma bind_io_Inl:
  "bind_io m f w = (Inl e, w'') \<longleftrightarrow>
     m w = (Inl e, w'') \<or> (\<exists>a w'. m w = (Inr a, w') \<and> f a w' = (Inl e, w''))"
  by (auto simp: bind_io_def split: prod.splits sum.splits)

lemma bind_io_run: "m w = (Inr a, w') \<Longrightarrow> bind_io m f w = f a w'"
  by (simp add: bind_io_def)

lemma ret_eq [simp]: "ret a w = (r, w') \<longleftrightarrow> r = Inr a \<and> w' = w"
  by (auto simp: ret_def)

lemma fail_eq [simp]: "fail e w = (r, w') \<longleftrightarrow> r = Inl e \<and> w' = w"
  by (auto simp: fail_def)

lemma guard_io_simps [io_simps]:
  "guard_io True e m = fail e" "guard_io False e m = m"
  by (simp_all add: guard_io_def)

lemma guard_io_Inr: "guard_io b e m w = (Inr a, w') \<longleftrightarrow> \<not> b \<and> m w = (Inr a, w')"
  by (simp add: guard_io_def)

lemma attempt_eq: "attempt m w = (r, w') \<longleftrightarrow> (\<exists>x. r = Inr x \<and> m w = (x, w'))"
  by (auto simp: attempt_def split: prod.splits)

lemmas io_cases = bind_io_Inr bind_io_Inl guard_io_Inr attempt_eq

text \<open>A loop \<open>for _, x := range xs { ...; if err != nil { return err } }\<close>.\<close>

fun for_each :: "('a \<Rightarrow> ('w, unit) io) \<Rightarrow> 'a list \<Rightarrow> ('w, unit) io" where
  "for_each f [] = ret ()"
| "for_each f (x # xs) = bind_io (f x) (\<lambda>_. for_each f xs)"

text \<open>The same loop threading an accumulator.\<close>

fun fold_io :: "('a \<Rightarrow> 's \<Rightarrow> ('w, 's) io) \<Rightarrow> 'a list \<Rightarrow> 's \<Rightarrow> ('w, 's) io" where
  "fold_io f [] s = ret s"
| "fold_io f (x # xs) s = bind_io (f x s) (\<lambda>s'. fold_io f xs s')"

text \<open>
  Invariants of actions: \<open>keeps P m\<close> says that \<open>m\<close> preserves the state predicate \<open>P\<close>,
  whether it returns a value or an error.
\<close>

definition keeps :: "('w \<Rightarrow> bool) \<Rightarrow> ('w, 'a) io \<Rightarrow> bool" where
  "keeps P m \<longleftrightarrow> (\<forall>w. P w \<longrightarrow> P (snd (m w)))"

named_theorems keeps_intros \<open>composition rules for invariants of actions\<close>

lemma keepsD: "keeps P m \<Longrightarrow> P w \<Longrightarrow> m w = (r, w') \<Longrightarrow> P w'"
  by (metis keeps_def snd_conv)

lemma keeps_ret [keeps_intros]: "keeps P (ret a)"
  by (simp add: keeps_def ret_def)

lemma keeps_fail [keeps_intros]: "keeps P (fail e)"
  by (simp add: keeps_def fail_def)

lemma keeps_bind [keeps_intros]:
  assumes "keeps P m" and "\<And>a. keeps P (f a)"
  shows "keeps P (bind_io m f)"
  unfolding keeps_def
proof (intro allI impI)
  fix w assume "P w"
  obtain r w' where m: "m w = (r, w')" by (cases "m w")
  with \<open>P w\<close> assms(1) have "P w'" by (blast dest: keepsD)
  with m assms(2) show "P (snd (bind_io m f w))"
    by (cases r) (auto simp: bind_io_def keeps_def)
qed

lemma keeps_attempt [keeps_intros]: "keeps P m \<Longrightarrow> keeps P (attempt m)"
  by (auto simp: keeps_def attempt_def split: prod.splits)

lemma keeps_guard [keeps_intros]: "keeps P m \<Longrightarrow> keeps P (guard_io b e m)"
  by (simp add: guard_io_def keeps_fail)

lemma keeps_if [keeps_intros]: "keeps P m \<Longrightarrow> keeps P m' \<Longrightarrow> keeps P (if b then m else m')"
  by simp

lemma keeps_option [keeps_intros]:
  "keeps P m \<Longrightarrow> (\<And>x. keeps P (f x)) \<Longrightarrow> keeps P (case v of None \<Rightarrow> m | Some x \<Rightarrow> f x)"
  by (cases v) auto

lemma keeps_sum [keeps_intros]:
  "(\<And>e. keeps P (f e)) \<Longrightarrow> (\<And>x. keeps P (g x)) \<Longrightarrow> keeps P (case v of Inl e \<Rightarrow> f e | Inr x \<Rightarrow> g x)"
  by (cases v) auto

lemma keeps_prod [keeps_intros]:
  "(\<And>x y. keeps P (f x y)) \<Longrightarrow> keeps P (case v of (x, y) \<Rightarrow> f x y)"
  by (cases v) auto

lemma keeps_for_each [keeps_intros]:
  "(\<And>x. x \<in> set xs \<Longrightarrow> keeps P (f x)) \<Longrightarrow> keeps P (for_each f xs)"
  by (induction xs) (auto intro!: keeps_ret keeps_bind)

lemma keeps_fold_io [keeps_intros]:
  "(\<And>x s. keeps P (f x s)) \<Longrightarrow> keeps P (fold_io f xs s)"
  by (induction xs arbitrary: s) (auto intro!: keeps_ret keeps_bind)

section \<open>Lists\<close>

definition take_limit :: "int \<Rightarrow> 'a list \<Rightarrow> 'a list" where
  "take_limit n xs = take (nat n) xs"

lemma length_take_limit: "0 \<le> n \<Longrightarrow> int (length (take_limit n xs)) \<le> n"
  by (simp add: take_limit_def)

lemma set_take_limit: "set (take_limit n xs) \<subseteq> set xs"
  by (simp add: take_limit_def set_take_subset)

text \<open>\<open>sort.SliceStable\<close> in descending order of a key.\<close>

definition sort_key_desc :: "('a \<Rightarrow> 'k::linorder) \<Rightarrow> 'a list \<Rightarrow> 'a list" where
  "sort_key_desc k xs = rev (sort_key k (rev xs))"

lemma set_sort_key_desc [simp]: "set (sort_key_desc k xs) = set xs"
  by (simp add: sort_key_desc_def)

lemma filter_map_cond:
  "(\<And>r. r \<in> set rs \<Longrightarrow> Q (if P r then f r else r) = Q r) \<Longrightarrow>
   length (filter Q (map (\<lambda>r. if P r then f r else r) rs)) = length (filter Q rs)"
  by (induction rs) auto

end
