(* ===== verification/Go_Strings.thy ===== *)
theory Go_Strings
  imports Prelude "HOL-Library.Sublist"
begin

text \<open>
  Go strings are byte sequences, modelled as \<^typ>\<open>string\<close> (a list of 8-bit characters).
  This theory holds the functions of the standard library the module calls on them
  (\<open>strings.TrimSpace\<close>, \<open>Split\<close>, \<open>Join\<close>, \<open>Contains\<close>, \<open>HasPrefix\<close>, \<open>html.EscapeString\<close>,
  decimal printing) and the string helpers the module's packages repeat: the stable-key
  pattern, \<open>uniqueStrings\<close>/\<open>uniqueUsers\<close>, and \<open>invalid(code, params...)\<close>.
\<close>

section \<open>Trimming\<close>

text \<open>The UTF-8 encodings of the code points for which \<open>unicode.IsSpace\<close> holds.\<close>

definition space_units :: "string list" where
  "space_units =
    [[CHR 0x09], [CHR 0x0A], [CHR 0x0B], [CHR 0x0C], [CHR 0x0D], [CHR 0x20],
     [CHR 0xC2, CHR 0x85], [CHR 0xC2, CHR 0xA0], [CHR 0xE1, CHR 0x9A, CHR 0x80],
     [CHR 0xE2, CHR 0x80, CHR 0x80], [CHR 0xE2, CHR 0x80, CHR 0x81], [CHR 0xE2, CHR 0x80, CHR 0x82],
     [CHR 0xE2, CHR 0x80, CHR 0x83], [CHR 0xE2, CHR 0x80, CHR 0x84], [CHR 0xE2, CHR 0x80, CHR 0x85],
     [CHR 0xE2, CHR 0x80, CHR 0x86], [CHR 0xE2, CHR 0x80, CHR 0x87], [CHR 0xE2, CHR 0x80, CHR 0x88],
     [CHR 0xE2, CHR 0x80, CHR 0x89], [CHR 0xE2, CHR 0x80, CHR 0x8A], [CHR 0xE2, CHR 0x80, CHR 0xA8],
     [CHR 0xE2, CHR 0x80, CHR 0xA9], [CHR 0xE2, CHR 0x80, CHR 0xAF], [CHR 0xE2, CHR 0x81, CHR 0x9F],
     [CHR 0xE3, CHR 0x80, CHR 0x80]]"

fun strip_any :: "string list \<Rightarrow> string \<Rightarrow> string option" where
  "strip_any [] s = None"
| "strip_any (u # us) s =
     (if u \<noteq> [] \<and> prefix u s then Some (drop (length u) s) else strip_any us s)"

lemma strip_any_shorter: "strip_any us s = Some t \<Longrightarrow> length t < length s"
  by (induction us) (auto split: if_splits simp: prefix_def)

lemma strip_any_None: "strip_any us s = None \<longleftrightarrow> (\<forall>u \<in> set us. u \<noteq> [] \<longrightarrow> \<not> prefix u s)"
  by (induction us) auto

function trim_units :: "string list \<Rightarrow> string \<Rightarrow> string" where
  "trim_units us s = (case strip_any us s of None \<Rightarrow> s | Some t \<Rightarrow> trim_units us t)"
  by pat_completeness auto
termination
  by (relation "measure (\<lambda>(us, s). length s)") (auto dest: strip_any_shorter)

declare trim_units.simps [simp del]

lemma trim_units_done: "strip_any us (trim_units us s) = None"
proof (induction us s rule: trim_units.induct)
  case (1 us s)
  then show ?case
    by (cases "strip_any us s") (simp_all add: trim_units.simps [of us s])
qed

lemma trim_units_id: "strip_any us s = None \<Longrightarrow> trim_units us s = s"
  by (simp add: trim_units.simps [of us s])

lemma trim_units_suffix: "suffix (trim_units us s) s"
proof (induction us s rule: trim_units.induct)
  case (1 us s)
  have drop: "suffix t s" if "strip_any us s = Some t" for t
    using that by (induction us) (auto split: if_splits simp: suffix_drop)
  show ?case
  proof (cases "strip_any us s")
    case None
    then show ?thesis by (simp add: trim_units_id)
  next
    case (Some t)
    then have "suffix (trim_units us t) t" by (rule "1")
    from this drop [OF Some] have "suffix (trim_units us t) s" by (rule suffix_order.trans)
    with Some show ?thesis by (simp add: trim_units.simps [of us s])
  qed
qed

definition trim_left :: "string \<Rightarrow> string" where
  "trim_left s = trim_units space_units s"

definition trim_right :: "string \<Rightarrow> string" where
  "trim_right s = rev (trim_units (map rev space_units) (rev s))"

definition trim_space :: "string \<Rightarrow> string" where
  "trim_space s = trim_right (trim_left s)"

lemma trim_right_prefix: "prefix (trim_right s) s"
  using trim_units_suffix [of "map rev space_units" "rev s"]
  by (simp add: trim_right_def suffix_to_prefix)

lemma trim_space_stable:
  "strip_any space_units (trim_space s) = None \<and>
   strip_any (map rev space_units) (rev (trim_space s)) = None"
proof
  have "strip_any space_units (trim_left s) = None"
    by (simp add: trim_left_def trim_units_done)
  moreover have "prefix (trim_space s) (trim_left s)"
    by (simp add: trim_space_def trim_right_prefix)
  ultimately show "strip_any space_units (trim_space s) = None"
    unfolding strip_any_None by (blast intro: prefix_order.trans)
  show "strip_any (map rev space_units) (rev (trim_space s)) = None"
    by (simp add: trim_space_def trim_right_def trim_units_done)
qed

lemma trim_space_id:
  assumes "strip_any space_units s = None" "strip_any (map rev space_units) (rev s) = None"
  shows "trim_space s = s"
  using assms by (simp add: trim_space_def trim_left_def trim_right_def trim_units_id)

lemma trim_space_idem [simp]: "trim_space (trim_space s) = trim_space s"
  using trim_space_stable [of s] by (intro trim_space_id) auto

lemma trim_space_Nil [simp]: "trim_space [] = []"
proof -
  have "strip_any us [] = None" for us by (induction us) auto
  then show ?thesis by (simp add: trim_space_id)
qed

text \<open>A string whose first and last characters are ASCII and not white space is its own trim.\<close>

definition plain_char :: "char \<Rightarrow> bool" where
  "plain_char c \<longleftrightarrow> 0x20 < (of_char c :: nat) \<and> (of_char c :: nat) < 0x80"

lemma strip_any_plain:
  assumes "s = [] \<or> plain_char (hd s)" and "\<And>u. u \<in> set us \<Longrightarrow> u = [] \<or> \<not> plain_char (hd u)"
  shows "strip_any us s = None"
  unfolding strip_any_None
proof (intro ballI impI notI)
  fix u assume "u \<in> set us" "u \<noteq> []" "prefix u s"
  then have "s \<noteq> []" "hd s = hd u" by (auto simp: prefix_def)
  with assms \<open>u \<in> set us\<close> \<open>u \<noteq> []\<close> show False by auto
qed

lemma space_units_not_plain: "u \<in> set space_units \<Longrightarrow> u \<noteq> [] \<and> \<not> plain_char (hd u) \<and> \<not> plain_char (last u)"
  unfolding space_units_def plain_char_def by auto

lemma trim_space_plain:
  assumes "s = [] \<or> plain_char (hd s) \<and> plain_char (last s)"
  shows "trim_space s = s"
proof (rule trim_space_id)
  show "strip_any space_units s = None"
    by (rule strip_any_plain) (use assms space_units_not_plain in auto)
  show "strip_any (map rev space_units) (rev s) = None"
    by (rule strip_any_plain) (use assms space_units_not_plain in \<open>auto simp: hd_rev\<close>)
qed

lemma set_trim_space: "set (trim_space s) \<subseteq> set s"
proof -
  have "set (trim_right (trim_left s)) \<subseteq> set (trim_left s)"
    by (rule set_mono_prefix [OF trim_right_prefix])
  also have "\<dots> \<subseteq> set s"
    unfolding trim_left_def by (rule set_mono_suffix [OF trim_units_suffix])
  finally show ?thesis by (simp add: trim_space_def)
qed

section \<open>Searching, splitting, joining\<close>

definition contains_str :: "string \<Rightarrow> string \<Rightarrow> bool" where
  "contains_str s t = sublist t s"

definition has_prefix :: "string \<Rightarrow> string \<Rightarrow> bool" where
  "has_prefix s t = prefix t s"

definition has_suffix :: "string \<Rightarrow> string \<Rightarrow> bool" where
  "has_suffix s t = suffix t s"

definition contains_any :: "string \<Rightarrow> string \<Rightarrow> bool" where
  "contains_any s chars = list_ex (\<lambda>c. c \<in> set chars) s"

fun split_on :: "char \<Rightarrow> string \<Rightarrow> string list" where
  "split_on c [] = [[]]"
| "split_on c (x # xs) =
     (if x = c then [] # split_on c xs
      else case split_on c xs of [] \<Rightarrow> [[x]] | w # ws \<Rightarrow> (x # w) # ws)"

fun join_with :: "string \<Rightarrow> string list \<Rightarrow> string" where
  "join_with sep [] = []"
| "join_with sep [x] = x"
| "join_with sep (x # y # zs) = x @ sep @ join_with sep (y # zs)"

lemma split_on_nonempty [simp]: "split_on c s \<noteq> []"
  by (induction s) (auto split: list.splits)

lemma split_on_no_sep: "c \<notin> set s \<Longrightarrow> split_on c s = [s]"
  by (induction s) auto

lemma split_on_append_sep:
  "c \<notin> set s \<Longrightarrow> split_on c (s @ c # t) = s # split_on c t"
  by (induction s) (auto split: list.splits)

text \<open>
  \<open>strings.ToLower\<close> on ASCII letters. The results the module takes from it are compared
  with ASCII constants or used as a search text; other letters are left as they are.
\<close>

definition lower_char :: "char \<Rightarrow> char" where
  "lower_char c = (if CHR ''A'' \<le> c \<and> c \<le> CHR ''Z'' then char_of ((of_char c :: nat) + 32) else c)"

definition to_lower :: "string \<Rightarrow> string" where
  "to_lower s = map lower_char s"

definition equal_fold :: "string \<Rightarrow> string \<Rightarrow> bool" where
  "equal_fold a b = (to_lower a = to_lower b)"

text \<open>\<open>fmt.Sprint\<close> and \<open>%d\<close> of an integer.\<close>

fun show_nat :: "nat \<Rightarrow> string" where
  "show_nat n = (if n < 10 then [char_of (48 + n)] else show_nat (n div 10) @ [char_of (48 + n mod 10)])"

declare show_nat.simps [simp del]

definition show_int :: "int \<Rightarrow> string" where
  "show_int i = (if i < 0 then ''-'' @ show_nat (nat (- i)) else show_nat (nat i))"

lemma show_nat_nonempty [simp]: "show_nat n \<noteq> []"
  by (subst show_nat.simps) auto

text \<open>\<open>html.EscapeString\<close>.\<close>

definition escape_char :: "char \<Rightarrow> string" where
  "escape_char c =
    (if c = CHR ''&'' then ''&amp;''
     else if c = CHR 0x27 then ''&#39;''
     else if c = CHR ''<'' then ''&lt;''
     else if c = CHR ''>'' then ''&gt;''
     else if c = CHR 0x22 then ''&#34;''
     else [c])"

definition escape_html :: "string \<Rightarrow> string" where
  "escape_html s = concat (map escape_char s)"

lemma escape_html_Nil [simp]: "escape_html [] = []"
  by (simp add: escape_html_def)

lemma escape_html_append [simp]: "escape_html (s @ t) = escape_html s @ escape_html t"
  by (simp add: escape_html_def)

lemma escape_html_safe:
  "c \<in> set (escape_html s) \<Longrightarrow> c \<noteq> CHR ''<'' \<and> c \<noteq> CHR ''>'' \<and> c \<noteq> CHR 0x22 \<and> c \<noteq> CHR 0x27"
  by (auto simp: escape_html_def escape_char_def split: if_splits)

section \<open>The stable-key pattern\<close>

text \<open>\<open>^[a-z][a-z0-9_.-]*$\<close>.\<close>

definition key_start :: "char \<Rightarrow> bool" where
  "key_start c \<longleftrightarrow> CHR ''a'' \<le> c \<and> c \<le> CHR ''z''"

definition key_char :: "char \<Rightarrow> bool" where
  "key_char c \<longleftrightarrow> key_start c \<or> CHR ''0'' \<le> c \<and> c \<le> CHR ''9'' \<or> c = CHR ''_'' \<or> c = CHR ''.'' \<or> c = CHR ''-''"

definition stable_key :: "string \<Rightarrow> bool" where
  "stable_key s = (case s of [] \<Rightarrow> False | c # cs \<Rightarrow> key_start c \<and> list_all key_char cs)"

lemma key_char_plain: "key_char c \<Longrightarrow> plain_char c"
  by (auto simp: key_char_def key_start_def plain_char_def less_eq_char_def)

lemma stable_key_nonempty: "stable_key s \<Longrightarrow> s \<noteq> []"
  by (auto simp: stable_key_def)

lemma stable_key_chars: "stable_key s \<Longrightarrow> c \<in> set s \<Longrightarrow> key_char c"
  by (auto simp: stable_key_def key_char_def list_all_iff split: list.splits)

lemma stable_key_trim [simp]: "stable_key s \<Longrightarrow> trim_space s = s"
  by (rule trim_space_plain) (metis hd_in_set key_char_plain last_in_set stable_key_chars stable_key_nonempty)

section \<open>Unique lists\<close>

text \<open>
  \<open>uniqueStrings\<close> and \<open>uniqueUsers\<close> trim every value, drop the empty ones and keep the
  first occurrence of each; the identifiers \<open>UserID\<close> and \<open>WorkspaceID\<close> are strings.
\<close>

type_synonym user_id = string
type_synonym workspace_id = string

fun unique_from :: "string list \<Rightarrow> string list \<Rightarrow> string list" where
  "unique_from seen [] = []"
| "unique_from seen (v # vs) =
     (let t = trim_space v in
      if t \<noteq> [] \<and> t \<notin> set seen then t # unique_from (t # seen) vs else unique_from seen vs)"

definition unique_strings :: "string list \<Rightarrow> string list" where
  "unique_strings vs = unique_from [] vs"

definition unique_users :: "user_id list \<Rightarrow> user_id list" where
  "unique_users vs = unique_from [] vs"

lemma set_unique_from: "set (unique_from seen vs) = (trim_space ` set vs - {[]}) - set seen"
  by (induction seen vs rule: unique_from.induct) (auto simp: Let_def)

lemma distinct_unique_from: "distinct (unique_from seen vs)"
  by (induction seen vs rule: unique_from.induct) (auto simp: Let_def set_unique_from)

lemma unique_from_id:
  "distinct vs \<Longrightarrow> (\<And>v. v \<in> set vs \<Longrightarrow> trim_space v = v \<and> v \<noteq> [] \<and> v \<notin> set seen) \<Longrightarrow>
   unique_from seen vs = vs"
  by (induction seen vs rule: unique_from.induct) (auto simp: Let_def)

lemma length_unique_from: "length (unique_from seen vs) \<le> length vs"
  by (induction seen vs rule: unique_from.induct) (auto simp: Let_def le_SucI)

lemma unique_users_facts:
  "distinct (unique_users vs)" "set (unique_users vs) = trim_space ` set vs - {[]}"
  by (simp_all add: unique_users_def distinct_unique_from set_unique_from)

lemma unique_users_idem [simp]: "unique_users (unique_users vs) = unique_users vs"
proof -
  have "distinct (unique_from [] vs)" by (rule distinct_unique_from)
  moreover have "trim_space v = v \<and> v \<noteq> []" if "v \<in> set (unique_from [] vs)" for v
    using that by (auto simp: set_unique_from)
  ultimately show ?thesis by (simp add: unique_users_def unique_from_id)
qed

section \<open>Error construction with parameters\<close>

text \<open>The loop over \<open>params\<close> of \<open>invalid\<close>: pairs of key and value, blank keys skipped.\<close>

fun pair_params :: "string list \<Rightarrow> (string \<times> string) list" where
  "pair_params (k # v # rest) =
     (if trim_space k \<noteq> [] then (trim_space k, v) # pair_params rest else pair_params rest)"
| "pair_params _ = []"

definition invalid :: "string \<Rightarrow> string list \<Rightarrow> err" where
  "invalid code params = new_error ErrorInvalid code None (pair_params params)"

definition not_found :: "string \<Rightarrow> string list \<Rightarrow> err" where
  "not_found code params = new_error ErrorNotFound code None (pair_params params)"

definition conflict :: "string \<Rightarrow> string list \<Rightarrow> err" where
  "conflict code params = new_error ErrorConflict code None (pair_params params)"

definition forbidden :: "string \<Rightarrow> string list \<Rightarrow> err" where
  "forbidden code params = new_error ErrorForbidden code None (pair_params params)"

definition unavailable :: "string \<Rightarrow> err option \<Rightarrow> string list \<Rightarrow> err" where
  "unavailable code cause params = new_error ErrorUnavailable code cause (pair_params params)"

lemma error_code_helpers [simp]:
  "error_code (invalid c ps) = c" "error_code (not_found c ps) = c"
  "error_code (conflict c ps) = c" "error_code (forbidden c ps) = c"
  "error_code (unavailable c w ps) = c"
  by (simp_all add: invalid_def not_found_def conflict_def forbidden_def unavailable_def)

end
