(* ===== verification/Model.thy ===== *)
theory Model
  imports Go_Strings
begin

text \<open>
  The domain data of the module, one type per Go struct or enumeration of
  \<open>internal/domain/{notification,delivery,inbox,template}/model\<close>. Field names keep the Go
  names, with a prefix per struct. A Go map with string keys is an association list with
  distinct keys; where the code ranges over a map, the order of the list is the order the
  runtime happens to choose. A value of type \<open>any\<close> (a template variable) is a
  \<open>variable_value\<close>; a number carries the text \<open>fmt.Sprint\<close> gives it.
\<close>

datatype variable_value = VNil | VBool bool | VNumber string | VText string
  | VList "variable_value list" | VMap "(string \<times> variable_value) list"

type_synonym variables = "(string \<times> variable_value) list"

section \<open>Notification\<close>

datatype work_kind = WorkInboxEvent | WorkChannelPlan | WorkPublication

record work =
  wk_kind :: work_kind
  wk_workspace :: workspace_id
  wk_task :: string

record recipient =
  rc_id :: user_id
  rc_email :: string
  rc_locale :: string
  rc_timezone :: string

section \<open>Delivery\<close>

record policy =
  po_enabled :: bool
  po_quiet_enabled :: bool
  po_quiet_start :: string
  po_quiet_end :: string
  po_timezone :: string
  po_max_per_hour :: int
  po_dedupe_window :: int
  po_fallback_channels :: "string list"
  po_updated_by :: string
  po_updated_at :: string

record preference =
  pf_recipient :: string
  pf_channels :: "(string \<times> bool) list"
  pf_muted :: "string list"
  pf_updated_by :: string
  pf_updated_at :: string

record reservation =
  rv_id :: string
  rv_recipient :: user_id
  rv_template :: string
  rv_channel :: string
  rv_dedupe :: string
  rv_created_at :: string

record evaluation =
  va_workspace :: workspace_id
  va_template :: string
  va_channel :: string
  va_recipients :: "user_id list"
  va_dedupe :: string
  va_reservation :: string

record decision =
  de_deliver_after :: string
  de_fallback_order :: "string list"

record plan =
  pl_id :: string
  pl_workspace :: workspace_id
  pl_event :: string
  pl_channel :: string
  pl_template :: string
  pl_connector :: string
  pl_connection :: string
  pl_operation :: string
  pl_recipients :: "user_id list"
  pl_locale :: string
  pl_variables :: variables
  pl_dedupe :: string
  pl_mandatory :: bool
  pl_mode :: string
  pl_digest_key :: string
  pl_digest_maximum :: int
  pl_digest_title :: string
  pl_digest_body :: string
  pl_escalation :: int
  pl_cancel_terminal :: bool
  pl_status :: string
  pl_attempts :: int
  pl_next_attempt :: string
  pl_error_code :: string
  pl_outbox :: string
  pl_owner :: string
  pl_lease :: string
  pl_token :: int
  pl_created :: string
  pl_updated :: string

section \<open>Template\<close>

record fact =
  fa_key :: string
  fa_value :: string

record action =
  ac_label :: string
  ac_url :: string
  ac_style :: string

record component =
  co_type :: string
  co_sub_type :: string
  co_index :: string
  co_parameters :: "string list"

record provider_template =
  pt_name :: string
  pt_language :: string
  pt_components :: "component list"

record content =
  ct_subject :: string
  ct_title :: string
  ct_text :: string
  ct_html :: string
  ct_markdown :: string
  ct_facts :: "fact list"
  ct_actions :: "action list"
  ct_provider :: "provider_template option"

record template_variable =
  tv_key :: string
  tv_type :: string
  tv_required :: bool

record fallback =
  fb_template :: string
  fb_connector :: string
  fb_connection :: string
  fb_operation :: string

record template =
  te_key :: string
  te_name :: string
  te_channel :: string
  te_provider :: string
  te_status :: string
  te_version :: int
  te_default_locale :: string
  te_variables :: "template_variable list"
  te_fallbacks :: "fallback list"
  te_locales :: "(string \<times> content) list"
  te_hash :: string

record rendered =
  re_channel :: string
  re_provider :: string
  re_recipients :: "string list"
  re_subject :: string
  re_title :: string
  re_text :: string
  re_html :: string
  re_markdown :: string
  re_message :: string
  re_facts :: "fact list"
  re_actions :: "action list"
  re_provider_template :: "provider_template option"
  re_template :: string
  re_version :: int
  re_locale :: string
  re_content_hash :: string
  re_variables_hash :: string
  re_metadata :: variables
  re_fallbacks :: "fallback list"

text \<open>Management of templates (template/model/management.go).\<close>

record template_record =
  tr_key :: string
  tr_draft :: "template option"
  tr_published :: "template option"
  tr_version :: int
  tr_status :: string
  tr_updated_by :: string
  tr_created :: string
  tr_updated :: string

record template_version =
  ve_template_key :: string
  ve_version :: int
  ve_template :: template
  ve_hash :: string
  ve_published_by :: string
  ve_published_at :: string

datatype publication_status = PublicationPending | PublicationScheduled | PublicationPublishing
  | PublicationPublished | PublicationRejected | PublicationCancelled | PublicationFailed
  | PublicationSuperseded

record publication_request =
  pr_id :: string
  pr_template_key :: string
  pr_snapshot :: template
  pr_candidate_hash :: string
  pr_draft_updated :: string
  pr_status :: publication_status
  pr_scheduled_for :: string
  pr_requested_by :: string
  pr_requested_at :: string
  pr_reviewed_by :: string
  pr_reviewed_at :: string
  pr_published_version :: int
  pr_failure :: string
  pr_owner :: string
  pr_lease :: string
  pr_token :: int
  pr_updated :: string

record publication_transition =
  tn_status :: publication_status
  tn_scheduled_for :: string
  tn_reviewed_by :: string
  tn_reviewed_at :: string
  tn_published_version :: int
  tn_failure :: string
  tn_owner :: string
  tn_token :: int
  tn_updated :: string

section \<open>Inbox\<close>

text \<open>
  The enumerations of inbox/model/state.go are string types in Go; values of them arrive
  from producers and clients and are checked by the validator, so they stay strings here,
  with the constants of the source as abbreviations.
\<close>

abbreviation EventQueued :: string where "EventQueued \<equiv> ''queued''"
abbreviation EventProcessing :: string where "EventProcessing \<equiv> ''processing''"
abbreviation EventMaterialized :: string where "EventMaterialized \<equiv> ''materialized''"
abbreviation EventFailed :: string where "EventFailed \<equiv> ''failed''"

abbreviation MailboxInbox :: string where "MailboxInbox \<equiv> ''inbox''"
abbreviation MailboxUnread :: string where "MailboxUnread \<equiv> ''unread''"
abbreviation MailboxActionRequired :: string where "MailboxActionRequired \<equiv> ''action_required''"
abbreviation MailboxArchived :: string where "MailboxArchived \<equiv> ''archived''"

abbreviation ActionNone :: string where "ActionNone \<equiv> ''none''"
abbreviation ActionOpen :: string where "ActionOpen \<equiv> ''open''"
abbreviation ActionCompleted :: string where "ActionCompleted \<equiv> ''completed''"
abbreviation ActionExpired :: string where "ActionExpired \<equiv> ''expired''"
abbreviation ActionCancelled :: string where "ActionCancelled \<equiv> ''cancelled''"

abbreviation ScopeMine :: string where "ScopeMine \<equiv> ''mine''"
abbreviation ScopeTeam :: string where "ScopeTeam \<equiv> ''team''"
abbreviation ScopeDelegated :: string where "ScopeDelegated \<equiv> ''delegated''"

abbreviation AlertFiring :: string where "AlertFiring \<equiv> ''firing''"
abbreviation AlertAcknowledged :: string where "AlertAcknowledged \<equiv> ''acknowledged''"
abbreviation AlertResolved :: string where "AlertResolved \<equiv> ''resolved''"

record action_ref =
  ar_key :: string
  ar_kind :: string
  ar_label :: string
  ar_resource_type :: string
  ar_resource_id :: string
  ar_style :: string

record snapshot =
  sn_title :: string
  sn_body :: string
  sn_facts :: "fact list"
  sn_actions :: "action_ref list"
  sn_template :: string
  sn_version :: int
  sn_locale :: string
  sn_hash :: string

record intent =
  in_id :: string
  in_workspace :: workspace_id
  in_source_event :: string
  in_event_type :: string
  in_severity :: string
  in_recipients :: "user_id list"
  in_audiences :: "string list"
  in_subject_type :: string
  in_subject_id :: string
  in_subject_version :: string
  in_group :: string
  in_dedupe :: string
  in_action_state :: string
  in_alert_state :: string
  in_expires :: string
  in_occurred :: string
  in_locale :: string
  in_variables :: variables
  in_correlation :: string
  in_trace :: string

record event =
  ev_id :: string
  ev_workspace :: workspace_id
  ev_source :: string
  ev_source_event :: string
  ev_type :: string
  ev_category :: string
  ev_severity :: string
  ev_recipients :: "user_id list"
  ev_audiences :: "string list"
  ev_subject_type :: string
  ev_subject_id :: string
  ev_subject_version :: string
  ev_group :: string
  ev_dedupe :: string
  ev_action_state :: string
  ev_alert_state :: string
  ev_expires :: string
  ev_occurred :: string
  ev_correlation :: string
  ev_trace :: string
  ev_snapshot :: snapshot
  ev_localized :: "(string \<times> snapshot) list"
  ev_plans :: "plan list"
  ev_status :: string
  ev_attempts :: int
  ev_next_attempt :: string
  ev_error_code :: string
  ev_owner :: string
  ev_lease :: string
  ev_token :: int
  ev_created :: string
  ev_updated :: string

record event_failure =
  ef_id :: string
  ef_workspace :: workspace_id
  ef_event :: string
  ef_event_type :: string
  ef_source :: string
  ef_source_event :: string
  ef_stage :: string
  ef_error_code :: string
  ef_attempt :: int
  ef_disposition :: string
  ef_retryable :: bool
  ef_next_attempt :: string
  ef_token :: int
  ef_occurred :: string

text \<open>The mailbox (inbox/model/mailbox.go).\<close>

record item =
  it_id :: string
  it_workspace :: workspace_id
  it_recipient :: user_id
  it_event :: string
  it_event_type :: string
  it_source :: string
  it_category :: string
  it_severity :: string
  it_title :: string
  it_body :: string
  it_facts :: "fact list"
  it_actions :: "action_ref list"
  it_template :: string
  it_template_version :: int
  it_template_locale :: string
  it_template_hash :: string
  it_subject_type :: string
  it_subject_id :: string
  it_subject_version :: string
  it_action_state :: string
  it_alert_state :: string
  it_group :: string
  it_occurrences :: int
  it_first :: string
  it_last :: string
  it_read :: string
  it_archived :: string
  it_expires :: string
  it_created :: string
  it_updated :: string

record mailbox_query =
  qy_workspace :: workspace_id
  qy_viewer :: user_id
  qy_recipient :: user_id
  qy_recipients :: "user_id list"
  qy_reporting :: "user_id list"
  qy_delegated :: "user_id list"
  qy_scope :: string
  qy_mailbox :: string
  qy_query :: string
  qy_categories :: "string list"
  qy_sources :: "string list"
  qy_severities :: "string list"
  qy_action_states :: "string list"
  qy_from :: string
  qy_to :: string
  qy_before_updated :: string
  qy_before_id :: string
  qy_limit :: int

record page =
  pg_items :: "item list"
  pg_cursor :: string
  pg_more :: bool

record facets =
  fc_unread :: int
  fc_action_required :: int
  fc_categories :: "(string \<times> int) list"
  fc_sources :: "(string \<times> int) list"
  fc_severities :: "(string \<times> int) list"

record delegation =
  dg_id :: string
  dg_workspace :: workspace_id
  dg_owner :: user_id
  dg_delegate :: user_id
  dg_starts :: string
  dg_ends :: string
  dg_enabled :: bool
  dg_created :: string
  dg_updated :: string

record saved_view =
  sv_key :: string
  sv_name :: string
  sv_mailbox :: string
  sv_scope :: string
  sv_member :: user_id
  sv_query :: string
  sv_categories :: "string list"
  sv_sources :: "string list"
  sv_severities :: "string list"
  sv_action_states :: "string list"
  sv_from :: string
  sv_to :: string
  sv_created :: string
  sv_updated :: string

record alert_group =
  al_workspace :: workspace_id
  al_recipient :: user_id
  al_group :: string
  al_state :: string
  al_occurrences :: int
  al_first :: string
  al_last :: string
  al_acknowledged_at :: string
  al_acknowledged_by :: user_id
  al_resolved_at :: string
  al_last_event :: string
  al_updated :: string

text \<open>The event catalog (inbox/model/catalog.go).\<close>

record action_descriptor =
  ad_key :: string
  ad_kind :: string
  ad_resource_type :: string
  ad_route :: string

record inbox_content =
  ic_title :: string
  ic_body :: string
  ic_facts :: "fact list"
  ic_labels :: "(string \<times> string) list"

record event_type =
  et_key :: string
  et_source :: string
  et_category :: string
  et_severity :: string
  et_mandatory :: bool
  et_template :: string
  et_default_locale :: string
  et_locales :: "(string \<times> inbox_content) list"
  et_variables :: "template_variable list"
  et_actions :: "action_descriptor list"
  et_audiences :: "string list"
  et_version :: int
  et_status :: string

record rule_channel =
  ch_channel :: string
  ch_template :: string
  ch_connector :: string
  ch_connection :: string
  ch_operation :: string
  ch_mandatory :: bool
  ch_delay :: int
  ch_escalation :: int
  ch_cancel_terminal :: bool
  ch_mode :: string
  ch_digest_window :: int
  ch_digest_maximum :: int

record rule =
  ru_event_type :: string
  ru_enabled :: bool
  ru_audiences :: "string list"
  ru_mandatory :: bool
  ru_minimum_severity :: string
  ru_dedupe_window :: int
  ru_aggregation_window :: int
  ru_reminder_interval :: int
  ru_maximum_reminders :: int
  ru_recovery :: string
  ru_auto_resolve :: bool
  ru_mutable :: bool
  ru_channels :: "rule_channel list"

record resolved_action =
  ra_key :: string
  ra_label :: string
  ra_style :: string
  ra_navigation :: string
  ra_route :: string
  ra_params :: "(string \<times> string) list"
  ra_status :: string

end
