(* ===== verification/Schema.thy ===== *)
theory Schema
  imports Model
begin

text \<open>
  The tables of internal/infrastructure/persistence/database/schema/definition.go, each a
  list of rows in insertion order. A row is a record with one field per column; where the
  columns are exactly the fields of a domain record, the row is that record (with the
  workspace column beside it when the record has none). A \<open>payload_json\<close> column holds the
  domain value itself: the code writes it with \<open>json.Marshal\<close> and reads it back with
  \<open>json.Unmarshal\<close>. The database also has the host's queue-scope table, which the host owns
  and the event writer touches inside its transaction.
\<close>

record event_row =
  er_id :: string
  er_workspace :: workspace_id
  er_source :: string
  er_source_event :: string
  er_status :: string
  er_payload :: event
  er_attempts :: int
  er_next_attempt :: string
  er_error_code :: string
  er_owner :: string
  er_lease :: string
  er_token :: int
  er_occurred :: string
  er_created :: string
  er_updated :: string

record plan_row =
  qr_id :: string
  qr_workspace :: workspace_id
  qr_event :: string
  qr_channel :: string
  qr_status :: string
  qr_payload :: plan
  qr_attempts :: int
  qr_next_attempt :: string
  qr_error_code :: string
  qr_outbox :: string
  qr_owner :: string
  qr_lease :: string
  qr_token :: int
  qr_created :: string
  qr_updated :: string

record item_row =
  ir_id :: string
  ir_workspace :: workspace_id
  ir_recipient :: user_id
  ir_event :: string
  ir_event_type :: string
  ir_source :: string
  ir_category :: string
  ir_severity :: string
  ir_title :: string
  ir_body :: string
  ir_search :: string
  ir_payload :: item
  ir_subject_type :: string
  ir_subject_id :: string
  ir_action_state :: string
  ir_alert_state :: string
  ir_group :: string
  ir_occurrences :: int
  ir_first :: string
  ir_last :: string
  ir_read :: string
  ir_archived :: string
  ir_expires :: string
  ir_created :: string
  ir_updated :: string

record template_row =
  xr_key :: string
  xr_draft :: "template option"
  xr_published :: "template option"
  xr_version :: int
  xr_status :: string
  xr_updated_by :: string
  xr_created :: string
  xr_updated :: string
  xr_workspace :: workspace_id

record version_row =
  vr_id :: string
  vr_template_key :: string
  vr_version :: int
  vr_payload :: template
  vr_hash :: string
  vr_published_by :: string
  vr_published_at :: string
  vr_workspace :: workspace_id

record request_row =
  rr_request :: publication_request
  rr_workspace :: workspace_id

record lock_row =
  lk_template_key :: string
  lk_request :: string
  lk_created :: string
  lk_workspace :: workspace_id

record policy_row =
  pp_key :: string
  pp_payload :: policy
  pp_updated_by :: string
  pp_updated_at :: string
  pp_workspace :: workspace_id

record preference_row =
  fr_workspace :: workspace_id
  fr_recipient :: string
  fr_payload :: preference
  fr_updated_by :: string
  fr_updated_at :: string

record reservation_row =
  vv_workspace :: workspace_id
  vv_reservation :: reservation

record saved_view_row =
  wr_workspace :: workspace_id
  wr_recipient :: user_id
  wr_key :: string
  wr_payload :: saved_view
  wr_created :: string
  wr_updated :: string

record archive_row =
  aw_id :: string
  aw_workspace :: workspace_id
  aw_policy_key :: string
  aw_policy_version :: string
  aw_job :: string
  aw_table :: string
  aw_resource :: string
  aw_hash :: string
  aw_payload :: string
  aw_archived_at :: string

record control_row =
  cw_workspace :: workspace_id
  cw_migration :: string
  cw_role :: string
  cw_state :: string
  cw_fingerprint :: string
  cw_frozen :: string
  cw_activated :: string
  cw_updated :: string

type_synonym queue_scopes = "(work_kind \<times> workspace_id \<times> string) list"

record database =
  db_events :: "event_row list"
  db_failures :: "event_failure list"
  db_plans :: "plan_row list"
  db_items :: "item_row list"
  db_groups :: "alert_group list"
  db_delegations :: "delegation list"
  db_views :: "saved_view_row list"
  db_templates :: "template_row list"
  db_versions :: "version_row list"
  db_requests :: "request_row list"
  db_locks :: "lock_row list"
  db_policies :: "policy_row list"
  db_preferences :: "preference_row list"
  db_reservations :: "reservation_row list"
  db_archive :: "archive_row list"
  db_controls :: "control_row list"
  db_scopes :: queue_scopes

definition empty_database :: database where
  "empty_database = \<lparr>db_events = [], db_failures = [], db_plans = [], db_items = [], db_groups = [],
     db_delegations = [], db_views = [], db_templates = [], db_versions = [], db_requests = [],
     db_locks = [], db_policies = [], db_preferences = [], db_reservations = [], db_archive = [],
     db_controls = [], db_scopes = []\<rparr>"

section \<open>Unique indexes\<close>

text \<open>
  Two rows clash when they agree on the columns of a primary key or unique index. The keys
  of the template tables, the publication tables and the delivery policy do not contain the
  workspace column, which a later migration added to the tables only.
\<close>

definition event_clash :: "event_row \<Rightarrow> event_row \<Rightarrow> bool" where
  "event_clash a b \<longleftrightarrow> er_workspace a = er_workspace b \<and>
     (er_id a = er_id b \<or> er_source a = er_source b \<and> er_source_event a = er_source_event b)"

definition failure_clash :: "event_failure \<Rightarrow> event_failure \<Rightarrow> bool" where
  "failure_clash a b \<longleftrightarrow> ef_workspace a = ef_workspace b \<and>
     (ef_id a = ef_id b \<or> ef_event a = ef_event b \<and> ef_token a = ef_token b)"

definition plan_clash :: "plan_row \<Rightarrow> plan_row \<Rightarrow> bool" where
  "plan_clash a b \<longleftrightarrow> qr_workspace a = qr_workspace b \<and> qr_id a = qr_id b"

definition item_clash :: "item_row \<Rightarrow> item_row \<Rightarrow> bool" where
  "item_clash a b \<longleftrightarrow> ir_workspace a = ir_workspace b \<and> ir_id a = ir_id b"

definition group_clash :: "alert_group \<Rightarrow> alert_group \<Rightarrow> bool" where
  "group_clash a b \<longleftrightarrow> al_workspace a = al_workspace b \<and> al_recipient a = al_recipient b \<and>
     al_group a = al_group b"

definition delegation_clash :: "delegation \<Rightarrow> delegation \<Rightarrow> bool" where
  "delegation_clash a b \<longleftrightarrow> dg_workspace a = dg_workspace b \<and> dg_id a = dg_id b"

definition view_clash :: "saved_view_row \<Rightarrow> saved_view_row \<Rightarrow> bool" where
  "view_clash a b \<longleftrightarrow> wr_workspace a = wr_workspace b \<and> wr_recipient a = wr_recipient b \<and>
     wr_key a = wr_key b"

definition template_clash :: "template_row \<Rightarrow> template_row \<Rightarrow> bool" where
  "template_clash a b \<longleftrightarrow> xr_key a = xr_key b"

definition version_clash :: "version_row \<Rightarrow> version_row \<Rightarrow> bool" where
  "version_clash a b \<longleftrightarrow> vr_template_key a = vr_template_key b \<and> vr_version a = vr_version b"

definition request_clash :: "request_row \<Rightarrow> request_row \<Rightarrow> bool" where
  "request_clash a b \<longleftrightarrow> pr_id (rr_request a) = pr_id (rr_request b)"

definition lock_clash :: "lock_row \<Rightarrow> lock_row \<Rightarrow> bool" where
  "lock_clash a b \<longleftrightarrow> lk_template_key a = lk_template_key b"

definition policy_clash :: "policy_row \<Rightarrow> policy_row \<Rightarrow> bool" where
  "policy_clash a b \<longleftrightarrow> pp_key a = pp_key b"

definition preference_clash :: "preference_row \<Rightarrow> preference_row \<Rightarrow> bool" where
  "preference_clash a b \<longleftrightarrow> fr_workspace a = fr_workspace b \<and> fr_recipient a = fr_recipient b"

definition reservation_clash :: "reservation_row \<Rightarrow> reservation_row \<Rightarrow> bool" where
  "reservation_clash a b \<longleftrightarrow> vv_workspace a = vv_workspace b \<and>
     rv_id (vv_reservation a) = rv_id (vv_reservation b)"

definition archive_clash :: "archive_row \<Rightarrow> archive_row \<Rightarrow> bool" where
  "archive_clash a b \<longleftrightarrow> aw_id a = aw_id b \<or> aw_workspace a = aw_workspace b \<and>
     aw_policy_key a = aw_policy_key b \<and> aw_table a = aw_table b \<and> aw_resource a = aw_resource b"

definition control_clash :: "control_row \<Rightarrow> control_row \<Rightarrow> bool" where
  "control_clash a b \<longleftrightarrow> cw_workspace a = cw_workspace b"

lemmas clash_defs = event_clash_def failure_clash_def plan_clash_def item_clash_def group_clash_def
  delegation_clash_def view_clash_def template_clash_def version_clash_def request_clash_def
  lock_clash_def policy_clash_def preference_clash_def reservation_clash_def archive_clash_def control_clash_def

end
