(* ===== verification/Sql.thy ===== *)
theory Sql
  imports Schema
begin

text \<open>
  The SQL driver as the stores see it (\<open>sqlhost.Database\<close>, \<open>base.SQLStore\<close> in
  internal/infrastructure/persistence/base/sql_store.go). The world is the committed database
  and a schedule of driver outcomes, one per round trip: the statement is done, it is refused
  without an effect, or its effect happens and the reply is lost. An empty schedule means
  that every further round trip succeeds. \<open>transaction\<close> is \<open>BeginTx\<close> at serializable
  isolation with \<open>defer tx.Rollback()\<close>: the database of the world changes only when the body
  asks for a commit and the commit happens (its reply may still be lost).

  A table is a pair of a selector and a replacement of a list of rows of the database. Statements are the ones the
  stores build over any representation \<open>'d\<close> of the database (the typed tables of \<open>Schema\<close>, or rows of plain driver
  values as the portability store reads them): select with a predicate, update of the rows matching a predicate with the
  number of rows as result, insert with the unique indexes of the table, delete.
\<close>

datatype outcome = Done | Refused | Lost

record 'd driver =
  db :: 'd
  outcomes :: "outcome list"

type_synonym world = "database driver"
type_synonym ('d, 'a) statement = "('d driver, 'a) io"
type_synonym 'a sql = "(database, 'a) statement"

definition next_outcome :: "'d driver \<Rightarrow> outcome \<times> 'd driver" where
  "next_outcome w = (case outcomes w of [] \<Rightarrow> (Done, w) | x # xs \<Rightarrow> (x, w\<lparr>outcomes := xs\<rparr>))"

definition query :: "('d \<Rightarrow> 'a) \<Rightarrow> ('d, 'a) statement" where
  "query f w = (case next_outcome w of
     (Done, w') \<Rightarrow> (Inr (f (db w')), w')
   | (_, w') \<Rightarrow> (Inl DriverError, w'))"

definition exec :: "('d \<Rightarrow> err + ('a \<times> 'd)) \<Rightarrow> ('d, 'a) statement" where
  "exec f w = (case next_outcome w of
     (Refused, w') \<Rightarrow> (Inl DriverError, w')
   | (Done, w') \<Rightarrow> (case f (db w') of Inl e \<Rightarrow> (Inl e, w') | Inr (a, d) \<Rightarrow> (Inr a, w'\<lparr>db := d\<rparr>))
   | (Lost, w') \<Rightarrow> (case f (db w') of Inl e \<Rightarrow> (Inl e, w') | Inr (a, d) \<Rightarrow> (Inl DriverError, w'\<lparr>db := d\<rparr>)))"

text \<open>
  \<open>begin_tx\<close> keeps the database to return to, \<open>in_tx\<close> runs the body and ends the transaction.
  The result \<open>(True, a)\<close> of the body asks for the commit, \<open>(False, a)\<close> returns without one.
\<close>

definition begin_tx :: "('d, 'd) statement" where
  "begin_tx = query (\<lambda>d. d)"

definition in_tx :: "'d \<Rightarrow> ('d, bool \<times> 'a) statement \<Rightarrow> ('d, 'a) statement" where
  "in_tx saved body w = (case body w of
       (Inl e, w2) \<Rightarrow> (Inl e, w2\<lparr>db := saved\<rparr>)
     | (Inr (c, a), w2) \<Rightarrow>
         (if \<not> c then (Inr a, w2\<lparr>db := saved\<rparr>)
          else case next_outcome w2 of
             (Done, w3) \<Rightarrow> (Inr a, w3)
           | (Lost, w3) \<Rightarrow> (Inl DriverError, w3)
           | (Refused, w3) \<Rightarrow> (Inl DriverError, w3\<lparr>db := saved\<rparr>)))"

definition transaction :: "('d, bool \<times> 'a) statement \<Rightarrow> ('d, 'a) statement" where
  "transaction body = bind_io begin_tx (\<lambda>saved. in_tx saved body)"

definition commit_with :: "'a \<Rightarrow> ('d, bool \<times> 'a) statement" where
  "commit_with a = ret (True, a)"

definition leave_with :: "'a \<Rightarrow> ('d, bool \<times> 'a) statement" where
  "leave_with a = ret (False, a)"

text \<open>\<open>fmt.Errorf("...: %w", err)\<close> around an action.\<close>

definition wrapping :: "string \<Rightarrow> ('d, 'a) statement \<Rightarrow> ('d, 'a) statement" where
  "wrapping msg m w = (case m w of (Inl e, w') \<Rightarrow> (Inl (Wrapped msg e), w') | r \<Rightarrow> r)"

definition transaction_wrapped :: "string \<Rightarrow> ('d, bool \<times> 'a) statement \<Rightarrow> ('d, 'a) statement" where
  "transaction_wrapped msg body = bind_io (wrapping msg begin_tx) (\<lambda>saved. in_tx saved body)"

section \<open>Statements\<close>

type_synonym ('d, 'r) table = "('d \<Rightarrow> 'r list) \<times> ('r list \<Rightarrow> 'd \<Rightarrow> 'd)"

definition select_rows :: "('d, 'r) table \<Rightarrow> ('r \<Rightarrow> bool) \<Rightarrow> ('d, 'r list) statement" where
  "select_rows t P = query (\<lambda>d. filter P (fst t d))"

text \<open>\<open>QueryRowContext(...).Scan\<close>: the first row, or \<open>sql.ErrNoRows\<close>.\<close>

definition select_row :: "('d, 'r) table \<Rightarrow> ('r \<Rightarrow> bool) \<Rightarrow> ('d, 'r option) statement" where
  "select_row t P = query (\<lambda>d. List.find P (fst t d))"

definition count_rows :: "('d, 'r) table \<Rightarrow> ('r \<Rightarrow> bool) \<Rightarrow> ('d, int) statement" where
  "count_rows t P = query (\<lambda>d. int (length (filter P (fst t d))))"

definition update_where :: "('r \<Rightarrow> bool) \<Rightarrow> ('r \<Rightarrow> 'r) \<Rightarrow> 'r list \<Rightarrow> 'r list" where
  "update_where P f rs = map (\<lambda>r. if P r then f r else r) rs"

definition update_rows :: "('d, 'r) table \<Rightarrow> ('r \<Rightarrow> bool) \<Rightarrow> ('r \<Rightarrow> 'r) \<Rightarrow> ('d, int) statement" where
  "update_rows t P f =
     exec (\<lambda>d. Inr (int (length (filter P (fst t d))), snd t (update_where P f (fst t d)) d))"

definition insert_row :: "('d, 'r) table \<Rightarrow> ('r \<Rightarrow> 'r \<Rightarrow> bool) \<Rightarrow> string \<Rightarrow> 'r \<Rightarrow> ('d, unit) statement" where
  "insert_row t clash name r =
     exec (\<lambda>d. if list_ex (clash r) (fst t d) then Inl (ConstraintError name)
               else Inr ((), snd t (fst t d @ [r]) d))"

definition delete_rows :: "('d, 'r) table \<Rightarrow> ('r \<Rightarrow> bool) \<Rightarrow> ('d, int) statement" where
  "delete_rows t P =
     exec (\<lambda>d. Inr (int (length (filter P (fst t d))), snd t (filter (\<lambda>r. \<not> P r) (fst t d)) d))"

text \<open>
  \<open>base.SQLStore.WorkspaceInsert\<close>: the workspace column of the row has to be the workspace of
  the statement (both trimmed), else the call fails before it reaches the driver. The
  builder binds the workspace it is given; the callers pass the same value for both.
\<close>

definition workspace_insert ::
  "('d, 'r) table \<Rightarrow> ('r \<Rightarrow> 'r \<Rightarrow> bool) \<Rightarrow> string \<Rightarrow> workspace_id \<Rightarrow> workspace_id \<Rightarrow> 'r \<Rightarrow> ('d, unit) statement" where
  "workspace_insert t clash name ws column r =
     (if trim_space column \<noteq> trim_space ws
      then fail (ErrorText ''notification workspace insert has inconsistent workspace_id'')
      else insert_row t clash name r)"

abbreviation "events_table \<equiv> (db_events, \<lambda>rs. db_events_update (\<lambda>_. rs))"
abbreviation "failures_table \<equiv> (db_failures, \<lambda>rs. db_failures_update (\<lambda>_. rs))"
abbreviation "plans_table \<equiv> (db_plans, \<lambda>rs. db_plans_update (\<lambda>_. rs))"
abbreviation "items_table \<equiv> (db_items, \<lambda>rs. db_items_update (\<lambda>_. rs))"
abbreviation "groups_table \<equiv> (db_groups, \<lambda>rs. db_groups_update (\<lambda>_. rs))"
abbreviation "delegations_table \<equiv> (db_delegations, \<lambda>rs. db_delegations_update (\<lambda>_. rs))"
abbreviation "views_table \<equiv> (db_views, \<lambda>rs. db_views_update (\<lambda>_. rs))"
abbreviation "templates_table \<equiv> (db_templates, \<lambda>rs. db_templates_update (\<lambda>_. rs))"
abbreviation "versions_table \<equiv> (db_versions, \<lambda>rs. db_versions_update (\<lambda>_. rs))"
abbreviation "requests_table \<equiv> (db_requests, \<lambda>rs. db_requests_update (\<lambda>_. rs))"
abbreviation "locks_table \<equiv> (db_locks, \<lambda>rs. db_locks_update (\<lambda>_. rs))"
abbreviation "policies_table \<equiv> (db_policies, \<lambda>rs. db_policies_update (\<lambda>_. rs))"
abbreviation "preferences_table \<equiv> (db_preferences, \<lambda>rs. db_preferences_update (\<lambda>_. rs))"
abbreviation "reservations_table \<equiv> (db_reservations, \<lambda>rs. db_reservations_update (\<lambda>_. rs))"
abbreviation "controls_table \<equiv> (db_controls, \<lambda>rs. db_controls_update (\<lambda>_. rs))"
abbreviation "archive_table \<equiv> (db_archive, \<lambda>rs. db_archive_update (\<lambda>_. rs))"

section \<open>The host's queue scopes\<close>

text \<open>
  \<open>QueueScopeIndex\<close> (event/store.go, delivery/store.go): which workspaces have work of a
  kind is recorded by the host, through the executor it is given, so that a registration is
  part of the caller's transaction. The two functions are the host's.
\<close>

record queue_index =
  qi_register :: "work_kind \<Rightarrow> workspace_id \<Rightarrow> string \<Rightarrow> queue_scopes \<Rightarrow> err + queue_scopes"
  qi_workspaces :: "work_kind \<Rightarrow> int \<Rightarrow> queue_scopes \<Rightarrow> err + workspace_id list"

definition register_scope :: "queue_index \<Rightarrow> work_kind \<Rightarrow> workspace_id \<Rightarrow> string \<Rightarrow> unit sql" where
  "register_scope qi kind ws at = exec (\<lambda>d. case qi_register qi kind ws at (db_scopes d) of
       Inl e \<Rightarrow> Inl e | Inr s \<Rightarrow> Inr ((), d\<lparr>db_scopes := s\<rparr>))"

definition scope_workspaces :: "queue_index \<Rightarrow> work_kind \<Rightarrow> int \<Rightarrow> workspace_id list sql" where
  "scope_workspaces qi kind n = bind_io (query (\<lambda>d. qi_workspaces qi kind n (db_scopes d)))
     (\<lambda>r. case r of Inl e \<Rightarrow> fail e | Inr ws \<Rightarrow> ret ws)"

definition workspace_scan_limit :: "int \<Rightarrow> int" where
  "workspace_scan_limit limit = min 256 (max 32 (limit * 2))"

section \<open>Facts about the driver\<close>

lemma next_outcome_db [simp]: "db (snd (next_outcome w)) = db w"
  by (cases "outcomes w") (simp_all add: next_outcome_def)

lemma next_outcome_dbD: "next_outcome w = (x, w') \<Longrightarrow> db w' = db w"
  by (metis next_outcome_db snd_conv)

lemma next_outcome_none [simp]: "outcomes w = [] \<Longrightarrow> next_outcome w = (Done, w)"
  by (simp add: next_outcome_def)

lemma query_Inr: "query f w = (Inr a, w') \<Longrightarrow> a = f (db w) \<and> db w' = db w"
  by (auto simp: query_def next_outcome_dbD split: prod.splits outcome.splits)

lemma query_db: "query f w = (r, w') \<Longrightarrow> db w' = db w"
  by (auto simp: query_def next_outcome_dbD split: prod.splits outcome.splits)

lemma exec_Inr: "exec f w = (Inr a, w') \<Longrightarrow> f (db w) = Inr (a, db w')"
  by (auto simp: exec_def next_outcome_dbD split: prod.splits outcome.splits sum.splits)

lemma exec_cases:
  assumes "exec f w = (r, w')"
  obtains "r = Inl DriverError" "db w' = db w"
  | e where "r = Inl e" "f (db w) = Inl e" "db w' = db w"
  | a where "r = Inl DriverError" "f (db w) = Inr (a, db w')"
  | a where "r = Inr a" "f (db w) = Inr (a, db w')"
  using assms
  by (auto simp: exec_def next_outcome_dbD split: prod.splits outcome.splits sum.splits)

lemma wrapping_Inr: "wrapping s m w = (Inr a, w') \<longleftrightarrow> m w = (Inr a, w')"
  by (auto simp: wrapping_def split: prod.splits sum.splits)

lemma wrapping_Inl: "wrapping s m w = (Inl e, w') \<longleftrightarrow> (\<exists>e'. e = Wrapped s e' \<and> m w = (Inl e', w'))"
  by (auto simp: wrapping_def split: prod.splits sum.splits)

lemma wrapping_db: "wrapping s m w = (r, w') \<Longrightarrow> \<exists>r'. m w = (r', w')"
  by (auto simp: wrapping_def split: prod.splits sum.splits)

lemma begin_tx_cases:
  assumes "begin_tx w = (r, w')"
  obtains "r = Inr (db w)" "db w' = db w" | "r = Inl DriverError" "db w' = db w"
  using assms by (auto simp: begin_tx_def query_def next_outcome_dbD split: prod.splits outcome.splits)

lemma in_tx_Inr:
  assumes "in_tx saved m w = (Inr a, w')"
  obtains c w2 where "m w = (Inr (c, a), w2)" "db w' = (if c then db w2 else saved)"
  using assms
  by (auto simp: in_tx_def split: prod.splits outcome.splits sum.splits if_splits dest!: next_outcome_dbD)

text \<open>A failing transaction leaves the database alone or, when the commit's reply is lost,
  has done all of the body's work.\<close>

lemma in_tx_Inl:
  assumes "in_tx saved m w = (Inl e, w')"
  obtains "db w' = saved"
  | a w2 where "e = DriverError" "m w = (Inr (True, a), w2)" "db w' = db w2"
  using assms
  by (auto simp: in_tx_def split: prod.splits outcome.splits sum.splits if_splits dest!: next_outcome_dbD)

lemma transaction_wrapped_Inr:
  assumes "transaction_wrapped s m w = (Inr a, w')"
  obtains c w1 w2 where "db w1 = db w" "m w1 = (Inr (c, a), w2)"
    "db w' = (if c then db w2 else db w)"
  using assms
  by (auto simp: transaction_wrapped_def bind_io_Inr wrapping_Inr elim!: begin_tx_cases in_tx_Inr)

lemma transaction_wrapped_Inl:
  assumes "transaction_wrapped s m w = (Inl e, w')"
  obtains "db w' = db w"
  | a w1 w2 where "e = DriverError" "db w1 = db w" "m w1 = (Inr (True, a), w2)" "db w' = db w2"
  using assms
  by (auto simp: transaction_wrapped_def bind_io_Inl wrapping_Inl wrapping_Inr
        elim!: begin_tx_cases in_tx_Inl)

lemma transaction_Inr:
  assumes "transaction m w = (Inr a, w')"
  obtains c w1 w2 where "db w1 = db w" "m w1 = (Inr (c, a), w2)"
    "db w' = (if c then db w2 else db w)"
  using assms
  by (auto simp: transaction_def bind_io_Inr elim!: begin_tx_cases in_tx_Inr)

lemma transaction_Inl:
  assumes "transaction m w = (Inl e, w')"
  obtains "db w' = db w"
  | a w1 w2 where "e = DriverError" "db w1 = db w" "m w1 = (Inr (True, a), w2)" "db w' = db w2"
  using assms
  by (auto simp: transaction_def bind_io_Inl elim!: begin_tx_cases in_tx_Inl)

text \<open>
  A relation between the databases before and after a body that asks for a commit holds of
  the whole transaction, unless nothing happened.
\<close>

lemma transaction_related:
  assumes "transaction m w = (r, w')" "\<And>w a w'. m w = (Inr (True, a), w') \<Longrightarrow> R (db w) a (db w')"
  shows "db w' = db w \<and> (\<forall>a. r = Inr a \<longrightarrow> (\<exists>w1 w2. db w1 = db w \<and> m w1 = (Inr (False, a), w2))) \<or>
    (\<exists>a. R (db w) a (db w') \<and> (r = Inr a \<or> r = Inl DriverError)) \<or>
    db w' = db w \<and> (\<exists>e. r = Inl e)"
proof (cases r)
  case (Inl e)
  with assms(1) have "transaction m w = (Inl e, w')" by simp
  then show ?thesis by (rule transaction_Inl) (use Inl assms(2) in \<open>force+\<close>)
next
  case (Inr a)
  with assms(1) have "transaction m w = (Inr a, w')" by simp
  then obtain c w1 w2 where m: "db w1 = db w" "m w1 = (Inr (c, a), w2)"
      "db w' = (if c then db w2 else db w)" by (rule transaction_Inr)
  show ?thesis
  proof (cases c)
    case True
    with m assms(2) [of w1 a w2] Inr show ?thesis by auto
  next
    case False
    with m Inr show ?thesis by auto
  qed
qed

text \<open>The same for a body that always asks for a commit.\<close>

lemma transaction_commits:
  assumes "transaction m w = (r, w')" "\<And>w c a w'. m w = (Inr (c, a), w') \<Longrightarrow> c \<and> R (db w) a (db w')"
  shows "(\<exists>a. R (db w) a (db w') \<and> (r = Inr a \<or> r = Inl DriverError)) \<or> db w' = db w \<and> (\<exists>e. r = Inl e)"
proof -
  have "(\<And>w a w'. m w = (Inr (True, a), w') \<Longrightarrow> R (db w) a (db w'))"
    using assms(2) by blast
  note rel = transaction_related [where R = R, OF assms(1) this]
  show ?thesis
  proof (cases r)
    case (Inl e)
    with rel show ?thesis by auto
  next
    case (Inr a)
    have no: "m w1 \<noteq> (Inr (False, b), w2)" for w1 b w2
      using assms(2) [of w1 False b w2] by auto
    from rel Inr no show ?thesis by auto
  qed
qed

lemma commit_with_eq [simp]: "commit_with a w = (r, w') \<longleftrightarrow> r = Inr (True, a) \<and> w' = w"
  by (auto simp: commit_with_def)

lemma leave_with_eq [simp]: "leave_with a w = (r, w') \<longleftrightarrow> r = Inr (False, a) \<and> w' = w"
  by (auto simp: leave_with_def)

text \<open>What the statements return and do, for a driver that replies.\<close>

lemma select_rows_Inr:
  "select_rows t P w = (Inr rs, w') \<Longrightarrow> rs = filter P (fst t (db w)) \<and> db w' = db w"
  by (auto simp: select_rows_def dest: query_Inr)

lemma select_row_Inr:
  "select_row t P w = (Inr r, w') \<Longrightarrow> r = List.find P (fst t (db w)) \<and> db w' = db w"
  by (auto simp: select_row_def dest: query_Inr)

lemma count_rows_Inr:
  "count_rows t P w = (Inr n, w') \<Longrightarrow> n = int (length (filter P (fst t (db w)))) \<and> db w' = db w"
  by (auto simp: count_rows_def dest: query_Inr)

lemma update_rows_Inr:
  "update_rows t P f w = (Inr n, w') \<Longrightarrow>
     n = int (length (filter P (fst t (db w)))) \<and> db w' = snd t (update_where P f (fst t (db w))) (db w)"
  by (auto simp: update_rows_def dest: exec_Inr)

lemma delete_rows_Inr:
  "delete_rows t P w = (Inr n, w') \<Longrightarrow>
     n = int (length (filter P (fst t (db w)))) \<and> db w' = snd t (filter (\<lambda>r. \<not> P r) (fst t (db w))) (db w)"
  by (auto simp: delete_rows_def dest: exec_Inr)

lemma insert_row_Inr:
  "insert_row t c s r w = (Inr u, w') \<Longrightarrow>
     \<not> list_ex (c r) (fst t (db w)) \<and> db w' = snd t (fst t (db w) @ [r]) (db w)"
  by (auto simp: insert_row_def dest!: exec_Inr split: if_splits)

lemma workspace_insert_Inr:
  "workspace_insert t c s ws col r w = (Inr u, w') \<Longrightarrow>
     \<not> list_ex (c r) (fst t (db w)) \<and> db w' = snd t (fst t (db w) @ [r]) (db w)"
  by (auto simp: workspace_insert_def dest!: insert_row_Inr split: if_splits)

lemma statement_db:
  "select_rows t P w = (r, w') \<Longrightarrow> db w' = db w"
  "select_row t P w = (r', w') \<Longrightarrow> db w' = db w"
  "count_rows t P w = (r'', w') \<Longrightarrow> db w' = db w"
  by (auto simp: select_rows_def select_row_def count_rows_def dest: query_db)

lemma update_rows_db:
  "update_rows t P f w = (r, w') \<Longrightarrow> db w' = db w \<or> db w' = snd t (update_where P f (fst t (db w))) (db w)"
  by (auto simp: update_rows_def elim!: exec_cases)

lemma delete_rows_db:
  "delete_rows t P w = (r, w') \<Longrightarrow> db w' = db w \<or> db w' = snd t (filter (\<lambda>r. \<not> P r) (fst t (db w))) (db w)"
  by (auto simp: delete_rows_def elim!: exec_cases)

lemma insert_row_db:
  "insert_row t c s r w = (x, w') \<Longrightarrow>
     db w' = db w \<or> \<not> list_ex (c r) (fst t (db w)) \<and> db w' = snd t (fst t (db w) @ [r]) (db w)"
  by (auto simp: insert_row_def elim!: exec_cases split: if_splits)

lemma workspace_insert_db:
  "workspace_insert t c s ws col r w = (x, w') \<Longrightarrow>
     db w' = db w \<or> \<not> list_ex (c r) (fst t (db w)) \<and> db w' = snd t (fst t (db w) @ [r]) (db w)"
  by (auto simp: workspace_insert_def dest!: insert_row_db split: if_splits)

lemma workspace_insert_clash:
  assumes "list_ex (c r) (fst t (db w))" "workspace_insert t c s ws col r w = (x, w')"
  shows "db w' = db w \<and> (\<exists>e. x = Inl e)"
  using workspace_insert_db [OF assms(2)] workspace_insert_Inr [of t c s ws col r w _ w'] assms
  by (cases x) auto

lemmas statement_results = select_rows_Inr select_row_Inr count_rows_Inr update_rows_Inr
  delete_rows_Inr insert_row_Inr workspace_insert_Inr

text \<open>With no fault left in the schedule the statements are equations.\<close>

lemma query_run [io_simps]: "outcomes w = [] \<Longrightarrow> query f w = (Inr (f (db w)), w)"
  by (simp add: query_def)

lemma exec_run [io_simps]:
  "outcomes w = [] \<Longrightarrow>
   exec f w = (case f (db w) of Inl e \<Rightarrow> (Inl e, w) | Inr (a, d) \<Rightarrow> (Inr a, w\<lparr>db := d\<rparr>))"
  by (simp add: exec_def)

section \<open>Invariants of the database\<close>

text \<open>\<open>preserves P m\<close>: the action keeps the database predicate, whatever the driver does.\<close>

definition preserves :: "('d \<Rightarrow> bool) \<Rightarrow> ('d, 'a) statement \<Rightarrow> bool" where
  "preserves P m = keeps (\<lambda>w. P (db w)) m"

lemma preservesI: "(\<And>w r w'. P (db w) \<Longrightarrow> m w = (r, w') \<Longrightarrow> P (db w')) \<Longrightarrow> preserves P m"
  unfolding preserves_def keeps_def by (metis prod.collapse)

lemma preservesD: "preserves P m \<Longrightarrow> P (db w) \<Longrightarrow> m w = (r, w') \<Longrightarrow> P (db w')"
  unfolding preserves_def by (blast dest: keepsD)

named_theorems preserves_intros \<open>composition rules for database invariants\<close>

lemma preserves_basic [preserves_intros]:
  "preserves P (ret a)" "preserves P (fail e)" "preserves P (commit_with a)"
  "preserves P (leave_with a)"
  by (auto intro!: preservesI)

lemma preserves_bind [preserves_intros]:
  "preserves P m \<Longrightarrow> (\<And>a. preserves P (f a)) \<Longrightarrow> preserves P (bind_io m f)"
  unfolding preserves_def by (rule keeps_bind)

lemma preserves_guard [preserves_intros]: "preserves P m \<Longrightarrow> preserves P (guard_io b e m)"
  unfolding preserves_def by (rule keeps_guard)

lemma preserves_attempt [preserves_intros]: "preserves P m \<Longrightarrow> preserves P (attempt m)"
  unfolding preserves_def by (rule keeps_attempt)

lemma preserves_if [preserves_intros]:
  "preserves P m \<Longrightarrow> preserves P m' \<Longrightarrow> preserves P (if b then m else m')"
  by simp

lemma preserves_option [preserves_intros]:
  "preserves P m \<Longrightarrow> (\<And>x. preserves P (f x)) \<Longrightarrow>
   preserves P (case v of None \<Rightarrow> m | Some x \<Rightarrow> f x)"
  by (cases v) auto

lemma preserves_sum [preserves_intros]:
  "(\<And>e. preserves P (f e)) \<Longrightarrow> (\<And>x. preserves P (g x)) \<Longrightarrow>
   preserves P (case v of Inl e \<Rightarrow> f e | Inr x \<Rightarrow> g x)"
  by (cases v) auto

lemma preserves_prod [preserves_intros]:
  "(\<And>x y. preserves P (f x y)) \<Longrightarrow> preserves P (case v of (x, y) \<Rightarrow> f x y)"
  by (cases v) auto

lemma preserves_let [preserves_intros]:
  "(\<And>x. preserves P (f x)) \<Longrightarrow> preserves P (let x = v in f x)"
  by simp

lemma preserves_for_each [preserves_intros]:
  "(\<And>x. x \<in> set xs \<Longrightarrow> preserves P (f x)) \<Longrightarrow> preserves P (for_each f xs)"
  unfolding preserves_def by (rule keeps_for_each)

lemma preserves_fold [preserves_intros]:
  "(\<And>x s. preserves P (f x s)) \<Longrightarrow> preserves P (fold_io f xs s)"
  unfolding preserves_def by (rule keeps_fold_io)

lemma preserves_wrapping [preserves_intros]: "preserves P m \<Longrightarrow> preserves P (wrapping s m)"
  by (rule preservesI) (auto simp: wrapping_def split: prod.splits sum.splits dest: preservesD)

lemma preserves_select [preserves_intros]:
  "preserves P (query f)" "preserves P (select_rows t Q)" "preserves P (select_row t' Q')"
  "preserves P (count_rows t'' Q'')"
  by (auto intro!: preservesI simp: query_db dest!: query_db statement_db)

lemma preserves_in_tx:
  assumes "preserves P m" "P saved" shows "preserves P (in_tx saved m)"
proof (rule preservesI)
  fix w r w' assume "P (db w)" and t: "in_tx saved m w = (r, w')"
  show "P (db w')"
  proof (cases r)
    case (Inl e)
    with t have "in_tx saved m w = (Inl e, w')" by simp
    then show ?thesis
      by (rule in_tx_Inl) (use \<open>P (db w)\<close> assms in \<open>auto dest: preservesD [where w = w]\<close>)
  next
    case (Inr a)
    with t have "in_tx saved m w = (Inr a, w')" by simp
    then obtain c w2 where "m w = (Inr (c, a), w2)"
        "db w' = (if c then db w2 else saved)" by (rule in_tx_Inr)
    with \<open>P (db w)\<close> assms show ?thesis
      by (cases c) (auto dest: preservesD [where w = w])
  qed
qed

lemma preserves_bind_state:
  assumes "preserves P m" "\<And>w a w'. P (db w) \<Longrightarrow> m w = (Inr a, w') \<Longrightarrow> preserves P (f a)"
  shows "preserves P (bind_io m f)"
proof (rule preservesI)
  fix w r w' assume w: "P (db w)" and b: "bind_io m f w = (r, w')"
  obtain x w1 where m: "m w = (x, w1)" by fastforce
  with w assms(1) have "P (db w1)" by (blast dest: preservesD)
  with b m assms(2) [OF w] show "P (db w')"
    by (cases x) (auto simp: bind_io_def dest: preservesD)
qed

lemma preserves_transaction [preserves_intros]:
  assumes "preserves P m"
  shows "preserves P (transaction m)" "preserves P (transaction_wrapped s m)"
  unfolding transaction_def transaction_wrapped_def
  by (rule preserves_bind_state;
      auto intro!: preserves_in_tx assms preserves_wrapping simp: wrapping_Inr begin_tx_def
        intro: preserves_select dest: query_Inr)+

lemma preserves_exec:
  assumes "\<And>d a d'. P d \<Longrightarrow> f d = Inr (a, d') \<Longrightarrow> P d'"
  shows "preserves P (exec f)"
  by (rule preservesI) (auto elim!: exec_cases intro: assms)

lemma preserves_update:
  "(\<And>d. P d \<Longrightarrow> P (snd t (update_where Q f (fst t d)) d)) \<Longrightarrow> preserves P (update_rows t Q f)"
  unfolding update_rows_def by (rule preserves_exec) auto

lemma preserves_delete:
  "(\<And>d. P d \<Longrightarrow> P (snd t (filter (\<lambda>r. \<not> Q r) (fst t d)) d)) \<Longrightarrow> preserves P (delete_rows t Q)"
  unfolding delete_rows_def by (rule preserves_exec) auto

lemma preserves_insert:
  "(\<And>d. P d \<Longrightarrow> \<not> list_ex (c r) (fst t d) \<Longrightarrow> P (snd t (fst t d @ [r]) d)) \<Longrightarrow>
   preserves P (insert_row t c s r)"
  unfolding insert_row_def by (rule preserves_exec) (auto split: if_splits)

lemma preserves_workspace_insert:
  "(\<And>d. P d \<Longrightarrow> \<not> list_ex (c r) (fst t d) \<Longrightarrow> P (snd t (fst t d @ [r]) d)) \<Longrightarrow>
   preserves P (workspace_insert t c s ws col r)"
  unfolding workspace_insert_def by (auto intro: preserves_insert preserves_basic)

lemma preserves_register:
  "(\<And>d x. P d \<Longrightarrow> P (d\<lparr>db_scopes := x\<rparr>)) \<Longrightarrow> preserves P (register_scope qi k ws at)"
  unfolding register_scope_def by (rule preserves_exec) (auto split: sum.splits)

lemma preserves_scope_workspaces [preserves_intros]: "preserves P (scope_workspaces qi k n)"
  unfolding scope_workspaces_def by (intro preserves_intros)

lemma register_scope_Inr:
  "register_scope qi k ws at w = (Inr u, w') \<Longrightarrow> \<exists>x. db w' = (db w)\<lparr>db_scopes := x\<rparr>"
  by (auto simp: register_scope_def dest!: exec_Inr split: sum.splits) metis

section \<open>Facts about updates\<close>

lemma length_update_where [simp]: "length (update_where P f rs) = length rs"
  by (simp add: update_where_def)

lemma update_where_none: "\<not> list_ex P rs \<Longrightarrow> update_where P f rs = rs"
  by (induction rs) (auto simp: update_where_def)

lemma in_update_where:
  "r \<in> set (update_where P f rs) \<longleftrightarrow> (\<exists>x \<in> set rs. r = (if P x then f x else x))"
  by (auto simp: update_where_def)

lemma filter_update_other:
  "(\<And>r. r \<in> set rs \<Longrightarrow> P r \<Longrightarrow> \<not> Q r \<and> \<not> Q (f r)) \<Longrightarrow>
   filter Q (update_where P f rs) = filter Q rs"
  by (induction rs) (auto simp: update_where_def)

lemma find_update_where:
  "List.find Q (update_where P f rs) = (case List.find (\<lambda>r. Q (if P r then f r else r)) rs of
     None \<Rightarrow> None | Some r \<Rightarrow> Some (if P r then f r else r))"
  by (induction rs) (auto simp: update_where_def)

text \<open>A unique index as an invariant of a table, and the operations that keep it.\<close>

definition no_clash :: "('r \<Rightarrow> 'r \<Rightarrow> bool) \<Rightarrow> 'r list \<Rightarrow> bool" where
  "no_clash c rs = sorted_wrt (\<lambda>a b. \<not> c b a) rs"

lemma no_clash_Nil [simp]: "no_clash c []"
  by (simp add: no_clash_def)

lemma no_clash_append:
  "no_clash c rs \<Longrightarrow> \<not> list_ex (c r) rs \<Longrightarrow> no_clash c (rs @ [r])"
  by (auto simp: no_clash_def sorted_wrt_append list_ex_iff)

lemma no_clash_filter: "no_clash c rs \<Longrightarrow> no_clash c (filter P rs)"
  by (simp add: no_clash_def sorted_wrt_filter)

lemma no_clash_update:
  assumes "no_clash c rs" "\<And>a b. c (if P a then f a else a) (if P b then f b else b) = c a b"
  shows "no_clash c (update_where P f rs)"
  using assms by (auto simp: no_clash_def update_where_def sorted_wrt_map)

lemma no_clash_unique:
  assumes "no_clash c rs" "r \<in> set rs" "s \<in> set rs" "\<And>a b. c a b = c b a" "c r s"
  shows "r = s"
  using assms
  by (induction rs) (auto simp: no_clash_def)

lemma no_clash_distinct:
  assumes "no_clash c rs" "\<And>a b. k a = k b \<Longrightarrow> c b a"
  shows "distinct (map k rs)"
  using assms(1)
proof (induction rs)
  case (Cons x xs)
  then have "\<not> c y x" if "y \<in> set xs" for y
    using that by (auto simp: no_clash_def)
  then have "k x \<notin> k ` set xs"
    using assms(2) [of x] by auto
  with Cons show ?case by (simp add: no_clash_def)
qed simp

lemma no_clash_count:
  assumes "no_clash c rs" "\<And>a b. a \<in> set rs \<Longrightarrow> b \<in> set rs \<Longrightarrow> P a \<Longrightarrow> P b \<Longrightarrow> c a b"
  shows "length (filter P rs) \<le> 1"
  using assms
proof (induction rs)
  case (Cons x xs)
  show ?case
  proof (cases "P x")
    case True
    with Cons.prems have "filter P xs = []"
      by (auto simp: no_clash_def filter_empty_conv)
    with True show ?thesis by simp
  next
    case False
    with Cons show ?thesis by (auto simp: no_clash_def)
  qed
qed simp

end
