(* ===== verification/Lease.thy ===== *)
theory Lease
  imports Sql
begin

text \<open>
  The contract of the durable queues. Events, channel plans and publication requests are rows
  that a worker claims with one conditional update (status, owner, lease expiry, fencing token
  plus one) and settles with another that is conditional on the owner and the token of the
  claim. The locale states what such a row provides; the lemmas inside it are what fencing
  gives, for one claim and along any history of claims and settlements.
\<close>

text \<open>The predicate \<open>due\<close> of the claim statements of the event store and the plan store.\<close>

definition due_at :: "string \<Rightarrow> string \<Rightarrow> string \<Rightarrow> string \<Rightarrow> bool" where
  "due_at status next lease now \<longleftrightarrow>
     status = ''queued'' \<and> (next = [] \<or> next \<le> now) \<or> status = ''processing'' \<and> lease \<le> now"

lemma due_at_cases:
  "due_at s n l now \<Longrightarrow> s = ''queued'' \<or> s = ''processing''"
  by (auto simp: due_at_def)

lemma not_due_held: "now < l \<Longrightarrow> \<not> due_at ''processing'' n l now"
  by (auto simp: due_at_def)

lemma distinct_count: "(\<And>x. count_list xs x \<le> 1) \<Longrightarrow> distinct xs"
proof (induction xs)
  case (Cons a xs)
  from Cons.prems [of a] have "a \<notin> set xs" by (auto simp: count_list_0_iff)
  moreover have "count_list xs x \<le> 1" for x
    using Cons.prems [of x] by (auto split: if_splits)
  ultimately show ?case using Cons.IH by simp
qed simp

datatype ('k) lease_label = Claimed 'k int | Settled 'k int | Silent

locale lease_row =
  fixes key :: "'r \<Rightarrow> 'k"
    and held :: "'r \<Rightarrow> bool"
    and owner :: "'r \<Rightarrow> string"
    and token :: "'r \<Rightarrow> int"
    and take_lease :: "string \<Rightarrow> string \<Rightarrow> string \<Rightarrow> 'r \<Rightarrow> 'r"
  assumes take_key: "key (take_lease o' n x r) = key r"
    and take_held: "held (take_lease o' n x r)"
    and take_owner: "owner (take_lease o' n x r) = o'"
    and take_token: "token (take_lease o' n x r) = token r + 1"
begin

definition holds :: "'k \<Rightarrow> string \<Rightarrow> int \<Rightarrow> 'r \<Rightarrow> bool" where
  "holds k o' t r \<longleftrightarrow> key r = k \<and> held r \<and> owner r = o' \<and> token r = t"

text \<open>Keys are unique in a table; \<open>row k rs\<close> is the row with key \<open>k\<close>.\<close>

definition unique_keys :: "'r list \<Rightarrow> bool" where
  "unique_keys rs \<longleftrightarrow> distinct (map key rs)"

definition token_at :: "'r list \<Rightarrow> 'k \<Rightarrow> int" where
  "token_at rs k = (case List.find (\<lambda>r. key r = k) rs of None \<Rightarrow> 0 | Some r \<Rightarrow> token r)"

definition held_at :: "'r list \<Rightarrow> 'k \<Rightarrow> bool" where
  "held_at rs k = (case List.find (\<lambda>r. key r = k) rs of None \<Rightarrow> False | Some r \<Rightarrow> held r)"

text \<open>
  A step of the table: a claim of one row, a settlement of a row by the holder of its
  current token, a new row (not held, token 0) or a change that leaves keys, tokens and
  leases alone.
\<close>

inductive lease_step :: "'r list \<Rightarrow> 'k lease_label \<Rightarrow> 'r list \<Rightarrow> bool" where
  claim: "key r = k \<Longrightarrow> r \<in> set rs \<Longrightarrow>
     lease_step rs (Claimed k (token r + 1))
       (map (\<lambda>x. if key x = k then take_lease o' n e x else x) rs)"
| settle: "r \<in> set rs \<Longrightarrow> holds k o' t r \<Longrightarrow> (\<And>x. key (f x) = key x) \<Longrightarrow>
     (\<And>x. token (f x) = token x) \<Longrightarrow> (\<And>x. \<not> held (f x)) \<Longrightarrow>
     lease_step rs (Settled k t) (map (\<lambda>x. if holds k o' t x then f x else x) rs)"
| insert: "key r \<notin> key ` set rs \<Longrightarrow> \<not> held r \<Longrightarrow> token r = 0 \<Longrightarrow> lease_step rs Silent (rs @ [r])"
| other: "map key rs' = map key rs \<Longrightarrow> map token rs' = map token rs \<Longrightarrow> map held rs' = map held rs \<Longrightarrow>
     lease_step rs Silent rs'"

inductive history :: "'r list \<Rightarrow> 'k lease_label list \<Rightarrow> 'r list \<Rightarrow> bool" where
  start: "history rs [] rs"
| step: "history rs ls rs' \<Longrightarrow> lease_step rs' l rs'' \<Longrightarrow> history rs (ls @ [l]) rs''"

lemma find_key: "distinct (map key rs) \<Longrightarrow> r \<in> set rs \<Longrightarrow> List.find (\<lambda>x. key x = key r) rs = Some r"
  by (induction rs) auto

lemma find_map_key:
  "(\<And>x. key (g x) = key x) \<Longrightarrow>
   List.find (\<lambda>x. key x = k) (map g rs) = map_option g (List.find (\<lambda>x. key x = k) rs)"
  by (induction rs) auto

lemma find_None_key: "List.find (\<lambda>x. key x = k) rs = None \<longleftrightarrow> k \<notin> key ` set rs"
  by (induction rs) auto

lemma unique_keys_map: "(\<And>x. key (g x) = key x) \<Longrightarrow> unique_keys (map g rs) = unique_keys rs"
  by (simp add: unique_keys_def comp_def)

lemma unique_keys_step: "lease_step rs l rs' \<Longrightarrow> unique_keys rs \<Longrightarrow> unique_keys rs'"
proof (induction rule: lease_step.induct)
  case (claim r k rs o' n e)
  have "unique_keys (map (\<lambda>x. if key x = k then take_lease o' n e x else x) rs) = unique_keys rs"
    by (rule unique_keys_map) (simp add: take_key)
  with claim.prems show ?case by (simp only:)
next
  case (settle r rs k o' t f)
  have "unique_keys (map (\<lambda>x. if holds k o' t x then f x else x) rs) = unique_keys rs"
    by (rule unique_keys_map) (simp add: settle(3))
  with settle.prems show ?case by (simp only:)
qed (auto simp: unique_keys_def)

lemma find_pointwise:
  "map key rs' = map key rs \<Longrightarrow> map g rs' = map g rs \<Longrightarrow>
   map_option g (List.find (\<lambda>x. key x = k) rs') = map_option g (List.find (\<lambda>x. key x = k) rs)"
proof (induction rs arbitrary: rs')
  case (Cons a rs)
  from Cons.prems obtain b rs2 where r: "rs' = b # rs2" by (cases rs') simp_all
  have "map_option g (List.find (\<lambda>x. key x = k) rs2) = map_option g (List.find (\<lambda>x. key x = k) rs)"
    by (rule Cons.IH) (use Cons.prems r in simp_all)
  with Cons.prems(1,2) show ?case unfolding r by (simp del: find.simps add: find.simps(2))
qed simp

lemma at_pointwise:
  assumes "map key rs' = map key rs" "map token rs' = map token rs" "map held rs' = map held rs"
  shows "token_at rs' k = token_at rs k" "held_at rs' k = held_at rs k"
  using find_pointwise [OF assms(1,2), of k] find_pointwise [OF assms(1,3), of k]
  by (auto simp: token_at_def held_at_def split: option.splits)

text \<open>The effect of a step on the token and the lease of a row.\<close>

lemma step_at:
  assumes "lease_step rs l rs'" "unique_keys rs"
  shows "(l = Claimed k (token_at rs' k) \<and> token_at rs' k = token_at rs k + 1 \<and> held_at rs' k) \<or>
         (l = Settled k (token_at rs k) \<and> token_at rs' k = token_at rs k \<and> held_at rs k \<and> \<not> held_at rs' k) \<or>
         ((\<forall>t. l \<noteq> Claimed k t \<and> l \<noteq> Settled k t) \<and> token_at rs' k = token_at rs k \<and>
          held_at rs' k = held_at rs k)"
  using assms
proof (induction rule: lease_step.induct)
  case (claim r k' rs o' n e)
  let ?g = "\<lambda>x. if key x = k' then take_lease o' n e x else x"
  have g: "key (?g x) = key x" for x by (simp add: take_key)
  show ?case
  proof (cases "k = k'")
    case True
    with claim have "List.find (\<lambda>x. key x = k) rs = Some r"
      using find_key [of rs r] by (simp add: unique_keys_def)
    with True claim(1) show ?thesis
      by (simp add: token_at_def held_at_def find_map_key [OF g] take_token take_held)
  next
    case False
    then have "map_option token (List.find (\<lambda>x. key x = k) (map ?g rs)) =
        map_option token (List.find (\<lambda>x. key x = k) rs)"
      "map_option held (List.find (\<lambda>x. key x = k) (map ?g rs)) =
        map_option held (List.find (\<lambda>x. key x = k) rs)"
      by (induction rs) (auto simp: take_key)
    with False show ?thesis
      by (auto simp: token_at_def held_at_def split: option.splits)
  qed
next
  case (settle r rs k' o' t f)
  let ?g = "\<lambda>x. if holds k' o' t x then f x else x"
  have g: "key (?g x) = key x" for x by (simp add: settle)
  show ?case
  proof (cases "k = k'")
    case True
    with settle have "List.find (\<lambda>x. key x = k) rs = Some r"
      using find_key [of rs r] by (auto simp: unique_keys_def holds_def)
    with True settle show ?thesis
      by (simp add: token_at_def held_at_def find_map_key [OF g]) (simp add: holds_def)
  next
    case False
    have fk: "key (f x) = key x" for x by (rule settle)
    from False have "List.find (\<lambda>x. key x = k) (map ?g rs) = List.find (\<lambda>x. key x = k) rs"
      by (induction rs) (auto simp: holds_def fk)
    with False show ?thesis by (auto simp: token_at_def held_at_def)
  qed
next
  case (insert r rs)
  have "List.find P (rs @ [r]) = (case List.find P rs of None \<Rightarrow> if P r then Some r else None | y \<Rightarrow> y)" for P
    by (induction rs) auto
  moreover have "List.find (\<lambda>x. key x = key r) rs = None"
    using insert(1) by (simp add: find_None_key)
  ultimately show ?case
    using insert(2,3)
    by (cases "key r = k"; cases "List.find (\<lambda>x. key x = k) rs") (auto simp: token_at_def held_at_def)
next
  case (other rs' rs)
  from at_pointwise [OF other(1-3)] show ?case by simp
qed

text \<open>
  Along any history of a table whose rows start unheld: tokens of a row only grow, every
  claim has a token of its own, and every token is settled at most once, by the claim that
  got it.
\<close>

lemma history_facts:
  assumes "history rs ls rs'" "unique_keys rs" "\<And>r. r \<in> set rs \<Longrightarrow> \<not> held r"
  shows "unique_keys rs' \<and> token_at rs k \<le> token_at rs' k \<and>
     (\<forall>t. Claimed k t \<in> set ls \<longrightarrow> token_at rs k < t \<and> t \<le> token_at rs' k) \<and>
     (\<forall>t. Settled k t \<in> set ls \<longrightarrow> Claimed k t \<in> set ls) \<and>
     (\<forall>t. count_list ls (Claimed k t) \<le> 1) \<and> (\<forall>t. count_list ls (Settled k t) \<le> 1) \<and>
     (held_at rs' k \<longrightarrow> Claimed k (token_at rs' k) \<in> set ls \<and> Settled k (token_at rs' k) \<notin> set ls)"
  using assms
proof (induction rule: history.induct)
  case (start rs)
  then show ?case
    by (auto simp: held_at_def split: option.splits dest: find_Some_iff [THEN iffD1])
next
  case (step rs ls rs' l rs'')
  note IH = step.IH [OF step.prems]
  then have U: "unique_keys rs'" by blast
  have count: "count_list (ls @ [l]) x = count_list ls x + (if l = x then 1 else 0)" for x
    by simp
  have fresh: "count_list ls x = 0" if "x \<notin> set ls" for x
    using that by (simp add: count_list_0_iff)
  from step_at [OF step.hyps(2) U, of k] consider
      (c) "l = Claimed k (token_at rs'' k)" "token_at rs'' k = token_at rs' k + 1" "held_at rs'' k"
    | (s) "l = Settled k (token_at rs' k)" "token_at rs'' k = token_at rs' k" "held_at rs' k" "\<not> held_at rs'' k"
    | (o) "\<And>t. l \<noteq> Claimed k t" "\<And>t. l \<noteq> Settled k t" "token_at rs'' k = token_at rs' k"
        "held_at rs'' k = held_at rs' k" by blast
  then show ?case
  proof cases
    case c
    from IH have a: "Claimed k (token_at rs'' k) \<notin> set ls"
      using c(2) by (metis add_le_same_cancel1 not_one_le_zero)
    moreover from IH a have "Settled k (token_at rs'' k) \<notin> set ls" by blast
    ultimately show ?thesis
      using IH c unique_keys_step [OF step.hyps(2) U] fresh
      by (auto simp: count intro: order.trans)
  next
    case s
    with IH have "Settled k (token_at rs' k) \<notin> set ls" by blast
    then show ?thesis
      using IH s unique_keys_step [OF step.hyps(2) U] fresh by (auto simp: count)
  next
    case o
    then show ?thesis
      using IH unique_keys_step [OF step.hyps(2) U] by (auto simp: count)
  qed
qed

lemma settle_once:
  assumes "history rs ls rs'" "unique_keys rs" "\<And>r. r \<in> set rs \<Longrightarrow> \<not> held r"
  shows "count_list ls (Settled k t) \<le> 1"
  using history_facts [OF assms, of k] by blast

lemma settle_claimed:
  assumes "history rs ls rs'" "unique_keys rs" "\<And>r. r \<in> set rs \<Longrightarrow> \<not> held r"
    "Settled k t \<in> set ls"
  shows "Claimed k t \<in> set ls \<and> t \<le> token_at rs' k"
  using history_facts [OF assms(1-3), of k] assms(4) by blast

text \<open>A lease that has been taken over no longer matches: a stale settlement changes nothing.\<close>

lemma stale_no_match:
  assumes "unique_keys rs" "r \<in> set rs" "key r = k" "t \<le> token r" "x \<in> set rs"
  shows "\<not> holds k o2 t (if key x = k then take_lease o' n e x else x)"
proof
  assume h: "holds k o2 t (if key x = k then take_lease o' n e x else x)"
  then have "key x = k" by (auto simp: holds_def split: if_splits)
  with assms have "x = r"
    by (auto simp: unique_keys_def distinct_map inj_on_def)
  with h \<open>key x = k\<close> assms(4) show False by (auto simp: holds_def take_token)
qed

end

end
