(* ===== verification/Integrity.thy ===== *)
theory Integrity
  imports Sql
begin

text \<open>
  The unique indexes of the schema as one invariant of the database, \<open>schema_ok\<close>, and the
  rules that carry it through statements: an insert and a delete keep it always, an update
  when it leaves the columns of the index alone. The update rules are in \<open>schema_updates\<close>;
  their side conditions are solved by \<open>simp\<close>.
\<close>

definition schema_ok :: "database \<Rightarrow> bool" where
  "schema_ok d \<longleftrightarrow>
     no_clash event_clash (db_events d) \<and>
     no_clash failure_clash (db_failures d) \<and>
     no_clash plan_clash (db_plans d) \<and>
     no_clash item_clash (db_items d) \<and>
     no_clash group_clash (db_groups d) \<and>
     no_clash delegation_clash (db_delegations d) \<and>
     no_clash view_clash (db_views d) \<and>
     no_clash template_clash (db_templates d) \<and>
     no_clash version_clash (db_versions d) \<and>
     no_clash request_clash (db_requests d) \<and>
     no_clash lock_clash (db_locks d) \<and>
     no_clash policy_clash (db_policies d) \<and>
     no_clash preference_clash (db_preferences d) \<and>
     no_clash reservation_clash (db_reservations d) \<and>
     no_clash archive_clash (db_archive d)"

lemma schema_ok_empty [simp]: "schema_ok empty_database"
  by (simp add: schema_ok_def empty_database_def)

lemma schema_ok_scopes [simp]: "schema_ok (d\<lparr>db_scopes := s\<rparr>) = schema_ok d"
  by (simp add: schema_ok_def)

lemma clash_sym:
  "event_clash a0 b0 = event_clash b0 a0"
  "failure_clash a1 b1 = failure_clash b1 a1"
  "plan_clash a2 b2 = plan_clash b2 a2"
  "item_clash a3 b3 = item_clash b3 a3"
  "group_clash a4 b4 = group_clash b4 a4"
  "delegation_clash a5 b5 = delegation_clash b5 a5"
  "view_clash a6 b6 = view_clash b6 a6"
  "template_clash a7 b7 = template_clash b7 a7"
  "version_clash a8 b8 = version_clash b8 a8"
  "request_clash a9 b9 = request_clash b9 a9"
  "lock_clash a10 b10 = lock_clash b10 a10"
  "policy_clash a11 b11 = policy_clash b11 a11"
  "preference_clash a12 b12 = preference_clash b12 a12"
  "reservation_clash a13 b13 = reservation_clash b13 a13"
  "archive_clash a14 b14 = archive_clash b14 a14"
  by (auto simp: clash_defs)

lemma schema_ok_parts:
  assumes "schema_ok d"
  shows "no_clash event_clash (db_events d)" "no_clash failure_clash (db_failures d)"
    "no_clash plan_clash (db_plans d)" "no_clash item_clash (db_items d)"
    "no_clash group_clash (db_groups d)" "no_clash delegation_clash (db_delegations d)"
    "no_clash view_clash (db_views d)" "no_clash template_clash (db_templates d)"
    "no_clash version_clash (db_versions d)" "no_clash request_clash (db_requests d)"
    "no_clash lock_clash (db_locks d)" "no_clash policy_clash (db_policies d)"
    "no_clash preference_clash (db_preferences d)" "no_clash reservation_clash (db_reservations d)"
    "no_clash archive_clash (db_archive d)"
  using assms by (simp_all add: schema_ok_def)

lemma schema_ok_update_iff:
  "schema_ok d \<Longrightarrow> schema_ok (d\<lparr>db_events := x0\<rparr>) = no_clash event_clash x0"
  "schema_ok d \<Longrightarrow> schema_ok (d\<lparr>db_failures := x1\<rparr>) = no_clash failure_clash x1"
  "schema_ok d \<Longrightarrow> schema_ok (d\<lparr>db_plans := x2\<rparr>) = no_clash plan_clash x2"
  "schema_ok d \<Longrightarrow> schema_ok (d\<lparr>db_items := x3\<rparr>) = no_clash item_clash x3"
  "schema_ok d \<Longrightarrow> schema_ok (d\<lparr>db_groups := x4\<rparr>) = no_clash group_clash x4"
  "schema_ok d \<Longrightarrow> schema_ok (d\<lparr>db_delegations := x5\<rparr>) = no_clash delegation_clash x5"
  "schema_ok d \<Longrightarrow> schema_ok (d\<lparr>db_views := x6\<rparr>) = no_clash view_clash x6"
  "schema_ok d \<Longrightarrow> schema_ok (d\<lparr>db_templates := x7\<rparr>) = no_clash template_clash x7"
  "schema_ok d \<Longrightarrow> schema_ok (d\<lparr>db_versions := x8\<rparr>) = no_clash version_clash x8"
  "schema_ok d \<Longrightarrow> schema_ok (d\<lparr>db_requests := x9\<rparr>) = no_clash request_clash x9"
  "schema_ok d \<Longrightarrow> schema_ok (d\<lparr>db_locks := x10\<rparr>) = no_clash lock_clash x10"
  "schema_ok d \<Longrightarrow> schema_ok (d\<lparr>db_policies := x11\<rparr>) = no_clash policy_clash x11"
  "schema_ok d \<Longrightarrow> schema_ok (d\<lparr>db_preferences := x12\<rparr>) = no_clash preference_clash x12"
  "schema_ok d \<Longrightarrow> schema_ok (d\<lparr>db_reservations := x13\<rparr>) = no_clash reservation_clash x13"
  "schema_ok d \<Longrightarrow> schema_ok (d\<lparr>db_archive := x14\<rparr>) = no_clash archive_clash x14"
  by (auto simp: schema_ok_def)

named_theorems schema_updates \<open>updates that keep the unique indexes\<close>

lemma schema_update_events [schema_updates]:
  assumes "\<And>r. P r \<Longrightarrow> er_workspace (f r) = er_workspace r \<and> er_id (f r) = er_id r \<and> er_source (f r) = er_source r \<and> er_source_event (f r) = er_source_event r"
  shows "preserves schema_ok (update_rows events_table P f)"
proof -
  have "event_clash (if P a then f a else a) (if P b then f b else b) = event_clash a b" for a b
    using assms by (cases "P a"; cases "P b") (simp_all add: event_clash_def)
  then show ?thesis by (intro preserves_update) (simp add: schema_ok_def no_clash_update)
qed

lemma schema_update_failures [schema_updates]:
  assumes "\<And>r. P r \<Longrightarrow> ef_workspace (f r) = ef_workspace r \<and> ef_id (f r) = ef_id r \<and> ef_event (f r) = ef_event r \<and> ef_token (f r) = ef_token r"
  shows "preserves schema_ok (update_rows failures_table P f)"
proof -
  have "failure_clash (if P a then f a else a) (if P b then f b else b) = failure_clash a b" for a b
    using assms by (cases "P a"; cases "P b") (simp_all add: failure_clash_def)
  then show ?thesis by (intro preserves_update) (simp add: schema_ok_def no_clash_update)
qed

lemma schema_update_plans [schema_updates]:
  assumes "\<And>r. P r \<Longrightarrow> qr_workspace (f r) = qr_workspace r \<and> qr_id (f r) = qr_id r"
  shows "preserves schema_ok (update_rows plans_table P f)"
proof -
  have "plan_clash (if P a then f a else a) (if P b then f b else b) = plan_clash a b" for a b
    using assms by (cases "P a"; cases "P b") (simp_all add: plan_clash_def)
  then show ?thesis by (intro preserves_update) (simp add: schema_ok_def no_clash_update)
qed

lemma schema_update_items [schema_updates]:
  assumes "\<And>r. P r \<Longrightarrow> ir_workspace (f r) = ir_workspace r \<and> ir_id (f r) = ir_id r"
  shows "preserves schema_ok (update_rows items_table P f)"
proof -
  have "item_clash (if P a then f a else a) (if P b then f b else b) = item_clash a b" for a b
    using assms by (cases "P a"; cases "P b") (simp_all add: item_clash_def)
  then show ?thesis by (intro preserves_update) (simp add: schema_ok_def no_clash_update)
qed

lemma schema_update_groups [schema_updates]:
  assumes "\<And>r. P r \<Longrightarrow> al_workspace (f r) = al_workspace r \<and> al_recipient (f r) = al_recipient r \<and> al_group (f r) = al_group r"
  shows "preserves schema_ok (update_rows groups_table P f)"
proof -
  have "group_clash (if P a then f a else a) (if P b then f b else b) = group_clash a b" for a b
    using assms by (cases "P a"; cases "P b") (simp_all add: group_clash_def)
  then show ?thesis by (intro preserves_update) (simp add: schema_ok_def no_clash_update)
qed

lemma schema_update_delegations [schema_updates]:
  assumes "\<And>r. P r \<Longrightarrow> dg_workspace (f r) = dg_workspace r \<and> dg_id (f r) = dg_id r"
  shows "preserves schema_ok (update_rows delegations_table P f)"
proof -
  have "delegation_clash (if P a then f a else a) (if P b then f b else b) = delegation_clash a b" for a b
    using assms by (cases "P a"; cases "P b") (simp_all add: delegation_clash_def)
  then show ?thesis by (intro preserves_update) (simp add: schema_ok_def no_clash_update)
qed

lemma schema_update_views [schema_updates]:
  assumes "\<And>r. P r \<Longrightarrow> wr_workspace (f r) = wr_workspace r \<and> wr_recipient (f r) = wr_recipient r \<and> wr_key (f r) = wr_key r"
  shows "preserves schema_ok (update_rows views_table P f)"
proof -
  have "view_clash (if P a then f a else a) (if P b then f b else b) = view_clash a b" for a b
    using assms by (cases "P a"; cases "P b") (simp_all add: view_clash_def)
  then show ?thesis by (intro preserves_update) (simp add: schema_ok_def no_clash_update)
qed

lemma schema_update_templates [schema_updates]:
  assumes "\<And>r. P r \<Longrightarrow> xr_key (f r) = xr_key r"
  shows "preserves schema_ok (update_rows templates_table P f)"
proof -
  have "template_clash (if P a then f a else a) (if P b then f b else b) = template_clash a b" for a b
    using assms by (cases "P a"; cases "P b") (simp_all add: template_clash_def)
  then show ?thesis by (intro preserves_update) (simp add: schema_ok_def no_clash_update)
qed

lemma schema_update_versions [schema_updates]:
  assumes "\<And>r. P r \<Longrightarrow> vr_template_key (f r) = vr_template_key r \<and> vr_version (f r) = vr_version r"
  shows "preserves schema_ok (update_rows versions_table P f)"
proof -
  have "version_clash (if P a then f a else a) (if P b then f b else b) = version_clash a b" for a b
    using assms by (cases "P a"; cases "P b") (simp_all add: version_clash_def)
  then show ?thesis by (intro preserves_update) (simp add: schema_ok_def no_clash_update)
qed

lemma schema_update_requests [schema_updates]:
  assumes "\<And>r. P r \<Longrightarrow> pr_id (rr_request (f r)) = pr_id (rr_request r)"
  shows "preserves schema_ok (update_rows requests_table P f)"
proof -
  have "request_clash (if P a then f a else a) (if P b then f b else b) = request_clash a b" for a b
    using assms by (cases "P a"; cases "P b") (simp_all add: request_clash_def)
  then show ?thesis by (intro preserves_update) (simp add: schema_ok_def no_clash_update)
qed

lemma schema_update_locks [schema_updates]:
  assumes "\<And>r. P r \<Longrightarrow> lk_template_key (f r) = lk_template_key r"
  shows "preserves schema_ok (update_rows locks_table P f)"
proof -
  have "lock_clash (if P a then f a else a) (if P b then f b else b) = lock_clash a b" for a b
    using assms by (cases "P a"; cases "P b") (simp_all add: lock_clash_def)
  then show ?thesis by (intro preserves_update) (simp add: schema_ok_def no_clash_update)
qed

lemma schema_update_policies [schema_updates]:
  assumes "\<And>r. P r \<Longrightarrow> pp_key (f r) = pp_key r"
  shows "preserves schema_ok (update_rows policies_table P f)"
proof -
  have "policy_clash (if P a then f a else a) (if P b then f b else b) = policy_clash a b" for a b
    using assms by (cases "P a"; cases "P b") (simp_all add: policy_clash_def)
  then show ?thesis by (intro preserves_update) (simp add: schema_ok_def no_clash_update)
qed

lemma schema_update_preferences [schema_updates]:
  assumes "\<And>r. P r \<Longrightarrow> fr_workspace (f r) = fr_workspace r \<and> fr_recipient (f r) = fr_recipient r"
  shows "preserves schema_ok (update_rows preferences_table P f)"
proof -
  have "preference_clash (if P a then f a else a) (if P b then f b else b) = preference_clash a b" for a b
    using assms by (cases "P a"; cases "P b") (simp_all add: preference_clash_def)
  then show ?thesis by (intro preserves_update) (simp add: schema_ok_def no_clash_update)
qed

lemma schema_update_reservations [schema_updates]:
  assumes "\<And>r. P r \<Longrightarrow> vv_workspace (f r) = vv_workspace r \<and> rv_id (vv_reservation (f r)) = rv_id (vv_reservation r)"
  shows "preserves schema_ok (update_rows reservations_table P f)"
proof -
  have "reservation_clash (if P a then f a else a) (if P b then f b else b) = reservation_clash a b" for a b
    using assms by (cases "P a"; cases "P b") (simp_all add: reservation_clash_def)
  then show ?thesis by (intro preserves_update) (simp add: schema_ok_def no_clash_update)
qed

lemma schema_update_archive [schema_updates]:
  assumes "\<And>r. P r \<Longrightarrow> aw_id (f r) = aw_id r \<and> aw_workspace (f r) = aw_workspace r \<and> aw_policy_key (f r) = aw_policy_key r \<and> aw_table (f r) = aw_table r \<and> aw_resource (f r) = aw_resource r"
  shows "preserves schema_ok (update_rows archive_table P f)"
proof -
  have "archive_clash (if P a then f a else a) (if P b then f b else b) = archive_clash a b" for a b
    using assms by (cases "P a"; cases "P b") (simp_all add: archive_clash_def)
  then show ?thesis by (intro preserves_update) (simp add: schema_ok_def no_clash_update)
qed

lemma schema_inserts [preserves_intros]:
  "preserves schema_ok (workspace_insert events_table event_clash s0 ws0 col0 r0)"
  "preserves schema_ok (insert_row events_table event_clash s0 r0)"
  "preserves schema_ok (workspace_insert failures_table failure_clash s1 ws1 col1 r1)"
  "preserves schema_ok (insert_row failures_table failure_clash s1 r1)"
  "preserves schema_ok (workspace_insert plans_table plan_clash s2 ws2 col2 r2)"
  "preserves schema_ok (insert_row plans_table plan_clash s2 r2)"
  "preserves schema_ok (workspace_insert items_table item_clash s3 ws3 col3 r3)"
  "preserves schema_ok (insert_row items_table item_clash s3 r3)"
  "preserves schema_ok (workspace_insert groups_table group_clash s4 ws4 col4 r4)"
  "preserves schema_ok (insert_row groups_table group_clash s4 r4)"
  "preserves schema_ok (workspace_insert delegations_table delegation_clash s5 ws5 col5 r5)"
  "preserves schema_ok (insert_row delegations_table delegation_clash s5 r5)"
  "preserves schema_ok (workspace_insert views_table view_clash s6 ws6 col6 r6)"
  "preserves schema_ok (insert_row views_table view_clash s6 r6)"
  "preserves schema_ok (workspace_insert templates_table template_clash s7 ws7 col7 r7)"
  "preserves schema_ok (insert_row templates_table template_clash s7 r7)"
  "preserves schema_ok (workspace_insert versions_table version_clash s8 ws8 col8 r8)"
  "preserves schema_ok (insert_row versions_table version_clash s8 r8)"
  "preserves schema_ok (workspace_insert requests_table request_clash s9 ws9 col9 r9)"
  "preserves schema_ok (insert_row requests_table request_clash s9 r9)"
  "preserves schema_ok (workspace_insert locks_table lock_clash s10 ws10 col10 r10)"
  "preserves schema_ok (insert_row locks_table lock_clash s10 r10)"
  "preserves schema_ok (workspace_insert policies_table policy_clash s11 ws11 col11 r11)"
  "preserves schema_ok (insert_row policies_table policy_clash s11 r11)"
  "preserves schema_ok (workspace_insert preferences_table preference_clash s12 ws12 col12 r12)"
  "preserves schema_ok (insert_row preferences_table preference_clash s12 r12)"
  "preserves schema_ok (workspace_insert reservations_table reservation_clash s13 ws13 col13 r13)"
  "preserves schema_ok (insert_row reservations_table reservation_clash s13 r13)"
  "preserves schema_ok (workspace_insert archive_table archive_clash s14 ws14 col14 r14)"
  "preserves schema_ok (insert_row archive_table archive_clash s14 r14)"
  by (rule preserves_workspace_insert preserves_insert;
      auto simp: schema_ok_def intro!: no_clash_append)+

lemma schema_deletes [preserves_intros]:
  "preserves schema_ok (delete_rows events_table P0)"
  "preserves schema_ok (delete_rows failures_table P1)"
  "preserves schema_ok (delete_rows plans_table P2)"
  "preserves schema_ok (delete_rows items_table P3)"
  "preserves schema_ok (delete_rows groups_table P4)"
  "preserves schema_ok (delete_rows delegations_table P5)"
  "preserves schema_ok (delete_rows views_table P6)"
  "preserves schema_ok (delete_rows templates_table P7)"
  "preserves schema_ok (delete_rows versions_table P8)"
  "preserves schema_ok (delete_rows requests_table P9)"
  "preserves schema_ok (delete_rows locks_table P10)"
  "preserves schema_ok (delete_rows policies_table P11)"
  "preserves schema_ok (delete_rows preferences_table P12)"
  "preserves schema_ok (delete_rows reservations_table P13)"
  "preserves schema_ok (delete_rows archive_table P14)"
  by (rule preserves_delete; auto simp: schema_ok_def intro!: no_clash_filter)+

lemma schema_register [preserves_intros]: "preserves schema_ok (register_scope qi k ws at)"
  by (rule preserves_register) simp

end
