(* ===== verification/Sha256.thy ===== *)
theory Sha256
  imports Go_Strings
begin

unbundle bit_operations_syntax

text \<open>
  \<open>crypto/sha256.Sum256\<close> and \<open>encoding/hex.EncodeToString\<close>: the module derives stable
  identifiers (plans, failures, reservations) and content hashes from them. The digest is
  computed on 32-bit words exactly as FIPS 180-4 gives it; a message is a list of bytes.
\<close>

type_synonym word32 = "32 word"

text \<open>
  The constants of the standard: the leading 32 bits of the fractional parts of the cube roots
  of the first 64 primes, and of the square roots of the first 8. \<open>root_bits k i n 0\<close> is the
  integer \<open>k\<close>-th root of \<open>n\<close>, found bit by bit from bit \<open>i - 1\<close> down.
\<close>

fun root_bits :: "nat \<Rightarrow> nat \<Rightarrow> int \<Rightarrow> int \<Rightarrow> int" where
  "root_bits k 0 n acc = acc"
| "root_bits k (Suc i) n acc = root_bits k i n (if (acc + 2 ^ i) ^ k \<le> n then acc + 2 ^ i else acc)"

definition prime_upto :: "int \<Rightarrow> int list" where
  "prime_upto m = filter (\<lambda>p. list_all (\<lambda>d. p mod d \<noteq> 0) [2..p - 1]) [2..m]"

definition round_constants :: "word32 list" where
  "round_constants = map (\<lambda>p. word_of_int (root_bits 3 36 (p * 2 ^ 96) 0)) (prime_upto 311)"

definition initial_hash :: "word32 list" where
  "initial_hash = map (\<lambda>p. word_of_int (root_bits 2 36 (p * 2 ^ 64) 0)) [2, 3, 5, 7, 11, 13, 17, 19]"

definition big_sigma0 :: "word32 \<Rightarrow> word32" where
  "big_sigma0 x = word_rotr 2 x XOR word_rotr 13 x XOR word_rotr 22 x"

definition big_sigma1 :: "word32 \<Rightarrow> word32" where
  "big_sigma1 x = word_rotr 6 x XOR word_rotr 11 x XOR word_rotr 25 x"

definition small_sigma0 :: "word32 \<Rightarrow> word32" where
  "small_sigma0 x = word_rotr 7 x XOR word_rotr 18 x XOR drop_bit 3 x"

definition small_sigma1 :: "word32 \<Rightarrow> word32" where
  "small_sigma1 x = word_rotr 17 x XOR word_rotr 19 x XOR drop_bit 10 x"

definition sha_ch :: "word32 \<Rightarrow> word32 \<Rightarrow> word32 \<Rightarrow> word32" where
  "sha_ch x y z = (x AND y) XOR ((NOT x) AND z)"

definition sha_maj :: "word32 \<Rightarrow> word32 \<Rightarrow> word32 \<Rightarrow> word32" where
  "sha_maj x y z = (x AND y) XOR (x AND z) XOR (y AND z)"

text \<open>Padding: a 1 bit, zeros, and the bit length on 64 bits.\<close>

fun big_endian :: "nat \<Rightarrow> int \<Rightarrow> int list" where
  "big_endian 0 n = []"
| "big_endian (Suc k) n = big_endian k (n div 256) @ [n mod 256]"

definition pad_message :: "int list \<Rightarrow> int list" where
  "pad_message m =
     m @ 128 # replicate ((119 - length m mod 64) mod 64) 0 @ big_endian 8 (8 * int (length m))"

fun words_of :: "int list \<Rightarrow> word32 list" where
  "words_of (a # b # c # d # r) =
     word_of_int (((a * 256 + b) * 256 + c) * 256 + d) # words_of r"
| "words_of _ = []"

text \<open>The message schedule, newest word first.\<close>

fun extend_schedule :: "nat \<Rightarrow> word32 list \<Rightarrow> word32 list" where
  "extend_schedule 0 ws = ws"
| "extend_schedule (Suc n) ws =
     extend_schedule n ((small_sigma1 (ws ! 1) + ws ! 6 + small_sigma0 (ws ! 14) + ws ! 15) # ws)"

fun compress :: "(word32 \<times> word32) list \<Rightarrow> word32 list \<Rightarrow> word32 list" where
  "compress ((k, w) # r) [a, b, c, d, e, f, g, h] =
     (let t1 = h + big_sigma1 e + sha_ch e f g + k + w;
          t2 = big_sigma0 a + sha_maj a b c
      in compress r [t1 + t2, a, b, c, d + t1, e, f, g])"
| "compress _ s = s"

definition hash_block :: "word32 list \<Rightarrow> word32 list \<Rightarrow> word32 list" where
  "hash_block h block =
     map2 (+) h (compress (zip round_constants (rev (extend_schedule 48 (rev block)))) h)"

function hash_blocks :: "word32 list \<Rightarrow> word32 list \<Rightarrow> word32 list" where
  "hash_blocks h ws = (if length ws < 16 then h else hash_blocks (hash_block h (take 16 ws)) (drop 16 ws))"
  by pat_completeness auto
termination
  by (relation "measure (\<lambda>(h, ws). length ws)") auto

declare hash_blocks.simps [simp del]

definition sha256 :: "string \<Rightarrow> string" where
  "sha256 s = concat (map (\<lambda>w. map char_of (big_endian 4 (uint w)))
     (hash_blocks initial_hash (words_of (pad_message (map of_char s)))))"

definition hex_digit :: "nat \<Rightarrow> char" where
  "hex_digit n = char_of (if n < 10 then 48 + n else 87 + n)"

definition hex_encode :: "string \<Rightarrow> string" where
  "hex_encode s = concat (map (\<lambda>c. [hex_digit (of_char c div 16), hex_digit (of_char c mod 16)]) s)"

text \<open>\<open>hex.EncodeToString(sum[:16])\<close> of the parts joined by NUL bytes.\<close>

definition short_digest :: "string list \<Rightarrow> string" where
  "short_digest parts = hex_encode (take 16 (sha256 (join_with [CHR 0x00] parts)))"

lemma length_big_endian [simp]: "length (big_endian k n) = k"
  by (induction k arbitrary: n) auto

lemma length_hash_block: "length (hash_block h b) \<le> length h"
  by (simp add: hash_block_def)

lemma length_compress: "length s = 8 \<Longrightarrow> length (compress kw s) = 8"
  by (induction kw s rule: compress.induct) (simp_all add: Let_def)

lemma length_hash_blocks: "length h = 8 \<Longrightarrow> length (hash_blocks h ws) = 8"
proof (induction h ws rule: hash_blocks.induct)
  case (1 h ws)
  have "length (hash_block h (take 16 ws)) = 8"
    using 1(2) by (simp add: hash_block_def length_compress)
  then show ?case
    using 1 by (subst hash_blocks.simps) simp
qed

lemma length_sha256: "length (sha256 s) = 32"
proof -
  have "sum_list (map (\<lambda>w. 4) (xs :: word32 list)) = 4 * length xs" for xs
    by (induction xs) auto
  then show ?thesis
    by (simp add: sha256_def length_concat comp_def length_hash_blocks initial_hash_def)
qed

text \<open>An encoded digest is made of lower-case hexadecimal digits.\<close>

lemma hex_digit_key:
  assumes "n < 16" shows "key_char (hex_digit n)"
proof -
  have "\<forall>k \<in> set [0..<16]. key_char (hex_digit k)" by code_simp
  with assms show ?thesis by simp
qed

lemma hex_encode_chars: "c \<in> set (hex_encode s) \<Longrightarrow> key_char c"
proof -
  assume "c \<in> set (hex_encode s)"
  then obtain x :: char where "c = hex_digit (of_char x div 16) \<or> c = hex_digit (of_char x mod 16)"
    by (auto simp: hex_encode_def)
  moreover have "(of_char x :: nat) div 16 < 16" by (simp add: div_less_iff_less_mult)
  ultimately show ?thesis by (auto intro: hex_digit_key)
qed

lemma length_hex_encode: "length (hex_encode s) = 2 * length s"
  by (induction s) (auto simp: hex_encode_def)

lemma length_short_digest: "length (short_digest parts) = 32"
  by (simp add: short_digest_def length_hex_encode length_sha256)

end
