(* ===== verification/Event_Store.thy ===== *)
theory Event_Store
  imports Lease Integrity Sha256
begin

text \<open>
  The event store, internal/infrastructure/persistence/database/event: enqueueing an event
  idempotently by its source identity (writer.go, lifecycle.go \<open>Enqueue\<close>), listing and claiming
  due events, recording a failed attempt with its evidence (\<open>transitionFailure\<close>), and
  materializing an event into inbox items, alert groups and channel plans in one transaction
  (materialization.go). A Go result \<open>(Event, found, error)\<close> is an \<open>event option\<close>.
\<close>

section \<open>Rows\<close>

definition event_row_of :: "event \<Rightarrow> event_row" where
  "event_row_of e = \<lparr>er_id = ev_id e, er_workspace = ev_workspace e, er_source = ev_source e,
     er_source_event = ev_source_event e, er_status = ev_status e, er_payload = e,
     er_attempts = ev_attempts e, er_next_attempt = ev_next_attempt e, er_error_code = ev_error_code e,
     er_owner = ev_owner e, er_lease = ev_lease e, er_token = ev_token e, er_occurred = ev_occurred e,
     er_created = ev_created e, er_updated = ev_updated e\<rparr>"

text \<open>\<open>scanEvent\<close>: the stored payload with the columns written over it.\<close>

definition scan_event :: "event_row \<Rightarrow> event" where
  "scan_event r = (er_payload r)\<lparr>ev_id := er_id r, ev_workspace := er_workspace r,
     ev_source := er_source r, ev_source_event := er_source_event r, ev_status := er_status r,
     ev_attempts := er_attempts r, ev_next_attempt := er_next_attempt r,
     ev_error_code := er_error_code r, ev_owner := er_owner r, ev_lease := er_lease r,
     ev_token := er_token r, ev_occurred := er_occurred r, ev_created := er_created r,
     ev_updated := er_updated r\<rparr>"

lemma scan_event_row_of [simp]: "scan_event (event_row_of e) = e"
  by (simp add: scan_event_def event_row_of_def)

section \<open>Enqueue\<close>

definition insert_event :: "queue_index \<Rightarrow> event \<Rightarrow> unit sql" where
  "insert_event qi e =
     guard_io (ev_workspace e = [] \<or> ev_id e = []) (ErrorText ''notification event identity is required'')
     (bind_io (wrapping ''register notification inbox queue scope''
                 (register_scope qi WorkInboxEvent (ev_workspace e) (ev_updated e))) (\<lambda>_.
      wrapping ''insert notification event''
        (workspace_insert events_table event_clash ''_notification_events'' (ev_workspace e)
           (ev_workspace e) (event_row_of e))))"

definition event_by_id :: "workspace_id \<Rightarrow> string \<Rightarrow> event option sql" where
  "event_by_id ws i = bind_io (select_row events_table
       (\<lambda>r. er_workspace r = ws \<and> er_id r = trim_space i)) (\<lambda>r. ret (map_option scan_event r))"

definition event_by_source :: "workspace_id \<Rightarrow> string \<Rightarrow> string \<Rightarrow> event option sql" where
  "event_by_source ws src sid = bind_io (select_row events_table
       (\<lambda>r. er_workspace r = ws \<and> er_source r = trim_space src \<and> er_source_event r = trim_space sid))
       (\<lambda>r. ret (map_option scan_event r))"

definition event_committed :: "workspace_id \<Rightarrow> string \<Rightarrow> string \<Rightarrow> bool sql" where
  "event_committed ws src sid = bind_io (event_by_source ws src sid) (\<lambda>r. ret (r \<noteq> None))"

definition clear_plan_lifecycle :: "plan \<Rightarrow> plan" where
  "clear_plan_lifecycle p = p\<lparr>pl_status := [], pl_attempts := 0, pl_next_attempt := [],
     pl_error_code := [], pl_outbox := [], pl_owner := [], pl_lease := [], pl_token := 0,
     pl_created := [], pl_updated := []\<rparr>"

definition clear_event_lifecycle :: "event \<Rightarrow> event" where
  "clear_event_lifecycle e = e\<lparr>ev_status := [], ev_attempts := 0, ev_next_attempt := [],
     ev_error_code := [], ev_owner := [], ev_lease := [], ev_token := 0, ev_created := [],
     ev_updated := [], ev_plans := map clear_plan_lifecycle (ev_plans e)\<rparr>"

text \<open>\<open>sameIngest\<close> compares the JSON of the cleared events; equal values have equal JSON.\<close>

definition same_ingest :: "event \<Rightarrow> event \<Rightarrow> bool" where
  "same_ingest a b \<longleftrightarrow> clear_event_lifecycle a = clear_event_lifecycle b"

text \<open>
  \<open>sameIngest\<close> receives copies of the two event structs, but clears the plans through the
  slices the copies share with them: the event found in the table is returned with its plans'
  lifecycle fields cleared.
\<close>

definition clear_shared_plans :: "event \<Rightarrow> event" where
  "clear_shared_plans e = e\<lparr>ev_plans := map clear_plan_lifecycle (ev_plans e)\<rparr>"

definition enqueue :: "queue_index \<Rightarrow> event \<Rightarrow> (event \<times> bool) sql" where
  "enqueue qi e =
     guard_io (ev_workspace e = []) (ErrorText ''notification event workspace is required'')
     (bind_io (wrapping ''begin notification event enqueue'' begin_tx) (\<lambda>saved.
      bind_io (attempt (in_tx saved (bind_io (insert_event qi e) (\<lambda>_. commit_with ())))) (\<lambda>r.
      case r of
        Inr _ \<Rightarrow> ret (e, True)
      | Inl err \<Rightarrow>
          bind_io (attempt (event_by_source (ev_workspace e) (ev_source e) (ev_source_event e))) (\<lambda>found.
          case found of
            Inl _ \<Rightarrow> fail (Wrapped ''enqueue notification event'' err)
          | Inr None \<Rightarrow> fail (Wrapped ''enqueue notification event'' err)
          | Inr (Some existing) \<Rightarrow>
              if \<not> same_ingest existing e
              then fail (MutationConflict ''notification_event'' (ev_id e) ConflictIdempotency)
              else ret (clear_shared_plans existing, False)))))"

section \<open>Listing and claiming\<close>

definition event_due :: "string \<Rightarrow> event_row \<Rightarrow> bool" where
  "event_due now r = due_at (er_status r) (er_next_attempt r) (er_lease r) now"

definition list_due_for_workspace :: "workspace_id \<Rightarrow> string \<Rightarrow> int \<Rightarrow> event list sql" where
  "list_due_for_workspace ws now limit =
     bind_io (wrapping ''list due notification events''
       (query (\<lambda>d. take_limit limit (sort_key er_occurred
          (filter (\<lambda>r. er_workspace r = ws \<and> event_due now r) (db_events d))))))
     (\<lambda>rows. ret (map scan_event rows))"

definition list_due :: "queue_index \<Rightarrow> string \<Rightarrow> int \<Rightarrow> event list sql" where
  "list_due qi now limit0 =
     (let limit = (if limit0 \<le> 0 then 25 else limit0) in
      bind_io (scope_workspaces qi WorkInboxEvent (workspace_scan_limit limit)) (\<lambda>wss.
      bind_io (fold_io (\<lambda>ws acc. bind_io (list_due_for_workspace ws now limit) (\<lambda>vs. ret (acc @ vs)))
                 wss []) (\<lambda>values.
      ret (take_limit limit (sort_key (\<lambda>e. (ev_occurred e, ev_id e)) values)))))"

definition claim_event_row :: "string \<Rightarrow> string \<Rightarrow> string \<Rightarrow> event_row \<Rightarrow> event_row" where
  "claim_event_row owner now expires r = r\<lparr>er_status := ''processing'', er_owner := owner,
     er_lease := expires, er_token := er_token r + 1, er_updated := now\<rparr>"

definition claim_event ::
  "workspace_id \<Rightarrow> string \<Rightarrow> string \<Rightarrow> string \<Rightarrow> string \<Rightarrow> event option sql" where
  "claim_event ws i owner now expires =
     (let i = trim_space i; owner = trim_space owner; now = trim_space now; expires = trim_space expires in
      guard_io (ws = [] \<or> i = [] \<or> owner = [] \<or> now = [] \<or> expires = [])
        (ErrorText ''notification event claim identity and lease are required'')
      (bind_io (wrapping ''claim notification event''
         (update_rows events_table (\<lambda>r. er_workspace r = ws \<and> er_id r = i \<and> event_due now r)
            (claim_event_row owner now expires))) (\<lambda>count.
       if count \<noteq> 1 then ret None else event_by_id ws i)))"

section \<open>Failed attempts\<close>

definition failure_code_ok :: "string \<Rightarrow> bool" where
  "failure_code_ok s \<longleftrightarrow> stable_key s \<and> length s \<le> 160"

definition failure_stages :: "string list" where
  "failure_stages = [''event_parse'', ''render'', ''audience_resolution'', ''materialization'']"

definition failure_id :: "workspace_id \<Rightarrow> string \<Rightarrow> int \<Rightarrow> string" where
  "failure_id ws i token = ''notification_failure_'' @ short_digest [ws, i, show_int token, ''failure'']"

text \<open>The condition of every statement that ends a claim.\<close>

definition event_lease_matches :: "event \<Rightarrow> event_row \<Rightarrow> bool" where
  "event_lease_matches e r \<longleftrightarrow> er_workspace r = ev_workspace e \<and> er_id r = ev_id e \<and>
     er_status r = ''processing'' \<and> er_owner r = ev_owner e \<and> er_token r = ev_token e"

definition fail_event_row :: "string \<Rightarrow> string \<Rightarrow> string \<Rightarrow> string \<Rightarrow> event_row \<Rightarrow> event_row" where
  "fail_event_row status code next_at now r = r\<lparr>er_status := status,
     er_attempts := er_attempts r + 1, er_next_attempt := trim_space next_at, er_error_code := code,
     er_owner := [], er_lease := [], er_updated := trim_space now\<rparr>"

definition failure_of :: "event \<Rightarrow> string \<Rightarrow> string \<Rightarrow> string \<Rightarrow> string \<Rightarrow> string \<Rightarrow> event_failure" where
  "failure_of e status stage code next_at now = \<lparr>
     ef_id = failure_id (ev_workspace e) (ev_id e) (ev_token e), ef_workspace = ev_workspace e,
     ef_event = ev_id e, ef_event_type = ev_type e, ef_source = ev_source e,
     ef_source_event = ev_source_event e, ef_stage = stage, ef_error_code = code,
     ef_attempt = ev_attempts e + 1,
     ef_disposition = (if status = EventFailed then ''dead_letter'' else ''retry_scheduled''),
     ef_retryable = (status \<noteq> EventFailed), ef_next_attempt = trim_space next_at,
     ef_token = ev_token e, ef_occurred = trim_space now\<rparr>"

definition transition_failure ::
  "event \<Rightarrow> string \<Rightarrow> string \<Rightarrow> string \<Rightarrow> string \<Rightarrow> string \<Rightarrow> unit sql" where
  "transition_failure e status stage code next_at now =
     (let stage = trim_space stage; code = trim_space code in
      guard_io (stage \<notin> set failure_stages \<or> \<not> failure_code_ok code)
        (ErrorText ''notification event failure evidence requires a safe stage and error code'')
      (transaction
        (bind_io (wrapping ''transition notification event failure''
           (update_rows events_table (event_lease_matches e) (fail_event_row status code next_at now)))
         (\<lambda>count.
          guard_io (count \<noteq> 1) (MutationConflict ''notification_event'' (ev_id e) ConflictLeaseLost)
          (bind_io (wrapping ''record notification event failure''
             (workspace_insert failures_table failure_clash ''_notification_event_failures''
                (ev_workspace e) (ev_workspace e) (failure_of e status stage code next_at now)))
           (\<lambda>_. commit_with ()))))))"

definition retry_event :: "event \<Rightarrow> string \<Rightarrow> string \<Rightarrow> string \<Rightarrow> string \<Rightarrow> unit sql" where
  "retry_event e stage code next_at now = transition_failure e EventQueued stage code next_at now"

definition fail_event :: "event \<Rightarrow> string \<Rightarrow> string \<Rightarrow> string \<Rightarrow> unit sql" where
  "fail_event e stage code now = transition_failure e EventFailed stage code [] now"

section \<open>Materialization\<close>

definition inbox_search_text :: "item \<Rightarrow> string" where
  "inbox_search_text i = to_lower (join_with (CHR '' '' # [CHR 0x0A])
     ([it_title i, it_body i, it_event_type i, it_source i, it_category i, it_subject_type i,
       it_subject_id i] @ concat (map (\<lambda>f. [fa_key f, fa_value f]) (it_facts i))))"

definition group_key_matches :: "event \<Rightarrow> item \<Rightarrow> alert_group \<Rightarrow> bool" where
  "group_key_matches e i g \<longleftrightarrow> al_workspace g = ev_workspace e \<and> al_recipient g = it_recipient i \<and>
     al_group g = ev_group e"

definition update_group :: "event \<Rightarrow> alert_group \<Rightarrow> alert_group" where
  "update_group e g = g\<lparr>al_state := ev_alert_state e,
     al_occurrences := al_occurrences g + (if ev_alert_state e = AlertFiring then 1 else 0),
     al_last := ev_occurred e, al_acknowledged_at := [], al_acknowledged_by := [],
     al_resolved_at := (if ev_alert_state e = AlertResolved then ev_occurred e else []),
     al_last_event := ev_id e, al_updated := ev_updated e\<rparr>"

definition new_group :: "event \<Rightarrow> item \<Rightarrow> alert_group" where
  "new_group e i = \<lparr>al_workspace = ev_workspace e, al_recipient = it_recipient i,
     al_group = ev_group e, al_state = ev_alert_state e,
     al_occurrences = (if ev_alert_state e = AlertFiring then 1 else 0), al_first = ev_occurred e,
     al_last = ev_occurred e, al_acknowledged_at = [], al_acknowledged_by = [],
     al_resolved_at = (if ev_alert_state e = AlertResolved then ev_occurred e else []),
     al_last_event = ev_id e, al_updated = ev_updated e\<rparr>"

definition transition_alert_group :: "event \<Rightarrow> item \<Rightarrow> unit sql" where
  "transition_alert_group e i =
     (if ev_alert_state e = [] then ret () else
      bind_io (wrapping ''update notification alert group''
        (update_rows groups_table (\<lambda>g. group_key_matches e i g \<and> al_last g \<le> ev_occurred e)
           (update_group e))) (\<lambda>count.
      if count = 1 then ret () else
      bind_io (count_rows groups_table (group_key_matches e i)) (\<lambda>exists.
      if exists = 1 then ret () else
      wrapping ''insert notification alert group''
        (workspace_insert groups_table group_clash ''_notification_alert_groups'' (ev_workspace e)
           (ev_workspace e) (new_group e i)))))"

definition update_item_row :: "item \<Rightarrow> item_row \<Rightarrow> item_row" where
  "update_item_row i r = r\<lparr>ir_event := it_event i, ir_event_type := it_event_type i,
     ir_source := it_source i, ir_category := it_category i, ir_severity := it_severity i,
     ir_title := it_title i, ir_body := it_body i, ir_search := inbox_search_text i, ir_payload := i,
     ir_subject_type := it_subject_type i, ir_subject_id := it_subject_id i,
     ir_action_state := it_action_state i, ir_alert_state := it_alert_state i,
     ir_last := it_last i, ir_expires := it_expires i, ir_updated := it_updated i,
     ir_occurrences := ir_occurrences r + (if it_alert_state i = AlertResolved then 0 else 1)\<rparr>"

definition new_item_row :: "item \<Rightarrow> item_row" where
  "new_item_row i = \<lparr>ir_id = it_id i, ir_workspace = it_workspace i, ir_recipient = it_recipient i,
     ir_event = it_event i, ir_event_type = it_event_type i, ir_source = it_source i,
     ir_category = it_category i, ir_severity = it_severity i, ir_title = it_title i,
     ir_body = it_body i, ir_search = inbox_search_text i, ir_payload = i,
     ir_subject_type = it_subject_type i, ir_subject_id = it_subject_id i,
     ir_action_state = it_action_state i, ir_alert_state = it_alert_state i, ir_group = it_group i,
     ir_occurrences = (if it_alert_state i = AlertFiring \<and> it_occurrences i = 0 then 1 else it_occurrences i),
     ir_first = it_first i, ir_last = it_last i, ir_read = it_read i, ir_archived = it_archived i,
     ir_expires = it_expires i, ir_created = it_created i, ir_updated = it_updated i\<rparr>"

definition item_key_matches :: "item \<Rightarrow> item_row \<Rightarrow> bool" where
  "item_key_matches i r \<longleftrightarrow> ir_workspace r = it_workspace i \<and> ir_id r = it_id i"

definition upsert_inbox_item :: "item \<Rightarrow> unit sql" where
  "upsert_inbox_item i =
     bind_io (wrapping ''update notification inbox item''
       (update_rows items_table (\<lambda>r. item_key_matches i r \<and> ir_last r \<le> it_last i)
          (update_item_row i))) (\<lambda>count.
     if count = 1 then ret () else
     bind_io (count_rows items_table (item_key_matches i)) (\<lambda>exists.
     if exists = 1 then ret () else
     wrapping ''insert notification inbox item''
       (workspace_insert items_table item_clash ''_notification_inbox_items'' (it_workspace i)
          (it_workspace i) (new_item_row i))))"

definition plan_row_of :: "plan \<Rightarrow> plan_row" where
  "plan_row_of p = \<lparr>qr_id = pl_id p, qr_workspace = pl_workspace p, qr_event = pl_event p,
     qr_channel = pl_channel p, qr_status = pl_status p, qr_payload = p, qr_attempts = pl_attempts p,
     qr_next_attempt = pl_next_attempt p, qr_error_code = pl_error_code p, qr_outbox = pl_outbox p,
     qr_owner = pl_owner p, qr_lease = pl_lease p, qr_token = pl_token p, qr_created = pl_created p,
     qr_updated = pl_updated p\<rparr>"

definition insert_channel_plan :: "plan \<Rightarrow> unit sql" where
  "insert_channel_plan p = wrapping ''insert notification channel plan''
     (workspace_insert plans_table plan_clash ''_notification_channel_plans'' (pl_workspace p)
        (pl_workspace p) (plan_row_of p))"

definition finish_event_row :: "event \<Rightarrow> event_row \<Rightarrow> event_row" where
  "finish_event_row e r = r\<lparr>er_status := ''materialized'', er_owner := [], er_lease := [],
     er_error_code := [], er_updated := ev_updated e\<rparr>"

definition materialize_body :: "queue_index \<Rightarrow> event \<Rightarrow> item list \<Rightarrow> (bool \<times> unit) sql" where
  "materialize_body qi e items =
     bind_io (for_each (\<lambda>i. bind_io (transition_alert_group e i) (\<lambda>_. upsert_inbox_item i)) items) (\<lambda>_.
     bind_io (if ev_plans e = [] then ret ()
              else wrapping ''register notification channel queue scope''
                     (register_scope qi WorkChannelPlan (ev_workspace e) (ev_updated e))) (\<lambda>_.
     bind_io (for_each insert_channel_plan (ev_plans e)) (\<lambda>_.
     bind_io (wrapping ''finish notification event''
        (update_rows events_table (event_lease_matches e) (finish_event_row e))) (\<lambda>count.
     guard_io (count \<noteq> 1) (MutationConflict ''notification_event'' (ev_id e) ConflictLeaseLost)
       (commit_with ())))))"

definition materialize :: "queue_index \<Rightarrow> event \<Rightarrow> item list \<Rightarrow> unit sql" where
  "materialize qi e items =
     guard_io (ev_workspace e = [] \<or> ev_id e = [] \<or> ev_owner e = [])
       (ErrorText ''notification materialization requires a claimed event'')
     (transaction_wrapped ''begin notification materialization'' (materialize_body qi e items))"

section \<open>The lease of an event\<close>

definition event_key :: "event_row \<Rightarrow> workspace_id \<times> string" where
  "event_key r = (er_workspace r, er_id r)"

definition event_held :: "event_row \<Rightarrow> bool" where
  "event_held r \<longleftrightarrow> er_status r = ''processing''"

interpretation ev_lease: lease_row event_key event_held er_owner er_token claim_event_row
  by unfold_locales (simp_all add: event_key_def event_held_def claim_event_row_def)

lemma event_lease_holds:
  "event_lease_matches e = ev_lease.holds (ev_workspace e, ev_id e) (ev_owner e) (ev_token e)"
  by (rule ext) (auto simp: event_lease_matches_def ev_lease.holds_def event_key_def event_held_def)

lemma unique_event_keys:
  assumes "schema_ok d" shows "ev_lease.unique_keys (db_events d)"
  unfolding ev_lease.unique_keys_def
  by (rule no_clash_distinct [OF schema_ok_parts(1) [OF assms]])
    (simp add: event_key_def event_clash_def)

end
