(* ===== verification/Event_Queue.thy ===== *)
theory Event_Queue
  imports Event_Store
begin

text \<open>
  Correctness of the event store: every operation keeps the unique indexes, whatever the
  driver does; materialization and failure recording are atomic and refine a pure function on
  the database; a claim is exclusive and a stale lease holder cannot settle; along any
  sequence of operations each fencing token is settled at most once.
\<close>

section \<open>Unique indexes\<close>

lemma transition_alert_group_schema [preserves_intros]:
  "preserves schema_ok (transition_alert_group e i)"
  unfolding transition_alert_group_def
  by (intro preserves_intros schema_updates) (simp add: update_group_def)

lemma upsert_inbox_item_schema [preserves_intros]: "preserves schema_ok (upsert_inbox_item i)"
  unfolding upsert_inbox_item_def
  by (intro preserves_intros schema_updates) (simp add: update_item_row_def)

lemma insert_event_schema [preserves_intros]: "preserves schema_ok (insert_event qi e)"
  unfolding insert_event_def by (intro preserves_intros)

lemma materialize_body_schema [preserves_intros]: "preserves schema_ok (materialize_body qi e items)"
  unfolding materialize_body_def insert_channel_plan_def
  by (intro preserves_intros schema_updates) (simp add: finish_event_row_def)

lemma materialize_schema [preserves_intros]: "preserves schema_ok (materialize qi e items)"
  unfolding materialize_def by (intro preserves_intros)

lemma event_reads_schema [preserves_intros]:
  "preserves P (event_by_id ws i)" "preserves P (event_by_source ws src sid)"
  "preserves P (list_due_for_workspace ws now limit)"
  unfolding event_by_id_def event_by_source_def list_due_for_workspace_def
  by (intro preserves_intros)+

lemma transition_failure_schema [preserves_intros]:
  "preserves schema_ok (transition_failure e st stage code nx now)"
  unfolding transition_failure_def Let_def
  by (intro preserves_intros schema_updates) (simp add: fail_event_row_def)

lemma claim_event_schema [preserves_intros]: "preserves schema_ok (claim_event ws i ow now x)"
  unfolding claim_event_def Let_def
  by (intro preserves_intros schema_updates) (simp add: claim_event_row_def)

lemma enqueue_schema [preserves_intros]: "preserves schema_ok (enqueue qi e)"
  unfolding enqueue_def
proof (intro preserves_guard preserves_bind_state)
  show "preserves schema_ok (wrapping ''begin notification event enqueue'' begin_tx)"
    unfolding begin_tx_def by (intro preserves_intros)
next
  fix w a w' assume "schema_ok (db w)" "wrapping ''begin notification event enqueue'' begin_tx w = (Inr a, w')"
  then have "schema_ok a" by (auto simp: wrapping_Inr elim: begin_tx_cases)
  then show "preserves schema_ok (attempt (in_tx a (bind_io (insert_event qi e) (\<lambda>_. commit_with ()))))"
    by (intro preserves_intros preserves_in_tx)
qed (intro preserves_intros)

section \<open>Materialization as a function on the database\<close>

definition apply_group :: "event \<Rightarrow> item \<Rightarrow> alert_group list \<Rightarrow> alert_group list" where
  "apply_group e i gs =
     (if ev_alert_state e = [] then gs
      else if list_ex (group_key_matches e i) gs
      then update_where (\<lambda>g. group_key_matches e i g \<and> al_last g \<le> ev_occurred e) (update_group e) gs
      else gs @ [new_group e i])"

definition apply_item :: "item \<Rightarrow> item_row list \<Rightarrow> item_row list" where
  "apply_item i rs =
     (if list_ex (item_key_matches i) rs
      then update_where (\<lambda>r. item_key_matches i r \<and> ir_last r \<le> it_last i) (update_item_row i) rs
      else rs @ [new_item_row i])"

definition materialized :: "event \<Rightarrow> item list \<Rightarrow> database \<Rightarrow> database" where
  "materialized e items d = d\<lparr>
     db_groups := fold (apply_group e) items (db_groups d),
     db_items := fold apply_item items (db_items d),
     db_plans := db_plans d @ map plan_row_of (ev_plans e),
     db_events := update_where (event_lease_matches e) (finish_event_row e) (db_events d)\<rparr>"

lemma filter_count_cases:
  assumes "length (filter Q rs) \<le> 1" "\<And>r. P r \<Longrightarrow> Q r"
  obtains "length (filter P rs) = 1" "length (filter Q rs) = 1" "list_ex Q rs"
  | "filter P rs = []" "length (filter Q rs) = 1" "list_ex Q rs"
  | "filter P rs = []" "filter Q rs = []" "\<not> list_ex Q rs"
proof -
  have "length (filter P rs) \<le> length (filter Q rs)"
    using assms(2) by (induction rs) auto
  moreover have "list_ex Q rs \<longleftrightarrow> filter Q rs \<noteq> []"
    by (induction rs) auto
  ultimately show ?thesis
    using assms(1) that by (cases "filter Q rs"; cases "filter P rs") auto
qed

lemma update_where_empty: "filter P rs = [] \<Longrightarrow> update_where P f rs = rs"
  by (induction rs) (auto simp: update_where_def split: if_splits)

lemma transition_alert_group_Inr:
  assumes "schema_ok (db w)" "transition_alert_group e i w = (Inr u, w')"
  shows "db w' = (db w)\<lparr>db_groups := apply_group e i (db_groups (db w))\<rparr>"
proof (cases "ev_alert_state e = []")
  case True
  with assms(2) show ?thesis by (simp add: transition_alert_group_def apply_group_def)
next
  case False
  let ?P = "\<lambda>g. group_key_matches e i g \<and> al_last g \<le> ev_occurred e"
  let ?gs = "db_groups (db w)"
  have le: "length (filter (group_key_matches e i) ?gs) \<le> 1"
    by (rule no_clash_count [OF schema_ok_parts(5) [OF assms(1)]])
      (auto simp: group_key_matches_def group_clash_def)
  show ?thesis
  proof (rule filter_count_cases [OF le, of ?P])
    assume "length (filter ?P ?gs) = 1" "list_ex (group_key_matches e i) ?gs"
    with assms(2) False show ?thesis
      by (auto simp: transition_alert_group_def apply_group_def bind_io_Inr wrapping_Inr
          dest!: statement_results)
  next
    assume none: "filter ?P ?gs = []" and "length (filter (group_key_matches e i) ?gs) = 1"
      and "list_ex (group_key_matches e i) ?gs"
    with assms(2) False show ?thesis
      by (auto simp: transition_alert_group_def apply_group_def bind_io_Inr wrapping_Inr
          update_where_empty [OF none] dest!: statement_results split: if_splits)
  next
    assume none: "filter ?P ?gs = []" and "filter (group_key_matches e i) ?gs = []"
      and "\<not> list_ex (group_key_matches e i) ?gs"
    with assms(2) False show ?thesis
      by (auto simp: transition_alert_group_def apply_group_def bind_io_Inr wrapping_Inr
          update_where_empty [OF none] dest!: statement_results split: if_splits)
  qed auto
qed

lemma upsert_inbox_item_Inr:
  assumes "schema_ok (db w)" "upsert_inbox_item i w = (Inr u, w')"
  shows "db w' = (db w)\<lparr>db_items := apply_item i (db_items (db w))\<rparr>"
proof -
  let ?P = "\<lambda>r. item_key_matches i r \<and> ir_last r \<le> it_last i"
  let ?rs = "db_items (db w)"
  have le: "length (filter (item_key_matches i) ?rs) \<le> 1"
    by (rule no_clash_count [OF schema_ok_parts(4) [OF assms(1)]])
      (auto simp: item_key_matches_def item_clash_def)
  show ?thesis
  proof (rule filter_count_cases [OF le, of ?P])
    assume "length (filter ?P ?rs) = 1" "list_ex (item_key_matches i) ?rs"
    with assms(2) show ?thesis
      by (auto simp: upsert_inbox_item_def apply_item_def bind_io_Inr wrapping_Inr
          dest!: statement_results)
  next
    assume none: "filter ?P ?rs = []" and "length (filter (item_key_matches i) ?rs) = 1"
      and "list_ex (item_key_matches i) ?rs"
    with assms(2) show ?thesis
      by (auto simp: upsert_inbox_item_def apply_item_def bind_io_Inr wrapping_Inr
          update_where_empty [OF none] dest!: statement_results split: if_splits)
  next
    assume none: "filter ?P ?rs = []" and "filter (item_key_matches i) ?rs = []"
      and "\<not> list_ex (item_key_matches i) ?rs"
    with assms(2) show ?thesis
      by (auto simp: upsert_inbox_item_def apply_item_def bind_io_Inr wrapping_Inr
          update_where_empty [OF none] dest!: statement_results split: if_splits)
  qed auto
qed

lemma items_loop_Inr:
  assumes "for_each (\<lambda>i. bind_io (transition_alert_group e i) (\<lambda>_. upsert_inbox_item i)) items w = (Inr u, w')"
    "schema_ok (db w)"
  shows "db w' = (db w)\<lparr>db_groups := fold (apply_group e) items (db_groups (db w)),
     db_items := fold apply_item items (db_items (db w))\<rparr> \<and> schema_ok (db w')"
  using assms
proof (induction items arbitrary: w)
  case (Cons i items)
  then obtain w1 w2 where w1: "transition_alert_group e i w = (Inr (), w1)"
      "upsert_inbox_item i w1 = (Inr (), w2)"
      "for_each (\<lambda>i. bind_io (transition_alert_group e i) (\<lambda>_. upsert_inbox_item i)) items w2 = (Inr u, w')"
    by (auto simp: bind_io_Inr)
  have s1: "schema_ok (db w1)" by (rule preservesD [OF transition_alert_group_schema Cons.prems(2) w1(1)])
  have s2: "schema_ok (db w2)" by (rule preservesD [OF upsert_inbox_item_schema s1 w1(2)])
  from Cons.IH [OF w1(3) s2] have IH: "db w' = (db w2)\<lparr>db_groups := fold (apply_group e) items (db_groups (db w2)),
      db_items := fold apply_item items (db_items (db w2))\<rparr>" and "schema_ok (db w')" by blast+
  moreover have "db w2 = (db w)\<lparr>db_groups := apply_group e i (db_groups (db w)),
      db_items := apply_item i (db_items (db w))\<rparr>"
    using transition_alert_group_Inr [OF Cons.prems(2) w1(1)] upsert_inbox_item_Inr [OF s1 w1(2)] by simp
  ultimately show ?case by (simp only: fold_Cons comp_apply) simp
qed simp

lemma insert_channel_plan_Inr:
  "insert_channel_plan p w = (Inr u, w') \<Longrightarrow>
   db w' = (db w)\<lparr>db_plans := db_plans (db w) @ [plan_row_of p]\<rparr>"
  by (auto simp: insert_channel_plan_def wrapping_Inr dest!: workspace_insert_Inr)

lemma plans_loop_Inr:
  "for_each insert_channel_plan ps w = (Inr u, w') \<Longrightarrow>
   db w' = (db w)\<lparr>db_plans := db_plans (db w) @ map plan_row_of ps\<rparr>"
  by (induction ps arbitrary: w) (auto simp: bind_io_Inr dest!: insert_channel_plan_Inr)

lemma materialize_body_Inr:
  assumes "materialize_body qi e items w = (Inr (c, u), w')" "schema_ok (db w)"
  shows "c \<and> (\<exists>s. db w' = (materialized e items (db w))\<lparr>db_scopes := s\<rparr>) \<and>
     length (filter (event_lease_matches e) (db_events (db w))) = 1"
proof -
  from assms(1) obtain w1 w2 w3 n where steps:
      "for_each (\<lambda>i. bind_io (transition_alert_group e i) (\<lambda>_. upsert_inbox_item i)) items w = (Inr (), w1)"
      "(if ev_plans e = [] then ret () else wrapping ''register notification channel queue scope''
          (register_scope qi WorkChannelPlan (ev_workspace e) (ev_updated e))) w1 = (Inr (), w2)"
      "for_each insert_channel_plan (ev_plans e) w2 = (Inr (), w3)"
      "update_rows events_table (event_lease_matches e) (finish_event_row e) w3 = (Inr n, w')" "n = 1" c
    by (auto simp: materialize_body_def bind_io_Inr wrapping_Inr guard_io_Inr)
  from items_loop_Inr [OF steps(1) assms(2)] have w1: "db w1 = (db w)\<lparr>
     db_groups := fold (apply_group e) items (db_groups (db w)),
     db_items := fold apply_item items (db_items (db w))\<rparr>" ..
  from steps(2) obtain s where w2: "db w2 = (db w1)\<lparr>db_scopes := s\<rparr>"
    by (cases "ev_plans e = []")
      (auto simp: wrapping_Inr dest!: register_scope_Inr intro: database.unfold_congs that [of "db_scopes (db w1)"])
  from plans_loop_Inr [OF steps(3)] w2 w1 update_rows_Inr [OF steps(4)] steps(5,6)
  show ?thesis by (auto simp: materialized_def intro!: exI [of _ s])
qed


section \<open>Atomicity\<close>

lemma materialize_refines:
  assumes "schema_ok (db w)" "materialize qi e items w = (r, w')"
  shows "(\<exists>err. r = Inl err) \<and> db w' = db w \<or>
    (r = Inr () \<or> r = Inl DriverError) \<and>
    (\<exists>s. db w' = (materialized e items (db w))\<lparr>db_scopes := s\<rparr>) \<and>
    length (filter (event_lease_matches e) (db_events (db w))) = 1"
proof (cases "ev_workspace e = [] \<or> ev_id e = [] \<or> ev_owner e = []")
  case True
  with assms(2) show ?thesis by (auto simp: materialize_def guard_io_def)
next
  case False
  with assms(2) have t: "transaction_wrapped ''begin notification materialization''
      (materialize_body qi e items) w = (r, w')"
    by (simp add: materialize_def guard_io_def)
  show ?thesis
  proof (cases r)
    case (Inl err)
    with t have "transaction_wrapped ''begin notification materialization''
      (materialize_body qi e items) w = (Inl err, w')" by simp
    then show ?thesis
    proof (rule transaction_wrapped_Inl)
      fix a w1 w2
      assume *: "err = DriverError" "db w1 = db w" "materialize_body qi e items w1 = (Inr (True, a), w2)" "db w' = db w2"
      with materialize_body_Inr [OF *(3)] assms(1) Inl show ?thesis by auto
    qed (use Inl in simp)
  next
    case (Inr u)
    with t have "transaction_wrapped ''begin notification materialization''
      (materialize_body qi e items) w = (Inr u, w')" by simp
    then obtain c w1 w2 where *: "db w1 = db w" "materialize_body qi e items w1 = (Inr (c, u), w2)"
        "db w' = (if c then db w2 else db w)" by (rule transaction_wrapped_Inr)
    with materialize_body_Inr [OF *(2)] assms(1) Inr show ?thesis by auto
  qed
qed

definition failed :: "event \<Rightarrow> string \<Rightarrow> string \<Rightarrow> string \<Rightarrow> string \<Rightarrow> string \<Rightarrow> database \<Rightarrow> database" where
  "failed e status stage code next_at now d = d\<lparr>
     db_events := update_where (event_lease_matches e) (fail_event_row status code next_at now) (db_events d),
     db_failures := db_failures d @ [failure_of e status stage code next_at now]\<rparr>"

lemma transition_failure_refines:
  assumes "transition_failure e status stage code next_at now w = (r, w')"
  shows "(\<exists>err. r = Inl err) \<and> db w' = db w \<or>
    (r = Inr () \<or> r = Inl DriverError) \<and>
    db w' = failed e status (trim_space stage) (trim_space code) next_at now (db w) \<and>
    length (filter (event_lease_matches e) (db_events (db w))) = 1 \<and>
    trim_space stage \<in> set failure_stages \<and> failure_code_ok (trim_space code)"
proof (cases "trim_space stage \<notin> set failure_stages \<or> \<not> failure_code_ok (trim_space code)")
  case True
  with assms show ?thesis by (auto simp: transition_failure_def Let_def guard_io_def)
next
  case False
  let ?m = "bind_io (wrapping ''transition notification event failure''
           (update_rows events_table (event_lease_matches e) (fail_event_row status (trim_space code) next_at now)))
         (\<lambda>count.
          guard_io (count \<noteq> 1) (MutationConflict ''notification_event'' (ev_id e) ConflictLeaseLost)
          (bind_io (wrapping ''record notification event failure''
             (workspace_insert failures_table failure_clash ''_notification_event_failures''
                (ev_workspace e) (ev_workspace e) (failure_of e status (trim_space stage) (trim_space code) next_at now)))
           (\<lambda>_. commit_with ())))"
  from assms False have t: "transaction ?m w = (r, w')"
    by (simp add: transition_failure_def Let_def guard_io_def)
  have body: "c \<and> db w2 = failed e status (trim_space stage) (trim_space code) next_at now (db w1) \<and>
      length (filter (event_lease_matches e) (db_events (db w1))) = 1"
    if "?m w1 = (Inr (c, u), w2)" for c u w1 w2
    using that by (auto simp: bind_io_Inr wrapping_Inr guard_io_Inr failed_def dest!: statement_results)
  show ?thesis
  proof (cases r)
    case (Inl err)
    with t have "transaction ?m w = (Inl err, w')" by simp
    then show ?thesis
    proof (rule transaction_Inl)
      fix a w1 w2
      assume "err = DriverError" "db w1 = db w" "?m w1 = (Inr (True, a), w2)" "db w' = db w2"
      with body [of w1 True a w2] False Inl show ?thesis by auto
    qed (use Inl in simp)
  next
    case (Inr u)
    with t have "transaction ?m w = (Inr u, w')" by simp
    then obtain c w1 w2 where *: "db w1 = db w" "?m w1 = (Inr (c, u), w2)"
        "db w' = (if c then db w2 else db w)" by (rule transaction_Inr)
    with body [OF *(2)] False Inr show ?thesis by auto
  qed
qed

section \<open>Claims\<close>

definition claimed :: "workspace_id \<Rightarrow> string \<Rightarrow> string \<Rightarrow> string \<Rightarrow> string \<Rightarrow> database \<Rightarrow> database" where
  "claimed ws i owner now expires d = d\<lparr>db_events :=
     update_where (\<lambda>r. er_workspace r = ws \<and> er_id r = i \<and> event_due now r)
       (claim_event_row owner now expires) (db_events d)\<rparr>"

lemma claim_event_effect:
  assumes "claim_event ws i owner now expires w = (r, w')"
  shows "db w' = db w \<or>
    db w' = claimed ws (trim_space i) (trim_space owner) (trim_space now) (trim_space expires) (db w)"
  using assms
  by (auto simp: claim_event_def Let_def guard_io_def bind_io_def wrapping_def claimed_def
      event_by_id_def split: prod.splits sum.splits if_splits dest!: update_rows_db statement_db)

lemma find_Some_facts: "List.find P xs = Some x \<Longrightarrow> x \<in> set xs \<and> P x"
  by (auto simp: find_Some_iff)

lemma event_row_unique:
  assumes "schema_ok d" "r \<in> set (db_events d)" "s \<in> set (db_events d)" "event_key r = event_key s"
  shows "r = s"
  using unique_event_keys [OF assms(1)] assms(2-4)
  by (auto simp: ev_lease.unique_keys_def distinct_map dest: inj_onD)

lemma event_by_id_Inr:
  "event_by_id ws i w = (Inr x, w') \<Longrightarrow>
   x = map_option scan_event (List.find (\<lambda>r. er_workspace r = ws \<and> er_id r = trim_space i) (db_events (db w))) \<and>
   db w' = db w"
  by (auto simp: event_by_id_def bind_io_Inr dest!: statement_results)

text \<open>A claim that returns an event took one due row: its next token, the new owner and lease.\<close>

lemma claim_event_Some:
  assumes "schema_ok (db w)" "claim_event ws i owner now expires w = (Inr (Some e), w')"
  shows "\<exists>r \<in> set (db_events (db w)). event_key r = (ws, trim_space i) \<and>
      event_due (trim_space now) r \<and>
      e = scan_event (claim_event_row (trim_space owner) (trim_space now) (trim_space expires) r) \<and>
      db w' = claimed ws (trim_space i) (trim_space owner) (trim_space now) (trim_space expires) (db w)"
proof -
  let ?P = "\<lambda>r. er_workspace r = ws \<and> er_id r = trim_space i \<and> event_due (trim_space now) r"
  let ?f = "claim_event_row (trim_space owner) (trim_space now) (trim_space expires)"
  from assms(2) obtain w1 where n: "length (filter ?P (db_events (db w))) = 1"
    and w1: "db w1 = claimed ws (trim_space i) (trim_space owner) (trim_space now) (trim_space expires) (db w)"
    and f: "event_by_id ws (trim_space i) w1 = (Inr (Some e), w')"
    by (auto simp: claim_event_def Let_def guard_io_Inr bind_io_Inr wrapping_Inr
        claimed_def dest!: update_rows_Inr split: if_splits)
  from event_by_id_Inr [OF f] w1
  have d: "db w' = claimed ws (trim_space i) (trim_space owner) (trim_space now) (trim_space expires) (db w)"
    and f: "map_option scan_event (List.find (\<lambda>r. er_workspace r = ws \<and> er_id r = trim_space i)
        (update_where ?P ?f (db_events (db w)))) = Some e"
    by (auto simp: claimed_def)
  from n obtain r where r: "r \<in> set (db_events (db w))" "?P r"
    by (metis (mono_tags, lifting) filter_empty_conv list.size(3) zero_neq_one)
  from f obtain y where y: "List.find (\<lambda>r. er_workspace r = ws \<and> er_id r = trim_space i)
        (update_where ?P ?f (db_events (db w))) = Some y" "e = scan_event y" by auto
  from find_Some_facts [OF y(1)] obtain x where x: "x \<in> set (db_events (db w))"
      "y = (if ?P x then ?f x else x)" "er_workspace y = ws" "er_id y = trim_space i"
    by (auto simp: in_update_where)
  then have "event_key x = event_key r"
    using r(2) by (auto simp: event_key_def claim_event_row_def split: if_splits)
  with event_row_unique [OF assms(1) x(1) r(1)] have "x = r" by simp
  with r x y d show ?thesis by (auto simp: event_key_def)
qed

text \<open>While a lease has not expired nobody else can claim the row.\<close>

lemma claim_event_blocked:
  assumes "schema_ok (db w)" "r \<in> set (db_events (db w))" "event_key r = (ws, trim_space i)"
    "\<not> event_due (trim_space now) r" "claim_event ws i owner now expires w = (x, w')"
  shows "db w' = db w \<and> (\<forall>e. x \<noteq> Inr (Some e))"
proof
  have "\<not> event_due (trim_space now) s" if "s \<in> set (db_events (db w))" "event_key s = (ws, trim_space i)" for s
    using event_row_unique [OF assms(1,2) that(1)] that(2) assms(3,4) by metis
  then have "\<not> list_ex (\<lambda>r. er_workspace r = ws \<and> er_id r = trim_space i \<and> event_due (trim_space now) r)
      (db_events (db w))"
    by (auto simp: list_ex_iff event_key_def)
  then have "claimed ws (trim_space i) (trim_space owner) (trim_space now) (trim_space expires) (db w) = db w"
    by (simp add: claimed_def update_where_none)
  with claim_event_effect [OF assms(5)] show "db w' = db w" by auto
  show "\<forall>e. x \<noteq> Inr (Some e)"
  proof (intro allI notI)
    fix e assume "x = Inr (Some e)"
    with claim_event_Some [OF assms(1)] assms(5) obtain s where
      "s \<in> set (db_events (db w))" "event_key s = (ws, trim_space i)" "event_due (trim_space now) s"
      by blast
    with event_row_unique [OF assms(1,2)] assms(3,4) show False by metis
  qed
qed

text \<open>A worker whose claim was taken over matches no row: none of its statements has an effect.\<close>

lemma stale_lease:
  assumes "schema_ok (db w)" "claim_event ws i owner now expires w = (Inr (Some e2), w')"
    "ev_workspace e = ws" "ev_id e = trim_space i" "ev_token e < ev_token e2"
  shows "filter (event_lease_matches e) (db_events (db w')) = []"
proof -
  from claim_event_Some [OF assms(1,2)] obtain r where r: "r \<in> set (db_events (db w))"
      "event_key r = (ws, trim_space i)" "event_due (trim_space now) r"
      "ev_token e2 = er_token r + 1"
      "db w' = claimed ws (trim_space i) (trim_space owner) (trim_space now) (trim_space expires) (db w)"
    by (auto simp: scan_event_def claim_event_row_def)
  have "\<not> event_lease_matches e y" if "y \<in> set (db_events (db w'))" for y
  proof
    assume m: "event_lease_matches e y"
    let ?P = "\<lambda>r. er_workspace r = ws \<and> er_id r = trim_space i \<and> event_due (trim_space now) r"
    from that r(5) obtain x where x: "x \<in> set (db_events (db w))"
        "y = (if ?P x then claim_event_row (trim_space owner) (trim_space now) (trim_space expires) x else x)"
      by (auto simp: claimed_def in_update_where)
    with m assms(3,4) have "event_key x = event_key r"
      using r(2) by (auto simp: event_lease_matches_def event_key_def claim_event_row_def split: if_splits)
    with event_row_unique [OF assms(1) x(1) r(1)] have "x = r" by simp
    with x(2) r m assms(5) show False
      by (auto simp: event_lease_matches_def event_key_def claim_event_row_def)
  qed
  then show ?thesis by (simp add: filter_empty_conv)
qed

end
