(* ===== verification/Samples.thy ===== *)
theory Samples
  imports Integrity Sha256
begin

text \<open>
  Concrete values the witnesses evaluate the operations on: one workspace \<open>ws\<close>, a user
  \<open>u1\<close>, an event of the record module with one recipient, and a driver without faults.
\<close>

definition calm_world :: "database \<Rightarrow> world" where
  "calm_world d = \<lparr>db = d, outcomes = []\<rparr>"

definition sample_index :: queue_index where
  "sample_index = \<lparr>qi_register = (\<lambda>k ws at s. Inr ((k, ws, at) # s)), qi_workspaces = (\<lambda>k n s. Inr [''ws''])\<rparr>"

definition sample_snapshot :: snapshot where
  "sample_snapshot = \<lparr>sn_title = ''Order'', sn_body = ''Order 7'', sn_facts = [], sn_actions = [],
     sn_template = ''order.done'', sn_version = 1, sn_locale = ''en-US'', sn_hash = ''h''\<rparr>"

definition sample_plan :: plan where
  "sample_plan = \<lparr>pl_id = ''p1'', pl_workspace = ''ws'', pl_event = ''e1'', pl_channel = ''email'',
     pl_template = ''order.email'', pl_connector = ''smtp'', pl_connection = [], pl_operation = ''send'',
     pl_recipients = [''u1''], pl_locale = [], pl_variables = [], pl_dedupe = [], pl_mandatory = False,
     pl_mode = ''immediate'', pl_digest_key = [], pl_digest_maximum = 0, pl_digest_title = ''Order'',
     pl_digest_body = ''Order 7'', pl_escalation = 0, pl_cancel_terminal = False, pl_status = ''queued'',
     pl_attempts = 0, pl_next_attempt = [], pl_error_code = [], pl_outbox = [], pl_owner = [],
     pl_lease = [], pl_token = 0, pl_created = ''2026-01-01'', pl_updated = ''2026-01-01''\<rparr>"

definition sample_event :: event where
  "sample_event = \<lparr>ev_id = ''e1'', ev_workspace = ''ws'', ev_source = ''records'',
     ev_source_event = ''s1'', ev_type = ''order.done'', ev_category = ''orders'',
     ev_severity = ''info'', ev_recipients = [''u1''], ev_audiences = [], ev_subject_type = ''order'',
     ev_subject_id = ''7'', ev_subject_version = [], ev_group = ''g1'', ev_dedupe = [],
     ev_action_state = ''none'', ev_alert_state = ''firing'', ev_expires = [],
     ev_occurred = ''2026-01-01'', ev_correlation = [], ev_trace = [], ev_snapshot = sample_snapshot,
     ev_localized = [(''en-US'', sample_snapshot)], ev_plans = [sample_plan], ev_status = ''queued'',
     ev_attempts = 0, ev_next_attempt = [], ev_error_code = [], ev_owner = [], ev_lease = [],
     ev_token = 0, ev_created = ''2026-01-01'', ev_updated = ''2026-01-01''\<rparr>"

definition sample_claimed :: event where
  "sample_claimed = sample_event\<lparr>ev_status := ''processing'', ev_owner := ''w1'',
     ev_lease := ''2026-01-02'', ev_token := 1, ev_updated := ''2026-01-01''\<rparr>"

definition sample_item :: item where
  "sample_item = \<lparr>it_id = ''i1'', it_workspace = ''ws'', it_recipient = ''u1'', it_event = ''e1'',
     it_event_type = ''order.done'', it_source = ''records'', it_category = ''orders'',
     it_severity = ''info'', it_title = ''Order'', it_body = ''Order 7'', it_facts = [],
     it_actions = [], it_template = ''order.done'', it_template_version = 1,
     it_template_locale = ''en-US'', it_template_hash = ''h'', it_subject_type = ''order'',
     it_subject_id = ''7'', it_subject_version = [], it_action_state = ''none'',
     it_alert_state = ''firing'', it_group = ''g1'', it_occurrences = 1, it_first = ''2026-01-01'',
     it_last = ''2026-01-01'', it_read = [], it_archived = [], it_expires = [],
     it_created = ''2026-01-01'', it_updated = ''2026-01-01''\<rparr>"

lemma calm_world_simps [simp]: "db (calm_world d) = d" "outcomes (calm_world d) = []"
  by (simp_all add: calm_world_def)

lemmas statement_runs = select_rows_def select_row_def count_rows_def update_rows_def insert_row_def
  delete_rows_def workspace_insert_def begin_tx_def query_run exec_run wrapping_def in_tx_def
  transaction_def transaction_wrapped_def bind_io_def guard_io_def attempt_def commit_with_def
  leave_with_def ret_def fail_def register_scope_def scope_workspaces_def update_where_def

end
