(* ===== verification/Event_History.thy ===== *)
theory Event_History
  imports Event_Queue Samples
begin

text \<open>
  Histories of the event store: any number of workers and producers call its operations in
  any order, with any arguments and any driver outcomes. Each operation is a step of the
  lease contract, so the facts of the contract hold of every history. The theory also has the
  idempotence of enqueueing, the monotonicity of inbox items and alert groups, and the shape
  of a list of due events.
\<close>

section \<open>Enqueueing\<close>

lemma register_scope_events:
  "register_scope qi k ws at w = (r, w') \<Longrightarrow> db_events (db w') = db_events (db w)"
proof -
  assume run: "register_scope qi k ws at w = (r, w')"
  have "db_events d' = db_events d" if "(case qi_register qi k ws at (db_scopes d) of Inl e \<Rightarrow> Inl e | Inr s \<Rightarrow> Inr ((), d\<lparr>db_scopes := s\<rparr>)) = Inr (u, d')" for d d' u
    using that by (auto split: sum.splits)
  with run show ?thesis unfolding register_scope_def by (elim exec_cases) simp_all
qed

lemma insert_event_effect:
  assumes "insert_event qi e w = (r, w')"
  shows "db_events (db w') = db_events (db w) \<or>
    \<not> list_ex (event_clash (event_row_of e)) (db_events (db w)) \<and>
    db_events (db w') = db_events (db w) @ [event_row_of e]"
proof (cases "ev_workspace e = [] \<or> ev_id e = []")
  case True
  with assms show ?thesis by (auto simp: insert_event_def guard_io_def)
next
  case False
  obtain x w1 where r: "wrapping ''register notification inbox queue scope''
      (register_scope qi WorkInboxEvent (ev_workspace e) (ev_updated e)) w = (x, w1)" by fastforce
  then have "db_events (db w1) = db_events (db w)"
    by (blast dest: wrapping_db register_scope_events)
  with assms False r show ?thesis
    by (cases x) (auto simp: insert_event_def guard_io_def bind_io_def dest!: wrapping_db workspace_insert_db)
qed

lemma insert_event_Inr:
  assumes "insert_event qi e w = (Inr u, w')"
  shows "\<not> list_ex (event_clash (event_row_of e)) (db_events (db w)) \<and>
    (\<exists>s. db w' = (db w)\<lparr>db_scopes := s, db_events := db_events (db w) @ [event_row_of e]\<rparr>)"
  using assms
  by (auto simp: insert_event_def guard_io_Inr bind_io_Inr wrapping_Inr
      dest!: register_scope_Inr workspace_insert_Inr)

lemma enqueue_effect:
  assumes "enqueue qi e w = (r, w')"
  shows "db_events (db w') = db_events (db w) \<or>
    \<not> list_ex (event_clash (event_row_of e)) (db_events (db w)) \<and>
    db_events (db w') = db_events (db w) @ [event_row_of e]"
proof -
  let ?E = "db_events (db w)"
  let ?Q = "\<lambda>d. db_events d = ?E \<or>
    \<not> list_ex (event_clash (event_row_of e)) ?E \<and> db_events d = ?E @ [event_row_of e]"
  let ?m = "bind_io (insert_event qi e) (\<lambda>_. commit_with ())"
  have body: "db_events (db w2) = db_events (db w1) \<or>
     \<not> list_ex (event_clash (event_row_of e)) (db_events (db w1)) \<and>
     db_events (db w2) = db_events (db w1) @ [event_row_of e]" if "?m w1 = (x, w2)" for w1 x w2
    using that by (auto simp: bind_io_def split: prod.splits sum.splits dest: insert_event_effect)
  have tx: "?Q (db w2)" if "in_tx (db w) ?m w1 = (x, w2)" "db w1 = db w" for x w1 w2
  proof (cases x)
    case (Inl err)
    with that(1) have "in_tx (db w) ?m w1 = (Inl err, w2)" by simp
    then show ?thesis by (rule in_tx_Inl) (use body [of w1] that(2) in auto)
  next
    case (Inr a)
    with that(1) have "in_tx (db w) ?m w1 = (Inr a, w2)" by simp
    then show ?thesis by (rule in_tx_Inr) (use body [of w1] that(2) in \<open>auto split: if_splits\<close>)
  qed
  have tail: "preserves P (attempt (event_by_source ws src sid))" for P ws src sid
    by (intro preserves_intros)
  show ?thesis
  proof (cases "ev_workspace e = []")
    case True
    with assms show ?thesis by (auto simp: enqueue_def guard_io_def)
  next
    case False
    obtain s w1 where b: "wrapping ''begin notification event enqueue'' begin_tx w = (s, w1)" by fastforce
    then have w1: "db w1 = db w" "\<And>x. s = Inr x \<Longrightarrow> x = db w"
      by (auto simp: wrapping_def split: prod.splits sum.splits elim!: begin_tx_cases)
    show ?thesis
    proof (cases s)
      case (Inl err)
      with assms False b w1 show ?thesis by (auto simp: enqueue_def guard_io_def bind_io_def)
    next
      case (Inr x)
      obtain y w2 where t: "in_tx (db w) ?m w1 = (y, w2)" by fastforce
      have Q: "?Q (db w2)" by (rule tx [OF t w1(1)])
      from assms False b Inr w1(2) t have "(case y of
            Inr _ \<Rightarrow> ret (e, True)
          | Inl err \<Rightarrow>
              bind_io (attempt (event_by_source (ev_workspace e) (ev_source e) (ev_source_event e))) (\<lambda>found.
              case found of
                Inl _ \<Rightarrow> fail (Wrapped ''enqueue notification event'' err)
              | Inr None \<Rightarrow> fail (Wrapped ''enqueue notification event'' err)
              | Inr (Some existing) \<Rightarrow>
                  if \<not> same_ingest existing e
                  then fail (MutationConflict ''notification_event'' (ev_id e) ConflictIdempotency)
                  else ret (clear_shared_plans existing, False))) w2 = (r, w')"
        by (simp add: enqueue_def guard_io_def bind_io_def attempt_def)
      moreover have "preserves ?Q (case y of
            Inr _ \<Rightarrow> ret (e, True)
          | Inl err \<Rightarrow>
              bind_io (attempt (event_by_source (ev_workspace e) (ev_source e) (ev_source_event e))) (\<lambda>found.
              case found of
                Inl _ \<Rightarrow> fail (Wrapped ''enqueue notification event'' err)
              | Inr None \<Rightarrow> fail (Wrapped ''enqueue notification event'' err)
              | Inr (Some existing) \<Rightarrow>
                  if \<not> same_ingest existing e
                  then fail (MutationConflict ''notification_event'' (ev_id e) ConflictIdempotency)
                  else ret (clear_shared_plans existing, False)))"
        by (intro preserves_intros tail)
      ultimately show ?thesis using Q by (rule preservesD [rotated 2])
    qed
  qed
qed

lemma world_restore:
  fixes w w2 :: world
  shows "outcomes w2 = outcomes w \<Longrightarrow> w2\<lparr>db := db w\<rparr> = w"
  by (cases w, cases w2) simp

lemma insert_event_clash:
  assumes "outcomes w = []" "list_ex (event_clash (event_row_of e)) (db_events (db w))"
  shows "\<exists>err w2. insert_event qi e w = (Inl err, w2) \<and> outcomes w2 = []"
  using assms
  by (auto simp: insert_event_def guard_io_def bind_io_def wrapping_def register_scope_def exec_run
      workspace_insert_def insert_row_def fail_def split: sum.splits prod.splits)

lemma find_source:
  assumes "schema_ok d" "r \<in> set (db_events d)"
  shows "List.find (\<lambda>x. er_workspace x = er_workspace r \<and> er_source x = er_source r \<and>
      er_source_event x = er_source_event r) (db_events d) = Some r"
proof -
  let ?P = "\<lambda>x. er_workspace x = er_workspace r \<and> er_source x = er_source r \<and>
      er_source_event x = er_source_event r"
  obtain y where y: "List.find ?P (db_events d) = Some y"
    using assms(2) by (cases "List.find ?P (db_events d)") (auto simp: find_None_iff)
  then have "event_clash y r" "y \<in> set (db_events d)"
    by (auto simp: event_clash_def dest: find_Some_facts)
  with no_clash_unique [OF schema_ok_parts(1) [OF assms(1)] _ assms(2) clash_sym(1), of y]
  have "y = r" by blast
  with y show ?thesis by simp
qed

text \<open>An event whose source identity is in the table is not written again.\<close>

lemma enqueue_known:
  assumes "outcomes w = []" "schema_ok (db w)" "r \<in> set (db_events (db w))"
    and "er_workspace r = ev_workspace e" "ev_workspace e \<noteq> []"
    and "er_source r = ev_source e" "trim_space (ev_source e) = ev_source e"
    and "er_source_event r = ev_source_event e" "trim_space (ev_source_event e) = ev_source_event e"
  shows "enqueue qi e w =
    (if same_ingest (scan_event r) e then Inr (clear_shared_plans (scan_event r), False)
     else Inl (MutationConflict ''notification_event'' (ev_id e) ConflictIdempotency), w)"
proof -
  have "list_ex (event_clash (event_row_of e)) (db_events (db w))"
    unfolding list_ex_iff
    by (rule bexI [OF _ assms(3)]) (simp add: event_clash_def event_row_of_def assms(4,6,8))
  from insert_event_clash [OF assms(1) this] obtain err w2
    where i: "insert_event qi e w = (Inl err, w2)" "outcomes w2 = []" by blast
  have t: "in_tx (db w) (bind_io (insert_event qi e) (\<lambda>_. commit_with ())) w = (Inl err, w)"
    using i assms(1) by (simp add: in_tx_def bind_io_def world_restore)
  have "event_by_source (ev_workspace e) (ev_source e) (ev_source_event e) w = (Inr (Some (scan_event r)), w)"
    using find_source [OF assms(2,3)] assms(1,4-9)
    by (simp add: event_by_source_def select_row_def query_run bind_io_def ret_def)
  with t assms(1,5) show ?thesis
    by (simp add: enqueue_def guard_io_def bind_io_def wrapping_def begin_tx_def query_run attempt_def
        fail_def ret_def)
qed

text \<open>A first enqueue adds one row, which reads back as the event.\<close>

lemma enqueue_fresh:
  assumes "enqueue qi e w = (Inr (e', True), w')"
  shows "e' = e \<and> db_events (db w') = db_events (db w) @ [event_row_of e]"
proof -
  from assms have ne: "ev_workspace e \<noteq> []" by (auto simp: enqueue_def guard_io_def)
  from assms ne obtain saved w1 y w2 where b: "begin_tx w = (Inr saved, w1)"
      and t: "in_tx saved (bind_io (insert_event qi e) (\<lambda>_. commit_with ())) w1 = (y, w2)"
      and r: "(case y of
            Inr _ \<Rightarrow> ret (e, True)
          | Inl err \<Rightarrow>
              bind_io (attempt (event_by_source (ev_workspace e) (ev_source e) (ev_source_event e))) (\<lambda>found.
              case found of
                Inl _ \<Rightarrow> fail (Wrapped ''enqueue notification event'' err)
              | Inr None \<Rightarrow> fail (Wrapped ''enqueue notification event'' err)
              | Inr (Some existing) \<Rightarrow>
                  if \<not> same_ingest existing e
                  then fail (MutationConflict ''notification_event'' (ev_id e) ConflictIdempotency)
                  else ret (clear_shared_plans existing, False))) w2 = (Inr (e', True), w')"
    by (auto simp: enqueue_def guard_io_Inr bind_io_Inr attempt_eq wrapping_Inr)
  obtain u where u: "y = Inr u" "e' = e" "w2 = w'"
  proof (cases y)
    case (Inl err)
    with r have False by (auto simp: bind_io_def split: prod.splits sum.splits option.splits if_splits)
    then show thesis ..
  qed (use r that in auto)
  with t have "in_tx saved (bind_io (insert_event qi e) (\<lambda>_. commit_with ())) w1 = (Inr u, w')" by simp
  then show ?thesis
    by (rule in_tx_Inr) (use b u in \<open>auto simp: bind_io_Inr elim!: begin_tx_cases dest!: insert_event_Inr\<close>)
qed

section \<open>Histories of operations\<close>

datatype event_op = EnqueueOp event
  | ClaimOp workspace_id string string string string
  | RetryOp event string string string string
  | FailOp event string string string
  | MaterializeOp event "item list"

text \<open>Run an operation; the first component is the lease a successful settlement ended.\<close>

definition lease_of :: "event \<Rightarrow> (workspace_id \<times> string) \<times> int" where
  "lease_of e = ((ev_workspace e, ev_id e), ev_token e)"

definition settled_when :: "event \<Rightarrow> (err + unit) \<times> world \<Rightarrow> ((workspace_id \<times> string) \<times> int) option \<times> world" where
  "settled_when e rw = (case rw of (Inr _, w) \<Rightarrow> (Some (lease_of e), w) | (Inl _, w) \<Rightarrow> (None, w))"

fun run_event_op :: "queue_index \<Rightarrow> event_op \<Rightarrow> world \<Rightarrow> ((workspace_id \<times> string) \<times> int) option \<times> world" where
  "run_event_op qi (EnqueueOp e) w = (None, snd (enqueue qi e w))"
| "run_event_op qi (ClaimOp ws i ow now x) w = (None, snd (claim_event ws i ow now x w))"
| "run_event_op qi (RetryOp e stage code nx now) w = settled_when e (retry_event e stage code nx now w)"
| "run_event_op qi (FailOp e stage code now) w = settled_when e (fail_event e stage code now w)"
| "run_event_op qi (MaterializeOp e items) w = settled_when e (materialize qi e items w)"

fun settled_leases :: "queue_index \<Rightarrow> event_op list \<Rightarrow> world \<Rightarrow> ((workspace_id \<times> string) \<times> int) list" where
  "settled_leases qi [] w = []"
| "settled_leases qi (x # xs) w = (case run_event_op qi x w of
     (None, w') \<Rightarrow> settled_leases qi xs w' | (Some l, w') \<Rightarrow> l # settled_leases qi xs w')"

text \<open>Producers enqueue events as the compiler makes them: not leased, token 0.\<close>

fun fresh_op :: "event_op \<Rightarrow> bool" where
  "fresh_op (EnqueueOp e) = (ev_status e = EventQueued \<and> ev_token e = 0)"
| "fresh_op _ = True"

inductive_simps history_snoc: "ev_lease.history rs (ls @ [l]) rs'"

lemma silent_same: "ev_lease.lease_step rs Silent rs"
  by (rule ev_lease.lease_step.other) simp_all

lemma settle_step:
  assumes "length (filter (event_lease_matches e) rs) = 1"
    and "\<And>x. event_key (f x) = event_key x" "\<And>x. er_token (f x) = er_token x"
    and "\<And>x. er_status (f x) \<noteq> ''processing''"
  shows "ev_lease.lease_step rs (Settled (ev_workspace e, ev_id e) (ev_token e))
           (update_where (event_lease_matches e) f rs)"
proof -
  from assms(1) obtain r where "r \<in> set rs" "event_lease_matches e r"
    by (metis filter_empty_conv list.size(3) zero_neq_one)
  then show ?thesis
    unfolding update_where_def event_lease_holds
    by (intro ev_lease.lease_step.settle) (auto simp: event_lease_holds event_held_def assms)
qed

lemma failure_step:
  assumes "transition_failure e st stage code nx now w = (r, w')" "st \<noteq> ''processing''"
  shows "\<exists>l. ev_lease.lease_step (db_events (db w)) l (db_events (db w')) \<and>
    (r = Inr () \<longrightarrow> l = Settled (ev_workspace e, ev_id e) (ev_token e))"
  using transition_failure_refines [OF assms(1)]
proof
  assume "(\<exists>err. r = Inl err) \<and> db w' = db w"
  then show ?thesis using silent_same by auto
next
  assume "(r = Inr () \<or> r = Inl DriverError) \<and>
    db w' = failed e st (trim_space stage) (trim_space code) nx now (db w) \<and>
    length (filter (event_lease_matches e) (db_events (db w))) = 1 \<and>
    trim_space stage \<in> set failure_stages \<and> failure_code_ok (trim_space code)"
  then show ?thesis
    using settle_step [of e "db_events (db w)" "fail_event_row st (trim_space code) nx now"] assms(2)
    by (auto simp: failed_def fail_event_row_def event_key_def)
qed

lemma materialize_step:
  assumes "schema_ok (db w)" "materialize qi e items w = (r, w')"
  shows "\<exists>l. ev_lease.lease_step (db_events (db w)) l (db_events (db w')) \<and>
    (r = Inr () \<longrightarrow> l = Settled (ev_workspace e, ev_id e) (ev_token e))"
  using materialize_refines [OF assms]
proof
  assume "(\<exists>err. r = Inl err) \<and> db w' = db w"
  then show ?thesis using silent_same by auto
next
  assume *: "(r = Inr () \<or> r = Inl DriverError) \<and>
    (\<exists>s. db w' = (materialized e items (db w))\<lparr>db_scopes := s\<rparr>) \<and>
    length (filter (event_lease_matches e) (db_events (db w))) = 1"
  then have "db_events (db w') = update_where (event_lease_matches e) (finish_event_row e) (db_events (db w))"
    by (auto simp: materialized_def)
  with * show ?thesis
    using settle_step [of e "db_events (db w)" "finish_event_row e"]
    by (auto simp: finish_event_row_def event_key_def)
qed

lemma claim_step:
  assumes "schema_ok (db w)" "claim_event ws i ow now x w = (r, w')"
  shows "\<exists>l. ev_lease.lease_step (db_events (db w)) l (db_events (db w'))"
proof -
  let ?P = "\<lambda>r. er_workspace r = ws \<and> er_id r = trim_space i \<and> event_due (trim_space now) r"
  let ?f = "claim_event_row (trim_space ow) (trim_space now) (trim_space x)"
  let ?rs = "db_events (db w)"
  consider "db_events (db w') = ?rs" | "db_events (db w') = update_where ?P ?f ?rs" "list_ex ?P ?rs"
    using claim_event_effect [OF assms(2)] by (cases "list_ex ?P ?rs") (auto simp: claimed_def update_where_none)
  then show ?thesis
  proof cases
    case 1
    then show ?thesis using silent_same by auto
  next
    case 2
    then obtain r where r: "r \<in> set ?rs" "?P r" by (auto simp: list_ex_iff)
    have "?P y \<longleftrightarrow> event_key y = (ws, trim_space i)" if "y \<in> set ?rs" for y
    proof
      assume "event_key y = (ws, trim_space i)"
      then have "event_key r = event_key y" using r(2) by (simp add: event_key_def)
      with event_row_unique [OF assms(1) r(1) that] have "r = y" .
      with r(2) show "?P y" by simp
    qed (simp add: event_key_def)
    then have "update_where ?P ?f ?rs = map (\<lambda>y. if event_key y = (ws, trim_space i) then ?f y else y) ?rs"
      unfolding update_where_def by (intro map_cong) auto
    with 2 ev_lease.lease_step.claim [of r "(ws, trim_space i)" ?rs] r show ?thesis
      by (auto simp: event_key_def)
  qed
qed

lemma enqueue_step:
  assumes "ev_status e = EventQueued" "ev_token e = 0" "enqueue qi e w = (r, w')"
  shows "\<exists>l. ev_lease.lease_step (db_events (db w)) l (db_events (db w'))"
  using enqueue_effect [OF assms(3)]
proof
  assume "db_events (db w') = db_events (db w)"
  then show ?thesis using silent_same by auto
next
  assume *: "\<not> list_ex (event_clash (event_row_of e)) (db_events (db w)) \<and>
    db_events (db w') = db_events (db w) @ [event_row_of e]"
  have "ev_lease.lease_step (db_events (db w)) Silent (db_events (db w) @ [event_row_of e])"
  proof (rule ev_lease.lease_step.insert)
    show "event_key (event_row_of e) \<notin> event_key ` set (db_events (db w))"
      using * by (auto simp: list_ex_iff event_clash_def event_key_def)
  qed (use assms in \<open>simp_all add: event_row_of_def event_held_def\<close>)
  with * show ?thesis by auto
qed

lemma op_step:
  assumes "schema_ok (db w)" "fresh_op x" "run_event_op qi x w = (s, w')"
  shows "schema_ok (db w') \<and> (\<exists>l. ev_lease.lease_step (db_events (db w)) l (db_events (db w')) \<and>
    (\<forall>k t. s = Some (k, t) \<longrightarrow> l = Settled k t))"
proof (cases x)
  case (EnqueueOp e)
  with assms show ?thesis
    using enqueue_step [of e qi w] preservesD [OF enqueue_schema assms(1)]
    by (cases "enqueue qi e w") auto
next
  case (ClaimOp ws i ow now ex)
  with assms show ?thesis
    using claim_step [OF assms(1)] preservesD [OF claim_event_schema assms(1)]
    by (cases "claim_event ws i ow now ex w") auto
next
  case (RetryOp e stage code nx now)
  with assms show ?thesis
    using failure_step [of e EventQueued stage code nx now w]
      preservesD [OF transition_failure_schema assms(1)]
    by (cases "retry_event e stage code nx now w")
      (auto simp: retry_event_def settled_when_def lease_of_def split: sum.splits)
next
  case (FailOp e stage code now)
  with assms show ?thesis
    using failure_step [of e EventFailed stage code "[]" now w]
      preservesD [OF transition_failure_schema assms(1)]
    by (cases "fail_event e stage code now w")
      (auto simp: fail_event_def settled_when_def lease_of_def split: sum.splits)
next
  case (MaterializeOp e items)
  with assms show ?thesis
    using materialize_step [OF assms(1), of qi e items] preservesD [OF materialize_schema assms(1)]
    by (cases "materialize qi e items w") (auto simp: settled_when_def lease_of_def split: sum.splits)
qed

lemma settled_leases_history:
  assumes "schema_ok (db w)" "list_all fresh_op xs" "ev_lease.history rs ls (db_events (db w))"
  shows "\<exists>ls' rs'. ev_lease.history rs (ls @ ls') rs' \<and>
    (\<forall>k t. count_list (settled_leases qi xs w) (k, t) \<le> count_list ls' (Settled k t))"
  using assms
proof (induction xs arbitrary: w ls)
  case Nil
  then have "ev_lease.history rs (ls @ []) (db_events (db w))" by simp
  then show ?case by (metis order_refl settled_leases.simps(1) count_list.simps(1))
next
  case (Cons x xs)
  obtain s w1 where r: "run_event_op qi x w = (s, w1)" by fastforce
  from Cons.prems op_step [OF _ _ r] obtain l where ok: "schema_ok (db w1)"
    and st: "ev_lease.lease_step (db_events (db w)) l (db_events (db w1))"
    and l: "\<And>k t. s = Some (k, t) \<Longrightarrow> l = Settled k t" by auto
  have "ev_lease.history rs (ls @ [l]) (db_events (db w1))"
    by (rule ev_lease.history.step [OF Cons.prems(3) st])
  from Cons.IH [OF ok _ this] Cons.prems(2) obtain ls' rs' where
    h: "ev_lease.history rs ((ls @ [l]) @ ls') rs'"
    and c: "\<And>k t. count_list (settled_leases qi xs w1) (k, t) \<le> count_list ls' (Settled k t)" by auto
  have "count_list (settled_leases qi (x # xs) w) (k, t) \<le> count_list (l # ls') (Settled k t)" for k t
    using c [of k t] r l [of k t] by (cases s) auto
  with h show ?case by (auto intro!: exI [of _ "l # ls'"] exI [of _ rs'])
qed

section \<open>What materialization may change\<close>

definition item_evolves :: "item_row \<Rightarrow> item_row \<Rightarrow> bool" where
  "item_evolves a b \<longleftrightarrow> ir_workspace b = ir_workspace a \<and> ir_id b = ir_id a \<and>
     ir_recipient b = ir_recipient a \<and> ir_group b = ir_group a \<and> ir_first b = ir_first a \<and>
     ir_read b = ir_read a \<and> ir_archived b = ir_archived a \<and> ir_created b = ir_created a \<and>
     ir_last a \<le> ir_last b \<and> ir_occurrences a \<le> ir_occurrences b"

definition group_evolves :: "alert_group \<Rightarrow> alert_group \<Rightarrow> bool" where
  "group_evolves a b \<longleftrightarrow> al_workspace b = al_workspace a \<and> al_recipient b = al_recipient a \<and>
     al_group b = al_group a \<and> al_first b = al_first a \<and> al_last a \<le> al_last b \<and>
     al_occurrences a \<le> al_occurrences b"

lemma fold_evolves:
  assumes "\<And>x xs r. r \<in> set xs \<Longrightarrow> \<exists>r' \<in> set (f x xs). R r r'"
    and "\<And>r. R r r" "\<And>a b c. R a b \<Longrightarrow> R b c \<Longrightarrow> R a c"
    and "r \<in> set xs"
  shows "\<exists>r' \<in> set (fold f ys xs). R r r'"
  using assms(4)
proof (induction ys arbitrary: xs r)
  case Nil
  then show ?case using assms(2) by auto
next
  case (Cons y ys)
  from assms(1) [OF Cons.prems] obtain r1 where r1: "r1 \<in> set (f y xs)" "R r r1" by blast
  from Cons.IH [OF r1(1)] obtain r2 where "r2 \<in> set (fold f ys (f y xs))" "R r1 r2" by blast
  with r1(2) assms(3) show ?case by auto
qed

lemma update_where_evolves:
  assumes "r \<in> set rs" "R r r" "P r \<Longrightarrow> R r (f r)"
  shows "\<exists>r' \<in> set (update_where P f rs). R r r'"
  unfolding update_where_def
  by (rule bexI [of _ "if P r then f r else r"]) (use assms in auto)

lemma apply_item_evolves:
  assumes "r \<in> set rs" shows "\<exists>r' \<in> set (apply_item i rs). item_evolves r r'"
proof (cases "list_ex (item_key_matches i) rs")
  case True
  then show ?thesis
    using update_where_evolves [OF assms, of item_evolves
        "\<lambda>r. item_key_matches i r \<and> ir_last r \<le> it_last i" "update_item_row i"]
    by (simp add: apply_item_def item_evolves_def update_item_row_def)
next
  case False
  with assms show ?thesis by (auto simp: apply_item_def item_evolves_def intro!: bexI [of _ r])
qed

lemma apply_group_evolves:
  assumes "g \<in> set gs" shows "\<exists>g' \<in> set (apply_group e i gs). group_evolves g g'"
proof (cases "ev_alert_state e \<noteq> [] \<and> list_ex (group_key_matches e i) gs")
  case True
  then show ?thesis
    using update_where_evolves [OF assms, of group_evolves
        "\<lambda>g. group_key_matches e i g \<and> al_last g \<le> ev_occurred e" "update_group e"]
    by (simp add: apply_group_def group_evolves_def update_group_def)
next
  case False
  with assms show ?thesis by (auto simp: apply_group_def group_evolves_def intro!: bexI [of _ g])
qed

lemma materialized_evolves:
  "r \<in> set (db_items d) \<Longrightarrow> \<exists>r' \<in> set (db_items (materialized e items d)). item_evolves r r'"
  "g \<in> set (db_groups d) \<Longrightarrow> \<exists>g' \<in> set (db_groups (materialized e items d)). group_evolves g g'"
proof -
  assume "r \<in> set (db_items d)"
  then have "\<exists>r' \<in> set (fold apply_item items (db_items d)). item_evolves r r'"
    by (rule fold_evolves [rotated 3]) (use apply_item_evolves in \<open>auto simp: item_evolves_def\<close>)
  then show "\<exists>r' \<in> set (db_items (materialized e items d)). item_evolves r r'"
    by (simp add: materialized_def)
next
  assume "g \<in> set (db_groups d)"
  then have "\<exists>g' \<in> set (fold (apply_group e) items (db_groups d)). group_evolves g g'"
    by (rule fold_evolves [rotated 3]) (use apply_group_evolves in \<open>auto simp: group_evolves_def\<close>)
  then show "\<exists>g' \<in> set (db_groups (materialized e items d)). group_evolves g g'"
    by (simp add: materialized_def)
qed

section \<open>Listing due events\<close>

lemma list_due_for_workspace_Inr:
  assumes "list_due_for_workspace ws now limit w = (Inr es, w')"
  shows "db w' = db w \<and> es = map scan_event (take_limit limit (sort_key er_occurred
     (filter (\<lambda>r. er_workspace r = ws \<and> event_due now r) (db_events (db w)))))"
  using assms by (auto simp: list_due_for_workspace_def bind_io_Inr wrapping_Inr dest!: query_Inr)

lemma due_loop_Inr:
  assumes "fold_io (\<lambda>ws acc. bind_io (list_due_for_workspace ws now limit) (\<lambda>vs. ret (acc @ vs))) wss acc w = (Inr es, w')"
  shows "db w' = db w \<and> es = acc @ concat (map (\<lambda>ws. map scan_event (take_limit limit (sort_key er_occurred
     (filter (\<lambda>r. er_workspace r = ws \<and> event_due now r) (db_events (db w)))))) wss)"
  using assms
proof (induction wss arbitrary: acc w)
  case (Cons ws wss)
  then obtain vs w1 where v: "list_due_for_workspace ws now limit w = (Inr vs, w1)"
    and r: "fold_io (\<lambda>ws acc. bind_io (list_due_for_workspace ws now limit) (\<lambda>vs. ret (acc @ vs))) wss (acc @ vs) w1 = (Inr es, w')"
    by (auto simp: bind_io_Inr)
  from list_due_for_workspace_Inr [OF v] Cons.IH [OF r] show ?case by simp
qed simp

lemma scope_workspaces_Inr:
  "scope_workspaces qi k n w = (Inr wss, w') \<Longrightarrow> db w' = db w \<and> qi_workspaces qi k n (db_scopes (db w)) = Inr wss"
proof -
  assume "scope_workspaces qi k n w = (Inr wss, w')"
  then obtain r w1 where "query (\<lambda>d. qi_workspaces qi k n (db_scopes d)) w = (Inr r, w1)"
      "(case r of Inl e \<Rightarrow> fail e | Inr ws \<Rightarrow> ret ws) w1 = (Inr wss, w')"
    by (auto simp: scope_workspaces_def bind_io_Inr)
  then show ?thesis by (cases r) (auto dest!: query_Inr)
qed

lemma list_due_Inr:
  assumes "list_due qi now limit w = (Inr es, w')" "L = (if limit \<le> 0 then 25 else limit)"
  shows "\<exists>wss. qi_workspaces qi WorkInboxEvent (workspace_scan_limit L) (db_scopes (db w)) = Inr wss \<and>
    db w' = db w \<and> es = take_limit L (sort_key (\<lambda>e. (ev_occurred e, ev_id e))
      (concat (map (\<lambda>ws. map scan_event (take_limit L (sort_key er_occurred
     (filter (\<lambda>r. er_workspace r = ws \<and> event_due now r) (db_events (db w)))))) wss)))"
  using assms by (auto simp: list_due_def Let_def bind_io_Inr dest!: scope_workspaces_Inr due_loop_Inr)

section \<open>Properties\<close>

text \<open>C1: whatever the producers and workers do, in whatever order and with whatever driver
  faults, a lease on an event (its workspace, id and fencing token) is settled (materialized,
  scheduled for retry or failed) successfully at most once.\<close>

theorem event_settled_at_most_once:
  assumes "schema_ok (db w)" and "\<forall>r \<in> set (db_events (db w)). er_status r \<noteq> ''processing''"
    and "list_all fresh_op ops"
  shows "distinct (settled_leases qi ops w)"
proof (rule distinct_count)
  fix x :: "(workspace_id \<times> string) \<times> int"
  obtain k t where x: "x = (k, t)" by fastforce
  from settled_leases_history [OF assms(1,3) ev_lease.history.start, of qi]
  obtain ls' rs' where h: "ev_lease.history (db_events (db w)) ls' rs'"
    and c: "count_list (settled_leases qi ops w) (k, t) \<le> count_list ls' (Settled k t)"
    by (metis append_Nil)
  have "count_list ls' (Settled k t) \<le> 1"
    by (rule ev_lease.settle_once [OF h unique_event_keys [OF assms(1)]])
      (use assms(2) in \<open>simp add: event_held_def\<close>)
  with c x show "count_list (settled_leases qi ops w) x \<le> 1" by simp
qed

theorem event_settled_at_most_once_witness:
  "distinct (settled_leases sample_index [EnqueueOp sample_event,
      ClaimOp ''ws'' ''e1'' ''w1'' ''2026-01-01'' ''2026-01-02'',
      FailOp sample_claimed ''render'' ''render.failed'' ''2026-01-01'',
      FailOp sample_claimed ''render'' ''render.failed'' ''2026-01-01''] (calm_world empty_database))"
  by (rule event_settled_at_most_once) (simp_all add: empty_database_def sample_event_def schema_ok_def)

text \<open>C2: materialization is all or nothing. Either it reports an error and the database is
  untouched, or the whole effect of the specification \<open>materialized\<close> is in place (groups,
  items, plans, the event's status), exactly one row held the caller's lease, and the result
  is success or a lost reply of the commit.\<close>

theorem materialize_atomic:
  assumes "schema_ok (db w)" "materialize qi e items w = (r, w')"
  shows "(\<exists>err. r = Inl err) \<and> db w' = db w \<or>
    (r = Inr () \<or> r = Inl DriverError) \<and>
    (\<exists>s. db w' = (materialized e items (db w))\<lparr>db_scopes := s\<rparr>) \<and>
    length (filter (event_lease_matches e) (db_events (db w))) = 1"
  by (rule materialize_refines [OF assms])

definition claimed_database :: database where
  "claimed_database = empty_database\<lparr>db_events := [event_row_of sample_claimed]\<rparr>"

lemma claimed_database_ok [simp]: "schema_ok claimed_database"
  by (simp add: claimed_database_def empty_database_def schema_ok_def no_clash_def)

theorem materialize_atomic_witness:
  "fst (materialize sample_index sample_claimed [sample_item] (calm_world claimed_database)) = Inr () \<and>
   db_items (db (snd (materialize sample_index sample_claimed [sample_item] (calm_world claimed_database)))) =
     [new_item_row sample_item]"
proof -
  let ?m = "materialize sample_index sample_claimed [sample_item] (calm_world claimed_database)"
  have run: "fst ?m = Inr ()"
    by (simp add: materialize_def materialize_body_def transition_alert_group_def upsert_inbox_item_def
        insert_channel_plan_def statement_runs calm_world_def claimed_database_def empty_database_def
        sample_claimed_def sample_event_def sample_item_def sample_index_def sample_plan_def
        event_row_of_def event_lease_matches_def)
  then obtain w' where m: "?m = (Inr (), w')" by (cases ?m) auto
  have "schema_ok (db (calm_world claimed_database))" by simp
  from materialize_atomic [OF this m] have "db_items (db w') = [new_item_row sample_item]"
    by (auto simp: materialized_def apply_item_def) (simp_all add: claimed_database_def empty_database_def)
  with m run show ?thesis by simp
qed

text \<open>Recording a failed attempt is all or nothing: the transition of the event row and
  the evidence row appear together, for a safe stage and error code, and only for the caller
  that holds the lease.\<close>

theorem failure_atomic:
  assumes "transition_failure e status stage code next_at now w = (r, w')"
  shows "(\<exists>err. r = Inl err) \<and> db w' = db w \<or>
    (r = Inr () \<or> r = Inl DriverError) \<and>
    db w' = failed e status (trim_space stage) (trim_space code) next_at now (db w) \<and>
    length (filter (event_lease_matches e) (db_events (db w))) = 1 \<and>
    trim_space stage \<in> set failure_stages \<and> failure_code_ok (trim_space code)"
  by (rule transition_failure_refines [OF assms])

lemma trim_words:
  "trim_space ''render'' = ''render''" "trim_space ''render.failed'' = ''render.failed''"
  "trim_space ''e1'' = ''e1''" "trim_space ''w1'' = ''w1''" "trim_space ''w2'' = ''w2''"
  "trim_space ''2026-01-01'' = ''2026-01-01''" "trim_space ''2026-01-02'' = ''2026-01-02''"
  "trim_space ''2026-01-03'' = ''2026-01-03''" "trim_space ''2026-01-04'' = ''2026-01-04''"
  "trim_space ''records'' = ''records''" "trim_space ''s1'' = ''s1''"
  by (simp_all add: trim_space_plain plain_char_def)

lemma safe_words: "failure_code_ok ''render.failed''" "''render'' \<in> set failure_stages"
    "(''2026-01-01'' \<le> ''2026-01-01'') = True" "(''2026-01-02'' \<le> ''2026-01-01'') = False"
    "(''2026-01-02'' \<le> ''2026-01-03'') = True" "(''2026-01-03'' \<le> ''2026-01-02'') = False"
    "''2026-01-02'' < ''2026-01-03''"
  by code_simp+

theorem failure_atomic_witness:
  "fst (fail_event sample_claimed ''render'' ''render.failed'' ''2026-01-01'' (calm_world claimed_database)) = Inr () \<and>
   map ef_attempt (db_failures (db (snd (fail_event sample_claimed ''render'' ''render.failed'' ''2026-01-01''
     (calm_world claimed_database))))) = [1]"
proof -
  let ?m = "transition_failure sample_claimed EventFailed ''render'' ''render.failed'' [] ''2026-01-01''
    (calm_world claimed_database)"
  have run: "fst ?m = Inr ()"
    by (simp add: transition_failure_def Let_def statement_runs calm_world_def claimed_database_def
        empty_database_def sample_claimed_def sample_event_def event_row_of_def event_lease_matches_def
        trim_words safe_words)
  then obtain w' where m: "?m = (Inr (), w')" by (cases ?m) auto
  from failure_atomic [OF m] have "map ef_attempt (db_failures (db w')) = [1]"
    by (auto simp: failed_def) (simp_all add: claimed_database_def empty_database_def failure_of_def
        sample_claimed_def sample_event_def)
  with m run show ?thesis by (simp add: fail_event_def)
qed

text \<open>A claim that returns an event took exactly one row, which was due (queued with its
  next attempt reached, or processing with an expired lease), gave it the next fencing token
  and the caller's owner and lease, and returned what it wrote.\<close>

theorem claim_takes_due_event:
  assumes "schema_ok (db w)" "claim_event ws i owner now expires w = (Inr (Some e), w')"
  shows "\<exists>r \<in> set (db_events (db w)). event_key r = (ws, trim_space i) \<and>
      event_due (trim_space now) r \<and> ev_token e = er_token r + 1 \<and>
      ev_status e = EventProcessing \<and> ev_owner e = trim_space owner \<and> ev_lease e = trim_space expires \<and>
      db w' = claimed ws (trim_space i) (trim_space owner) (trim_space now) (trim_space expires) (db w)"
  using claim_event_Some [OF assms] by (auto simp: scan_event_def claim_event_row_def)

definition queued_database :: database where
  "queued_database = empty_database\<lparr>db_events := [event_row_of sample_event]\<rparr>"

lemma queued_database_ok [simp]: "schema_ok queued_database"
  by (simp add: queued_database_def empty_database_def schema_ok_def no_clash_def)

lemma sample_claim_run:
  "\<exists>e w'. claim_event ''ws'' ''e1'' ''w1'' ''2026-01-01'' ''2026-01-02'' (calm_world queued_database) =
     (Inr (Some e), w') \<and> ev_token e = 1"
  by (simp add: claim_event_def statement_runs calm_world_def queued_database_def Let_def
      empty_database_def sample_event_def event_row_of_def event_due_def due_at_def trim_words
      event_by_id_def claim_event_row_def scan_event_def safe_words)

theorem claim_takes_due_event_witness:
  "\<exists>e w'. claim_event ''ws'' ''e1'' ''w1'' ''2026-01-01'' ''2026-01-02'' (calm_world queued_database) =
     (Inr (Some e), w') \<and> ev_token e = 1 \<and> ev_lease e = ''2026-01-02''"
proof -
  obtain e w' where c: "claim_event ''ws'' ''e1'' ''w1'' ''2026-01-01'' ''2026-01-02'' (calm_world queued_database) =
     (Inr (Some e), w')" "ev_token e = 1" using sample_claim_run by blast
  have "schema_ok (db (calm_world queued_database))" by simp
  from claim_takes_due_event [OF this c(1)] c show ?thesis by (auto simp: trim_words)
qed

text \<open>A claim excludes every other one until its lease expires: a claim of the same event
  at an earlier time changes nothing and returns no event.\<close>

theorem claim_excludes_others:
  assumes "schema_ok (db w)" "claim_event ws i owner now expires w = (Inr (Some e), w1)"
    and "trim_space j = trim_space i" "trim_space now2 < trim_space expires"
    and "claim_event ws j owner2 now2 expires2 w1 = (x, w2)"
  shows "db w2 = db w1 \<and> (\<forall>e2. x \<noteq> Inr (Some e2))"
proof -
  from claim_event_Some [OF assms(1,2)] obtain r where r: "r \<in> set (db_events (db w))"
      "event_key r = (ws, trim_space i)" "event_due (trim_space now) r"
      "db w1 = claimed ws (trim_space i) (trim_space owner) (trim_space now) (trim_space expires) (db w)"
    by blast
  let ?r = "claim_event_row (trim_space owner) (trim_space now) (trim_space expires) r"
  have "?r \<in> set (db_events (db w1))"
    using r by (auto simp: claimed_def in_update_where event_key_def intro!: bexI [of _ r])
  moreover have "event_key ?r = (ws, trim_space j)"
    using r(2) assms(3) by (simp add: ev_lease.take_key)
  moreover have "\<not> event_due (trim_space now2) ?r"
    using assms(4) by (simp add: event_due_def claim_event_row_def not_due_held)
  moreover have "schema_ok (db w1)" by (rule preservesD [OF claim_event_schema assms(1,2)])
  ultimately show ?thesis using assms(5) by (intro claim_event_blocked)
qed

theorem claim_excludes_others_witness:
  "\<exists>e w1. claim_event ''ws'' ''e1'' ''w1'' ''2026-01-01'' ''2026-01-03'' (calm_world queued_database) = (Inr (Some e), w1) \<and>
     db (snd (claim_event ''ws'' ''e1'' ''w2'' ''2026-01-02'' ''2026-01-04'' w1)) = db w1"
proof -
  obtain e w1 where c: "claim_event ''ws'' ''e1'' ''w1'' ''2026-01-01'' ''2026-01-03'' (calm_world queued_database) =
     (Inr (Some e), w1)"
    by (simp add: claim_event_def statement_runs calm_world_def queued_database_def Let_def
      empty_database_def sample_event_def event_row_of_def event_due_def due_at_def trim_words
      event_by_id_def claim_event_row_def scan_event_def safe_words)
  obtain x w2 where d: "claim_event ''ws'' ''e1'' ''w2'' ''2026-01-02'' ''2026-01-04'' w1 = (x, w2)" by fastforce
  have "schema_ok (db (calm_world queued_database))" by simp
  from claim_excludes_others [OF this c refl _ d] have "db w2 = db w1" by (simp add: trim_words safe_words)
  with c d show ?thesis by auto
qed

text \<open>C3: a worker whose lease was taken over is fenced off: with its older token it can neither
  materialize the event nor record a failure; every call returns an error and the database
  stays as it is.\<close>

theorem stale_worker_fenced:
  assumes "schema_ok (db w)" "claim_event ws i owner now expires w = (Inr (Some e2), w1)"
    and "ev_workspace e = ws" "ev_id e = trim_space i" "ev_token e < ev_token e2"
  shows "(\<forall>r w2. materialize qi e items w1 = (r, w2) \<longrightarrow> (\<exists>err. r = Inl err) \<and> db w2 = db w1) \<and>
    (\<forall>r w2. transition_failure e status stage code next_at now2 w1 = (r, w2) \<longrightarrow>
      (\<exists>err. r = Inl err) \<and> db w2 = db w1)"
proof -
  have none: "filter (event_lease_matches e) (db_events (db w1)) = []" by (rule stale_lease [OF assms])
  have ok: "schema_ok (db w1)" by (rule preservesD [OF claim_event_schema assms(1,2)])
  show ?thesis
  proof (intro conjI allI impI)
    fix r w2 assume "materialize qi e items w1 = (r, w2)"
    from materialize_refines [OF ok this] none
    show "\<exists>err. r = Inl err" "db w2 = db w1" by simp_all
  next
    fix r w2 assume "transition_failure e status stage code next_at now2 w1 = (r, w2)"
    from transition_failure_refines [OF this] none
    show "\<exists>err. r = Inl err" "db w2 = db w1" by simp_all
  qed
qed

theorem stale_worker_fenced_witness:
  "\<exists>e2 w1. claim_event ''ws'' ''e1'' ''w2'' ''2026-01-03'' ''2026-01-04'' (calm_world claimed_database) = (Inr (Some e2), w1) \<and>
     db (snd (materialize sample_index sample_claimed [sample_item] w1)) = db w1"
proof -
  obtain e2 w1 where c: "claim_event ''ws'' ''e1'' ''w2'' ''2026-01-03'' ''2026-01-04'' (calm_world claimed_database) =
     (Inr (Some e2), w1)" "ev_token e2 = 2"
    by (simp add: claim_event_def statement_runs calm_world_def claimed_database_def Let_def
      empty_database_def sample_event_def sample_claimed_def event_row_of_def event_due_def due_at_def trim_words
      event_by_id_def claim_event_row_def scan_event_def safe_words)
  have ok: "schema_ok (db (calm_world claimed_database))" by simp
  have s: "ev_workspace sample_claimed = ''ws''" "ev_id sample_claimed = trim_space ''e1''"
      "ev_token sample_claimed < ev_token e2"
    using c(2) by (simp_all add: sample_claimed_def sample_event_def trim_words)
  obtain r w2 where m: "materialize sample_index sample_claimed [sample_item] w1 = (r, w2)" by fastforce
  with stale_worker_fenced [OF ok c(1) s] have "db w2 = db w1" by blast
  with m c show ?thesis by auto
qed

text \<open>enqueueing is idempotent by source identity. After a first enqueue of an event, a second
  one with the same source identity writes nothing; it returns the stored event when the two
  agree (their plans cleared of lifecycle fields) and an idempotency conflict when they differ.\<close>

theorem enqueue_idempotent:
  assumes "schema_ok (db w)" "enqueue qi e w = (Inr (e1, True), w1)" "outcomes w1 = []"
    and "ev_workspace e2 = ev_workspace e" "ev_source e2 = ev_source e" "ev_source_event e2 = ev_source_event e"
    and "trim_space (ev_source e) = ev_source e" "trim_space (ev_source_event e) = ev_source_event e"
  shows "enqueue qi e2 w1 =
    (if same_ingest e e2 then Inr (clear_shared_plans e, False)
     else Inl (MutationConflict ''notification_event'' (ev_id e2) ConflictIdempotency), w1)"
proof -
  have ok: "schema_ok (db w1)" by (rule preservesD [OF enqueue_schema assms(1,2)])
  have mem: "event_row_of e \<in> set (db_events (db w1))" using enqueue_fresh [OF assms(2)] by simp
  have ne: "ev_workspace e \<noteq> []" using assms(2) by (auto simp: enqueue_def guard_io_def)
  have "enqueue qi e2 w1 = (if same_ingest (scan_event (event_row_of e)) e2
      then Inr (clear_shared_plans (scan_event (event_row_of e)), False)
      else Inl (MutationConflict ''notification_event'' (ev_id e2) ConflictIdempotency), w1)"
    by (rule enqueue_known [OF assms(3) ok mem])
      (use assms ne in \<open>simp_all add: event_row_of_def\<close>)
  then show ?thesis by simp
qed

theorem enqueue_idempotent_witness:
  "\<exists>w1. enqueue sample_index sample_event (calm_world empty_database) = (Inr (sample_event, True), w1) \<and>
     enqueue sample_index (sample_event\<lparr>ev_created := ''2026-01-02''\<rparr>) w1 =
       (Inr (clear_shared_plans sample_event, False), w1)"
proof -
  obtain w1 where e: "enqueue sample_index sample_event (calm_world empty_database) = (Inr (sample_event, True), w1)"
      "outcomes w1 = []"
    by (simp add: enqueue_def insert_event_def statement_runs calm_world_def empty_database_def
        sample_index_def sample_event_def)
  have ok: "schema_ok (db (calm_world empty_database))" by simp
  have "same_ingest sample_event (sample_event\<lparr>ev_created := ''2026-01-02''\<rparr>)"
    by (simp add: same_ingest_def clear_event_lifecycle_def)
  moreover have "trim_space (ev_source sample_event) = ev_source sample_event"
      "trim_space (ev_source_event sample_event) = ev_source_event sample_event"
    by (simp_all add: sample_event_def trim_words)
  ultimately show ?thesis
    using e enqueue_idempotent [OF ok e, of "sample_event\<lparr>ev_created := ''2026-01-02''\<rparr>"] by simp
qed

text \<open>materialization never loses or rewinds an inbox item or an alert group: every row that
  was there is there afterwards with the same identity, the reader's state (read, archived)
  untouched, and its last occurrence and occurrence count not decreased, also when events
  arrive out of order.\<close>

theorem materialize_keeps_rows:
  assumes "schema_ok (db w)" "materialize qi e items w = (x, w')"
  shows "(\<forall>r \<in> set (db_items (db w)). \<exists>r' \<in> set (db_items (db w')). item_evolves r r') \<and>
    (\<forall>g \<in> set (db_groups (db w)). \<exists>g' \<in> set (db_groups (db w')). group_evolves g g')"
  using materialize_refines [OF assms]
proof
  assume "(\<exists>err. x = Inl err) \<and> db w' = db w"
  then show ?thesis by (auto simp: item_evolves_def group_evolves_def intro: bexI)
next
  assume "(x = Inr () \<or> x = Inl DriverError) \<and>
    (\<exists>s. db w' = (materialized e items (db w))\<lparr>db_scopes := s\<rparr>) \<and>
    length (filter (event_lease_matches e) (db_events (db w))) = 1"
  then obtain s where "db w' = (materialized e items (db w))\<lparr>db_scopes := s\<rparr>" by blast
  then show ?thesis using materialized_evolves by simp
qed

theorem materialize_keeps_rows_witness:
  "\<exists>r' \<in> set (db_items (db (snd (materialize sample_index sample_claimed [sample_item]
      (calm_world (claimed_database\<lparr>db_items := [(new_item_row sample_item)\<lparr>ir_read := ''2026-01-01''\<rparr>]\<rparr>)))))).
     ir_read r' = ''2026-01-01''"
proof -
  let ?d = "claimed_database\<lparr>db_items := [(new_item_row sample_item)\<lparr>ir_read := ''2026-01-01''\<rparr>]\<rparr>"
  have ok: "schema_ok (db (calm_world ?d))"
    by (simp add: schema_ok_def claimed_database_def empty_database_def no_clash_def)
  obtain x w' where m: "materialize sample_index sample_claimed [sample_item] (calm_world ?d) = (x, w')" by fastforce
  from materialize_keeps_rows [OF ok m] m show ?thesis by (auto simp: item_evolves_def)
qed

text \<open>A worker's list of due events holds at most the requested number (25 by default),
  oldest first with ties by id, only due events, and it misses none of the scanned workspaces
  when it is not full. Reading it changes nothing.\<close>

theorem list_due_correct:
  assumes "list_due qi now limit w = (Inr es, w')" and "L = (if limit \<le> 0 then 25 else limit)"
  shows "db w' = db w \<and> int (length es) \<le> L \<and> sorted (map (\<lambda>e. (ev_occurred e, ev_id e)) es) \<and>
    (\<forall>e \<in> set es. \<exists>r \<in> set (db_events (db w)). e = scan_event r \<and> event_due now r) \<and>
    (\<forall>wss r. qi_workspaces qi WorkInboxEvent (workspace_scan_limit L) (db_scopes (db w)) = Inr wss \<and>
       r \<in> set (db_events (db w)) \<and> er_workspace r \<in> set wss \<and> event_due now r \<and> int (length es) < L \<longrightarrow>
       scan_event r \<in> set es)"
proof -
  from list_due_Inr [OF assms] obtain wss where wss:
    "qi_workspaces qi WorkInboxEvent (workspace_scan_limit L) (db_scopes (db w)) = Inr wss" and w': "db w' = db w"
    and es: "es = take_limit L (sort_key (\<lambda>e. (ev_occurred e, ev_id e))
      (concat (map (\<lambda>ws. map scan_event (take_limit L (sort_key er_occurred
       (filter (\<lambda>r. er_workspace r = ws \<and> event_due now r) (db_events (db w)))))) wss)))"
    (is "es = take_limit L (sort_key _ ?all)") by blast
  have L: "0 < L" using assms(2) by (auto split: if_splits)
  have len: "int (length es) \<le> L" using L unfolding es by (intro length_take_limit) simp
  have "sorted (map (\<lambda>e. (ev_occurred e, ev_id e)) es)"
    unfolding es take_limit_def by (simp add: take_map [symmetric] sorted_wrt_take)
  moreover have "\<exists>r \<in> set (db_events (db w)). e = scan_event r \<and> event_due now r" if "e \<in> set es" for e
  proof -
    have "set es \<subseteq> set ?all"
      unfolding es using set_take_limit [of L "sort_key (\<lambda>e. (ev_occurred e, ev_id e)) ?all"]
      by (simp only: set_sort)
    with that have "e \<in> set ?all" by blast
    then obtain ws r where "e = scan_event r"
      "r \<in> set (take_limit L (sort_key er_occurred (filter (\<lambda>r. er_workspace r = ws \<and> event_due now r) (db_events (db w)))))"
      by auto
    with set_take_limit [of L "sort_key er_occurred (filter (\<lambda>r. er_workspace r = ws \<and> event_due now r) (db_events (db w)))"]
    show ?thesis by auto
  qed
  moreover have "scan_event r \<in> set es"
    if r: "r \<in> set (db_events (db w))" "er_workspace r \<in> set wss" "event_due now r" and short: "int (length es) < L" for r
  proof -
    let ?mine = "sort_key er_occurred (filter (\<lambda>x. er_workspace x = er_workspace r \<and> event_due now x) (db_events (db w)))"
    have all: "length ?all < nat L"
      using short L unfolding es take_limit_def by (simp split: if_splits)
    have "set (map scan_event (take_limit L ?mine)) \<subseteq> set ?all" using r(2) by auto
    have "length (take_limit L ?mine) \<le> length ?all"
    proof -
      have "length (map scan_event (take_limit L ?mine)) \<le> length ?all"
        using r(2) by (simp only: length_concat) (rule member_le_sum_list; simp)
      then show ?thesis by simp
    qed
    with all have full: "take_limit L ?mine = ?mine" by (simp add: take_limit_def)
    have "scan_event r \<in> set (map scan_event ?mine)" using r by simp
    then have "scan_event r \<in> set (map scan_event (take_limit L ?mine))" by (simp only: full)
    then have "scan_event r \<in> set ?all"
      using \<open>set (map scan_event (take_limit L ?mine)) \<subseteq> set ?all\<close> by blast
    with all show ?thesis unfolding es take_limit_def by simp
  qed
  ultimately show ?thesis using w' len wss by auto
qed

theorem list_due_correct_witness:
  "\<exists>es w'. list_due sample_index ''2026-01-01'' 10 (calm_world queued_database) = (Inr es, w') \<and> sample_event \<in> set es"
proof -
  obtain es w' where l: "list_due sample_index ''2026-01-01'' 10 (calm_world queued_database) = (Inr es, w')"
      "int (length es) < 10"
    by (simp add: list_due_def Let_def statement_runs sample_index_def calm_world_def list_due_for_workspace_def
        take_limit_def queued_database_def empty_database_def)
  have "scan_event (event_row_of sample_event) \<in> set es"
    using list_due_correct [OF l(1) refl] l(2)
    by (simp add: queued_database_def empty_database_def sample_index_def)
      (simp add: event_row_of_def sample_event_def event_due_def due_at_def)
  with l(1) show ?thesis by auto
qed

end
