(* ===== verification/Plan_Store.thy ===== *)
theory Plan_Store
  imports Event_Store Samples
begin

text \<open>
  The channel plan store, internal/infrastructure/persistence/database/delivery/
  plan_lifecycle.go: listing and claiming due plans, the four ways a claimed plan ends
  (\<open>CompletePlan\<close>, \<open>RetryPlan\<close>, \<open>FailPlan\<close>, \<open>CancelPlan\<close>), the batch completion of a digest
  in one transaction, and the check whether the action behind a plan is already settled.
  Plans follow the same lease contract as events.
\<close>

definition scan_plan :: "plan_row \<Rightarrow> plan" where
  "scan_plan r = (qr_payload r)\<lparr>pl_id := qr_id r, pl_workspace := qr_workspace r,
     pl_event := qr_event r, pl_channel := qr_channel r, pl_status := qr_status r,
     pl_attempts := qr_attempts r, pl_next_attempt := qr_next_attempt r,
     pl_error_code := qr_error_code r, pl_outbox := qr_outbox r, pl_owner := qr_owner r,
     pl_lease := qr_lease r, pl_token := qr_token r, pl_created := qr_created r,
     pl_updated := qr_updated r\<rparr>"

lemma scan_plan_row_of [simp]: "scan_plan (plan_row_of p) = p"
  by (simp add: scan_plan_def plan_row_of_def)

definition plan_by_id :: "workspace_id \<Rightarrow> string \<Rightarrow> plan option sql" where
  "plan_by_id ws i = bind_io (select_row plans_table (\<lambda>r. qr_workspace r = ws \<and> qr_id r = i))
     (\<lambda>r. ret (map_option scan_plan r))"

definition get_plan :: "workspace_id \<Rightarrow> string \<Rightarrow> plan option sql" where
  "get_plan ws i =
     guard_io (ws = [] \<or> trim_space i = []) (ErrorText ''notification channel plan identity is required'')
       (plan_by_id ws (trim_space i))"

definition plan_due :: "string \<Rightarrow> plan_row \<Rightarrow> bool" where
  "plan_due now r = due_at (qr_status r) (qr_next_attempt r) (qr_lease r) now"

definition list_due_plans_for_workspace :: "workspace_id \<Rightarrow> string \<Rightarrow> int \<Rightarrow> plan list sql" where
  "list_due_plans_for_workspace ws now limit =
     bind_io (wrapping ''list due notification channel plans''
       (query (\<lambda>d. take_limit limit (sort_key qr_created
          (filter (\<lambda>r. qr_workspace r = ws \<and> plan_due now r) (db_plans d))))))
     (\<lambda>rows. ret (map scan_plan rows))"

definition list_due_plans :: "queue_index \<Rightarrow> string \<Rightarrow> int \<Rightarrow> plan list sql" where
  "list_due_plans qi now limit0 =
     (let limit = (if limit0 \<le> 0 \<or> limit0 > 100 then 25 else limit0) in
      bind_io (scope_workspaces qi WorkChannelPlan (workspace_scan_limit limit)) (\<lambda>wss.
      bind_io (fold_io (\<lambda>ws acc. bind_io (list_due_plans_for_workspace ws (trim_space now) limit)
                 (\<lambda>vs. ret (acc @ vs))) wss []) (\<lambda>plans.
      ret (take_limit limit (sort_key (\<lambda>p. (pl_created p, pl_id p)) plans)))))"

definition claim_plan_row :: "string \<Rightarrow> string \<Rightarrow> string \<Rightarrow> plan_row \<Rightarrow> plan_row" where
  "claim_plan_row owner now expires r = r\<lparr>qr_status := ''processing'', qr_owner := owner,
     qr_lease := expires, qr_token := qr_token r + 1, qr_updated := now\<rparr>"

definition claim_plan ::
  "workspace_id \<Rightarrow> string \<Rightarrow> string \<Rightarrow> string \<Rightarrow> string \<Rightarrow> plan option sql" where
  "claim_plan ws i owner now expires =
     (let i = trim_space i; owner = trim_space owner; now = trim_space now; expires = trim_space expires in
      guard_io (ws = [] \<or> i = [] \<or> owner = [] \<or> now = [] \<or> expires = [])
        (ErrorText ''notification channel plan claim identity and lease are required'')
      (bind_io (wrapping ''claim notification channel plan''
         (update_rows plans_table (\<lambda>r. qr_workspace r = ws \<and> qr_id r = i \<and> plan_due now r)
            (claim_plan_row owner now expires))) (\<lambda>count.
       if count \<noteq> 1 then ret None else plan_by_id ws i)))"

text \<open>\<open>IsActionTerminal\<close>: the event has items and none of them is open or firing.\<close>

definition item_active :: "item_row \<Rightarrow> bool" where
  "item_active r \<longleftrightarrow> ir_action_state r = ''open'' \<or> ir_alert_state r = ''firing''"

definition is_action_terminal :: "plan \<Rightarrow> bool sql" where
  "is_action_terminal p =
     bind_io (wrapping ''inspect notification channel plan action state''
       (query (\<lambda>d. let rs = filter (\<lambda>r. ir_workspace r = pl_workspace p \<and> ir_event r = pl_event p) (db_items d)
                   in (int (length rs), int (length (filter item_active rs))))))
     (\<lambda>(total, active). ret (0 < total \<and> active = 0))"

definition plan_lease_matches :: "plan \<Rightarrow> plan_row \<Rightarrow> bool" where
  "plan_lease_matches p r \<longleftrightarrow> qr_workspace r = pl_workspace p \<and> qr_id r = pl_id p \<and>
     qr_status r = ''processing'' \<and> qr_owner r = pl_owner p \<and> qr_token r = pl_token p"

definition end_plan_row :: "string \<Rightarrow> int \<Rightarrow> string \<Rightarrow> string \<Rightarrow> string \<Rightarrow> string \<Rightarrow> plan_row \<Rightarrow> plan_row" where
  "end_plan_row status attempts code outbox next_at now r = r\<lparr>qr_status := status,
     qr_attempts := qr_attempts r + attempts, qr_next_attempt := next_at, qr_error_code := code,
     qr_outbox := outbox, qr_owner := [], qr_lease := [], qr_updated := now\<rparr>"

definition transition_plan ::
  "plan \<Rightarrow> string \<Rightarrow> int \<Rightarrow> string \<Rightarrow> string \<Rightarrow> string \<Rightarrow> string \<Rightarrow> unit sql" where
  "transition_plan p status attempts code outbox next_at now =
     (let code = trim_space code; outbox = trim_space outbox; next_at = trim_space next_at;
          now = trim_space now in
      guard_io (code \<noteq> [] \<and> \<not> failure_code_ok code)
        (ErrorText ''notification channel plan error code is invalid'')
      (bind_io (wrapping ''transition notification channel plan''
         (update_rows plans_table (plan_lease_matches p)
            (end_plan_row status attempts code outbox next_at now))) (\<lambda>count.
       guard_io (count \<noteq> 1) (MutationConflict ''notification_channel_plan'' (pl_id p) ConflictLeaseLost)
         (ret ()))))"

definition cancel_plan :: "plan \<Rightarrow> string \<Rightarrow> string \<Rightarrow> unit sql" where
  "cancel_plan p reason now = transition_plan p ''cancelled'' 0 reason [] [] now"

definition complete_plan :: "plan \<Rightarrow> string \<Rightarrow> string \<Rightarrow> unit sql" where
  "complete_plan p outbox now = transition_plan p ''planned'' 0 [] outbox [] now"

definition retry_plan :: "plan \<Rightarrow> string \<Rightarrow> string \<Rightarrow> string \<Rightarrow> unit sql" where
  "retry_plan p code next_at now = transition_plan p ''queued'' 1 code [] next_at now"

definition fail_plan :: "plan \<Rightarrow> string \<Rightarrow> string \<Rightarrow> unit sql" where
  "fail_plan p code now = transition_plan p ''failed'' 1 code [] [] now"

definition complete_batch_body :: "plan list \<Rightarrow> string \<Rightarrow> string \<Rightarrow> (bool \<times> unit) sql" where
  "complete_batch_body ps outbox now =
     bind_io (for_each (\<lambda>p. transition_plan p ''planned'' 0 [] outbox [] now) ps) (\<lambda>_. commit_with ())"

definition complete_plan_batch :: "plan list \<Rightarrow> string \<Rightarrow> string \<Rightarrow> unit sql" where
  "complete_plan_batch ps outbox now =
     (case ps of [] \<Rightarrow> ret ()
      | p # _ \<Rightarrow>
         guard_io (list_ex (\<lambda>q. pl_workspace p = [] \<or> pl_workspace q \<noteq> pl_workspace p) ps)
           (ErrorText ''notification channel plan batch must belong to one workspace'')
           (transaction (complete_batch_body ps outbox now)))"

section \<open>The lease of a plan\<close>

definition plan_key :: "plan_row \<Rightarrow> workspace_id \<times> string" where
  "plan_key r = (qr_workspace r, qr_id r)"

definition plan_held :: "plan_row \<Rightarrow> bool" where
  "plan_held r \<longleftrightarrow> qr_status r = ''processing''"

interpretation plan_lease: lease_row plan_key plan_held qr_owner qr_token claim_plan_row
  by unfold_locales (simp_all add: plan_key_def plan_held_def claim_plan_row_def)

lemma plan_lease_holds:
  "plan_lease_matches p = plan_lease.holds (pl_workspace p, pl_id p) (pl_owner p) (pl_token p)"
  by (rule ext) (auto simp: plan_lease_matches_def plan_lease.holds_def plan_key_def plan_held_def)

lemma unique_plan_keys:
  assumes "schema_ok d" shows "plan_lease.unique_keys (db_plans d)"
  unfolding plan_lease.unique_keys_def
  by (rule no_clash_distinct [OF schema_ok_parts(3) [OF assms]]) (simp add: plan_key_def plan_clash_def)

section \<open>Effects\<close>

lemma transition_plan_schema [preserves_intros]:
  "preserves schema_ok (transition_plan p st n c ob nx now)"
  unfolding transition_plan_def Let_def
  by (intro preserves_intros schema_updates) (simp add: end_plan_row_def)

lemma claim_plan_schema [preserves_intros]: "preserves schema_ok (claim_plan ws i ow now x)"
  unfolding claim_plan_def plan_by_id_def Let_def
  by (intro preserves_intros schema_updates) (simp add: claim_plan_row_def)

lemma complete_plan_batch_schema [preserves_intros]: "preserves schema_ok (complete_plan_batch ps ob now)"
  unfolding complete_plan_batch_def complete_batch_body_def
  by (cases ps) (auto intro!: preserves_intros)

lemma plan_row_unique:
  assumes "schema_ok d" "r \<in> set (db_plans d)" "s \<in> set (db_plans d)" "plan_key r = plan_key s"
  shows "r = s"
  using unique_plan_keys [OF assms(1)] assms(2-4)
  by (auto simp: plan_lease.unique_keys_def distinct_map dest: inj_onD)

definition plan_ended :: "plan \<Rightarrow> string \<Rightarrow> int \<Rightarrow> string \<Rightarrow> string \<Rightarrow> string \<Rightarrow> string \<Rightarrow> database \<Rightarrow> database" where
  "plan_ended p status attempts code outbox next_at now d = d\<lparr>db_plans :=
     update_where (plan_lease_matches p) (end_plan_row status attempts (trim_space code) (trim_space outbox)
       (trim_space next_at) (trim_space now)) (db_plans d)\<rparr>"

lemma plan_ended_id:
  "filter (plan_lease_matches p) (db_plans d) = [] \<Longrightarrow> plan_ended p st n c ob nx now d = d"
  by (simp add: plan_ended_def update_where_def map_idI filter_empty_conv)

lemma plan_match_count:
  assumes "schema_ok d" shows "length (filter (plan_lease_matches p) (db_plans d)) \<le> 1"
  by (rule no_clash_count [OF schema_ok_parts(3) [OF assms]])
    (auto simp: plan_lease_matches_def plan_clash_def)

lemma transition_plan_cases:
  assumes "schema_ok (db w)" "transition_plan p status n code outbox next_at now w = (r, w')"
  shows "(\<exists>err. r = Inl err) \<and> db w' = db w \<or>
    (r = Inr () \<or> r = Inl (Wrapped ''transition notification channel plan'' DriverError)) \<and>
    db w' = plan_ended p status n code outbox next_at now (db w) \<and>
    length (filter (plan_lease_matches p) (db_plans (db w))) = 1"
proof -
  let ?M = "filter (plan_lease_matches p) (db_plans (db w))"
  let ?upd = "update_rows plans_table (plan_lease_matches p)
     (end_plan_row status n (trim_space code) (trim_space outbox) (trim_space next_at) (trim_space now))"
  consider "length ?M = 1" | "?M = []"
    using plan_match_count [OF assms(1), of p] by (cases ?M) auto
  then show ?thesis
  proof cases
    case 1
    then show ?thesis
      using assms(2)
      by (auto simp: transition_plan_def Let_def guard_io_def bind_io_def wrapping_def plan_ended_def update_rows_def
          split: prod.splits sum.splits if_splits elim!: exec_cases dest!: exec_Inr)
  next
    case 2
    have eq: "update_where (plan_lease_matches p) f (db_plans (db w)) = db_plans (db w)" for f
      using 2 by (simp add: update_where_def map_idI filter_empty_conv)
    have "r \<noteq> Inr ()"
    proof
      assume "r = Inr ()"
      with assms(2) have "?upd w = (Inr 1, w')"
        by (auto simp: transition_plan_def Let_def guard_io_Inr bind_io_Inr wrapping_Inr)
      with 2 show False by (auto dest!: update_rows_Inr)
    qed
    moreover from assms(2) have "db w' = db w"
      by (auto simp: transition_plan_def Let_def guard_io_def bind_io_def wrapping_def eq
          split: prod.splits sum.splits if_splits dest!: update_rows_db)
    ultimately show ?thesis by (cases r) auto
  qed
qed

lemma transition_plan_Inr:
  assumes "schema_ok (db w)" "transition_plan p status n code outbox next_at now w = (Inr u, w')"
  shows "db w' = plan_ended p status n code outbox next_at now (db w)"
    "length (filter (plan_lease_matches p) (db_plans (db w))) = 1"
  using transition_plan_cases [OF assms] by auto

end
