(* ===== verification/Plan_Queue.thy ===== *)
theory Plan_Queue
  imports Plan_Store
begin

text \<open>
  Correctness of the channel plan store: a plan's claim is settled at most once along any
  history, a digest batch completes all of its plans or none, a plan that has ended is never
  touched again, and the check for a settled action means what it says.
\<close>

section \<open>Histories\<close>

datatype plan_op = PlanClaim workspace_id string string string string
  | PlanCancel plan string string
  | PlanComplete plan string string
  | PlanRetry plan string string string
  | PlanFail plan string string
  | PlanBatch "plan list" string string

definition plan_lease_of :: "plan \<Rightarrow> (workspace_id \<times> string) \<times> int" where
  "plan_lease_of p = ((pl_workspace p, pl_id p), pl_token p)"

definition ended_when :: "plan list \<Rightarrow> (err + unit) \<times> world \<Rightarrow> ((workspace_id \<times> string) \<times> int) list \<times> world" where
  "ended_when ps rw = (case rw of (Inr _, w) \<Rightarrow> (map plan_lease_of ps, w) | (Inl _, w) \<Rightarrow> ([], w))"

fun run_plan_op :: "plan_op \<Rightarrow> world \<Rightarrow> ((workspace_id \<times> string) \<times> int) list \<times> world" where
  "run_plan_op (PlanClaim ws i ow now x) w = ([], snd (claim_plan ws i ow now x w))"
| "run_plan_op (PlanCancel p reason now) w = ended_when [p] (cancel_plan p reason now w)"
| "run_plan_op (PlanComplete p outbox now) w = ended_when [p] (complete_plan p outbox now w)"
| "run_plan_op (PlanRetry p code nx now) w = ended_when [p] (retry_plan p code nx now w)"
| "run_plan_op (PlanFail p code now) w = ended_when [p] (fail_plan p code now w)"
| "run_plan_op (PlanBatch ps outbox now) w = ended_when ps (complete_plan_batch ps outbox now w)"

fun ended_leases :: "plan_op list \<Rightarrow> world \<Rightarrow> ((workspace_id \<times> string) \<times> int) list" where
  "ended_leases [] w = []"
| "ended_leases (x # xs) w = (case run_plan_op x w of (ls, w') \<Rightarrow> ls @ ended_leases xs w')"

definition ended_label :: "plan \<Rightarrow> (workspace_id \<times> string) lease_label" where
  "ended_label p = Settled (pl_workspace p, pl_id p) (pl_token p)"

lemma plan_silent: "plan_lease.lease_step rs Silent rs"
  by (rule plan_lease.lease_step.other) simp_all

lemma plan_end_step:
  assumes "length (filter (plan_lease_matches p) rs) = 1" "st \<noteq> ''processing''"
  shows "plan_lease.lease_step rs (ended_label p) (update_where (plan_lease_matches p) (end_plan_row st n c ob nx now) rs)"
proof -
  from assms(1) obtain r where "r \<in> set rs" "plan_lease_matches p r"
    by (metis filter_empty_conv list.size(3) zero_neq_one)
  then show ?thesis
    unfolding update_where_def plan_lease_holds ended_label_def
    by (intro plan_lease.lease_step.settle)
      (auto simp: plan_lease_holds plan_held_def plan_key_def end_plan_row_def assms)
qed

lemma transition_plan_step:
  assumes "schema_ok (db w)" "transition_plan p st n c ob nx now w = (r, w')" "st \<noteq> ''processing''"
  shows "\<exists>l. plan_lease.lease_step (db_plans (db w)) l (db_plans (db w')) \<and> (r = Inr () \<longrightarrow> l = ended_label p)"
  using transition_plan_cases [OF assms(1,2)]
proof
  assume "(\<exists>err. r = Inl err) \<and> db w' = db w"
  then show ?thesis using plan_silent by auto
next
  assume "(r = Inr () \<or> r = Inl (Wrapped ''transition notification channel plan'' DriverError)) \<and>
    db w' = plan_ended p st n c ob nx now (db w) \<and>
    length (filter (plan_lease_matches p) (db_plans (db w))) = 1"
  then show ?thesis
    using plan_end_step [of p "db_plans (db w)" st, OF _ assms(3)]
    by (intro exI [of _ "ended_label p"]) (simp add: plan_ended_def)
qed

lemma claim_plan_step:
  assumes "schema_ok (db w)" "claim_plan ws i ow now x w = (r, w')"
  shows "\<exists>l. plan_lease.lease_step (db_plans (db w)) l (db_plans (db w'))"
proof -
  let ?P = "\<lambda>r. qr_workspace r = ws \<and> qr_id r = trim_space i \<and> plan_due (trim_space now) r"
  let ?f = "claim_plan_row (trim_space ow) (trim_space now) (trim_space x)"
  let ?rs = "db_plans (db w)"
  have "db w' = db w \<or> db w' = (db w)\<lparr>db_plans := update_where ?P ?f ?rs\<rparr>"
    using assms(2)
    by (auto simp: claim_plan_def Let_def guard_io_def bind_io_def wrapping_def plan_by_id_def
      split: prod.splits sum.splits if_splits dest!: update_rows_db statement_db)
  then consider "db_plans (db w') = ?rs" | "db_plans (db w') = update_where ?P ?f ?rs" "list_ex ?P ?rs"
    by (cases "list_ex ?P ?rs") (auto simp: update_where_none)
  then show ?thesis
  proof cases
    case 1
    then show ?thesis using plan_silent by auto
  next
    case 2
    then obtain r where r: "r \<in> set ?rs" "?P r" by (auto simp: list_ex_iff)
    have "?P y \<longleftrightarrow> plan_key y = (ws, trim_space i)" if "y \<in> set ?rs" for y
    proof
      assume "plan_key y = (ws, trim_space i)"
      then have "plan_key r = plan_key y" using r(2) by (simp add: plan_key_def)
      with plan_row_unique [OF assms(1) r(1) that] have "r = y" .
      with r(2) show "?P y" by simp
    qed (simp add: plan_key_def)
    then have "update_where ?P ?f ?rs = map (\<lambda>y. if plan_key y = (ws, trim_space i) then ?f y else y) ?rs"
      unfolding update_where_def by (intro map_cong) auto
    with 2 plan_lease.lease_step.claim [of r "(ws, trim_space i)" ?rs] r show ?thesis
      by (auto simp: plan_key_def)
  qed
qed

lemma batch_loop_history:
  assumes "for_each (\<lambda>p. transition_plan p ''planned'' 0 [] ob [] now) ps w = (Inr u, w')"
    "schema_ok (db w)" "plan_lease.history rs ls (db_plans (db w))"
  shows "plan_lease.history rs (ls @ map ended_label ps) (db_plans (db w'))"
  using assms
proof (induction ps arbitrary: w ls)
  case (Cons p ps)
  then obtain w1 where w1: "transition_plan p ''planned'' 0 [] ob [] now w = (Inr (), w1)"
      "for_each (\<lambda>p. transition_plan p ''planned'' 0 [] ob [] now) ps w1 = (Inr u, w')"
    by (auto simp: bind_io_Inr)
  from transition_plan_step [OF Cons.prems(2) w1(1)]
  have "plan_lease.lease_step (db_plans (db w)) (ended_label p) (db_plans (db w1))" by simp
  then have "plan_lease.history rs (ls @ [ended_label p]) (db_plans (db w1))"
    by (rule plan_lease.history.step [OF Cons.prems(3)])
  from Cons.IH [OF w1(2) preservesD [OF transition_plan_schema Cons.prems(2) w1(1)] this] show ?case by simp
qed simp

lemma complete_batch_cases:
  assumes "schema_ok (db w)" "complete_plan_batch ps ob now w = (r, w')"
  shows "db w' = db w \<and> (r = Inr () \<longrightarrow> ps = []) \<or>
    (r = Inr () \<or> r = Inl DriverError) \<and>
    (\<exists>w1 w2. db w1 = db w \<and> db w2 = db w' \<and>
      for_each (\<lambda>p. transition_plan p ''planned'' 0 [] ob [] now) ps w1 = (Inr (), w2))"
proof (cases ps)
  case Nil
  with assms(2) show ?thesis by (auto simp: complete_plan_batch_def)
next
  case (Cons p qs)
  show ?thesis
  proof (cases "list_ex (\<lambda>q. pl_workspace p = [] \<or> pl_workspace q \<noteq> pl_workspace p) ps")
    case True
    with assms(2) Cons show ?thesis by (auto simp: complete_plan_batch_def guard_io_def)
  next
    case False
    with assms(2) Cons have t: "transaction (complete_batch_body ps ob now) w = (r, w')"
      by (simp add: complete_plan_batch_def guard_io_def list_ex_iff split: if_splits)
    have body: "c \<and> for_each (\<lambda>p. transition_plan p ''planned'' 0 [] ob [] now) ps w1 = (Inr (), w2)"
      if "complete_batch_body ps ob now w1 = (Inr (c, u), w2)" for c u w1 w2
      using that by (auto simp: complete_batch_body_def bind_io_Inr)
    show ?thesis
    proof (cases r)
      case (Inl err)
      with t have "transaction (complete_batch_body ps ob now) w = (Inl err, w')" by simp
      then show ?thesis
      proof (rule transaction_Inl)
        fix a w1 w2
        assume "err = DriverError" "db w1 = db w" "complete_batch_body ps ob now w1 = (Inr (True, a), w2)" "db w' = db w2"
        with body [of w1 True a w2] Inl show ?thesis by auto
      qed (use Inl in simp)
    next
      case (Inr u)
      with t have "transaction (complete_batch_body ps ob now) w = (Inr u, w')" by simp
      then obtain c w1 w2 where "db w1 = db w" "complete_batch_body ps ob now w1 = (Inr (c, u), w2)"
          "db w' = (if c then db w2 else db w)" by (rule transaction_Inr)
      with body [of w1 c u w2] Inr show ?thesis by auto
    qed
  qed
qed

lemma plan_op_history:
  assumes "schema_ok (db w)" "run_plan_op x w = (s, w')" "plan_lease.history rs ls (db_plans (db w))"
  shows "schema_ok (db w') \<and> (\<exists>ls'. plan_lease.history rs (ls @ ls') (db_plans (db w')) \<and>
    (\<forall>k t. count_list s (k, t) \<le> count_list ls' (Settled k t)))"
proof -
  have one: "?thesis"
    if e: "ended_when [p] (transition_plan p st n c ob nx now w) = (s, w')" "st \<noteq> ''processing''"
    for p st n c ob nx now
  proof -
    obtain r where that: "transition_plan p st n c ob nx now w = (r, w')"
        "s = (if r = Inr () then [plan_lease_of p] else [])"
      using e(1) by (cases "transition_plan p st n c ob nx now w") (auto simp: ended_when_def split: sum.splits)
    from transition_plan_step [OF assms(1) that(1) e(2)] obtain l where
      l: "plan_lease.lease_step (db_plans (db w)) l (db_plans (db w'))" "r = Inr () \<longrightarrow> l = ended_label p" by blast
    have "plan_lease.history rs (ls @ [l]) (db_plans (db w'))"
      by (rule plan_lease.history.step [OF assms(3) l(1)])
    with l(2) that(2) preservesD [OF transition_plan_schema assms(1) that(1)] show ?thesis
      by (auto simp: plan_lease_of_def ended_label_def intro!: exI [of _ "[l]"])
  qed
  show ?thesis
  proof (cases x)
    case (PlanClaim ws i ow now ex)
    then obtain r where c: "claim_plan ws i ow now ex w = (r, w')" "s = []"
      using assms(2) by (cases "claim_plan ws i ow now ex w") auto
    from claim_plan_step [OF assms(1) c(1)] obtain l where
      "plan_lease.lease_step (db_plans (db w)) l (db_plans (db w'))" by blast
    with assms(3) have "plan_lease.history rs (ls @ [l]) (db_plans (db w'))"
      by (rule plan_lease.history.step)
    with c preservesD [OF claim_plan_schema assms(1) c(1)] show ?thesis by auto
  next
    case (PlanCancel p reason now)
    show ?thesis
      by (rule one [of _ "''cancelled''"]) (use assms(2) PlanCancel in \<open>simp_all add: cancel_plan_def\<close>)
  next
    case (PlanComplete p outbox now)
    show ?thesis
      by (rule one [of _ "''planned''"]) (use assms(2) PlanComplete in \<open>simp_all add: complete_plan_def\<close>)
  next
    case (PlanRetry p code nx now)
    show ?thesis
      by (rule one [of _ "''queued''"]) (use assms(2) PlanRetry in \<open>simp_all add: retry_plan_def\<close>)
  next
    case (PlanFail p code now)
    show ?thesis
      by (rule one [of _ "''failed''"]) (use assms(2) PlanFail in \<open>simp_all add: fail_plan_def\<close>)
  next
    case (PlanBatch ps outbox now)
    then obtain r where b: "complete_plan_batch ps outbox now w = (r, w')"
        "s = (case r of Inr _ \<Rightarrow> map plan_lease_of ps | Inl _ \<Rightarrow> [])"
      using assms(2) by (cases "complete_plan_batch ps outbox now w") (auto simp: ended_when_def split: sum.splits)
    have ok: "schema_ok (db w')" by (rule preservesD [OF complete_plan_batch_schema assms(1) b(1)])
    have count: "count_list (map plan_lease_of ps) (k, t) = count_list (map ended_label ps) (Settled k t)" for k t
      by (induction ps) (auto simp: plan_lease_of_def ended_label_def)
    from complete_batch_cases [OF assms(1) b(1)] show ?thesis
    proof
      assume "db w' = db w \<and> (r = Inr () \<longrightarrow> ps = [])"
      with b(2) assms(3) ok show ?thesis
        by (auto split: sum.splits intro!: exI [of _ "[]"])
    next
      assume "(r = Inr () \<or> r = Inl DriverError) \<and>
        (\<exists>w1 w2. db w1 = db w \<and> db w2 = db w' \<and>
        for_each (\<lambda>p. transition_plan p ''planned'' 0 [] outbox [] now) ps w1 = (Inr (), w2))"
      then obtain w1 w2 where h: "db w1 = db w" "db w2 = db w'"
        "for_each (\<lambda>p. transition_plan p ''planned'' 0 [] outbox [] now) ps w1 = (Inr (), w2)" by blast
      with batch_loop_history [OF h(3)] assms(1,3)
      have "plan_lease.history rs (ls @ map ended_label ps) (db_plans (db w'))" by simp
      with ok b(2) count show ?thesis
        by (auto split: sum.splits intro!: exI [of _ "map ended_label ps"])
    qed
  qed
qed

lemma ended_leases_history:
  assumes "schema_ok (db w)" "plan_lease.history rs ls (db_plans (db w))"
  shows "\<exists>ls' rs'. plan_lease.history rs (ls @ ls') rs' \<and>
    (\<forall>k t. count_list (ended_leases xs w) (k, t) \<le> count_list ls' (Settled k t))"
  using assms
proof (induction xs arbitrary: w ls)
  case Nil
  then have "plan_lease.history rs (ls @ []) (db_plans (db w))" by simp
  then show ?case by (metis order_refl ended_leases.simps(1) count_list.simps(1))
next
  case (Cons x xs)
  obtain s w1 where r: "run_plan_op x w = (s, w1)" by fastforce
  from plan_op_history [OF Cons.prems(1) r Cons.prems(2)] obtain ls1 where ok: "schema_ok (db w1)"
    and h1: "plan_lease.history rs (ls @ ls1) (db_plans (db w1))"
    and c1: "\<And>k t. count_list s (k, t) \<le> count_list ls1 (Settled k t)" by blast
  from Cons.IH [OF ok h1] obtain ls' rs' where h: "plan_lease.history rs ((ls @ ls1) @ ls') rs'"
    and c: "\<And>k t. count_list (ended_leases xs w1) (k, t) \<le> count_list ls' (Settled k t)" by auto
  have "count_list (ended_leases (x # xs) w) (k, t) \<le> count_list (ls1 @ ls') (Settled k t)" for k t
    using c [of k t] c1 [of k t] r by (simp add: add_mono)
  with h show ?case by (auto intro!: exI [of _ "ls1 @ ls'"] exI [of _ rs'])
qed

section \<open>Batches and ended plans\<close>

lemma update_where_keeps: "r \<in> set rs \<Longrightarrow> \<not> P r \<Longrightarrow> r \<in> set (update_where P f rs)"
  by (auto simp: in_update_where intro: bexI [of _ r])

lemma transition_plan_keeps:
  assumes "qr_status r \<noteq> ''processing''"
  shows "preserves (\<lambda>d. r \<in> set (db_plans d)) (transition_plan p st n c ob nx now)"
  unfolding transition_plan_def Let_def
  by (intro preserves_intros preserves_update)
    (use assms in \<open>simp add: update_where_keeps plan_lease_matches_def\<close>)

lemma claim_plan_keeps:
  assumes "qr_status r \<noteq> ''processing''" "qr_status r \<noteq> ''queued''"
  shows "preserves (\<lambda>d. r \<in> set (db_plans d)) (claim_plan ws i ow now x)"
  unfolding claim_plan_def plan_by_id_def Let_def
  by (intro preserves_intros preserves_update)
    (use assms in \<open>auto simp: plan_due_def dest: due_at_cases intro!: update_where_keeps\<close>)

lemma complete_plan_batch_keeps:
  assumes "qr_status r \<noteq> ''processing''"
  shows "preserves (\<lambda>d. r \<in> set (db_plans d)) (complete_plan_batch ps ob now)"
  unfolding complete_plan_batch_def complete_batch_body_def
  by (cases ps) (auto intro!: preserves_intros transition_plan_keeps assms)

lemma ended_when_db: "db (snd (ended_when ps rw)) = db (snd rw)"
  by (auto simp: ended_when_def split: prod.splits sum.splits)

lemma preserves_snd: "preserves P m \<Longrightarrow> P (db w) \<Longrightarrow> P (db (snd (m w)))"
  by (metis preservesD prod.collapse)

lemma run_plan_op_keeps:
  assumes "qr_status r \<noteq> ''processing''" "qr_status r \<noteq> ''queued''" "r \<in> set (db_plans (db w))"
  shows "r \<in> set (db_plans (db (snd (run_plan_op x w))))"
proof (cases x)
  case (PlanClaim ws i ow now ex)
  with preserves_snd [OF claim_plan_keeps [OF assms(1,2)] assms(3)] show ?thesis by simp
next
  case (PlanBatch ps ob now)
  with preserves_snd [OF complete_plan_batch_keeps [OF assms(1)] assms(3)] show ?thesis
    by (simp add: ended_when_db)
qed (use preserves_snd [OF transition_plan_keeps [OF assms(1)] assms(3)] in
      \<open>simp_all add: ended_when_db cancel_plan_def complete_plan_def retry_plan_def fail_plan_def\<close>)

definition batch_planned :: "plan list \<Rightarrow> string \<Rightarrow> string \<Rightarrow> database \<Rightarrow> database" where
  "batch_planned ps ob now = fold (\<lambda>p. plan_ended p ''planned'' 0 [] ob [] now) ps"

definition planned_in :: "string \<Rightarrow> plan \<Rightarrow> database \<Rightarrow> bool" where
  "planned_in ob p d \<longleftrightarrow> (\<exists>x \<in> set (db_plans d). plan_key x = (pl_workspace p, pl_id p) \<and>
     qr_status x = ''planned'' \<and> qr_outbox x = trim_space ob \<and> qr_owner x = [])"

lemma planned_after:
  assumes "length (filter (plan_lease_matches p) (db_plans d)) = 1"
  shows "planned_in ob p (plan_ended p ''planned'' 0 [] ob [] now d)"
proof -
  from assms obtain r where r: "r \<in> set (db_plans d)" "plan_lease_matches p r"
    by (metis filter_empty_conv list.size(3) zero_neq_one)
  then show ?thesis
    unfolding planned_in_def plan_ended_def
    by (intro bexI [of _ "end_plan_row ''planned'' 0 [] (trim_space ob) [] (trim_space now) r"])
      (auto simp: in_update_where end_plan_row_def plan_key_def plan_lease_matches_def intro!: bexI [of _ r])
qed

lemma planned_stays: "planned_in ob p d \<Longrightarrow> planned_in ob p (plan_ended q ''planned'' 0 [] ob [] now d)"
  unfolding planned_in_def plan_ended_def
  by (auto simp: plan_lease_matches_def intro!: bexI update_where_keeps)

lemma batch_loop_Inr:
  assumes "for_each (\<lambda>p. transition_plan p ''planned'' 0 [] ob [] now) ps w = (Inr u, w')" "schema_ok (db w)"
    "\<And>q. q \<in> set qs \<Longrightarrow> planned_in ob q (db w)"
  shows "db w' = batch_planned ps ob now (db w) \<and> (\<forall>p \<in> set qs \<union> set ps. planned_in ob p (db w'))"
  using assms
proof (induction ps arbitrary: w qs)
  case Nil
  then show ?case by (auto simp: batch_planned_def)
next
  case (Cons p ps)
  then obtain w1 where w1: "transition_plan p ''planned'' 0 [] ob [] now w = (Inr (), w1)"
      "for_each (\<lambda>p. transition_plan p ''planned'' 0 [] ob [] now) ps w1 = (Inr u, w')"
    by (auto simp: bind_io_Inr)
  note d1 = transition_plan_Inr [OF Cons.prems(2) w1(1)]
  have pl: "planned_in ob q (db w1)" if "q \<in> set (p # qs)" for q
    using that Cons.prems(3) d1 by (auto intro: planned_after planned_stays)
  from Cons.IH [OF w1(2) preservesD [OF transition_plan_schema Cons.prems(2) w1(1)], of "p # qs"] pl d1(1)
  show ?case by (auto simp: batch_planned_def)
qed

lemma complete_batch_effect:
  assumes "schema_ok (db w)" "complete_plan_batch ps outbox now w = (r, w')"
  shows "db w' = db w \<and> (r = Inr () \<longrightarrow> ps = []) \<or>
    (r = Inr () \<or> r = Inl DriverError) \<and> db w' = batch_planned ps outbox now (db w) \<and>
    (\<forall>p \<in> set ps. planned_in outbox p (db w'))"
  using complete_batch_cases [OF assms]
proof
  assume "(r = Inr () \<or> r = Inl DriverError) \<and>
    (\<exists>w1 w2. db w1 = db w \<and> db w2 = db w' \<and>
      for_each (\<lambda>p. transition_plan p ''planned'' 0 [] outbox [] now) ps w1 = (Inr (), w2))"
  then obtain w1 w2 where "r = Inr () \<or> r = Inl DriverError" "db w1 = db w" "db w2 = db w'"
      "for_each (\<lambda>p. transition_plan p ''planned'' 0 [] outbox [] now) ps w1 = (Inr (), w2)" by blast
  with batch_loop_Inr [of outbox now ps w1 "()" w2 "[]"] assms(1) show ?thesis by auto
qed blast

section \<open>Properties\<close>

text \<open>C4: along any sequence of plan store operations, with any driver faults, each lease of a
  channel plan is settled successfully at most once, also when plans are completed in digest
  batches that overlap or repeat a plan.\<close>

theorem plan_settled_at_most_once:
  assumes "schema_ok (db w)" and "\<forall>r \<in> set (db_plans (db w)). qr_status r \<noteq> ''processing''"
  shows "distinct (ended_leases ops w)"
proof (rule distinct_count)
  fix x :: "(workspace_id \<times> string) \<times> int"
  obtain k t where x: "x = (k, t)" by fastforce
  from ended_leases_history [OF assms(1) plan_lease.history.start, of ops]
  obtain ls' rs' where h: "plan_lease.history (db_plans (db w)) ls' rs'"
    and c: "count_list (ended_leases ops w) (k, t) \<le> count_list ls' (Settled k t)"
    by (metis append_Nil)
  have "count_list ls' (Settled k t) \<le> 1"
    by (rule plan_lease.settle_once [OF h unique_plan_keys [OF assms(1)]])
      (use assms(2) in \<open>simp add: plan_held_def\<close>)
  with c x show "count_list (ended_leases ops w) x \<le> 1" by simp
qed

definition plans_database :: database where
  "plans_database = empty_database\<lparr>db_plans := [plan_row_of sample_plan]\<rparr>"

lemma plans_database_ok [simp]: "schema_ok plans_database"
  by (simp add: plans_database_def empty_database_def schema_ok_def no_clash_def)

definition sample_claimed_plan :: plan where
  "sample_claimed_plan = sample_plan\<lparr>pl_status := ''processing'', pl_owner := ''w1'', pl_token := 1\<rparr>"

theorem plan_settled_at_most_once_witness:
  "distinct (ended_leases [PlanClaim ''ws'' ''p1'' ''w1'' ''2026-01-01'' ''2026-01-02'',
     PlanBatch [sample_claimed_plan, sample_claimed_plan] ''m1'' ''2026-01-01'',
     PlanComplete sample_claimed_plan ''m1'' ''2026-01-01''] (calm_world plans_database))"
  by (rule plan_settled_at_most_once)
    (simp_all add: plans_database_def empty_database_def schema_ok_def no_clash_def plan_row_of_def sample_plan_def)

text \<open>C5: completing a digest batch is all or nothing: on an error the database is untouched
  (or, when the reply of the commit was lost, complete); otherwise every plan of the batch is
  planned with the message of the digest and the effect is exactly that of ending each plan.\<close>

theorem digest_batch_atomic:
  assumes "schema_ok (db w)" "complete_plan_batch ps outbox now w = (r, w')"
  shows "db w' = db w \<and> (r = Inr () \<longrightarrow> ps = []) \<or>
    (r = Inr () \<or> r = Inl DriverError) \<and> db w' = batch_planned ps outbox now (db w) \<and>
    (\<forall>p \<in> set ps. planned_in outbox p (db w'))"
  by (rule complete_batch_effect [OF assms])

lemma plan_words: "trim_space ''m1'' = ''m1''" "trim_space ''p1'' = ''p1''"
  by (simp_all add: trim_space_plain plain_char_def)

theorem digest_batch_atomic_witness:
  "planned_in ''m1'' sample_claimed_plan (db (snd (complete_plan_batch [sample_claimed_plan] ''m1'' ''2026-01-01''
     (calm_world (empty_database\<lparr>db_plans := [plan_row_of sample_claimed_plan]\<rparr>)))))"
proof -
  let ?d = "empty_database\<lparr>db_plans := [plan_row_of sample_claimed_plan]\<rparr>"
  let ?m = "complete_plan_batch [sample_claimed_plan] ''m1'' ''2026-01-01'' (calm_world ?d)"
  have ok: "schema_ok (db (calm_world ?d))"
    by (simp add: schema_ok_def empty_database_def no_clash_def)
  have run: "fst ?m = Inr ()"
    by (simp add: complete_plan_batch_def complete_batch_body_def transition_plan_def Let_def statement_runs
        calm_world_def plan_lease_matches_def plan_row_of_def sample_claimed_plan_def sample_plan_def)
  obtain r w' where m: "?m = (r, w')" by fastforce
  from digest_batch_atomic [OF ok m] run m show ?thesis by auto
qed

text \<open>a plan that has ended (planned, failed or cancelled) is final: no operation of the store
  changes its row again.\<close>

theorem ended_plan_final:
  assumes "r \<in> set (db_plans (db w))" "qr_status r \<in> {''planned'', ''failed'', ''cancelled''}"
  shows "r \<in> set (db_plans (db (snd (run_plan_op x w))))"
  by (rule run_plan_op_keeps) (use assms in auto)

theorem ended_plan_final_witness:
  "(plan_row_of sample_plan)\<lparr>qr_status := ''planned''\<rparr> \<in> set (db_plans (db (snd (run_plan_op
     (PlanClaim ''ws'' ''p1'' ''w1'' ''2026-01-01'' ''2026-01-02'')
     (calm_world (empty_database\<lparr>db_plans := [(plan_row_of sample_plan)\<lparr>qr_status := ''planned''\<rparr>]\<rparr>))))))"
  by (rule ended_plan_final) simp_all

text \<open>The action behind a plan counts as settled exactly when its event has inbox items in the
  plan's workspace and none of them still has an open action or a firing alert.\<close>

theorem action_terminal_iff:
  assumes "is_action_terminal p w = (Inr b, w')"
  shows "db w' = db w \<and>
    b = ((\<exists>r \<in> set (db_items (db w)). ir_workspace r = pl_workspace p \<and> ir_event r = pl_event p) \<and>
      (\<forall>r \<in> set (db_items (db w)). ir_workspace r = pl_workspace p \<and> ir_event r = pl_event p \<longrightarrow>
        ir_action_state r \<noteq> ''open'' \<and> ir_alert_state r \<noteq> ''firing''))"
proof -
  let ?rs = "filter (\<lambda>r. ir_workspace r = pl_workspace p \<and> ir_event r = pl_event p) (db_items (db w))"
  from assms have b: "db w' = db w \<and> b = (0 < int (length ?rs) \<and> int (length (filter item_active ?rs)) = 0)"
    by (auto simp: is_action_terminal_def bind_io_Inr wrapping_Inr Let_def dest!: query_Inr split: prod.splits)
  have "0 < int (length ?rs) \<longleftrightarrow> (\<exists>r \<in> set (db_items (db w)). ir_workspace r = pl_workspace p \<and> ir_event r = pl_event p)"
    by (auto simp: filter_empty_conv)
  moreover have "int (length (filter item_active ?rs)) = 0 \<longleftrightarrow>
      (\<forall>r \<in> set (db_items (db w)). ir_workspace r = pl_workspace p \<and> ir_event r = pl_event p \<longrightarrow>
        ir_action_state r \<noteq> ''open'' \<and> ir_alert_state r \<noteq> ''firing'')"
    by (auto simp: filter_empty_conv item_active_def)
  ultimately show ?thesis using b by blast
qed

theorem action_terminal_iff_witness:
  "\<exists>w'. is_action_terminal sample_plan (calm_world empty_database) = (Inr False, w')"
proof -
  have r: "is_action_terminal sample_plan (calm_world empty_database) = (Inr False, calm_world empty_database)"
    by (simp add: is_action_terminal_def statement_runs empty_database_def)
  from action_terminal_iff [OF r] r show ?thesis by blast
qed

end
