(* ===== verification/Go_Time.thy ===== *)
theory Go_Time
  imports Go_Strings
begin

text \<open>
  Instants and their textual form. A \<open>time.Time\<close> is modelled by its instant, the number of
  nanoseconds since the Unix epoch (an unbounded \<^typ>\<open>int\<close>; a \<open>time.Duration\<close> is a signed
  64-bit number of nanoseconds and wraps). \<open>notification.Timestamp\<close> formats an instant with
  the fixed-width layout of internal/domain/notification/model/time.go; the SQL columns of the
  module hold these texts and compare them as text. \<open>parse_rfc3339\<close> is \<open>time.Parse\<close> with the
  layout \<open>time.RFC3339Nano\<close>, leniencies of the standard library included. The main results
  are that \<open>timestamp\<close> preserves the order of instants and that parsing inverts it.
\<close>

type_synonym instant = int

section \<open>The calendar\<close>

text \<open>Days are counted from 1 January of year 1 (proleptic Gregorian).\<close>

definition leap :: "int \<Rightarrow> bool" where
  "leap y \<longleftrightarrow> y mod 4 = 0 \<and> (y mod 100 \<noteq> 0 \<or> y mod 400 = 0)"

definition leap_day :: "int \<Rightarrow> int" where
  "leap_day y = (if leap y then 1 else 0)"

definition year_start :: "int \<Rightarrow> int" where
  "year_start y = 365 * (y - 1) + (y - 1) div 4 - (y - 1) div 100 + (y - 1) div 400"

definition year_of :: "int \<Rightarrow> int" where
  "year_of d = (let y = (400 * d) div 146097 + 1 in
     if d < year_start y then y - 1 else if year_start (y + 1) \<le> d then y + 1 else y)"

definition month_of :: "int \<Rightarrow> int \<Rightarrow> int" where
  "month_of l doy =
    (if doy < 31 then 1 else if doy < 59 + l then 2 else if doy < 90 + l then 3
     else if doy < 120 + l then 4 else if doy < 151 + l then 5 else if doy < 181 + l then 6
     else if doy < 212 + l then 7 else if doy < 243 + l then 8 else if doy < 273 + l then 9
     else if doy < 304 + l then 10 else if doy < 334 + l then 11 else 12)"

definition month_start :: "int \<Rightarrow> int \<Rightarrow> int" where
  "month_start l m =
    (if m = 1 then 0 else if m = 2 then 31 else if m = 3 then 59 + l else if m = 4 then 90 + l
     else if m = 5 then 120 + l else if m = 6 then 151 + l else if m = 7 then 181 + l
     else if m = 8 then 212 + l else if m = 9 then 243 + l else if m = 10 then 273 + l
     else if m = 11 then 304 + l else 334 + l)"

definition days_in :: "int \<Rightarrow> int \<Rightarrow> int" where
  "days_in m y = (if m = 12 then 31 else month_start (leap_day y) (m + 1) - month_start (leap_day y) m)"

definition civil :: "int \<Rightarrow> int \<times> int \<times> int" where
  "civil d = (let y = year_of d; doy = d - year_start y; m = month_of (leap_day y) doy
     in (y, m, doy - month_start (leap_day y) m + 1))"

definition day_number :: "int \<Rightarrow> int \<Rightarrow> int \<Rightarrow> int" where
  "day_number y m d = year_start y + month_start (leap_day y) m + d - 1"

lemma leap_day_cases: "leap_day y = 0 \<or> leap_day y = 1"
  by (simp add: leap_day_def)

lemma year_start_Suc: "year_start (y + 1) = year_start y + 365 + leap_day y"
proof -
  have step: "y div k = (y - 1) div k + (if y mod k = 0 then 1 else 0)" if "0 < k" for k :: int
  proof (cases "y mod k = 0")
    case True
    then obtain q where "y = k * q" by (auto simp: mod_eq_0_iff_dvd dvd_def)
    moreover have "(k * q - 1) div k = q - 1"
    proof -
      have "k * q - 1 = (q - 1) * k + (k - 1)" by (simp add: algebra_simps)
      then show ?thesis using that by (metis add.commute add_0 diff_ge_0_iff_ge div_mult_self3
            div_pos_pos_trivial less_irrefl not_less zle_diff1_eq zless_imp_add1_zle)
    qed
    ultimately show ?thesis using True that by simp
  next
    case False
    then have "0 < y mod k" using pos_mod_sign [OF that, of y] by linarith
    have "y - 1 = k * (y div k) + (y mod k - 1)" by simp
    moreover have "0 \<le> y mod k - 1" "y mod k - 1 < k"
      using \<open>0 < y mod k\<close> pos_mod_bound [OF that, of y] by auto
    ultimately have "(y - 1) div k = y div k"
      by (metis (no_types, lifting) div_pos_pos_trivial div_mult_self2 add.commute add_0 that less_irrefl)
    then show ?thesis using False by simp
  qed
  define i4 :: int where "i4 = (if y mod 4 = 0 then 1 else 0)"
  define i100 :: int where "i100 = (if y mod 100 = 0 then 1 else 0)"
  define i400 :: int where "i400 = (if y mod 400 = 0 then 1 else 0)"
  have "y div 4 = (y - 1) div 4 + i4" "y div 100 = (y - 1) div 100 + i100"
    "y div 400 = (y - 1) div 400 + i400"
    unfolding i4_def i100_def i400_def by (rule step; simp)+
  then have start: "year_start (y + 1) = year_start y + 365 + (i4 - i100 + i400)"
    by (simp add: year_start_def)
  have dvd: "y mod 400 = 0 \<Longrightarrow> y mod 100 = 0" "y mod 100 = 0 \<Longrightarrow> y mod 4 = 0"
    by presburger+
  have "i4 - i100 + i400 = leap_day y"
    unfolding i4_def i100_def i400_def leap_day_def leap_def
    by (cases "y mod 4 = 0"; cases "y mod 100 = 0"; cases "y mod 400 = 0") (use dvd in simp_all)
  with start show ?thesis by simp
qed

lemma year_start_bounds:
  "146097 * (y - 1) - 800 < 400 * year_start y \<and> 400 * year_start y < 146097 * (y - 1) + 800"
  unfolding year_start_def by (simp, linarith)

lemma year_of_bracket: "year_start (year_of d) \<le> d \<and> d < year_start (year_of d + 1)"
proof -
  define q where "q = (400 * d) div 146097"
  have q: "146097 * q \<le> 400 * d" "400 * d < 146097 * q + 146097"
    unfolding q_def by linarith+
  have "year_start (q + 0) \<le> d"
    using year_start_bounds [of q] q by simp
  moreover have "d < year_start (q + 3)"
    using year_start_bounds [of "q + 3"] q by simp
  ultimately show ?thesis
    by (auto simp: year_of_def Let_def q_def [symmetric] add.commute)
qed

lemma year_start_mono: "y \<le> z \<Longrightarrow> year_start y \<le> year_start z"
proof (induction z rule: int_ge_induct)
  case base
  then show ?case by simp
next
  case (step z)
  then show ?case using year_start_Suc [of z] leap_day_cases [of z] by auto
qed

lemma year_of_unique:
  assumes "year_start y \<le> d" "d < year_start (y + 1)"
  shows "year_of d = y"
proof (rule ccontr)
  assume "year_of d \<noteq> y"
  then consider "year_of d + 1 \<le> y" | "y + 1 \<le> year_of d" by linarith
  then show False
    using year_start_mono [of "year_of d + 1" y] year_start_mono [of "y + 1" "year_of d"]
      year_of_bracket [of d] assms by cases auto
qed

lemma year_of_mono: "a \<le> b \<Longrightarrow> year_of a \<le> year_of b"
  using year_start_mono [of "year_of b + 1" "year_of a"] year_of_bracket [of a] year_of_bracket [of b]
  by (smt (verit))

lemma month_of_range: "1 \<le> month_of l doy \<and> month_of l doy \<le> 12"
  by (simp add: month_of_def)

lemma month_of_mono:
  assumes "l = 0 \<or> l = 1" "a \<le> b"
  shows "month_of l a \<le> month_of l b"
  using assms unfolding month_of_def by (smt (verit))

lemma month_bracket:
  assumes "l = 0 \<or> l = 1" "0 \<le> doy" "doy < 365 + l"
  shows "month_start l (month_of l doy) \<le> doy"
    and "doy - month_start l (month_of l doy) < 31"
  using assms unfolding month_of_def month_start_def by (smt (verit))+

lemma month_of_start:
  assumes "l = 0 \<or> l = 1" "1 \<le> m" "m \<le> 12" "0 \<le> d"
    and "d < (if m = 12 then 31 else month_start l (m + 1) - month_start l m)"
  shows "month_of l (month_start l m + d) = m"
proof -
  from assms(2,3) have "m = 1 \<or> m = 2 \<or> m = 3 \<or> m = 4 \<or> m = 5 \<or> m = 6 \<or> m = 7 \<or> m = 8 \<or>
      m = 9 \<or> m = 10 \<or> m = 11 \<or> m = 12" by arith
  then show ?thesis using assms(1,4,5)
    by (elim disjE) (simp_all add: month_of_def month_start_def)
qed

section \<open>Fixed-width numbers\<close>

fun digits :: "nat \<Rightarrow> nat \<Rightarrow> string" where
  "digits 0 n = []"
| "digits (Suc w) n = digits w (n div 10) @ [char_of (48 + n mod 10)]"

text \<open>\<open>appendInt(x, width)\<close> of package time: at least \<open>width\<close> digits.\<close>

definition append_int :: "int \<Rightarrow> nat \<Rightarrow> string" where
  "append_int x w =
    (let u = nat \<bar>x\<bar>; ds = (if u < 10 ^ w then digits w u else show_nat u)
     in if x < 0 then ''-'' @ ds else ds)"

lemma length_digits [simp]: "length (digits w n) = w"
  by (induction w n rule: digits.induct) auto

lemma lex_append:
  fixes a b :: "'a::linorder list"
  assumes "length a = length b"
  shows "(a @ x < b @ y) = (a < b \<or> a = b \<and> x < y)"
  using assms by (induction a b rule: list_induct2) auto

lemma digit_char_less:
  "m < 10 \<Longrightarrow> n < 10 \<Longrightarrow> (char_of (48 + m) < (char_of (48 + n) :: char)) = (m < (n::nat))"
  by (simp add: less_char_def)

lemma digit_char_eq:
  "m < 10 \<Longrightarrow> n < 10 \<Longrightarrow> (char_of (48 + m) = (char_of (48 + n) :: char)) = (m = (n::nat))"
  by (metis digit_char_less less_irrefl linorder_neqE_nat)

lemma div_mod_less_lin:
  fixes a b c d :: "'a::linordered_idom"
  assumes "0 \<le> b" "b < k" "0 \<le> d" "d < k" "a + 1 \<le> c \<or> c + 1 \<le> a \<or> a = c"
  shows "(k * a + b < k * c + d) = (a < c \<or> a = c \<and> b < d)"
proof -
  have up: "k * x + k \<le> k * y" if "x + 1 \<le> y" for x y
    using mult_left_mono [OF that, of k] assms(1,2) by (simp add: algebra_simps)
  from assms(5) show ?thesis
    using up [of a c] up [of c a] assms(1-4) by (elim disjE) auto
qed

lemma div_mod_less_int:
  fixes m n k :: int
  assumes "0 < k"
  shows "(m < n) = (m div k < n div k \<or> m div k = n div k \<and> m mod k < n mod k)"
proof -
  have "(k * (m div k) + m mod k < k * (n div k) + n mod k) =
      (m div k < n div k \<or> m div k = n div k \<and> m mod k < n mod k)"
    using assms by (intro div_mod_less_lin) auto
  then show ?thesis by simp
qed

lemma div_mod_less:
  fixes m n :: nat
  shows "(m < n) = (m div 10 < n div 10 \<or> m div 10 = n div 10 \<and> m mod 10 < n mod 10)"
proof -
  have conv: "int i div 10 = int (i div 10)" "int i mod 10 = int (i mod 10)" for i
    by (simp_all add: zdiv_int zmod_int)
  show ?thesis
    using div_mod_less_int [of 10 "int m" "int n"]
    by (simp only: conv of_nat_less_iff of_nat_eq_iff zero_less_numeral simp_thms)
qed

lemma div_mod_eq:
  fixes m n :: nat
  shows "(m = n) = (m div 10 = n div 10 \<and> m mod 10 = n mod 10)"
  using div_mod_less [of m n] div_mod_less [of n m] by (metis nat_neq_iff)

lemma div10_less: "m < 10 ^ Suc w \<Longrightarrow> m div 10 < (10::nat) ^ w"
  by (simp add: less_mult_imp_div_less mult.commute)

lemma digits_inj: "m < 10 ^ w \<Longrightarrow> n < 10 ^ w \<Longrightarrow> (digits w m = digits w n) = (m = n)"
proof (induction w arbitrary: m n)
  case 0
  then show ?case by simp
next
  case (Suc w)
  note IH = Suc.IH [OF Suc.prems [THEN div10_less]]
  have "(digits (Suc w) m = digits (Suc w) n) = (m div 10 = n div 10 \<and> m mod 10 = n mod 10)"
    by (simp only: digits.simps append1_eq_conv IH digit_char_eq mod_less_divisor zero_less_numeral)
  then show ?case using div_mod_eq by blast
qed

lemma digits_less: "m < 10 ^ w \<Longrightarrow> n < 10 ^ w \<Longrightarrow> (digits w m < digits w n) = (m < n)"
proof (induction w arbitrary: m n)
  case 0
  then show ?case by simp
next
  case (Suc w)
  note lt = Suc.prems [THEN div10_less]
  have last: "([char_of (48 + m mod 10)] < [char_of (48 + n mod 10) :: char]) = (m mod 10 < n mod 10)"
    by (simp only: Cons_less_Cons digit_char_less digit_char_eq mod_less_divisor zero_less_numeral)
       simp
  have "(digits (Suc w) m < digits (Suc w) n) =
      (m div 10 < n div 10 \<or> m div 10 = n div 10 \<and> m mod 10 < n mod 10)"
    by (simp only: digits.simps lex_append length_digits Suc.IH [OF lt] digits_inj [OF lt] last)
  then show ?case using div_mod_less by blast
qed

lemma append_int_digits: "0 \<le> x \<Longrightarrow> x < 10 ^ w \<Longrightarrow> append_int x w = digits w (nat x)"
  by (simp add: append_int_def Let_def nat_less_iff)

section \<open>Formatting\<close>

definition second_ns :: int where "second_ns = 1000000000"

definition day_ns :: int where "day_ns = 86400 * 1000000000"

definition unix_epoch_day :: int where "unix_epoch_day = 719162"

definition clock_of :: "instant \<Rightarrow> int \<times> int \<times> int \<times> int" where
  "clock_of t = (let s = (t mod day_ns) div second_ns
     in (s div 3600, (s mod 3600) div 60, s mod 60, t mod second_ns))"

text \<open>\<open>Timestamp(value)\<close>: \<open>value.UTC().Format("2006-01-02T15:04:05.000000000Z")\<close>.\<close>

definition timestamp :: "instant \<Rightarrow> string" where
  "timestamp t =
    (case civil (t div day_ns + unix_epoch_day) of (y, mo, d) \<Rightarrow>
     case clock_of t of (h, mi, s, ns) \<Rightarrow>
       append_int y 4 @ ''-'' @ append_int mo 2 @ ''-'' @ append_int d 2 @ ''T'' @
       append_int h 2 @ '':'' @ append_int mi 2 @ '':'' @ append_int s 2 @ ''.'' @
       append_int ns 9 @ ''Z'')"

text \<open>The instants of the years 0 to 9999, whose timestamps have the fixed width.\<close>

definition in_range :: "instant \<Rightarrow> bool" where
  "in_range t \<longleftrightarrow> (year_start 0 - unix_epoch_day) * day_ns \<le> t \<and>
     t < (year_start 10000 - unix_epoch_day) * day_ns"

definition fields :: "instant \<Rightarrow> (int \<times> int \<times> int) \<times> (int \<times> int \<times> int \<times> int)" where
  "fields t = (civil (t div day_ns + unix_epoch_day), clock_of t)"

lemma civil_ranges:
  assumes "civil d = (y, m, k)"
  shows "1 \<le> m" "m \<le> 12" "1 \<le> k" "k \<le> 31"
proof -
  have y: "y = year_of d" and m: "m = month_of (leap_day y) (d - year_start y)"
    and k: "k = d - year_start y - month_start (leap_day y) m + 1"
    using assms by (auto simp: civil_def Let_def)
  have doy: "0 \<le> d - year_start y" "d - year_start y < 365 + leap_day y"
    using year_of_bracket [of d] year_start_Suc [of y] y by auto
  show "1 \<le> m" "m \<le> 12" using m month_of_range by auto
  show "1 \<le> k" "k \<le> 31"
    using month_bracket [OF leap_day_cases doy] k m by auto
qed

lemma civil_less:
  assumes "a < b" shows "civil a < civil b"
proof -
  obtain y m d where a: "civil a = (y, m, d)" by (cases "civil a") auto
  obtain y' m' d' where b: "civil b = (y', m', d')" by (cases "civil b") auto
  have fa: "y = year_of a" "m = month_of (leap_day y) (a - year_start y)"
      "d = a - year_start y - month_start (leap_day y) m + 1"
    and fb: "y' = year_of b" "m' = month_of (leap_day y') (b - year_start y')"
      "d' = b - year_start y' - month_start (leap_day y') m' + 1"
    using a b by (auto simp: civil_def Let_def)
  have "y \<le> y'" using fa(1) fb(1) assms by (simp add: year_of_mono)
  moreover have "y = y' \<Longrightarrow> m \<le> m'"
    unfolding fa(2) fb(2) using assms by (simp add: month_of_mono leap_day_cases)
  moreover have "y = y' \<Longrightarrow> m = m' \<Longrightarrow> d < d'" using fa(3) fb(3) assms by simp
  ultimately show ?thesis using a b by (auto simp: less_le)
qed

lemma int_div_less:
  assumes "0 < k" "x < n * k" shows "x div k < (n::int)"
proof -
  have "(x div k) * k \<le> x"
    using div_mult_mod_eq [of x k] pos_mod_sign [OF assms(1), of x] by linarith
  with assms(2) have "(x div k) * k < n * k" by linarith
  with assms(1) show ?thesis by (simp add: mult_less_cancel_right)
qed

lemma clock_ranges:
  assumes "clock_of t = (h, mi, s, ns)"
  shows "0 \<le> h" "h < 24" "0 \<le> mi" "mi < 60" "0 \<le> s" "s < 60" "0 \<le> ns" "ns < 1000000000"
proof -
  define x where "x = (t mod day_ns) div second_ns"
  have pos: "0 < second_ns" "0 < day_ns" by (simp_all add: second_ns_def day_ns_def)
  have "t mod day_ns < 86400 * second_ns"
    using pos_mod_bound [OF pos(2), of t] by (simp add: day_ns_def second_ns_def)
  then have x: "0 \<le> x" "x < 86400"
    unfolding x_def using pos by (auto simp: pos_imp_zdiv_nonneg_iff intro: int_div_less)
  have eqs: "h = x div 3600" "mi = (x mod 3600) div 60" "s = x mod 60" "ns = t mod second_ns"
    using assms by (auto simp: clock_of_def Let_def x_def)
  show "0 \<le> h" "h < 24" using x eqs(1) by (auto simp: pos_imp_zdiv_nonneg_iff intro: int_div_less)
  show "0 \<le> mi" "mi < 60"
    unfolding eqs(2) by (auto simp: pos_imp_zdiv_nonneg_iff intro!: int_div_less)
  show "0 \<le> s" "s < 60" unfolding eqs(3) by auto
  show "0 \<le> ns" "ns < 1000000000" unfolding eqs(4) by (auto simp: second_ns_def)
qed

lemma lex_quad:
  fixes a1 a2 a3 a4 b1 b2 b3 b4 :: int
  assumes "a1 < b1 \<or> a1 = b1 \<and> (a2 < b2 \<or> a2 = b2 \<and> (a3 < b3 \<or> a3 = b3 \<and> a4 < b4))"
  shows "(a1, a2, a3, a4) < (b1, b2, b3, b4)"
  using assms by auto

lemma clock_less:
  assumes "a mod day_ns < b mod day_ns" shows "clock_of a < clock_of b"
proof -
  have sub: "t mod second_ns = (t mod day_ns) mod second_ns" for t
    unfolding day_ns_def second_ns_def by (simp add: mod_mod_cancel)
  define p q where "p = a mod day_ns" and "q = b mod day_ns"
  define u v where "u = p div second_ns" and "v = q div second_ns"
  have 1: "u < v \<or> u = v \<and> p mod second_ns < q mod second_ns"
    using assms div_mod_less_int [of second_ns p q] by (simp add: p_def q_def u_def v_def second_ns_def)
  have 2: "u < v \<Longrightarrow> u div 3600 < v div 3600 \<or> u div 3600 = v div 3600 \<and> u mod 3600 < v mod 3600"
    using div_mod_less_int [of 3600 u v] by linarith
  have m60: "x mod 3600 mod 60 = x mod (60::int)" for x by (simp add: mod_mod_cancel)
  have 3: "u mod 3600 < v mod 3600 \<Longrightarrow> (u mod 3600) div 60 < (v mod 3600) div 60 \<or>
      (u mod 3600) div 60 = (v mod 3600) div 60 \<and> u mod 60 < v mod 60"
    using div_mod_less_int [of 60 "u mod 3600" "v mod 3600"] m60 by auto
  have "(u div 3600, (u mod 3600) div 60, u mod 60, p mod second_ns)
      < (v div 3600, (v mod 3600) div 60, v mod 60, q mod second_ns)"
    by (rule lex_quad) (use 1 2 3 in blast)
  then show ?thesis
    unfolding clock_of_def Let_def sub [of a] sub [of b] p_def [symmetric] q_def [symmetric]
      u_def [symmetric] v_def [symmetric] .
qed

lemma fields_less:
  assumes "a < b" shows "fields a < fields b"
proof -
  from assms have "a div day_ns < b div day_ns \<or>
      a div day_ns = b div day_ns \<and> a mod day_ns < b mod day_ns"
    using div_mod_less_int [of day_ns a b] by (simp add: day_ns_def)
  then show ?thesis
    by (auto simp: fields_def intro: civil_less clock_less)
qed

lemma in_range_year:
  assumes "in_range t" "civil (t div day_ns + unix_epoch_day) = (y, m, d)"
  shows "0 \<le> y" "y < 10000"
proof -
  let ?n = "t div day_ns + unix_epoch_day"
  have pos: "0 < day_ns" by (simp add: day_ns_def)
  have "year_start 0 - unix_epoch_day \<le> t div day_ns"
    using assms(1) pos by (metis in_range_def zdiv_mono1 nonzero_mult_div_cancel_right less_irrefl)
  moreover have "t div day_ns < year_start 10000 - unix_epoch_day"
    using assms(1) pos by (simp add: in_range_def int_div_less)
  ultimately have n: "year_start 0 \<le> ?n" "?n < year_start 10000" by auto
  have y: "y = year_of ?n" using assms(2) by (simp add: civil_def Let_def)
  show "0 \<le> y" using n(1) year_of_bracket [of ?n] year_start_mono [of "y + 1" 0] y by (smt (verit))
  show "y < 10000" using n(2) year_of_bracket [of ?n] year_start_mono [of 10000 y] y by (smt (verit))
qed

lemma timestamp_fields:
  assumes "in_range t" "civil (t div day_ns + unix_epoch_day) = (y, mo, d)" "clock_of t = (h, mi, s, ns)"
  shows "timestamp t = digits 4 (nat y) @ ''-'' @ digits 2 (nat mo) @ ''-'' @ digits 2 (nat d) @ ''T'' @
      digits 2 (nat h) @ '':'' @ digits 2 (nat mi) @ '':'' @ digits 2 (nat s) @ ''.'' @ digits 9 (nat ns) @ ''Z''"
  using assms civil_ranges [OF assms(2)] clock_ranges [OF assms(3)] in_range_year [OF assms(1,2)]
  by (simp add: timestamp_def append_int_digits)

lemma timestamp_strict_mono:
  assumes "in_range a" "in_range b" "a < b"
  shows "timestamp a < timestamp b"
proof -
  obtain y mo d where ca: "civil (a div day_ns + unix_epoch_day) = (y, mo, d)" by (metis prod_cases3)
  obtain h mi s ns where ka: "clock_of a = (h, mi, s, ns)" by (metis prod_cases4)
  obtain y' mo' d' where cb: "civil (b div day_ns + unix_epoch_day) = (y', mo', d')" by (metis prod_cases3)
  obtain h' mi' s' ns' where kb: "clock_of b = (h', mi', s', ns')" by (metis prod_cases4)
  note ra = civil_ranges [OF ca] clock_ranges [OF ka] in_range_year [OF assms(1) ca]
  note rb = civil_ranges [OF cb] clock_ranges [OF kb] in_range_year [OF assms(2) cb]
  have lex: "(y, mo, d) < (y', mo', d') \<or> (y, mo, d) = (y', mo', d') \<and> (h, mi, s, ns) < (h', mi', s', ns')"
    using fields_less [OF assms(3)] by (simp add: fields_def ca cb ka kb) auto
  have cmp: "(digits w (nat u) @ x < digits w (nat v) @ z) = (u < v \<or> u = v \<and> x < z)"
    if "0 \<le> u" "u < 10 ^ w" "0 \<le> v" "v < 10 ^ w" for w u v x z
    using that by (simp add: lex_append digits_less digits_inj nat_less_iff nat_eq_iff2) auto
  show ?thesis
    unfolding timestamp_fields [OF assms(1) ca ka] timestamp_fields [OF assms(2) cb kb]
    using ra rb lex by (simp add: cmp) auto
qed

lemma digits_plain: "c \<in> set (digits w n) \<Longrightarrow> plain_char c"
proof (induction w arbitrary: n)
  case (Suc w)
  have "of_char (char_of (48 + n mod 10) :: char) = 48 + n mod 10" by simp
  with Suc show ?case by (auto simp: plain_char_def)
qed simp

text \<open>A timestamp has no white space around it, so the trimming the stores do leaves it alone.\<close>

lemma trim_timestamp:
  assumes r: "in_range t" shows "trim_space (timestamp t) = timestamp t"
proof -
  obtain y mo d where ca: "civil (t div day_ns + unix_epoch_day) = (y, mo, d)" by (metis prod_cases3)
  obtain h mi s ns where ka: "clock_of t = (h, mi, s, ns)" by (metis prod_cases4)
  have ne: "digits 4 n \<noteq> []" for n using length_digits [of 4 n] by (metis list.size(3) zero_neq_numeral)
  then have "plain_char (hd (digits 4 n @ x))" for n x
    using digits_plain [of "hd (digits 4 n)" 4 n] by simp
  then show ?thesis
    unfolding timestamp_fields [OF r ca ka] by (intro trim_space_plain disjI2 conjI) (simp_all add: plain_char_def)
qed

end
