(* ===== verification/Go_Parse.thy ===== *)
theory Go_Parse
  imports Go_Time
begin

text \<open>
  \<open>time.Parse\<close> for the two layouts the module uses, \<open>time.RFC3339Nano\<close> and \<open>"15:04"\<close>, with
  what the standard library accepts beyond the layout: one-digit hours, a comma before the
  fraction, fractions of any length (digits beyond the ninth are dropped), and offsets up to
  24 hours and 60 minutes. \<open>RFC3339Nano\<close> formatting (trailing zeros of the fraction dropped)
  and 64-bit durations are here too.
\<close>

definition is_digit :: "char \<Rightarrow> bool" where
  "is_digit c \<longleftrightarrow> CHR ''0'' \<le> c \<and> c \<le> CHR ''9''"

definition digit_val :: "char \<Rightarrow> int" where
  "digit_val c = int (of_char c) - 48"

fun number_of :: "int \<Rightarrow> string \<Rightarrow> int" where
  "number_of acc [] = acc"
| "number_of acc (c # cs) = number_of (10 * acc + digit_val c) cs"

text \<open>\<open>getnum(s, fixed)\<close>: two digits, or one when not \<open>fixed\<close>.\<close>

fun get_num :: "bool \<Rightarrow> string \<Rightarrow> (int \<times> string) option" where
  "get_num fixed [] = None"
| "get_num fixed [a] = (if is_digit a \<and> \<not> fixed then Some (digit_val a, []) else None)"
| "get_num fixed (a # b # r) =
     (if \<not> is_digit a then None
      else if is_digit b then Some (10 * digit_val a + digit_val b, r)
      else if fixed then None else Some (digit_val a, b # r))"

fun get_year :: "string \<Rightarrow> (int \<times> string) option" where
  "get_year (a # b # c # d # r) =
     (if list_all is_digit [a, b, c, d] then Some (number_of 0 [a, b, c, d], r) else None)"
| "get_year _ = None"

fun expect :: "char \<Rightarrow> string \<Rightarrow> string option" where
  "expect c (x # r) = (if x = c then Some r else None)"
| "expect c [] = None"

text \<open>The fraction: absent, or a separator and digits, scaled to nanoseconds.\<close>

definition fraction_ns :: "string \<Rightarrow> int" where
  "fraction_ns ds = number_of 0 (take 9 (ds @ replicate 9 (CHR ''0'')))"

fun get_fraction :: "string \<Rightarrow> int \<times> string" where
  "get_fraction (sep # x # r) =
     (if (sep = CHR ''.'' \<or> sep = CHR '','') \<and> is_digit x
      then (fraction_ns (takeWhile is_digit (x # r)), dropWhile is_digit (x # r))
      else (0, sep # x # r))"
| "get_fraction s = (0, s)"

text \<open>The zone \<open>Z07:00\<close>: its offset in seconds; nothing may follow.\<close>

fun get_zone :: "string \<Rightarrow> int option" where
  "get_zone [z] = (if z = CHR ''Z'' then Some 0 else None)"
| "get_zone [sg, h1, h2, c, m1, m2] =
     (if c \<noteq> CHR '':'' then None
      else case (get_num True [h1, h2], get_num True [m1, m2]) of
        (Some (h, _), Some (m, _)) \<Rightarrow>
          if h > 24 \<or> m > 60 then None
          else if sg = CHR ''+'' then Some ((h * 60 + m) * 60)
          else if sg = CHR ''-'' then Some (- ((h * 60 + m) * 60))
          else None
      | _ \<Rightarrow> None)"
| "get_zone _ = None"

definition make_instant :: "int \<Rightarrow> int \<Rightarrow> int \<Rightarrow> int \<Rightarrow> int \<Rightarrow> int \<Rightarrow> int \<Rightarrow> instant" where
  "make_instant y mo d h mi s ns =
     (day_number y mo d - unix_epoch_day) * day_ns + ((h * 60 + mi) * 60 + s) * second_ns + ns"

definition parse_rfc3339 :: "string \<Rightarrow> instant option" where
  "parse_rfc3339 v =
    Option.bind (get_year v) (\<lambda>(y, v).
    Option.bind (expect (CHR ''-'') v) (\<lambda>v.
    Option.bind (get_num True v) (\<lambda>(mo, v).
    Option.bind (expect (CHR ''-'') v) (\<lambda>v.
    Option.bind (get_num True v) (\<lambda>(d, v).
    Option.bind (expect (CHR ''T'') v) (\<lambda>v.
    Option.bind (get_num False v) (\<lambda>(h, v).
    Option.bind (expect (CHR '':'') v) (\<lambda>v.
    Option.bind (get_num True v) (\<lambda>(mi, v).
    Option.bind (expect (CHR '':'') v) (\<lambda>v.
    Option.bind (get_num True v) (\<lambda>(s, v).
    case get_fraction v of (ns, v) \<Rightarrow>
    Option.bind (get_zone v) (\<lambda>off.
      if mo < 1 \<or> 12 < mo \<or> 24 \<le> h \<or> 60 \<le> mi \<or> 60 \<le> s \<or> d < 1 \<or> days_in mo y < d then None
      else Some (make_instant y mo d h mi s ns - off * second_ns)))))))))))))"

definition parse_clock :: "string \<Rightarrow> (int \<times> int) option" where
  "parse_clock v =
    Option.bind (get_num False v) (\<lambda>(h, v).
    Option.bind (expect (CHR '':'') v) (\<lambda>v.
    Option.bind (get_num True v) (\<lambda>(mi, v).
      if v \<noteq> [] \<or> 24 \<le> h \<or> 60 \<le> mi then None else Some (h, mi))))"

text \<open>A \<open>time.Duration\<close> of \<open>n\<close> seconds: the product is a signed 64-bit number.\<close>

definition wrap64 :: "int \<Rightarrow> int" where
  "wrap64 i = sint (word_of_int i :: 64 word)"

definition seconds :: "int \<Rightarrow> int" where
  "seconds n = wrap64 (n * second_ns)"

text \<open>\<open>time.Time{}\<close>, the first instant of the year 1; \<open>time.Parse\<close> returns it with an error.\<close>

definition zero_time :: instant where
  "zero_time = - unix_epoch_day * day_ns"

section \<open>Parsing inverts formatting\<close>

lemma is_digit_char [simp]: "(n::nat) < 10 \<Longrightarrow> is_digit (char_of (48 + n))"
  by (simp add: is_digit_def less_eq_char_def)

lemma digit_val_char [simp]: "(n::nat) < 10 \<Longrightarrow> digit_val (char_of (48 + n)) = int n"
  by (simp add: digit_val_def)

lemma number_of_append: "number_of acc (a @ b) = number_of (number_of acc a) b"
  by (induction acc a rule: number_of.induct) auto

lemma number_of_digits: "n < 10 ^ w \<Longrightarrow> number_of acc (digits w n) = acc * 10 ^ w + int n"
proof (induction w arbitrary: n acc)
  case 0
  then show ?case by simp
next
  case (Suc w)
  have "int n = 10 * int (n div 10) + int (n mod 10)"
    by (metis mult_div_mod_eq of_nat_add of_nat_mult of_nat_numeral)
  then show ?case using Suc.IH [OF div10_less [OF Suc.prems]]
    by (simp add: number_of_append algebra_simps)
qed

lemma digits_all_digit: "list_all is_digit (digits w n)"
  by (induction w n rule: digits.induct) auto

lemma get_num_digits: "n < 100 \<Longrightarrow> get_num f (digits 2 n @ r) = Some (int n, r)"
proof -
  assume "n < 100"
  then have "n div 10 < 10" by simp
  then have "get_num f (digits 2 n @ r) = Some (10 * int (n div 10) + int (n mod 10), r)"
    by (simp add: numeral_2_eq_2)
  moreover have "10 * int (n div 10) + int (n mod 10) = int n"
    by (metis mult_div_mod_eq of_nat_add of_nat_mult of_nat_numeral)
  ultimately show ?thesis by simp
qed

lemma get_year_digits: "n < 10000 \<Longrightarrow> get_year (digits 4 n @ r) = Some (int n, r)"
proof -
  assume n: "n < 10000"
  have "length (digits 4 n) = Suc (Suc (Suc (Suc 0)))" by simp
  then obtain a b c d where s: "digits 4 n = [a, b, c, d]" 
    by (auto simp only: length_Suc_conv length_0_conv)
  have "number_of 0 [a, b, c, d] = int n" "list_all is_digit [a, b, c, d]"
    using number_of_digits [of n 4 0] digits_all_digit [of 4 n] n unfolding s by simp_all
  then show ?thesis unfolding s by simp
qed

lemma get_fraction_digits: "n < 1000000000 \<Longrightarrow> get_fraction (''.'' @ digits 9 n @ ''Z'') = (int n, ''Z'')"
proof -
  assume n: "n < 1000000000"
  obtain x r where s: "digits 9 n = x # r"
    by (metis length_digits list.exhaust list.size(3) zero_neq_numeral)
  have all: "list_all is_digit (x # r)" using digits_all_digit [of 9 n] unfolding s .
  have z: "\<not> is_digit (CHR ''Z'')" by (simp add: is_digit_def)
  have "takeWhile is_digit (x # r @ ''Z'') = x # r" "dropWhile is_digit (x # r @ ''Z'') = ''Z''"
    using all z by (simp_all add: takeWhile_append2 dropWhile_append2 list_all_iff)
  moreover have "fraction_ns (x # r) = int n"
  proof -
    have "take 9 (digits 9 n @ zs) = digits 9 n" for zs
      by (simp only: append_eq_conv_conj [THEN iffD1, OF refl] take_append length_digits
          diff_self_eq_0 take0 append_Nil2 take_all order_refl)
    then show ?thesis
      using number_of_digits [of n 9 0] n unfolding fraction_ns_def s [symmetric] by simp
  qed
  ultimately show ?thesis using all unfolding s by simp
qed

lemma civil_inverse:
  assumes "civil n = (y, m, d)"
  shows "day_number y m d = n" and "d \<le> days_in m y"
proof -
  have y: "y = year_of n" and m: "m = month_of (leap_day y) (n - year_start y)"
    and d: "d = n - year_start y - month_start (leap_day y) m + 1"
    using assms by (auto simp: civil_def Let_def)
  show "day_number y m d = n" by (simp add: day_number_def d)
  define l doy where "l = leap_day y" and "doy = n - year_start y"
  have doy: "0 \<le> doy" "doy < 365 + l" and l: "l = 0 \<or> l = 1"
    using year_of_bracket [of n] year_start_Suc [of y] y leap_day_cases
    by (auto simp: doy_def l_def)
  have "doy < (if m = 12 then month_start l 12 + 31 else month_start l (m + 1))"
    using doy l unfolding m l_def [symmetric] doy_def [symmetric]
    by (auto simp: month_of_def month_start_def)
  then show "d \<le> days_in m y"
    unfolding days_in_def d l_def [symmetric] doy_def [symmetric] by (auto split: if_splits)
qed

lemma parse_timestamp:
  assumes "in_range t" shows "parse_rfc3339 (timestamp t) = Some t"
proof -
  obtain y mo d where c: "civil (t div day_ns + unix_epoch_day) = (y, mo, d)" by (metis prod_cases3)
  obtain h mi s ns where k: "clock_of t = (h, mi, s, ns)" by (metis prod_cases4)
  note r = civil_ranges [OF c] clock_ranges [OF k] in_range_year [OF assms c]
  have dn: "(day_number y mo d - unix_epoch_day) * day_ns = (t div day_ns) * day_ns"
    using civil_inverse(1) [OF c] by simp
  define x where "x = (t mod day_ns) div second_ns"
  have ks: "h = x div 3600" "mi = (x mod 3600) div 60" "s = x mod 60" "ns = t mod second_ns"
    using k by (auto simp: clock_of_def Let_def x_def)
  have sec: "(h * 60 + mi) * 60 + s = x"
  proof -
    define A B M where "A = x div 3600" and "B = (x mod 3600) div 60" and "M = x mod 3600"
    have "x mod 3600 mod 60 = x mod 60" by (simp add: mod_mod_cancel)
    then have "A * 3600 + M = x" "B * 60 + x mod 60 = M"
      using div_mult_mod_eq [of x 3600] div_mult_mod_eq [of "x mod 3600" 60] by (simp_all add: A_def B_def M_def)
    then show ?thesis
      unfolding ks(1-3) A_def [symmetric] B_def [symmetric] by (simp add: distrib_right add.assoc)
  qed
  have "t mod day_ns mod second_ns = t mod second_ns"
    unfolding day_ns_def second_ns_def by (simp add: mod_mod_cancel)
  then have "x * second_ns + ns = t mod day_ns"
    using div_mult_mod_eq [of "t mod day_ns" second_ns] by (simp add: x_def ks(4))
  then have "make_instant y mo d h mi s ns = t"
    using div_mult_mod_eq [of t day_ns] unfolding make_instant_def dn sec by linarith
  moreover have "nat y < 10000" "nat mo < 100" "nat d < 100" "nat h < 100" "nat mi < 100" "nat s < 100"
      "nat ns < 1000000000"
    using r by auto
  ultimately show ?thesis
    unfolding parse_rfc3339_def timestamp_fields [OF assms c k]
    using r civil_inverse(2) [OF c]
    by (simp add: get_year_digits get_num_digits get_fraction_digits [simplified])
qed

lemma timestamp_nonempty [simp]: "timestamp t \<noteq> []"
  by (simp add: timestamp_def split: prod.splits)

lemma timestamp_inject: "in_range a \<Longrightarrow> in_range b \<Longrightarrow> (timestamp a = timestamp b) = (a = b)"
  by (metis option.inject parse_timestamp)

lemma timestamp_less_iff:
  assumes "in_range a" "in_range b"
  shows "(timestamp a < timestamp b) = (a < b)"
  using timestamp_strict_mono [OF assms] timestamp_strict_mono [OF assms(2,1)]
  by (metis less_asym linorder_neqE)

lemma timestamp_le_iff:
  assumes "in_range a" "in_range b"
  shows "(timestamp a \<le> timestamp b) = (a \<le> b)"
  using timestamp_less_iff [OF assms(2,1)] by (simp flip: not_less)

lemma wrap64_id: "- (2 ^ 63) \<le> i \<Longrightarrow> i < 2 ^ 63 \<Longrightarrow> wrap64 i = i"
  by (simp add: wrap64_def sint_sbintrunc' signed_take_bit_int_eq_self)

end
