(* ===== verification/Inbox_Processor.thy ===== *)
theory Inbox_Processor
  imports Event_History Go_Parse
begin

text \<open>
  The inbox worker, internal/application/inbox/processor.go, and the publisher of
  internal/domain/inbox/service/publisher.go. They are clients of the interface \<open>EventStore\<close>
  (internal/domain/inbox/repository/store.go), a record of actions here, and of four host
  interfaces that are arguments: the audience resolver, the recipient locale resolver, the
  work notifier, and the retry policy of the foundation library (\<open>worker.RetryPolicy\<close>).
  The state \<open>'w\<close> is whatever the store and the host share; \<open>sql_event_store\<close> is the SQL store
  in this shape.
\<close>

section \<open>Interfaces\<close>

record 'w event_store =
  es_enqueue :: "event \<Rightarrow> ('w, event \<times> bool) io"
  es_list_due :: "string \<Rightarrow> int \<Rightarrow> ('w, event list) io"
  es_claim :: "workspace_id \<Rightarrow> string \<Rightarrow> string \<Rightarrow> string \<Rightarrow> string \<Rightarrow> ('w, event option) io"
  es_materialize :: "event \<Rightarrow> item list \<Rightarrow> ('w, unit) io"
  es_retry :: "event \<Rightarrow> string \<Rightarrow> string \<Rightarrow> string \<Rightarrow> string \<Rightarrow> ('w, unit) io"
  es_fail :: "event \<Rightarrow> string \<Rightarrow> string \<Rightarrow> string \<Rightarrow> ('w, unit) io"

text \<open>A notification cannot fail: \<open>Notify\<close> has no result.\<close>

type_synonym 'w notifier = "work \<Rightarrow> 'w \<Rightarrow> 'w"

definition notify :: "'w notifier option \<Rightarrow> work \<Rightarrow> ('w, unit) io" where
  "notify n k w = (Inr (), case n of None \<Rightarrow> w | Some f \<Rightarrow> f k w)"

text \<open>\<open>worker.RetryPolicy\<close>: the configuration the code passes, and the library's two methods.\<close>

record retry_config =
  rt_max_attempts :: int
  rt_base_delay :: int
  rt_max_delay :: int

record retry_policy =
  ry_allows :: "retry_config \<Rightarrow> int \<Rightarrow> instant \<Rightarrow> bool"
  ry_delay :: "retry_config \<Rightarrow> int \<Rightarrow> int"

definition minute_ns :: int where "minute_ns = 60 * second_ns"

definition worker_retry :: retry_config where
  "worker_retry = \<lparr>rt_max_attempts = 8, rt_base_delay = minute_ns, rt_max_delay = 32 * minute_ns\<rparr>"

definition lease_duration :: int where "lease_duration = 30 * second_ns"

record 'w inbox_deps =
  nd_events :: "'w event_store"
  nd_worker :: string
  nd_audiences :: "(string \<Rightarrow> event \<Rightarrow> ('w, user_id list) io) option"
  nd_locale :: "(workspace_id \<Rightarrow> user_id \<Rightarrow> ('w, string) io) option"
  nd_notifier :: "'w notifier option"
  nd_retry :: retry_policy

section \<open>Items\<close>

definition normalize_locale :: "string \<Rightarrow> string" where
  "normalize_locale s = trim_space (map (\<lambda>c. if c = CHR ''_'' then CHR ''-'' else c) s)"

definition snapshot_for_locale :: "event \<Rightarrow> string \<Rightarrow> snapshot" where
  "snapshot_for_locale e requested =
     (case List.find (\<lambda>(l, s). equal_fold (normalize_locale l) (normalize_locale requested)) (ev_localized e) of
        Some (l, s) \<Rightarrow> s | None \<Rightarrow> ev_snapshot e)"

text \<open>\<open>stableID\<close> of application/inbox/contracts.go: the whole digest in hexadecimal.\<close>

definition item_stable_id :: "string list \<Rightarrow> string" where
  "item_stable_id parts = hex_encode (sha256 (join_with [CHR 0x00] parts))"

definition item_from_event :: "event \<Rightarrow> user_id \<Rightarrow> string \<Rightarrow> item" where
  "item_from_event e u locale =
     (let identity = (if ev_group e \<noteq> [] then ''group:'' @ ev_group e else ev_id e);
          s = snapshot_for_locale e locale
      in \<lparr>it_id = item_stable_id [ev_workspace e, u, identity], it_workspace = ev_workspace e,
          it_recipient = u, it_event = ev_id e, it_event_type = ev_type e, it_source = ev_source e,
          it_category = ev_category e, it_severity = ev_severity e, it_title = sn_title s,
          it_body = sn_body s, it_facts = sn_facts s, it_actions = sn_actions s,
          it_template = sn_template s, it_template_version = sn_version s,
          it_template_locale = sn_locale s, it_template_hash = sn_hash s,
          it_subject_type = ev_subject_type e, it_subject_id = ev_subject_id e,
          it_subject_version = ev_subject_version e, it_action_state = ev_action_state e,
          it_alert_state = ev_alert_state e, it_group = ev_group e, it_occurrences = 1,
          it_first = ev_occurred e, it_last = ev_occurred e, it_read = [], it_archived = [],
          it_expires = ev_expires e, it_created = ev_created e, it_updated = ev_updated e\<rparr>)"

section \<open>The worker\<close>

definition recipient_limit :: int where "recipient_limit = 500"

definition inbox_unavailable :: "string \<Rightarrow> err option \<Rightarrow> err" where
  "inbox_unavailable code cause = new_error ErrorUnavailable code cause []"

definition resolve_audiences :: "'w inbox_deps \<Rightarrow> event \<Rightarrow> ('w, user_id list) io" where
  "resolve_audiences d e =
     fold_io (\<lambda>key us. case nd_audiences d of
         None \<Rightarrow> fail (inbox_unavailable ''backend.notification.inbox_audience_resolver_unavailable'' None)
       | Some resolve \<Rightarrow> bind_io (attempt (resolve key e)) (\<lambda>r. case r of
             Inl err \<Rightarrow> fail (inbox_unavailable ''backend.notification.inbox_audience_resolution_failed'' (Some err))
           | Inr vs \<Rightarrow> ret (us @ vs)))
       (ev_audiences e) (ev_recipients e)"

definition recipient_items :: "'w inbox_deps \<Rightarrow> event \<Rightarrow> user_id list \<Rightarrow> ('w, item list) io" where
  "recipient_items d e us =
     fold_io (\<lambda>u items. bind_io (case nd_locale d of None \<Rightarrow> ret [] | Some f \<Rightarrow> f (ev_workspace e) u)
       (\<lambda>locale. ret (items @ [item_from_event e u locale]))) us []"

definition with_recipients :: "user_id list \<Rightarrow> event \<Rightarrow> event" where
  "with_recipients us e = e\<lparr>ev_recipients := us,
     ev_plans := map (\<lambda>p. p\<lparr>pl_recipients := us\<rparr>) (ev_plans e)\<rparr>"

definition worker_materialize :: "'w inbox_deps \<Rightarrow> event \<Rightarrow> ('w, unit) io" where
  "worker_materialize d e =
     bind_io (resolve_audiences d e) (\<lambda>found.
     (let us = unique_users found in
      guard_io (us = [] \<or> int (length us) > recipient_limit)
        (inbox_unavailable ''backend.notification.inbox_audience_resolution_empty'' None)
      (let e' = with_recipients us e in
       bind_io (recipient_items d e' us) (\<lambda>items.
       bind_io (es_materialize (nd_events d) e' items) (\<lambda>_.
       for_each (\<lambda>p. notify (nd_notifier d) \<lparr>wk_kind = WorkChannelPlan, wk_workspace = pl_workspace p, wk_task = pl_id p\<rparr>)
         (ev_plans e'))))))"

definition record_event_failure :: "'w inbox_deps \<Rightarrow> event \<Rightarrow> err \<Rightarrow> instant \<Rightarrow> ('w, unit) io" where
  "record_event_failure d e cause now =
     (let updated = timestamp now;
          audience = has_prefix (error_code cause) ''backend.notification.inbox_audience_'';
          stage = (if audience then ''audience_resolution'' else ''materialization'');
          code = (if audience then error_code cause else ''backend.notification.inbox_materialization_failed'');
          n = ev_attempts e + 1
      in if \<not> ry_allows (nd_retry d) worker_retry n now
         then es_fail (nd_events d) e stage code updated
         else es_retry (nd_events d) e stage code (timestamp (now + ry_delay (nd_retry d) worker_retry n)) updated)"

definition process_at :: "'w inbox_deps \<Rightarrow> workspace_id \<Rightarrow> string \<Rightarrow> instant \<Rightarrow> ('w, bool) io" where
  "process_at d ws i now =
     bind_io (es_claim (nd_events d) ws i (nd_worker d) (timestamp now) (timestamp (now + lease_duration)))
     (\<lambda>found. case found of
        None \<Rightarrow> ret False
      | Some e \<Rightarrow> bind_io (attempt (worker_materialize d e)) (\<lambda>r. case r of
            Inl cause \<Rightarrow> bind_io (record_event_failure d e cause now) (\<lambda>_. ret False)
          | Inr _ \<Rightarrow> ret True))"

definition process_event :: "'w inbox_deps \<Rightarrow> workspace_id \<Rightarrow> string \<Rightarrow> instant \<Rightarrow> ('w, bool) io" where
  "process_event d ws i now = process_at d ws (trim_space i) now"

text \<open>\<open>ProcessDue\<close> returns the number processed also beside an error.\<close>

fun process_events :: "'w inbox_deps \<Rightarrow> instant \<Rightarrow> event list \<Rightarrow> int \<Rightarrow> ('w, int \<times> err option) io" where
  "process_events d now [] n = ret (n, None)"
| "process_events d now (e # es) n =
     bind_io (attempt (process_at d (ev_workspace e) (ev_id e) now)) (\<lambda>r. case r of
        Inl err \<Rightarrow> ret (n, Some err)
      | Inr completed \<Rightarrow> process_events d now es (if completed then n + 1 else n))"

definition process_due_events :: "'w inbox_deps \<Rightarrow> int \<Rightarrow> instant \<Rightarrow> ('w, int \<times> err option) io" where
  "process_due_events d limit now =
     bind_io (attempt (es_list_due (nd_events d) (timestamp now) (if limit \<le> 0 \<or> limit > 100 then 25 else limit)))
     (\<lambda>r. case r of Inl err \<Rightarrow> ret (0, Some err) | Inr es \<Rightarrow> process_events d now es 0)"

section \<open>The publisher\<close>

definition publish_event :: "'w event_store \<Rightarrow> 'w notifier option \<Rightarrow> event \<Rightarrow> ('w, event \<times> bool) io" where
  "publish_event store n e =
     bind_io (es_enqueue store e) (\<lambda>(stored, created).
     bind_io (if created then notify n \<lparr>wk_kind = WorkInboxEvent, wk_workspace = ev_workspace stored, wk_task = ev_id stored\<rparr>
              else ret ()) (\<lambda>_. ret (stored, created)))"

section \<open>The SQL store behind the interface\<close>

definition sql_event_store :: "queue_index \<Rightarrow> world event_store" where
  "sql_event_store qi = \<lparr>es_enqueue = enqueue qi, es_list_due = list_due qi, es_claim = claim_event,
     es_materialize = materialize qi, es_retry = retry_event, es_fail = fail_event\<rparr>"

text \<open>The ways a call of the worker returns without an error.\<close>

lemma process_at_cases:
  assumes "process_at d ws i now w = (Inr b, w')"
  obtains "\<not> b"
      "es_claim (nd_events d) ws i (nd_worker d) (timestamp now) (timestamp (now + lease_duration)) w = (Inr None, w')"
  | e w1 where "b"
      "es_claim (nd_events d) ws i (nd_worker d) (timestamp now) (timestamp (now + lease_duration)) w = (Inr (Some e), w1)"
      "worker_materialize d e w1 = (Inr (), w')"
  | e w1 cause w2 where "\<not> b"
      "es_claim (nd_events d) ws i (nd_worker d) (timestamp now) (timestamp (now + lease_duration)) w = (Inr (Some e), w1)"
      "worker_materialize d e w1 = (Inl cause, w2)" "record_event_failure d e cause now w2 = (Inr (), w')"
proof -
  from assms obtain f w1 where c: "es_claim (nd_events d) ws i (nd_worker d) (timestamp now) (timestamp (now + lease_duration)) w = (Inr f, w1)"
    and r: "(case f of None \<Rightarrow> ret False
      | Some e \<Rightarrow> bind_io (attempt (worker_materialize d e)) (\<lambda>r. case r of
            Inl cause \<Rightarrow> bind_io (record_event_failure d e cause now) (\<lambda>_. ret False)
          | Inr _ \<Rightarrow> ret True)) w1 = (Inr b, w')"
    by (auto simp: process_at_def bind_io_Inr)
  show thesis
  proof (cases f)
    case None
    with c r that(1) show thesis by auto
  next
    case (Some e)
    with r obtain x w2 where m: "worker_materialize d e w1 = (x, w2)"
      and t: "(case x of Inl cause \<Rightarrow> bind_io (record_event_failure d e cause now) (\<lambda>_. ret False) | Inr _ \<Rightarrow> ret True) w2 = (Inr b, w')"
      by (auto simp: bind_io_Inr attempt_eq)
    show thesis
    proof (cases x)
      case (Inl cause)
      with t have "record_event_failure d e cause now w2 = (Inr (), w')" "\<not> b" by (auto simp: bind_io_Inr)
      with c m Some Inl that(3) show thesis by simp
    next
      case (Inr u)
      with t c m Some that(2) show thesis by auto
    qed
  qed
qed

section \<open>The contract of the store, and the worker as its client\<close>

text \<open>
  \<open>leased w e\<close>: in state \<open>w\<close> the event is still claimed with the lease \<open>e\<close> carries. The laws
  are what the worker relies on: a claim leases what it returns, and each of the three ways
  to settle ends the lease when it succeeds. \<open>inv\<close> is the store's invariant; the host's
  callbacks respect both.
\<close>

locale event_store_contract =
  fixes store :: "'w event_store"
    and leased :: "'w \<Rightarrow> event \<Rightarrow> bool"
    and inv :: "'w \<Rightarrow> bool"
    and quiet :: "('w \<Rightarrow> 'w) \<Rightarrow> bool"
  assumes claim_inv: "inv w \<Longrightarrow> es_claim store ws i ow now x w = (r, w') \<Longrightarrow> inv w'"
    and claim_leases: "inv w \<Longrightarrow> es_claim store ws i ow now x w = (Inr (Some e), w') \<Longrightarrow> leased w' e"
    and materialize_inv: "inv w \<Longrightarrow> es_materialize store e items w = (rm, w') \<Longrightarrow> inv w'"
    and materialize_ends: "inv w \<Longrightarrow> es_materialize store e items w = (Inr (), w') \<Longrightarrow> \<not> leased w' e"
    and retry_ends: "inv w \<Longrightarrow> es_retry store e stage code nx now w = (Inr (), w') \<Longrightarrow> \<not> leased w' e"
    and fail_ends: "inv w \<Longrightarrow> es_fail store e stage code now w = (Inr (), w') \<Longrightarrow> \<not> leased w' e"
    and leased_recipients: "leased w (with_recipients us e) = leased w e"
    and quiet_inv: "quiet f \<Longrightarrow> inv (f w) = inv w"
    and quiet_leased: "quiet f \<Longrightarrow> leased (f w) e = leased w e"
begin

definition host_quiet :: "'w inbox_deps \<Rightarrow> bool" where
  "host_quiet d \<longleftrightarrow>
     (\<forall>f key e. nd_audiences d = Some f \<longrightarrow> quiet (\<lambda>w. snd (f key e w))) \<and>
     (\<forall>f ws u. nd_locale d = Some f \<longrightarrow> quiet (\<lambda>w. snd (f ws u w))) \<and>
     (\<forall>f k. nd_notifier d = Some f \<longrightarrow> quiet (f k))"

lemma quiet_keeps: "quiet (\<lambda>w. snd (m w)) \<Longrightarrow> keeps (\<lambda>w. inv w) m"
  using quiet_inv [of "\<lambda>w. snd (m w)"] by (simp add: keeps_def)

lemma resolve_inv:
  assumes "host_quiet d" shows "keeps inv (resolve_audiences d e)"
proof (cases "nd_audiences d")
  case None
  then show ?thesis unfolding resolve_audiences_def by (simp, intro keeps_intros)
next
  case (Some f)
  with assms have "keeps inv (f key e)" for key by (intro quiet_keeps) (simp add: host_quiet_def)
  with Some show ?thesis unfolding resolve_audiences_def by (simp, intro keeps_intros) auto
qed

lemma items_inv:
  assumes "host_quiet d" shows "keeps inv (recipient_items d e us)"
proof (cases "nd_locale d")
  case None
  then show ?thesis unfolding recipient_items_def by (simp, intro keeps_intros)
next
  case (Some f)
  with assms have "keeps inv (f ws u)" for ws u by (intro quiet_keeps) (simp add: host_quiet_def)
  with Some show ?thesis unfolding recipient_items_def by (simp, intro keeps_intros) auto
qed

lemma notify_unleased:
  assumes "host_quiet d"
    "for_each (\<lambda>p. notify (nd_notifier d) (k p)) ps w = (r, w')" "\<not> leased w e"
  shows "r = Inr () \<and> \<not> leased w' e"
  using assms(2,3)
proof (induction ps arbitrary: w)
  case (Cons p ps)
  from Cons.prems(1) have "for_each (\<lambda>p. notify (nd_notifier d) (k p)) ps
      (case nd_notifier d of None \<Rightarrow> w | Some f \<Rightarrow> f (k p) w) = (r, w')"
    by (subst (asm) for_each.simps, subst (asm) bind_io_run) (simp_all add: notify_def)
  moreover have "\<not> leased (case nd_notifier d of None \<Rightarrow> w | Some f \<Rightarrow> f (k p) w) e"
    using Cons.prems(2) assms(1) by (auto simp: host_quiet_def quiet_leased split: option.splits)
  ultimately show ?case by (rule Cons.IH)
qed simp

lemma worker_materialize_ends:
  assumes "inv w" "nd_events d = store" "host_quiet d" "worker_materialize d e w = (Inr u, w')"
  shows "\<not> leased w' e"
proof -
  from assms(4) obtain us w1 items w2 w3 where
    1: "resolve_audiences d e w = (Inr us, w1)"
    and 2: "recipient_items d (with_recipients (unique_users us) e) (unique_users us) w1 = (Inr items, w2)"
    and 3: "es_materialize (nd_events d) (with_recipients (unique_users us) e) items w2 = (Inr (), w3)"
    and 4: "for_each (\<lambda>p. notify (nd_notifier d) \<lparr>wk_kind = WorkChannelPlan, wk_workspace = pl_workspace p, wk_task = pl_id p\<rparr>)
         (ev_plans (with_recipients (unique_users us) e)) w3 = (Inr u, w')"
    by (auto simp: worker_materialize_def bind_io_Inr guard_io_Inr Let_def)
  have "inv w1" using keepsD [OF resolve_inv [OF assms(3)] assms(1) 1] .
  then have "inv w2" by (rule keepsD [OF items_inv [OF assms(3)] _ 2])
  from materialize_ends [OF this 3 [unfolded assms(2)]] have "\<not> leased w3 e"
    by (simp add: leased_recipients)
  with notify_unleased [OF assms(3) 4] show ?thesis by blast
qed

lemma worker_materialize_inv:
  assumes "nd_events d = store" "host_quiet d"
  shows "keeps inv (worker_materialize d e)"
  unfolding worker_materialize_def Let_def
proof (intro keeps_intros resolve_inv items_inv assms(2))
  fix us items
  show "keeps inv (es_materialize (nd_events d) (with_recipients us e) items)"
    unfolding keeps_def assms(1) by (metis materialize_inv prod.collapse)
next
  fix p
  show "keeps inv (notify (nd_notifier d) \<lparr>wk_kind = WorkChannelPlan, wk_workspace = pl_workspace p, wk_task = pl_id p\<rparr>)"
    using assms(2) by (auto simp: keeps_def notify_def host_quiet_def quiet_inv split: option.splits)
qed

text \<open>The worker leaves no lease behind unless a call to the store failed.\<close>

lemma process_at_no_lease:
  assumes "inv w" "nd_events d = store" "host_quiet d" "process_at d ws i now w = (Inr b, w')"
  shows "(\<exists>w1. es_claim store ws i (nd_worker d) (timestamp now) (timestamp (now + lease_duration)) w = (Inr None, w1)) \<or>
    (\<exists>e w1. es_claim store ws i (nd_worker d) (timestamp now) (timestamp (now + lease_duration)) w = (Inr (Some e), w1) \<and>
      leased w1 e \<and> \<not> leased w' e)"
  using assms(4)
proof (cases rule: process_at_cases)
  case 1
  with assms(2) show ?thesis by auto
next
  case (2 e w1)
  have "inv w1" by (rule claim_inv [OF assms(1) 2(2) [unfolded assms(2)]])
  from worker_materialize_ends [OF this assms(2,3) 2(3)] 2(2) claim_leases [OF assms(1)] assms(2)
  show ?thesis by blast
next
  case (3 e w1 cause w2)
  have "inv w1" by (rule claim_inv [OF assms(1) 3(2) [unfolded assms(2)]])
  then have "inv w2" by (rule keepsD [OF worker_materialize_inv [OF assms(2,3)] _ 3(3)])
  with 3(4) have "\<not> leased w' e"
    by (auto simp: record_event_failure_def Let_def assms(2) retry_ends fail_ends split: if_splits)
  with 3(2) claim_leases [OF assms(1)] assms(2) show ?thesis by blast
qed

end

definition event_leased :: "world \<Rightarrow> event \<Rightarrow> bool" where
  "event_leased w e \<longleftrightarrow> (\<exists>r \<in> set (db_events (db w)). event_lease_matches e r)"

definition same_database :: "(world \<Rightarrow> world) \<Rightarrow> bool" where
  "same_database f \<longleftrightarrow> (\<forall>w. db (f w) = db w)"

lemma update_where_unmatched:
  assumes "\<And>x. P x \<Longrightarrow> \<not> P (f x)" "r \<in> set (update_where P f rs)"
  shows "\<not> P r"
  using assms unfolding in_update_where by metis

lemma failed_unleased:
  assumes "transition_failure e st stage code nx now w = (Inr (), w')" "st \<noteq> ''processing''"
  shows "\<not> event_leased w' e"
proof -
  from transition_failure_refines [OF assms(1)]
  have "db w' = failed e st (trim_space stage) (trim_space code) nx now (db w)" by auto
  then show ?thesis
    using update_where_unmatched [of "event_lease_matches e" "fail_event_row st (trim_space code) nx now"] assms(2)
    by (auto simp: event_leased_def failed_def event_lease_matches_def fail_event_row_def)
qed

lemma claim_leased:
  assumes "schema_ok (db w)" "claim_event ws i ow now x w = (Inr (Some e), w')"
  shows "event_leased w' e"
proof -
  from claim_event_Some [OF assms] obtain r where r: "r \<in> set (db_events (db w))"
    "event_key r = (ws, trim_space i)" "event_due (trim_space now) r"
    "e = scan_event (claim_event_row (trim_space ow) (trim_space now) (trim_space x) r)"
    "db w' = claimed ws (trim_space i) (trim_space ow) (trim_space now) (trim_space x) (db w)" by blast
  let ?r = "claim_event_row (trim_space ow) (trim_space now) (trim_space x) r"
  have "?r \<in> set (db_events (db w'))"
    unfolding r(5) claimed_def using r(1-3) by (auto simp: in_update_where event_key_def intro: bexI [of _ r])
  moreover have "event_lease_matches e ?r"
    unfolding r(4) by (simp add: event_lease_matches_def scan_event_def claim_event_row_def)
  ultimately show ?thesis unfolding event_leased_def by blast
qed

interpretation sql_events: event_store_contract "sql_event_store qi" event_leased "\<lambda>w. schema_ok (db w)" same_database
  for qi
proof unfold_locales
  fix w ws i ow now x e w'
  assume ok: "schema_ok (db w)" and c: "es_claim (sql_event_store qi) ws i ow now x w = (Inr (Some e), w')"
  then have c': "claim_event ws i ow now x w = (Inr (Some e), w')" by (simp add: sql_event_store_def)
  show "event_leased w' e" by (rule claim_leased [OF ok c'])
next
  fix w e items w'
  assume "schema_ok (db w)" and c: "es_materialize (sql_event_store qi) e items w = (Inr (), w')"
  then have "\<exists>s. db w' = (materialized e items (db w))\<lparr>db_scopes := s\<rparr>"
    using materialize_refines [of w qi e items "Inr ()" w'] by (simp add: sql_event_store_def)
  then show "\<not> event_leased w' e"
    using update_where_unmatched [of "event_lease_matches e" "finish_event_row e"]
    by (auto simp: event_leased_def materialized_def event_lease_matches_def finish_event_row_def)
next
  fix w and e :: event and us
  show "event_leased w (with_recipients us e) = event_leased w e"
    by (simp add: event_leased_def with_recipients_def event_lease_matches_def)
qed (auto simp: sql_event_store_def retry_event_def fail_event_def same_database_def event_leased_def
      intro: preservesD [OF claim_event_schema] preservesD [OF materialize_schema]
      dest: failed_unleased)

section \<open>The worker over the SQL store\<close>

text \<open>The host's callbacks have no access to the notification tables.\<close>

definition host_keeps_database :: "world inbox_deps \<Rightarrow> bool" where
  "host_keeps_database d \<longleftrightarrow>
     (\<forall>f key e w. nd_audiences d = Some f \<longrightarrow> db (snd (f key e w)) = db w) \<and>
     (\<forall>f ws u w. nd_locale d = Some f \<longrightarrow> db (snd (f ws u w)) = db w) \<and>
     (\<forall>f k w. nd_notifier d = Some f \<longrightarrow> db (f k w) = db w)"

lemma host_quiet_iff: "sql_events.host_quiet d = host_keeps_database d"
  by (auto simp: sql_events.host_quiet_def host_keeps_database_def same_database_def)

section \<open>What a delivered event leaves in the inbox\<close>

text \<open>
  The statements about the worker are made over the event and the answers of the host, not over the
  worker's own functions. \<open>audience_answer\<close> and \<open>locale_answer\<close>: what the host's resolvers return for the
  event, asked while the database is \<open>D\<close>. \<open>chosen_snapshot\<close>: the texts for a locale, the event's own when
  it has none for it. \<open>inbox_identity\<close>: the identifier of a recipient's item. \<open>shows_event\<close>: the columns of
  an item that come from the event that was seen last. \<open>delivered_row\<close>: the item of a recipient after the
  delivery, by what he had before.
\<close>

definition audience_answer :: "world inbox_deps \<Rightarrow> database \<Rightarrow> event \<Rightarrow> string \<Rightarrow> user_id list \<Rightarrow> bool" where
  "audience_answer d D e key vs \<longleftrightarrow> (\<exists>resolve v v'. nd_audiences d = Some resolve \<and> db v = D \<and> resolve key e v = (Inr vs, v'))"

definition locale_answer :: "world inbox_deps \<Rightarrow> database \<Rightarrow> event \<Rightarrow> user_id \<Rightarrow> string \<Rightarrow> bool" where
  "locale_answer d D e u l \<longleftrightarrow> (case nd_locale d of None \<Rightarrow> l = []
     | Some f \<Rightarrow> (\<exists>v v'. db v = D \<and> f (ev_workspace e) u v = (Inr l, v')))"

definition chosen_snapshot :: "event \<Rightarrow> string \<Rightarrow> snapshot \<Rightarrow> bool" where
  "chosen_snapshot e l s \<longleftrightarrow> (\<exists>k. (k, s) \<in> set (ev_localized e) \<and> equal_fold (normalize_locale k) (normalize_locale l)) \<or>
     s = ev_snapshot e \<and> (\<forall>(k, _) \<in> set (ev_localized e). \<not> equal_fold (normalize_locale k) (normalize_locale l))"

definition inbox_identity :: "event \<Rightarrow> user_id \<Rightarrow> string" where
  "inbox_identity e u = hex_encode (sha256 (ev_workspace e @ [CHR 0x00] @ u @ [CHR 0x00] @
     (if ev_group e = [] then ev_id e else ''group:'' @ ev_group e)))"

definition inbox_rows :: "event \<Rightarrow> user_id \<Rightarrow> item_row list \<Rightarrow> item_row list" where
  "inbox_rows e u rows = [y \<leftarrow> rows. ir_workspace y = ev_workspace e \<and> ir_id y = inbox_identity e u]"

definition shows_event :: "event \<Rightarrow> snapshot \<Rightarrow> item_row \<Rightarrow> bool" where
  "shows_event e s x \<longleftrightarrow> ir_event x = ev_id e \<and> ir_event_type x = ev_type e \<and> ir_source x = ev_source e \<and>
     ir_category x = ev_category e \<and> ir_severity x = ev_severity e \<and> ir_title x = sn_title s \<and> ir_body x = sn_body s \<and>
     it_facts (ir_payload x) = sn_facts s \<and> it_actions (ir_payload x) = sn_actions s \<and>
     ir_subject_type x = ev_subject_type e \<and> ir_subject_id x = ev_subject_id e \<and>
     ir_action_state x = ev_action_state e \<and> ir_alert_state x = ev_alert_state e \<and>
     ir_last x = ev_occurred e \<and> ir_expires x = ev_expires e \<and> ir_updated x = ev_updated e"

definition delivered_row :: "event \<Rightarrow> user_id \<Rightarrow> snapshot \<Rightarrow> item_row list \<Rightarrow> item_row \<Rightarrow> bool" where
  "delivered_row e u s before x \<longleftrightarrow> (case before of
     [] \<Rightarrow> shows_event e s x \<and> ir_recipient x = u \<and> ir_group x = ev_group e \<and> ir_occurrences x = 1 \<and>
       ir_first x = ev_occurred e \<and> ir_read x = [] \<and> ir_archived x = [] \<and> ir_created x = ev_created e
   | y # ys \<Rightarrow> if ir_last y \<le> ev_occurred e
       then shows_event e s x \<and> ir_recipient x = ir_recipient y \<and> ir_group x = ir_group y \<and>
         ir_occurrences x = ir_occurrences y + (if ev_alert_state e = AlertResolved then 0 else 1) \<and>
         ir_first x = ir_first y \<and> ir_read x = ir_read y \<and> ir_archived x = ir_archived y \<and> ir_created x = ir_created y
       else x = y)"

lemma join_three: "join_with sep [a, b, c] = a @ sep @ b @ sep @ c"
  by simp

lemma item_identity:
  "it_id (item_from_event (with_recipients us e) u l) = inbox_identity e u"
  "it_workspace (item_from_event (with_recipients us e) u l) = ev_workspace e"
  by (simp_all add: item_from_event_def with_recipients_def Let_def inbox_identity_def item_stable_id_def join_three)

lemma chosen_found: "chosen_snapshot e l (snapshot_for_locale e l)"
proof (cases "List.find (\<lambda>(k, s). equal_fold (normalize_locale k) (normalize_locale l)) (ev_localized e)")
  case None
  then show ?thesis unfolding find_None_iff by (fastforce simp: chosen_snapshot_def snapshot_for_locale_def None)
next
  case (Some ks)
  obtain k s where ks: "ks = (k, s)" by (cases ks)
  from Some have "(k, s) \<in> set (ev_localized e)" "equal_fold (normalize_locale k) (normalize_locale l)"
    unfolding find_Some_iff ks by (auto simp: in_set_conv_nth)
  then show ?thesis by (auto simp: chosen_snapshot_def snapshot_for_locale_def Some ks)
qed

lemma audience_answers:
  assumes "host_keeps_database d" "resolve_audiences d e w = (Inr us, w')"
  shows "\<exists>vss. list_all2 (audience_answer d (db w) e) (ev_audiences e) vss \<and> us = ev_recipients e @ concat vss \<and> db w' = db w"
proof -
  let ?step = "\<lambda>key us. case nd_audiences d of
         None \<Rightarrow> fail (inbox_unavailable ''backend.notification.inbox_audience_resolver_unavailable'' None)
       | Some resolve \<Rightarrow> bind_io (attempt (resolve key e)) (\<lambda>r. case r of
             Inl err \<Rightarrow> fail (inbox_unavailable ''backend.notification.inbox_audience_resolution_failed'' (Some err))
           | Inr vs \<Rightarrow> ret (us @ vs))"
  have one: "\<exists>vs. audience_answer d (db w) e key vs \<and> us1 = us0 @ vs \<and> db w1 = db w" if "?step key us0 w = (Inr us1, w1)" for key us0 us1 w w1
  proof -
    from that obtain resolve where r: "nd_audiences d = Some resolve" by (cases "nd_audiences d") auto
    obtain x w2 where x: "resolve key e w = (x, w2)" by (cases "resolve key e w")
    with that r obtain vs where vs: "x = Inr vs" "us1 = us0 @ vs" "w1 = w2"
      by (cases x) (auto simp: bind_io_run attempt_def)
    have "db (snd (resolve key e w)) = db w" using assms(1) r by (simp add: host_keeps_database_def)
    then have "db w1 = db w" using x vs(3) by simp
    moreover have "audience_answer d (db w) e key vs" using r x vs(1) by (auto simp: audience_answer_def)
    ultimately show ?thesis using vs(2) by blast
  qed
  have "\<exists>vss. list_all2 (audience_answer d (db w) e) keys vss \<and> us = us0 @ concat vss \<and> db w' = db w"
    if "fold_io ?step keys us0 w = (Inr us, w')" for keys us0 w
    using that
  proof (induction keys arbitrary: us0 w)
    case (Cons key keys)
    then obtain us1 w1 where s: "?step key us0 w = (Inr us1, w1)" and r: "fold_io ?step keys us1 w1 = (Inr us, w')"
      by (auto simp: bind_io_Inr)
    from one [OF s] Cons.IH [OF r] obtain vs vss where "audience_answer d (db w) e key vs" "us1 = us0 @ vs" "db w1 = db w"
      "list_all2 (audience_answer d (db w) e) keys vss" "us = us1 @ concat vss" "db w' = db w" by auto
    then show ?case by (intro exI [of _ "vs # vss"]) simp
  qed simp
  from this [OF assms(2) [unfolded resolve_audiences_def]] show ?thesis .
qed

lemma locale_answers:
  assumes "host_keeps_database d" "recipient_items d e us w = (Inr items, w')"
  shows "\<exists>ls. list_all2 (locale_answer d (db w) e) us ls \<and> items = map2 (item_from_event e) us ls \<and> db w' = db w"
proof -
  let ?ask = "\<lambda>u. case nd_locale d of None \<Rightarrow> ret [] | Some f \<Rightarrow> f (ev_workspace e) u"
  let ?step = "\<lambda>u items. bind_io (?ask u) (\<lambda>locale. ret (items @ [item_from_event e u locale]))"
  have one: "locale_answer d (db w) e u l \<and> db w1 = db w" if "?ask u w = (Inr l, w1)" for u l w w1
    using that assms(1) unfolding locale_answer_def host_keeps_database_def
    by (cases "nd_locale d") (auto, metis snd_conv)
  have "\<exists>ls. list_all2 (locale_answer d (db w) e) us ls \<and> items = acc @ map2 (item_from_event e) us ls \<and> db w' = db w"
    if "fold_io ?step us acc w = (Inr items, w')" for acc w
    using that
  proof (induction us arbitrary: acc w)
    case (Cons u us)
    then obtain l w1 where s: "?ask u w = (Inr l, w1)" and r: "fold_io ?step us (acc @ [item_from_event e u l]) w1 = (Inr items, w')"
      by (auto simp: bind_io_Inr)
    from one [OF s] Cons.IH [OF r] obtain ls where "locale_answer d (db w) e u l" "db w1 = db w"
      "list_all2 (locale_answer d (db w) e) us ls" "items = (acc @ [item_from_event e u l]) @ map2 (item_from_event e) us ls" "db w' = db w" by auto
    then show ?case by (intro exI [of _ "l # ls"]) simp
  qed simp
  from this [of "[]" w] assms(2) show ?thesis by (simp add: recipient_items_def)
qed

text \<open>What upserting items does to the rows under one key: nothing, or one update or insertion.\<close>

definition upserted :: "item \<Rightarrow> item_row list \<Rightarrow> item_row list" where
  "upserted i rows = (if rows = [] then [new_item_row i] else map (\<lambda>r. if ir_last r \<le> it_last i then update_item_row i r else r) rows)"

lemma keyed_after_item:
  "filter (\<lambda>y. ir_workspace y = ws \<and> ir_id y = k) (apply_item i rows) =
    (if it_workspace i = ws \<and> it_id i = k then upserted i (filter (\<lambda>y. ir_workspace y = ws \<and> ir_id y = k) rows)
     else filter (\<lambda>y. ir_workspace y = ws \<and> ir_id y = k) rows)"
proof -
  have keyed: "filter (\<lambda>y. ir_workspace y = ws \<and> ir_id y = k) (update_where P (update_item_row i) rows) =
      map (\<lambda>r. if P r then update_item_row i r else r) (filter (\<lambda>y. ir_workspace y = ws \<and> ir_id y = k) rows)" for P rows
    by (induction rows) (auto simp: update_where_def update_item_row_def)
  have other: "map (\<lambda>r. if item_key_matches i r \<and> ir_last r \<le> it_last i then update_item_row i r else r)
      (filter (\<lambda>y. ir_workspace y = ws \<and> ir_id y = k) rows) = filter (\<lambda>y. ir_workspace y = ws \<and> ir_id y = k) rows"
    if "\<not> (it_workspace i = ws \<and> it_id i = k)"
    using that by (intro map_idI) (auto simp: item_key_matches_def)
  show ?thesis
  proof (cases "list_ex (item_key_matches i) rows")
    case True
    then have "it_workspace i = ws \<and> it_id i = k \<Longrightarrow> filter (\<lambda>y. ir_workspace y = ws \<and> ir_id y = k) rows \<noteq> []"
      by (auto simp: list_ex_iff item_key_matches_def filter_empty_conv)
    with True other show ?thesis
      by (auto simp: apply_item_def keyed upserted_def item_key_matches_def intro!: map_cong)
  next
    case False
    then have "it_workspace i = ws \<and> it_id i = k \<Longrightarrow> filter (\<lambda>y. ir_workspace y = ws \<and> ir_id y = k) rows = []"
      by (auto simp: list_ex_iff item_key_matches_def filter_empty_conv)
    with False show ?thesis by (auto simp: apply_item_def upserted_def new_item_row_def)
  qed
qed

lemma keyed_after_others:
  assumes "\<forall>i \<in> set items. \<not> (it_workspace i = ws \<and> it_id i = k)"
  shows "filter (\<lambda>y. ir_workspace y = ws \<and> ir_id y = k) (fold apply_item items rows) = filter (\<lambda>y. ir_workspace y = ws \<and> ir_id y = k) rows"
  using assms by (induction items arbitrary: rows) (auto simp: keyed_after_item)

lemma keyed_after_all:
  assumes "\<forall>i \<in> set (pre @ post). \<not> (it_workspace i = ws \<and> it_id i = k)" "it_workspace i = ws" "it_id i = k"
  shows "filter (\<lambda>y. ir_workspace y = ws \<and> ir_id y = k) (fold apply_item (pre @ i # post) rows) =
    upserted i (filter (\<lambda>y. ir_workspace y = ws \<and> ir_id y = k) rows)"
  using assms by (simp add: keyed_after_others keyed_after_item)

lemma snapshot_of_recipients: "snapshot_for_locale (with_recipients us e) l = snapshot_for_locale e l"
proof -
  have "ev_snapshot (with_recipients us e) = ev_snapshot e" "ev_localized (with_recipients us e) = ev_localized e"
    by (simp_all add: with_recipients_def)
  then show ?thesis by (simp only: snapshot_for_locale_def)
qed

lemma delivered_fields:
  assumes "i = item_from_event (with_recipients us e) u l"
  shows "it_event i = ev_id e" "it_event_type i = ev_type e" "it_source i = ev_source e" "it_category i = ev_category e"
    "it_severity i = ev_severity e" "it_title i = sn_title (snapshot_for_locale e l)" "it_body i = sn_body (snapshot_for_locale e l)"
    "it_facts i = sn_facts (snapshot_for_locale e l)" "it_actions i = sn_actions (snapshot_for_locale e l)"
    "it_subject_type i = ev_subject_type e" "it_subject_id i = ev_subject_id e" "it_action_state i = ev_action_state e"
    "it_alert_state i = ev_alert_state e" "it_last i = ev_occurred e" "it_first i = ev_occurred e" "it_expires i = ev_expires e"
    "it_updated i = ev_updated e" "it_created i = ev_created e" "it_recipient i = u" "it_group i = ev_group e"
    "it_occurrences i = 1" "it_read i = []" "it_archived i = []"
  by (simp_all add: assms item_from_event_def snapshot_of_recipients Let_def) (simp_all add: with_recipients_def)

lemma upserted_delivered:
  assumes "i = item_from_event (with_recipients us e) u l"
  shows "\<exists>x \<in> set (upserted i before). delivered_row e u (snapshot_for_locale e l) before x"
proof (cases before)
  case Nil
  then show ?thesis
    by (simp add: upserted_def delivered_row_def shows_event_def new_item_row_def delivered_fields [OF assms])
next
  case (Cons y ys)
  let ?x = "if ir_last y \<le> it_last i then update_item_row i y else y"
  have "?x \<in> set (upserted i before)" using Cons by (simp add: upserted_def)
  moreover have "delivered_row e u (snapshot_for_locale e l) before ?x"
    using Cons by (simp add: delivered_row_def shows_event_def update_item_row_def delivered_fields [OF assms])
  ultimately show ?thesis ..
qed

lemma item_present:
  "i \<in> set items \<Longrightarrow> list_ex (item_key_matches i) (fold apply_item items rs)"
proof (induction items arbitrary: rs)
  case (Cons x xs)
  have keep: "list_ex (item_key_matches i) rs \<Longrightarrow> list_ex (item_key_matches i) (fold apply_item xs rs)" for rs
    unfolding list_ex_iff
    using fold_evolves [of apply_item item_evolves _ rs xs] apply_item_evolves
    by (fastforce simp: item_evolves_def item_key_matches_def)
  have "list_ex (item_key_matches x) (apply_item x rs)"
  proof (cases "list_ex (item_key_matches x) rs")
    case True
    then show ?thesis
      using apply_item_evolves [of _ rs x] by (fastforce simp: list_ex_iff item_evolves_def item_key_matches_def)
  qed (simp add: apply_item_def item_key_matches_def new_item_row_def)
  then show ?case using Cons keep by auto
qed simp

lemma quiet_notify_db:
  assumes "host_keeps_database d" "for_each (\<lambda>p. notify (nd_notifier d) (k p)) ps w = (r, w')"
  shows "db w' = db w"
  using assms(2)
proof (induction ps arbitrary: w)
  case (Cons p ps)
  then have "for_each (\<lambda>p. notify (nd_notifier d) (k p)) ps
      (case nd_notifier d of None \<Rightarrow> w | Some f \<Rightarrow> f (k p) w) = (r, w')"
    by (subst (asm) for_each.simps, subst (asm) bind_io_run) (simp_all add: notify_def)
  from Cons.IH [OF this] assms(1) show ?case
    by (auto simp: host_keeps_database_def split: option.splits)
qed simp

text \<open>The inbox worker leaves no lease behind. When processing an event returns without an
  error, either nothing was claimed or the claim it made has ended: the event was
  materialized, scheduled for retry or failed. (A failed call to the store leaves the lease to
  expire.)\<close>

theorem inbox_worker_releases_lease:
  assumes "schema_ok (db w)" "nd_events d = sql_event_store qi" "host_keeps_database d"
    and "process_at d ws i now w = (Inr b, w')"
  shows "(\<exists>w1. claim_event ws i (nd_worker d) (timestamp now) (timestamp (now + lease_duration)) w = (Inr None, w1)) \<or>
    (\<exists>e w1. claim_event ws i (nd_worker d) (timestamp now) (timestamp (now + lease_duration)) w = (Inr (Some e), w1) \<and>
      event_leased w1 e \<and> \<not> event_leased w' e)"
  using sql_events.process_at_no_lease [of w d qi ws i now b w'] assms
  by (simp add: host_quiet_iff) (simp add: sql_event_store_def)

definition sample_retry :: retry_policy where
  "sample_retry = \<lparr>ry_allows = (\<lambda>c n now. n < rt_max_attempts c), ry_delay = (\<lambda>c n. min (rt_max_delay c) (rt_base_delay c * 2 ^ nat (n - 1)))\<rparr>"

definition sample_deps :: "world inbox_deps" where
  "sample_deps = \<lparr>nd_events = sql_event_store sample_index, nd_worker = ''w1'', nd_audiences = None,
     nd_locale = None, nd_notifier = None, nd_retry = sample_retry\<rparr>"

lemma sample_deps_ok: "nd_events sample_deps = sql_event_store sample_index" "host_keeps_database sample_deps"
  by (simp_all add: sample_deps_def host_keeps_database_def)

lemma sample_times [simp]:
  "in_range 0" "in_range lease_duration"
  by (simp_all add: in_range_def year_start_def unix_epoch_day_def day_ns_def lease_duration_def second_ns_def)

definition sample_taken :: event where
  "sample_taken = sample_event\<lparr>ev_status := ''processing'', ev_owner := ''w1'',
     ev_lease := timestamp lease_duration, ev_token := 1, ev_updated := timestamp 0\<rparr>"

definition sample_taken_database :: database where
  "sample_taken_database = empty_database\<lparr>db_events := [(event_row_of sample_taken)\<lparr>er_payload := sample_event\<rparr>]\<rparr>"

lemma sample_claim:
  "claim_event ''ws'' ''e1'' ''w1'' (timestamp 0) (timestamp lease_duration) (calm_world queued_database) =
     (Inr (Some sample_taken), calm_world sample_taken_database)"
  by (simp add: claim_event_def statement_runs calm_world_def queued_database_def Let_def
      empty_database_def sample_event_def event_row_of_def event_due_def due_at_def trim_words
      event_by_id_def claim_event_row_def scan_event_def trim_timestamp sample_taken_def sample_taken_database_def)

lemma sample_users: "unique_users [''u1''] = [''u1'']"
  by (simp add: unique_users_def trim_space_plain plain_char_def)

lemma sample_store_run:
  assumes "it_workspace i = ''ws''"
  shows "fst (materialize sample_index (with_recipients [''u1''] sample_taken) [i] (calm_world sample_taken_database)) = Inr ()"
  by (simp add: materialize_def materialize_body_def transition_alert_group_def upsert_inbox_item_def
        insert_channel_plan_def statement_runs calm_world_def sample_taken_database_def empty_database_def
        sample_taken_def sample_event_def sample_index_def sample_plan_def
        event_row_of_def event_lease_matches_def with_recipients_def assms)

lemma sample_process: "fst (process_at sample_deps ''ws'' ''e1'' 0 (calm_world queued_database)) = Inr True"
proof -
  have r: "resolve_audiences sample_deps sample_taken = ret [''u1'']"
    by (simp add: resolve_audiences_def sample_taken_def sample_event_def)
  have i: "recipient_items sample_deps e [''u1''] = ret [item_from_event e ''u1'' []]" for e
    by (simp add: recipient_items_def sample_deps_def io_simps)
  have n: "for_each (\<lambda>p. notify (nd_notifier sample_deps) (k p)) ps = ret ()" for k and ps :: "plan list"
    by (induction ps) (simp_all add: fun_eq_iff sample_deps_def notify_def bind_io_def ret_def)
  have bind_ret: "bind_io m ret = m" for m :: "(world, unit) io"
    by (rule ext) (simp add: bind_io_def ret_def split: prod.splits sum.splits)
  have item_workspace: "it_workspace (item_from_event (with_recipients [''u1''] sample_taken) ''u1'' []) = ''ws''"
    by (simp add: item_from_event_def Let_def with_recipients_def sample_taken_def sample_event_def)
  obtain w2 where m: "materialize sample_index (with_recipients [''u1''] sample_taken)
     [item_from_event (with_recipients [''u1''] sample_taken) ''u1'' []] (calm_world sample_taken_database) = (Inr (), w2)"
    using sample_store_run [of "item_from_event (with_recipients [''u1''] sample_taken) ''u1'' []"]
    by (metis prod.collapse item_workspace)
  have "worker_materialize sample_deps sample_taken (calm_world sample_taken_database) = (Inr (), w2)"
    using m by (simp add: worker_materialize_def r i n sample_users io_simps recipient_limit_def bind_ret Let_def)
      (simp add: sample_deps_def sql_event_store_def)
  moreover have "es_claim (nd_events sample_deps) ''ws'' ''e1'' (nd_worker sample_deps) (timestamp 0) (timestamp (0 + lease_duration))
      (calm_world queued_database) = (Inr (Some sample_taken), calm_world sample_taken_database)"
    using sample_claim by (simp add: sample_deps_def sql_event_store_def)
  ultimately show ?thesis
    by (simp add: process_at_def bind_io_run attempt_def ret_def bind_io_def)
qed

theorem inbox_worker_releases_lease_witness:
  "\<exists>e w'. process_at sample_deps ''ws'' ''e1'' 0 (calm_world queued_database) = (Inr True, w') \<and> \<not> event_leased w' e \<and> ev_id e = ''e1''"
proof -
  obtain w' where p: "process_at sample_deps ''ws'' ''e1'' 0 (calm_world queued_database) = (Inr True, w')"
    using sample_process by (cases "process_at sample_deps ''ws'' ''e1'' 0 (calm_world queued_database)") auto
  have ok: "schema_ok (db (calm_world queued_database))" by simp
  have "\<nexists>w1. claim_event ''ws'' ''e1'' ''w1'' (timestamp 0) (timestamp (0 + lease_duration)) (calm_world queued_database) = (Inr None, w1)"
    using sample_claim by simp
  then obtain e w1 where e: "claim_event ''ws'' ''e1'' ''w1'' (timestamp 0) (timestamp (0 + lease_duration)) (calm_world queued_database) = (Inr (Some e), w1)"
      "\<not> event_leased w' e"
    using inbox_worker_releases_lease [OF ok sample_deps_ok p] by (auto simp: sample_deps_def)
  from claim_event_Some [OF ok e(1)] have "ev_id e = ''e1''"
    by (auto simp: scan_event_def claim_event_row_def event_key_def trim_words)
  with p e show ?thesis by auto
qed

text \<open>Rows under none of the keys of the items are left alone.\<close>

lemma unkeyed_after_items:
  assumes "\<forall>i \<in> set items. \<forall>y. item_key_matches i y \<longrightarrow> \<not> Q y"
  shows "filter Q (fold apply_item items rows) = filter Q rows"
  using assms
proof (induction items arbitrary: rows)
  case (Cons i items)
  have none: "\<not> Q y" if "item_key_matches i y" for y using Cons.prems that by simp
  have upd: "filter Q (update_where P (update_item_row i) rows) = filter Q rows" if "\<And>r. P r \<Longrightarrow> item_key_matches i r" for P
  proof (induction rows)
    case (Cons r rows)
    have "item_key_matches i (update_item_row i r)" if "item_key_matches i r" using that by (simp add: item_key_matches_def update_item_row_def)
    with Cons none that show ?case by (auto simp: update_where_def)
  qed (simp add: update_where_def)
  have "item_key_matches i (new_item_row i)" by (simp add: item_key_matches_def new_item_row_def)
  then have "\<not> Q (new_item_row i)" by (rule none)
  moreover have "filter Q (update_where (\<lambda>r. item_key_matches i r \<and> ir_last r \<le> it_last i) (update_item_row i) rows) = filter Q rows"
    by (rule upd) simp
  ultimately have "filter Q (apply_item i rows) = filter Q rows" by (simp add: apply_item_def)
  with Cons show ?case by simp
qed simp

lemma delivered_items:
  assumes "length ls = length us" "distinct us" "u \<in> set us" "\<forall>v \<in> set us. inbox_identity e v = inbox_identity e u \<longrightarrow> v = u"
    and "list_all2 (locale_answer d D e) us ls"
  shows "\<exists>l s x. locale_answer d D e u l \<and> chosen_snapshot e l s \<and>
    x \<in> set (inbox_rows e u (fold apply_item (map2 (item_from_event (with_recipients us' e)) us ls) rows)) \<and>
    delivered_row e u s (inbox_rows e u rows) x"
proof -
  let ?f = "item_from_event (with_recipients us' e)"
  from assms(3) obtain n where n: "n < length us" "us ! n = u" by (auto simp: in_set_conv_nth)
  let ?pairs = "zip us ls" and ?l = "ls ! n"
  have split: "?pairs = take n ?pairs @ (u, ?l) # drop (Suc n) ?pairs"
  proof -
    have "n < length ?pairs" "?pairs ! n = (u, ?l)" using n assms(1) by simp_all
    then show ?thesis using id_take_nth_drop [of n ?pairs] by metis
  qed
  have others: "v \<noteq> u \<and> v \<in> set us" if "(v, l) \<in> set (take n ?pairs @ drop (Suc n) ?pairs)" for v l
  proof -
    have "distinct (map fst (take n ?pairs @ (u, ?l) # drop (Suc n) ?pairs))"
      using assms(1,2) unfolding split [symmetric] by simp
    then have "v \<noteq> u" using that by (force simp: image_iff)
    moreover have "(v, l) \<in> set ?pairs" using that by (auto dest: in_set_takeD in_set_dropD)
    ultimately show ?thesis by (auto dest: set_zip_leftD)
  qed
  have items: "map2 ?f us ls = map (\<lambda>(v, l). ?f v l) (take n ?pairs) @ ?f u ?l # map (\<lambda>(v, l). ?f v l) (drop (Suc n) ?pairs)"
    by (subst split) simp
  have "inbox_rows e u (fold apply_item (map2 ?f us ls) rows) = upserted (?f u ?l) (inbox_rows e u rows)"
    unfolding items inbox_rows_def
  proof (rule keyed_after_all)
    show "\<forall>i \<in> set (map (\<lambda>(v, l). ?f v l) (take n ?pairs) @ map (\<lambda>(v, l). ?f v l) (drop (Suc n) ?pairs)).
        \<not> (it_workspace i = ev_workspace e \<and> it_id i = inbox_identity e u)"
      using others assms(4) by (fastforce simp: item_identity)
  qed (simp_all add: item_identity)
  moreover obtain x where "x \<in> set (upserted (?f u ?l) (inbox_rows e u rows))" "delivered_row e u (snapshot_for_locale e ?l) (inbox_rows e u rows) x"
    using upserted_delivered [OF refl] by blast
  moreover have "locale_answer d D e u ?l" using assms(5) n by (metis list_all2_nthD)
  ultimately show ?thesis using chosen_found by metis
qed

text \<open>C6: when the worker reports an event as processed, the event it claimed is delivered. The recipients are exactly the trimmed
  users the event names and those the host's resolver answered for each of the event's audiences, without duplicates and at
  most 500. The event's row is materialized and its lease gone. Every channel plan of the event is stored as it was compiled,
  for all the recipients. Every recipient has an item under the identifier derived from workspace, recipient and the
  event's group (or the event): it shows the event's kind, states, subject and times and the texts of the snapshot chosen for the
  locale the host gave for him; it is his, unread, counted once and first seen with this event when he had none, and
  keeps recipient, read and archive marks and first occurrence and counts one more (unless the event resolves its alert) when
  he had one; an item that has seen a later event stays as it is. (Should the SHA-256 identifiers of two recipients
  collide, only the existence of the items is claimed.) All other items are unchanged.\<close>

theorem inbox_worker_delivers:
  assumes "schema_ok (db w)" "nd_events d = sql_event_store qi" "host_keeps_database d"
    and "process_at d ws i now w = (Inr True, w')"
  shows "\<exists>e w1 vss us. claim_event ws i (nd_worker d) (timestamp now) (timestamp (now + lease_duration)) w = (Inr (Some e), w1) \<and>
    ev_workspace e = ws \<and> ev_id e = trim_space i \<and>
    list_all2 (audience_answer d (db w1) e) (ev_audiences e) vss \<and>
    us \<noteq> [] \<and> distinct us \<and> length us \<le> 500 \<and> set us = trim_space ` (set (ev_recipients e) \<union> set (concat vss)) - {[]} \<and>
    (\<exists>r \<in> set (db_events (db w')). er_workspace r = ws \<and> er_id r = ev_id e \<and> er_status r = EventMaterialized \<and> er_owner r = [] \<and> er_lease r = []) \<and>
    (\<forall>p \<in> set (ev_plans e). \<exists>r \<in> set (db_plans (db w')). qr_workspace r = pl_workspace p \<and> qr_id r = pl_id p \<and>
       qr_channel r = pl_channel p \<and> qr_status r = pl_status p \<and> qr_payload r = p\<lparr>pl_recipients := us\<rparr>) \<and>
    (\<forall>u \<in> set us. inbox_rows e u (db_items (db w')) \<noteq> [] \<and>
       ((\<forall>v \<in> set us. inbox_identity e v = inbox_identity e u \<longrightarrow> v = u) \<longrightarrow>
        (\<exists>l s x. locale_answer d (db w1) e u l \<and> chosen_snapshot e l s \<and> x \<in> set (inbox_rows e u (db_items (db w'))) \<and>
          delivered_row e u s (inbox_rows e u (db_items (db w))) x))) \<and>
    (let other = (\<lambda>y. \<not> (ir_workspace y = ws \<and> ir_id y \<in> inbox_identity e ` set us))
     in filter other (db_items (db w')) = filter other (db_items (db w)))"
proof -
  from assms(2,4) obtain e w1 where c: "claim_event ws i (nd_worker d) (timestamp now) (timestamp (now + lease_duration)) w = (Inr (Some e), w1)"
    and m: "worker_materialize d e w1 = (Inr (), w')"
    by (auto simp: sql_event_store_def elim!: process_at_cases)
  from m obtain fs w2 items w3 w4 where
    1: "resolve_audiences d e w1 = (Inr fs, w2)"
    and us: "unique_users fs \<noteq> []" "int (length (unique_users fs)) \<le> recipient_limit"
    and 2: "recipient_items d (with_recipients (unique_users fs) e) (unique_users fs) w2 = (Inr items, w3)"
    and 3: "es_materialize (nd_events d) (with_recipients (unique_users fs) e) items w3 = (Inr (), w4)"
    and 4: "for_each (\<lambda>p. notify (nd_notifier d) \<lparr>wk_kind = WorkChannelPlan, wk_workspace = pl_workspace p, wk_task = pl_id p\<rparr>)
         (ev_plans (with_recipients (unique_users fs) e)) w4 = (Inr (), w')"
    by (auto simp: worker_materialize_def bind_io_Inr guard_io_Inr Let_def)
  let ?us = "unique_users fs" and ?e = "with_recipients (unique_users fs) e"
  from claim_event_Some [OF assms(1) c] have key: "ev_workspace e = ws" "ev_id e = trim_space i" and before: "db_items (db w1) = db_items (db w)"
    by (auto simp: scan_event_def claim_event_row_def event_key_def claimed_def)
  from audience_answers [OF assms(3) 1] obtain vss where
    vss: "list_all2 (audience_answer d (db w1) e) (ev_audiences e) vss" "fs = ev_recipients e @ concat vss" "db w2 = db w1" by blast
  from locale_answers [OF assms(3) 2] obtain ls where
    ls0: "list_all2 (locale_answer d (db w2) ?e) ?us ls" and items: "items = map2 (item_from_event ?e) ?us ls" and w3: "db w3 = db w2" by blast
  have "ev_workspace ?e = ev_workspace e" by (simp add: with_recipients_def)
  then have "locale_answer d D ?e = locale_answer d D e" for D by (intro ext) (simp only: locale_answer_def)
  with ls0 vss(3) have ls: "list_all2 (locale_answer d (db w1) e) ?us ls" by simp
  then have len: "length ls = length ?us" by (simp add: list_all2_lengthD)
  have ok3: "schema_ok (db w3)" using preservesD [OF claim_event_schema assms(1) c] w3 vss(3) by simp
  from 3 assms(2) have "materialize qi ?e items w3 = (Inr (), w4)" by (simp add: sql_event_store_def)
  from materialize_refines [OF ok3 this] obtain sc where
    d4: "db w4 = (materialized ?e items (db w3))\<lparr>db_scopes := sc\<rparr>"
    and one: "length (filter (event_lease_matches ?e) (db_events (db w3))) = 1" by auto
  have d': "db w' = db w4" by (rule quiet_notify_db [OF assms(3) 4])
  have rows: "db_items (db w') = fold apply_item (map2 (item_from_event ?e) ?us ls) (db_items (db w))"
    unfolding d' d4 using w3 vss(3) before by (simp add: materialized_def items)
  from one obtain r where r: "r \<in> set (db_events (db w3))" "event_lease_matches ?e r"
    by (metis filter_empty_conv list.size(3) zero_neq_one)
  then have "finish_event_row ?e r \<in> set (db_events (db w'))"
    unfolding d' d4 by (auto simp: materialized_def in_update_where intro!: bexI [of _ r])
  then have fin: "\<exists>r \<in> set (db_events (db w')). er_workspace r = ws \<and> er_id r = ev_id e \<and> er_status r = EventMaterialized \<and> er_owner r = [] \<and> er_lease r = []"
    using r(2) key by (intro bexI [of _ "finish_event_row ?e r"]) (auto simp: finish_event_row_def event_lease_matches_def with_recipients_def)
  have plans: "\<exists>r \<in> set (db_plans (db w')). qr_workspace r = pl_workspace p \<and> qr_id r = pl_id p \<and>
       qr_channel r = pl_channel p \<and> qr_status r = pl_status p \<and> qr_payload r = p\<lparr>pl_recipients := ?us\<rparr>" if "p \<in> set (ev_plans e)" for p
  proof -
    have "plan_row_of (p\<lparr>pl_recipients := ?us\<rparr>) \<in> set (db_plans (db w'))"
      unfolding d' d4 using that by (simp add: materialized_def with_recipients_def)
    then show ?thesis by (rule rev_bexI) (simp add: plan_row_of_def)
  qed
  have present: "inbox_rows e u (db_items (db w')) \<noteq> []" if "u \<in> set ?us" for u
  proof -
    from that obtain n where n: "n < length ?us" "?us ! n = u" by (auto simp: in_set_conv_nth)
    then have "item_from_event ?e u (ls ! n) \<in> set (map2 (item_from_event ?e) ?us ls)"
      using len by (auto simp: set_zip intro!: image_eqI [of _ _ "(u, ls ! n)"])
    from item_present [OF this, of "db_items (db w)"] show ?thesis
      unfolding rows by (auto simp: inbox_rows_def list_ex_iff item_key_matches_def item_identity filter_empty_conv)
  qed
  have others: "filter (\<lambda>y. \<not> (ir_workspace y = ws \<and> ir_id y \<in> inbox_identity e ` set ?us)) (db_items (db w')) =
      filter (\<lambda>y. \<not> (ir_workspace y = ws \<and> ir_id y \<in> inbox_identity e ` set ?us)) (db_items (db w))"
    unfolding rows by (rule unkeyed_after_items) (auto simp: item_key_matches_def item_identity key dest: set_zip_leftD)
  have delivered: "\<exists>l s x. locale_answer d (db w1) e u l \<and> chosen_snapshot e l s \<and> x \<in> set (inbox_rows e u (db_items (db w'))) \<and>
      delivered_row e u s (inbox_rows e u (db_items (db w))) x"
    if "u \<in> set ?us" "\<forall>v \<in> set ?us. inbox_identity e v = inbox_identity e u \<longrightarrow> v = u" for u
    unfolding rows by (rule delivered_items [OF len unique_users_facts(1) that ls])
  have set_us: "set ?us = trim_space ` (set (ev_recipients e) \<union> set (concat vss)) - {[]}"
    by (simp add: unique_users_facts vss(2))
  have limit: "length ?us \<le> 500" using us(2) by (simp add: recipient_limit_def)
  have everyone: "\<forall>u \<in> set ?us. inbox_rows e u (db_items (db w')) \<noteq> [] \<and>
       ((\<forall>v \<in> set ?us. inbox_identity e v = inbox_identity e u \<longrightarrow> v = u) \<longrightarrow>
        (\<exists>l s x. locale_answer d (db w1) e u l \<and> chosen_snapshot e l s \<and> x \<in> set (inbox_rows e u (db_items (db w'))) \<and>
          delivered_row e u s (inbox_rows e u (db_items (db w))) x))"
    using present delivered by simp
  show ?thesis
    unfolding Let_def
    by (rule exI [of _ e], rule exI [of _ w1], rule exI [of _ vss], rule exI [of _ ?us])
      (intro conjI c key vss(1) us(1) unique_users_facts(1) limit set_us fin others everyone, intro ballI, erule plans)
qed

theorem inbox_worker_delivers_witness:
  "\<exists>w'. process_at sample_deps ''ws'' ''e1'' 0 (calm_world queued_database) = (Inr True, w') \<and>
     (\<exists>x \<in> set (db_items (db w')). ir_recipient x = ''u1'' \<and> ir_event x = ''e1'' \<and> ir_title x = sn_title (ev_snapshot sample_event) \<and> ir_read x = [])"
proof -
  obtain w' where p: "process_at sample_deps ''ws'' ''e1'' 0 (calm_world queued_database) = (Inr True, w')"
    using sample_process by (cases "process_at sample_deps ''ws'' ''e1'' 0 (calm_world queued_database)") auto
  have ok: "schema_ok (db (calm_world queued_database))" by simp
  have c: "claim_event ''ws'' ''e1'' (nd_worker sample_deps) (timestamp 0) (timestamp (0 + lease_duration)) (calm_world queued_database) =
      (Inr (Some sample_taken), calm_world sample_taken_database)"
    using sample_claim by (simp add: sample_deps_def)
  from inbox_worker_delivers [OF ok sample_deps_ok p] c obtain vss us where
    vss: "list_all2 (audience_answer sample_deps sample_taken_database sample_taken) (ev_audiences sample_taken) vss"
    and us: "set us = trim_space ` (set (ev_recipients sample_taken) \<union> set (concat vss)) - {[]}"
    and rows: "\<forall>u \<in> set us. inbox_rows sample_taken u (db_items (db w')) \<noteq> [] \<and>
       ((\<forall>v \<in> set us. inbox_identity sample_taken v = inbox_identity sample_taken u \<longrightarrow> v = u) \<longrightarrow>
        (\<exists>l s x. locale_answer sample_deps sample_taken_database sample_taken u l \<and> chosen_snapshot sample_taken l s \<and>
          x \<in> set (inbox_rows sample_taken u (db_items (db w'))) \<and>
          delivered_row sample_taken u s (inbox_rows sample_taken u (db_items (db (calm_world queued_database)))) x))"
    by auto
  have fields: "ev_audiences sample_taken = []" "ev_recipients sample_taken = [''u1'']" "ev_localized sample_taken = [(''en-US'', sample_snapshot)]"
    "ev_snapshot sample_taken = sample_snapshot" "ev_snapshot sample_event = sample_snapshot" "ev_id sample_taken = ''e1''"
    by (simp_all add: sample_taken_def sample_event_def)
  have "set us = {''u1''}" using us vss fields by (simp add: trim_space_plain plain_char_def)
  with rows obtain s x where x: "chosen_snapshot sample_taken [] s" "x \<in> set (inbox_rows sample_taken ''u1'' (db_items (db w')))"
    "delivered_row sample_taken ''u1'' s [] x"
    by (auto simp: locale_answer_def sample_deps_def queued_database_def empty_database_def inbox_rows_def)
  from x(1) have "s = ev_snapshot sample_event" by (auto simp: chosen_snapshot_def fields)
  with x(2,3) p show ?thesis by (auto simp: delivered_row_def shows_event_def inbox_rows_def fields)
qed

end
