(* ===== verification/Policy_Store.thy ===== *)
theory Policy_Store
  imports Integrity Go_Parse Samples
begin

text \<open>
  The policy half of the delivery store, internal/infrastructure/persistence/database/delivery/
  policy.go: the delivery policy of the workspace, the preferences of its recipients, and the
  delivery reservations that enforce the hourly limit and the deduplication window.
  \<open>self\<close> is the workspace the store was built for (\<open>Config.WorkspaceID\<close>).
\<close>

definition default_policy_key :: string where "default_policy_key = ''default''"

definition default_policy :: policy where
  "default_policy = \<lparr>po_enabled = True, po_quiet_enabled = False, po_quiet_start = ''22:00'',
     po_quiet_end = ''08:00'', po_timezone = ''Asia/Shanghai'', po_max_per_hour = 20,
     po_dedupe_window = 300, po_fallback_channels = [''collaboration'', ''email''],
     po_updated_by = [], po_updated_at = []\<rparr>"

definition policy_key_matches :: "workspace_id \<Rightarrow> policy_row \<Rightarrow> bool" where
  "policy_key_matches self r \<longleftrightarrow> pp_workspace r = self \<and> pp_key r = default_policy_key"

definition get_policy :: "workspace_id \<Rightarrow> policy sql" where
  "get_policy self =
     bind_io (wrapping ''get notification delivery policy'' (select_row policies_table (policy_key_matches self)))
     (\<lambda>r. ret (case r of None \<Rightarrow> default_policy | Some r \<Rightarrow> pp_payload r))"

text \<open>\<open>SavePolicy\<close> and \<open>SaveRecipientPreference\<close> insert the row or update it in one transaction.\<close>

definition new_policy_row :: "workspace_id \<Rightarrow> policy \<Rightarrow> policy_row" where
  "new_policy_row self p = \<lparr>pp_key = default_policy_key, pp_payload = p, pp_updated_by = po_updated_by p,
     pp_updated_at = po_updated_at p, pp_workspace = self\<rparr>"

definition save_policy_body :: "workspace_id \<Rightarrow> policy \<Rightarrow> (bool \<times> policy) sql" where
  "save_policy_body self p =
     bind_io (select_row policies_table (policy_key_matches self)) (\<lambda>existing.
      case existing of
        None \<Rightarrow> bind_io (wrapping ''insert notification delivery policy''
            (workspace_insert policies_table policy_clash ''_notification_delivery_policies'' self self
              (new_policy_row self p)))
          (\<lambda>_. commit_with p)
      | Some _ \<Rightarrow> bind_io (wrapping ''update notification delivery policy''
            (update_rows policies_table (policy_key_matches self)
              (\<lambda>r. r\<lparr>pp_payload := p, pp_updated_by := po_updated_by p, pp_updated_at := po_updated_at p\<rparr>)))
          (\<lambda>count. guard_io (count \<noteq> 1)
             (MutationConflict ''notification_delivery_policy'' default_policy_key ConflictOptimistic)
             (commit_with p)))"

definition save_policy :: "workspace_id \<Rightarrow> policy \<Rightarrow> policy sql" where
  "save_policy self p = transaction (save_policy_body self p)"

section \<open>Recipient preferences\<close>

definition require_workspace :: "workspace_id \<Rightarrow> workspace_id \<Rightarrow> 'a sql \<Rightarrow> 'a sql" where
  "require_workspace self ws m = guard_io (ws = [] \<or> ws \<noteq> self) (Sentinel ErrExactPermissionDenied) m"

definition list_recipient_preferences :: "workspace_id \<Rightarrow> workspace_id \<Rightarrow> preference list sql" where
  "list_recipient_preferences self ws =
     guard_io (ws = []) (ErrorText ''notification recipient preference workspace is required'')
     (require_workspace self ws
     (bind_io (wrapping ''list notification recipient preferences''
       (query (\<lambda>d. sort_key fr_recipient (filter (\<lambda>r. fr_workspace r = ws) (db_preferences d)))))
     (\<lambda>rs. ret (map fr_payload rs))))"

definition preference_key_matches :: "workspace_id \<Rightarrow> string \<Rightarrow> preference_row \<Rightarrow> bool" where
  "preference_key_matches ws u r \<longleftrightarrow> fr_workspace r = ws \<and> fr_recipient r = u"

definition get_recipient_preference :: "workspace_id \<Rightarrow> workspace_id \<Rightarrow> user_id \<Rightarrow> preference option sql" where
  "get_recipient_preference self ws u =
     guard_io (ws = [] \<or> u = []) (ErrorText ''notification recipient preference identity is required'')
     (require_workspace self ws
     (bind_io (wrapping ''get notification recipient preference''
       (select_row preferences_table (preference_key_matches ws u)))
     (\<lambda>r. ret (map_option fr_payload r))))"

definition new_preference_row :: "workspace_id \<Rightarrow> string \<Rightarrow> preference \<Rightarrow> preference_row" where
  "new_preference_row ws key value = \<lparr>fr_workspace = ws, fr_recipient = key, fr_payload = value,
     fr_updated_by = pf_updated_by value, fr_updated_at = pf_updated_at value\<rparr>"

definition save_preference_body :: "workspace_id \<Rightarrow> string \<Rightarrow> preference \<Rightarrow> (bool \<times> preference) sql" where
  "save_preference_body ws key value =
     bind_io (select_row preferences_table (preference_key_matches ws key)) (\<lambda>existing.
      case existing of
        None \<Rightarrow> bind_io (wrapping ''insert notification recipient preference''
            (workspace_insert preferences_table preference_clash ''_notification_recipient_preferences'' ws ws
              (new_preference_row ws key value)))
          (\<lambda>_. commit_with value)
      | Some _ \<Rightarrow> bind_io (wrapping ''update notification recipient preference''
            (update_rows preferences_table (preference_key_matches ws key)
              (\<lambda>r. r\<lparr>fr_payload := value, fr_updated_by := pf_updated_by value,
                 fr_updated_at := pf_updated_at value\<rparr>)))
          (\<lambda>count. guard_io (count \<noteq> 1)
             (MutationConflict ''notification_recipient_preference'' key ConflictOptimistic)
             (commit_with value)))"

definition save_recipient_preference :: "workspace_id \<Rightarrow> workspace_id \<Rightarrow> preference \<Rightarrow> preference sql" where
  "save_recipient_preference self ws value0 =
     (let key = trim_space (pf_recipient value0); value = value0\<lparr>pf_recipient := key\<rparr> in
      guard_io (ws = [] \<or> key = []) (ErrorText ''notification recipient preference identity is required'')
      (require_workspace self ws (transaction (save_preference_body ws key value))))"

section \<open>Reservations\<close>

definition hour_ns :: int where "hour_ns = 3600 * second_ns"

definition reservation_already_recorded :: "workspace_id \<Rightarrow> reservation \<Rightarrow> bool sql" where
  "reservation_already_recorded ws v =
     bind_io (wrapping ''read notification delivery reservation''
       (select_row reservations_table (\<lambda>r. vv_workspace r = ws \<and> rv_id (vv_reservation r) = rv_id v)))
     (\<lambda>found. case found of
        None \<Rightarrow> ret False
      | Some r \<Rightarrow>
          guard_io (rv_recipient (vv_reservation r) \<noteq> rv_recipient v \<or> rv_template (vv_reservation r) \<noteq> rv_template v \<or>
            rv_channel (vv_reservation r) \<noteq> rv_channel v \<or> rv_dedupe (vv_reservation r) \<noteq> rv_dedupe v)
            (ErrorText ''notification delivery reservation identity conflict'')
            (ret True))"

definition counts_for_hour :: "workspace_id \<Rightarrow> reservation \<Rightarrow> string \<Rightarrow> reservation_row \<Rightarrow> bool" where
  "counts_for_hour ws v since r \<longleftrightarrow> vv_workspace r = ws \<and>
     rv_recipient (vv_reservation r) = rv_recipient v \<and> rv_channel (vv_reservation r) = rv_channel v \<and>
     since \<le> rv_created_at (vv_reservation r)"

definition counts_as_duplicate :: "workspace_id \<Rightarrow> reservation \<Rightarrow> string \<Rightarrow> reservation_row \<Rightarrow> bool" where
  "counts_as_duplicate ws v since r \<longleftrightarrow> vv_workspace r = ws \<and>
     rv_recipient (vv_reservation r) = rv_recipient v \<and> rv_template (vv_reservation r) = rv_template v \<and>
     rv_channel (vv_reservation r) = rv_channel v \<and> rv_dedupe (vv_reservation r) = rv_dedupe v \<and>
     since \<le> rv_created_at (vv_reservation r)"

definition check_duplicate :: "workspace_id \<Rightarrow> int \<Rightarrow> reservation \<Rightarrow> instant \<Rightarrow> unit sql" where
  "check_duplicate ws window v created =
     (if trim_space (rv_dedupe v) \<noteq> [] \<and> 0 < window
      then bind_io (count_rows reservations_table
             (counts_as_duplicate ws v (timestamp (created + wrap64 (- seconds window)))))
           (\<lambda>n. guard_io (0 < n) (Sentinel ErrDuplicate) (ret ()))
      else ret ())"

definition insert_reservation :: "workspace_id \<Rightarrow> reservation \<Rightarrow> unit sql" where
  "insert_reservation ws v =
     wrapping ''insert notification delivery reservation''
       (workspace_insert reservations_table reservation_clash ''_notification_delivery_reservations'' ws ws
         \<lparr>vv_workspace = ws, vv_reservation = v\<rparr>)"

definition reserve_new :: "workspace_id \<Rightarrow> int \<Rightarrow> int \<Rightarrow> reservation \<Rightarrow> instant \<Rightarrow> unit sql" where
  "reserve_new ws limit window v created =
     bind_io (count_rows reservations_table (counts_for_hour ws v (timestamp (created - hour_ns)))) (\<lambda>count.
     guard_io (limit \<le> count) (Sentinel ErrFrequencyExceeded)
     (bind_io (check_duplicate ws window v created) (\<lambda>_. insert_reservation ws v)))"

definition reserve_one :: "workspace_id \<Rightarrow> int \<Rightarrow> int \<Rightarrow> reservation \<Rightarrow> unit sql" where
  "reserve_one ws limit window v =
     guard_io (trim_space (rv_id v) = [] \<or> rv_recipient v = [])
       (ErrorText ''notification delivery reservation identity is required'')
     (bind_io (reservation_already_recorded ws v) (\<lambda>idempotent.
      if idempotent then ret () else
      case parse_rfc3339 (rv_created_at v) of
        None \<Rightarrow> fail (Wrapped ''parse notification delivery reservation timestamp'' (ErrorText ''parsing time''))
      | Some created \<Rightarrow> reserve_new ws limit window v created))"

definition reserve_batch :: "workspace_id \<Rightarrow> reservation list \<Rightarrow> int \<Rightarrow> int \<Rightarrow> unit sql" where
  "reserve_batch ws vs limit window =
     guard_io (ws = [] \<or> vs = [] \<or> limit < 1)
       (ErrorText ''notification delivery reservations and positive hourly limit are required'')
     (transaction (bind_io (for_each (reserve_one ws limit window) vs) (\<lambda>_. commit_with ())))"

section \<open>What one reservation does\<close>

text \<open>
  \<open>admits limit window ws v d\<close>: the database \<open>d\<close> has room for \<open>v\<close>: fewer than \<open>limit\<close>
  reservations of its recipient and channel in the last hour, no duplicate in the window.
\<close>

definition admits :: "int \<Rightarrow> int \<Rightarrow> workspace_id \<Rightarrow> reservation \<Rightarrow> database \<Rightarrow> bool" where
  "admits limit window ws v d \<longleftrightarrow>
     (\<exists>c. parse_rfc3339 (rv_created_at v) = Some c \<and>
       int (length (filter (counts_for_hour ws v (timestamp (c - hour_ns))) (db_reservations d))) < limit \<and>
       (trim_space (rv_dedupe v) \<noteq> [] \<and> 0 < window \<longrightarrow>
         \<not> list_ex (counts_as_duplicate ws v (timestamp (c + wrap64 (- seconds window)))) (db_reservations d)))"

definition recorded :: "workspace_id \<Rightarrow> reservation \<Rightarrow> database \<Rightarrow> bool" where
  "recorded ws v d \<longleftrightarrow> (\<exists>r \<in> set (db_reservations d). vv_workspace r = ws \<and>
     rv_id (vv_reservation r) = rv_id v \<and> rv_recipient (vv_reservation r) = rv_recipient v \<and>
     rv_template (vv_reservation r) = rv_template v \<and> rv_channel (vv_reservation r) = rv_channel v \<and>
     rv_dedupe (vv_reservation r) = rv_dedupe v)"

definition reserved :: "workspace_id \<Rightarrow> reservation \<Rightarrow> database \<Rightarrow> database" where
  "reserved ws v d = d\<lparr>db_reservations := db_reservations d @ [\<lparr>vv_workspace = ws, vv_reservation = v\<rparr>]\<rparr>"

lemma parts_in_reserved [simp]:
  "db_reservations (reserved ws v d) = db_reservations d @ [\<lparr>vv_workspace = ws, vv_reservation = v\<rparr>]"
  by (simp add: reserved_def)

lemma reservation_already_recorded_Inr:
  assumes "reservation_already_recorded ws v w = (Inr b, w')"
  shows "db w' = db w \<and> (b \<longrightarrow> recorded ws v (db w))"
proof -
  from assms obtain f w1 where s: "select_row reservations_table (\<lambda>r. vv_workspace r = ws \<and> rv_id (vv_reservation r) = rv_id v) w = (Inr f, w1)"
    and r: "(case f of None \<Rightarrow> ret False
      | Some r \<Rightarrow>
          guard_io (rv_recipient (vv_reservation r) \<noteq> rv_recipient v \<or> rv_template (vv_reservation r) \<noteq> rv_template v \<or>
            rv_channel (vv_reservation r) \<noteq> rv_channel v \<or> rv_dedupe (vv_reservation r) \<noteq> rv_dedupe v)
            (ErrorText ''notification delivery reservation identity conflict'')
            (ret True)) w1 = (Inr b, w')"
    by (auto simp: reservation_already_recorded_def bind_io_Inr wrapping_Inr)
  from select_row_Inr [OF s] have f: "f = List.find (\<lambda>r. vv_workspace r = ws \<and> rv_id (vv_reservation r) = rv_id v) (db_reservations (db w))"
    and d: "db w1 = db w" by simp_all
  show ?thesis
  proof (cases f)
    case None
    with r d show ?thesis by simp
  next
    case (Some x)
    then have "x \<in> set (db_reservations (db w))" "vv_workspace x = ws" "rv_id (vv_reservation x) = rv_id v"
      using f by (auto simp: find_Some_iff)
    with r Some d show ?thesis by (auto simp: guard_io_Inr recorded_def)
  qed
qed

lemma check_duplicate_Inr:
  assumes "check_duplicate ws window v c w = (Inr u, w')"
  shows "db w' = db w \<and> (trim_space (rv_dedupe v) \<noteq> [] \<and> 0 < window \<longrightarrow>
    \<not> list_ex (counts_as_duplicate ws v (timestamp (c + wrap64 (- seconds window)))) (db_reservations (db w)))"
  using assms
  by (auto simp: check_duplicate_def bind_io_Inr guard_io_Inr list_ex_iff filter_empty_conv
        split: if_splits dest!: count_rows_Inr)

lemma reservation_reads [preserves_intros]:
  "preserves P (reservation_already_recorded ws v)" "preserves P (check_duplicate ws window v c)"
  unfolding reservation_already_recorded_def check_duplicate_def by (intro preserves_intros)+

lemma reads_db:
  "reservation_already_recorded ws v w = (r, w1) \<Longrightarrow> db w1 = db w"
  "check_duplicate ws window v c w = (r', w1) \<Longrightarrow> db w1 = db w"
  using preservesD [of "\<lambda>d. d = db w"] reservation_reads [of "\<lambda>d. d = db w"] by blast+

lemma insert_reservation_effect:
  assumes "insert_reservation ws v w = (r, w')"
  shows "db w' = db w \<and> r \<noteq> Inr () \<or> db w' = reserved ws v (db w) \<and>
    \<not> list_ex (reservation_clash \<lparr>vv_workspace = ws, vv_reservation = v\<rparr>) (db_reservations (db w))"
proof -
  obtain x where i: "workspace_insert reservations_table reservation_clash ''_notification_delivery_reservations'' ws ws
         \<lparr>vv_workspace = ws, vv_reservation = v\<rparr> w = (x, w')" and x: "r = Inr () \<longrightarrow> x = Inr ()"
    using assms by (auto simp: insert_reservation_def wrapping_def split: prod.splits sum.splits)
  show ?thesis
  proof (cases "x = Inr ()")
    case True
    with workspace_insert_Inr [OF i [unfolded True]] show ?thesis by (simp add: reserved_def)
  next
    case False
    with workspace_insert_db [OF i] x show ?thesis by (auto simp: reserved_def)
  qed
qed

lemma reserve_new_effect:
  assumes "reserve_new ws limit window v c w = (r, w')" "parse_rfc3339 (rv_created_at v) = Some c"
  shows "db w' = db w \<and> r \<noteq> Inr () \<or>
    admits limit window ws v (db w) \<and> db w' = reserved ws v (db w) \<and>
    \<not> list_ex (reservation_clash \<lparr>vv_workspace = ws, vv_reservation = v\<rparr>) (db_reservations (db w))"
proof -
  obtain x w1 where n: "count_rows reservations_table (counts_for_hour ws v (timestamp (c - hour_ns))) w = (x, w1)" by fastforce
  obtain y w2 where k: "check_duplicate ws window v c w1 = (y, w2)" by fastforce
  have d1: "db w1 = db w" and d2: "db w2 = db w"
    using statement_db(3) [OF n] reads_db(2) [OF k] by simp_all
  show ?thesis
  proof (cases "(\<exists>m. x = Inr m \<and> m < limit) \<and> y = Inr ()")
    case False
    with assms(1) n k d1 d2 show ?thesis
      by (cases x; cases y) (auto simp: reserve_new_def bind_io_def guard_io_def split: if_splits)
  next
    case True
    then obtain m where x: "x = Inr m" and lt: "m < limit" and y: "y = Inr ()" by blast
    with assms(1) n k have i: "insert_reservation ws v w2 = (r, w')"
      by (simp add: reserve_new_def bind_io_run guard_io_def)
    from n x have "m = int (length (filter (counts_for_hour ws v (timestamp (c - hour_ns))) (db_reservations (db w))))"
      by (auto dest: count_rows_Inr)
    with assms(2) lt check_duplicate_Inr [OF k [unfolded y]] d1 have "admits limit window ws v (db w)"
      by (auto simp: admits_def)
    with insert_reservation_effect [OF i] d2 show ?thesis by auto
  qed
qed

text \<open>One reservation: nothing, or one row appended to a database that admits it.\<close>

lemma reserve_one_effect:
  assumes "reserve_one ws limit window v w = (r, w')"
  shows "db w' = db w \<and> (r = Inr () \<longrightarrow> recorded ws v (db w)) \<or>
    admits limit window ws v (db w) \<and> db w' = reserved ws v (db w) \<and>
    \<not> list_ex (reservation_clash \<lparr>vv_workspace = ws, vv_reservation = v\<rparr>) (db_reservations (db w))"
proof -
  obtain x w1 where a: "reservation_already_recorded ws v w = (x, w1)" by fastforce
  have d1: "db w1 = db w" by (rule reads_db(1) [OF a])
  show ?thesis
  proof (cases "(trim_space (rv_id v) = [] \<or> rv_recipient v = []) \<or> x \<noteq> Inr False \<or> parse_rfc3339 (rv_created_at v) = None")
    case True
    with assms a d1 reservation_already_recorded_Inr [of ws v w True w1] show ?thesis
      by (cases x) (auto simp: reserve_one_def bind_io_def guard_io_def split: if_splits)
  next
    case False
    then obtain c where c: "parse_rfc3339 (rv_created_at v) = Some c" by auto
    with False assms a have "reserve_new ws limit window v c w1 = (r, w')"
      by (auto simp: reserve_one_def bind_io_run guard_io_def)
    from reserve_new_effect [OF this c] d1 show ?thesis by auto
  qed
qed

text \<open>So an invariant that admitted rows keep is kept by the whole operation.\<close>

lemma reserve_batch_preserves:
  assumes "\<And>v d. v \<in> set vs \<Longrightarrow> P d \<Longrightarrow> admits limit window ws v d \<Longrightarrow>
      \<not> list_ex (reservation_clash \<lparr>vv_workspace = ws, vv_reservation = v\<rparr>) (db_reservations d) \<Longrightarrow> P (reserved ws v d)"
  shows "preserves P (reserve_batch ws vs limit window)"
  unfolding reserve_batch_def
proof (intro preserves_intros)
  fix v assume v: "v \<in> set vs"
  show "preserves P (reserve_one ws limit window v)"
    by (rule preservesI) (use reserve_one_effect assms [OF v] in fastforce)
qed

end
