(* ===== verification/Policy_Limits.thy ===== *)
theory Policy_Limits
  imports Policy_Store
begin

text \<open>
  What the reservations guarantee: no recipient gets more than the hourly limit on a channel
  in any hour, duplicates keep the distance of the window, and a batch is atomic and can be
  repeated. Then the round trips of policies and preferences.
\<close>

text \<open>The instants \<open>ReserveBatch\<close> works with: timestamps with room for an hour before them.\<close>

definition stamped :: "reservation \<Rightarrow> instant \<Rightarrow> bool" where
  "stamped v c \<longleftrightarrow> rv_created_at v = timestamp c \<and> in_range c \<and> in_range (c - hour_ns)"

definition in_hour :: "workspace_id \<Rightarrow> user_id \<Rightarrow> string \<Rightarrow> instant \<Rightarrow> reservation_row \<Rightarrow> bool" where
  "in_hour ws u ch t r \<longleftrightarrow> vv_workspace r = ws \<and> rv_recipient (vv_reservation r) = u \<and>
     rv_channel (vv_reservation r) = ch \<and> timestamp (t - hour_ns) \<le> rv_created_at (vv_reservation r) \<and>
     rv_created_at (vv_reservation r) \<le> timestamp t"

definition hourly_ok :: "int \<Rightarrow> workspace_id \<Rightarrow> database \<Rightarrow> bool" where
  "hourly_ok limit ws d \<longleftrightarrow> (\<forall>u ch t. in_range t \<and> in_range (t - hour_ns) \<longrightarrow>
     int (length (filter (in_hour ws u ch t) (db_reservations d))) \<le> limit)"

lemma length_filter_mono:
  "(\<And>x. x \<in> set xs \<Longrightarrow> P x \<Longrightarrow> Q x) \<Longrightarrow> length (filter P xs) \<le> length (filter Q xs)"
  by (induction xs) (auto simp: le_SucI)

lemma hourly_reserved:
  assumes "hourly_ok limit ws' d" "admits limit window ws v d" "stamped v c"
  shows "hourly_ok limit ws' (reserved ws v d)"
  unfolding hourly_ok_def
proof (intro allI impI)
  fix u ch t assume t: "in_range t \<and> in_range (t - hour_ns)"
  let ?new = "\<lparr>vv_workspace = ws, vv_reservation = v\<rparr>"
  have old: "int (length (filter (in_hour ws' u ch t) (db_reservations d))) \<le> limit"
    using assms(1) t by (simp add: hourly_ok_def)
  show "int (length (filter (in_hour ws' u ch t) (db_reservations (reserved ws v d)))) \<le> limit"
  proof (cases "in_hour ws' u ch t ?new")
    case True
    from assms(3) have c: "rv_created_at v = timestamp c" "in_range c" "in_range (c - hour_ns)"
      by (simp_all add: stamped_def)
    from True have "timestamp c \<le> timestamp t" by (simp add: in_hour_def c(1))
    with c(2) t have "c \<le> t" by (simp add: timestamp_le_iff)
    then have le: "timestamp (c - hour_ns) \<le> timestamp (t - hour_ns)"
      using c t by (simp add: timestamp_le_iff)
    have "length (filter (in_hour ws' u ch t) (db_reservations d)) \<le>
        length (filter (counts_for_hour ws v (timestamp (c - hour_ns))) (db_reservations d))"
      using True le by (intro length_filter_mono) (auto simp: in_hour_def counts_for_hour_def)
    moreover have "int (length (filter (counts_for_hour ws v (timestamp (c - hour_ns))) (db_reservations d))) < limit"
      using assms(2) c(1,2) by (auto simp: admits_def parse_timestamp)
    ultimately show ?thesis using True by simp
  qed (use old in simp)
qed

text \<open>C7: the hourly limit holds. If no recipient has more than \<open>limit\<close> reservations on a channel
  within any hour, then so it is after \<open>ReserveBatch\<close> with that limit, whatever the outcome of
  the call: also when several reservations of the batch are for the same recipient, when
  reservations arrive out of order of their times, or when the driver fails.\<close>

theorem hourly_limit_holds:
  assumes "hourly_ok limit ws' (db w)" "\<forall>v \<in> set vs. \<exists>c. stamped v c"
    and "reserve_batch ws vs limit window w = (r, w')"
  shows "hourly_ok limit ws' (db w')"
proof -
  have "preserves (hourly_ok limit ws') (reserve_batch ws vs limit window)"
    by (rule reserve_batch_preserves) (use assms(2) hourly_reserved in blast)
  from preservesD [OF this assms(1,3)] show ?thesis .
qed

definition sample_reservation :: reservation where
  "sample_reservation = \<lparr>rv_id = ''r1'', rv_recipient = ''u1'', rv_template = ''order.email'',
     rv_channel = ''email'', rv_dedupe = ''order:7'', rv_created_at = timestamp 0\<rparr>"

lemma sample_stamped: "stamped sample_reservation 0"
  by (simp add: stamped_def sample_reservation_def in_range_def year_start_def unix_epoch_day_def
      day_ns_def hour_ns_def second_ns_def)

theorem hourly_limit_holds_witness:
  "hourly_ok 1 ''ws'' (db (snd (reserve_batch ''ws'' [sample_reservation,
     sample_reservation\<lparr>rv_id := ''r2''\<rparr>] 1 300 (calm_world empty_database))))"
proof -
  let ?vs = "[sample_reservation, sample_reservation\<lparr>rv_id := ''r2''\<rparr>]"
  obtain r w' where m: "reserve_batch ''ws'' ?vs 1 300 (calm_world empty_database) = (r, w')" by fastforce
  have "hourly_ok 1 ''ws'' (db (calm_world empty_database))" by (simp add: hourly_ok_def empty_database_def)
  moreover have "\<forall>v \<in> set ?vs. \<exists>c. stamped v c"
    using sample_stamped by (auto simp: stamped_def)
  ultimately have "hourly_ok 1 ''ws'' (db w')" using m by (rule hourly_limit_holds)
  with m show ?thesis by simp
qed

section \<open>Duplicates\<close>

definition same_content :: "reservation_row \<Rightarrow> reservation_row \<Rightarrow> bool" where
  "same_content a b \<longleftrightarrow> vv_workspace a = vv_workspace b \<and>
     rv_recipient (vv_reservation a) = rv_recipient (vv_reservation b) \<and>
     rv_template (vv_reservation a) = rv_template (vv_reservation b) \<and>
     rv_channel (vv_reservation a) = rv_channel (vv_reservation b) \<and>
     rv_dedupe (vv_reservation a) = rv_dedupe (vv_reservation b) \<and> trim_space (rv_dedupe (vv_reservation a)) \<noteq> []"

definition spaced :: "int \<Rightarrow> reservation_row list \<Rightarrow> bool" where
  "spaced window = sorted_wrt (\<lambda>a b. same_content a b \<longrightarrow>
     (\<forall>s t. rv_created_at (vv_reservation a) = timestamp s \<and> in_range s \<and>
       rv_created_at (vv_reservation b) = timestamp t \<and> in_range t \<longrightarrow> s + window * second_ns < t))"

lemma seconds_small: "0 \<le> n \<Longrightarrow> n \<le> 86400 \<Longrightarrow> wrap64 (- seconds n) = - (n * second_ns)"
  by (simp add: seconds_def wrap64_id second_ns_def)

lemma spaced_reserved:
  assumes "spaced window (db_reservations d)" "admits limit window ws v d" "stamped v c"
    and "0 < window" "window \<le> 86400" "in_range (c - window * second_ns)"
  shows "spaced window (db_reservations (reserved ws v d))"
proof -
  from assms(3) have c: "rv_created_at v = timestamp c" "in_range c" by (simp_all add: stamped_def)
  have "s + window * second_ns < t"
    if r: "r \<in> set (db_reservations d)" "same_content r \<lparr>vv_workspace = ws, vv_reservation = v\<rparr>"
      and s: "rv_created_at (vv_reservation r) = timestamp s" "in_range s"
      and t: "timestamp c = timestamp t" "in_range t" for r s t
  proof -
    have "trim_space (rv_dedupe v) \<noteq> []" using r(2) by (auto simp: same_content_def)
    then have "\<not> list_ex (counts_as_duplicate ws v (timestamp (c - window * second_ns))) (db_reservations d)"
      using assms(2,4,5) c by (auto simp: admits_def parse_timestamp seconds_small)
    with r s have "\<not> timestamp (c - window * second_ns) \<le> timestamp s"
      by (auto simp: list_ex_iff counts_as_duplicate_def same_content_def)
    then have "s < c - window * second_ns" using assms(6) s(2) by (simp add: timestamp_le_iff)
    moreover have "c = t" using t c(2) by (simp add: timestamp_inject)
    ultimately show ?thesis by simp
  qed
  with assms(1) c show ?thesis by (auto simp: spaced_def sorted_wrt_append)
qed

text \<open>duplicates keep their distance. Under a deduplication window of at most a day, any two
  reservations of the same recipient, template, channel and non-blank deduplication key are
  recorded more than the window apart.\<close>

theorem duplicates_spaced:
  assumes "spaced window (db_reservations (db w))" "0 < window" "window \<le> 86400"
    and "\<forall>v \<in> set vs. \<exists>c. stamped v c \<and> in_range (c - window * second_ns)"
    and "reserve_batch ws vs limit window w = (r, w')"
  shows "spaced window (db_reservations (db w'))"
proof -
  have "preserves (\<lambda>d. spaced window (db_reservations d)) (reserve_batch ws vs limit window)"
    by (rule reserve_batch_preserves) (use assms(2,3,4) spaced_reserved in blast)
  from preservesD [OF this, of w] assms(1,5) show ?thesis by simp
qed

theorem duplicates_spaced_witness:
  "spaced 300 (db_reservations (db (snd (reserve_batch ''ws'' [sample_reservation,
     sample_reservation\<lparr>rv_id := ''r2''\<rparr>] 20 300 (calm_world empty_database)))))"
proof -
  let ?vs = "[sample_reservation, sample_reservation\<lparr>rv_id := ''r2''\<rparr>]"
  obtain r w' where m: "reserve_batch ''ws'' ?vs 20 300 (calm_world empty_database) = (r, w')" by fastforce
  have "in_range (0 - 300 * second_ns)"
    by (simp add: in_range_def year_start_def unix_epoch_day_def day_ns_def second_ns_def)
  then have "\<forall>v \<in> set ?vs. \<exists>c. stamped v c \<and> in_range (c - 300 * second_ns)"
    using sample_stamped by (auto simp: stamped_def intro!: exI [of _ 0])
  moreover have "spaced 300 (db_reservations (db (calm_world empty_database)))"
    by (simp add: spaced_def empty_database_def)
  ultimately have "spaced 300 (db_reservations (db w'))"
    using duplicates_spaced [OF _ _ _ _ m] by simp
  with m show ?thesis by simp
qed

section \<open>Batches\<close>

lemma recorded_reserved: "recorded ws v (reserved ws v d)" "recorded ws' u d \<Longrightarrow> recorded ws' u (reserved ws v d)"
  by (auto simp: recorded_def)

lemma reserve_one_keeps_recorded:
  "reserve_one ws limit window v w = (r, w') \<Longrightarrow> recorded ws' u (db w) \<Longrightarrow> recorded ws' u (db w')"
  using reserve_one_effect [of ws limit window v w r w'] recorded_reserved by metis

lemma reserve_loop_records:
  assumes "for_each (reserve_one ws limit window) vs w = (Inr u, w')"
  shows "(\<forall>v \<in> set vs. recorded ws v (db w')) \<and> (\<forall>ws' x. recorded ws' x (db w) \<longrightarrow> recorded ws' x (db w'))"
  using assms
proof (induction vs arbitrary: w)
  case (Cons v vs)
  then obtain w1 where 1: "reserve_one ws limit window v w = (Inr (), w1)"
      and 2: "for_each (reserve_one ws limit window) vs w1 = (Inr u, w')"
    by (auto simp: bind_io_Inr)
  from reserve_one_effect [OF 1] have "recorded ws v (db w1)" using recorded_reserved by metis
  with Cons.IH [OF 2] reserve_one_keeps_recorded [OF 1] show ?case by simp
qed simp

text \<open>A batch is all or nothing: on success every reservation of it is recorded; on an error the
  database is untouched, or the reply of the commit was lost and every one is recorded.\<close>

theorem reserve_batch_atomic:
  assumes "reserve_batch ws vs limit window w = (r, w')"
  shows "(\<forall>v \<in> set vs. recorded ws v (db w')) \<and> (r = Inr () \<or> r = Inl DriverError) \<or>
    db w' = db w \<and> (\<exists>e. r = Inl e)"
proof (cases "ws = [] \<or> vs = [] \<or> limit < 1")
  case True
  with assms show ?thesis by (auto simp: reserve_batch_def guard_io_def)
next
  case False
  with assms have t: "transaction (bind_io (for_each (reserve_one ws limit window) vs) (\<lambda>_. commit_with ())) w = (r, w')"
    by (simp add: reserve_batch_def guard_io_def)
  show ?thesis
  proof (cases r)
    case (Inr u)
    from t [unfolded Inr] obtain c w1 w2 where "bind_io (for_each (reserve_one ws limit window) vs) (\<lambda>_. commit_with ()) w1 = (Inr (c, u), w2)"
        "db w' = (if c then db w2 else db w)" by (rule transaction_Inr)
    then have "for_each (reserve_one ws limit window) vs w1 = (Inr (), w2)" "db w' = db w2"
      by (auto simp: bind_io_Inr)
    with reserve_loop_records [of ws limit window vs w1 "()" w2] show ?thesis by (auto simp: Inr)
  next
    case (Inl e)
    from t [unfolded Inl] show ?thesis
    proof (rule transaction_Inl)
      fix a w1 w2 assume "e = DriverError" "db w' = db w2"
        and "bind_io (for_each (reserve_one ws limit window) vs) (\<lambda>_. commit_with ()) w1 = (Inr (True, a), w2)"
      then have "for_each (reserve_one ws limit window) vs w1 = (Inr (), w2)" by (auto simp: bind_io_Inr)
      with reserve_loop_records [of ws limit window vs w1 "()" w2] \<open>e = _\<close> \<open>db w' = db w2\<close>
      show ?thesis by (auto simp: Inl)
    qed (simp add: Inl)
  qed
qed

lemma sample_reserve:
  "reserve_batch ''ws'' [sample_reservation] 20 300 (calm_world empty_database) =
     (Inr (), calm_world (reserved ''ws'' sample_reservation empty_database))"
proof -
  have "parse_rfc3339 (rv_created_at sample_reservation) = Some 0" "trim_space (rv_id sample_reservation) \<noteq> []"
      "rv_recipient sample_reservation \<noteq> []" "rv_id sample_reservation = ''r1''"
    using sample_stamped by (simp_all add: stamped_def parse_timestamp)
      (simp_all add: sample_reservation_def trim_space_plain plain_char_def)
  then show ?thesis
    by (simp add: reserve_batch_def reserve_one_def reserve_new_def insert_reservation_def check_duplicate_def
        reservation_already_recorded_def statement_runs calm_world_def empty_database_def reserved_def)
qed

theorem reserve_batch_atomic_witness:
  "recorded ''ws'' sample_reservation (db (snd (reserve_batch ''ws'' [sample_reservation] 20 300 (calm_world empty_database))))"
  using reserve_batch_atomic [OF sample_reserve] sample_reserve by simp

lemma recorded_find:
  assumes "schema_ok d" "recorded ws v d"
  obtains r where "List.find (\<lambda>r. vv_workspace r = ws \<and> rv_id (vv_reservation r) = rv_id v) (db_reservations d) = Some r"
    "rv_recipient (vv_reservation r) = rv_recipient v" "rv_template (vv_reservation r) = rv_template v"
    "rv_channel (vv_reservation r) = rv_channel v" "rv_dedupe (vv_reservation r) = rv_dedupe v"
proof -
  let ?P = "\<lambda>r. vv_workspace r = ws \<and> rv_id (vv_reservation r) = rv_id v"
  from assms(2) obtain x where x: "x \<in> set (db_reservations d)" "?P x"
      "rv_recipient (vv_reservation x) = rv_recipient v" "rv_template (vv_reservation x) = rv_template v"
      "rv_channel (vv_reservation x) = rv_channel v" "rv_dedupe (vv_reservation x) = rv_dedupe v"
    by (auto simp: recorded_def)
  then obtain r where r: "List.find ?P (db_reservations d) = Some r"
    by (cases "List.find ?P (db_reservations d)") (auto simp: find_None_iff)
  then have "r \<in> set (db_reservations d)" "?P r" by (auto simp: find_Some_iff)
  with x(1,2) have "r = x"
    using no_clash_unique [OF schema_ok_parts(14) [OF assms(1)], of r x] clash_sym(14)
    by (auto simp: reservation_clash_def)
  with r x(3-6) that show thesis by blast
qed

lemma reserve_one_again:
  assumes "schema_ok (db w)" "recorded ws v (db w)" "reserve_one ws limit window v w = (r, w')"
  shows "db w' = db w \<and> (outcomes w = [] \<and> trim_space (rv_id v) \<noteq> [] \<and> rv_recipient v \<noteq> [] \<longrightarrow> r = Inr () \<and> w' = w)"
proof -
  from assms(1,2) obtain x where x:
    "List.find (\<lambda>r. vv_workspace r = ws \<and> rv_id (vv_reservation r) = rv_id v) (db_reservations (db w)) = Some x"
    "rv_recipient (vv_reservation x) = rv_recipient v" "rv_template (vv_reservation x) = rv_template v"
    "rv_channel (vv_reservation x) = rv_channel v" "rv_dedupe (vv_reservation x) = rv_dedupe v" by (rule recorded_find)
  then have "list_ex (reservation_clash \<lparr>vv_workspace = ws, vv_reservation = v\<rparr>) (db_reservations (db w))"
    by (auto simp: find_Some_iff list_ex_iff reservation_clash_def)
  with reserve_one_effect [OF assms(3)] have "db w' = db w" by auto
  moreover have "reserve_one ws limit window v w = (Inr (), w)"
    if "outcomes w = []" "trim_space (rv_id v) \<noteq> []" "rv_recipient v \<noteq> []"
    using that x by (simp add: reserve_one_def reservation_already_recorded_def statement_runs)
  ultimately show ?thesis using assms(3) by auto
qed

lemma reserve_loop_again:
  assumes "schema_ok (db w)" "\<forall>v \<in> set vs. recorded ws v (db w)" "for_each (reserve_one ws limit window) vs w = (r, w')"
  shows "db w' = db w \<and> (outcomes w = [] \<and> (\<forall>v \<in> set vs. trim_space (rv_id v) \<noteq> [] \<and> rv_recipient v \<noteq> []) \<longrightarrow>
    r = Inr () \<and> w' = w)"
  using assms
proof (induction vs arbitrary: w)
  case (Cons v vs)
  obtain x w1 where 1: "reserve_one ws limit window v w = (x, w1)" by fastforce
  note one = reserve_one_again [OF Cons.prems(1) _ 1]
  show ?case
  proof (cases x)
    case (Inl e)
    with 1 Cons.prems(3) have "r = Inl e" "w' = w1" by (auto simp: bind_io_def)
    with one Cons.prems(2) Inl show ?thesis by auto
  next
    case (Inr u)
    with 1 Cons.prems(3) have 2: "for_each (reserve_one ws limit window) vs w1 = (r, w')" by (simp add: bind_io_run)
    from one Cons.prems(2) have d: "db w1 = db w" by simp
    from Cons.IH [OF _ _ 2] Cons.prems(1,2) d one show ?thesis by auto
  qed
qed simp

text \<open>Reserving is idempotent. Repeating a recorded batch, with whatever timestamps, limits and
  window the retry has, changes nothing, and it succeeds when the driver does.\<close>

theorem reserve_batch_idempotent:
  assumes "schema_ok (db w)" "\<forall>v \<in> set vs. recorded ws v (db w)"
    and "reserve_batch ws vs limit window w = (r, w')"
  shows "db w' = db w \<and> (outcomes w = [] \<and> ws \<noteq> [] \<and> vs \<noteq> [] \<and> 1 \<le> limit \<and>
    (\<forall>v \<in> set vs. trim_space (rv_id v) \<noteq> [] \<and> rv_recipient v \<noteq> []) \<longrightarrow> r = Inr ())"
proof -
  let ?loop = "for_each (reserve_one ws limit window) vs"
  have "preserves (\<lambda>d. d = db w) ?loop"
  proof (rule preservesI)
    fix w0 x w1 assume "db w0 = db w" "?loop w0 = (x, w1)"
    with reserve_loop_again [of w0 vs ws limit window x w1] assms(1,2) show "db w1 = db w" by simp
  qed
  then have "preserves (\<lambda>d. d = db w) (reserve_batch ws vs limit window)"
    unfolding reserve_batch_def
    by (intro preserves_guard preserves_transaction(1) preserves_bind preserves_basic)
  from preservesD [OF this refl assms(3)] have "db w' = db w" .
  moreover have "r = Inr ()"
    if "outcomes w = []" "ws \<noteq> []" "vs \<noteq> []" "1 \<le> limit"
      and "\<forall>v \<in> set vs. trim_space (rv_id v) \<noteq> [] \<and> rv_recipient v \<noteq> []"
  proof -
    from reserve_loop_again [OF assms(1,2)] that have "?loop w = (Inr (), w)" by (cases "?loop w") auto
    with that assms(3) show ?thesis by (auto simp: reserve_batch_def statement_runs)
  qed
  ultimately show ?thesis by blast
qed

theorem reserve_batch_idempotent_witness:
  "\<exists>w'. reserve_batch ''ws'' [sample_reservation] 20 300 (calm_world (reserved ''ws'' sample_reservation empty_database)) = (Inr (), w')"
proof -
  let ?d = "reserved ''ws'' sample_reservation empty_database"
  obtain r w' where m: "reserve_batch ''ws'' [sample_reservation] 20 300 (calm_world ?d) = (r, w')" by fastforce
  have "schema_ok (db (calm_world ?d))"
    by (simp add: reserved_def schema_ok_def empty_database_def no_clash_def)
  moreover have "\<forall>v \<in> set [sample_reservation]. recorded ''ws'' v (db (calm_world ?d))"
    by (simp add: recorded_reserved)
  ultimately have "db w' = db (calm_world ?d) \<and> (outcomes (calm_world ?d) = [] \<and> ''ws'' \<noteq> [] \<and> [sample_reservation] \<noteq> [] \<and> 1 \<le> (20 :: int) \<and>
      (\<forall>v \<in> set [sample_reservation]. trim_space (rv_id v) \<noteq> [] \<and> rv_recipient v \<noteq> []) \<longrightarrow> r = Inr ())"
    using m by (rule reserve_batch_idempotent)
  moreover have "trim_space (rv_id sample_reservation) \<noteq> []" "rv_recipient sample_reservation \<noteq> []"
    by (simp_all add: sample_reservation_def trim_space_plain plain_char_def)
  ultimately show ?thesis using m by auto
qed

section \<open>Policies and preferences\<close>

lemma save_policy_refused:
  assumes "list_ex (policy_clash (new_policy_row self p)) (db_policies (db w))"
    "List.find (policy_key_matches self) (db_policies (db w)) = None" "save_policy_body self p w = (y, w')"
  shows "db w' = db w \<and> (\<exists>e. y = Inl e)"
proof -
  obtain x w1 where s: "select_row policies_table (policy_key_matches self) w = (x, w1)" by fastforce
  have d1: "db w1 = db w" by (rule statement_db(2) [OF s])
  obtain z w2 where i: "workspace_insert policies_table policy_clash ''_notification_delivery_policies'' self self
      (new_policy_row self p) w1 = (z, w2)" by fastforce
  have "db w2 = db w \<and> (\<exists>e. z = Inl e)"
    using workspace_insert_clash [OF _ i] d1 assms(1) by simp
  moreover have "x = Inr f \<Longrightarrow> f = None" for f
    using select_row_Inr [of policies_table _ w f w1] s assms(2) by simp
  ultimately show ?thesis
    using assms(3) s i d1
    by (cases x) (auto simp: save_policy_body_def bind_io_def wrapping_def)
qed

text \<open>The delivery policy can be saved in one workspace only. The table's primary key is the
  policy key, which is the same for every workspace: once one workspace has saved its policy,
  saving it in any other workspace fails and changes nothing, and that workspace keeps reading
  the default policy.\<close>

theorem second_workspace_cannot_save_policy:
  assumes "r \<in> set (db_policies (db w))" "pp_key r = ''default''"
    and "\<forall>r \<in> set (db_policies (db w)). pp_workspace r \<noteq> self"
    and "save_policy self p w = (x, w')"
  shows "db w' = db w \<and> (\<exists>e. x = Inl e) \<and> (\<forall>q w2. get_policy self w' = (Inr q, w2) \<longrightarrow> q = default_policy)"
proof -
  have "policy_clash (new_policy_row self p) r"
    by (simp add: policy_clash_def new_policy_row_def default_policy_key_def assms(2))
  with assms(1) have clash: "list_ex (policy_clash (new_policy_row self p)) (db_policies (db w))"
    unfolding list_ex_iff by blast
  have none: "List.find (policy_key_matches self) (db_policies (db w)) = None"
    using assms(3) by (auto simp: find_None_iff policy_key_matches_def)
  have "preserves (\<lambda>d. d = db w) (save_policy self p)"
    unfolding save_policy_def
  proof (intro preserves_transaction(1) preservesI)
    fix w0 y w2 assume d: "db w0 = db w" and m: "save_policy_body self p w0 = (y, w2)"
    show "db w2 = db w" using save_policy_refused [OF _ _ m] clash none d by simp
  qed
  from preservesD [OF this refl assms(4)] have "db w' = db w" .
  moreover have "\<exists>e. x = Inl e"
  proof (cases x)
    case (Inr a)
    with assms(4) have "transaction (save_policy_body self p) w = (Inr a, w')" by (simp add: save_policy_def)
    then obtain c w1 w2 where "db w1 = db w" "save_policy_body self p w1 = (Inr (c, a), w2)" by (rule transaction_Inr)
    with save_policy_refused [of self p w1 "Inr (c, a)" w2] clash none show ?thesis by auto
  qed simp
  moreover have "q = default_policy" if "get_policy self w' = (Inr q, w2)" "db w' = db w" for q w2
    using that none by (auto simp: get_policy_def bind_io_Inr wrapping_Inr dest!: select_row_Inr)
  ultimately show ?thesis by blast
qed

definition sample_policy_row :: policy_row where
  "sample_policy_row = new_policy_row ''ws'' (default_policy\<lparr>po_max_per_hour := 5\<rparr>)"

theorem second_workspace_cannot_save_policy_witness:
  "\<exists>e w'. save_policy ''other'' (default_policy\<lparr>po_max_per_hour := 9\<rparr>)
     (calm_world (empty_database\<lparr>db_policies := [sample_policy_row]\<rparr>)) = (Inl e, w') \<and>
     get_policy ''other'' w' = (Inr default_policy, w')"
proof -
  let ?w = "calm_world (empty_database\<lparr>db_policies := [sample_policy_row]\<rparr>)"
  have run: "outcomes (snd (save_policy ''other'' p ?w)) = []" for p
    by (simp add: save_policy_def save_policy_body_def statement_runs calm_world_def sample_policy_row_def
        new_policy_row_def policy_key_matches_def policy_clash_def)
  obtain x w' where m: "save_policy ''other'' (default_policy\<lparr>po_max_per_hour := 9\<rparr>) ?w = (x, w')" by fastforce
  have in_db: "sample_policy_row \<in> set (db_policies (db ?w))" by simp
  have key: "pp_key sample_policy_row = ''default''"
    by (simp add: sample_policy_row_def new_policy_row_def default_policy_key_def)
  have other: "\<forall>r \<in> set (db_policies (db ?w)). pp_workspace r \<noteq> ''other''"
    by (simp add: sample_policy_row_def new_policy_row_def)
  from second_workspace_cannot_save_policy [OF in_db key other m]
  obtain e where e: "x = Inl e" "db w' = db ?w"
    and g: "\<And>q w2. get_policy ''other'' w' = (Inr q, w2) \<Longrightarrow> q = default_policy" by blast
  from run m have "outcomes w' = []" by (metis snd_conv)
  then have "\<exists>q. get_policy ''other'' w' = (Inr q, w')" by (simp add: get_policy_def statement_runs)
  with g m e show ?thesis by blast
qed

lemma save_preference_body_Inr:
  assumes "save_preference_body ws key value w = (Inr (c, v), w')"
  shows "c \<and> v = value"
    "(\<exists>r \<in> set (db_preferences (db w')). preference_key_matches ws key r) \<and>
     (\<forall>r \<in> set (db_preferences (db w')). preference_key_matches ws key r \<longrightarrow> fr_payload r = value)"
    "filter (\<lambda>r. \<not> preference_key_matches ws key r) (db_preferences (db w')) =
     filter (\<lambda>r. \<not> preference_key_matches ws key r) (db_preferences (db w))"
proof -
  let ?upd = "\<lambda>r. r\<lparr>fr_payload := value, fr_updated_by := pf_updated_by value, fr_updated_at := pf_updated_at value\<rparr>"
  obtain f w1 where s: "select_row preferences_table (preference_key_matches ws key) w = (Inr f, w1)"
    using assms by (auto simp: save_preference_body_def bind_io_Inr)
  from select_row_Inr [OF s] have d1: "db w1 = db w"
    and f: "f = List.find (preference_key_matches ws key) (db_preferences (db w))" by simp_all
  have new: "preference_key_matches ws key (new_preference_row ws key value)"
    by (simp add: preference_key_matches_def new_preference_row_def)
  have same: "preference_key_matches ws key (?upd r) = preference_key_matches ws key r" for r
    by (simp add: preference_key_matches_def)
  have "c \<and> v = value \<and>
    ((\<exists>r \<in> set (db_preferences (db w')). preference_key_matches ws key r) \<and>
     (\<forall>r \<in> set (db_preferences (db w')). preference_key_matches ws key r \<longrightarrow> fr_payload r = value)) \<and>
    filter (\<lambda>r. \<not> preference_key_matches ws key r) (db_preferences (db w')) =
     filter (\<lambda>r. \<not> preference_key_matches ws key r) (db_preferences (db w))"
  proof (cases f)
    case None
    with assms s have "c \<and> v = value"
      and i: "workspace_insert preferences_table preference_clash ''_notification_recipient_preferences'' ws ws
              (new_preference_row ws key value) w1 = (Inr (), w')"
      by (auto simp: save_preference_body_def bind_io_run bind_io_Inr wrapping_Inr)
    with workspace_insert_Inr [OF i] None f d1 new show ?thesis
      by (auto simp: find_None_iff new_preference_row_def)
  next
    case (Some x)
    with assms s obtain n where n: "n = 1" "c \<and> v = value"
      and u: "update_rows preferences_table (preference_key_matches ws key) ?upd w1 = (Inr n, w')"
      by (auto simp: save_preference_body_def bind_io_run bind_io_Inr wrapping_Inr guard_io_Inr)
    have x: "x \<in> set (db_preferences (db w))" "preference_key_matches ws key x"
      using Some f by (auto simp: find_Some_iff)
    have p: "db_preferences (db w') = update_where (preference_key_matches ws key) ?upd (db_preferences (db w))"
      using update_rows_Inr [OF u] d1 by simp
    have "filter (\<lambda>r. \<not> preference_key_matches ws key r) (db_preferences (db w')) =
        filter (\<lambda>r. \<not> preference_key_matches ws key r) (db_preferences (db w))"
      unfolding p by (rule filter_update_other) (simp add: same)
    moreover have "?upd x \<in> set (db_preferences (db w'))"
      unfolding p using x by (auto simp: in_update_where intro!: bexI [of _ x])
    moreover have "fr_payload r = value" if "r \<in> set (db_preferences (db w'))" "preference_key_matches ws key r" for r
    proof -
      from that(1) obtain y where "r = (if preference_key_matches ws key y then ?upd y else y)"
        unfolding p in_update_where by blast
      with that(2) show ?thesis by (cases "preference_key_matches ws key y") simp_all
    qed
    ultimately show ?thesis using n same x(2) by blast
  qed
  then show "c \<and> v = value"
    "(\<exists>r \<in> set (db_preferences (db w')). preference_key_matches ws key r) \<and>
     (\<forall>r \<in> set (db_preferences (db w')). preference_key_matches ws key r \<longrightarrow> fr_payload r = value)"
    "filter (\<lambda>r. \<not> preference_key_matches ws key r) (db_preferences (db w')) =
     filter (\<lambda>r. \<not> preference_key_matches ws key r) (db_preferences (db w))" by blast+
qed

text \<open>What is saved is what is read. Once \<open>SaveRecipientPreference\<close> has succeeded, reading the
  preference of that recipient gives the saved value, with the recipient key trimmed, and the
  rows of all other recipients and workspaces are as before.\<close>

theorem preference_roundtrip:
  assumes "save_recipient_preference self ws v w = (Inr v', w1)"
    and "db w2 = db w1" "get_recipient_preference self ws (trim_space (pf_recipient v)) w2 = (Inr x, w3)"
  shows "x = Some v' \<and> v' = v\<lparr>pf_recipient := trim_space (pf_recipient v)\<rparr> \<and>
    (let other = (\<lambda>r. \<not> (fr_workspace r = ws \<and> fr_recipient r = trim_space (pf_recipient v))) in
     filter other (db_preferences (db w1)) = filter other (db_preferences (db w)))"
proof -
  let ?key = "trim_space (pf_recipient v)" and ?v = "v\<lparr>pf_recipient := trim_space (pf_recipient v)\<rparr>"
  from assms(1) have "transaction (save_preference_body ws ?key ?v) w = (Inr v', w1)"
    by (auto simp: save_recipient_preference_def Let_def require_workspace_def guard_io_Inr)
  then obtain c wa wb where b: "db wa = db w" "save_preference_body ws ?key ?v wa = (Inr (c, v'), wb)"
      "db w1 = (if c then db wb else db w)" by (rule transaction_Inr)
  note facts = save_preference_body_Inr [OF b(2)]
  have d: "db w1 = db wb" using b(3) facts(1) by simp
  obtain f w4 where "select_row preferences_table (preference_key_matches ws ?key) w2 = (Inr f, w4)"
      and x: "x = map_option fr_payload f"
    using assms(3) by (auto simp: get_recipient_preference_def require_workspace_def guard_io_Inr bind_io_Inr wrapping_Inr)
  from select_row_Inr [OF this(1)] have f: "f = List.find (preference_key_matches ws ?key) (db_preferences (db wb))"
    using assms(2) d by simp
  have "f \<noteq> None" using facts(2) unfolding f find_None_iff by blast
  then obtain r where r: "f = Some r" by blast
  have "r \<in> set (db_preferences (db wb))" "preference_key_matches ws ?key r"
    using r unfolding f find_Some_iff by auto
  with facts(1,2) x r have "x = Some v'" by auto
  moreover have "(\<lambda>r. \<not> (fr_workspace r = ws \<and> fr_recipient r = ?key)) = (\<lambda>r. \<not> preference_key_matches ws ?key r)"
    by (simp add: preference_key_matches_def)
  ultimately show ?thesis using facts(1,3) b(1) d by (simp add: Let_def)
qed

definition sample_preference :: preference where
  "sample_preference = \<lparr>pf_recipient = ''u1'', pf_channels = [(''email'', False)], pf_muted = [],
     pf_updated_by = ''admin'', pf_updated_at = ''2026-01-01''\<rparr>"

lemma sample_preference_run:
  "save_recipient_preference ''ws'' ''ws'' sample_preference (calm_world empty_database) =
     (Inr sample_preference, calm_world (empty_database\<lparr>db_preferences := [new_preference_row ''ws'' ''u1'' sample_preference]\<rparr>))"
proof -
  have "trim_space ''u1'' = ''u1''" by (simp add: trim_space_plain plain_char_def)
  then show ?thesis
    by (simp add: save_recipient_preference_def save_preference_body_def require_workspace_def Let_def
        statement_runs calm_world_def empty_database_def sample_preference_def)
qed

theorem preference_roundtrip_witness:
  "\<exists>w'. get_recipient_preference ''ws'' ''ws'' ''u1'' (snd (save_recipient_preference ''ws'' ''ws'' sample_preference
     (calm_world empty_database))) = (Inr (Some sample_preference), w')"
proof -
  let ?w = "calm_world (empty_database\<lparr>db_preferences := [new_preference_row ''ws'' ''u1'' sample_preference]\<rparr>)"
  have u: "trim_space (pf_recipient sample_preference) = ''u1''"
    by (simp add: sample_preference_def trim_space_plain plain_char_def)
  obtain x w3 where g: "get_recipient_preference ''ws'' ''ws'' ''u1'' ?w = (Inr x, w3)"
    by (simp add: get_recipient_preference_def require_workspace_def statement_runs calm_world_def)
  have g': "get_recipient_preference ''ws'' ''ws'' (trim_space (pf_recipient sample_preference)) ?w = (Inr x, w3)"
    using g u by simp
  from preference_roundtrip [OF sample_preference_run refl g'] g sample_preference_run show ?thesis by auto
qed

end
