(* ===== verification/Quiet_Hours.thy ===== *)
theory Quiet_Hours
  imports Model Go_Parse
begin

text \<open>
  Quiet hours, \<open>ValidatePolicy\<close> and \<open>NextQuietHoursEnd\<close> of internal/domain/delivery/service/
  policy_manager.go. The time zone database is the host's: \<open>time.LoadLocation\<close> is the argument
  \<open>zones\<close>, and a location is the offset from UTC (in seconds) it has at a Unix time. \<open>go_date\<close>
  and \<open>add_days\<close> are \<open>time.Date\<close> and \<open>AddDate\<close> of the standard library, with its two lookups
  of the offset.
\<close>

type_synonym location = "int \<Rightarrow> int"

type_synonym zones = "string \<Rightarrow> location option"

definition local_instant :: "location \<Rightarrow> instant \<Rightarrow> instant" where
  "local_instant loc t = t + loc (t div second_ns) * second_ns"

definition date_of :: "instant \<Rightarrow> int \<times> int \<times> int" where
  "date_of t = civil (t div day_ns + unix_epoch_day)"

definition go_date :: "location \<Rightarrow> int \<Rightarrow> int \<Rightarrow> int \<Rightarrow> int \<Rightarrow> int \<Rightarrow> int \<Rightarrow> int \<Rightarrow> instant" where
  "go_date loc y mo d h mi s ns =
     (let u = (day_number y mo d - unix_epoch_day) * 86400 + (h * 60 + mi) * 60 + s;
          offset = loc u;
          offset = (if offset \<noteq> 0 then loc (u - offset) else offset)
      in (u - offset) * second_ns + ns)"

definition add_days :: "location \<Rightarrow> int \<Rightarrow> instant \<Rightarrow> instant" where
  "add_days loc n t =
     (case date_of (local_instant loc t) of (y, mo, d) \<Rightarrow>
      case clock_of (local_instant loc t) of (h, mi, s, ns) \<Rightarrow> go_date loc y mo (d + n) h mi s ns)"

definition in_quiet :: "int \<Rightarrow> int \<Rightarrow> int \<Rightarrow> bool" where
  "in_quiet start_minute end_minute minute \<longleftrightarrow>
     start_minute < end_minute \<and> start_minute \<le> minute \<and> minute < end_minute \<or>
     end_minute \<le> start_minute \<and> (start_minute \<le> minute \<or> minute < end_minute)"

definition next_quiet_hours_end :: "zones \<Rightarrow> instant \<Rightarrow> policy \<Rightarrow> string" where
  "next_quiet_hours_end zones now p =
     (case zones (po_timezone p) of None \<Rightarrow> [] | Some loc \<Rightarrow>
      case (parse_clock (po_quiet_start p), parse_clock (po_quiet_end p)) of
        (Some (sh, sm), Some (eh, em)) \<Rightarrow>
          (case date_of (local_instant loc now) of (y, mo, d) \<Rightarrow>
           case clock_of (local_instant loc now) of (h, mi, s, ns) \<Rightarrow>
           if \<not> in_quiet (sh * 60 + sm) (eh * 60 + em) (h * 60 + mi) then []
           else let at = go_date loc y mo d eh em 0 0;
                    at = (if at \<le> now then add_days loc 1 at else at)
                in timestamp at)
      | _ \<Rightarrow> [])"

definition validate_policy :: "zones \<Rightarrow> policy \<Rightarrow> err option" where
  "validate_policy zones p =
     (if po_max_per_hour p < 1 \<or> 10000 < po_max_per_hour p
      then Some (new_error ErrorInvalid ''backend.notification.policy_frequency_invalid'' None [])
      else if po_dedupe_window p < 0 \<or> 86400 < po_dedupe_window p
      then Some (new_error ErrorInvalid ''backend.notification.policy_dedupe_invalid'' None [])
      else if zones (po_timezone p) = None
      then Some (new_error ErrorInvalid ''backend.notification.policy_timezone_invalid''
             (Some (HostError ''unknown time zone'')) [])
      else if parse_clock (po_quiet_start p) = None \<or> parse_clock (po_quiet_end p) = None
      then Some (new_error ErrorInvalid ''backend.notification.policy_quiet_hours_invalid''
             (Some (ErrorText ''parsing time'')) [])
      else None)"

section \<open>Minutes\<close>

definition minutes_ns :: int where "minutes_ns = 60 * second_ns"

definition minute_of_day :: "instant \<Rightarrow> int" where
  "minute_of_day t = (t div minutes_ns) mod 1440"

lemma day_minutes: "day_ns = minutes_ns * 1440" "0 < minutes_ns" "minutes_ns = second_ns * 60" "0 < second_ns"
  by (simp_all add: day_ns_def minutes_ns_def second_ns_def)

lemma clock_minute:
  assumes "clock_of t = (h, mi, s, ns)"
  shows "h * 60 + mi = minute_of_day t"
proof -
  define x where "x = (t mod day_ns) div second_ns"
  have hm: "h = x div 3600" "mi = (x mod 3600) div 60"
    using assms by (auto simp: clock_of_def Let_def x_def)
  have "x = x mod 3600 + 60 * (60 * (x div 3600))"
    using mod_mult_div_eq [of x 3600] by simp
  moreover have "(b + 60 * c) div 60 = c + b div 60" for b c :: int by simp
  ultimately have "x div 60 = 60 * (x div 3600) + (x mod 3600) div 60" by metis
  then have "h * 60 + mi = x div 60" using hm by simp
  also have "x div 60 = (t mod day_ns) div minutes_ns"
    unfolding x_def day_minutes(3) by (simp add: zdiv_zmult2_eq day_minutes)
  also have "\<dots> = (t div minutes_ns) mod 1440"
    unfolding day_minutes(1) using day_minutes(2) by (simp add: zmod_zmult2_eq)
  finally show ?thesis by (simp add: minute_of_day_def)
qed

lemma at_minute:
  assumes "0 \<le> h" "h < 24" "0 \<le> m" "m < 60"
  shows "clock_of (minutes_ns * (1440 * n + (h * 60 + m))) = (h, m, 0, 0)"
    "(minutes_ns * (1440 * n + (h * 60 + m))) div day_ns = n"
proof -
  let ?e = "h * 60 + m"
  have e: "0 \<le> ?e" "?e < 1440" using assms by auto
  have lt: "minutes_ns * ?e < day_ns"
    unfolding day_minutes(1) by (rule mult_strict_left_mono) (use e day_minutes in auto)
  have split: "minutes_ns * (1440 * n + ?e) = minutes_ns * ?e + n * day_ns"
    by (simp add: day_minutes(1) algebra_simps)
  have md: "minutes_ns * (1440 * n + ?e) mod day_ns = minutes_ns * ?e"
    unfolding split using lt e day_minutes(2) by simp
  show "(minutes_ns * (1440 * n + ?e)) div day_ns = n"
    unfolding split using lt e day_minutes by simp
  have "minutes_ns * ?e = second_ns * (60 * ?e)" by (simp only: day_minutes(3) mult.assoc)
  then have s: "(minutes_ns * ?e) div second_ns = 60 * ?e" using day_minutes(4)
    by (metis less_irrefl nonzero_mult_div_cancel_left)
  have z: "minutes_ns * x mod second_ns = 0" for x
    by (simp add: day_minutes(3) mult.assoc)
  have q: "(60 * ?e) div 3600 = h" by (rule int_div_pos_eq [of _ _ _ "60 * m"]) (use assms in auto)
  have "(60 * ?e) mod 3600 = 60 * m" by (rule int_mod_pos_eq [of _ _ h]) (use assms in auto)
  then have "((60 * ?e) mod 3600) div 60 = m" "(60 * ?e) mod 60 = 0" by auto
  note q this
  then show "clock_of (minutes_ns * (1440 * n + ?e)) = (h, m, 0, 0)"
    by (simp add: clock_of_def Let_def md s z)
qed

lemma parse_clock_ranges:
  assumes "parse_clock s = Some (h, m)" shows "0 \<le> h" "h < 24" "0 \<le> m" "m < 60"
proof -
  have d: "0 \<le> digit_val c" if "is_digit c" for c
    using that by (simp add: is_digit_def digit_val_def less_eq_char_def)
  have g: "0 \<le> n" if "get_num f v = Some (n, r)" for f v n r
    using that d by (cases "(f, v)" rule: get_num.cases) (auto split: if_splits)
  from assms obtain v1 v2 where "get_num False s = Some (h, v1)" "get_num True v2 = Some (m, [])" "h < 24" "m < 60"
    by (auto simp: parse_clock_def bind_eq_Some_conv split: if_splits)
  with g show "0 \<le> h" "h < 24" "0 \<le> m" "m < 60" by auto
qed

section \<open>The end of quiet hours\<close>

text \<open>A location without transitions: a fixed offset, as Asia/Shanghai has it.\<close>

lemma go_date_fixed:
  "go_date (\<lambda>_. k) y mo d h mi 0 0 =
     minutes_ns * (1440 * (day_number y mo d - unix_epoch_day) + (h * 60 + mi)) - k * second_ns"
  by (simp add: go_date_def Let_def day_minutes(3) algebra_simps)

lemma local_fixed: "local_instant (\<lambda>_. k) t = t + k * second_ns"
  by (simp add: local_instant_def)

definition quiet_at :: "int \<Rightarrow> int \<Rightarrow> int \<Rightarrow> instant \<Rightarrow> bool" where
  "quiet_at k start_minute end_minute t \<longleftrightarrow>
     in_quiet start_minute end_minute (minute_of_day (t + k * second_ns))"

text \<open>The instant the code computes, in local minutes since the epoch.\<close>

definition end_minute_after :: "int \<Rightarrow> int \<Rightarrow> int" where
  "end_minute_after n e = (if 1440 * (n div 1440) + e \<le> n then 1440 * (n div 1440 + 1) + e
     else 1440 * (n div 1440) + e)"

lemma less_minutes: "t < minutes_ns * x \<longleftrightarrow> t div minutes_ns < x"
proof
  assume "t < minutes_ns * x"
  then show "t div minutes_ns < x" using int_div_less [OF day_minutes(2), of t x] by (simp add: mult.commute)
next
  assume "t div minutes_ns < x"
  then have "minutes_ns * (t div minutes_ns + 1) \<le> minutes_ns * x"
    using day_minutes(2) by (intro mult_left_mono) auto
  moreover have "t < minutes_ns * (t div minutes_ns + 1)"
    using pos_mod_bound [OF day_minutes(2), of t] mod_mult_div_eq [of t minutes_ns]
    unfolding distrib_left mult_1_right by linarith
  ultimately show "t < minutes_ns * x" by linarith
qed

lemma next_quiet_fixed:
  assumes "zones (po_timezone p) = Some (\<lambda>_. k)"
    and "parse_clock (po_quiet_start p) = Some (sh, sm)" "parse_clock (po_quiet_end p) = Some (eh, em)"
  shows "next_quiet_hours_end zones now p =
    (if quiet_at k (sh * 60 + sm) (eh * 60 + em) now
     then timestamp (minutes_ns * end_minute_after ((now + k * second_ns) div minutes_ns) (eh * 60 + em) - k * second_ns)
     else [])"
proof -
  let ?l = "now + k * second_ns" and ?e = "eh * 60 + em"
  let ?D = "?l div day_ns"
  obtain y mo d where c: "date_of ?l = (y, mo, d)" by (metis prod_cases3)
  obtain h mi s ns where ck: "clock_of ?l = (h, mi, s, ns)" by (metis prod_cases4)
  note e = parse_clock_ranges [OF assms(3)]
  have dn: "day_number y mo d = ?D + unix_epoch_day" using civil_inverse(1) c by (simp add: date_of_def)
  have D: "?D = (?l div minutes_ns) div 1440"
    unfolding day_minutes(1) using day_minutes(2) by (simp add: zdiv_zmult2_eq)
  let ?at = "minutes_ns * (1440 * ?D + ?e) - k * second_ns"
  have at: "go_date (\<lambda>_. k) y mo d eh em 0 0 = ?at" by (simp add: go_date_fixed dn)
  have ad: "add_days (\<lambda>_. k) 1 ?at = minutes_ns * (1440 * (?D + 1) + ?e) - k * second_ns"
  proof -
    have l: "local_instant (\<lambda>_. k) ?at = minutes_ns * (1440 * ?D + ?e)" by (simp add: local_fixed)
    have "date_of (minutes_ns * (1440 * ?D + ?e)) = (y, mo, d)"
      using at_minute(2) [OF e, of ?D] c by (simp add: date_of_def)
    moreover have "day_number y mo (d + 1) = ?D + 1 + unix_epoch_day"
      using dn by (simp add: day_number_def)
    ultimately show ?thesis
      unfolding add_days_def l at_minute(1) [OF e] by (simp add: go_date_fixed)
  qed
  have cmp: "(?at \<le> now) = (1440 * ?D + ?e \<le> ?l div minutes_ns)"
    using less_minutes [of ?l "1440 * ?D + ?e"] by auto
  show ?thesis
    using assms c ck clock_minute [OF ck]
    by (simp add: next_quiet_hours_end_def local_fixed quiet_at_def Let_def at ad cmp end_minute_after_def D [symmetric])
qed

text \<open>In minutes: the end of the quiet interval that contains minute \<open>n\<close> is the first minute after
  \<open>n\<close> that is not quiet.\<close>

lemma end_minute_first:
  assumes "in_quiet a e (n mod 1440)" "0 \<le> a" "a < 1440" "0 \<le> e" "e < 1440"
  shows "n < end_minute_after n e" "end_minute_after n e \<le> n + 1440"
    "end_minute_after n e mod 1440 = e"
    "n \<le> x \<Longrightarrow> x < end_minute_after n e \<Longrightarrow> in_quiet a e (x mod 1440)"
    "a \<noteq> e \<Longrightarrow> \<not> in_quiet a e (end_minute_after n e mod 1440)"
proof -
  define D m where "D = n div 1440" and "m = n mod 1440"
  have n: "n = 1440 * D + m" "0 \<le> m" "m < 1440" by (simp_all add: D_def m_def)
  have E: "end_minute_after n e = (if e \<le> m then 1440 * (D + 1) + e else 1440 * D + e)"
    using n by (simp add: end_minute_after_def D_def [symmetric])
  show "n < end_minute_after n e" "end_minute_after n e \<le> n + 1440" using n assms(4,5) E by auto
  show m1: "end_minute_after n e mod 1440 = e"
    using int_mod_pos_eq [of _ 1440 "D + 1" e] int_mod_pos_eq [of _ 1440 D e] assms(4,5) unfolding E by auto
  then show "a \<noteq> e \<Longrightarrow> \<not> in_quiet a e (end_minute_after n e mod 1440)"
    by (auto simp: in_quiet_def)
  show "in_quiet a e (x mod 1440)" if "n \<le> x" "x < end_minute_after n e"
  proof -
    define B c where "B = x div 1440" and "c = x mod 1440"
    have x: "x = 1440 * B + c" "0 \<le> c" "c < 1440" by (simp_all add: B_def c_def)
    have le: "1440 * D + m \<le> 1440 * B + c" using that(1) n x by simp
    have lt: "1440 * B + c < (if e \<le> m then 1440 * (D + 1) + e else 1440 * D + e)" using that(2) E x by simp
    have "D \<le> B" using le n x by linarith
    moreover have "B \<le> D + 1" using lt x assms(4,5) n by (auto split: if_splits)
    ultimately consider "B = D" | "B = D + 1" by linarith
    then have "B = D \<and> m \<le> c \<and> (m < e \<longrightarrow> c < e) \<or> B = D + 1 \<and> e \<le> m \<and> c < e"
      by cases (use le lt x n assms(4,5) in \<open>auto split: if_splits\<close>)
    then show ?thesis
      unfolding c_def [symmetric] using assms(1) unfolding m_def [symmetric] in_quiet_def by linarith
  qed
qed

lemma quiet_end_fixed:
  assumes "zones (po_timezone p) = Some (\<lambda>_. k)"
    and "parse_clock (po_quiet_start p) = Some (sh, sm)" "parse_clock (po_quiet_end p) = Some (eh, em)"
  shows "\<not> quiet_at k (sh * 60 + sm) (eh * 60 + em) now \<and> next_quiet_hours_end zones now p = [] \<or>
    (\<exists>e. next_quiet_hours_end zones now p = timestamp e \<and> now < e \<and> e \<le> now + day_ns \<and>
      (\<forall>t. now \<le> t \<and> t < e \<longrightarrow> quiet_at k (sh * 60 + sm) (eh * 60 + em) t) \<and>
      (sh * 60 + sm \<noteq> eh * 60 + em \<longrightarrow> \<not> quiet_at k (sh * 60 + sm) (eh * 60 + em) e))"
proof (cases "quiet_at k (sh * 60 + sm) (eh * 60 + em) now")
  case True
  let ?n = "\<lambda>t. (t + k * second_ns) div minutes_ns" and ?b = "eh * 60 + em"
  let ?x = "end_minute_after (?n now) ?b"
  let ?e = "minutes_ns * ?x - k * second_ns"
  note rs = parse_clock_ranges [OF assms(2)] parse_clock_ranges [OF assms(3)]
  have q: "in_quiet (sh * 60 + sm) ?b (?n now mod 1440)"
    using True by (simp add: quiet_at_def minute_of_day_def)
  have bounds: "0 \<le> sh * 60 + sm" "sh * 60 + sm < 1440" "0 \<le> ?b" "?b < 1440" using rs by auto
  note first = end_minute_first [OF q bounds]
  have lt: "(t < ?e) = (?n t < ?x)" for t
    using less_minutes [of "t + k * second_ns" ?x] by auto
  have ne: "?n ?e = ?x" using day_minutes(2) by simp
  have "now < ?e" using first(1) by (simp only: lt)
  moreover have "?e \<le> now + day_ns"
  proof -
    have "minutes_ns * ?x \<le> minutes_ns * (?n now + 1440)"
      using first(2) day_minutes(2) by (intro mult_left_mono) auto
    also have "minutes_ns * ?n now \<le> now + k * second_ns"
      using mod_mult_div_eq [of "now + k * second_ns" minutes_ns] pos_mod_sign [OF day_minutes(2)] by (smt (verit))
    then have "minutes_ns * (?n now + 1440) \<le> now + k * second_ns + day_ns"
      by (simp add: day_minutes(1) distrib_left)
    finally show ?thesis by linarith
  qed
  moreover have "quiet_at k (sh * 60 + sm) ?b t" if "now \<le> t" "t < ?e" for t
  proof -
    have "?n now \<le> ?n t" using that(1) day_minutes(2) by (intro zdiv_mono1) auto
    moreover have "?n t < ?x" using that(2) by (simp only: lt)
    ultimately show ?thesis using first(4) by (simp add: quiet_at_def minute_of_day_def)
  qed
  moreover have "\<not> quiet_at k (sh * 60 + sm) ?b ?e" if "sh * 60 + sm \<noteq> ?b"
    using first(5) [OF that] unfolding quiet_at_def minute_of_day_def ne by blast
  moreover have "next_quiet_hours_end zones now p = timestamp ?e"
    using True next_quiet_fixed [where zones = zones and p = p and k = k and now = now, OF assms] by simp
  ultimately show ?thesis by blast
qed (use next_quiet_fixed [where zones = zones and p = p and k = k and now = now, OF assms] in simp)

text \<open>
  A zone with transitions: what the code looks at lies within three days of \<open>now\<close>, so while no transition does
  the result is the one of the offset in force.
\<close>

definition steady :: "location \<Rightarrow> int \<Rightarrow> instant \<Rightarrow> bool" where
  "steady loc k now \<longleftrightarrow> \<bar>k\<bar> \<le> 86400 \<and> (\<forall>t. \<bar>t - now div second_ns\<bar> \<le> 3 * 86400 \<longrightarrow> loc t = k)"

lemma steadyD: "steady loc k now \<Longrightarrow> \<bar>t - now div second_ns\<bar> \<le> 3 * 86400 \<Longrightarrow> loc t = k"
  by (simp add: steady_def)

lemma go_date_steady:
  assumes "steady loc k now" "(day_number y mo d - unix_epoch_day) * 86400 + (h * 60 + mi) * 60 = u"
    and "\<bar>u - k - now div second_ns\<bar> \<le> 2 * 86400"
  shows "go_date loc y mo d h mi 0 0 = go_date (\<lambda>_. k) y mo d h mi 0 0" "go_date loc y mo d h mi 0 0 = (u - k) * second_ns"
proof -
  have "\<bar>k\<bar> \<le> 86400" using assms(1) by (simp add: steady_def)
  then have "loc u = k" "loc (u - k) = k" using assms(3) by (auto intro!: steadyD [OF assms(1)])
  then show "go_date loc y mo d h mi 0 0 = go_date (\<lambda>_. k) y mo d h mi 0 0" "go_date loc y mo d h mi 0 0 = (u - k) * second_ns"
    using assms(2) by (auto simp: go_date_def Let_def)
qed

lemma second_of: "(x * second_ns) div second_ns = x" "(t + x * second_ns) div second_ns = t div second_ns + x"
  by (simp_all add: second_ns_def)

lemma day_of_second: "t div day_ns = t div second_ns div 86400"
  by (simp add: day_ns_def second_ns_def zdiv_zmult2_eq [symmetric])

lemma next_quiet_steady:
  assumes "steady loc k now" "zones (po_timezone p) = Some loc"
    and "parse_clock (po_quiet_start p) = Some (sh, sm)" "parse_clock (po_quiet_end p) = Some (eh, em)"
  shows "next_quiet_hours_end zones now p = next_quiet_hours_end (\<lambda>_. Some (\<lambda>_. k)) now p"
proof -
  let ?now = "now div second_ns" and ?l = "now + k * second_ns"
  define D where "D = (?now + k) div 86400"
  define u where "u = D * 86400 + (eh * 60 + em) * 60"
  note e = parse_clock_ranges [OF assms(4)]
  have near: "\<bar>u - k - ?now\<bar> \<le> 86400"
  proof -
    have "D * 86400 \<le> ?now + k" "?now + k < D * 86400 + 86400"
      using pos_mod_bound [of 86400 "?now + k"] pos_mod_sign [of 86400 "?now + k"] div_mult_mod_eq [of "?now + k" 86400]
      unfolding D_def by linarith+
    moreover have "0 \<le> (eh * 60 + em) * 60" "(eh * 60 + em) * 60 \<le> 86400" using e by (simp_all add: algebra_simps)
    ultimately show ?thesis unfolding u_def abs_le_iff by (intro conjI; simp)
  qed
  have l: "local_instant loc now = ?l" using steadyD [OF assms(1), of ?now] by (simp add: local_instant_def)
  obtain y mo d where c: "date_of ?l = (y, mo, d)" by (metis prod_cases3)
  have dn: "day_number y mo d - unix_epoch_day = D"
    using civil_inverse(1) c by (simp add: date_of_def day_of_second second_of D_def)
  note at = go_date_steady [OF assms(1), of y mo d eh em u]
  have at: "go_date loc y mo d eh em 0 0 = (u - k) * second_ns" "go_date (\<lambda>_. k) y mo d eh em 0 0 = (u - k) * second_ns"
    using at near dn by (simp_all add: u_def)
  have la: "local_instant loc ((u - k) * second_ns) = u * second_ns" "local_instant (\<lambda>_. k) ((u - k) * second_ns) = u * second_ns"
    using steadyD [OF assms(1), of "u - k"] near by (simp_all add: local_instant_def second_of algebra_simps)
  obtain y' mo' d' where c': "date_of (u * second_ns) = (y', mo', d')" by (metis prod_cases3)
  have u: "u * second_ns = minutes_ns * (1440 * D + (eh * 60 + em))" by (simp add: u_def day_minutes(3) algebra_simps)
  have "day_number y' mo' d' - unix_epoch_day = D"
    using civil_inverse(1) c' at_minute(2) [OF e, of D] by (simp add: date_of_def u)
  then have dn': "day_number y' mo' (d' + 1) - unix_epoch_day = D + 1" by (simp add: day_number_def)
  have "go_date loc y' mo' (d' + 1) eh em 0 0 = go_date (\<lambda>_. k) y' mo' (d' + 1) eh em 0 0"
    by (rule go_date_steady(1) [OF assms(1), of _ _ _ _ _ "u + 86400"]) (use near in \<open>auto simp: dn' u_def\<close>)
  then have "add_days loc 1 ((u - k) * second_ns) = add_days (\<lambda>_. k) 1 ((u - k) * second_ns)"
    unfolding add_days_def la c' using at_minute(1) [OF e, of D] by (simp add: u)
  then show ?thesis
    using assms(2-4) c l by (simp add: next_quiet_hours_end_def local_fixed at Let_def split: prod.split)
qed

definition quiet_in :: "location \<Rightarrow> int \<Rightarrow> int \<Rightarrow> instant \<Rightarrow> bool" where
  "quiet_in loc start_minute end_minute t \<longleftrightarrow> in_quiet start_minute end_minute (minute_of_day (local_instant loc t))"


definition sample_policy :: policy where
  "sample_policy = \<lparr>po_enabled = True, po_quiet_enabled = True, po_quiet_start = ''22:00'',
     po_quiet_end = ''08:00'', po_timezone = ''Asia/Shanghai'', po_max_per_hour = 20,
     po_dedupe_window = 300, po_fallback_channels = [], po_updated_by = [], po_updated_at = []\<rparr>"

definition sample_zones :: zones where
  "sample_zones name = (if name = ''Asia/Shanghai'' then Some (\<lambda>_. 28800) else None)"

lemma sample_clocks:
  "parse_clock (po_quiet_start sample_policy) = Some (22, 0)" "parse_clock (po_quiet_end sample_policy) = Some (8, 0)"
  by (simp_all add: sample_policy_def parse_clock_def is_digit_def digit_val_def)

text \<open>A zone that changes its offset in April: two in the morning in a winter night, six hours before the end.\<close>

definition summer_zones :: zones where
  "summer_zones name = (if name = ''Asia/Shanghai'' then Some (\<lambda>t. if t < 90 * 86400 then 28800 else 32400) else None)"


end
