(* ===== verification/Delivery_Policy.thy ===== *)
theory Delivery_Policy
  imports Policy_Limits Quiet_Hours Sha256
begin

text \<open>
  The policy manager, internal/domain/delivery/service/policy_manager.go: a client of the
  interface \<open>PolicyStore\<close> (internal/domain/delivery/repository/store.go), a record of actions
  here. \<open>zones\<close> is the host's time zone database and \<open>now\<close> what its clock says. The SQL store
  implements the interface with the operations of \<open>Policy_Store\<close>.
\<close>

record 'w policy_store =
  ps_policy :: "('w, policy) io"
  ps_save :: "policy \<Rightarrow> ('w, policy) io"
  ps_list :: "workspace_id \<Rightarrow> ('w, preference list) io"
  ps_preference :: "workspace_id \<Rightarrow> user_id \<Rightarrow> ('w, preference option) io"
  ps_save_preference :: "workspace_id \<Rightarrow> preference \<Rightarrow> ('w, preference) io"
  ps_reserve :: "workspace_id \<Rightarrow> reservation list \<Rightarrow> int \<Rightarrow> int \<Rightarrow> ('w, unit) io"

definition sql_policy_store :: "workspace_id \<Rightarrow> world policy_store" where
  "sql_policy_store self = \<lparr>ps_policy = get_policy self, ps_save = save_policy self,
     ps_list = list_recipient_preferences self, ps_preference = get_recipient_preference self,
     ps_save_preference = save_recipient_preference self, ps_reserve = reserve_batch\<rparr>"

definition manager_save_policy ::
  "'w policy_store \<Rightarrow> zones \<Rightarrow> instant \<Rightarrow> policy \<Rightarrow> string \<Rightarrow> ('w, policy) io" where
  "manager_save_policy store zones now value actor =
     (case validate_policy zones value of
        Some e \<Rightarrow> fail e
      | None \<Rightarrow>
          let actor = trim_space actor in
          guard_io (actor = []) (new_error ErrorInvalid ''backend.notification.policy_actor_required'' None [])
            (ps_save store (value\<lparr>po_updated_by := actor, po_updated_at := timestamp now\<rparr>)))"

definition manager_save_preference ::
  "'w policy_store \<Rightarrow> instant \<Rightarrow> workspace_id \<Rightarrow> preference \<Rightarrow> string \<Rightarrow> ('w, preference) io" where
  "manager_save_preference store now ws value actor =
     (let key = trim_space (pf_recipient value); actor = trim_space actor in
      guard_io (ws = [] \<or> key = [] \<or> actor = [])
        (new_error ErrorInvalid ''backend.notification.preference_identity_required'' None [])
        (ps_save_preference store ws (value\<lparr>pf_recipient := key, pf_muted := unique_strings (pf_muted value),
           pf_updated_by := actor, pf_updated_at := timestamp now\<rparr>)))"

section \<open>Evaluating a delivery\<close>

text \<open>The check of one recipient's preference.\<close>

definition refused_by :: "evaluation \<Rightarrow> user_id \<Rightarrow> preference option \<Rightarrow> err option" where
  "refused_by v u found = (case found of None \<Rightarrow> None | Some p \<Rightarrow>
     if map_of (pf_channels p) (va_channel v) = Some False
     then Some (new_error ErrorConflict ''backend.notification.recipient_channel_disabled'' None
            [(''recipient'', u), (''channel'', va_channel v)])
     else if va_template v \<in> set (pf_muted p)
     then Some (new_error ErrorConflict ''backend.notification.recipient_template_muted'' None
            [(''recipient'', u), (''template_key'', va_template v)])
     else None)"

definition reservation_for :: "evaluation \<Rightarrow> string \<Rightarrow> user_id \<Rightarrow> reservation" where
  "reservation_for v created u =
     (let key = trim_space (va_reservation v); key = (if key = [] then created else key);
          identity = join_with [CHR 0x00] [va_workspace v, u, va_template v, va_channel v, va_dedupe v, key]
      in \<lparr>rv_id = hex_encode (sha256 identity), rv_recipient = u, rv_template = va_template v,
          rv_channel = va_channel v, rv_dedupe = va_dedupe v, rv_created_at = created\<rparr>)"

definition collect_reservations ::
  "'w policy_store \<Rightarrow> instant \<Rightarrow> evaluation \<Rightarrow> user_id list \<Rightarrow> reservation list \<Rightarrow> ('w, reservation list) io" where
  "collect_reservations store now v us acc =
     fold_io (\<lambda>u rs. bind_io (ps_preference store (va_workspace v) u) (\<lambda>found.
       case refused_by v u found of
         Some e \<Rightarrow> fail e
       | None \<Rightarrow> ret (rs @ [reservation_for v (timestamp now) u]))) us acc"

definition reservation_error :: "err \<Rightarrow> err" where
  "reservation_error e =
     (if errors_is e ErrFrequencyExceeded
      then new_error ErrorConflict ''backend.notification.delivery_frequency_exceeded'' (Some e) []
      else if errors_is e ErrDuplicate
      then new_error ErrorConflict ''backend.notification.delivery_duplicate'' (Some e) []
      else e)"

definition no_decision :: decision where
  "no_decision = \<lparr>de_deliver_after = [], de_fallback_order = []\<rparr>"

definition decision_of :: "zones \<Rightarrow> instant \<Rightarrow> policy \<Rightarrow> decision" where
  "decision_of zones now p = \<lparr>de_deliver_after = (if po_quiet_enabled p then next_quiet_hours_end zones now p else []),
     de_fallback_order = po_fallback_channels p\<rparr>"

definition reserve_and_decide ::
  "'w policy_store \<Rightarrow> zones \<Rightarrow> instant \<Rightarrow> evaluation \<Rightarrow> policy \<Rightarrow> reservation list \<Rightarrow> ('w, decision) io" where
  "reserve_and_decide store zones now v p rs =
     bind_io (attempt (ps_reserve store (va_workspace v) rs (po_max_per_hour p) (po_dedupe_window p)))
       (\<lambda>r. case r of Inl e \<Rightarrow> fail (reservation_error e) | Inr _ \<Rightarrow> ret (decision_of zones now p))"

definition evaluate_delivery ::
  "'w policy_store \<Rightarrow> zones \<Rightarrow> instant \<Rightarrow> evaluation \<Rightarrow> ('w, decision) io" where
  "evaluate_delivery store zones now v =
     guard_io (va_workspace v = [] \<or> trim_space (va_template v) = [] \<or> trim_space (va_channel v) = [])
       (new_error ErrorInvalid ''backend.notification.delivery_evaluation_invalid'' None [])
     (let us = unique_users (va_recipients v) in
      guard_io (us = []) (new_error ErrorInvalid ''backend.notification.recipients_required'' None [])
     (bind_io (ps_policy store) (\<lambda>p.
      if \<not> po_enabled p then ret no_decision else
      bind_io (collect_reservations store now v us []) (reserve_and_decide store zones now v p))))"

section \<open>The contract of the store\<close>

text \<open>
  What an evaluation relies on: reading the policy and a preference shows what the state
  holds and changes nothing of it, and a batch that is accepted is booked.
\<close>

locale policy_contract =
  fixes store :: "'w policy_store"
    and policy_in :: "'w \<Rightarrow> policy"
    and preference_in :: "'w \<Rightarrow> workspace_id \<Rightarrow> user_id \<Rightarrow> preference option"
    and booked :: "'w \<Rightarrow> workspace_id \<Rightarrow> reservation \<Rightarrow> bool"
  assumes policy_read: "ps_policy store w = (Inr p, w') \<Longrightarrow>
      p = policy_in w \<and> policy_in w' = policy_in w \<and> preference_in w' = preference_in w"
    and preference_read: "ps_preference store ws u w = (Inr f, w') \<Longrightarrow>
      f = preference_in w ws u \<and> policy_in w' = policy_in w \<and> preference_in w' = preference_in w"
    and reserve_books: "ps_reserve store ws rs limit window w = (Inr (), w') \<Longrightarrow> v \<in> set rs \<Longrightarrow> booked w' ws v"
begin

lemma collected:
  assumes "collect_reservations store now v us acc w = (Inr rs, w')"
  shows "rs = acc @ map (reservation_for v (timestamp now)) us \<and>
    (\<forall>u \<in> set us. refused_by v u (preference_in w (va_workspace v) u) = None)"
  using assms
proof (induction us arbitrary: acc w)
  case (Cons u us)
  from Cons.prems obtain f w1 where f: "ps_preference store (va_workspace v) u w = (Inr f, w1)"
    and ok: "refused_by v u f = None"
    and rest: "collect_reservations store now v us (acc @ [reservation_for v (timestamp now) u]) w1 = (Inr rs, w')"
    by (auto simp: collect_reservations_def bind_io_Inr split: option.splits)
  from preference_read [OF f] Cons.IH [OF rest] ok show ?case by auto
qed (simp add: collect_reservations_def)

lemma evaluate_respects:
  assumes "evaluate_delivery store zones now v w = (Inr d, w')"
  shows "\<not> po_enabled (policy_in w) \<and> d = no_decision \<or>
    po_enabled (policy_in w) \<and> d = decision_of zones now (policy_in w) \<and>
    (\<forall>u \<in> set (unique_users (va_recipients v)).
       refused_by v u (preference_in w (va_workspace v) u) = None \<and>
       booked w' (va_workspace v) (reservation_for v (timestamp now) u))"
proof -
  let ?us = "unique_users (va_recipients v)"
  from assms obtain p w1 where p: "ps_policy store w = (Inr p, w1)"
    and t: "(if \<not> po_enabled p then ret no_decision else
      bind_io (collect_reservations store now v ?us []) (reserve_and_decide store zones now v p)) w1 = (Inr d, w')"
    by (auto simp: evaluate_delivery_def guard_io_Inr Let_def bind_io_Inr)
  note pw = policy_read [OF p]
  show ?thesis
  proof (cases "po_enabled p")
    case False
    with t pw show ?thesis by simp
  next
    case True
    with t obtain rs w2 where c: "collect_reservations store now v ?us [] w1 = (Inr rs, w2)"
      and r: "reserve_and_decide store zones now v p rs w2 = (Inr d, w')"
      by (auto simp: bind_io_Inr)
    obtain x w3 where x: "ps_reserve store (va_workspace v) rs (po_max_per_hour p) (po_dedupe_window p) w2 = (x, w3)"
      by fastforce
    with r have "x = Inr ()" "w3 = w'" "d = decision_of zones now p"
      by (cases x; auto simp: reserve_and_decide_def bind_io_Inr attempt_eq)+
    with x have "ps_reserve store (va_workspace v) rs (po_max_per_hour p) (po_dedupe_window p) w2 = (Inr (), w')"
      and "d = decision_of zones now p" by simp_all
    with collected [OF c] reserve_books pw True show ?thesis by auto
  qed
qed

end

definition policy_of_database :: "workspace_id \<Rightarrow> world \<Rightarrow> policy" where
  "policy_of_database self w =
     (case List.find (policy_key_matches self) (db_policies (db w)) of None \<Rightarrow> default_policy | Some r \<Rightarrow> pp_payload r)"

definition preference_of_database :: "world \<Rightarrow> workspace_id \<Rightarrow> user_id \<Rightarrow> preference option" where
  "preference_of_database w ws u =
     map_option fr_payload (List.find (preference_key_matches ws u) (db_preferences (db w)))"

lemma reserve_batch_records:
  "reserve_batch ws rs limit window w = (Inr (), w') \<Longrightarrow> v \<in> set rs \<Longrightarrow> recorded ws v (db w')"
proof -
  assume m: "reserve_batch ws rs limit window w = (Inr (), w')" and v: "v \<in> set rs"
  then obtain c w1 w2 where "bind_io (for_each (reserve_one ws limit window) rs) (\<lambda>_. commit_with ()) w1 = (Inr (c, ()), w2)"
      "db w' = (if c then db w2 else db w)"
    by (auto simp: reserve_batch_def guard_io_Inr elim: transaction_Inr)
  then have "for_each (reserve_one ws limit window) rs w1 = (Inr (), w2)" "db w' = db w2"
    by (auto simp: bind_io_Inr)
  with reserve_loop_records v show ?thesis by metis
qed

interpretation sql_policies: policy_contract "sql_policy_store self" "policy_of_database self"
    preference_of_database "\<lambda>w ws v. recorded ws v (db w)"
  for self
proof unfold_locales
  fix w p w' assume "ps_policy (sql_policy_store self) w = (Inr p, w')"
  then show "p = policy_of_database self w \<and> policy_of_database self w' = policy_of_database self w \<and>
      preference_of_database w' = preference_of_database w"
    by (auto simp: sql_policy_store_def get_policy_def bind_io_Inr wrapping_Inr policy_of_database_def
        preference_of_database_def fun_eq_iff dest!: select_row_Inr)
next
  fix ws u w f w' assume "ps_preference (sql_policy_store self) ws u w = (Inr f, w')"
  then show "f = preference_of_database w ws u \<and> policy_of_database self w' = policy_of_database self w \<and>
      preference_of_database w' = preference_of_database w"
    by (auto simp: sql_policy_store_def get_recipient_preference_def require_workspace_def guard_io_Inr bind_io_Inr
        wrapping_Inr policy_of_database_def preference_of_database_def fun_eq_iff dest!: select_row_Inr)
qed (auto simp: sql_policy_store_def intro: reserve_batch_records)

definition sample_evaluation :: evaluation where
  "sample_evaluation = \<lparr>va_workspace = ''ws'', va_template = ''order.email'', va_channel = ''email'',
     va_recipients = [''u1''], va_dedupe = [], va_reservation = ''p1''\<rparr>"

lemma trim_digest [simp]: "trim_space (hex_encode s) = hex_encode s" "hex_encode (sha256 s) \<noteq> []"
proof -
  show "trim_space (hex_encode s) = hex_encode s"
    by (rule trim_space_plain) (metis hd_in_set last_in_set hex_encode_chars key_char_plain)
  show "hex_encode (sha256 s) \<noteq> []"
    using length_hex_encode [of "sha256 s"] length_sha256 [of s] by auto
qed

lemma sample_evaluation_run:
  assumes fresh: "db_policies d = []" "db_preferences d = []" "db_reservations d = []"
  shows "evaluate_delivery (sql_policy_store ''ws'') sample_zones 0 (sample_evaluation\<lparr>va_reservation := k\<rparr>) (calm_world d) =
     (Inr (decision_of sample_zones 0 default_policy),
      calm_world (reserved ''ws'' (reservation_for (sample_evaluation\<lparr>va_reservation := k\<rparr>) (timestamp 0) ''u1'') d))"
proof -
  let ?v = "reservation_for (sample_evaluation\<lparr>va_reservation := k\<rparr>) (timestamp 0) ''u1''"
  have u: "unique_users (va_recipients sample_evaluation) = [''u1'']"
    "trim_space (va_template sample_evaluation) \<noteq> []" "trim_space (va_channel sample_evaluation) \<noteq> []"
    by (simp_all add: sample_evaluation_def unique_users_def trim_space_plain plain_char_def)
  have v: "trim_space (rv_id ?v) \<noteq> []" "rv_recipient ?v = ''u1''" "rv_created_at ?v = timestamp 0" "trim_space (rv_dedupe ?v) = []"
    by (simp_all add: reservation_for_def Let_def sample_evaluation_def)
  have z: "parse_rfc3339 (timestamp 0) = Some 0"
    by (rule parse_timestamp) (simp add: in_range_def year_start_def unix_epoch_day_def day_ns_def)
  have r: "reserve_batch ''ws'' [?v] 20 300 (calm_world d) = (Inr (), calm_world (reserved ''ws'' ?v d))"
    using v z by (simp add: reserve_batch_def reserve_one_def reserve_new_def insert_reservation_def check_duplicate_def
        reservation_already_recorded_def statement_runs calm_world_def fresh reserved_def)
  have c: "collect_reservations (sql_policy_store ''ws'') 0 (sample_evaluation\<lparr>va_reservation := k\<rparr>) [''u1''] [] (calm_world d) =
      (Inr [?v], calm_world d)"
    by (simp add: collect_reservations_def sql_policy_store_def get_recipient_preference_def require_workspace_def
        statement_runs calm_world_def fresh refused_by_def sample_evaluation_def)
  have p: "get_policy ''ws'' (calm_world d) = (Inr default_policy, calm_world d)"
    by (simp add: get_policy_def statement_runs calm_world_def fresh)
  have f: "ps_policy (sql_policy_store ''ws'') = get_policy ''ws''" "ps_reserve (sql_policy_store ''ws'') = reserve_batch"
    "va_workspace (sample_evaluation\<lparr>va_reservation := k\<rparr>) = ''ws''" "po_enabled default_policy" "po_max_per_hour default_policy = 20"
    "po_dedupe_window default_policy = 300"
    by (simp_all add: sql_policy_store_def sample_evaluation_def default_policy_def)
  show ?thesis
    by (simp add: evaluate_delivery_def Let_def guard_io_def u f bind_io_run p c)
      (simp add: reserve_and_decide_def attempt_def bind_io_def f r ret_def)
qed

lemmas sample_evaluation_run0 = sample_evaluation_run [where k = "''p1''"]

lemma sample_evaluation_key [simp]: "sample_evaluation\<lparr>va_reservation := ''p1''\<rparr> = sample_evaluation"
  by (simp add: sample_evaluation_def)

lemma find_append: "List.find P (xs @ ys) = (case List.find P xs of None \<Rightarrow> List.find P ys | Some x \<Rightarrow> Some x)"
  by (induction xs) auto

lemma save_policy_reads_back:
  assumes "save_policy self p w = (Inr q, w')"
  shows "q = p \<and> policy_of_database self w' = p"
proof -
  let ?P = "policy_key_matches self"
  let ?upd = "\<lambda>r. r\<lparr>pp_payload := p, pp_updated_by := po_updated_by p, pp_updated_at := po_updated_at p\<rparr>"
  from assms obtain c w1 w2 where b: "save_policy_body self p w1 = (Inr (c, q), w2)" "db w' = (if c then db w2 else db w)"
    unfolding save_policy_def by (rule transaction_Inr)
  from b(1) obtain f w3 where s: "select_row policies_table ?P w1 = (Inr f, w3)"
    by (auto simp: save_policy_body_def bind_io_Inr)
  from select_row_Inr [OF s] have f: "List.find ?P (db_policies (db w3)) = f" by simp
  have new: "?P (new_policy_row self p)" by (simp add: policy_key_matches_def new_policy_row_def)
  have same: "?P (?upd r) = ?P r" for r by (simp add: policy_key_matches_def)
  show ?thesis
  proof (cases f)
    case None
    with b(1) s have "c \<and> q = p"
      and i: "workspace_insert policies_table policy_clash ''_notification_delivery_policies'' self self (new_policy_row self p) w3 = (Inr (), w2)"
      by (auto simp: save_policy_body_def bind_io_run bind_io_Inr wrapping_Inr)
    with workspace_insert_Inr [OF i] None f new b(2) show ?thesis
      by (simp add: policy_of_database_def find_append) (simp add: new_policy_row_def)
  next
    case (Some x)
    with b(1) s obtain n where n: "c \<and> q = p" and u: "update_rows policies_table ?P ?upd w3 = (Inr n, w2)"
      by (auto simp: save_policy_body_def bind_io_run bind_io_Inr wrapping_Inr guard_io_Inr)
    have "?P x" using Some f by (auto simp: find_Some_iff)
    have "(\<lambda>r. ?P (if ?P r then ?upd r else r)) = ?P" by (auto simp: same fun_eq_iff)
    with update_rows_Inr [OF u] Some f \<open>?P x\<close> n b(2) show ?thesis
      by (simp add: policy_of_database_def find_update_where)
  qed
qed

text \<open>Only valid policies are stored. When the manager reports a policy as saved, it has a
  positive hourly limit of at most 10000, a deduplication window of at most a day, a known
  time zone and two parseable clock times, it carries the acting user and the time, and it is
  the policy the store gives from then on.\<close>

theorem saved_policy_valid:
  assumes "manager_save_policy (sql_policy_store self) zones now value actor w = (Inr p, w')"
  shows "1 \<le> po_max_per_hour p \<and> po_max_per_hour p \<le> 10000 \<and> 0 \<le> po_dedupe_window p \<and> po_dedupe_window p \<le> 86400 \<and>
    zones (po_timezone p) \<noteq> None \<and> parse_clock (po_quiet_start p) \<noteq> None \<and> parse_clock (po_quiet_end p) \<noteq> None \<and>
    po_updated_by p = trim_space actor \<and> po_updated_by p \<noteq> [] \<and> po_updated_at p = timestamp now \<and>
    policy_of_database self w' = p"
proof -
  let ?q = "value\<lparr>po_updated_by := trim_space actor, po_updated_at := timestamp now\<rparr>"
  from assms have v: "validate_policy zones value = None"
    and "trim_space actor \<noteq> []" and "save_policy self ?q w = (Inr p, w')"
    by (auto simp: manager_save_policy_def Let_def guard_io_Inr sql_policy_store_def split: option.splits)
  with save_policy_reads_back [of self ?q w p w'] show ?thesis
    by (auto simp: validate_policy_def split: if_splits)
qed

theorem saved_policy_valid_witness:
  "policy_of_database ''ws'' (snd (manager_save_policy (sql_policy_store ''ws'') sample_zones 0 sample_policy ''admin''
     (calm_world empty_database))) = sample_policy\<lparr>po_updated_by := ''admin'', po_updated_at := timestamp 0\<rparr>"
proof -
  let ?p = "sample_policy\<lparr>po_updated_by := ''admin'', po_updated_at := timestamp 0\<rparr>"
  have "validate_policy sample_zones sample_policy = None"
    using sample_clocks by (auto simp: validate_policy_def) (simp_all add: sample_policy_def sample_zones_def)
  moreover have "trim_space ''admin'' = ''admin''" by (simp add: trim_space_plain plain_char_def)
  moreover have "save_policy ''ws'' ?p (calm_world empty_database) =
      (Inr ?p, calm_world (empty_database\<lparr>db_policies := [new_policy_row ''ws'' ?p]\<rparr>))"
    by (simp add: save_policy_def save_policy_body_def statement_runs calm_world_def empty_database_def)
  ultimately have m: "manager_save_policy (sql_policy_store ''ws'') sample_zones 0 sample_policy ''admin'' (calm_world empty_database) =
      (Inr ?p, calm_world (empty_database\<lparr>db_policies := [new_policy_row ''ws'' ?p]\<rparr>))"
    by (simp add: manager_save_policy_def Let_def guard_io_def sql_policy_store_def)
  from saved_policy_valid [OF m] m show ?thesis by simp
qed

end
