(* ===== verification/Delivery_Processor.thy ===== *)
theory Delivery_Processor
  imports Plan_Queue Delivery_Policy Inbox_Processor "HOL-Library.Multiset"
begin

text \<open>
  The delivery worker, internal/application/delivery/processor.go, over the interfaces it is
  given: the plan store (internal/domain/delivery/repository/store.go), the template renderer,
  the dispatcher into the host's outbox (internal/domain/delivery/service/dispatcher.go), the
  policy evaluator and the retry policy of the foundation library. A dispatch is the boundary
  of the module: what the host does with an accepted request is outside.
\<close>

section \<open>Interfaces\<close>

record 'w plan_store =
  pq_get :: "workspace_id \<Rightarrow> string \<Rightarrow> ('w, plan option) io"
  pq_list_due :: "string \<Rightarrow> int \<Rightarrow> ('w, plan list) io"
  pq_claim :: "workspace_id \<Rightarrow> string \<Rightarrow> string \<Rightarrow> string \<Rightarrow> string \<Rightarrow> ('w, plan option) io"
  pq_terminal :: "plan \<Rightarrow> ('w, bool) io"
  pq_cancel :: "plan \<Rightarrow> string \<Rightarrow> string \<Rightarrow> ('w, unit) io"
  pq_complete :: "plan \<Rightarrow> string \<Rightarrow> string \<Rightarrow> ('w, unit) io"
  pq_complete_batch :: "plan list \<Rightarrow> string \<Rightarrow> string \<Rightarrow> ('w, unit) io"
  pq_retry :: "plan \<Rightarrow> string \<Rightarrow> string \<Rightarrow> string \<Rightarrow> ('w, unit) io"
  pq_fail :: "plan \<Rightarrow> string \<Rightarrow> string \<Rightarrow> ('w, unit) io"

definition sql_plan_store :: "queue_index \<Rightarrow> world plan_store" where
  "sql_plan_store qi = \<lparr>pq_get = get_plan, pq_list_due = list_due_plans qi, pq_claim = claim_plan,
     pq_terminal = is_action_terminal, pq_cancel = cancel_plan, pq_complete = complete_plan,
     pq_complete_batch = complete_plan_batch, pq_retry = retry_plan, pq_fail = fail_plan\<rparr>"

record render_request =
  rq_workspace :: workspace_id
  rq_template :: string
  rq_locale :: string
  rq_recipients :: "user_id list"
  rq_variables :: variables
  rq_metadata :: variables

record dispatch_fallback =
  df_connector :: string
  df_connection :: string
  df_operation :: string
  df_content :: rendered

record dispatch_request =
  dr_workspace :: workspace_id
  dr_plan :: string
  dr_event :: string
  dr_channel :: string
  dr_connector :: string
  dr_connection :: string
  dr_operation :: string
  dr_deduplication :: string
  dr_content :: rendered
  dr_decision :: decision
  dr_fallbacks :: "dispatch_fallback list"
  dr_created :: instant

record dispatch_receipt =
  dx_message :: string
  dx_accepted :: instant

record 'w delivery_deps =
  dd_plans :: "'w plan_store"
  dd_render :: "render_request \<Rightarrow> ('w, rendered) io"
  dd_dispatch :: "dispatch_request \<Rightarrow> ('w, dispatch_receipt) io"
  dd_evaluate :: "evaluation \<Rightarrow> ('w, decision) io"
  dd_worker :: string
  dd_retry :: retry_policy

section \<open>Dispatching one plan\<close>

definition evaluation_of :: "plan \<Rightarrow> evaluation" where
  "evaluation_of p = \<lparr>va_workspace = pl_workspace p, va_template = pl_template p,
     va_channel = pl_channel p, va_recipients = pl_recipients p, va_dedupe = pl_dedupe p,
     va_reservation = pl_id p\<rparr>"

definition render_request_of :: "plan \<Rightarrow> string \<Rightarrow> render_request" where
  "render_request_of p template_key = \<lparr>rq_workspace = pl_workspace p, rq_template = template_key,
     rq_locale = pl_locale p, rq_recipients = pl_recipients p, rq_variables = pl_variables p,
     rq_metadata = [(''notification_event_id'', VText (pl_event p)),
       (''notification_channel_plan_id'', VText (pl_id p)), (''dedupe_key'', VText (pl_dedupe p))]\<rparr>"

text \<open>The position of a channel in the fallback order; channels outside it come after all others.\<close>

fun index_of :: "string \<Rightarrow> string list \<Rightarrow> nat \<Rightarrow> nat option" where
  "index_of c [] i = None"
| "index_of c (x # xs) i = (if x = c then Some i else index_of c xs (Suc i))"

definition fallback_priority :: "decision \<Rightarrow> string \<Rightarrow> nat" where
  "fallback_priority d channel =
     (case index_of channel (de_fallback_order d) 0 of Some i \<Rightarrow> i | None \<Rightarrow> length (de_fallback_order d) + 1)"

definition render_fallbacks ::
  "'w delivery_deps \<Rightarrow> plan \<Rightarrow> rendered \<Rightarrow> decision \<Rightarrow> ('w, dispatch_fallback list) io" where
  "render_fallbacks d p content decision =
     bind_io (fold_io (\<lambda>f acc. bind_io (dd_render d (render_request_of p (fb_template f))) (\<lambda>r.
        ret (acc @ [\<lparr>df_connector = fb_connector f, df_connection = fb_connection f,
           df_operation = fb_operation f, df_content = r\<rparr>]))) (re_fallbacks content) [])
     (\<lambda>fs. ret (sort_key (\<lambda>f. fallback_priority decision (re_channel (df_content f))) fs))"

definition dispatch_request_of ::
  "plan \<Rightarrow> rendered \<Rightarrow> decision \<Rightarrow> dispatch_fallback list \<Rightarrow> instant \<Rightarrow> dispatch_request" where
  "dispatch_request_of p content decision fallbacks now = \<lparr>dr_workspace = pl_workspace p,
     dr_plan = pl_id p, dr_event = pl_event p, dr_channel = pl_channel p, dr_connector = pl_connector p,
     dr_connection = pl_connection p, dr_operation = pl_operation p, dr_deduplication = pl_id p,
     dr_content = content, dr_decision = decision, dr_fallbacks = fallbacks, dr_created = now\<rparr>"

definition dispatch_plan :: "'w delivery_deps \<Rightarrow> plan \<Rightarrow> instant \<Rightarrow> ('w, dispatch_receipt) io" where
  "dispatch_plan d p now =
     bind_io (dd_evaluate d (evaluation_of p)) (\<lambda>decision.
     bind_io (dd_render d (render_request_of p (pl_template p))) (\<lambda>content.
     bind_io (render_fallbacks d p content decision) (\<lambda>fallbacks.
     dd_dispatch d (dispatch_request_of p content decision fallbacks now))))"

definition record_plan_failure :: "'w delivery_deps \<Rightarrow> instant \<Rightarrow> plan \<Rightarrow> ('w, unit) io" where
  "record_plan_failure d now p =
     (let updated = timestamp now; n = pl_attempts p + 1; code = ''backend.notification.channel_plan_failed''
      in if \<not> ry_allows (dd_retry d) worker_retry n now
         then pq_fail (dd_plans d) p code updated
         else pq_retry (dd_plans d) p code (timestamp (now + ry_delay (dd_retry d) worker_retry n)) updated)"

section \<open>Claiming\<close>

text \<open>\<open>claimDeliverable\<close>: the claimed plan when it is to be delivered.\<close>

definition plan_lease_duration :: int where "plan_lease_duration = 30 * second_ns"

definition claim_deliverable :: "'w delivery_deps \<Rightarrow> instant \<Rightarrow> plan \<Rightarrow> ('w, plan option) io" where
  "claim_deliverable d now candidate =
     bind_io (pq_claim (dd_plans d) (pl_workspace candidate) (pl_id candidate) (dd_worker d)
        (timestamp now) (timestamp (now + plan_lease_duration))) (\<lambda>found.
     case found of None \<Rightarrow> ret None
     | Some p \<Rightarrow>
         if \<not> pl_cancel_terminal p then ret (Some p) else
         bind_io (pq_terminal (dd_plans d) p) (\<lambda>terminal.
         if \<not> terminal then ret (Some p) else
         bind_io (pq_cancel (dd_plans d) p ''backend.notification.channel_plan_action_terminal'' (timestamp now))
           (\<lambda>_. ret None)))"

definition process_immediate :: "'w delivery_deps \<Rightarrow> instant \<Rightarrow> plan \<Rightarrow> ('w, bool) io" where
  "process_immediate d now candidate =
     bind_io (claim_deliverable d now candidate) (\<lambda>found. case found of
       None \<Rightarrow> ret False
     | Some p \<Rightarrow> bind_io (attempt (dispatch_plan d p now)) (\<lambda>r. case r of
           Inl _ \<Rightarrow> bind_io (record_plan_failure d now p) (\<lambda>_. ret False)
         | Inr receipt \<Rightarrow> bind_io (pq_complete (dd_plans d) p (dx_message receipt) (timestamp now)) (\<lambda>_. ret True)))"

section \<open>Digests\<close>

definition same_digest :: "plan \<Rightarrow> plan \<Rightarrow> bool" where
  "same_digest first p \<longleftrightarrow> pl_workspace p = pl_workspace first \<and> pl_mode p = ''digest'' \<and>
     pl_digest_key p = pl_digest_key first \<and> pl_next_attempt p = pl_next_attempt first \<and>
     pl_channel p = pl_channel first \<and> pl_template p = pl_template first \<and> pl_locale p = pl_locale first \<and>
     pl_connector p = pl_connector first \<and> pl_connection p = pl_connection first \<and>
     pl_operation p = pl_operation first \<and> pl_recipients p = pl_recipients first"

definition digest_maximum :: "plan \<Rightarrow> int" where
  "digest_maximum first =
     (if pl_digest_maximum first \<le> 0 \<or> 100 < pl_digest_maximum first then 50 else pl_digest_maximum first)"

definition digest_candidates :: "plan list \<Rightarrow> plan \<Rightarrow> string list \<Rightarrow> plan list" where
  "digest_candidates plans first consumed =
     take_limit (digest_maximum first) (filter (\<lambda>p. pl_id p \<notin> set consumed \<and> same_digest first p) plans)"

definition digest_line :: "plan \<Rightarrow> string" where
  "digest_line p = (let body = trim_space (pl_digest_body p)
     in trim_space (pl_digest_title p) @ (if body \<noteq> [] then '': '' @ body else []))"

definition set_variable :: "string \<Rightarrow> variable_value \<Rightarrow> variables \<Rightarrow> variables" where
  "set_variable k v vars = filter (\<lambda>(k', _). k' \<noteq> k) vars @ [(k, v)]"

definition digest_plan :: "plan \<Rightarrow> plan list \<Rightarrow> plan" where
  "digest_plan first ps = first\<lparr>pl_id := ''digest:'' @ pl_digest_key first @ '':'' @ pl_next_attempt first,
     pl_variables := set_variable ''digest_event_ids'' (VText (join_with '','' (map pl_event ps)))
       (set_variable ''digest_items_text'' (VText (join_with [CHR 0x0A] (map digest_line ps)))
       (set_variable ''digest_count'' (VNumber (show_nat (length ps))) (pl_variables first)))\<rparr>"

definition claim_digest :: "'w delivery_deps \<Rightarrow> instant \<Rightarrow> plan list \<Rightarrow> ('w, plan list) io" where
  "claim_digest d now candidates =
     fold_io (\<lambda>c acc. bind_io (claim_deliverable d now c) (\<lambda>r.
        case r of None \<Rightarrow> ret acc | Some p \<Rightarrow> ret (acc @ [p]))) candidates []"

definition deliver_digest :: "'w delivery_deps \<Rightarrow> instant \<Rightarrow> plan list \<Rightarrow> ('w, int) io" where
  "deliver_digest d now ps =
     (case ps of [] \<Rightarrow> ret 0
      | first # _ \<Rightarrow> bind_io (attempt (dispatch_plan d (digest_plan first ps) now)) (\<lambda>r. case r of
          Inl _ \<Rightarrow> bind_io (for_each (record_plan_failure d now) ps) (\<lambda>_. ret 0)
        | Inr receipt \<Rightarrow> bind_io (pq_complete_batch (dd_plans d) ps (dx_message receipt) (timestamp now))
            (\<lambda>_. ret (int (length ps)))))"

definition process_digest :: "'w delivery_deps \<Rightarrow> instant \<Rightarrow> plan list \<Rightarrow> ('w, int) io" where
  "process_digest d now candidates = bind_io (claim_digest d now candidates) (deliver_digest d now)"

section \<open>The loop\<close>

fun process_plans ::
  "'w delivery_deps \<Rightarrow> instant \<Rightarrow> plan list \<Rightarrow> plan list \<Rightarrow> string list \<Rightarrow> int \<Rightarrow> ('w, int \<times> err option) io" where
  "process_plans d now plans [] consumed n = ret (n, None)"
| "process_plans d now plans (c # cs) consumed n =
     (if pl_id c \<in> set consumed then process_plans d now plans cs consumed n
      else if pl_mode c = ''digest'' \<and> trim_space (pl_digest_key c) \<noteq> []
      then let batch = digest_candidates plans c consumed in
        bind_io (attempt (process_digest d now batch)) (\<lambda>r. case r of
          Inl e \<Rightarrow> ret (n, Some e)
        | Inr k \<Rightarrow> process_plans d now plans cs (map pl_id batch @ consumed) (n + k))
      else bind_io (attempt (process_immediate d now c)) (\<lambda>r. case r of
          Inl e \<Rightarrow> ret (n, Some e)
        | Inr completed \<Rightarrow> process_plans d now plans cs (pl_id c # consumed) (if completed then n + 1 else n)))"

definition process_due_plans :: "'w delivery_deps \<Rightarrow> int \<Rightarrow> instant \<Rightarrow> ('w, int \<times> err option) io" where
  "process_due_plans d limit now =
     bind_io (attempt (pq_list_due (dd_plans d) (timestamp now) (if limit \<le> 0 \<or> limit > 100 then 25 else limit)))
     (\<lambda>r. case r of Inl e \<Rightarrow> ret (0, Some e) | Inr plans \<Rightarrow> process_plans d now plans plans [] 0)"

definition process_plan :: "'w delivery_deps \<Rightarrow> workspace_id \<Rightarrow> string \<Rightarrow> instant \<Rightarrow> ('w, bool) io" where
  "process_plan d ws i now =
     bind_io (pq_get (dd_plans d) ws (trim_space i)) (\<lambda>found. case found of
       None \<Rightarrow> ret False
     | Some p \<Rightarrow> if pl_mode p = ''digest'' then ret False else process_immediate d now p)"

section \<open>Digest batches and fallbacks\<close>

lemma digest_candidates_set:
  assumes "p \<in> set (digest_candidates plans first consumed)"
  shows "p \<in> set plans" "pl_id p \<notin> set consumed" "same_digest first p"
  using assms set_take_limit unfolding digest_candidates_def by fastforce+

lemma digest_maximum_range: "1 \<le> digest_maximum first" "digest_maximum first \<le> 100"
  by (auto simp: digest_maximum_def)

lemma take_filter_first:
  assumes "P x" "\<forall>y \<in> set ys. \<not> P y" "0 < n" shows "x \<in> set (take n (filter P (ys @ x # zs)))"
  using assms by (cases n) (auto simp: filter_empty_conv)

text \<open>Digest batches are well formed. When the loop reaches a digest plan that is not consumed,
  after plans that are, the batch it builds has the plan itself and at most 100 plans, all due,
  none consumed before, and all of them agree with it in workspace, digest key, window,
  channel, template, locale, connector, operation and recipients.\<close>

theorem digest_batch_well_formed:
  assumes "\<forall>p \<in> set before. pl_id p \<in> set consumed" "pl_id c \<notin> set consumed" "pl_mode c = ''digest''"
  shows "let batch = digest_candidates (before @ c # after) c consumed in
    c \<in> set batch \<and> length batch \<le> 100 \<and>
    (\<forall>p \<in> set batch. p \<in> set (c # after) \<and> pl_id p \<notin> set consumed \<and> same_digest c p)"
proof -
  let ?P = "\<lambda>p. pl_id p \<notin> set consumed \<and> same_digest c p"
  let ?b = "digest_candidates (before @ c # after) c consumed"
  have "0 < nat (digest_maximum c)" using digest_maximum_range(1) [of c] by linarith
  then have "c \<in> set ?b"
    unfolding digest_candidates_def take_limit_def using assms
    by (intro take_filter_first) (auto simp: same_digest_def)
  moreover have "int (length ?b) \<le> digest_maximum c"
    unfolding digest_candidates_def by (rule length_take_limit) (use digest_maximum_range(1) [of c] in linarith)
  then have "length ?b \<le> 100" using digest_maximum_range(2) [of c] by linarith
  moreover have "p \<in> set (c # after)" if "p \<in> set ?b" for p
    using digest_candidates_set [OF that] assms(1) by auto
  ultimately show ?thesis unfolding Let_def using digest_candidates_set by blast
qed

theorem digest_batch_well_formed_witness:
  "sample_plan\<lparr>pl_mode := ''digest''\<rparr> \<in> set (digest_candidates [sample_plan\<lparr>pl_id := ''p0''\<rparr>, sample_plan\<lparr>pl_mode := ''digest''\<rparr>]
     (sample_plan\<lparr>pl_mode := ''digest''\<rparr>) [''p0''])"
proof -
  have a: "\<forall>p \<in> set [sample_plan\<lparr>pl_id := ''p0''\<rparr>]. pl_id p \<in> set [''p0'']" by simp
  have b: "pl_id (sample_plan\<lparr>pl_mode := ''digest''\<rparr>) \<notin> set [''p0'']" by (simp add: sample_plan_def)
  have c: "pl_mode (sample_plan\<lparr>pl_mode := ''digest''\<rparr>) = ''digest''" by simp
  from digest_batch_well_formed [OF a b c, of "[]"] show ?thesis by (simp add: Let_def)
qed

lemma index_of_bounds: "index_of c xs i = Some k \<Longrightarrow> i \<le> k \<and> k < i + length xs \<and> xs ! (k - i) = c"
  by (induction c xs i rule: index_of.induct) (auto split: if_splits simp: nth_Cons')

lemma index_of_None: "index_of c xs i = None \<longleftrightarrow> c \<notin> set xs"
  by (induction c xs i rule: index_of.induct) auto

lemma rendered_fallbacks:
  assumes "render_fallbacks d p content decision w = (Inr fs, w')"
  shows "\<exists>rs. length rs = length (re_fallbacks content) \<and>
    mset fs = mset (map2 (\<lambda>f r. \<lparr>df_connector = fb_connector f, df_connection = fb_connection f,
      df_operation = fb_operation f, df_content = r\<rparr>) (re_fallbacks content) rs) \<and>
    sorted (map (\<lambda>f. fallback_priority decision (re_channel (df_content f))) fs)"
proof -
  let ?mk = "\<lambda>f r. \<lparr>df_connector = fb_connector f, df_connection = fb_connection f, df_operation = fb_operation f, df_content = r\<rparr>"
  have "\<exists>rs. length rs = length bs \<and> gs = acc @ map2 ?mk bs rs"
    if "fold_io (\<lambda>f acc. bind_io (dd_render d (render_request_of p (fb_template f))) (\<lambda>r. ret (acc @ [?mk f r]))) bs acc w = (Inr gs, w')"
    for bs acc w gs
    using that
  proof (induction bs arbitrary: acc w)
    case (Cons b bs)
    then obtain r w1 where "fold_io (\<lambda>f acc. bind_io (dd_render d (render_request_of p (fb_template f)))
        (\<lambda>r. ret (acc @ [?mk f r]))) bs (acc @ [?mk b r]) w1 = (Inr gs, w')"
      by (auto simp: bind_io_Inr)
    from Cons.IH [OF this] obtain rs where "length rs = length bs" "gs = (acc @ [?mk b r]) @ map2 ?mk bs rs" by blast
    then show ?case by (intro exI [of _ "r # rs"]) simp
  qed simp
  from this [of _ "[]"] assms show ?thesis
    by (fastforce simp: render_fallbacks_def bind_io_Inr sorted_sort_key)
qed

end
