(* ===== verification/Delivery_Worker.thy ===== *)
theory Delivery_Worker
  imports Delivery_Processor
begin

text \<open>
  What the delivery worker guarantees: it ends the leases it takes, it never dispatches a plan
  whose action is settled, what it reports as delivered was evaluated, rendered and dispatched as the claimed plan, and
  an accepted evaluation books every recipient and respects the preferences of plans that are not mandatory. The interface of the plan store is the locale
  \<open>plan_store_contract\<close>; the SQL store interprets it.
\<close>

section \<open>The contract of the plan store\<close>

text \<open>
  \<open>settles ok leased ps m\<close>: the call \<open>m\<close> keeps the invariant, leases nothing, and when it
  succeeds no plan of \<open>ps\<close> is leased any more.
\<close>

definition settles :: "('w \<Rightarrow> bool) \<Rightarrow> ('w \<Rightarrow> plan \<Rightarrow> bool) \<Rightarrow> plan list \<Rightarrow> ('w, unit) io \<Rightarrow> bool" where
  "settles ok leased ps m \<longleftrightarrow> (\<forall>w r w'. ok w \<and> m w = (r, w') \<longrightarrow>
     ok w' \<and> (\<forall>q. leased w' q \<longrightarrow> leased w q) \<and> (r = Inr () \<longrightarrow> (\<forall>p \<in> set ps. \<not> leased w' p)))"

definition harmless :: "('w \<Rightarrow> bool) \<Rightarrow> ('w \<Rightarrow> plan \<Rightarrow> bool) \<Rightarrow> ('w, 'a) io \<Rightarrow> bool" where
  "harmless ok leased m \<longleftrightarrow> (\<forall>w r w'. ok w \<and> m w = (r, w') \<longrightarrow> ok w' \<and> leased w' = leased w)"

named_theorems harmless_intros

lemma harmless_ret [harmless_intros]: "harmless ok leased (ret a)"
  by (auto simp: harmless_def)

lemma harmless_fail [harmless_intros]: "harmless ok leased (fail e)"
  by (auto simp: harmless_def)

lemma harmlessD:
  assumes "harmless ok leased m" "ok w" "m w = (r, w')" shows "ok w'" "leased w' = leased w"
  using assms unfolding harmless_def by blast+

lemma harmless_bind [harmless_intros]:
  assumes "harmless ok leased m" "\<And>a. harmless ok leased (f a)"
  shows "harmless ok leased (bind_io m f)"
  unfolding harmless_def
proof (intro allI impI, elim conjE)
  fix w r w' assume i: "ok w" and b: "bind_io m f w = (r, w')"
  obtain x w1 where m: "m w = (x, w1)" by fastforce
  note 1 = harmlessD [OF assms(1) i m]
  show "ok w' \<and> leased w' = leased w"
  proof (cases x)
    case (Inl e)
    with m b 1 show ?thesis by (simp add: bind_io_def)
  next
    case (Inr a)
    with m b have "f a w1 = (r, w')" by (simp add: bind_io_def)
    from harmlessD [OF assms(2) 1(1) this] 1 show ?thesis by simp
  qed
qed

lemma harmless_fold [harmless_intros]:
  "(\<And>x s. harmless ok leased (f x s)) \<Longrightarrow> harmless ok leased (fold_io f xs s)"
  by (induction xs arbitrary: s) (auto intro!: harmless_intros)

lemma settles_if:
  "settles ok leased ps m \<Longrightarrow> settles ok leased ps m' \<Longrightarrow> settles ok leased ps (if b then m else m')"
  by simp

lemma settles_each:
  assumes "\<And>p. p \<in> set ps \<Longrightarrow> settles ok leased [p] (f p)"
  shows "settles ok leased ps (for_each f ps)"
  using assms
proof (induction ps)
  case (Cons p ps)
  show ?case unfolding settles_def
  proof (intro allI impI, elim conjE)
    fix w r w' assume i: "ok w" and b: "for_each f (p # ps) w = (r, w')"
    obtain x w1 where m: "f p w = (x, w1)" by fastforce
    have 1: "ok w1" "\<forall>q. leased w1 q \<longrightarrow> leased w q" "x = Inr () \<Longrightarrow> \<not> leased w1 p"
      using Cons.prems [of p] i m by (auto simp: settles_def)
    show "ok w' \<and> (\<forall>q. leased w' q \<longrightarrow> leased w q) \<and> (r = Inr () \<longrightarrow> (\<forall>q \<in> set (p # ps). \<not> leased w' q))"
    proof (cases x)
      case (Inl e)
      with m b 1 show ?thesis by (auto simp: bind_io_def)
    next
      case (Inr u)
      with m b have "for_each f ps w1 = (r, w')" by (simp add: bind_io_def)
      moreover have "settles ok leased ps (for_each f ps)" using Cons by simp
      ultimately have "ok w'" "\<forall>q. leased w' q \<longrightarrow> leased w1 q" "r = Inr () \<longrightarrow> (\<forall>p \<in> set ps. \<not> leased w' p)"
        using 1(1) by (auto simp: settles_def)
      with 1 Inr show ?thesis by auto
    qed
  qed
qed (auto simp: settles_def)

locale plan_store_contract =
  fixes store :: "'w plan_store"
    and leased :: "'w \<Rightarrow> plan \<Rightarrow> bool"
    and ok :: "'w \<Rightarrow> bool"
  assumes claim_ok: "ok w \<Longrightarrow> pq_claim store ws i ow now x w = (r, w') \<Longrightarrow> ok w'"
    and claim_leases: "ok w \<Longrightarrow> pq_claim store ws i ow now x w = (Inr (Some p), w') \<Longrightarrow> leased w' p"
    and terminal_harmless: "harmless ok leased (pq_terminal store p)"
    and cancel_settles: "settles ok leased [p] (pq_cancel store p c now)"
    and complete_settles: "settles ok leased [p] (pq_complete store p m now)"
    and retry_settles: "settles ok leased [p] (pq_retry store p c nx now)"
    and fail_settles: "settles ok leased [p] (pq_fail store p c now)"
    and batch_settles: "settles ok leased ps (pq_complete_batch store ps m now)"
begin

text \<open>The renderer, the evaluator and the dispatcher do not touch the leases.\<close>

definition host_harmless :: "'w delivery_deps \<Rightarrow> bool" where
  "host_harmless d \<longleftrightarrow> (\<forall>q. harmless ok leased (dd_render d q)) \<and>
     (\<forall>v. harmless ok leased (dd_evaluate d v)) \<and> (\<forall>q. harmless ok leased (dd_dispatch d q))"

lemma dispatch_harmless:
  assumes "host_harmless d" shows "harmless ok leased (dispatch_plan d p now)"
  using assms unfolding dispatch_plan_def render_fallbacks_def host_harmless_def
  by (intro harmless_intros) auto

lemma failure_settles:
  assumes "dd_plans d = store" shows "settles ok leased [p] (record_plan_failure d now p)"
  unfolding record_plan_failure_def Let_def assms by (intro settles_if fail_settles retry_settles)

lemma deliver_immediate:
  assumes "ok w" "dd_plans d = store" "host_harmless d"
    and "(case r of Inl _ \<Rightarrow> bind_io (record_plan_failure d now p) (\<lambda>_. ret False)
         | Inr receipt \<Rightarrow> bind_io (pq_complete (dd_plans d) p (dx_message receipt) (timestamp now)) (\<lambda>_. ret True)) w = (Inr b, w')"
  shows "\<not> leased w' p"
proof (cases r)
  case (Inl e)
  with assms(4) have "record_plan_failure d now p w = (Inr (), w')" by (auto simp: bind_io_Inr)
  with failure_settles [OF assms(2)] assms(1) show ?thesis by (auto simp: settles_def)
next
  case (Inr x)
  with assms(2,4) have "pq_complete store p (dx_message x) (timestamp now) w = (Inr (), w')" by (auto simp: bind_io_Inr)
  with complete_settles assms(1) show ?thesis by (auto simp: settles_def)
qed

lemma claim_deliverable_lease:
  assumes "ok w" "dd_plans d = store" "claim_deliverable d now c w = (Inr f, w')"
  shows "(\<exists>w1. pq_claim store (pl_workspace c) (pl_id c) (dd_worker d) (timestamp now) (timestamp (now + plan_lease_duration)) w = (Inr None, w1)) \<and> f = None \<or>
    (\<exists>p w1. pq_claim store (pl_workspace c) (pl_id c) (dd_worker d) (timestamp now) (timestamp (now + plan_lease_duration)) w = (Inr (Some p), w1) \<and>
      leased w1 p \<and> ok w' \<and> (f = Some p \<or> f = None \<and> \<not> leased w' p))"
proof -
  from assms(2,3) obtain g w1 where c: "pq_claim store (pl_workspace c) (pl_id c) (dd_worker d) (timestamp now) (timestamp (now + plan_lease_duration)) w = (Inr g, w1)"
    and t: "(case g of None \<Rightarrow> ret None
     | Some p \<Rightarrow>
         if \<not> pl_cancel_terminal p then ret (Some p) else
         bind_io (pq_terminal store p) (\<lambda>terminal.
         if \<not> terminal then ret (Some p) else
         bind_io (pq_cancel store p ''backend.notification.channel_plan_action_terminal'' (timestamp now))
           (\<lambda>_. ret None))) w1 = (Inr f, w')"
    by (auto simp: claim_deliverable_def bind_io_Inr)
  show ?thesis
  proof (cases g)
    case None
    with c t show ?thesis by auto
  next
    case (Some p)
    have i: "ok w1" using claim_ok [OF assms(1) c] .
    have l: "leased w1 p" using claim_leases [OF assms(1)] c Some by simp
    have "ok w' \<and> (f = Some p \<or> f = None \<and> \<not> leased w' p)"
    proof (cases "pl_cancel_terminal p")
      case False
      with t Some i show ?thesis by simp
    next
      case True
      with t Some obtain b w2 where b: "pq_terminal store p w1 = (Inr b, w2)"
        and u: "(if \<not> b then ret (Some p) else
         bind_io (pq_cancel store p ''backend.notification.channel_plan_action_terminal'' (timestamp now)) (\<lambda>_. ret None)) w2 = (Inr f, w')"
        by (auto simp: bind_io_Inr)
      have "ok w2" using harmlessD(1) [OF terminal_harmless i b] .
      with u show ?thesis using cancel_settles [of p] by (fastforce simp: bind_io_Inr settles_def split: if_splits)
    qed
    with c Some l show ?thesis by auto
  qed
qed

lemma process_immediate_no_lease:
  assumes "ok w" "dd_plans d = store" "host_harmless d" "process_immediate d now c w = (Inr b, w')"
  shows "(\<exists>w1. pq_claim store (pl_workspace c) (pl_id c) (dd_worker d) (timestamp now) (timestamp (now + plan_lease_duration)) w = (Inr None, w1)) \<or>
    (\<exists>p w1. pq_claim store (pl_workspace c) (pl_id c) (dd_worker d) (timestamp now) (timestamp (now + plan_lease_duration)) w = (Inr (Some p), w1) \<and>
      leased w1 p \<and> \<not> leased w' p)"
proof -
  from assms(4) obtain f w1 where c: "claim_deliverable d now c w = (Inr f, w1)"
    and t: "(case f of None \<Rightarrow> ret False
     | Some p \<Rightarrow> bind_io (attempt (dispatch_plan d p now)) (\<lambda>r. case r of
           Inl _ \<Rightarrow> bind_io (record_plan_failure d now p) (\<lambda>_. ret False)
         | Inr receipt \<Rightarrow> bind_io (pq_complete (dd_plans d) p (dx_message receipt) (timestamp now)) (\<lambda>_. ret True))) w1 = (Inr b, w')"
    by (auto simp: process_immediate_def bind_io_Inr)
  note cl = claim_deliverable_lease [OF assms(1,2) c]
  show ?thesis
  proof (cases f)
    case None
    with t cl show ?thesis by auto
  next
    case (Some p)
    with cl have i: "ok w1" by auto
    from t Some obtain r w2 where dp: "dispatch_plan d p now w1 = (r, w2)"
      and u: "(case r of Inl _ \<Rightarrow> bind_io (record_plan_failure d now p) (\<lambda>_. ret False)
         | Inr receipt \<Rightarrow> bind_io (pq_complete (dd_plans d) p (dx_message receipt) (timestamp now)) (\<lambda>_. ret True)) w2 = (Inr b, w')"
      by (auto simp: bind_io_Inr attempt_eq)
    have "ok w2" using harmlessD(1) [OF dispatch_harmless [OF assms(3)] i dp] .
    from deliver_immediate [OF this assms(2,3) u] cl Some show ?thesis by auto
  qed
qed

lemma deliver_digest_settles:
  assumes "ok w" "dd_plans d = store" "host_harmless d" "deliver_digest d now ps w = (Inr n, w')"
  shows "(\<forall>p \<in> set ps. \<not> leased w' p) \<and> (n = 0 \<or> n = int (length ps))"
proof (cases ps)
  case Nil
  with assms(4) show ?thesis by (simp add: deliver_digest_def)
next
  case (Cons first rest)
  have eq: "deliver_digest d now ps = bind_io (attempt (dispatch_plan d (digest_plan first ps) now)) (\<lambda>r. case r of
        Inl _ \<Rightarrow> bind_io (for_each (record_plan_failure d now) ps) (\<lambda>_. ret 0)
      | Inr receipt \<Rightarrow> bind_io (pq_complete_batch (dd_plans d) ps (dx_message receipt) (timestamp now))
          (\<lambda>_. ret (int (length ps))))"
    by (simp only: deliver_digest_def Cons list.case)
  from assms(4) [unfolded eq] obtain r w2 where dp: "dispatch_plan d (digest_plan first ps) now w = (r, w2)"
    and u: "(case r of Inl _ \<Rightarrow> bind_io (for_each (record_plan_failure d now) ps) (\<lambda>_. ret 0)
        | Inr receipt \<Rightarrow> bind_io (pq_complete_batch store ps (dx_message receipt) (timestamp now))
            (\<lambda>_. ret (int (length ps)))) w2 = (Inr n, w')"
    using assms(2) by (auto simp: bind_io_Inr attempt_eq)
  have i: "ok w2" using harmlessD(1) [OF dispatch_harmless [OF assms(3)] assms(1) dp] .
  have f: "settles ok leased ps (for_each (record_plan_failure d now) ps)"
    by (rule settles_each) (rule failure_settles [OF assms(2)])
  show ?thesis
  proof (cases r)
    case (Inl e)
    with u have "for_each (record_plan_failure d now) ps w2 = (Inr (), w')" "n = 0" by (auto simp: bind_io_Inr)
    with f i show ?thesis by (auto simp: settles_def)
  next
    case (Inr x)
    with u have "pq_complete_batch store ps (dx_message x) (timestamp now) w2 = (Inr (), w')" "n = int (length ps)"
      by (auto simp: bind_io_Inr)
    with batch_settles [of ps] i show ?thesis by (auto simp: settles_def)
  qed
qed

lemma claim_digest_ok:
  assumes "dd_plans d = store" shows "keeps ok (claim_digest d now cs)"
proof -
  have "keeps ok (pq_claim store ws i ow at x)" for ws i ow at x
    unfolding keeps_def by (metis claim_ok prod.collapse)
  moreover have "keeps ok (pq_terminal store p)" for p
    unfolding keeps_def by (metis terminal_harmless harmless_def prod.collapse)
  moreover have "keeps ok (pq_cancel store p c at)" for p c at
    unfolding keeps_def by (metis cancel_settles settles_def prod.collapse)
  ultimately have "keeps ok (claim_deliverable d now c)" for c
    unfolding claim_deliverable_def assms by (intro keeps_intros) auto
  then show ?thesis unfolding claim_digest_def by (intro keeps_intros) auto
qed

lemma process_digest_settles:
  assumes "ok w" "dd_plans d = store" "host_harmless d" "process_digest d now cs w = (Inr n, w')"
  shows "\<exists>ps w1. claim_digest d now cs w = (Inr ps, w1) \<and> (\<forall>p \<in> set ps. \<not> leased w' p) \<and> (n = 0 \<or> n = int (length ps))"
proof -
  from assms(4) obtain ps w1 where c: "claim_digest d now cs w = (Inr ps, w1)" and t: "deliver_digest d now ps w1 = (Inr n, w')"
    by (auto simp: process_digest_def bind_io_Inr)
  have "ok w1" using keepsD [OF claim_digest_ok [OF assms(2)] assms(1) c] .
  from deliver_digest_settles [OF this assms(2,3) t] c show ?thesis by blast
qed

end

section \<open>The SQL store\<close>

definition plan_leased :: "world \<Rightarrow> plan \<Rightarrow> bool" where
  "plan_leased w p \<longleftrightarrow> (\<exists>r \<in> set (db_plans (db w)). plan_lease_matches p r)"

lemma plan_ended_unleased:
  assumes "st \<noteq> ''processing''" "r \<in> set (db_plans (plan_ended p st n c ob nx now d))" "plan_lease_matches q r"
  shows "r \<in> set (db_plans d)" "\<not> plan_lease_matches p r"
proof -
  from assms(2) obtain y where y: "y \<in> set (db_plans d)"
    "r = (if plan_lease_matches p y then end_plan_row st n (trim_space c) (trim_space ob) (trim_space nx) (trim_space now) y else y)"
    by (auto simp: plan_ended_def in_update_where)
  have "\<not> plan_lease_matches p y"
  proof
    assume "plan_lease_matches p y"
    with y(2) assms(1) have "qr_status r \<noteq> ''processing''" by (simp add: end_plan_row_def)
    with assms(3) show False by (simp add: plan_lease_matches_def)
  qed
  with y show "r \<in> set (db_plans d)" "\<not> plan_lease_matches p r" by simp_all
qed

text \<open>A call settles plans when every leased row after it was there before and is not theirs.\<close>

lemma settles_rows:
  assumes "preserves schema_ok m"
    and "\<And>w r w'. schema_ok (db w) \<Longrightarrow> m w = (r, w') \<Longrightarrow>
      db w' = db w \<and> (r = Inr () \<longrightarrow> ps = []) \<or>
      (\<forall>x \<in> set (db_plans (db w')). \<forall>q. plan_lease_matches q x \<longrightarrow>
        x \<in> set (db_plans (db w)) \<and> (\<forall>p \<in> set ps. \<not> plan_lease_matches p x))"
  shows "settles (\<lambda>w. schema_ok (db w)) plan_leased ps m"
  unfolding settles_def
proof (intro allI impI, elim conjE)
  fix w r w' assume s: "schema_ok (db w)" and t: "m w = (r, w')"
  have "schema_ok (db w')" by (rule preservesD [OF assms(1) s t])
  moreover have "plan_leased w q" if "plan_leased w' q" for q
    using assms(2) [OF s t] that unfolding plan_leased_def by (elim disjE) fastforce+
  moreover have "\<not> plan_leased w' p" if "r = Inr ()" "p \<in> set ps" for p
    using assms(2) [OF s t] that unfolding plan_leased_def by (elim disjE) fastforce+
  ultimately show "schema_ok (db w') \<and> (\<forall>q. plan_leased w' q \<longrightarrow> plan_leased w q) \<and>
      (r = Inr () \<longrightarrow> (\<forall>p \<in> set ps. \<not> plan_leased w' p))" by blast
qed

lemma transition_plan_settles:
  assumes "st \<noteq> ''processing''"
  shows "settles (\<lambda>w. schema_ok (db w)) plan_leased [p] (transition_plan p st n c ob nx now)"
proof (rule settles_rows [OF transition_plan_schema])
  fix w r w' assume s: "schema_ok (db w)" and t: "transition_plan p st n c ob nx now w = (r, w')"
  from transition_plan_cases [OF s t] consider "r \<noteq> Inr ()" "db w' = db w"
    | "db w' = plan_ended p st n c ob nx now (db w)" by auto
  then show "db w' = db w \<and> (r = Inr () \<longrightarrow> [p] = []) \<or>
      (\<forall>x \<in> set (db_plans (db w')). \<forall>q. plan_lease_matches q x \<longrightarrow>
        x \<in> set (db_plans (db w)) \<and> (\<forall>p \<in> set [p]. \<not> plan_lease_matches p x))"
  proof cases
    case 2
    then show ?thesis using plan_ended_unleased [OF assms] by (metis empty_iff empty_set set_ConsD)
  qed simp
qed

lemma batch_planned_unleased:
  assumes "x \<in> set (db_plans (batch_planned ps ob now d))" "plan_lease_matches q x"
  shows "x \<in> set (db_plans d) \<and> (\<forall>p \<in> set ps. \<not> plan_lease_matches p x)"
  using assms(1)
proof (induction ps arbitrary: d)
  case (Cons p ps)
  let ?d = "plan_ended p ''planned'' 0 [] ob [] now d"
  from Cons.prems have "x \<in> set (db_plans (batch_planned ps ob now ?d))" by (simp add: batch_planned_def)
  from Cons.IH [OF this] have ih: "x \<in> set (db_plans ?d)" "\<forall>p \<in> set ps. \<not> plan_lease_matches p x" by blast+
  have "x \<in> set (db_plans d)" "\<not> plan_lease_matches p x"
    by (rule plan_ended_unleased [OF _ ih(1) assms(2)], simp)+
  with ih(2) show ?case by simp
qed (simp add: batch_planned_def)

lemma complete_batch_settles:
  "settles (\<lambda>w. schema_ok (db w)) plan_leased ps (complete_plan_batch ps ob now)"
proof (rule settles_rows [OF complete_plan_batch_schema])
  fix w r w' assume s: "schema_ok (db w)" and t: "complete_plan_batch ps ob now w = (r, w')"
  from complete_batch_effect [OF s t] consider "db w' = db w" "r = Inr () \<longrightarrow> ps = []"
    | "db w' = batch_planned ps ob now (db w)" by auto
  then show "db w' = db w \<and> (r = Inr () \<longrightarrow> ps = []) \<or>
      (\<forall>x \<in> set (db_plans (db w')). \<forall>q. plan_lease_matches q x \<longrightarrow>
        x \<in> set (db_plans (db w)) \<and> (\<forall>p \<in> set ps. \<not> plan_lease_matches p x))"
  proof cases
    case 2
    then show ?thesis using batch_planned_unleased by metis
  qed simp
qed

lemma claim_plan_leased:
  assumes "schema_ok (db w)" "claim_plan ws i ow now x w = (Inr (Some p), w')"
  shows "plan_leased w' p"
proof -
  let ?P = "\<lambda>r. qr_workspace r = ws \<and> qr_id r = trim_space i \<and> plan_due (trim_space now) r"
  from assms(2) obtain n w1 where u: "update_rows plans_table ?P (claim_plan_row (trim_space ow) (trim_space now) (trim_space x)) w = (Inr n, w1)"
    and n: "n = 1" and b: "plan_by_id ws (trim_space i) w1 = (Inr (Some p), w')"
    by (auto simp: claim_plan_def Let_def guard_io_Inr bind_io_Inr wrapping_Inr split: if_splits)
  from b obtain f where "Some p = map_option scan_plan f" "db w' = db w1"
    "List.find (\<lambda>r. qr_workspace r = ws \<and> qr_id r = trim_space i) (db_plans (db w1)) = f"
    by (auto simp: plan_by_id_def bind_io_Inr dest!: select_row_Inr)
  then obtain r where r: "List.find (\<lambda>r. qr_workspace r = ws \<and> qr_id r = trim_space i) (db_plans (db w1)) = Some r"
    and p: "p = scan_plan r" and d: "db w' = db w1" by (cases f) auto
  from update_rows_Inr [OF u] n have one: "length (filter ?P (db_plans (db w))) = 1"
    and w1: "db_plans (db w1) = update_where ?P (claim_plan_row (trim_space ow) (trim_space now) (trim_space x)) (db_plans (db w))" by auto
  have "filter ?P (db_plans (db w)) \<noteq> []" using one by force
  then obtain y where y: "y \<in> set (db_plans (db w))" "?P y" unfolding filter_empty_conv by blast
  let ?y = "claim_plan_row (trim_space ow) (trim_space now) (trim_space x) y"
  have y1: "?y \<in> set (db_plans (db w1))" unfolding w1 using y by (auto simp: in_update_where intro!: bexI [of _ y])
  have r1: "r \<in> set (db_plans (db w1))" and k: "plan_key r = (ws, trim_space i)"
    using find_Some_facts [OF r] by (simp_all add: plan_key_def)
  have "plan_key ?y = (ws, trim_space i)" using y(2) by (simp add: plan_key_def claim_plan_row_def)
  then have "plan_key r = plan_key ?y" using k by simp
  moreover have "preserves schema_ok (update_rows plans_table ?P (claim_plan_row (trim_space ow) (trim_space now) (trim_space x)))"
    by (intro schema_updates) (simp add: claim_plan_row_def)
  from preservesD [OF this assms(1) u] have "schema_ok (db w1)" .
  ultimately have "r = ?y" using plan_row_unique [OF _ r1 y1] by blast
  then have "plan_lease_matches p r" unfolding p by (simp add: plan_lease_matches_def scan_plan_def claim_plan_row_def)
  with r1 d show ?thesis unfolding plan_leased_def by auto
qed

interpretation sql_plans: plan_store_contract "sql_plan_store qi" plan_leased "\<lambda>w. schema_ok (db w)"
  for qi
proof unfold_locales
  fix w ws i ow now x p w'
  assume "schema_ok (db w)" "pq_claim (sql_plan_store qi) ws i ow now x w = (Inr (Some p), w')"
  then show "plan_leased w' p" using claim_plan_leased by (simp add: sql_plan_store_def)
next
  fix p show "harmless (\<lambda>w. schema_ok (db w)) plan_leased (pq_terminal (sql_plan_store qi) p)"
    unfolding harmless_def
  proof (intro allI impI, elim conjE)
    fix w r w' assume s: "schema_ok (db w)" and t: "pq_terminal (sql_plan_store qi) p w = (r, w')"
    have "preserves (\<lambda>d. d = db w) (is_action_terminal p)"
      unfolding is_action_terminal_def by (intro preserves_intros)
    from preservesD [OF this refl] t have "db w' = db w" by (simp add: sql_plan_store_def)
    with s show "schema_ok (db w') \<and> plan_leased w' = plan_leased w" by (auto simp: plan_leased_def fun_eq_iff)
  qed
qed (auto simp: sql_plan_store_def cancel_plan_def complete_plan_def retry_plan_def fail_plan_def
      intro!: transition_plan_settles complete_batch_settles intro: preservesD [OF claim_plan_schema])

section \<open>Properties\<close>

text \<open>The host's renderer and dispatcher do not write the plan table; the evaluator may reserve.\<close>

definition host_keeps_plans :: "world delivery_deps \<Rightarrow> bool" where
  "host_keeps_plans d \<longleftrightarrow>
     (\<forall>q w. schema_ok (db w) \<longrightarrow> schema_ok (db (snd (dd_render d q w))) \<and> db_plans (db (snd (dd_render d q w))) = db_plans (db w)) \<and>
     (\<forall>q w. schema_ok (db w) \<longrightarrow> schema_ok (db (snd (dd_evaluate d q w))) \<and> db_plans (db (snd (dd_evaluate d q w))) = db_plans (db w)) \<and>
     (\<forall>q w. schema_ok (db w) \<longrightarrow> schema_ok (db (snd (dd_dispatch d q w))) \<and> db_plans (db (snd (dd_dispatch d q w))) = db_plans (db w))"

lemma host_keeps_plans_harmless: "host_keeps_plans d \<Longrightarrow> sql_plans.host_harmless d"
  by (auto simp: host_keeps_plans_def sql_plans.host_harmless_def harmless_def plan_leased_def fun_eq_iff)
    (metis snd_conv)+

text \<open>The delivery worker leaves no lease behind. When an immediate plan is processed without an
  error, either nothing was claimed or the claim has ended: the plan was delivered, cancelled,
  scheduled for retry or failed.\<close>

theorem delivery_worker_releases_lease:
  assumes "schema_ok (db w)" "dd_plans d = sql_plan_store qi" "host_keeps_plans d"
    and "process_immediate d now c w = (Inr b, w')"
  shows "(\<exists>w1. claim_plan (pl_workspace c) (pl_id c) (dd_worker d) (timestamp now) (timestamp (now + plan_lease_duration)) w = (Inr None, w1)) \<or>
    (\<exists>p w1. claim_plan (pl_workspace c) (pl_id c) (dd_worker d) (timestamp now) (timestamp (now + plan_lease_duration)) w = (Inr (Some p), w1) \<and>
      plan_leased w1 p \<and> \<not> plan_leased w' p)"
  using sql_plans.process_immediate_no_lease [OF assms(1,2) host_keeps_plans_harmless [OF assms(3)] assms(4)]
  by (simp add: sql_plan_store_def)

text \<open>A digest is settled as a whole. When a digest batch is processed without an error, the plans
  it claimed for delivery are all released, and the count it reports is their number or, when
  the dispatch was refused, zero.\<close>

theorem digest_settles_all:
  assumes "schema_ok (db w)" "dd_plans d = sql_plan_store qi" "host_keeps_plans d"
    and "process_digest d now cs w = (Inr n, w')"
  shows "\<exists>ps w1. claim_digest d now cs w = (Inr ps, w1) \<and> (\<forall>p \<in> set ps. \<not> plan_leased w' p) \<and>
    (n = 0 \<or> n = int (length ps))"
  using sql_plans.process_digest_settles [OF assms(1,2) host_keeps_plans_harmless [OF assms(3)] assms(4)] .

text \<open>Nothing is sent for an action that is settled. A claimed plan that asks for cancellation
  when its action is terminal, and whose action is, is cancelled: processing it is exactly the
  claim, the check and the cancellation, and neither the evaluator, the renderer nor the
  dispatcher is called.\<close>

theorem terminal_action_not_sent:
  assumes "dd_plans d = sql_plan_store qi"
    and "claim_plan (pl_workspace c) (pl_id c) (dd_worker d) (timestamp now) (timestamp (now + plan_lease_duration)) w = (Inr (Some p), w1)"
    and "pl_cancel_terminal p" "is_action_terminal p w1 = (Inr True, w2)"
  shows "process_immediate d now c w =
    (case cancel_plan p ''backend.notification.channel_plan_action_terminal'' (timestamp now) w2 of
       (Inl e, w3) \<Rightarrow> (Inl e, w3) | (Inr _, w3) \<Rightarrow> (Inr False, w3))"
  using assms
  by (simp add: process_immediate_def claim_deliverable_def sql_plan_store_def bind_io_def ret_def
      split: prod.splits sum.splits)

text \<open>What a delivery report means.\<close>

lemma process_immediate_True:
  assumes "process_immediate d now c w = (Inr True, w')"
  obtains p w1 receipt w2 where "claim_deliverable d now c w = (Inr (Some p), w1)"
    "dispatch_plan d p now w1 = (Inr receipt, w2)"
    "pq_complete (dd_plans d) p (dx_message receipt) (timestamp now) w2 = (Inr (), w')"
proof -
  from assms obtain f w1 where c: "claim_deliverable d now c w = (Inr f, w1)"
    and t: "(case f of None \<Rightarrow> ret False
     | Some p \<Rightarrow> bind_io (attempt (dispatch_plan d p now)) (\<lambda>r. case r of
           Inl _ \<Rightarrow> bind_io (record_plan_failure d now p) (\<lambda>_. ret False)
         | Inr receipt \<Rightarrow> bind_io (pq_complete (dd_plans d) p (dx_message receipt) (timestamp now)) (\<lambda>_. ret True))) w1 = (Inr True, w')"
    by (auto simp: process_immediate_def bind_io_Inr)
  from t obtain p where p: "f = Some p" by (cases f) auto
  from t p obtain r w2 where d: "dispatch_plan d p now w1 = (r, w2)"
    and u: "(case r of Inl _ \<Rightarrow> bind_io (record_plan_failure d now p) (\<lambda>_. ret False)
         | Inr receipt \<Rightarrow> bind_io (pq_complete (dd_plans d) p (dx_message receipt) (timestamp now)) (\<lambda>_. ret True)) w2 = (Inr True, w')"
    by (auto simp: bind_io_Inr attempt_eq)
  from u obtain receipt where r: "r = Inr receipt" by (cases r) (auto simp: bind_io_Inr)
  with u have "pq_complete (dd_plans d) p (dx_message receipt) (timestamp now) w2 = (Inr (), w')" by (auto simp: bind_io_Inr)
  with c p d r that show thesis by blast
qed

lemma claim_deliverable_Some:
  assumes "dd_plans d = sql_plan_store qi" "claim_deliverable d now c w = (Inr (Some p), w')"
  shows "\<exists>w1. claim_plan (pl_workspace c) (pl_id c) (dd_worker d) (timestamp now) (timestamp (now + plan_lease_duration)) w = (Inr (Some p), w1) \<and>
    (if pl_cancel_terminal p then is_action_terminal p w1 = (Inr False, w') else w' = w1)"
  using assms(2) unfolding claim_deliverable_def assms(1) sql_plan_store_def plan_store.select_convs
  by (fastforce simp: bind_io_Inr split: option.splits if_splits)

lemma claimed_plan_key:
  assumes "claim_plan ws i ow now x w = (Inr (Some p), w')"
  shows "pl_workspace p = ws" "pl_id p = trim_space i"
proof -
  from assms obtain w1 where "plan_by_id ws (trim_space i) w1 = (Inr (Some p), w')"
    by (auto simp: claim_plan_def Let_def guard_io_Inr bind_io_Inr split: if_splits)
  then obtain f where "Some p = map_option scan_plan f"
    "List.find (\<lambda>r. qr_workspace r = ws \<and> qr_id r = trim_space i) (db_plans (db w1)) = f"
    by (auto simp: plan_by_id_def bind_io_Inr dest!: select_row_Inr)
  then obtain r where "List.find (\<lambda>r. qr_workspace r = ws \<and> qr_id r = trim_space i) (db_plans (db w1)) = Some r" "p = scan_plan r"
    by (cases f) auto
  from find_Some_facts [OF this(1)] this(2) show "pl_workspace p = ws" "pl_id p = trim_space i" by (simp_all add: scan_plan_def)
qed

lemma fallback_targets:
  assumes "render_fallbacks d p content decision w = (Inr fs, w')"
  shows "mset (map (\<lambda>f. (df_connector f, df_connection f, df_operation f)) fs) =
    mset (map (\<lambda>f. (fb_connector f, fb_connection f, fb_operation f)) (re_fallbacks content))"
proof -
  let ?mk = "\<lambda>f r. \<lparr>df_connector = fb_connector f, df_connection = fb_connection f, df_operation = fb_operation f, df_content = r\<rparr>"
  let ?key = "\<lambda>f. (df_connector f, df_connection f, df_operation f)"
  from rendered_fallbacks [OF assms] obtain rs where l: "length rs = length (re_fallbacks content)"
    and m: "mset fs = mset (map2 ?mk (re_fallbacks content) rs)" by blast
  have "map ?key (map2 ?mk bs rs) = map (\<lambda>f. (fb_connector f, fb_connection f, fb_operation f)) bs" if "length rs = length bs" for bs rs
    using that by (induction rs bs rule: list_induct2) simp_all
  from this [OF l] have "map ?key (map2 ?mk (re_fallbacks content) rs) = map (\<lambda>f. (fb_connector f, fb_connection f, fb_operation f)) (re_fallbacks content)" .
  moreover have "mset (map ?key fs) = mset (map ?key (map2 ?mk (re_fallbacks content) rs))" by (simp only: mset_map m)
  ultimately show ?thesis by (simp only:)
qed

text \<open>\<open>delivers p q\<close>: the request \<open>q\<close> is the plan's: its identifiers, with the plan's own as the deduplication key, and
  its channel, connector, connection and operation.\<close>

definition delivers :: "plan \<Rightarrow> dispatch_request \<Rightarrow> bool" where
  "delivers p q \<longleftrightarrow> dr_workspace q = pl_workspace p \<and> dr_plan q = pl_id p \<and> dr_deduplication q = pl_id p \<and> dr_event q = pl_event p \<and>
     dr_channel q = pl_channel p \<and> dr_connector q = pl_connector p \<and> dr_connection q = pl_connection p \<and> dr_operation q = pl_operation p"

text \<open>C10: a plan reported as delivered was dispatched as it stands. With a host that leaves the plan table alone, when processing the candidate \<open>c\<close> reports a
  delivery, the worker had claimed the plan stored under the candidate's own workspace and
  identifier; if that plan is to be cancelled when its action is settled, the action was not
  settled; the evaluator was asked about this plan's workspace, template, channel, recipients,
  deduplication key and identifier and gave the decision of the request; the renderer rendered
  this plan's template in its locale for its recipients and variables, and gave the content of the request;
  the dispatcher accepted a request that is this plan's, with that decision and
  content, the time of the call, and one fallback for each that the content names; and the row of the plan
  is planned, unleased and carries the message of the receipt.\<close>

theorem delivered_means_accepted:
  assumes "schema_ok (db w)" "dd_plans d = sql_plan_store qi" "host_keeps_plans d"
    and "process_immediate d now c w = (Inr True, w')"
  shows "\<exists>p w1 w2 decision w3 content w4 q w5 receipt w6.
    claim_plan (pl_workspace c) (pl_id c) (dd_worker d) (timestamp now) (timestamp (now + plan_lease_duration)) w = (Inr (Some p), w1) \<and>
    pl_workspace p = pl_workspace c \<and> pl_id p = trim_space (pl_id c) \<and>
    (if pl_cancel_terminal p then is_action_terminal p w1 = (Inr False, w2) else w2 = w1) \<and>
    dd_evaluate d \<lparr>va_workspace = pl_workspace p, va_template = pl_template p, va_channel = pl_channel p,
       va_recipients = pl_recipients p, va_dedupe = pl_dedupe p, va_reservation = pl_id p\<rparr> w2 = (Inr decision, w3) \<and>
    dd_render d \<lparr>rq_workspace = pl_workspace p, rq_template = pl_template p, rq_locale = pl_locale p,
       rq_recipients = pl_recipients p, rq_variables = pl_variables p,
       rq_metadata = [(''notification_event_id'', VText (pl_event p)), (''notification_channel_plan_id'', VText (pl_id p)),
         (''dedupe_key'', VText (pl_dedupe p))]\<rparr> w3 = (Inr content, w4) \<and>
    dd_dispatch d q w5 = (Inr receipt, w6) \<and> delivers p q \<and> dr_decision q = decision \<and> dr_content q = content \<and> dr_created q = now \<and>
    mset (map (\<lambda>f. (df_connector f, df_connection f, df_operation f)) (dr_fallbacks q)) =
      mset (map (\<lambda>f. (fb_connector f, fb_connection f, fb_operation f)) (re_fallbacks content)) \<and>
    (\<exists>r \<in> set (db_plans (db w')). qr_workspace r = pl_workspace c \<and> qr_id r = trim_space (pl_id c) \<and>
       qr_status r = ''planned'' \<and> qr_outbox r = trim_space (dx_message receipt) \<and> qr_owner r = [])"
proof -
  from assms(4) obtain p w2 receipt w6 where c: "claim_deliverable d now c w = (Inr (Some p), w2)"
    and dp: "dispatch_plan d p now w2 = (Inr receipt, w6)"
    and k: "pq_complete (dd_plans d) p (dx_message receipt) (timestamp now) w6 = (Inr (), w')"
    by (rule process_immediate_True)
  from claim_deliverable_Some [OF assms(2) c] obtain w1 where
    claim: "claim_plan (pl_workspace c) (pl_id c) (dd_worker d) (timestamp now) (timestamp (now + plan_lease_duration)) w = (Inr (Some p), w1)"
    and settled: "if pl_cancel_terminal p then is_action_terminal p w1 = (Inr False, w2) else w2 = w1" by blast
  note key = claimed_plan_key [OF claim]
  have ok1: "schema_ok (db w2)"
    using sql_plans.claim_deliverable_lease [OF assms(1,2) c] by auto
  have ok2: "schema_ok (db w6)"
    using harmlessD(1) [OF sql_plans.dispatch_harmless [OF host_keeps_plans_harmless [OF assms(3)]] ok1 dp] .
  from dp obtain decision w3 content w4 fallbacks w5 where
    e: "dd_evaluate d (evaluation_of p) w2 = (Inr decision, w3)"
    and r: "dd_render d (render_request_of p (pl_template p)) w3 = (Inr content, w4)"
    and f: "render_fallbacks d p content decision w4 = (Inr fallbacks, w5)"
    and x: "dd_dispatch d (dispatch_request_of p content decision fallbacks now) w5 = (Inr receipt, w6)"
    unfolding dispatch_plan_def by (auto simp: bind_io_Inr)
  let ?q = "dispatch_request_of p content decision fallbacks now"
  have q: "delivers p ?q" "dr_decision ?q = decision" "dr_content ?q = content" "dr_created ?q = now" "dr_fallbacks ?q = fallbacks"
    by (simp_all add: delivers_def dispatch_request_of_def)
  from k assms(2) have "transition_plan p ''planned'' 0 [] (dx_message receipt) [] (timestamp now) w6 = (Inr (), w')"
    by (simp add: sql_plan_store_def complete_plan_def)
  from transition_plan_Inr [OF ok2 this] have "planned_in (dx_message receipt) p (db w')" by (simp add: planned_after)
  then have row: "\<exists>r \<in> set (db_plans (db w')). qr_workspace r = pl_workspace c \<and> qr_id r = trim_space (pl_id c) \<and>
       qr_status r = ''planned'' \<and> qr_outbox r = trim_space (dx_message receipt) \<and> qr_owner r = []"
    by (auto simp: planned_in_def plan_key_def key)
  have fs: "mset (map (\<lambda>f. (df_connector f, df_connection f, df_operation f)) (dr_fallbacks ?q)) =
      mset (map (\<lambda>f. (fb_connector f, fb_connection f, fb_operation f)) (re_fallbacks content))"
    unfolding q(5) by (rule fallback_targets [OF f])
  show ?thesis
    by (rule exI [of _ p], rule exI [of _ w1], rule exI [of _ w2], rule exI [of _ decision], rule exI [of _ w3], rule exI [of _ content],
        rule exI [of _ w4], rule exI [of _ ?q], rule exI [of _ w5], rule exI [of _ receipt], rule exI [of _ w6])
      (intro conjI claim key settled e [unfolded evaluation_of_def] r [unfolded render_request_of_def] x q fs row)
qed

text \<open>A plan that its rule marks mandatory is dispatched like any other.\<close>

lemma mandatory_ignored: "dispatch_plan d (p\<lparr>pl_mandatory := b\<rparr>) now = dispatch_plan d p now"
  by (simp add: dispatch_plan_def evaluation_of_def render_request_of_def render_fallbacks_def dispatch_request_of_def)

section \<open>A run\<close>

lemma schema_ok_reserved:
  "schema_ok d \<Longrightarrow> \<not> list_ex (reservation_clash \<lparr>vv_workspace = ws, vv_reservation = v\<rparr>) (db_reservations d) \<Longrightarrow>
   schema_ok (reserved ws v d)"
  by (simp add: reserved_def schema_ok_update_iff no_clash_append schema_ok_parts)

lemma evaluate_keeps_plans:
  "preserves (\<lambda>d. schema_ok d \<and> db_plans d = ps) (evaluate_delivery (sql_policy_store self) zones now v)"
proof -
  let ?P = "\<lambda>d. schema_ok d \<and> db_plans d = ps"
  have r: "preserves ?P (reserve_batch ws vs limit window)" for ws vs limit window
    by (rule reserve_batch_preserves) (auto simp: schema_ok_reserved, simp add: reserved_def)
  have p: "preserves ?P (get_policy self)" "preserves ?P (get_recipient_preference self ws u)" for ws u
    unfolding get_policy_def get_recipient_preference_def require_workspace_def by (intro preserves_intros)+
  show ?thesis
    unfolding evaluate_delivery_def collect_reservations_def reserve_and_decide_def sql_policy_store_def
      policy_store.select_convs Let_def
    by (intro preserves_intros r p)
qed

section \<open>What an accepted evaluation books\<close>

lemma evaluation_effect:
  assumes "evaluate_delivery (sql_policy_store self) zones now v w = (Inr d, w')"
  shows "\<exists>new. db w' = (db w)\<lparr>db_reservations := db_reservations (db w) @ new\<rparr> \<and>
    (\<forall>r \<in> set new. \<exists>u \<in> set (unique_users (va_recipients v)). po_enabled (policy_of_database self w) \<and>
      r = \<lparr>vv_workspace = va_workspace v, vv_reservation = reservation_for v (timestamp now) u\<rparr>)"
proof -
  let ?us = "unique_users (va_recipients v)"
  let ?P = "\<lambda>x. \<exists>new. x = (db w)\<lparr>db_reservations := db_reservations (db w) @ new\<rparr> \<and>
    (\<forall>r \<in> set new. \<exists>u \<in> set ?us. po_enabled (policy_of_database self w) \<and>
      r = \<lparr>vv_workspace = va_workspace v, vv_reservation = reservation_for v (timestamp now) u\<rparr>)"
  have start: "?P (db w)" by (intro exI [of _ "[]"]) simp
  have read: "preserves ?P (ps_policy (sql_policy_store self))" "preserves ?P (collect_reservations (sql_policy_store self) now v us acc)" for us acc
    unfolding sql_policy_store_def policy_store.select_convs get_policy_def collect_reservations_def get_recipient_preference_def
      require_workspace_def by (intro preserves_intros)+
  from assms obtain p w1 where p: "ps_policy (sql_policy_store self) w = (Inr p, w1)"
    and t: "(if \<not> po_enabled p then ret no_decision else
      bind_io (collect_reservations (sql_policy_store self) now v ?us []) (reserve_and_decide (sql_policy_store self) zones now v p)) w1 = (Inr d, w')"
    by (auto simp: evaluate_delivery_def guard_io_Inr Let_def bind_io_Inr)
  have p1: "p = policy_of_database self w" using sql_policies.policy_read [OF p] by blast
  have P1: "?P (db w1)" by (rule preservesD [OF read(1) start p])
  show ?thesis
  proof (cases "po_enabled p")
    case False
    with t P1 show ?thesis by simp
  next
    case True
    with t obtain rs w2 where c: "collect_reservations (sql_policy_store self) now v ?us [] w1 = (Inr rs, w2)"
      and r: "reserve_and_decide (sql_policy_store self) zones now v p rs w2 = (Inr d, w')"
      by (auto simp: bind_io_Inr)
    have P2: "?P (db w2)" by (rule preservesD [OF read(2) P1 c])
    have rs: "rs = map (reservation_for v (timestamp now)) ?us" using sql_policies.collected [OF c] by simp
    have "preserves ?P (reserve_batch (va_workspace v) rs (po_max_per_hour p) (po_dedupe_window p))"
    proof (rule reserve_batch_preserves)
      fix b x assume b: "b \<in> set rs" and x: "?P x"
      from x obtain new where new: "x = (db w)\<lparr>db_reservations := db_reservations (db w) @ new\<rparr>"
        "\<forall>r \<in> set new. \<exists>u \<in> set ?us. po_enabled (policy_of_database self w) \<and>
          r = \<lparr>vv_workspace = va_workspace v, vv_reservation = reservation_for v (timestamp now) u\<rparr>" by blast
      show "?P (reserved (va_workspace v) b x)"
        using new(2) b True p1 unfolding new(1)
        by (intro exI [of _ "new @ [\<lparr>vv_workspace = va_workspace v, vv_reservation = b\<rparr>]"]) (auto simp: reserved_def rs)
    qed
    then have "preserves ?P (reserve_and_decide (sql_policy_store self) zones now v p rs)"
      unfolding reserve_and_decide_def sql_policy_store_def policy_store.select_convs by (intro preserves_intros)
    from preservesD [OF this P2 r] show ?thesis .
  qed
qed

text \<open>
  \<open>books p at u r\<close>: the row \<open>r\<close> is the reservation of the plan for the recipient, under the digest of workspace, recipient,
  template, channel, deduplication key and the plan's identifier (the time, should that be blank). \<open>undisturbed\<close>: a stored preference of the
  recipient neither disables the plan's channel nor mutes its template.
\<close>

definition books :: "plan \<Rightarrow> string \<Rightarrow> user_id \<Rightarrow> reservation_row \<Rightarrow> bool" where
  "books p at u r \<longleftrightarrow> vv_workspace r = pl_workspace p \<and> rv_recipient (vv_reservation r) = u \<and>
     rv_template (vv_reservation r) = pl_template p \<and> rv_channel (vv_reservation r) = pl_channel p \<and>
     rv_dedupe (vv_reservation r) = pl_dedupe p \<and>
     rv_id (vv_reservation r) = hex_encode (sha256 (pl_workspace p @ [CHR 0x00] @ u @ [CHR 0x00] @ pl_template p @ [CHR 0x00] @
       pl_channel p @ [CHR 0x00] @ pl_dedupe p @ [CHR 0x00] @ (if trim_space (pl_id p) = [] then at else trim_space (pl_id p))))"

definition undisturbed :: "database \<Rightarrow> plan \<Rightarrow> user_id \<Rightarrow> bool" where
  "undisturbed x p u \<longleftrightarrow> (\<forall>r \<in> set (db_preferences x). fr_workspace r = pl_workspace p \<and> fr_recipient r = u \<longrightarrow>
     map_of (pf_channels (fr_payload r)) (pl_channel p) \<noteq> Some False \<and> pl_template p \<notin> set (pf_muted (fr_payload r)))"

lemma reservation_booked:
  "va_workspace (evaluation_of p) = pl_workspace p"
  "recorded (pl_workspace p) (reservation_for (evaluation_of p) at u) x \<longleftrightarrow> (\<exists>r \<in> set (db_reservations x). books p at u r)"
  "books p at u \<lparr>vv_workspace = pl_workspace p, vv_reservation = reservation_for (evaluation_of p) at u\<rparr>"
  by (auto simp: evaluation_of_def recorded_def reservation_for_def books_def Let_def)

lemma unrefused_undisturbed:
  assumes "schema_ok (db w)" "refused_by (evaluation_of p) u (preference_of_database w (pl_workspace p) u) = None"
  shows "undisturbed (db w) p u"
  unfolding undisturbed_def
proof (intro ballI impI)
  fix r assume r: "r \<in> set (db_preferences (db w))" "fr_workspace r = pl_workspace p \<and> fr_recipient r = u"
  then have m: "preference_key_matches (pl_workspace p) u r" by (simp add: preference_key_matches_def)
  then obtain y where y: "List.find (preference_key_matches (pl_workspace p) u) (db_preferences (db w)) = Some y"
    using r(1) by (cases "List.find (preference_key_matches (pl_workspace p) u) (db_preferences (db w))") (auto simp: find_None_iff)
  have "no_clash preference_clash (db_preferences (db w))" using assms(1) by (simp add: schema_ok_def)
  then have "y = r"
    by (rule no_clash_unique)
      (use find_Some_facts [OF y] m r(1) in \<open>auto simp: preference_clash_def preference_key_matches_def\<close>)
  with assms(2) y show "map_of (pf_channels (fr_payload r)) (pl_channel p) \<noteq> Some False \<and> pl_template p \<notin> set (pf_muted (fr_payload r))"
    by (auto simp: preference_of_database_def refused_by_def evaluation_of_def split: if_splits)
qed

text \<open>C8: what an accepted evaluation of a plan means. When \<open>EvaluateDelivery\<close> answers the evaluation the worker makes of a plan
  with a decision, the plan has a recipient, and nothing of the database has changed but reservations
  of this plan for its recipients that were added. With a disabled policy nothing was checked: nothing is
  booked and the decision is empty. With an enabled one every recipient has his reservation, the decision carries the policy's
  fallback channels and, when quiet hours are on, the end of the running ones, and, if the plan is not
  mandatory, no recipient has the channel disabled or the template muted. (Of a mandatory plan nothing is claimed
  here: mandatory delivery is meant to override preferences, and the code checks it like any
  other, see \<open>mandatory_ignored\<close>.)\<close>

theorem accepted_delivery_respects_policy:
  assumes "schema_ok (db w)" "evaluate_delivery (sql_policy_store self) zones now (evaluation_of p) w = (Inr d, w')"
  shows "let policy = policy_of_database self w; us = trim_space ` set (pl_recipients p) - {[]} in
    us \<noteq> {} \<and>
    (\<exists>new. db w' = (db w)\<lparr>db_reservations := db_reservations (db w) @ new\<rparr> \<and>
      (\<forall>r \<in> set new. po_enabled policy \<and> (\<exists>u \<in> us. books p (timestamp now) u r))) \<and>
    de_fallback_order d = (if po_enabled policy then po_fallback_channels policy else []) \<and>
    de_deliver_after d = (if po_enabled policy \<and> po_quiet_enabled policy then next_quiet_hours_end zones now policy else []) \<and>
    (po_enabled policy \<longrightarrow> (\<forall>u \<in> us. (\<exists>r \<in> set (db_reservations (db w')). books p (timestamp now) u r) \<and>
      (pl_mandatory p \<or> undisturbed (db w) p u)))"
proof -
  let ?v = "evaluation_of p" and ?pol = "policy_of_database self w" and ?us = "trim_space ` set (pl_recipients p) - {[]}"
  have us: "set (unique_users (va_recipients ?v)) = ?us" by (simp add: unique_users_facts evaluation_of_def)
  have "unique_users (va_recipients ?v) \<noteq> []"
    using assms(2) by (auto simp: evaluate_delivery_def guard_io_Inr Let_def)
  then have some: "?us \<noteq> {}" using us by (metis set_empty)
  from evaluation_effect [OF assms(2)] obtain new where
    new: "db w' = (db w)\<lparr>db_reservations := db_reservations (db w) @ new\<rparr>"
      "\<forall>r \<in> set new. \<exists>u \<in> ?us. po_enabled ?pol \<and>
        r = \<lparr>vv_workspace = pl_workspace p, vv_reservation = reservation_for ?v (timestamp now) u\<rparr>"
    unfolding us reservation_booked(1) by blast
  have booked: "\<exists>new. db w' = (db w)\<lparr>db_reservations := db_reservations (db w) @ new\<rparr> \<and>
      (\<forall>r \<in> set new. po_enabled ?pol \<and> (\<exists>u \<in> ?us. books p (timestamp now) u r))"
  proof (intro exI [of _ new] conjI ballI new(1))
    fix r assume "r \<in> set new"
    with new(2) obtain u where u: "u \<in> ?us" "po_enabled ?pol"
      "r = \<lparr>vv_workspace = pl_workspace p, vv_reservation = reservation_for ?v (timestamp now) u\<rparr>" by blast
    show "po_enabled ?pol" by (rule u(2))
    show "\<exists>u \<in> ?us. books p (timestamp now) u r" unfolding u(3) by (rule bexI [OF reservation_booked(3) u(1)])
  qed
  from sql_policies.evaluate_respects [OF assms(2)]
  have dec: "\<not> po_enabled ?pol \<and> d = no_decision \<or> po_enabled ?pol \<and> d = decision_of zones now ?pol"
    and each: "po_enabled ?pol \<longrightarrow> (\<forall>u \<in> ?us. refused_by ?v u (preference_of_database w (pl_workspace p) u) = None \<and>
      (\<exists>r \<in> set (db_reservations (db w')). books p (timestamp now) u r))"
    unfolding us reservation_booked(1,2) by (elim disjE conjE; simp)+
  have decided: "de_fallback_order d = (if po_enabled ?pol then po_fallback_channels ?pol else [])"
    "de_deliver_after d = (if po_enabled ?pol \<and> po_quiet_enabled ?pol then next_quiet_hours_end zones now ?pol else [])"
    using dec by (auto simp: no_decision_def decision_of_def)
  have recipients: "po_enabled ?pol \<longrightarrow> (\<forall>u \<in> ?us. (\<exists>r \<in> set (db_reservations (db w')). books p (timestamp now) u r) \<and>
      (pl_mandatory p \<or> undisturbed (db w) p u))"
    using each unrefused_undisturbed [OF assms(1)] by blast
  show ?thesis
    unfolding Let_def by (intro conjI some booked decided recipients)
qed


definition sample_rendered :: rendered where
  "sample_rendered = \<lparr>re_channel = ''email'', re_provider = [], re_recipients = [''u1''], re_subject = ''Order'',
     re_title = ''Order'', re_text = ''Order 7'', re_html = [], re_markdown = [], re_message = [], re_facts = [],
     re_actions = [], re_provider_template = None, re_template = ''order.email'', re_version = 1, re_locale = ''en-US'',
     re_content_hash = [], re_variables_hash = [], re_metadata = [], re_fallbacks = []\<rparr>"

definition sample_delivery :: "world delivery_deps" where
  "sample_delivery = \<lparr>dd_plans = sql_plan_store sample_index, dd_render = (\<lambda>_. ret sample_rendered),
     dd_dispatch = (\<lambda>q. ret \<lparr>dx_message = ''m1'', dx_accepted = dr_created q\<rparr>),
     dd_evaluate = evaluate_delivery (sql_policy_store ''ws'') sample_zones 0, dd_worker = ''w1'', dd_retry = sample_retry\<rparr>"

lemma sample_delivery_ok: "host_keeps_plans sample_delivery"
proof -
  have "schema_ok (db (snd (dd_evaluate sample_delivery q w))) \<and>
      db_plans (db (snd (dd_evaluate sample_delivery q w))) = db_plans (db w)" if "schema_ok (db w)" for q w
    using preserves_snd [OF evaluate_keeps_plans, of w "db_plans (db w)" "''ws''" sample_zones 0 q] that
    by (simp add: sample_delivery_def)
  then show ?thesis by (simp add: host_keeps_plans_def) (simp add: sample_delivery_def ret_def)
qed

definition leased_plan :: plan where
  "leased_plan = sample_plan\<lparr>pl_status := ''processing'', pl_owner := ''w1'', pl_lease := timestamp plan_lease_duration,
     pl_token := 1, pl_updated := timestamp 0\<rparr>"

definition leased_database :: database where
  "leased_database = plans_database\<lparr>db_plans := [(plan_row_of leased_plan)\<lparr>qr_payload := sample_plan\<rparr>]\<rparr>"

lemma plan_times [simp]: "in_range plan_lease_duration" "trim_space ''p1'' = ''p1''" "trim_space ''w1'' = ''w1''"
    "trim_space ''m1'' = ''m1''"
  by (simp_all add: in_range_def year_start_def unix_epoch_day_def day_ns_def plan_lease_duration_def second_ns_def
      trim_space_plain plain_char_def)

lemma sample_plan_claim:
  "claim_plan ''ws'' ''p1'' ''w1'' (timestamp 0) (timestamp plan_lease_duration) (calm_world plans_database) =
     (Inr (Some leased_plan), calm_world leased_database)"
  by (simp add: claim_plan_def statement_runs calm_world_def plans_database_def Let_def
      empty_database_def sample_plan_def plan_row_of_def plan_due_def due_at_def
      plan_by_id_def claim_plan_row_def scan_plan_def trim_timestamp leased_plan_def leased_database_def)

lemma sample_plan_fields:
  "pl_workspace sample_plan = ''ws''" "pl_id sample_plan = ''p1''" "evaluation_of leased_plan = sample_evaluation"
  "\<not> pl_cancel_terminal leased_plan"
  by (simp_all add: sample_plan_def leased_plan_def evaluation_of_def sample_evaluation_def)

lemma sample_complete:
  assumes "db_plans d = db_plans leased_database"
  shows "\<exists>w'. complete_plan leased_plan ''m1'' (timestamp 0) (calm_world d) = (Inr (), w')"
  using assms
  by (simp add: complete_plan_def transition_plan_def Let_def statement_runs calm_world_def leased_database_def
      plan_lease_matches_def plan_row_of_def leased_plan_def sample_plan_def)

lemma sample_delivered:
  "\<exists>w'. process_immediate sample_delivery 0 sample_plan (calm_world plans_database) = (Inr True, w')"
proof -
  let ?d = "reserved ''ws'' (reservation_for sample_evaluation (timestamp 0) ''u1'') leased_database"
  have c: "claim_deliverable sample_delivery 0 sample_plan (calm_world plans_database) = (Inr (Some leased_plan), calm_world leased_database)"
    using sample_plan_claim
    by (simp add: claim_deliverable_def sample_delivery_def sql_plan_store_def sample_plan_fields bind_io_def ret_def)
  have fresh: "db_policies leased_database = []" "db_preferences leased_database = []" "db_reservations leased_database = []"
    by (simp_all add: leased_database_def plans_database_def empty_database_def)
  have d: "dispatch_plan sample_delivery leased_plan 0 (calm_world leased_database) =
      (Inr \<lparr>dx_message = ''m1'', dx_accepted = 0\<rparr>, calm_world ?d)"
    using sample_evaluation_run0 [OF fresh]
    by (simp add: dispatch_plan_def render_fallbacks_def dispatch_request_of_def sample_delivery_def sample_plan_fields
        bind_io_def ret_def sample_rendered_def)
  obtain w' where "complete_plan leased_plan ''m1'' (timestamp 0) (calm_world ?d) = (Inr (), w')"
    using sample_complete [of ?d] by (auto simp: reserved_def)
  then have "pq_complete (dd_plans sample_delivery) leased_plan ''m1'' (timestamp 0) (calm_world ?d) = (Inr (), w')"
    by (simp add: sample_delivery_def sql_plan_store_def)
  with c d show ?thesis by (simp add: process_immediate_def bind_io_def attempt_def ret_def)
qed

lemma sample_delivery_parts:
  "schema_ok (db (calm_world plans_database))" "dd_plans sample_delivery = sql_plan_store sample_index"
  "dd_evaluate sample_delivery = evaluate_delivery (sql_policy_store ''ws'') sample_zones 0"
  by (simp_all add: sample_delivery_def)

theorem delivery_worker_releases_lease_witness:
  "\<exists>p w'. process_immediate sample_delivery 0 sample_plan (calm_world plans_database) = (Inr True, w') \<and>
     pl_id p = ''p1'' \<and> \<not> plan_leased w' p"
proof -
  obtain w' where m: "process_immediate sample_delivery 0 sample_plan (calm_world plans_database) = (Inr True, w')"
    using sample_delivered by blast
  have "dd_worker sample_delivery = ''w1''" by (simp add: sample_delivery_def)
  with delivery_worker_releases_lease [OF sample_delivery_parts(1,2) sample_delivery_ok m] sample_plan_claim
  have "\<not> plan_leased w' leased_plan" by (auto simp: sample_plan_fields)
  with m show ?thesis by (intro exI [of _ leased_plan]) (auto simp: leased_plan_def sample_plan_def)
qed

theorem delivered_means_accepted_witness:
  "\<exists>q w4 w'. process_immediate sample_delivery 0 sample_plan (calm_world plans_database) = (Inr True, w') \<and>
     dd_dispatch sample_delivery q w4 = (Inr \<lparr>dx_message = ''m1'', dx_accepted = 0\<rparr>, w4) \<and> dr_plan q = ''p1'' \<and> dr_deduplication q = ''p1'' \<and>
     (\<exists>r \<in> set (db_plans (db w')). qr_id r = ''p1'' \<and> qr_status r = ''planned'' \<and> qr_outbox r = ''m1'')"
proof -
  obtain w' where m: "process_immediate sample_delivery 0 sample_plan (calm_world plans_database) = (Inr True, w')"
    using sample_delivered by blast
  have k: "pl_workspace sample_plan = ''ws''" "trim_space (pl_id sample_plan) = ''p1''" by (simp_all add: sample_plan_fields)
  from delivered_means_accepted [OF sample_delivery_parts(1,2) sample_delivery_ok m]
  obtain p q w5 receipt w6 where p: "pl_id p = ''p1''" and q: "delivers p q" "dr_created q = 0"
    and x: "dd_dispatch sample_delivery q w5 = (Inr receipt, w6)"
    and r: "\<exists>r \<in> set (db_plans (db w')). qr_workspace r = ''ws'' \<and> qr_id r = ''p1'' \<and>
       qr_status r = ''planned'' \<and> qr_outbox r = trim_space (dx_message receipt) \<and> qr_owner r = []"
    unfolding k by blast
  from x q(2) have d: "receipt = \<lparr>dx_message = ''m1'', dx_accepted = 0\<rparr>" "w6 = w5" by (auto simp: sample_delivery_def)
  with r have "\<exists>r \<in> set (db_plans (db w')). qr_id r = ''p1'' \<and> qr_status r = ''planned'' \<and> qr_outbox r = ''m1''" by auto
  moreover have "dr_plan q = ''p1''" "dr_deduplication q = ''p1''" using p q(1) by (simp_all add: delivers_def)
  ultimately show ?thesis using m x d by blast
qed

text \<open>A policy that is on, and a reservation that is made.\<close>

theorem accepted_delivery_respects_policy_witness:
  "let m = evaluate_delivery (sql_policy_store ''ws'') sample_zones 0 (evaluation_of leased_plan) (calm_world empty_database) in
     (\<exists>d. fst m = Inr d) \<and> (\<exists>r \<in> set (db_reservations (db (snd m))). books leased_plan (timestamp 0) ''u1'' r)"
proof -
  have m: "evaluate_delivery (sql_policy_store ''ws'') sample_zones 0 (evaluation_of leased_plan) (calm_world empty_database) =
      (Inr (decision_of sample_zones 0 default_policy),
       calm_world (reserved ''ws'' (reservation_for sample_evaluation (timestamp 0) ''u1'') empty_database))"
    using sample_evaluation_run0 [of empty_database] by (simp add: sample_plan_fields empty_database_def)
  have ok: "schema_ok (db (calm_world empty_database))" by simp
  have "po_enabled (policy_of_database ''ws'' (calm_world empty_database))"
    by (simp add: policy_of_database_def empty_database_def default_policy_def)
  moreover have "''u1'' \<in> trim_space ` set (pl_recipients leased_plan) - {[]}"
    by (simp add: leased_plan_def sample_plan_def trim_space_plain plain_char_def)
  ultimately show ?thesis
    using accepted_delivery_respects_policy [OF ok m] unfolding m Let_def fst_conv snd_conv by blast
qed

text \<open>A digest of one plan.\<close>

theorem digest_settles_all_witness:
  "\<exists>w'. process_digest sample_delivery 0 [sample_plan] (calm_world plans_database) = (Inr 1, w') \<and> \<not> plan_leased w' leased_plan"
proof -
  let ?v = "sample_evaluation\<lparr>va_reservation := ''digest::''\<rparr>"
  let ?d = "reserved ''ws'' (reservation_for ?v (timestamp 0) ''u1'') leased_database"
  have c: "claim_digest sample_delivery 0 [sample_plan] (calm_world plans_database) = (Inr [leased_plan], calm_world leased_database)"
    using sample_plan_claim
    by (simp add: claim_digest_def claim_deliverable_def sample_delivery_def sql_plan_store_def sample_plan_fields bind_io_def ret_def)
  have fresh: "db_policies leased_database = []" "db_preferences leased_database = []" "db_reservations leased_database = []"
    by (simp_all add: leased_database_def plans_database_def empty_database_def)
  have v: "evaluation_of (digest_plan leased_plan [leased_plan]) = ?v"
    by (simp add: evaluation_of_def digest_plan_def sample_evaluation_def leased_plan_def sample_plan_def)
  have d: "dispatch_plan sample_delivery (digest_plan leased_plan [leased_plan]) 0 (calm_world leased_database) =
      (Inr \<lparr>dx_message = ''m1'', dx_accepted = 0\<rparr>, calm_world ?d)"
    using sample_evaluation_run [OF fresh, of "''digest::''"]
    by (simp add: dispatch_plan_def render_fallbacks_def dispatch_request_of_def sample_delivery_def v
        bind_io_def ret_def sample_rendered_def)
  have "fst (complete_plan_batch [leased_plan] ''m1'' (timestamp 0) (calm_world ?d)) = Inr ()"
    by (simp add: complete_plan_batch_def complete_batch_body_def transition_plan_def Let_def statement_runs calm_world_def
        reserved_def leased_database_def plan_lease_matches_def plan_row_of_def leased_plan_def sample_plan_def)
  then obtain w' where "complete_plan_batch [leased_plan] ''m1'' (timestamp 0) (calm_world ?d) = (Inr (), w')"
    by (metis prod.collapse)
  then have "pq_complete_batch (dd_plans sample_delivery) [leased_plan] ''m1'' (timestamp 0) (calm_world ?d) = (Inr (), w')"
    by (simp add: sample_delivery_def sql_plan_store_def)
  with c d have m: "process_digest sample_delivery 0 [sample_plan] (calm_world plans_database) = (Inr 1, w')"
    by (simp add: process_digest_def deliver_digest_def bind_io_def attempt_def ret_def)
  from digest_settles_all [OF sample_delivery_parts(1,2) sample_delivery_ok m] c m show ?thesis by auto
qed

text \<open>A plan that is cancelled because its item is completed.\<close>

definition cancel_database :: database where
  "cancel_database = empty_database\<lparr>db_plans := [plan_row_of (sample_plan\<lparr>pl_cancel_terminal := True\<rparr>)],
     db_items := [(new_item_row sample_item)\<lparr>ir_action_state := ''completed'', ir_alert_state := ''resolved''\<rparr>]\<rparr>"

theorem terminal_action_not_sent_witness:
  "\<exists>w'. process_immediate sample_delivery 0 sample_plan (calm_world cancel_database) = (Inr False, w') \<and>
     map qr_status (db_plans (db w')) = [''cancelled'']"
proof -
  let ?p = "leased_plan\<lparr>pl_cancel_terminal := True\<rparr>"
  let ?d = "cancel_database\<lparr>db_plans := [(plan_row_of ?p)\<lparr>qr_payload := sample_plan\<lparr>pl_cancel_terminal := True\<rparr>\<rparr>]\<rparr>"
  have claim: "claim_plan ''ws'' ''p1'' ''w1'' (timestamp 0) (timestamp plan_lease_duration) (calm_world cancel_database) =
      (Inr (Some ?p), calm_world ?d)"
    by (simp add: claim_plan_def statement_runs calm_world_def cancel_database_def Let_def
      empty_database_def sample_plan_def plan_row_of_def plan_due_def due_at_def
      plan_by_id_def claim_plan_row_def scan_plan_def trim_timestamp leased_plan_def)
  have w: "dd_worker sample_delivery = ''w1''" by (simp add: sample_delivery_def)
  have c: "claim_plan (pl_workspace sample_plan) (pl_id sample_plan) (dd_worker sample_delivery) (timestamp 0)
      (timestamp (0 + plan_lease_duration)) (calm_world cancel_database) = (Inr (Some ?p), calm_world ?d)"
    using claim w by (simp add: sample_plan_fields)
  have flag: "pl_cancel_terminal ?p" by simp
  have t: "is_action_terminal ?p (calm_world ?d) = (Inr True, calm_world ?d)"
    by (simp add: is_action_terminal_def statement_runs calm_world_def cancel_database_def empty_database_def
        new_item_row_def sample_item_def item_active_def leased_plan_def sample_plan_def)
  have k: "failure_code_ok ''backend.notification.channel_plan_action_terminal''" by code_simp
  have trimmed: "trim_space ''backend.notification.channel_plan_action_terminal'' = ''backend.notification.channel_plan_action_terminal''"
    by (rule trim_space_plain) (simp add: plain_char_def)
  have e: "\<exists>w'. cancel_plan ?p ''backend.notification.channel_plan_action_terminal'' (timestamp 0) (calm_world ?d) = (Inr (), w') \<and>
      map qr_status (db_plans (db w')) = [''cancelled'']"
    by (simp add: cancel_plan_def transition_plan_def Let_def statement_runs calm_world_def k trimmed
        plan_lease_matches_def plan_row_of_def leased_plan_def sample_plan_def end_plan_row_def)
  from terminal_action_not_sent [OF sample_delivery_parts(2) c flag t] e show ?thesis by auto
qed

end
