(* ===== verification/Template_Tokens.thy ===== *)
theory Template_Tokens
  imports Model
begin

text \<open>
  The variable tokens of a template, \<open>tokenPattern\<close> = \<open>\{\{\s*([a-z][a-z0-9_.-]*)\s*\}\}\<close>
  (internal/domain/template/validation/validation.go and service/render.go). A source is read
  from left to right as the regular expression does: at each position a token when one starts
  there, else one character. \<open>FindAllStringSubmatch\<close> gives the names of the tokens,
  \<open>ReplaceAllStringFunc\<close> a text for each of them.
\<close>

datatype segment = Literal char | Token string

definition token_space :: "char \<Rightarrow> bool" where
  "token_space c \<longleftrightarrow> c \<in> {CHR 0x09, CHR 0x0A, CHR 0x0C, CHR 0x0D, CHR 0x20}"

definition match_token :: "string \<Rightarrow> (string \<times> string) option" where
  "match_token s =
     (let r = dropWhile token_space (drop 2 s);
          name = takeWhile key_char r;
          rest = dropWhile token_space (dropWhile key_char r)
      in if prefix ''{{'' s \<and> stable_key name \<and> prefix ''}}'' rest then Some (name, drop 2 rest) else None)"

lemma match_token_shorter: "match_token s = Some (n, r) \<Longrightarrow> length r < length s"
proof -
  assume m: "match_token s = Some (n, r)"
  let ?t = "drop 2 s"
  have "length (dropWhile token_space (dropWhile key_char (dropWhile token_space ?t))) \<le> length ?t"
    by (metis le_trans length_dropWhile_le)
  moreover from m have "2 \<le> length s" by (auto simp: match_token_def prefix_def Let_def split: if_splits)
  moreover from m have "r = drop 2 (dropWhile token_space (dropWhile key_char (dropWhile token_space ?t)))"
    by (auto simp: match_token_def Let_def split: if_splits)
  ultimately show ?thesis by simp
qed

lemma match_token_name: "match_token s = Some (n, r) \<Longrightarrow> stable_key n"
  by (auto simp: match_token_def Let_def split: if_splits)

function segments :: "string \<Rightarrow> segment list" where
  "segments s = (case s of [] \<Rightarrow> []
     | c # cs \<Rightarrow> (case match_token s of Some (n, r) \<Rightarrow> Token n # segments r | None \<Rightarrow> Literal c # segments cs))"
  by pat_completeness auto
termination
  by (relation "measure length") (auto dest: match_token_shorter)

declare segments.simps [simp del]

lemma segments_Nil [simp]: "segments [] = []"
  by (simp add: segments.simps)

lemma segments_Cons: "segments (c # cs) = (case match_token (c # cs) of
    Some (n, r) \<Rightarrow> Token n # segments r | None \<Rightarrow> Literal c # segments cs)"
  by (subst segments.simps) simp

definition token_names :: "string \<Rightarrow> string list" where
  "token_names s = concat (map (\<lambda>x. case x of Token n \<Rightarrow> [n] | Literal c \<Rightarrow> []) (segments s))"

definition replace_tokens :: "(string \<Rightarrow> string) \<Rightarrow> string \<Rightarrow> string" where
  "replace_tokens f s = concat (map (\<lambda>x. case x of Token n \<Rightarrow> f n | Literal c \<Rightarrow> [c]) (segments s))"

definition has_delimiter :: "string \<Rightarrow> bool" where
  "has_delimiter s \<longleftrightarrow> contains_str s ''{{'' \<or> contains_str s ''}}''"

text \<open>The first part of a dotted path.\<close>

definition token_root :: "string \<Rightarrow> string" where
  "token_root n = hd (split_on CHR ''.'' n)"

lemma token_names_stable: "n \<in> set (token_names s) \<Longrightarrow> stable_key n"
proof (induction s rule: segments.induct)
  case (1 s)
  show ?case
  proof (cases s)
    case Nil
    with "1.prems" show ?thesis by (simp add: token_names_def List.map_filter_def)
  next
    case (Cons c cs)
    show ?thesis
    proof (cases "match_token s")
      case None
      with Cons "1.prems" have "n \<in> set (token_names cs)"
        by (simp add: token_names_def segments_Cons)
      with "1.IH"(1) [OF Cons None] show ?thesis by blast
    next
      case (Some p)
      obtain m r where p: "p = (m, r)" by (cases p)
      with Some Cons "1.prems" have "n = m \<or> n \<in> set (token_names r)"
        by (auto simp: token_names_def segments_Cons)
      with "1.IH"(2) [OF Cons Some p [symmetric]] match_token_name Some p show ?thesis by auto
    qed
  qed
qed

lemma hd_split_on: "hd (split_on c s) = takeWhile (\<lambda>x. x \<noteq> c) s"
  by (induction c s rule: split_on.induct) (auto split: list.splits simp: Let_def)

lemma token_root_no_dot: "CHR ''.'' \<notin> set (token_root n)"
  by (auto simp: token_root_def hd_split_on dest: set_takeWhileD)

lemma replace_tokens_cong:
  "(\<And>n. n \<in> set (token_names s) \<Longrightarrow> f n = g n) \<Longrightarrow> replace_tokens f s = replace_tokens g s"
  unfolding replace_tokens_def token_names_def
  by (rule arg_cong [where f = concat]) (force split: segment.splits)

end
