(* ===== verification/Template_Validation.thy ===== *)
theory Template_Validation
  imports Template_Tokens
begin

text \<open>
  Capabilities and the portable validation of templates: capability.go and validation.go of
  internal/domain/template/validation. A check returns the error it finds, or nothing. The
  validation of a provider template belongs to the connector module: it is a component of a
  capability entry.
\<close>

record capability =
  cp_channel :: string
  cp_provider :: string
  cp_html :: bool
  cp_markdown :: bool
  cp_facts :: bool
  cp_url_actions :: bool
  cp_provider_template :: bool
  cp_max_facts :: int
  cp_max_actions :: int

type_synonym provider_check = "provider_template \<Rightarrow> err option"

record capability_entry =
  ce_capability :: capability
  ce_validate :: "provider_check option"

type_synonym capabilities = "(string \<times> capability_entry) list"

definition capability_key :: "string \<Rightarrow> string \<Rightarrow> string" where
  "capability_key channel provider = trim_space channel @ ''/'' @ trim_space provider"

definition add_capability :: "capability_entry \<Rightarrow> capabilities \<Rightarrow> err + capabilities" where
  "add_capability p entries =
     (let c = ce_capability p;
          c = c\<lparr>cp_channel := trim_space (cp_channel c), cp_provider := trim_space (cp_provider c)\<rparr>;
          key = capability_key (cp_channel c) (cp_provider c)
      in if cp_channel c = [] \<or> cp_max_facts c < 0 \<or> cp_max_actions c < 0
         then Inl (ErrorText ''notification template capability is invalid'')
         else if cp_provider_template c \<and> ce_validate p = None
         then Inl (ErrorText (''notification provider-template validator is required for '' @ [CHR 0x22] @ key @ [CHR 0x22]))
         else if map_of entries key \<noteq> None
         then Inl (ErrorText (''notification template capability '' @ [CHR 0x22] @ key @ [CHR 0x22] @ '' is duplicated''))
         else Inr (entries @ [(key, p\<lparr>ce_capability := c\<rparr>)]))"

fun add_capabilities :: "capability_entry list \<Rightarrow> capabilities \<Rightarrow> err + capabilities" where
  "add_capabilities [] entries = Inr entries"
| "add_capabilities (p # ps) entries =
     (case add_capability p entries of Inl e \<Rightarrow> Inl e | Inr es \<Rightarrow> add_capabilities ps es)"

definition new_capabilities :: "capability_entry list \<Rightarrow> err + capabilities" where
  "new_capabilities ps = add_capabilities ps []"

definition resolve_capability :: "capabilities \<Rightarrow> string \<Rightarrow> string \<Rightarrow> capability option" where
  "resolve_capability cs channel provider =
     map_option ce_capability (map_of cs (capability_key channel provider))"

definition validate_provider_template ::
  "capabilities \<Rightarrow> string \<Rightarrow> string \<Rightarrow> provider_template option \<Rightarrow> err option" where
  "validate_provider_template cs channel provider value =
     (case value of None \<Rightarrow> None
      | Some v \<Rightarrow> (case map_of cs (capability_key channel provider) of
          None \<Rightarrow> Some (ErrorText ''notification template capability is unavailable'')
        | Some entry \<Rightarrow> (case ce_validate entry of None \<Rightarrow> None | Some f \<Rightarrow> f v)))"

definition list_capabilities :: "capabilities \<Rightarrow> capability list" where
  "list_capabilities cs = sort_key (\<lambda>c. (cp_channel c, cp_provider c)) (map (ce_capability \<circ> snd) cs)"

section \<open>Checks\<close>

fun first_error :: "err option list \<Rightarrow> err option" where
  "first_error [] = None"
| "first_error (x # xs) = (case x of None \<Rightarrow> first_error xs | Some e \<Rightarrow> Some e)"

definition bad_if :: "bool \<Rightarrow> err \<Rightarrow> err option" where
  "bad_if b e = (if b then Some e else None)"

lemma first_error_None: "first_error xs = None \<longleftrightarrow> (\<forall>x \<in> set xs. x = None)"
  by (induction xs) (auto split: option.splits)

lemma bad_if_None [simp]: "bad_if b e = None \<longleftrightarrow> \<not> b"
  by (simp add: bad_if_def)

abbreviation about :: "template \<Rightarrow> string list" where
  "about t \<equiv> [''template_key'', te_key t]"

abbreviation about_locale :: "template \<Rightarrow> string \<Rightarrow> string list" where
  "about_locale t l \<equiv> [''template_key'', te_key t, ''locale'', l]"

definition variable_types :: "string list" where
  "variable_types = [''boolean'', ''date'', ''datetime'', ''email'', ''number'', ''text'', ''url'']"

definition fallback_limit :: nat where "fallback_limit = 5"

fun validate_variables ::
  "template \<Rightarrow> template_variable list \<Rightarrow> (string \<times> template_variable) list \<Rightarrow> err + (string \<times> template_variable) list" where
  "validate_variables t [] seen = Inr seen"
| "validate_variables t (v # vs) seen =
     (let key = trim_space (tv_key v); ty = trim_space (tv_type v) in
      if \<not> stable_key key
      then Inl (invalid ''backend.notification.template_variable_key_invalid'' (about t @ [''variable'', key]))
      else if map_of seen key \<noteq> None
      then Inl (invalid ''backend.notification.template_variable_duplicate'' (about t @ [''variable'', key]))
      else if ty \<notin> set variable_types
      then Inl (invalid ''backend.notification.template_variable_type_unsupported''
             (about t @ [''variable'', key, ''type'', ty]))
      else validate_variables t vs (seen @ [(key, v\<lparr>tv_key := key, tv_type := ty\<rparr>)]))"

fun validate_fallback_list :: "template \<Rightarrow> fallback list \<Rightarrow> string list \<Rightarrow> err option" where
  "validate_fallback_list t [] seen = None"
| "validate_fallback_list t (f # fs) seen =
     (let target = trim_space (fb_template f); connector = trim_space (fb_connector f);
          connection = trim_space (fb_connection f); operation = trim_space (fb_operation f);
          identity = join_with [CHR 0x00] [connector, connection, operation, target]
      in if target = te_key t \<or> \<not> stable_key target \<or> \<not> stable_key connector \<or> connection = [] \<or> operation = []
         then Some (invalid ''backend.notification.fallback_invalid'' (about t))
         else if identity \<in> set seen
         then Some (invalid ''backend.notification.fallback_duplicate'' (about t))
         else validate_fallback_list t fs (identity # seen))"

definition validate_fallbacks :: "template \<Rightarrow> err option" where
  "validate_fallbacks t =
     (if fallback_limit < length (te_fallbacks t)
      then Some (invalid ''backend.notification.fallback_limit_exceeded'' (about t))
      else validate_fallback_list t (te_fallbacks t) [])"

definition validate_tokens :: "template \<Rightarrow> string \<Rightarrow> (string \<times> template_variable) list \<Rightarrow> string \<Rightarrow> err option" where
  "validate_tokens t locale vars source =
     (if has_delimiter (replace_tokens (\<lambda>_. []) source)
      then Some (invalid ''backend.notification.template_syntax_invalid'' (about_locale t locale))
      else first_error (map (\<lambda>n. bad_if (map_of vars (token_root n) = None)
        (invalid ''backend.notification.template_variable_unknown''
          (about_locale t locale @ [''variable'', token_root n]))) (token_names source)))"

text \<open>The texts of a content whose tokens are expanded, in the order they are checked.\<close>

definition content_sources :: "content \<Rightarrow> string list" where
  "content_sources c =
     [ct_subject c, ct_title c, ct_text c, ct_html c, ct_markdown c] @
     concat (map (\<lambda>f. [fa_key f, fa_value f]) (ct_facts c)) @
     concat (map (\<lambda>a. [ac_label a, ac_url a]) (ct_actions c)) @
     (case ct_provider c of None \<Rightarrow> [] | Some p \<Rightarrow> concat (map co_parameters (pt_components p)))"

definition action_style_ok :: "string \<Rightarrow> bool" where
  "action_style_ok s \<longleftrightarrow> s = [] \<or> s = ''primary'' \<or> s = ''secondary'' \<or> s = ''danger''"

definition validate_provider_part :: "template \<Rightarrow> string \<Rightarrow> content \<Rightarrow> capability_entry \<Rightarrow> err option" where
  "validate_provider_part t locale c entry =
     (case ct_provider c of None \<Rightarrow> None
      | Some p \<Rightarrow> first_error
        [bad_if (\<not> cp_provider_template (ce_capability entry))
           (invalid ''backend.notification.provider_template_unsupported''
             (about_locale t locale @ [''provider'', te_provider t])),
         bad_if (ct_facts c \<noteq> [] \<or> ct_actions c \<noteq> [])
           (invalid ''backend.notification.provider_template_components_conflict'' (about_locale t locale)),
         bad_if (case ce_validate entry of None \<Rightarrow> False | Some f \<Rightarrow> f p \<noteq> None)
           (invalid ''backend.notification.provider_template_invalid''
             (about_locale t locale @ [''provider'', te_provider t]))])"

definition validate_body :: "template \<Rightarrow> string \<Rightarrow> content \<Rightarrow> capability \<Rightarrow> err option" where
  "validate_body t locale c cap = first_error
     [bad_if (trim_space locale = []) (invalid ''backend.notification.template_locale_invalid'' (about t)),
      bad_if (cp_channel cap = ''email'' \<and> trim_space (ct_subject c) = [])
        (invalid ''backend.notification.template_subject_required'' (about_locale t locale)),
      bad_if (contains_any (ct_subject c @ ct_title c) [CHR 0x0D, CHR 0x0A])
        (invalid ''backend.notification.template_subject_invalid'' (about_locale t locale)),
      bad_if (cp_channel cap = ''email'' \<and> trim_space (ct_text c) = [] \<and> trim_space (ct_html c) = [] \<or>
          cp_channel cap \<noteq> ''email'' \<and> trim_space (ct_text c) = [] \<and> trim_space (ct_markdown c) = [])
        (invalid ''backend.notification.template_body_required'' (about_locale t locale)),
      bad_if (trim_space (ct_html c) \<noteq> [] \<and> \<not> cp_html cap \<or> trim_space (ct_markdown c) \<noteq> [] \<and> \<not> cp_markdown cap)
        (invalid ''backend.notification.template_channel_mismatch'' (about_locale t locale)),
      bad_if (cp_max_facts cap < int (length (ct_facts c)) \<or> cp_max_actions cap < int (length (ct_actions c)))
        (invalid ''backend.notification.template_components_limit'' (about_locale t locale))]"

definition validate_parts :: "template \<Rightarrow> string \<Rightarrow> content \<Rightarrow> capability \<Rightarrow> err option" where
  "validate_parts t locale c cap = first_error
     [bad_if (\<exists>f \<in> set (ct_facts c). trim_space (fa_key f) = [] \<or> trim_space (fa_value f) = [] \<or> \<not> cp_facts cap)
        (invalid ''backend.notification.template_fact_invalid'' (about_locale t locale)),
      bad_if (\<exists>a \<in> set (ct_actions c). trim_space (ac_label a) = [] \<or> trim_space (ac_url a) = [] \<or>
          \<not> cp_url_actions cap \<or> \<not> action_style_ok (trim_space (ac_style a)))
        (invalid ''backend.notification.template_action_invalid'' (about_locale t locale))]"

definition validate_content ::
  "template \<Rightarrow> (string \<times> template_variable) list \<Rightarrow> capability_entry \<Rightarrow> string \<times> content \<Rightarrow> err option" where
  "validate_content t vars entry = (\<lambda>(locale, c). first_error
     ([validate_body t locale c (ce_capability entry), validate_parts t locale c (ce_capability entry),
       validate_provider_part t locale c entry] @
      map (validate_tokens t locale vars) (content_sources c)))"

section \<open>Templates\<close>

definition validate_contents :: "template \<Rightarrow> capability_entry \<Rightarrow> err option" where
  "validate_contents t entry = (case validate_variables t (te_variables t) [] of
     Inl e \<Rightarrow> Some e
   | Inr vars \<Rightarrow> (case validate_fallbacks t of Some e \<Rightarrow> Some e
     | None \<Rightarrow> first_error (map (validate_content t vars entry) (sort_key fst (te_locales t)))))"

definition validate_template :: "capabilities \<Rightarrow> template \<Rightarrow> err option" where
  "validate_template cs t =
     (let channel = trim_space (te_channel t); provider = trim_space (te_provider t);
          locale = trim_space (te_default_locale t) in
      if \<not> stable_key (trim_space (te_key t))
      then Some (invalid ''backend.notification.template_key_invalid'' (about t))
      else if trim_space (te_name t) = []
      then Some (invalid ''backend.notification.template_name_required'' (about t))
      else case map_of cs (capability_key channel provider) of
        None \<Rightarrow> Some (invalid ''backend.notification.template_provider_unsupported''
                  [''channel'', channel, ''provider'', provider])
      | Some entry \<Rightarrow> first_error
         [bad_if (trim_space (te_status t) \<noteq> ''published'')
            (invalid ''backend.notification.template_status_invalid'' [''status'', te_status t]),
          bad_if (te_version t < 1) (invalid ''backend.notification.template_version_invalid'' (about t)),
          bad_if (locale = []) (invalid ''backend.notification.template_default_locale_required'' (about t)),
          bad_if (te_locales t = []) (invalid ''backend.notification.template_locales_required'' (about t)),
          bad_if (map_of (te_locales t) locale = None)
            (invalid ''backend.notification.template_default_locale_missing'' (about_locale t locale)),
          validate_contents t entry])"

definition validate_editable :: "capabilities \<Rightarrow> template \<Rightarrow> err option" where
  "validate_editable cs t =
     (let status = trim_space (te_status t) in
      if status \<noteq> ''draft'' \<and> status \<noteq> ''published''
      then Some (invalid ''backend.notification.template_status_invalid'' [''status'', te_status t])
      else validate_template cs (t\<lparr>te_status := ''published'', te_hash := []\<rparr>))"

fun duplicate_key :: "string list \<Rightarrow> string list \<Rightarrow> string option" where
  "duplicate_key seen [] = None"
| "duplicate_key seen (k # ks) = (if k \<in> set seen then Some k else duplicate_key (k # seen) ks)"

definition missing_fallback :: "string list \<Rightarrow> template \<Rightarrow> err option" where
  "missing_fallback keys t = first_error (map (\<lambda>f. bad_if (fb_template f \<notin> set keys)
     (invalid ''backend.notification.fallback_template_not_found''
       (about t @ [''fallback_template_key'', fb_template f]))) (te_fallbacks t))"

definition validate_all :: "capabilities \<Rightarrow> template list \<Rightarrow> err option" where
  "validate_all cs ts =
     (case duplicate_key [] (map te_key ts) of
        Some k \<Rightarrow> Some (invalid ''backend.notification.template_key_duplicate'' [''template_key'', k])
      | None \<Rightarrow> first_error (concat (map (\<lambda>(i, t).
          [map_option (Wrapped (''notification_templates['' @ show_nat i @ '']'')) (validate_template cs t),
           missing_fallback (map te_key ts) t]) (enumerate 0 ts))))"

end
