(* ===== verification/Template_Json.thy ===== *)
theory Template_Json
  imports Model Sha256
begin

text \<open>
  The hashes of the template domain: \<open>ContentHash\<close> and \<open>ValueHash\<close> of
  internal/domain/template/validation/validation.go and \<open>PublicationCandidateHash\<close> of
  internal/application/template/publication_processor.go are the SHA-256 of the value's
  \<open>json.Marshal\<close>. The encoder is the standard library's for the types at hand: the fields of
  a struct in declaration order under their JSON names, \<open>omitempty\<close> fields left out when empty,
  maps with their keys sorted, strings with HTML escaping. An empty \<open>Locales\<close> map is taken as
  the nil map. The text of a number is the same in JSON and in \<open>fmt.Sprint\<close>, which holds for
  integers and for decimals between \<open>1e-4\<close> and \<open>1e21\<close>.
\<close>

section \<open>Strings\<close>

text \<open>The width of the first UTF-8 sequence of a byte string, 0 when it is not valid.\<close>

definition continuation :: "nat \<Rightarrow> bool" where
  "continuation b \<longleftrightarrow> 0x80 \<le> b \<and> b \<le> 0xBF"

definition second_ok :: "nat \<Rightarrow> nat \<Rightarrow> bool" where
  "second_ok a b \<longleftrightarrow> continuation b \<and> (a = 0xE0 \<longrightarrow> 0xA0 \<le> b) \<and> (a = 0xED \<longrightarrow> b \<le> 0x9F) \<and>
     (a = 0xF0 \<longrightarrow> 0x90 \<le> b) \<and> (a = 0xF4 \<longrightarrow> b \<le> 0x8F)"

fun rune_width :: "nat list \<Rightarrow> nat" where
  "rune_width (a # bs) =
     (if a < 0x80 then 1
      else if 0xC2 \<le> a \<and> a \<le> 0xDF
        then (case bs of b # _ \<Rightarrow> if continuation b then 2 else 0 | _ \<Rightarrow> 0)
      else if 0xE0 \<le> a \<and> a \<le> 0xEF
        then (case bs of b # c # _ \<Rightarrow> if second_ok a b \<and> continuation c then 3 else 0 | _ \<Rightarrow> 0)
      else if 0xF0 \<le> a \<and> a \<le> 0xF4
        then (case bs of b # c # d # _ \<Rightarrow>
          if second_ok a b \<and> continuation c \<and> continuation d then 4 else 0 | _ \<Rightarrow> 0)
      else 0)"
| "rune_width [] = 0"

declare rune_width.simps [simp del]

definition json_ascii :: "char \<Rightarrow> string" where
  "json_ascii c =
    (if c = CHR 0x22 \<or> c = CHR 0x5C then [CHR 0x5C, c]
     else if c = CHR 0x08 then [CHR 0x5C, CHR ''b'']
     else if c = CHR 0x0C then [CHR 0x5C, CHR ''f'']
     else if c = CHR 0x0A then [CHR 0x5C, CHR ''n'']
     else if c = CHR 0x0D then [CHR 0x5C, CHR ''r'']
     else if c = CHR 0x09 then [CHR 0x5C, CHR ''t'']
     else if c < CHR 0x20 \<or> c = CHR ''<'' \<or> c = CHR ''>'' \<or> c = CHR ''&''
       then [CHR 0x5C] @ ''u00'' @ hex_encode [c]
     else [c])"

fun json_chars :: "nat \<Rightarrow> string \<Rightarrow> string" where
  "json_chars skip [] = []"
| "json_chars (Suc k) (c # cs) = c # json_chars k cs"
| "json_chars 0 (c # cs) =
     (let n = rune_width (map of_char (c # cs)) in
      if n = 0 then [CHR 0x5C] @ ''ufffd'' @ json_chars 0 cs
      else if n = 1 then json_ascii c @ json_chars 0 cs
      else if take 3 (c # cs) = [CHR 0xE2, CHR 0x80, CHR 0xA8] then [CHR 0x5C] @ ''u2028'' @ json_chars 0 (drop 2 cs)
      else if take 3 (c # cs) = [CHR 0xE2, CHR 0x80, CHR 0xA9] then [CHR 0x5C] @ ''u2029'' @ json_chars 0 (drop 2 cs)
      else c # json_chars (n - 1) cs)"

definition json_string :: "string \<Rightarrow> string" where
  "json_string s = [CHR 0x22] @ json_chars 0 s @ [CHR 0x22]"

section \<open>Values\<close>

definition json_array :: "string list \<Rightarrow> string" where
  "json_array xs = ''['' @ join_with '','' xs @ '']''"

definition json_object :: "(string \<times> string) option list \<Rightarrow> string" where
  "json_object entries = ''{'' @ join_with '',''
     (map (\<lambda>(k, v). json_string k @ '':'' @ v) (List.map_filter id entries)) @ ''}''"

definition field :: "string \<Rightarrow> string \<Rightarrow> (string \<times> string) option" where
  "field k v = Some (k, v)"

text \<open>\<open>omitempty\<close>.\<close>

definition text_field :: "string \<Rightarrow> string \<Rightarrow> (string \<times> string) option" where
  "text_field k s = (if s = [] then None else Some (k, json_string s))"

definition list_field :: "string \<Rightarrow> ('a \<Rightarrow> string) \<Rightarrow> 'a list \<Rightarrow> (string \<times> string) option" where
  "list_field k f xs = (if xs = [] then None else Some (k, json_array (map f xs)))"

definition json_fact :: "fact \<Rightarrow> string" where
  "json_fact f = json_object [field ''key'' (json_string (fa_key f)), field ''value'' (json_string (fa_value f))]"

definition json_action :: "action \<Rightarrow> string" where
  "json_action a = json_object [field ''label'' (json_string (ac_label a)), field ''url'' (json_string (ac_url a)),
     text_field ''style'' (ac_style a)]"

definition json_component :: "component \<Rightarrow> string" where
  "json_component c = json_object [field ''type'' (json_string (co_type c)), text_field ''sub_type'' (co_sub_type c),
     text_field ''index'' (co_index c), list_field ''parameters'' json_string (co_parameters c)]"

definition json_provider_template :: "provider_template \<Rightarrow> string" where
  "json_provider_template p = json_object [field ''name'' (json_string (pt_name p)),
     field ''language'' (json_string (pt_language p)), list_field ''components'' json_component (pt_components p)]"

definition json_content :: "content \<Rightarrow> string" where
  "json_content c = json_object [field ''subject'' (json_string (ct_subject c)), text_field ''title'' (ct_title c),
     text_field ''text'' (ct_text c), text_field ''html'' (ct_html c), text_field ''markdown'' (ct_markdown c),
     list_field ''facts'' json_fact (ct_facts c), list_field ''actions'' json_action (ct_actions c),
     map_option (\<lambda>p. (''provider_template'', json_provider_template p)) (ct_provider c)]"

definition json_variable :: "template_variable \<Rightarrow> string" where
  "json_variable v = json_object [field ''key'' (json_string (tv_key v)), field ''type'' (json_string (tv_type v)),
     (if tv_required v then field ''required'' ''true'' else None)]"

definition json_fallback :: "fallback \<Rightarrow> string" where
  "json_fallback f = json_object [field ''template_key'' (json_string (fb_template f)),
     field ''connector_key'' (json_string (fb_connector f)), field ''connection_key'' (json_string (fb_connection f)),
     field ''operation'' (json_string (fb_operation f))]"

definition json_locales :: "(string \<times> content) list \<Rightarrow> string" where
  "json_locales ls = (if ls = [] then ''null''
     else json_object (map (\<lambda>(k, c). field k (json_content c)) (sort_key fst ls)))"

definition json_template :: "template \<Rightarrow> string" where
  "json_template t = json_object [field ''key'' (json_string (te_key t)), field ''name'' (json_string (te_name t)),
     field ''channel'' (json_string (te_channel t)), text_field ''provider'' (te_provider t),
     field ''status'' (json_string (te_status t)), field ''version'' (show_int (te_version t)),
     field ''default_locale'' (json_string (te_default_locale t)),
     list_field ''variables'' json_variable (te_variables t), list_field ''fallbacks'' json_fallback (te_fallbacks t),
     field ''locales'' (json_locales (te_locales t)), text_field ''content_hash'' (te_hash t)]"

fun json_value :: "variable_value \<Rightarrow> string" where
  "json_value VNil = ''null''"
| "json_value (VBool b) = (if b then ''true'' else ''false'')"
| "json_value (VNumber s) = s"
| "json_value (VText s) = json_string s"
| "json_value (VList vs) = json_array (map json_value vs)"
| "json_value (VMap kvs) = json_object (map (\<lambda>(k, s). field k s) (sort_key fst (map (\<lambda>(k, v). (k, json_value v)) kvs)))"

section \<open>Hashes\<close>

definition value_hash :: "string \<Rightarrow> string" where
  "value_hash raw = hex_encode (sha256 raw)"

definition variables_hash :: "variables \<Rightarrow> string" where
  "variables_hash vs = value_hash (json_value (VMap vs))"

definition content_hash :: "template \<Rightarrow> string" where
  "content_hash t = value_hash (json_template (t\<lparr>te_hash := []\<rparr>))"

definition candidate_hash :: "template \<Rightarrow> string" where
  "candidate_hash t =
     value_hash (json_template (t\<lparr>te_status := ''draft'', te_version := 0, te_hash := []\<rparr>))"

lemma length_value_hash [simp]: "length (value_hash raw) = 64"
  by (simp add: value_hash_def length_hex_encode length_sha256)

text \<open>What the hashes do not depend on.\<close>

lemma content_hash_hash [simp]: "content_hash (t\<lparr>te_hash := h\<rparr>) = content_hash t"
  by (simp add: content_hash_def)

lemma candidate_hash_fields [simp]:
  "candidate_hash (t\<lparr>te_hash := h\<rparr>) = candidate_hash t"
  "candidate_hash (t\<lparr>te_status := s\<rparr>) = candidate_hash t"
  "candidate_hash (t\<lparr>te_version := v\<rparr>) = candidate_hash t"
  by (simp_all add: candidate_hash_def)

text \<open>\<open>value.Status = "published"; value.ContentHash = ContentHash(value)\<close>.\<close>

definition as_published :: "template \<Rightarrow> template" where
  "as_published value = (let v = value\<lparr>te_status := ''published''\<rparr> in v\<lparr>te_hash := content_hash v\<rparr>)"

lemma as_published_fields [simp]:
  "te_key (as_published v) = te_key v" "te_version (as_published v) = te_version v"
  "te_status (as_published v) = ''published''" "te_hash (as_published v) = content_hash (as_published v)"
  "candidate_hash (as_published v) = candidate_hash v"
  by (simp_all add: as_published_def Let_def)

end
