(* ===== verification/Template_Render.thy ===== *)
theory Template_Render
  imports Template_Validation Template_Json Go_Parse
begin

text \<open>
  Rendering: render.go, portable.go and the rendering half of engine.go in
  internal/domain/template/service. The parsers of the standard library whose grammars are not
  modelled (\<open>strconv.ParseFloat\<close>, \<open>mail.ParseAddress\<close>, \<open>url.Parse\<close>, \<open>url.ParseRequestURI\<close>)
  are the components of a record argument; a URL is given by its scheme and host.
\<close>

record text_parsers =
  tp_float :: "string \<Rightarrow> bool"
  tp_address :: "string \<Rightarrow> string option"
  tp_url :: "string \<Rightarrow> (string \<times> string) option"
  tp_request_uri :: "string \<Rightarrow> (string \<times> string) option"

section \<open>Results\<close>

definition and_then :: "err + 'a \<Rightarrow> ('a \<Rightarrow> err + 'b) \<Rightarrow> err + 'b" where
  "and_then m f = (case m of Inl e \<Rightarrow> Inl e | Inr a \<Rightarrow> f a)"

fun map_results :: "('a \<Rightarrow> err + 'b) \<Rightarrow> 'a list \<Rightarrow> err + 'b list" where
  "map_results f [] = Inr []"
| "map_results f (x # xs) = and_then (f x) (\<lambda>y. and_then (map_results f xs) (\<lambda>ys. Inr (y # ys)))"

definition lift_result :: "err + 'a \<Rightarrow> ('w, 'a) io" where
  "lift_result r = (case r of Inl e \<Rightarrow> fail e | Inr a \<Rightarrow> ret a)"

lemma and_then_Inr: "and_then m f = Inr b \<longleftrightarrow> (\<exists>a. m = Inr a \<and> f a = Inr b)"
  by (cases m) (auto simp: and_then_def)

lemma lift_result_eq: "lift_result r w = (x, w') \<longleftrightarrow> r = x \<and> w' = w"
  by (cases r) (auto simp: lift_result_def)

section \<open>Variables\<close>

text \<open>\<open>fmt.Sprint\<close> of a template variable; a map prints its keys in order.\<close>

fun sprint :: "variable_value \<Rightarrow> string" where
  "sprint VNil = ''<nil>''"
| "sprint (VBool b) = (if b then ''true'' else ''false'')"
| "sprint (VNumber s) = s"
| "sprint (VText s) = s"
| "sprint (VList vs) = ''['' @ join_with '' '' (map sprint vs) @ '']''"
| "sprint (VMap kvs) = ''map['' @ join_with '' '' (map (\<lambda>(k, s). k @ '':'' @ s)
     (sort_key fst (map (\<lambda>(k, v). (k, sprint v)) kvs))) @ '']''"

definition parse_bool :: "string \<Rightarrow> bool option" where
  "parse_bool s = (if s \<in> {''1'', ''t'', ''T'', ''TRUE'', ''true'', ''True''} then Some True
     else if s \<in> {''0'', ''f'', ''F'', ''FALSE'', ''false'', ''False''} then Some False else None)"

text \<open>\<open>time.Parse("2006-01-02", s)\<close> succeeds.\<close>

definition is_date :: "string \<Rightarrow> bool" where
  "is_date s = (case
    Option.bind (get_year s) (\<lambda>(y, v).
    Option.bind (expect (CHR ''-'') v) (\<lambda>v.
    Option.bind (get_num True v) (\<lambda>(mo, v).
    Option.bind (expect (CHR ''-'') v) (\<lambda>v.
    Option.bind (get_num True v) (\<lambda>(d, v). Some (y, mo, d, v))))))
   of None \<Rightarrow> False
    | Some (y, mo, d, v) \<Rightarrow> v = [] \<and> 1 \<le> mo \<and> mo \<le> 12 \<and> 1 \<le> d \<and> d \<le> days_in mo y)"

definition variable_value_ok :: "text_parsers \<Rightarrow> string \<Rightarrow> variable_value \<Rightarrow> bool" where
  "variable_value_ok ps ty v = (let text = trim_space (sprint v) in
     if ty = ''boolean'' then parse_bool text \<noteq> None
     else if ty = ''number'' then tp_float ps text
     else if ty = ''date'' then is_date text
     else if ty = ''datetime'' then parse_rfc3339 text \<noteq> None
     else if ty = ''email'' then tp_address ps text \<noteq> None
     else if ty = ''url'' then (case tp_request_uri ps text of None \<Rightarrow> False
       | Some (scheme, host) \<Rightarrow> scheme = ''http'' \<or> scheme = ''https'')
     else True)"

definition put_value :: "string \<Rightarrow> variable_value \<Rightarrow> variables \<Rightarrow> variables" where
  "put_value k v kvs = filter (\<lambda>(k', _). k' \<noteq> k) kvs @ [(k, v)]"

fun collect_variables ::
  "text_parsers \<Rightarrow> template \<Rightarrow> variables \<Rightarrow> template_variable list \<Rightarrow> variables \<Rightarrow> err + variables" where
  "collect_variables ps t supplied [] result = Inr result"
| "collect_variables ps t supplied (v # vs) result =
     (let given = (case map_of supplied (tv_key v) of Some VNil \<Rightarrow> None | x \<Rightarrow> x) in
      if tv_required v \<and> (case given of None \<Rightarrow> True | Some x \<Rightarrow> trim_space (sprint x) = [])
      then Inl (invalid ''backend.notification.template_variable_required'' (about t @ [''variable'', tv_key v]))
      else case given of None \<Rightarrow> collect_variables ps t supplied vs result
      | Some x \<Rightarrow>
          if \<not> variable_value_ok ps (tv_type v) x
          then Inl (invalid ''backend.notification.template_variable_invalid''
                 (about t @ [''variable'', tv_key v, ''type'', tv_type v]))
          else collect_variables ps t supplied vs (put_value (tv_key v) x result))"

definition validate_render_variables :: "text_parsers \<Rightarrow> template \<Rightarrow> variables \<Rightarrow> err + variables" where
  "validate_render_variables ps t supplied =
     (case List.find (\<lambda>(k, _). trim_space k \<notin> set (map (trim_space \<circ> tv_key) (te_variables t))) supplied of
        Some (k, _) \<Rightarrow> Inl (invalid ''backend.notification.template_variable_unknown'' (about t @ [''variable'', k]))
      | None \<Rightarrow> collect_variables ps t supplied (te_variables t) [])"

fun resolve_parts :: "variable_value \<Rightarrow> string list \<Rightarrow> variable_value option" where
  "resolve_parts v [] = Some v"
| "resolve_parts v (p # ps) = (case v of
     VMap kvs \<Rightarrow> (case map_of kvs p of None \<Rightarrow> None | Some x \<Rightarrow> resolve_parts x ps)
   | _ \<Rightarrow> None)"

definition resolve_variable_path :: "variables \<Rightarrow> string \<Rightarrow> variable_value option" where
  "resolve_variable_path values path = resolve_parts (VMap values) (split_on CHR ''.'' path)"

definition token_text :: "variables \<Rightarrow> bool \<Rightarrow> string \<Rightarrow> string" where
  "token_text vals escape n = (case resolve_variable_path vals n of None \<Rightarrow> []
     | Some v \<Rightarrow> if escape then escape_html (sprint v) else sprint v)"

definition render_restricted :: "string \<Rightarrow> variables \<Rightarrow> bool \<Rightarrow> err + string" where
  "render_restricted source vals escape =
     (let out = replace_tokens (token_text vals escape) source in
      if source = [] then Inr []
      else if list_ex (\<lambda>n. resolve_variable_path vals n = None) (token_names source) \<or> has_delimiter out
      then Inl (ErrorText ''notification template render failed'')
      else Inr out)"

definition render_component :: "variables \<Rightarrow> component \<Rightarrow> err + component" where
  "render_component vals c = and_then (map_results (\<lambda>p. render_restricted p vals False) (co_parameters c))
     (\<lambda>ps. Inr (c\<lparr>co_parameters := ps\<rparr>))"

definition render_provider_template :: "provider_template option \<Rightarrow> variables \<Rightarrow> err + provider_template option" where
  "render_provider_template p vals = (case p of None \<Rightarrow> Inr None
     | Some p \<Rightarrow> and_then (map_results (render_component vals) (pt_components p))
         (\<lambda>cs. Inr (Some (p\<lparr>pt_components := cs\<rparr>))))"

section \<open>Portable content\<close>

definition non_empty_strings :: "string list \<Rightarrow> string list" where
  "non_empty_strings vs = filter (\<lambda>v. v \<noteq> []) (map trim_space vs)"

definition append_portable_text :: "string \<Rightarrow> fact list \<Rightarrow> action list \<Rightarrow> string" where
  "append_portable_text body fs acts = join_with [CHR 0x0A] (non_empty_strings
     (trim_space body #
      map (\<lambda>f. trim_space (fa_key f) @ '': '' @ trim_space (fa_value f)) fs @
      map (\<lambda>a. trim_space (ac_label a) @ '': '' @ trim_space (ac_url a)) acts))"

definition quoted :: "string \<Rightarrow> string" where
  "quoted s = [CHR 0x22] @ s @ [CHR 0x22]"

definition facts_html :: "fact list \<Rightarrow> string" where
  "facts_html fs = (if fs = [] then [] else ''<dl data-notification-facts='' @ quoted ''true'' @ ''>'' @
     concat (map (\<lambda>f. ''<dt><strong>'' @ escape_html (fa_key f) @ ''</strong></dt><dd>'' @
       escape_html (fa_value f) @ ''</dd>'') fs) @ ''</dl>'')"

definition actions_html :: "action list \<Rightarrow> string" where
  "actions_html acts = (if acts = [] then [] else ''<p data-notification-actions='' @ quoted ''true'' @ ''>'' @
     concat (map (\<lambda>a. ''<a href='' @ quoted (escape_html (ac_url a)) @ ''>'' @ escape_html (ac_label a) @ ''</a> '') acts) @
     ''</p>'')"

definition break_lines :: "string \<Rightarrow> string" where
  "break_lines s = concat (map (\<lambda>c. if c = CHR 0x0A then ''<br>'' else [c]) s)"

definition append_portable_email :: "string \<Rightarrow> string \<Rightarrow> fact list \<Rightarrow> action list \<Rightarrow> string \<times> string" where
  "append_portable_email text0 html fs acts =
     (let text = append_portable_text text0 fs acts in
      if fs = [] \<and> acts = [] then (text, html)
      else (text, if trim_space html = [] then ''<p>'' @ break_lines (escape_html text) @ ''</p>''
                  else html @ facts_html fs @ actions_html acts))"

section \<open>The engine\<close>

record render_request =
  rn_workspace :: workspace_id
  rn_template :: string
  rn_locale :: string
  rn_recipients :: "user_id list"
  rn_variables :: variables
  rn_metadata :: variables

record 'w engine_deps =
  ed_locale :: string
  ed_capabilities :: capabilities
  ed_recipients :: "(workspace_id \<Rightarrow> user_id \<Rightarrow> ('w, recipient option) io) option"
  ed_parsers :: text_parsers

definition select_content :: "template \<Rightarrow> string \<Rightarrow> string \<Rightarrow> (string \<times> content) option" where
  "select_content t requested runtime =
     map_option (\<lambda>l. (l, the (map_of (te_locales t) l)))
       (List.find (\<lambda>l. map_of (te_locales t) l \<noteq> None)
         [trim_space requested, trim_space runtime, trim_space (te_default_locale t)])"

definition render_field :: "template \<Rightarrow> string \<Rightarrow> string \<Rightarrow> variables \<Rightarrow> bool \<Rightarrow> err + string" where
  "render_field t part source vals escape = (case render_restricted source vals escape of
     Inl _ \<Rightarrow> Inl (invalid ''backend.notification.template_render_failed'' (about t @ [''field'', part]))
   | Inr s \<Rightarrow> Inr s)"

definition render_fact :: "template \<Rightarrow> variables \<Rightarrow> fact \<Rightarrow> err + fact" where
  "render_fact t vals f = (case (render_restricted (fa_key f) vals False, render_restricted (fa_value f) vals False) of
     (Inr k, Inr v) \<Rightarrow> Inr \<lparr>fa_key = k, fa_value = v\<rparr>
   | _ \<Rightarrow> Inl (invalid ''backend.notification.template_render_failed'' (about t @ [''field'', ''facts''])))"

definition or_empty :: "err + string \<Rightarrow> string" where
  "or_empty r = (case r of Inl _ \<Rightarrow> [] | Inr s \<Rightarrow> s)"

definition action_url_ok :: "text_parsers \<Rightarrow> string \<Rightarrow> bool" where
  "action_url_ok ps s = (case tp_url ps s of None \<Rightarrow> False
     | Some (scheme, host) \<Rightarrow> host \<noteq> [] \<and> (scheme = ''https'' \<or> scheme = ''http''))"

definition render_action :: "text_parsers \<Rightarrow> template \<Rightarrow> variables \<Rightarrow> action \<Rightarrow> err + action" where
  "render_action ps t vals a =
     (case (render_restricted (ac_label a) vals False, render_restricted (ac_url a) vals False) of
        (Inr label, Inr url) \<Rightarrow>
          if action_url_ok ps url then Inr \<lparr>ac_label = label, ac_url = url, ac_style = ac_style a\<rparr>
          else Inl (invalid ''backend.notification.template_action_invalid'' (about t @ [''label'', label]))
      | (label, _) \<Rightarrow> Inl (invalid ''backend.notification.template_action_invalid'' (about t @ [''label'', or_empty label])))"

definition blank :: "string \<Rightarrow> bool" where
  "blank s \<longleftrightarrow> trim_space s = []"

text \<open>The message, the text and the HTML from the rendered parts.\<close>

definition compose_message :: "string \<Rightarrow> string \<Rightarrow> string \<Rightarrow> string" where
  "compose_message title text markdown =
     (let message = (if \<not> blank markdown then markdown else text)
      in if \<not> blank title then title @ [CHR 0x0A, CHR 0x0A] @ message else message)"

definition assemble ::
  "template \<Rightarrow> string \<Rightarrow> string list \<Rightarrow> render_request \<Rightarrow> variables \<Rightarrow> string \<Rightarrow> string \<Rightarrow> string \<Rightarrow> string \<Rightarrow> string \<Rightarrow>
   fact list \<Rightarrow> action list \<Rightarrow> provider_template option \<Rightarrow> rendered" where
  "assemble t locale recipients rq vals subject title text html markdown fs acts provider =
     (let (text', html') = (if te_channel t = ''email'' then append_portable_email text html fs acts else (text, html))
      in \<lparr>re_channel = te_channel t, re_provider = te_provider t, re_recipients = recipients, re_subject = subject,
          re_title = title, re_text = text', re_html = html', re_markdown = markdown,
          re_message = (if te_channel t = ''email'' then text' else compose_message title text markdown),
          re_facts = fs, re_actions = acts, re_provider_template = provider, re_template = te_key t,
          re_version = te_version t, re_locale = locale, re_content_hash = te_hash t,
          re_variables_hash = variables_hash vals, re_metadata = rn_metadata rq, re_fallbacks = te_fallbacks t\<rparr>)"

definition render_content ::
  "text_parsers \<Rightarrow> template \<Rightarrow> string \<Rightarrow> content \<Rightarrow> render_request \<Rightarrow> variables \<Rightarrow> string list \<Rightarrow> err + rendered" where
  "render_content ps t locale c rq vals recipients =
     and_then (render_field t ''subject'' (ct_subject c) vals False) (\<lambda>subject.
     if contains_any subject [CHR 0x0D, CHR 0x0A]
     then Inl (invalid ''backend.notification.subject_header_invalid'' (about t)) else
     and_then (render_field t ''text'' (ct_text c) vals False) (\<lambda>text.
     and_then (render_field t ''html'' (ct_html c) vals True) (\<lambda>html.
     and_then (render_field t ''title'' (ct_title c) vals False) (\<lambda>title.
     and_then (render_field t ''markdown'' (ct_markdown c) vals False) (\<lambda>markdown.
     and_then (map_results (render_fact t vals) (ct_facts c)) (\<lambda>fs.
     and_then (map_results (render_action ps t vals) (ct_actions c)) (\<lambda>acts.
     case render_provider_template (ct_provider c) vals of
       Inl _ \<Rightarrow> Inl (invalid ''backend.notification.template_render_failed'' (about t @ [''field'', ''provider_template'']))
     | Inr provider \<Rightarrow> Inr (assemble t locale recipients rq vals subject title text html markdown fs acts provider))))))))"

definition resolve_recipient :: "'w engine_deps \<Rightarrow> workspace_id \<Rightarrow> string \<Rightarrow> user_id \<Rightarrow> ('w, string) io" where
  "resolve_recipient d ws channel u =
     (if channel \<noteq> ''email'' then ret u else
      case ed_recipients d of
        None \<Rightarrow> fail (invalid ''backend.notification.recipient_resolver_unavailable'' [''recipient'', u])
      | Some lookup_user \<Rightarrow> bind_io (lookup_user ws u) (\<lambda>found.
          case found of
            None \<Rightarrow> fail (invalid ''backend.notification.recipient_email_missing'' [''recipient'', u])
          | Some r \<Rightarrow>
              if blank (rc_email r)
              then fail (invalid ''backend.notification.recipient_email_missing'' [''recipient'', u])
              else case tp_address (ed_parsers d) (trim_space (rc_email r)) of
                None \<Rightarrow> fail (invalid ''backend.notification.recipient_email_invalid'' [''recipient'', u])
              | Some address \<Rightarrow> ret (to_lower address)))"

definition resolve_recipients :: "'w engine_deps \<Rightarrow> workspace_id \<Rightarrow> string \<Rightarrow> user_id list \<Rightarrow> ('w, string list) io" where
  "resolve_recipients d ws channel us =
     bind_io (fold_io (\<lambda>u result. if u = [] then ret result else
         bind_io (resolve_recipient d ws channel u) (\<lambda>address.
         ret (if address \<in> set result then result else result @ [address]))) us [])
     (\<lambda>result. guard_io (result = []) (invalid ''backend.notification.recipients_required'' []) (ret result))"

definition render_with :: "'w engine_deps \<Rightarrow> template \<Rightarrow> render_request \<Rightarrow> ('w, rendered) io" where
  "render_with d t rq =
     (case select_content t (rn_locale rq) (ed_locale d) of
        None \<Rightarrow> fail (invalid ''backend.notification.template_locale_unavailable'' (about t @ [''locale'', rn_locale rq]))
      | Some (locale, c) \<Rightarrow>
          if locale = []
          then fail (invalid ''backend.notification.template_locale_unavailable'' (about t @ [''locale'', rn_locale rq]))
          else bind_io (lift_result (validate_render_variables (ed_parsers d) t (rn_variables rq))) (\<lambda>vals.
            bind_io (resolve_recipients d (rn_workspace rq) (te_channel t) (rn_recipients rq)) (\<lambda>recipients.
            lift_result (render_content (ed_parsers d) t locale c rq vals recipients))))"

text \<open>\<open>RenderTemplate\<close> validates the template it is given and stamps its hash.\<close>

definition render_template :: "'w engine_deps \<Rightarrow> template \<Rightarrow> render_request \<Rightarrow> ('w, rendered) io" where
  "render_template d t0 rq = (let t = as_published t0 in
     case validate_template (ed_capabilities d) t of Some e \<Rightarrow> fail e | None \<Rightarrow> render_with d t rq)"

end
