(* ===== verification/Template_Store.thy ===== *)
theory Template_Store
  imports Integrity Go_Parse Samples Template_Json
begin

text \<open>
  The template store, internal/infrastructure/persistence/database/template/record.go: the
  record of a template (its draft, its published content, the number of the published version)
  and its immutable versions. \<open>self\<close> is the workspace of the store, \<open>now\<close> what its clock says.
\<close>

definition scan_template_record :: "template_row \<Rightarrow> template_record" where
  "scan_template_record r = \<lparr>tr_key = xr_key r, tr_draft = xr_draft r, tr_published = xr_published r,
     tr_version = xr_version r, tr_status = xr_status r, tr_updated_by = xr_updated_by r,
     tr_created = xr_created r, tr_updated = xr_updated r\<rparr>"

definition scan_template_version :: "version_row \<Rightarrow> template_version" where
  "scan_template_version r = \<lparr>ve_template_key = vr_template_key r, ve_version = vr_version r,
     ve_template = vr_payload r, ve_hash = vr_hash r, ve_published_by = vr_published_by r,
     ve_published_at = vr_published_at r\<rparr>"

definition template_matches :: "workspace_id \<Rightarrow> string \<Rightarrow> template_row \<Rightarrow> bool" where
  "template_matches self key r \<longleftrightarrow> xr_workspace r = self \<and> xr_key r = key"

definition template_record_by_key :: "workspace_id \<Rightarrow> string \<Rightarrow> template_record option sql" where
  "template_record_by_key self key =
     bind_io (select_row templates_table (template_matches self (trim_space key)))
       (\<lambda>r. ret (map_option scan_template_record r))"

section \<open>Reading\<close>

definition list_templates :: "workspace_id \<Rightarrow> template_record list sql" where
  "list_templates self = bind_io (wrapping ''list notification templates''
       (query (\<lambda>d. sort_key xr_key (filter (\<lambda>r. xr_workspace r = self) (db_templates d)))))
     (\<lambda>rs. ret (map scan_template_record rs))"

definition publicly_active :: "workspace_id \<Rightarrow> template_row \<Rightarrow> bool" where
  "publicly_active self r \<longleftrightarrow> xr_workspace r = self \<and> xr_status r = ''active'' \<and> xr_published r \<noteq> None"

definition latest :: "string list \<Rightarrow> string" where
  "latest ss = fold max ss []"

definition published_revision :: "workspace_id \<Rightarrow> string sql" where
  "published_revision self = bind_io (wrapping ''read published notification revision''
       (query (\<lambda>d. filter (publicly_active self) (db_templates d))))
     (\<lambda>rs. ret (show_int (int (length rs)) @ '':'' @ latest (map xr_updated rs)))"

definition get_template :: "workspace_id \<Rightarrow> string \<Rightarrow> template_record option sql" where
  "get_template self key = (let key = trim_space key in
     guard_io (key = []) (ErrorText ''notification template key is required'')
       (template_record_by_key self key))"

definition version_matches :: "workspace_id \<Rightarrow> string \<Rightarrow> version_row \<Rightarrow> bool" where
  "version_matches self key r \<longleftrightarrow> vr_workspace r = self \<and> vr_template_key r = key"

definition list_versions :: "workspace_id \<Rightarrow> string \<Rightarrow> template_version list sql" where
  "list_versions self key = bind_io (wrapping ''list notification template versions''
       (query (\<lambda>d. sort_key_desc vr_version (filter (version_matches self (trim_space key)) (db_versions d)))))
     (\<lambda>rs. ret (map scan_template_version rs))"

definition get_version :: "workspace_id \<Rightarrow> string \<Rightarrow> int \<Rightarrow> template_version option sql" where
  "get_version self key n =
     bind_io (select_row versions_table (\<lambda>r. version_matches self (trim_space key) r \<and> vr_version r = n))
       (\<lambda>r. ret (map_option scan_template_version r))"

section \<open>Writing\<close>

definition new_version_row :: "workspace_id \<Rightarrow> template \<Rightarrow> string \<Rightarrow> string \<Rightarrow> version_row" where
  "new_version_row self value actor at = \<lparr>vr_id = te_key value @ '':'' @ show_int (te_version value),
     vr_template_key = te_key value, vr_version = te_version value, vr_payload = value,
     vr_hash = te_hash value, vr_published_by = actor, vr_published_at = at, vr_workspace = self\<rparr>"

definition insert_template_version :: "workspace_id \<Rightarrow> template \<Rightarrow> string \<Rightarrow> string \<Rightarrow> unit sql" where
  "insert_template_version self value actor at = wrapping ''insert notification template version''
     (workspace_insert versions_table version_clash ''_notification_template_versions'' self self
       (new_version_row self value actor at))"

definition new_template_row ::
  "workspace_id \<Rightarrow> string \<Rightarrow> template option \<Rightarrow> template option \<Rightarrow> int \<Rightarrow> string \<Rightarrow> string \<Rightarrow> template_row" where
  "new_template_row self key draft published version actor now = \<lparr>xr_key = key, xr_draft = draft,
     xr_published = published, xr_version = version, xr_status = ''active'', xr_updated_by = actor,
     xr_created = now, xr_updated = now, xr_workspace = self\<rparr>"

definition insert_template :: "workspace_id \<Rightarrow> template_row \<Rightarrow> unit sql" where
  "insert_template self r =
     workspace_insert templates_table template_clash ''_notification_templates'' self self r"

definition seed_body :: "workspace_id \<Rightarrow> instant \<Rightarrow> template \<Rightarrow> (bool \<times> unit) sql" where
  "seed_body self now value =
     bind_io (wrapping ''inspect notification template seed''
       (count_rows templates_table (template_matches self (te_key value)))) (\<lambda>exists.
     if 0 < exists then leave_with () else
     bind_io (wrapping ''insert notification template seed''
       (insert_template self (new_template_row self (te_key value) None (Some value) (te_version value)
         ''manifest'' (timestamp now)))) (\<lambda>_.
     bind_io (insert_template_version self value ''manifest'' (timestamp now)) (\<lambda>_.
     commit_with ())))"

definition seed_published_template :: "workspace_id \<Rightarrow> instant \<Rightarrow> template \<Rightarrow> unit sql" where
  "seed_published_template self now value = transaction (seed_body self now value)"

definition sync_published :: "workspace_id \<Rightarrow> instant \<Rightarrow> template list \<Rightarrow> unit sql" where
  "sync_published self now values = for_each (\<lambda>value.
     let key = trim_space (te_key value) in
     guard_io (key = [] \<or> te_version value < 1) (ErrorText ''notification published template identity is required'')
       (seed_published_template self now (as_published (value\<lparr>te_key := key\<rparr>)))) values"

text \<open>The end of the three operations on a record: it is read again and returned.\<close>

definition stored_record :: "workspace_id \<Rightarrow> string \<Rightarrow> (bool \<times> template_record) sql" where
  "stored_record self key = bind_io (template_record_by_key self key) (\<lambda>stored.
     case stored of None \<Rightarrow> fail (Sentinel ErrRecordNotFound) | Some r \<Rightarrow> commit_with r)"

definition save_draft_body ::
  "workspace_id \<Rightarrow> string \<Rightarrow> template \<Rightarrow> string \<Rightarrow> string \<Rightarrow> (bool \<times> template_record) sql" where
  "save_draft_body self now value expected actor =
     bind_io (template_record_by_key self (te_key value)) (\<lambda>current.
     bind_io (case current of
        None \<Rightarrow> guard_io (expected \<noteq> []) (Sentinel ErrRecordConflict)
          (wrapping ''insert notification template draft''
            (insert_template self (new_template_row self (te_key value) (Some value) None 0 actor now)))
      | Some r \<Rightarrow> guard_io (expected \<noteq> [] \<and> tr_updated r \<noteq> expected) (Sentinel ErrRecordConflict)
          (bind_io (wrapping ''update notification template draft''
            (update_rows templates_table (template_matches self (te_key value))
              (\<lambda>x. x\<lparr>xr_draft := Some value, xr_status := ''active'', xr_updated_by := actor, xr_updated := now\<rparr>)))
           (\<lambda>count. guard_io (count \<noteq> 1) (Sentinel ErrRecordConflict) (ret ()))))
     (\<lambda>_. stored_record self (te_key value)))"

definition save_draft ::
  "workspace_id \<Rightarrow> instant \<Rightarrow> template \<Rightarrow> string \<Rightarrow> string \<Rightarrow> template_record sql" where
  "save_draft self now value0 expected actor0 =
     (let value = value0\<lparr>te_key := trim_space (te_key value0)\<rparr>; actor = trim_space actor0 in
      guard_io (te_key value = [] \<or> actor = []) (ErrorText ''notification template key and actor are required'')
        (transaction (save_draft_body self (timestamp now) value expected actor)))"

text \<open>The lookup and the optimistic check that \<open>Publish\<close> and \<open>Disable\<close> start with.\<close>

definition current_record :: "workspace_id \<Rightarrow> string \<Rightarrow> string \<Rightarrow> template_record sql" where
  "current_record self key expected = bind_io (template_record_by_key self key) (\<lambda>current.
     case current of None \<Rightarrow> fail (Sentinel ErrRecordNotFound)
     | Some r \<Rightarrow> guard_io (expected \<noteq> [] \<and> tr_updated r \<noteq> expected) (Sentinel ErrRecordConflict) (ret r))"

definition publish_body ::
  "workspace_id \<Rightarrow> string \<Rightarrow> template \<Rightarrow> string \<Rightarrow> string \<Rightarrow> (bool \<times> template_record) sql" where
  "publish_body self now value expected actor =
     bind_io (current_record self (te_key value) expected) (\<lambda>_.
     bind_io (wrapping ''publish notification template''
       (update_rows templates_table (template_matches self (te_key value))
         (\<lambda>x. x\<lparr>xr_draft := None, xr_published := Some value, xr_version := te_version value,
            xr_status := ''active'', xr_updated_by := actor, xr_updated := now\<rparr>))) (\<lambda>count.
     guard_io (count \<noteq> 1) (Sentinel ErrRecordConflict)
     (bind_io (insert_template_version self value actor now) (\<lambda>_.
      stored_record self (te_key value)))))"

definition publish_template ::
  "workspace_id \<Rightarrow> instant \<Rightarrow> template \<Rightarrow> string \<Rightarrow> string \<Rightarrow> template_record sql" where
  "publish_template self now value0 expected actor0 =
     (let value = value0\<lparr>te_key := trim_space (te_key value0)\<rparr>; actor = trim_space actor0 in
      guard_io (te_key value = [] \<or> te_version value < 1 \<or> actor = [])
        (ErrorText ''notification published template identity is required'')
        (transaction (publish_body self (timestamp now) (as_published value) expected actor)))"

text \<open>
  \<open>Disable\<close> returns an empty record and no error in the case \<open>err != nil || !found\<close> when the
  row it has just updated is gone; the transaction is not committed then.
\<close>

definition empty_record :: template_record where
  "empty_record = \<lparr>tr_key = [], tr_draft = None, tr_published = None, tr_version = 0, tr_status = [],
     tr_updated_by = [], tr_created = [], tr_updated = []\<rparr>"

definition disable_body ::
  "workspace_id \<Rightarrow> string \<Rightarrow> string \<Rightarrow> string \<Rightarrow> string \<Rightarrow> (bool \<times> template_record) sql" where
  "disable_body self now key expected actor =
     bind_io (current_record self key expected) (\<lambda>_.
     bind_io (wrapping ''disable notification template''
       (update_rows templates_table (template_matches self key)
         (\<lambda>x. x\<lparr>xr_status := ''disabled'', xr_updated_by := actor, xr_updated := now\<rparr>))) (\<lambda>count.
     guard_io (count \<noteq> 1) (Sentinel ErrRecordConflict)
     (bind_io (template_record_by_key self key) (\<lambda>stored.
      case stored of None \<Rightarrow> leave_with empty_record | Some r \<Rightarrow> commit_with r))))"

definition disable_template ::
  "workspace_id \<Rightarrow> instant \<Rightarrow> string \<Rightarrow> string \<Rightarrow> string \<Rightarrow> template_record sql" where
  "disable_template self now key0 expected actor0 =
     (let key = trim_space key0; actor = trim_space actor0 in
      guard_io (key = [] \<or> actor = []) (ErrorText ''notification template key and actor are required'')
        (transaction (disable_body self (timestamp now) key expected actor)))"

end
