(* ===== verification/Template_Records.thy ===== *)
theory Template_Records
  imports Template_Store
begin

text \<open>
  The contract of the template store. The table of templates is abstracted to a map from
  workspace and key to the record; each operation that writes is an update of that map at one
  key, guarded by the optimistic check, and a published content stays pinned to the immutable
  version with its number.
\<close>

definition template_map :: "database \<Rightarrow> workspace_id \<times> string \<Rightarrow> template_record option" where
  "template_map d = (\<lambda>(ws, k). map_option scan_template_record (List.find (template_matches ws k) (db_templates d)))"

lemma template_map_other [simp]:
  "template_map (d\<lparr>db_versions := vs\<rparr>) = template_map d"
  "template_map (d\<lparr>db_requests := qs\<rparr>) = template_map d"
  "template_map (d\<lparr>db_locks := ls\<rparr>) = template_map d"
  by (simp_all add: template_map_def)

lemma some_or_fail_Inr:
  "(case x of None \<Rightarrow> fail e | Some r \<Rightarrow> f r) w = (Inr a, w') \<longleftrightarrow> (\<exists>r. x = Some r \<and> f r w = (Inr a, w'))"
  by (cases x) auto

lemma find_snoc: "List.find P (xs @ [x]) = (case List.find P xs of None \<Rightarrow> if P x then Some x else None | Some y \<Rightarrow> Some y)"
  by (induction xs) auto

lemma template_map_update:
  assumes "\<And>r. xr_key (f r) = xr_key r" "\<And>r. xr_workspace (f r) = xr_workspace r"
    and "\<And>r. scan_template_record (f r) = g (scan_template_record r)"
    and "template_map d (ws, k) = Some old"
  shows "template_map (d\<lparr>db_templates := update_where (template_matches ws k) f (db_templates d)\<rparr>) =
    (template_map d)((ws, k) \<mapsto> g old)"
proof (rule ext)
  fix p :: "workspace_id \<times> string"
  obtain ws' k' where p: "p = (ws', k')" by (cases p)
  have m: "template_matches ws' k' (if template_matches ws k r then f r else r) = template_matches ws' k' r" for r
    by (simp add: template_matches_def assms(1,2))
  have found: "List.find (template_matches ws' k') (update_where (template_matches ws k) f (db_templates d)) =
      map_option (\<lambda>r. if template_matches ws k r then f r else r) (List.find (template_matches ws' k') (db_templates d))"
    unfolding find_update_where m by (cases "List.find (template_matches ws' k') (db_templates d)") simp_all
  have hit: "List.find (template_matches ws' k') (db_templates d) = Some r \<Longrightarrow> template_matches ws' k' r" for r
    by (auto simp: find_Some_iff)
  show "template_map (d\<lparr>db_templates := update_where (template_matches ws k) f (db_templates d)\<rparr>) p =
      ((template_map d)((ws, k) \<mapsto> g old)) p"
    using assms(4) p hit
    by (cases "List.find (template_matches ws' k') (db_templates d)")
      (auto simp: template_map_def found assms(3) template_matches_def)
qed

lemma template_map_insert:
  assumes "template_map d (xr_workspace r, xr_key r) = None"
  shows "template_map (d\<lparr>db_templates := db_templates d @ [r]\<rparr>) =
    (template_map d)((xr_workspace r, xr_key r) \<mapsto> scan_template_record r)"
proof (rule ext)
  fix p :: "workspace_id \<times> string"
  obtain ws' k' where p: "p = (ws', k')" by (cases p)
  have new: "template_matches ws' k' r \<longleftrightarrow> (ws', k') = (xr_workspace r, xr_key r)"
    by (auto simp: template_matches_def)
  show "template_map (d\<lparr>db_templates := db_templates d @ [r]\<rparr>) p =
      ((template_map d)((xr_workspace r, xr_key r) \<mapsto> scan_template_record r)) p"
    using assms p new by (cases "(ws', k') = (xr_workspace r, xr_key r)")
      (simp_all add: template_map_def find_snoc split: option.splits)
qed

lemma template_record_by_key_Inr:
  "template_record_by_key ws k w = (Inr r, w') \<Longrightarrow> r = template_map (db w) (ws, trim_space k) \<and> db w' = db w"
  unfolding template_record_by_key_def bind_io_Inr
  by (elim exE conjE, drule select_row_Inr) (simp add: template_map_def)

lemma stored_record_Inr:
  assumes "stored_record ws k w = (Inr (c, r), w')"
  shows "c \<and> template_map (db w) (ws, trim_space k) = Some r \<and> db w' = db w"
proof -
  from assms obtain x w1 where x: "template_record_by_key ws k w = (Inr x, w1)"
    and rest: "(case x of None \<Rightarrow> fail (Sentinel ErrRecordNotFound) | Some r \<Rightarrow> commit_with r) w1 = (Inr (c, r), w')"
    by (auto simp: stored_record_def bind_io_Inr)
  from template_record_by_key_Inr [OF x] rest show ?thesis unfolding some_or_fail_Inr by auto
qed

lemma current_record_Inr:
  assumes "current_record ws k e w = (Inr r, w')"
  shows "template_map (db w) (ws, trim_space k) = Some r \<and> (e = [] \<or> tr_updated r = e) \<and> db w' = db w"
proof -
  from assms obtain x w1 where x: "template_record_by_key ws k w = (Inr x, w1)"
    and rest: "(case x of None \<Rightarrow> fail (Sentinel ErrRecordNotFound)
      | Some r \<Rightarrow> guard_io (e \<noteq> [] \<and> tr_updated r \<noteq> e) (Sentinel ErrRecordConflict) (ret r)) w1 = (Inr r, w')"
    by (auto simp: current_record_def bind_io_Inr)
  from template_record_by_key_Inr [OF x] rest show ?thesis unfolding some_or_fail_Inr by (auto simp: guard_io_Inr)
qed

section \<open>What the operations do\<close>

text \<open>The record a draft is saved to, new or changed.\<close>

definition drafted :: "string \<Rightarrow> template \<Rightarrow> string \<Rightarrow> template_record option \<Rightarrow> template_record" where
  "drafted now v actor old = (case old of
     None \<Rightarrow> \<lparr>tr_key = te_key v, tr_draft = Some v, tr_published = None, tr_version = 0,
       tr_status = ''active'', tr_updated_by = actor, tr_created = now, tr_updated = now\<rparr>
   | Some r \<Rightarrow> r\<lparr>tr_draft := Some v, tr_status := ''active'', tr_updated_by := actor, tr_updated := now\<rparr>)"

definition published_as :: "string \<Rightarrow> template \<Rightarrow> string \<Rightarrow> template_record \<Rightarrow> template_record" where
  "published_as now v actor r = r\<lparr>tr_draft := None, tr_published := Some v, tr_version := te_version v,
     tr_status := ''active'', tr_updated_by := actor, tr_updated := now\<rparr>"

definition disabled_as :: "string \<Rightarrow> string \<Rightarrow> template_record \<Rightarrow> template_record" where
  "disabled_as now actor r = r\<lparr>tr_status := ''disabled'', tr_updated_by := actor, tr_updated := now\<rparr>"

text \<open>\<open>unchanged_since expected old\<close>: the optimistic check.\<close>

definition unchanged_since :: "string \<Rightarrow> template_record option \<Rightarrow> bool" where
  "unchanged_since expected old \<longleftrightarrow> expected = [] \<or> (\<exists>r. old = Some r \<and> tr_updated r = expected)"

definition draft_effect ::
  "workspace_id \<Rightarrow> string \<Rightarrow> template \<Rightarrow> string \<Rightarrow> string \<Rightarrow> database \<Rightarrow> template_record \<Rightarrow> database \<Rightarrow> bool" where
  "draft_effect ws now v expected actor d rec d' \<longleftrightarrow>
     unchanged_since expected (template_map d (ws, te_key v)) \<and>
     rec = drafted now v actor (template_map d (ws, te_key v)) \<and>
     template_map d' = (template_map d)((ws, te_key v) \<mapsto> rec) \<and>
     (\<exists>ts. d' = d\<lparr>db_templates := ts\<rparr>)"

definition publish_effect ::
  "workspace_id \<Rightarrow> string \<Rightarrow> template \<Rightarrow> string \<Rightarrow> string \<Rightarrow> database \<Rightarrow> template_record \<Rightarrow> database \<Rightarrow> bool" where
  "publish_effect ws now v expected actor d rec d' \<longleftrightarrow>
     (\<exists>old. template_map d (ws, te_key v) = Some old \<and> unchanged_since expected (Some old) \<and>
        rec = published_as now v actor old) \<and>
     template_map d' = (template_map d)((ws, te_key v) \<mapsto> rec) \<and>
     db_versions d' = db_versions d @ [new_version_row ws v actor now] \<and>
     \<not> list_ex (version_clash (new_version_row ws v actor now)) (db_versions d) \<and>
     (\<exists>ts vs. d' = d\<lparr>db_templates := ts, db_versions := vs\<rparr>)"

definition disable_effect ::
  "workspace_id \<Rightarrow> string \<Rightarrow> string \<Rightarrow> string \<Rightarrow> string \<Rightarrow> database \<Rightarrow> template_record \<Rightarrow> database \<Rightarrow> bool" where
  "disable_effect ws now k expected actor d rec d' \<longleftrightarrow>
     (\<exists>old. template_map d (ws, k) = Some old \<and> unchanged_since expected (Some old) \<and>
        rec = disabled_as now actor old) \<and>
     template_map d' = (template_map d)((ws, k) \<mapsto> rec) \<and>
     (\<exists>ts. d' = d\<lparr>db_templates := ts\<rparr>)"

lemma save_draft_body_effect:
  assumes "save_draft_body ws now v expected actor w = (Inr (c, rec), w')" "trim_space (te_key v) = te_key v"
  shows "c \<and> draft_effect ws now v expected actor (db w) rec (db w')"
proof -
  from assms obtain old w1 w2 where old: "old = template_map (db w) (ws, te_key v)" "db w1 = db w"
    and step: "(case old of
        None \<Rightarrow> guard_io (expected \<noteq> []) (Sentinel ErrRecordConflict)
          (wrapping ''insert notification template draft''
            (insert_template ws (new_template_row ws (te_key v) (Some v) None 0 actor now)))
      | Some r \<Rightarrow> guard_io (expected \<noteq> [] \<and> tr_updated r \<noteq> expected) (Sentinel ErrRecordConflict)
          (bind_io (wrapping ''update notification template draft''
            (update_rows templates_table (template_matches ws (te_key v))
              (\<lambda>x. x\<lparr>xr_draft := Some v, xr_status := ''active'', xr_updated_by := actor, xr_updated := now\<rparr>)))
           (\<lambda>count. guard_io (count \<noteq> 1) (Sentinel ErrRecordConflict) (ret ())))) w1 = (Inr (), w2)"
    and last: "c" "template_map (db w2) (ws, te_key v) = Some rec" "db w' = db w2"
    by (auto simp: save_draft_body_def bind_io_Inr dest!: template_record_by_key_Inr stored_record_Inr)
  have "unchanged_since expected old \<and> (\<exists>ts. db w2 = (db w)\<lparr>db_templates := ts\<rparr>) \<and>
      template_map (db w2) = (template_map (db w))((ws, te_key v) \<mapsto> drafted now v actor old)"
  proof (cases old)
    case None
    with step old have e: "expected = []" and d: "db w2 = (db w)\<lparr>db_templates := db_templates (db w) @
        [new_template_row ws (te_key v) (Some v) None 0 actor now]\<rparr>"
      by (auto simp: guard_io_Inr wrapping_Inr insert_template_def dest!: workspace_insert_Inr)
    have "template_map (db w2) = (template_map (db w))((ws, te_key v) \<mapsto> drafted now v actor old)"
      using template_map_insert [of "db w" "new_template_row ws (te_key v) (Some v) None 0 actor now"] None old
      by (simp add: d new_template_row_def scan_template_record_def drafted_def)
    with e d show ?thesis by (auto simp: unchanged_since_def)
  next
    case (Some r)
    let ?f = "\<lambda>x. x\<lparr>xr_draft := Some v, xr_status := ''active'', xr_updated_by := actor, xr_updated := now\<rparr>"
    from Some step old have e: "expected = [] \<or> tr_updated r = expected"
      and d: "db w2 = (db w)\<lparr>db_templates := update_where (template_matches ws (te_key v)) ?f (db_templates (db w))\<rparr>"
      by (auto simp: guard_io_Inr wrapping_Inr bind_io_Inr dest!: update_rows_Inr)
    have "template_map (db w2) = (template_map (db w))((ws, te_key v) \<mapsto> drafted now v actor old)"
      unfolding d Some drafted_def option.case
      by (rule template_map_update) (use Some old in \<open>simp_all add: scan_template_record_def\<close>)
    with e d Some show ?thesis by (auto simp: unchanged_since_def)
  qed
  with last old show ?thesis by (simp add: draft_effect_def)
qed

lemma publish_body_effect:
  assumes "publish_body ws now v expected actor w = (Inr (c, rec), w')" "trim_space (te_key v) = te_key v"
  shows "c \<and> publish_effect ws now v expected actor (db w) rec (db w')"
proof -
  let ?f = "\<lambda>x. x\<lparr>xr_draft := None, xr_published := Some v, xr_version := te_version v,
            xr_status := ''active'', xr_updated_by := actor, xr_updated := now\<rparr>"
  from assms obtain old w1 n w2 w3 where c: "current_record ws (te_key v) expected w = (Inr old, w1)"
    and u: "update_rows templates_table (template_matches ws (te_key v)) ?f w1 = (Inr n, w2)"
    and v: "insert_template_version ws v actor now w2 = (Inr (), w3)"
    and s: "stored_record ws (te_key v) w3 = (Inr (c, rec), w')"
    by (auto simp: publish_body_def bind_io_Inr guard_io_Inr wrapping_Inr)
  from current_record_Inr [OF c] assms(2) have old: "template_map (db w) (ws, te_key v) = Some old"
      "expected = [] \<or> tr_updated old = expected" "db w1 = db w" by simp_all
  from update_rows_Inr [OF u] old(3)
  have d: "db w2 = (db w)\<lparr>db_templates := update_where (template_matches ws (te_key v)) ?f (db_templates (db w))\<rparr>"
    by simp
  from stored_record_Inr [OF s] assms(2) have last: "c" "template_map (db w3) (ws, te_key v) = Some rec" "db w' = db w3"
    by simp_all
  from v have v: "\<not> list_ex (version_clash (new_version_row ws v actor now)) (db_versions (db w2))"
      "db w3 = (db w2)\<lparr>db_versions := db_versions (db w2) @ [new_version_row ws v actor now]\<rparr>"
    by (auto simp: insert_template_version_def wrapping_Inr dest!: workspace_insert_Inr)
  have "template_map (db w2) = (template_map (db w))((ws, te_key v) \<mapsto> published_as now v actor old)"
    unfolding d by (rule template_map_update) (use old in \<open>simp_all add: scan_template_record_def published_as_def\<close>)
  with old last v d show ?thesis by (auto simp: publish_effect_def unchanged_since_def)
qed

lemma disable_body_effect:
  assumes "disable_body ws now k expected actor w = (Inr (c, rec), w')" "trim_space k = k"
  shows "c \<and> disable_effect ws now k expected actor (db w) rec (db w')"
proof -
  let ?f = "\<lambda>x. x\<lparr>xr_status := ''disabled'', xr_updated_by := actor, xr_updated := now\<rparr>"
  from assms obtain old w1 n w2 found w3 where c: "current_record ws k expected w = (Inr old, w1)"
    and u: "update_rows templates_table (template_matches ws k) ?f w1 = (Inr n, w2)"
    and f: "template_record_by_key ws k w2 = (Inr found, w3)"
    and last: "(case found of None \<Rightarrow> leave_with empty_record | Some r \<Rightarrow> commit_with r) w3 = (Inr (c, rec), w')"
    by (auto simp: disable_body_def bind_io_Inr guard_io_Inr wrapping_Inr)
  from current_record_Inr [OF c] assms(2) have old: "template_map (db w) (ws, k) = Some old"
      "expected = [] \<or> tr_updated old = expected" "db w1 = db w" by simp_all
  from update_rows_Inr [OF u] old(3)
  have d: "db w2 = (db w)\<lparr>db_templates := update_where (template_matches ws k) ?f (db_templates (db w))\<rparr>"
    by simp
  from template_record_by_key_Inr [OF f] assms(2) have found: "found = template_map (db w2) (ws, k)" "db w3 = db w2"
    by simp_all
  have "template_map (db w2) = (template_map (db w))((ws, k) \<mapsto> disabled_as now actor old)"
    unfolding d by (rule template_map_update) (use old in \<open>simp_all add: scan_template_record_def disabled_as_def\<close>)
  with old last found d show ?thesis by (auto simp: disable_effect_def unchanged_since_def)
qed

lemma seed_body_effect:
  assumes "seed_body ws now v w = (Inr (c, u), w')"
  shows "if c then template_map (db w) (ws, te_key v) = None \<and>
      template_map (db w') = (template_map (db w))((ws, te_key v) \<mapsto>
        published_as (timestamp now) v ''manifest'' (drafted (timestamp now) v ''manifest'' None)) \<and>
      db_versions (db w') = db_versions (db w) @ [new_version_row ws v ''manifest'' (timestamp now)] \<and>
      (\<exists>ts vs. db w' = (db w)\<lparr>db_templates := ts, db_versions := vs\<rparr>)
    else db w' = db w"
proof -
  let ?r = "new_template_row ws (te_key v) None (Some v) (te_version v) ''manifest'' (timestamp now)"
  from assms obtain n w1 where n: "count_rows templates_table (template_matches ws (te_key v)) w = (Inr n, w1)"
    and rest: "(if 0 < n then leave_with () else
       bind_io (wrapping ''insert notification template seed'' (insert_template ws ?r)) (\<lambda>_.
       bind_io (insert_template_version ws v ''manifest'' (timestamp now)) (\<lambda>_. commit_with ()))) w1 = (Inr (c, u), w')"
    by (auto simp: seed_body_def bind_io_Inr wrapping_Inr)
  from count_rows_Inr [OF n] have d1: "db w1 = db w"
    and n0: "\<not> 0 < n \<Longrightarrow> template_map (db w) (ws, te_key v) = None"
    by (auto simp: template_map_def filter_empty_conv find_None_iff)
  show ?thesis
  proof (cases "0 < n")
    case True
    with rest d1 show ?thesis by simp
  next
    case False
    with rest obtain w2 where i: "insert_template ws ?r w1 = (Inr (), w2)"
      and v: "insert_template_version ws v ''manifest'' (timestamp now) w2 = (Inr (), w')" and c: c
      by (auto simp: bind_io_Inr wrapping_Inr)
    from i d1 have d2: "db w2 = (db w)\<lparr>db_templates := db_templates (db w) @ [?r]\<rparr>"
      by (auto simp: insert_template_def dest!: workspace_insert_Inr)
    from v have d3: "db w' = (db w2)\<lparr>db_versions := db_versions (db w2) @ [new_version_row ws v ''manifest'' (timestamp now)]\<rparr>"
      by (auto simp: insert_template_version_def wrapping_Inr dest!: workspace_insert_Inr)
    have "template_map (db w2) = (template_map (db w))((ws, te_key v) \<mapsto> scan_template_record ?r)"
      using template_map_insert [of "db w" ?r] n0 False by (simp add: d2 new_template_row_def)
    with False n0 c d2 d3 show ?thesis
      by (auto simp: new_template_row_def scan_template_record_def published_as_def drafted_def)
  qed
qed

section \<open>Refinement\<close>

lemma publish_template_effect:
  assumes "publish_template ws now value expected actor w = (r, w')"
  shows "(\<exists>rec. publish_effect ws (timestamp now) (as_published (value\<lparr>te_key := trim_space (te_key value)\<rparr>))
            expected (trim_space actor) (db w) rec (db w') \<and> (r = Inr rec \<or> r = Inl DriverError)) \<or>
    db w' = db w \<and> (\<exists>e. r = Inl e)"
proof -
  let ?v = "as_published (value\<lparr>te_key := trim_space (te_key value)\<rparr>)"
  show ?thesis
  proof (cases "trim_space (te_key value) = [] \<or> te_version value < 1 \<or> trim_space actor = []")
    case True
    with assms show ?thesis by (simp add: publish_template_def Let_def guard_io_def)
  next
    case False
    with assms have t: "transaction (publish_body ws (timestamp now) ?v expected (trim_space actor)) w = (r, w')"
      by (simp add: publish_template_def Let_def guard_io_def)
    have "c \<and> publish_effect ws (timestamp now) ?v expected (trim_space actor) (db w0) a (db w1)"
      if "publish_body ws (timestamp now) ?v expected (trim_space actor) w0 = (Inr (c, a), w1)" for w0 c a w1
      using publish_body_effect [OF that] by simp
    from transaction_commits [where R = "publish_effect ws (timestamp now) ?v expected (trim_space actor)", OF t this]
    show ?thesis by blast
  qed
qed

lemma save_draft_effect:
  assumes "save_draft ws now value expected actor w = (r, w')"
  shows "(\<exists>rec. draft_effect ws (timestamp now) (value\<lparr>te_key := trim_space (te_key value)\<rparr>)
            expected (trim_space actor) (db w) rec (db w') \<and> (r = Inr rec \<or> r = Inl DriverError)) \<or>
    db w' = db w \<and> (\<exists>e. r = Inl e)"
proof -
  let ?v = "value\<lparr>te_key := trim_space (te_key value)\<rparr>"
  show ?thesis
  proof (cases "trim_space (te_key value) = [] \<or> trim_space actor = []")
    case True
    with assms show ?thesis by (simp add: save_draft_def Let_def guard_io_def)
  next
    case False
    with assms have t: "transaction (save_draft_body ws (timestamp now) ?v expected (trim_space actor)) w = (r, w')"
      by (simp add: save_draft_def Let_def guard_io_def)
    have "c \<and> draft_effect ws (timestamp now) ?v expected (trim_space actor) (db w0) a (db w1)"
      if "save_draft_body ws (timestamp now) ?v expected (trim_space actor) w0 = (Inr (c, a), w1)" for w0 c a w1
      using save_draft_body_effect [OF that] by simp
    from transaction_commits [where R = "draft_effect ws (timestamp now) ?v expected (trim_space actor)", OF t this]
    show ?thesis by blast
  qed
qed

text \<open>C15: \<open>Publish\<close> is one guarded update of the record map together with one new immutable
  version whose number was free, or nothing: when it reports success both are done, and an
  error leaves both undone, unless the driver lost the reply of the commit. The published
  content carries the status, the content hash and the version the store pinned it with, the
  draft is cleared, and a publisher that read an older state of the record is refused.\<close>

theorem publish_refines:
  assumes "publish_template ws now value expected actor w = (r, w')"
  shows "(\<exists>rec. publish_effect ws (timestamp now) (as_published (value\<lparr>te_key := trim_space (te_key value)\<rparr>))
            expected (trim_space actor) (db w) rec (db w') \<and> (r = Inr rec \<or> r = Inl DriverError)) \<or>
    db w' = db w \<and> (\<exists>e. r = Inl e)"
  by (rule publish_template_effect [OF assms])

text \<open>\<open>SaveDraft\<close> is one guarded update of the record map: it creates the record or
  replaces its draft, leaves the published content, the version number and every other
  record alone, and refuses a writer whose \<open>expectedUpdatedAt\<close> is not the record's.\<close>

theorem save_draft_refines:
  assumes "save_draft ws now value expected actor w = (r, w')"
  shows "(\<exists>rec. draft_effect ws (timestamp now) (value\<lparr>te_key := trim_space (te_key value)\<rparr>)
            expected (trim_space actor) (db w) rec (db w') \<and> (r = Inr rec \<or> r = Inl DriverError)) \<or>
    db w' = db w \<and> (\<exists>e. r = Inl e)"
  by (rule save_draft_effect [OF assms])

section \<open>Published contents and their versions\<close>

text \<open>A record and its contents carry the trimmed key they are stored under.\<close>

definition keyed :: "database \<Rightarrow> bool" where
  "keyed d \<longleftrightarrow> (\<forall>ws k rec t. template_map d (ws, k) = Some rec \<longrightarrow> trim_space k = k \<and>
     (tr_draft rec = Some t \<or> tr_published rec = Some t \<longrightarrow> te_key t = k))"

definition pinned :: "database \<Rightarrow> bool" where
  "pinned d \<longleftrightarrow> keyed d \<and> (\<forall>ws k rec t. template_map d (ws, k) = Some rec \<longrightarrow> tr_published rec = Some t \<longrightarrow>
     te_version t = tr_version rec \<and> 1 \<le> tr_version rec \<and> te_status t = ''published'' \<and>
     te_hash t = content_hash t \<and>
     (\<exists>v \<in> set (db_versions d). vr_workspace v = ws \<and> vr_template_key v = k \<and> vr_version v = tr_version rec \<and>
        vr_payload v = t \<and> vr_hash v = content_hash t))"

datatype template_op = SyncPublished instant "template list"
  | SaveDraft instant template string string
  | PublishTemplate instant template string string
  | DisableTemplate instant string string string

definition run_template_op :: "workspace_id \<Rightarrow> template_op \<Rightarrow> unit sql" where
  "run_template_op ws op = (case op of
     SyncPublished now ts \<Rightarrow> sync_published ws now ts
   | SaveDraft now v expected actor \<Rightarrow> bind_io (save_draft ws now v expected actor) (\<lambda>_. ret ())
   | PublishTemplate now v expected actor \<Rightarrow> bind_io (publish_template ws now v expected actor) (\<lambda>_. ret ())
   | DisableTemplate now k expected actor \<Rightarrow> bind_io (disable_template ws now k expected actor) (\<lambda>_. ret ()))"

definition run_template_ops :: "(workspace_id \<times> template_op) list \<Rightarrow> world \<Rightarrow> world" where
  "run_template_ops = fold (\<lambda>(ws, op) w. snd (run_template_op ws op w))"

text \<open>The invariant and the history of versions together.\<close>

definition pinned_since :: "version_row list \<Rightarrow> database \<Rightarrow> bool" where
  "pinned_since vs d \<longleftrightarrow> pinned d \<and> prefix vs (db_versions d)"

lemma preserves_committed:
  assumes "\<And>w a w'. P (db w) \<Longrightarrow> m w = (Inr (True, a), w') \<Longrightarrow> P (db w')"
  shows "preserves P (transaction m)"
proof (rule preservesI)
  fix w r w' assume p: "P (db w)" and t: "transaction m w = (r, w')"
  have "\<And>w0 a w1. m w0 = (Inr (True, a), w1) \<Longrightarrow> P (db w0) \<longrightarrow> P (db w1)"
    using assms by blast
  then show "P (db w')"
    using transaction_related [where R = "\<lambda>d a d'. P d \<longrightarrow> P d'", OF t] p by auto
qed

text \<open>An update of one record that keeps its published part, and one that publishes.\<close>

lemma keyed_update:
  assumes "keyed d" "template_map d' = (template_map d)((ws, k) \<mapsto> rec)" "trim_space k = k"
    and "\<And>t. tr_draft rec = Some t \<or> tr_published rec = Some t \<Longrightarrow> te_key t = k"
  shows "keyed d'"
  unfolding keyed_def
proof (intro allI impI)
  fix ws' k' rec' t assume m: "template_map d' (ws', k') = Some rec'"
  show "trim_space k' = k' \<and> (tr_draft rec' = Some t \<or> tr_published rec' = Some t \<longrightarrow> te_key t = k')"
  proof (cases "(ws', k') = (ws, k)")
    case True
    with m assms(2-4) show ?thesis by auto
  next
    case False
    with m assms(2) have "template_map d (ws', k') = Some rec'" by (auto split: if_splits)
    with assms(1) show ?thesis unfolding keyed_def by blast
  qed
qed

lemma keyed_record:
  "keyed d \<Longrightarrow> template_map d (ws, k) = Some rec \<Longrightarrow> trim_space k = k \<and>
   (\<forall>t. tr_draft rec = Some t \<or> tr_published rec = Some t \<longrightarrow> te_key t = k)"
  unfolding keyed_def by blast

lemma pinned_keep:
  assumes "pinned_since vs d" "template_map d' = (template_map d)((ws, k) \<mapsto> rec)" "db_versions d' = db_versions d"
    and "tr_published rec = None \<or> (\<exists>old. template_map d (ws, k) = Some old \<and> tr_published rec = tr_published old \<and>
      tr_version rec = tr_version old)"
    and "trim_space k = k" "\<And>t. tr_draft rec = Some t \<Longrightarrow> te_key t = k"
  shows "pinned_since vs d'"
proof -
  have k: "keyed d" using assms(1) by (simp add: pinned_since_def pinned_def)
  have "te_key t = k" if "tr_published rec = Some t" for t
    using assms(4) that keyed_record [OF k] by auto
  with assms(6) have "keyed d'" by (intro keyed_update [OF k assms(2,5)]) auto
  with assms(1-4) show ?thesis unfolding pinned_since_def pinned_def
    by (auto simp: fun_upd_apply split: if_splits)
qed

lemma pinned_publish:
  assumes "pinned_since vs d" "template_map d' = (template_map d)((ws, te_key v) \<mapsto> rec)"
    and "db_versions d' = db_versions d @ [new_version_row ws v actor now]"
    and "tr_published rec = Some v" "tr_version rec = te_version v" "1 \<le> te_version v"
    and "te_status v = ''published''" "te_hash v = content_hash v" "tr_draft rec = None"
    and "trim_space (te_key v) = te_key v"
  shows "pinned_since vs d'"
proof -
  have "keyed d'"
    using assms(1,4,9) by (intro keyed_update [OF _ assms(2,10)]) (auto simp: pinned_since_def pinned_def)
  moreover have "te_version t = tr_version rec' \<and> 1 \<le> tr_version rec' \<and> te_status t = ''published'' \<and>
       te_hash t = content_hash t \<and> (\<exists>v \<in> set (db_versions d'). vr_workspace v = ws' \<and> vr_template_key v = k \<and>
         vr_version v = tr_version rec' \<and> vr_payload v = t \<and> vr_hash v = content_hash t)"
    if m: "template_map d' (ws', k) = Some rec'" and t: "tr_published rec' = Some t" for ws' k rec' t
  proof (cases "(ws', k) = (ws, te_key v)")
    case True
    with m t assms show ?thesis by (auto simp: new_version_row_def)
  next
    case False
    with m assms(2) have "template_map d (ws', k) = Some rec'" by (auto split: if_splits)
    with assms(1,3) t show ?thesis unfolding pinned_since_def pinned_def by auto
  qed
  ultimately have "pinned d'" unfolding pinned_def by blast
  with assms(1,3) show ?thesis by (simp add: pinned_since_def)
qed

lemma seed_pinned:
  assumes "te_status v = ''published''" "te_hash v = content_hash v" "1 \<le> te_version v"
    and "trim_space (te_key v) = te_key v"
  shows "preserves (pinned_since vs) (seed_published_template ws now v)"
  unfolding seed_published_template_def
proof (rule preserves_committed)
  fix w a w' assume p: "pinned_since vs (db w)" and b: "seed_body ws now v w = (Inr (True, a), w')"
  from seed_body_effect [OF b] show "pinned_since vs (db w')"
    by (intro pinned_publish [OF p, of _ _ v]) (use assms in \<open>auto simp: published_as_def drafted_def\<close>)
qed

lemma save_draft_pinned: "preserves (pinned_since vs) (save_draft ws now v expected actor)"
proof (rule preservesI)
  fix w r w' assume p: "pinned_since vs (db w)" and s: "save_draft ws now v expected actor w = (r, w')"
  let ?v = "v\<lparr>te_key := trim_space (te_key v)\<rparr>"
  show "pinned_since vs (db w')"
  proof (cases "db w' = db w")
    case False
    with save_draft_effect [OF s] obtain rec where
      "draft_effect ws (timestamp now) ?v expected (trim_space actor) (db w) rec (db w')" by auto
    then show ?thesis
      by (intro pinned_keep [OF p, of _ ws "trim_space (te_key v)" rec])
        (auto simp: draft_effect_def drafted_def split: option.splits)
  qed (use p in simp)
qed

lemma publish_pinned: "preserves (pinned_since vs) (publish_template ws now v expected actor)"
proof (rule preservesI)
  fix w r w' assume p: "pinned_since vs (db w)" and s: "publish_template ws now v expected actor w = (r, w')"
  let ?v = "as_published (v\<lparr>te_key := trim_space (te_key v)\<rparr>)"
  show "pinned_since vs (db w')"
  proof (cases "db w' = db w")
    case False
    with s have "1 \<le> te_version v"
      by (auto simp: publish_template_def Let_def guard_io_def split: if_splits)
    from False publish_template_effect [OF s] obtain rec where
      "publish_effect ws (timestamp now) ?v expected (trim_space actor) (db w) rec (db w')" by auto
    with \<open>1 \<le> te_version v\<close> show ?thesis
      by (intro pinned_publish [OF p, of _ ws ?v rec]) (auto simp: publish_effect_def published_as_def)
  qed (use p in simp)
qed

lemma disable_pinned: "preserves (pinned_since vs) (disable_template ws now k expected actor)"
  unfolding disable_template_def Let_def
proof (intro preserves_guard preserves_committed)
  fix w a w'
  assume p: "pinned_since vs (db w)"
    and b: "disable_body ws (timestamp now) (trim_space k) expected (trim_space actor) w = (Inr (True, a), w')"
  have k: "keyed (db w)" using p by (simp add: pinned_since_def pinned_def)
  from disable_body_effect [OF b] keyed_record [OF k] show "pinned_since vs (db w')"
    by (intro pinned_keep [OF p, of _ ws "trim_space k" a]) (auto simp: disable_effect_def disabled_as_def)
qed

lemma template_op_pinned: "preserves (pinned_since vs) (run_template_op ws op)"
proof (cases op)
  case (SyncPublished now ts)
  have "preserves (pinned_since vs) (sync_published ws now ts)"
    unfolding sync_published_def Let_def
  proof (rule preserves_for_each)
    fix v
    show "preserves (pinned_since vs) (guard_io (trim_space (te_key v) = [] \<or> te_version v < 1)
        (ErrorText ''notification published template identity is required'')
        (seed_published_template ws now (as_published (v\<lparr>te_key := trim_space (te_key v)\<rparr>))))"
      by (cases "te_version v < 1") (auto simp: guard_io_def intro: seed_pinned preserves_basic)
  qed
  with SyncPublished show ?thesis by (simp add: run_template_op_def)
qed (auto simp: run_template_op_def intro!: preserves_intros save_draft_pinned publish_pinned disable_pinned)

text \<open>C16: At every point of every history of store operations, in any workspaces and whatever
  the driver does, the published content of a record is the content of the version row with
  the record's version number, with the content hash of that very
  content; drafts and published contents carry the key of their record; and the versions already
  there are never changed or removed.\<close>

theorem published_content_pinned:
  assumes "pinned (db w)"
  shows "pinned (db (run_template_ops ops w)) \<and>
    prefix (db_versions (db w)) (db_versions (db (run_template_ops ops w)))"
proof -
  have "pinned_since (db_versions (db w)) (db (run_template_ops ops w'))"
    if "pinned_since (db_versions (db w)) (db w')" for w'
    using that
  proof (induction ops arbitrary: w')
    case (Cons x ops)
    obtain ws op where x: "x = (ws, op)" by (cases x)
    have "pinned_since (db_versions (db w)) (db (snd (run_template_op ws op w')))"
      using template_op_pinned preservesD [where P = "pinned_since (db_versions (db w))"] Cons.prems
      by (metis prod.collapse)
    with Cons.IH show ?case by (simp add: x run_template_ops_def)
  qed (simp add: run_template_ops_def)
  with assms show ?thesis by (auto simp: pinned_since_def)
qed

section \<open>Witnesses\<close>

definition sample_content :: content where
  "sample_content = \<lparr>ct_subject = ''Order {{order}}'', ct_title = [], ct_text = ''Order {{order}} is done'',
     ct_html = [], ct_markdown = [], ct_facts = [], ct_actions = [], ct_provider = None\<rparr>"

definition sample_template :: template where
  "sample_template = \<lparr>te_key = ''order.email'', te_name = ''Order'', te_channel = ''email'', te_provider = [],
     te_status = ''draft'', te_version = 1, te_default_locale = ''en-US'',
     te_variables = [\<lparr>tv_key = ''order'', tv_type = ''text'', tv_required = True\<rparr>], te_fallbacks = [],
     te_locales = [(''en-US'', sample_content)], te_hash = []\<rparr>"

definition drafted_row :: template_row where
  "drafted_row = new_template_row ''ws'' ''order.email'' (Some sample_template) None 0 ''alice'' ''2026-01-01''"

definition drafted_database :: database where
  "drafted_database = empty_database\<lparr>db_templates := [drafted_row]\<rparr>"

lemma template_words [simp]:
  "trim_space ''order.email'' = ''order.email''" "trim_space ''alice'' = ''alice''" "trim_space ''ws'' = ''ws''"
  "te_key sample_template = ''order.email''" "te_version sample_template = 1"
  "te_status sample_template = ''draft''" "te_fallbacks sample_template = []" "te_hash sample_template = []"
  "te_variables sample_template = [\<lparr>tv_key = ''order'', tv_type = ''text'', tv_required = True\<rparr>]"
  "te_locales sample_template = [(''en-US'', sample_content)]" "te_default_locale sample_template = ''en-US''"
  "te_channel sample_template = ''email''" "te_provider sample_template = []" "te_name sample_template = ''Order''"
  by (simp_all add: trim_space_plain plain_char_def sample_template_def)

lemma drafted_row_fields [simp]:
  "xr_key drafted_row = ''order.email''" "xr_draft drafted_row = Some sample_template"
  "xr_published drafted_row = None" "xr_version drafted_row = 0" "xr_workspace drafted_row = ''ws''"
  "xr_updated drafted_row = ''2026-01-01''" "xr_status drafted_row = ''active''"
  by (simp_all add: drafted_row_def new_template_row_def)

lemma drafted_tables [simp]:
  "db_templates drafted_database = [drafted_row]" "db_versions drafted_database = []"
  "db_requests drafted_database = []" "db_locks drafted_database = []"
  by (simp_all add: drafted_database_def empty_database_def)

lemma sample_publish_run:
  "\<exists>rec w'. publish_template ''ws'' now sample_template ''2026-01-01'' ''alice'' (calm_world drafted_database) =
    (Inr rec, w')"
  by (simp add: publish_template_def publish_body_def statement_runs Let_def current_record_def
      stored_record_def template_record_by_key_def template_matches_def insert_template_version_def
      new_version_row_def version_clash_def scan_template_record_def)

lemma publish_refines_witness:
  "\<exists>rec d'. publish_effect ''ws'' (timestamp 0) (as_published sample_template) ''2026-01-01'' ''alice''
     drafted_database rec d'"
proof -
  obtain rec w' where run: "publish_template ''ws'' 0 sample_template ''2026-01-01'' ''alice''
      (calm_world drafted_database) = (Inr rec, w')"
    using sample_publish_run by blast
  have same: "sample_template\<lparr>te_key := ''order.email''\<rparr> = sample_template"
    by (simp add: sample_template_def)
  from publish_refines [OF run] same show ?thesis by auto
qed

lemma save_draft_refines_witness:
  "save_draft ''ws'' 0 sample_template ''stale'' ''bob'' (calm_world drafted_database) =
     (Inl (Sentinel ErrRecordConflict), calm_world drafted_database) \<and>
   (\<exists>rec d'. draft_effect ''ws'' (timestamp 0) sample_template [] ''alice'' drafted_database rec d')"
proof -
  have stale: "trim_space ''bob'' = ''bob''" by (simp add: trim_space_plain plain_char_def)
  have same: "sample_template\<lparr>te_key := ''order.email''\<rparr> = sample_template"
    by (simp add: sample_template_def)
  have "save_draft ''ws'' 0 sample_template ''stale'' ''bob'' (calm_world drafted_database) =
     (Inl (Sentinel ErrRecordConflict), calm_world drafted_database)"
    by (simp add: save_draft_def save_draft_body_def statement_runs Let_def template_record_by_key_def
        template_matches_def scan_template_record_def stale calm_world_def)
  moreover obtain rec w' where run: "save_draft ''ws'' 0 sample_template [] ''alice''
      (calm_world drafted_database) = (Inr rec, w')"
    by (simp add: save_draft_def save_draft_body_def statement_runs Let_def template_record_by_key_def
        template_matches_def scan_template_record_def stored_record_def)
  ultimately show ?thesis using save_draft_refines [OF run] same by auto
qed

lemma published_content_pinned_witness:
  "pinned (db (run_template_ops [(''ws'', PublishTemplate 0 sample_template [] ''alice'')] (calm_world drafted_database)))"
proof -
  have "pinned (db (calm_world drafted_database))"
    by (auto simp: pinned_def keyed_def template_map_def scan_template_record_def template_matches_def split: if_splits)
  from published_content_pinned [OF this] show ?thesis by blast
qed

end
