(* ===== verification/Template_Safety.thy ===== *)
theory Template_Safety
  imports Template_Render Template_Records
begin

text \<open>
  What validation and rendering guarantee: values cannot add markup to an HTML body, a rendered
  notification is pinned to the content it was made from and has a one-line subject, and a
  template that was accepted renders for all values of its variables that hold no braces (and, for dotted tokens, have the
  path).
\<close>

section \<open>Escaping\<close>

definition markup_char :: "char \<Rightarrow> bool" where
  "markup_char c \<longleftrightarrow> c = CHR ''<'' \<or> c = CHR ''>'' \<or> c = CHR 0x22 \<or> c = CHR 0x27"

lemma match_token_consumes:
  assumes "match_token s = Some (n, r)"
  obtains pre where "s = pre @ r" "\<And>c. c \<in> set pre \<Longrightarrow> c = CHR ''{'' \<or> c = CHR ''}'' \<or> token_space c \<or> key_char c"
proof -
  let ?t = "drop 2 s"
  let ?u = "dropWhile token_space ?t"
  let ?v = "dropWhile key_char ?u"
  let ?x = "dropWhile token_space ?v"
  from assms have m: "prefix ''{{'' s" "prefix ''}}'' ?x" "r = drop 2 ?x"
    by (auto simp: match_token_def Let_def split: if_splits)
  then have s: "s = ''{{'' @ ?t" and x: "?x = ''}}'' @ r" by (auto simp: prefix_def)
  have "s = ''{{'' @ takeWhile token_space ?t @ takeWhile key_char ?u @ takeWhile token_space ?v @ ''}}'' @ r"
    by (metis s x takeWhile_dropWhile_id)
  then have e: "s = (''{{'' @ takeWhile token_space ?t @ takeWhile key_char ?u @ takeWhile token_space ?v @ ''}}'') @ r"
    by simp
  show thesis
    by (rule that [OF e]) (auto dest: set_takeWhileD)
qed

lemma markup_not_token:
  "markup_char c \<Longrightarrow> \<not> (c = CHR ''{'' \<or> c = CHR ''}'' \<or> token_space c \<or> key_char c)"
  by (auto simp: markup_char_def token_space_def key_char_def key_start_def less_eq_char_def)

lemma replace_tokens_Nil [simp]: "replace_tokens f [] = []"
  by (simp add: replace_tokens_def)

lemma replace_tokens_Cons: "replace_tokens f (c # cs) = (case match_token (c # cs) of
    Some (n, r) \<Rightarrow> f n @ replace_tokens f r | None \<Rightarrow> c # replace_tokens f cs)"
  by (simp add: replace_tokens_def segments_Cons split: option.splits)

lemma count_list_zero: "c \<notin> set xs \<Longrightarrow> count_list xs c = 0"
  by (simp add: count_list_0_iff)

lemma count_replaced:
  assumes "markup_char c" "\<And>n. c \<notin> set (f n)"
  shows "count_list (replace_tokens f s) c = count_list s c"
proof (induction s rule: segments.induct)
  case (1 s)
  show ?case
  proof (cases s)
    case (Cons d cs)
    show ?thesis
    proof (cases "match_token s")
      case None
      with Cons "1"(1) [OF Cons None] show ?thesis by (simp add: replace_tokens_Cons)
    next
      case (Some p)
      obtain n r where p: "p = (n, r)" by (cases p)
      with Some have m: "match_token s = Some (n, r)" by simp
      then obtain pre where pre: "s = pre @ r" "\<And>c. c \<in> set pre \<Longrightarrow> c = CHR ''{'' \<or> c = CHR ''}'' \<or> token_space c \<or> key_char c"
        by (rule match_token_consumes) blast
      with markup_not_token [OF assms(1)] have "c \<notin> set pre" by blast
      with pre(1) have "count_list s c = count_list r c" by (simp add: count_list_zero)
      moreover have "replace_tokens f s = f n @ replace_tokens f r"
        using m Cons by (simp add: replace_tokens_Cons)
      ultimately show ?thesis
        using "1"(2) [OF Cons Some p [symmetric]] assms(2) by (simp add: count_list_zero)
    qed
  qed simp
qed

text \<open>When a source is rendered with HTML escaping, the result has exactly the angle brackets and quotes of the source.\<close>

lemma escaped_render_keeps_markup:
  assumes "render_restricted source vals True = Inr out" "markup_char c"
  shows "count_list out c = count_list source c"
proof (cases "source = []")
  case True
  with assms(1) show ?thesis by (simp add: render_restricted_def Let_def)
next
  case False
  with assms(1) have "out = replace_tokens (token_text vals True) source"
    by (auto simp: render_restricted_def Let_def split: if_splits)
  moreover have "c \<notin> set (token_text vals True n)" for n
    using assms(2) escape_html_safe by (auto simp: token_text_def markup_char_def split: option.splits)
  ultimately show ?thesis using count_replaced [OF assms(2)] by simp
qed

text \<open>
  What an HTML text stands for: \<open>html_text p s\<close> says that \<open>p\<close> is a text without markup that a browser shows as \<open>s\<close>. An
  ampersand is only there as the beginning of one of the five entities.
\<close>

inductive html_text :: "string \<Rightarrow> string \<Rightarrow> bool" where
  html_empty: "html_text [] []"
| html_plain: "html_text p s \<Longrightarrow> \<not> markup_char c \<Longrightarrow> c \<noteq> CHR ''&'' \<Longrightarrow> html_text (c # p) (c # s)"
| html_entity: "html_text p s \<Longrightarrow> (e, c) \<in> {(''&amp;'', CHR ''&''), (''&lt;'', CHR ''<''), (''&gt;'', CHR ''>''), (''&#34;'', CHR 0x22), (''&#39;'', CHR 0x27)} \<Longrightarrow>
    html_text (e @ p) (c # s)"

lemma html_text_no_markup: "html_text p s \<Longrightarrow> markup_char c \<Longrightarrow> c \<notin> set p"
  by (induction rule: html_text.induct) (auto simp: markup_char_def)

lemma html_text_escaped: "html_text (escape_html s) s"
proof (induction s)
  case (Cons c s)
  have split: "escape_html (c # s) = escape_char c @ escape_html s" by (simp add: escape_html_def)
  show ?case
  proof (cases "markup_char c \<or> c = CHR ''&''")
    case True
    then have "(escape_char c, c) \<in> {(''&amp;'', CHR ''&''), (''&lt;'', CHR ''<''), (''&gt;'', CHR ''>''), (''&#34;'', CHR 0x22), (''&#39;'', CHR 0x27)}"
      by (auto simp: markup_char_def escape_char_def)
    from html_entity [OF Cons this] show ?thesis unfolding split .
  next
    case False
    then have "escape_char c = [c]" by (auto simp: escape_char_def markup_char_def)
    with html_plain [OF Cons] False show ?thesis by (simp add: split)
  qed
qed (simp add: html_empty)

text \<open>The facts and the links an email carries after its body: fixed tags around the texts of the facts, the labels and the addresses.\<close>

definition email_facts :: "fact list \<Rightarrow> string \<Rightarrow> bool" where
  "email_facts fs p \<longleftrightarrow> (if fs = [] then p = [] else \<exists>kvs. list_all2 (\<lambda>f (k, v). html_text k (fa_key f) \<and> html_text v (fa_value f)) fs kvs \<and>
     p = ''<dl data-notification-facts='' @ [CHR 0x22] @ ''true'' @ [CHR 0x22] @ ''>'' @
       concat (map (\<lambda>(k, v). ''<dt><strong>'' @ k @ ''</strong></dt><dd>'' @ v @ ''</dd>'') kvs) @ ''</dl>'')"

definition email_links :: "action list \<Rightarrow> string \<Rightarrow> bool" where
  "email_links acts p \<longleftrightarrow> (if acts = [] then p = [] else \<exists>uls. list_all2 (\<lambda>a (u, l). html_text u (ac_url a) \<and> html_text l (ac_label a)) acts uls \<and>
     p = ''<p data-notification-actions='' @ [CHR 0x22] @ ''true'' @ [CHR 0x22] @ ''>'' @
       concat (map (\<lambda>(u, l). ''<a href='' @ [CHR 0x22] @ u @ [CHR 0x22] @ ''>'' @ l @ ''</a> '') uls) @ ''</p>'')"

lemma facts_html_texts: "email_facts fs (facts_html fs)"
  by (auto simp: email_facts_def facts_html_def quoted_def html_text_escaped list_all2_conv_all_nth comp_def
      intro!: exI [of _ "map (\<lambda>f. (escape_html (fa_key f), escape_html (fa_value f))) fs"])

lemma actions_html_texts: "email_links acts (actions_html acts)"
  by (auto simp: email_links_def actions_html_def quoted_def html_text_escaped list_all2_conv_all_nth comp_def
      intro!: exI [of _ "map (\<lambda>a. (escape_html (ac_url a), escape_html (ac_label a))) acts"])

lemma rendered_field:
  assumes "render_field t part source vals True = Inr out"
  shows "\<exists>texts. out = replace_tokens texts source \<and>
    (\<forall>n \<in> set (token_names source). \<exists>v. resolve_variable_path vals n = Some v \<and> html_text (texts n) (sprint v)) \<and>
    (\<forall>ch. markup_char ch \<longrightarrow> count_list out ch = count_list source ch)"
proof (intro exI [of _ "token_text vals True"] conjI ballI allI impI)
  from assms have run: "render_restricted source vals True = Inr out" by (auto simp: render_field_def split: sum.splits)
  show "out = replace_tokens (token_text vals True) source"
    using run by (cases "source = []") (auto simp: render_restricted_def Let_def split: if_splits)
  show "\<exists>v. resolve_variable_path vals n = Some v \<and> html_text (token_text vals True n) (sprint v)" if n: "n \<in> set (token_names source)" for n
  proof -
    have "source \<noteq> []" using n by (auto simp: token_names_def)
    with run n obtain v where "resolve_variable_path vals n = Some v"
      by (auto simp: render_restricted_def Let_def list_ex_iff split: if_splits)
    then show ?thesis by (simp add: token_text_def html_text_escaped)
  qed
  show "count_list out ch = count_list source ch" if "markup_char ch" for ch
    by (rule escaped_render_keeps_markup [OF run that])
qed

text \<open>C17: Values cannot inject markup into the HTML of a rendered notification. The HTML body is the template's source with an
  escaped text in place of every token: a text that shows the value the token resolves to and holds no angle bracket,
  no quote and no ampersand but those of entities, so the body has exactly the angle brackets and quotes the template
  wrote. The notification's HTML is that body; an email with facts or actions has after it fixed tags around
  escaped facts, labels and addresses, or, when the body is blank, its escaped text with line breaks.\<close>

theorem html_body_escaped:
  assumes "render_content ps t locale c rq vals recipients = Inr r"
  shows "\<exists>body texts. body = replace_tokens texts (ct_html c) \<and>
    (\<forall>n \<in> set (token_names (ct_html c)). \<exists>v. resolve_variable_path vals n = Some v \<and> html_text (texts n) (sprint v)) \<and>
    (\<forall>ch. markup_char ch \<longrightarrow> count_list body ch = count_list (ct_html c) ch) \<and>
    (if te_channel t \<noteq> ''email'' \<or> re_facts r = [] \<and> re_actions r = [] then re_html r = body
     else if trim_space body = [] then \<exists>p. html_text p (re_text r) \<and>
       re_html r = ''<p>'' @ concat (map (\<lambda>ch. if ch = CHR 0x0A then ''<br>'' else [ch]) p) @ ''</p>''
     else \<exists>facts links. email_facts (re_facts r) facts \<and> email_links (re_actions r) links \<and> re_html r = body @ facts @ links)"
proof -
  from assms obtain subject plain html title markdown fs acts provider where
    html: "render_field t ''html'' (ct_html c) vals True = Inr html"
    and r: "r = assemble t locale recipients rq vals subject title plain html markdown fs acts provider"
    by (cases "render_provider_template (ct_provider c) vals")
      (auto simp: render_content_def and_then_Inr split: if_splits)
  note body = rendered_field [OF html]
  have parts: "re_facts r = fs" "re_actions r = acts"
    "re_html r = (if te_channel t = ''email'' then snd (append_portable_email plain html fs acts) else html)"
    "te_channel t = ''email'' \<Longrightarrow> re_text r = fst (append_portable_email plain html fs acts)"
    by (simp_all add: r assemble_def split: prod.splits)
  have rest: "\<exists>facts links. email_facts (re_facts r) facts \<and> email_links (re_actions r) links \<and>
      html @ facts_html (re_facts r) @ actions_html (re_actions r) = html @ facts @ links"
    using facts_html_texts actions_html_texts by blast
  have "if te_channel t \<noteq> ''email'' \<or> re_facts r = [] \<and> re_actions r = [] then re_html r = html
     else if trim_space html = [] then \<exists>p. html_text p (re_text r) \<and>
       re_html r = ''<p>'' @ concat (map (\<lambda>ch. if ch = CHR 0x0A then ''<br>'' else [ch]) p) @ ''</p>''
     else \<exists>facts links. email_facts (re_facts r) facts \<and> email_links (re_actions r) links \<and> re_html r = html @ facts @ links"
  proof (cases "te_channel t \<noteq> ''email'' \<or> re_facts r = [] \<and> re_actions r = []")
    case True
    with parts show ?thesis by (auto simp: append_portable_email_def Let_def)
  next
    case False
    with parts have "re_html r = (if trim_space html = [] then ''<p>'' @ break_lines (escape_html (re_text r)) @ ''</p>''
        else html @ facts_html (re_facts r) @ actions_html (re_actions r))"
      by (auto simp: append_portable_email_def Let_def)
    with False rest html_text_escaped [of "re_text r"] show ?thesis by (auto simp: break_lines_def)
  qed
  with body show ?thesis by blast
qed

section \<open>Declared variables\<close>

lemma validate_variables_keys:
  "validate_variables t vs seen = Inr vars \<Longrightarrow> set (map fst vars) = set (map fst seen) \<union> (trim_space \<circ> tv_key) ` set vs"
  by (induction t vs seen rule: validate_variables.induct) (auto simp: Let_def split: if_splits)

lemma validated_contents:
  assumes "validate_template cs t = None" "(l, c) \<in> set (te_locales t)"
  obtains vars entry where "validate_variables t (te_variables t) [] = Inr vars"
    "validate_content t vars entry (l, c) = None"
proof -
  from assms(1) obtain entry where "validate_contents t entry = None"
    by (auto simp: validate_template_def Let_def first_error_None split: if_splits option.splits)
  then obtain vars where v: "validate_variables t (te_variables t) [] = Inr vars"
    and all: "\<forall>lc \<in> set (te_locales t). validate_content t vars entry lc = None"
    by (auto simp: validate_contents_def first_error_None split: sum.splits option.splits)
  from all assms(2) have "validate_content t vars entry (l, c) = None" by blast
  with v that show thesis by blast
qed

lemma validated_source:
  assumes "validate_template cs t = None" "(l, c) \<in> set (te_locales t)" "source \<in> set (content_sources c)"
  shows "\<not> has_delimiter (replace_tokens (\<lambda>_. []) source)"
    and "\<And>n. n \<in> set (token_names source) \<Longrightarrow> token_root n \<in> (trim_space \<circ> tv_key) ` set (te_variables t)"
proof -
  from validated_contents [OF assms(1,2)] obtain vars entry where
    v: "validate_variables t (te_variables t) [] = Inr vars" and c: "validate_content t vars entry (l, c) = None" by blast
  from c assms(3) have tok: "validate_tokens t l vars source = None"
    by (auto simp: validate_content_def first_error_None simp del: first_error.simps)
  then show "\<not> has_delimiter (replace_tokens (\<lambda>_. []) source)"
    by (auto simp: validate_tokens_def split: if_splits)
  fix n assume "n \<in> set (token_names source)"
  with tok have "map_of vars (token_root n) \<noteq> None"
    by (auto simp: validate_tokens_def first_error_None split: if_splits)
  then have "token_root n \<in> set (map fst vars)" by (simp add: map_of_eq_None_iff)
  with validate_variables_keys [OF v] show "token_root n \<in> (trim_space \<circ> tv_key) ` set (te_variables t)" by simp
qed

text \<open>A name with a dot is never the root of a token: a variable declared under a dotted key
  cannot be referred to.\<close>

lemma dotted_key_unusable: "CHR ''.'' \<in> set k \<Longrightarrow> token_root n \<noteq> k"
  using token_root_no_dot by blast

section \<open>Accepted templates render\<close>

lemma sublist_pair_Cons:
  "sublist [c, c] (x # v) \<longleftrightarrow> x = c \<and> prefix [c] v \<or> sublist [c, c] v"
  by (auto simp: sublist_Cons_right)

lemma pair_skips:
  assumes "c \<notin> set u"
  shows "sublist [c, c] (u @ v) \<longleftrightarrow> sublist [c, c] v" "prefix [c] (u @ v) \<Longrightarrow> prefix [c] v"
  using assms
proof (induction u)
  case (Cons x u)
  { case 1
    with Cons.IH(1) show ?case by (auto simp: sublist_pair_Cons) }
  { case 2
    with Cons show ?case by auto }
qed auto

lemma pair_replaced:
  assumes "\<And>n. n \<in> set (token_names s) \<Longrightarrow> c \<notin> set (f n)"
  shows "(prefix [c] (replace_tokens f s) \<longrightarrow> prefix [c] (replace_tokens (\<lambda>_. []) s)) \<and>
    (sublist [c, c] (replace_tokens f s) \<longrightarrow> sublist [c, c] (replace_tokens (\<lambda>_. []) s))"
  using assms
proof (induction s rule: segments.induct)
  case (1 s)
  show ?case
  proof (cases s)
    case (Cons d cs)
    show ?thesis
    proof (cases "match_token s")
      case None
      with Cons have names: "token_names s = token_names cs"
        by (simp add: token_names_def segments_Cons)
      from "1"(1) [OF Cons None] "1"(3) names
      have ih: "(prefix [c] (replace_tokens f cs) \<longrightarrow> prefix [c] (replace_tokens (\<lambda>_. []) cs)) \<and>
        (sublist [c, c] (replace_tokens f cs) \<longrightarrow> sublist [c, c] (replace_tokens (\<lambda>_. []) cs))" by simp
      with None Cons show ?thesis by (auto simp: replace_tokens_Cons sublist_pair_Cons)
    next
      case (Some p)
      obtain n r where p: "p = (n, r)" by (cases p)
      with Some Cons have names: "set (token_names s) = insert n (set (token_names r))"
        by (simp add: token_names_def segments_Cons)
      from "1"(2) [OF Cons Some p [symmetric]] "1"(3) names
      have ih: "(prefix [c] (replace_tokens f r) \<longrightarrow> prefix [c] (replace_tokens (\<lambda>_. []) r)) \<and>
        (sublist [c, c] (replace_tokens f r) \<longrightarrow> sublist [c, c] (replace_tokens (\<lambda>_. []) r))" by simp
      have "c \<notin> set (f n)" using "1"(3) names by simp
      with ih Some p Cons show ?thesis
        by (auto simp: replace_tokens_Cons pair_skips(1) dest: pair_skips(2))
    qed
  qed simp
qed

definition brace_free :: "string \<Rightarrow> bool" where
  "brace_free s \<longleftrightarrow> CHR ''{'' \<notin> set s \<and> CHR ''}'' \<notin> set s"

lemma escape_char_braces:
  "CHR ''{'' \<in> set (escape_char c) \<longleftrightarrow> c = CHR ''{''" "CHR ''}'' \<in> set (escape_char c) \<longleftrightarrow> c = CHR ''}''"
  by (auto simp: escape_char_def)

lemma brace_free_escape: "brace_free s \<Longrightarrow> brace_free (escape_html s)"
  by (auto simp: brace_free_def escape_html_def escape_char_braces)

lemma brace_free_token: "brace_free (sprint v) \<Longrightarrow> resolve_variable_path vals n = Some v \<Longrightarrow>
    brace_free (token_text vals escape n)"
  by (simp add: token_text_def brace_free_escape)

lemma resolve_root: "CHR ''.'' \<notin> set n \<Longrightarrow> resolve_variable_path vals n = map_of vals n"
  by (simp add: resolve_variable_path_def split_on_no_sep split: option.splits)

text \<open>C18: A template the validator accepts can be rendered. Every text of every locale expands without an error, with and
  without escaping, for all values that give every declared variable, print without braces, and, for a token with a
  dotted path, lead along the path to a value that does. (Validation checks only the root of a path: an accepted
  source with \<open>{{order.id}}\<close> does not render when \<open>order\<close> is a text; see \<open>dotted_path_fails\<close>.)\<close>

theorem accepted_template_renders:
  assumes "validate_template cs t = None" "(l, c) \<in> set (te_locales t)" "source \<in> set (content_sources c)"
    and "\<And>n. n \<in> set (token_names source) \<Longrightarrow> CHR ''.'' \<in> set n \<Longrightarrow> \<exists>x. resolve_variable_path vals n = Some x \<and> brace_free (sprint x)"
    and "\<And>v. v \<in> set (te_variables t) \<Longrightarrow> \<exists>x. map_of vals (trim_space (tv_key v)) = Some x \<and> brace_free (sprint x)"
  shows "render_restricted source vals escape = Inr (replace_tokens (token_text vals escape) source)"
proof -
  have found: "\<exists>x. resolve_variable_path vals n = Some x \<and> brace_free (sprint x)"
    if n: "n \<in> set (token_names source)" for n
  proof -
    show ?thesis
    proof (cases "CHR ''.'' \<in> set n")
      case False
      then have "token_root n = n" by (simp add: token_root_def split_on_no_sep)
      with validated_source(2) [OF assms(1-3) n] obtain v where "v \<in> set (te_variables t)" "n = trim_space (tv_key v)" by auto
      with assms(5) False show ?thesis by (auto simp: resolve_root)
    qed (rule assms(4) [OF n])
  qed
  then have free: "brace_free (token_text vals escape n)" if "n \<in> set (token_names source)" for n
    using that brace_free_token by blast
  have "\<not> has_delimiter (replace_tokens (token_text vals escape) source)"
    using validated_source(1) [OF assms(1-3)] free
      pair_replaced [of source "CHR ''{''" "token_text vals escape"]
      pair_replaced [of source "CHR ''}''" "token_text vals escape"]
    by (auto simp: has_delimiter_def contains_str_def brace_free_def)
  with found show ?thesis
    by (cases "source = []") (auto simp: render_restricted_def Let_def list_ex_iff)
qed

text \<open>A dotted path through a value that is no map leads nowhere.\<close>

lemma dotted_path_fails: "render_restricted ''{{order.id}}'' [(''order'', VText ''7'')] escape = Inl (ErrorText ''notification template render failed'')"
proof -
  have "token_names ''{{order.id}}'' = [''order.id''] \<and> resolve_variable_path [(''order'', VText ''7'')] ''order.id'' = None" by code_simp
  then show ?thesis by (simp add: render_restricted_def Let_def)
qed

section \<open>Rendered notifications\<close>

lemma resolve_recipients_Inr:
  assumes "resolve_recipients d ws channel us w = (Inr rs, w')"
  shows "rs \<noteq> [] \<and> distinct rs"
proof -
  let ?f = "\<lambda>u result. if u = [] then ret result else
         bind_io (resolve_recipient d ws channel u) (\<lambda>address.
         ret (if address \<in> set result then result else result @ [address]))"
  have "distinct rs" if "fold_io ?f us acc w = (Inr rs, w')" "distinct acc" for us acc rs w w'
    using that
  proof (induction us arbitrary: acc w)
    case (Cons u us)
    from Cons.prems(1) obtain acc' w1 where s: "?f u acc w = (Inr acc', w1)" "fold_io ?f us acc' w1 = (Inr rs, w')"
      by (auto simp: bind_io_Inr)
    with Cons.prems(2) have "distinct acc'" by (auto simp: bind_io_Inr split: if_splits)
    with Cons.IH s show ?case by blast
  qed simp
  with assms show ?thesis
    by (auto simp: resolve_recipients_def bind_io_Inr guard_io_Inr)
qed

text \<open>A rendered notification is pinned to what it was made from: the key, the version and
  the content hash of the template, a locale the template has, the hash of the variables that
  were used; its recipients are a non-empty list without duplicates, and its subject is one
  line, so that a variable cannot add a mail header.\<close>

theorem rendered_is_pinned:
  assumes "render_with d t rq w = (Inr r, w')"
  shows "re_template r = te_key t \<and> re_version r = te_version t \<and> re_content_hash r = te_hash t \<and>
    re_channel r = te_channel t \<and> map_of (te_locales t) (re_locale r) \<noteq> None \<and> re_locale r \<noteq> [] \<and>
    (\<exists>vals. validate_render_variables (ed_parsers d) t (rn_variables rq) = Inr vals \<and>
       re_variables_hash r = variables_hash vals) \<and>
    re_recipients r \<noteq> [] \<and> distinct (re_recipients r) \<and>
    CHR 0x0D \<notin> set (re_subject r) \<and> CHR 0x0A \<notin> set (re_subject r)"
proof -
  from assms obtain l c where sel: "select_content t (rn_locale rq) (ed_locale d) = Some (l, c)" "l \<noteq> []"
    by (auto simp: render_with_def split: option.splits if_splits)
  with assms obtain vals rs w1 where vals: "validate_render_variables (ed_parsers d) t (rn_variables rq) = Inr vals"
    and rs: "resolve_recipients d (rn_workspace rq) (te_channel t) (rn_recipients rq) w = (Inr rs, w1)"
    and body: "render_content (ed_parsers d) t l c rq vals rs = Inr r"
    by (auto simp: render_with_def bind_io_Inr lift_result_eq)
  from sel have loc: "map_of (te_locales t) l \<noteq> None"
    by (auto simp: select_content_def split: if_splits)
  from body obtain subject plain html title markdown fs acts provider where
    sub: "\<not> contains_any subject [CHR 0x0D, CHR 0x0A]" and
    r: "r = assemble t l rs rq vals subject title plain html markdown fs acts provider"
    by (cases "render_provider_template (ct_provider c) vals")
      (auto simp: render_content_def and_then_Inr split: if_splits)
  have "CHR 0x0D \<notin> set subject \<and> CHR 0x0A \<notin> set subject"
    using sub by (auto simp: contains_any_def list_ex_iff)
  with r loc sel(2) vals resolve_recipients_Inr [OF rs] show ?thesis
    by (auto simp: assemble_def split: prod.splits)
qed

section \<open>Witnesses\<close>

definition chat_capability :: capability_entry where
  "chat_capability = \<lparr>ce_capability = \<lparr>cp_channel = ''email'', cp_provider = [], cp_html = True, cp_markdown = False,
     cp_facts = True, cp_url_actions = True, cp_provider_template = False, cp_max_facts = 5, cp_max_actions = 2\<rparr>,
     ce_validate = None\<rparr>"

definition sample_capabilities :: capabilities where
  "sample_capabilities = [(''email/'', chat_capability)]"

definition sample_parsers :: text_parsers where
  "sample_parsers = \<lparr>tp_float = (\<lambda>s. False), tp_address = (\<lambda>s. Some s), tp_url = (\<lambda>s. None),
     tp_request_uri = (\<lambda>s. None)\<rparr>"

definition sample_engine :: "world engine_deps" where
  "sample_engine = \<lparr>ed_locale = ''en-US'', ed_capabilities = sample_capabilities,
     ed_recipients = Some (\<lambda>ws u. ret (Some \<lparr>rc_id = u, rc_email = ''Ann@example.org'', rc_locale = [], rc_timezone = []\<rparr>)),
     ed_parsers = sample_parsers\<rparr>"

definition sample_render :: render_request where
  "sample_render = \<lparr>rn_workspace = ''ws'', rn_template = ''order.email'', rn_locale = ''en-US'',
     rn_recipients = [''u1''], rn_variables = [(''order'', VText ''7'')], rn_metadata = []\<rparr>"

definition html_content :: content where
  "html_content = sample_content\<lparr>ct_html := ''<b>{{ order }}</b>''\<rparr>"

lemma html_body_escaped_witness:
  "\<exists>r. render_content sample_parsers sample_template ''en-US'' html_content sample_render [(''order'', VText ''<i>7&</i>'')] [] = Inr r \<and>
    re_html r = ''<b>&lt;i&gt;7&amp;&lt;/i&gt;</b>'' \<and> count_list (re_html r) (CHR ''<'') = 2"
proof -
  let ?vals = "[(''order'', VText ''<i>7&</i>'')]"
  have fields: "render_field sample_template ''subject'' (ct_subject html_content) ?vals False = Inr ''Order <i>7&</i>''"
    "render_field sample_template ''text'' (ct_text html_content) ?vals False = Inr ''Order <i>7&</i> is done''"
    "render_field sample_template ''html'' (ct_html html_content) ?vals True = Inr ''<b>&lt;i&gt;7&amp;&lt;/i&gt;</b>''"
    "render_field sample_template ''title'' (ct_title html_content) ?vals False = Inr []"
    "render_field sample_template ''markdown'' (ct_markdown html_content) ?vals False = Inr []"
    by code_simp+
  have parts: "ct_facts html_content = []" "ct_actions html_content = []" "ct_provider html_content = None"
    by (simp_all add: html_content_def sample_content_def)
  have subject: "\<not> contains_any ''Order <i>7&</i>'' [CHR 0x0D, CHR 0x0A]" by code_simp
  obtain r where run: "render_content sample_parsers sample_template ''en-US'' html_content sample_render ?vals [] = Inr r"
    "re_html r = ''<b>&lt;i&gt;7&amp;&lt;/i&gt;</b>''" "re_facts r = []" "re_actions r = []"
    by (simp add: render_content_def fields subject and_then_def render_provider_template_def parts assemble_def
        append_portable_email_def Let_def split: prod.splits)
  have "markup_char (CHR ''<'')" "count_list (ct_html html_content) (CHR ''<'') = 2" by (simp_all add: markup_char_def html_content_def)
  with html_body_escaped [OF run(1)] run show ?thesis by auto
qed

lemma sample_template_valid:
  "validate_template sample_capabilities (sample_template\<lparr>te_status := ''published''\<rparr>) = None"
  by code_simp

lemma accepted_template_renders_witness:
  "render_restricted ''Order {{order}}'' [(''order'', VText ''7'')] False =
     Inr (replace_tokens (token_text [(''order'', VText ''7'')] False) ''Order {{order}}'')"
proof (rule accepted_template_renders [OF sample_template_valid, of "''en-US''" sample_content])
  have names: "token_names ''Order {{order}}'' = [''order'']" by code_simp
  show "\<exists>x. resolve_variable_path [(''order'', VText ''7'')] n = Some x \<and> brace_free (sprint x)"
    if "n \<in> set (token_names ''Order {{order}}'')" "CHR ''.'' \<in> set n" for n
    using that names by simp
  have key: "trim_space ''order'' = ''order''" by (simp add: trim_space_plain plain_char_def)
  show "\<exists>x. map_of [(''order'', VText ''7'')] (trim_space (tv_key v)) = Some x \<and> brace_free (sprint x)"
    if "v \<in> set (te_variables (sample_template\<lparr>te_status := ''published''\<rparr>))" for v
    using that key by (simp add: brace_free_def)
qed (simp_all add: content_sources_def sample_content_def)

lemma sample_render_run:
  "\<exists>r. render_with sample_engine sample_template sample_render w = (Inr r, w)"
proof -
  have sel: "select_content sample_template (rn_locale sample_render) (ed_locale sample_engine) =
      Some (''en-US'', sample_content)" by code_simp
  have vals: "validate_render_variables (ed_parsers sample_engine) sample_template (rn_variables sample_render) =
      Inr [(''order'', VText ''7'')]" by code_simp
  have recipients: "resolve_recipients sample_engine (rn_workspace sample_render) ''email''
      (rn_recipients sample_render) w = (Inr [''ann@example.org''], w)"
  proof -
    have "to_lower (trim_space ''Ann@example.org'') = ''ann@example.org'' \<and> \<not> blank ''Ann@example.org''" by code_simp
    then show ?thesis
      by (simp add: resolve_recipients_def resolve_recipient_def sample_engine_def sample_render_def sample_parsers_def
          bind_io_def guard_io_def ret_def)
  qed
  have fields: "render_field sample_template ''subject'' (ct_subject sample_content) [(''order'', VText ''7'')] False = Inr ''Order 7''"
    "render_field sample_template ''text'' (ct_text sample_content) [(''order'', VText ''7'')] False = Inr ''Order 7 is done''"
    "render_field sample_template ''html'' (ct_html sample_content) [(''order'', VText ''7'')] True = Inr []"
    "render_field sample_template ''title'' (ct_title sample_content) [(''order'', VText ''7'')] False = Inr []"
    "render_field sample_template ''markdown'' (ct_markdown sample_content) [(''order'', VText ''7'')] False = Inr []"
    by code_simp+
  have parts: "ct_facts sample_content = []" "ct_actions sample_content = []" "ct_provider sample_content = None"
    by (simp_all add: sample_content_def)
  have subject: "\<not> contains_any ''Order 7'' [CHR 0x0D, CHR 0x0A]" by code_simp
  show ?thesis
    by (simp add: render_with_def sel vals recipients bind_io_def lift_result_def ret_def fail_def
        render_content_def fields subject and_then_def render_provider_template_def parts)
qed

lemma rendered_is_pinned_witness:
  "\<exists>r. render_with sample_engine sample_template sample_render (calm_world empty_database) =
     (Inr r, calm_world empty_database) \<and> re_version r = 1 \<and> re_template r = ''order.email''"
proof -
  obtain r where run: "render_with sample_engine sample_template sample_render (calm_world empty_database) =
      (Inr r, calm_world empty_database)"
    using sample_render_run by blast
  from rendered_is_pinned [OF run] run show ?thesis by simp
qed

end
