(* ===== verification/Publication_Store.thy ===== *)
theory Publication_Store
  imports Template_Records Lease
begin

text \<open>
  The publication requests of the template store, internal/infrastructure/persistence/database/
  template/publication.go. A request is created together with a lock row for its template, is
  moved by transitions that check the expected status (and the lease, when it is being
  published), is claimed like an event or a plan, and gives its lock back when it leaves the
  open statuses.
\<close>

definition publication_open :: "publication_status \<Rightarrow> bool" where
  "publication_open s \<longleftrightarrow> s = PublicationPending \<or> s = PublicationScheduled \<or> s = PublicationPublishing"

definition request_matches :: "workspace_id \<Rightarrow> string \<Rightarrow> request_row \<Rightarrow> bool" where
  "request_matches self i q \<longleftrightarrow> rr_workspace q = self \<and> pr_id (rr_request q) = i"

definition publication_request_by_id :: "workspace_id \<Rightarrow> string \<Rightarrow> publication_request option sql" where
  "publication_request_by_id self i =
     bind_io (select_row requests_table (request_matches self i)) (\<lambda>q. ret (map_option rr_request q))"

definition list_publication_requests :: "workspace_id \<Rightarrow> string \<Rightarrow> publication_request list sql" where
  "list_publication_requests self key0 = (let key = trim_space key0 in
     bind_io (wrapping ''list notification publication requests''
       (query (\<lambda>d. sort_key_desc (\<lambda>q. pr_requested_at (rr_request q))
          (filter (\<lambda>q. rr_workspace q = self \<and> (key \<noteq> [] \<longrightarrow> pr_template_key (rr_request q) = key)) (db_requests d)))))
     (\<lambda>qs. ret (map rr_request qs)))"

definition get_publication_request :: "workspace_id \<Rightarrow> string \<Rightarrow> publication_request option sql" where
  "get_publication_request self i0 = (let i = trim_space i0 in
     guard_io (i = []) (ErrorText ''notification publication request id is required'')
       (publication_request_by_id self i))"

definition open_for :: "workspace_id \<Rightarrow> string \<Rightarrow> request_row \<Rightarrow> bool" where
  "open_for self key q \<longleftrightarrow> rr_workspace q = self \<and> pr_template_key (rr_request q) = key \<and>
     publication_open (pr_status (rr_request q))"

definition has_open_publication_request :: "workspace_id \<Rightarrow> string \<Rightarrow> bool sql" where
  "has_open_publication_request self key =
     bind_io (count_rows requests_table (open_for self (trim_space key))) (\<lambda>count. ret (0 < count))"

section \<open>Creating a request\<close>

definition new_lock :: "workspace_id \<Rightarrow> publication_request \<Rightarrow> lock_row" where
  "new_lock self q = \<lparr>lk_template_key = pr_template_key q, lk_request = pr_id q,
     lk_created = pr_requested_at q, lk_workspace = self\<rparr>"

definition acquire_lock :: "workspace_id \<Rightarrow> publication_request \<Rightarrow> unit sql" where
  "acquire_lock self q =
     workspace_insert locks_table lock_clash ''_notification_template_publication_locks'' self self (new_lock self q)"

definition insert_request :: "workspace_id \<Rightarrow> publication_request \<Rightarrow> unit sql" where
  "insert_request self q = wrapping ''insert notification publication request''
     (workspace_insert requests_table request_clash ''_notification_template_publication_requests'' self self
       \<lparr>rr_request = q, rr_workspace = self\<rparr>)"

text \<open>The transaction; the error of the lock is handed out after its explicit rollback.\<close>

definition create_body :: "workspace_id \<Rightarrow> publication_request \<Rightarrow> (bool \<times> err option) sql" where
  "create_body self q = bind_io (attempt (acquire_lock self q)) (\<lambda>locked.
     case locked of Inl e \<Rightarrow> leave_with (Some e)
     | Inr _ \<Rightarrow> bind_io (insert_request self q) (\<lambda>_. commit_with None))"

definition create_publication_request :: "workspace_id \<Rightarrow> publication_request \<Rightarrow> unit sql" where
  "create_publication_request self q0 =
     (let q = q0\<lparr>pr_id := trim_space (pr_id q0), pr_template_key := trim_space (pr_template_key q0)\<rparr> in
      guard_io (pr_id q = [] \<or> pr_template_key q = [])
        (ErrorText ''notification publication request identity is required'')
      (bind_io (transaction (create_body self q)) (\<lambda>refused. case refused of None \<Rightarrow> ret ()
       | Some e \<Rightarrow> bind_io (attempt (has_open_publication_request self (pr_template_key q))) (\<lambda>open.
           if open = Inr True then fail (Sentinel ErrPublicationConflict)
           else fail (Wrapped ''acquire notification publication lock'' e)))))"

section \<open>Transitions\<close>

definition transition_matches ::
  "workspace_id \<Rightarrow> string \<Rightarrow> publication_status \<Rightarrow> publication_transition \<Rightarrow> request_row \<Rightarrow> bool" where
  "transition_matches self i expected tn q \<longleftrightarrow> request_matches self i q \<and> pr_status (rr_request q) = expected \<and>
     (trim_space (tn_owner tn) \<noteq> [] \<and> 0 < tn_token tn \<longrightarrow>
        pr_owner (rr_request q) = trim_space (tn_owner tn) \<and> pr_token (rr_request q) = tn_token tn)"

definition transition_request :: "publication_transition \<Rightarrow> publication_request \<Rightarrow> publication_request" where
  "transition_request tn q = q\<lparr>pr_status := tn_status tn, pr_scheduled_for := tn_scheduled_for tn,
     pr_reviewed_by := tn_reviewed_by tn, pr_reviewed_at := tn_reviewed_at tn,
     pr_published_version := tn_published_version tn, pr_failure := tn_failure tn, pr_owner := [],
     pr_lease := [], pr_updated := tn_updated tn\<rparr>"

definition transition_row :: "publication_transition \<Rightarrow> request_row \<Rightarrow> request_row" where
  "transition_row tn q = q\<lparr>rr_request := transition_request tn (rr_request q)\<rparr>"

definition release_lock :: "workspace_id \<Rightarrow> string \<Rightarrow> unit sql" where
  "release_lock self i = bind_io (wrapping ''release notification publication lock''
     (delete_rows locks_table (\<lambda>l. lk_workspace l = self \<and> lk_request l = i))) (\<lambda>_. ret ())"

definition transition_body ::
  "workspace_id \<Rightarrow> string \<Rightarrow> publication_status \<Rightarrow> publication_transition \<Rightarrow> (bool \<times> publication_request) sql" where
  "transition_body self i expected tn =
     bind_io (publication_request_by_id self i) (\<lambda>current. case current of
       None \<Rightarrow> fail (Sentinel ErrPublicationNotFound)
     | Some q \<Rightarrow> guard_io (pr_status q \<noteq> expected) (Sentinel ErrPublicationConflict)
      (bind_io (wrapping ''transition notification publication request''
         (update_rows requests_table (transition_matches self i expected tn) (transition_row tn))) (\<lambda>count.
       guard_io (count \<noteq> 1) (Sentinel ErrPublicationConflict)
      (bind_io (if publication_open (tn_status tn) then ret () else release_lock self i) (\<lambda>_.
       bind_io (publication_request_by_id self i) (\<lambda>stored. case stored of
         None \<Rightarrow> fail (Sentinel ErrPublicationNotFound) | Some v \<Rightarrow> commit_with v))))))"

definition transition_publication_request ::
  "workspace_id \<Rightarrow> string \<Rightarrow> publication_status \<Rightarrow> publication_transition \<Rightarrow> publication_request sql" where
  "transition_publication_request self i0 expected tn = (let i = trim_space i0 in
     guard_io (i = []) (ErrorText ''notification publication request id is required'')
    (guard_io (expected = PublicationPublishing \<and> (trim_space (tn_owner tn) = [] \<or> tn_token tn < 1))
       (ErrorText ''notification publication terminal transition requires lease owner and fencing token'')
       (transaction (transition_body self i expected tn))))"

section \<open>Due requests and claims\<close>

definition publication_due :: "string \<Rightarrow> string \<Rightarrow> publication_request \<Rightarrow> bool" where
  "publication_due now stale q \<longleftrightarrow>
     pr_status q = PublicationScheduled \<and> pr_scheduled_for q \<le> now \<or>
     pr_status q = PublicationPublishing \<and> pr_lease q \<le> stale"

definition publication_limit :: "int \<Rightarrow> int" where
  "publication_limit n = (if n \<le> 0 \<or> 100 < n then 25 else n)"

definition list_due_publication_requests ::
  "workspace_id \<Rightarrow> string \<Rightarrow> string \<Rightarrow> int \<Rightarrow> publication_request list sql" where
  "list_due_publication_requests self now stale limit =
     bind_io (wrapping ''list due notification publication requests''
       (query (\<lambda>d. take_limit (publication_limit limit)
         (sort_key (\<lambda>q. (pr_scheduled_for (rr_request q), pr_requested_at (rr_request q)))
           (filter (\<lambda>q. rr_workspace q = self \<and> publication_due (trim_space now) (trim_space stale) (rr_request q))
             (db_requests d))))))
     (\<lambda>qs. ret (map rr_request qs))"

definition claim_request_row :: "string \<Rightarrow> string \<Rightarrow> string \<Rightarrow> request_row \<Rightarrow> request_row" where
  "claim_request_row owner now expires q = q\<lparr>rr_request := (rr_request q)\<lparr>pr_status := PublicationPublishing,
     pr_owner := owner, pr_lease := expires, pr_token := pr_token (rr_request q) + 1, pr_updated := now\<rparr>\<rparr>"

definition claim_publication_request ::
  "workspace_id \<Rightarrow> string \<Rightarrow> string \<Rightarrow> string \<Rightarrow> string \<Rightarrow> publication_request option sql" where
  "claim_publication_request self i0 owner0 now0 expires0 =
     (let i = trim_space i0; owner = trim_space owner0; now = trim_space now0; expires = trim_space expires0 in
      guard_io (i = [] \<or> owner = [] \<or> now = [] \<or> expires = [])
        (ErrorText ''notification publication claim identity and lease are required'')
      (bind_io (wrapping ''claim notification publication request''
         (update_rows requests_table (\<lambda>q. request_matches self i q \<and> publication_due now now (rr_request q))
           (claim_request_row owner now expires))) (\<lambda>count.
       if count \<noteq> 1 then ret None else get_publication_request self i)))"

section \<open>The lease\<close>

definition request_key :: "request_row \<Rightarrow> string" where
  "request_key q = pr_id (rr_request q)"

definition request_held :: "request_row \<Rightarrow> bool" where
  "request_held q \<longleftrightarrow> pr_status (rr_request q) = PublicationPublishing"

definition request_owner :: "request_row \<Rightarrow> string" where
  "request_owner q = pr_owner (rr_request q)"

definition request_token :: "request_row \<Rightarrow> int" where
  "request_token q = pr_token (rr_request q)"

lemmas request_lease_defs = request_key_def request_held_def request_owner_def request_token_def

interpretation request_lease: lease_row request_key request_held request_owner request_token claim_request_row
  by unfold_locales (simp_all add: request_lease_defs claim_request_row_def)

lemma unique_request_keys:
  assumes "no_clash request_clash qs" shows "request_lease.unique_keys qs"
  unfolding request_lease.unique_keys_def
  by (rule no_clash_distinct [OF assms]) (simp add: request_key_def request_clash_def)

end
