(* ===== verification/Publication_Steps.thy ===== *)
theory Publication_Steps
  imports Publication_Store
begin

text \<open>
  The life of publication requests as a step relation on the two tables (requests and locks),
  and the proof that the operations of the store, called the way the application calls them,
  take such steps: each is one step, or none when it fails. The invariants are proved by rule
  induction over the relation.
\<close>

type_synonym publication_state = "request_row list \<times> lock_row list"

definition publication_state :: "database \<Rightarrow> publication_state" where
  "publication_state d = (db_requests d, db_locks d)"

text \<open>The moves of the application: approval, rejection, cancellation and the three ends of a
  publication.\<close>

definition publication_move :: "publication_status \<Rightarrow> publication_status \<Rightarrow> bool" where
  "publication_move a b \<longleftrightarrow>
     a = PublicationPending \<and> b \<in> {PublicationScheduled, PublicationRejected, PublicationCancelled} \<or>
     a = PublicationScheduled \<and> b = PublicationCancelled \<or>
     a = PublicationPublishing \<and> b \<in> {PublicationPublished, PublicationFailed, PublicationSuperseded}"

text \<open>Who may stand behind a move of the request \<open>q\<close>: an approval or a rejection is signed by
  somebody else than the requester, and the end of a publication keeps the approval's signature
  and holds the lease.\<close>

definition move_signed :: "publication_status \<Rightarrow> publication_transition \<Rightarrow> publication_request \<Rightarrow> bool" where
  "move_signed expected tn q \<longleftrightarrow>
     (tn_status tn \<in> {PublicationScheduled, PublicationRejected} \<longrightarrow> tn_reviewed_by tn \<noteq> pr_requested_by q) \<and>
     (expected = PublicationPublishing \<longrightarrow> tn_reviewed_by tn = pr_reviewed_by q \<and>
        tn_owner tn \<noteq> [] \<and> 1 \<le> tn_token tn \<and> pr_owner q = trim_space (tn_owner tn) \<and> pr_token q = tn_token tn)"

definition moved :: "workspace_id \<Rightarrow> string \<Rightarrow> publication_status \<Rightarrow> publication_transition \<Rightarrow>
    publication_state \<Rightarrow> publication_state" where
  "moved ws i expected tn = (\<lambda>(qs, ls).
     (update_where (transition_matches ws i expected tn) (transition_row tn) qs,
      if publication_open (tn_status tn) then ls else filter (\<lambda>l. \<not> (lk_workspace l = ws \<and> lk_request l = i)) ls))"

definition claimed_request :: "workspace_id \<Rightarrow> string \<Rightarrow> string \<Rightarrow> string \<Rightarrow> string \<Rightarrow> request_row list \<Rightarrow> request_row list" where
  "claimed_request ws i owner now expires =
     update_where (\<lambda>q. request_matches ws i q \<and> publication_due now now (rr_request q)) (claim_request_row owner now expires)"

inductive publication_step :: "publication_state \<Rightarrow> publication_state \<Rightarrow> bool" where
  idle: "publication_step s s"
| request: "pr_status q = PublicationPending \<Longrightarrow>
     \<not> list_ex (lock_clash (new_lock ws q)) ls \<Longrightarrow>
     \<not> list_ex (request_clash \<lparr>rr_request = q, rr_workspace = ws\<rparr>) qs \<Longrightarrow>
     publication_step (qs, ls) (qs @ [\<lparr>rr_request = q, rr_workspace = ws\<rparr>], ls @ [new_lock ws q])"
| move: "publication_move expected (tn_status tn) \<Longrightarrow>
     r \<in> set qs \<Longrightarrow> transition_matches ws i expected tn r \<Longrightarrow> move_signed expected tn (rr_request r) \<Longrightarrow>
     publication_step (qs, ls) (moved ws i expected tn (qs, ls))"
| claim: "publication_step (qs, ls) (claimed_request ws i owner now expires qs, ls)"

section \<open>What the store does\<close>

lemma request_by_id_Inr:
  "publication_request_by_id ws i w = (Inr r, w') \<Longrightarrow>
   map_option rr_request (List.find (request_matches ws i) (db_requests (db w))) = r \<and> db w' = db w"
  unfolding publication_request_by_id_def bind_io_Inr
  by (elim exE conjE, drule select_row_Inr) simp

lemma get_request_Inr:
  assumes "get_publication_request ws i w = (Inr r, w')"
  shows "map_option rr_request (List.find (request_matches ws (trim_space i)) (db_requests (db w))) = r \<and> db w' = db w"
proof -
  from assms have "publication_request_by_id ws (trim_space i) w = (Inr r, w')"
    by (auto simp: get_publication_request_def Let_def guard_io_Inr)
  then show ?thesis by (rule request_by_id_Inr)
qed

lemma find_request:
  assumes "List.find (request_matches ws i) qs = Some r"
  shows "r \<in> set qs" "request_matches ws i r"
  using assms by (auto simp: find_Some_iff)

lemma release_lock_Inr:
  "release_lock ws i w = (Inr u, w') \<Longrightarrow>
   db w' = (db w)\<lparr>db_locks := filter (\<lambda>l. \<not> (lk_workspace l = ws \<and> lk_request l = i)) (db_locks (db w))\<rparr>"
  unfolding release_lock_def bind_io_Inr wrapping_Inr
  by (elim exE conjE, drule delete_rows_Inr) simp

text \<open>A transition that asks for its commit has moved the request it returns.\<close>

lemma transition_body_effect:
  assumes "transition_body ws i expected tn w = (Inr (c, v), w')"
  shows "c \<and> publication_state (db w') = moved ws i expected tn (publication_state (db w)) \<and>
    length (filter (transition_matches ws i expected tn) (db_requests (db w))) = 1 \<and>
    List.find (request_matches ws i) (db_requests (db w')) \<noteq> None \<and>
    v = rr_request (the (List.find (request_matches ws i) (db_requests (db w')))) \<and>
    (\<exists>qs ls. db w' = (db w)\<lparr>db_requests := qs, db_locks := ls\<rparr>)"
proof -
  from assms obtain cur w1 where c: "publication_request_by_id ws i w = (Inr (Some cur), w1)"
    and rest: "guard_io (pr_status cur \<noteq> expected) (Sentinel ErrPublicationConflict)
      (bind_io (wrapping ''transition notification publication request''
         (update_rows requests_table (transition_matches ws i expected tn) (transition_row tn))) (\<lambda>count.
       guard_io (count \<noteq> 1) (Sentinel ErrPublicationConflict)
      (bind_io (if publication_open (tn_status tn) then ret () else release_lock ws i) (\<lambda>_.
       bind_io (publication_request_by_id ws i) (\<lambda>stored. case stored of
         None \<Rightarrow> fail (Sentinel ErrPublicationNotFound) | Some v \<Rightarrow> commit_with v))))) w1 = (Inr (c, v), w')"
    unfolding transition_body_def bind_io_Inr some_or_fail_Inr by blast
  from rest obtain w2 w3 st w4 where u: "update_rows requests_table (transition_matches ws i expected tn) (transition_row tn) w1 = (Inr 1, w2)"
    and l: "(if publication_open (tn_status tn) then ret () else release_lock ws i) w2 = (Inr (), w3)"
    and g: "publication_request_by_id ws i w3 = (Inr (Some st), w4)" "c" "v = st" "w' = w4"
    unfolding guard_io_Inr bind_io_Inr wrapping_Inr some_or_fail_Inr by auto
  from request_by_id_Inr [OF c] update_rows_Inr [OF u]
  have d2: "db w2 = (db w)\<lparr>db_requests := update_where (transition_matches ws i expected tn) (transition_row tn) (db_requests (db w))\<rparr>"
    and n: "length (filter (transition_matches ws i expected tn) (db_requests (db w))) = 1" by auto
  have d3: "db w3 = (db w2)\<lparr>db_locks := if publication_open (tn_status tn) then db_locks (db w2)
      else filter (\<lambda>l. \<not> (lk_workspace l = ws \<and> lk_request l = i)) (db_locks (db w2))\<rparr>"
    using l by (cases "publication_open (tn_status tn)") (auto dest!: release_lock_Inr)
  have "db w3 = (db w)\<lparr>db_requests := db_requests (db w3), db_locks := db_locks (db w3)\<rparr>"
    using d2 d3 by simp
  with request_by_id_Inr [OF g(1)] g(4) have "\<exists>qs ls. db w' = (db w)\<lparr>db_requests := qs, db_locks := ls\<rparr>" by metis
  with request_by_id_Inr [OF g(1)] g d2 d3 n show ?thesis
    by (auto simp: publication_state_def moved_def)
qed

lemma transition_effect:
  assumes "transition_publication_request ws i expected tn w = (r, w')"
  shows "publication_state (db w') = moved ws (trim_space i) expected tn (publication_state (db w)) \<and>
      length (filter (transition_matches ws (trim_space i) expected tn) (db_requests (db w))) = 1 \<and>
      (expected = PublicationPublishing \<longrightarrow> trim_space (tn_owner tn) \<noteq> [] \<and> 1 \<le> tn_token tn) \<and>
      (\<exists>qs ls. db w' = (db w)\<lparr>db_requests := qs, db_locks := ls\<rparr>) \<and>
      (\<forall>v. r = Inr v \<longrightarrow> (\<exists>q. List.find (request_matches ws (trim_space i)) (db_requests (db w')) = Some q \<and> v = rr_request q)) \<or>
    db w' = db w \<and> (\<exists>e. r = Inl e)"
proof (cases "trim_space i = [] \<or> expected = PublicationPublishing \<and> (trim_space (tn_owner tn) = [] \<or> tn_token tn < 1)")
  case True
  with assms show ?thesis by (auto simp: transition_publication_request_def Let_def guard_io_def split: if_splits)
next
  case False
  with assms have t: "transaction (transition_body ws (trim_space i) expected tn) w = (r, w')"
    by (auto simp: transition_publication_request_def Let_def guard_io_def split: if_splits)
  let ?R = "\<lambda>d v d'. publication_state d' = moved ws (trim_space i) expected tn (publication_state d) \<and>
    length (filter (transition_matches ws (trim_space i) expected tn) (db_requests d)) = 1 \<and>
    List.find (request_matches ws (trim_space i)) (db_requests d') \<noteq> None \<and>
    v = rr_request (the (List.find (request_matches ws (trim_space i)) (db_requests d'))) \<and>
    (\<exists>qs ls. d' = d\<lparr>db_requests := qs, db_locks := ls\<rparr>)"
  have "\<And>w c v w'. transition_body ws (trim_space i) expected tn w = (Inr (c, v), w') \<Longrightarrow> c \<and> ?R (db w) v (db w')"
    using transition_body_effect by blast
  from transaction_commits [where R = ?R, OF t this] False show ?thesis by auto
qed

lemma transition_step:
  assumes "transition_publication_request ws i expected tn w = (r, w')"
    and "publication_move expected (tn_status tn)"
    and "\<And>q. q \<in> set (db_requests (db w)) \<Longrightarrow> transition_matches ws (trim_space i) expected tn q \<Longrightarrow>
      (expected = PublicationPublishing \<longrightarrow> trim_space (tn_owner tn) \<noteq> [] \<and> 1 \<le> tn_token tn) \<Longrightarrow>
      move_signed expected tn (rr_request q)"
  shows "publication_step (publication_state (db w)) (publication_state (db w'))"
  using transition_effect [OF assms(1)]
proof
  assume e: "publication_state (db w') = moved ws (trim_space i) expected tn (publication_state (db w)) \<and>
      length (filter (transition_matches ws (trim_space i) expected tn) (db_requests (db w))) = 1 \<and>
      (expected = PublicationPublishing \<longrightarrow> trim_space (tn_owner tn) \<noteq> [] \<and> 1 \<le> tn_token tn) \<and>
      (\<exists>qs ls. db w' = (db w)\<lparr>db_requests := qs, db_locks := ls\<rparr>) \<and>
      (\<forall>v. r = Inr v \<longrightarrow> (\<exists>q. List.find (request_matches ws (trim_space i)) (db_requests (db w')) = Some q \<and> v = rr_request q))"
  then obtain q where "q \<in> set (db_requests (db w))" "transition_matches ws (trim_space i) expected tn q"
    by (metis filter_empty_conv list.size(3) zero_neq_one)
  with e assms(2,3) show ?thesis
    by (auto simp: publication_state_def intro: publication_step.move)
next
  assume "db w' = db w \<and> (\<exists>e. r = Inl e)"
  then show ?thesis by (simp add: publication_step.idle)
qed

lemma claim_effect:
  assumes "claim_publication_request ws i owner now expires w = (r, w')"
  shows "(db w' = db w \<and> (\<forall>q. r \<noteq> Inr (Some q)) \<or>
      db w' = (db w)\<lparr>db_requests := claimed_request ws (trim_space i) (trim_space owner) (trim_space now)
        (trim_space expires) (db_requests (db w))\<rparr>) \<and>
    (\<forall>v. r = Inr (Some v) \<longrightarrow> trim_space owner \<noteq> [] \<and>
      length (filter (\<lambda>q. request_matches ws (trim_space i) q \<and> publication_due (trim_space now) (trim_space now) (rr_request q))
        (db_requests (db w))) = 1 \<and>
      (\<exists>q. List.find (request_matches ws (trim_space i)) (db_requests (db w')) = Some q \<and> v = rr_request q))"
proof (cases "trim_space i = [] \<or> trim_space owner = [] \<or> trim_space now = [] \<or> trim_space expires = []")
  case True
  with assms show ?thesis by (auto simp: claim_publication_request_def Let_def guard_io_def)
next
  case False
  let ?P = "\<lambda>q. request_matches ws (trim_space i) q \<and> publication_due (trim_space now) (trim_space now) (rr_request q)"
  obtain x w1 where u: "update_rows requests_table ?P (claim_request_row (trim_space owner) (trim_space now) (trim_space expires)) w = (x, w1)"
    by fastforce
  have run: "(r, w') = (case x of Inl e \<Rightarrow> (Inl (Wrapped ''claim notification publication request'' e), w1)
      | Inr n \<Rightarrow> if n \<noteq> 1 then (Inr None, w1) else get_publication_request ws (trim_space i) w1)"
    using assms u False
    by (auto simp: claim_publication_request_def Let_def guard_io_def bind_io_def wrapping_def ret_def split: sum.splits)
  have d1: "db w1 = db w \<or> db w1 = (db w)\<lparr>db_requests := claimed_request ws (trim_space i) (trim_space owner)
      (trim_space now) (trim_space expires) (db_requests (db w))\<rparr>"
    using update_rows_db [OF u] by (simp add: claimed_request_def)
  show ?thesis
  proof (cases "x = Inr 1")
    case False
    with run d1 show ?thesis by (auto split: sum.splits if_splits)
  next
    case True
    with run have g: "get_publication_request ws (trim_space i) w1 = (r, w')" by simp
    from update_rows_Inr [OF u [unfolded True]]
    have d: "db w1 = (db w)\<lparr>db_requests := claimed_request ws (trim_space i) (trim_space owner)
      (trim_space now) (trim_space expires) (db_requests (db w))\<rparr>"
      and n: "length (filter ?P (db_requests (db w))) = 1" by (simp_all add: claimed_request_def)
    have same: "db w' = db w1"
      using g by (auto simp: get_publication_request_def publication_request_by_id_def Let_def guard_io_def bind_io_def
          split: prod.splits sum.splits if_splits dest!: statement_db)
    have "\<exists>q. List.find (request_matches ws (trim_space i)) (db_requests (db w')) = Some q \<and> v = rr_request q"
      if "r = Inr (Some v)" for v
      using get_request_Inr [OF g [unfolded that]] same by auto
    with d n same False \<open>\<not> (trim_space i = [] \<or> trim_space owner = [] \<or> trim_space now = [] \<or> trim_space expires = [])\<close>
    show ?thesis by simp
  qed
qed

lemma publication_claim_step:
  assumes "claim_publication_request ws i owner now expires w = (r, w')"
  shows "publication_step (publication_state (db w)) (publication_state (db w'))"
  using claim_effect [OF assms] publication_step.claim publication_step.idle
  by (auto simp: publication_state_def)

definition requested :: "workspace_id \<Rightarrow> publication_request \<Rightarrow> database \<Rightarrow> database" where
  "requested ws q d = d\<lparr>db_requests := db_requests d @ [\<lparr>rr_request = q, rr_workspace = ws\<rparr>],
     db_locks := db_locks d @ [new_lock ws q]\<rparr>"

definition requestable :: "workspace_id \<Rightarrow> publication_request \<Rightarrow> database \<Rightarrow> bool" where
  "requestable ws q d \<longleftrightarrow> \<not> list_ex (lock_clash (new_lock ws q)) (db_locks d) \<and>
     \<not> list_ex (request_clash \<lparr>rr_request = q, rr_workspace = ws\<rparr>) (db_requests d)"

lemma create_body_Inr:
  assumes "create_body ws q w = (Inr (c, a), w')"
  shows "if c then a = None \<and> requestable ws q (db w) \<and> db w' = requested ws q (db w)
    else a \<noteq> None"
proof -
  obtain x w1 where l: "acquire_lock ws q w = (x, w1)" by fastforce
  show ?thesis
  proof (cases x)
    case (Inl e)
    with assms l show ?thesis by (auto simp: create_body_def bind_io_Inr attempt_eq)
  next
    case (Inr u)
    with assms l obtain u where i: "insert_request ws q w1 = (Inr u, w')" "c" "a = None"
      by (auto simp: create_body_def bind_io_Inr attempt_eq)
    from l Inr have "\<not> list_ex (lock_clash (new_lock ws q)) (db_locks (db w))"
        "db w1 = (db w)\<lparr>db_locks := db_locks (db w) @ [new_lock ws q]\<rparr>"
      by (auto simp: acquire_lock_def dest!: workspace_insert_Inr)
    moreover from i have "\<not> list_ex (request_clash \<lparr>rr_request = q, rr_workspace = ws\<rparr>) (db_requests (db w1))"
        "db w' = (db w1)\<lparr>db_requests := db_requests (db w1) @ [\<lparr>rr_request = q, rr_workspace = ws\<rparr>]\<rparr>"
      by (auto simp: insert_request_def wrapping_Inr dest!: workspace_insert_Inr)
    ultimately show ?thesis using i by (simp add: requestable_def requested_def)
  qed
qed

lemma has_open_db: "has_open_publication_request ws k w = (r, w') \<Longrightarrow> db w' = db w"
  by (auto simp: has_open_publication_request_def bind_io_def split: prod.splits sum.splits dest!: statement_db)

lemma has_open_Inr:
  "has_open_publication_request ws k w = (Inr b, w') \<Longrightarrow>
   b = list_ex (open_for ws (trim_space k)) (db_requests (db w)) \<and> db w' = db w"
  by (auto simp: has_open_publication_request_def bind_io_Inr list_ex_iff filter_empty_conv dest!: count_rows_Inr)

lemma create_effect:
  assumes "create_publication_request ws q0 w = (r, w')"
    and q: "q = q0\<lparr>pr_id := trim_space (pr_id q0), pr_template_key := trim_space (pr_template_key q0)\<rparr>"
  shows "db w' = db w \<and> (\<exists>e. r = Inl e) \<or>
    requestable ws q (db w) \<and> db w' = requested ws q (db w) \<and> (r = Inr () \<or> r = Inl DriverError)"
proof (cases "pr_id q = [] \<or> pr_template_key q = []")
  case True
  with assms show ?thesis by (auto simp: create_publication_request_def Let_def guard_io_def)
next
  case False
  obtain x w1 where t: "transaction (create_body ws q) w = (x, w1)" by fastforce
  let ?after = "\<lambda>refused. case refused of None \<Rightarrow> ret ()
       | Some e \<Rightarrow> bind_io (attempt (has_open_publication_request ws (pr_template_key q))) (\<lambda>open.
           if open = Inr True then fail (Sentinel ErrPublicationConflict)
           else fail (Wrapped ''acquire notification publication lock'' e))"
  have run: "(r, w') = (case x of Inl e \<Rightarrow> (Inl e, w1) | Inr a \<Rightarrow> ?after a w1)"
    using assms(1) False t unfolding create_publication_request_def Let_def q [symmetric]
    by (cases x) (simp_all add: guard_io_def bind_io_run, simp add: bind_io_def)
  let ?R = "\<lambda>d a d'. a = (None :: err option) \<and> requestable ws q d \<and> d' = requested ws q d"
  have "\<And>w a w'. create_body ws q w = (Inr (True, a), w') \<Longrightarrow> ?R (db w) a (db w')"
    using create_body_Inr by fastforce
  note rel = transaction_related [where R = ?R, OF t this]
  have refused: "a \<noteq> None" if "create_body ws q w2 = (Inr (False, a), w3)" for a w2 w3
    using create_body_Inr [OF that] by simp
  have end_: "db w' = db w1 \<and> (a = None \<longrightarrow> r = Inr ()) \<and> (a \<noteq> None \<longrightarrow> (\<exists>e. r = Inl e))" if "x = Inr a" for a
    using run that
    by (cases a) (auto simp: bind_io_def attempt_def ret_def fail_def dest: has_open_db split: prod.splits if_splits)
  show ?thesis
  proof (cases x)
    case (Inl e)
    with run rel show ?thesis by auto
  next
    case (Inr a)
    with rel end_ [OF Inr] refused show ?thesis by fastforce
  qed
qed

lemma create_step:
  assumes "create_publication_request ws q w = (r, w')" "pr_status q = PublicationPending"
  shows "publication_step (publication_state (db w)) (publication_state (db w'))"
  using create_effect [OF assms(1) refl] assms(2)
  by (auto simp: requestable_def requested_def publication_state_def
      intro!: publication_step.idle publication_step.request)

section \<open>Invariants\<close>

text \<open>Unique identifiers, one lock per template, and a lock for every open request.\<close>

fun publication_ok :: "publication_state \<Rightarrow> bool" where
  "publication_ok (qs, ls) \<longleftrightarrow> no_clash request_clash qs \<and> no_clash lock_clash ls \<and>
     (\<forall>q \<in> set qs. publication_open (pr_status (rr_request q)) \<longrightarrow>
        (\<exists>l \<in> set ls. lk_workspace l = rr_workspace q \<and> lk_request l = pr_id (rr_request q) \<and>
           lk_template_key l = pr_template_key (rr_request q)))"

inductive_cases publication_stepE: "publication_step s s'"

lemma publication_move_open: "publication_move a b \<Longrightarrow> publication_open a"
  by (auto simp: publication_move_def publication_open_def)

lemma transition_row_fields [simp]:
  "rr_workspace (transition_row tn q) = rr_workspace q"
  "pr_id (rr_request (transition_row tn q)) = pr_id (rr_request q)"
  "pr_template_key (rr_request (transition_row tn q)) = pr_template_key (rr_request q)"
  "pr_status (rr_request (transition_row tn q)) = tn_status tn"
  "pr_reviewed_by (rr_request (transition_row tn q)) = tn_reviewed_by tn"
  "pr_requested_by (rr_request (transition_row tn q)) = pr_requested_by (rr_request q)"
  "pr_candidate_hash (rr_request (transition_row tn q)) = pr_candidate_hash (rr_request q)"
  "pr_token (rr_request (transition_row tn q)) = pr_token (rr_request q)"
  by (simp_all add: transition_row_def transition_request_def)

lemma claim_request_row_fields [simp]:
  "rr_workspace (claim_request_row ow n x q) = rr_workspace q"
  "pr_id (rr_request (claim_request_row ow n x q)) = pr_id (rr_request q)"
  "pr_template_key (rr_request (claim_request_row ow n x q)) = pr_template_key (rr_request q)"
  "pr_status (rr_request (claim_request_row ow n x q)) = PublicationPublishing"
  "pr_reviewed_by (rr_request (claim_request_row ow n x q)) = pr_reviewed_by (rr_request q)"
  "pr_requested_by (rr_request (claim_request_row ow n x q)) = pr_requested_by (rr_request q)"
  "pr_candidate_hash (rr_request (claim_request_row ow n x q)) = pr_candidate_hash (rr_request q)"
  "pr_token (rr_request (claim_request_row ow n x q)) = pr_token (rr_request q) + 1"
  by (simp_all add: claim_request_row_def)

lemma request_row_unique:
  "no_clash request_clash qs \<Longrightarrow> q \<in> set qs \<Longrightarrow> r \<in> set qs \<Longrightarrow> pr_id (rr_request q) = pr_id (rr_request r) \<Longrightarrow> q = r"
  by (rule no_clash_unique [of request_clash qs]) (auto simp: request_clash_def)

lemma no_clash_requests_update:
  assumes "no_clash request_clash qs" "\<And>q. pr_id (rr_request (f q)) = pr_id (rr_request q)"
  shows "no_clash request_clash (update_where P f qs)"
  by (rule no_clash_update [OF assms(1)]) (simp add: request_clash_def assms(2))

lemma moved_ok:
  assumes ok: "publication_ok (qs, ls)" and mv: "publication_move expected (tn_status tn)"
    and r: "r \<in> set qs" "transition_matches ws i expected tn r"
  shows "publication_ok (moved ws i expected tn (qs, ls))"
proof -
  let ?ls = "if publication_open (tn_status tn) then ls else filter (\<lambda>l. \<not> (lk_workspace l = ws \<and> lk_request l = i)) ls"
  from ok have u: "no_clash request_clash qs" "no_clash lock_clash ls" by simp_all
  have "\<exists>l \<in> set ?ls. lk_workspace l = rr_workspace q' \<and> lk_request l = pr_id (rr_request q') \<and>
      lk_template_key l = pr_template_key (rr_request q')"
    if q': "q' \<in> set (update_where (transition_matches ws i expected tn) (transition_row tn) qs)"
      and o: "publication_open (pr_status (rr_request q'))" for q'
  proof -
    from q' obtain q where q: "q \<in> set qs"
        "q' = (if transition_matches ws i expected tn q then transition_row tn q else q)"
      by (auto simp: in_update_where)
    have "publication_open (pr_status (rr_request q))"
      using q(2) o publication_move_open [OF mv] by (auto simp: transition_matches_def split: if_splits)
    with ok q(1) obtain l where l: "l \<in> set ls" "lk_workspace l = rr_workspace q"
        "lk_request l = pr_id (rr_request q)" "lk_template_key l = pr_template_key (rr_request q)" by auto
    have "l \<in> set ?ls"
    proof (cases "publication_open (tn_status tn)")
      case False
      have "\<not> (rr_workspace q = ws \<and> pr_id (rr_request q) = i)"
      proof
        assume "rr_workspace q = ws \<and> pr_id (rr_request q) = i"
        with request_row_unique [OF u(1) q(1) r(1)] r(2) have "q = r"
          by (simp add: transition_matches_def request_matches_def)
        with q(2) r(2) o False show False by simp
      qed
      with l False show ?thesis by auto
    qed (use l in simp)
    with l q(2) show ?thesis by (auto split: if_splits)
  qed
  with u show ?thesis
    by (simp add: moved_def no_clash_requests_update no_clash_filter)
qed

lemma publication_step_ok: "publication_step s s' \<Longrightarrow> publication_ok s \<Longrightarrow> publication_ok s'"
proof (induction rule: publication_step.induct)
  case (request q ws ls qs)
  then show ?case
    by (auto simp: no_clash_append new_lock_def)
next
  case (move expected tn r qs ws i ls)
  then show ?case by (intro moved_ok) auto
next
  case (claim qs ls ws i owner now expires)
  then show ?case
    by (auto simp: claimed_request_def no_clash_requests_update in_update_where publication_due_def publication_open_def
        split: if_splits)
qed simp

text \<open>An approved, rejected or ended request carries a signature that is not the requester's.\<close>

definition reviewed_status :: "publication_status \<Rightarrow> bool" where
  "reviewed_status s \<longleftrightarrow> s \<noteq> PublicationPending \<and> s \<noteq> PublicationCancelled"

fun four_eyes :: "publication_state \<Rightarrow> bool" where
  "four_eyes (qs, ls) \<longleftrightarrow> (\<forall>q \<in> set qs. reviewed_status (pr_status (rr_request q)) \<longrightarrow>
     pr_reviewed_by (rr_request q) \<noteq> pr_requested_by (rr_request q))"

lemma publication_step_four_eyes:
  "publication_step s s' \<Longrightarrow> publication_ok s \<Longrightarrow> four_eyes s \<Longrightarrow> four_eyes s'"
proof (induction rule: publication_step.induct)
  case (request q ws ls qs)
  then show ?case by (auto simp: reviewed_status_def)
next
  case (move expected tn r qs ws i ls)
  have "pr_reviewed_by (rr_request q') \<noteq> pr_requested_by (rr_request q')"
    if q': "q' \<in> set (update_where (transition_matches ws i expected tn) (transition_row tn) qs)"
      and o: "reviewed_status (pr_status (rr_request q'))" for q'
  proof -
    from q' obtain q where q: "q \<in> set qs"
        "q' = (if transition_matches ws i expected tn q then transition_row tn q else q)"
      by (auto simp: in_update_where)
    show ?thesis
    proof (cases "transition_matches ws i expected tn q")
      case False
      with q o move.prems show ?thesis by simp
    next
      case True
      with move.hyps move.prems q(1) have "q = r"
        by (intro request_row_unique [of qs]) (auto simp: transition_matches_def request_matches_def)
      with True q o move show ?thesis
        by (auto simp: move_signed_def publication_move_def reviewed_status_def transition_matches_def)
    qed
  qed
  then show ?case by (simp add: moved_def)
next
  case (claim qs ls ws i owner now expires)
  then show ?case
    by (auto simp: claimed_request_def in_update_where publication_due_def reviewed_status_def split: if_splits)
qed simp

text \<open>The life of one request: its status moves along the edges of the state machine, what was
  asked for never changes, fencing tokens only grow, and an ended request stays as it is.\<close>

inductive status_edge :: "publication_status \<Rightarrow> publication_status \<Rightarrow> bool" where
  "publication_move a b \<Longrightarrow> status_edge a b"
| "status_edge PublicationScheduled PublicationPublishing"

text \<open>What a request asks for: the columns no statement sets.\<close>

definition asked :: "request_row \<Rightarrow> request_row" where
  "asked r = r\<lparr>rr_request := (rr_request r)\<lparr>pr_status := PublicationPending, pr_scheduled_for := [],
     pr_reviewed_by := [], pr_reviewed_at := [], pr_published_version := 0, pr_failure := [], pr_owner := [],
     pr_lease := [], pr_token := 0, pr_updated := []\<rparr>\<rparr>"

definition request_follows :: "request_row \<Rightarrow> request_row \<Rightarrow> bool" where
  "request_follows a b \<longleftrightarrow> asked a = asked b \<and> status_edge\<^sup>*\<^sup>* (pr_status (rr_request a)) (pr_status (rr_request b)) \<and>
     pr_token (rr_request a) \<le> pr_token (rr_request b) \<and>
     (\<not> publication_open (pr_status (rr_request a)) \<longrightarrow> b = a)"

lemma asked_fields:
  assumes "asked a = asked b"
  shows "rr_workspace b = rr_workspace a \<and> pr_id (rr_request b) = pr_id (rr_request a) \<and>
    pr_candidate_hash (rr_request b) = pr_candidate_hash (rr_request a) \<and>
    pr_requested_by (rr_request b) = pr_requested_by (rr_request a)"
proof -
  from assms have "rr_workspace (asked b) = rr_workspace (asked a)"
    "pr_id (rr_request (asked b)) = pr_id (rr_request (asked a))"
    "pr_candidate_hash (rr_request (asked b)) = pr_candidate_hash (rr_request (asked a))"
    "pr_requested_by (rr_request (asked b)) = pr_requested_by (rr_request (asked a))" by simp_all
  then show ?thesis by (simp add: asked_def)
qed

lemma asked_rows [simp]: "asked (transition_row tn q) = asked q" "asked (claim_request_row ow n x q) = asked q"
  by (simp_all add: asked_def transition_row_def transition_request_def claim_request_row_def)

lemma request_follows_refl: "request_follows a a"
  by (simp add: request_follows_def)

lemma request_follows_trans: "request_follows a b \<Longrightarrow> request_follows b c \<Longrightarrow> request_follows a c"
  unfolding request_follows_def by (auto intro: order.trans rtranclp_trans)

lemma publication_step_follows:
  assumes "publication_step s s'" "publication_ok s" "q \<in> set (fst s)"
  shows "\<exists>q' \<in> set (fst s'). request_follows q q'"
  using assms
proof (induction rule: publication_step.induct)
  case (idle s)
  then show ?case using request_follows_refl by blast
next
  case (request p ws ls qs)
  then show ?case using request_follows_refl by auto
next
  case (move expected tn r qs ws i ls)
  let ?q' = "if transition_matches ws i expected tn q then transition_row tn q else q"
  have "?q' \<in> set (fst (moved ws i expected tn (qs, ls)))"
    using move.prems by (auto simp: moved_def in_update_where)
  moreover have "request_follows q ?q'"
    using move.hyps(1) publication_move_open [OF move.hyps(1)] request_follows_refl
    by (auto simp: request_follows_def transition_matches_def intro: status_edge.intros r_into_rtranclp)
  ultimately show ?case by blast
next
  case (claim qs ls ws i owner now expires)
  let ?P = "\<lambda>q. request_matches ws i q \<and> publication_due now now (rr_request q)"
  let ?q' = "if ?P q then claim_request_row owner now expires q else q"
  have "?q' \<in> set (fst (claimed_request ws i owner now expires qs, ls))"
    using claim.prems by (auto simp: claimed_request_def in_update_where)
  moreover have "status_edge\<^sup>*\<^sup>* PublicationScheduled PublicationPublishing"
    by (rule r_into_rtranclp) (rule status_edge.intros(2))
  then have "request_follows q ?q'"
    using request_follows_refl by (auto simp: request_follows_def publication_due_def publication_open_def)
  ultimately show ?case by blast
qed

text \<open>The invariants along a sequence of steps.\<close>

lemma publication_steps_facts:
  assumes "publication_step\<^sup>*\<^sup>* s s'" "publication_ok s"
  shows "publication_ok s' \<and> (four_eyes s \<longrightarrow> four_eyes s') \<and>
    (\<forall>q \<in> set (fst s). \<exists>q' \<in> set (fst s'). request_follows q q')"
  using assms
proof (induction rule: rtranclp_induct)
  case base
  then show ?case using request_follows_refl by auto
next
  case (step y z)
  then have ok: "publication_ok y" by blast
  have "\<exists>q' \<in> set (fst z). request_follows q q'" if q: "q \<in> set (fst s)" for q
  proof -
    from step.IH step.prems q obtain p where p: "p \<in> set (fst y)" "request_follows q p" by blast
    from publication_step_follows [OF step.hyps(2) ok p(1)] p(2) show ?thesis
      using request_follows_trans by blast
  qed
  with step ok publication_step_ok [OF step.hyps(2) ok] publication_step_four_eyes [OF step.hyps(2) ok] show ?case
    by blast
qed

lemma open_requests_single:
  assumes "publication_ok (qs, ls)"
  shows "length (filter (\<lambda>q. publication_open (pr_status (rr_request q)) \<and> pr_template_key (rr_request q) = k) qs) \<le> 1"
proof (rule no_clash_count [of request_clash])
  show "no_clash request_clash qs" using assms by simp
  fix a b
  assume q: "a \<in> set qs" "b \<in> set qs" "publication_open (pr_status (rr_request a)) \<and> pr_template_key (rr_request a) = k"
    "publication_open (pr_status (rr_request b)) \<and> pr_template_key (rr_request b) = k"
  with assms obtain l where l: "l \<in> set ls" "lk_request l = pr_id (rr_request a)" "lk_template_key l = k" by auto
  from q assms obtain m where m: "m \<in> set ls" "lk_request m = pr_id (rr_request b)" "lk_template_key m = k" by auto
  have "l = m"
    by (rule no_clash_unique [of lock_clash ls]) (use assms l m in \<open>auto simp: lock_clash_def\<close>)
  with l m show "request_clash a b" by (simp add: request_clash_def)
qed

end
