(* ===== verification/Template_Manager.thy ===== *)
theory Template_Manager
  imports Template_Render Publication_Store
begin

text \<open>
  The template manager and the catalog of the engine: manager.go and the catalog half of
  engine.go in internal/domain/template/service. The manager is a client of the interface
  \<open>Store\<close> (internal/domain/template/repository/store.go), a record of actions here; the
  optional \<open>RevisionStore\<close> is an optional component of it. What the process keeps (the catalog
  of published templates, the revision it was read at) is in \<open>managed\<close> beside the shared state.
  The mutex of the manager makes its operations atomic, which they are here; the assembly
  gives the manager and the engine the same validator.
\<close>

record 'w template_store =
  ts_sync :: "template list \<Rightarrow> ('w, unit) io"
  ts_list :: "('w, template_record list) io"
  ts_get :: "string \<Rightarrow> ('w, template_record option) io"
  ts_versions :: "string \<Rightarrow> ('w, template_version list) io"
  ts_version :: "string \<Rightarrow> int \<Rightarrow> ('w, template_version option) io"
  ts_save_draft :: "template \<Rightarrow> string \<Rightarrow> string \<Rightarrow> ('w, template_record) io"
  ts_publish :: "template \<Rightarrow> string \<Rightarrow> string \<Rightarrow> ('w, template_record) io"
  ts_disable :: "string \<Rightarrow> string \<Rightarrow> string \<Rightarrow> ('w, template_record) io"
  ts_requests :: "string \<Rightarrow> ('w, publication_request list) io"
  ts_request :: "string \<Rightarrow> ('w, publication_request option) io"
  ts_create :: "publication_request \<Rightarrow> ('w, unit) io"
  ts_transition :: "string \<Rightarrow> publication_status \<Rightarrow> publication_transition \<Rightarrow> ('w, publication_request) io"
  ts_due :: "string \<Rightarrow> string \<Rightarrow> int \<Rightarrow> ('w, publication_request list) io"
  ts_claim :: "string \<Rightarrow> string \<Rightarrow> string \<Rightarrow> string \<Rightarrow> ('w, publication_request option) io"
  ts_has_open :: "string \<Rightarrow> ('w, bool) io"
  ts_revision :: "('w, string) io option"

definition sql_template_store :: "workspace_id \<Rightarrow> instant \<Rightarrow> world template_store" where
  "sql_template_store self now = \<lparr>ts_sync = sync_published self now, ts_list = list_templates self,
     ts_get = get_template self, ts_versions = list_versions self, ts_version = get_version self,
     ts_save_draft = save_draft self now, ts_publish = publish_template self now,
     ts_disable = disable_template self now, ts_requests = list_publication_requests self,
     ts_request = get_publication_request self, ts_create = create_publication_request self,
     ts_transition = transition_publication_request self, ts_due = list_due_publication_requests self,
     ts_claim = claim_publication_request self, ts_has_open = has_open_publication_request self,
     ts_revision = Some (published_revision self)\<rparr>"

record 'w managed =
  mn_shared :: 'w
  mn_catalog :: "(string \<times> template) list"
  mn_revision :: string
  mn_reconciled :: bool

definition on_shared :: "('w, 'a) io \<Rightarrow> ('w managed, 'a) io" where
  "on_shared m s = (case m (mn_shared s) of (r, w) \<Rightarrow> (r, s\<lparr>mn_shared := w\<rparr>))"

definition mapping_errors :: "(err \<Rightarrow> err) \<Rightarrow> ('w, 'a) io \<Rightarrow> ('w, 'a) io" where
  "mapping_errors f m w = (case m w of (Inl e, w') \<Rightarrow> (Inl (f e), w') | r \<Rightarrow> r)"

section \<open>The catalog\<close>

definition catalog_put :: "template \<Rightarrow> (string \<times> template) list \<Rightarrow> (string \<times> template) list" where
  "catalog_put t c = filter (\<lambda>(k, _). k \<noteq> te_key t) c @ [(te_key t, t)]"

definition catalog_delete :: "string \<Rightarrow> (string \<times> template) list \<Rightarrow> (string \<times> template) list" where
  "catalog_delete key c = filter (\<lambda>(k, _). k \<noteq> key) c"

definition new_engine :: "capabilities \<Rightarrow> template list \<Rightarrow> err + (string \<times> template) list" where
  "new_engine cs ts = (case validate_all cs ts of Some e \<Rightarrow> Inl e
     | None \<Rightarrow> Inr (fold (\<lambda>t. catalog_put (t\<lparr>te_hash := content_hash t\<rparr>)) ts []))"

definition engine_templates :: "(string \<times> template) list \<Rightarrow> template list" where
  "engine_templates c = sort_key te_key (map snd c)"

definition engine_upsert :: "capabilities \<Rightarrow> template \<Rightarrow> ('w managed, unit) io" where
  "engine_upsert cs value s = (let t = as_published value in
     case validate_template cs t of Some e \<Rightarrow> (Inl e, s)
     | None \<Rightarrow> (Inr (), s\<lparr>mn_catalog := catalog_put t (mn_catalog s)\<rparr>))"

definition engine_remove :: "string \<Rightarrow> ('w managed, unit) io" where
  "engine_remove key s = (Inr (), s\<lparr>mn_catalog := catalog_delete (trim_space key) (mn_catalog s)\<rparr>)"

definition engine_render :: "'w engine_deps \<Rightarrow> render_request \<Rightarrow> ('w managed, rendered) io" where
  "engine_render d rq s = (case map_of (mn_catalog s) (trim_space (rn_template rq)) of
     None \<Rightarrow> (Inl (not_found ''backend.notification.template_not_found'' [''template_key'', rn_template rq]), s)
   | Some t \<Rightarrow> on_shared (render_with d t rq) s)"

section \<open>The manager\<close>

record 'w manager =
  mg_store :: "'w template_store"
  mg_engine :: "'w engine_deps"

definition manager_list :: "'w manager \<Rightarrow> ('w managed, template_record list) io" where
  "manager_list m = on_shared (ts_list (mg_store m))"

definition manager_get :: "'w manager \<Rightarrow> string \<Rightarrow> ('w managed, template_record option) io" where
  "manager_get m key = on_shared (ts_get (mg_store m) (trim_space key))"

definition manager_versions :: "'w manager \<Rightarrow> string \<Rightarrow> ('w managed, template_version list) io" where
  "manager_versions m key = on_shared (ts_versions (mg_store m) (trim_space key))"

definition active_published :: "template_record \<Rightarrow> template option" where
  "active_published r = (if tr_status r = ''active'' then tr_published r else None)"

definition upsert_record :: "'w manager \<Rightarrow> template_record \<Rightarrow> ('w managed, unit) io" where
  "upsert_record m r = (case active_published r of None \<Rightarrow> ret ()
     | Some t \<Rightarrow> engine_upsert (ed_capabilities (mg_engine m)) t)"

definition remove_inactive :: "string list \<Rightarrow> ('w managed, unit) io" where
  "remove_inactive active s = for_each (\<lambda>t. if te_key t \<in> set active then ret () else engine_remove (te_key t))
     (engine_templates (mn_catalog s)) s"

definition reload_published :: "'w manager \<Rightarrow> ('w managed, unit) io" where
  "reload_published m =
     bind_io (on_shared (ts_list (mg_store m))) (\<lambda>rs.
     bind_io (for_each (upsert_record m) rs) (\<lambda>_.
     remove_inactive (map tr_key (filter (\<lambda>r. active_published r \<noteq> None) rs))))"

definition reconciled_at :: "string \<Rightarrow> ('w managed, unit) io" where
  "reconciled_at revision s = (Inr (), s\<lparr>mn_revision := revision, mn_reconciled := True\<rparr>)"

definition refresh_published :: "'w manager \<Rightarrow> ('w managed, unit) io" where
  "refresh_published m = (case ts_revision (mg_store m) of
     None \<Rightarrow> reload_published m
   | Some read \<Rightarrow> bind_io (on_shared read) (\<lambda>revision s.
       if mn_reconciled s \<and> revision = mn_revision s then (Inr (), s)
       else bind_io (reload_published m) (\<lambda>_. reconciled_at revision) s))"

abbreviation key_param :: "string \<Rightarrow> string list" where
  "key_param key \<equiv> [''template_key'', key]"

definition ensure_unlocked :: "'w manager \<Rightarrow> string \<Rightarrow> ('w managed, unit) io" where
  "ensure_unlocked m key = bind_io (on_shared (ts_has_open (mg_store m) key)) (\<lambda>locked.
     guard_io locked (conflict ''backend.notification.template_publication_locked'' (key_param key)) (ret ()))"

definition fallback_available :: "template_record option \<Rightarrow> bool" where
  "fallback_available found \<longleftrightarrow> (case found of None \<Rightarrow> False
     | Some r \<Rightarrow> tr_published r \<noteq> None \<and> tr_status r = ''active'')"

definition validate_fallback_targets :: "'w manager \<Rightarrow> template \<Rightarrow> ('w managed, unit) io" where
  "validate_fallback_targets m t = for_each (\<lambda>f.
     bind_io (on_shared (ts_get (mg_store m) (trim_space (fb_template f)))) (\<lambda>found.
     guard_io (\<not> fallback_available found)
       (invalid ''backend.notification.fallback_template_unavailable''
         [''template_key'', te_key t, ''fallback_template_key'', fb_template f]) (ret ()))) (te_fallbacks t)"

definition checked :: "err option \<Rightarrow> ('w, 'a) io \<Rightarrow> ('w, 'a) io" where
  "checked e m = (case e of Some e \<Rightarrow> fail e | None \<Rightarrow> m)"

definition ensure_editable :: "'w manager \<Rightarrow> template \<Rightarrow> ('w managed, unit) io" where
  "ensure_editable m t = bind_io (ensure_unlocked m (te_key t)) (\<lambda>_.
     checked (validate_editable (ed_capabilities (mg_engine m)) t) (validate_fallback_targets m t))"

definition map_record_conflict :: "string \<Rightarrow> err \<Rightarrow> err" where
  "map_record_conflict key e = (if errors_is e ErrRecordConflict
     then new_error ErrorConflict ''backend.notification.template_conflict'' (Some e) [(''template_key'', key)] else e)"

definition manager_save_draft ::
  "'w manager \<Rightarrow> string \<Rightarrow> template \<Rightarrow> string \<Rightarrow> string \<Rightarrow> ('w managed, template_record) io" where
  "manager_save_draft m key value expected actor =
     (let v = value\<lparr>te_key := trim_space key, te_status := ''draft'', te_version := max 1 (te_version value)\<rparr> in
      bind_io (ensure_editable m v) (\<lambda>_.
      mapping_errors (map_record_conflict (te_key v))
        (on_shared (ts_save_draft (mg_store m) v (trim_space expected) (trim_space actor)))))"

definition restore_version_draft ::
  "'w manager \<Rightarrow> string \<Rightarrow> int \<Rightarrow> string \<Rightarrow> string \<Rightarrow> ('w managed, template_record) io" where
  "restore_version_draft m key0 version expected actor = (let key = trim_space key0 in
     guard_io (version < 1) (invalid ''backend.notification.template_version_invalid'' (key_param key))
    (bind_io (ensure_unlocked m key) (\<lambda>_.
     bind_io (on_shared (ts_version (mg_store m) key version)) (\<lambda>stored.
     case stored of
       None \<Rightarrow> fail (not_found ''backend.notification.template_version_not_found'' (key_param key))
     | Some ver \<Rightarrow>
         let v = (ve_template ver)\<lparr>te_key := key, te_status := ''draft''\<rparr> in
         checked (validate_editable (ed_capabilities (mg_engine m)) v)
        (bind_io (validate_fallback_targets m v) (\<lambda>_.
         mapping_errors (map_record_conflict key)
           (on_shared (ts_save_draft (mg_store m) v (trim_space expected) (trim_space actor)))))))))"

text \<open>The content that is published for a draft: the next version number unless the draft
  already has a later one.\<close>

definition publication_of :: "template_record \<Rightarrow> template \<Rightarrow> template" where
  "publication_of r draft = (let v = draft\<lparr>te_status := ''published''\<rparr>;
       v = (if te_version v \<le> tr_version r then v\<lparr>te_version := tr_version r + 1\<rparr> else v)
     in v\<lparr>te_hash := content_hash v\<rparr>)"

definition catalog_refresh_failed :: "string \<Rightarrow> err \<Rightarrow> err" where
  "catalog_refresh_failed key e =
     new_error ErrorUnavailable ''backend.notification.template_catalog_refresh_failed'' (Some e) [(''template_key'', key)]"

definition publish_draft ::
  "'w manager \<Rightarrow> string \<Rightarrow> string \<Rightarrow> string \<Rightarrow> template \<Rightarrow> ('w managed, template_record) io" where
  "publish_draft m key expected actor v =
     checked (validate_template (ed_capabilities (mg_engine m)) v)
    (bind_io (validate_fallback_targets m v) (\<lambda>_.
     bind_io (mapping_errors (map_record_conflict key) (on_shared (ts_publish (mg_store m) v expected actor))) (\<lambda>published.
     bind_io (mapping_errors (catalog_refresh_failed key) (engine_upsert (ed_capabilities (mg_engine m)) v))
       (\<lambda>_. ret published))))"

definition publish_locked ::
  "'w manager \<Rightarrow> string \<Rightarrow> string \<Rightarrow> string \<Rightarrow> bool \<Rightarrow> ('w managed, template_record) io" where
  "publish_locked m key expected actor allow_lock =
     bind_io (if allow_lock then ret () else ensure_unlocked m key) (\<lambda>_.
     bind_io (on_shared (ts_get (mg_store m) key)) (\<lambda>found.
     case Option.bind found (\<lambda>r. map_option (publication_of r) (tr_draft r)) of
       None \<Rightarrow> fail (not_found ''backend.notification.template_draft_not_found'' (key_param key))
     | Some v \<Rightarrow> publish_draft m key expected actor v))"

definition manager_publish_with ::
  "'w manager \<Rightarrow> string \<Rightarrow> string \<Rightarrow> string \<Rightarrow> bool \<Rightarrow> ('w managed, template_record) io" where
  "manager_publish_with m key expected actor allow_lock =
     publish_locked m (trim_space key) (trim_space expected) (trim_space actor) allow_lock"

definition manager_publish :: "'w manager \<Rightarrow> string \<Rightarrow> string \<Rightarrow> string \<Rightarrow> ('w managed, template_record) io" where
  "manager_publish m key expected actor = manager_publish_with m key expected actor False"

definition publish_approved :: "'w manager \<Rightarrow> string \<Rightarrow> string \<Rightarrow> string \<Rightarrow> ('w managed, template_record) io" where
  "publish_approved m key expected actor = manager_publish_with m key expected actor True"

definition disable_error :: "string \<Rightarrow> err \<Rightarrow> err" where
  "disable_error key e = (if errors_is e ErrRecordNotFound
     then new_error ErrorNotFound ''backend.notification.template_not_found'' (Some e) [(''template_key'', key)]
     else map_record_conflict key e)"

definition manager_disable :: "'w manager \<Rightarrow> string \<Rightarrow> string \<Rightarrow> string \<Rightarrow> ('w managed, template_record) io" where
  "manager_disable m key0 expected actor = (let key = trim_space key0 in
     bind_io (ensure_unlocked m key) (\<lambda>_.
     bind_io (mapping_errors (disable_error key)
       (on_shared (ts_disable (mg_store m) key (trim_space expected) (trim_space actor)))) (\<lambda>r.
     bind_io (engine_remove key) (\<lambda>_. ret r))))"

definition preview_request :: "workspace_id \<Rightarrow> string \<Rightarrow> string \<Rightarrow> user_id list \<Rightarrow> variables \<Rightarrow> render_request" where
  "preview_request ws key locale us vars = \<lparr>rn_workspace = ws, rn_template = key, rn_locale = locale,
     rn_recipients = us, rn_variables = vars, rn_metadata = []\<rparr>"

definition preview :: "'w manager \<Rightarrow> workspace_id \<Rightarrow> string \<Rightarrow> string \<Rightarrow> user_id list \<Rightarrow> variables \<Rightarrow>
    ('w managed, rendered) io" where
  "preview m ws key locale us vars =
     bind_io (on_shared (ts_get (mg_store m) (trim_space key))) (\<lambda>found. case found of
       None \<Rightarrow> fail (not_found ''backend.notification.template_not_found'' (key_param key))
     | Some r \<Rightarrow> (case (case tr_draft r of None \<Rightarrow> tr_published r | d \<Rightarrow> d) of
         None \<Rightarrow> fail (not_found ''backend.notification.template_content_not_found'' (key_param key))
       | Some v \<Rightarrow> on_shared (render_template (mg_engine m) v (preview_request ws key locale us vars))))"

definition preview_template :: "'w manager \<Rightarrow> workspace_id \<Rightarrow> template \<Rightarrow> string \<Rightarrow> user_id list \<Rightarrow> variables \<Rightarrow>
    ('w managed, rendered) io" where
  "preview_template m ws value locale us vars =
     (let v = value\<lparr>te_status := ''draft'', te_version := max 1 (te_version value)\<rparr> in
      on_shared (render_template (mg_engine m) v (preview_request ws (te_key v) locale us vars)))"

end
