(* ===== verification/Publication_Processor.thy ===== *)
theory Publication_Processor
  imports Template_Manager Inbox_Processor
begin

text \<open>
  The publication processor, internal/application/template/publication_processor.go: requests,
  approvals, rejections and cancellations of publications, and the worker that publishes what
  is due. It is a client of the template store and of the manager; the generator of request
  identifiers, the check that the approver may still approve, and the notifier are the host's.
  \<open>now\<close> is what the clock says at the start of an operation, \<open>later\<close> what it says when a
  claimed publication is finished.
\<close>

record 'w publication_processor =
  px_store :: "'w template_store"
  px_manager :: "'w manager"
  px_worker :: string
  px_notifier :: "'w notifier option"
  px_new_id :: "('w, string) io"
  px_authorize :: "string \<Rightarrow> ('w, bool) io"

definition publication_lease_duration :: int where "publication_lease_duration = 2 * minute_ns"

definition publication_request_id :: "string \<Rightarrow> string" where
  "publication_request_id random = ''ntpub_'' @ hex_encode random"

definition about_request :: "string \<Rightarrow> string list" where
  "about_request i = [''publication_id'', i]"

definition publication_status_conflict :: "string \<Rightarrow> err option \<Rightarrow> err" where
  "publication_status_conflict i cause =
     new_error ErrorConflict ''backend.notification.publication_status_conflict'' cause (pair_params (about_request i))"

definition status_error :: "string \<Rightarrow> err \<Rightarrow> err" where
  "status_error i e = (if errors_is e ErrPublicationConflict then publication_status_conflict i (Some e) else e)"

definition self_approval :: "string \<Rightarrow> err" where
  "self_approval i = conflict ''backend.notification.publication_self_approval_forbidden'' (about_request i)"

definition list_requests :: "'w publication_processor \<Rightarrow> string \<Rightarrow> ('w managed, publication_request list) io" where
  "list_requests p key = on_shared (ts_requests (px_store p) (trim_space key))"

definition require_request :: "'w publication_processor \<Rightarrow> string \<Rightarrow> ('w managed, publication_request) io" where
  "require_request p i = bind_io (on_shared (ts_request (px_store p) i)) (\<lambda>found. case found of
     None \<Rightarrow> fail (not_found ''backend.notification.publication_not_found'' (about_request i))
   | Some q \<Rightarrow> ret q)"

section \<open>Requesting\<close>

definition publication_schedule :: "instant \<Rightarrow> string \<Rightarrow> string \<Rightarrow> err + string" where
  "publication_schedule now key scheduled0 = (let scheduled = trim_space scheduled0 in
     if scheduled = [] then Inr []
     else case parse_rfc3339 scheduled of
       Some t \<Rightarrow> if now < t then Inr (timestamp t)
         else Inl (invalid ''backend.notification.publication_schedule_invalid'' (key_param key))
     | None \<Rightarrow> Inl (invalid ''backend.notification.publication_schedule_invalid'' (key_param key)))"

definition new_request ::
  "string \<Rightarrow> string \<Rightarrow> template \<Rightarrow> string \<Rightarrow> string \<Rightarrow> string \<Rightarrow> instant \<Rightarrow> publication_request" where
  "new_request i key snapshot draft_updated scheduled actor now = \<lparr>pr_id = i, pr_template_key = key,
     pr_snapshot = snapshot, pr_candidate_hash = candidate_hash snapshot, pr_draft_updated = draft_updated,
     pr_status = PublicationPending, pr_scheduled_for = scheduled, pr_requested_by = actor,
     pr_requested_at = timestamp now, pr_reviewed_by = [], pr_reviewed_at = [], pr_published_version = 0,
     pr_failure = [], pr_owner = [], pr_lease = [], pr_token = 0, pr_updated = timestamp now\<rparr>"

definition create_error :: "string \<Rightarrow> err \<Rightarrow> err" where
  "create_error key e = (if errors_is e ErrPublicationConflict
     then new_error ErrorConflict ''backend.notification.template_publication_locked'' (Some e) [(''template_key'', key)] else e)"

definition submit_request ::
  "'w publication_processor \<Rightarrow> instant \<Rightarrow> string \<Rightarrow> template \<Rightarrow> string \<Rightarrow> string \<Rightarrow> string \<Rightarrow> ('w managed, publication_request) io" where
  "submit_request p now key snapshot draft_updated scheduled actor =
     bind_io (mapping_errors (Wrapped ''generate notification publication request id'') (on_shared (px_new_id p))) (\<lambda>i.
     guard_io (trim_space i = []) (ErrorText ''generate notification publication request id: empty id'')
    (let q = new_request (trim_space i) key snapshot draft_updated scheduled actor now in
     bind_io (mapping_errors (create_error key) (on_shared (ts_create (px_store p) q))) (\<lambda>_. ret q)))"

definition request_publication ::
  "'w publication_processor \<Rightarrow> instant \<Rightarrow> string \<Rightarrow> string \<Rightarrow> string \<Rightarrow> string \<Rightarrow> ('w managed, publication_request) io" where
  "request_publication p now key0 scheduled expected actor0 =
     (let key = trim_space key0; actor = trim_space actor0 in
      guard_io (key = [] \<or> actor = []) (invalid ''backend.notification.publication_identity_required'' (key_param key))
     (bind_io (on_shared (ts_get (px_store p) key)) (\<lambda>found.
      case Option.bind found (\<lambda>r. map_option (\<lambda>v. (r, v)) (tr_draft r)) of
        None \<Rightarrow> fail (not_found ''backend.notification.template_draft_not_found'' (key_param key))
      | Some (r, draft) \<Rightarrow>
          guard_io (expected \<noteq> [] \<and> expected \<noteq> tr_updated r)
            (conflict ''backend.notification.template_conflict'' (key_param key))
         (bind_io (on_shared (ts_has_open (px_store p) key)) (\<lambda>locked.
          guard_io locked (conflict ''backend.notification.template_publication_locked'' (key_param key))
         (let snapshot = draft\<lparr>te_key := key, te_status := ''draft''\<rparr> in
          checked (validate_editable (ed_capabilities (mg_engine (px_manager p))) snapshot)
         (case publication_schedule now key scheduled of
            Inl e \<Rightarrow> fail e
          | Inr at \<Rightarrow> submit_request p now key snapshot (tr_updated r) at actor)))))))"

section \<open>Reviewing\<close>

definition approval :: "instant \<Rightarrow> string \<Rightarrow> publication_request \<Rightarrow> publication_transition" where
  "approval now actor q = \<lparr>tn_status = PublicationScheduled,
     tn_scheduled_for = (if pr_scheduled_for q = [] then timestamp now else pr_scheduled_for q),
     tn_reviewed_by = actor, tn_reviewed_at = timestamp now, tn_published_version = 0, tn_failure = [],
     tn_owner = [], tn_token = 0, tn_updated = timestamp now\<rparr>"

definition notify_publication :: "'w publication_processor \<Rightarrow> string \<Rightarrow> ('w managed, unit) io" where
  "notify_publication p i =
     on_shared (notify (px_notifier p) \<lparr>wk_kind = WorkPublication, wk_workspace = [], wk_task = i\<rparr>)"

definition approve_publication ::
  "'w publication_processor \<Rightarrow> instant \<Rightarrow> string \<Rightarrow> string \<Rightarrow> ('w managed, publication_request) io" where
  "approve_publication p now i0 actor0 = (let i = trim_space i0; actor = trim_space actor0 in
     bind_io (require_request p i) (\<lambda>q.
     guard_io (pr_requested_by q = actor) (self_approval i)
    (guard_io (pr_status q \<noteq> PublicationPending) (publication_status_conflict i None)
    (bind_io (mapping_errors (status_error i)
       (on_shared (ts_transition (px_store p) i PublicationPending (approval now actor q)))) (\<lambda>v.
     bind_io (notify_publication p (pr_id v)) (\<lambda>_. ret v))))))"

definition plain_transition :: "instant \<Rightarrow> publication_status \<Rightarrow> string \<Rightarrow> string \<Rightarrow> publication_transition" where
  "plain_transition now st actor failure = \<lparr>tn_status = st, tn_scheduled_for = [], tn_reviewed_by = actor,
     tn_reviewed_at = timestamp now, tn_published_version = 0, tn_failure = failure, tn_owner = [],
     tn_token = 0, tn_updated = timestamp now\<rparr>"

definition reject_publication ::
  "'w publication_processor \<Rightarrow> instant \<Rightarrow> string \<Rightarrow> string \<Rightarrow> string \<Rightarrow> ('w managed, publication_request) io" where
  "reject_publication p now i actor0 reason0 = (let reason = trim_space reason0; actor = trim_space actor0 in
     guard_io (reason = []) (invalid ''backend.notification.publication_rejection_reason_required'' (about_request i))
    (bind_io (require_request p (trim_space i)) (\<lambda>q.
     guard_io (pr_requested_by q = actor) (self_approval (pr_id q))
    (mapping_errors (status_error (pr_id q))
      (on_shared (ts_transition (px_store p) (pr_id q) PublicationPending
        (plain_transition now PublicationRejected actor reason)))))))"

definition cancel_publication ::
  "'w publication_processor \<Rightarrow> instant \<Rightarrow> string \<Rightarrow> string \<Rightarrow> ('w managed, publication_request) io" where
  "cancel_publication p now i actor =
     bind_io (require_request p (trim_space i)) (\<lambda>q.
     guard_io (pr_status q \<noteq> PublicationPending \<and> pr_status q \<noteq> PublicationScheduled)
       (publication_status_conflict (pr_id q) None)
    (mapping_errors (status_error (pr_id q))
      (on_shared (ts_transition (px_store p) (pr_id q) (pr_status q)
        (plain_transition now PublicationCancelled (trim_space actor) [])))))"

section \<open>Publishing\<close>

definition ending :: "instant \<Rightarrow> publication_request \<Rightarrow> publication_status \<Rightarrow> int \<Rightarrow> string \<Rightarrow> publication_transition" where
  "ending later q st version failure = \<lparr>tn_status = st, tn_scheduled_for = pr_scheduled_for q,
     tn_reviewed_by = pr_reviewed_by q, tn_reviewed_at = pr_reviewed_at q, tn_published_version = version,
     tn_failure = failure, tn_owner = pr_owner q, tn_token = pr_token q, tn_updated = timestamp later\<rparr>"

definition finish_publication ::
  "'w publication_processor \<Rightarrow> instant \<Rightarrow> publication_request \<Rightarrow> publication_status \<Rightarrow> int \<Rightarrow> string \<Rightarrow>
   ('w managed, publication_request) io" where
  "finish_publication p later q st version failure =
     bind_io (attempt (on_shared (ts_transition (px_store p) (pr_id q) PublicationPublishing
       (ending later q st version failure)))) (\<lambda>r. case r of
       Inr v \<Rightarrow> ret v
     | Inl e \<Rightarrow> if \<not> errors_is e ErrPublicationConflict then fail e
         else bind_io (attempt (on_shared (ts_request (px_store p) (pr_id q)))) (\<lambda>current. case current of
           Inr (Some c) \<Rightarrow> if pr_status c = st then ret c else fail e
         | _ \<Rightarrow> fail e))"

definition has_candidate :: "string \<Rightarrow> template option \<Rightarrow> bool" where
  "has_candidate h t \<longleftrightarrow> (case t of None \<Rightarrow> False | Some v \<Rightarrow> candidate_hash v = h)"

text \<open>The record already holds the candidate as its published content and has no newer draft.\<close>

definition already_published :: "publication_request \<Rightarrow> template_record option \<Rightarrow> bool" where
  "already_published q found \<longleftrightarrow> (case found of None \<Rightarrow> False
     | Some r \<Rightarrow> has_candidate (pr_candidate_hash q) (tr_published r) \<and> tr_draft r = None)"

definition candidate_current :: "publication_request \<Rightarrow> template_record option \<Rightarrow> bool" where
  "candidate_current q found \<longleftrightarrow> (case found of None \<Rightarrow> False
     | Some r \<Rightarrow> has_candidate (pr_candidate_hash q) (tr_draft r) \<and> tr_updated r = pr_draft_updated q)"

definition version_of :: "template_record option \<Rightarrow> int" where
  "version_of found = (case found of None \<Rightarrow> 0 | Some r \<Rightarrow> tr_version r)"

definition failure_code :: "err \<Rightarrow> string" where
  "failure_code e = (if error_code e = [] then ''backend.notification.publication_failed'' else error_code e)"

text \<open>The end after the manager failed: the candidate may have been published all the same.\<close>

definition publication_failed ::
  "'w publication_processor \<Rightarrow> instant \<Rightarrow> publication_request \<Rightarrow> err \<Rightarrow> ('w managed, publication_request) io" where
  "publication_failed p later q e =
     bind_io (attempt (on_shared (ts_get (px_store p) (pr_template_key q)))) (\<lambda>current.
     case current of
       Inr (Some r) \<Rightarrow>
         if has_candidate (pr_candidate_hash q) (tr_published r)
         then finish_publication p later q PublicationPublished (tr_version r) []
         else bind_io (finish_publication p later q PublicationFailed 0 (failure_code e)) (\<lambda>_. fail e)
     | _ \<Rightarrow> bind_io (finish_publication p later q PublicationFailed 0 (failure_code e)) (\<lambda>_. fail e))"

definition publish_candidate ::
  "'w publication_processor \<Rightarrow> instant \<Rightarrow> publication_request \<Rightarrow> ('w managed, publication_request) io" where
  "publish_candidate p later q =
     bind_io (attempt (publish_approved (px_manager p) (pr_template_key q) (pr_draft_updated q) (pr_reviewed_by q)))
       (\<lambda>r. case r of Inr published \<Rightarrow> finish_publication p later q PublicationPublished (tr_version published) []
        | Inl e \<Rightarrow> publication_failed p later q e)"

definition publish_claimed ::
  "'w publication_processor \<Rightarrow> instant \<Rightarrow> publication_request \<Rightarrow> ('w managed, publication_request) io" where
  "publish_claimed p later q =
     bind_io (on_shared (px_authorize p (pr_reviewed_by q))) (\<lambda>allowed.
     if \<not> allowed
     then bind_io (finish_publication p later q PublicationFailed 0 ''backend.notification.publication_authorization_revoked'')
       (\<lambda>_. fail (forbidden ''backend.notification.publication_authorization_revoked'' (about_request (pr_id q))))
     else bind_io (on_shared (ts_get (px_store p) (pr_template_key q))) (\<lambda>found.
       if already_published q found then finish_publication p later q PublicationPublished (version_of found) []
       else if \<not> candidate_current q found
       then bind_io (finish_publication p later q PublicationSuperseded 0 ''backend.notification.publication_candidate_changed'')
         (\<lambda>_. fail (conflict ''backend.notification.publication_candidate_changed'' (about_request (pr_id q))))
       else publish_candidate p later q))"

definition claim_due ::
  "'w publication_processor \<Rightarrow> instant \<Rightarrow> string \<Rightarrow> ('w managed, publication_request option) io" where
  "claim_due p now i = on_shared (ts_claim (px_store p) i (px_worker p) (timestamp now)
     (timestamp (now + publication_lease_duration)))"

definition process_publication :: "'w publication_processor \<Rightarrow> instant \<Rightarrow> instant \<Rightarrow> string \<Rightarrow> ('w managed, bool) io" where
  "process_publication p now later i =
     bind_io (claim_due p now (trim_space i)) (\<lambda>c. case c of None \<Rightarrow> ret False
      | Some q \<Rightarrow> bind_io (attempt (publish_claimed p later q)) (\<lambda>_. ret True))"

definition due_publications :: "'w publication_processor \<Rightarrow> instant \<Rightarrow> int \<Rightarrow> ('w managed, publication_request list) io" where
  "due_publications p now limit =
     on_shared (ts_due (px_store p) (timestamp now) (timestamp now) (publication_limit limit))"

definition process_due_publications :: "'w publication_processor \<Rightarrow> instant \<Rightarrow> instant \<Rightarrow> int \<Rightarrow> ('w managed, int) io" where
  "process_due_publications p now later limit =
     bind_io (due_publications p now limit) (\<lambda>qs.
     fold_io (\<lambda>q processed. bind_io (claim_due p now (pr_id q)) (\<lambda>c. case c of
         None \<Rightarrow> ret processed
       | Some v \<Rightarrow> bind_io (attempt (publish_claimed p later v)) (\<lambda>_. ret (processed + 1)))) qs 0)"

definition publication_lag :: "instant \<Rightarrow> publication_request list \<Rightarrow> int" where
  "publication_lag now qs = fold (\<lambda>q lag. case parse_rfc3339 (pr_scheduled_for q) of
     None \<Rightarrow> lag | Some t \<Rightarrow> if t < now \<and> lag < now - t then now - t else lag) qs 0"

definition publication_queue_stats :: "'w publication_processor \<Rightarrow> instant \<Rightarrow> int \<Rightarrow> ('w managed, int \<times> int) io" where
  "publication_queue_stats p now limit =
     bind_io (due_publications p now limit) (\<lambda>qs. ret (int (length qs), publication_lag now qs))"

end
