(* ===== verification/Template_Catalog.thy ===== *)
theory Template_Catalog
  imports Template_Manager Template_Safety
begin

text \<open>
  Correctness of the manager over the contract of its store, the locale \<open>template_contract\<close>:
  after a reload the catalog of the process holds exactly the active published templates, and
  a publication replaces the draft by a published content with the same candidate hash and a
  higher version number. The SQL store is the interpretation.
\<close>

definition catalog_ok :: "(string \<times> template) list \<Rightarrow> bool" where
  "catalog_ok c \<longleftrightarrow> (\<forall>(k, t) \<in> set c. te_key t = k \<and> trim_space k = k)"

lemma map_of_put [simp]: "map_of (catalog_put t c) k = (if k = te_key t then Some t else map_of c k)"
proof -
  have "map_of (filter (\<lambda>(k, _). k \<noteq> te_key t) c @ [(te_key t, t)]) k =
      (case map_of (filter (\<lambda>(k, _). k \<noteq> te_key t) c) k of None \<Rightarrow> map_of [(te_key t, t)] k | v \<Rightarrow> v)"
    by (simp add: map_add_def split: option.splits)
  moreover have "map_of (filter (\<lambda>(k, _). k \<noteq> te_key t) c) k = (if k = te_key t then None else map_of c k)"
    by (induction c) auto
  ultimately show ?thesis by (simp add: catalog_put_def split: option.splits)
qed

lemma map_of_delete [simp]: "map_of (catalog_delete key c) k = (if k = key then None else map_of c k)"
  unfolding catalog_delete_def by (induction c) auto

lemma catalog_ok_put: "catalog_ok c \<Longrightarrow> trim_space (te_key t) = te_key t \<Longrightarrow> catalog_ok (catalog_put t c)"
  by (auto simp: catalog_ok_def catalog_put_def)

lemma on_shared_Inr:
  assumes "on_shared m s = (Inr a, s')"
  obtains w where "m (mn_shared s) = (Inr a, w)" "s' = s\<lparr>mn_shared := w\<rparr>"
  using assms by (auto simp: on_shared_def split: prod.splits)

lemma mapping_errors_Inr: "mapping_errors f m s = (Inr a, s') \<longleftrightarrow> m s = (Inr a, s')"
  by (auto simp: mapping_errors_def split: prod.splits sum.splits)

lemma checked_Inr: "checked e m s = (Inr a, s') \<longleftrightarrow> e = None \<and> m s = (Inr a, s')"
  by (cases e) (auto simp: checked_def)

lemma engine_upsert_Inr:
  "engine_upsert cs t s = (Inr u, s') \<Longrightarrow> s' = s\<lparr>mn_catalog := catalog_put (as_published t) (mn_catalog s)\<rparr>"
  by (auto simp: engine_upsert_def Let_def split: option.splits)

section \<open>Reloading\<close>

text \<open>What the records say the catalog should hold under a key.\<close>

definition wanted :: "template_record list \<Rightarrow> string \<Rightarrow> template option" where
  "wanted rs k = (case List.find (\<lambda>r. tr_key r = k) rs of None \<Rightarrow> None | Some r \<Rightarrow> active_published r)"

lemma upserts_Inr:
  assumes "for_each (upsert_record m) rs s = (Inr u, s')" "distinct (map tr_key rs)"
    and "\<And>r t. r \<in> set rs \<Longrightarrow> active_published r = Some t \<Longrightarrow> te_key t = tr_key r \<and> trim_space (tr_key r) = tr_key r"
    and "catalog_ok (mn_catalog s)"
  shows "mn_shared s' = mn_shared s \<and> catalog_ok (mn_catalog s') \<and>
    (\<forall>k. map_of (mn_catalog s') k = (case wanted rs k of Some t \<Rightarrow> Some (as_published t) | None \<Rightarrow> map_of (mn_catalog s) k))"
  using assms
proof (induction rs arbitrary: s)
  case Nil
  then show ?case by (simp add: wanted_def)
next
  case (Cons r rs)
  from Cons.prems(1) obtain s1 where s1: "upsert_record m r s = (Inr (), s1)" "for_each (upsert_record m) rs s1 = (Inr u, s')"
    by (auto simp: bind_io_Inr)
  show ?case
  proof (cases "active_published r")
    case None
    with s1 have same: "s1 = s" by (simp add: upsert_record_def)
    have ih: "mn_shared s' = mn_shared s1 \<and> catalog_ok (mn_catalog s') \<and>
      (\<forall>k. map_of (mn_catalog s') k = (case wanted rs k of Some t \<Rightarrow> Some (as_published t) | None \<Rightarrow> map_of (mn_catalog s1) k))"
      by (rule Cons.IH [OF s1(2)]) (use Cons.prems same in auto)
    have no: "wanted rs (tr_key r) = None"
      using Cons.prems(2) by (auto simp: wanted_def find_Some_iff split: option.splits) (metis nth_mem image_eqI)
    have "wanted (r # rs) k = wanted rs k" for k
      using None no by (auto simp: wanted_def)
    with ih [unfolded same] show ?thesis by simp
  next
    case (Some t)
    with Cons.prems(3) [of r t] have key: "te_key t = tr_key r" "trim_space (tr_key r) = tr_key r" by auto
    from s1(1) Some have e: "s1 = s\<lparr>mn_catalog := catalog_put (as_published t) (mn_catalog s)\<rparr>"
      by (auto simp: upsert_record_def dest: engine_upsert_Inr)
    have ok: "catalog_ok (mn_catalog s1)"
      unfolding e using Cons.prems(4) key by (simp add: catalog_ok_put)
    have ih: "mn_shared s' = mn_shared s1 \<and> catalog_ok (mn_catalog s') \<and>
      (\<forall>k. map_of (mn_catalog s') k = (case wanted rs k of Some t \<Rightarrow> Some (as_published t) | None \<Rightarrow> map_of (mn_catalog s1) k))"
      by (rule Cons.IH [OF s1(2) _ _ ok]) (use Cons.prems in auto)
    have no: "wanted rs (tr_key r) = None"
      using Cons.prems(2) by (auto simp: wanted_def find_Some_iff split: option.splits) (metis nth_mem image_eqI)
    have w: "wanted (r # rs) k = (if k = tr_key r then Some t else wanted rs k)" for k
      using Some by (simp add: wanted_def)
    from ih e key no show ?thesis unfolding w by (auto split: option.splits)
  qed
qed

lemma removals_Inr:
  assumes "for_each (\<lambda>t. if te_key t \<in> set active then ret () else engine_remove (te_key t)) ts s = (Inr u, s')"
    and "\<And>t. t \<in> set ts \<Longrightarrow> trim_space (te_key t) = te_key t" "catalog_ok (mn_catalog s)"
  shows "mn_shared s' = mn_shared s \<and> catalog_ok (mn_catalog s') \<and>
    (\<forall>k. map_of (mn_catalog s') k = (if k \<in> te_key ` set ts - set active then None else map_of (mn_catalog s) k))"
  using assms
proof (induction ts arbitrary: s)
  case (Cons t ts)
  let ?s1 = "if te_key t \<in> set active then s else s\<lparr>mn_catalog := catalog_delete (te_key t) (mn_catalog s)\<rparr>"
  from Cons.prems(1,2) have rest: "for_each (\<lambda>t. if te_key t \<in> set active then ret () else engine_remove (te_key t)) ts ?s1 = (Inr u, s')"
    by (auto simp: bind_io_Inr engine_remove_def split: if_splits)
  have ok: "catalog_ok (mn_catalog ?s1)"
    using Cons.prems(3) by (auto simp: catalog_ok_def catalog_delete_def)
  from Cons.IH [OF rest _ ok] Cons.prems(2) show ?case by auto
qed simp

lemma catalog_ok_keys: "catalog_ok c \<Longrightarrow> map_of c k \<noteq> None \<Longrightarrow> k \<in> te_key ` set (engine_templates c)"
proof -
  assume ok: "catalog_ok c" and "map_of c k \<noteq> None"
  then obtain t where "(k, t) \<in> set c" by (auto dest: map_of_SomeD)
  with ok have "te_key t = k" "t \<in> snd ` set c" by (force simp: catalog_ok_def)+
  then show ?thesis by (auto simp: engine_templates_def)
qed

locale template_contract =
  fixes store :: "'w template_store"
    and record_in :: "'w \<Rightarrow> string \<Rightarrow> template_record option"
    and sound :: "'w \<Rightarrow> bool"
  assumes get_read: "ts_get store k w = (Inr found, w') \<Longrightarrow> found = record_in w (trim_space k) \<and> record_in w' = record_in w"
    and list_read: "sound w \<Longrightarrow> ts_list store w = (Inr rs, w') \<Longrightarrow> record_in w' = record_in w \<and>
      distinct (map tr_key rs) \<and> (\<forall>r. r \<in> set rs \<longleftrightarrow> record_in w (tr_key r) = Some r)"
    and record_keys: "sound w \<Longrightarrow> record_in w k = Some r \<Longrightarrow> tr_key r = k \<and> trim_space k = k \<and>
      (\<forall>t. tr_draft r = Some t \<or> tr_published r = Some t \<longrightarrow> te_key t = k)"
    and revision_read: "ts_revision store = Some read \<Longrightarrow> read w = (Inr revision, w') \<Longrightarrow> record_in w' = record_in w \<and> (sound w \<longrightarrow> sound w')"
    and publish_law: "ts_publish store v e a w = (Inr rec, w') \<Longrightarrow> trim_space (te_key v) = te_key v \<Longrightarrow>
      \<exists>old. record_in w (te_key v) = Some old \<and> (e = [] \<or> tr_updated old = e) \<and>
        tr_draft rec = None \<and> tr_published rec = Some (as_published v) \<and> tr_version rec = te_version v \<and>
        record_in w' = (record_in w)(te_key v \<mapsto> rec)"
begin

lemma wanted_records:
  assumes "sound w" "ts_list store w = (Inr rs, w')"
  shows "wanted rs k = Option.bind (record_in w k) active_published"
proof (cases "List.find (\<lambda>r. tr_key r = k) rs")
  case None
  then have "\<And>r. r \<in> set rs \<Longrightarrow> tr_key r \<noteq> k" by (auto simp: find_None_iff)
  with list_read [OF assms] record_keys [OF assms(1)] have "record_in w k = None"
    by (metis option.exhaust)
  with None show ?thesis by (simp add: wanted_def)
next
  case (Some r)
  then have "r \<in> set rs" "tr_key r = k" by (auto simp: find_Some_iff)
  with list_read [OF assms] have "record_in w k = Some r" by blast
  with Some show ?thesis by (simp add: wanted_def)
qed

lemma reloaded:
  assumes "reload_published m s = (Inr u, s')" "mg_store m = store" "sound (mn_shared s)" "catalog_ok (mn_catalog s)"
  shows "map_of (mn_catalog s') k = map_option as_published (Option.bind (record_in (mn_shared s) k) active_published)"
proof -
  from assms(1,2) obtain rs s1 s2 where l: "on_shared (ts_list store) s = (Inr rs, s1)"
    and up: "for_each (upsert_record m) rs s1 = (Inr (), s2)"
    and rm: "remove_inactive (map tr_key (filter (\<lambda>r. active_published r \<noteq> None) rs)) s2 = (Inr u, s')"
    by (auto simp: reload_published_def bind_io_Inr)
  from l obtain w where w: "ts_list store (mn_shared s) = (Inr rs, w)" "s1 = s\<lparr>mn_shared := w\<rparr>"
    by (rule on_shared_Inr)
  note facts = list_read [OF assms(3) w(1)]
  have keys: "te_key t = tr_key r \<and> trim_space (tr_key r) = tr_key r"
    if "r \<in> set rs" "active_published r = Some t" for r t
  proof -
    from facts that(1) have "record_in (mn_shared s) (tr_key r) = Some r" by blast
    from record_keys [OF assms(3) this] that(2) show ?thesis
      by (auto simp: active_published_def split: if_splits)
  qed
  have cat1: "catalog_ok (mn_catalog s1)" using assms(4) w(2) by simp
  have up': "catalog_ok (mn_catalog s2) \<and> (\<forall>k. map_of (mn_catalog s2) k =
      (case wanted rs k of Some t \<Rightarrow> Some (as_published t) | None \<Rightarrow> map_of (mn_catalog s) k))"
  proof -
    have dist: "distinct (map tr_key rs)" using facts by blast
    have cat: "mn_catalog s1 = mn_catalog s" using w(2) by simp
    have "mn_shared s2 = mn_shared s1 \<and> catalog_ok (mn_catalog s2) \<and> (\<forall>k. map_of (mn_catalog s2) k =
      (case wanted rs k of Some t \<Rightarrow> Some (as_published t) | None \<Rightarrow> map_of (mn_catalog s1) k))"
      by (rule upserts_Inr [OF up dist _ cat1]) (rule keys)
    then show ?thesis unfolding cat by blast
  qed
  let ?active = "map tr_key (filter (\<lambda>r. active_published r \<noteq> None) rs)"
  have trimmed: "trim_space (te_key t) = te_key t" if "t \<in> set (engine_templates (mn_catalog s2))" for t
    using that up' by (auto simp: engine_templates_def catalog_ok_def)
  have rm': "map_of (mn_catalog s') k = (if k \<in> te_key ` set (engine_templates (mn_catalog s2)) - set ?active
      then None else map_of (mn_catalog s2) k)"
    using removals_Inr [OF rm [unfolded remove_inactive_def] trimmed] up' by simp
  have act: "k \<in> set ?active \<longleftrightarrow> wanted rs k \<noteq> None"
  proof
    assume "k \<in> set ?active"
    then obtain r where r: "r \<in> set rs" "tr_key r = k" "active_published r \<noteq> None" by auto
    with facts have "record_in (mn_shared s) k = Some r" by blast
    with r(3) wanted_records [OF assms(3) w(1), of k] show "wanted rs k \<noteq> None" by simp
  next
    assume "wanted rs k \<noteq> None"
    then obtain r where f: "List.find (\<lambda>r. tr_key r = k) rs = Some r" "active_published r \<noteq> None"
      unfolding wanted_def by (cases "List.find (\<lambda>r. tr_key r = k) rs") simp_all
    then have "r \<in> set rs" "tr_key r = k" by (auto simp: find_Some_iff)
    with f(2) show "k \<in> set ?active" by auto
  qed
  show ?thesis
  proof (cases "wanted rs k")
    case (Some t)
    with act rm' up' have "map_of (mn_catalog s') k = Some (as_published t)" by auto
    with Some wanted_records [OF assms(3) w(1), of k] show ?thesis by simp
  next
    case None
    with act have "k \<notin> set ?active" by simp
    with rm' catalog_ok_keys [of "mn_catalog s2" k] up' have "map_of (mn_catalog s') k = None" by auto
    with None wanted_records [OF assms(3) w(1), of k] show ?thesis by simp
  qed
qed

lemma refreshed:
  assumes "refresh_published m s = (Inr u, s')" "mg_store m = store" "sound (mn_shared s)" "catalog_ok (mn_catalog s)"
  shows "mn_catalog s' = mn_catalog s \<and> mn_reconciled s \<and>
      (\<exists>read w. ts_revision store = Some read \<and> read (mn_shared s) = (Inr (mn_revision s), w)) \<or>
    (\<forall>k. map_of (mn_catalog s') k = map_option as_published (Option.bind (record_in (mn_shared s) k) active_published))"
proof (cases "ts_revision store")
  case None
  with assms reloaded show ?thesis by (simp add: refresh_published_def)
next
  case (Some read)
  with assms(1,2) obtain v s1 where r: "on_shared read s = (Inr v, s1)"
    and rest: "(if mn_reconciled s1 \<and> v = mn_revision s1 then (Inr (), s1)
       else bind_io (reload_published m) (\<lambda>_. reconciled_at v) s1) = (Inr u, s')"
    by (auto simp: refresh_published_def bind_io_Inr)
  from r obtain w where w: "read (mn_shared s) = (Inr v, w)" "s1 = s\<lparr>mn_shared := w\<rparr>" by (rule on_shared_Inr)
  from revision_read [OF Some w(1)] assms(3) have same: "record_in w = record_in (mn_shared s)" "sound w" by auto
  show ?thesis
  proof (cases "mn_reconciled s1 \<and> v = mn_revision s1")
    case True
    with rest w Some show ?thesis by auto
  next
    case False
    with rest obtain s2 where "reload_published m s1 = (Inr (), s2)" "mn_catalog s' = mn_catalog s2"
      by (auto simp: bind_io_Inr reconciled_at_def)
    with reloaded [OF this(1) assms(2)] w(2) same assms(4) show ?thesis by simp
  qed
qed

lemma validate_targets_reads:
  assumes "validate_fallback_targets m t s = (Inr u, s')" "mg_store m = store"
  shows "record_in (mn_shared s') = record_in (mn_shared s) \<and> mn_catalog s' = mn_catalog s"
proof -
  have "record_in (mn_shared s') = record_in (mn_shared s) \<and> mn_catalog s' = mn_catalog s"
    if "for_each (\<lambda>f. bind_io (on_shared (ts_get (mg_store m) (trim_space (fb_template f)))) (\<lambda>found.
     guard_io (\<not> fallback_available found)
       (invalid ''backend.notification.fallback_template_unavailable''
         [''template_key'', te_key t, ''fallback_template_key'', fb_template f]) (ret ()))) fs s = (Inr u, s')" for fs s
    using that
  proof (induction fs arbitrary: s)
    case (Cons f fs)
    then obtain found s1 where g: "on_shared (ts_get store (trim_space (fb_template f))) s = (Inr found, s1)"
      and rest: "for_each (\<lambda>f. bind_io (on_shared (ts_get (mg_store m) (trim_space (fb_template f)))) (\<lambda>found.
       guard_io (\<not> fallback_available found)
       (invalid ''backend.notification.fallback_template_unavailable''
         [''template_key'', te_key t, ''fallback_template_key'', fb_template f]) (ret ()))) fs s1 = (Inr u, s')"
      using assms(2) by (auto simp: bind_io_Inr guard_io_Inr)
    from g obtain w where "ts_get store (trim_space (fb_template f)) (mn_shared s) = (Inr found, w)" "s1 = s\<lparr>mn_shared := w\<rparr>"
      by (rule on_shared_Inr)
    with get_read [OF this(1)] Cons.IH [OF rest] show ?case by simp
  qed simp
  with assms(1) show ?thesis by (simp add: validate_fallback_targets_def)
qed

text \<open>A publication that the application's lock allows: the draft becomes the published content.\<close>

lemma published_from_draft:
  assumes "publish_approved m key expected actor s = (Inr rec, s')" "mg_store m = store" "sound (mn_shared s)"
  shows "\<exists>old draft. record_in (mn_shared s) (trim_space key) = Some old \<and> tr_draft old = Some draft \<and>
    (trim_space expected = [] \<or> tr_updated old = trim_space expected) \<and>
    (\<exists>p. tr_published rec = Some p \<and> candidate_hash p = candidate_hash draft) \<and>
    tr_draft rec = None \<and> tr_version old < tr_version rec \<and>
    record_in (mn_shared s') = (record_in (mn_shared s))(trim_space key \<mapsto> rec) \<and>
    map_of (mn_catalog s') (trim_space key) = tr_published rec"
proof -
  let ?k = "trim_space key" and ?e = "trim_space expected" and ?a = "trim_space actor"
  from assms(1,2) obtain found s1 where g: "on_shared (ts_get store ?k) s = (Inr found, s1)"
    and rest: "(case Option.bind found (\<lambda>r. map_option (publication_of r) (tr_draft r)) of
       None \<Rightarrow> fail (not_found ''backend.notification.template_draft_not_found'' (key_param ?k))
     | Some v \<Rightarrow> publish_draft m ?k ?e ?a v) s1 = (Inr rec, s')"
    by (auto simp: publish_approved_def manager_publish_with_def publish_locked_def bind_io_Inr)
  from g obtain w where w: "ts_get store ?k (mn_shared s) = (Inr found, w)" "s1 = s\<lparr>mn_shared := w\<rparr>" by (rule on_shared_Inr)
  from get_read [OF w(1)] have found: "found = record_in (mn_shared s) ?k" "record_in w = record_in (mn_shared s)" by simp_all
  from rest obtain v where v: "Option.bind found (\<lambda>r. map_option (publication_of r) (tr_draft r)) = Some v"
    and p: "publish_draft m ?k ?e ?a v s1 = (Inr rec, s')"
    by (auto split: option.splits)
  from v found obtain old draft where old: "record_in (mn_shared s) ?k = Some old" "tr_draft old = Some draft" "v = publication_of old draft"
    by (auto simp: Option.bind_eq_Some_conv)
  from record_keys [OF assms(3) old(1)] old(2) have "te_key draft = ?k" by blast
  with old(3) have key: "te_key v = ?k" "candidate_hash v = candidate_hash draft" "tr_version old < te_version v"
    by (auto simp: publication_of_def Let_def)
  from p assms(2) obtain s2 s3 where t: "validate_fallback_targets m v s1 = (Inr (), s2)"
    and pub: "on_shared (ts_publish store v ?e ?a) s2 = (Inr rec, s3)"
    and up: "engine_upsert (ed_capabilities (mg_engine m)) v s3 = (Inr (), s')"
    by (auto simp: publish_draft_def checked_Inr bind_io_Inr mapping_errors_Inr)
  from pub obtain w3 where w3: "ts_publish store v ?e ?a (mn_shared s2) = (Inr rec, w3)" "s3 = s2\<lparr>mn_shared := w3\<rparr>"
    by (rule on_shared_Inr)
  have same: "record_in (mn_shared s2) = record_in (mn_shared s)"
    using validate_targets_reads [OF t assms(2)] w(2) found(2) by simp
  have "trim_space (te_key v) = te_key v" using key by simp
  from publish_law [OF w3(1) this] same key old engine_upsert_Inr [OF up] w3(2)
  show ?thesis by auto
qed

end

section \<open>The SQL store\<close>

lemma find_member: "List.find P xs = Some x \<Longrightarrow> x \<in> set xs \<and> P x"
  by (auto simp: find_Some_iff)

lemma template_row_key: "template_map d (ws, k) = Some r \<Longrightarrow> tr_key r = k"
  by (auto simp: template_map_def find_Some_iff scan_template_record_def template_matches_def)

lemma template_rows_unique:
  assumes "schema_ok d" "r \<in> set (db_templates d)"
  shows "template_map d (xr_workspace r, xr_key r) = Some (scan_template_record r)"
proof -
  let ?P = "template_matches (xr_workspace r) (xr_key r)"
  obtain x where x: "List.find ?P (db_templates d) = Some x"
    using assms(2) by (cases "List.find ?P (db_templates d)") (auto simp: find_None_iff template_matches_def)
  then have "x \<in> set (db_templates d)" "xr_key x = xr_key r" by (auto simp: find_Some_iff template_matches_def)
  moreover have "no_clash template_clash (db_templates d)" using assms(1) by (simp add: schema_ok_def)
  ultimately have "x = r"
    using assms(2) by (intro no_clash_unique [of template_clash "db_templates d"]) (auto simp: template_clash_def)
  with x show ?thesis by (simp add: template_map_def)
qed

lemma list_templates_Inr:
  assumes "schema_ok (db w)" "list_templates self w = (Inr rs, w')"
  shows "db w' = db w \<and> distinct (map tr_key rs) \<and> (\<forall>r. r \<in> set rs \<longleftrightarrow> template_map (db w) (self, tr_key r) = Some r)"
proof -
  let ?rows = "filter (\<lambda>r. xr_workspace r = self) (db_templates (db w))"
  from assms(2) have rs: "rs = map scan_template_record (sort_key xr_key ?rows)" and d: "db w' = db w"
    by (auto simp: list_templates_def bind_io_Inr wrapping_Inr dest!: query_Inr)
  have nc: "no_clash template_clash (db_templates (db w))" using assms(1) by (simp add: schema_ok_def)
  have "no_clash template_clash ?rows" by (rule no_clash_filter [OF nc])
  then have "distinct (map xr_key ?rows)"
    by (rule no_clash_distinct) (simp add: template_clash_def)
  then have "distinct (map xr_key (sort_key xr_key ?rows))"
    by (simp add: distinct_map)
  moreover have "tr_key \<circ> scan_template_record = xr_key"
    by (simp add: fun_eq_iff scan_template_record_def)
  ultimately have dist: "distinct (map tr_key rs)" unfolding rs by (simp only: map_map)
  have "r \<in> set rs \<longleftrightarrow> template_map (db w) (self, tr_key r) = Some r" for r
  proof
    assume "r \<in> set rs"
    then obtain x where "x \<in> set (db_templates (db w))" "xr_workspace x = self" "r = scan_template_record x"
      unfolding rs by auto
    with template_rows_unique [OF assms(1), of x] show "template_map (db w) (self, tr_key r) = Some r"
      by (simp add: scan_template_record_def)
  next
    assume "template_map (db w) (self, tr_key r) = Some r"
    then obtain x where x: "List.find (template_matches self (tr_key r)) (db_templates (db w)) = Some x"
        "r = scan_template_record x" by (auto simp: template_map_def)
    from find_member [OF x(1)] have "x \<in> set (db_templates (db w))" "xr_workspace x = self"
      by (simp_all add: template_matches_def)
    with x(2) show "r \<in> set rs" unfolding rs by auto
  qed
  with d dist show ?thesis by blast
qed

interpretation sql_templates: template_contract "sql_template_store self now"
    "\<lambda>w k. template_map (db w) (self, k)" "\<lambda>w. schema_ok (db w) \<and> keyed (db w)"
  for self now
proof unfold_locales
  fix k w found w' assume "ts_get (sql_template_store self now) k w = (Inr found, w')"
  then have "template_record_by_key self (trim_space k) w = (Inr found, w')"
    by (simp add: sql_template_store_def get_template_def Let_def guard_io_Inr)
  from template_record_by_key_Inr [OF this]
  show "found = template_map (db w) (self, trim_space k) \<and>
      (\<lambda>k. template_map (db w') (self, k)) = (\<lambda>k. template_map (db w) (self, k))" by simp
next
  fix w rs w' assume "schema_ok (db w) \<and> keyed (db w)" "ts_list (sql_template_store self now) w = (Inr rs, w')"
  with list_templates_Inr [of w self rs w']
  show "(\<lambda>k. template_map (db w') (self, k)) = (\<lambda>k. template_map (db w) (self, k)) \<and>
      distinct (map tr_key rs) \<and> (\<forall>r. r \<in> set rs \<longleftrightarrow> template_map (db w) (self, tr_key r) = Some r)"
    by (simp add: sql_template_store_def)
next
  fix w k r assume "schema_ok (db w) \<and> keyed (db w)" "template_map (db w) (self, k) = Some r"
  then show "tr_key r = k \<and> trim_space k = k \<and> (\<forall>t. tr_draft r = Some t \<or> tr_published r = Some t \<longrightarrow> te_key t = k)"
    using keyed_record template_row_key by blast
next
  fix read w revision w'
  assume "ts_revision (sql_template_store self now) = Some read" "read w = (Inr revision, w')"
  then have "db w' = db w"
    by (auto simp: sql_template_store_def published_revision_def bind_io_Inr wrapping_Inr dest!: query_Inr)
  then show "(\<lambda>k. template_map (db w') (self, k)) = (\<lambda>k. template_map (db w) (self, k)) \<and>
      (schema_ok (db w) \<and> keyed (db w) \<longrightarrow> schema_ok (db w') \<and> keyed (db w'))" by simp
next
  fix v e a w rec w'
  assume p: "ts_publish (sql_template_store self now) v e a w = (Inr rec, w')" and t: "trim_space (te_key v) = te_key v"
  have same: "v\<lparr>te_key := trim_space (te_key v)\<rparr> = v" using t by simp
  from p publish_template_effect [of self now v e a w "Inr rec" w', unfolded same]
  have "publish_effect self (timestamp now) (as_published v) e (trim_space a) (db w) rec (db w')"
    by (auto simp: sql_template_store_def)
  then show "\<exists>old. template_map (db w) (self, te_key v) = Some old \<and> (e = [] \<or> tr_updated old = e) \<and>
      tr_draft rec = None \<and> tr_published rec = Some (as_published v) \<and> tr_version rec = te_version v \<and>
      (\<lambda>k. template_map (db w') (self, k)) = (\<lambda>k. template_map (db w) (self, k))(te_key v \<mapsto> rec)"
    by (auto simp: publish_effect_def unchanged_since_def published_as_def fun_eq_iff)
qed

text \<open>\<open>RefreshPublished\<close> reconciles the process with the store: when it succeeds, either the
  revision of the store is the one the catalog was last read at and nothing was changed, or
  afterwards the catalog holds, under each key, exactly the published content of the active
  record with that key in the store, and no other template.\<close>

theorem refreshed_catalog:
  assumes "refresh_published \<lparr>mg_store = sql_template_store self now, mg_engine = engine\<rparr> s = (Inr (), s')"
    and "schema_ok (db (mn_shared s))" "keyed (db (mn_shared s))" "catalog_ok (mn_catalog s)"
  shows "mn_catalog s' = mn_catalog s \<and> mn_reconciled s \<and>
      (\<exists>w. published_revision self (mn_shared s) = (Inr (mn_revision s), w)) \<or>
    (\<forall>k. map_of (mn_catalog s') k =
      map_option as_published (Option.bind (template_map (db (mn_shared s)) (self, k)) active_published))"
  using sql_templates.refreshed [OF assms(1)] assms(2-4) by (auto simp: sql_template_store_def)

text \<open>A process that still has a template whose record was never published.\<close>

lemma refreshed_catalog_witness:
  "\<exists>s'. refresh_published \<lparr>mg_store = sql_template_store ''ws'' 0, mg_engine = sample_engine\<rparr>
      \<lparr>mn_shared = calm_world drafted_database, mn_catalog = [(''order.email'', sample_template)],
        mn_revision = [], mn_reconciled = False\<rparr> = (Inr (), s') \<and> map_of (mn_catalog s') ''order.email'' = None"
proof -
  let ?s = "\<lparr>mn_shared = calm_world drafted_database, mn_catalog = [(''order.email'', sample_template)],
        mn_revision = [], mn_reconciled = False\<rparr>"
  obtain s' where run: "refresh_published \<lparr>mg_store = sql_template_store ''ws'' 0, mg_engine = sample_engine\<rparr> ?s = (Inr (), s')"
    by (simp add: refresh_published_def sql_template_store_def on_shared_def published_revision_def statement_runs
        reload_published_def list_templates_def upsert_record_def active_published_def scan_template_record_def
        remove_inactive_def engine_templates_def engine_remove_def reconciled_at_def)
  have "schema_ok drafted_database" "keyed drafted_database"
    by (simp_all add: schema_ok_def drafted_database_def empty_database_def no_clash_def keyed_def template_map_def
        template_matches_def scan_template_record_def)
  moreover have "catalog_ok [(''order.email'', sample_template)]" by (simp add: catalog_ok_def)
  ultimately have "map_of (mn_catalog s') k =
      map_option as_published (Option.bind (template_map drafted_database (''ws'', k)) active_published)" for k
    using refreshed_catalog [OF run] by simp
  then have "map_of (mn_catalog s') ''order.email'' = None"
    by (simp add: template_map_def template_matches_def active_published_def scan_template_record_def)
  with run show ?thesis by blast
qed

end
