(* ===== verification/Publication_Workflow.thy ===== *)
theory Publication_Workflow
  imports Publication_Steps Publication_Processor Template_Catalog
begin

text \<open>
  The publication processor over the SQL store: every operation of it, with any outcome of the
  driver, is a sequence of the steps of \<open>Publication_Steps\<close>, so the invariants proved there
  hold along every history of operations of any number of processors.
\<close>

definition published_tables :: "world managed \<Rightarrow> publication_state" where
  "published_tables s = publication_state (db (mn_shared s))"

text \<open>A processor on the SQL store of the workspace \<open>self\<close>, with a host that leaves the
  notification tables alone.\<close>

definition sql_processor :: "workspace_id \<Rightarrow> instant \<Rightarrow> world publication_processor \<Rightarrow> bool" where
  "sql_processor self clock p \<longleftrightarrow> px_store p = sql_template_store self clock \<and>
     mg_store (px_manager p) = sql_template_store self clock \<and>
     (\<forall>w. db (snd (px_new_id p w)) = db w) \<and> (\<forall>a w. db (snd (px_authorize p a w)) = db w) \<and>
     (\<forall>f k w. px_notifier p = Some f \<longrightarrow> db (f k w) = db w)"

definition advances :: "world managed \<Rightarrow> (world managed, 'a) io \<Rightarrow> bool" where
  "advances s m \<longleftrightarrow> (\<forall>r s'. m s = (r, s') \<longrightarrow> publication_ok (published_tables s) \<longrightarrow>
     publication_step\<^sup>*\<^sup>* (published_tables s) (published_tables s'))"

definition still :: "(world managed, 'a) io \<Rightarrow> bool" where
  "still m \<longleftrightarrow> (\<forall>x. keeps (\<lambda>s. published_tables s = x) m)"

named_theorems advance_intros \<open>composition rules for sequences of publication steps\<close>

lemma advancesD: "advances s m \<Longrightarrow> m s = (r, s') \<Longrightarrow> publication_ok (published_tables s) \<Longrightarrow>
    publication_step\<^sup>*\<^sup>* (published_tables s) (published_tables s')"
  by (simp add: advances_def)

lemma stillD: "still m \<Longrightarrow> m s = (r, s') \<Longrightarrow> published_tables s' = published_tables s"
  unfolding still_def by (drule spec, drule keepsD [where w = s]) auto

lemma still_advances: "still m \<Longrightarrow> advances s m"
  unfolding advances_def by (auto dest: stillD)

lemma still_bind [advance_intros]: "still m \<Longrightarrow> (\<And>a. still (f a)) \<Longrightarrow> still (bind_io m f)"
  unfolding still_def by (auto intro: keeps_bind)

lemma still_basic [advance_intros]: "still (ret a)" "still (fail e)"
  unfolding still_def by (auto intro: keeps_ret keeps_fail)

lemma still_guard [advance_intros]: "still m \<Longrightarrow> still (guard_io b e m)"
  unfolding still_def by (auto intro: keeps_guard)

lemma still_attempt [advance_intros]: "still m \<Longrightarrow> still (attempt m)"
  unfolding still_def by (auto intro: keeps_attempt)

lemma still_each [advance_intros]: "(\<And>x. still (f x)) \<Longrightarrow> still (for_each f xs)"
  unfolding still_def by (auto intro: keeps_for_each)

lemma still_map [advance_intros]: "still m \<Longrightarrow> still (mapping_errors f m)"
  unfolding still_def keeps_def mapping_errors_def by (auto split: prod.splits sum.splits) (metis snd_conv)+

lemma still_checked [advance_intros]: "still m \<Longrightarrow> still (checked e m)"
  unfolding checked_def by (cases e) (auto intro: still_basic)

lemma still_if [advance_intros]: "still m \<Longrightarrow> still m' \<Longrightarrow> still (if b then m else m')"
  by simp

lemma still_option [advance_intros]:
  "still m \<Longrightarrow> (\<And>x. still (f x)) \<Longrightarrow> still (case v of None \<Rightarrow> m | Some x \<Rightarrow> f x)"
  by (cases v) auto

lemma still_shared [advance_intros]:
  assumes "\<And>x. preserves (\<lambda>d. publication_state d = x) m"
  shows "still (on_shared m)"
  unfolding still_def keeps_def
proof (intro allI impI)
  fix x s assume "published_tables s = x"
  obtain r w where m: "m (mn_shared s) = (r, w)" by fastforce
  from preservesD [OF assms [of x] _ m] \<open>published_tables s = x\<close>
  show "published_tables (snd (on_shared m s)) = x"
    by (simp add: on_shared_def published_tables_def m)
qed

lemma still_upsert [advance_intros]: "still (engine_upsert cs t)"
  unfolding still_def keeps_def engine_upsert_def Let_def published_tables_def by (auto split: option.splits)

lemma advances_bind:
  assumes "advances s m" "\<And>a s'. m s = (Inr a, s') \<Longrightarrow> advances s' (f a)"
  shows "advances s (bind_io m f)"
  unfolding advances_def
proof (intro allI impI)
  fix r s' assume b: "bind_io m f s = (r, s')" and ok: "publication_ok (published_tables s)"
  obtain x s1 where m: "m s = (x, s1)" by fastforce
  from advancesD [OF assms(1) m ok] have st: "publication_step\<^sup>*\<^sup>* (published_tables s) (published_tables s1)" .
  with ok publication_steps_facts have ok1: "publication_ok (published_tables s1)" by blast
  show "publication_step\<^sup>*\<^sup>* (published_tables s) (published_tables s')"
  proof (cases x)
    case (Inl e)
    with b m st show ?thesis by (simp add: bind_io_def)
  next
    case (Inr a)
    with b m have "f a s1 = (r, s')" by (simp add: bind_io_def)
    from advancesD [OF assms(2) [OF m [unfolded Inr]] this ok1] st show ?thesis by (rule rtranclp_trans [rotated])
  qed
qed

lemma advances_bind_still:
  assumes "still m" "\<And>a s'. m s = (Inr a, s') \<Longrightarrow> published_tables s' = published_tables s \<Longrightarrow> advances s' (f a)"
  shows "advances s (bind_io m f)"
  by (rule advances_bind [OF still_advances [OF assms(1)]]) (use assms stillD in blast)

lemma advances_guard: "(\<not> b \<Longrightarrow> advances s m) \<Longrightarrow> advances s (guard_io b e m)"
  by (cases b) (auto simp: guard_io_def intro: still_advances still_basic)

lemma advances_map: "advances s m \<Longrightarrow> advances s (mapping_errors f m)"
  unfolding advances_def mapping_errors_def by (auto split: prod.splits sum.splits)

lemma advances_attempt: "advances s m \<Longrightarrow> advances s (attempt m)"
  unfolding advances_def attempt_def by (auto split: prod.splits)

lemma advances_ret: "advances s (ret a)"
  by (intro still_advances still_basic)

lemma advances_option:
  "(v = None \<Longrightarrow> advances s m) \<Longrightarrow> (\<And>x. v = Some x \<Longrightarrow> advances s (f x)) \<Longrightarrow>
   advances s (case v of None \<Rightarrow> m | Some x \<Rightarrow> f x)"
  by (cases v) auto

lemma advances_pair: "(\<And>x y. advances s (f x y)) \<Longrightarrow> advances s (case v of (x, y) \<Rightarrow> f x y)"
  by (cases v) auto

lemma advances_fail: "advances s (fail e)"
  by (intro still_advances still_basic)

lemma advances_step:
  assumes "\<And>r w. m (mn_shared s) = (r, w) \<Longrightarrow> publication_ok (published_tables s) \<Longrightarrow>
      publication_step (published_tables s) (publication_state (db w))"
  shows "advances s (on_shared m)"
  unfolding advances_def on_shared_def published_tables_def
  using assms by (auto simp: published_tables_def split: prod.splits)

section \<open>What leaves the requests alone\<close>

lemma store_reads_still:
  "preserves P (get_template self k)" "preserves P (list_publication_requests self k)"
  "preserves P (get_publication_request self i)" "preserves P (has_open_publication_request self k)"
  "preserves P (list_due_publication_requests self a b n)"
  unfolding get_template_def template_record_by_key_def list_publication_requests_def get_publication_request_def
    publication_request_by_id_def has_open_publication_request_def list_due_publication_requests_def Let_def
  by (intro preserves_intros)+

lemma publish_template_still: "preserves (\<lambda>d. publication_state d = x) (publish_template self now v e a)"
proof (rule preservesI)
  fix w r w' assume x: "publication_state (db w) = x" and p: "publish_template self now v e a w = (r, w')"
  show "publication_state (db w') = x"
    using publish_template_effect [OF p] x by (auto simp: publish_effect_def publication_state_def)
qed

lemma still_host:
  assumes "\<And>w. db (snd (m w)) = db w" shows "still (on_shared m)"
  by (rule still_shared) (rule preservesI, metis assms snd_conv)

lemma sql_store_parts:
  assumes "sql_processor self clock p"
  shows "ts_get (px_store p) = get_template self" "ts_has_open (px_store p) = has_open_publication_request self"
    "ts_request (px_store p) = get_publication_request self" "ts_create (px_store p) = create_publication_request self"
    "ts_transition (px_store p) = transition_publication_request self"
    "ts_claim (px_store p) = claim_publication_request self"
    "ts_due (px_store p) = list_due_publication_requests self"
    "ts_get (mg_store (px_manager p)) = get_template self"
    "ts_publish (mg_store (px_manager p)) = publish_template self clock"
  using assms by (simp_all add: sql_processor_def sql_template_store_def)

lemma publish_approved_still:
  assumes "sql_processor self clock p"
  shows "still (publish_approved (px_manager p) k e a)"
  unfolding publish_approved_def manager_publish_with_def publish_locked_def publish_draft_def
    validate_fallback_targets_def sql_store_parts [OF assms]
  by (simp, intro advance_intros store_reads_still publish_template_still)

lemma require_request_still:
  assumes "sql_processor self clock p" shows "still (require_request p i)"
  unfolding require_request_def sql_store_parts [OF assms]
  by (intro advance_intros store_reads_still)

lemma notify_still:
  assumes "sql_processor self clock p" shows "still (notify_publication p i)"
  unfolding notify_publication_def
  by (rule still_host) (use assms in \<open>auto simp: notify_def sql_processor_def split: option.splits\<close>)

text \<open>What a required request says about the rows with its identifier.\<close>

lemma required_request:
  assumes "sql_processor self clock p" "require_request p i s = (Inr q, s')" "publication_ok (published_tables s)"
    and "r \<in> set (db_requests (db (mn_shared s')))" "request_matches self (trim_space i) r"
  shows "rr_request r = q"
proof -
  from assms(1,2) obtain w where "get_publication_request self i (mn_shared s) = (Inr (Some q), w)" "s' = s\<lparr>mn_shared := w\<rparr>"
    unfolding require_request_def sql_store_parts [OF assms(1)]
    by (auto simp: bind_io_Inr split: option.splits elim!: on_shared_Inr)
  with get_request_Inr [of self i "mn_shared s" "Some q" w] obtain x where
    x: "List.find (request_matches self (trim_space i)) (db_requests (db (mn_shared s))) = Some x" "q = rr_request x"
    and d: "db (mn_shared s') = db (mn_shared s)" by auto
  from find_request [OF x(1)] have "x \<in> set (db_requests (db (mn_shared s)))" "request_matches self (trim_space i) x" .
  with assms(3-5) d have "x = r"
    by (intro request_row_unique [of "db_requests (db (mn_shared s))"])
      (auto simp: published_tables_def publication_state_def request_matches_def)
  with x(2) show ?thesis by simp
qed

section \<open>The operations\<close>

lemma request_publication_advances:
  assumes "sql_processor self clock p"
  shows "advances s (request_publication p now key sched expected actor)"
proof -
  have id: "still (on_shared (px_new_id p))"
    by (rule still_host) (use assms in \<open>simp add: sql_processor_def\<close>)
  have submit: "advances s (submit_request p now k v du sc ac)" for s k v du sc ac
    unfolding submit_request_def sql_store_parts [OF assms] Let_def
    by (intro advances_bind_still still_map id advances_guard advances_bind advances_map advances_step advances_ret)
      (auto simp: published_tables_def new_request_def dest: create_step)
  have sched: "advances s (case publication_schedule now k sched of Inl e \<Rightarrow> fail e
      | Inr at \<Rightarrow> submit_request p now k v du at ac)" for s k v du ac
    by (cases "publication_schedule now k sched") (auto intro: submit still_advances still_basic)
  have checked: "advances s (checked e m)" if "advances s m" for s e and m :: "(world managed, publication_request) io"
    using that by (cases e) (auto simp: checked_def intro: still_advances still_basic)
  show ?thesis
    unfolding request_publication_def Let_def sql_store_parts [OF assms]
    by (intro advances_guard advances_bind_still still_shared store_reads_still advances_option advances_pair
        advances_fail checked sched)
qed

lemma approve_advances:
  assumes "sql_processor self clock p"
  shows "advances s (approve_publication p now i actor)"
proof (cases "publication_ok (published_tables s)")
  case False
  then show ?thesis by (simp add: advances_def)
next
  case True
  show ?thesis
    unfolding approve_publication_def Let_def
  proof (intro advances_bind_still [OF require_request_still [OF assms]] advances_guard advances_bind advances_map)
    fix q s1 assume q: "require_request p (trim_space i) s = (Inr q, s1)" and same: "published_tables s1 = published_tables s"
      and other: "pr_requested_by q \<noteq> trim_space actor"
    show "advances s1 (on_shared (ts_transition (px_store p) (trim_space i) PublicationPending (approval now (trim_space actor) q)))"
      unfolding sql_store_parts [OF assms]
    proof (rule advances_step)
      fix r w
      assume t: "transition_publication_request self (trim_space i) PublicationPending (approval now (trim_space actor) q) (mn_shared s1) = (r, w)"
      show "publication_step (published_tables s1) (publication_state (db w))"
        unfolding published_tables_def
      proof (rule transition_step [OF t])
        show "publication_move PublicationPending (tn_status (approval now (trim_space actor) q))"
          by (simp add: publication_move_def approval_def)
        fix x assume x: "x \<in> set (db_requests (db (mn_shared s1)))"
          "transition_matches self (trim_space (trim_space i)) PublicationPending (approval now (trim_space actor) q) x"
        then have "rr_request x = q"
          by (intro required_request [OF assms q True]) (auto simp: transition_matches_def)
        with other show "move_signed PublicationPending (approval now (trim_space actor) q) (rr_request x)"
          by (auto simp: move_signed_def approval_def)
      qed
    qed
  qed (auto intro!: still_advances still_bind notify_still [OF assms] still_basic)
qed

lemma plain_transition_advances:
  assumes "sql_processor self clock p" "require_request p j s = (Inr q, s1)" "publication_ok (published_tables s)"
    and "publication_move expected st" "expected \<noteq> PublicationPublishing"
    and "st \<in> {PublicationScheduled, PublicationRejected} \<Longrightarrow> actor \<noteq> pr_requested_by q"
    and "trim_space j = j"
  shows "advances s1 (mapping_errors f (on_shared (ts_transition (px_store p) (pr_id q) expected
     (plain_transition now st actor failure))))"
  unfolding sql_store_parts [OF assms(1)]
proof (rule advances_map, rule advances_step)
  fix r w
  assume t: "transition_publication_request self (pr_id q) expected (plain_transition now st actor failure) (mn_shared s1) = (r, w)"
  show "publication_step (published_tables s1) (publication_state (db w))"
    unfolding published_tables_def
  proof (rule transition_step [OF t])
    show "publication_move expected (tn_status (plain_transition now st actor failure))"
      using assms(4) by (simp add: plain_transition_def)
    fix x assume x: "x \<in> set (db_requests (db (mn_shared s1)))"
      "transition_matches self (trim_space (pr_id q)) expected (plain_transition now st actor failure) x"
    from assms(1,2) obtain w0 where "get_publication_request self j (mn_shared s) = (Inr (Some q), w0)"
      unfolding require_request_def sql_store_parts [OF assms(1)]
      by (auto simp: bind_io_Inr split: option.splits elim!: on_shared_Inr)
    from get_request_Inr [OF this] assms(7) have "pr_id q = j"
      by (auto simp: find_Some_iff request_matches_def)
    with x assms(7) have "rr_request x = q"
      by (intro required_request [OF assms(1-3)]) (auto simp: transition_matches_def)
    with assms(5,6) show "move_signed expected (plain_transition now st actor failure) (rr_request x)"
      by (auto simp: move_signed_def plain_transition_def)
  qed
qed

lemma reject_advances:
  assumes "sql_processor self clock p"
  shows "advances s (reject_publication p now i actor reason)"
proof (cases "publication_ok (published_tables s)")
  case True
  show ?thesis
    unfolding reject_publication_def Let_def
    by (intro advances_guard advances_bind_still [OF require_request_still [OF assms]]
        plain_transition_advances [OF assms _ True]) (auto simp: publication_move_def)
qed (simp add: advances_def)

lemma cancel_advances:
  assumes "sql_processor self clock p"
  shows "advances s (cancel_publication p now i actor)"
proof (cases "publication_ok (published_tables s)")
  case True
  show ?thesis
    unfolding cancel_publication_def Let_def
    by (intro advances_guard advances_bind_still [OF require_request_still [OF assms]]
        plain_transition_advances [OF assms _ True]) (auto simp: publication_move_def)
qed (simp add: advances_def)

section \<open>Publishing\<close>

text \<open>The signature on the claimed request is the one on its row, as long as it is being
  published.\<close>

definition signature_known :: "workspace_id \<Rightarrow> publication_request \<Rightarrow> publication_state \<Rightarrow> bool" where
  "signature_known self q x \<longleftrightarrow> (\<forall>r \<in> set (fst x). request_matches self (trim_space (pr_id q)) r \<longrightarrow>
     pr_status (rr_request r) = PublicationPublishing \<longrightarrow> pr_reviewed_by (rr_request r) = pr_reviewed_by q)"

lemma finish_advances:
  assumes p: "sql_processor self clock p" and known: "signature_known self q (published_tables s)"
    and mv: "publication_move PublicationPublishing st"
  shows "advances s (finish_publication p later q st version failure)"
  unfolding finish_publication_def
proof (rule advances_bind)
  show "advances s (attempt (on_shared (ts_transition (px_store p) (pr_id q) PublicationPublishing
       (ending later q st version failure))))"
    unfolding sql_store_parts [OF p]
  proof (rule advances_attempt, rule advances_step)
    fix r w
    assume t: "transition_publication_request self (pr_id q) PublicationPublishing (ending later q st version failure)
      (mn_shared s) = (r, w)"
    show "publication_step (published_tables s) (publication_state (db w))"
      unfolding published_tables_def
    proof (rule transition_step [OF t])
      show "publication_move PublicationPublishing (tn_status (ending later q st version failure))"
        using mv by (simp add: ending_def)
      fix x assume x: "x \<in> set (db_requests (db (mn_shared s)))"
        "transition_matches self (trim_space (pr_id q)) PublicationPublishing (ending later q st version failure) x"
        "PublicationPublishing = PublicationPublishing \<longrightarrow> trim_space (tn_owner (ending later q st version failure)) \<noteq> [] \<and>
          1 \<le> tn_token (ending later q st version failure)"
      then have "pr_reviewed_by (rr_request x) = pr_reviewed_by q"
        using known by (auto simp: signature_known_def published_tables_def publication_state_def transition_matches_def)
      with x mv show "move_signed PublicationPublishing (ending later q st version failure) (rr_request x)"
        by (auto simp: move_signed_def ending_def transition_matches_def publication_move_def)
    qed
  qed
  fix a s' 
  have "still (on_shared (ts_request (px_store p) (pr_id q)))"
    unfolding sql_store_parts [OF p] by (intro advance_intros store_reads_still)
  then show "advances s' (case a of Inr v \<Rightarrow> ret v
     | Inl e \<Rightarrow> if \<not> errors_is e ErrPublicationConflict then fail e
         else bind_io (attempt (on_shared (ts_request (px_store p) (pr_id q)))) (\<lambda>current. case current of
           Inr (Some c) \<Rightarrow> if pr_status c = st then ret c else fail e
         | _ \<Rightarrow> fail e))"
    by (auto split: sum.splits option.splits intro!: still_advances still_bind still_attempt still_basic)
qed

lemma advances_after_finish:
  "advances s m \<Longrightarrow> advances s (bind_io m (\<lambda>_. fail e))"
  by (rule advances_bind) (auto intro: advances_fail)

lemma publish_claimed_advances:
  assumes p: "sql_processor self clock p" and known: "signature_known self q (published_tables s)"
  shows "advances s (publish_claimed p later q)"
proof -
  have auth: "still (on_shared (px_authorize p a))" for a
    by (rule still_host) (use p in \<open>simp add: sql_processor_def\<close>)
  have get: "still (on_shared (ts_get (px_store p) k))" for k
    unfolding sql_store_parts [OF p] by (intro advance_intros store_reads_still)
  have fin: "advances s' (finish_publication p later q st v f)"
    if "published_tables s' = published_tables s" "st \<in> {PublicationPublished, PublicationFailed, PublicationSuperseded}" for s' st v f
    using finish_advances [OF p, of q s' st later v f] known that by (auto simp: publication_move_def)
  have failed: "advances s' (publication_failed p later q e)" if "published_tables s' = published_tables s" for s' e
    unfolding publication_failed_def
    by (rule advances_bind_still [OF still_attempt [OF get]])
      (auto split: sum.splits option.splits intro!: fin advances_after_finish simp: that)
  have cand: "advances s' (publish_candidate p later q)" if "published_tables s' = published_tables s" for s'
    unfolding publish_candidate_def
    by (rule advances_bind_still [OF still_attempt [OF publish_approved_still [OF p]]])
      (auto split: sum.splits intro!: fin failed simp: that)
  show ?thesis
    unfolding publish_claimed_def
    by (rule advances_bind_still [OF auth])
      (auto intro!: fin advances_after_finish advances_bind_still [OF get] cand)
qed

lemma claim_signature:
  assumes "claim_publication_request self i owner now x w = (Inr (Some q), w')"
    and "no_clash request_clash (db_requests (db w'))"
  shows "signature_known self q (publication_state (db w'))"
proof -
  from claim_effect [OF assms(1)] obtain r where
    r: "List.find (request_matches self (trim_space i)) (db_requests (db w')) = Some r" "q = rr_request r" by blast
  note fr = find_request [OF r(1)]
  have "y = r" if "y \<in> set (db_requests (db w'))" "request_matches self (trim_space (pr_id q)) y" for y
    using that fr r(2) by (intro request_row_unique [OF assms(2)]) (auto simp: request_matches_def)
  with r(2) show ?thesis by (auto simp: signature_known_def publication_state_def)
qed

lemma claim_due_advances:
  assumes "sql_processor self clock p" shows "advances s (claim_due p now i)"
  unfolding claim_due_def sql_store_parts [OF assms]
  by (rule advances_step) (auto simp: published_tables_def dest: publication_claim_step)

lemma claim_due_known:
  assumes "sql_processor self clock p" "claim_due p now i s = (Inr (Some q), s')" "publication_ok (published_tables s)"
  shows "signature_known self q (published_tables s')"
proof -
  from advancesD [OF claim_due_advances [OF assms(1)] assms(2,3)] publication_steps_facts assms(3)
  have "publication_ok (published_tables s')" by blast
  then have "no_clash request_clash (db_requests (db (mn_shared s')))"
    by (simp add: published_tables_def publication_state_def)
  moreover from assms(2) obtain w where "claim_publication_request self i (px_worker p) (timestamp now)
      (timestamp (now + publication_lease_duration)) (mn_shared s) = (Inr (Some q), w)" "s' = s\<lparr>mn_shared := w\<rparr>"
    unfolding claim_due_def sql_store_parts [OF assms(1)] by (rule on_shared_Inr)
  ultimately show ?thesis using claim_signature by (auto simp: published_tables_def)
qed

lemma advances_claimed:
  assumes p: "sql_processor self clock p"
    and "\<And>s. advances s (none :: (world managed, 'a) io)" "\<And>s. advances s (some :: (world managed, 'a) io)"
  shows "advances s (bind_io (claim_due p now i) (\<lambda>c. case c of None \<Rightarrow> none
      | Some q \<Rightarrow> bind_io (attempt (publish_claimed p later q)) (\<lambda>_. some)))"
proof (cases "publication_ok (published_tables s)")
  case True
  show ?thesis
    by (rule advances_bind [OF claim_due_advances [OF p]])
      (auto split: option.splits intro!: assms(2,3) advances_bind advances_attempt publish_claimed_advances [OF p]
        dest: claim_due_known [OF p _ True])
qed (simp add: advances_def)

lemma process_advances:
  assumes p: "sql_processor self clock p"
  shows "advances s (process_publication p now later i)"
  unfolding process_publication_def by (intro advances_claimed [OF p] advances_ret)

lemma advances_fold: "(\<And>x a s. advances s (f x a)) \<Longrightarrow> advances s (fold_io f xs a)"
  by (induction xs arbitrary: a s) (auto intro: advances_ret advances_bind)

lemma due_still:
  assumes "sql_processor self clock p" shows "still (due_publications p now limit)"
  unfolding due_publications_def sql_store_parts [OF assms] by (intro advance_intros store_reads_still)

lemma process_due_advances:
  assumes p: "sql_processor self clock p"
  shows "advances s (process_due_publications p now later limit)"
  unfolding process_due_publications_def
  by (intro advances_bind_still [OF due_still [OF p]] advances_fold advances_claimed [OF p] advances_ret)

section \<open>Histories\<close>

datatype processor_op = RequestOp instant string string string string
  | ApproveOp instant string string
  | RejectOp instant string string string
  | CancelOp instant string string
  | ProcessOp instant instant string
  | ProcessDueOp instant instant int

fun run_processor_op :: "world publication_processor \<Rightarrow> processor_op \<Rightarrow> world managed \<Rightarrow> world managed" where
  "run_processor_op p (RequestOp now k sched e a) s = snd (request_publication p now k sched e a s)"
| "run_processor_op p (ApproveOp now i a) s = snd (approve_publication p now i a s)"
| "run_processor_op p (RejectOp now i a reason) s = snd (reject_publication p now i a reason s)"
| "run_processor_op p (CancelOp now i a) s = snd (cancel_publication p now i a s)"
| "run_processor_op p (ProcessOp now later i) s = snd (process_publication p now later i s)"
| "run_processor_op p (ProcessDueOp now later n) s = snd (process_due_publications p now later n s)"

text \<open>An operation runs in a process with a catalog of its own; the database is shared.\<close>

record process =
  pc_processor :: "world publication_processor"
  pc_catalog :: "(string \<times> template) list"
  pc_revision :: string
  pc_reconciled :: bool

definition run_in_process :: "process \<Rightarrow> processor_op \<Rightarrow> world \<Rightarrow> world" where
  "run_in_process c op w = mn_shared (run_processor_op (pc_processor c) op
     \<lparr>mn_shared = w, mn_catalog = pc_catalog c, mn_revision = pc_revision c, mn_reconciled = pc_reconciled c\<rparr>)"

definition run_history :: "(process \<times> processor_op) list \<Rightarrow> world \<Rightarrow> world" where
  "run_history = fold (\<lambda>(c, op). run_in_process c op)"

lemma run_processor_op_steps:
  assumes "sql_processor self clock p" "publication_ok (published_tables s)"
  shows "publication_step\<^sup>*\<^sup>* (published_tables s) (published_tables (run_processor_op p op s))"
proof -
  have run_bool: "publication_step\<^sup>*\<^sup>* (published_tables s) (published_tables (snd (m s)))" if "advances s m"
    for m :: "(world managed, bool) io"
    using advancesD [OF that _ assms(2)] by (metis prod.collapse)
  have run_int: "publication_step\<^sup>*\<^sup>* (published_tables s) (published_tables (snd (m s)))" if "advances s m"
    for m :: "(world managed, int) io"
    using advancesD [OF that _ assms(2)] by (metis prod.collapse)
  have run_request: "publication_step\<^sup>*\<^sup>* (published_tables s) (published_tables (snd (m s)))" if "advances s m"
    for m :: "(world managed, publication_request) io"
    using advancesD [OF that _ assms(2)] by (metis prod.collapse)
  show ?thesis
    by (cases op) (simp_all add: run_request run_bool run_int request_publication_advances [OF assms(1)]
        approve_advances [OF assms(1)] reject_advances [OF assms(1)] cancel_advances [OF assms(1)]
        process_advances [OF assms(1)] process_due_advances [OF assms(1)])
qed

definition sql_process :: "process \<Rightarrow> bool" where
  "sql_process c \<longleftrightarrow> (\<exists>self clock. sql_processor self clock (pc_processor c))"

lemma history_steps:
  assumes "\<forall>x \<in> set xs. sql_process (fst x)" "publication_ok (publication_state (db w))"
  shows "publication_step\<^sup>*\<^sup>* (publication_state (db w)) (publication_state (db (run_history xs w)))"
  using assms
proof (induction xs arbitrary: w)
  case (Cons x xs)
  obtain c op where x: "x = (c, op)" by (cases x)
  with Cons.prems(1) obtain self clock where p: "sql_processor self clock (pc_processor c)"
    by (auto simp: sql_process_def)
  have st: "publication_step\<^sup>*\<^sup>* (publication_state (db w)) (publication_state (db (run_in_process c op w)))"
    using run_processor_op_steps [OF p, of "\<lparr>mn_shared = w, mn_catalog = pc_catalog c, mn_revision = pc_revision c,
      mn_reconciled = pc_reconciled c\<rparr>" op] Cons.prems(2) by (simp add: run_in_process_def published_tables_def)
  with publication_steps_facts Cons.prems(2) have "publication_ok (publication_state (db (run_in_process c op w)))" by blast
  with Cons.IH Cons.prems(1) have "publication_step\<^sup>*\<^sup>* (publication_state (db (run_in_process c op w)))
      (publication_state (db (run_history xs (run_in_process c op w))))" by simp
  with st have "publication_step\<^sup>*\<^sup>* (publication_state (db w)) (publication_state (db (run_history xs (run_in_process c op w))))"
    by (rule rtranclp_trans)
  then show ?case by (simp add: x run_history_def)
qed (simp add: run_history_def)

text \<open>C11: A template has at most one open publication request. Along every history of requests,
  approvals, rejections, cancellations and publications, by any processors and with any
  outcome of the driver, no two requests for the same template are pending, scheduled or being
  published at the same time, and every open request holds the lock of its template.\<close>

theorem one_open_request:
  assumes "\<forall>x \<in> set xs. sql_process (fst x)" "publication_ok (publication_state (db w))"
  shows "length (filter (\<lambda>q. publication_open (pr_status (rr_request q)) \<and> pr_template_key (rr_request q) = k)
      (db_requests (db (run_history xs w)))) \<le> 1 \<and> publication_ok (publication_state (db (run_history xs w)))"
proof -
  have "publication_ok (publication_state (db (run_history xs w)))"
    using history_steps [OF assms] publication_steps_facts assms(2) by blast
  with open_requests_single show ?thesis by (simp add: publication_state_def)
qed

text \<open>C12: The life of a publication request. Whatever happens, a request that exists still exists,
  asks for the same (template, snapshot, candidate hash, requester), has moved along the edges
  pending to scheduled, rejected or cancelled, scheduled to publishing or cancelled,
  publishing to published, failed or superseded, and its fencing token has not decreased; a
  request that has ended is not touched again.\<close>

theorem publication_lifecycle:
  assumes "\<forall>x \<in> set xs. sql_process (fst x)" "publication_ok (publication_state (db w))"
    and "q \<in> set (db_requests (db w))"
  shows "\<exists>q' \<in> set (db_requests (db (run_history xs w))). request_follows q q'"
  using publication_steps_facts [OF history_steps [OF assms(1,2)] assms(2)] assms(3)
  by (simp add: publication_state_def)

text \<open>C13: Nobody approves their own publication. If every reviewed request carries a signature
  that is not the requester's, then so does every reviewed request after any history: what is
  scheduled, rejected, being published, published, failed or superseded was reviewed by
  somebody else than the one who asked for it.\<close>

theorem reviewed_by_another:
  assumes "\<forall>x \<in> set xs. sql_process (fst x)" "publication_ok (publication_state (db w))"
    and "four_eyes (publication_state (db w))"
  shows "four_eyes (publication_state (db (run_history xs w)))"
  using publication_steps_facts [OF history_steps [OF assms(1,2)] assms(2)] assms(3) by blast

section \<open>What is published is what was approved\<close>

lemma transition_returns:
  assumes "transition_publication_request ws i expected tn w = (Inr v, w')"
    and "no_clash request_clash (db_requests (db w))"
  shows "pr_status v = tn_status tn"
proof -
  let ?P = "transition_matches ws (trim_space i) expected tn"
  from transition_effect [OF assms(1)] obtain row where
      e: "db_requests (db w') = update_where ?P (transition_row tn) (db_requests (db w))"
      "length (filter ?P (db_requests (db w))) = 1"
    and row: "List.find (request_matches ws (trim_space i)) (db_requests (db w')) = Some row" "v = rr_request row"
    by (auto simp: publication_state_def moved_def)
  from e(2) obtain r where r: "r \<in> set (db_requests (db w))" "?P r"
    by (metis filter_empty_conv list.size(3) zero_neq_one)
  from find_request [OF row(1)] e(1) obtain x where x: "x \<in> set (db_requests (db w))"
      "row = (if ?P x then transition_row tn x else x)" "request_matches ws (trim_space i) row"
    by (auto simp: in_update_where)
  then have "pr_id (rr_request x) = pr_id (rr_request r)"
    using r(2) by (auto simp: request_matches_def transition_matches_def split: if_splits)
  with request_row_unique [OF assms(2) x(1) r(1)] have "x = r" .
  with x(2) r(2) row(2) show ?thesis by simp
qed

lemma finish_Inr:
  assumes p: "sql_processor self clock p" and f: "finish_publication p later q st version failure s = (Inr v, s')"
    and unique: "no_clash request_clash (db_requests (db (mn_shared s)))"
  shows "template_map (db (mn_shared s')) = template_map (db (mn_shared s)) \<and> pr_status v = st"
proof -
  let ?tn = "ending later q st version failure"
  obtain r w where t: "transition_publication_request self (pr_id q) PublicationPublishing ?tn (mn_shared s) = (r, w)"
    by fastforce
  from transition_effect [OF t] have frame: "template_map (db w) = template_map (db (mn_shared s))" by auto
  show ?thesis
  proof (cases r)
    case (Inr x)
    with f t have v: "v = x" "s' = s\<lparr>mn_shared := w\<rparr>"
      by (simp_all add: finish_publication_def sql_store_parts [OF p] bind_io_def attempt_def on_shared_def)
    with transition_returns [OF t [unfolded Inr] unique] frame show ?thesis by (simp add: ending_def)
  next
    case (Inl e)
    with f t have "errors_is e ErrPublicationConflict"
      by (auto simp: finish_publication_def sql_store_parts [OF p] bind_io_def attempt_def on_shared_def fail_def
        split: if_splits)
    moreover obtain r2 w2 where g: "get_publication_request self (pr_id q) w = (r2, w2)" by fastforce
    ultimately have "pr_status v = st" "s' = s\<lparr>mn_shared := w2\<rparr>"
      using f t Inl
      by (auto simp: finish_publication_def sql_store_parts [OF p] bind_io_def attempt_def on_shared_def fail_def ret_def
        split: sum.splits option.splits if_splits)
    moreover have "db w2 = db w"
      using preservesD [OF store_reads_still(3) [of "\<lambda>d. d = db w"] refl g] .
    ultimately show ?thesis using frame by simp
  qed
qed

definition published_holds :: "workspace_id \<Rightarrow> publication_request \<Rightarrow> database \<Rightarrow> bool" where
  "published_holds self q d \<longleftrightarrow> (\<exists>rec. template_map d (self, trim_space (pr_template_key q)) = Some rec \<and>
     has_candidate (pr_candidate_hash q) (tr_published rec))"

lemma get_template_Inr:
  "get_template self k w = (Inr r, w') \<Longrightarrow> r = template_map (db w) (self, trim_space k) \<and> db w' = db w"
  unfolding get_template_def Let_def guard_io_Inr by (elim conjE, drule template_record_by_key_Inr) simp

lemma shared_get_Inr:
  assumes "sql_processor self clock p" "on_shared (ts_get (px_store p) k) s = (Inr r, s')"
  shows "r = template_map (db (mn_shared s)) (self, trim_space k) \<and> db (mn_shared s') = db (mn_shared s)"
  using assms(2) unfolding sql_store_parts [OF assms(1)]
  by (auto elim!: on_shared_Inr dest!: get_template_Inr)

lemma no_clash_still:
  assumes "still m" "m s = (r, s')" "no_clash request_clash (db_requests (db (mn_shared s)))"
  shows "no_clash request_clash (db_requests (db (mn_shared s')))"
  using stillD [OF assms(1,2)] assms(3) by (simp add: published_tables_def publication_state_def)

lemma publication_failed_Inr:
  assumes p: "sql_processor self clock p" and f: "publication_failed p later q e s = (Inr v, s')"
    and unique: "no_clash request_clash (db_requests (db (mn_shared s)))"
  shows "pr_status v = PublicationPublished \<and> published_holds self q (db (mn_shared s'))"
proof -
  obtain x s1 where g: "on_shared (ts_get (px_store p) (pr_template_key q)) s = (x, s1)" by fastforce
  from f g obtain r where x: "x = Inr (Some r)" "has_candidate (pr_candidate_hash q) (tr_published r)"
    and fin: "finish_publication p later q PublicationPublished (tr_version r) [] s1 = (Inr v, s')"
    by (auto simp: publication_failed_def bind_io_Inr attempt_eq split: sum.splits option.splits if_splits)
  from shared_get_Inr [OF p g [unfolded x]] have r: "template_map (db (mn_shared s)) (self, trim_space (pr_template_key q)) = Some r"
    "db (mn_shared s1) = db (mn_shared s)" by simp_all
  from finish_Inr [OF p fin] unique r x(2) show ?thesis by (auto simp: published_holds_def)
qed

lemma publish_candidate_Inr:
  assumes p: "sql_processor self clock p" and f: "publish_candidate p later q s = (Inr v, s')"
    and unique: "no_clash request_clash (db_requests (db (mn_shared s)))"
    and ok: "schema_ok (db (mn_shared s))" "keyed (db (mn_shared s))"
    and cur: "candidate_current q (template_map (db (mn_shared s)) (self, trim_space (pr_template_key q)))"
  shows "pr_status v = PublicationPublished \<and> published_holds self q (db (mn_shared s'))"
proof -
  obtain x s1 where m: "publish_approved (px_manager p) (pr_template_key q) (pr_draft_updated q) (pr_reviewed_by q) s = (x, s1)"
    by fastforce
  have u1: "no_clash request_clash (db_requests (db (mn_shared s1)))"
    by (rule no_clash_still [OF publish_approved_still [OF p] m unique])
  show ?thesis
  proof (cases x)
    case (Inl e)
    with f m have "publication_failed p later q e s1 = (Inr v, s')"
      by (auto simp: publish_candidate_def bind_io_Inr attempt_eq)
    then show ?thesis by (rule publication_failed_Inr [OF p _ u1])
  next
    case (Inr rec)
    with f m have fin: "finish_publication p later q PublicationPublished (tr_version rec) [] s1 = (Inr v, s')"
      by (auto simp: publish_candidate_def bind_io_Inr attempt_eq)
    have store: "mg_store (px_manager p) = sql_template_store self clock" using p by (simp add: sql_processor_def)
    from sql_templates.published_from_draft [OF m [unfolded Inr] store] ok obtain old draft pub where
      d: "template_map (db (mn_shared s)) (self, trim_space (pr_template_key q)) = Some old" "tr_draft old = Some draft"
        "tr_published rec = Some pub" "candidate_hash pub = candidate_hash draft"
      and after: "template_map (db (mn_shared s1)) (self, trim_space (pr_template_key q)) = Some rec"
      by (auto simp: fun_eq_iff)
    from cur d have "has_candidate (pr_candidate_hash q) (tr_published rec)"
      by (simp add: candidate_current_def has_candidate_def)
    with finish_Inr [OF p fin u1] after show ?thesis by (auto simp: published_holds_def)
  qed
qed

text \<open>C14: What is published is what was approved. When the publication of a claimed request
  succeeds, the request has ended as published and the published content of its template has
  the candidate hash the request was reviewed under: either this attempt published the draft,
  or an attempt before it did. A request whose draft changed after the request, or whose
  approver lost the right to approve, never succeeds.\<close>

theorem published_is_approved:
  assumes "sql_processor self clock p" "publish_claimed p later q s = (Inr v, s')"
    and "schema_ok (db (mn_shared s))" "keyed (db (mn_shared s))"
  shows "pr_status v = PublicationPublished \<and> published_holds self q (db (mn_shared s')) \<and>
    (\<exists>w. px_authorize p (pr_reviewed_by q) (mn_shared s) = (Inr True, w)) \<and>
    (already_published q (template_map (db (mn_shared s)) (self, trim_space (pr_template_key q))) \<or>
     candidate_current q (template_map (db (mn_shared s)) (self, trim_space (pr_template_key q))))"
proof -
  note p = assms(1)
  from assms(2) obtain s1 where a: "on_shared (px_authorize p (pr_reviewed_by q)) s = (Inr True, s1)"
    by (auto simp: publish_claimed_def bind_io_Inr split: if_splits)
  from a obtain w where w: "px_authorize p (pr_reviewed_by q) (mn_shared s) = (Inr True, w)" "s1 = s\<lparr>mn_shared := w\<rparr>"
    by (rule on_shared_Inr)
  from p have "db (snd (px_authorize p (pr_reviewed_by q) (mn_shared s))) = db (mn_shared s)"
    by (simp add: sql_processor_def)
  with w have d1: "db (mn_shared s1) = db (mn_shared s)" by simp
  from assms(2) a obtain found s2 where g: "on_shared (ts_get (px_store p) (pr_template_key q)) s1 = (Inr found, s2)"
    and rest: "(if already_published q found then finish_publication p later q PublicationPublished (version_of found) []
       else if \<not> candidate_current q found
       then bind_io (finish_publication p later q PublicationSuperseded 0 ''backend.notification.publication_candidate_changed'')
         (\<lambda>_. fail (conflict ''backend.notification.publication_candidate_changed'' (about_request (pr_id q))))
       else publish_candidate p later q) s2 = (Inr v, s')"
    by (auto simp: publish_claimed_def bind_io_Inr)
  from shared_get_Inr [OF p g] d1 have found: "found = template_map (db (mn_shared s)) (self, trim_space (pr_template_key q))"
    "db (mn_shared s2) = db (mn_shared s)" by simp_all
  have unique: "no_clash request_clash (db_requests (db (mn_shared s2)))"
    using assms(3) found(2) by (simp add: schema_ok_def)
  show ?thesis
  proof (cases "already_published q found")
    case True
    with rest have fin: "finish_publication p later q PublicationPublished (version_of found) [] s2 = (Inr v, s')" by simp
    from True obtain rec where rec: "found = Some rec" "has_candidate (pr_candidate_hash q) (tr_published rec)"
      by (auto simp: already_published_def split: option.splits)
    from rec(1) found(1) have at: "template_map (db (mn_shared s)) (self, trim_space (pr_template_key q)) = Some rec" by simp
    from finish_Inr [OF p fin unique] found(2)
    have ended: "pr_status v = PublicationPublished" "template_map (db (mn_shared s')) = template_map (db (mn_shared s))"
      by auto
    have "published_holds self q (db (mn_shared s'))"
      using at rec(2) ended(2) by (simp add: published_holds_def)
    with ended(1) w(1) True found(1) show ?thesis by blast
  next
    case False
    with rest have "candidate_current q found" "publish_candidate p later q s2 = (Inr v, s')"
      by (auto simp: bind_io_Inr split: if_splits)
    with publish_candidate_Inr [OF p _ unique] assms(3,4) found w(1) show ?thesis by auto
  qed
qed

section \<open>Witnesses\<close>

definition sample_processor :: "world publication_processor" where
  "sample_processor = \<lparr>px_store = sql_template_store ''ws'' 0,
     px_manager = \<lparr>mg_store = sql_template_store ''ws'' 0, mg_engine = sample_engine\<rparr>,
     px_worker = ''w1'', px_notifier = None, px_new_id = ret ''q2'', px_authorize = (\<lambda>a. ret True)\<rparr>"

lemma sample_sql_processor: "sql_processor ''ws'' 0 sample_processor"
  by (simp add: sql_processor_def sample_processor_def ret_def)

definition sample_process :: process where
  "sample_process = \<lparr>pc_processor = sample_processor, pc_catalog = [], pc_revision = [], pc_reconciled = False\<rparr>"

lemma sample_sql_process: "sql_process sample_process"
  using sample_sql_processor by (auto simp: sql_process_def sample_process_def)

definition requested :: publication_request where
  "requested = new_request ''q1'' ''order.email'' sample_template ''2026-01-01'' [] ''alice'' 0"

definition requested_database :: database where
  "requested_database = drafted_database\<lparr>db_requests := [\<lparr>rr_request = requested, rr_workspace = ''ws''\<rparr>],
     db_locks := [new_lock ''ws'' requested]\<rparr>"

lemma requested_facts [simp]:
  "pr_id requested = ''q1''" "pr_template_key requested = ''order.email''" "pr_status requested = PublicationPending"
  "pr_requested_by requested = ''alice''" "pr_reviewed_by requested = []" "pr_token requested = 0"
  "pr_candidate_hash requested = candidate_hash sample_template" "pr_scheduled_for requested = []"
  "db_requests requested_database = [\<lparr>rr_request = requested, rr_workspace = ''ws''\<rparr>]"
  "db_locks requested_database = [new_lock ''ws'' requested]"
  by (simp_all add: requested_def new_request_def requested_database_def)

lemma requested_ok:
  "publication_ok (publication_state requested_database)" "four_eyes (publication_state requested_database)"
  by (simp_all add: publication_state_def no_clash_def new_lock_def)

lemma sample_parts [simp]:
  "px_store sample_processor = sql_template_store ''ws'' 0" "px_notifier sample_processor = None"
  "px_authorize sample_processor a = ret True" "pc_processor sample_process = sample_processor"
  "trim_space ''q1'' = ''q1''" "trim_space ''bob'' = ''bob''"
  by (simp_all add: sample_processor_def sample_process_def trim_space_plain plain_char_def)

lemma sql_store_requests [simp]:
  "ts_request (sql_template_store self now) = get_publication_request self"
  "ts_transition (sql_template_store self now) = transition_publication_request self"
  "ts_get (sql_template_store self now) = get_template self"
  by (simp_all add: sql_template_store_def)

lemma sample_transition_run:
  "transition_publication_request ''ws'' ''q1'' PublicationPending (approval 0 ''bob'' requested) (calm_world requested_database) =
    (Inr (transition_request (approval 0 ''bob'' requested) requested), calm_world (requested_database\<lparr>db_requests :=
      [\<lparr>rr_request = transition_request (approval 0 ''bob'' requested) requested, rr_workspace = ''ws''\<rparr>]\<rparr>))"
  by (simp add: transition_publication_request_def transition_body_def statement_runs Let_def
     publication_request_by_id_def request_matches_def transition_matches_def transition_row_def
     transition_request_def approval_def publication_open_def calm_world_def)

lemma sample_require_run:
  "mn_shared s = calm_world requested_database \<Longrightarrow> require_request sample_processor ''q1'' s = (Inr requested, s)"
  by (simp add: require_request_def on_shared_def statement_runs get_publication_request_def Let_def
    publication_request_by_id_def request_matches_def)

definition approvals :: "(process \<times> processor_op) list" where
  "approvals = [(sample_process, ApproveOp 0 ''q1'' ''alice''), (sample_process, ApproveOp 0 ''q1'' ''bob'')]"

lemma approvals_run:
  "db_requests (db (run_history approvals (calm_world requested_database))) =
    [\<lparr>rr_request = transition_request (approval 0 ''bob'' requested) requested, rr_workspace = ''ws''\<rparr>]"
  by (simp add: approvals_def run_history_def run_in_process_def approve_publication_def Let_def bind_io_def guard_io_def
    sample_require_run fail_def mapping_errors_def on_shared_def sample_transition_run notify_publication_def
    notify_def ret_def)

lemma approvals_sql: "\<forall>x \<in> set approvals. sql_process (fst x)"
  by (simp add: approvals_def sample_sql_process)

lemma one_open_request_witness:
  "length (filter (\<lambda>q. publication_open (pr_status (rr_request q)) \<and> pr_template_key (rr_request q) = ''order.email'')
      (db_requests (db (run_history approvals (calm_world requested_database))))) = 1"
proof -
  have "publication_ok (publication_state (db (run_history approvals (calm_world requested_database))))"
    using one_open_request [OF approvals_sql, of "calm_world requested_database"] requested_ok by simp
  then show ?thesis
    by (simp add: approvals_run transition_request_def approval_def publication_open_def)
qed

lemma publication_lifecycle_witness:
  "\<exists>q \<in> set (db_requests (db (run_history approvals (calm_world requested_database)))).
     request_follows \<lparr>rr_request = requested, rr_workspace = ''ws''\<rparr> q \<and> pr_status (rr_request q) = PublicationScheduled"
  using publication_lifecycle [OF approvals_sql, of "calm_world requested_database"
      "\<lparr>rr_request = requested, rr_workspace = ''ws''\<rparr>"] requested_ok
  by (simp add: approvals_run transition_request_def approval_def)

lemma reviewed_by_another_witness:
  "four_eyes (publication_state (db (run_history approvals (calm_world requested_database))))"
  by (rule reviewed_by_another [OF approvals_sql]) (use requested_ok in simp_all)

definition being_published :: publication_request where
  "being_published = requested\<lparr>pr_status := PublicationPublishing, pr_reviewed_by := ''bob'', pr_owner := ''w1'', pr_token := 1\<rparr>"

definition publishing_database :: database where
  "publishing_database = empty_database\<lparr>
     db_templates := [new_template_row ''ws'' ''order.email'' None (Some sample_template) 1 ''bob'' ''2026-01-02''],
     db_requests := [\<lparr>rr_request = being_published, rr_workspace = ''ws''\<rparr>]\<rparr>"

lemma sample_publishing_run:
  "\<exists>v s'. publish_claimed sample_processor 0 being_published \<lparr>mn_shared = calm_world publishing_database,
      mn_catalog = [], mn_revision = [], mn_reconciled = False\<rparr> = (Inr v, s')"
proof -
  have w: "trim_space ''w1'' = ''w1''" by (simp add: trim_space_plain plain_char_def)
  show ?thesis
    by (simp add: publish_claimed_def statement_runs on_shared_def get_template_def Let_def template_record_by_key_def
      publishing_database_def being_published_def new_template_row_def template_matches_def scan_template_record_def
      already_published_def has_candidate_def finish_publication_def ending_def transition_publication_request_def
      transition_body_def publication_request_by_id_def request_matches_def transition_matches_def transition_row_def
      transition_request_def publication_open_def release_lock_def empty_database_def calm_world_def w)
qed

lemma published_is_approved_witness:
  "\<exists>v s'. publish_claimed sample_processor 0 being_published \<lparr>mn_shared = calm_world publishing_database,
      mn_catalog = [], mn_revision = [], mn_reconciled = False\<rparr> = (Inr v, s') \<and>
    published_holds ''ws'' being_published (db (mn_shared s'))"
proof -
  obtain v s' where run: "publish_claimed sample_processor 0 being_published \<lparr>mn_shared = calm_world publishing_database,
      mn_catalog = [], mn_revision = [], mn_reconciled = False\<rparr> = (Inr v, s')"
    using sample_publishing_run by blast
  have "schema_ok publishing_database" "keyed publishing_database"
    by (auto simp: schema_ok_def publishing_database_def empty_database_def no_clash_def keyed_def template_map_def
        template_matches_def scan_template_record_def new_template_row_def split: if_splits)
  with published_is_approved [OF sample_sql_processor run] run show ?thesis by simp
qed

end
