(* ===== verification/Mailbox_Store.thy ===== *)
theory Mailbox_Store
  imports Policy_Store
begin

text \<open>
  The reader side of the inbox, internal/infrastructure/persistence/database/inbox:
  mailbox_queries.go and mailbox_mutations.go. A query carries the workspace and the recipients
  it may see. \<open>like s p\<close> is the database's \<open>LOWER(search_text) LIKE p\<close>; it is an argument.
  \<open>self\<close> is the workspace the store was built for.
\<close>

section \<open>Predicates\<close>

text \<open>\<open>appendStringPredicate\<close>: no condition when no value is left after trimming.\<close>

definition string_predicate :: "string list \<Rightarrow> string \<Rightarrow> bool" where
  "string_predicate vs s \<longleftrightarrow> (let clean = unique_strings vs in clean = [] \<or> s \<in> set clean)"

definition mailbox_access :: "mailbox_query \<Rightarrow> item_row \<Rightarrow> bool" where
  "mailbox_access q r \<longleftrightarrow> ir_workspace r = qy_workspace q \<and> string_predicate (qy_recipients q) (ir_recipient r)"

definition in_mailbox :: "string \<Rightarrow> item_row \<Rightarrow> bool" where
  "in_mailbox box r \<longleftrightarrow>
     (if box = MailboxUnread then ir_archived r = [] \<and> ir_read r = []
      else if box = MailboxActionRequired then ir_archived r = [] \<and> ir_action_state r = ActionOpen
      else if box = MailboxArchived then ir_archived r \<noteq> []
      else ir_archived r = [])"

definition search_matches :: "(string \<Rightarrow> string \<Rightarrow> bool) \<Rightarrow> string \<Rightarrow> item_row \<Rightarrow> bool" where
  "search_matches like words r \<longleftrightarrow> words = [] \<or> like (ir_search r) (''%'' @ to_lower words @ ''%'')"

definition in_period :: "mailbox_query \<Rightarrow> item_row \<Rightarrow> bool" where
  "in_period q r \<longleftrightarrow> (qy_from q = [] \<or> qy_from q \<le> ir_last r) \<and> (qy_to q = [] \<or> ir_last r \<le> qy_to q)"

definition before_cursor :: "mailbox_query \<Rightarrow> item_row \<Rightarrow> bool" where
  "before_cursor q r \<longleftrightarrow> (qy_before_updated q \<noteq> [] \<and> qy_before_id q \<noteq> [] \<longrightarrow>
     ir_updated r < qy_before_updated q \<or> ir_updated r = qy_before_updated q \<and> ir_id r < qy_before_id q)"

definition mailbox_predicate :: "(string \<Rightarrow> string \<Rightarrow> bool) \<Rightarrow> mailbox_query \<Rightarrow> bool \<Rightarrow> item_row \<Rightarrow> bool" where
  "mailbox_predicate like q cursor r \<longleftrightarrow> mailbox_access q r \<and> in_mailbox (qy_mailbox q) r \<and>
     search_matches like (qy_query q) r \<and> string_predicate (qy_categories q) (ir_category r) \<and>
     string_predicate (qy_sources q) (ir_source r) \<and> string_predicate (qy_severities q) (ir_severity r) \<and>
     string_predicate (qy_action_states q) (ir_action_state r) \<and> in_period q r \<and>
     (cursor \<longrightarrow> before_cursor q r)"

definition normalize_mailbox_query :: "mailbox_query \<Rightarrow> err + mailbox_query" where
  "normalize_mailbox_query q =
     (if qy_workspace q = [] \<or> qy_recipients q = []
      then Inl (ErrorText ''notification mailbox query requires an explicit workspace and recipient boundary'')
      else Inr (q\<lparr>qy_limit := (if qy_limit q \<le> 0 then 50 else if 100 < qy_limit q then 100 else qy_limit q)\<rparr>))"

definition scan_inbox_item :: "item_row \<Rightarrow> item" where
  "scan_inbox_item r = (ir_payload r)\<lparr>it_event := ir_event r, it_occurrences := ir_occurrences r,
     it_first := ir_first r, it_last := ir_last r, it_read := ir_read r, it_archived := ir_archived r,
     it_alert_state := ir_alert_state r, it_updated := ir_updated r\<rparr>"

text \<open>Every operation starts with the normalization of its query and the workspace check.\<close>

definition with_query ::
  "(mailbox_query \<Rightarrow> err + mailbox_query) \<Rightarrow> workspace_id \<Rightarrow> mailbox_query \<Rightarrow> (mailbox_query \<Rightarrow> 'a sql) \<Rightarrow> 'a sql" where
  "with_query prepare self q f = (case prepare q of
     Inl e \<Rightarrow> fail e
   | Inr q' \<Rightarrow> require_workspace self (qy_workspace q') (f q'))"

section \<open>Queries\<close>

definition item_order :: "item_row \<Rightarrow> string \<times> string" where
  "item_order r = (ir_updated r, ir_id r)"

definition list_items ::
  "(string \<Rightarrow> string \<Rightarrow> bool) \<Rightarrow> workspace_id \<Rightarrow> mailbox_query \<Rightarrow> (item list \<times> bool) sql" where
  "list_items like self q0 = with_query normalize_mailbox_query self q0 (\<lambda>q.
     bind_io (wrapping ''list notification inbox items''
       (query (\<lambda>d. take (nat (qy_limit q + 1))
         (sort_key_desc item_order (filter (mailbox_predicate like q True) (db_items d))))))
     (\<lambda>rs. ret (map scan_inbox_item (take (nat (qy_limit q)) rs), nat (qy_limit q) < length rs)))"

definition item_at :: "mailbox_query \<Rightarrow> string \<Rightarrow> item_row \<Rightarrow> bool" where
  "item_at q i r \<longleftrightarrow> mailbox_access q r \<and> ir_id r = i"

definition get_inbox_item :: "mailbox_query \<Rightarrow> string \<Rightarrow> item option sql" where
  "get_inbox_item q i = bind_io (select_row items_table (item_at q i)) (\<lambda>r. ret (map_option scan_inbox_item r))"

definition get_item :: "workspace_id \<Rightarrow> mailbox_query \<Rightarrow> string \<Rightarrow> item option sql" where
  "get_item self q0 i0 = with_query normalize_mailbox_query self q0 (\<lambda>q. let i = trim_space i0 in
     guard_io (i = []) (ErrorText ''notification inbox item id is required'') (get_inbox_item q i))"

text \<open>One facet: the values of a column with the number of matching items, the most frequent first.\<close>

definition facet_rows :: "(item_row \<Rightarrow> string) \<Rightarrow> item_row list \<Rightarrow> (string \<times> int) list" where
  "facet_rows col rs = sort_key (\<lambda>(k, n). (- n, k))
     (map (\<lambda>k. (k, int (length (filter (\<lambda>r. col r = k) rs)))) (remdups (map col rs)))"

definition mailbox_facet_rows ::
  "string \<Rightarrow> (item_row \<Rightarrow> string) \<Rightarrow> (item_row \<Rightarrow> bool) \<Rightarrow> (string \<times> int) list sql" where
  "mailbox_facet_rows name col p = wrapping (''count notification inbox '' @ name @ '' facets'')
     (query (\<lambda>d. facet_rows col (filter p (db_items d))))"

definition count_facets :: "(string \<Rightarrow> string \<Rightarrow> bool) \<Rightarrow> workspace_id \<Rightarrow> mailbox_query \<Rightarrow> facets sql" where
  "count_facets like self q0 = with_query normalize_mailbox_query self q0 (\<lambda>q.
     let p = mailbox_predicate like q False in
     bind_io (wrapping ''count notification inbox unread'' (count_rows items_table (\<lambda>r. p r \<and> ir_read r = []))) (\<lambda>unread.
     bind_io (wrapping ''count notification inbox actions''
       (count_rows items_table (\<lambda>r. p r \<and> ir_action_state r = ActionOpen))) (\<lambda>actions.
     bind_io (mailbox_facet_rows ''category'' ir_category p) (\<lambda>categories.
     bind_io (mailbox_facet_rows ''source'' ir_source p) (\<lambda>sources.
     bind_io (mailbox_facet_rows ''severity'' ir_severity p) (\<lambda>severities.
     ret \<lparr>fc_unread = unread, fc_action_required = actions, fc_categories = categories,
       fc_sources = sources, fc_severities = severities\<rparr>))))))"

section \<open>Mutations\<close>

text \<open>A mutation needs the viewer's own mailbox.\<close>

definition normalize_personal_mutation :: "mailbox_query \<Rightarrow> err + mailbox_query" where
  "normalize_personal_mutation q0 = (case normalize_mailbox_query q0 of
     Inl e \<Rightarrow> Inl e
   | Inr q \<Rightarrow> if qy_scope q \<noteq> ScopeMine \<or> qy_viewer q = [] \<or> qy_recipients q \<noteq> [qy_viewer q]
       then Inl (ErrorText ''notification mailbox mutation requires the viewer's personal scope'') else Inr q)"

text \<open>The transaction of \<open>updateInboxPersonalState\<close>: a missing item is reported without a commit.\<close>

definition personal_state_body ::
  "mailbox_query \<Rightarrow> string \<Rightarrow> (item_row \<Rightarrow> item_row) \<Rightarrow> (bool \<times> item option) sql" where
  "personal_state_body q i change =
     bind_io (get_inbox_item q i) (\<lambda>found. case found of
       None \<Rightarrow> leave_with None
     | Some _ \<Rightarrow>
         bind_io (wrapping ''update notification inbox personal state''
           (update_rows items_table (item_at q i) change)) (\<lambda>count.
         guard_io (count \<noteq> 1) (MutationConflict ''notification_inbox_item'' i ConflictOptimistic)
        (bind_io (get_inbox_item q i) (\<lambda>stored. case stored of
           None \<Rightarrow> leave_with None | Some v \<Rightarrow> commit_with (Some v)))))"

definition update_personal_state ::
  "workspace_id \<Rightarrow> mailbox_query \<Rightarrow> string \<Rightarrow> (string \<Rightarrow> item_row \<Rightarrow> item_row) \<Rightarrow> string \<Rightarrow> string \<Rightarrow> item option sql" where
  "update_personal_state self q0 i0 column at updated = with_query normalize_personal_mutation self q0 (\<lambda>q.
     let i = trim_space i0 in
     guard_io (i = [] \<or> trim_space updated = [])
       (ErrorText ''notification inbox mutation identity and timestamp are required'')
     (transaction (personal_state_body q i (\<lambda>r. (column (trim_space at) r)\<lparr>ir_updated := trim_space updated\<rparr>))))"

definition set_read :: "workspace_id \<Rightarrow> mailbox_query \<Rightarrow> string \<Rightarrow> string \<Rightarrow> string \<Rightarrow> item option sql" where
  "set_read self q i at updated = update_personal_state self q i (\<lambda>v r. r\<lparr>ir_read := v\<rparr>) at updated"

definition set_archived :: "workspace_id \<Rightarrow> mailbox_query \<Rightarrow> string \<Rightarrow> string \<Rightarrow> string \<Rightarrow> item option sql" where
  "set_archived self q i at updated = update_personal_state self q i (\<lambda>v r. r\<lparr>ir_archived := v\<rparr>) at updated"

definition to_mark_read :: "(string \<Rightarrow> string \<Rightarrow> bool) \<Rightarrow> mailbox_query \<Rightarrow> string \<Rightarrow> item_row \<Rightarrow> bool" where
  "to_mark_read like q at r \<longleftrightarrow> mailbox_predicate like q False r \<and> ir_read r = [] \<and> ir_updated r \<le> at"

definition mark_all_read ::
  "(string \<Rightarrow> string \<Rightarrow> bool) \<Rightarrow> workspace_id \<Rightarrow> mailbox_query \<Rightarrow> string \<Rightarrow> int sql" where
  "mark_all_read like self q0 at0 = with_query normalize_personal_mutation self q0 (\<lambda>q. let at = trim_space at0 in
     guard_io (at = []) (ErrorText ''notification inbox read timestamp is required'')
     (wrapping ''mark notification inbox items read''
       (update_rows items_table (to_mark_read like q at) (\<lambda>r. r\<lparr>ir_read := at, ir_updated := at\<rparr>))))"

section \<open>Acknowledging an alert\<close>

definition firing_group :: "item \<Rightarrow> alert_group \<Rightarrow> bool" where
  "firing_group i g \<longleftrightarrow> al_workspace g = it_workspace i \<and> al_recipient g = it_recipient i \<and>
     al_group g = it_group i \<and> al_state g = AlertFiring"

definition acknowledge_group :: "string \<Rightarrow> string \<Rightarrow> alert_group \<Rightarrow> alert_group" where
  "acknowledge_group actor at g = g\<lparr>al_state := AlertAcknowledged, al_acknowledged_at := at,
     al_acknowledged_by := actor, al_updated := at\<rparr>"

definition own_item :: "item \<Rightarrow> item_row \<Rightarrow> bool" where
  "own_item i r \<longleftrightarrow> ir_workspace r = it_workspace i \<and> ir_recipient r = it_recipient i \<and> ir_id r = it_id i"

definition acknowledge_firing :: "string \<Rightarrow> string \<Rightarrow> item \<Rightarrow> unit sql" where
  "acknowledge_firing actor at i =
     bind_io (wrapping ''acknowledge notification alert group''
       (update_rows groups_table (firing_group i) (acknowledge_group actor at))) (\<lambda>count.
     guard_io (count \<noteq> 1) (MutationConflict ''notification_alert_group'' (it_group i) ConflictOptimistic)
    (bind_io (wrapping ''acknowledge notification inbox item''
       (update_rows items_table (own_item i) (\<lambda>r. r\<lparr>ir_alert_state := AlertAcknowledged, ir_updated := at\<rparr>)))
      (\<lambda>_. ret ())))"

definition acknowledge_body :: "mailbox_query \<Rightarrow> string \<Rightarrow> string \<Rightarrow> string \<Rightarrow> (bool \<times> item option) sql" where
  "acknowledge_body q i actor at =
     bind_io (get_inbox_item q i) (\<lambda>found. case found of
       None \<Rightarrow> leave_with None
     | Some v \<Rightarrow>
         guard_io (it_group v = [] \<or> it_alert_state v = [] \<or> it_alert_state v = AlertResolved)
           (ErrorText ''notification alert is not firing'')
        (bind_io (if it_alert_state v \<noteq> AlertAcknowledged then acknowledge_firing actor at v else ret ()) (\<lambda>_.
         bind_io (get_inbox_item q i) (\<lambda>stored. case stored of
           None \<Rightarrow> leave_with None | Some x \<Rightarrow> commit_with (Some x)))))"

definition acknowledge_alert ::
  "workspace_id \<Rightarrow> mailbox_query \<Rightarrow> string \<Rightarrow> user_id \<Rightarrow> string \<Rightarrow> item option sql" where
  "acknowledge_alert self q0 i0 actor at0 = with_query normalize_personal_mutation self q0 (\<lambda>q.
     let i = trim_space i0; at = trim_space at0 in
     guard_io (i = [] \<or> actor = [] \<or> actor \<noteq> qy_viewer q \<or> at = [])
       (ErrorText ''notification alert acknowledgement identity is invalid'')
     (transaction (acknowledge_body q i actor at)))"

end
