(* ===== verification/Mailbox_Views.thy ===== *)
theory Mailbox_Views
  imports Mailbox_Store
begin

text \<open>
  Delegations and saved views, delegation.go and saved_view.go in internal/infrastructure/
  persistence/database/inbox. Both are saved by an insert or an update in one transaction.
\<close>

section \<open>Delegations\<close>

definition list_delegations :: "workspace_id \<Rightarrow> workspace_id \<Rightarrow> user_id \<Rightarrow> delegation list sql" where
  "list_delegations self ws owner =
     guard_io (ws = [] \<or> owner = []) (ErrorText ''notification inbox delegation owner identity is required'')
    (require_workspace self ws
    (wrapping ''list notification inbox delegations''
      (query (\<lambda>d. sort_key dg_created (filter (\<lambda>g. dg_workspace g = ws \<and> dg_owner g = owner) (db_delegations d))))))"

definition delegation_at :: "workspace_id \<Rightarrow> user_id \<Rightarrow> string \<Rightarrow> delegation \<Rightarrow> bool" where
  "delegation_at ws owner i g \<longleftrightarrow> dg_workspace g = ws \<and> dg_owner g = owner \<and> dg_id g = i"

definition delegation_exists :: "workspace_id \<Rightarrow> user_id \<Rightarrow> string \<Rightarrow> bool sql" where
  "delegation_exists ws owner i =
     bind_io (select_row delegations_table (delegation_at ws owner i)) (\<lambda>g. ret (g \<noteq> None))"

definition change_delegation :: "delegation \<Rightarrow> delegation \<Rightarrow> delegation" where
  "change_delegation v g = g\<lparr>dg_delegate := dg_delegate v, dg_starts := dg_starts v, dg_ends := dg_ends v,
     dg_enabled := dg_enabled v, dg_updated := dg_updated v\<rparr>"

definition save_delegation_body :: "delegation \<Rightarrow> (bool \<times> delegation) sql" where
  "save_delegation_body v =
     bind_io (delegation_exists (dg_workspace v) (dg_owner v) (dg_id v)) (\<lambda>exists.
     if \<not> exists
     then bind_io (wrapping ''insert notification inbox delegation''
            (workspace_insert delegations_table delegation_clash ''_notification_inbox_delegations''
              (dg_workspace v) (dg_workspace v) v))
          (\<lambda>_. commit_with v)
     else bind_io (wrapping ''update notification inbox delegation''
            (update_rows delegations_table (delegation_at (dg_workspace v) (dg_owner v) (dg_id v)) (change_delegation v)))
          (\<lambda>count. guard_io (count \<noteq> 1) (MutationConflict ''notification_inbox_delegation'' (dg_id v) ConflictOptimistic)
             (commit_with v)))"

definition save_delegation :: "workspace_id \<Rightarrow> delegation \<Rightarrow> delegation sql" where
  "save_delegation self v =
     guard_io (dg_id v = [] \<or> dg_workspace v = [] \<or> dg_owner v = [] \<or> dg_delegate v = [])
       (ErrorText ''notification inbox delegation identity is required'')
    (require_workspace self (dg_workspace v) (transaction (save_delegation_body v)))"

definition delete_delegation_body :: "workspace_id \<Rightarrow> user_id \<Rightarrow> string \<Rightarrow> (bool \<times> bool) sql" where
  "delete_delegation_body ws owner i =
     bind_io (delegation_exists ws owner i) (\<lambda>exists.
     if \<not> exists then leave_with False
     else bind_io (wrapping ''delete notification inbox delegation''
            (delete_rows delegations_table (delegation_at ws owner i)))
          (\<lambda>count. if count \<noteq> 1 then leave_with False else commit_with True))"

definition delete_delegation :: "workspace_id \<Rightarrow> workspace_id \<Rightarrow> user_id \<Rightarrow> string \<Rightarrow> bool sql" where
  "delete_delegation self ws owner i0 = (let i = trim_space i0 in
     guard_io (ws = [] \<or> owner = [] \<or> i = []) (ErrorText ''notification inbox delegation identity is required'')
    (require_workspace self ws (transaction (delete_delegation_body ws owner i))))"

definition delegation_active :: "workspace_id \<Rightarrow> user_id \<Rightarrow> string \<Rightarrow> delegation \<Rightarrow> bool" where
  "delegation_active ws delegate now g \<longleftrightarrow> dg_workspace g = ws \<and> dg_delegate g = delegate \<and> dg_enabled g \<and>
     (dg_starts g = [] \<or> dg_starts g \<le> now) \<and> (dg_ends g = [] \<or> now < dg_ends g)"

definition list_active_delegated_owners ::
  "workspace_id \<Rightarrow> workspace_id \<Rightarrow> user_id \<Rightarrow> string \<Rightarrow> user_id list sql" where
  "list_active_delegated_owners self ws delegate now =
     guard_io (ws = [] \<or> delegate = [] \<or> trim_space now = [])
       (ErrorText ''notification active delegation query identity is required'')
    (require_workspace self ws
    (wrapping ''list active notification inbox delegations''
      (query (\<lambda>d. sort (remdups (map dg_owner (filter (delegation_active ws delegate now) (db_delegations d))))))))"

section \<open>Saved views\<close>

definition list_saved_views :: "workspace_id \<Rightarrow> workspace_id \<Rightarrow> user_id \<Rightarrow> saved_view list sql" where
  "list_saved_views self ws u =
     guard_io (ws = [] \<or> u = []) (ErrorText ''notification saved-view owner identity is required'')
    (require_workspace self ws
    (wrapping ''list notification inbox saved views''
      (query (\<lambda>d. map wr_payload (sort_key wr_key
        (filter (\<lambda>r. wr_workspace r = ws \<and> wr_recipient r = u) (db_views d)))))))"

definition view_at :: "workspace_id \<Rightarrow> user_id \<Rightarrow> string \<Rightarrow> saved_view_row \<Rightarrow> bool" where
  "view_at ws u k r \<longleftrightarrow> wr_workspace r = ws \<and> wr_recipient r = u \<and> wr_key r = k"

definition saved_view_exists :: "workspace_id \<Rightarrow> user_id \<Rightarrow> string \<Rightarrow> bool sql" where
  "saved_view_exists ws u k = bind_io (select_row views_table (view_at ws u k)) (\<lambda>r. ret (r \<noteq> None))"

definition new_view_row :: "workspace_id \<Rightarrow> user_id \<Rightarrow> saved_view \<Rightarrow> saved_view_row" where
  "new_view_row ws u v = \<lparr>wr_workspace = ws, wr_recipient = u, wr_key = sv_key v, wr_payload = v,
     wr_created = sv_created v, wr_updated = sv_updated v\<rparr>"

definition save_view_body :: "workspace_id \<Rightarrow> user_id \<Rightarrow> saved_view \<Rightarrow> (bool \<times> saved_view) sql" where
  "save_view_body ws u v =
     bind_io (saved_view_exists ws u (sv_key v)) (\<lambda>exists.
     if \<not> exists
     then bind_io (wrapping ''insert notification inbox saved view''
            (workspace_insert views_table view_clash ''_notification_inbox_saved_views'' ws ws (new_view_row ws u v)))
          (\<lambda>_. commit_with v)
     else bind_io (wrapping ''update notification inbox saved view''
            (update_rows views_table (view_at ws u (sv_key v)) (\<lambda>r. r\<lparr>wr_payload := v, wr_updated := sv_updated v\<rparr>)))
          (\<lambda>count. guard_io (count \<noteq> 1) (MutationConflict ''notification_inbox_saved_view'' (sv_key v) ConflictOptimistic)
             (commit_with v)))"

definition save_saved_view :: "workspace_id \<Rightarrow> workspace_id \<Rightarrow> user_id \<Rightarrow> saved_view \<Rightarrow> saved_view sql" where
  "save_saved_view self ws u v0 = (let v = v0\<lparr>sv_key := trim_space (sv_key v0)\<rparr> in
     guard_io (ws = [] \<or> u = [] \<or> sv_key v = []) (ErrorText ''notification saved-view identity is required'')
    (require_workspace self ws (transaction (save_view_body ws u v))))"

definition delete_view_body :: "workspace_id \<Rightarrow> user_id \<Rightarrow> string \<Rightarrow> (bool \<times> bool) sql" where
  "delete_view_body ws u k =
     bind_io (saved_view_exists ws u k) (\<lambda>exists.
     if \<not> exists then leave_with False
     else bind_io (wrapping ''delete notification inbox saved view'' (delete_rows views_table (view_at ws u k)))
          (\<lambda>count. if count \<noteq> 1 then leave_with False else commit_with True))"

definition delete_saved_view :: "workspace_id \<Rightarrow> workspace_id \<Rightarrow> user_id \<Rightarrow> string \<Rightarrow> bool sql" where
  "delete_saved_view self ws u k0 = (let k = trim_space k0 in
     guard_io (ws = [] \<or> u = [] \<or> k = []) (ErrorText ''notification saved-view identity is required'')
    (require_workspace self ws (transaction (delete_view_body ws u k))))"

end
