(* ===== verification/Mailbox_Cursor.thy ===== *)
theory Mailbox_Cursor
  imports Template_Json
begin

text \<open>
  The page cursor of the mailbox, \<open>encodeCursor\<close> and \<open>decodeCursor\<close> of internal/domain/inbox/
  service/mailbox_manager.go: the unpadded URL-safe Base64 of a JSON array with the update time
  and the identifier of the last item of a page. The decoders are the standard library's:
  \<open>base64.RawURLEncoding\<close> (line breaks ignored, trailing bits not checked) and \<open>json.Unmarshal\<close>
  into a list of strings, of which only arrays of two strings that are not blank are accepted.
\<close>

section \<open>Base64\<close>

definition base64_alphabet :: string where
  "base64_alphabet = ''ABCDEFGHIJKLMNOPQRSTUVWXYZabcdefghijklmnopqrstuvwxyz0123456789-_''"

definition base64_digit :: "nat \<Rightarrow> char" where
  "base64_digit n = base64_alphabet ! n"

definition base64_value :: "char \<Rightarrow> nat option" where
  "base64_value c = (let n = length (takeWhile (\<lambda>x. x \<noteq> c) base64_alphabet) in if n < 64 then Some n else None)"

fun base64_digits :: "nat list \<Rightarrow> nat list" where
  "base64_digits [] = []"
| "base64_digits [a] = [a div 4, (a mod 4) * 16]"
| "base64_digits [a, b] = [a div 4, (a mod 4) * 16 + b div 16, (b mod 16) * 4]"
| "base64_digits (a # b # c # rest) =
     a div 4 # ((a mod 4) * 16 + b div 16) # ((b mod 16) * 4 + c div 64) # (c mod 64) # base64_digits rest"

fun base64_bytes :: "nat list \<Rightarrow> nat list option" where
  "base64_bytes [] = Some []"
| "base64_bytes [w] = None"
| "base64_bytes [w, x] = Some [w * 4 + x div 16]"
| "base64_bytes [w, x, y] = Some [w * 4 + x div 16, (x mod 16) * 16 + y div 4]"
| "base64_bytes (w # x # y # z # rest) = map_option
     (\<lambda>bs. (w * 4 + x div 16) # ((x mod 16) * 16 + y div 4) # ((y mod 4) * 64 + z) # bs) (base64_bytes rest)"

definition base64_encode :: "string \<Rightarrow> string" where
  "base64_encode s = map base64_digit (base64_digits (map of_char s))"

definition base64_decode :: "string \<Rightarrow> string option" where
  "base64_decode s = Option.bind (those (map base64_value (filter (\<lambda>c. c \<noteq> CHR 0x0A \<and> c \<noteq> CHR 0x0D) s)))
     (\<lambda>vs. map_option (map char_of) (base64_bytes vs))"

section \<open>JSON strings\<close>

definition hex_value :: "char \<Rightarrow> nat option" where
  "hex_value c = (let n = of_char c in
     if 48 \<le> n \<and> n \<le> 57 then Some (n - 48)
     else if 97 \<le> n \<and> n \<le> 102 then Some (n - 87)
     else if 65 \<le> n \<and> n \<le> 70 then Some (n - 55) else None)"

fun hex4 :: "string \<Rightarrow> (nat \<times> string) option" where
  "hex4 (a # b # c # d # rest) = (case (hex_value a, hex_value b, hex_value c, hex_value d) of
     (Some w, Some x, Some y, Some z) \<Rightarrow> Some (((w * 16 + x) * 16 + y) * 16 + z, rest) | _ \<Rightarrow> None)"
| "hex4 _ = None"

text \<open>\<open>utf8.EncodeRune\<close>; a surrogate or a value out of range is written as U+FFFD.\<close>

definition encode_rune :: "nat \<Rightarrow> string" where
  "encode_rune r = map char_of
    (if r < 0x80 then [r]
     else if r < 0x800 then [0xC0 + r div 64, 0x80 + r mod 64]
     else if 0xD800 \<le> r \<and> r \<le> 0xDFFF \<or> 0x10FFFF < r then [0xEF, 0xBF, 0xBD]
     else if r < 0x10000 then [0xE0 + r div 4096, 0x80 + r div 64 mod 64, 0x80 + r mod 64]
     else [0xF0 + r div 262144, 0x80 + r div 4096 mod 64, 0x80 + r div 64 mod 64, 0x80 + r mod 64])"

definition low_surrogate :: "string \<Rightarrow> (nat \<times> string) option" where
  "low_surrogate s = (case s of a # b # rest \<Rightarrow>
     if a = CHR 0x5C \<and> b = CHR ''u'' then (case hex4 rest of
       Some (n, t) \<Rightarrow> if 0xDC00 \<le> n \<and> n \<le> 0xDFFF then Some (n, t) else None | None \<Rightarrow> None) else None
   | _ \<Rightarrow> None)"

text \<open>The text of an escape \<open>\uXXXX\<close>, with the rest: a surrogate needs its other half.\<close>

definition unicode_escape :: "string \<Rightarrow> (string \<times> string) option" where
  "unicode_escape s = (case hex4 s of None \<Rightarrow> None
   | Some (n, t) \<Rightarrow> if 0xD800 \<le> n \<and> n \<le> 0xDBFF
       then (case low_surrogate t of
          Some (m, u) \<Rightarrow> Some (encode_rune (0x10000 + (n - 0xD800) * 1024 + (m - 0xDC00)), u)
        | None \<Rightarrow> Some (encode_rune n, t))
       else Some (encode_rune n, t))"

definition simple_escape :: "char \<Rightarrow> string option" where
  "simple_escape c =
    (if c = CHR 0x22 \<or> c = CHR 0x5C \<or> c = CHR ''/'' then Some [c]
     else if c = CHR ''b'' then Some [CHR 0x08] else if c = CHR ''f'' then Some [CHR 0x0C]
     else if c = CHR ''n'' then Some [CHR 0x0A] else if c = CHR ''r'' then Some [CHR 0x0D]
     else if c = CHR ''t'' then Some [CHR 0x09] else None)"

definition prepend :: "string \<Rightarrow> (string \<times> string) option \<Rightarrow> (string \<times> string) option" where
  "prepend x r = map_option (\<lambda>(s, t). (x @ s, t)) r"

lemma hex4_shorter: "hex4 s = Some (n, t) \<Longrightarrow> length t < length s"
  by (cases s rule: hex4.cases) (auto split: option.splits)

lemma unicode_escape_shorter: "unicode_escape s = Some (x, t) \<Longrightarrow> length t < length s"
  by (auto simp: unicode_escape_def low_surrogate_def split: option.splits if_splits list.splits prod.splits
      dest!: hex4_shorter)

text \<open>The contents of a JSON string after its opening quote, and what follows the closing one.\<close>

function json_unquote :: "string \<Rightarrow> (string \<times> string) option" where
  "json_unquote [] = None"
| "json_unquote (c # cs) =
    (if c = CHR 0x22 then Some ([], cs)
     else if c < CHR 0x20 then None
     else if c = CHR 0x5C then (case cs of [] \<Rightarrow> None
       | e # rest \<Rightarrow> if e = CHR ''u''
           then (case unicode_escape rest of None \<Rightarrow> None | Some (x, t) \<Rightarrow> prepend x (json_unquote t))
           else (case simple_escape e of None \<Rightarrow> None | Some x \<Rightarrow> prepend x (json_unquote rest)))
     else (let n = rune_width (map of_char (c # cs)) in
       if n = 0 then prepend [CHR 0xEF, CHR 0xBF, CHR 0xBD] (json_unquote cs)
       else prepend (take n (c # cs)) (json_unquote (drop (n - 1) cs))))"
  by pat_completeness auto
termination
  by (relation "measure length") (auto dest: unicode_escape_shorter)

declare json_unquote.simps [simp del]

definition json_space :: "char \<Rightarrow> bool" where
  "json_space c \<longleftrightarrow> c \<in> {CHR 0x20, CHR 0x09, CHR 0x0A, CHR 0x0D}"

definition skip_space :: "string \<Rightarrow> string" where
  "skip_space s = dropWhile json_space s"

text \<open>White space, then the given character.\<close>

definition json_token :: "char \<Rightarrow> string \<Rightarrow> string option" where
  "json_token c s = (case skip_space s of [] \<Rightarrow> None | x # xs \<Rightarrow> if x = c then Some xs else None)"

definition json_text :: "string \<Rightarrow> (string \<times> string) option" where
  "json_text s = Option.bind (json_token (CHR 0x22) s) json_unquote"

definition json_text_pair :: "string \<Rightarrow> (string \<times> string) option" where
  "json_text_pair s =
     Option.bind (json_token (CHR ''['') s) (\<lambda>s.
     Option.bind (json_text s) (\<lambda>(a, s).
     Option.bind (json_token (CHR '','') s) (\<lambda>s.
     Option.bind (json_text s) (\<lambda>(b, s).
     Option.bind (json_token (CHR '']'') s) (\<lambda>s.
     if skip_space s = [] then Some (a, b) else None)))))"

section \<open>The cursor\<close>

definition encode_cursor :: "string \<Rightarrow> string \<Rightarrow> string" where
  "encode_cursor updated i = base64_encode (json_array [json_string updated, json_string i])"

definition cursor_invalid :: err where
  "cursor_invalid = invalid ''backend.notification.inbox_cursor_invalid'' []"

definition decode_cursor :: "string \<Rightarrow> err + string \<times> string" where
  "decode_cursor v = (case Option.bind (base64_decode (trim_space v)) json_text_pair of
     None \<Rightarrow> Inl cursor_invalid
   | Some (a, b) \<Rightarrow> if trim_space a = [] \<or> trim_space b = [] then Inl cursor_invalid else Inr (a, b))"

end
