(* ===== verification/Inbox_Validation.thy ===== *)
theory Inbox_Validation
  imports Template_Json Go_Parse
begin

text \<open>
  The validator of mailbox queries, saved views and delegations, internal/domain/inbox/
  validation/validation.go: it normalizes a value or returns the error. What a query may see
  (\<open>RecipientUserIDs\<close>) is computed here from the viewer and the users the host granted.
\<close>

section \<open>Times\<close>

definition query_time_error :: "string \<Rightarrow> string \<Rightarrow> err" where
  "query_time_error code name = invalid code [''field'', name]"

text \<open>An optional time, normalized to the fixed-width form; the instant is absent for no time.\<close>

definition normalize_time :: "string \<Rightarrow> string \<Rightarrow> string \<Rightarrow> err + string \<times> instant option" where
  "normalize_time code name v =
     (if trim_space v = [] then Inr ([], None)
      else case parse_rfc3339 v of None \<Rightarrow> Inl (query_time_error code name)
        | Some t \<Rightarrow> Inr (timestamp t, Some t))"

definition normalize_query_time :: "string \<Rightarrow> string \<Rightarrow> err + string" where
  "normalize_query_time name v = (case normalize_time ''backend.notification.inbox_query_time_invalid'' name v of
     Inl e \<Rightarrow> Inl e | Inr (s, t) \<Rightarrow> Inr s)"

section \<open>Queries\<close>

definition trim_query :: "mailbox_query \<Rightarrow> mailbox_query" where
  "trim_query q = q\<lparr>qy_workspace := trim_space (qy_workspace q), qy_viewer := trim_space (qy_viewer q),
     qy_recipient := trim_space (qy_recipient q), qy_scope := trim_space (qy_scope q),
     qy_mailbox := trim_space (qy_mailbox q), qy_query := trim_space (qy_query q)\<rparr>"

text \<open>The scope decides whose items are seen: the reports, the owners who delegated, or the viewer.\<close>

definition granted_recipients :: "user_id list \<Rightarrow> user_id \<Rightarrow> string \<Rightarrow> err + user_id list" where
  "granted_recipients granted u code =
     (if granted = [] \<or> u \<noteq> [] \<and> u \<notin> set granted then Inl (invalid code [])
      else Inr (if u \<noteq> [] then [u] else granted))"

definition scope_recipients :: "mailbox_query \<Rightarrow> err + mailbox_query" where
  "scope_recipients q =
     (if qy_scope q = ScopeTeam
      then map_sum id (\<lambda>us. q\<lparr>qy_recipients := us\<rparr>)
        (granted_recipients (qy_reporting q) (qy_recipient q) ''backend.notification.inbox_team_scope_denied'')
      else if qy_scope q = ScopeDelegated
      then map_sum id (\<lambda>us. q\<lparr>qy_recipients := us\<rparr>)
        (granted_recipients (qy_delegated q) (qy_recipient q) ''backend.notification.inbox_delegated_scope_denied'')
      else if qy_recipient q \<noteq> [] \<and> qy_recipient q \<noteq> qy_viewer q
      then Inl (invalid ''backend.notification.inbox_team_filter_invalid'' [])
      else Inr (q\<lparr>qy_recipient := qy_viewer q, qy_recipients := [qy_viewer q]\<rparr>))"

definition mailboxes :: "string list" where
  "mailboxes = [MailboxInbox, MailboxUnread, MailboxActionRequired, MailboxArchived]"

definition query_limit :: "int \<Rightarrow> int" where
  "query_limit n = (if n \<le> 0 then 50 else if 100 < n then 100 else n)"

definition query_rest :: "mailbox_query \<Rightarrow> err + mailbox_query" where
  "query_rest q0 = (let q = q0\<lparr>qy_mailbox := (if qy_mailbox q0 = [] then MailboxInbox else qy_mailbox q0)\<rparr> in
     if qy_mailbox q \<notin> set mailboxes
     then Inl (invalid ''backend.notification.inbox_mailbox_invalid'' [''mailbox'', qy_mailbox q])
     else if 200 < length (qy_query q) then Inl (invalid ''backend.notification.inbox_query_invalid'' [])
     else case normalize_query_time ''from'' (qy_from q) of Inl e \<Rightarrow> Inl e
     | Inr from \<Rightarrow> (case normalize_query_time ''to'' (qy_to q) of Inl e \<Rightarrow> Inl e
       | Inr to \<Rightarrow> Inr (q\<lparr>qy_limit := query_limit (qy_limit q), qy_from := from, qy_to := to\<rparr>)))"

definition validate_query :: "mailbox_query \<Rightarrow> err + mailbox_query" where
  "validate_query q0 = (let q = trim_query q0 in
     if qy_workspace q = [] \<or> qy_viewer q = [] then Inl (invalid ''backend.notification.inbox_scope_invalid'' [])
     else let q = q\<lparr>qy_scope := (if qy_scope q = [] then ScopeMine else qy_scope q)\<rparr> in
     if qy_scope q \<notin> {ScopeMine, ScopeTeam, ScopeDelegated}
     then Inl (invalid ''backend.notification.inbox_audience_scope_invalid'' [])
     else case scope_recipients (q\<lparr>qy_reporting := unique_users (qy_reporting q),
         qy_delegated := unique_users (qy_delegated q)\<rparr>) of
       Inl e \<Rightarrow> Inl e | Inr q \<Rightarrow> query_rest q)"

section \<open>Saved views\<close>

text \<open>The query a saved view stands for, checked with stand-ins for the workspace and the users.\<close>

definition saved_view_query :: "saved_view \<Rightarrow> mailbox_query" where
  "saved_view_query v = (let report = (if sv_member v = [] then ''saved-view-report'' else sv_member v) in
     \<lparr>qy_workspace = ''saved-view'', qy_viewer = ''saved-view'', qy_recipient = sv_member v, qy_recipients = [],
      qy_reporting = (if sv_scope v = ScopeDelegated then [] else [report]),
      qy_delegated = (if sv_scope v = ScopeDelegated then [report] else []),
      qy_scope = sv_scope v, qy_mailbox = sv_mailbox v, qy_query = sv_query v, qy_categories = sv_categories v,
      qy_sources = sv_sources v, qy_severities = sv_severities v, qy_action_states = sv_action_states v,
      qy_from = sv_from v, qy_to = sv_to v, qy_before_updated = [], qy_before_id = [], qy_limit = 1\<rparr>)"

text \<open>\<open>utf8.RuneCountInString\<close>: a byte that does not start a valid sequence counts as one.\<close>

fun rune_count_from :: "nat \<Rightarrow> string \<Rightarrow> nat" where
  "rune_count_from skip [] = 0"
| "rune_count_from (Suc k) (c # cs) = rune_count_from k cs"
| "rune_count_from 0 (c # cs) = Suc (rune_count_from (rune_width (map of_char (c # cs)) - 1) cs)"

definition rune_count :: "string \<Rightarrow> nat" where
  "rune_count s = rune_count_from 0 s"

definition validate_saved_view :: "saved_view \<Rightarrow> err + saved_view" where
  "validate_saved_view v0 = (let v = v0\<lparr>sv_key := trim_space (sv_key v0), sv_name := trim_space (sv_name v0),
       sv_member := trim_space (sv_member v0)\<rparr> in
     if \<not> stable_key (sv_key v) \<or> sv_name v = [] \<or> 80 < rune_count (sv_name v)
     then Inl (invalid ''backend.notification.inbox_saved_view_invalid'' [])
     else case validate_query (saved_view_query v) of Inl e \<Rightarrow> Inl (Wrapped ''saved view'' e)
     | Inr q \<Rightarrow> Inr (v\<lparr>sv_mailbox := qy_mailbox q, sv_query := qy_query q, sv_scope := qy_scope q\<rparr>))"

section \<open>Delegations\<close>

definition delegation_time :: "string \<Rightarrow> string \<Rightarrow> err + string \<times> instant option" where
  "delegation_time name v = normalize_time ''backend.notification.inbox_delegation_time_invalid'' name v"

text \<open>\<open>IsZero\<close> treats a missing time and the zero time alike.\<close>

definition ends_too_early :: "instant option \<Rightarrow> instant option \<Rightarrow> bool" where
  "ends_too_early starts ends \<longleftrightarrow> (case (starts, ends) of
     (Some s, Some e) \<Rightarrow> s \<noteq> zero_time \<and> e \<noteq> zero_time \<and> e \<le> s | _ \<Rightarrow> False)"

definition validate_delegation :: "delegation \<Rightarrow> err + delegation" where
  "validate_delegation v0 = (let v = v0\<lparr>dg_workspace := trim_space (dg_workspace v0), dg_owner := trim_space (dg_owner v0),
       dg_delegate := trim_space (dg_delegate v0)\<rparr> in
     if dg_workspace v = [] \<or> dg_owner v = [] \<or> dg_delegate v = [] \<or> dg_delegate v = dg_owner v
     then Inl (invalid ''backend.notification.inbox_delegation_invalid'' [])
     else case delegation_time ''starts_at'' (dg_starts v) of Inl e \<Rightarrow> Inl e
     | Inr (starts, s) \<Rightarrow> (case delegation_time ''ends_at'' (dg_ends v) of Inl e \<Rightarrow> Inl e
       | Inr (ends, e) \<Rightarrow>
           if ends_too_early s e
           then Inl (invalid ''backend.notification.inbox_delegation_time_invalid'' [''field'', ''ends_at''])
           else Inr (v\<lparr>dg_starts := starts, dg_ends := ends\<rparr>)))"

section \<open>What validation establishes\<close>

lemma scope_recipients_Inr:
  "scope_recipients q = Inr v \<Longrightarrow> v = q\<lparr>qy_recipient := qy_recipient v, qy_recipients := qy_recipients v\<rparr> \<and>
     qy_recipients v \<noteq> [] \<and>
     (if qy_scope q = ScopeTeam then set (qy_recipients v) \<subseteq> set (qy_reporting q)
      else if qy_scope q = ScopeDelegated then set (qy_recipients v) \<subseteq> set (qy_delegated q)
      else qy_recipients v = [qy_viewer q])"
  by (cases q) (auto simp: scope_recipients_def granted_recipients_def map_sum_def split: if_splits sum.splits)

lemma query_rest_Inr:
  "query_rest q = Inr v \<Longrightarrow> v = q\<lparr>qy_mailbox := qy_mailbox v, qy_limit := qy_limit v, qy_from := qy_from v, qy_to := qy_to v\<rparr> \<and>
     1 \<le> qy_limit v \<and> qy_limit v \<le> 100"
  by (cases q) (auto simp: query_rest_def Let_def query_limit_def split: if_splits sum.splits)

text \<open>What a validated query may see: the viewer's own items, or those of users the host granted.\<close>

lemma validate_query_Inr:
  assumes "validate_query q = Inr v"
  shows "qy_workspace v = trim_space (qy_workspace q)" "qy_workspace v \<noteq> []" "qy_recipients v \<noteq> []"
    "1 \<le> qy_limit v" "qy_limit v \<le> 100" "qy_before_updated v = qy_before_updated q" "qy_before_id v = qy_before_id q"
    "qy_viewer v = trim_space (qy_viewer q)" "qy_viewer v \<noteq> []"
    "if qy_scope v = ScopeTeam then set (qy_recipients v) \<subseteq> set (unique_users (qy_reporting q))
     else if qy_scope v = ScopeDelegated then set (qy_recipients v) \<subseteq> set (unique_users (qy_delegated q))
     else qy_scope v = ScopeMine \<and> qy_recipients v = [qy_viewer v]"
proof -
  let ?t = "trim_query q"
  let ?s = "?t\<lparr>qy_scope := (if qy_scope ?t = [] then ScopeMine else qy_scope ?t),
    qy_reporting := unique_users (qy_reporting q), qy_delegated := unique_users (qy_delegated q)\<rparr>"
  have "qy_workspace ?t \<noteq> []" "qy_viewer ?t \<noteq> []" "qy_scope ?s \<in> {ScopeMine, ScopeTeam, ScopeDelegated}"
    using assms unfolding validate_query_def Let_def by (simp_all split: if_splits)
  moreover obtain x where "scope_recipients ?s = Inr x" "query_rest x = Inr v"
    using assms unfolding validate_query_def Let_def by (simp add: trim_query_def split: if_splits sum.splits)
  moreover note scope_recipients_Inr [OF this(1)] query_rest_Inr [OF this(2)]
  ultimately obtain u us box lim start stop where v: "v = ?s\<lparr>qy_recipient := u, qy_recipients := us, qy_mailbox := box,
      qy_limit := lim, qy_from := start, qy_to := stop\<rparr>" "us \<noteq> []" "1 \<le> lim" "lim \<le> 100"
    and grant: "if qy_scope ?s = ScopeTeam then set us \<subseteq> set (qy_reporting ?s)
      else if qy_scope ?s = ScopeDelegated then set us \<subseteq> set (qy_delegated ?s) else us = [qy_viewer ?s]"
    and known: "qy_workspace ?t \<noteq> []" "qy_viewer ?t \<noteq> []" "qy_scope ?s \<in> {ScopeMine, ScopeTeam, ScopeDelegated}" by metis
  show "qy_workspace v = trim_space (qy_workspace q)" "qy_workspace v \<noteq> []" "qy_recipients v \<noteq> []"
    "1 \<le> qy_limit v" "qy_limit v \<le> 100" "qy_before_updated v = qy_before_updated q" "qy_before_id v = qy_before_id q"
    "qy_viewer v = trim_space (qy_viewer q)" "qy_viewer v \<noteq> []"
    using v known(1,2) by (simp_all add: trim_query_def)
  show "if qy_scope v = ScopeTeam then set (qy_recipients v) \<subseteq> set (unique_users (qy_reporting q))
     else if qy_scope v = ScopeDelegated then set (qy_recipients v) \<subseteq> set (unique_users (qy_delegated q))
     else qy_scope v = ScopeMine \<and> qy_recipients v = [qy_viewer v]"
    using grant known(3) unfolding v(1) by (auto split: if_splits)
qed

end
