(* ===== verification/Mailbox_Manager.thy ===== *)
theory Mailbox_Manager
  imports Mailbox_Views Mailbox_Cursor Inbox_Validation Inbox_Processor
begin

text \<open>
  The mailbox use cases, internal/domain/inbox/service/mailbox_manager.go, and the action
  resolver, action_resolver.go. The manager validates the query or the value, stamps it with the
  clock and calls the store; the stores are records of their operations, and saved views and
  delegations may be absent. \<open>now\<close> is what the clock says.
\<close>

record 'w mailbox_store =
  ms_list :: "mailbox_query \<Rightarrow> ('w, item list \<times> bool) io"
  ms_get :: "mailbox_query \<Rightarrow> string \<Rightarrow> ('w, item option) io"
  ms_facets :: "mailbox_query \<Rightarrow> ('w, facets) io"
  ms_set_read :: "mailbox_query \<Rightarrow> string \<Rightarrow> string \<Rightarrow> string \<Rightarrow> ('w, item option) io"
  ms_set_archived :: "mailbox_query \<Rightarrow> string \<Rightarrow> string \<Rightarrow> string \<Rightarrow> ('w, item option) io"
  ms_acknowledge :: "mailbox_query \<Rightarrow> string \<Rightarrow> user_id \<Rightarrow> string \<Rightarrow> ('w, item option) io"
  ms_mark_all :: "mailbox_query \<Rightarrow> string \<Rightarrow> ('w, int) io"

record 'w saved_view_store =
  vs_list :: "workspace_id \<Rightarrow> user_id \<Rightarrow> ('w, saved_view list) io"
  vs_save :: "workspace_id \<Rightarrow> user_id \<Rightarrow> saved_view \<Rightarrow> ('w, saved_view) io"
  vs_delete :: "workspace_id \<Rightarrow> user_id \<Rightarrow> string \<Rightarrow> ('w, bool) io"

record 'w delegation_store =
  ds_list :: "workspace_id \<Rightarrow> user_id \<Rightarrow> ('w, delegation list) io"
  ds_save :: "delegation \<Rightarrow> ('w, delegation) io"
  ds_delete :: "workspace_id \<Rightarrow> user_id \<Rightarrow> string \<Rightarrow> ('w, bool) io"
  ds_active :: "workspace_id \<Rightarrow> user_id \<Rightarrow> string \<Rightarrow> ('w, user_id list) io"

record 'w mailbox_manager =
  mm_mailboxes :: "'w mailbox_store"
  mm_views :: "'w saved_view_store option"
  mm_delegations :: "'w delegation_store option"

definition sql_mailbox_store :: "(string \<Rightarrow> string \<Rightarrow> bool) \<Rightarrow> workspace_id \<Rightarrow> world mailbox_store" where
  "sql_mailbox_store like self = \<lparr>ms_list = list_items like self, ms_get = get_item self,
     ms_facets = count_facets like self, ms_set_read = set_read self, ms_set_archived = set_archived self,
     ms_acknowledge = acknowledge_alert self, ms_mark_all = mark_all_read like self\<rparr>"

definition sql_view_store :: "workspace_id \<Rightarrow> world saved_view_store" where
  "sql_view_store self = \<lparr>vs_list = list_saved_views self, vs_save = save_saved_view self, vs_delete = delete_saved_view self\<rparr>"

definition sql_delegation_store :: "workspace_id \<Rightarrow> world delegation_store" where
  "sql_delegation_store self = \<lparr>ds_list = list_delegations self, ds_save = save_delegation self,
     ds_delete = delete_delegation self, ds_active = list_active_delegated_owners self\<rparr>"

definition checked_value :: "err + 'a \<Rightarrow> ('a \<Rightarrow> ('w, 'b) io) \<Rightarrow> ('w, 'b) io" where
  "checked_value r f = (case r of Inl e \<Rightarrow> fail e | Inr a \<Rightarrow> f a)"

lemma checked_value_Inr:
  "checked_value r f w = (Inr b, w') \<longleftrightarrow> (\<exists>a. r = Inr a \<and> f a w = (Inr b, w'))"
  by (cases r) (auto simp: checked_value_def)

definition item_not_found :: "string \<Rightarrow> err" where
  "item_not_found i = not_found ''backend.notification.inbox_item_not_found'' [''notification_id'', i]"

text \<open>\<open>mailboxMutationResult\<close>.\<close>

definition found_item :: "string \<Rightarrow> item option \<Rightarrow> ('w, item) io" where
  "found_item i v = (case v of None \<Rightarrow> fail (item_not_found i) | Some x \<Rightarrow> ret x)"

section \<open>Items\<close>

definition page_of :: "item list \<times> bool \<Rightarrow> page" where
  "page_of = (\<lambda>(items, more). \<lparr>pg_items = items,
     pg_cursor = (if more \<and> items \<noteq> [] then encode_cursor (it_updated (last items)) (it_id (last items)) else []),
     pg_more = more\<rparr>)"

definition at_cursor :: "string \<Rightarrow> mailbox_query \<Rightarrow> err + mailbox_query" where
  "at_cursor cursor q = (if trim_space cursor = [] then Inr q
     else case decode_cursor cursor of Inl e \<Rightarrow> Inl e
       | Inr (updated, i) \<Rightarrow> Inr (q\<lparr>qy_before_updated := updated, qy_before_id := i\<rparr>))"

definition mailbox_list :: "'w mailbox_manager \<Rightarrow> mailbox_query \<Rightarrow> string \<Rightarrow> ('w, page) io" where
  "mailbox_list m q cursor = checked_value (validate_query q) (\<lambda>v.
     checked_value (at_cursor cursor v) (\<lambda>v.
     bind_io (ms_list (mm_mailboxes m) v) (\<lambda>r. ret (page_of r))))"

definition mailbox_get :: "'w mailbox_manager \<Rightarrow> mailbox_query \<Rightarrow> string \<Rightarrow> ('w, item) io" where
  "mailbox_get m q i = checked_value (validate_query q) (\<lambda>v.
     bind_io (ms_get (mm_mailboxes m) v (trim_space i)) (found_item i))"

definition mailbox_facets :: "'w mailbox_manager \<Rightarrow> mailbox_query \<Rightarrow> ('w, facets) io" where
  "mailbox_facets m q = checked_value (validate_query q) (ms_facets (mm_mailboxes m))"

definition mailbox_set_read :: "'w mailbox_manager \<Rightarrow> instant \<Rightarrow> mailbox_query \<Rightarrow> string \<Rightarrow> bool \<Rightarrow> ('w, item) io" where
  "mailbox_set_read m now q i read = checked_value (validate_query q) (\<lambda>v.
     bind_io (ms_set_read (mm_mailboxes m) v (trim_space i) (if read then timestamp now else []) (timestamp now))
       (found_item i))"

definition mailbox_set_archived :: "'w mailbox_manager \<Rightarrow> instant \<Rightarrow> mailbox_query \<Rightarrow> string \<Rightarrow> bool \<Rightarrow> ('w, item) io" where
  "mailbox_set_archived m now q i archived = checked_value (validate_query q) (\<lambda>v.
     bind_io (ms_set_archived (mm_mailboxes m) v (trim_space i) (if archived then timestamp now else []) (timestamp now))
       (found_item i))"

definition mailbox_acknowledge :: "'w mailbox_manager \<Rightarrow> instant \<Rightarrow> mailbox_query \<Rightarrow> string \<Rightarrow> user_id \<Rightarrow> ('w, item) io" where
  "mailbox_acknowledge m now q i0 actor0 = checked_value (validate_query q) (\<lambda>v.
     let i = trim_space i0; actor = trim_space actor0 in
     guard_io (actor = [] \<or> qy_scope v \<noteq> ScopeMine \<or> actor \<noteq> qy_viewer v)
       (invalid ''backend.notification.inbox_alert_actor_invalid'' [])
    (bind_io (bind_io (ms_get (mm_mailboxes m) v i) (found_item i)) (\<lambda>current.
     guard_io (it_alert_state current = [] \<or> it_alert_state current = AlertResolved)
       (conflict ''backend.notification.inbox_alert_not_firing'' [''alert_state'', it_alert_state current])
    (bind_io (ms_acknowledge (mm_mailboxes m) v i actor (timestamp now)) (found_item i)))))"

definition mailbox_mark_all :: "'w mailbox_manager \<Rightarrow> instant \<Rightarrow> mailbox_query \<Rightarrow> ('w, int) io" where
  "mailbox_mark_all m now q = checked_value (validate_query q) (\<lambda>v.
     guard_io (qy_scope v \<noteq> ScopeMine) (forbidden ''backend.notification.inbox_team_mutation_forbidden'' [])
       (ms_mark_all (mm_mailboxes m) v (timestamp now)))"

section \<open>Saved views\<close>

definition mailbox_owner :: "workspace_id \<Rightarrow> user_id \<Rightarrow> err + workspace_id \<times> user_id" where
  "mailbox_owner ws u = (if trim_space ws = [] \<or> trim_space u = []
     then Inl (invalid ''backend.notification.inbox_scope_invalid'' []) else Inr (trim_space ws, trim_space u))"

definition available_store :: "string \<Rightarrow> 's option \<Rightarrow> ('s \<Rightarrow> ('w, 'a) io) \<Rightarrow> ('w, 'a) io" where
  "available_store code store f = (case store of None \<Rightarrow> fail (unavailable code None []) | Some s \<Rightarrow> f s)"

definition views_unavailable :: string where
  "views_unavailable = ''backend.notification.inbox_saved_views_unavailable''"

definition manager_list_views :: "'w mailbox_manager \<Rightarrow> workspace_id \<Rightarrow> user_id \<Rightarrow> ('w, saved_view list) io" where
  "manager_list_views m ws u = checked_value (mailbox_owner ws u) (\<lambda>(ws, u).
     available_store views_unavailable (mm_views m) (\<lambda>s. vs_list s ws u))"

definition stamp_view :: "instant \<Rightarrow> saved_view \<Rightarrow> saved_view" where
  "stamp_view now v = v\<lparr>sv_updated := timestamp now,
     sv_created := (if sv_created v = [] then timestamp now else sv_created v)\<rparr>"

definition manager_save_view ::
  "'w mailbox_manager \<Rightarrow> instant \<Rightarrow> workspace_id \<Rightarrow> user_id \<Rightarrow> saved_view \<Rightarrow> ('w, saved_view) io" where
  "manager_save_view m now ws u v = checked_value (mailbox_owner ws u) (\<lambda>(ws, u).
     available_store views_unavailable (mm_views m) (\<lambda>s.
     checked_value (validate_saved_view v) (\<lambda>x. vs_save s ws u (stamp_view now x))))"

definition manager_delete_view :: "'w mailbox_manager \<Rightarrow> workspace_id \<Rightarrow> user_id \<Rightarrow> string \<Rightarrow> ('w, unit) io" where
  "manager_delete_view m ws u key = checked_value (mailbox_owner ws u) (\<lambda>(ws, u).
     available_store views_unavailable (mm_views m) (\<lambda>s.
     bind_io (vs_delete s ws u (trim_space key)) (\<lambda>deleted.
     guard_io (\<not> deleted) (not_found ''backend.notification.inbox_saved_view_not_found'' [''view_key'', key]) (ret ()))))"

section \<open>Delegations\<close>

definition delegations_unavailable :: string where
  "delegations_unavailable = ''backend.notification.inbox_delegations_unavailable''"

definition manager_list_delegations :: "'w mailbox_manager \<Rightarrow> workspace_id \<Rightarrow> user_id \<Rightarrow> ('w, delegation list) io" where
  "manager_list_delegations m ws owner = checked_value (mailbox_owner ws owner) (\<lambda>(ws, owner).
     available_store delegations_unavailable (mm_delegations m) (\<lambda>s. ds_list s ws owner))"

text \<open>\<open>stableID\<close> of compiler.go: the first half of a SHA-256 over the parts.\<close>

definition stable_id :: "string list \<Rightarrow> string" where
  "stable_id parts = ''inbox_'' @ hex_encode (take 16 (sha256 (join_with [CHR 0x00] parts)))"

definition stamp_delegation :: "instant \<Rightarrow> delegation \<Rightarrow> delegation" where
  "stamp_delegation now v = v\<lparr>
     dg_id := (if trim_space (dg_id v) = [] then stable_id [dg_workspace v, dg_owner v, dg_delegate v] else dg_id v),
     dg_created := (if dg_created v = [] then timestamp now else dg_created v), dg_updated := timestamp now\<rparr>"

definition manager_save_delegation :: "'w mailbox_manager \<Rightarrow> instant \<Rightarrow> delegation \<Rightarrow> ('w, delegation) io" where
  "manager_save_delegation m now v = available_store delegations_unavailable (mm_delegations m) (\<lambda>s.
     checked_value (validate_delegation v) (\<lambda>x. ds_save s (stamp_delegation now x)))"

definition manager_delete_delegation :: "'w mailbox_manager \<Rightarrow> workspace_id \<Rightarrow> user_id \<Rightarrow> string \<Rightarrow> ('w, unit) io" where
  "manager_delete_delegation m ws0 owner0 i = (let ws = trim_space ws0; owner = trim_space owner0 in
     guard_io (ws = [] \<or> owner = []) (invalid ''backend.notification.inbox_delegation_invalid'' [])
    (available_store delegations_unavailable (mm_delegations m) (\<lambda>s.
     bind_io (ds_delete s ws owner (trim_space i)) (\<lambda>deleted.
     guard_io (\<not> deleted) (not_found ''backend.notification.inbox_delegation_not_found'' [''delegation_id'', i]) (ret ())))))"

definition active_delegated_owners ::
  "'w mailbox_manager \<Rightarrow> instant \<Rightarrow> workspace_id \<Rightarrow> user_id \<Rightarrow> ('w, user_id list) io" where
  "active_delegated_owners m now ws delegate = checked_value (mailbox_owner ws delegate) (\<lambda>(ws, delegate).
     available_store delegations_unavailable (mm_delegations m) (\<lambda>s. ds_active s ws delegate (timestamp now)))"

section \<open>Resolving an action\<close>

text \<open>\<open>descriptors\<close> is the catalog's action map; the check and the result follow \<open>Resolve\<close>.\<close>

definition action_closed :: "item \<Rightarrow> bool" where
  "action_closed i \<longleftrightarrow> it_action_state i \<in> {ActionCompleted, ActionExpired, ActionCancelled}"

definition item_expired :: "instant \<Rightarrow> item \<Rightarrow> bool" where
  "item_expired now i \<longleftrightarrow> it_expires i \<noteq> [] \<and>
     (case parse_rfc3339 (it_expires i) of None \<Rightarrow> True | Some t \<Rightarrow> t \<le> now)"

definition route_of :: "(string \<times> action_descriptor) list \<Rightarrow> action_ref \<Rightarrow> string option" where
  "route_of descriptors a = (case map_of descriptors (trim_space (ar_key a)) of None \<Rightarrow> None
     | Some d \<Rightarrow> if ad_kind d = ar_kind a \<and> ad_resource_type d = ar_resource_type a \<and> trim_space (ad_route d) \<noteq> []
         then Some (trim_space (ad_route d)) else None)"

definition resolved :: "item \<Rightarrow> action_ref \<Rightarrow> string \<Rightarrow> resolved_action" where
  "resolved i a route = \<lparr>ra_key = ar_key a, ra_label = ar_label a, ra_style = ar_style a, ra_navigation = ''route'',
     ra_route = route, ra_params = [(''resource_type'', ar_resource_type a), (''resource_id'', ar_resource_id a)] @
       (if ar_resource_type a = ''project_record'' then [(''object_key'', it_subject_type i)] else []),
     ra_status = ''available''\<rparr>"

definition resolve_action ::
  "'w mailbox_manager \<Rightarrow> (string \<times> action_descriptor) list \<Rightarrow> instant \<Rightarrow> mailbox_query \<Rightarrow> string \<Rightarrow> string \<Rightarrow> ('w, resolved_action) io" where
  "resolve_action m descriptors now q i key0 =
     guard_io (qy_scope q = ScopeTeam \<or> qy_scope q = ScopeDelegated)
       (forbidden ''backend.notification.inbox_team_action_forbidden'' [])
    (bind_io (mailbox_get m q (trim_space i)) (\<lambda>v.
     guard_io (action_closed v)
       (conflict ''backend.notification.inbox_action_unavailable'' [''action_state'', it_action_state v])
    (let key = trim_space key0 in
     case List.find (\<lambda>a. ar_key a = key) (it_actions v) of
       None \<Rightarrow> fail (not_found ''backend.notification.inbox_action_not_found'' [''action_key'', key])
     | Some a \<Rightarrow> guard_io (item_expired now v) (conflict ''backend.notification.inbox_action_expired'' [])
        (case route_of descriptors a of
           None \<Rightarrow> fail (conflict ''backend.notification.inbox_action_unavailable'' [''action_key'', ar_key a])
         | Some route \<Rightarrow> ret (resolved v a route)))))"

end
