(* ===== verification/Mailbox_Pages.thy ===== *)
theory Mailbox_Pages
  imports Mailbox_Manager
begin

text \<open>
  Pages of the mailbox: the cursor round trip, and that following the cursors lists every
  matching item once and in order.
\<close>

section \<open>Base64 round trip\<close>

lemma joined_digits: "q < k \<Longrightarrow> (p * k + q) div k = p \<and> (p * k + q) mod k = (q :: nat)"
  by simp

lemma base64_group:
  assumes "a < 256" "b < 256" "c < (256 :: nat)"
  shows "a div 4 * 4 + (a mod 4 * 16 + b div 16) div 16 = a"
    "(a mod 4 * 16 + b div 16) mod 16 * 16 + (b mod 16 * 4 + c div 64) div 4 = b"
    "(b mod 16 * 4 + c div 64) mod 4 * 64 + c mod 64 = c"
    "a div 4 < 64" "a mod 4 * 16 + b div 16 < 64" "b mod 16 * 4 + c div 64 < 64" "c mod 64 < 64"
proof -
  have "b div 16 < 16" "c div 64 < 4" using assms by (simp_all add: div_less_iff_less_mult)
  note parts = joined_digits [OF this(1), of "a mod 4"] joined_digits [OF this(2), of "b mod 16"] this
  show "a div 4 * 4 + (a mod 4 * 16 + b div 16) div 16 = a"
    "(a mod 4 * 16 + b div 16) mod 16 * 16 + (b mod 16 * 4 + c div 64) div 4 = b"
    "(b mod 16 * 4 + c div 64) mod 4 * 64 + c mod 64 = c" using parts by simp_all
  have "a mod 4 < 4" "b mod 16 < 16" by simp_all
  with parts show "a mod 4 * 16 + b div 16 < 64" "b mod 16 * 4 + c div 64 < 64" by linarith+
  show "a div 4 < 64" "c mod 64 < 64" using assms by (simp_all add: div_less_iff_less_mult)
qed

lemma base64_bytes_digits:
  "\<forall>b \<in> set bs. b < 256 \<Longrightarrow> base64_bytes (base64_digits bs) = Some bs"
proof (induction bs rule: base64_digits.induct)
  case (4 a b c rest)
  then have "a < 256" "b < 256" "c < 256" "base64_bytes (base64_digits rest) = Some rest" by simp_all
  then show ?case using base64_group [of a b c] by (simp only: base64_digits.simps base64_bytes.simps option.map)
next
  case (2 a)
  then show ?case using base64_group(1) [of a 0 0] by simp
next
  case (3 a b)
  then show ?case using base64_group(1,2) [of a b 0] by simp
qed simp

lemma base64_digits_small:
  "\<forall>b \<in> set bs. b < 256 \<Longrightarrow> \<forall>d \<in> set (base64_digits bs). d < 64"
proof (induction bs rule: base64_digits.induct)
  case (4 a b c rest)
  then have "a < 256" "b < 256" "c < 256" "\<forall>d \<in> set (base64_digits rest). d < 64" by simp_all
  then show ?case using base64_group(4-7) [of a b c] by (simp only: base64_digits.simps list.set ball_simps)
next
  case (2 a)
  then show ?case using base64_group [of a 0 0] by simp
next
  case (3 a b)
  then show ?case using base64_group [of a b 0] by simp
qed simp

lemma base64_table:
  "\<forall>n \<in> set [0..<64]. base64_value (base64_digit n) = Some n \<and> plain_char (base64_digit n)"
  by code_simp

lemma base64_digit_facts:
  assumes "n < 64"
  shows "base64_value (base64_digit n) = Some n" "plain_char (base64_digit n)"
    "base64_digit n \<noteq> CHR 0x0A" "base64_digit n \<noteq> CHR 0x0D"
proof -
  show p: "base64_value (base64_digit n) = Some n" "plain_char (base64_digit n)" using base64_table assms by simp_all
  from p(2) show "base64_digit n \<noteq> CHR 0x0A" "base64_digit n \<noteq> CHR 0x0D" by (auto simp: plain_char_def)
qed

lemma those_some: "(\<And>x. x \<in> set xs \<Longrightarrow> f (g x) = Some x) \<Longrightarrow> those (map f (map g xs)) = Some xs"
  by (induction xs) auto

lemma base64_encode_trim: "trim_space (base64_encode s) = base64_encode s"
proof -
  have "\<forall>c \<in> set (base64_encode s). plain_char c"
    using base64_digits_small [of "map of_char s"] base64_digit_facts(2) by (auto simp: base64_encode_def)
  then show ?thesis by (intro trim_space_plain) (metis hd_in_set last_in_set)
qed

lemma base64_roundtrip: "base64_decode (base64_encode s) = Some s"
proof -
  let ?ds = "base64_digits (map of_char s)"
  have small: "\<forall>d \<in> set ?ds. d < 64" by (rule base64_digits_small) auto
  then have "filter (\<lambda>c. c \<noteq> CHR 0x0A \<and> c \<noteq> CHR 0x0D) (base64_encode s) = base64_encode s"
    using base64_digit_facts(3,4) by (auto simp: base64_encode_def filter_id_conv)
  moreover have "those (map base64_value (base64_encode s)) = Some ?ds"
    unfolding base64_encode_def using small base64_digit_facts(1) by (intro those_some) blast
  moreover have "base64_bytes ?ds = Some (map of_char s)" by (rule base64_bytes_digits) auto
  ultimately show ?thesis by (simp add: base64_decode_def)
qed

section \<open>JSON round trip\<close>

text \<open>Valid UTF-8, read from the left; \<open>skip\<close> bytes belong to the sequence already begun.\<close>

fun valid_from :: "nat \<Rightarrow> string \<Rightarrow> bool" where
  "valid_from skip [] = True"
| "valid_from (Suc k) (c # cs) = valid_from k cs"
| "valid_from 0 (c # cs) = (let n = rune_width (map of_char (c # cs)) in 0 < n \<and> valid_from (n - 1) cs)"

definition valid_utf8 :: "string \<Rightarrow> bool" where
  "valid_utf8 s = valid_from 0 s"

lemma valid_from_drop: "valid_from k cs = valid_from 0 (drop k cs)"
  by (induction k cs rule: valid_from.induct) simp_all

lemma json_chars_drop: "k \<le> length cs \<Longrightarrow> json_chars k cs = take k cs @ json_chars 0 (drop k cs)"
proof (induction cs arbitrary: k)
  case (Cons c cs)
  then show ?case by (cases k) simp_all
qed simp

lemma rune_width_cases:
  assumes "0 < rune_width bs"
  obtains a xs where "bs = a # xs" "a < 0x80"
  | a b xs where "bs = a # b # xs" "0xC2 \<le> a" "a \<le> 0xDF" "continuation b"
  | a b c xs where "bs = a # b # c # xs" "0xE0 \<le> a" "a \<le> 0xEF" "second_ok a b" "continuation c"
  | a b c d xs where "bs = a # b # c # d # xs" "0xF0 \<le> a" "a \<le> 0xF4" "second_ok a b" "continuation c" "continuation d"
proof (cases bs)
  case (Cons a xs)
  show ?thesis
  proof (cases "a < 0x80")
    case True
    with Cons that(1) show ?thesis by blast
  next
    case False
    note a = this
    from assms Cons a consider "0xC2 \<le> a \<and> a \<le> 0xDF" | "0xE0 \<le> a \<and> a \<le> 0xEF" | "0xF0 \<le> a \<and> a \<le> 0xF4"
      by (auto simp: rune_width.simps split: if_splits)
    then show ?thesis
    proof cases
      case 1
      with assms Cons a obtain b ys where "xs = b # ys" "continuation b"
        by (auto simp: rune_width.simps split: if_splits list.splits)
      with Cons 1 that(2) show ?thesis by blast
    next
      case 2
      with assms Cons a obtain b c ys where "xs = b # c # ys" "second_ok a b" "continuation c"
        by (auto simp: rune_width.simps split: if_splits list.splits)
      with Cons 2 that(3) show ?thesis by blast
    next
      case 3
      with assms Cons a obtain b c d ys where "xs = b # c # d # ys" "second_ok a b" "continuation c" "continuation d"
        by (auto simp: rune_width.simps split: if_splits list.splits)
      with Cons 3 that(4) show ?thesis by blast
    qed
  qed
qed (use assms in \<open>simp add: rune_width.simps\<close>)

lemma rune_width_take:
  assumes "0 < rune_width bs"
  shows "rune_width bs \<le> length bs \<and> rune_width (take (rune_width bs) bs @ zs) = rune_width bs \<and>
     (if rune_width bs = 1 then hd bs < 0x80 else 0xC2 \<le> hd bs)"
  using assms by (cases rule: rune_width_cases) (simp_all add: rune_width.simps)

lemma hex_digit_value: "n < 16 \<Longrightarrow> hex_value (hex_digit n) = Some n"
  by (cases "n < 10") (simp_all add: hex_value_def hex_digit_def of_char_of)

lemma escape_roundtrip:
  assumes "(of_char c :: nat) < 0x80"
  shows "unicode_escape (''00'' @ hex_encode [c] @ t) = Some ([c], t)"
proof -
  let ?n = "of_char c :: nat"
  have "hex_value (CHR ''0'') = Some 0" by code_simp
  moreover have "?n div 16 < 16" using assms by (simp add: div_less_iff_less_mult)
  ultimately have "hex4 (''00'' @ hex_encode [c] @ t) = Some (?n, t)"
    by (simp add: hex_encode_def hex_digit_value)
  with assms show ?thesis by (simp add: unicode_escape_def encode_rune_def)
qed

lemma json_unquote_plain:
  assumes "rune_width (map of_char (c # cs)) = n" "0 < n" "c \<noteq> CHR 0x22" "c \<noteq> CHR 0x5C" "\<not> c < CHR 0x20"
  shows "json_unquote (c # cs) = prepend (take n (c # cs)) (json_unquote (drop (n - 1) cs))"
  using assms by (simp add: json_unquote.simps(2) Let_def del: list.map)

lemma json_unquote_escape:
  "e \<noteq> CHR ''u'' \<Longrightarrow> simple_escape e = Some x \<Longrightarrow> json_unquote (CHR 0x5C # e # t) = prepend x (json_unquote t)"
  "unicode_escape rest = Some (x, t) \<Longrightarrow> json_unquote (CHR 0x5C # CHR ''u'' # rest) = prepend x (json_unquote t)"
  by (simp_all add: json_unquote.simps(2) less_char_def)

lemma simple_escapes:
  "simple_escape (CHR 0x22) = Some [CHR 0x22]" "simple_escape (CHR 0x5C) = Some [CHR 0x5C]"
  "simple_escape (CHR ''b'') = Some [CHR 0x08]" "simple_escape (CHR ''f'') = Some [CHR 0x0C]"
  "simple_escape (CHR ''n'') = Some [CHR 0x0A]" "simple_escape (CHR ''r'') = Some [CHR 0x0D]"
  "simple_escape (CHR ''t'') = Some [CHR 0x09]"
  by (simp_all add: simple_escape_def)

lemma simple_escapes_read:
  "e \<in> {CHR 0x22, CHR 0x5C, CHR ''b'', CHR ''f'', CHR ''n'', CHR ''r'', CHR ''t''} \<Longrightarrow>
   json_unquote (CHR 0x5C # e # t) = prepend (the (simple_escape e)) (json_unquote t)"
  by (rule json_unquote_escape(1)) (auto simp: simple_escapes)

lemma json_unquote_ascii:
  assumes "(of_char c :: nat) < 0x80"
  shows "json_unquote (json_ascii c @ t) = prepend [c] (json_unquote t)"
proof (cases "c \<in> {CHR 0x22, CHR 0x5C, CHR 0x08, CHR 0x0C, CHR 0x0A, CHR 0x0D, CHR 0x09}")
  case True
  then show ?thesis by (elim insertE emptyE) (simp_all add: json_ascii_def simple_escapes_read simple_escapes)
next
  case False
  show ?thesis
  proof (cases "c < CHR 0x20 \<or> c = CHR ''<'' \<or> c = CHR ''>'' \<or> c = CHR ''&''")
    case True
    with False have "json_ascii c @ t = CHR 0x5C # CHR ''u'' # (''00'' @ hex_encode [c] @ t)"
      by (simp add: json_ascii_def)
    then show ?thesis using json_unquote_escape(2) [OF escape_roundtrip [OF assms, of t]] by simp
  next
    case plain: False
    with False have "json_ascii c = [c]" by (simp add: json_ascii_def)
    moreover have "rune_width (map of_char (c # t)) = 1" using assms by (simp add: rune_width.simps)
    ultimately show ?thesis using json_unquote_plain [of c t 1] False plain by simp
  qed
qed

lemma separators_decoded:
  "unicode_escape (''2028'' @ t) = Some ([CHR 0xE2, CHR 0x80, CHR 0xA8], t)"
  "unicode_escape (''2029'' @ t) = Some ([CHR 0xE2, CHR 0x80, CHR 0xA9], t)"
proof -
  have "char_of (of_char (CHR 0xE2) :: nat) = CHR 0xE2" "char_of (of_char (CHR 0x80) :: nat) = CHR 0x80"
    "char_of (of_char (CHR 0xA8) :: nat) = CHR 0xA8" "char_of (of_char (CHR 0xA9) :: nat) = CHR 0xA9"
    by (rule char_of_char)+
  then have "encode_rune 0x2028 = [CHR 0xE2, CHR 0x80, CHR 0xA8]" "encode_rune 0x2029 = [CHR 0xE2, CHR 0x80, CHR 0xA9]"
    by (simp_all add: encode_rune_def)
  then show "unicode_escape (''2028'' @ t) = Some ([CHR 0xE2, CHR 0x80, CHR 0xA8], t)"
    "unicode_escape (''2029'' @ t) = Some ([CHR 0xE2, CHR 0x80, CHR 0xA9], t)"
    by (simp_all add: unicode_escape_def hex_value_def)
qed

lemma json_unquote_wide:
  assumes n: "rune_width (map of_char (c # cs)) = n" "1 < n"
  shows "json_unquote (c # json_chars (n - 1) cs @ t) =
    prepend (take n (c # cs)) (json_unquote (json_chars 0 (drop (n - 1) cs) @ t))"
proof -
  let ?rest = "json_chars 0 (drop (n - 1) cs) @ t"
  from rune_width_take [of "map of_char (c # cs)" "map of_char ?rest"] n
  have len: "n \<le> length (c # cs)" and wide: "(0xC2 :: nat) \<le> of_char c"
    and width: "rune_width (map of_char (take n (c # cs) @ ?rest)) = n"
    unfolding map_append take_map [symmetric] by (simp_all split: if_splits)
  have whole: "c # json_chars (n - 1) cs @ t = take n (c # cs) @ ?rest"
    using len n(2) json_chars_drop [of "n - 1" cs] by (cases n) auto
  have parts: "take n (take n (c # cs) @ ?rest) = take n (c # cs)" "drop n (take n (c # cs) @ ?rest) = ?rest"
    using len by simp_all
  obtain ys where ys: "take n (c # cs) @ ?rest = c # ys" using n(2) by (cases n) auto
  have "c \<noteq> CHR 0x22" "c \<noteq> CHR 0x5C" "\<not> c < CHR 0x20" using wide by (auto simp: less_char_def)
  from json_unquote_plain [OF _ _ this] width n(2) have "json_unquote (c # ys) = prepend (take n (c # ys)) (json_unquote (drop (n - 1) ys))"
    unfolding ys by simp
  moreover have "drop (n - 1) ys = ?rest" using parts(2) n(2) unfolding ys by (cases n) auto
  ultimately show ?thesis using parts(1) unfolding whole ys by simp
qed

lemma prepend_Some: "prepend x (Some (s, t)) = Some (x @ s, t)"
  by (simp add: prepend_def)

lemma json_chars_Cons:
  "rune_width (map of_char (c # cs)) = n \<Longrightarrow> json_chars 0 (c # cs) =
     (if n = 0 then [CHR 0x5C] @ ''ufffd'' @ json_chars 0 cs
      else if n = 1 then json_ascii c @ json_chars 0 cs
      else if take 3 (c # cs) = [CHR 0xE2, CHR 0x80, CHR 0xA8] then [CHR 0x5C] @ ''u2028'' @ json_chars 0 (drop 2 cs)
      else if take 3 (c # cs) = [CHR 0xE2, CHR 0x80, CHR 0xA9] then [CHR 0x5C] @ ''u2029'' @ json_chars 0 (drop 2 cs)
      else c # json_chars (n - 1) cs)"
  by (simp only: json_chars.simps Let_def)

lemma json_unquote_chars:
  "valid_utf8 s \<Longrightarrow> json_unquote (json_chars 0 s @ CHR 0x22 # t) = Some (s, t)"
proof (induction s rule: length_induct)
  case (1 s)
  show ?case
  proof (cases s)
    case Nil
    then show ?thesis by (simp add: json_unquote.simps(2))
  next
    case (Cons c cs)
    define n where "n = rune_width (map of_char (c # cs))"
    with "1.prems" Cons have n: "0 < n" "valid_from (n - 1) cs" by (auto simp: valid_utf8_def Let_def)
    then have "valid_utf8 (drop (n - 1) cs)" using valid_from_drop [of "n - 1" cs] by (simp add: valid_utf8_def)
    moreover have "length (drop (n - 1) cs) < length s" using Cons by simp
    ultimately have rest: "json_unquote (json_chars 0 (drop (n - 1) cs) @ CHR 0x22 # t) = Some (drop (n - 1) cs, t)"
      using "1.IH" by blast
    have whole: "take n (c # cs) @ drop (n - 1) cs = s" using Cons n(1) by (cases n) auto
    have first: "if n = 1 then (of_char c :: nat) < 0x80 else 0xC2 \<le> (of_char c :: nat)"
      using rune_width_take [of "map of_char (c # cs)" "[]"] n(1) by (simp add: n_def split: if_splits)
    show ?thesis
    proof (cases "n = 1")
      case True
      then have "json_chars 0 s = json_ascii c @ json_chars 0 cs"
        unfolding Cons by (subst json_chars_Cons [OF n_def [symmetric]]) simp
      with True rest whole json_unquote_ascii [of c] first show ?thesis by (simp add: prepend_Some)
    next
      case False
      with n(1) have wide: "1 < n" by simp
      consider "take 3 (c # cs) = [CHR 0xE2, CHR 0x80, CHR 0xA8]" | "take 3 (c # cs) = [CHR 0xE2, CHR 0x80, CHR 0xA9]"
        | "json_chars 0 s = c # json_chars (n - 1) cs"
        using wide json_chars_Cons [OF n_def [symmetric]] unfolding Cons by (auto split: if_splits)
      then show ?thesis
      proof cases
        case 3
        with json_unquote_wide [OF n_def [symmetric] wide] rest whole show ?thesis by (simp add: prepend_Some)
      next
        case 1
        then obtain ys where ys: "cs = CHR 0x80 # CHR 0xA8 # ys" "c = CHR 0xE2"
          by (cases cs; cases "tl cs") auto
        then have "n = 3" by (simp add: n_def rune_width.simps second_ok_def continuation_def)
        with ys rest have "json_chars 0 s = CHR 0x5C # CHR ''u'' # (''2028'' @ json_chars 0 ys)"
          "json_unquote (json_chars 0 ys @ CHR 0x22 # t) = Some (ys, t)"
          using json_chars_Cons [OF n_def [symmetric]] unfolding Cons by simp_all
        with json_unquote_escape(2) [OF separators_decoded(1)] ys Cons show ?thesis by (simp add: prepend_Some)
      next
        case 2
        then obtain ys where ys: "cs = CHR 0x80 # CHR 0xA9 # ys" "c = CHR 0xE2"
          by (cases cs; cases "tl cs") auto
        then have "n = 3" by (simp add: n_def rune_width.simps second_ok_def continuation_def)
        with ys rest have "json_chars 0 s = CHR 0x5C # CHR ''u'' # (''2029'' @ json_chars 0 ys)"
          "json_unquote (json_chars 0 ys @ CHR 0x22 # t) = Some (ys, t)"
          using json_chars_Cons [OF n_def [symmetric]] unfolding Cons by simp_all
        with json_unquote_escape(2) [OF separators_decoded(2)] ys Cons show ?thesis by (simp add: prepend_Some)
      qed
    qed
  qed
qed

lemma json_text_string: "valid_utf8 s \<Longrightarrow> json_text (json_string s @ t) = Some (s, t)"
  using json_unquote_chars [of s t]
  by (simp add: json_text_def json_token_def json_string_def skip_space_def json_space_def)

lemma encode_cursor_trim: "trim_space (encode_cursor a b) = encode_cursor a b" "encode_cursor a b \<noteq> []"
proof -
  show "trim_space (encode_cursor a b) = encode_cursor a b" by (simp add: encode_cursor_def base64_encode_trim)
  have "base64_digits xs \<noteq> []" if "xs \<noteq> []" for xs
    using that by (cases xs rule: base64_digits.cases) simp_all
  then show "encode_cursor a b \<noteq> []" by (simp add: encode_cursor_def base64_encode_def json_array_def)
qed

lemma decode_encode_cursor:
  assumes "valid_utf8 updated" "valid_utf8 i" "trim_space updated \<noteq> []" "trim_space i \<noteq> []"
  shows "decode_cursor (encode_cursor updated i) = Inr (updated, i)"
proof -
  have "json_text_pair (json_array [json_string updated, json_string i]) = Some (updated, i)"
    using json_text_string [OF assms(1)] json_text_string [OF assms(2)]
    by (simp add: json_text_pair_def json_array_def json_token_def skip_space_def json_space_def)
  with assms(3,4) show ?thesis
    by (simp add: decode_cursor_def encode_cursor_def base64_encode_trim base64_roundtrip)
qed

text \<open>A page cursor comes back as it was issued: decoding the cursor of an item gives its update
  time and its identifier, byte for byte, for all texts in UTF-8 that are not blank, so that a
  client that sends the cursor back continues exactly behind that item.\<close>

theorem cursor_roundtrip:
  assumes "valid_utf8 updated" "valid_utf8 i" "trim_space updated \<noteq> []" "trim_space i \<noteq> []"
  shows "decode_cursor (encode_cursor updated i) = Inr (updated, i)"
  using assms by (rule decode_encode_cursor)

lemma cursor_roundtrip_witness:
  "decode_cursor (encode_cursor ''2026-01-01'' ''i1'') = Inr (''2026-01-01'', ''i1'')"
  by (rule cursor_roundtrip)
    (simp_all add: valid_utf8_def rune_width.simps trim_space_plain plain_char_def)

section \<open>Following the pages\<close>

text \<open>What a client does: it lists until a page says there is no more.\<close>

fun follow_pages :: "nat \<Rightarrow> 'w mailbox_manager \<Rightarrow> mailbox_query \<Rightarrow> string \<Rightarrow> ('w, item list) io" where
  "follow_pages 0 m q cursor = fail (ErrorText ''too many pages'')"
| "follow_pages (Suc n) m q cursor = bind_io (mailbox_list m q cursor) (\<lambda>p.
     if pg_more p then bind_io (follow_pages n m q (pg_cursor p)) (\<lambda>rest. ret (pg_items p @ rest))
     else ret (pg_items p))"

abbreviation descending :: "('a \<Rightarrow> 'k::linorder) \<Rightarrow> 'a list \<Rightarrow> bool" where
  "descending f xs \<equiv> sorted_wrt (\<lambda>a b. f b < f a) xs"

lemma sort_key_desc_strict:
  assumes "distinct (map f xs)" shows "descending f (sort_key_desc f xs)"
proof -
  have "sorted_wrt (<) (map f (sort_key f (rev xs)))"
    using assms by (simp add: strict_sorted_iff distinct_map inj_on_def)
  then show ?thesis by (simp add: sort_key_desc_def sorted_wrt_rev sorted_wrt_map)
qed

lemma filter_sort_key_desc: "filter P (sort_key_desc f xs) = sort_key_desc f (filter P xs)"
  by (simp add: sort_key_desc_def filter_sort flip: rev_filter)

lemma below_nth:
  assumes "descending f xs" "0 < n" "n \<le> length xs"
  shows "filter (\<lambda>x. f x < f (xs ! (n - 1))) xs = drop n xs"
proof -
  obtain us x vs where xs: "xs = us @ x # vs" "length us = n - 1"
    using id_take_nth_drop [of "n - 1" xs] assms(2,3) by (metis length_take min.absorb2 diff_less less_le_trans less_imp_le zero_less_one)
  then have nth: "xs ! (n - 1) = x" "drop n xs = vs" using assms(2) by (cases n; simp add: nth_append)+
  from assms(1) xs have "\<forall>u \<in> set us. \<not> f u < f x" "\<forall>v \<in> set vs. f v < f x"
    by (auto simp: sorted_wrt_append)
  then show ?thesis unfolding nth by (simp add: xs(1) filter_empty_conv filter_id_conv)
qed

lemma normalize_valid:
  assumes "validate_query q = Inr v"
  shows "normalize_mailbox_query (v\<lparr>qy_before_updated := u, qy_before_id := i\<rparr>) =
     Inr (v\<lparr>qy_before_updated := u, qy_before_id := i\<rparr>)"
  using validate_query_Inr(2-5) [OF assms] by (cases v) (simp add: normalize_mailbox_query_def)

lemma list_items_run:
  fixes u i :: string and like
  assumes "outcomes w = []" "validate_query q = Inr v" "qy_workspace v = self"
  defines "v' \<equiv> v\<lparr>qy_before_updated := u, qy_before_id := i\<rparr>"
  defines "rows \<equiv> filter (before_cursor v') (sort_key_desc item_order (filter (mailbox_predicate like v False) (db_items (db w))))"
  shows "list_items like self v' w =
    (Inr (map scan_inbox_item (take (nat (qy_limit v)) rows), nat (qy_limit v) < length rows), w)"
proof -
  have p: "mailbox_predicate like v' True = (\<lambda>r. mailbox_predicate like v False r \<and> before_cursor v' r)"
    by (simp add: fun_eq_iff v'_def mailbox_predicate_def mailbox_access_def in_period_def)
  have rows: "sort_key_desc item_order (filter (mailbox_predicate like v' True) (db_items (db w))) = rows"
    unfolding p rows_def filter_sort_key_desc by (simp add: filter_filter conj_commute)
  have lim: "nat (qy_limit v' + 1) = Suc (nat (qy_limit v))" "nat (qy_limit v') = nat (qy_limit v)" "self \<noteq> []" "qy_workspace v' = self"
    using validate_query_Inr(2,4) [OF assms(2)] assms(3) by (simp_all add: v'_def)
  have n: "normalize_mailbox_query v' = Inr v'" unfolding v'_def by (rule normalize_valid) (rule assms(2))
  show ?thesis
    unfolding list_items_def with_query_def n require_workspace_def sum.case
    using assms(1) lim by (simp add: guard_io_def bind_io_def wrapping_def query_run rows min_def)
qed

lemma distinct_order:
  assumes "schema_ok d" shows "distinct (map item_order (filter (mailbox_predicate like v c) (db_items d)))"
proof -
  have "no_clash item_clash (filter (mailbox_predicate like v c) (db_items d))"
    using assms by (simp add: schema_ok_def no_clash_filter)
  then have "distinct (map (\<lambda>r. (ir_workspace r, ir_id r)) (filter (mailbox_predicate like v c) (db_items d)))"
    by (rule no_clash_distinct) (simp add: item_clash_def)
  moreover have "ir_workspace r = qy_workspace v" if "mailbox_predicate like v c r" for r
    using that by (simp add: mailbox_predicate_def mailbox_access_def)
  ultimately show ?thesis by (auto simp: distinct_map inj_on_def item_order_def)
qed

definition listable :: "item_row \<Rightarrow> bool" where
  "listable r \<longleftrightarrow> it_id (ir_payload r) = ir_id r \<and> valid_utf8 (ir_updated r) \<and> valid_utf8 (ir_id r) \<and>
     trim_space (ir_updated r) \<noteq> [] \<and> trim_space (ir_id r) \<noteq> []"

lemma before_item:
  assumes "listable x"
  shows "before_cursor (v\<lparr>qy_before_updated := ir_updated x, qy_before_id := ir_id x\<rparr>) = (\<lambda>r. item_order r < item_order x)"
proof -
  have "ir_updated x \<noteq> []" "ir_id x \<noteq> []" using assms by (auto simp: listable_def)
  then show ?thesis by (auto simp: fun_eq_iff before_cursor_def item_order_def)
qed

lemma before_trans: "before_cursor v x \<Longrightarrow> item_order r < item_order x \<Longrightarrow> before_cursor v r"
  by (auto simp: before_cursor_def item_order_def dest: less_trans)

lemma last_of_take: "0 < n \<Longrightarrow> n < length xs \<Longrightarrow> last (take n xs) = xs ! (n - 1) \<and> take n xs \<noteq> []"
proof -
  assume n: "0 < n" "n < length xs"
  then have "take n xs \<noteq> []" by (cases xs) auto
  with n show ?thesis by (simp add: last_conv_nth)
qed

lemma follow_pages_run:
  fixes like self v w
  defines "S \<equiv> sort_key_desc item_order (filter (mailbox_predicate like v False) (db_items (db w)))"
  assumes w: "outcomes w = []" and q: "validate_query q = Inr v" "qy_workspace v = self"
    and s: "schema_ok (db w)" "\<forall>r \<in> set (db_items (db w)). listable r"
    and m: "mm_mailboxes m = sql_mailbox_store like self"
  shows "at_cursor c v = Inr (v\<lparr>qy_before_updated := u, qy_before_id := i\<rparr>) \<Longrightarrow>
    length (filter (before_cursor (v\<lparr>qy_before_updated := u, qy_before_id := i\<rparr>)) S) < n \<Longrightarrow>
    follow_pages n m q c w =
      (Inr (map scan_inbox_item (filter (before_cursor (v\<lparr>qy_before_updated := u, qy_before_id := i\<rparr>)) S)), w)"
proof (induction n arbitrary: c u i)
  case (Suc n)
  let ?rows = "filter (before_cursor (v\<lparr>qy_before_updated := u, qy_before_id := i\<rparr>)) S" and ?n = "nat (qy_limit v)"
  have lim: "0 < ?n" using validate_query_Inr(4) [OF q(1)] by simp
  have page: "mailbox_list m q c w = (Inr (page_of (map scan_inbox_item (take ?n ?rows), ?n < length ?rows)), w)"
    using list_items_run [OF w q, where u = u and i = i and like = like] Suc.prems(1)
    by (simp add: mailbox_list_def q checked_value_def m sql_mailbox_store_def bind_io_def S_def)
  show ?case
  proof (cases "?n < length ?rows")
    case False
    with page show ?thesis by (simp add: bind_io_def page_of_def)
  next
    case True
    let ?x = "?rows ! (?n - 1)"
    have x: "last (take ?n ?rows) = ?x" "take ?n ?rows \<noteq> []" using last_of_take [OF lim, of ?rows] True by simp_all
    have strict: "descending item_order S" unfolding S_def by (rule sort_key_desc_strict) (rule distinct_order [OF s(1)])
    have "?x \<in> set ?rows" using True lim by (intro nth_mem) simp
    then have mem: "before_cursor (v\<lparr>qy_before_updated := u, qy_before_id := i\<rparr>) ?x" "?x \<in> set S" "listable ?x"
      using s(2) by (auto simp: S_def)
    let ?v = "v\<lparr>qy_before_updated := ir_updated ?x, qy_before_id := ir_id ?x\<rparr>"
    have cursor: "at_cursor (encode_cursor (ir_updated ?x) (ir_id ?x)) v = Inr ?v"
      using mem(3) decode_encode_cursor [of "ir_updated ?x" "ir_id ?x"]
      by (simp add: at_cursor_def listable_def encode_cursor_trim)
    have "filter (before_cursor ?v) S = filter (\<lambda>r. item_order r < item_order ?x) S"
      by (simp only: before_item [OF mem(3)])
    also have "\<dots> = filter (\<lambda>r. item_order r < item_order ?x) ?rows"
      unfolding filter_filter using before_trans [OF mem(1)] by (intro filter_cong) blast+
    also have "\<dots> = drop ?n ?rows" using strict lim True by (intro below_nth) (simp_all add: sorted_wrt_filter)
    finally have rest: "filter (before_cursor ?v) S = drop ?n ?rows" .
    have "follow_pages n m q (encode_cursor (ir_updated ?x) (ir_id ?x)) w = (Inr (map scan_inbox_item (drop ?n ?rows)), w)"
      using Suc.IH [OF cursor] Suc.prems(2) lim True unfolding rest by simp
    moreover have "map scan_inbox_item (take ?n ?rows) @ map scan_inbox_item (drop ?n ?rows) = map scan_inbox_item ?rows"
      by (simp flip: map_append)
    moreover have "pg_cursor (page_of (map scan_inbox_item (take ?n ?rows), True)) = encode_cursor (ir_updated ?x) (ir_id ?x)"
      using x mem(3) by (simp add: page_of_def last_map scan_inbox_item_def listable_def)
    ultimately show ?thesis using page True by (simp add: bind_io_def page_of_def)
  qed
qed simp

lemma follow_pages_all:
  assumes "outcomes w = []" "validate_query q = Inr v" "qy_workspace v = self" "qy_before_updated q = []"
    and "schema_ok (db w)" "\<forall>r \<in> set (db_items (db w)). listable r"
    and "mm_mailboxes m = sql_mailbox_store like self" "length (db_items (db w)) < n"
  shows "follow_pages n m q [] w =
    (Inr (map scan_inbox_item (sort_key_desc item_order (filter (mailbox_predicate like v False) (db_items (db w))))), w)"
proof -
  let ?S = "sort_key_desc item_order (filter (mailbox_predicate like v False) (db_items (db w)))"
  have same: "v\<lparr>qy_before_updated := qy_before_updated v, qy_before_id := qy_before_id v\<rparr> = v" by simp
  have all: "filter (before_cursor v) ?S = ?S"
    using validate_query_Inr(6) [OF assms(2)] assms(4) by (simp add: before_cursor_def filter_id_conv)
  have "length ?S < n" using assms(8) by (simp add: sort_key_desc_def le_less_trans [OF length_filter_le])
  with follow_pages_run [OF assms(1,2,3,5,6,7), where c = "[]" and u = "qy_before_updated v" and i = "qy_before_id v" and n = n] show ?thesis
    unfolding same all by (simp add: at_cursor_def)
qed

text \<open>C21: Paging is complete and exact. A client that starts without a cursor and follows the cursors
  of the pages it gets, whatever the page size, ends after at most one call per stored item and
  has the list a single unbounded query would give: every item that matches the query, once,
  newest first.\<close>

theorem pages_list_everything:
  assumes "outcomes w = []" "validate_query q = Inr v" "qy_workspace v = self" "qy_before_updated q = []"
    and "schema_ok (db w)" "\<forall>r \<in> set (db_items (db w)). listable r"
    and "mm_mailboxes m = sql_mailbox_store like self" "length (db_items (db w)) < n"
  shows "follow_pages n m q [] w =
    (Inr (map scan_inbox_item (sort_key_desc item_order (filter (mailbox_predicate like v False) (db_items (db w))))), w)"
  using assms by (rule follow_pages_all)

definition sample_query :: mailbox_query where
  "sample_query = \<lparr>qy_workspace = ''ws'', qy_viewer = ''u1'', qy_recipient = [], qy_recipients = [], qy_reporting = [],
     qy_delegated = [], qy_scope = [], qy_mailbox = [], qy_query = [], qy_categories = [], qy_sources = [],
     qy_severities = [], qy_action_states = [], qy_from = [], qy_to = [], qy_before_updated = [], qy_before_id = [],
     qy_limit = 1\<rparr>"

definition sample_rows :: "item_row list" where
  "sample_rows = [new_item_row sample_item, new_item_row (sample_item\<lparr>it_id := ''i2'', it_updated := ''2026-01-02''\<rparr>)]"

definition own_query :: mailbox_query where
  "own_query = sample_query\<lparr>qy_recipient := ''u1'', qy_recipients := [''u1''], qy_scope := ScopeMine, qy_mailbox := MailboxInbox\<rparr>"

lemma sample_query_valid: "validate_query sample_query = Inr own_query"
  by (simp add: validate_query_def trim_query_def sample_query_def scope_recipients_def query_rest_def mailboxes_def
    unique_users_def normalize_query_time_def normalize_time_def query_limit_def own_query_def Let_def trim_space_plain
    plain_char_def)

definition sample_mailboxes :: "world mailbox_manager" where
  "sample_mailboxes = \<lparr>mm_mailboxes = sql_mailbox_store (\<lambda>s p. True) ''ws'', mm_views = Some (sql_view_store ''ws''),
     mm_delegations = Some (sql_delegation_store ''ws'')\<rparr>"

lemma sample_rows_match: "filter (mailbox_predicate (\<lambda>s p. True) own_query False) sample_rows = sample_rows"
  by (simp add: sample_rows_def own_query_def sample_query_def mailbox_predicate_def mailbox_access_def in_mailbox_def
      search_matches_def string_predicate_def unique_strings_def in_period_def new_item_row_def sample_item_def
      trim_space_plain plain_char_def)

lemma sample_rows_sorted: "map it_id (map scan_inbox_item (sort_key_desc item_order sample_rows)) = [''i2'', ''i1'']"
proof -
  have "\<not> (''2026-01-02'', ''i2'') \<le> (''2026-01-01'', ''i1'')" "(''2026-01-01'', ''i1'') \<le> (''2026-01-02'', ''i2'')" by code_simp+
  then show ?thesis
    by (simp add: sort_key_desc_def sample_rows_def new_item_row_def sample_item_def item_order_def scan_inbox_item_def
      del: less_eq_prod_simp)
qed

definition sample_mail :: world where
  "sample_mail = calm_world (empty_database\<lparr>db_items := sample_rows\<rparr>)"

lemma sample_mail_simps: "outcomes sample_mail = []" "db_items (db sample_mail) = sample_rows"
  by (simp_all add: sample_mail_def)

lemma sample_mail_schema: "schema_ok (db sample_mail)"
  by (simp add: sample_mail_def schema_ok_def empty_database_def sample_rows_def new_item_row_def sample_item_def
      no_clash_def item_clash_def)

lemma sample_mail_listable: "\<forall>r \<in> set (db_items (db sample_mail)). listable r"
  unfolding sample_mail_simps
  by (simp add: sample_rows_def new_item_row_def sample_item_def listable_def valid_utf8_def rune_width.simps
      trim_space_plain plain_char_def)

lemma pages_list_everything_witness:
  "\<exists>items. follow_pages 3 sample_mailboxes sample_query [] sample_mail = (Inr items, sample_mail) \<and>
     map it_id items = [''i2'', ''i1'']"
proof -
  have ws: "qy_workspace own_query = ''ws''" "qy_before_updated sample_query = []"
    by (simp_all add: own_query_def sample_query_def)
  have boxes: "mm_mailboxes sample_mailboxes = sql_mailbox_store (\<lambda>s p. True) ''ws''"
    by (simp add: sample_mailboxes_def)
  have few: "length (db_items (db sample_mail)) < 3" unfolding sample_mail_simps by (simp add: sample_rows_def)
  have "follow_pages 3 sample_mailboxes sample_query [] sample_mail =
    (Inr (map scan_inbox_item (sort_key_desc item_order sample_rows)), sample_mail)"
    using pages_list_everything [OF sample_mail_simps(1) sample_query_valid ws sample_mail_schema
      sample_mail_listable boxes few]
    unfolding sample_mail_simps sample_rows_match .
  with sample_rows_sorted show ?thesis by (intro exI conjI)
qed

end
