(* ===== verification/Mailbox_Access.thy ===== *)
theory Mailbox_Access
  imports Mailbox_Pages
begin

text \<open>
  Who sees and who changes what through the mailbox manager over the SQL store: reads stay
  within the users the query was granted, mutations within the rows of the viewer.
\<close>

section \<open>Reading\<close>

text \<open>The users whose items a query may see, from its scope and what the host granted.\<close>

definition may_see :: "mailbox_query \<Rightarrow> user_id \<Rightarrow> bool" where
  "may_see q u \<longleftrightarrow>
     (if trim_space (qy_scope q) = ScopeTeam then u \<in> set (unique_users (qy_reporting q))
      else if trim_space (qy_scope q) = ScopeDelegated then u \<in> set (unique_users (qy_delegated q))
      else u = trim_space (qy_viewer q))"

definition visible_item :: "workspace_id \<Rightarrow> mailbox_query \<Rightarrow> database \<Rightarrow> item \<Rightarrow> bool" where
  "visible_item self q d x \<longleftrightarrow> trim_space (qy_workspace q) = self \<and>
     (\<exists>r \<in> set (db_items d). x = scan_inbox_item r \<and> ir_workspace r = self \<and> may_see q (ir_recipient r))"

lemma validate_query_scope:
  assumes "validate_query q = Inr v"
  shows "qy_scope v = (if trim_space (qy_scope q) = [] then ScopeMine else trim_space (qy_scope q))"
proof -
  let ?t = "trim_query q"
  let ?s = "?t\<lparr>qy_scope := (if qy_scope ?t = [] then ScopeMine else qy_scope ?t),
    qy_reporting := unique_users (qy_reporting q), qy_delegated := unique_users (qy_delegated q)\<rparr>"
  obtain x where x: "scope_recipients ?s = Inr x" "query_rest x = Inr v"
    using assms unfolding validate_query_def Let_def by (simp add: trim_query_def split: if_splits sum.splits)
  from scope_recipients_Inr [OF x(1)] query_rest_Inr [OF x(2)] obtain u us box lim start stop where
    "v = ?s\<lparr>qy_recipient := u, qy_recipients := us, qy_mailbox := box, qy_limit := lim, qy_from := start, qy_to := stop\<rparr>"
    by metis
  then show ?thesis by (simp add: trim_query_def)
qed

lemma validate_query_grant:
  assumes "validate_query q = Inr v" "u \<in> set (qy_recipients v)"
  shows "may_see q u" "trim_space u = u" "u \<noteq> []"
proof -
  have grant: "if qy_scope v = ScopeTeam then u \<in> set (unique_users (qy_reporting q))
     else if qy_scope v = ScopeDelegated then u \<in> set (unique_users (qy_delegated q))
     else u = trim_space (qy_viewer q)"
    using validate_query_Inr(8,10) [OF assms(1)] assms(2) by (auto split: if_splits)
  then show "may_see q u"
    unfolding validate_query_scope [OF assms(1)] may_see_def by (simp split: if_splits)
  from grant validate_query_Inr(8,9) [OF assms(1)] show "trim_space u = u" "u \<noteq> []"
    by (auto simp: unique_users_facts split: if_splits)
qed

lemma access_granted:
  assumes "validate_query q = Inr v" "mailbox_access v r"
  shows "ir_workspace r = trim_space (qy_workspace q)" "ir_recipient r \<in> set (qy_recipients v)"
proof -
  have same: "set (unique_strings (qy_recipients v)) = set (qy_recipients v)"
    using validate_query_grant(2,3) [OF assms(1)] by (force simp: unique_strings_def set_unique_from)
  moreover have "qy_recipients v \<noteq> []" by (rule validate_query_Inr(3) [OF assms(1)])
  ultimately have "unique_strings (qy_recipients v) \<noteq> []" by fastforce
  with same assms(2) validate_query_Inr(1) [OF assms(1)]
  show "ir_workspace r = trim_space (qy_workspace q)" "ir_recipient r \<in> set (qy_recipients v)"
    by (auto simp: mailbox_access_def string_predicate_def Let_def)
qed

lemma with_query_Inr:
  "with_query prepare self q f w = (Inr a, w') \<longleftrightarrow>
     (\<exists>v. prepare q = Inr v \<and> qy_workspace v = self \<and> self \<noteq> [] \<and> f v w = (Inr a, w'))"
  by (auto simp: with_query_def require_workspace_def guard_io_Inr split: sum.splits)

lemma normalize_mailbox_access:
  "normalize_mailbox_query q = Inr v \<Longrightarrow>
     mailbox_access v = mailbox_access q \<and> qy_workspace v = qy_workspace q \<and> qy_viewer v = qy_viewer q \<and>
     qy_recipients v = qy_recipients q \<and> qy_scope v = qy_scope q"
  by (auto simp: normalize_mailbox_query_def mailbox_access_def fun_eq_iff split: if_splits)

lemma list_items_Inr:
  assumes "list_items like self q w = (Inr (xs, rest), w')" "x \<in> set xs"
  shows "\<exists>r \<in> set (db_items (db w)). x = scan_inbox_item r \<and> mailbox_access q r \<and> qy_workspace q = self"
proof -
  obtain v rs where v: "normalize_mailbox_query q = Inr v" "qy_workspace v = self"
    and rs: "rs = take (nat (qy_limit v + 1)) (sort_key_desc item_order (filter (mailbox_predicate like v True) (db_items (db w))))"
    and xs: "xs = map scan_inbox_item (take (nat (qy_limit v)) rs)"
    using assms(1) by (auto simp: list_items_def with_query_Inr bind_io_Inr wrapping_Inr dest!: query_Inr)
  from assms(2) xs obtain r where "x = scan_inbox_item r" "r \<in> set rs" by (auto dest: in_set_takeD)
  moreover from this(2) have "r \<in> set (db_items (db w))" "mailbox_predicate like v True r"
    unfolding rs by (auto simp: sort_key_desc_def dest!: in_set_takeD)
  ultimately show ?thesis
    using normalize_mailbox_access [OF v(1)] v(2) by (auto simp: mailbox_predicate_def)
qed

lemma get_inbox_item_Inr:
  "get_inbox_item q i w = (Inr v, w') \<Longrightarrow>
     v = map_option scan_inbox_item (List.find (item_at q i) (db_items (db w))) \<and> db w' = db w"
  by (auto simp: get_inbox_item_def bind_io_Inr dest!: select_row_Inr)

lemma get_inbox_item_Some:
  assumes "get_inbox_item q i w = (Inr (Some x), w')"
  obtains r where "r \<in> set (db_items (db w))" "x = scan_inbox_item r" "item_at q i r"
proof (cases "List.find (item_at q i) (db_items (db w))")
  case None
  with get_inbox_item_Inr [OF assms] show ?thesis by simp
next
  case (Some r)
  moreover from this have "r \<in> set (db_items (db w))" "item_at q i r" by (auto simp: find_Some_iff)
  ultimately show ?thesis using get_inbox_item_Inr [OF assms] that by simp
qed

lemma get_item_Inr:
  assumes "get_item self q i w = (Inr (Some x), w')"
  shows "\<exists>r \<in> set (db_items (db w)). x = scan_inbox_item r \<and> mailbox_access q r \<and> ir_id r = trim_space i \<and> qy_workspace q = self"
proof -
  obtain v where v: "normalize_mailbox_query q = Inr v" "qy_workspace v = self"
    and g: "get_inbox_item v (trim_space i) w = (Inr (Some x), w')"
    using assms by (auto simp: get_item_def with_query_Inr guard_io_Inr Let_def)
  from g obtain r where "r \<in> set (db_items (db w))" "x = scan_inbox_item r" "item_at v (trim_space i) r"
    by (rule get_inbox_item_Some)
  with normalize_mailbox_access [OF v(1)] v(2) show ?thesis by (auto simp: item_at_def)
qed

lemma found_item_Inr: "found_item i v w = (Inr x, w') \<longleftrightarrow> v = Some x \<and> w' = w"
  by (auto simp: found_item_def split: option.splits)

lemma mailbox_get_Inr:
  assumes "mm_mailboxes m = sql_mailbox_store like self" "mailbox_get m q i w = (Inr x, w')"
  shows "visible_item self q (db w) x"
proof -
  obtain v where v: "validate_query q = Inr v" "get_item self v (trim_space i) w = (Inr (Some x), w')"
    using assms by (auto simp: mailbox_get_def checked_value_Inr bind_io_Inr found_item_Inr sql_mailbox_store_def)
  from get_item_Inr [OF v(2)] obtain r where r: "r \<in> set (db_items (db w))" "x = scan_inbox_item r"
    "mailbox_access v r" "qy_workspace v = self" by blast
  from access_granted [OF v(1) r(3)] validate_query_grant(1) [OF v(1)] validate_query_Inr(1) [OF v(1)] r
  show ?thesis by (auto simp: visible_item_def)
qed

lemma at_cursor_access: "at_cursor c v = Inr v' \<Longrightarrow> mailbox_access v' = mailbox_access v \<and> qy_workspace v' = qy_workspace v"
  by (auto simp: at_cursor_def mailbox_access_def fun_eq_iff split: if_splits sum.splits)

lemma page_of_items [simp]: "pg_items (page_of r) = fst r"
  by (simp add: page_of_def split: prod.splits)

text \<open>C19: Reads stay within the grant. Whatever the filters, the mailbox, the item identifier and the cursor
  a client sends, every item of a page and every single item it gets is a stored item of its
  workspace whose recipient is the viewer or, in the team and delegated scopes, one of the users
  the host granted for that scope.\<close>

theorem reads_within_grant:
  assumes "mm_mailboxes m = sql_mailbox_store like self"
  shows "(mailbox_list m q cursor w = (Inr p, w') \<longrightarrow> (\<forall>x \<in> set (pg_items p). visible_item self q (db w) x)) \<and>
    (mailbox_get m q i w = (Inr x, w'') \<longrightarrow> visible_item self q (db w) x)"
proof (intro conjI impI ballI)
  fix x assume "mailbox_list m q cursor w = (Inr p, w')" and x: "x \<in> set (pg_items p)"
  then obtain v v' xs rest where v: "validate_query q = Inr v" "at_cursor cursor v = Inr v'"
    and l: "list_items like self v' w = (Inr (xs, rest), w')" "p = page_of (xs, rest)"
    by (auto simp: mailbox_list_def checked_value_Inr bind_io_Inr assms sql_mailbox_store_def)
  from x l(2) have "x \<in> set xs" by simp
  from list_items_Inr [OF l(1) this] at_cursor_access [OF v(2)] obtain r where
    r: "r \<in> set (db_items (db w))" "x = scan_inbox_item r" "mailbox_access v r" "qy_workspace v = self" by auto
  from access_granted [OF v(1) r(3)] validate_query_grant(1) [OF v(1)] validate_query_Inr(1) [OF v(1)] r
  show "visible_item self q (db w) x" by (auto simp: visible_item_def)
qed (use mailbox_get_Inr [OF assms] in blast)

lemma sample_found: "List.find (item_at (own_query\<lparr>qy_limit := 1\<rparr>) ''i1'') sample_rows = Some (new_item_row sample_item)"
  by (simp add: sample_rows_def own_query_def sample_query_def item_at_def mailbox_access_def string_predicate_def
      unique_strings_def new_item_row_def sample_item_def trim_space_plain plain_char_def)

lemma sample_get: "mailbox_get sample_mailboxes sample_query ''i1'' sample_mail = (Inr (scan_inbox_item (new_item_row sample_item)), sample_mail)"
proof -
  have n: "normalize_mailbox_query own_query = Inr (own_query\<lparr>qy_limit := 1\<rparr>)" "qy_workspace (own_query\<lparr>qy_limit := 1\<rparr>) = ''ws''"
    by (simp_all add: normalize_mailbox_query_def own_query_def sample_query_def)
  show ?thesis
    by (simp add: mailbox_get_def checked_value_def sample_query_valid sample_mailboxes_def sql_mailbox_store_def
        get_item_def with_query_def n require_workspace_def get_inbox_item_def trim_space_plain plain_char_def Let_def
        statement_runs sample_mail_simps sample_found found_item_def)
qed

lemma reads_within_grant_witness:
  "visible_item ''ws'' sample_query (db sample_mail) (scan_inbox_item (new_item_row sample_item))"
proof -
  have "mm_mailboxes sample_mailboxes = sql_mailbox_store (\<lambda>s p. True) ''ws''" by (simp add: sample_mailboxes_def)
  from reads_within_grant [OF this, of sample_query "[]" sample_mail undefined undefined "''i1''"] sample_get show ?thesis by blast
qed

section \<open>Changing\<close>

text \<open>
  What a mutation may do: rows of other users keep every column, and rows of the user keep all but
  the read, archive and alert marks and the update time. \<open>payloads_match\<close> says that the payload of
  an item names the workspace and the recipient of its row, as \<open>insertInboxItem\<close> writes it.
\<close>

definition marks_only :: "item_row \<Rightarrow> item_row \<Rightarrow> bool" where
  "marks_only a b \<longleftrightarrow> b = a\<lparr>ir_read := ir_read b, ir_archived := ir_archived b,
     ir_alert_state := ir_alert_state b, ir_updated := ir_updated b\<rparr>"

definition acknowledged_only :: "alert_group \<Rightarrow> alert_group \<Rightarrow> bool" where
  "acknowledged_only a b \<longleftrightarrow> al_state a = AlertFiring \<and> b = acknowledge_group (al_acknowledged_by b) (al_updated b) a"

definition only_own :: "workspace_id \<Rightarrow> user_id \<Rightarrow> database \<Rightarrow> database \<Rightarrow> bool" where
  "only_own ws u d d' \<longleftrightarrow> d' = d\<lparr>db_items := db_items d', db_groups := db_groups d'\<rparr> \<and>
     list_all2 (\<lambda>a b. a = b \<or> ir_workspace a = ws \<and> ir_recipient a = u \<and> marks_only a b) (db_items d) (db_items d') \<and>
     list_all2 (\<lambda>a b. a = b \<or> al_workspace a = ws \<and> al_recipient a = u \<and> acknowledged_only a b) (db_groups d) (db_groups d')"

definition payloads_match :: "database \<Rightarrow> bool" where
  "payloads_match d \<longleftrightarrow> (\<forall>r \<in> set (db_items d).
     it_workspace (ir_payload r) = ir_workspace r \<and> it_recipient (ir_payload r) = ir_recipient r)"

definition confined :: "workspace_id \<Rightarrow> user_id \<Rightarrow> 'a sql \<Rightarrow> bool" where
  "confined ws u m \<longleftrightarrow> (\<forall>w r w'. payloads_match (db w) \<and> m w = (r, w') \<longrightarrow> only_own ws u (db w) (db w'))"

lemma marks_only_basic [simp]: "marks_only a a" "marks_only a (a\<lparr>ir_read := x\<rparr>)" "marks_only a (a\<lparr>ir_archived := x\<rparr>)"
  "marks_only a (a\<lparr>ir_read := x, ir_updated := y\<rparr>)" "marks_only a (a\<lparr>ir_archived := x, ir_updated := y\<rparr>)"
  "marks_only a (a\<lparr>ir_alert_state := x, ir_updated := y\<rparr>)"
  by (cases a; simp add: marks_only_def)+

lemma marks_only_trans: "marks_only a b \<Longrightarrow> marks_only b c \<Longrightarrow> marks_only a c"
  by (cases a; cases b; cases c) (simp add: marks_only_def)

lemma marks_only_columns:
  "marks_only a b \<Longrightarrow> ir_workspace b = ir_workspace a \<and> ir_recipient b = ir_recipient a \<and> ir_payload b = ir_payload a \<and> ir_id b = ir_id a"
  by (cases a; cases b) (simp add: marks_only_def)

text \<open>The relation as an invariant of a database: what is reached from \<open>d\<close>, with matching payloads.\<close>

definition reached_own :: "workspace_id \<Rightarrow> user_id \<Rightarrow> database \<Rightarrow> database \<Rightarrow> bool" where
  "reached_own ws u d d' \<longleftrightarrow> only_own ws u d d' \<and> payloads_match d'"

lemma confinedI:
  assumes "\<And>d. preserves (reached_own ws u d) m" shows "confined ws u m"
  unfolding confined_def
proof (intro allI impI)
  fix w r w' assume w: "payloads_match (db w) \<and> m w = (r, w')"
  then have "reached_own ws u (db w) (db w)"
    by (simp add: reached_own_def only_own_def list_all2_refl)
  with w assms [of "db w"] have "reached_own ws u (db w) (db w')" by (blast dest: preservesD)
  then show "only_own ws u (db w) (db w')" by (simp add: reached_own_def)
qed

lemma list_all2_update:
  assumes "list_all2 R xs ys" "\<And>x y. R x y \<Longrightarrow> P y \<Longrightarrow> R x (f y)"
  shows "list_all2 R xs (update_where P f ys)"
  using assms by (auto simp: list_all2_conv_all_nth update_where_def)

lemma reached_own_items:
  assumes "reached_own ws u d d'" "\<And>r. P r \<Longrightarrow> ir_workspace r = ws \<and> ir_recipient r = u" "\<And>r. marks_only r (f r)"
  shows "reached_own ws u d (d'\<lparr>db_items := update_where P f (db_items d')\<rparr>)"
proof -
  let ?R = "\<lambda>a b. a = b \<or> ir_workspace a = ws \<and> ir_recipient a = u \<and> marks_only a b"
  have "list_all2 ?R (db_items d) (update_where P f (db_items d'))"
  proof (rule list_all2_update)
    show "list_all2 ?R (db_items d) (db_items d')" using assms(1) by (simp add: reached_own_def only_own_def)
    show "?R x (f y)" if "?R x y" "P y" for x y
      using that assms(2) [OF that(2)] assms(3) marks_only_trans marks_only_columns by metis
  qed
  moreover have "payloads_match (d'\<lparr>db_items := update_where P f (db_items d')\<rparr>)"
    using assms(1) marks_only_columns [OF assms(3)]
    by (auto simp: reached_own_def payloads_match_def in_update_where split: if_splits)
  moreover have "d'\<lparr>db_items := xs\<rparr> = d\<lparr>db_items := xs, db_groups := db_groups d'\<rparr>" for xs
  proof -
    obtain rs gs where e: "d' = d\<lparr>db_items := rs, db_groups := gs\<rparr>"
      using assms(1) unfolding reached_own_def only_own_def by blast
    show ?thesis unfolding e by simp
  qed
  ultimately show ?thesis using assms(1) by (simp add: reached_own_def only_own_def)
qed

lemma acknowledged_only_state: "acknowledged_only a b \<Longrightarrow> al_state b = AlertAcknowledged"
proof -
  have "al_state (acknowledge_group x y a) = AlertAcknowledged" for x y by (simp add: acknowledge_group_def)
  then show "acknowledged_only a b \<Longrightarrow> al_state b = AlertAcknowledged" by (metis acknowledged_only_def)
qed

lemma reached_own_groups:
  assumes "reached_own ws u d d'" "\<And>g. P g \<Longrightarrow> al_workspace g = ws \<and> al_recipient g = u \<and> al_state g = AlertFiring"
  shows "reached_own ws u d (d'\<lparr>db_groups := update_where P (acknowledge_group actor at) (db_groups d')\<rparr>)"
proof -
  let ?R = "\<lambda>a b. a = b \<or> al_workspace a = ws \<and> al_recipient a = u \<and> acknowledged_only a b"
  have "list_all2 ?R (db_groups d) (update_where P (acknowledge_group actor at) (db_groups d'))"
  proof (rule list_all2_update)
    show "list_all2 ?R (db_groups d) (db_groups d')" using assms(1) by (simp add: reached_own_def only_own_def)
    show "?R x (acknowledge_group actor at y)" if "?R x y" "P y" for x y
    proof -
      have "x = y" using that(1) assms(2) [OF that(2)] acknowledged_only_state by fastforce
      with assms(2) [OF that(2)] show ?thesis by (simp add: acknowledged_only_def acknowledge_group_def)
    qed
  qed
  moreover have "d'\<lparr>db_groups := gs\<rparr> = d\<lparr>db_items := db_items d', db_groups := gs\<rparr>" for gs
  proof -
    obtain rs gs where e: "d' = d\<lparr>db_items := rs, db_groups := gs\<rparr>"
      using assms(1) unfolding reached_own_def only_own_def by blast
    show ?thesis unfolding e by simp
  qed
  ultimately show ?thesis using assms(1) by (simp add: reached_own_def only_own_def payloads_match_def)
qed

lemma personal_access:
  assumes "normalize_personal_mutation q = Inr v" "mailbox_access v r" "trim_space (qy_viewer q) = qy_viewer q"
  shows "ir_workspace r = qy_workspace q" "ir_recipient r = qy_viewer q"
proof -
  have "qy_recipients v = [qy_viewer v] \<and> qy_viewer v \<noteq> [] \<and> qy_viewer v = qy_viewer q \<and> qy_workspace v = qy_workspace q"
    using assms(1) by (auto simp: normalize_personal_mutation_def dest!: normalize_mailbox_access split: sum.splits if_splits)
  with assms(2,3) show "ir_workspace r = qy_workspace q" "ir_recipient r = qy_viewer q"
    by (auto simp: mailbox_access_def string_predicate_def unique_strings_def)
qed

lemma preserves_with_query:
  "(\<And>v. prepare q = Inr v \<Longrightarrow> preserves P (f v)) \<Longrightarrow> preserves P (with_query prepare self q f)"
  unfolding with_query_def require_workspace_def
  by (cases "prepare q") (auto intro!: preserves_intros)

lemma preserves_get_inbox_item [preserves_intros]: "preserves P (get_inbox_item q i)"
  unfolding get_inbox_item_def by (intro preserves_intros)

text \<open>The identity columns of an item that was read are those of a row of the viewer.\<close>

lemma read_item_own:
  assumes "get_inbox_item v i w = (Inr (Some x), w')" "payloads_match (db w)"
    and "\<And>r. mailbox_access v r \<Longrightarrow> ir_workspace r = ws \<and> ir_recipient r = u"
  shows "it_workspace x = ws \<and> it_recipient x = u"
proof -
  from assms(1) obtain r where "r \<in> set (db_items (db w))" "x = scan_inbox_item r" "item_at v i r"
    by (rule get_inbox_item_Some)
  with assms(2) assms(3) [of r] show ?thesis by (simp add: payloads_match_def scan_inbox_item_def item_at_def)
qed

lemma acknowledge_body_own:
  assumes "\<And>r. mailbox_access v r \<Longrightarrow> ir_workspace r = ws \<and> ir_recipient r = u"
  shows "preserves (reached_own ws u d) (acknowledge_body v i actor at)"
  unfolding acknowledge_body_def
proof (rule preserves_bind_state)
  fix w x w' assume w: "reached_own ws u d (db w)" and g: "get_inbox_item v i w = (Inr x, w')"
  show "preserves (reached_own ws u d) (case x of None \<Rightarrow> leave_with None
     | Some v' \<Rightarrow> guard_io (it_group v' = [] \<or> it_alert_state v' = [] \<or> it_alert_state v' = AlertResolved)
         (ErrorText ''notification alert is not firing'')
        (bind_io (if it_alert_state v' \<noteq> AlertAcknowledged then acknowledge_firing actor at v' else ret ()) (\<lambda>_.
         bind_io (get_inbox_item v i) (\<lambda>stored. case stored of
           None \<Rightarrow> leave_with None | Some x \<Rightarrow> commit_with (Some x)))))"
  proof (cases x)
    case (Some y)
    have own: "it_workspace y = ws \<and> it_recipient y = u"
      using read_item_own [of v i w y w' ws u] g w assms Some by (simp add: reached_own_def)
    have "preserves (reached_own ws u d) (acknowledge_firing actor at y)"
      unfolding acknowledge_firing_def
    proof (intro preserves_intros preserves_update)
      show "reached_own ws u d (snd groups_table (update_where (firing_group y) (acknowledge_group actor at) (fst groups_table d')) d')"
        if "reached_own ws u d d'" for d'
        using reached_own_groups [OF that, of "firing_group y" actor at] own by (simp add: firing_group_def)
      show "reached_own ws u d (snd items_table (update_where (own_item y)
          (\<lambda>r. r\<lparr>ir_alert_state := AlertAcknowledged, ir_updated := at\<rparr>) (fst items_table d')) d')"
        if "reached_own ws u d d'" for d'
        using reached_own_items [OF that, of "own_item y" "\<lambda>r. r\<lparr>ir_alert_state := AlertAcknowledged, ir_updated := at\<rparr>"] own
        by (simp add: own_item_def)
    qed
    with Some show ?thesis by (auto intro!: preserves_intros)
  qed (simp add: preserves_intros)
qed (intro preserves_intros)

lemma personal_state_own:
  assumes "\<And>r. mailbox_access v r \<Longrightarrow> ir_workspace r = ws \<and> ir_recipient r = u" "\<And>r. marks_only r (f r)"
  shows "preserves (reached_own ws u d) (personal_state_body v i f)"
  unfolding personal_state_body_def
proof (intro preserves_intros preserves_update)
  fix d' assume "reached_own ws u d d'"
  from reached_own_items [OF this, of "item_at v i" f] assms
  show "reached_own ws u d (snd items_table (update_where (item_at v i) f (fst items_table d')) d')"
    by (simp add: item_at_def)
qed

lemma mark_all_own:
  assumes "\<And>r. mailbox_access v r \<Longrightarrow> ir_workspace r = ws \<and> ir_recipient r = u"
  shows "preserves (reached_own ws u d)
    (update_rows items_table (to_mark_read like v at) (\<lambda>r. r\<lparr>ir_read := at, ir_updated := at\<rparr>))"
proof (rule preserves_update)
  fix d' assume "reached_own ws u d d'"
  from reached_own_items [OF this, of "to_mark_read like v at" "\<lambda>r. r\<lparr>ir_read := at, ir_updated := at\<rparr>"] assms
  show "reached_own ws u d (snd items_table (update_where (to_mark_read like v at)
      (\<lambda>r. r\<lparr>ir_read := at, ir_updated := at\<rparr>) (fst items_table d')) d')"
    by (simp add: to_mark_read_def mailbox_predicate_def)
qed

lemma store_mutations_own:
  fixes d :: database
  assumes "trim_space (qy_viewer q) = qy_viewer q"
  defines "P \<equiv> reached_own (qy_workspace q) (qy_viewer q) d"
  shows "preserves P (set_read self q i at updated)" "preserves P (set_archived self q i at updated)"
    "preserves P (acknowledge_alert self q i actor at)" "preserves P (mark_all_read like self q at)"
proof -
  have own: "ir_workspace r = qy_workspace q \<and> ir_recipient r = qy_viewer q"
    if "normalize_personal_mutation q = Inr v" "mailbox_access v r" for v r
    using personal_access [OF that assms(1)] by simp
  show "preserves P (set_read self q i at updated)" "preserves P (set_archived self q i at updated)"
    unfolding set_read_def set_archived_def update_personal_state_def P_def Let_def
    by (intro preserves_with_query preserves_guard preserves_transaction personal_state_own; simp add: own)+
  show "preserves P (acknowledge_alert self q i actor at)" "preserves P (mark_all_read like self q at)"
    unfolding acknowledge_alert_def mark_all_read_def P_def Let_def
    by (intro preserves_with_query preserves_guard preserves_transaction preserves_wrapping acknowledge_body_own
        mark_all_own; simp add: own)+
qed

lemma preserves_checked:
  "(\<And>v. r = Inr v \<Longrightarrow> preserves P (f v)) \<Longrightarrow> preserves P (checked_value r f)"
  by (cases r) (simp_all add: checked_value_def preserves_intros)

lemma preserves_found_item [preserves_intros]: "preserves P (found_item i v)"
  unfolding found_item_def by (intro preserves_intros)

lemma preserves_get_item [preserves_intros]: "preserves P (get_item self q i)"
  unfolding get_item_def by (intro preserves_with_query preserves_intros)

text \<open>C20: Mutations stay within the viewer's mailbox. Whatever the request, its scope and the driver's
  faults, marking read, archiving, acknowledging and marking all read change no row of anybody
  but the viewer, of the viewer's items nothing but the marks and the update time, of the alert
  groups only the viewer's firing ones (which become acknowledged), and no other table.\<close>

theorem mutations_within_mailbox:
  assumes "mm_mailboxes m = sql_mailbox_store like self" "ws = trim_space (qy_workspace q)" "u = trim_space (qy_viewer q)"
  shows "confined ws u (mailbox_set_read m now q i b) \<and> confined ws u (mailbox_set_archived m now q i b) \<and>
    confined ws u (mailbox_acknowledge m now q i actor) \<and> confined ws u (mailbox_mark_all m now q)"
proof -
  have own: "preserves (reached_own ws u d) (set_read self v j at updated)"
      "preserves (reached_own ws u d) (set_archived self v j at updated)"
      "preserves (reached_own ws u d) (acknowledge_alert self v j act at)"
      "preserves (reached_own ws u d) (mark_all_read like self v at)"
    if "validate_query q = Inr v" for v d j at updated act
    using store_mutations_own [of v d] validate_query_Inr(1,8) [OF that] unfolding assms(2,3) by simp_all
  note store = assms(1) sql_mailbox_store_def mailbox_store.simps
  have "preserves (reached_own ws u d) (mailbox_set_read m now q i b)" for d
    unfolding mailbox_set_read_def store by (intro preserves_checked preserves_intros own)
  moreover have "preserves (reached_own ws u d) (mailbox_set_archived m now q i b)" for d
    unfolding mailbox_set_archived_def store by (intro preserves_checked preserves_intros own)
  moreover have "preserves (reached_own ws u d) (mailbox_acknowledge m now q i actor)" for d
    unfolding mailbox_acknowledge_def store Let_def by (intro preserves_checked preserves_intros own)
  moreover have "preserves (reached_own ws u d) (mailbox_mark_all m now q)" for d
    unfolding mailbox_mark_all_def store by (intro preserves_checked preserves_intros own)
  ultimately show ?thesis by (simp add: confinedI)
qed

lemma mutations_within_mailbox_witness:
  "only_own ''ws'' ''u1'' (db sample_mail) (db (snd (mailbox_mark_all sample_mailboxes 0 sample_query sample_mail)))"
proof -
  have "mm_mailboxes sample_mailboxes = sql_mailbox_store (\<lambda>s p. True) ''ws''" by (simp add: sample_mailboxes_def)
  moreover have "''ws'' = trim_space (qy_workspace sample_query)" "''u1'' = trim_space (qy_viewer sample_query)"
    by (simp_all add: sample_query_def trim_space_plain plain_char_def)
  ultimately have "confined ''ws'' ''u1'' (mailbox_mark_all sample_mailboxes 0 sample_query)"
    using mutations_within_mailbox by blast
  moreover have "payloads_match (db sample_mail)"
    by (simp add: payloads_match_def sample_mail_simps sample_rows_def new_item_row_def sample_item_def)
  ultimately show ?thesis unfolding confined_def by (metis prod.collapse)
qed

section \<open>Resolving an action\<close>

text \<open>C23: An action is resolved only for an item the caller may see, whose actions are not settled and
  whose deadline, if any, lies in the future; it is one of the item's own actions, and its
  route is the one the catalog publishes for the same kind and resource type.\<close>

theorem resolved_action_sound:
  assumes "mm_mailboxes m = sql_mailbox_store like self" "resolve_action m descriptors now q i k w = (Inr a, w')"
  shows "\<exists>x. visible_item self q (db w) x \<and> it_action_state x \<notin> {ActionCompleted, ActionExpired, ActionCancelled} \<and>
    (it_expires x = [] \<or> (\<exists>t. parse_rfc3339 (it_expires x) = Some t \<and> now < t)) \<and>
    (\<exists>r \<in> set (it_actions x). ar_key r = trim_space k \<and> (\<exists>d. map_of descriptors (trim_space (ar_key r)) = Some d \<and>
       ad_kind d = ar_kind r \<and> ad_resource_type d = ar_resource_type r \<and> trim_space (ad_route d) \<noteq> [] \<and>
       a = resolved x r (trim_space (ad_route d))))"
proof -
  obtain x w1 where g: "mailbox_get m q (trim_space i) w = (Inr x, w1)"
    and open_item: "\<not> action_closed x"
    and rest: "(case List.find (\<lambda>a. ar_key a = trim_space k) (it_actions x) of
       None \<Rightarrow> fail (not_found ''backend.notification.inbox_action_not_found'' [''action_key'', trim_space k])
     | Some a \<Rightarrow> guard_io (item_expired now x) (conflict ''backend.notification.inbox_action_expired'' [])
        (case route_of descriptors a of
           None \<Rightarrow> fail (conflict ''backend.notification.inbox_action_unavailable'' [''action_key'', ar_key a])
         | Some route \<Rightarrow> ret (resolved x a route))) w1 = (Inr a, w')"
    using assms(2) by (auto simp: resolve_action_def guard_io_Inr bind_io_Inr Let_def)
  from rest obtain r route where f: "List.find (\<lambda>a. ar_key a = trim_space k) (it_actions x) = Some r"
    and r: "\<not> item_expired now x" "route_of descriptors r = Some route" "a = resolved x r route"
    by (auto simp: guard_io_Inr split: option.splits)
  from f have "r \<in> set (it_actions x)" "ar_key r = trim_space k" by (auto simp: find_Some_iff)
  moreover have "it_expires x = [] \<or> (\<exists>t. parse_rfc3339 (it_expires x) = Some t \<and> now < t)"
    using r(1) by (auto simp: item_expired_def split: option.splits)
  moreover obtain d where "map_of descriptors (trim_space (ar_key r)) = Some d" "ad_kind d = ar_kind r"
    "ad_resource_type d = ar_resource_type r" "trim_space (ad_route d) \<noteq> []" "route = trim_space (ad_route d)"
    using r(2) by (auto simp: route_of_def split: option.splits if_splits)
  ultimately show ?thesis
    using mailbox_get_Inr [OF assms(1) g] open_item r(3) unfolding action_closed_def by blast
qed

text \<open>An item of \<open>u2\<close> with an open action, and the catalog's descriptor of the action.\<close>

definition sample_action :: action_ref where
  "sample_action = \<lparr>ar_key = ''open'', ar_kind = ''route'', ar_label = ''Open'', ar_resource_type = ''order'',
     ar_resource_id = ''7'', ar_style = ''primary''\<rparr>"

definition sample_descriptors :: "(string \<times> action_descriptor) list" where
  "sample_descriptors = [(''open'', \<lparr>ad_key = ''open'', ad_kind = ''route'', ad_resource_type = ''order'', ad_route = ''orders''\<rparr>)]"

definition action_row :: item_row where
  "action_row = new_item_row (sample_item\<lparr>it_recipient := ''u2'', it_actions := [sample_action], it_action_state := ActionOpen\<rparr>)"

definition action_mail :: world where
  "action_mail = calm_world (empty_database\<lparr>db_items := [action_row]\<rparr>)"

lemma action_resolves:
  assumes "validate_query q = Inr v" "qy_workspace v = ''ws''" "qy_recipients v = [''u2'']" "qy_scope q \<noteq> ScopeTeam" "qy_scope q \<noteq> ScopeDelegated"
  shows "resolve_action sample_mailboxes sample_descriptors 0 q ''i1'' ''open'' action_mail =
    (Inr (resolved (scan_inbox_item action_row) sample_action ''orders''), action_mail)"
proof -
  obtain v' where n: "normalize_mailbox_query v = Inr v'" "qy_workspace v' = ''ws''" "qy_recipients v' = [''u2'']"
    using assms(2,3) by (simp add: normalize_mailbox_query_def)
  have "item_at v' ''i1'' action_row"
    by (simp add: item_at_def mailbox_access_def string_predicate_def unique_strings_def n(2,3) action_row_def
        new_item_row_def sample_item_def trim_space_plain plain_char_def)
  then have "mailbox_get sample_mailboxes q ''i1'' action_mail = (Inr (scan_inbox_item action_row), action_mail)"
    by (simp add: mailbox_get_def checked_value_def assms(1) sample_mailboxes_def sql_mailbox_store_def get_item_def
        with_query_def n require_workspace_def get_inbox_item_def trim_space_plain plain_char_def Let_def
        statement_runs action_mail_def calm_world_def found_item_def)
  then show ?thesis
    using assms(4,5)
    by (simp add: resolve_action_def guard_io_def bind_io_def trim_space_plain plain_char_def action_closed_def item_expired_def
        route_of_def Let_def action_row_def new_item_row_def scan_inbox_item_def sample_item_def sample_action_def
        sample_descriptors_def ret_def)
qed

lemma action_mail_query:
  "validate_query (sample_query\<lparr>qy_viewer := ''u2''\<rparr>) = Inr (own_query\<lparr>qy_viewer := ''u2'', qy_recipient := ''u2'', qy_recipients := [''u2'']\<rparr>)"
  by (simp add: validate_query_def trim_query_def sample_query_def scope_recipients_def query_rest_def mailboxes_def
    unique_users_def normalize_query_time_def normalize_time_def query_limit_def own_query_def Let_def trim_space_plain
    plain_char_def)

lemma resolved_action_sound_witness:
  "\<exists>x. visible_item ''ws'' (sample_query\<lparr>qy_viewer := ''u2''\<rparr>) (db action_mail) x \<and> sample_action \<in> set (it_actions x)"
proof -
  have boxes: "mm_mailboxes sample_mailboxes = sql_mailbox_store (\<lambda>s p. True) ''ws''" by (simp add: sample_mailboxes_def)
  have "resolve_action sample_mailboxes sample_descriptors 0 (sample_query\<lparr>qy_viewer := ''u2''\<rparr>) ''i1'' ''open'' action_mail =
    (Inr (resolved (scan_inbox_item action_row) sample_action ''orders''), action_mail)"
    by (rule action_resolves [OF action_mail_query]) (simp_all add: own_query_def sample_query_def)
  from resolved_action_sound [OF boxes this] obtain x where
    x: "visible_item ''ws'' (sample_query\<lparr>qy_viewer := ''u2''\<rparr>) (db action_mail) x" by blast
  then have "x = scan_inbox_item action_row" by (auto simp: visible_item_def action_mail_def)
  with x show ?thesis by (auto simp: action_row_def new_item_row_def scan_inbox_item_def)
qed

text \<open>
  \<open>Resolve\<close> forbids the team and delegated scopes, but it compares the scope as the client sent it, and
  \<open>ValidateQuery\<close> trims it afterwards: with a space in front of \<open>team\<close> a manager resolves
  an action of somebody who reports to him, which the exact scope refuses.
\<close>

theorem padded_scope_resolves:
  fixes q :: mailbox_query
  defines "q \<equiv> sample_query\<lparr>qy_reporting := [''u2'']\<rparr>"
  shows "fst (resolve_action sample_mailboxes sample_descriptors 0 (q\<lparr>qy_scope := '' team''\<rparr>) ''i1'' ''open'' action_mail) =
      Inr (resolved (scan_inbox_item action_row) sample_action ''orders'')"
    "fst (resolve_action sample_mailboxes sample_descriptors 0 (q\<lparr>qy_scope := ''team''\<rparr>) ''i1'' ''open'' action_mail) =
      Inl (forbidden ''backend.notification.inbox_team_action_forbidden'' [])"
proof -
  have t: "trim_space '' team'' = ''team''" by code_simp
  have "validate_query (q\<lparr>qy_scope := '' team''\<rparr>) = Inr (own_query\<lparr>qy_recipient := [], qy_reporting := [''u2''],
      qy_recipients := [''u2''], qy_scope := ''team''\<rparr>)"
    by (simp add: q_def t validate_query_def trim_query_def sample_query_def scope_recipients_def granted_recipients_def
      query_rest_def mailboxes_def unique_users_def normalize_query_time_def normalize_time_def query_limit_def own_query_def
      Let_def trim_space_plain plain_char_def)
  from action_resolves [OF this] show "fst (resolve_action sample_mailboxes sample_descriptors 0 (q\<lparr>qy_scope := '' team''\<rparr>)
      ''i1'' ''open'' action_mail) = Inr (resolved (scan_inbox_item action_row) sample_action ''orders'')"
    by (simp add: own_query_def sample_query_def)
  show "fst (resolve_action sample_mailboxes sample_descriptors 0 (q\<lparr>qy_scope := ''team''\<rparr>) ''i1'' ''open'' action_mail) =
      Inl (forbidden ''backend.notification.inbox_team_action_forbidden'' [])"
    by (simp add: resolve_action_def guard_io_def fail_def)
qed

end
