(* ===== verification/Mailbox_State.thy ===== *)
theory Mailbox_State
  imports Mailbox_Access "HOL-Library.Multiset"
begin

text \<open>
  What the mailbox operations do to the state, and how they fit together: marking all read and
  the unread count, facets and lists, acknowledging an alert with its group, the window of a
  delegation, saving and listing views.
\<close>

section \<open>Marking all read\<close>

lemma normalize_validated: "validate_query q = Inr v \<Longrightarrow> normalize_mailbox_query v = Inr v"
  using normalize_valid [where v = v and u = "qy_before_updated v" and i = "qy_before_id v"] by simp

lemma personal_validated:
  "validate_query q = Inr v \<Longrightarrow> normalize_personal_mutation v = Inr v' \<Longrightarrow> v' = v \<and> qy_scope v = ScopeMine"
  by (auto simp: normalize_personal_mutation_def normalize_validated split: if_splits)

lemma mark_all_Inr:
  assumes "in_range now" "mm_mailboxes m = sql_mailbox_store like self" "mailbox_mark_all m now q w = (Inr n, w')"
  obtains v where "validate_query q = Inr v" "qy_scope v = ScopeMine"
    "n = int (length (filter (to_mark_read like v (timestamp now)) (db_items (db w))))"
    "db w' = (db w)\<lparr>db_items := update_where (to_mark_read like v (timestamp now))
       (\<lambda>r. r\<lparr>ir_read := timestamp now, ir_updated := timestamp now\<rparr>) (db_items (db w))\<rparr>"
proof -
  obtain v where v: "validate_query q = Inr v" "mark_all_read like self v (timestamp now) w = (Inr n, w')"
    using assms(2,3) by (auto simp: mailbox_mark_all_def checked_value_Inr guard_io_Inr sql_mailbox_store_def)
  from v(2) obtain v' where v': "normalize_personal_mutation v = Inr v'"
    and u: "update_rows items_table (to_mark_read like v' (timestamp now))
      (\<lambda>r. r\<lparr>ir_read := timestamp now, ir_updated := timestamp now\<rparr>) w = (Inr n, w')"
    by (auto simp: mark_all_read_def with_query_Inr Let_def guard_io_Inr wrapping_Inr trim_timestamp assms(1))
  from personal_validated [OF v(1) v'] update_rows_Inr [OF u] v(1) show ?thesis by (intro that) auto
qed

lemma count_facets_Inr:
  assumes "mm_mailboxes m = sql_mailbox_store like self" "mailbox_facets m q w = (Inr f, w')"
  obtains v where "validate_query q = Inr v"
    "fc_unread f = int (length (filter (\<lambda>r. mailbox_predicate like v False r \<and> ir_read r = []) (db_items (db w))))"
    "fc_action_required f = int (length (filter (\<lambda>r. mailbox_predicate like v False r \<and> ir_action_state r = ActionOpen) (db_items (db w))))"
    "fc_categories f = facet_rows ir_category (filter (mailbox_predicate like v False) (db_items (db w)))"
    "fc_sources f = facet_rows ir_source (filter (mailbox_predicate like v False) (db_items (db w)))"
    "fc_severities f = facet_rows ir_severity (filter (mailbox_predicate like v False) (db_items (db w)))"
proof -
  obtain v where v: "validate_query q = Inr v" "count_facets like self v w = (Inr f, w')"
    using assms by (auto simp: mailbox_facets_def checked_value_Inr sql_mailbox_store_def)
  from v(2) normalize_validated [OF v(1)] show ?thesis
    by (intro that [OF v(1)])
      (auto simp: count_facets_def with_query_Inr Let_def bind_io_Inr wrapping_Inr mailbox_facet_rows_def
        dest!: count_rows_Inr query_Inr)
qed

lemma length_filter_update:
  "(\<And>r. r \<in> set rs \<Longrightarrow> P r \<Longrightarrow> \<not> Q (f r)) \<Longrightarrow>
   length (filter Q (update_where P f rs)) = length (filter (\<lambda>r. Q r \<and> \<not> P r) rs)"
  by (induction rs) (auto simp: update_where_def)

text \<open>Marking all read is exact. The number it returns is the number of items that match the query,
  are unread and have not changed since the time of the request; exactly these change; and the
  unread facet of the same query afterwards counts exactly the matching unread items that were
  updated later, so that nothing that arrives meanwhile is lost unread.\<close>

theorem mark_all_read_exact:
  assumes "in_range now" "mm_mailboxes m = sql_mailbox_store like self" "mailbox_mark_all m now q w = (Inr n, w')"
    and "db w1 = db w'" "mailbox_facets m q w1 = (Inr f, w2)"
  shows "\<exists>v. validate_query q = Inr v \<and> n = int (length (filter (to_mark_read like v (timestamp now)) (db_items (db w)))) \<and>
    fc_unread f = int (length (filter (\<lambda>r. mailbox_predicate like v False r \<and> ir_read r = [] \<and> timestamp now < ir_updated r) (db_items (db w)))) \<and>
    (\<forall>i < length (db_items (db w)). \<not> to_mark_read like v (timestamp now) (db_items (db w) ! i) \<longrightarrow>
       db_items (db w') ! i = db_items (db w) ! i)"
proof -
  obtain v where v: "validate_query q = Inr v" and n: "n = int (length (filter (to_mark_read like v (timestamp now)) (db_items (db w))))"
    and d: "db w' = (db w)\<lparr>db_items := update_where (to_mark_read like v (timestamp now))
       (\<lambda>r. r\<lparr>ir_read := timestamp now, ir_updated := timestamp now\<rparr>) (db_items (db w))\<rparr>"
    using mark_all_Inr [OF assms(1,2,3)] by metis
  have "fc_unread f = int (length (filter (\<lambda>r. mailbox_predicate like v False r \<and> ir_read r = []) (db_items (db w'))))"
    using count_facets_Inr [OF assms(2,5)] v assms(4) by (metis Inr_inject)
  also have "\<dots> = int (length (filter (\<lambda>r. (mailbox_predicate like v False r \<and> ir_read r = []) \<and> \<not> to_mark_read like v (timestamp now) r) (db_items (db w))))"
    unfolding d by (simp add: length_filter_update timestamp_nonempty)
  also have "filter (\<lambda>r. (mailbox_predicate like v False r \<and> ir_read r = []) \<and> \<not> to_mark_read like v (timestamp now) r) (db_items (db w)) =
      filter (\<lambda>r. mailbox_predicate like v False r \<and> ir_read r = [] \<and> timestamp now < ir_updated r) (db_items (db w))"
    by (intro filter_cong) (auto simp: to_mark_read_def)
  finally show ?thesis using v n d by (auto simp: update_where_def)
qed

lemma sample_in_range: "in_range 0"
  by (simp add: in_range_def year_start_def unix_epoch_day_def day_ns_def)

lemma own_normalized: "normalize_personal_mutation own_query = Inr own_query"
  by (simp add: normalize_personal_mutation_def normalize_validated [OF sample_query_valid])
    (simp add: own_query_def sample_query_def)

lemma own_workspace: "qy_workspace own_query = ''ws''" "qy_scope own_query = ScopeMine"
  by (simp_all add: own_query_def sample_query_def)

lemma mark_all_read_exact_witness:
  "\<exists>n w' f. mailbox_mark_all sample_mailboxes 0 sample_query sample_mail = (Inr n, w') \<and>
     fst (mailbox_facets sample_mailboxes sample_query w') = Inr f \<and>
     fc_unread f = int (length (filter (\<lambda>r. mailbox_predicate (\<lambda>s p. True) own_query False r \<and> ir_read r = [] \<and>
       timestamp 0 < ir_updated r) sample_rows))"
proof -
  have boxes: "mm_mailboxes sample_mailboxes = sql_mailbox_store (\<lambda>s p. True) ''ws''" by (simp add: sample_mailboxes_def)
  obtain n w' where m: "mailbox_mark_all sample_mailboxes 0 sample_query sample_mail = (Inr n, w')" "outcomes w' = []"
    by (simp add: mailbox_mark_all_def checked_value_def sample_query_valid boxes sql_mailbox_store_def mark_all_read_def
        with_query_def own_normalized own_workspace require_workspace_def Let_def trim_timestamp [OF sample_in_range]
        statement_runs sample_mail_def)
  obtain f w2 where f: "mailbox_facets sample_mailboxes sample_query w' = (Inr f, w2)"
    by (simp add: mailbox_facets_def checked_value_def sample_query_valid boxes sql_mailbox_store_def count_facets_def
        with_query_def normalize_validated [OF sample_query_valid] own_workspace require_workspace_def Let_def
        mailbox_facet_rows_def statement_runs m(2))
  from mark_all_read_exact [OF sample_in_range boxes m(1) refl f] sample_query_valid m f show ?thesis
    by (auto simp: sample_mail_simps)
qed

section \<open>Facets\<close>

text \<open>A facet of a list of items: every value of the attribute once, with the number of items that have it.\<close>

definition facet_of :: "(item \<Rightarrow> string) \<Rightarrow> item list \<Rightarrow> (string \<times> int) list \<Rightarrow> bool" where
  "facet_of f xs fs \<longleftrightarrow> distinct (map fst fs) \<and>
     set fs = (\<lambda>k. (k, int (length (filter (\<lambda>x. f x = k) xs)))) ` f ` set xs \<and>
     sorted (map (\<lambda>(k, n). (- n, k)) fs) \<and> sum_list (map snd fs) = int (length xs)"

lemma sum_length_filter:
  "finite C \<Longrightarrow> f ` set xs \<subseteq> C \<Longrightarrow> (\<Sum>k \<in> C. int (length (filter (\<lambda>x. f x = k) xs))) = int (length xs)"
proof (induction xs)
  case (Cons x xs)
  have "(\<Sum>k \<in> C. int (length (filter (\<lambda>y. f y = k) (x # xs)))) =
      (\<Sum>k \<in> C. int (length (filter (\<lambda>y. f y = k) xs)) + (if f x = k then 1 else 0))"
    by (rule sum.cong) auto
  also have "\<dots> = int (length xs) + 1" using Cons by (simp add: sum.distrib)
  finally show ?case by simp
qed simp

lemma facet_rows_facts:
  fixes col :: "item_row \<Rightarrow> string" and rs
  defines "fs \<equiv> facet_rows col rs"
  shows "distinct (map fst fs)" "set fs = (\<lambda>k. (k, int (length (filter (\<lambda>r. col r = k) rs)))) ` col ` set rs"
    "sorted (map (\<lambda>(k, n). (- n, k)) fs)" "sum_list (map snd fs) = int (length rs)"
proof -
  let ?pair = "\<lambda>k. (k, int (length (filter (\<lambda>r. col r = k) rs)))"
  show set: "set fs = ?pair ` col ` set rs" by (simp add: fs_def facet_rows_def)
  have d: "distinct fs" by (simp add: fs_def facet_rows_def distinct_map inj_on_def)
  then show "distinct (map fst fs)" using set by (auto simp: distinct_map inj_on_def)
  show "sorted (map (\<lambda>(k, n). (- n, k)) fs)" by (simp add: fs_def facet_rows_def)
  have "sum_list (map snd fs) = sum snd (?pair ` col ` set rs)" using d by (simp add: sum_list_distinct_conv_sum_set set)
  also have "\<dots> = (\<Sum>k \<in> col ` set rs. int (length (filter (\<lambda>r. col r = k) rs)))"
    by (subst sum.reindex) (auto simp: inj_on_def)
  also have "\<dots> = int (length rs)" by (rule sum_length_filter) auto
  finally show "sum_list (map snd fs) = int (length rs)" .
qed

lemma facet_of_rows:
  assumes "mset xs = mset (map scan_inbox_item rs)" "\<forall>r \<in> set rs. f (scan_inbox_item r) = col r"
  shows "facet_of f xs (facet_rows col rs)"
proof -
  have "length (filter (\<lambda>x. f x = k) xs) = length (filter (\<lambda>r. col r = k) rs)" for k
  proof -
    have "length (filter (\<lambda>x. f x = k) xs) = length (filter (\<lambda>x. f x = k) (map scan_inbox_item rs))"
      using assms(1) by (metis mset_filter size_mset)
    also have "\<dots> = length (filter (\<lambda>r. col r = k) rs)"
      using assms(2) by (simp add: filter_map comp_def cong: filter_cong)
    finally show ?thesis .
  qed
  moreover have "f ` set xs = col ` set rs"
    using assms(2) mset_eq_setD [OF assms(1)] by (force simp: image_image)
  moreover have "length xs = length rs" using mset_eq_length [OF assms(1)] by simp
  ultimately show ?thesis using facet_rows_facts [of col rs] by (simp add: facet_of_def)
qed

definition columns_match :: "database \<Rightarrow> bool" where
  "columns_match d \<longleftrightarrow> (\<forall>r \<in> set (db_items d). it_category (ir_payload r) = ir_category r \<and>
     it_source (ir_payload r) = ir_source r \<and> it_severity (ir_payload r) = ir_severity r \<and>
     it_action_state (ir_payload r) = ir_action_state r)"

lemma count_facets_run:
  assumes "mm_mailboxes m = sql_mailbox_store like self" "outcomes w = []" "validate_query q = Inr v" "qy_workspace v = self"
  obtains f where "mailbox_facets m q w = (Inr f, w)"
proof -
  have "self \<noteq> []" using validate_query_Inr(2) [OF assms(3)] assms(4) by simp
  then show ?thesis
    by (intro that) (simp add: mailbox_facets_def checked_value_def assms sql_mailbox_store_def count_facets_def
        with_query_def normalize_validated [OF assms(3)] require_workspace_def Let_def mailbox_facet_rows_def statement_runs)
qed

text \<open>The facets are those of the list. For the same query, with the columns of the items in step with
  their payloads, the facets count exactly the items that following the pages yields: every
  category, source and severity that occurs once with its number of items, the most frequent
  first, the unread items and the items with an open action.\<close>

theorem facets_match_list:
  assumes "outcomes w = []" "validate_query q = Inr v" "qy_workspace v = self" "qy_before_updated q = []"
    and "schema_ok (db w)" "\<forall>r \<in> set (db_items (db w)). listable r" "columns_match (db w)"
    and "mm_mailboxes m = sql_mailbox_store like self" "length (db_items (db w)) < n"
  shows "\<exists>items f. follow_pages n m q [] w = (Inr items, w) \<and> mailbox_facets m q w = (Inr f, w) \<and>
    facet_of it_category items (fc_categories f) \<and> facet_of it_source items (fc_sources f) \<and>
    facet_of it_severity items (fc_severities f) \<and> fc_unread f = int (length (filter (\<lambda>x. it_read x = []) items)) \<and>
    fc_action_required f = int (length (filter (\<lambda>x. it_action_state x = ActionOpen) items))"
proof -
  let ?rows = "filter (mailbox_predicate like v False) (db_items (db w))"
  let ?items = "map scan_inbox_item (sort_key_desc item_order ?rows)"
  have list: "follow_pages n m q [] w = (Inr ?items, w)"
    by (rule follow_pages_all [OF assms(1-6,8,9)])
  obtain f where f: "mailbox_facets m q w = (Inr f, w)" by (rule count_facets_run [OF assms(8,1,2,3)])
  have mset: "mset ?items = mset (map scan_inbox_item ?rows)" by (simp add: sort_key_desc_def)
  have col: "\<forall>r \<in> set ?rows. it_category (scan_inbox_item r) = ir_category r" "\<forall>r \<in> set ?rows. it_source (scan_inbox_item r) = ir_source r"
      "\<forall>r \<in> set ?rows. it_severity (scan_inbox_item r) = ir_severity r" "\<forall>r \<in> set ?rows. it_action_state (scan_inbox_item r) = ir_action_state r"
      "\<forall>r \<in> set ?rows. it_read (scan_inbox_item r) = ir_read r"
    using assms(7) by (simp_all add: columns_match_def scan_inbox_item_def)
  have count: "length (filter Q ?items) = length (filter (\<lambda>r. mailbox_predicate like v False r \<and> P r) (db_items (db w)))"
    if "\<And>r. r \<in> set ?rows \<Longrightarrow> Q (scan_inbox_item r) = P r" for P Q
  proof -
    have "length (filter Q ?items) = length (filter Q (map scan_inbox_item ?rows))"
      using mset by (metis mset_filter size_mset)
    also have "\<dots> = length (filter (Q \<circ> scan_inbox_item) ?rows)" by (simp only: filter_map length_map)
    also have "filter (Q \<circ> scan_inbox_item) ?rows = filter P ?rows" using that by (intro filter_cong) (auto simp only: comp_def)
    also have "filter P ?rows = filter (\<lambda>r. mailbox_predicate like v False r \<and> P r) (db_items (db w))"
      by (simp add: conj_commute)
    finally show ?thesis .
  qed
  obtain v' where v': "validate_query q = Inr v'"
    and counts: "fc_unread f = int (length (filter (\<lambda>r. mailbox_predicate like v' False r \<and> ir_read r = []) (db_items (db w))))"
    "fc_action_required f = int (length (filter (\<lambda>r. mailbox_predicate like v' False r \<and> ir_action_state r = ActionOpen) (db_items (db w))))"
    and facets: "fc_categories f = facet_rows ir_category (filter (mailbox_predicate like v' False) (db_items (db w)))"
    "fc_sources f = facet_rows ir_source (filter (mailbox_predicate like v' False) (db_items (db w)))"
    "fc_severities f = facet_rows ir_severity (filter (mailbox_predicate like v' False) (db_items (db w)))"
    by (rule count_facets_Inr [OF assms(8) f])
  have v: "v' = v" using v' assms(2) by simp
  have "facet_of it_category ?items (fc_categories f)" "facet_of it_source ?items (fc_sources f)"
    "facet_of it_severity ?items (fc_severities f)"
    unfolding facets v by (rule facet_of_rows [OF mset] col(1-3))+
  moreover have "fc_unread f = int (length (filter (\<lambda>x. it_read x = []) ?items))"
    unfolding counts v by (subst count [where P = "\<lambda>r. ir_read r = []"]) (use col(5) in simp_all)
  moreover have "fc_action_required f = int (length (filter (\<lambda>x. it_action_state x = ActionOpen) ?items))"
    unfolding counts v by (subst count [where P = "\<lambda>r. ir_action_state r = ActionOpen"]) (use col(4) in simp_all)
  ultimately show ?thesis using list f by blast
qed

lemma facets_match_list_witness:
  "\<exists>items f. follow_pages 3 sample_mailboxes sample_query [] sample_mail = (Inr items, sample_mail) \<and>
     fst (mailbox_facets sample_mailboxes sample_query sample_mail) = Inr f \<and> facet_of it_category items (fc_categories f)"
proof -
  have query: "qy_workspace own_query = ''ws''" "qy_before_updated sample_query = []"
    by (simp_all add: own_query_def sample_query_def)
  have cols: "columns_match (db sample_mail)"
    unfolding columns_match_def sample_mail_simps by (simp add: sample_rows_def new_item_row_def sample_item_def)
  have boxes: "mm_mailboxes sample_mailboxes = sql_mailbox_store (\<lambda>s p. True) ''ws''" by (simp add: sample_mailboxes_def)
  have few: "length (db_items (db sample_mail)) < 3" unfolding sample_mail_simps by (simp add: sample_rows_def)
  from facets_match_list [OF sample_mail_simps(1) sample_query_valid query sample_mail_schema sample_mail_listable cols boxes few]
  show ?thesis by (metis fst_conv)
qed

end
