(* ===== verification/Mailbox_Alerts.thy ===== *)
theory Mailbox_Alerts
  imports Mailbox_State
begin

text \<open>
  Acknowledging an alert: the item and its alert group change together. The specification is a
  pure function of the database; \<open>identified\<close> says that a payload carries the identity of its row.
\<close>

definition identified :: "database \<Rightarrow> bool" where
  "identified d \<longleftrightarrow> payloads_match d \<and> (\<forall>r \<in> set (db_items d). it_id (ir_payload r) = ir_id r)"

definition acknowledged :: "user_id \<Rightarrow> string \<Rightarrow> item \<Rightarrow> database \<Rightarrow> database" where
  "acknowledged actor at x d = d\<lparr>
     db_groups := update_where (firing_group x) (acknowledge_group actor at) (db_groups d),
     db_items := update_where (own_item x) (\<lambda>r. r\<lparr>ir_alert_state := AlertAcknowledged, ir_updated := at\<rparr>) (db_items d)\<rparr>"

text \<open>What acknowledging the item \<open>x\<close> does to the database, if anything, and the item it returns.\<close>

definition acknowledges :: "user_id \<Rightarrow> string \<Rightarrow> item \<Rightarrow> item \<Rightarrow> database \<Rightarrow> database \<Rightarrow> bool" where
  "acknowledges actor at x y d d' \<longleftrightarrow> it_group x \<noteq> [] \<and> it_alert_state x \<notin> {[], AlertResolved} \<and>
     (if it_alert_state x = AlertAcknowledged then d' = d \<and> y = x
      else length (filter (firing_group x) (db_groups d)) = 1 \<and> d' = acknowledged actor at x d \<and>
        y = x\<lparr>it_alert_state := AlertAcknowledged, it_updated := at\<rparr>)"

lemma acknowledge_firing_Inr:
  assumes "acknowledge_firing actor at x w = (Inr u, w')"
  shows "length (filter (firing_group x) (db_groups (db w))) = 1 \<and> db w' = acknowledged actor at x (db w)"
proof -
  obtain n w1 k where g: "update_rows groups_table (firing_group x) (acknowledge_group actor at) w = (Inr n, w1)"
    and n: "n = 1"
    and i: "update_rows items_table (own_item x) (\<lambda>r. r\<lparr>ir_alert_state := AlertAcknowledged, ir_updated := at\<rparr>) w1 = (Inr k, w')"
    using assms by (auto simp: acknowledge_firing_def bind_io_Inr guard_io_Inr wrapping_Inr)
  from update_rows_Inr [OF g] update_rows_Inr [OF i] n show ?thesis by (simp add: acknowledged_def)
qed

lemma get_after_acknowledge:
  assumes "List.find (item_at v i) (db_items d) = Some r" "identified d" "x = scan_inbox_item r"
  shows "map_option scan_inbox_item (List.find (item_at v i) (db_items (acknowledged actor at x d))) =
    Some (x\<lparr>it_alert_state := AlertAcknowledged, it_updated := at\<rparr>)"
proof -
  let ?f = "\<lambda>r. r\<lparr>ir_alert_state := AlertAcknowledged, ir_updated := at\<rparr>"
  have "r \<in> set (db_items d)" using assms(1) by (auto simp: find_Some_iff)
  with assms(2,3) have "own_item x r" by (simp add: identified_def payloads_match_def own_item_def scan_inbox_item_def)
  moreover have "item_at v i (if own_item x r then ?f r else r) = item_at v i r" for r
    by (simp add: item_at_def mailbox_access_def)
  ultimately show ?thesis
    using assms(1,3) by (simp add: acknowledged_def find_update_where scan_inbox_item_def)
qed

lemma acknowledge_body_effect:
  assumes "acknowledge_body v i actor at w = (Inr (True, res), w')" "identified (db w)"
  shows "\<exists>r x y. List.find (item_at v i) (db_items (db w)) = Some r \<and> x = scan_inbox_item r \<and> res = Some y \<and>
    acknowledges actor at x y (db w) (db w')"
proof -
  obtain x w1 where g: "get_inbox_item v i w = (Inr (Some x), w1)"
    and rest: "guard_io (it_group x = [] \<or> it_alert_state x = [] \<or> it_alert_state x = AlertResolved)
           (ErrorText ''notification alert is not firing'')
        (bind_io (if it_alert_state x \<noteq> AlertAcknowledged then acknowledge_firing actor at x else ret ()) (\<lambda>_.
         bind_io (get_inbox_item v i) (\<lambda>stored. case stored of
           None \<Rightarrow> leave_with None | Some x \<Rightarrow> commit_with (Some x)))) w1 = (Inr (True, res), w')"
    using assms(1) by (auto simp: acknowledge_body_def bind_io_Inr split: option.splits)
  from rest obtain w2 y where open_alert: "it_group x \<noteq> []" "it_alert_state x \<notin> {[], AlertResolved}"
    and step: "(if it_alert_state x \<noteq> AlertAcknowledged then acknowledge_firing actor at x else ret ()) w1 = (Inr (), w2)"
    and again: "get_inbox_item v i w2 = (Inr (Some y), w')" "res = Some y"
    by (auto simp: bind_io_Inr guard_io_Inr split: option.splits)
  note get = get_inbox_item_Inr [OF g] get_inbox_item_Inr [OF again(1)]
  obtain r where r: "List.find (item_at v i) (db_items (db w)) = Some r" "x = scan_inbox_item r"
    using get(1) by (cases "List.find (item_at v i) (db_items (db w))") auto
  show ?thesis
  proof (cases "it_alert_state x = AlertAcknowledged")
    case True
    with step have "w2 = w1" by simp
    with get r True open_alert again(2) show ?thesis by (auto simp: acknowledges_def)
  next
    case False
    with step have "acknowledge_firing actor at x w1 = (Inr (), w2)" by simp
    from acknowledge_firing_Inr [OF this] get(1) have eff:
      "length (filter (firing_group x) (db_groups (db w))) = 1" "db w2 = acknowledged actor at x (db w)" by simp_all
    from get(2) get_after_acknowledge [OF r(1) assms(2) r(2), of actor at]
    have "y = x\<lparr>it_alert_state := AlertAcknowledged, it_updated := at\<rparr>" by (simp add: eff(2))
    moreover have "db w' = acknowledged actor at x (db w)" using get(2) eff(2) by simp
    ultimately have "acknowledges actor at x y (db w) (db w')"
      using False eff(1) open_alert by (simp add: acknowledges_def)
    with r again(2) show ?thesis by blast
  qed
qed

lemma acknowledge_body_left: "acknowledge_body v i actor at w = (Inr (False, res), w') \<Longrightarrow> res = None"
  by (auto simp: acknowledge_body_def bind_io_Inr guard_io_Inr split: option.splits)

lemma acknowledge_alert_cases:
  assumes "validate_query q = Inr v" "in_range now" "identified (db w)"
    and "acknowledge_alert self v i actor (timestamp now) w = (a, w')"
  shows "db w' = db w \<and> (a = Inr None \<or> (\<exists>e. a = Inl e)) \<or>
    actor = qy_viewer v \<and> qy_workspace v = self \<and>
    (\<exists>r y. List.find (item_at v (trim_space i)) (db_items (db w)) = Some r \<and>
      acknowledges actor (timestamp now) (scan_inbox_item r) y (db w) (db w') \<and> (a = Inr (Some y) \<or> a = Inl DriverError))"
proof (cases "normalize_personal_mutation v")
  case (Inl e)
  with assms(4) show ?thesis by (simp add: acknowledge_alert_def with_query_def)
next
  case (Inr v')
  then have n: "normalize_personal_mutation v = Inr v" using personal_validated [OF assms(1)] by blast
  show ?thesis
  proof (cases "qy_workspace v \<noteq> self \<or> self = [] \<or> trim_space i = [] \<or> actor = [] \<or> actor \<noteq> qy_viewer v")
    case True
    with assms(4) n show ?thesis
      by (auto simp: acknowledge_alert_def with_query_def require_workspace_def guard_io_def Let_def split: if_splits)
  next
    case False
    with assms(4) n have t: "transaction (acknowledge_body v (trim_space i) actor (timestamp now)) w = (a, w')"
      by (auto simp: acknowledge_alert_def with_query_def require_workspace_def guard_io_def Let_def trim_timestamp [OF assms(2)])
    let ?R = "\<lambda>d res d'. identified d \<longrightarrow> (\<exists>r y. List.find (item_at v (trim_space i)) (db_items d) = Some r \<and>
      res = Some y \<and> acknowledges actor (timestamp now) (scan_inbox_item r) y d d')"
    have "?R (db w) res (db w')" if "acknowledge_body v (trim_space i) actor (timestamp now) w = (Inr (True, res), w')" for w res w'
      using acknowledge_body_effect [OF that] by blast
    from transaction_related [OF t, of ?R, OF this] acknowledge_body_left assms(3) False show ?thesis
      by (cases a) (blast, blast)
  qed
qed

text \<open>The manager either stops before the store or returns what the store returns.\<close>

lemma mailbox_acknowledge_cases:
  assumes "mm_mailboxes m = sql_mailbox_store like self" "mailbox_acknowledge m now q i actor w = (r, w')"
  shows "db w' = db w \<and> (\<exists>e. r = Inl e) \<or>
    (\<exists>v w1 a. validate_query q = Inr v \<and> qy_scope v = ScopeMine \<and> db w1 = db w \<and>
      acknowledge_alert self v (trim_space i) (trim_space actor) (timestamp now) w1 = (a, w') \<and>
      bind_io (\<lambda>w. (a, w)) (found_item (trim_space i)) w' = (r, w'))"
proof (cases "validate_query q")
  case (Inl e)
  with assms(2) show ?thesis by (simp add: mailbox_acknowledge_def checked_value_def)
next
  case (Inr v)
  let ?get = "bind_io (get_item self v (trim_space i)) (found_item (trim_space i))"
  let ?bad = "trim_space actor = [] \<or> qy_scope v \<noteq> ScopeMine \<or> trim_space actor \<noteq> qy_viewer v"
  let ?store = "acknowledge_alert self v (trim_space i) (trim_space actor) (timestamp now)"
  have run: "guard_io ?bad (invalid ''backend.notification.inbox_alert_actor_invalid'' []) (bind_io ?get (\<lambda>current.
      guard_io (it_alert_state current = [] \<or> it_alert_state current = AlertResolved)
       (conflict ''backend.notification.inbox_alert_not_firing'' [''alert_state'', it_alert_state current])
       (bind_io ?store (found_item (trim_space i))))) w = (r, w')"
    using assms(2) unfolding mailbox_acknowledge_def Inr checked_value_def sum.case Let_def assms(1) sql_mailbox_store_def
      mailbox_store.simps .
  obtain g w1 where g: "?get w = (g, w1)" by fastforce
  have "preserves (\<lambda>d. d = db w) ?get" by (intro preserves_intros)
  from preservesD [OF this _ g] have d1: "db w1 = db w" by simp
  consider "db w' = db w" "\<exists>e. r = Inl e" | "\<not> ?bad" "bind_io ?store (found_item (trim_space i)) w1 = (r, w')"
    using run g d1 by (cases g) (auto simp: guard_io_def bind_io_def split: if_splits)
  then show ?thesis
  proof cases
    case 2
    obtain a w2 where "?store w1 = (a, w2)" by fastforce
    with 2 Inr d1 show ?thesis by (auto simp: bind_io_def found_item_def split: sum.splits option.splits)
  qed blast
qed

text \<open>C22: Acknowledging is atomic. Either the call fails and the database is untouched, or it acknowledges
  the visible alert it names: it was firing or acknowledged before, and unless it was
  acknowledged already exactly one firing group of the recipient and the item itself are set to
  acknowledged with the time and the viewer, in one step; the caller gets the item as stored, or a
  driver error when the reply of the commit was lost.\<close>

theorem acknowledge_refines:
  assumes "mm_mailboxes m = sql_mailbox_store like self" "in_range now" "identified (db w)"
    and "mailbox_acknowledge m now q i actor w = (r, w')"
  shows "db w' = db w \<and> (\<exists>e. r = Inl e) \<or>
    (\<exists>x y. visible_item self q (db w) x \<and> it_id x = trim_space i \<and> it_recipient x = trim_space actor \<and>
      acknowledges (trim_space actor) (timestamp now) x y (db w) (db w') \<and> (r = Inr y \<or> r = Inl DriverError))"
proof -
  consider "db w' = db w" "\<exists>e. r = Inl e"
    | v w1 a where "validate_query q = Inr v" "qy_scope v = ScopeMine" "db w1 = db w"
      "acknowledge_alert self v (trim_space i) (trim_space actor) (timestamp now) w1 = (a, w')"
      "bind_io (\<lambda>w. (a, w)) (found_item (trim_space i)) w' = (r, w')"
    using mailbox_acknowledge_cases [OF assms(1,4)] by blast
  then show ?thesis
  proof cases
    case 2
    have out: "a = Inl e \<Longrightarrow> r = Inl e" "a = Inr None \<Longrightarrow> \<exists>e. r = Inl e" "a = Inr (Some y) \<Longrightarrow> r = Inr y" for e y
      using 2(5) by (auto simp: bind_io_def found_item_def)
    have "identified (db w1)" using assms(3) 2(3) by simp
    from acknowledge_alert_cases [OF 2(1) assms(2) this 2(4)] consider
        "db w' = db w" "a = Inr None \<or> (\<exists>e. a = Inl e)"
      | c y where "trim_space actor = qy_viewer v" "qy_workspace v = self"
          "List.find (item_at v (trim_space i)) (db_items (db w)) = Some c"
          "acknowledges (trim_space actor) (timestamp now) (scan_inbox_item c) y (db w) (db w')"
          "a = Inr (Some y) \<or> a = Inl DriverError"
      unfolding 2(3) trim_space_idem by blast
    then show ?thesis
    proof cases
      case 1
      with out(1,2) show ?thesis by blast
    next
      case (2 c y)
      from 2(3) have c: "c \<in> set (db_items (db w))" "mailbox_access v c" "ir_id c = trim_space i"
        by (auto simp: find_Some_iff item_at_def)
      note v = \<open>validate_query q = Inr v\<close> \<open>qy_scope v = ScopeMine\<close>
      have "qy_recipients v = [qy_viewer v]" using validate_query_Inr(10) [OF v(1)] v(2) by simp
      with access_granted [OF v(1) c(2)]
      have "visible_item self q (db w) (scan_inbox_item c)" "ir_recipient c = trim_space actor"
        using validate_query_grant(1) [OF v(1)] validate_query_Inr(1) [OF v(1)] 2(1,2) c(1)
        by (auto simp: visible_item_def)
      moreover have "it_id (scan_inbox_item c) = trim_space i" "it_recipient (scan_inbox_item c) = ir_recipient c"
        using assms(3) c(1,3) by (simp_all add: identified_def payloads_match_def scan_inbox_item_def)
      ultimately show ?thesis using 2(4,5) out(1,3) by metis
    qed
  qed blast
qed

definition sample_firing :: database where
  "sample_firing = empty_database\<lparr>db_items := sample_rows, db_groups := [\<lparr>al_workspace = ''ws'', al_recipient = ''u1'',
     al_group = ''g1'', al_state = AlertFiring, al_occurrences = 1, al_first = [], al_last = [], al_acknowledged_at = [],
     al_acknowledged_by = [], al_resolved_at = [], al_last_event = [],
     al_updated = []\<rparr>]\<rparr>"

lemma sample_firing_get:
  "List.find (item_at own_query ''i1'') sample_rows = Some (new_item_row sample_item)"
  by (simp add: sample_rows_def own_query_def sample_query_def item_at_def mailbox_access_def string_predicate_def
      unique_strings_def new_item_row_def sample_item_def trim_space_plain plain_char_def)

lemma sample_identified: "identified sample_firing"
  by (simp add: identified_def payloads_match_def sample_firing_def sample_rows_def new_item_row_def sample_item_def)

lemma sample_acknowledge:
  "\<exists>y w'. mailbox_acknowledge sample_mailboxes 0 sample_query ''i1'' ''u1'' (calm_world sample_firing) = (Inr y, w')"
proof -
  let ?w = "calm_world sample_firing" and ?x = "scan_inbox_item (new_item_row sample_item)"
  have plain: "trim_space ''i1'' = ''i1''" "trim_space ''u1'' = ''u1''" by (simp_all add: trim_space_plain plain_char_def)
  have x: "it_group ?x = ''g1''" "it_alert_state ?x = AlertFiring"
    by (simp_all add: scan_inbox_item_def new_item_row_def sample_item_def)
  have viewer: "qy_viewer own_query = ''u1''" by (simp add: own_query_def sample_query_def)
  have d: "db_items sample_firing = sample_rows" by (simp add: sample_firing_def)
  have find: "List.find (item_at own_query ''i1'') (db_items sample_firing) = Some (new_item_row sample_item)"
    unfolding d by (rule sample_firing_get)
  have get: "get_inbox_item own_query ''i1'' w = (Inr (Some ?x), w)" if "outcomes w = []" "db w = sample_firing" for w
    using that by (simp add: get_inbox_item_def statement_runs find)
  have groups: "length (filter (firing_group ?x) (db_groups sample_firing)) = 1"
    by (simp add: sample_firing_def firing_group_def scan_inbox_item_def new_item_row_def sample_item_def)
  have fire: "acknowledge_firing ''u1'' (timestamp 0) ?x ?w = (Inr (), calm_world (acknowledged ''u1'' (timestamp 0) ?x sample_firing))"
    by (simp add: acknowledge_firing_def bind_io_def wrapping_def update_rows_def exec_run groups guard_io_def ret_def
        acknowledged_def calm_world_def)
  have again: "get_inbox_item own_query ''i1'' (calm_world (acknowledged ''u1'' (timestamp 0) ?x sample_firing)) =
      (Inr (Some (?x\<lparr>it_alert_state := AlertAcknowledged, it_updated := timestamp 0\<rparr>)), calm_world (acknowledged ''u1'' (timestamp 0) ?x sample_firing))"
    using get_after_acknowledge [OF find sample_identified refl, of "''u1''" "timestamp 0"]
    by (simp add: get_inbox_item_def bind_io_def select_row_def query_run ret_def)
  have body: "acknowledge_body own_query ''i1'' ''u1'' (timestamp 0) ?w =
      (Inr (True, Some (?x\<lparr>it_alert_state := AlertAcknowledged, it_updated := timestamp 0\<rparr>)), calm_world (acknowledged ''u1'' (timestamp 0) ?x sample_firing))"
    by (simp add: acknowledge_body_def bind_io_def get x guard_io_def fire again commit_with_def ret_def)
  have "acknowledge_alert ''ws'' own_query ''i1'' ''u1'' (timestamp 0) ?w =
      (Inr (Some (?x\<lparr>it_alert_state := AlertAcknowledged, it_updated := timestamp 0\<rparr>)), calm_world (acknowledged ''u1'' (timestamp 0) ?x sample_firing))"
    by (simp add: acknowledge_alert_def with_query_def own_normalized own_workspace require_workspace_def Let_def plain
        trim_timestamp [OF sample_in_range] viewer guard_io_def transaction_def begin_tx_def query_run bind_io_def in_tx_def body)
  moreover have "get_item ''ws'' own_query ''i1'' ?w = (Inr (Some ?x), ?w)"
    by (simp add: get_item_def with_query_def normalize_validated [OF sample_query_valid] own_workspace require_workspace_def
        plain guard_io_def get)
  ultimately show ?thesis
    by (simp add: mailbox_acknowledge_def checked_value_def sample_query_valid sample_mailboxes_def sql_mailbox_store_def
        plain viewer own_workspace Let_def guard_io_def bind_io_def found_item_def x ret_def)
qed

lemma acknowledge_refines_witness:
  "\<exists>x y w'. mailbox_acknowledge sample_mailboxes 0 sample_query ''i1'' ''u1'' (calm_world sample_firing) = (Inr y, w') \<and>
     acknowledges ''u1'' (timestamp 0) x y sample_firing (db w')"
proof -
  obtain y w' where m: "mailbox_acknowledge sample_mailboxes 0 sample_query ''i1'' ''u1'' (calm_world sample_firing) = (Inr y, w')"
    using sample_acknowledge by blast
  have boxes: "mm_mailboxes sample_mailboxes = sql_mailbox_store (\<lambda>s p. True) ''ws''" by (simp add: sample_mailboxes_def)
  have u: "trim_space ''u1'' = ''u1''" by (simp add: trim_space_plain plain_char_def)
  have ok: "identified (db (calm_world sample_firing))" using sample_identified by simp
  from acknowledge_refines [OF boxes sample_in_range ok m] obtain x z where
    "acknowledges ''u1'' (timestamp 0) x z sample_firing (db w')" "Inr y = Inr z \<or> Inr y = (Inl DriverError :: err + item)"
    unfolding u calm_world_simps by blast
  with m show ?thesis by auto
qed

end
