(* ===== verification/Mailbox_Owners.thy ===== *)
theory Mailbox_Owners
  imports Mailbox_State
begin

text \<open>
  Delegations and saved views: a delegation counts between its two instants, and what a manager
  call stored is what the next list shows.
\<close>

section \<open>The window of a delegation\<close>

definition optional_time :: "string \<Rightarrow> instant option" where
  "optional_time s = (if s = [] then None else parse_rfc3339 s)"

text \<open>Stored times are absent or timestamps, as \<open>normalizeDelegationTime\<close> leaves them.\<close>

definition stored_time :: "string \<Rightarrow> bool" where
  "stored_time s \<longleftrightarrow> s = [] \<or> (case parse_rfc3339 s of None \<Rightarrow> False | Some t \<Rightarrow> in_range t \<and> s = timestamp t)"

definition delegates_now :: "workspace_id \<Rightarrow> user_id \<Rightarrow> instant \<Rightarrow> delegation \<Rightarrow> bool" where
  "delegates_now ws u now g \<longleftrightarrow> dg_workspace g = ws \<and> dg_delegate g = u \<and> dg_enabled g \<and>
     (case optional_time (dg_starts g) of None \<Rightarrow> True | Some s \<Rightarrow> s \<le> now) \<and>
     (case optional_time (dg_ends g) of None \<Rightarrow> True | Some e \<Rightarrow> now < e)"

lemma stored_time_cases:
  assumes "stored_time s" obtains "s = []" | t where "in_range t" "s = timestamp t" "optional_time s = Some t"
  using assms by (auto simp: stored_time_def optional_time_def split: option.splits)

lemma delegation_active_iff:
  assumes "in_range now" "stored_time (dg_starts g)" "stored_time (dg_ends g)"
  shows "delegation_active ws u (timestamp now) g \<longleftrightarrow> delegates_now ws u now g"
proof -
  have "dg_starts g = [] \<or> dg_starts g \<le> timestamp now \<longleftrightarrow>
      (case optional_time (dg_starts g) of None \<Rightarrow> True | Some s \<Rightarrow> s \<le> now)"
    using assms(2) by (rule stored_time_cases) (simp_all add: optional_time_def parse_timestamp timestamp_le_iff assms(1))
  moreover have "dg_ends g = [] \<or> timestamp now < dg_ends g \<longleftrightarrow>
      (case optional_time (dg_ends g) of None \<Rightarrow> True | Some e \<Rightarrow> now < e)"
    using assms(3) by (rule stored_time_cases) (simp_all add: optional_time_def parse_timestamp timestamp_less_iff assms(1))
  ultimately show ?thesis by (simp add: delegation_active_def delegates_now_def)
qed

text \<open>A delegation is in force exactly inside its window. The owners a delegate may act for are, each
  once and in order, those with an enabled delegation to him in the workspace whose start, if
  it has one, is not later than now and whose end, if it has one, is strictly later: the
  comparison of the stored texts is the comparison of the instants.\<close>

theorem delegation_window:
  assumes "mm_delegations m = Some (sql_delegation_store self)" "in_range now"
    and "\<forall>g \<in> set (db_delegations (db w)). stored_time (dg_starts g) \<and> stored_time (dg_ends g)"
    and "active_delegated_owners m now ws u w = (Inr us, w')"
  shows "sorted us \<and> distinct us \<and>
    set us = dg_owner ` {g \<in> set (db_delegations (db w)). delegates_now (trim_space ws) (trim_space u) now g}"
proof -
  have l: "list_active_delegated_owners self (trim_space ws) (trim_space u) (timestamp now) w = (Inr us, w')"
    using assms(4) by (auto simp: active_delegated_owners_def checked_value_Inr mailbox_owner_def available_store_def
        assms(1) sql_delegation_store_def split: if_splits)
  then have us: "us = sort (remdups (map dg_owner (filter (delegation_active (trim_space ws) (trim_space u) (timestamp now)) (db_delegations (db w)))))"
    by (auto simp: list_active_delegated_owners_def guard_io_Inr require_workspace_def wrapping_Inr dest!: query_Inr)
  have "filter (delegation_active (trim_space ws) (trim_space u) (timestamp now)) (db_delegations (db w)) =
      filter (delegates_now (trim_space ws) (trim_space u) now) (db_delegations (db w))"
    using assms(2,3) by (intro filter_cong) (auto simp: delegation_active_iff)
  then show ?thesis by (simp add: us)
qed

definition sample_delegation :: delegation where
  "sample_delegation = \<lparr>dg_id = ''d1'', dg_workspace = ''ws'', dg_owner = ''u2'', dg_delegate = ''u1'', dg_starts = timestamp 0,
     dg_ends = [], dg_enabled = True, dg_created = [], dg_updated = []\<rparr>"

lemma delegation_window_witness:
  "\<exists>us w'. active_delegated_owners sample_mailboxes 0 ''ws'' ''u1''
     (calm_world (empty_database\<lparr>db_delegations := [sample_delegation]\<rparr>)) = (Inr us, w') \<and> set us = {''u2''}"
proof -
  let ?w = "calm_world (empty_database\<lparr>db_delegations := [sample_delegation]\<rparr>)"
  have plain: "trim_space ''ws'' = ''ws''" "trim_space ''u1'' = ''u1''" by (simp_all add: trim_space_plain plain_char_def)
  have store: "mm_delegations sample_mailboxes = Some (sql_delegation_store ''ws'')" by (simp add: sample_mailboxes_def)
  obtain us w' where m: "active_delegated_owners sample_mailboxes 0 ''ws'' ''u1'' ?w = (Inr us, w')"
    by (simp add: active_delegated_owners_def checked_value_def mailbox_owner_def plain store available_store_def
        sql_delegation_store_def list_active_delegated_owners_def require_workspace_def
        trim_timestamp [OF sample_in_range] statement_runs)
  have "stored_time (dg_starts sample_delegation) \<and> stored_time (dg_ends sample_delegation)"
    by (simp add: sample_delegation_def stored_time_def parse_timestamp [OF sample_in_range] sample_in_range)
  then have times: "\<forall>g \<in> set (db_delegations (db ?w)). stored_time (dg_starts g) \<and> stored_time (dg_ends g)" by simp
  have "delegates_now ''ws'' ''u1'' 0 sample_delegation"
    by (simp add: delegates_now_def sample_delegation_def optional_time_def parse_timestamp [OF sample_in_range])
  with delegation_window [OF store sample_in_range times m] have "set us = {''u2''}"
    by (auto simp: plain sample_delegation_def)
  with m show ?thesis by blast
qed

text \<open>
  \<open>SaveDelegation\<close> keeps an identifier as the caller gives it and \<open>DeleteDelegation\<close> trims the one it is
  given: a delegation saved under an identifier with a space around it cannot be deleted.
\<close>

theorem padded_delegation_stays:
  assumes "trim_space (dg_id g) \<noteq> dg_id g" "mm_delegations m = Some (sql_delegation_store self)"
  shows "preserves (\<lambda>d. g \<in> set (db_delegations d)) (manager_delete_delegation m ws owner i)"
proof -
  have "\<not> delegation_at ws' owner' (trim_space j) g" for ws' owner' j
    using assms(1) by (auto simp: delegation_at_def)
  then have "preserves (\<lambda>d. g \<in> set (db_delegations d)) (delete_delegation self ws' owner' j)" for ws' owner' j
    unfolding delete_delegation_def delete_delegation_body_def delegation_exists_def require_workspace_def Let_def
    by (intro preserves_intros preserves_delete) simp
  then show ?thesis
    unfolding manager_delete_delegation_def available_store_def assms(2) option.case sql_delegation_store_def
      delegation_store.simps Let_def by (intro preserves_intros)
qed

section \<open>Saved views\<close>

lemma find_not_None: "List.find P xs \<noteq> None \<longleftrightarrow> list_ex P xs"
  by (induction xs) auto

lemma saved_view_exists_Inr:
  "saved_view_exists ws u k w = (Inr b, w') \<Longrightarrow> b = list_ex (view_at ws u k) (db_views (db w)) \<and> db w' = db w"
  unfolding find_not_None [symmetric] by (auto simp: saved_view_exists_def bind_io_Inr dest!: select_row_Inr)

definition view_saved :: "workspace_id \<Rightarrow> user_id \<Rightarrow> saved_view \<Rightarrow> saved_view_row list \<Rightarrow> saved_view_row list" where
  "view_saved ws u v rs = (if list_ex (view_at ws u (sv_key v)) rs
     then update_where (view_at ws u (sv_key v)) (\<lambda>r. r\<lparr>wr_payload := v, wr_updated := sv_updated v\<rparr>) rs
     else rs @ [new_view_row ws u v])"

lemma save_view_body_Inr:
  assumes "save_view_body ws u v w = (Inr (c, x), w')"
  shows "c \<and> x = v \<and> db w' = (db w)\<lparr>db_views := view_saved ws u v (db_views (db w))\<rparr>"
proof -
  obtain b w1 where e: "saved_view_exists ws u (sv_key v) w = (Inr b, w1)"
    using assms by (auto simp: save_view_body_def bind_io_Inr)
  note e = saved_view_exists_Inr [OF e] e
  show ?thesis
  proof (cases b)
    case True
    with assms e show ?thesis
      by (auto simp: save_view_body_def bind_io_Inr guard_io_Inr wrapping_Inr view_saved_def dest!: update_rows_Inr)
  next
    case False
    with assms e show ?thesis
      by (auto simp: save_view_body_def bind_io_Inr wrapping_Inr view_saved_def dest!: workspace_insert_Inr)
  qed
qed

lemma save_saved_view_Inr:
  assumes "save_saved_view self ws u v w = (Inr x, w')"
  shows "x = v\<lparr>sv_key := trim_space (sv_key v)\<rparr> \<and> self = ws \<and> db w' = (db w)\<lparr>db_views := view_saved ws u x (db_views (db w))\<rparr>"
proof -
  let ?v = "v\<lparr>sv_key := trim_space (sv_key v)\<rparr>"
  have t: "transaction (save_view_body ws u ?v) w = (Inr x, w')" "self = ws"
    using assms by (auto simp: save_saved_view_def Let_def guard_io_Inr require_workspace_def)
  from t(1) obtain c w1 w2 where "db w1 = db w" "save_view_body ws u ?v w1 = (Inr (c, x), w2)" "db w' = (if c then db w2 else db w)"
    by (rule transaction_Inr)
  with save_view_body_Inr [of ws u ?v w1 c x w2] t(2) show ?thesis by auto
qed

lemma manager_save_view_Inr:
  assumes "mm_views m = Some (sql_view_store self)" "manager_save_view m now ws u v w = (Inr x, w')"
  shows "self = trim_space ws \<and> db w' = (db w)\<lparr>db_views := view_saved (trim_space ws) (trim_space u) x (db_views (db w))\<rparr>"
  using assms by (auto simp: manager_save_view_def checked_value_Inr mailbox_owner_def available_store_def
      sql_view_store_def split: if_splits dest!: save_saved_view_Inr)

definition owned_view :: "workspace_id \<Rightarrow> user_id \<Rightarrow> saved_view_row \<Rightarrow> bool" where
  "owned_view ws u r \<longleftrightarrow> wr_workspace r = ws \<and> wr_recipient r = u"

lemma manager_list_views_Inr:
  assumes "mm_views m = Some (sql_view_store self)" "manager_list_views m ws u w = (Inr xs, w')"
  shows "xs = map wr_payload (sort_key wr_key (filter (owned_view (trim_space ws) (trim_space u)) (db_views (db w))))"
  using assms unfolding owned_view_def [abs_def]
  by (auto simp: manager_list_views_def checked_value_Inr mailbox_owner_def available_store_def
      sql_view_store_def list_saved_views_def guard_io_Inr require_workspace_def wrapping_Inr split: if_splits dest!: query_Inr)

definition view_keys_match :: "saved_view_row list \<Rightarrow> bool" where
  "view_keys_match rs \<longleftrightarrow> (\<forall>r \<in> set rs. sv_key (wr_payload r) = wr_key r)"

lemma filter_listed:
  assumes "view_keys_match rs"
  shows "filter (\<lambda>y. P (sv_key y)) (map wr_payload (sort_key wr_key (filter (owned_view ws u) rs))) =
    map wr_payload (sort_key wr_key (filter (\<lambda>r. owned_view ws u r \<and> P (wr_key r)) rs))"
proof -
  have "filter ((\<lambda>y. P (sv_key y)) \<circ> wr_payload) (sort_key wr_key (filter (owned_view ws u) rs)) =
      filter (\<lambda>r. P (wr_key r)) (sort_key wr_key (filter (owned_view ws u) rs))"
    using assms by (intro filter_cong) (auto simp: view_keys_match_def)
  then show ?thesis by (simp add: filter_map filter_sort filter_filter conj_commute)
qed

lemma view_saved_keys: "view_keys_match rs \<Longrightarrow> view_keys_match (view_saved ws u v rs)"
  by (auto simp: view_saved_def view_keys_match_def in_update_where new_view_row_def view_at_def split: if_splits)

lemma view_saved_own:
  assumes "no_clash view_clash rs"
  shows "map wr_payload (filter (\<lambda>r. owned_view ws u r \<and> wr_key r = sv_key v) (view_saved ws u v rs)) = [v]"
proof -
  let ?P = "view_at ws u (sv_key v)"
  have P: "(\<lambda>r. owned_view ws u r \<and> wr_key r = sv_key v) = ?P" by (auto simp: owned_view_def view_at_def fun_eq_iff)
  show ?thesis
  proof (cases "list_ex ?P rs")
    case True
    have "length (filter ?P rs) \<le> 1"
      using assms by (rule no_clash_count) (simp add: view_clash_def view_at_def)
    moreover have "filter ?P rs \<noteq> []" using True by (auto simp: list_ex_iff filter_empty_conv)
    ultimately obtain r where r: "filter ?P rs = [r]" by (cases "filter ?P rs") auto
    have "filter ?P (update_where ?P f rs) = map f (filter ?P rs)" if "\<And>r. ?P (f r) = ?P r" for f
      using that by (induction rs) (auto simp: update_where_def)
    with r show ?thesis by (simp add: P view_saved_def True view_at_def)
  next
    case False
    then have "filter ?P rs = []" by (auto simp: list_ex_iff filter_empty_conv)
    with False show ?thesis by (simp add: P view_saved_def view_at_def new_view_row_def)
  qed
qed

lemma view_saved_others:
  "filter (\<lambda>r. owned_view ws u r \<and> wr_key r \<noteq> sv_key v) (view_saved ws u v rs) =
   filter (\<lambda>r. owned_view ws u r \<and> wr_key r \<noteq> sv_key v) rs"
  by (auto simp: view_saved_def view_at_def new_view_row_def intro!: filter_update_other)

text \<open>A saved view comes back. After a save succeeded the list of the same owner shows exactly the saved
  view under its key, once, as it was stored, and all his other views in the same order as
  before; another workspace cannot be written.\<close>

theorem saved_view_roundtrip:
  assumes "mm_views m = Some (sql_view_store self)" "schema_ok (db w)" "view_keys_match (db_views (db w))"
    and "manager_list_views m ws u w = (Inr old, w0)" "manager_save_view m now ws u v w = (Inr x, w1)"
    and "db w2 = db w1" "manager_list_views m ws u w2 = (Inr xs, w3)"
  shows "filter (\<lambda>y. sv_key y = sv_key x) xs = [x] \<and>
    filter (\<lambda>y. sv_key y \<noteq> sv_key x) xs = filter (\<lambda>y. sv_key y \<noteq> sv_key x) old \<and> self = trim_space ws"
proof -
  let ?ws = "trim_space ws" and ?u = "trim_space u"
  have saved: "self = ?ws" "db w1 = (db w)\<lparr>db_views := view_saved ?ws ?u x (db_views (db w))\<rparr>"
    using manager_save_view_Inr [OF assms(1,5)] by simp_all
  have xs: "xs = map wr_payload (sort_key wr_key (filter (owned_view ?ws ?u) (view_saved ?ws ?u x (db_views (db w)))))"
    using manager_list_views_Inr [OF assms(1,7)] by (simp add: assms(6) saved(2))
  have old: "old = map wr_payload (sort_key wr_key (filter (owned_view ?ws ?u) (db_views (db w))))"
    by (rule manager_list_views_Inr [OF assms(1,4)])
  note listed = filter_listed [OF view_saved_keys [OF assms(3)]] filter_listed [OF assms(3)]
  have "no_clash view_clash (db_views (db w))" using assms(2) by (simp add: schema_ok_def)
  note own = view_saved_own [OF this, of ?ws ?u x]
  have "length (filter (\<lambda>r. owned_view ?ws ?u r \<and> wr_key r = sv_key x) (view_saved ?ws ?u x (db_views (db w)))) = 1"
    using arg_cong [OF own, of length] by simp
  then obtain r where "filter (\<lambda>r. owned_view ?ws ?u r \<and> wr_key r = sv_key x) (view_saved ?ws ?u x (db_views (db w))) = [r]"
    by (auto simp: length_Suc_conv)
  with own have "map wr_payload (sort_key wr_key (filter (\<lambda>r. owned_view ?ws ?u r \<and> wr_key r = sv_key x) (view_saved ?ws ?u x (db_views (db w))))) = [x]"
    by simp
  then show ?thesis
    unfolding xs old listed(1) [where P = "\<lambda>k. k = sv_key x"] listed(1) [where P = "\<lambda>k. k \<noteq> sv_key x"]
      listed(2) [where P = "\<lambda>k. k \<noteq> sv_key x"] view_saved_others
    using saved(1) by simp
qed

definition sample_view :: saved_view where
  "sample_view = \<lparr>sv_key = ''late'', sv_name = ''Late'', sv_mailbox = MailboxUnread, sv_scope = ScopeMine, sv_member = [],
     sv_query = [], sv_categories = [], sv_sources = [], sv_severities = [], sv_action_states = [], sv_from = [], sv_to = [],
     sv_created = [], sv_updated = []\<rparr>"

lemma sample_view_valid: "validate_saved_view sample_view = Inr sample_view"
proof -
  have key: "stable_key ''late''" by code_simp
  have count: "rune_count ''Late'' \<le> 80" by code_simp
  have trims: "trim_space ''late'' = ''late''" "trim_space ''Late'' = ''Late''" "trim_space ''saved-view'' = ''saved-view''"
    "trim_space ''saved-view-report'' = ''saved-view-report''" by code_simp+
  show ?thesis
    using key count
    by (simp add: validate_saved_view_def sample_view_def trims saved_view_query_def validate_query_def trim_query_def
      scope_recipients_def query_rest_def mailboxes_def unique_users_def normalize_query_time_def normalize_time_def
      query_limit_def Let_def trim_space_plain plain_char_def)
qed

lemma saved_view_roundtrip_witness:
  "\<exists>x w1 xs. manager_save_view sample_mailboxes 0 ''ws'' ''u1'' sample_view (calm_world empty_database) = (Inr x, w1) \<and>
     fst (manager_list_views sample_mailboxes ''ws'' ''u1'' w1) = Inr xs \<and> filter (\<lambda>y. sv_key y = sv_key x) xs = [x]"
proof -
  let ?w = "calm_world empty_database" and ?x = "stamp_view 0 sample_view"
  have plain: "trim_space ''ws'' = ''ws''" "trim_space ''u1'' = ''u1''" by (simp_all add: trim_space_plain plain_char_def)
  have store: "mm_views sample_mailboxes = Some (sql_view_store ''ws'')" by (simp add: sample_mailboxes_def)
  have list: "\<exists>xs. manager_list_views sample_mailboxes ''ws'' ''u1'' w = (Inr xs, w)" if "outcomes w = []" for w
    by (simp add: manager_list_views_def checked_value_def mailbox_owner_def plain store available_store_def sql_view_store_def
        list_saved_views_def require_workspace_def statement_runs that)
  have key: "trim_space ''late'' = ''late''" "sv_key ?x = ''late''"
    by (simp_all add: stamp_view_def sample_view_def trim_space_plain plain_char_def)
  obtain x w1 where s: "manager_save_view sample_mailboxes 0 ''ws'' ''u1'' sample_view ?w = (Inr x, w1)" "outcomes w1 = []"
    by (simp add: manager_save_view_def checked_value_def mailbox_owner_def plain store available_store_def sql_view_store_def
        sample_view_valid save_saved_view_def require_workspace_def Let_def key save_view_body_def saved_view_exists_def
        statement_runs calm_world_def empty_database_def)
  obtain old xs where l: "manager_list_views sample_mailboxes ''ws'' ''u1'' ?w = (Inr old, ?w)"
    "manager_list_views sample_mailboxes ''ws'' ''u1'' w1 = (Inr xs, w1)" using list s(2) by fastforce
  have "schema_ok (db ?w)" "view_keys_match (db_views (db ?w))"
    by (simp_all add: schema_ok_def empty_database_def view_keys_match_def)
  from saved_view_roundtrip [OF store this l(1) s(1) refl l(2)] s l show ?thesis by auto
qed

end
