(* ===== verification/Inbox_Events.thy ===== *)
theory Inbox_Events
  imports Inbox_Validation Template_Render
begin

text \<open>
  \<open>ValidateEvent\<close> of internal/domain/inbox/validation/validation.go with \<open>validateAction\<close> and
  \<open>looksLikeLink\<close>: an event is trimmed, checked and normalized, each localized snapshot is
  validated as if it were the event's own, and the processing state is reset. The key check
  runs over a Go map, so with several bad keys the source may name another of them.
\<close>

section \<open>Actions\<close>

definition looks_like_link :: "string \<Rightarrow> bool" where
  "looks_like_link s = (let v = to_lower (trim_space s) in
     contains_str v ''://'' \<or> has_prefix v ''/'' \<or> has_prefix v ''www.'')"

definition trim_action :: "action_ref \<Rightarrow> action_ref" where
  "trim_action a = \<lparr>ar_key = trim_space (ar_key a), ar_kind = trim_space (ar_kind a), ar_label = trim_space (ar_label a),
     ar_resource_type = trim_space (ar_resource_type a), ar_resource_id = trim_space (ar_resource_id a),
     ar_style = trim_space (ar_style a)\<rparr>"

definition action_problem :: "action_ref \<Rightarrow> err option" where
  "action_problem a = first_error
     [bad_if (\<not> stable_key (ar_key a) \<or> ar_label a = [] \<or> looks_like_link (ar_label a) \<or>
         ar_kind a \<notin> {''route'', ''business_action''})
       (invalid ''backend.notification.inbox_action_invalid'' [''action_key'', ar_key a]),
      bad_if (\<not> stable_key (ar_resource_type a) \<or> ar_resource_id a = [] \<or> looks_like_link (ar_resource_id a))
       (invalid ''backend.notification.inbox_action_resource_invalid'' [''action_key'', ar_key a]),
      bad_if (ar_style a \<notin> {[], ''primary'', ''secondary'', ''danger''})
       (invalid ''backend.notification.inbox_action_style_invalid'' [''action_key'', ar_key a])]"

definition validate_action :: "action_ref \<Rightarrow> err + action_ref" where
  "validate_action a = (case action_problem (trim_action a) of Some e \<Rightarrow> Inl e | None \<Rightarrow> Inr (trim_action a))"

section \<open>Events\<close>

definition title_limit :: nat where "title_limit = 240"
definition body_limit :: nat where "body_limit = 4000"
definition fact_limit :: nat where "fact_limit = 20"
definition action_limit :: nat where "action_limit = 5"

definition severities :: "string list" where
  "severities = [''info'', ''warning'', ''critical'']"

definition action_states :: "string list" where
  "action_states = [ActionNone, ActionOpen, ActionCompleted, ActionExpired, ActionCancelled]"

definition trim_event :: "event \<Rightarrow> event" where
  "trim_event e = e\<lparr>ev_id := trim_space (ev_id e), ev_workspace := trim_space (ev_workspace e),
     ev_source := trim_space (ev_source e), ev_source_event := trim_space (ev_source_event e),
     ev_type := trim_space (ev_type e), ev_category := trim_space (ev_category e),
     ev_severity := trim_space (ev_severity e), ev_subject_type := trim_space (ev_subject_type e),
     ev_subject_id := trim_space (ev_subject_id e), ev_subject_version := trim_space (ev_subject_version e),
     ev_group := trim_space (ev_group e), ev_dedupe := trim_space (ev_dedupe e),
     ev_action_state := trim_space (ev_action_state e), ev_alert_state := trim_space (ev_alert_state e),
     ev_expires := trim_space (ev_expires e), ev_occurred := trim_space (ev_occurred e),
     ev_snapshot := (ev_snapshot e)\<lparr>sn_title := trim_space (sn_title (ev_snapshot e)),
       sn_body := trim_space (sn_body (ev_snapshot e))\<rparr>,
     ev_audiences := unique_strings (ev_audiences e)\<rparr>"

definition default_action_state :: "event \<Rightarrow> event" where
  "default_action_state e = (if ev_action_state e = [] then e\<lparr>ev_action_state := ActionNone\<rparr> else e)"

definition key_problem :: "event \<Rightarrow> err option" where
  "key_problem e = map_option (\<lambda>(f, v). invalid ''backend.notification.inbox_event_key_invalid'' [''field'', f, ''value'', v])
     (List.find (\<lambda>(f, v). \<not> stable_key v)
       [(''source'', ev_source e), (''event_type'', ev_type e), (''category'', ev_category e)])"

definition event_problem :: "event \<Rightarrow> err option" where
  "event_problem e = first_error
     [bad_if (8 < length (ev_audiences e) \<or> \<not> list_all stable_key (ev_audiences e))
        (invalid ''backend.notification.inbox_audience_resolvers_invalid'' []),
      bad_if (ev_id e = [] \<or> ev_workspace e = [] \<or> ev_source_event e = [])
        (invalid ''backend.notification.inbox_event_identity_required'' []),
      key_problem e,
      bad_if (ev_severity e \<notin> set severities)
        (invalid ''backend.notification.inbox_event_severity_invalid'' [''severity'', ev_severity e]),
      bad_if (ev_action_state e \<notin> set action_states)
        (invalid ''backend.notification.inbox_action_state_invalid'' [''action_state'', ev_action_state e]),
      bad_if (ev_alert_state e \<notin> {[], AlertFiring, AlertResolved} \<or> ev_alert_state e \<noteq> [] \<and> ev_group e = [])
        (invalid ''backend.notification.inbox_alert_state_invalid'' [''alert_state'', ev_alert_state e])]"

definition event_time :: "string \<Rightarrow> string \<Rightarrow> err + string" where
  "event_time name s = (case parse_rfc3339 s of
     None \<Rightarrow> Inl (invalid ''backend.notification.inbox_event_time_invalid'' [''field'', name]) | Some t \<Rightarrow> Inr (timestamp t))"

definition snapshot_problem :: "snapshot \<Rightarrow> err option" where
  "snapshot_problem s = first_error
     [bad_if (sn_title s = [] \<or> title_limit < rune_count (sn_title s)) (invalid ''backend.notification.inbox_title_invalid'' []),
      bad_if (looks_like_link (sn_title s)) (invalid ''backend.notification.inbox_title_link_forbidden'' []),
      bad_if (sn_body s = [] \<or> body_limit < rune_count (sn_body s)) (invalid ''backend.notification.inbox_body_invalid'' []),
      bad_if (fact_limit < length (sn_facts s) \<or> action_limit < length (sn_actions s))
        (invalid ''backend.notification.inbox_components_limit'' []),
      bad_if (list_ex (\<lambda>f. trim_space (fa_key f) = [] \<or> trim_space (fa_value f) = []) (sn_facts s))
        (invalid ''backend.notification.inbox_fact_invalid'' [])]"

definition validate_snapshot :: "snapshot \<Rightarrow> err + snapshot" where
  "validate_snapshot s = (case snapshot_problem s of Some e \<Rightarrow> Inl e
     | None \<Rightarrow> and_then (map_results validate_action (sn_actions s)) (\<lambda>actions. Inr (s\<lparr>sn_actions := actions\<rparr>)))"

text \<open>Everything before the localized snapshots.\<close>

definition validate_event_parts :: "event \<Rightarrow> err + event" where
  "validate_event_parts e = (let v = default_action_state (trim_event e) in
     case event_problem v of Some x \<Rightarrow> Inl x
     | None \<Rightarrow>
       and_then (event_time ''occurred_at'' (ev_occurred v)) (\<lambda>occurred.
       and_then (if ev_expires v = [] then Inr [] else event_time ''expires_at'' (ev_expires v)) (\<lambda>expires.
       and_then (validate_snapshot (ev_snapshot v)) (\<lambda>s.
         Inr (v\<lparr>ev_occurred := occurred, ev_expires := expires, ev_snapshot := s\<rparr>)))))"

text \<open>Everything after them: the recipients and the reset of the processing state.\<close>

definition close_event :: "event \<Rightarrow> err + event" where
  "close_event e = (let us = unique_users (ev_recipients e) in
     if us = [] \<and> ev_audiences e = [] \<or> 500 < length us
     then Inl (invalid ''backend.notification.inbox_recipients_invalid'' [])
     else Inr (e\<lparr>ev_recipients := us, ev_status := EventQueued, ev_attempts := 0, ev_next_attempt := [],
       ev_error_code := [], ev_owner := [], ev_lease := [], ev_token := 0\<rparr>))"

definition validate_localized :: "event \<Rightarrow> string \<times> snapshot \<Rightarrow> err + string \<times> snapshot" where
  "validate_localized e = (\<lambda>(locale, s).
     if trim_space locale = [] then Inl (invalid ''backend.notification.inbox_snapshot_locale_invalid'' [])
     else and_then (validate_event_parts (e\<lparr>ev_snapshot := s, ev_localized := []\<rparr>)) (\<lambda>c.
       and_then (close_event c) (\<lambda>c. Inr (locale, ev_snapshot c))))"

definition validate_event :: "event \<Rightarrow> err + event" where
  "validate_event e =
     and_then (validate_event_parts e) (\<lambda>v.
     and_then (map_results (validate_localized v) (ev_localized v)) (\<lambda>ls.
     close_event (v\<lparr>ev_localized := ls\<rparr>)))"

end
