(* ===== verification/Inbox_Catalog.thy ===== *)
theory Inbox_Catalog
  imports Inbox_Events
begin

text \<open>
  The event catalog: configuration.go and catalog_validation.go of internal/domain/inbox/
  validation and service/catalog_registry.go. Event types and rules are validated together; the
  catalog holds the validated types, the actions of all of them and the rules by key. A Go map
  is an association list with distinct keys, in the order in which a loop meets its entries.
\<close>

section \<open>Configuration\<close>

fun new_configuration_from :: "string list \<Rightarrow> string list \<Rightarrow> err + string list" where
  "new_configuration_from seen [] = Inr seen"
| "new_configuration_from seen (c # cs) = (let channel = trim_space c in
     if channel = [] \<or> channel = ''in_app'' \<or> channel \<in> set seen
     then Inl (ErrorText ''notification external channel is invalid or duplicated'')
     else new_configuration_from (seen @ [channel]) cs)"

definition new_configuration :: "string list \<Rightarrow> err + string list" where
  "new_configuration channels = new_configuration_from [] channels"

definition supports_external_channel :: "string list \<Rightarrow> string \<Rightarrow> bool" where
  "supports_external_channel configuration channel \<longleftrightarrow> trim_space channel \<in> set configuration"

section \<open>Variables\<close>

text \<open>\<open>strings.FieldsFunc\<close>: the pieces between separators, without the empty ones.\<close>

fun pieces :: "(char \<Rightarrow> bool) \<Rightarrow> string \<Rightarrow> string list" where
  "pieces p [] = [[]]"
| "pieces p (c # cs) = (if p c then [] # pieces p cs
     else case pieces p cs of [] \<Rightarrow> [[c]] | w # ws \<Rightarrow> (c # w) # ws)"

definition key_parts :: "string \<Rightarrow> string list" where
  "key_parts s = filter (\<lambda>w. w \<noteq> []) (pieces (\<lambda>c. c = CHR ''.'' \<or> c = CHR ''_'' \<or> c = CHR ''-'' \<or> token_space c) s)"

definition sensitive_words :: "string list" where
  "sensitive_words = [''secret'', ''password'', ''authorization'', ''cookie'', ''token'', ''payload'', ''stack'',
     ''stacktrace'', ''exception'', ''dsn'', ''request_body'', ''response_body'', ''raw_request'', ''raw_response'',
     ''error_message'', ''error_detail'']"

definition sensitive_variable_key :: "string \<Rightarrow> bool" where
  "sensitive_variable_key key = (let joined = join_with ''_'' (key_parts (to_lower (trim_space key))) in
     list_ex (\<lambda>w. joined = w \<or> contains_str joined (''_'' @ w @ ''_'') \<or> has_prefix joined (w @ ''_'') \<or>
       has_suffix joined (''_'' @ w)) sensitive_words)"

definition inbox_variable_types :: "string list" where
  "inbox_variable_types = [''boolean'', ''date'', ''datetime'', ''email'', ''number'', ''string'', ''text'']"

definition trim_variable :: "template_variable \<Rightarrow> template_variable" where
  "trim_variable v = v\<lparr>tv_key := trim_space (tv_key v), tv_type := trim_space (tv_type v)\<rparr>"

fun validate_type_variables ::
  "string \<Rightarrow> string list \<Rightarrow> template_variable list \<Rightarrow> err + template_variable list" where
  "validate_type_variables key seen [] = Inr []"
| "validate_type_variables key seen (x # xs) = (let v = trim_variable x in
     if \<not> stable_key (tv_key v) \<or> tv_key v \<in> set seen
     then Inl (invalid ''backend.notification.event_type_variable_invalid'' [''event_type'', key, ''variable'', tv_key v])
     else if tv_type v \<notin> set inbox_variable_types \<or> sensitive_variable_key (tv_key v)
     then Inl (invalid ''backend.notification.event_type_variable_unsafe'' [''event_type'', key, ''variable'', tv_key v])
     else and_then (validate_type_variables key (tv_key v # seen) xs) (\<lambda>vs. Inr (v # vs)))"

section \<open>Event types\<close>

definition trim_event_type :: "event_type \<Rightarrow> event_type" where
  "trim_event_type t = t\<lparr>et_key := trim_space (et_key t), et_source := trim_space (et_source t),
     et_category := trim_space (et_category t), et_severity := trim_space (et_severity t),
     et_template := trim_space (et_template t), et_status := trim_space (et_status t),
     et_default_locale := trim_space (et_default_locale t)\<rparr>"

definition type_problem :: "event_type \<Rightarrow> err option" where
  "type_problem t = first_error
     [bad_if (\<not> stable_key (et_key t) \<or> \<not> stable_key (et_source t) \<or> \<not> stable_key (et_category t) \<or>
         \<not> stable_key (et_template t) \<or> et_default_locale t = [] \<or> et_locales t = [] \<or> et_version t < 1 \<or>
         et_status t \<noteq> ''published'')
        (invalid ''backend.notification.event_type_invalid'' [''event_type'', et_key t]),
      bad_if (map_of (et_locales t) (et_default_locale t) = None)
        (invalid ''backend.notification.event_type_locale_invalid'' [''event_type'', et_key t]),
      bad_if (et_severity t \<notin> set severities)
        (invalid ''backend.notification.event_type_severity_invalid'' [''event_type'', et_key t])]"

definition trim_descriptor :: "action_descriptor \<Rightarrow> action_descriptor" where
  "trim_descriptor d = \<lparr>ad_key = trim_space (ad_key d), ad_kind = trim_space (ad_kind d),
     ad_resource_type = trim_space (ad_resource_type d), ad_route = trim_space (ad_route d)\<rparr>"

definition action_label :: "inbox_content \<Rightarrow> string \<Rightarrow> string" where
  "action_label c key = (case map_of (ic_labels c) key of None \<Rightarrow> [] | Some l \<Rightarrow> l)"

definition validate_descriptor :: "event_type \<Rightarrow> action_descriptor \<Rightarrow> err + action_descriptor" where
  "validate_descriptor t x = (let d = trim_descriptor x in
     if \<not> stable_key (ad_key d) \<or> ad_kind d \<notin> {''route'', ''business_action''} \<or> \<not> stable_key (ad_resource_type d) \<or>
       \<not> stable_key (ad_route d)
     then Inl (invalid ''backend.notification.event_type_action_invalid'' [''event_type'', et_key t])
     else case List.find (\<lambda>(l, c). trim_space (action_label c (ad_key d)) = []) (et_locales t) of
       Some (l, c) \<Rightarrow> Inl (invalid ''backend.notification.event_type_action_label_missing''
         [''event_type'', et_key t, ''locale'', l, ''action_key'', ad_key d])
     | None \<Rightarrow> Inr d)"

definition content_fragments :: "inbox_content \<Rightarrow> string list" where
  "content_fragments c = concat (map (\<lambda>f. [fa_key f, fa_value f]) (ic_facts c)) @ map snd (ic_labels c)"

definition content_texts :: "inbox_content \<Rightarrow> string list" where
  "content_texts c = [ic_title c, ic_body c] @ content_fragments c"

definition content_problem :: "event_type \<Rightarrow> string list \<Rightarrow> string \<times> inbox_content \<Rightarrow> err option" where
  "content_problem t keys = (\<lambda>(l, c). first_error
     [bad_if (trim_space l = [] \<or> trim_space (ic_title c) = [] \<or> trim_space (ic_body c) = [])
        (invalid ''backend.notification.event_type_content_invalid'' [''event_type'', et_key t]),
      bad_if (list_ex (\<lambda>s. list_ex (\<lambda>n. n \<notin> set keys) (token_names s)) (content_texts c))
        (invalid ''backend.notification.event_type_variable_unknown'' [''event_type'', et_key t, ''locale'', l])])"

definition validate_event_type :: "event_type \<Rightarrow> err + event_type" where
  "validate_event_type x = (let t = trim_event_type x in
     case type_problem t of Some e \<Rightarrow> Inl e
     | None \<Rightarrow> and_then (validate_type_variables (et_key t) [] (et_variables t)) (\<lambda>vs.
       and_then (map_results (validate_descriptor t) (et_actions t)) (\<lambda>ds.
         case first_error (map (content_problem t (map tv_key vs)) (et_locales t)) of Some e \<Rightarrow> Inl e
         | None \<Rightarrow> Inr (t\<lparr>et_variables := vs, et_actions := ds\<rparr>))))"

section \<open>Rules\<close>

definition delivery_mode :: "rule_channel \<Rightarrow> string" where
  "delivery_mode c = (if trim_space (ch_mode c) = [] then ''immediate'' else trim_space (ch_mode c))"

definition channel_identity :: "rule_channel \<Rightarrow> string" where
  "channel_identity c = trim_space (ch_channel c) @ '':'' @ show_int (ch_escalation c)"

definition in_app_problem :: "rule_channel \<Rightarrow> bool" where
  "in_app_problem c \<longleftrightarrow> trim_space (ch_template c) \<noteq> [] \<or> trim_space (ch_connector c) \<noteq> [] \<or>
     trim_space (ch_operation c) \<noteq> [] \<or> ch_delay c \<noteq> 0 \<or> ch_escalation c \<noteq> 0 \<or> delivery_mode c \<noteq> ''immediate'' \<or>
     ch_digest_window c \<noteq> 0"

definition channel_problem :: "string list \<Rightarrow> string \<Rightarrow> string list \<Rightarrow> rule_channel \<Rightarrow> err option" where
  "channel_problem configuration key seen c = (let channel = trim_space (ch_channel c); info = [''event_type'', key, ''channel'', channel] in
     first_error
      ([bad_if (channel_identity c \<in> set seen \<or> ch_delay c < 0 \<or> ch_escalation c < 0 \<or> ch_digest_window c < 0 \<or> ch_digest_maximum c < 0)
          (invalid ''backend.notification.rule_channel_duplicate'' info),
        bad_if (delivery_mode c \<notin> {''immediate'', ''digest''})
          (invalid ''backend.notification.rule_channel_delivery_mode_invalid'' info),
        bad_if (delivery_mode c = ''digest'' \<and> (ch_digest_window c \<le> 0 \<or> ch_delay c \<noteq> 0 \<or> ch_escalation c \<noteq> 0))
          (invalid ''backend.notification.rule_channel_digest_invalid'' info)] @
       (if channel = ''in_app''
        then [bad_if (in_app_problem c) (invalid ''backend.notification.rule_in_app_channel_invalid'' [''event_type'', key])]
        else [bad_if (\<not> supports_external_channel configuration channel)
                (invalid ''backend.notification.rule_channel_unsupported'' info),
              bad_if (\<not> stable_key (trim_space (ch_template c)) \<or> trim_space (ch_connector c) = [] \<or> trim_space (ch_operation c) = [])
                (invalid ''backend.notification.rule_external_channel_invalid'' info)])))"

fun channels_problem :: "string list \<Rightarrow> string \<Rightarrow> string list \<Rightarrow> rule_channel list \<Rightarrow> err option" where
  "channels_problem configuration key seen [] = None"
| "channels_problem configuration key seen (c # cs) = (case channel_problem configuration key seen c of
     Some e \<Rightarrow> Some e | None \<Rightarrow> channels_problem configuration key (channel_identity c # seen) cs)"

definition rule_problem :: "string list \<Rightarrow> string list \<Rightarrow> int \<Rightarrow> rule \<Rightarrow> err option" where
  "rule_problem configuration keys i r = (let key = trim_space (ru_event_type r) in first_error
     [bad_if (key = [] \<or> key \<notin> set keys \<or> ru_dedupe_window r < 0 \<or> ru_aggregation_window r < 0 \<or>
         ru_reminder_interval r < 0 \<or> ru_maximum_reminders r < 0)
        (invalid ''backend.notification.rule_invalid'' [''rule_index'', show_int i]),
      bad_if (ru_recovery r \<noteq> [] \<and> trim_space (ru_recovery r) \<notin> set keys)
        (invalid ''backend.notification.rule_recovery_event_invalid'' [''event_type'', key]),
      channels_problem configuration key [] (ru_channels r)])"

section \<open>The catalog\<close>

fun validate_types :: "int \<Rightarrow> string list \<Rightarrow> event_type list \<Rightarrow> err + string list" where
  "validate_types i seen [] = Inr seen"
| "validate_types i seen (t # ts) = (case validate_event_type t of
     Inl e \<Rightarrow> Inl (Wrapped (''notification_event_types['' @ show_int i @ '']'') e)
   | Inr v \<Rightarrow> if et_key v \<in> set seen
       then Inl (invalid ''backend.notification.event_type_duplicate'' [''event_type'', et_key v])
       else validate_types (i + 1) (et_key v # seen) ts)"

fun validate_rules :: "string list \<Rightarrow> string list \<Rightarrow> int \<Rightarrow> rule list \<Rightarrow> err option" where
  "validate_rules configuration keys i [] = None"
| "validate_rules configuration keys i (r # rs) = (case rule_problem configuration keys i r of
     Some e \<Rightarrow> Some e | None \<Rightarrow> validate_rules configuration keys (i + 1) rs)"

definition validate_catalog :: "string list \<Rightarrow> event_type list \<Rightarrow> rule list \<Rightarrow> err option" where
  "validate_catalog configuration ts rs = (case validate_types 0 [] ts of Inl e \<Rightarrow> Some e
     | Inr keys \<Rightarrow> validate_rules configuration keys 0 rs)"

record catalog =
  ct_types :: "(string \<times> event_type) list"
  ct_descriptors :: "(string \<times> action_descriptor) list"
  ct_rules :: "(string \<times> rule) list"

definition put_entry :: "string \<Rightarrow> 'a \<Rightarrow> (string \<times> 'a) list \<Rightarrow> (string \<times> 'a) list" where
  "put_entry k v xs = filter (\<lambda>(k', _). k' \<noteq> k) xs @ [(k, v)]"

fun add_descriptors :: "action_descriptor list \<Rightarrow> (string \<times> action_descriptor) list \<Rightarrow> err + (string \<times> action_descriptor) list" where
  "add_descriptors [] m = Inr m"
| "add_descriptors (d # ds) m = (case map_of m (ad_key d) of
     Some c \<Rightarrow> if ad_kind c \<noteq> ad_kind d \<or> ad_resource_type c \<noteq> ad_resource_type d
       then Inl (invalid ''backend.notification.inbox_action_contract_conflict'' [''action_key'', ad_key d])
       else add_descriptors ds (put_entry (ad_key d) d m)
   | None \<Rightarrow> add_descriptors ds (put_entry (ad_key d) d m))"

fun add_types :: "event_type list \<Rightarrow> catalog \<Rightarrow> err + catalog" where
  "add_types [] c = Inr c"
| "add_types (t # ts) c = and_then (validate_event_type t) (\<lambda>v.
     and_then (add_descriptors (et_actions v) (ct_descriptors c)) (\<lambda>m.
     add_types ts (c\<lparr>ct_types := put_entry (et_key v) v (ct_types c), ct_descriptors := m\<rparr>)))"

definition new_catalog :: "string list \<Rightarrow> event_type list \<Rightarrow> rule list \<Rightarrow> err + catalog" where
  "new_catalog configuration ts rs = (case validate_catalog configuration ts rs of Some e \<Rightarrow> Inl e
     | None \<Rightarrow> and_then (add_types ts \<lparr>ct_types = [], ct_descriptors = [], ct_rules = []\<rparr>) (\<lambda>c.
         Inr (c\<lparr>ct_rules := fold (\<lambda>r. put_entry (trim_space (ru_event_type r)) r) rs []\<rparr>)))"

definition catalog_event_type :: "catalog \<Rightarrow> string \<Rightarrow> event_type option" where
  "catalog_event_type c key = map_of (ct_types c) (trim_space key)"

definition catalog_action :: "catalog \<Rightarrow> string \<Rightarrow> action_descriptor option" where
  "catalog_action c key = map_of (ct_descriptors c) (trim_space key)"

definition catalog_rule :: "catalog \<Rightarrow> string \<Rightarrow> rule option" where
  "catalog_rule c key = map_of (ct_rules c) (trim_space key)"

definition governance :: "catalog \<Rightarrow> event_type list \<times> rule list" where
  "governance c = (sort_key et_key (map snd (ct_types c)), sort_key ru_event_type (map snd (ct_rules c)))"

end
