(* ===== verification/Inbox_Compiler.thy ===== *)
theory Inbox_Compiler
  imports Inbox_Catalog Mailbox_Manager
begin

text \<open>
  The compiler of intents, internal/domain/inbox/service/compiler.go: a published event type, the
  variables of the intent and the rule of the type give a complete event with a snapshot in every
  locale and the plans of the external channels. \<open>ps\<close> holds the parsers of the standard
  library the variable checks use, \<open>now\<close> is what the clock says.
\<close>

section \<open>Snapshots\<close>

definition type_content :: "event_type \<Rightarrow> string \<Rightarrow> (string \<times> inbox_content) option" where
  "type_content t requested =
     (case List.find (\<lambda>(l, c). equal_fold (normalize_locale l) (normalize_locale requested)) (et_locales t) of
        Some x \<Rightarrow> Some x
      | None \<Rightarrow> List.find (\<lambda>(l, c). equal_fold (normalize_locale l) (normalize_locale (et_default_locale t))) (et_locales t))"

definition json_action_ref :: "action_ref \<Rightarrow> string" where
  "json_action_ref a = json_object [field ''key'' (json_string (ar_key a)), field ''kind'' (json_string (ar_kind a)),
     field ''label'' (json_string (ar_label a)), field ''resource_type'' (json_string (ar_resource_type a)),
     field ''resource_id'' (json_string (ar_resource_id a)), text_field ''style'' (ar_style a)]"

definition json_snapshot :: "snapshot \<Rightarrow> string" where
  "json_snapshot s = json_object [field ''title'' (json_string (sn_title s)), field ''body'' (json_string (sn_body s)),
     list_field ''facts'' json_fact (sn_facts s), list_field ''actions'' json_action_ref (sn_actions s),
     text_field ''template_key'' (sn_template s),
     (if sn_version s = 0 then None else field ''template_version'' (show_int (sn_version s))),
     text_field ''template_locale'' (sn_locale s), text_field ''template_content_hash'' (sn_hash s)]"

definition snapshot_hash :: "snapshot \<Rightarrow> string" where
  "snapshot_hash s = value_hash (json_snapshot s)"

definition render_failed :: "string list \<Rightarrow> err" where
  "render_failed info = invalid ''backend.notification.inbox_template_render_failed'' info"

definition render_text :: "variables \<Rightarrow> string list \<Rightarrow> string \<Rightarrow> err + string" where
  "render_text vals info source = (case render_restricted source vals False of
     Inl e \<Rightarrow> Inl (render_failed info) | Inr s \<Rightarrow> Inr s)"

definition compile_fact :: "variables \<Rightarrow> fact \<Rightarrow> err + fact" where
  "compile_fact vals f = and_then (render_text vals [''field'', ''facts''] (fa_key f)) (\<lambda>k.
     and_then (render_text vals [''field'', ''facts''] (fa_value f)) (\<lambda>v. Inr \<lparr>fa_key = k, fa_value = v\<rparr>))"

definition compile_action ::
  "variables \<Rightarrow> inbox_content \<Rightarrow> string \<Rightarrow> action_descriptor \<Rightarrow> err + action_ref" where
  "compile_action vals c subject d = (let info = [''field'', ''action_label'', ''action_key'', ad_key d] in
     and_then (render_text vals info (action_label c (ad_key d))) (\<lambda>label.
     if trim_space label = [] then Inl (render_failed info)
     else Inr \<lparr>ar_key = ad_key d, ar_kind = ad_kind d, ar_label = label, ar_resource_type = ad_resource_type d,
       ar_resource_id = trim_space subject, ar_style = ''primary''\<rparr>))"

definition compile_snapshot ::
  "event_type \<Rightarrow> variables \<Rightarrow> string \<Rightarrow> string \<times> inbox_content \<Rightarrow> err + string \<times> snapshot" where
  "compile_snapshot t vals subject = (\<lambda>(locale, c).
     and_then (render_text vals [''field'', ''title''] (ic_title c)) (\<lambda>heading.
     and_then (render_text vals [''field'', ''body''] (ic_body c)) (\<lambda>body.
     and_then (map_results (compile_fact vals) (ic_facts c)) (\<lambda>facts.
     and_then (map_results (compile_action vals c subject) (et_actions t)) (\<lambda>actions.
     let s = \<lparr>sn_title = heading, sn_body = body, sn_facts = filter (\<lambda>f. trim_space (fa_value f) \<noteq> []) facts,
       sn_actions = actions, sn_template = et_template t, sn_version = et_version t, sn_locale = locale, sn_hash = []\<rparr>
     in Inr (locale, s\<lparr>sn_hash := snapshot_hash s\<rparr>))))))"

section \<open>Plans\<close>

definition first_attempt_at :: "string \<Rightarrow> int \<Rightarrow> int \<Rightarrow> string" where
  "first_attempt_at occurred delay digest_window = (case parse_rfc3339 (trim_space occurred) of None \<Rightarrow> []
     | Some t \<Rightarrow> let d = (if 0 < digest_window then digest_window else delay) in
         if d \<le> 0 then [] else timestamp (t + seconds d))"

definition digest_key :: "intent \<Rightarrow> rule_channel \<Rightarrow> string" where
  "digest_key i c = (if trim_space (ch_mode c) \<noteq> ''digest'' then []
     else stable_id [in_workspace i, in_event_type i, ch_channel c, ch_template c, ch_connection c,
       join_with '','' (in_recipients i), trim_space (in_locale i)])"

definition compile_plan :: "intent \<Rightarrow> snapshot \<Rightarrow> rule_channel \<Rightarrow> plan" where
  "compile_plan i s c = \<lparr>pl_id = [], pl_workspace = [], pl_event = [], pl_channel = trim_space (ch_channel c),
     pl_template = trim_space (ch_template c), pl_connector = trim_space (ch_connector c),
     pl_connection = trim_space (ch_connection c), pl_operation = trim_space (ch_operation c),
     pl_recipients = in_recipients i, pl_locale = trim_space (in_locale i), pl_variables = in_variables i,
     pl_dedupe = trim_space (in_dedupe i), pl_mandatory = ch_mandatory c, pl_mode = delivery_mode c,
     pl_digest_key = digest_key i c, pl_digest_maximum = ch_digest_maximum c, pl_digest_title = sn_title s,
     pl_digest_body = sn_body s, pl_escalation = ch_escalation c, pl_cancel_terminal = ch_cancel_terminal c,
     pl_status = [], pl_attempts = 0,
     pl_next_attempt = first_attempt_at (in_occurred i) (ch_delay c) (ch_digest_window c),
     pl_error_code = [], pl_outbox = [], pl_owner = [], pl_lease = [], pl_token = 0, pl_created = [], pl_updated = []\<rparr>"

definition compile_plans :: "catalog \<Rightarrow> string \<Rightarrow> intent \<Rightarrow> snapshot \<Rightarrow> plan list" where
  "compile_plans c key i s = (case catalog_rule c key of None \<Rightarrow> []
     | Some r \<Rightarrow> if \<not> ru_enabled r then []
         else map (compile_plan i s) (filter (\<lambda>x. trim_space (ch_channel x) \<noteq> ''in_app'') (ru_channels r)))"

section \<open>The event\<close>

definition validate_audiences :: "catalog \<Rightarrow> event_type \<Rightarrow> string list \<Rightarrow> err + string list" where
  "validate_audiences c t requested0 = (let requested = unique_strings requested0;
       allowed = map trim_space (et_audiences t @ (case catalog_rule c (et_key t) of None \<Rightarrow> [] | Some r \<Rightarrow> ru_audiences r)) in
     case List.find (\<lambda>k. k \<notin> set allowed) requested of
       Some k \<Rightarrow> Inl (invalid ''backend.notification.inbox_audience_resolver_not_allowed'' [''resolver_key'', k])
     | None \<Rightarrow> Inr requested)"

definition action_published :: "catalog \<Rightarrow> action_ref \<Rightarrow> bool" where
  "action_published c a \<longleftrightarrow> (case catalog_action c (ar_key a) of None \<Rightarrow> False
     | Some d \<Rightarrow> ad_kind d = ar_kind a \<and> ad_resource_type d = ar_resource_type a \<and> trim_space (ad_route d) \<noteq> [])"

definition contract_problem :: "catalog \<Rightarrow> event \<Rightarrow> err option" where
  "contract_problem c e =
     (if (case catalog_event_type c (ev_type e) of None \<Rightarrow> True
          | Some t \<Rightarrow> et_source t \<noteq> ev_source e \<or> et_category t \<noteq> ev_category e)
      then Some (invalid ''backend.notification.event_type_contract_mismatch'' [''event_type'', ev_type e])
      else map_option (\<lambda>a. invalid ''backend.notification.inbox_action_contract_invalid'' [''action_key'', ar_key a])
        (List.find (\<lambda>a. \<not> action_published c a) (concat (map sn_actions (ev_snapshot e # map snd (ev_localized e))))))"

definition no_snapshot :: snapshot where
  "no_snapshot = \<lparr>sn_title = [], sn_body = [], sn_facts = [], sn_actions = [], sn_template = [], sn_version = 0,
     sn_locale = [], sn_hash = []\<rparr>"

text \<open>The event before its validation; the snapshot of a locale is looked up in the compiled map.\<close>

definition drafted_event :: "catalog \<Rightarrow> event_type \<Rightarrow> string list \<Rightarrow> string \<Rightarrow> (string \<times> snapshot) list \<Rightarrow> intent \<Rightarrow> event" where
  "drafted_event c t audiences locale localized i =
    (let s = (case map_of localized locale of None \<Rightarrow> no_snapshot | Some s \<Rightarrow> s) in
     \<lparr>ev_id = trim_space (in_id i), ev_workspace = trim_space (in_workspace i), ev_source = et_source t,
      ev_source_event = trim_space (in_source_event i), ev_type = et_key t, ev_category = et_category t,
      ev_severity = (if trim_space (in_severity i) = [] then et_severity t else trim_space (in_severity i)),
      ev_recipients = in_recipients i, ev_audiences = audiences, ev_subject_type = trim_space (in_subject_type i),
      ev_subject_id = trim_space (in_subject_id i), ev_subject_version = trim_space (in_subject_version i),
      ev_group = trim_space (in_group i), ev_dedupe = trim_space (in_dedupe i),
      ev_action_state = (if in_action_state i \<noteq> [] then trim_space (in_action_state i)
        else if sn_actions s \<noteq> [] then ActionOpen else ActionNone),
      ev_alert_state = trim_space (in_alert_state i), ev_expires = trim_space (in_expires i),
      ev_occurred = trim_space (in_occurred i), ev_correlation = trim_space (in_correlation i),
      ev_trace = trim_space (in_trace i), ev_snapshot = s, ev_localized = localized,
      ev_plans = compile_plans c (et_key t) i s, ev_status = [], ev_attempts = 0, ev_next_attempt = [],
      ev_error_code = [], ev_owner = [], ev_lease = [], ev_token = 0, ev_created = [], ev_updated = []\<rparr>)"

definition stamp_plan :: "string \<Rightarrow> event \<Rightarrow> plan \<Rightarrow> plan" where
  "stamp_plan now e p = p\<lparr>pl_id := stable_id [ev_workspace e, ev_id e, pl_channel p, pl_connector p, pl_operation p,
       show_int (pl_escalation p)], pl_workspace := ev_workspace e, pl_event := ev_id e, pl_status := ''queued'',
     pl_created := now, pl_updated := now\<rparr>"

definition stamp_event :: "string \<Rightarrow> event \<Rightarrow> event" where
  "stamp_event now e = e\<lparr>ev_created := now, ev_updated := now, ev_plans := map (stamp_plan now e) (ev_plans e)\<rparr>"

definition render_scope :: "event_type \<Rightarrow> template" where
  "render_scope t = \<lparr>te_key = et_template t, te_name = [], te_channel = [], te_provider = [], te_status = [], te_version = 0,
     te_default_locale = [], te_variables = et_variables t, te_fallbacks = [], te_locales = [], te_hash = []\<rparr>"

definition compile :: "catalog \<Rightarrow> text_parsers \<Rightarrow> instant \<Rightarrow> intent \<Rightarrow> err + event" where
  "compile c ps now i = (case catalog_event_type c (trim_space (in_event_type i)) of
     None \<Rightarrow> Inl (invalid ''backend.notification.event_type_not_published'' [''event_type'', in_event_type i])
   | Some t \<Rightarrow>
       and_then (validate_audiences c t (in_audiences i)) (\<lambda>audiences.
       and_then (validate_render_variables ps (render_scope t) (in_variables i)) (\<lambda>vals.
       case type_content t (in_locale i) of
         None \<Rightarrow> Inl (invalid ''backend.notification.event_type_locale_unavailable'' [''event_type'', in_event_type i])
       | Some (locale, _) \<Rightarrow>
         if locale = [] then Inl (invalid ''backend.notification.event_type_locale_unavailable'' [''event_type'', in_event_type i])
         else and_then (map_results (compile_snapshot t vals (in_subject_id i)) (et_locales t)) (\<lambda>localized.
           and_then (validate_event (drafted_event c t audiences locale localized i)) (\<lambda>e.
           case contract_problem c e of Some x \<Rightarrow> Inl x | None \<Rightarrow> Inr (stamp_event (timestamp now) e))))))"

end
