(* ===== verification/Event_Rules.thy ===== *)
theory Event_Rules
  imports Inbox_Events Samples
begin

text \<open>
  What \<open>ValidateEvent\<close> establishes: \<open>event_ok\<close> is the rule book of a durable event as a predicate
  of its own; a validated event satisfies it, and an event that satisfies it passes unchanged.
\<close>

section \<open>The rule book\<close>

definition action_ok :: "action_ref \<Rightarrow> bool" where
  "action_ok a \<longleftrightarrow> trim_action a = a \<and> stable_key (ar_key a) \<and> ar_kind a \<in> {''route'', ''business_action''} \<and>
     ar_label a \<noteq> [] \<and> \<not> looks_like_link (ar_label a) \<and> stable_key (ar_resource_type a) \<and>
     ar_resource_id a \<noteq> [] \<and> \<not> looks_like_link (ar_resource_id a) \<and>
     ar_style a \<in> {[], ''primary'', ''secondary'', ''danger''}"

definition snapshot_ok :: "snapshot \<Rightarrow> bool" where
  "snapshot_ok s \<longleftrightarrow> trim_space (sn_title s) = sn_title s \<and> trim_space (sn_body s) = sn_body s \<and>
     sn_title s \<noteq> [] \<and> rune_count (sn_title s) \<le> 240 \<and> \<not> looks_like_link (sn_title s) \<and>
     sn_body s \<noteq> [] \<and> rune_count (sn_body s) \<le> 4000 \<and> length (sn_facts s) \<le> 20 \<and> length (sn_actions s) \<le> 5 \<and>
     (\<forall>f \<in> set (sn_facts s). trim_space (fa_key f) \<noteq> [] \<and> trim_space (fa_value f) \<noteq> []) \<and>
     (\<forall>a \<in> set (sn_actions s). action_ok a)"

definition canonical_time :: "string \<Rightarrow> bool" where
  "canonical_time s \<longleftrightarrow> (case parse_rfc3339 s of None \<Rightarrow> False | Some t \<Rightarrow> in_range t \<and> s = timestamp t)"

definition header_ok :: "event \<Rightarrow> bool" where
  "header_ok e \<longleftrightarrow> trim_event e = e \<and> length (ev_audiences e) \<le> 8 \<and> (\<forall>k \<in> set (ev_audiences e). stable_key k) \<and>
     ev_id e \<noteq> [] \<and> ev_workspace e \<noteq> [] \<and> ev_source_event e \<noteq> [] \<and>
     stable_key (ev_source e) \<and> stable_key (ev_type e) \<and> stable_key (ev_category e) \<and>
     ev_severity e \<in> set severities \<and> ev_action_state e \<in> set action_states \<and>
     ev_alert_state e \<in> {[], AlertFiring, AlertResolved} \<and> (ev_alert_state e \<noteq> [] \<longrightarrow> ev_group e \<noteq> []) \<and>
     canonical_time (ev_occurred e) \<and> (ev_expires e \<noteq> [] \<longrightarrow> canonical_time (ev_expires e)) \<and>
     snapshot_ok (ev_snapshot e)"

definition addressed :: "event \<Rightarrow> bool" where
  "addressed e \<longleftrightarrow> unique_users (ev_recipients e) = ev_recipients e \<and> length (ev_recipients e) \<le> 500 \<and>
     (ev_recipients e \<noteq> [] \<or> ev_audiences e \<noteq> [])"

definition unprocessed :: "event \<Rightarrow> bool" where
  "unprocessed e \<longleftrightarrow> ev_status e = EventQueued \<and> ev_attempts e = 0 \<and> ev_next_attempt e = [] \<and> ev_error_code e = [] \<and>
     ev_owner e = [] \<and> ev_lease e = [] \<and> ev_token e = 0"

definition event_ok :: "event \<Rightarrow> bool" where
  "event_ok e \<longleftrightarrow> header_ok e \<and> (\<forall>(l, s) \<in> set (ev_localized e). trim_space l \<noteq> [] \<and> snapshot_ok s) \<and>
     addressed e \<and> unprocessed e"

text \<open>The times of the intent denote instants the timestamp format can hold.\<close>

definition timely :: "string \<Rightarrow> bool" where
  "timely s \<longleftrightarrow> (case parse_rfc3339 (trim_space s) of None \<Rightarrow> True | Some t \<Rightarrow> in_range t)"

section \<open>Actions and snapshots\<close>

lemma map_results_Inr:
  "map_results f xs = Inr ys \<Longrightarrow> length ys = length xs \<and> (\<forall>y \<in> set ys. \<exists>x \<in> set xs. f x = Inr y)"
proof (induction xs arbitrary: ys)
  case (Cons x xs)
  then obtain y zs where "f x = Inr y" "map_results f xs = Inr zs" "ys = y # zs" by (auto simp: and_then_Inr)
  with Cons.IH [of zs] show ?case by auto
qed simp

text \<open>A list of checks finds nothing exactly when none of them does.\<close>

lemma first_error_Cons: "first_error (x # xs) = None \<longleftrightarrow> x = None \<and> first_error xs = None" "first_error [] = None"
  by (simp_all split: option.splits)

lemma map_results_same: "(\<And>x. x \<in> set xs \<Longrightarrow> f x = Inr x) \<Longrightarrow> map_results f xs = Inr xs"
  by (induction xs) (auto simp: and_then_def)

lemma trim_action_idem: "trim_action (trim_action a) = trim_action a"
  by (simp add: trim_action_def)

lemma action_problem_ok: "trim_action a = a \<Longrightarrow> action_problem a = None \<longleftrightarrow> action_ok a"
  by (auto simp: action_problem_def action_ok_def first_error_Cons simp del: first_error.simps(2))

lemma validate_action_ok: "validate_action a = Inr b \<Longrightarrow> action_ok b"
  using action_problem_ok [OF trim_action_idem] by (auto simp: validate_action_def split: option.splits)

lemma action_ok_valid: "action_ok a \<Longrightarrow> validate_action a = Inr a"
  using action_problem_ok [of a] by (simp add: validate_action_def action_ok_def)

lemma validate_snapshot_ok:
  assumes "validate_snapshot s = Inr s'" "trim_space (sn_title s) = sn_title s" "trim_space (sn_body s) = sn_body s"
  shows "snapshot_ok s'"
proof -
  obtain acts where a: "map_results validate_action (sn_actions s) = Inr acts" "s' = s\<lparr>sn_actions := acts\<rparr>"
    and p: "snapshot_problem s = None"
    using assms(1) by (auto simp: validate_snapshot_def and_then_Inr split: option.splits)
  from map_results_Inr [OF a(1)] have "length acts = length (sn_actions s)" "\<forall>b \<in> set acts. action_ok b"
    by (auto dest: validate_action_ok)
  with p a(2) assms(2,3) show ?thesis
    by (auto simp: snapshot_ok_def snapshot_problem_def first_error_Cons title_limit_def body_limit_def fact_limit_def
        action_limit_def list_ex_iff simp del: first_error.simps(2))
qed

lemma snapshot_ok_valid:
  assumes "snapshot_ok s" shows "validate_snapshot s = Inr s"
proof -
  have "snapshot_problem s = None"
    using assms by (auto simp: snapshot_ok_def snapshot_problem_def first_error_Cons title_limit_def body_limit_def
        fact_limit_def action_limit_def list_ex_iff simp del: first_error.simps(2))
  moreover have "map_results validate_action (sn_actions s) = Inr (sn_actions s)"
    using assms by (intro map_results_same action_ok_valid) (simp add: snapshot_ok_def)
  ultimately show ?thesis by (simp add: validate_snapshot_def and_then_def)
qed

section \<open>Events\<close>

lemma unique_strings_idem: "unique_strings (unique_strings vs) = unique_strings vs"
  using unique_users_idem by (simp add: unique_strings_def unique_users_def)

lemma trim_event_idem: "trim_event (trim_event e) = trim_event e"
  by (simp add: trim_event_def unique_strings_idem)

lemma trim_event_eq:
  "trim_event e = e \<longleftrightarrow> trim_space (ev_id e) = ev_id e \<and> trim_space (ev_workspace e) = ev_workspace e \<and>
     trim_space (ev_source e) = ev_source e \<and> trim_space (ev_source_event e) = ev_source_event e \<and>
     trim_space (ev_type e) = ev_type e \<and> trim_space (ev_category e) = ev_category e \<and>
     trim_space (ev_severity e) = ev_severity e \<and> trim_space (ev_subject_type e) = ev_subject_type e \<and>
     trim_space (ev_subject_id e) = ev_subject_id e \<and> trim_space (ev_subject_version e) = ev_subject_version e \<and>
     trim_space (ev_group e) = ev_group e \<and> trim_space (ev_dedupe e) = ev_dedupe e \<and>
     trim_space (ev_action_state e) = ev_action_state e \<and> trim_space (ev_alert_state e) = ev_alert_state e \<and>
     trim_space (ev_expires e) = ev_expires e \<and> trim_space (ev_occurred e) = ev_occurred e \<and>
     trim_space (sn_title (ev_snapshot e)) = sn_title (ev_snapshot e) \<and>
     trim_space (sn_body (ev_snapshot e)) = sn_body (ev_snapshot e) \<and> unique_strings (ev_audiences e) = ev_audiences e"
  by (cases e; cases "ev_snapshot e") (auto simp: trim_event_def)

lemma trim_event_keep:
  assumes "trim_event e = e" "trim_space occ = occ" "trim_space stop = stop" "trim_space (sn_title s) = sn_title s"
    "trim_space (sn_body s) = sn_body s"
  shows "trim_event (e\<lparr>ev_occurred := occ, ev_expires := stop, ev_snapshot := s\<rparr>) =
    e\<lparr>ev_occurred := occ, ev_expires := stop, ev_snapshot := s\<rparr>"
  using assms unfolding trim_event_eq by simp

lemma trim_default_event:
  fixes e
  defines "v \<equiv> default_action_state (trim_event e)"
  shows "trim_event v = v" "ev_action_state v \<noteq> []"
proof -
  define u where "u = trim_event e"
  have u: "trim_event u = u" unfolding u_def by (rule trim_event_idem)
  have none: "trim_space ActionNone = ActionNone" by (simp add: trim_space_plain plain_char_def)
  show "trim_event v = v"
  proof (cases "ev_action_state u = []")
    case True
    with u none have "trim_event (u\<lparr>ev_action_state := ActionNone\<rparr>) = u\<lparr>ev_action_state := ActionNone\<rparr>"
      unfolding trim_event_eq by simp
    with True show ?thesis unfolding v_def u_def [symmetric] default_action_state_def by simp
  qed (use u in \<open>simp add: v_def default_action_state_def flip: u_def\<close>)
  show "ev_action_state v \<noteq> []" unfolding v_def by (simp add: default_action_state_def)
qed

lemma canonical_event_time:
  "event_time n s = Inr s' \<Longrightarrow> timely s \<Longrightarrow> trim_space s = s \<Longrightarrow> canonical_time s' \<and> trim_space s' = s'"
  by (auto simp: event_time_def timely_def canonical_time_def parse_timestamp trim_timestamp split: option.splits)

lemma canonical_time_valid: "canonical_time s \<Longrightarrow> event_time n s = Inr s"
  by (auto simp: event_time_def canonical_time_def split: option.splits)

lemma event_problem_None:
  "event_problem e = None \<longleftrightarrow> length (ev_audiences e) \<le> 8 \<and> (\<forall>k \<in> set (ev_audiences e). stable_key k) \<and>
     ev_id e \<noteq> [] \<and> ev_workspace e \<noteq> [] \<and> ev_source_event e \<noteq> [] \<and>
     stable_key (ev_source e) \<and> stable_key (ev_type e) \<and> stable_key (ev_category e) \<and>
     ev_severity e \<in> set severities \<and> ev_action_state e \<in> set action_states \<and>
     ev_alert_state e \<in> {[], AlertFiring, AlertResolved} \<and> (ev_alert_state e \<noteq> [] \<longrightarrow> ev_group e \<noteq> [])"
  by (auto simp: event_problem_def first_error_Cons key_problem_def list_all_iff simp del: first_error.simps(2) split: if_splits)

lemma validate_event_parts_ok:
  assumes "validate_event_parts e = Inr v" "timely (ev_occurred e)" "timely (ev_expires e)"
  shows "header_ok v" "ev_recipients v = ev_recipients e" "ev_localized v = ev_localized e" "ev_plans v = ev_plans e"
proof -
  let ?v = "default_action_state (trim_event e)"
  obtain occ stop s where p: "event_problem ?v = None" and o: "event_time ''occurred_at'' (ev_occurred ?v) = Inr occ"
    and x: "(if ev_expires ?v = [] then Inr [] else event_time ''expires_at'' (ev_expires ?v)) = Inr stop"
    and s: "validate_snapshot (ev_snapshot ?v) = Inr s" and v: "v = ?v\<lparr>ev_occurred := occ, ev_expires := stop, ev_snapshot := s\<rparr>"
    using assms(1) by (auto simp: validate_event_parts_def Let_def and_then_Inr split: option.splits)
  note trimmed = trim_default_event(1) [of e, unfolded trim_event_eq]
  have times: "timely (ev_occurred ?v)" "timely (ev_expires ?v)"
    using assms(2,3) by (simp_all add: default_action_state_def trim_event_def timely_def)
  have occ: "canonical_time occ \<and> trim_space occ = occ" using canonical_event_time [OF o] times trimmed by blast
  have stop: "(stop \<noteq> [] \<longrightarrow> canonical_time stop) \<and> trim_space stop = stop"
    using canonical_event_time [of _ "ev_expires ?v" stop] x times trimmed by (auto split: if_splits)
  have snap: "snapshot_ok s" using validate_snapshot_ok [OF s] trimmed by blast
  have "trim_event v = v"
    unfolding v by (rule trim_event_keep [OF trim_default_event(1)]) (use occ stop snap in \<open>simp_all add: snapshot_ok_def\<close>)
  with p occ stop snap show "header_ok v" by (simp add: header_ok_def event_problem_None v)
  show "ev_recipients v = ev_recipients e" "ev_localized v = ev_localized e" "ev_plans v = ev_plans e"
    by (simp_all add: v default_action_state_def trim_event_def)
qed

lemma header_ok_valid:
  assumes "header_ok e" shows "validate_event_parts e = Inr e"
proof -
  have "ev_action_state e \<in> set action_states" using assms unfolding header_ok_def by blast
  then have "ev_action_state e \<noteq> []" by (auto simp: action_states_def)
  moreover have "trim_event e = e" using assms unfolding header_ok_def by blast
  ultimately have v: "default_action_state (trim_event e) = e" by (simp add: default_action_state_def)
  have "event_problem e = None" using assms by (simp add: header_ok_def event_problem_None)
  moreover have "event_time ''occurred_at'' (ev_occurred e) = Inr (ev_occurred e)"
    "(if ev_expires e = [] then Inr [] else event_time ''expires_at'' (ev_expires e)) = Inr (ev_expires e)"
    "validate_snapshot (ev_snapshot e) = Inr (ev_snapshot e)"
    using assms by (auto simp: header_ok_def canonical_time_valid snapshot_ok_valid)
  ultimately show ?thesis by (simp add: validate_event_parts_def v Let_def and_then_def)
qed

lemma canonical_timely: "canonical_time s \<Longrightarrow> timely s"
  by (auto simp: canonical_time_def timely_def trim_timestamp parse_timestamp split: option.splits)

lemma header_timely: "header_ok e \<Longrightarrow> timely (ev_occurred e) \<and> timely (ev_expires e)"
proof -
  have "timely []" by (simp add: timely_def parse_rfc3339_def)
  then show "header_ok e \<Longrightarrow> timely (ev_occurred e) \<and> timely (ev_expires e)"
    by (cases "ev_expires e = []") (auto simp: header_ok_def canonical_timely)
qed

lemma header_ok_parts:
  "header_ok (e\<lparr>ev_recipients := us, ev_status := st, ev_attempts := n, ev_next_attempt := na,
     ev_error_code := ec, ev_owner := ow, ev_lease := le, ev_token := tk\<rparr>) = header_ok e"
  "header_ok (e\<lparr>ev_localized := ls\<rparr>) = header_ok e"
  by (simp_all add: header_ok_def trim_event_eq)

lemma close_event_Inr:
  assumes "close_event e = Inr v"
  shows "addressed v" "unprocessed v" "ev_snapshot v = ev_snapshot e" "ev_localized v = ev_localized e" "ev_plans v = ev_plans e"
    "header_ok v = header_ok e"
proof -
  let ?us = "unique_users (ev_recipients e)"
  have ok: "\<not> (?us = [] \<and> ev_audiences e = [] \<or> 500 < length ?us)"
    and v: "v = e\<lparr>ev_recipients := ?us, ev_status := EventQueued, ev_attempts := 0, ev_next_attempt := [],
       ev_error_code := [], ev_owner := [], ev_lease := [], ev_token := 0\<rparr>"
    using assms by (simp_all add: close_event_def Let_def split: if_splits)
  show "addressed v" using ok by (auto simp: v addressed_def)
  show "unprocessed v" "ev_snapshot v = ev_snapshot e" "ev_localized v = ev_localized e" "ev_plans v = ev_plans e"
    by (simp_all add: v unprocessed_def)
  show "header_ok v = header_ok e" unfolding v by (rule header_ok_parts(1))
qed

lemma addressed_close: "addressed e \<Longrightarrow> unprocessed e \<Longrightarrow> close_event e = Inr e"
  by (cases e) (auto simp: close_event_def addressed_def unprocessed_def Let_def)

lemma close_addressed: "addressed e \<Longrightarrow> \<exists>v. close_event e = Inr v"
  by (auto simp: close_event_def addressed_def Let_def)

lemma validate_localized_ok:
  assumes "validate_localized e (l, s) = Inr y" "header_ok e"
  shows "fst y = l" "trim_space l \<noteq> []" "snapshot_ok (snd y)"
proof -
  obtain c d where l: "trim_space l \<noteq> []" and c: "validate_event_parts (e\<lparr>ev_snapshot := s, ev_localized := []\<rparr>) = Inr c"
    and d: "close_event c = Inr d" "y = (l, ev_snapshot d)"
    using assms(1) by (auto simp: validate_localized_def and_then_Inr split: if_splits)
  have "header_ok c" by (rule validate_event_parts_ok(1) [OF c]) (use header_timely [OF assms(2)] in simp_all)
  then show "fst y = l" "trim_space l \<noteq> []" "snapshot_ok (snd y)"
    using d l close_event_Inr(3) [OF d(1)] unfolding header_ok_def by simp_all
qed

lemma localized_valid:
  assumes "header_ok e" "addressed e" "trim_space l \<noteq> []" "snapshot_ok s"
  shows "validate_localized e (l, s) = Inr (l, s)"
proof -
  let ?c = "e\<lparr>ev_snapshot := s, ev_localized := []\<rparr>"
  have "header_ok ?c" using assms(1,4) unfolding header_ok_def trim_event_eq by (simp add: snapshot_ok_def)
  then have parts: "validate_event_parts ?c = Inr ?c" by (rule header_ok_valid)
  have "addressed ?c" using assms(2) by (simp add: addressed_def)
  then obtain d where d: "close_event ?c = Inr d" using close_addressed by blast
  with close_event_Inr(3) [OF d] parts assms(3) show ?thesis by (simp add: validate_localized_def and_then_def)
qed

section \<open>Soundness and idempotence\<close>

lemma validate_event_ok:
  assumes "validate_event e = Inr v" "timely (ev_occurred e)" "timely (ev_expires e)"
  shows "event_ok v" "ev_plans v = ev_plans e"
proof -
  obtain p ls where p: "validate_event_parts e = Inr p" and ls: "map_results (validate_localized p) (ev_localized p) = Inr ls"
    and c: "close_event (p\<lparr>ev_localized := ls\<rparr>) = Inr v"
    using assms(1) by (auto simp: validate_event_def and_then_Inr)
  note parts = validate_event_parts_ok [OF p assms(2,3)]
  note closed = close_event_Inr [OF c]
  have "trim_space l \<noteq> [] \<and> snapshot_ok s" if "(l, s) \<in> set ls" for l s
  proof -
    from map_results_Inr [OF ls] have "\<forall>y \<in> set ls. \<exists>x \<in> set (ev_localized p). validate_localized p x = Inr y" by simp
    from bspec [OF this that] obtain k r where x: "validate_localized p (k, r) = Inr (l, s)" by auto
    from validate_localized_ok [OF x parts(1)] show ?thesis by simp
  qed
  then have "\<forall>(l, s) \<in> set (ev_localized v). trim_space l \<noteq> [] \<and> snapshot_ok s" using closed(4) by auto
  moreover have "header_ok v" using closed(6) parts(1) by (simp only: header_ok_parts)
  ultimately show "event_ok v" using closed(1,2) by (simp only: event_ok_def)
  show "ev_plans v = ev_plans e" using closed(5) parts(4) by simp
qed

text \<open>C27: A validated event obeys the rule book: trimmed identity and keys of the stable form, a known
  severity, action and alert state, canonical times, a title of at most 240 and a body of at
  most 4000 characters, at most 20 facts and 5 actions, none of them a link, in the main and in
  every localized snapshot; at most 500 distinct recipients and 8 audiences, at least one of
  either; and no processing state.\<close>

theorem validated_event_bounded:
  assumes "validate_event e = Inr v" "timely (ev_occurred e)" "timely (ev_expires e)"
  shows "event_ok v"
  using assms by (rule validate_event_ok(1))

lemma event_ok_valid:
  assumes "event_ok v" shows "validate_event v = Inr v"
proof -
  have h: "header_ok v" "addressed v" "unprocessed v" "\<forall>(l, s) \<in> set (ev_localized v). trim_space l \<noteq> [] \<and> snapshot_ok s"
    using assms by (simp_all add: event_ok_def)
  have "map_results (validate_localized v) (ev_localized v) = Inr (ev_localized v)"
    using h by (intro map_results_same) (auto intro: localized_valid)
  then show ?thesis
    using header_ok_valid [OF h(1)] addressed_close [OF h(2,3)] by (simp add: validate_event_def and_then_def)
qed

lemma validate_event_resets:
  assumes "header_ok e" "addressed e" "\<forall>(l, s) \<in> set (ev_localized e). trim_space l \<noteq> [] \<and> snapshot_ok s"
  shows "validate_event e = Inr (e\<lparr>ev_status := EventQueued, ev_attempts := 0, ev_next_attempt := [], ev_error_code := [],
    ev_owner := [], ev_lease := [], ev_token := 0\<rparr>)"
proof -
  have "map_results (validate_localized e) (ev_localized e) = Inr (ev_localized e)"
    using assms by (intro map_results_same) (auto intro: localized_valid)
  moreover have "close_event e = Inr (e\<lparr>ev_status := EventQueued, ev_attempts := 0, ev_next_attempt := [], ev_error_code := [],
    ev_owner := [], ev_lease := [], ev_token := 0\<rparr>)"
    using assms(2) by (cases e) (auto simp: close_event_def addressed_def Let_def)
  ultimately show ?thesis using header_ok_valid [OF assms(1)] by (simp add: validate_event_def and_then_def)
qed

lemma in_range_0: "in_range 0"
  by (simp add: in_range_def year_start_def unix_epoch_day_def day_ns_def)

definition sample_draft :: event where
  "sample_draft = sample_event\<lparr>ev_occurred := timestamp 0\<rparr>"

lemma sample_draft_ok: "event_ok sample_draft"
proof -
  have "canonical_time (timestamp 0)" by (simp add: canonical_time_def parse_timestamp [OF in_range_0] in_range_0)
  moreover have "trim_space (timestamp 0) = timestamp 0" by (rule trim_timestamp [OF in_range_0])
  moreover have "stable_key ''records''" "stable_key ''order.done''" "stable_key ''orders''" by code_simp+
  moreover have "rune_count ''Order'' \<le> 240" "rune_count ''Order 7'' \<le> 4000" "\<not> looks_like_link ''Order''" by code_simp+
  moreover have "trim_space ''Order 7'' = ''Order 7''" by code_simp
  ultimately show ?thesis
    by (simp add: event_ok_def header_ok_def trim_event_eq addressed_def unprocessed_def snapshot_ok_def sample_draft_def
      sample_event_def sample_snapshot_def severities_def action_states_def unique_strings_def unique_users_def
      trim_space_plain plain_char_def)
qed

lemma validated_event_bounded_witness: "event_ok sample_draft"
proof -
  have "header_ok sample_draft" using sample_draft_ok by (simp add: event_ok_def)
  with validated_event_bounded [OF event_ok_valid [OF sample_draft_ok]] header_timely show ?thesis by blast
qed

text \<open>Validation is idempotent: an event that obeys the rule book passes unchanged, so validating a
  validated event again, as a producer that retries or the store does, changes nothing.\<close>

theorem event_validation_idempotent:
  assumes "event_ok v" shows "validate_event v = Inr v"
  using assms by (rule event_ok_valid)

lemma event_validation_idempotent_witness: "validate_event sample_draft = Inr sample_draft"
  by (rule event_validation_idempotent) (rule sample_draft_ok)

end
