(* ===== verification/Catalog_Rules.thy ===== *)
theory Catalog_Rules
  imports Inbox_Compiler Event_Rules
begin

text \<open>
  What an accepted catalog guarantees (\<open>catalog_ok\<close>), and that the compiler only produces events
  that obey the rule book and the catalog.
\<close>

section \<open>Event types\<close>

definition variable_ok :: "template_variable \<Rightarrow> bool" where
  "variable_ok v \<longleftrightarrow> stable_key (tv_key v) \<and> tv_type v \<in> set inbox_variable_types \<and> \<not> sensitive_variable_key (tv_key v)"

definition descriptor_ok :: "action_descriptor \<Rightarrow> bool" where
  "descriptor_ok d \<longleftrightarrow> stable_key (ad_key d) \<and> ad_kind d \<in> {''route'', ''business_action''} \<and>
     stable_key (ad_resource_type d) \<and> stable_key (ad_route d)"

definition content_ok :: "event_type \<Rightarrow> string \<times> inbox_content \<Rightarrow> bool" where
  "content_ok t = (\<lambda>(l, c). trim_space l \<noteq> [] \<and> trim_space (ic_title c) \<noteq> [] \<and> trim_space (ic_body c) \<noteq> [] \<and>
     (\<forall>d \<in> set (et_actions t). trim_space (action_label c (ad_key d)) \<noteq> []) \<and>
     (\<forall>s \<in> set (content_texts c). \<forall>n \<in> set (token_names s). n \<in> tv_key ` set (et_variables t)))"

definition type_ok :: "event_type \<Rightarrow> bool" where
  "type_ok t \<longleftrightarrow> stable_key (et_key t) \<and> stable_key (et_source t) \<and> stable_key (et_category t) \<and> stable_key (et_template t) \<and>
     1 \<le> et_version t \<and> et_status t = ''published'' \<and> et_severity t \<in> set severities \<and>
     et_default_locale t \<in> fst ` set (et_locales t) \<and> distinct (map tv_key (et_variables t)) \<and>
     (\<forall>v \<in> set (et_variables t). variable_ok v) \<and> (\<forall>d \<in> set (et_actions t). descriptor_ok d) \<and>
     (\<forall>x \<in> set (et_locales t). content_ok t x)"

lemma validate_type_variables_Inr:
  "validate_type_variables key seen xs = Inr vs \<Longrightarrow>
     distinct (map tv_key vs) \<and> (\<forall>v \<in> set vs. variable_ok v \<and> tv_key v \<notin> set seen)"
proof (induction xs arbitrary: seen vs)
  case (Cons x xs)
  let ?v = "trim_variable x"
  obtain ws where ws: "validate_type_variables key (tv_key ?v # seen) xs = Inr ws" "vs = ?v # ws"
    and v: "variable_ok ?v" "tv_key ?v \<notin> set seen"
    using Cons.prems by (auto simp: Let_def and_then_Inr variable_ok_def split: if_splits)
  from Cons.IH [OF ws(1)] ws(2) v show ?case by auto
qed simp

lemma find_None_all: "List.find P xs = None \<longleftrightarrow> (\<forall>x \<in> set xs. \<not> P x)"
  by (auto simp: find_None_iff)

lemma validate_descriptor_Inr:
  "validate_descriptor t x = Inr d \<Longrightarrow>
     descriptor_ok d \<and> (\<forall>(l, c) \<in> set (et_locales t). trim_space (action_label c (ad_key d)) \<noteq> [])"
  by (auto simp: validate_descriptor_def Let_def descriptor_ok_def find_None_all split: if_splits option.splits)

lemma validate_event_type_ok:
  assumes "validate_event_type x = Inr t" shows "type_ok t" "et_key t = trim_space (et_key x)"
proof -
  let ?t = "trim_event_type x"
  obtain vs ds where p: "type_problem ?t = None" and vs: "validate_type_variables (et_key ?t) [] (et_variables ?t) = Inr vs"
    and ds: "map_results (validate_descriptor ?t) (et_actions ?t) = Inr ds"
    and cs: "first_error (map (content_problem ?t (map tv_key vs)) (et_locales ?t)) = None"
    and t: "t = ?t\<lparr>et_variables := vs, et_actions := ds\<rparr>"
    using assms by (auto simp: validate_event_type_def Let_def and_then_Inr split: option.splits)
  have head: "stable_key (et_key ?t)" "stable_key (et_source ?t)" "stable_key (et_category ?t)" "stable_key (et_template ?t)"
    "1 \<le> et_version ?t" "et_status ?t = ''published''" "et_severity ?t \<in> set severities"
    "et_default_locale ?t \<in> fst ` set (et_locales ?t)"
    using p by (auto simp: type_problem_def first_error_Cons map_of_eq_None_iff simp del: first_error.simps(2))
  have each: "\<forall>d \<in> set ds. descriptor_ok d \<and> (\<forall>(l, c) \<in> set (et_locales ?t). trim_space (action_label c (ad_key d)) \<noteq> [])"
    using map_results_Inr [OF ds] validate_descriptor_Inr by blast
  have "content_ok t (l, c)" if "(l, c) \<in> set (et_locales ?t)" for l c
  proof -
    have "content_problem ?t (map tv_key vs) (l, c) = None" using cs that by (auto simp: first_error_None)
    then have "trim_space l \<noteq> []" "trim_space (ic_title c) \<noteq> []" "trim_space (ic_body c) \<noteq> []"
      "\<forall>s \<in> set (content_texts c). \<forall>n \<in> set (token_names s). n \<in> tv_key ` set vs"
      by (auto simp: content_problem_def first_error_Cons list_ex_iff simp del: first_error.simps(2))
    with each that show ?thesis by (auto simp: content_ok_def t)
  qed
  then show "type_ok t"
    using head validate_type_variables_Inr [OF vs] each by (auto simp: type_ok_def t)
  show "et_key t = trim_space (et_key x)" by (simp add: t trim_event_type_def)
qed

section \<open>Rules\<close>

definition channel_ok :: "string list \<Rightarrow> rule_channel \<Rightarrow> bool" where
  "channel_ok configuration c \<longleftrightarrow> 0 \<le> ch_delay c \<and> 0 \<le> ch_escalation c \<and> 0 \<le> ch_digest_window c \<and> 0 \<le> ch_digest_maximum c \<and>
     delivery_mode c \<in> {''immediate'', ''digest''} \<and>
     (delivery_mode c = ''digest'' \<longrightarrow> 0 < ch_digest_window c \<and> ch_delay c = 0 \<and> ch_escalation c = 0) \<and>
     (trim_space (ch_channel c) = ''in_app'' \<or>
      trim_space (ch_channel c) \<in> set configuration \<and> stable_key (trim_space (ch_template c)) \<and>
      trim_space (ch_connector c) \<noteq> [] \<and> trim_space (ch_operation c) \<noteq> [])"

definition rule_ok :: "string list \<Rightarrow> string set \<Rightarrow> rule \<Rightarrow> bool" where
  "rule_ok configuration keys r \<longleftrightarrow> trim_space (ru_event_type r) \<in> keys \<and>
     (ru_recovery r \<noteq> [] \<longrightarrow> trim_space (ru_recovery r) \<in> keys) \<and> distinct (map channel_identity (ru_channels r)) \<and>
     (\<forall>c \<in> set (ru_channels r). channel_ok configuration c)"

lemma channel_problem_None:
  "channel_problem configuration key seen c = None \<Longrightarrow> channel_ok configuration c \<and> channel_identity c \<notin> set seen"
  by (auto simp: channel_problem_def Let_def channel_ok_def first_error_Cons supports_external_channel_def
      simp del: first_error.simps(2) split: if_splits)

lemma channels_problem_None:
  "channels_problem configuration key seen cs = None \<Longrightarrow>
     distinct (map channel_identity cs) \<and> (\<forall>c \<in> set cs. channel_ok configuration c \<and> channel_identity c \<notin> set seen)"
proof (induction cs arbitrary: seen)
  case (Cons c cs)
  then have "channel_problem configuration key seen c = None" "channels_problem configuration key (channel_identity c # seen) cs = None"
    by (auto split: option.splits)
  with Cons.IH [OF this(2)] channel_problem_None [OF this(1)] show ?case by auto
qed simp

lemma validate_rules_None:
  "validate_rules configuration keys i rs = None \<Longrightarrow> \<forall>r \<in> set rs. rule_ok configuration (set keys) r"
proof (induction rs arbitrary: i)
  case (Cons r rs)
  then have p: "rule_problem configuration keys i r = None" and "validate_rules configuration keys (i + 1) rs = None"
    by (auto split: option.splits)
  from p have "rule_ok configuration (set keys) r"
    using channels_problem_None [of configuration "trim_space (ru_event_type r)" "[]" "ru_channels r"]
    by (auto simp: rule_problem_def Let_def rule_ok_def first_error_Cons simp del: first_error.simps(2))
  with Cons.IH [OF \<open>validate_rules configuration keys (i + 1) rs = None\<close>] show ?case by simp
qed simp

section \<open>Catalogs\<close>

definition same_contract :: "action_descriptor \<Rightarrow> action_descriptor \<Rightarrow> bool" where
  "same_contract d d' \<longleftrightarrow> ad_kind d = ad_kind d' \<and> ad_resource_type d = ad_resource_type d'"

definition catalog_ok :: "string list \<Rightarrow> catalog \<Rightarrow> bool" where
  "catalog_ok configuration c \<longleftrightarrow>
     distinct (map fst (ct_types c)) \<and> distinct (map fst (ct_descriptors c)) \<and> distinct (map fst (ct_rules c)) \<and>
     (\<forall>(k, t) \<in> set (ct_types c). k = et_key t \<and> type_ok t \<and>
        (\<forall>d \<in> set (et_actions t). \<exists>d'. map_of (ct_descriptors c) (ad_key d) = Some d' \<and> same_contract d d')) \<and>
     (\<forall>(k, d) \<in> set (ct_descriptors c). k = ad_key d \<and> descriptor_ok d) \<and>
     (\<forall>(k, r) \<in> set (ct_rules c). k = trim_space (ru_event_type r) \<and> rule_ok configuration (fst ` set (ct_types c)) r)"

lemma put_entry_facts:
  "distinct (map fst xs) \<Longrightarrow> distinct (map fst (put_entry k v xs))"
  "set (put_entry k v xs) = {(k', x) \<in> set xs. k' \<noteq> k} \<union> {(k, v)}"
  "map_of (put_entry k v xs) k' = (if k' = k then Some v else map_of xs k')"
proof -
  show "distinct (map fst xs) \<Longrightarrow> distinct (map fst (put_entry k v xs))"
    by (induction xs) (auto simp: put_entry_def)
  show "set (put_entry k v xs) = {(k', x) \<in> set xs. k' \<noteq> k} \<union> {(k, v)}" by (auto simp: put_entry_def)
  show "map_of (put_entry k v xs) k' = (if k' = k then Some v else map_of xs k')"
    by (induction xs) (auto simp: put_entry_def)
qed

definition descriptors_ok :: "(string \<times> action_descriptor) list \<Rightarrow> bool" where
  "descriptors_ok m \<longleftrightarrow> distinct (map fst m) \<and> (\<forall>(k, d) \<in> set m. k = ad_key d \<and> descriptor_ok d)"

text \<open>Adding descriptors keeps the contract of every key that is in the map and covers the new ones.\<close>

lemma add_descriptors_Inr:
  assumes "add_descriptors ds m = Inr m'" "descriptors_ok m" "\<forall>d \<in> set ds. descriptor_ok d"
  shows "descriptors_ok m' \<and> (\<forall>k d. map_of m k = Some d \<longrightarrow> (\<exists>d'. map_of m' k = Some d' \<and> same_contract d d')) \<and>
    (\<forall>d \<in> set ds. \<exists>d'. map_of m' (ad_key d) = Some d' \<and> same_contract d d')"
  using assms
proof (induction ds arbitrary: m)
  case Nil
  then show ?case by (simp add: same_contract_def)
next
  case (Cons d ds)
  let ?m = "put_entry (ad_key d) d m"
  have step: "add_descriptors ds ?m = Inr m'" and same: "map_of m (ad_key d) = Some x \<Longrightarrow> same_contract x d" for x
    using Cons.prems(1) by (auto simp: same_contract_def split: option.splits if_splits)
  have "descriptors_ok ?m" using Cons.prems(2,3) by (auto simp: descriptors_ok_def put_entry_facts)
  with Cons.IH [OF step] Cons.prems(3) have ih: "descriptors_ok m'"
    "\<And>k x. map_of ?m k = Some x \<Longrightarrow> \<exists>d'. map_of m' k = Some d' \<and> same_contract x d'"
    "\<forall>x \<in> set ds. \<exists>d'. map_of m' (ad_key x) = Some d' \<and> same_contract x d'" by auto
  have new: "\<exists>d'. map_of m' (ad_key d) = Some d' \<and> same_contract d d'" using ih(2) [of "ad_key d" d] by (simp add: put_entry_facts)
  have "\<exists>d'. map_of m' k = Some d' \<and> same_contract x d'" if "map_of m k = Some x" for k x
  proof (cases "k = ad_key d")
    case True
    with new same [of x] that show ?thesis by (auto simp: same_contract_def)
  next
    case False
    with that show ?thesis using ih(2) [of k x] by (simp add: put_entry_facts)
  qed
  with ih new show ?case by auto
qed

definition types_ok :: "catalog \<Rightarrow> bool" where
  "types_ok c \<longleftrightarrow> distinct (map fst (ct_types c)) \<and> descriptors_ok (ct_descriptors c) \<and>
     (\<forall>(k, t) \<in> set (ct_types c). k = et_key t \<and> type_ok t \<and>
        (\<forall>d \<in> set (et_actions t). \<exists>d'. map_of (ct_descriptors c) (ad_key d) = Some d' \<and> same_contract d d'))"

lemma add_types_Inr:
  assumes "add_types ts c = Inr c'" "types_ok c"
  shows "types_ok c' \<and> ct_rules c' = ct_rules c \<and>
    fst ` set (ct_types c') = fst ` set (ct_types c) \<union> (\<lambda>t. trim_space (et_key t)) ` set ts"
  using assms
proof (induction ts arbitrary: c)
  case (Cons t ts)
  obtain v m where v: "validate_event_type t = Inr v" and m: "add_descriptors (et_actions v) (ct_descriptors c) = Inr m"
    and rest: "add_types ts (c\<lparr>ct_types := put_entry (et_key v) v (ct_types c), ct_descriptors := m\<rparr>) = Inr c'"
    using Cons.prems(1) by (auto simp: and_then_Inr)
  let ?c = "c\<lparr>ct_types := put_entry (et_key v) v (ct_types c), ct_descriptors := m\<rparr>"
  note ok = validate_event_type_ok [OF v]
  have "\<forall>d \<in> set (et_actions v). descriptor_ok d" using ok(1) by (simp add: type_ok_def)
  with add_descriptors_Inr [OF m] Cons.prems(2) have d: "descriptors_ok m"
    "\<And>k d. map_of (ct_descriptors c) k = Some d \<Longrightarrow> \<exists>d'. map_of m k = Some d' \<and> same_contract d d'"
    "\<forall>d \<in> set (et_actions v). \<exists>d'. map_of m (ad_key d) = Some d' \<and> same_contract d d'" by (auto simp: types_ok_def)
  have "\<exists>d'. map_of m (ad_key d) = Some d' \<and> same_contract d d'" if "(k, u) \<in> set (ct_types c)" "d \<in> set (et_actions u)" for k u d
  proof -
    have "\<forall>(k, t) \<in> set (ct_types c). \<forall>d \<in> set (et_actions t). \<exists>d'. map_of (ct_descriptors c) (ad_key d) = Some d' \<and> same_contract d d'"
      using Cons.prems(2) unfolding types_ok_def by blast
    from bspec [OF this that(1)] that(2) obtain d1 where d1: "map_of (ct_descriptors c) (ad_key d) = Some d1" "same_contract d d1"
      by auto
    from d(2) [OF d1(1)] d1(2) show ?thesis unfolding same_contract_def by auto
  qed
  then have "types_ok ?c" using Cons.prems(2) ok(1) d(1,3) by (auto simp: types_ok_def put_entry_facts)
  with Cons.IH [OF rest] ok(2) show ?case by (auto simp: put_entry_facts)
qed simp

lemma validate_types_Inr:
  "validate_types i seen ts = Inr keys \<Longrightarrow> set keys = set seen \<union> (\<lambda>t. trim_space (et_key t)) ` set ts"
proof (induction ts arbitrary: i seen)
  case (Cons t ts)
  then obtain v where v: "validate_event_type t = Inr v" "validate_types (i + 1) (et_key v # seen) ts = Inr keys"
    by (auto split: sum.splits if_splits)
  from Cons.IH [OF v(2)] validate_event_type_ok(2) [OF v(1)] show ?case by simp
qed simp

lemma fold_rules:
  "distinct (map fst m) \<Longrightarrow> distinct (map fst (fold (\<lambda>r. put_entry (trim_space (ru_event_type r)) r) rs m)) \<and>
     set (fold (\<lambda>r. put_entry (trim_space (ru_event_type r)) r) rs m) \<subseteq> set m \<union> (\<lambda>r. (trim_space (ru_event_type r), r)) ` set rs"
proof (induction rs arbitrary: m)
  case (Cons r rs)
  from Cons.IH [OF put_entry_facts(1) [OF Cons.prems]] show ?case by (auto simp: put_entry_facts)
qed simp

lemma new_catalog_ok:
  assumes "new_catalog configuration ts rs = Inr c" shows "catalog_ok configuration c"
proof -
  let ?empty = "\<lparr>ct_types = [], ct_descriptors = [], ct_rules = []\<rparr>"
  obtain keys c1 where k: "validate_types 0 [] ts = Inr keys" and r: "validate_rules configuration keys 0 rs = None"
    and t: "add_types ts ?empty = Inr c1"
    and c: "c = c1\<lparr>ct_rules := fold (\<lambda>r. put_entry (trim_space (ru_event_type r)) r) rs []\<rparr>"
    using assms by (auto simp: new_catalog_def validate_catalog_def and_then_Inr split: option.splits sum.splits)
  have "types_ok ?empty" by (simp add: types_ok_def descriptors_ok_def)
  with add_types_Inr [OF t] have types: "types_ok c1" "fst ` set (ct_types c1) = (\<lambda>t. trim_space (et_key t)) ` set ts" by auto
  have "set keys = fst ` set (ct_types c)" using validate_types_Inr [OF k] types(2) by (simp add: c)
  with validate_rules_None [OF r] have rules: "\<forall>r \<in> set rs. rule_ok configuration (fst ` set (ct_types c)) r" by simp
  with fold_rules [of "[]" rs] types(1) show ?thesis
    by (auto simp: catalog_ok_def types_ok_def descriptors_ok_def c)
qed

text \<open>C24: An accepted catalog is well formed: its three maps have distinct keys; every event type is
  published with stable keys, a default locale that exists, distinct variables of a safe name
  and type, and in every locale a title, a body, a label for every action and only declared
  variables; the actions of all types agree with the one descriptor published under their key;
  and every rule belongs to a known type, names a known recovery type, and has distinct channels
  that are the inbox or a configured external channel with its template, connector and operation.\<close>

theorem catalog_well_formed:
  assumes "new_catalog configuration ts rs = Inr c" shows "catalog_ok configuration c"
  using assms by (rule new_catalog_ok)

section \<open>Compiled events\<close>

lemma compile_Inr:
  assumes "compile c ps now i = Inr e"
  obtains t us l ls d where
    "catalog_event_type c (in_event_type i) = Some t"
    "validate_event (drafted_event c t us l ls i) = Inr d"
    "contract_problem c d = None" "e = stamp_event (timestamp now) d"
proof -
  obtain t where t: "catalog_event_type c (in_event_type i) = Some t"
    using assms by (auto simp: compile_def catalog_event_type_def split: option.splits)
  with assms that [OF t] show ?thesis
    by (auto simp: compile_def catalog_event_type_def and_then_Inr split: option.splits if_splits)
qed

lemma stamp_event_ok: "event_ok (stamp_event now d) = event_ok d"
  by (simp add: event_ok_def header_ok_def trim_event_eq addressed_def unprocessed_def stamp_event_def)

lemma drafted_event_fields [simp]:
  "ev_occurred (drafted_event c t us l ls i) = trim_space (in_occurred i)"
  "ev_expires (drafted_event c t us l ls i) = trim_space (in_expires i)"
  "ev_plans (drafted_event c t us l ls i) =
     compile_plans c (et_key t) i (case map_of ls l of None \<Rightarrow> no_snapshot | Some s \<Rightarrow> s)"
  by (simp_all add: drafted_event_def Let_def)

lemma timely_trim [simp]: "timely (trim_space s) = timely s"
  by (simp add: timely_def)

lemma contract_problem_None:
  assumes "contract_problem c d = None"
  shows "\<exists>t. catalog_event_type c (ev_type d) = Some t \<and> ev_source d = et_source t \<and> ev_category d = et_category t"
    "\<forall>s \<in> set (ev_snapshot d # map snd (ev_localized d)). \<forall>a \<in> set (sn_actions s). action_published c a"
  using assms by (auto simp: contract_problem_def find_None_all split: if_splits option.splits)

text \<open>C25: What the compiler returns is a complete, valid event: it obeys the rule book, carries the source and
  the category its published event type prescribes, and every action of the main and of every
  localized snapshot is published in the catalog with its kind, resource type and a route.\<close>

theorem compiled_event_sound:
  assumes "compile c ps now i = Inr e" "timely (in_occurred i)" "timely (in_expires i)"
  shows "event_ok e \<and>
    (\<exists>t. catalog_event_type c (ev_type e) = Some t \<and> ev_source e = et_source t \<and> ev_category e = et_category t) \<and>
    (\<forall>s \<in> set (ev_snapshot e # map snd (ev_localized e)). \<forall>a \<in> set (sn_actions s). action_published c a)"
proof -
  obtain t us l ls d where d: "validate_event (drafted_event c t us l ls i) = Inr d" "contract_problem c d = None"
    and e: "e = stamp_event (timestamp now) d" by (rule compile_Inr [OF assms(1)])
  have "event_ok d" by (rule validate_event_ok(1) [OF d(1)]) (use assms(2,3) in simp_all)
  moreover note contract_problem_None [OF d(2)]
  moreover have "ev_type e = ev_type d" "ev_source e = ev_source d" "ev_category e = ev_category d"
    "ev_snapshot e = ev_snapshot d" "ev_localized e = ev_localized d" by (simp_all add: e stamp_event_def)
  ultimately show ?thesis unfolding e stamp_event_ok by simp
qed

text \<open>The plans of a compiled event, before their stamps.\<close>

lemma compile_plans_ok:
  assumes "catalog_ok configuration c" "p \<in> set (compile_plans c key i s)"
  shows "pl_channel p \<in> set configuration \<and> stable_key (pl_template p) \<and> pl_connector p \<noteq> [] \<and> pl_operation p \<noteq> [] \<and>
    pl_mode p \<in> {''immediate'', ''digest''} \<and> (pl_mode p = ''digest'' \<longleftrightarrow> pl_digest_key p \<noteq> []) \<and>
    0 \<le> pl_escalation p \<and> pl_recipients p = in_recipients i"
proof -
  obtain r where r: "catalog_rule c key = Some r"
    and m: "p \<in> compile_plan i s ` set (filter (\<lambda>x. trim_space (ch_channel x) \<noteq> ''in_app'') (ru_channels r))"
    using assms(2) by (cases "catalog_rule c key") (simp_all add: compile_plans_def split: if_splits)
  from m obtain x where x: "x \<in> set (ru_channels r)" "trim_space (ch_channel x) \<noteq> ''in_app''"
    and p: "p = compile_plan i s x" by (auto simp only: set_filter)
  from r have "(trim_space key, r) \<in> set (ct_rules c)" by (auto simp: catalog_rule_def dest: map_of_SomeD)
  with assms(1) have "rule_ok configuration (fst ` set (ct_types c)) r" by (auto simp: catalog_ok_def)
  with x(1) have "channel_ok configuration x" by (auto simp: rule_ok_def)
  moreover have "digest_key i x \<noteq> [] \<longleftrightarrow> delivery_mode x = ''digest''"
    by (auto simp: digest_key_def delivery_mode_def stable_id_def)
  ultimately show ?thesis using x(2) by (auto simp: p compile_plan_def channel_ok_def)
qed

lemma distinct_mapI: "distinct (map f xs) \<Longrightarrow> distinct xs"
  by (simp add: distinct_map)

lemma compile_plans_distinct:
  assumes "catalog_ok configuration c"
  shows "distinct (map (\<lambda>p. (pl_channel p, pl_escalation p)) (compile_plans c key i s))"
proof (cases "catalog_rule c key")
  case (Some r)
  then have "(trim_space key, r) \<in> set (ct_rules c)" by (auto simp: catalog_rule_def dest: map_of_SomeD)
  with assms have "rule_ok configuration (fst ` set (ct_types c)) r" by (auto simp: catalog_ok_def)
  then have d: "distinct (map channel_identity (ru_channels r))" by (simp add: rule_ok_def)
  have "distinct (map (\<lambda>x. (trim_space (ch_channel x), ch_escalation x)) (filter P (ru_channels r)))" for P
  proof -
    have "map channel_identity xs = map (\<lambda>(a, b). a @ '':'' @ show_int b) (map (\<lambda>x. (trim_space (ch_channel x), ch_escalation x)) xs)" for xs
      by (simp add: channel_identity_def)
    from d [unfolded this] have "distinct (map (\<lambda>x. (trim_space (ch_channel x), ch_escalation x)) (ru_channels r))"
      by (rule distinct_mapI)
    then show ?thesis by (rule distinct_map_filter)
  qed
  with Some show ?thesis by (simp add: compile_plans_def compile_plan_def comp_def)
qed (simp add: compile_plans_def)

text \<open>C26: The plans of a compiled event are those its rule calls for: at most one per external channel and
  escalation step, each for a configured channel with template, connector and operation, queued
  for the event and workspace it was compiled for, with a digest key exactly when it is collected
  into a digest, and with an identifier that depends only on what it delivers.\<close>

theorem compiled_plans_sound:
  assumes "catalog_ok configuration c" "compile c ps now i = Inr e" "timely (in_occurred i)" "timely (in_expires i)"
  shows "distinct (map (\<lambda>p. (pl_channel p, pl_escalation p)) (ev_plans e)) \<and>
    (\<forall>p \<in> set (ev_plans e). pl_channel p \<in> set configuration \<and> stable_key (pl_template p) \<and> pl_connector p \<noteq> [] \<and>
      pl_operation p \<noteq> [] \<and> (pl_mode p = ''digest'' \<longleftrightarrow> pl_digest_key p \<noteq> []) \<and> pl_status p = ''queued'' \<and>
      pl_workspace p = ev_workspace e \<and> pl_event p = ev_id e \<and>
      pl_id p = stable_id [ev_workspace e, ev_id e, pl_channel p, pl_connector p, pl_operation p, show_int (pl_escalation p)])"
proof -
  obtain t us l ls d where d: "validate_event (drafted_event c t us l ls i) = Inr d"
    and e: "e = stamp_event (timestamp now) d" by (rule compile_Inr [OF assms(2)])
  have "ev_plans d = ev_plans (drafted_event c t us l ls i)"
    by (rule validate_event_ok(2) [OF d]) (use assms(3,4) in simp_all)
  then obtain s where s: "ev_plans d = compile_plans c (et_key t) i s" by simp
  have plans: "ev_plans e = map (stamp_plan (timestamp now) d) (ev_plans d)" "ev_workspace e = ev_workspace d" "ev_id e = ev_id d"
    by (simp_all add: e stamp_event_def)
  have "map (\<lambda>p. (pl_channel p, pl_escalation p)) (ev_plans e) = map (\<lambda>p. (pl_channel p, pl_escalation p)) (ev_plans d)"
    by (simp add: plans stamp_plan_def)
  with compile_plans_distinct [OF assms(1)] s
  have "distinct (map (\<lambda>p. (pl_channel p, pl_escalation p)) (ev_plans e))" by simp
  moreover have "\<forall>p \<in> set (ev_plans d). pl_channel p \<in> set configuration \<and> stable_key (pl_template p) \<and> pl_connector p \<noteq> [] \<and>
      pl_operation p \<noteq> [] \<and> (pl_mode p = ''digest'' \<longleftrightarrow> pl_digest_key p \<noteq> [])"
    unfolding s by (intro ballI) (use compile_plans_ok [OF assms(1)] in simp)
  ultimately show ?thesis by (simp add: plans stamp_plan_def)
qed

definition retimed :: "string \<Rightarrow> event \<Rightarrow> event" where
  "retimed now e = e\<lparr>ev_created := now, ev_updated := now,
     ev_plans := map (\<lambda>p. p\<lparr>pl_created := now, pl_updated := now\<rparr>) (ev_plans e)\<rparr>"

text \<open>The clock is read after every check: its reading reaches only the stamps.\<close>

definition stamped_late :: "(instant \<Rightarrow> err + event) \<Rightarrow> bool" where
  "stamped_late F \<longleftrightarrow> (\<exists>r. \<forall>now. F now = map_sum id (stamp_event (timestamp now)) r)"

lemma late_error: "stamped_late (\<lambda>now. Inl x)"
  unfolding stamped_late_def by (rule exI [of _ "Inl x"]) simp

lemma late_stamp: "stamped_late (\<lambda>now. Inr (stamp_event (timestamp now) d))"
  unfolding stamped_late_def by (rule exI [of _ "Inr d"]) simp

lemma late_bind: "(\<And>a. stamped_late (\<lambda>now. F now a)) \<Longrightarrow> stamped_late (\<lambda>now. and_then m (F now))"
  using late_error by (cases m) (simp_all add: and_then_def)

lemma late_option:
  "stamped_late F \<Longrightarrow> (\<And>a. stamped_late (\<lambda>now. G now a)) \<Longrightarrow>
   stamped_late (\<lambda>now. case v of None \<Rightarrow> F now | Some a \<Rightarrow> G now a)"
  by (cases v) simp_all

lemma late_pair: "(\<And>a b. stamped_late (\<lambda>now. F now a b)) \<Longrightarrow> stamped_late (\<lambda>now. case p of (a, b) \<Rightarrow> F now a b)"
  by (cases p) simp

lemma late_if: "stamped_late F \<Longrightarrow> stamped_late G \<Longrightarrow> stamped_late (\<lambda>now. if b then F now else G now)"
  by (cases b) simp_all

lemma compile_late: "stamped_late (\<lambda>now. compile c ps now i)"
  unfolding compile_def by (intro late_option late_bind late_pair late_if late_error late_stamp)

lemma stamp_retimed: "stamp_event now' d = retimed now' (stamp_event now d)"
  by (simp add: stamp_event_def retimed_def stamp_plan_def)

text \<open>Compiling is repeatable: the same intent compiled again at another time gives the same event with
  the same identifiers of its plans, but for the creation and update times; so a retried
  publication is recognised as the same event.\<close>

theorem compile_repeatable:
  assumes "compile c ps now i = Inr e"
  shows "compile c ps now' i = Inr (retimed (timestamp now') e)"
proof -
  obtain r where r: "compile c ps t i = map_sum id (stamp_event (timestamp t)) r" for t
    using compile_late [of c ps i] unfolding stamped_late_def by blast
  from r [of now] assms obtain d where d: "r = Inr d" "e = stamp_event (timestamp now) d" by (cases r) auto
  show ?thesis using stamp_retimed [of "timestamp now'" d "timestamp now"] by (simp add: r d)
qed

section \<open>An example\<close>

definition order_type :: event_type where
  "order_type = \<lparr>et_key = ''order.done'', et_source = ''records'', et_category = ''orders'', et_severity = ''info'',
     et_mandatory = False, et_template = ''order.done'', et_default_locale = ''en-US'',
     et_locales = [(''en-US'', \<lparr>ic_title = ''Order'', ic_body = ''Order done'', ic_facts = [], ic_labels = []\<rparr>)],
     et_variables = [], et_actions = [], et_audiences = [], et_version = 1, et_status = ''published''\<rparr>"

definition order_channel :: rule_channel where
  "order_channel = \<lparr>ch_channel = ''email'', ch_template = ''order.email'', ch_connector = ''smtp'', ch_connection = [],
     ch_operation = ''send'', ch_mandatory = False, ch_delay = 0, ch_escalation = 0, ch_cancel_terminal = False, ch_mode = [],
     ch_digest_window = 0, ch_digest_maximum = 0\<rparr>"

definition order_rule :: rule where
  "order_rule = \<lparr>ru_event_type = ''order.done'', ru_enabled = True, ru_audiences = [], ru_mandatory = False,
     ru_minimum_severity = [], ru_dedupe_window = 0, ru_aggregation_window = 0, ru_reminder_interval = 0,
     ru_maximum_reminders = 0, ru_recovery = [], ru_auto_resolve = False, ru_mutable = False, ru_channels = [order_channel]\<rparr>"

definition order_catalog :: catalog where
  "order_catalog = \<lparr>ct_types = [(''order.done'', order_type)], ct_descriptors = [], ct_rules = [(''order.done'', order_rule)]\<rparr>"

definition order_intent :: intent where
  "order_intent = \<lparr>in_id = ''e1'', in_workspace = ''ws'', in_source_event = ''s1'', in_event_type = ''order.done'',
     in_severity = [], in_recipients = [''u1''], in_audiences = [], in_subject_type = ''order'', in_subject_id = ''7'',
     in_subject_version = [], in_group = [], in_dedupe = [], in_action_state = [], in_alert_state = [], in_expires = [],
     in_occurred = timestamp 0, in_locale = [], in_variables = [], in_correlation = [], in_trace = []\<rparr>"

definition plain_parsers :: text_parsers where
  "plain_parsers = \<lparr>tp_float = (\<lambda>s. True), tp_address = (\<lambda>s. Some s), tp_url = (\<lambda>s. None), tp_request_uri = (\<lambda>s. None)\<rparr>"

lemma order_type_valid: "validate_event_type order_type = Inr order_type"
  by code_simp

lemma order_channel_valid: "channel_problem [''email''] ''order.done'' [] order_channel = None"
  by code_simp

lemma order_fields [simp]:
  "et_key order_type = ''order.done''" "et_actions order_type = []" "et_audiences order_type = []"
  "et_locales order_type = [(''en-US'', \<lparr>ic_title = ''Order'', ic_body = ''Order done'', ic_facts = [], ic_labels = []\<rparr>)]"
  "ru_event_type order_rule = ''order.done''" "ru_channels order_rule = [order_channel]" "ru_recovery order_rule = []"
  "ru_audiences order_rule = []" "ru_enabled order_rule" "ru_dedupe_window order_rule = 0"
  "ru_aggregation_window order_rule = 0" "ru_reminder_interval order_rule = 0" "ru_maximum_reminders order_rule = 0"
  by (simp_all add: order_type_def order_rule_def)

lemma order_key_plain [simp]: "trim_space ''order.done'' = ''order.done''"
  by code_simp

lemma order_catalog_new: "new_catalog [''email''] [order_type] [order_rule] = Inr order_catalog"
  by (simp add: new_catalog_def validate_catalog_def order_type_valid rule_problem_def bad_if_def order_channel_valid
      and_then_def order_catalog_def put_entry_def Let_def)

lemma order_catalog_ok: "catalog_ok [''email''] order_catalog"
  by (rule new_catalog_ok) (rule order_catalog_new)

lemma catalog_well_formed_witness: "catalog_ok [''email''] order_catalog"
  by (rule catalog_well_formed) (rule order_catalog_new)

lemma order_lookups [simp]:
  "catalog_event_type order_catalog ''order.done'' = Some order_type"
  "catalog_rule order_catalog ''order.done'' = Some order_rule"
  by (simp_all add: catalog_event_type_def catalog_rule_def order_catalog_def)

definition order_snapshot :: snapshot where
  "order_snapshot = (let s = \<lparr>sn_title = ''Order'', sn_body = ''Order done'', sn_facts = [], sn_actions = [],
     sn_template = ''order.done'', sn_version = 1, sn_locale = ''en-US'', sn_hash = []\<rparr>
   in s\<lparr>sn_hash := snapshot_hash s\<rparr>)"

lemma order_rendered:
  "render_restricted ''Order'' [] False = Inr ''Order''" "render_restricted ''Order done'' [] False = Inr ''Order done''"
  by code_simp+

lemma order_compiled: "map_results (compile_snapshot order_type [] subject) (et_locales order_type) = Inr [(''en-US'', order_snapshot)]"
  by (simp add: compile_snapshot_def render_text_def order_rendered and_then_def Let_def order_snapshot_def)
    (simp add: order_type_def)

definition order_draft :: event where
  "order_draft = drafted_event order_catalog order_type [] ''en-US'' [(''en-US'', order_snapshot)] order_intent"

lemma order_snapshot_ok: "snapshot_ok order_snapshot"
proof -
  have "rune_count ''Order'' \<le> 240" "rune_count ''Order done'' \<le> 4000" "\<not> looks_like_link ''Order''"
    "trim_space ''Order'' = ''Order''" "trim_space ''Order done'' = ''Order done''" by code_simp+
  then show ?thesis by (simp add: snapshot_ok_def order_snapshot_def Let_def)
qed

definition order_event :: event where
  "order_event = order_draft\<lparr>ev_status := EventQueued\<rparr>"

lemma order_draft_parts:
  "header_ok order_draft" "addressed order_draft" "ev_localized order_draft = [(''en-US'', order_snapshot)]"
  "ev_attempts order_draft = 0" "ev_next_attempt order_draft = []" "ev_error_code order_draft = []"
  "ev_owner order_draft = []" "ev_lease order_draft = []" "ev_token order_draft = 0"
proof -
  have "canonical_time (timestamp 0)" by (simp add: canonical_time_def parse_timestamp [OF in_range_0] in_range_0)
  moreover have "trim_space (timestamp 0) = timestamp 0" by (rule trim_timestamp [OF in_range_0])
  moreover have "stable_key ''records''" "stable_key ''order.done''" "stable_key ''orders''" by code_simp+
  moreover have "trim_space (sn_title order_snapshot) = sn_title order_snapshot" "trim_space (sn_body order_snapshot) = sn_body order_snapshot"
    using order_snapshot_ok by (simp_all add: snapshot_ok_def)
  moreover have "sn_actions order_snapshot = []" by (simp add: order_snapshot_def Let_def)
  moreover have "et_source order_type = ''records''" "et_category order_type = ''orders''" "et_severity order_type = ''info''"
    by (simp_all add: order_type_def)
  ultimately show "header_ok order_draft" using order_snapshot_ok
    by (simp add: header_ok_def trim_event_eq order_draft_def drafted_event_def
      order_intent_def severities_def action_states_def unique_strings_def unique_users_def trim_space_plain plain_char_def Let_def)
  show "addressed order_draft"
    by (simp add: addressed_def order_draft_def drafted_event_def order_intent_def unique_users_def trim_space_plain plain_char_def Let_def)
qed (simp_all add: order_draft_def drafted_event_def Let_def)

lemma order_validated: "validate_event order_draft = Inr order_event"
proof -
  have "validate_event order_draft = Inr (order_draft\<lparr>ev_status := EventQueued, ev_attempts := 0, ev_next_attempt := [],
      ev_error_code := [], ev_owner := [], ev_lease := [], ev_token := 0\<rparr>)"
    by (rule validate_event_resets) (use order_draft_parts order_snapshot_ok in \<open>simp_all add: trim_space_plain plain_char_def\<close>)
  also have "\<dots> = Inr order_event"
    using order_draft_parts(4-) by (cases order_draft) (simp add: order_event_def)
  finally show ?thesis .
qed

lemma order_run: "compile order_catalog plain_parsers 0 order_intent = Inr (stamp_event (timestamp 0) order_event)"
proof -
  have i: "in_event_type order_intent = ''order.done''" "in_audiences order_intent = []" "in_variables order_intent = []"
    "in_locale order_intent = []" by (simp_all add: order_intent_def)
  have "contract_problem order_catalog order_event = None"
    by (simp add: contract_problem_def order_event_def order_draft_def drafted_event_def Let_def order_snapshot_def)
  moreover have "type_content order_type [] = Some (''en-US'', \<lparr>ic_title = ''Order'', ic_body = ''Order done'', ic_facts = [], ic_labels = []\<rparr>)"
    by code_simp
  moreover have "validate_audiences order_catalog order_type [] = Inr []"
    by (simp add: validate_audiences_def unique_strings_def Let_def)
  moreover have "validate_render_variables plain_parsers (render_scope order_type) [] = Inr []"
    by (simp add: validate_render_variables_def render_scope_def order_type_def)
  moreover note order_validated [unfolded order_draft_def] order_compiled
  ultimately show ?thesis by (simp add: compile_def i and_then_def)
qed

lemma order_timely: "timely (in_occurred order_intent)" "timely (in_expires order_intent)"
proof -
  show "timely (in_occurred order_intent)" by (simp add: timely_def order_intent_def trim_timestamp [OF in_range_0] parse_timestamp [OF in_range_0] in_range_0)
  show "timely (in_expires order_intent)" by (simp add: timely_def order_intent_def parse_rfc3339_def)
qed

lemma compiled_event_sound_witness: "event_ok (stamp_event (timestamp 0) order_event)"
  using compiled_event_sound [OF order_run order_timely] by (rule conjunct1)

lemma compiled_plans_sound_witness:
  "distinct (map (\<lambda>p. (pl_channel p, pl_escalation p)) (ev_plans (stamp_event (timestamp 0) order_event)))"
  using compiled_plans_sound [OF order_catalog_ok order_run order_timely] by (rule conjunct1)

lemma compile_repeatable_witness:
  "compile order_catalog plain_parsers 1 order_intent = Inr (retimed (timestamp 1) (stamp_event (timestamp 0) order_event))"
  by (rule compile_repeatable) (rule order_run)

end
