(* ===== verification/Subject_Erasure.thy ===== *)
theory Subject_Erasure
  imports Event_Store Template_Json Go_Time
begin

text \<open>
  The data of one person: subject.go of internal/infrastructure/persistence/database/lifecycle.
  A preview counts the rows that belong to a subject of a workspace, an export lists his inbox
  items, and an erasure replaces him by a pseudonym, redacts what was said to him and deletes
  what is his alone, in one transaction. JSON results are the values they encode; a Go map is
  listed in the order of its keys.
\<close>

section \<open>Statements\<close>

text \<open>An update that moves rows under a unique index fails when two rows would clash.\<close>

definition update_unique :: "(database, 'r) table \<Rightarrow> ('r \<Rightarrow> 'r \<Rightarrow> bool) \<Rightarrow> string \<Rightarrow> ('r \<Rightarrow> bool) \<Rightarrow> ('r \<Rightarrow> 'r) \<Rightarrow> int sql" where
  "update_unique t clash name P f = exec (\<lambda>d. let rs = update_where P f (fst t d) in
     if no_clash clash rs then Inr (int (length (filter P (fst t d))), snd t rs d) else Inl (ConstraintError name))"

definition scope_missing :: "workspace_id \<Rightarrow> string \<Rightarrow> bool" where
  "scope_missing ws s \<longleftrightarrow> trim_space ws = [] \<or> trim_space s = []"

definition scope_required :: err where
  "scope_required = ErrorText ''notification subject scope is required''"

abbreviation own_items :: "workspace_id \<Rightarrow> user_id \<Rightarrow> item_row \<Rightarrow> bool" where
  "own_items ws s \<equiv> \<lambda>r. ir_workspace r = ws \<and> ir_recipient r = s"

abbreviation own_preferences :: "workspace_id \<Rightarrow> user_id \<Rightarrow> preference_row \<Rightarrow> bool" where
  "own_preferences ws s \<equiv> \<lambda>r. fr_workspace r = ws \<and> fr_recipient r = s"

abbreviation own_reservations :: "workspace_id \<Rightarrow> user_id \<Rightarrow> reservation_row \<Rightarrow> bool" where
  "own_reservations ws s \<equiv> \<lambda>r. vv_workspace r = ws \<and> rv_recipient (vv_reservation r) = s"

abbreviation own_views :: "workspace_id \<Rightarrow> user_id \<Rightarrow> saved_view_row \<Rightarrow> bool" where
  "own_views ws s \<equiv> \<lambda>r. wr_workspace r = ws \<and> wr_recipient r = s"

abbreviation own_delegations :: "workspace_id \<Rightarrow> user_id \<Rightarrow> delegation \<Rightarrow> bool" where
  "own_delegations ws s \<equiv> \<lambda>r. dg_workspace r = ws \<and> (dg_owner r = s \<or> dg_delegate r = s)"

abbreviation own_groups :: "workspace_id \<Rightarrow> user_id \<Rightarrow> alert_group \<Rightarrow> bool" where
  "own_groups ws s \<equiv> \<lambda>r. al_workspace r = ws \<and> al_recipient r = s"

abbreviation acknowledged_groups :: "workspace_id \<Rightarrow> user_id \<Rightarrow> alert_group \<Rightarrow> bool" where
  "acknowledged_groups ws s \<equiv> \<lambda>r. al_workspace r = ws \<and> al_acknowledged_by r = s"

section \<open>Preview and export\<close>

definition preview_subject :: "workspace_id \<Rightarrow> user_id \<Rightarrow> (string \<times> int) list sql" where
  "preview_subject ws s = guard_io (scope_missing ws s) scope_required (
     bind_io (count_rows items_table (own_items ws s)) (\<lambda>items.
     bind_io (count_rows preferences_table (own_preferences ws s)) (\<lambda>preferences.
     bind_io (count_rows reservations_table (own_reservations ws s)) (\<lambda>reservations.
     bind_io (count_rows views_table (own_views ws s)) (\<lambda>views.
     bind_io (count_rows delegations_table (own_delegations ws s)) (\<lambda>delegations.
     ret [(''delegations'', delegations), (''delivery_reservations'', reservations), (''inbox_items'', items),
       (''preferences'', preferences), (''saved_views'', views)]))))))"

definition exported_item :: "item_row \<Rightarrow> (string \<times> string) list" where
  "exported_item r = [(''action_state'', ir_action_state r), (''alert_state'', ir_alert_state r),
     (''archived_at'', ir_archived r), (''body'', ir_body r), (''category'', ir_category r), (''event_type'', ir_event_type r),
     (''first_occurred_at'', ir_first r), (''id'', ir_id r), (''last_occurred_at'', ir_last r), (''read_at'', ir_read r),
     (''severity'', ir_severity r), (''source'', ir_source r), (''title'', ir_title r)]"

definition export_subject :: "workspace_id \<Rightarrow> user_id \<Rightarrow> (string \<times> string) list list sql" where
  "export_subject ws s = guard_io (scope_missing ws s) scope_required (
     bind_io (query (\<lambda>d. sort_key ir_created (filter (own_items ws s) (db_items d)))) (\<lambda>rs.
     ret (map exported_item rs)))"

section \<open>Erasure\<close>

text \<open>What \<open>json.Unmarshal\<close> makes of the holds: nothing, the null value, an array, or no such thing.\<close>

datatype raw_holds = NoHolds | NullHolds | HoldList "string list" | OtherHolds err

definition active_holds :: "raw_holds \<Rightarrow> err + string list" where
  "active_holds h = (case h of NoHolds \<Rightarrow> Inr [] | NullHolds \<Rightarrow> Inr [] | HoldList hs \<Rightarrow> Inr hs
     | OtherHolds e \<Rightarrow> Inl (Wrapped ''invalid notification subject legal holds'' e))"

definition anonymous_subject :: "workspace_id \<Rightarrow> user_id \<Rightarrow> user_id" where
  "anonymous_subject ws s = ''erased-'' @ hex_encode (take 12 (sha256 (ws @ [CHR 0x00] @ s)))"

definition replace_recipients :: "user_id \<Rightarrow> user_id \<Rightarrow> user_id list \<Rightarrow> user_id list" where
  "replace_recipients s a us = map (\<lambda>u. if u = s then a else u) us"

definition erased_text :: string where
  "erased_text = ''[erased]''"

definition erased_item :: "user_id \<Rightarrow> item \<Rightarrow> item" where
  "erased_item a i = i\<lparr>it_recipient := a, it_title := erased_text, it_body := erased_text, it_facts := [], it_actions := [],
     it_subject_id := [], it_subject_version := [], it_template_hash := []\<rparr>"

definition erased_row :: "user_id \<Rightarrow> item \<Rightarrow> item_row \<Rightarrow> item_row" where
  "erased_row a i r = r\<lparr>ir_recipient := a, ir_title := erased_text, ir_body := erased_text, ir_search := [],
     ir_payload := i, ir_subject_id := []\<rparr>"

definition anonymize_items :: "workspace_id \<Rightarrow> user_id \<Rightarrow> user_id \<Rightarrow> int sql" where
  "anonymize_items ws s a = bind_io (select_rows items_table (own_items ws s)) (\<lambda>rs.
     bind_io (for_each (\<lambda>r. bind_io (update_rows items_table (\<lambda>x. ir_workspace x = ws \<and> ir_id x = ir_id r)
       (erased_row a (erased_item a (ir_payload r)))) (\<lambda>_. ret ())) rs) (\<lambda>_.
     ret (int (length rs))))"

definition erased_event :: "user_id \<Rightarrow> user_id \<Rightarrow> event \<Rightarrow> event option" where
  "erased_event s a e = (if s \<notin> set (ev_recipients e) then None
     else Some (e\<lparr>ev_recipients := replace_recipients s a (ev_recipients e),
       ev_snapshot := (ev_snapshot e)\<lparr>sn_title := erased_text, sn_body := erased_text, sn_facts := [], sn_actions := []\<rparr>,
       ev_localized := [], ev_correlation := [], ev_trace := [],
       ev_plans := map (\<lambda>p. p\<lparr>pl_recipients := replace_recipients s a (pl_recipients p), pl_variables := []\<rparr>) (ev_plans e)\<rparr>))"

definition erased_plan :: "user_id \<Rightarrow> user_id \<Rightarrow> plan \<Rightarrow> plan option" where
  "erased_plan s a p = (if s \<notin> set (pl_recipients p) then None
     else Some (p\<lparr>pl_recipients := replace_recipients s a (pl_recipients p), pl_variables := [],
       pl_digest_title := erased_text, pl_digest_body := erased_text\<rparr>))"

text \<open>\<open>rewritePayloads\<close> for the events and the plans: \<open>own\<close> is the workspace filter, \<open>same\<close> the identity of rows.\<close>

definition rewrite_payloads ::
  "(database, 'r) table \<Rightarrow> ('r \<Rightarrow> bool) \<Rightarrow> ('r \<Rightarrow> 'r \<Rightarrow> bool) \<Rightarrow> ('r \<Rightarrow> 'p) \<Rightarrow> ('p \<Rightarrow> 'r \<Rightarrow> 'r) \<Rightarrow> ('p \<Rightarrow> 'p option) \<Rightarrow> int sql" where
  "rewrite_payloads t own same payload put rewrite = bind_io (select_rows t own) (\<lambda>rs.
     fold_io (\<lambda>r n. case rewrite (payload r) of None \<Rightarrow> ret n
       | Some p \<Rightarrow> bind_io (update_rows t (\<lambda>x. own x \<and> same r x) (put p)) (\<lambda>_. ret (n + 1))) rs 0)"

definition put_event :: "event \<Rightarrow> event_row \<Rightarrow> event_row" where
  "put_event e r = r\<lparr>er_payload := e\<rparr>"

definition put_plan :: "plan \<Rightarrow> plan_row \<Rightarrow> plan_row" where
  "put_plan p r = r\<lparr>qr_payload := p\<rparr>"

definition rewrite_events :: "workspace_id \<Rightarrow> user_id \<Rightarrow> user_id \<Rightarrow> int sql" where
  "rewrite_events ws s a = rewrite_payloads events_table (\<lambda>r. er_workspace r = ws) (\<lambda>r x. er_id x = er_id r)
     er_payload put_event (erased_event s a)"

definition rewrite_plans :: "workspace_id \<Rightarrow> user_id \<Rightarrow> user_id \<Rightarrow> int sql" where
  "rewrite_plans ws s a = rewrite_payloads plans_table (\<lambda>r. qr_workspace r = ws) (\<lambda>r x. qr_id x = qr_id r)
     qr_payload put_plan (erased_plan s a)"

record erasure_report =
  eo_anonymous :: user_id
  eo_changed :: "(string \<times> int) list"
  eo_redacted :: bool
  eo_at :: instant

definition erase_body :: "instant \<Rightarrow> workspace_id \<Rightarrow> user_id \<Rightarrow> user_id \<Rightarrow> (bool \<times> erasure_report) sql" where
  "erase_body now ws s a =
     bind_io (anonymize_items ws s a) (\<lambda>items.
     bind_io (rewrite_events ws s a) (\<lambda>events.
     bind_io (rewrite_plans ws s a) (\<lambda>plans.
     bind_io (update_unique groups_table group_clash ''uniq_notification_alert_group'' (own_groups ws s)
       (\<lambda>r. r\<lparr>al_recipient := a\<rparr>)) (\<lambda>groups.
     bind_io (update_rows reservations_table (own_reservations ws s)
       (\<lambda>r. r\<lparr>vv_reservation := (vv_reservation r)\<lparr>rv_recipient := a\<rparr>\<rparr>)) (\<lambda>reservations.
     bind_io (update_rows groups_table (acknowledged_groups ws s) (\<lambda>r. r\<lparr>al_acknowledged_by := a\<rparr>)) (\<lambda>acknowledgements.
     bind_io (delete_rows preferences_table (own_preferences ws s)) (\<lambda>preferences.
     bind_io (delete_rows views_table (own_views ws s)) (\<lambda>views.
     bind_io (delete_rows delegations_table (own_delegations ws s)) (\<lambda>delegations.
     commit_with \<lparr>eo_anonymous = a, eo_changed = [(''alert_acknowledgements'', acknowledgements), (''alert_groups'', groups),
       (''channel_plans'', plans), (''delegations'', delegations), (''delivery_reservations'', reservations),
       (''events'', events), (''inbox_items'', items), (''preferences'', preferences), (''saved_views'', views)],
       eo_redacted = True, eo_at = now\<rparr>)))))))))"

definition erase_subject :: "instant \<Rightarrow> workspace_id \<Rightarrow> user_id \<Rightarrow> raw_holds \<Rightarrow> erasure_report sql" where
  "erase_subject now ws s h = guard_io (scope_missing ws s) scope_required (
     case active_holds h of Inl e \<Rightarrow> fail e
     | Inr hs \<Rightarrow> guard_io (hs \<noteq> []) (ErrorText ''notification subject erasure blocked by legal hold'')
         (transaction (erase_body now ws s (anonymous_subject ws s))))"

section \<open>Specification\<close>

text \<open>The erasure as a function of the database.\<close>

definition erased_payload :: "('r \<Rightarrow> 'p) \<Rightarrow> ('p \<Rightarrow> 'r \<Rightarrow> 'r) \<Rightarrow> ('p \<Rightarrow> 'p option) \<Rightarrow> 'r \<Rightarrow> 'r" where
  "erased_payload payload put rewrite r = (case rewrite (payload r) of None \<Rightarrow> r | Some p \<Rightarrow> put p r)"

definition erased_database :: "workspace_id \<Rightarrow> user_id \<Rightarrow> user_id \<Rightarrow> database \<Rightarrow> database" where
  "erased_database ws s a d = d\<lparr>
     db_items := map (\<lambda>r. if own_items ws s r then erased_row a (erased_item a (ir_payload r)) r else r) (db_items d),
     db_events := map (\<lambda>r. if er_workspace r = ws then erased_payload er_payload put_event (erased_event s a) r else r) (db_events d),
     db_plans := map (\<lambda>r. if qr_workspace r = ws then erased_payload qr_payload put_plan (erased_plan s a) r else r) (db_plans d),
     db_groups := update_where (acknowledged_groups ws s) (\<lambda>r. r\<lparr>al_acknowledged_by := a\<rparr>)
       (update_where (own_groups ws s) (\<lambda>r. r\<lparr>al_recipient := a\<rparr>) (db_groups d)),
     db_reservations := update_where (own_reservations ws s)
       (\<lambda>r. r\<lparr>vv_reservation := (vv_reservation r)\<lparr>rv_recipient := a\<rparr>\<rparr>) (db_reservations d),
     db_preferences := filter (\<lambda>r. \<not> own_preferences ws s r) (db_preferences d),
     db_views := filter (\<lambda>r. \<not> own_views ws s r) (db_views d),
     db_delegations := filter (\<lambda>r. \<not> own_delegations ws s r) (db_delegations d)\<rparr>"

end
