(* ===== verification/Erasure_Rules.thy ===== *)
theory Erasure_Rules
  imports Subject_Erasure Samples
begin

text \<open>
  The erasure of a subject implements \<open>erased_database\<close> in one step, whatever the driver does, and
  no row of the live tables of the workspace names the subject afterwards. Two lemmas after that show what is left.
\<close>

section \<open>Updates row by row\<close>

definition updates :: "('r \<Rightarrow> 'k) \<Rightarrow> ('r \<Rightarrow> 'r \<Rightarrow> 'r) \<Rightarrow> 'r list \<Rightarrow> 'r list \<Rightarrow> 'r list" where
  "updates key g sel rs = fold (\<lambda>r. update_where (\<lambda>x. key x = key r) (g r)) sel rs"

lemma updates_distinct:
  assumes "distinct (map key sel)" "\<And>r x. key (g r x) = key x"
  shows "updates key g sel rs = map (\<lambda>x. case List.find (\<lambda>r. key r = key x) sel of None \<Rightarrow> x | Some r \<Rightarrow> g r x) rs"
  using assms(1)
proof (induction sel arbitrary: rs)
  case Nil
  then show ?case by (simp add: updates_def)
next
  case (Cons r sel)
  from Cons.prems have "\<forall>y \<in> set sel. key r \<noteq> key y" by (simp add: image_iff)
  then have none: "List.find (\<lambda>y. key y = key r) sel = None" by (auto simp: find_None_iff)
  have "updates key g (r # sel) rs = updates key g sel (update_where (\<lambda>x. key x = key r) (g r) rs)"
    by (simp add: updates_def)
  also have "\<dots> = map (\<lambda>x. case List.find (\<lambda>y. key y = key x) sel of None \<Rightarrow> x | Some y \<Rightarrow> g y x)
      (update_where (\<lambda>x. key x = key r) (g r) rs)"
    using Cons by simp
  also have "\<dots> = map (\<lambda>x. case List.find (\<lambda>y. key y = key x) (r # sel) of None \<Rightarrow> x | Some y \<Rightarrow> g y x) rs"
    using none assms(2) by (auto simp: update_where_def split: option.splits)
  finally show ?case .
qed

text \<open>Updating every selected row by its own key is one map over the table.\<close>

lemma updates_own:
  assumes "distinct (map key rs)" "\<And>r x. key (g r x) = key x"
  shows "updates key g (filter P rs) rs = map (\<lambda>x. if P x then g x x else x) rs"
proof -
  have "distinct (map key (filter P rs))" using assms(1) by (rule distinct_map_filter)
  then have "updates key g (filter P rs) rs =
      map (\<lambda>x. case List.find (\<lambda>r. key r = key x) (filter P rs) of None \<Rightarrow> x | Some r \<Rightarrow> g r x) rs"
    using assms(2) by (rule updates_distinct)
  moreover have "List.find (\<lambda>r. key r = key x) (filter P rs) = (if P x then Some x else None)" if "x \<in> set rs" for x
  proof -
    have same: "r = x" if "r \<in> set rs" "key r = key x" for r
      using assms(1) \<open>x \<in> set rs\<close> that by (auto simp: distinct_map dest: inj_onD)
    show ?thesis
    proof (cases "List.find (\<lambda>r. key r = key x) (filter P rs)")
      case None
      then show ?thesis using that by (auto simp: find_None_iff)
    next
      case (Some r)
      then obtain i where "i < length (filter P rs)" "r = filter P rs ! i" "key r = key x" by (auto simp: find_Some_iff)
      then have "r \<in> set (filter P rs)" "key r = key x" using nth_mem [of i "filter P rs"] by (simp_all del: set_filter)
      with same have "r = x" "P x" by auto
      with Some show ?thesis by simp
    qed
  qed
  ultimately show ?thesis by (auto intro!: map_cong)
qed

text \<open>A table that is read and replaced as a list of rows.\<close>

locale keyed_table =
  fixes t :: "(database, 'r) table" and key :: "'r \<Rightarrow> 'k"
  assumes get_put: "fst t (snd t rs d) = rs"
    and put_put: "snd t rs (snd t qs d) = snd t rs d"
    and put_get: "snd t (fst t d) d = d"
begin

lemma for_each_updates:
  assumes "for_each (\<lambda>r. bind_io (update_rows t (Q r) (g r)) (\<lambda>_. ret ())) sel w = (Inr u, w')"
    "\<And>r x. r \<in> set sel \<Longrightarrow> Q r x = (key x = key r)"
  shows "db w' = snd t (updates key g sel (fst t (db w))) (db w)"
  using assms
proof (induction sel arbitrary: w)
  case Nil
  then show ?case by (simp add: updates_def put_get)
next
  case (Cons r sel)
  then obtain n w1 where u: "update_rows t (Q r) (g r) w = (Inr n, w1)"
    and rest: "for_each (\<lambda>r. bind_io (update_rows t (Q r) (g r)) (\<lambda>_. ret ())) sel w1 = (Inr u, w')"
    by (auto simp: bind_io_Inr)
  have "Q r = (\<lambda>x. key x = key r)" using Cons.prems(2) by auto
  with update_rows_Inr [OF u] have "db w1 = snd t (update_where (\<lambda>x. key x = key r) (g r) (fst t (db w))) (db w)" by simp
  with Cons.IH [OF rest] Cons.prems(2) show ?case by (simp add: updates_def get_put put_put)
qed

lemma fold_updates:
  assumes "fold_io (\<lambda>r n. case f r of None \<Rightarrow> ret n
      | Some p \<Rightarrow> bind_io (update_rows t (Q r) (put p)) (\<lambda>_. ret (n + 1))) sel n w = (Inr m, w')"
    "\<And>r x. r \<in> set sel \<Longrightarrow> Q r x = (key x = key r)"
  shows "db w' = snd t (updates key (\<lambda>r. put (the (f r))) (filter (\<lambda>r. f r \<noteq> None) sel) (fst t (db w))) (db w) \<and>
    m = n + int (length (filter (\<lambda>r. f r \<noteq> None) sel))"
  using assms
proof (induction sel arbitrary: n w)
  case Nil
  then show ?case by (simp add: updates_def put_get)
next
  case (Cons r sel)
  show ?case
  proof (cases "f r")
    case None
    with Cons.prems(1) have "fold_io (\<lambda>r n. case f r of None \<Rightarrow> ret n
        | Some p \<Rightarrow> bind_io (update_rows t (Q r) (put p)) (\<lambda>_. ret (n + 1))) sel n w = (Inr m, w')"
      by (simp add: bind_io_Inr)
    from Cons.IH [OF this] Cons.prems(2) None show ?thesis by simp
  next
    case (Some p)
    with Cons.prems(1) obtain k w1 where u: "update_rows t (Q r) (put p) w = (Inr k, w1)"
      and rest: "fold_io (\<lambda>r n. case f r of None \<Rightarrow> ret n
        | Some p \<Rightarrow> bind_io (update_rows t (Q r) (put p)) (\<lambda>_. ret (n + 1))) sel (n + 1) w1 = (Inr m, w')"
      by (auto simp: bind_io_Inr)
    have "Q r = (\<lambda>x. key x = key r)" using Cons.prems(2) by auto
    with update_rows_Inr [OF u] have "db w1 = snd t (update_where (\<lambda>x. key x = key r) (put p) (fst t (db w))) (db w)" by simp
    with Cons.IH [OF rest] Cons.prems(2) Some show ?thesis by (simp add: updates_def get_put put_put)
  qed
qed

lemma rewrite_payloads_Inr:
  assumes "rewrite_payloads t own same payload put rewrite w = (Inr m, w')" "distinct (map key (fst t (db w)))"
    "\<And>r x. own r \<Longrightarrow> (own x \<and> same r x) = (key x = key r)" "\<And>p x. key (put p x) = key x"
  shows "db w' = snd t (map (\<lambda>r. if own r then erased_payload payload put rewrite r else r) (fst t (db w))) (db w) \<and>
    m = int (length (filter (\<lambda>r. own r \<and> rewrite (payload r) \<noteq> None) (fst t (db w))))"
proof -
  obtain rs w1 where sel: "select_rows t own w = (Inr rs, w1)"
    and run: "fold_io (\<lambda>r n. case rewrite (payload r) of None \<Rightarrow> ret n
      | Some p \<Rightarrow> bind_io (update_rows t (\<lambda>x. own x \<and> same r x) (put p)) (\<lambda>_. ret (n + 1))) rs 0 w1 = (Inr m, w')"
    using assms(1) unfolding rewrite_payloads_def by (auto simp: bind_io_Inr)
  have rs: "rs = filter own (fst t (db w))" "db w1 = db w" using select_rows_Inr [OF sel] by simp_all
  have q: "r \<in> set rs \<Longrightarrow> (own x \<and> same r x) = (key x = key r)" for r x using assms(3) by (simp add: rs)
  have both: "filter (\<lambda>r. rewrite (payload r) \<noteq> None) rs = filter (\<lambda>r. own r \<and> rewrite (payload r) \<noteq> None) (fst t (db w))"
    by (simp add: rs conj_commute)
  note step = fold_updates [where f = "\<lambda>r. rewrite (payload r)" and Q = "\<lambda>r x. own x \<and> same r x", OF run q, unfolded both rs(2)]
  have "updates key (\<lambda>r. put (the (rewrite (payload r)))) (filter (\<lambda>r. own r \<and> rewrite (payload r) \<noteq> None) (fst t (db w))) (fst t (db w)) =
      map (\<lambda>r. if own r \<and> rewrite (payload r) \<noteq> None then put (the (rewrite (payload r))) r else r) (fst t (db w))"
    by (rule updates_own [OF assms(2)]) (rule assms(4))
  also have "\<dots> = map (\<lambda>r. if own r then erased_payload payload put rewrite r else r) (fst t (db w))"
    by (rule map_cong) (auto simp: erased_payload_def split: option.splits)
  finally show ?thesis using step by simp
qed

end

interpretation items: keyed_table items_table "\<lambda>r. (ir_workspace r, ir_id r)"
  by unfold_locales simp_all

interpretation events: keyed_table events_table "\<lambda>r. (er_workspace r, er_id r)"
  by unfold_locales simp_all

interpretation plans: keyed_table plans_table "\<lambda>r. (qr_workspace r, qr_id r)"
  by unfold_locales simp_all

lemma distinct_keys:
  assumes "schema_ok d"
  shows "distinct (map (\<lambda>r. (ir_workspace r, ir_id r)) (db_items d))" "distinct (map (\<lambda>r. (er_workspace r, er_id r)) (db_events d))"
    "distinct (map (\<lambda>r. (qr_workspace r, qr_id r)) (db_plans d))"
  using no_clash_distinct [OF schema_ok_parts(4) [OF assms], of "\<lambda>r. (ir_workspace r, ir_id r)"]
    no_clash_distinct [OF schema_ok_parts(1) [OF assms], of "\<lambda>r. (er_workspace r, er_id r)"]
    no_clash_distinct [OF schema_ok_parts(3) [OF assms], of "\<lambda>r. (qr_workspace r, qr_id r)"]
  by (auto simp: item_clash_def event_clash_def plan_clash_def)

section \<open>The erasure is one step\<close>

lemma anonymize_items_Inr:
  assumes "anonymize_items ws s a w = (Inr n, w')" "schema_ok (db w)"
  shows "db w' = (db w)\<lparr>db_items := map (\<lambda>r. if own_items ws s r then erased_row a (erased_item a (ir_payload r)) r else r)
      (db_items (db w))\<rparr> \<and> n = int (length (filter (own_items ws s) (db_items (db w))))"
proof -
  let ?g = "\<lambda>r. erased_row a (erased_item a (ir_payload r))"
  obtain rs u w1 where sel: "select_rows items_table (own_items ws s) w = (Inr rs, w1)"
    and run: "for_each (\<lambda>r. bind_io (update_rows items_table (\<lambda>x. ir_workspace x = ws \<and> ir_id x = ir_id r) (?g r)) (\<lambda>_. ret ())) rs w1 = (Inr u, w')"
    and n: "n = int (length rs)"
    using assms(1) unfolding anonymize_items_def by (auto simp: bind_io_Inr)
  have rs: "rs = filter (own_items ws s) (db_items (db w))" "db w1 = db w" using select_rows_Inr [OF sel] by simp_all
  have q: "r \<in> set rs \<Longrightarrow> (ir_workspace x = ws \<and> ir_id x = ir_id r) = ((ir_workspace x, ir_id x) = (ir_workspace r, ir_id r))" for r x
    by (auto simp: rs)
  have "updates (\<lambda>r. (ir_workspace r, ir_id r)) ?g (filter (own_items ws s) (db_items (db w))) (db_items (db w)) =
      map (\<lambda>r. if own_items ws s r then ?g r r else r) (db_items (db w))"
    by (rule updates_own [OF distinct_keys(1) [OF assms(2)]]) (simp add: erased_row_def)
  then show ?thesis using items.for_each_updates [where g = ?g, OF run q] by (simp add: n rs)
qed

lemma erased_None: "erased_event s a e = None \<longleftrightarrow> s \<notin> set (ev_recipients e)" "erased_plan s a p = None \<longleftrightarrow> s \<notin> set (pl_recipients p)"
  by (simp_all add: erased_event_def erased_plan_def)

lemma rewrite_events_Inr:
  assumes "rewrite_events ws s a w = (Inr n, w')" "schema_ok (db w)"
  shows "db w' = (db w)\<lparr>db_events := map (\<lambda>r. if er_workspace r = ws then erased_payload er_payload put_event (erased_event s a) r else r)
      (db_events (db w))\<rparr> \<and>
    n = int (length (filter (\<lambda>r. er_workspace r = ws \<and> s \<in> set (ev_recipients (er_payload r))) (db_events (db w))))"
  using events.rewrite_payloads_Inr [OF assms(1) [unfolded rewrite_events_def]] distinct_keys(2) [OF assms(2)]
  by (simp add: put_event_def erased_None del: not_None_eq)

lemma rewrite_plans_Inr:
  assumes "rewrite_plans ws s a w = (Inr n, w')" "schema_ok (db w)"
  shows "db w' = (db w)\<lparr>db_plans := map (\<lambda>r. if qr_workspace r = ws then erased_payload qr_payload put_plan (erased_plan s a) r else r)
      (db_plans (db w))\<rparr> \<and>
    n = int (length (filter (\<lambda>r. qr_workspace r = ws \<and> s \<in> set (pl_recipients (qr_payload r))) (db_plans (db w))))"
  using plans.rewrite_payloads_Inr [OF assms(1) [unfolded rewrite_plans_def]] distinct_keys(3) [OF assms(2)]
  by (simp add: put_plan_def erased_None del: not_None_eq)

lemma update_unique_Inr:
  "update_unique t c m P f w = (Inr n, w') \<Longrightarrow> no_clash c (update_where P f (fst t (db w))) \<and>
     n = int (length (filter P (fst t (db w)))) \<and> db w' = snd t (update_where P f (fst t (db w))) (db w)"
  by (auto simp: update_unique_def Let_def dest!: exec_Inr split: if_splits)

lemma anonymize_keeps_schema: "preserves schema_ok (anonymize_items ws s a)"
  unfolding anonymize_items_def by (intro preserves_intros schema_updates) (simp add: erased_row_def)

lemma rewrite_keeps_schema: "preserves schema_ok (rewrite_events ws s a)" "preserves schema_ok (rewrite_plans ws s a)"
  unfolding rewrite_events_def rewrite_plans_def rewrite_payloads_def
  by (intro preserves_intros schema_updates; simp add: put_event_def put_plan_def)+

definition erased_counts :: "workspace_id \<Rightarrow> user_id \<Rightarrow> database \<Rightarrow> (string \<times> int) list" where
  "erased_counts ws s d = 
     [(''alert_acknowledgements'', int (length (filter (acknowledged_groups ws s) (db_groups d)))),
      (''alert_groups'', int (length (filter (own_groups ws s) (db_groups d)))),
      (''channel_plans'', int (length (filter (\<lambda>r. qr_workspace r = ws \<and> s \<in> set (pl_recipients (qr_payload r))) (db_plans d)))),
      (''delegations'', int (length (filter (own_delegations ws s) (db_delegations d)))),
      (''delivery_reservations'', int (length (filter (own_reservations ws s) (db_reservations d)))),
      (''events'', int (length (filter (\<lambda>r. er_workspace r = ws \<and> s \<in> set (ev_recipients (er_payload r))) (db_events d)))),
      (''inbox_items'', int (length (filter (own_items ws s) (db_items d)))),
      (''preferences'', int (length (filter (own_preferences ws s) (db_preferences d)))),
      (''saved_views'', int (length (filter (own_views ws s) (db_views d))))]"

definition erasure_of :: "instant \<Rightarrow> workspace_id \<Rightarrow> user_id \<Rightarrow> database \<Rightarrow> erasure_report" where
  "erasure_of now ws s d = \<lparr>eo_anonymous = anonymous_subject ws s, eo_changed = erased_counts ws s d, eo_redacted = True, eo_at = now\<rparr>"

text \<open>The pseudonym takes over the subject's alert groups without meeting one of its own.\<close>

definition pseudonym_free :: "workspace_id \<Rightarrow> user_id \<Rightarrow> user_id \<Rightarrow> database \<Rightarrow> bool" where
  "pseudonym_free ws s a d \<longleftrightarrow> no_clash group_clash (update_where (own_groups ws s) (\<lambda>r. r\<lparr>al_recipient := a\<rparr>) (db_groups d))"

lemma count_update_same:
  "(\<And>r. Q (f r) = Q r) \<Longrightarrow> length (filter Q (update_where P f rs)) = length (filter Q rs)"
  by (induction rs) (simp_all add: update_where_def)

lemma erase_body_Inr:
  assumes "erase_body now ws s a w = (Inr (c, rep), w')" "schema_ok (db w)"
  shows "c \<and> pseudonym_free ws s a (db w) \<and> db w' = erased_database ws s a (db w) \<and>
    rep = (erasure_of now ws s (db w))\<lparr>eo_anonymous := a\<rparr>"
proof -
  obtain n1 w1 n2 w2 n3 w3 n4 w4 n5 w5 n6 w6 n7 w7 n8 w8 n9 w9 where
    run: "anonymize_items ws s a w = (Inr n1, w1)" "rewrite_events ws s a w1 = (Inr n2, w2)" "rewrite_plans ws s a w2 = (Inr n3, w3)"
      "update_unique groups_table group_clash ''uniq_notification_alert_group'' (own_groups ws s) (\<lambda>r. r\<lparr>al_recipient := a\<rparr>) w3 = (Inr n4, w4)"
      "update_rows reservations_table (own_reservations ws s) (\<lambda>r. r\<lparr>vv_reservation := (vv_reservation r)\<lparr>rv_recipient := a\<rparr>\<rparr>) w4 = (Inr n5, w5)"
      "update_rows groups_table (acknowledged_groups ws s) (\<lambda>r. r\<lparr>al_acknowledged_by := a\<rparr>) w5 = (Inr n6, w6)"
      "delete_rows preferences_table (own_preferences ws s) w6 = (Inr n7, w7)"
      "delete_rows views_table (own_views ws s) w7 = (Inr n8, w8)"
      "delete_rows delegations_table (own_delegations ws s) w8 = (Inr n9, w9)"
    and c: "c" "w' = w9" and rep: "rep = \<lparr>eo_anonymous = a, eo_changed = [(''alert_acknowledgements'', n6), (''alert_groups'', n4),
       (''channel_plans'', n3), (''delegations'', n9), (''delivery_reservations'', n5),
       (''events'', n2), (''inbox_items'', n1), (''preferences'', n7), (''saved_views'', n8)], eo_redacted = True, eo_at = now\<rparr>"
    using assms(1) unfolding erase_body_def bind_io_Inr commit_with_eq by blast
  note s1 = anonymize_items_Inr [OF run(1) assms(2)]
  have ok1: "schema_ok (db w1)" by (rule preservesD [OF anonymize_keeps_schema assms(2) run(1)])
  note s2 = rewrite_events_Inr [OF run(2) ok1]
  have ok2: "schema_ok (db w2)" by (rule preservesD [OF rewrite_keeps_schema(1) ok1 run(2)])
  note s3 = rewrite_plans_Inr [OF run(3) ok2]
  note s4 = update_unique_Inr [OF run(4)] update_rows_Inr [OF run(5)] update_rows_Inr [OF run(6)]
    delete_rows_Inr [OF run(7)] delete_rows_Inr [OF run(8)] delete_rows_Inr [OF run(9)]
  show ?thesis
    using s1 s2 s3 s4 by (simp add: c rep pseudonym_free_def erased_database_def erasure_of_def erased_counts_def count_update_same)
qed

lemma no_clash_map: "no_clash c rs \<Longrightarrow> (\<And>a b. c (f a) (f b) = c a b) \<Longrightarrow> no_clash c (map f rs)"
  by (simp add: no_clash_def sorted_wrt_map)

lemma erased_keys:
  "er_workspace (erased_payload er_payload put_event (erased_event s a) r) = er_workspace r"
  "er_id (erased_payload er_payload put_event (erased_event s a) r) = er_id r"
  "er_source (erased_payload er_payload put_event (erased_event s a) r) = er_source r"
  "er_source_event (erased_payload er_payload put_event (erased_event s a) r) = er_source_event r"
  "qr_workspace (erased_payload qr_payload put_plan (erased_plan s a) q) = qr_workspace q"
  "qr_id (erased_payload qr_payload put_plan (erased_plan s a) q) = qr_id q"
  "ir_workspace (erased_row a i x) = ir_workspace x" "ir_id (erased_row a i x) = ir_id x"
  by (simp_all add: erased_payload_def put_event_def put_plan_def erased_row_def split: option.splits)

lemma erased_keeps_schema:
  assumes "schema_ok d" "pseudonym_free ws s a d" shows "schema_ok (erased_database ws s a d)"
proof -
  note ok = schema_ok_parts [OF assms(1)]
  have "no_clash item_clash (db_items (erased_database ws s a d))"
    unfolding erased_database_def by (simp, rule no_clash_map [OF ok(4)]) (simp add: item_clash_def erased_keys)
  moreover have "no_clash event_clash (db_events (erased_database ws s a d))"
    unfolding erased_database_def by (simp, rule no_clash_map [OF ok(1)]) (simp add: event_clash_def erased_keys)
  moreover have "no_clash plan_clash (db_plans (erased_database ws s a d))"
    unfolding erased_database_def by (simp, rule no_clash_map [OF ok(3)]) (simp add: plan_clash_def erased_keys)
  moreover have "no_clash group_clash (update_where (acknowledged_groups ws s) (\<lambda>r. r\<lparr>al_acknowledged_by := a\<rparr>)
      (update_where (own_groups ws s) (\<lambda>r. r\<lparr>al_recipient := a\<rparr>) (db_groups d)))"
    by (rule no_clash_update [OF assms(2) [unfolded pseudonym_free_def]]) (simp add: group_clash_def)
  moreover have "no_clash reservation_clash (update_where (own_reservations ws s)
      (\<lambda>r. r\<lparr>vv_reservation := (vv_reservation r)\<lparr>rv_recipient := a\<rparr>\<rparr>) (db_reservations d))"
    by (rule no_clash_update [OF ok(14)]) (simp add: reservation_clash_def)
  ultimately show ?thesis using ok by (simp add: schema_ok_def erased_database_def no_clash_filter)
qed

lemma erase_subject_cases:
  assumes "schema_ok (db w)" "erase_subject now ws s h w = (r, w')"
  shows "db w' = db w \<and> (\<exists>e. r = Inl e) \<or>
    \<not> scope_missing ws s \<and> active_holds h = Inr [] \<and> pseudonym_free ws s (anonymous_subject ws s) (db w) \<and>
    db w' = erased_database ws s (anonymous_subject ws s) (db w) \<and>
    (r = Inr (erasure_of now ws s (db w)) \<or> r = Inl DriverError)"
proof (cases "scope_missing ws s \<or> active_holds h \<noteq> Inr []")
  case True
  then show ?thesis using assms(2)
    by (auto simp: erase_subject_def guard_io_def split: sum.splits if_splits)
next
  case False
  let ?a = "anonymous_subject ws s"
  let ?R = "\<lambda>d rep d'. schema_ok d \<longrightarrow> pseudonym_free ws s ?a d \<and> d' = erased_database ws s ?a d \<and> rep = erasure_of now ws s d"
  have t: "transaction (erase_body now ws s ?a) w = (r, w')"
    using assms(2) False by (simp add: erase_subject_def guard_io_def)
  have "c \<and> ?R (db w) rep (db w')" if "erase_body now ws s ?a w = (Inr (c, rep), w')" for w c rep w'
    using erase_body_Inr [OF that] that by (auto simp: erasure_of_def erase_body_def bind_io_Inr)
  from transaction_commits [where R = ?R, OF t this] assms(1) False show ?thesis by blast
qed

text \<open>C31: Erasing a subject is one step, whatever the driver does: it either fails and changes nothing, or
  there is no legal hold and the database becomes exactly \<open>erased_database\<close>, which keeps every
  unique index, and the report counts the rows that were changed. It also fails without an
  effect when the pseudonym already has an alert group of the same key.\<close>

theorem erase_refines:
  assumes "schema_ok (db w)" "erase_subject now ws s h w = (r, w')"
  shows "db w' = db w \<and> (\<exists>e. r = Inl e) \<or>
    active_holds h = Inr [] \<and> pseudonym_free ws s (anonymous_subject ws s) (db w) \<and>
    db w' = erased_database ws s (anonymous_subject ws s) (db w) \<and> schema_ok (db w') \<and>
    (r = Inr (erasure_of now ws s (db w)) \<or> r = Inl DriverError)"
  using erase_subject_cases [OF assms] erased_keeps_schema [OF assms(1)] by metis

lemma erase_subject_Inr:
  assumes "schema_ok (db w)" "erase_subject now ws s h w = (Inr rep, w')"
  shows "db w' = erased_database ws s (anonymous_subject ws s) (db w)" "rep = erasure_of now ws s (db w)"
  using erase_subject_cases [OF assms] by auto

section \<open>Nothing names the subject\<close>

definition names_subject :: "workspace_id \<Rightarrow> user_id \<Rightarrow> database \<Rightarrow> bool" where
  "names_subject ws s d \<longleftrightarrow> (\<exists>r \<in> set (db_items d). own_items ws s r) \<or>
     (\<exists>r \<in> set (db_events d). er_workspace r = ws \<and> s \<in> set (ev_recipients (er_payload r))) \<or>
     (\<exists>r \<in> set (db_plans d). qr_workspace r = ws \<and> s \<in> set (pl_recipients (qr_payload r))) \<or>
     (\<exists>r \<in> set (db_groups d). own_groups ws s r \<or> acknowledged_groups ws s r) \<or>
     (\<exists>r \<in> set (db_reservations d). own_reservations ws s r) \<or> (\<exists>r \<in> set (db_preferences d). own_preferences ws s r) \<or>
     (\<exists>r \<in> set (db_views d). own_views ws s r) \<or> (\<exists>r \<in> set (db_delegations d). own_delegations ws s r)"

definition redacted_item :: "user_id \<Rightarrow> item_row \<Rightarrow> bool" where
  "redacted_item a r \<longleftrightarrow> ir_recipient r = a \<and> it_recipient (ir_payload r) = a \<and> ir_title r = erased_text \<and> ir_body r = erased_text \<and> ir_search r = [] \<and> ir_subject_id r = [] \<and>
     it_title (ir_payload r) = erased_text \<and> it_body (ir_payload r) = erased_text \<and> it_facts (ir_payload r) = [] \<and>
     it_actions (ir_payload r) = [] \<and> it_subject_id (ir_payload r) = [] \<and> it_subject_version (ir_payload r) = [] \<and>
     it_template_hash (ir_payload r) = []"

definition redacted_event :: "user_id \<Rightarrow> event_row \<Rightarrow> bool" where
  "redacted_event s r \<longleftrightarrow> (let e = er_payload r in sn_title (ev_snapshot e) = erased_text \<and> sn_body (ev_snapshot e) = erased_text \<and>
     sn_facts (ev_snapshot e) = [] \<and> sn_actions (ev_snapshot e) = [] \<and> ev_localized e = [] \<and> ev_correlation e = [] \<and>
     ev_trace e = [] \<and> (\<forall>p \<in> set (ev_plans e). s \<notin> set (pl_recipients p) \<and> pl_variables p = []))"

definition redacted_plan :: "plan_row \<Rightarrow> bool" where
  "redacted_plan r \<longleftrightarrow> pl_variables (qr_payload r) = [] \<and> pl_digest_title (qr_payload r) = erased_text \<and>
     pl_digest_body (qr_payload r) = erased_text"

lemma replaced_recipients: "a \<noteq> s \<Longrightarrow> s \<notin> set (replace_recipients s a us)"
  by (auto simp: replace_recipients_def)

lemma erased_event_recipients: "a \<noteq> s \<Longrightarrow> s \<notin> set (ev_recipients (er_payload (erased_payload er_payload put_event (erased_event s a) r)))"
  by (auto simp: erased_payload_def erased_event_def put_event_def replaced_recipients split: option.splits if_splits)

lemma erased_plan_recipients: "a \<noteq> s \<Longrightarrow> s \<notin> set (pl_recipients (qr_payload (erased_payload qr_payload put_plan (erased_plan s a) r)))"
  by (auto simp: erased_payload_def erased_plan_def put_plan_def replaced_recipients split: option.splits if_splits)

lemma erased_names_nobody:
  assumes "a \<noteq> s" shows "\<not> names_subject ws s (erased_database ws s a d)"
proof -
  let ?d = "erased_database ws s a d"
  have "\<not> own_items ws s r" if "r \<in> set (db_items ?d)" for r
  proof -
    from that have "r \<in> (\<lambda>y. if own_items ws s y then erased_row a (erased_item a (ir_payload y)) y else y) ` set (db_items d)" by (simp add: erased_database_def)
    then obtain y where "r = (if own_items ws s y then erased_row a (erased_item a (ir_payload y)) y else y)" by (rule imageE)
    with assms show ?thesis by (simp add: erased_row_def split: if_splits)
  qed
  moreover have "\<not> (er_workspace r = ws \<and> s \<in> set (ev_recipients (er_payload r)))" if "r \<in> set (db_events ?d)" for r
  proof -
    from that have "r \<in> (\<lambda>y. if er_workspace y = ws then erased_payload er_payload put_event (erased_event s a) y else y) ` set (db_events d)" by (simp add: erased_database_def)
    then obtain y where "r = (if er_workspace y = ws then erased_payload er_payload put_event (erased_event s a) y else y)" by (rule imageE)
    with erased_event_recipients [OF assms] show ?thesis by (simp add: erased_keys)
  qed
  moreover have "\<not> (qr_workspace r = ws \<and> s \<in> set (pl_recipients (qr_payload r)))" if "r \<in> set (db_plans ?d)" for r
  proof -
    from that have "r \<in> (\<lambda>y. if qr_workspace y = ws then erased_payload qr_payload put_plan (erased_plan s a) y else y) ` set (db_plans d)" by (simp add: erased_database_def)
    then obtain y where "r = (if qr_workspace y = ws then erased_payload qr_payload put_plan (erased_plan s a) y else y)" by (rule imageE)
    with erased_plan_recipients [OF assms] show ?thesis by (simp add: erased_keys)
  qed
  moreover have "\<not> (own_groups ws s r \<or> acknowledged_groups ws s r)" if "r \<in> set (db_groups ?d)" for r
  proof -
    let ?f = "\<lambda>y. if own_groups ws s y then y\<lparr>al_recipient := a\<rparr> else y"
    from that have "r \<in> (\<lambda>y. if acknowledged_groups ws s (?f y) then (?f y)\<lparr>al_acknowledged_by := a\<rparr> else ?f y) ` set (db_groups d)"
      by (simp add: erased_database_def update_where_def image_image)
    then obtain y where "r = (if acknowledged_groups ws s (?f y) then (?f y)\<lparr>al_acknowledged_by := a\<rparr> else ?f y)" by (rule imageE)
    with assms show ?thesis by (cases "own_groups ws s y"; cases "acknowledged_groups ws s y") auto
  qed
  moreover have "\<not> own_reservations ws s r" if "r \<in> set (db_reservations ?d)" for r
  proof -
    let ?f = "\<lambda>y. if own_reservations ws s y then y\<lparr>vv_reservation := (vv_reservation y)\<lparr>rv_recipient := a\<rparr>\<rparr> else y"
    from that have "r \<in> ?f ` set (db_reservations d)" by (simp add: erased_database_def update_where_def)
    then obtain y where "r = ?f y" by (rule imageE)
    with assms show ?thesis by (cases "own_reservations ws s y") auto
  qed
  moreover have "\<not> own_preferences ws s r" if "r \<in> set (db_preferences ?d)" for r
    using that by (simp add: erased_database_def)
  moreover have "\<not> own_views ws s r" if "r \<in> set (db_views ?d)" for r
    using that by (simp add: erased_database_def)
  moreover have "\<not> own_delegations ws s r" if "r \<in> set (db_delegations ?d)" for r
    using that by (simp add: erased_database_def)
  ultimately show ?thesis unfolding names_subject_def by blast
qed

text \<open>The row an identity names after a change of rows is the changed row it named before.\<close>

lemma mapped_row:
  assumes "distinct (map key rs)" "\<And>x. key (f x) = key x" "r \<in> set rs" "x \<in> set (map f rs)" "key x = key r"
  shows "x = f r"
proof -
  obtain y where y: "y \<in> set rs" "x = f y" using assms(4) by auto
  with assms(2,5) have "key y = key r" by simp
  with assms(1,3) y(1) have "y = r" by (auto simp: distinct_map dest: inj_onD)
  with y(2) show ?thesis by simp
qed

lemma erased_redacted:
  assumes "schema_ok d" "a \<noteq> s"
  shows "r \<in> set (db_items d) \<Longrightarrow> own_items ws s r \<Longrightarrow> x \<in> set (db_items (erased_database ws s a d)) \<Longrightarrow>
      ir_workspace x = ws \<Longrightarrow> ir_id x = ir_id r \<Longrightarrow> redacted_item a x"
    "e \<in> set (db_events d) \<Longrightarrow> er_workspace e = ws \<Longrightarrow> s \<in> set (ev_recipients (er_payload e)) \<Longrightarrow>
      y \<in> set (db_events (erased_database ws s a d)) \<Longrightarrow> er_workspace y = ws \<Longrightarrow> er_id y = er_id e \<Longrightarrow> redacted_event s y"
    "p \<in> set (db_plans d) \<Longrightarrow> qr_workspace p = ws \<Longrightarrow> s \<in> set (pl_recipients (qr_payload p)) \<Longrightarrow>
      z \<in> set (db_plans (erased_database ws s a d)) \<Longrightarrow> qr_workspace z = ws \<Longrightarrow> qr_id z = qr_id p \<Longrightarrow> redacted_plan z"
proof -
  note keys = distinct_keys [OF assms(1)]
  show "r \<in> set (db_items d) \<Longrightarrow> own_items ws s r \<Longrightarrow> x \<in> set (db_items (erased_database ws s a d)) \<Longrightarrow>
      ir_workspace x = ws \<Longrightarrow> ir_id x = ir_id r \<Longrightarrow> redacted_item a x"
    using mapped_row [OF keys(1), of "\<lambda>r. if own_items ws s r then erased_row a (erased_item a (ir_payload r)) r else r" r x]
    by (simp add: erased_database_def erased_keys) (simp add: redacted_item_def erased_row_def erased_item_def)
  show "e \<in> set (db_events d) \<Longrightarrow> er_workspace e = ws \<Longrightarrow> s \<in> set (ev_recipients (er_payload e)) \<Longrightarrow>
      y \<in> set (db_events (erased_database ws s a d)) \<Longrightarrow> er_workspace y = ws \<Longrightarrow> er_id y = er_id e \<Longrightarrow> redacted_event s y"
    using mapped_row [OF keys(2), of "\<lambda>r. if er_workspace r = ws then erased_payload er_payload put_event (erased_event s a) r else r" e y]
    by (simp add: erased_database_def erased_keys) (auto simp: redacted_event_def erased_payload_def erased_event_def put_event_def Let_def replaced_recipients [OF assms(2)])
  show "p \<in> set (db_plans d) \<Longrightarrow> qr_workspace p = ws \<Longrightarrow> s \<in> set (pl_recipients (qr_payload p)) \<Longrightarrow>
      z \<in> set (db_plans (erased_database ws s a d)) \<Longrightarrow> qr_workspace z = ws \<Longrightarrow> qr_id z = qr_id p \<Longrightarrow> redacted_plan z"
    using mapped_row [OF keys(3), of "\<lambda>r. if qr_workspace r = ws then erased_payload qr_payload put_plan (erased_plan s a) r else r" p z]
    by (simp add: erased_database_def erased_keys) (simp add: redacted_plan_def erased_payload_def erased_plan_def put_plan_def)
qed

text \<open>C32: A successful erasure, when the pseudonym is not the subject's own identifier, replaces the subject by his pseudonym in the live tables and redacts what was sent to him there. In
  the workspace no row of the items, alert groups, reservations, preferences, saved views or delegations names him (as recipient,
  as the one who acknowledged, as owner or delegate), and no payload of an event or a plan row lists him as recipient. Every item
  he had goes to the pseudonym with its titles, bodies, search text, facts, actions and subject erased in columns and payload;
  every event sent to him has lost the snapshot's texts, facts and actions, the localized snapshots, the correlation and the
  trace, and the plans inside it name him no more and have no variables; every plan row sent to him has neither variables nor
  digest texts. (Nothing is claimed of two places the code leaves as they are, which the findings report: the entries of the
  retention archive, \<open>erasure_keeps_archive\<close>, and the digest texts of the plans inside an event payload,
  \<open>erasure_keeps_digest_text\<close>.)\<close>

theorem erasure_pseudonymizes:
  assumes "schema_ok (db w)" "erase_subject now ws s h w = (Inr rep, w')" "anonymous_subject ws s \<noteq> s"
  shows "\<not> names_subject ws s (db w') \<and>
    (\<forall>r \<in> set (db_items (db w)). own_items ws s r \<longrightarrow>
      (\<forall>x \<in> set (db_items (db w')). ir_workspace x = ws \<and> ir_id x = ir_id r \<longrightarrow> redacted_item (anonymous_subject ws s) x)) \<and>
    (\<forall>r \<in> set (db_events (db w)). er_workspace r = ws \<and> s \<in> set (ev_recipients (er_payload r)) \<longrightarrow>
      (\<forall>x \<in> set (db_events (db w')). er_workspace x = ws \<and> er_id x = er_id r \<longrightarrow> redacted_event s x)) \<and>
    (\<forall>r \<in> set (db_plans (db w)). qr_workspace r = ws \<and> s \<in> set (pl_recipients (qr_payload r)) \<longrightarrow>
      (\<forall>x \<in> set (db_plans (db w')). qr_workspace x = ws \<and> qr_id x = qr_id r \<longrightarrow> redacted_plan x))"
  unfolding erase_subject_Inr(1) [OF assms(1,2)]
  using erased_names_nobody [OF assms(3)] erased_redacted [OF assms(1,3)] by (intro conjI ballI impI) blast+

lemma preview_subject_Inr:
  assumes "preview_subject ws s w = (Inr cs, w')"
  shows "db w' = db w \<and> set cs \<subseteq> set (erased_counts ws s (db w))"
proof -
  obtain n1 w1 n2 w2 n3 w3 n4 w4 n5 where
    run: "count_rows items_table (own_items ws s) w = (Inr n1, w1)" "count_rows preferences_table (own_preferences ws s) w1 = (Inr n2, w2)"
      "count_rows reservations_table (own_reservations ws s) w2 = (Inr n3, w3)" "count_rows views_table (own_views ws s) w3 = (Inr n4, w4)"
      "count_rows delegations_table (own_delegations ws s) w4 = (Inr n5, w')"
    and cs: "cs = [(''delegations'', n5), (''delivery_reservations'', n3), (''inbox_items'', n1), (''preferences'', n2), (''saved_views'', n4)]"
    using assms unfolding preview_subject_def guard_io_Inr bind_io_Inr ret_eq by blast
  show ?thesis using run [THEN count_rows_Inr] by (simp add: cs erased_counts_def)
qed

text \<open>What the preview announces is what the erasure does: the counts of items, preferences, reservations,
  saved views and delegations it gives are those the report of an erasure right after it contains.\<close>

theorem preview_foretells_erasure:
  assumes "schema_ok (db w)" "preview_subject ws s w = (Inr cs, w1)" "erase_subject now ws s h w1 = (Inr rep, w2)"
  shows "set cs \<subseteq> set (eo_changed rep)"
  using preview_subject_Inr [OF assms(2)] erase_subject_Inr(2) [of w1 now ws s h rep w2] assms(1,3) by (simp add: erasure_of_def)

text \<open>
  What the erasure misses. The archived copies of the retention keep the subject's items. The titles
  and texts the plans inside an event carry for digests stay. And once a pseudonym has an alert
  group, a group of the same key that the subject gets later makes every further erasure fail.
\<close>

lemma erasure_keeps_archive: "db_archive (erased_database ws s a d) = db_archive d"
  by (simp add: erased_database_def)

lemma erasure_keeps_digest_text:
  assumes "erased_event s a e = Some e'"
  shows "map pl_digest_title (ev_plans e') = map pl_digest_title (ev_plans e) \<and>
    map pl_digest_body (ev_plans e') = map pl_digest_body (ev_plans e)"
  using assms by (auto simp: erased_event_def split: if_splits)

lemma second_erasure_fails:
  assumes "schema_ok (db w)" "erase_subject now ws s h w = (r, w')" "anonymous_subject ws s \<noteq> s"
    "g \<in> set (db_groups (db w))" "own_groups ws s g"
    "g' \<in> set (db_groups (db w))" "own_groups ws (anonymous_subject ws s) g'" "al_group g' = al_group g"
  shows "db w' = db w \<and> (\<exists>e. r = Inl e)"
proof -
  let ?a = "anonymous_subject ws s" and ?f = "\<lambda>r. r\<lparr>al_recipient := anonymous_subject ws s\<rparr>"
  have "\<not> pseudonym_free ws s ?a (db w)"
  proof
    assume free: "pseudonym_free ws s ?a (db w)"
    let ?gs = "update_where (own_groups ws s) ?f (db_groups (db w))"
    have pos: "\<exists>i < length rs. \<exists>j < length rs. i \<noteq> j \<and> rs ! i = x \<and> rs ! j = y" if "x \<in> set rs" "y \<in> set rs" "x \<noteq> y" for rs and x y :: alert_group
      using that by (metis in_set_conv_nth)
    have "g \<noteq> g'" using assms(3,5,7) by auto
    from pos [OF assms(4,6) this] obtain i j where ij: "i < length (db_groups (db w))" "j < length (db_groups (db w))" "i \<noteq> j"
      "db_groups (db w) ! i = g" "db_groups (db w) ! j = g'" by blast
    have "group_clash (?gs ! i) (?gs ! j) \<and> group_clash (?gs ! j) (?gs ! i)"
      using ij assms(3,5,7,8) by (simp add: update_where_def group_clash_def)
    with free ij show False
      by (cases "i < j") (auto simp: pseudonym_free_def no_clash_def sorted_wrt_iff_nth_less)
  qed
  with erase_subject_cases [OF assms(1,2)] show ?thesis by blast
qed

section \<open>An example\<close>

definition subject_database :: database where
  "subject_database = empty_database\<lparr>
     db_items := [\<lparr>ir_id = ''i1'', ir_workspace = ''ws'', ir_recipient = ''u1'', ir_event = ''e1'', ir_event_type = ''order.done'',
       ir_source = ''records'', ir_category = ''orders'', ir_severity = ''info'', ir_title = ''Order'', ir_body = ''Order 7'',
       ir_search = ''order'', ir_payload = sample_item, ir_subject_type = ''order'', ir_subject_id = ''7'', ir_action_state = ''none'',
       ir_alert_state = ''firing'', ir_group = ''g1'', ir_occurrences = 1, ir_first = ''2026-01-01'', ir_last = ''2026-01-01'',
       ir_read = [], ir_archived = [], ir_expires = [], ir_created = ''2026-01-01'', ir_updated = ''2026-01-01''\<rparr>],
     db_events := [\<lparr>er_id = ''e1'', er_workspace = ''ws'', er_source = ''records'', er_source_event = ''s1'', er_status = ''materialized'',
       er_payload = sample_event, er_attempts = 1, er_next_attempt = [], er_error_code = [], er_owner = [], er_lease = [],
       er_token = 1, er_occurred = ''2026-01-01'', er_created = ''2026-01-01'', er_updated = ''2026-01-01''\<rparr>],
     db_groups := [\<lparr>al_workspace = ''ws'', al_recipient = ''u1'', al_group = ''g1'', al_state = ''firing'', al_occurrences = 1,
       al_first = ''2026-01-01'', al_last = ''2026-01-01'', al_acknowledged_at = [], al_acknowledged_by = [], al_resolved_at = [],
       al_last_event = ''e1'', al_updated = ''2026-01-01''\<rparr>]\<rparr>"

lemma subject_database_ok: "schema_ok (db (calm_world subject_database))"
  by (simp add: subject_database_def empty_database_def schema_ok_def no_clash_def)

lemma subject_scope: "\<not> scope_missing ''ws'' ''u1''"
  by (simp add: scope_missing_def trim_space_plain plain_char_def)

lemma subject_erasure_run:
  "\<exists>w'. erase_subject 0 ''ws'' ''u1'' NoHolds (calm_world subject_database) = (Inr (erasure_of 0 ''ws'' ''u1'' subject_database), w')"
proof -
  have "\<exists>rep w'. erase_subject 0 ''ws'' ''u1'' NoHolds (calm_world subject_database) = (Inr rep, w')"
    by (simp add: erase_subject_def active_holds_def subject_scope erase_body_def anonymize_items_def rewrite_events_def
      rewrite_plans_def rewrite_payloads_def update_unique_def statement_runs calm_world_def subject_database_def
      empty_database_def erased_event_def sample_event_def no_clash_def)
  then obtain rep w' where e: "erase_subject 0 ''ws'' ''u1'' NoHolds (calm_world subject_database) = (Inr rep, w')" by blast
  from erase_subject_Inr(2) [OF subject_database_ok e] e show ?thesis by simp
qed

lemma erase_refines_witness:
  "\<exists>w'. erase_subject 0 ''ws'' ''u1'' NoHolds (calm_world subject_database) = (Inr (erasure_of 0 ''ws'' ''u1'' subject_database), w') \<and>
     db w' = erased_database ''ws'' ''u1'' (anonymous_subject ''ws'' ''u1'') subject_database"
proof -
  obtain w' where e: "erase_subject 0 ''ws'' ''u1'' NoHolds (calm_world subject_database) = (Inr (erasure_of 0 ''ws'' ''u1'' subject_database), w')"
    using subject_erasure_run by blast
  from erase_refines [OF subject_database_ok e] e show ?thesis by auto
qed

lemma erasure_pseudonymizes_witness:
  "\<exists>rep w'. erase_subject 0 ''ws'' ''u1'' NoHolds (calm_world subject_database) = (Inr rep, w') \<and> \<not> names_subject ''ws'' ''u1'' (db w') \<and>
    (\<forall>x \<in> set (db_items (db w')). ir_workspace x = ''ws'' \<and> ir_id x = ''i1'' \<longrightarrow> redacted_item (anonymous_subject ''ws'' ''u1'') x)"
proof -
  obtain w' where e: "erase_subject 0 ''ws'' ''u1'' NoHolds (calm_world subject_database) = (Inr (erasure_of 0 ''ws'' ''u1'' subject_database), w')"
    using subject_erasure_run by blast
  have "anonymous_subject ''ws'' ''u1'' \<noteq> ''u1''" by (simp add: anonymous_subject_def)
  note f = erasure_pseudonymizes [OF subject_database_ok e this]
  have "\<exists>r \<in> set (db_items (db (calm_world subject_database))). own_items ''ws'' ''u1'' r \<and> ir_id r = ''i1''"
    by (simp add: subject_database_def)
  with f have "\<forall>x \<in> set (db_items (db w')). ir_workspace x = ''ws'' \<and> ir_id x = ''i1'' \<longrightarrow> redacted_item (anonymous_subject ''ws'' ''u1'') x"
    by metis
  with e f show ?thesis by blast
qed

lemma preview_foretells_erasure_witness:
  "\<exists>w1 rep w2. preview_subject ''ws'' ''u1'' (calm_world subject_database) = (Inr [(''delegations'', 0), (''delivery_reservations'', 0),
       (''inbox_items'', 1), (''preferences'', 0), (''saved_views'', 0)], w1) \<and>
     erase_subject 0 ''ws'' ''u1'' NoHolds w1 = (Inr rep, w2) \<and> (''inbox_items'', 1) \<in> set (eo_changed rep)"
proof -
  have p: "preview_subject ''ws'' ''u1'' (calm_world subject_database) = (Inr [(''delegations'', 0), (''delivery_reservations'', 0),
       (''inbox_items'', 1), (''preferences'', 0), (''saved_views'', 0)], calm_world subject_database)"
    by (simp add: preview_subject_def subject_scope statement_runs calm_world_def subject_database_def empty_database_def)
  obtain w' where e: "erase_subject 0 ''ws'' ''u1'' NoHolds (calm_world subject_database) = (Inr (erasure_of 0 ''ws'' ''u1'' subject_database), w')"
    using subject_erasure_run by blast
  from preview_foretells_erasure [OF subject_database_ok p e]
  have "(''inbox_items'', 1) \<in> set (eo_changed (erasure_of 0 ''ws'' ''u1'' subject_database))" by simp
  with p e show ?thesis by blast
qed

end
