(* ===== verification/Retention.thy ===== *)
theory Retention
  imports Event_Store Template_Json Go_Parse
begin

text \<open>
  Retention: retention.go of internal/infrastructure/persistence/database/lifecycle. A policy
  covers a list of tables; a batch takes the oldest expired rows of each, archives a copy of a
  row and, when it purges, deletes the row. The statements run one by one, not in a
  transaction. \<open>encode\<close> is the text \<open>json.Marshal\<close> gives for a row as the driver hands it out;
  \<open>valid\<close> is the \<open>Validate\<close> of the request, \<open>history\<close> and \<open>publication\<close> the policy keys, all
  three of the SDK. Of the SDK's requests the records hold what the code reads.
\<close>

section \<open>Times\<close>

text \<open>\<open>value.UTC().Format(time.RFC3339Nano)\<close>: the fraction without its trailing zeros.\<close>

definition format_head :: "instant \<Rightarrow> string" where
  "format_head t =
    (case civil (t div day_ns + unix_epoch_day) of (y, mo, d) \<Rightarrow>
     case clock_of t of (h, mi, s, ns) \<Rightarrow>
       append_int y 4 @ ''-'' @ append_int mo 2 @ ''-'' @ append_int d 2 @ ''T'' @
       append_int h 2 @ '':'' @ append_int mi 2 @ '':'' @ append_int s 2)"

definition strip_zeros :: "string \<Rightarrow> string" where
  "strip_zeros s = rev (dropWhile (\<lambda>c. c = CHR ''0'') (rev s))"

definition format_nano :: "instant \<Rightarrow> string" where
  "format_nano t = (let s = strip_zeros (append_int (t mod second_ns) 9) in
     format_head t @ (if s = [] then [] else CHR ''.'' # s) @ ''Z'')"

definition parsed_time :: "string \<Rightarrow> instant option" where
  "parsed_time s = (case parse_rfc3339 s of None \<Rightarrow> None | Some t \<Rightarrow> if t = zero_time then None else Some t)"

definition earlier :: "instant option \<Rightarrow> instant option \<Rightarrow> instant option" where
  "earlier old candidate = (case candidate of None \<Rightarrow> old
     | Some t \<Rightarrow> (case old of None \<Rightarrow> Some t | Some o' \<Rightarrow> if t < o' then Some t else Some o'))"

section \<open>Requests\<close>

record retention_hold =
  ho_owner :: string
  ho_type :: string
  ho_resource :: string
  ho_starts :: instant
  ho_ends :: "instant option"

record retention_request =
  rq_workspace :: workspace_id
  rq_policy :: string
  rq_version :: string
  rq_seconds :: int
  rq_now :: instant
  rq_holds :: "retention_hold list"
  rq_limit :: int
  rq_operation :: string
  rq_dry_run :: bool
  rq_job :: string

record retention_preview =
  vw_rows :: int
  vw_bytes :: int
  vw_oldest :: "instant option"

text \<open>The result of a batch; \<open>Failed\<close> is 0 in every result that comes without an error.\<close>

record retention_result =
  rt_checkpoint :: string
  rt_scanned :: int
  rt_archived :: int
  rt_purged :: int
  rt_skipped :: int
  rt_oldest :: "instant option"
  rt_done :: bool

section \<open>Tables\<close>

datatype retention_table = ItemsTable | GroupsTable | PlansTable | EventsTable | FailuresTable | ReservationsTable
  | VersionsTable | RequestsTable

datatype stored = StoredItem item_row | StoredGroup alert_group | StoredPlan plan_row | StoredEvent event_row
  | StoredFailure event_failure | StoredReservation reservation_row | StoredVersion version_row | StoredRequest request_row

fun table_name :: "retention_table \<Rightarrow> string" where
  "table_name ItemsTable = ''_notification_inbox_items''"
| "table_name GroupsTable = ''_notification_alert_groups''"
| "table_name PlansTable = ''_notification_channel_plans''"
| "table_name EventsTable = ''_notification_events''"
| "table_name FailuresTable = ''_notification_event_failures''"
| "table_name ReservationsTable = ''_notification_delivery_reservations''"
| "table_name VersionsTable = ''_notification_template_versions''"
| "table_name RequestsTable = ''_notification_template_publication_requests''"

fun stored_rows :: "retention_table \<Rightarrow> database \<Rightarrow> stored list" where
  "stored_rows ItemsTable d = map StoredItem (db_items d)"
| "stored_rows GroupsTable d = map StoredGroup (db_groups d)"
| "stored_rows PlansTable d = map StoredPlan (db_plans d)"
| "stored_rows EventsTable d = map StoredEvent (db_events d)"
| "stored_rows FailuresTable d = map StoredFailure (db_failures d)"
| "stored_rows ReservationsTable d = map StoredReservation (db_reservations d)"
| "stored_rows VersionsTable d = map StoredVersion (db_versions d)"
| "stored_rows RequestsTable d = map StoredRequest (db_requests d)"

fun delete_stored :: "retention_table \<Rightarrow> (stored \<Rightarrow> bool) \<Rightarrow> database \<Rightarrow> database" where
  "delete_stored ItemsTable P d = d\<lparr>db_items := filter (\<lambda>r. \<not> P (StoredItem r)) (db_items d)\<rparr>"
| "delete_stored GroupsTable P d = d\<lparr>db_groups := filter (\<lambda>r. \<not> P (StoredGroup r)) (db_groups d)\<rparr>"
| "delete_stored PlansTable P d = d\<lparr>db_plans := filter (\<lambda>r. \<not> P (StoredPlan r)) (db_plans d)\<rparr>"
| "delete_stored EventsTable P d = d\<lparr>db_events := filter (\<lambda>r. \<not> P (StoredEvent r)) (db_events d)\<rparr>"
| "delete_stored FailuresTable P d = d\<lparr>db_failures := filter (\<lambda>r. \<not> P (StoredFailure r)) (db_failures d)\<rparr>"
| "delete_stored ReservationsTable P d = d\<lparr>db_reservations := filter (\<lambda>r. \<not> P (StoredReservation r)) (db_reservations d)\<rparr>"
| "delete_stored VersionsTable P d = d\<lparr>db_versions := filter (\<lambda>r. \<not> P (StoredVersion r)) (db_versions d)\<rparr>"
| "delete_stored RequestsTable P d = d\<lparr>db_requests := filter (\<lambda>r. \<not> P (StoredRequest r)) (db_requests d)\<rparr>"

text \<open>The columns a specification names: identity, time, status and workspace.\<close>

fun stored_id :: "stored \<Rightarrow> string" where
  "stored_id (StoredItem r) = ir_id r"
| "stored_id (StoredGroup r) = al_last_event r"
| "stored_id (StoredPlan r) = qr_id r"
| "stored_id (StoredEvent r) = er_id r"
| "stored_id (StoredFailure r) = ef_id r"
| "stored_id (StoredReservation r) = rv_id (vv_reservation r)"
| "stored_id (StoredVersion r) = vr_id r"
| "stored_id (StoredRequest r) = pr_id (rr_request r)"

fun stored_time :: "stored \<Rightarrow> string" where
  "stored_time (StoredItem r) = ir_updated r"
| "stored_time (StoredGroup r) = al_updated r"
| "stored_time (StoredPlan r) = qr_updated r"
| "stored_time (StoredEvent r) = er_updated r"
| "stored_time (StoredFailure r) = ef_occurred r"
| "stored_time (StoredReservation r) = rv_created_at (vv_reservation r)"
| "stored_time (StoredVersion r) = vr_published_at r"
| "stored_time (StoredRequest r) = pr_updated (rr_request r)"

fun stored_workspace :: "stored \<Rightarrow> workspace_id" where
  "stored_workspace (StoredItem r) = ir_workspace r"
| "stored_workspace (StoredGroup r) = al_workspace r"
| "stored_workspace (StoredPlan r) = qr_workspace r"
| "stored_workspace (StoredEvent r) = er_workspace r"
| "stored_workspace (StoredFailure r) = ef_workspace r"
| "stored_workspace (StoredReservation r) = vv_workspace r"
| "stored_workspace (StoredVersion r) = vr_workspace r"
| "stored_workspace (StoredRequest r) = rr_workspace r"

fun status_text :: "publication_status \<Rightarrow> string" where
  "status_text PublicationPending = ''pending_approval''"
| "status_text PublicationScheduled = ''scheduled''"
| "status_text PublicationPublishing = ''publishing''"
| "status_text PublicationPublished = ''published''"
| "status_text PublicationRejected = ''rejected''"
| "status_text PublicationCancelled = ''cancelled''"
| "status_text PublicationFailed = ''failed''"
| "status_text PublicationSuperseded = ''superseded''"

fun stored_status :: "stored \<Rightarrow> string" where
  "stored_status (StoredGroup r) = al_state r"
| "stored_status (StoredPlan r) = qr_status r"
| "stored_status (StoredEvent r) = er_status r"
| "stored_status (StoredRequest r) = status_text (pr_status (rr_request r))"
| "stored_status _ = []"

section \<open>Specifications\<close>

record retention_spec =
  rs_policy :: string
  rs_table :: retention_table
  rs_scoped :: bool
  rs_statuses :: "string list"
  rs_extra :: "database \<Rightarrow> stored \<Rightarrow> bool"
  rs_referenced :: bool

fun settled_item :: "stored \<Rightarrow> bool" where
  "settled_item (StoredItem r) = (ir_action_state r \<noteq> ActionOpen \<and> ir_alert_state r \<noteq> AlertFiring)"
| "settled_item _ = False"

text \<open>\<open>version < COALESCE((SELECT published_version ... WHERE template_key = ...), version)\<close>.\<close>

fun superseded_version :: "database \<Rightarrow> stored \<Rightarrow> bool" where
  "superseded_version d (StoredVersion r) =
     (case List.find (\<lambda>x. xr_key x = vr_template_key r) (db_templates d) of
        None \<Rightarrow> False | Some x \<Rightarrow> vr_version r < xr_version x)"
| "superseded_version d _ = False"

definition workspace_spec :: "string \<Rightarrow> retention_table \<Rightarrow> string list \<Rightarrow> retention_spec" where
  "workspace_spec policy t statuses = \<lparr>rs_policy = policy, rs_table = t, rs_scoped = True, rs_statuses = statuses,
     rs_extra = (\<lambda>d r. True), rs_referenced = False\<rparr>"

definition all_retention_specs :: "string \<Rightarrow> string \<Rightarrow> retention_spec list" where
  "all_retention_specs history publication =
    [(workspace_spec history ItemsTable [])\<lparr>rs_extra := \<lambda>d. settled_item\<rparr>,
     workspace_spec history GroupsTable [''resolved''],
     workspace_spec history PlansTable [''planned'', ''failed'', ''cancelled''],
     workspace_spec history EventsTable [''materialized'', ''failed''],
     workspace_spec history FailuresTable [],
     workspace_spec history ReservationsTable [],
     (workspace_spec publication VersionsTable [])\<lparr>rs_scoped := False, rs_extra := superseded_version\<rparr>,
     (workspace_spec publication RequestsTable [''published'', ''rejected'', ''failed'', ''cancelled''])
       \<lparr>rs_scoped := False, rs_referenced := True\<rparr>]"

definition retention_specs :: "string \<Rightarrow> string \<Rightarrow> string \<Rightarrow> retention_spec list" where
  "retention_specs history publication policy = filter (\<lambda>s. rs_policy s = policy) (all_retention_specs history publication)"

section \<open>Predicates\<close>

definition retention_cutoff :: "retention_request \<Rightarrow> instant" where
  "retention_cutoff q = rq_now q - rq_seconds q * second_ns"

definition expired_by :: "instant \<Rightarrow> string \<Rightarrow> bool" where
  "expired_by cutoff at \<longleftrightarrow> at \<noteq> [] \<and> at \<le> format_nano cutoff"

definition retention_predicate :: "retention_spec \<Rightarrow> instant \<Rightarrow> database \<Rightarrow> stored \<Rightarrow> bool" where
  "retention_predicate s cutoff d r \<longleftrightarrow> expired_by cutoff (stored_time r) \<and>
     (rs_statuses s = [] \<or> stored_status r \<in> set (rs_statuses s)) \<and> rs_extra s d r"

definition in_scope :: "retention_spec \<Rightarrow> workspace_id \<Rightarrow> stored \<Rightarrow> bool" where
  "in_scope s ws r \<longleftrightarrow> (rs_scoped s \<longrightarrow> stored_workspace r = ws)"

definition archive_entry :: "workspace_id \<Rightarrow> string \<Rightarrow> retention_table \<Rightarrow> string \<Rightarrow> archive_row \<Rightarrow> bool" where
  "archive_entry ws policy t i a \<longleftrightarrow> aw_workspace a = ws \<and> aw_policy_key a = policy \<and> aw_table a = table_name t \<and> aw_resource a = i"

definition archived_in :: "database \<Rightarrow> workspace_id \<Rightarrow> string \<Rightarrow> retention_table \<Rightarrow> string \<Rightarrow> bool" where
  "archived_in d ws policy t i \<longleftrightarrow> list_ex (archive_entry ws policy t i) (db_archive d)"

definition unarchived :: "retention_spec \<Rightarrow> retention_request \<Rightarrow> database \<Rightarrow> stored \<Rightarrow> bool" where
  "unarchived s q d r \<longleftrightarrow> \<not> archived_in d (rq_workspace q) (rq_policy q) (rs_table s) (stored_id r)"

definition hold_active :: "instant \<Rightarrow> retention_hold \<Rightarrow> bool" where
  "hold_active now h \<longleftrightarrow> \<not> (now < ho_starts h \<or> (case ho_ends h of None \<Rightarrow> False | Some e \<Rightarrow> \<not> now < e))"

definition retention_held :: "retention_hold list \<Rightarrow> retention_table \<Rightarrow> string \<Rightarrow> instant \<Rightarrow> bool" where
  "retention_held holds t i now \<longleftrightarrow> list_ex (\<lambda>h. hold_active now h \<and>
     (ho_owner h = [] \<or> ho_owner h = ''notification'') \<and> (ho_type h = [] \<or> ho_type h = table_name t) \<and>
     (ho_resource h = [] \<or> ho_resource h = i)) holds"

section \<open>Preview\<close>

definition unsupported_policy :: "retention_request \<Rightarrow> err" where
  "unsupported_policy q = ErrorText (''notification retention policy \"'' @ rq_policy q @ ''\" is unsupported'')"

definition preview_spec :: "retention_request \<Rightarrow> retention_spec \<Rightarrow> retention_preview \<Rightarrow> retention_preview sql" where
  "preview_spec q s acc = bind_io (query (\<lambda>d. map stored_time (filter (\<lambda>r. in_scope s (rq_workspace q) r \<and>
       retention_predicate s (retention_cutoff q) d r \<and> unarchived s q d r) (stored_rows (rs_table s) d)))) (\<lambda>ts.
     ret (acc\<lparr>vw_rows := vw_rows acc + int (length ts),
       vw_oldest := (if ts = [] then vw_oldest acc else earlier (vw_oldest acc) (parsed_time (Min (set ts))))\<rparr>))"

definition preview_retention ::
  "(retention_request \<Rightarrow> err option) \<Rightarrow> string \<Rightarrow> string \<Rightarrow> retention_request \<Rightarrow> retention_preview sql" where
  "preview_retention valid history publication q = (case valid q of Some e \<Rightarrow> fail e
     | None \<Rightarrow> (let specs = retention_specs history publication (rq_policy q) in
         guard_io (specs = []) (unsupported_policy q)
           (bind_io (fold_io (preview_spec q) specs \<lparr>vw_rows = 0, vw_bytes = 0, vw_oldest = None\<rparr>) (\<lambda>r.
            ret (r\<lparr>vw_bytes := vw_rows r * 1024\<rparr>)))))"

section \<open>Batches\<close>

definition archive_row_of :: "retention_request \<Rightarrow> retention_table \<Rightarrow> string \<Rightarrow> string \<Rightarrow> archive_row" where
  "archive_row_of q t i raw = \<lparr>aw_id = value_hash (join_with [CHR 0x00] [rq_workspace q, rq_policy q, table_name t, i]),
     aw_workspace = rq_workspace q, aw_policy_key = rq_policy q, aw_policy_version = rq_version q, aw_job = rq_job q,
     aw_table = table_name t, aw_resource = i, aw_hash = value_hash raw, aw_payload = raw,
     aw_archived_at = format_nano (rq_now q)\<rparr>"

definition addressed_row :: "retention_request \<Rightarrow> retention_spec \<Rightarrow> string \<Rightarrow> stored \<Rightarrow> bool" where
  "addressed_row q s i r \<longleftrightarrow> in_scope s (rq_workspace q) r \<and> stored_id r = i"

definition archive_found ::
  "(stored \<Rightarrow> err + string) \<Rightarrow> retention_request \<Rightarrow> retention_spec \<Rightarrow> string \<Rightarrow> stored option \<Rightarrow> bool sql" where
  "archive_found encode q s i found = (case found of None \<Rightarrow> ret False
     | Some r \<Rightarrow> (case encode r of Inl e \<Rightarrow> fail e
       | Inr raw \<Rightarrow> bind_io (wrapping (''archive notification retention candidate '' @ table_name (rs_table s) @ ''/'' @ i)
           (workspace_insert archive_table archive_clash ''_notification_retention_archive_entries'' (rq_workspace q)
             (rq_workspace q) (archive_row_of q (rs_table s) i raw))) (\<lambda>_. ret True)))"

definition archive_candidate :: "(stored \<Rightarrow> err + string) \<Rightarrow> retention_request \<Rightarrow> retention_spec \<Rightarrow> string \<Rightarrow> bool sql" where
  "archive_candidate encode q s i =
     bind_io (count_rows archive_table (archive_entry (rq_workspace q) (rq_policy q) (rs_table s) i)) (\<lambda>n.
     if 0 < n then ret False
     else bind_io (query (\<lambda>d. List.find (addressed_row q s i) (stored_rows (rs_table s) d))) (archive_found encode q s i))"

definition delete_candidate :: "retention_request \<Rightarrow> retention_spec \<Rightarrow> string \<Rightarrow> int sql" where
  "delete_candidate q s i = exec (\<lambda>d. Inr (int (length (filter (addressed_row q s i) (stored_rows (rs_table s) d))),
     delete_stored (rs_table s) (addressed_row q s i) d))"

definition count_references :: "string \<Rightarrow> int sql" where
  "count_references i = count_rows locks_table (\<lambda>l. lk_request l = i)"

definition scanned_candidate :: "retention_spec \<Rightarrow> string \<times> string \<Rightarrow> retention_result \<Rightarrow> retention_result" where
  "scanned_candidate s = (\<lambda>(i, at) acc. acc\<lparr>rt_checkpoint := table_name (rs_table s) @ '':'' @ i,
     rt_scanned := rt_scanned acc + 1, rt_oldest := earlier (rt_oldest acc) (parsed_time at)\<rparr>)"

definition process_candidate ::
  "(stored \<Rightarrow> err + string) \<Rightarrow> retention_request \<Rightarrow> retention_spec \<Rightarrow> string \<times> string \<Rightarrow> retention_result \<Rightarrow> retention_result sql" where
  "process_candidate encode q s c acc0 = (let i = fst c; acc = scanned_candidate s c acc0; purge = rq_operation q = ''purge'';
       skip = acc\<lparr>rt_skipped := rt_skipped acc + 1\<rparr> in
     if retention_held (rq_holds q) (rs_table s) i (rq_now q) then ret skip
     else bind_io (if rs_referenced s \<and> purge then count_references i else ret 0) (\<lambda>references.
       if 0 < references then ret skip
       else if rq_dry_run q then ret acc
       else bind_io (archive_candidate encode q s i) (\<lambda>archived.
         let acc = acc\<lparr>rt_archived := rt_archived acc + (if archived then 1 else 0)\<rparr> in
         if \<not> purge then ret acc
         else bind_io (delete_candidate q s i) (\<lambda>deleted. ret (acc\<lparr>rt_purged := rt_purged acc + deleted\<rparr>)))))"

definition retention_candidates :: "retention_request \<Rightarrow> retention_spec \<Rightarrow> int \<Rightarrow> database \<Rightarrow> (string \<times> string) list" where
  "retention_candidates q s limit d = take_limit limit (map (\<lambda>r. (stored_id r, stored_time r))
     (sort_key (\<lambda>r. (stored_time r, stored_id r)) (filter (\<lambda>r. in_scope s (rq_workspace q) r \<and>
       retention_predicate s (retention_cutoff q) d r \<and> (rq_operation q = ''archive'' \<longrightarrow> unarchived s q d r))
       (stored_rows (rs_table s) d))))"

definition empty_result :: "bool \<Rightarrow> retention_result" where
  "empty_result finished = \<lparr>rt_checkpoint = [], rt_scanned = 0, rt_archived = 0, rt_purged = 0, rt_skipped = 0,
     rt_oldest = None, rt_done = finished\<rparr>"

definition process_spec :: "(stored \<Rightarrow> err + string) \<Rightarrow> retention_request \<Rightarrow> retention_spec \<Rightarrow> int \<Rightarrow> retention_result sql" where
  "process_spec encode q s limit = bind_io (query (retention_candidates q s limit)) (\<lambda>cs.
     fold_io (process_candidate encode q s) cs (empty_result (int (length cs) < limit)))"

definition merge_result :: "retention_result \<Rightarrow> retention_result \<Rightarrow> retention_result" where
  "merge_result acc b = \<lparr>rt_checkpoint = rt_checkpoint b, rt_scanned = rt_scanned acc + rt_scanned b,
     rt_archived = rt_archived acc + rt_archived b, rt_purged = rt_purged acc + rt_purged b,
     rt_skipped = rt_skipped acc + rt_skipped b, rt_oldest = earlier (rt_oldest acc) (rt_oldest b),
     rt_done = (rt_done acc \<and> rt_done b)\<rparr>"

fun process_specs ::
  "(stored \<Rightarrow> err + string) \<Rightarrow> retention_request \<Rightarrow> retention_spec list \<Rightarrow> int \<Rightarrow> retention_result \<Rightarrow> retention_result sql" where
  "process_specs encode q [] remaining acc = ret acc"
| "process_specs encode q (s # ss) remaining acc =
     (if remaining \<le> 0 then ret (acc\<lparr>rt_done := False\<rparr>)
      else bind_io (process_spec encode q s remaining) (\<lambda>b.
        process_specs encode q ss (remaining - rt_scanned b) (merge_result acc b)))"

definition process_batch ::
  "(retention_request \<Rightarrow> err option) \<Rightarrow> (stored \<Rightarrow> err + string) \<Rightarrow> string \<Rightarrow> string \<Rightarrow> retention_request \<Rightarrow> retention_result sql" where
  "process_batch valid encode history publication q = (case valid q of Some e \<Rightarrow> fail e
     | None \<Rightarrow> (let specs = retention_specs history publication (rq_policy q) in
         guard_io (specs = []) (unsupported_policy q)
           (process_specs encode q specs (rq_limit q) (empty_result True))))"

end
