(* ===== verification/Retention_Rules.thy ===== *)
theory Retention_Rules
  imports Retention Samples
begin

text \<open>
  What a retention batch may delete, what it leaves, and where the rules of the code are wider
  than meant.
\<close>

section \<open>The cutoff\<close>

lemma timestamp_head: "timestamp t = format_head t @ CHR ''.'' # append_int (t mod second_ns) 9 @ ''Z''"
  by (simp add: timestamp_def format_head_def clock_of_def Let_def split: prod.splits)

lemma head_second:
  assumes "t div second_ns = u div second_ns" shows "format_head t = format_head u"
proof -
  have day: "day_ns = second_ns * 86400" by (simp add: day_ns_def second_ns_def)
  have d: "x div day_ns = x div second_ns div 86400" for x by (simp add: day zdiv_zmult2_eq)
  have m: "x mod day_ns div second_ns = x div second_ns mod 86400" for x
  proof -
    have "second_ns \<noteq> 0" by (simp add: second_ns_def)
    moreover have "x mod day_ns = second_ns * (x div second_ns mod 86400) + x mod second_ns" by (simp add: day zmod_zmult2_eq)
    ultimately show ?thesis by (simp add: second_ns_def)
  qed
  show ?thesis using assms by (simp add: format_head_def clock_of_def Let_def d m)
qed

lemma in_range_floor:
  assumes "in_range t" shows "in_range (t div second_ns * second_ns)"
proof -
  have pos: "0 < second_ns" by (simp add: second_ns_def)
  obtain k where k: "(year_start 0 - unix_epoch_day) * day_ns = k * second_ns"
    using that [of "(year_start 0 - unix_epoch_day) * 86400"] by (simp add: day_ns_def second_ns_def)
  have "k * second_ns \<le> t" using assms by (simp add: in_range_def flip: k)
  then have "k \<le> t div second_ns" using pos by (metis nonzero_mult_div_cancel_right order_less_irrefl zdiv_mono1)
  then have "k * second_ns \<le> t div second_ns * second_ns" using pos by simp
  moreover have "t div second_ns * second_ns \<le> t" using pos by (simp add: minus_mod_eq_div_mult [symmetric])
  ultimately show ?thesis using assms by (simp add: in_range_def k)
qed

lemma head_length:
  assumes "in_range t" shows "length (format_head t) = 19"
proof -
  obtain y mo d where c: "civil (t div day_ns + unix_epoch_day) = (y, mo, d)" by (metis prod_cases3)
  obtain h mi s ns where k: "clock_of t = (h, mi, s, ns)" by (metis prod_cases4)
  show ?thesis
    using civil_ranges [OF c] clock_ranges [OF k] in_range_year [OF assms c]
    by (simp add: format_head_def c k append_int_digits)
qed

lemma head_less:
  assumes "in_range a" "in_range b" "a div second_ns < b div second_ns" shows "format_head a < format_head b"
proof -
  let ?f = "\<lambda>t. t div second_ns * second_ns"
  have pos: "0 < second_ns" by (simp add: second_ns_def)
  have f: "?f t div second_ns = t div second_ns" "?f t mod second_ns = 0" for t using pos by simp_all
  have "?f a < ?f b" using assms(3) pos by simp
  then have "timestamp (?f a) < timestamp (?f b)" by (rule timestamp_strict_mono [OF in_range_floor in_range_floor, OF assms(1,2)])
  then show ?thesis
    unfolding timestamp_head f head_second [OF f(1)] using head_length assms(1,2) by (simp add: lex_append)
qed

lemma strip_zeros_split: "\<exists>k. s = strip_zeros s @ replicate k CHR ''0''"
proof (induction s rule: rev_induct)
  case (snoc c s)
  then obtain k where k: "s = strip_zeros s @ replicate k CHR ''0''" ..
  show ?case
  proof (cases "c = CHR ''0''")
    case True
    then have "strip_zeros (s @ [c]) = strip_zeros s" by (simp add: strip_zeros_def)
    moreover have "s @ [c] = strip_zeros s @ (replicate k CHR ''0'' @ [c])" using k by (metis append_assoc)
    ultimately have "s @ [c] = strip_zeros (s @ [c]) @ replicate (Suc k) CHR ''0''" using True by (simp add: replicate_append_same)
    then show ?thesis ..
  qed (simp add: strip_zeros_def exI [of _ 0])
qed (simp add: strip_zeros_def)

lemma stripped_later:
  "CHR ''.'' # n @ ''Z'' \<le> (if strip_zeros n = [] then [] else CHR ''.'' # strip_zeros n) @ ''Z''"
proof -
  define s where "s = strip_zeros n"
  obtain k where k: "n = s @ replicate k CHR ''0''" unfolding s_def using strip_zeros_split by blast
  have order: "CHR ''.'' < CHR ''Z''" "CHR ''0'' < CHR ''Z''" by (simp_all add: less_char_def)
  have "replicate k CHR ''0'' @ ''Z'' \<le> ''Z''" using order by (cases k) simp_all
  then have "n @ ''Z'' \<le> s @ ''Z''" by (auto simp: k le_less lex_append)
  with order show ?thesis by (cases "s = []") (simp_all flip: s_def)
qed

lemma timestamp_le_nano: "timestamp t \<le> format_nano t"
  using stripped_later [of "append_int (t mod second_ns) 9"]
  by (auto simp: timestamp_head format_nano_def Let_def le_less lex_append)

text \<open>Retention respects the retention period up to one second: a row as old as the period is expired, and a
  row that counts as expired is less than one second younger than the period.\<close>

theorem expired_window:
  assumes "in_range t" "in_range cutoff"
  shows "(t \<le> cutoff \<longrightarrow> expired_by cutoff (timestamp t)) \<and> (expired_by cutoff (timestamp t) \<longrightarrow> t < cutoff + second_ns)"
proof (intro conjI impI)
  assume "t \<le> cutoff"
  then have "timestamp t \<le> timestamp cutoff" using assms by (simp add: timestamp_le_iff)
  also have "\<dots> \<le> format_nano cutoff" by (rule timestamp_le_nano)
  finally show "expired_by cutoff (timestamp t)" by (simp add: expired_by_def timestamp_head)
next
  assume e: "expired_by cutoff (timestamp t)"
  show "t < cutoff + second_ns"
  proof (rule ccontr)
    assume "\<not> t < cutoff + second_ns"
    then have "(cutoff + second_ns) div second_ns \<le> t div second_ns" by (intro zdiv_mono1) (simp_all add: second_ns_def)
    then have "cutoff div second_ns < t div second_ns" by (simp add: second_ns_def)
    then have "format_head cutoff < format_head t" by (rule head_less [OF assms(2,1)])
    then have "format_nano cutoff < timestamp t"
      using head_length assms by (simp add: format_nano_def timestamp_head Let_def lex_append)
    with e show False by (simp add: expired_by_def)
  qed
qed

lemma expired_window_witness: "expired_by 0 (timestamp 0)"
proof -
  have "in_range 0" by (simp add: in_range_def year_start_def unix_epoch_day_def day_ns_def)
  from expired_window [OF this this] show ?thesis by simp
qed

text \<open>The comparison of the columns is one of texts of different width: a row of the cutoff's own second counts
  as expired when the cutoff falls on a full second.\<close>

lemma digits_0: "digits w 0 = replicate w CHR ''0''"
proof (induction w)
  case (Suc w)
  have "char_of (48 :: nat) = CHR ''0''" by code_simp
  with Suc show ?case by (simp add: replicate_append_same)
qed simp

lemma younger_row_expires:
  assumes "cutoff mod second_ns = 0" "t div second_ns = cutoff div second_ns" shows "expired_by cutoff (timestamp t)"
proof -
  have "strip_zeros (append_int 0 9) = []" by (simp add: append_int_digits digits_0 strip_zeros_def)
  moreover have "CHR ''.'' < CHR ''Z''" by (simp add: less_char_def)
  ultimately show ?thesis
    by (simp add: expired_by_def timestamp_head format_nano_def Let_def assms(1) head_second [OF assms(2)] le_less lex_append)
qed

section \<open>What a batch may delete\<close>

definition rightly_purged ::
  "retention_request \<Rightarrow> retention_spec list \<Rightarrow> database \<Rightarrow> database \<Rightarrow> retention_table \<Rightarrow> stored \<Rightarrow> bool" where
  "rightly_purged q specs before after t x \<longleftrightarrow> rq_operation q = ''purge'' \<and> \<not> rq_dry_run q \<and>
     \<not> retention_held (rq_holds q) t (stored_id x) (rq_now q) \<and>
     archived_in after (rq_workspace q) (rq_policy q) t (stored_id x) \<and>
     (\<exists>s \<in> set specs. rs_table s = t \<and> in_scope s (rq_workspace q) x \<and>
       (rs_referenced s \<longrightarrow> \<not> (\<exists>l \<in> set (db_locks before). lk_request l = stored_id x)) \<and>
       (\<exists>y \<in> set (stored_rows t before). addressed_row q s (stored_id x) y \<and> retention_predicate s (retention_cutoff q) before y))"

text \<open>An archive entry made for the identity \<open>i\<close>: the text of a row under that identity, with its hash.\<close>

definition archived_copy :: "(stored \<Rightarrow> err + string) \<Rightarrow> retention_request \<Rightarrow> retention_spec \<Rightarrow> string \<Rightarrow> database \<Rightarrow> archive_row \<Rightarrow> bool" where
  "archived_copy encode q s i d a \<longleftrightarrow> archive_entry (rq_workspace q) (rq_policy q) (rs_table s) i a \<and> aw_hash a = value_hash (aw_payload a) \<and>
     (\<exists>y \<in> set (stored_rows (rs_table s) d). addressed_row q s i y \<and> encode y = Inr (aw_payload a))"

definition archive_grows :: "(stored \<Rightarrow> err + string) \<Rightarrow> retention_request \<Rightarrow> retention_spec list \<Rightarrow> database \<Rightarrow> database \<Rightarrow> bool" where
  "archive_grows encode q specs before after \<longleftrightarrow> set (db_archive before) \<subseteq> set (db_archive after) \<and>
     (\<forall>a \<in> set (db_archive after). a \<in> set (db_archive before) \<or> (\<exists>s \<in> set specs. archived_copy encode q s (aw_resource a) before a))"

definition purge_progress :: "(stored \<Rightarrow> err + string) \<Rightarrow> retention_request \<Rightarrow> retention_spec list \<Rightarrow> database \<Rightarrow> database \<Rightarrow> bool" where
  "purge_progress encode q specs before after \<longleftrightarrow>
     db_templates after = db_templates before \<and> db_locks after = db_locks before \<and>
     archive_grows encode q specs before after \<and>
     (\<forall>t. set (stored_rows t after) \<subseteq> set (stored_rows t before) \<and>
       (\<forall>x \<in> set (stored_rows t before). x \<notin> set (stored_rows t after) \<longrightarrow> rightly_purged q specs before after t x))"

lemma stored_rows_archive [simp]: "stored_rows t (d\<lparr>db_archive := as\<rparr>) = stored_rows t d"
  by (cases t) simp_all

lemma stored_rows_delete:
  "stored_rows t' (delete_stored t P d) = (if t' = t then filter (\<lambda>r. \<not> P r) (stored_rows t d) else stored_rows t' d)"
  by (cases t; cases t') (simp_all add: filter_map comp_def)

lemma delete_stored_rest [simp]:
  "db_archive (delete_stored t P d) = db_archive d" "db_templates (delete_stored t P d) = db_templates d"
  "db_locks (delete_stored t P d) = db_locks d"
  by (cases t; simp)+

lemma progress_refl: "purge_progress encode q specs d d"
  by (simp add: purge_progress_def archive_grows_def)

lemma archived_mono: "archived_in d ws p t i \<Longrightarrow> set (db_archive d) \<subseteq> set (db_archive d') \<Longrightarrow> archived_in d' ws p t i"
  by (auto simp: archived_in_def list_ex_iff)

lemma progress_archive:
  assumes "purge_progress encode q specs d0 d" "s \<in> set specs" "\<forall>a \<in> set as. archived_copy encode q s i d a"
  shows "purge_progress encode q specs d0 (d\<lparr>db_archive := db_archive d @ as\<rparr>)"
proof -
  let ?d = "d\<lparr>db_archive := db_archive d @ as\<rparr>"
  have "rightly_purged q specs d0 d t x \<Longrightarrow> rightly_purged q specs d0 ?d t x" for t x
    using archived_mono [of d "rq_workspace q" "rq_policy q" t "stored_id x" ?d] by (simp add: rightly_purged_def)
  moreover have "\<exists>s \<in> set specs. archived_copy encode q s (aw_resource a) d0 a" if "a \<in> set as" for a
  proof -
    have c: "archived_copy encode q s i d a" using assms(3) that by blast
    then have i: "aw_resource a = i" by (simp add: archived_copy_def archive_entry_def)
    have "set (stored_rows (rs_table s) d) \<subseteq> set (stored_rows (rs_table s) d0)" using assms(1) by (simp add: purge_progress_def)
    with c assms(2) show ?thesis unfolding i archived_copy_def by blast
  qed
  then have "archive_grows encode q specs d0 ?d" using assms(1) by (auto simp: purge_progress_def archive_grows_def)
  ultimately show ?thesis using assms(1) by (simp add: purge_progress_def)
qed

lemma progress_delete:
  assumes p: "purge_progress encode q specs d0 d" and "s \<in> set specs" "rq_operation q = ''purge''" "\<not> rq_dry_run q"
    "\<not> retention_held (rq_holds q) (rs_table s) i (rq_now q)"
    "rs_referenced s \<longrightarrow> \<not> (\<exists>l \<in> set (db_locks d0). lk_request l = i)"
    "y \<in> set (stored_rows (rs_table s) d0)" "addressed_row q s i y" "retention_predicate s (retention_cutoff q) d0 y"
    and entry: "archived_in d (rq_workspace q) (rq_policy q) (rs_table s) i \<or> \<not> list_ex (addressed_row q s i) (stored_rows (rs_table s) d)"
  shows "purge_progress encode q specs d0 (delete_stored (rs_table s) (addressed_row q s i) d)" (is "purge_progress encode q specs d0 ?d")
proof -
  have rows: "set (stored_rows t ?d) \<subseteq> set (stored_rows t d)" for t by (auto simp: stored_rows_delete)
  have "rightly_purged q specs d0 ?d t x" if x: "x \<in> set (stored_rows t d0)" "x \<notin> set (stored_rows t ?d)" for t x
  proof (cases "x \<in> set (stored_rows t d)")
    case False
    with p x(1) have "rightly_purged q specs d0 d t x" by (simp add: purge_progress_def)
    then show ?thesis by (simp add: rightly_purged_def archived_in_def)
  next
    case True
    with x(2) have t: "t = rs_table s" and a: "addressed_row q s i x" by (auto simp: stored_rows_delete split: if_splits)
    with entry True have e: "archived_in d (rq_workspace q) (rq_policy q) t i" by (auto simp: list_ex_iff)
    from a have "stored_id x = i" "in_scope s (rq_workspace q) x" by (simp_all add: addressed_row_def)
    with assms(2-9) e show ?thesis unfolding rightly_purged_def t by (auto simp: archived_in_def)
  qed
  moreover have "archive_grows encode q specs d0 ?d" using p by (simp add: purge_progress_def archive_grows_def)
  ultimately show ?thesis using p rows unfolding purge_progress_def by (simp, blast)
qed

lemma bind_io_cases:
  assumes "bind_io m f w = (r, w')"
  obtains e where "m w = (Inl e, w')" "r = Inl e" | a w1 where "m w = (Inr a, w1)" "f a w1 = (r, w')"
  using assms by (auto simp: bind_io_def split: prod.splits sum.splits)

text \<open>A statement that only reads either fails or hands on what the database holds.\<close>

lemma query_then:
  assumes "bind_io (query f) g w = (r, w')"
  obtains e where "r = Inl e" "db w' = db w" | w1 where "db w1 = db w" "g (f (db w)) w1 = (r, w')"
  using assms
proof (rule bind_io_cases)
  fix e assume "query f w = (Inl e, w')" "r = Inl e"
  with that(1) show thesis by (auto dest: query_db)
next
  fix a w1 assume "query f w = (Inr a, w1)" "g a w1 = (r, w')"
  with that(2) show thesis by (auto dest: query_Inr)
qed

definition archived_or_gone :: "retention_request \<Rightarrow> retention_spec \<Rightarrow> string \<Rightarrow> database \<Rightarrow> bool" where
  "archived_or_gone q s i d \<longleftrightarrow> archived_in d (rq_workspace q) (rq_policy q) (rs_table s) i \<or>
     \<not> list_ex (addressed_row q s i) (stored_rows (rs_table s) d)"

definition archive_effect :: "(stored \<Rightarrow> err + string) \<Rightarrow> retention_request \<Rightarrow> retention_spec \<Rightarrow> string \<Rightarrow> database \<Rightarrow> err + 'a \<Rightarrow> database \<Rightarrow> bool" where
  "archive_effect encode q s i d r d' \<longleftrightarrow> 
     (\<exists>as. d' = d\<lparr>db_archive := db_archive d @ as\<rparr> \<and> (\<forall>a \<in> set as. archived_copy encode q s i d a)) \<and> (\<forall>b. r = Inr b \<longrightarrow> archived_or_gone q s i d')"

lemma archive_effect_none:
  "archived_or_gone q s i d \<Longrightarrow> archive_effect encode q s i d r d" "archive_effect encode q s i d (Inl e) d"
  by (auto simp: archive_effect_def intro: exI [of _ "[]"])

lemma archive_found_effect:
  assumes "archive_found encode q s i (List.find (addressed_row q s i) (stored_rows (rs_table s) (db w))) w = (r, w')"
  shows "archive_effect encode q s i (db w) r (db w')"
proof (cases "List.find (addressed_row q s i) (stored_rows (rs_table s) (db w))")
  case None
  with assms have "db w' = db w" by (simp add: archive_found_def)
  moreover have "archived_or_gone q s i (db w)"
    using None by (simp add: archived_or_gone_def find_None_iff list_ex_iff)
  ultimately show ?thesis by (simp add: archive_effect_none)
next
  case (Some x)
  show ?thesis
  proof (cases "encode x")
    case (Inl e)
    with assms Some show ?thesis by (auto simp: archive_found_def intro: archive_effect_none)
  next
    case (Inr raw)
    with assms Some have "bind_io (wrapping (''archive notification retention candidate '' @ table_name (rs_table s) @ ''/'' @ i)
        (workspace_insert archive_table archive_clash ''_notification_retention_archive_entries'' (rq_workspace q)
          (rq_workspace q) (archive_row_of q (rs_table s) i raw))) (\<lambda>_. ret True) w = (r, w')" by (simp add: archive_found_def)
    then obtain r' where ins: "workspace_insert archive_table archive_clash ''_notification_retention_archive_entries''
        (rq_workspace q) (rq_workspace q) (archive_row_of q (rs_table s) i raw) w = (r', w')"
      and r: "(\<exists>e. r = Inl e) \<or> r' = Inr ()"
      by (rule bind_io_cases) (auto simp: wrapping_def split: prod.splits sum.splits)
    have entry: "archive_entry (rq_workspace q) (rq_policy q) (rs_table s) i (archive_row_of q (rs_table s) i raw)"
      by (simp add: archive_entry_def archive_row_of_def)
    from workspace_insert_db [OF ins] show ?thesis
    proof
      assume same: "db w' = db w"
      show ?thesis
      proof (cases "r' = Inr ()")
        case True
        with ins have "workspace_insert archive_table archive_clash ''_notification_retention_archive_entries''
            (rq_workspace q) (rq_workspace q) (archive_row_of q (rs_table s) i raw) w = (Inr (), w')" by simp
        from workspace_insert_Inr [OF this]
        have "db w' = (db w)\<lparr>db_archive := db_archive (db w) @ [archive_row_of q (rs_table s) i raw]\<rparr>" by simp
        then have "db_archive (db w') = db_archive (db w) @ [archive_row_of q (rs_table s) i raw]" by simp
        with same show ?thesis by simp
      qed (use r same in \<open>auto intro: archive_effect_none\<close>)
    next
      assume "\<not> list_ex (archive_clash (archive_row_of q (rs_table s) i raw)) (fst archive_table (db w)) \<and>
        db w' = snd archive_table (fst archive_table (db w) @ [archive_row_of q (rs_table s) i raw]) (db w)"
      then have d: "db w' = (db w)\<lparr>db_archive := db_archive (db w) @ [archive_row_of q (rs_table s) i raw]\<rparr>" by simp
      then have "archived_or_gone q s i (db w')" using entry by (simp add: archived_or_gone_def archived_in_def)
      moreover have "archived_copy encode q s i (db w) (archive_row_of q (rs_table s) i raw)"
        using entry Inr Some by (auto simp: archived_copy_def archive_row_of_def find_Some_iff intro!: bexI [of _ x])
      ultimately show ?thesis using d unfolding archive_effect_def by (intro conjI exI [of _ "[archive_row_of q (rs_table s) i raw]"]) simp_all
    qed
  qed
qed

lemma archive_candidate_effect:
  assumes "archive_candidate encode q s i w = (r, w')" shows "archive_effect encode q s i (db w) r (db w')"
  using assms [unfolded archive_candidate_def count_rows_def]
proof (rule query_then, goal_cases)
  case (1 e)
  then show ?case by (simp add: archive_effect_none)
next
  case (2 w1)
  have archived: "archived_in (db w) (rq_workspace q) (rq_policy q) (rs_table s) i =
      (filter (archive_entry (rq_workspace q) (rq_policy q) (rs_table s) i) (db_archive (db w)) \<noteq> [])"
    by (auto simp: archived_in_def list_ex_iff filter_empty_conv)
  show ?case
  proof (cases "archived_in (db w) (rq_workspace q) (rq_policy q) (rs_table s) i")
    case True
    with 2 archived have "db w' = db w" by simp
    with True show ?thesis by (simp add: archive_effect_none archived_or_gone_def)
  next
    case False
    with 2 archived have "bind_io (query (\<lambda>d. List.find (addressed_row q s i) (stored_rows (rs_table s) d))) (archive_found encode q s i) w1 = (r, w')"
      by simp
    then show ?thesis
    proof (rule query_then)
      fix e assume "r = Inl e" "db w' = db w1"
      with 2 show ?thesis by (simp add: archive_effect_none)
    next
      fix w2 assume "db w2 = db w1" "archive_found encode q s i (List.find (addressed_row q s i) (stored_rows (rs_table s) (db w1))) w2 = (r, w')"
      with archive_found_effect [of encode q s i w2 r w'] 2 show ?thesis by simp
    qed
  qed
qed

text \<open>What one candidate does to the database: a copy in the archive, and the deletion after it.\<close>

definition candidate_deleted :: "(stored \<Rightarrow> err + string) \<Rightarrow> retention_request \<Rightarrow> retention_spec \<Rightarrow> string \<Rightarrow> database \<Rightarrow> database \<Rightarrow> bool" where
  "candidate_deleted encode q s i d d' \<longleftrightarrow> rq_operation q = ''purge'' \<and> \<not> rq_dry_run q \<and>
     \<not> retention_held (rq_holds q) (rs_table s) i (rq_now q) \<and>
     (rs_referenced s \<longrightarrow> \<not> (\<exists>l \<in> set (db_locks d). lk_request l = i)) \<and>
     (\<exists>as. (\<forall>a \<in> set as. archived_copy encode q s i d a) \<and> archived_or_gone q s i (d\<lparr>db_archive := db_archive d @ as\<rparr>) \<and>
       d' = delete_stored (rs_table s) (addressed_row q s i) (d\<lparr>db_archive := db_archive d @ as\<rparr>))"

definition candidate_kept :: "retention_request \<Rightarrow> retention_spec \<Rightarrow> string \<Rightarrow> database \<Rightarrow> bool" where
  "candidate_kept q s i d \<longleftrightarrow> rq_operation q \<noteq> ''purge'' \<or> rq_dry_run q \<or> retention_held (rq_holds q) (rs_table s) i (rq_now q) \<or>
     rs_referenced s \<and> (\<exists>l \<in> set (db_locks d). lk_request l = i)"

lemma archive_nothing: "d' = d \<Longrightarrow> \<exists>as. (d' :: database) = d\<lparr>db_archive := db_archive d @ as\<rparr> \<and> (\<forall>a \<in> set as. archived_copy encode q s i d a)"
  by (rule exI [of _ "[]"]) simp

lemma process_candidate_effect:
  assumes "process_candidate encode q s c acc w = (r, w')"
  shows "(\<exists>as. db w' = (db w)\<lparr>db_archive := db_archive (db w) @ as\<rparr> \<and> (\<forall>a \<in> set as. archived_copy encode q s (fst c) (db w) a)) \<and> (\<forall>x. r = Inr x \<longrightarrow> candidate_kept q s (fst c) (db w)) \<or>
    candidate_deleted encode q s (fst c) (db w) (db w')"
proof (cases "retention_held (rq_holds q) (rs_table s) (fst c) (rq_now q)")
  case True
  with assms have "db w' = db w" by (simp add: process_candidate_def Let_def)
  from archive_nothing [OF this] True show ?thesis by (simp add: candidate_kept_def)
next
  case False
  let ?purge = "rq_operation q = ''purge''" and ?i = "fst c"
  let ?acc = "scanned_candidate s c acc"
  let ?last = "\<lambda>archived. let acc = ?acc\<lparr>rt_archived := rt_archived ?acc + (if archived then 1 else 0)\<rparr> in
      if \<not> ?purge then ret acc
      else bind_io (delete_candidate q s ?i) (\<lambda>deleted. ret (acc\<lparr>rt_purged := rt_purged acc + deleted\<rparr>))"
  let ?check = "if rs_referenced s \<and> ?purge then count_references ?i else ret 0"
  from assms False have run: "bind_io ?check (\<lambda>references.
       if 0 < references then ret (?acc\<lparr>rt_skipped := rt_skipped ?acc + 1\<rparr>) else if rq_dry_run q then ret ?acc
       else bind_io (archive_candidate encode q s ?i) ?last) w = (r, w')"
    unfolding process_candidate_def Let_def by simp
  have refs: "db w1 = db w \<and> (\<forall>n. x = Inr n \<longrightarrow> 0 < n \<longleftrightarrow> rs_referenced s \<and> ?purge \<and> (\<exists>l \<in> set (db_locks (db w)). lk_request l = ?i))"
    if "?check w = (x, w1)" for x w1
    using that by (cases "rs_referenced s \<and> ?purge")
      (auto simp: count_references_def filter_empty_conv dest: statement_db dest!: count_rows_Inr)
  from run show ?thesis
  proof (rule bind_io_cases, goal_cases)
    case (1 e)
    from refs [OF 1(1)] have "db w' = db w" by simp
    from archive_nothing [OF this] 1(2) show ?case by simp
  next
    case (2 n w1)
    note w1 = refs [OF 2(1)]
    show ?case
    proof (cases "0 < n \<or> rq_dry_run q")
      case True
      with 2(2) w1 have "db w' = db w" by (simp split: if_splits)
      from archive_nothing [OF this] True w1 show ?thesis by (auto simp: candidate_kept_def)
    next
      case go: False
      with 2(2) have "bind_io (archive_candidate encode q s ?i) ?last w1 = (r, w')" by simp
      then show ?thesis
      proof (rule bind_io_cases)
        fix e assume "archive_candidate encode q s ?i w1 = (Inl e, w')" "r = Inl e"
        with archive_candidate_effect [OF this(1)] w1 show ?thesis by (auto simp: archive_effect_def)
      next
        fix b w2 assume "archive_candidate encode q s ?i w1 = (Inr b, w2)" and fin: "?last b w2 = (r, w')"
        from archive_candidate_effect [OF this(1)] w1 have "archive_effect encode q s ?i (db w) (Inr b) (db w2)" by simp
        then obtain as where
          w2: "db w2 = (db w)\<lparr>db_archive := db_archive (db w) @ as\<rparr>" "archived_or_gone q s ?i (db w2)"
          and copies: "\<forall>a \<in> set as. archived_copy encode q s ?i (db w) a"
          unfolding archive_effect_def by blast
        have "db w' = db w2 \<and> (\<not> ?purge \<or> (\<exists>e. r = Inl e)) \<or> ?purge \<and> db w' = delete_stored (rs_table s) (addressed_row q s ?i) (db w2)"
          using fin by (auto simp: Let_def delete_candidate_def elim!: bind_io_cases exec_cases split: if_splits)
        then show ?thesis
        proof
          assume "?purge \<and> db w' = delete_stored (rs_table s) (addressed_row q s ?i) (db w2)"
          with go w1 w2 copies False have "candidate_deleted encode q s ?i (db w) (db w')" unfolding candidate_deleted_def by auto
          then show ?thesis ..
        qed (use w2 copies in \<open>auto simp: candidate_kept_def\<close>)
      qed
    qed
  qed
qed

lemma process_candidate_progress:
  assumes "process_candidate encode q s c acc w = (r, w')" "purge_progress encode q specs d0 (db w)" "s \<in> set specs"
    "y \<in> set (stored_rows (rs_table s) d0)" "addressed_row q s (fst c) y" "retention_predicate s (retention_cutoff q) d0 y"
  shows "purge_progress encode q specs d0 (db w')"
  using process_candidate_effect [OF assms(1)]
proof
  assume "candidate_deleted encode q s (fst c) (db w) (db w')"
  then obtain as where d: "rq_operation q = ''purge''" "\<not> rq_dry_run q" "\<not> retention_held (rq_holds q) (rs_table s) (fst c) (rq_now q)"
    "rs_referenced s \<longrightarrow> \<not> (\<exists>l \<in> set (db_locks (db w)). lk_request l = fst c)"
    "\<forall>a \<in> set as. archived_copy encode q s (fst c) (db w) a"
    "archived_or_gone q s (fst c) ((db w)\<lparr>db_archive := db_archive (db w) @ as\<rparr>)"
    "db w' = delete_stored (rs_table s) (addressed_row q s (fst c)) ((db w)\<lparr>db_archive := db_archive (db w) @ as\<rparr>)"
    unfolding candidate_deleted_def by blast
  have "db_locks (db w) = db_locks d0" using assms(2) by (simp add: purge_progress_def)
  with progress_delete [OF progress_archive [OF assms(2,3) d(5)] assms(3) d(1-3) _ assms(4-6) d(6) [unfolded archived_or_gone_def]] d(4,7)
  show ?thesis by simp
next
  assume "(\<exists>as. db w' = (db w)\<lparr>db_archive := db_archive (db w) @ as\<rparr> \<and> (\<forall>a \<in> set as. archived_copy encode q s (fst c) (db w) a)) \<and>
    (\<forall>x. r = Inr x \<longrightarrow> candidate_kept q s (fst c) (db w))"
  then obtain as where "db w' = (db w)\<lparr>db_archive := db_archive (db w) @ as\<rparr>" "\<forall>a \<in> set as. archived_copy encode q s (fst c) (db w) a" by blast
  with progress_archive [OF assms(2,3)] show ?thesis by simp
qed

lemma process_candidate_counts:
  assumes "process_candidate encode q s c acc w = (Inr acc', w')"
  shows "rt_done acc' = rt_done acc \<and> rt_scanned acc' = rt_scanned acc + 1"
  using assms by (auto simp: process_candidate_def scanned_candidate_def Let_def split_beta bind_io_Inr split: if_splits)

section \<open>Batches\<close>

definition candidate_row :: "retention_request \<Rightarrow> retention_spec \<Rightarrow> database \<Rightarrow> stored \<Rightarrow> bool" where
  "candidate_row q s d r \<longleftrightarrow> r \<in> set (stored_rows (rs_table s) d) \<and> in_scope s (rq_workspace q) r \<and>
     retention_predicate s (retention_cutoff q) d r"

lemma candidates_rows:
  assumes "c \<in> set (retention_candidates q s limit d)"
  shows "\<exists>y. candidate_row q s d y \<and> stored_id y = fst c"
proof -
  from assms obtain y where "c = (stored_id y, stored_time y)" "candidate_row q s d y"
    by (auto simp: retention_candidates_def candidate_row_def dest!: subsetD [OF set_take_limit])
  then show ?thesis by (intro exI [of _ y]) simp
qed

lemma candidates_all:
  assumes "int (length (retention_candidates q s limit d)) < limit" "candidate_row q s d y" "rq_operation q = ''purge''"
  shows "(stored_id y, stored_time y) \<in> set (retention_candidates q s limit d)"
proof -
  have short: "take_limit n xs = xs" if "int (length (take_limit n xs)) < n" for n and xs :: "'x list"
    using that by (simp add: take_limit_def min_def split: if_splits)
  from assms(2,3) show ?thesis
    unfolding retention_candidates_def short [OF assms(1) [unfolded retention_candidates_def]]
    by (auto simp: candidate_row_def)
qed

lemma retention_extra:
  assumes "s \<in> set (retention_specs history publication policy)" "db_templates d = db_templates d0"
  shows "retention_predicate s cutoff d r = retention_predicate s cutoff d0 r"
proof -
  have "superseded_version d r = superseded_version d0 r" using assms(2) by (cases r) simp_all
  moreover have "s \<in> set (all_retention_specs history publication)" using assms(1) by (simp add: retention_specs_def)
  then have "rs_extra s \<in> {\<lambda>d r. True, \<lambda>d. settled_item, superseded_version}"
    by (simp add: all_retention_specs_def workspace_spec_def) (elim disjE; simp)
  ultimately have "rs_extra s d r = rs_extra s d0 r" by auto
  then show ?thesis by (simp add: retention_predicate_def)
qed

lemma fold_candidates_progress:
  assumes "fold_io (process_candidate encode q s) cs acc w = (r, w')" "purge_progress encode q specs d0 (db w)" "s \<in> set specs"
    "\<And>c. c \<in> set cs \<Longrightarrow> \<exists>y. candidate_row q s d0 y \<and> stored_id y = fst c"
  shows "purge_progress encode q specs d0 (db w')"
  using assms
proof (induction cs arbitrary: acc w)
  case (Cons c cs)
  from Cons.prems(1) have "bind_io (process_candidate encode q s c acc) (fold_io (process_candidate encode q s) cs) w = (r, w')" by simp
  moreover obtain y where y: "y \<in> set (stored_rows (rs_table s) d0)" "addressed_row q s (fst c) y" "retention_predicate s (retention_cutoff q) d0 y"
    using Cons.prems(4) [of c] by (auto simp: candidate_row_def addressed_row_def)
  ultimately show ?case
    by (rule_tac bind_io_cases [of "process_candidate encode q s c acc"])
      (use Cons.IH Cons.prems(2,3,4) process_candidate_progress [OF _ _ Cons.prems(3) y] in auto)
qed simp

lemma candidate_row_before:
  assumes "purge_progress encode q (retention_specs history publication policy) d0 d" "s \<in> set (retention_specs history publication policy)"
    "candidate_row q s d y"
  shows "candidate_row q s d0 y"
  using assms retention_extra [OF assms(2), of d d0] by (auto simp: purge_progress_def candidate_row_def)

lemma process_spec_progress:
  assumes "process_spec encode q s limit w = (r, w')" "purge_progress encode q (retention_specs history publication policy) d0 (db w)"
    "s \<in> set (retention_specs history publication policy)"
  shows "purge_progress encode q (retention_specs history publication policy) d0 (db w')"
  using assms(1) unfolding process_spec_def
proof (rule query_then)
  fix e assume "db w' = db w"
  with assms(2) show ?thesis by simp
next
  fix w1
  let ?cs = "retention_candidates q s limit (db w)"
  assume w1: "db w1 = db w" "fold_io (process_candidate encode q s) ?cs (empty_result (int (length ?cs) < limit)) w1 = (r, w')"
  show ?thesis
  proof (rule fold_candidates_progress [OF w1(2) _ assms(3)])
    show "purge_progress encode q (retention_specs history publication policy) d0 (db w1)" using assms(2) w1(1) by simp
    show "\<exists>y. candidate_row q s d0 y \<and> stored_id y = fst c" if "c \<in> set ?cs" for c
      using candidates_rows [OF that] candidate_row_before [OF assms(2,3)] by blast
  qed
qed

lemma process_specs_progress:
  assumes "process_specs encode q ss remaining acc w = (r, w')" "purge_progress encode q (retention_specs history publication policy) d0 (db w)"
    "set ss \<subseteq> set (retention_specs history publication policy)"
  shows "purge_progress encode q (retention_specs history publication policy) d0 (db w')"
  using assms
proof (induction ss arbitrary: remaining acc w)
  case (Cons s ss)
  show ?case
  proof (cases "remaining \<le> 0")
    case True
    with Cons.prems show ?thesis by simp
  next
    case False
    with Cons.prems(1) have "bind_io (process_spec encode q s remaining) (\<lambda>b.
        process_specs encode q ss (remaining - rt_scanned b) (merge_result acc b)) w = (r, w')" by simp
    then show ?thesis
    proof (rule bind_io_cases)
      fix e assume "process_spec encode q s remaining w = (Inl e, w')"
      then show ?thesis by (rule process_spec_progress [OF _ Cons.prems(2)]) (use Cons.prems(3) in simp)
    next
      fix b w1 assume b: "process_spec encode q s remaining w = (Inr b, w1)"
        and rest: "process_specs encode q ss (remaining - rt_scanned b) (merge_result acc b) w1 = (r, w')"
      have "purge_progress encode q (retention_specs history publication policy) d0 (db w1)"
        by (rule process_spec_progress [OF b Cons.prems(2)]) (use Cons.prems(3) in simp)
      from Cons.IH [OF rest this] Cons.prems(3) show ?thesis by simp
    qed
  qed
qed simp

lemma batch_progress:
  assumes "process_batch valid encode history publication q w = (r, w')"
  shows "purge_progress encode q (retention_specs history publication (rq_policy q)) (db w) (db w')"
proof (cases "valid q")
  case None
  show ?thesis
  proof (cases "retention_specs history publication (rq_policy q) = []")
    case True
    with None assms show ?thesis by (simp add: process_batch_def Let_def io_simps progress_refl)
  next
    case False
    with None assms have "process_specs encode q (retention_specs history publication (rq_policy q)) (rq_limit q) (empty_result True) w = (r, w')"
      by (simp add: process_batch_def Let_def io_simps)
    then show ?thesis by (rule process_specs_progress [OF _ progress_refl order_refl])
  qed
qed (use assms in \<open>simp add: process_batch_def progress_refl\<close>)

text \<open>
  Identities. In six of the tables a unique index of the schema makes an identity the name of one row of the
  workspace (or, for publication requests, of all workspaces). The identity the rule of the alert groups uses,
  the last event, and the one of template versions are not under such an index.
\<close>

definition alone :: "retention_spec \<Rightarrow> workspace_id \<Rightarrow> database \<Rightarrow> stored \<Rightarrow> bool" where
  "alone s ws d x \<longleftrightarrow> rs_table s \<notin> {GroupsTable, VersionsTable} \<or>
     (\<forall>y \<in> set (stored_rows (rs_table s) d). in_scope s ws y \<and> stored_id y = stored_id x \<longrightarrow> y = x)"

lemma no_clash_same: "no_clash c rs \<Longrightarrow> (\<And>a b. c a b = c b a) \<Longrightarrow> a \<in> set rs \<Longrightarrow> b \<in> set rs \<Longrightarrow> c a b \<Longrightarrow> a = b"
  by (induction rs) (auto simp: no_clash_def)

lemma alone_names:
  assumes "schema_ok d" "s \<in> set (all_retention_specs history publication)" "alone s ws d x" "in_scope s ws x"
    and "x \<in> set (stored_rows (rs_table s) d)" "y \<in> set (stored_rows (rs_table s) d)" "in_scope s ws y" "stored_id y = stored_id x"
  shows "y = x"
proof (cases "rs_table s \<in> {GroupsTable, VersionsTable}")
  case True
  with assms show ?thesis unfolding alone_def by blast
next
  case False
  note unique = no_clash_same [OF schema_ok_parts(1) [OF assms(1)] clash_sym(1)] no_clash_same [OF schema_ok_parts(2) [OF assms(1)] clash_sym(2)]
    no_clash_same [OF schema_ok_parts(3) [OF assms(1)] clash_sym(3)] no_clash_same [OF schema_ok_parts(4) [OF assms(1)] clash_sym(4)]
    no_clash_same [OF schema_ok_parts(10) [OF assms(1)] clash_sym(10)] no_clash_same [OF schema_ok_parts(14) [OF assms(1)] clash_sym(14)]
  have "rs_table s = RequestsTable \<or> rs_scoped s" using assms(2) False by (auto simp: all_retention_specs_def workspace_spec_def)
  then have ws: "rs_table s = RequestsTable \<or> stored_workspace x = ws \<and> stored_workspace y = ws"
    using assms(4,7) by (auto simp: in_scope_def)
  show ?thesis
  proof (cases "rs_table s")
    case ItemsTable
    with assms(5,6) obtain a b where "x = StoredItem a" "a \<in> set (db_items d)" "y = StoredItem b" "b \<in> set (db_items d)" by auto
    with unique(4) [of b a] ws ItemsTable assms(8) show ?thesis by (simp add: item_clash_def)
  next
    case PlansTable
    with assms(5,6) obtain a b where "x = StoredPlan a" "a \<in> set (db_plans d)" "y = StoredPlan b" "b \<in> set (db_plans d)" by auto
    with unique(3) [of b a] ws PlansTable assms(8) show ?thesis by (simp add: plan_clash_def)
  next
    case EventsTable
    with assms(5,6) obtain a b where "x = StoredEvent a" "a \<in> set (db_events d)" "y = StoredEvent b" "b \<in> set (db_events d)" by auto
    with unique(1) [of b a] ws EventsTable assms(8) show ?thesis by (simp add: event_clash_def)
  next
    case FailuresTable
    with assms(5,6) obtain a b where "x = StoredFailure a" "a \<in> set (db_failures d)" "y = StoredFailure b" "b \<in> set (db_failures d)" by auto
    with unique(2) [of b a] ws FailuresTable assms(8) show ?thesis by (simp add: failure_clash_def)
  next
    case ReservationsTable
    with assms(5,6) obtain a b where "x = StoredReservation a" "a \<in> set (db_reservations d)" "y = StoredReservation b" "b \<in> set (db_reservations d)" by auto
    with unique(6) [of b a] ws ReservationsTable assms(8) show ?thesis by (simp add: reservation_clash_def)
  next
    case RequestsTable
    with assms(5,6) obtain a b where "x = StoredRequest a" "a \<in> set (db_requests d)" "y = StoredRequest b" "b \<in> set (db_requests d)" by auto
    with unique(5) [of b a] assms(8) show ?thesis by (simp add: request_clash_def)
  qed (use False in simp_all)
qed

lemma spec_of_table:
  "s \<in> set (all_retention_specs history publication) \<Longrightarrow> s' \<in> set (all_retention_specs history publication) \<Longrightarrow>
   table_name (rs_table s) = table_name (rs_table s') \<Longrightarrow> s = s'"
proof -
  have "map (\<lambda>s. table_name (rs_table s)) (all_retention_specs history publication) = map table_name
      [ItemsTable, GroupsTable, PlansTable, EventsTable, FailuresTable, ReservationsTable, VersionsTable, RequestsTable]"
    by (simp add: all_retention_specs_def workspace_spec_def)
  then have "distinct (map (\<lambda>s. table_name (rs_table s)) (all_retention_specs history publication))" by simp
  then show "s \<in> set (all_retention_specs history publication) \<Longrightarrow> s' \<in> set (all_retention_specs history publication) \<Longrightarrow>
      table_name (rs_table s) = table_name (rs_table s') \<Longrightarrow> s = s'"
    unfolding distinct_map by (blast dest: inj_onD)
qed

definition purged_with_reason ::
  "(stored \<Rightarrow> err + string) \<Rightarrow> retention_request \<Rightarrow> retention_spec \<Rightarrow> database \<Rightarrow> database \<Rightarrow> stored \<Rightarrow> bool" where
  "purged_with_reason encode q s before after x \<longleftrightarrow> rq_operation q = ''purge'' \<and> \<not> rq_dry_run q \<and>
     \<not> retention_held (rq_holds q) (rs_table s) (stored_id x) (rq_now q) \<and>
     (rs_scoped s \<longrightarrow> stored_workspace x = rq_workspace q) \<and>
     (rs_referenced s \<longrightarrow> \<not> (\<exists>l \<in> set (db_locks before). lk_request l = stored_id x)) \<and>
     (\<exists>y \<in> set (stored_rows (rs_table s) before). in_scope s (rq_workspace q) y \<and> stored_id y = stored_id x \<and>
        retention_predicate s (retention_cutoff q) before y) \<and>
     (\<exists>a \<in> set (db_archive after). archive_entry (rq_workspace q) (rq_policy q) (rs_table s) (stored_id x) a \<and>
        (a \<in> set (db_archive before) \<or> aw_hash a = value_hash (aw_payload a) \<and> (alone s (rq_workspace q) before x \<longrightarrow> encode x = Inr (aw_payload a)))) \<and>
     (alone s (rq_workspace q) before x \<longrightarrow> retention_predicate s (retention_cutoff q) before x)"

lemma rightly_purged_reason:
  assumes "schema_ok d0" "archive_grows encode q (retention_specs history publication policy) d0 d"
    and "rightly_purged q (retention_specs history publication policy) d0 d t x" "x \<in> set (stored_rows t d0)"
  shows "\<exists>s \<in> set (retention_specs history publication policy). rs_table s = t \<and> purged_with_reason encode q s d0 d x"
proof -
  let ?specs = "retention_specs history publication policy"
  have all: "s \<in> set (all_retention_specs history publication)" if "s \<in> set ?specs" for s using that by (simp add: retention_specs_def)
  from assms(3) obtain s y a where s: "s \<in> set ?specs" "rs_table s = t" "in_scope s (rq_workspace q) x"
    "rs_referenced s \<longrightarrow> \<not> (\<exists>l \<in> set (db_locks d0). lk_request l = stored_id x)"
    and y: "y \<in> set (stored_rows t d0)" "addressed_row q s (stored_id x) y" "retention_predicate s (retention_cutoff q) d0 y"
    and a: "a \<in> set (db_archive d)" "archive_entry (rq_workspace q) (rq_policy q) t (stored_id x) a"
    and base: "rq_operation q = ''purge''" "\<not> rq_dry_run q" "\<not> retention_held (rq_holds q) t (stored_id x) (rq_now q)"
    unfolding rightly_purged_def archived_in_def list_ex_iff by blast
  have same: "z = x" if "alone s (rq_workspace q) d0 x" "z \<in> set (stored_rows t d0)" "addressed_row q s (stored_id x) z" for z
    by (rule alone_names [OF assms(1) all [OF s(1)] that(1) s(3)]) (use that assms(4) s(2) in \<open>auto simp: addressed_row_def\<close>)
  have copy: "a \<in> set (db_archive d0) \<or> aw_hash a = value_hash (aw_payload a) \<and> (alone s (rq_workspace q) d0 x \<longrightarrow> encode x = Inr (aw_payload a))"
  proof (cases "a \<in> set (db_archive d0)")
    case False
    with assms(2) a(1) obtain s' where s': "s' \<in> set ?specs" "archived_copy encode q s' (aw_resource a) d0 a" unfolding archive_grows_def by blast
    have i: "aw_resource a = stored_id x" and n: "aw_table a = table_name t" using a(2) by (simp_all add: archive_entry_def)
    have "table_name (rs_table s') = table_name (rs_table s)" using s'(2) n s(2) by (simp add: archived_copy_def archive_entry_def)
    then have "s' = s" by (rule spec_of_table [OF all [OF s'(1)] all [OF s(1)]])
    with s'(2) i have "archived_copy encode q s (stored_id x) d0 a" by simp
    then obtain z where "aw_hash a = value_hash (aw_payload a)" "z \<in> set (stored_rows t d0)" "addressed_row q s (stored_id x) z"
        "encode z = Inr (aw_payload a)"
      by (auto simp: archived_copy_def s(2))
    with same show ?thesis by metis
  qed simp
  have "rs_scoped s \<longrightarrow> stored_workspace x = rq_workspace q" using s(3) by (simp add: in_scope_def)
  moreover have "in_scope s (rq_workspace q) y \<and> stored_id y = stored_id x" using y(2) by (simp add: addressed_row_def)
  moreover have "alone s (rq_workspace q) d0 x \<longrightarrow> retention_predicate s (retention_cutoff q) d0 x" using same [OF _ y(1,2)] y(3) by metis
  ultimately have "purged_with_reason encode q s d0 d x"
    unfolding purged_with_reason_def s(2) using s(4) y(1,3) a base copy by blast
  with s(1,2) show ?thesis by blast
qed


section \<open>Batches terminate\<close>

definition shrinks :: "database \<Rightarrow> database \<Rightarrow> bool" where
  "shrinks d d' \<longleftrightarrow> db_templates d' = db_templates d \<and> db_locks d' = db_locks d \<and> (\<forall>t. set (stored_rows t d') \<subseteq> set (stored_rows t d))"

lemma shrinks_refl: "shrinks d d"
  by (simp add: shrinks_def)

lemma shrinks_trans: "shrinks d d1 \<Longrightarrow> shrinks d1 d2 \<Longrightarrow> shrinks d d2"
  by (auto simp: shrinks_def)

definition row_count :: "database \<Rightarrow> nat" where
  "row_count d = sum_list (map (\<lambda>t. length (stored_rows t d))
     [ItemsTable, GroupsTable, PlansTable, EventsTable, FailuresTable, ReservationsTable, VersionsTable, RequestsTable])"

lemma row_count_archive [simp]: "row_count (d\<lparr>db_archive := as\<rparr>) = row_count d"
  by (simp add: row_count_def)

lemma row_count_delete:
  "row_count (delete_stored t P d) + length (filter P (stored_rows t d)) = row_count d"
proof -
  have split: "length (filter (\<lambda>r. \<not> P r) xs) + length (filter P xs) = length xs" for xs
    by (induction xs) simp_all
  show ?thesis using split [of "stored_rows t d"] by (cases t) (simp_all add: row_count_def stored_rows_delete del: delete_stored.simps stored_rows.simps)
qed

lemma candidate_effects:
  assumes "process_candidate encode q s c acc w = (Inr acc', w')"
  shows "shrinks (db w) (db w')" "row_count (db w') \<le> row_count (db w)"
    "candidate_kept q s (fst c) (db w) \<or> \<not> list_ex (addressed_row q s (fst c)) (stored_rows (rs_table s) (db w'))"
    "list_ex (addressed_row q s (fst c)) (stored_rows (rs_table s) (db w)) \<Longrightarrow> \<not> candidate_kept q s (fst c) (db w) \<Longrightarrow>
       row_count (db w') < row_count (db w)"
proof -
  let ?P = "addressed_row q s (fst c)"
  consider (kept) as where "db w' = (db w)\<lparr>db_archive := db_archive (db w) @ as\<rparr>" "candidate_kept q s (fst c) (db w)"
    | (deleted) as where "db w' = delete_stored (rs_table s) ?P ((db w)\<lparr>db_archive := db_archive (db w) @ as\<rparr>)"
    using process_candidate_effect [OF assms] unfolding candidate_deleted_def by blast
  then have "shrinks (db w) (db w') \<and> row_count (db w') \<le> row_count (db w) \<and>
    (candidate_kept q s (fst c) (db w) \<or> \<not> list_ex ?P (stored_rows (rs_table s) (db w'))) \<and>
    (list_ex ?P (stored_rows (rs_table s) (db w)) \<longrightarrow> \<not> candidate_kept q s (fst c) (db w) \<longrightarrow> row_count (db w') < row_count (db w))"
  proof cases
    case kept
    then show ?thesis by (simp add: shrinks_def)
  next
    case (deleted as)
    let ?d = "(db w)\<lparr>db_archive := db_archive (db w) @ as\<rparr>"
    have count: "row_count (db w') + length (filter ?P (stored_rows (rs_table s) (db w))) = row_count (db w)"
      using row_count_delete [of "rs_table s" ?P ?d] by (simp add: deleted)
    have "shrinks (db w) (db w')" by (auto simp: deleted shrinks_def stored_rows_delete split: if_splits)
    moreover have "\<not> list_ex ?P (stored_rows (rs_table s) (db w'))" by (simp add: deleted stored_rows_delete list_ex_iff)
    moreover have "row_count (db w') < row_count (db w)" if "list_ex ?P (stored_rows (rs_table s) (db w))"
    proof -
      from that have "filter ?P (stored_rows (rs_table s) (db w)) \<noteq> []" by (auto simp: list_ex_iff filter_empty_conv)
      then have "0 < length (filter ?P (stored_rows (rs_table s) (db w)))" by blast
      with count show ?thesis by linarith
    qed
    moreover have "row_count (db w') \<le> row_count (db w)" using count by linarith
    ultimately show ?thesis by blast
  qed
  then show "shrinks (db w) (db w')" "row_count (db w') \<le> row_count (db w)"
    "candidate_kept q s (fst c) (db w) \<or> \<not> list_ex ?P (stored_rows (rs_table s) (db w'))"
    "list_ex ?P (stored_rows (rs_table s) (db w)) \<Longrightarrow> \<not> candidate_kept q s (fst c) (db w) \<Longrightarrow> row_count (db w') < row_count (db w)"
    by blast+
qed

lemma kept_shrinks: "shrinks d d' \<Longrightarrow> candidate_kept q s i d' = candidate_kept q s i d"
  by (simp add: shrinks_def candidate_kept_def)

lemma gone_shrinks:
  "shrinks d d' \<Longrightarrow> \<not> list_ex P (stored_rows t d) \<Longrightarrow> \<not> list_ex P (stored_rows t d')"
  by (auto simp: shrinks_def list_ex_iff)

lemma fold_candidates_effects:
  assumes "fold_io (process_candidate encode q s) cs acc w = (Inr acc', w')"
  shows "shrinks (db w) (db w') \<and> row_count (db w') \<le> row_count (db w) \<and> rt_done acc' = rt_done acc \<and>
    rt_scanned acc' = rt_scanned acc + int (length cs) \<and>
    (\<forall>c \<in> set cs. candidate_kept q s (fst c) (db w) \<or> \<not> list_ex (addressed_row q s (fst c)) (stored_rows (rs_table s) (db w')))"
  using assms
proof (induction cs arbitrary: acc w)
  case (Cons c cs)
  then obtain b w1 where b: "process_candidate encode q s c acc w = (Inr b, w1)"
    and rest: "fold_io (process_candidate encode q s) cs b w1 = (Inr acc', w')" by (auto simp: bind_io_Inr)
  note one = candidate_effects [OF b] process_candidate_counts [OF b] and ih = Cons.IH [OF rest]
  have "shrinks (db w1) (db w')" using ih by blast
  note kept = kept_shrinks [OF one(1)] and gone = gone_shrinks [OF this]
  show ?case using one(1-3,5) ih kept gone shrinks_trans [OF one(1)] by auto
qed (simp add: shrinks_refl)

lemma fold_candidates_decrease:
  assumes "fold_io (process_candidate encode q s) (c # cs) acc w = (Inr acc', w')"
    "list_ex (addressed_row q s (fst c)) (stored_rows (rs_table s) (db w))" "\<not> candidate_kept q s (fst c) (db w)"
  shows "row_count (db w') < row_count (db w)"
proof -
  from assms(1) obtain b w1 where b: "process_candidate encode q s c acc w = (Inr b, w1)"
    and rest: "fold_io (process_candidate encode q s) cs b w1 = (Inr acc', w')" by (auto simp: bind_io_Inr)
  show ?thesis using candidate_effects(4) [OF b assms(2,3)] fold_candidates_effects [OF rest] by simp
qed

definition nothing_left :: "retention_request \<Rightarrow> retention_spec \<Rightarrow> database \<Rightarrow> bool" where
  "nothing_left q s d \<longleftrightarrow> (\<forall>x. candidate_row q s d x \<longrightarrow> candidate_kept q s (stored_id x) d)"

lemma candidate_row_shrinks:
  assumes "s \<in> set (retention_specs history publication policy)" "shrinks d d'" "candidate_row q s d' x"
  shows "candidate_row q s d x"
  using assms(2,3) retention_extra [OF assms(1), of d' d] by (auto simp: candidate_row_def shrinks_def)

lemma nothing_left_shrinks:
  assumes "s \<in> set (retention_specs history publication policy)" "shrinks d d'" "nothing_left q s d"
  shows "nothing_left q s d'"
  using assms(3) candidate_row_shrinks [OF assms(1,2)] kept_shrinks [OF assms(2)] by (auto simp: nothing_left_def)

lemma process_spec_effects:
  assumes "process_spec encode q s limit w = (Inr b, w')" "s \<in> set (retention_specs history publication policy)" "0 < limit"
    "rq_operation q = ''purge''"
  shows "shrinks (db w) (db w')" "row_count (db w') \<le> row_count (db w)" "rt_scanned b \<le> limit" "0 \<le> rt_scanned b"
    "rt_done b \<Longrightarrow> nothing_left q s (db w') \<and> rt_scanned b < limit"
    "\<not> rt_done b \<Longrightarrow> \<forall>x. candidate_row q s (db w) x \<longrightarrow> \<not> candidate_kept q s (stored_id x) (db w) \<Longrightarrow> row_count (db w') < row_count (db w)"
proof -
  let ?cs = "retention_candidates q s limit (db w)"
  from assms(1) obtain w1 where w1: "db w1 = db w"
    and run: "fold_io (process_candidate encode q s) ?cs (empty_result (int (length ?cs) < limit)) w1 = (Inr b, w')"
    unfolding process_spec_def by (auto elim: query_then)
  note f = fold_candidates_effects [OF run, unfolded w1]
  show "shrinks (db w) (db w')" "row_count (db w') \<le> row_count (db w)" using f by blast+
  have scanned: "rt_scanned b = int (length ?cs)" and finished: "rt_done b = (int (length ?cs) < limit)"
    using f by (simp_all add: empty_result_def)
  show "rt_scanned b \<le> limit" "0 \<le> rt_scanned b"
    using length_take_limit [of limit] assms(3) by (simp_all add: scanned retention_candidates_def)
  show "nothing_left q s (db w') \<and> rt_scanned b < limit" if "rt_done b"
    unfolding nothing_left_def
  proof (intro conjI allI impI)
    fix x assume x: "candidate_row q s (db w') x"
    then have before: "candidate_row q s (db w) x" using candidate_row_shrinks [OF assms(2)] f by blast
    have "(stored_id x, stored_time x) \<in> set ?cs"
      by (rule candidates_all [OF _ before assms(4)]) (use that finished in simp)
    with f have "candidate_kept q s (stored_id x) (db w) \<or>
      \<not> list_ex (addressed_row q s (stored_id x)) (stored_rows (rs_table s) (db w'))" by force
    moreover have "list_ex (addressed_row q s (stored_id x)) (stored_rows (rs_table s) (db w'))"
      using x by (auto simp: list_ex_iff addressed_row_def candidate_row_def)
    ultimately show "candidate_kept q s (stored_id x) (db w')" using f kept_shrinks by blast
  qed (use that finished scanned in simp)
  show "row_count (db w') < row_count (db w)"
    if "\<not> rt_done b" "\<forall>x. candidate_row q s (db w) x \<longrightarrow> \<not> candidate_kept q s (stored_id x) (db w)"
  proof (cases ?cs)
    case Nil
    with that(1) finished assms(3) show ?thesis by simp
  next
    case (Cons c cs)
    then obtain y where y: "candidate_row q s (db w) y" "stored_id y = fst c" using candidates_rows [of c q s limit "db w"] by auto
    then have "list_ex (addressed_row q s (fst c)) (stored_rows (rs_table s) (db w1))"
      by (auto simp: list_ex_iff addressed_row_def candidate_row_def w1)
    moreover have "\<not> candidate_kept q s (fst c) (db w1)" using that(2) y by (auto simp: w1)
    ultimately show ?thesis using fold_candidates_decrease [OF run [unfolded Cons]] w1 by simp
  qed
qed

lemma process_specs_effects:
  assumes "process_specs encode q ss remaining acc w = (Inr res, w')" "set ss \<subseteq> set (retention_specs history publication policy)"
    "rq_operation q = ''purge''"
  shows "shrinks (db w) (db w') \<and> row_count (db w') \<le> row_count (db w) \<and>
    rt_scanned acc \<le> rt_scanned res \<and> rt_scanned res \<le> rt_scanned acc + max 0 remaining \<and>
    (rt_done res \<longrightarrow> rt_done acc \<and> (\<forall>s \<in> set ss. nothing_left q s (db w'))) \<and>
    (0 < remaining \<and> rt_done acc \<and> \<not> rt_done res \<and>
      (\<forall>s \<in> set ss. \<forall>x. candidate_row q s (db w) x \<longrightarrow> \<not> candidate_kept q s (stored_id x) (db w)) \<longrightarrow>
      row_count (db w') < row_count (db w))"
  using assms
proof (induction ss arbitrary: remaining acc w)
  case (Cons s ss)
  show ?case
  proof (cases "remaining \<le> 0")
    case True
    with Cons.prems show ?thesis by (auto simp: shrinks_refl)
  next
    case False
    with Cons.prems(1) obtain b w1 where b: "process_spec encode q s remaining w = (Inr b, w1)"
      and rest: "process_specs encode q ss (remaining - rt_scanned b) (merge_result acc b) w1 = (Inr res, w')"
      by (auto simp: bind_io_Inr)
    have s: "s \<in> set (retention_specs history publication policy)" "set ss \<subseteq> set (retention_specs history publication policy)"
      using Cons.prems(2) by auto
    note one = process_spec_effects [OF b s(1) _ Cons.prems(3)] and ih = Cons.IH [OF rest s(2) Cons.prems(3)]
    have "0 < remaining" using False by simp
    note one = one [OF this]
    have tail: "shrinks (db w1) (db w')" using ih by blast
    have kept: "\<forall>t \<in> set ss. \<forall>x. candidate_row q t (db w1) x \<longrightarrow> \<not> candidate_kept q t (stored_id x) (db w1)"
      if "\<forall>t \<in> set ss. \<forall>x. candidate_row q t (db w) x \<longrightarrow> \<not> candidate_kept q t (stored_id x) (db w)"
      using that s(2) candidate_row_shrinks [OF _ one(1)] kept_shrinks [OF one(1)] by blast
    show ?thesis
    proof (intro conjI impI)
      show "shrinks (db w) (db w')" by (rule shrinks_trans [OF one(1) tail])
      show "row_count (db w') \<le> row_count (db w)" using one(2) ih by linarith
      show "rt_scanned acc \<le> rt_scanned res" "rt_scanned res \<le> rt_scanned acc + max 0 remaining"
        using ih one(3,4) False by (simp_all add: merge_result_def)
    next
      assume "rt_done res"
      with ih have d: "rt_done acc" "rt_done b" "\<forall>t \<in> set ss. nothing_left q t (db w')" by (simp_all add: merge_result_def)
      have "nothing_left q s (db w')" using one(5) [OF d(2)] nothing_left_shrinks [OF s(1) tail] by blast
      with d show "rt_done acc" "\<forall>t \<in> set (s # ss). nothing_left q t (db w')" by simp_all
    next
      assume a: "0 < remaining \<and> rt_done acc \<and> \<not> rt_done res \<and>
        (\<forall>t \<in> set (s # ss). \<forall>x. candidate_row q t (db w) x \<longrightarrow> \<not> candidate_kept q t (stored_id x) (db w))"
      show "row_count (db w') < row_count (db w)"
      proof (cases "rt_done b")
        case True
        have "0 < remaining - rt_scanned b" using one(5) [OF True] by simp
        moreover have "rt_done (merge_result acc b)" using a True by (simp add: merge_result_def)
        ultimately have "row_count (db w') < row_count (db w1)" using ih a kept by simp
        with one(2) show ?thesis by linarith
      next
        case False
        from one(6) [OF False] a have "row_count (db w1) < row_count (db w)" by simp
        with ih show ?thesis by linarith
      qed
    qed
  qed
qed (simp add: shrinks_refl)

lemma process_batch_run:
  assumes "process_batch valid encode history publication q w = (Inr res, w')"
  shows "process_specs encode q (retention_specs history publication (rq_policy q)) (rq_limit q) (empty_result True) w = (Inr res, w')"
  using assms by (auto simp: process_batch_def Let_def guard_io_def split: option.splits if_splits)

text \<open>C30: A purge scans no more rows than its limit, and when it says it is done nothing is left to purge: every row
  of the policy's tables in scope that is still expired and in a terminal state is covered by a
  hold, or referred to by a publication lock.\<close>

theorem done_batch_is_complete:
  assumes "process_batch valid encode history publication q w = (Inr res, w')" "rq_operation q = ''purge''"
  shows "rt_scanned res \<le> max 0 (rq_limit q) \<and>
    (rt_done res \<longrightarrow> (\<forall>s \<in> set (retention_specs history publication (rq_policy q)). nothing_left q s (db w')))"
  using process_specs_effects [OF process_batch_run [OF assms(1)] order_refl assms(2)] by (simp add: empty_result_def)

lemma purge_decreases:
  assumes "process_batch valid encode history publication q w = (Inr res, w')" "rq_operation q = ''purge''" "0 < rq_limit q"
    "\<forall>s \<in> set (retention_specs history publication (rq_policy q)). \<forall>x. candidate_row q s (db w) x \<longrightarrow> \<not> candidate_kept q s (stored_id x) (db w)"
    "\<not> rt_done res"
  shows "row_count (db w') < row_count (db w)"
  using process_specs_effects [OF process_batch_run [OF assms(1)] order_refl assms(2)] assms(3-5) by (simp add: empty_result_def)

text \<open>C29: A purge comes to an end: batches of the same request that return without an error and are not done are at
  most as many as there are rows, when no hold and no publication lock covers what is to go.\<close>

theorem purge_terminates:
  assumes "\<And>i. i < n \<Longrightarrow> process_batch valid encode history publication q (ws i) = (Inr (res i), ws (Suc i)) \<and> \<not> rt_done (res i)"
    "rq_operation q = ''purge''" "0 < rq_limit q"
    "\<forall>s \<in> set (retention_specs history publication (rq_policy q)). \<forall>x. candidate_row q s (db (ws 0)) x \<longrightarrow>
      \<not> candidate_kept q s (stored_id x) (db (ws 0))"
  shows "n \<le> row_count (db (ws 0))"
proof -
  have "i \<le> n \<Longrightarrow> shrinks (db (ws 0)) (db (ws i)) \<and> row_count (db (ws i)) + i \<le> row_count (db (ws 0))" for i
  proof (induction i)
    case (Suc i)
    then have ih: "shrinks (db (ws 0)) (db (ws i))" "row_count (db (ws i)) + i \<le> row_count (db (ws 0))" and "i < n" by simp_all
    from assms(1) [OF \<open>i < n\<close>] have run: "process_batch valid encode history publication q (ws i) = (Inr (res i), ws (Suc i))"
      and more: "\<not> rt_done (res i)" by simp_all
    have "\<forall>s \<in> set (retention_specs history publication (rq_policy q)). \<forall>x. candidate_row q s (db (ws i)) x \<longrightarrow>
        \<not> candidate_kept q s (stored_id x) (db (ws i))"
      using assms(4) candidate_row_shrinks [OF _ ih(1)] kept_shrinks [OF ih(1)] by blast
    then have "row_count (db (ws (Suc i))) < row_count (db (ws i))" by (rule purge_decreases [OF run assms(2,3) _ more])
    moreover have "shrinks (db (ws i)) (db (ws (Suc i)))"
      using process_specs_effects [OF process_batch_run [OF run] order_refl assms(2)] by blast
    ultimately show ?case using ih shrinks_trans [OF ih(1)] by simp
  qed (simp add: shrinks_refl)
  from this [of n] show ?thesis by simp
qed

section \<open>Where the rules are wider than meant\<close>

text \<open>
  Template versions and publication requests are not selected by workspace: a batch of one
  workspace archives and deletes those of every other. Superseded requests are never purged.
  Candidates are always the oldest rows, so rows under a hold at the head of the order keep a
  batch from getting to any other row.
\<close>

lemma publication_rows_of_every_workspace:
  "\<exists>s \<in> set (all_retention_specs history publication). rs_table s = VersionsTable \<and> in_scope s ws r"
  "\<exists>s \<in> set (all_retention_specs history publication). rs_table s = RequestsTable \<and> in_scope s ws r"
  by (simp_all add: all_retention_specs_def workspace_spec_def in_scope_def)

lemma superseded_requests_stay:
  assumes "s \<in> set (all_retention_specs history publication)" "rs_table s = RequestsTable" "pr_status (rr_request r) = PublicationSuperseded"
  shows "\<not> retention_predicate s cutoff d (StoredRequest r)"
  using assms by (auto simp: all_retention_specs_def workspace_spec_def retention_predicate_def)

lemma held_rows_block_purge:
  assumes "process_spec encode q s limit w = (r, w')"
    "\<forall>c \<in> set (retention_candidates q s limit (db w)). retention_held (rq_holds q) (rs_table s) (fst c) (rq_now q)"
  shows "db w' = db w"
proof -
  have held: "db w2 = db w1" if "fold_io (process_candidate encode q s) cs acc w1 = (r, w2)"
    "\<forall>c \<in> set cs. retention_held (rq_holds q) (rs_table s) (fst c) (rq_now q)" for cs acc w1 w2
    using that
  proof (induction cs arbitrary: acc w1)
    case (Cons c cs)
    then show ?case by (auto simp: process_candidate_def Let_def io_simps)
  qed simp
  from assms(1) show ?thesis unfolding process_spec_def
    by (rule query_then) (use held assms(2) in auto)
qed

section \<open>An example\<close>

text \<open>
  Two recipients' alert groups, resolved by the same event. The identity the rule uses for a group
  is that event, so one copy is archived and both rows are deleted.
\<close>

definition resolved_group :: "user_id \<Rightarrow> alert_group" where
  "resolved_group u = \<lparr>al_workspace = ''ws'', al_recipient = u, al_group = ''g1'', al_state = ''resolved'', al_occurrences = 2,
     al_first = ''2026-01-01'', al_last = ''2026-01-01'', al_acknowledged_at = [], al_acknowledged_by = [],
     al_resolved_at = ''2026-01-01'', al_last_event = ''e1'', al_updated = timestamp 0\<rparr>"

definition two_groups :: database where
  "two_groups = empty_database\<lparr>db_groups := [resolved_group ''u1'', resolved_group ''u2'']\<rparr>"

definition purge_request :: retention_request where
  "purge_request = \<lparr>rq_workspace = ''ws'', rq_policy = ''history'', rq_version = ''1'', rq_seconds = 0, rq_now = 0, rq_holds = [],
     rq_limit = 10, rq_operation = ''purge'', rq_dry_run = False, rq_job = ''j1''\<rparr>"

definition group_copy :: archive_row where
  "group_copy = archive_row_of purge_request GroupsTable ''e1'' ''row''"

lemma empty_spec:
  assumes "outcomes w = []" "stored_rows (rs_table s) (db w) = []"
  shows "process_spec encode q s limit w = (Inr (empty_result (0 < limit)), w)"
  using assms by (simp add: process_spec_def retention_candidates_def take_limit_def query_run bind_io_def ret_def)

lemma groups_candidates:
  "retention_candidates (purge_request\<lparr>rq_limit := k\<rparr>) (workspace_spec ''history'' GroupsTable [''resolved'']) limit two_groups =
     take_limit limit [(''e1'', timestamp 0), (''e1'', timestamp 0)]"
proof -
  have "in_range 0" by (simp add: in_range_def year_start_def unix_epoch_day_def day_ns_def)
  then have "expired_by 0 (timestamp 0)"
    using timestamp_le_nano [of 0] by (simp add: expired_by_def timestamp_head)
  then show ?thesis
    by (simp add: retention_candidates_def two_groups_def empty_database_def resolved_group_def workspace_spec_def purge_request_def
      in_scope_def retention_predicate_def retention_cutoff_def)
qed

definition groups_result :: retention_result where
  "groups_result = \<lparr>rt_checkpoint = ''_notification_alert_groups:e1'', rt_scanned = 2, rt_archived = 1, rt_purged = 2, rt_skipped = 0,
     rt_oldest = earlier (earlier None (parsed_time (timestamp 0))) (parsed_time (timestamp 0)), rt_done = True\<rparr>"

lemma first_group:
  "process_candidate (\<lambda>r. Inr ''row'') (purge_request\<lparr>rq_limit := k\<rparr>) (workspace_spec ''history'' GroupsTable [''resolved'']) (''e1'', timestamp 0) acc
      (calm_world two_groups) =
    (Inr ((scanned_candidate (workspace_spec ''history'' GroupsTable [''resolved'']) (''e1'', timestamp 0) acc)
       \<lparr>rt_archived := rt_archived acc + 1, rt_purged := rt_purged acc + 2\<rparr>), calm_world (empty_database\<lparr>db_archive := [group_copy]\<rparr>))"
  by (simp add: process_candidate_def Let_def purge_request_def retention_held_def workspace_spec_def archive_candidate_def archive_found_def
      delete_candidate_def addressed_row_def in_scope_def statement_runs calm_world_def two_groups_def resolved_group_def empty_database_def
      group_copy_def scanned_candidate_def archive_row_of_def)

lemma groups_run:
  "process_spec (\<lambda>r. Inr ''row'') purge_request (workspace_spec ''history'' GroupsTable [''resolved'']) 10 (calm_world two_groups) =
     (Inr groups_result, calm_world (empty_database\<lparr>db_archive := [group_copy]\<rparr>))"
proof -
  have same: "purge_request\<lparr>rq_limit := 10\<rparr> = purge_request" by (simp add: purge_request_def)
  have entry: "archive_entry ''ws'' ''history'' GroupsTable ''e1'' group_copy"
    by (simp add: archive_entry_def group_copy_def archive_row_of_def purge_request_def)
  note first = first_group [of 10, unfolded same]
  have second: "process_candidate (\<lambda>r. Inr ''row'') purge_request (workspace_spec ''history'' GroupsTable [''resolved'']) (''e1'', timestamp 0) acc
      (calm_world (empty_database\<lparr>db_archive := [group_copy]\<rparr>)) =
    (Inr (scanned_candidate (workspace_spec ''history'' GroupsTable [''resolved'']) (''e1'', timestamp 0) acc),
     calm_world (empty_database\<lparr>db_archive := [group_copy]\<rparr>))" for acc
    using entry by (simp add: process_candidate_def Let_def purge_request_def retention_held_def workspace_spec_def archive_candidate_def
      delete_candidate_def addressed_row_def in_scope_def statement_runs calm_world_def empty_database_def scanned_candidate_def)
  show ?thesis
    by (simp add: process_spec_def query_run bind_io_def groups_candidates [of 10, unfolded same] take_limit_def first second ret_def empty_result_def groups_result_def)
      (simp add: scanned_candidate_def workspace_spec_def)
qed

definition groups_total :: retention_result where
  "groups_total = merge_result (merge_result (merge_result (merge_result (merge_result (merge_result (empty_result True)
     (empty_result True)) groups_result) (empty_result True)) (empty_result True)) (empty_result True)) (empty_result True)"

lemma two_groups_run:
  "process_batch (\<lambda>q. None) (\<lambda>r. Inr ''row'') ''history'' ''publication'' purge_request (calm_world two_groups) =
     (Inr groups_total, calm_world (empty_database\<lparr>db_archive := [group_copy]\<rparr>))"
proof -
  have specs: "retention_specs ''history'' ''publication'' (rq_policy purge_request) =
    [(workspace_spec ''history'' ItemsTable [])\<lparr>rs_extra := \<lambda>d. settled_item\<rparr>, workspace_spec ''history'' GroupsTable [''resolved''],
     workspace_spec ''history'' PlansTable [''planned'', ''failed'', ''cancelled''],
     workspace_spec ''history'' EventsTable [''materialized'', ''failed''], workspace_spec ''history'' FailuresTable [],
     workspace_spec ''history'' ReservationsTable []]"
    by (simp add: retention_specs_def all_retention_specs_def workspace_spec_def purge_request_def)
  have tables: "rs_table (workspace_spec p t ss) = t" for p t ss by (simp add: workspace_spec_def)
  have fields: "rq_limit purge_request = 10" "rt_scanned (empty_result b) = 0" "rt_scanned groups_result = 2" for b
    by (simp_all add: purge_request_def empty_result_def groups_result_def)
  have spec: "process_spec (\<lambda>r. Inr ''row'') purge_request s limit (calm_world d) = (Inr (empty_result (0 < limit)), calm_world d)"
    if "stored_rows (rs_table s) d = []" for s limit d
    using empty_spec [of "calm_world d" s] that by simp
  have empty: "db_items two_groups = []" "db_plans empty_database = []" "db_events empty_database = []"
    "db_failures empty_database = []" "db_reservations empty_database = []"
    by (simp_all add: two_groups_def empty_database_def)
  show ?thesis
    unfolding process_batch_def specs
    by (simp add: Let_def guard_io_def bind_io_def spec tables fields groups_run empty groups_total_def ret_def)
qed

text \<open>The second recipient's group is gone and no copy of it was made.\<close>

lemma second_group_lost:
  "\<exists>res w'. process_batch (\<lambda>q. None) (\<lambda>r. Inr ''row'') ''history'' ''publication'' purge_request (calm_world two_groups) = (Inr res, w') \<and>
     length (db_groups two_groups) = 2 \<and> db_groups (db w') = [] \<and> length (db_archive (db w')) = 1 \<and> rt_archived res = 1 \<and> rt_purged res = 2"
  using two_groups_run
  by (simp add: two_groups_def empty_database_def groups_total_def merge_result_def groups_result_def empty_result_def)

text \<open>A single resolved group is purged, and its copy is in the archive.\<close>

definition one_group :: database where
  "one_group = empty_database\<lparr>db_groups := [resolved_group ''u1'']\<rparr>"

lemma one_group_run:
  "\<exists>res. process_batch (\<lambda>q. None) (\<lambda>r. Inr ''row'') ''history'' ''publication'' purge_request (calm_world one_group) =
     (Inr res, calm_world (empty_database\<lparr>db_archive := [group_copy]\<rparr>))"
proof -
  let ?g = "workspace_spec ''history'' GroupsTable [''resolved'']"
  have specs: "retention_specs ''history'' ''publication'' (rq_policy purge_request) =
    [(workspace_spec ''history'' ItemsTable [])\<lparr>rs_extra := \<lambda>d. settled_item\<rparr>, ?g,
     workspace_spec ''history'' PlansTable [''planned'', ''failed'', ''cancelled''],
     workspace_spec ''history'' EventsTable [''materialized'', ''failed''], workspace_spec ''history'' FailuresTable [],
     workspace_spec ''history'' ReservationsTable []]"
    by (simp add: retention_specs_def all_retention_specs_def workspace_spec_def purge_request_def)
  have "expired_by 0 (timestamp 0)" using timestamp_le_nano [of 0] by (simp add: expired_by_def timestamp_head)
  then have candidates: "retention_candidates purge_request ?g limit one_group = take_limit limit [(''e1'', timestamp 0)]" for limit
    by (simp add: retention_candidates_def one_group_def empty_database_def resolved_group_def workspace_spec_def purge_request_def
      in_scope_def retention_predicate_def retention_cutoff_def)
  have one: "\<exists>acc'. process_candidate (\<lambda>r. Inr ''row'') purge_request ?g (''e1'', timestamp 0) acc (calm_world one_group) =
      (Inr acc', calm_world (empty_database\<lparr>db_archive := [group_copy]\<rparr>)) \<and> rt_scanned acc' = rt_scanned acc + 1" for acc
    by (simp add: process_candidate_def Let_def purge_request_def retention_held_def workspace_spec_def archive_candidate_def archive_found_def
      delete_candidate_def addressed_row_def in_scope_def statement_runs calm_world_def one_group_def resolved_group_def empty_database_def
      group_copy_def scanned_candidate_def archive_row_of_def)
  obtain b where groups: "process_spec (\<lambda>r. Inr ''row'') purge_request ?g 10 (calm_world one_group) =
      (Inr b, calm_world (empty_database\<lparr>db_archive := [group_copy]\<rparr>))" "rt_scanned b = 1"
    using one [of "empty_result True"]
    by (auto simp: process_spec_def query_run bind_io_def candidates take_limit_def ret_def empty_result_def)
  have tables: "rs_table (workspace_spec p t ss) = t" for p t ss by (simp add: workspace_spec_def)
  have fields: "rq_limit purge_request = 10" "rt_scanned (empty_result b) = 0" for b
    by (simp_all add: purge_request_def empty_result_def)
  have spec: "process_spec (\<lambda>r. Inr ''row'') purge_request s limit (calm_world d) = (Inr (empty_result (0 < limit)), calm_world d)"
    if "stored_rows (rs_table s) d = []" for s limit d
    using empty_spec [of "calm_world d" s] that by simp
  have empty: "db_items one_group = []" "db_plans empty_database = []" "db_events empty_database = []"
    "db_failures empty_database = []" "db_reservations empty_database = []"
    by (simp_all add: one_group_def empty_database_def)
  show ?thesis
    unfolding process_batch_def specs
    by (simp add: Let_def guard_io_def bind_io_def spec tables fields groups empty ret_def)
qed


lemma done_batch_is_complete_witness:
  "list_all (\<lambda>s. nothing_left purge_request s (empty_database\<lparr>db_archive := [group_copy]\<rparr>)) (retention_specs ''history'' ''publication'' ''history'')"
proof -
  have op: "rq_operation purge_request = ''purge''" "rq_policy purge_request = ''history''" by (simp_all add: purge_request_def)
  have "rt_done groups_total" by (simp add: groups_total_def merge_result_def groups_result_def empty_result_def)
  with done_batch_is_complete [OF two_groups_run op(1)] show ?thesis by (simp add: op list_all_iff)
qed

text \<open>With a limit of one row the batch is not done after the groups.\<close>

lemma small_batch_run:
  "\<exists>res. process_batch (\<lambda>q. None) (\<lambda>r. Inr ''row'') ''history'' ''publication'' (purge_request\<lparr>rq_limit := 1\<rparr>) (calm_world two_groups) =
     (Inr res, calm_world (empty_database\<lparr>db_archive := [group_copy]\<rparr>)) \<and> \<not> rt_done res"
proof -
  let ?q = "purge_request\<lparr>rq_limit := 1\<rparr>" and ?g = "workspace_spec ''history'' GroupsTable [''resolved'']"
  have specs: "\<exists>ss. retention_specs ''history'' ''publication'' (rq_policy ?q) =
      (workspace_spec ''history'' ItemsTable [])\<lparr>rs_extra := \<lambda>d. settled_item\<rparr> # ?g # workspace_spec ''history'' PlansTable [''planned'', ''failed'', ''cancelled''] # ss"
    by (simp add: retention_specs_def all_retention_specs_def workspace_spec_def purge_request_def)
  then obtain ss where ss: "retention_specs ''history'' ''publication'' (rq_policy ?q) =
      (workspace_spec ''history'' ItemsTable [])\<lparr>rs_extra := \<lambda>d. settled_item\<rparr> # ?g # workspace_spec ''history'' PlansTable [''planned'', ''failed'', ''cancelled''] # ss" ..
  have items: "process_spec (\<lambda>r. Inr ''row'') ?q ((workspace_spec ''history'' ItemsTable [])\<lparr>rs_extra := \<lambda>d. settled_item\<rparr>) 1 (calm_world two_groups) =
      (Inr (empty_result True), calm_world two_groups)"
    using empty_spec [of "calm_world two_groups" "(workspace_spec ''history'' ItemsTable [])\<lparr>rs_extra := \<lambda>d. settled_item\<rparr>" _ ?q 1]
    by (simp add: workspace_spec_def two_groups_def empty_database_def)
  obtain b where groups: "process_spec (\<lambda>r. Inr ''row'') ?q ?g 1 (calm_world two_groups) =
      (Inr b, calm_world (empty_database\<lparr>db_archive := [group_copy]\<rparr>))" "rt_scanned b = 1"
    by (simp add: process_spec_def query_run bind_io_def groups_candidates take_limit_def first_group ret_def)
      (simp add: scanned_candidate_def empty_result_def)
  have limit: "rq_limit ?q = 1" "rt_scanned (empty_result True) = 0" by (simp_all add: empty_result_def)
  show ?thesis
    unfolding process_batch_def ss by (simp add: Let_def guard_io_def bind_io_def items groups limit ret_def)
qed

lemma purge_terminates_witness: "1 \<le> row_count two_groups"
proof -
  let ?q = "purge_request\<lparr>rq_limit := 1\<rparr>" and ?w = "\<lambda>i. if i = (0 :: nat) then calm_world two_groups else calm_world (empty_database\<lparr>db_archive := [group_copy]\<rparr>)"
  obtain res where run: "process_batch (\<lambda>q. None) (\<lambda>r. Inr ''row'') ''history'' ''publication'' ?q (calm_world two_groups) =
     (Inr res, calm_world (empty_database\<lparr>db_archive := [group_copy]\<rparr>))" "\<not> rt_done res" using small_batch_run by blast
  have "1 \<le> row_count (db (?w 0))"
  proof (rule purge_terminates [where res = "\<lambda>i. res" and ws = ?w and q = ?q])
    fix i :: nat assume "i < 1"
    with run show "process_batch (\<lambda>q. None) (\<lambda>r. Inr ''row'') ''history'' ''publication'' ?q (?w i) = (Inr res, ?w (Suc i)) \<and> \<not> rt_done res" by simp
  qed (simp_all add: purge_request_def candidate_kept_def retention_held_def two_groups_def empty_database_def)
  then show ?thesis by simp
qed

end
