(* ===== verification/Migration_Control.thy ===== *)
theory Migration_Control
  imports Retention
begin

text \<open>
  The migration control of a workspace: control.go of internal/infrastructure/persistence/database/portability.
  One row per workspace says which migration it takes part in, as the source or the target, and how far it is. The
  statements run one by one, not in a transaction. The representation \<open>'d\<close> of the database is left open, because the
  portability store works on the rows as the driver hands them out while the other stores have their typed rows:
  a \<open>control_store\<close> is the table of the controls and the three counts of leased rows.
\<close>

record migration_control =
  mx_workspace :: workspace_id
  mx_migration :: string
  mx_role :: string
  mx_state :: string
  mx_fingerprint :: string
  mx_frozen :: string
  mx_activated :: string
  mx_updated :: string
  mx_leases :: int

record 'd control_store =
  cs_controls :: "('d, control_row) table"
  cs_leased :: "(string \<times> (workspace_id \<Rightarrow> 'd \<Rightarrow> int)) list"

text \<open>The counts on the typed tables, each with the text its error is wrapped in.\<close>

definition leased_tables :: "(string \<times> (workspace_id \<Rightarrow> database \<Rightarrow> int)) list" where
  "leased_tables =
     [(''count notification migration leases in _notification_events'',
        \<lambda>ws d. int (length (filter (\<lambda>r. er_workspace r = ws \<and> er_owner r \<noteq> []) (db_events d)))),
      (''count notification migration leases in _notification_channel_plans'',
        \<lambda>ws d. int (length (filter (\<lambda>r. qr_workspace r = ws \<and> qr_owner r \<noteq> []) (db_plans d)))),
      (''count notification publication migration leases'',
        \<lambda>ws d. int (length (filter (\<lambda>r. rr_workspace r = ws \<and> pr_owner (rr_request r) \<noteq> []) (db_requests d))))]"

definition sql_controls :: "database control_store" where
  "sql_controls = \<lparr>cs_controls = controls_table, cs_leased = leased_tables\<rparr>"

definition active_leases :: "'d control_store \<Rightarrow> workspace_id \<Rightarrow> ('d, int) statement" where
  "active_leases cs ws = fold_io (\<lambda>(msg, leased) total.
     bind_io (wrapping msg (query (leased ws))) (\<lambda>n. ret (total + n))) (cs_leased cs) 0"

definition control_of_row :: "workspace_id \<Rightarrow> control_row option \<Rightarrow> int \<Rightarrow> migration_control" where
  "control_of_row ws row leases = (case row of
     None \<Rightarrow> \<lparr>mx_workspace = ws, mx_migration = [], mx_role = [], mx_state = ''active'', mx_fingerprint = [],
       mx_frozen = [], mx_activated = [], mx_updated = [], mx_leases = leases\<rparr>
   | Some r \<Rightarrow> \<lparr>mx_workspace = ws, mx_migration = cw_migration r, mx_role = cw_role r, mx_state = cw_state r,
       mx_fingerprint = cw_fingerprint r, mx_frozen = cw_frozen r, mx_activated = cw_activated r,
       mx_updated = cw_updated r, mx_leases = leases\<rparr>)"

definition migration_status :: "'d control_store \<Rightarrow> workspace_id \<Rightarrow> ('d, migration_control) statement" where
  "migration_status cs workspace =
    (let ws = trim_space workspace in
     guard_io (ws = []) (ErrorText ''notification migration workspace is required'')
      (bind_io (wrapping ''read notification migration control'' (select_row (cs_controls cs) (\<lambda>r. cw_workspace r = ws))) (\<lambda>row.
       case row of
         None \<Rightarrow> ret (control_of_row ws None 0)
       | Some r \<Rightarrow> bind_io (active_leases cs ws) (\<lambda>n. ret (control_of_row ws (Some r) n)))))"

definition frozen_row :: "workspace_id \<Rightarrow> string \<Rightarrow> string \<Rightarrow> control_row" where
  "frozen_row ws migration at = \<lparr>cw_workspace = ws, cw_migration = migration, cw_role = ''source'', cw_state = ''frozen'',
     cw_fingerprint = [], cw_frozen = at, cw_activated = [], cw_updated = at\<rparr>"

definition refrozen :: "string \<Rightarrow> string \<Rightarrow> control_row \<Rightarrow> control_row" where
  "refrozen migration at r = r\<lparr>cw_migration := migration, cw_role := ''source'', cw_state := ''frozen'', cw_fingerprint := [],
     cw_frozen := at, cw_activated := [], cw_updated := at\<rparr>"

definition write_frozen :: "'d control_store \<Rightarrow> workspace_id \<Rightarrow> string \<Rightarrow> string \<Rightarrow> bool \<Rightarrow> ('d, unit) statement" where
  "write_frozen cs ws mid at_text first =
    (if first
     then workspace_insert (cs_controls cs) control_clash ''_notification_migration_controls'' ws ws (frozen_row ws mid at_text)
     else bind_io (update_rows (cs_controls cs) (\<lambda>r. cw_workspace r = ws \<and> cw_state r = ''active'') (refrozen mid at_text)) (\<lambda>_. ret ()))"

definition freeze_migration ::
  "'d control_store \<Rightarrow> workspace_id \<Rightarrow> string \<Rightarrow> instant \<Rightarrow> ('d, migration_control) statement" where
  "freeze_migration cs workspace migration at =
    (let ws = trim_space workspace; mid = trim_space migration; at_text = format_nano at in
     guard_io (ws = [] \<or> mid = [] \<or> at = zero_time) (ErrorText ''notification migration freeze command is invalid'')
      (bind_io (migration_status cs ws) (\<lambda>current.
       if mx_state current = ''frozen'' \<and> mx_role current = ''source'' \<and> mx_migration current = mid then ret current
       else if mx_state current \<noteq> ''active''
         then fail (ErrorText (''notification migration cannot freeze from state '' @ [CHR 0x22] @ mx_state current @ [CHR 0x22]))
       else bind_io (wrapping ''freeze notification migration''
          (write_frozen cs ws mid at_text (mx_migration current = [])))
         (\<lambda>_. migration_status cs ws))))"

definition transition_matches :: "workspace_id \<Rightarrow> string \<Rightarrow> string \<Rightarrow> string \<Rightarrow> string \<Rightarrow> control_row \<Rightarrow> bool" where
  "transition_matches ws mid role state fingerprint r \<longleftrightarrow> cw_workspace r = ws \<and> cw_migration r = mid \<and> cw_role r = role \<and>
     cw_state r = state \<and> (cw_fingerprint r = [] \<or> cw_fingerprint r = fingerprint)"

definition transitioned :: "string \<Rightarrow> string \<Rightarrow> string \<Rightarrow> string \<Rightarrow> control_row \<Rightarrow> control_row" where
  "transitioned role state fingerprint at_text r = r\<lparr>cw_role := role, cw_state := state, cw_fingerprint := fingerprint,
     cw_activated := (if state = ''cutover'' then at_text else []), cw_updated := at_text\<rparr>"

definition transition_migration ::
  "'d control_store \<Rightarrow> workspace_id \<Rightarrow> string \<Rightarrow> string \<times> string \<Rightarrow> string \<times> string \<Rightarrow> string \<Rightarrow> instant \<Rightarrow> ('d, migration_control) statement" where
  "transition_migration cs workspace migration before after bundle at =
    (let ws = trim_space workspace; mid = trim_space migration; fingerprint = trim_space bundle; at_text = format_nano at in
     guard_io (ws = [] \<or> mid = [] \<or> fingerprint = [] \<or> at = zero_time) (ErrorText ''notification migration transition is invalid'')
      (bind_io (wrapping ''transition notification migration'' (update_rows (cs_controls cs)
          (transition_matches ws mid (fst before) (snd before) fingerprint)
          (transitioned (fst after) (snd after) fingerprint at_text))) (\<lambda>rows.
       if rows \<noteq> 1 then fail (ErrorText ''notification migration transition conflict'')
       else migration_status cs ws)))"

definition record_migration_fingerprint ::
  "'d control_store \<Rightarrow> workspace_id \<Rightarrow> string \<Rightarrow> string \<Rightarrow> instant \<Rightarrow> ('d, migration_control) statement" where
  "record_migration_fingerprint cs ws mid fingerprint at =
     transition_migration cs ws mid (''source'', ''frozen'') (''source'', ''frozen'') fingerprint at"

definition activate_migration ::
  "'d control_store \<Rightarrow> workspace_id \<Rightarrow> string \<Rightarrow> string \<Rightarrow> instant \<Rightarrow> ('d, migration_control) statement" where
  "activate_migration cs ws mid fingerprint at =
     transition_migration cs ws mid (''target'', ''imported'') (''target'', ''cutover'') fingerprint at"

definition rollback_migration ::
  "'d control_store \<Rightarrow> workspace_id \<Rightarrow> string \<Rightarrow> string \<Rightarrow> instant \<Rightarrow> ('d, migration_control) statement" where
  "rollback_migration cs ws mid fingerprint at =
     transition_migration cs ws mid (''source'', ''frozen'') (''source'', ''active'') fingerprint at"

definition imported_row :: "workspace_id \<Rightarrow> string \<Rightarrow> string \<Rightarrow> string \<Rightarrow> control_row" where
  "imported_row ws mid fingerprint at = \<lparr>cw_workspace = ws, cw_migration = mid, cw_role = ''target'', cw_state = ''imported'',
     cw_fingerprint = fingerprint, cw_frozen = at, cw_activated = [], cw_updated = at\<rparr>"

definition record_imported_migration ::
  "'d control_store \<Rightarrow> workspace_id \<Rightarrow> string \<Rightarrow> string \<Rightarrow> instant \<Rightarrow> ('d, migration_control) statement" where
  "record_imported_migration cs workspace migration bundle at =
    (let ws = trim_space workspace; mid = trim_space migration; fingerprint = trim_space bundle; at_text = format_nano at in
     guard_io (ws = [] \<or> mid = [] \<or> fingerprint = [] \<or> at = zero_time) (ErrorText ''notification imported migration command is invalid'')
      (bind_io (migration_status cs ws) (\<lambda>current.
       if mx_state current \<noteq> ''active'' then fail (ErrorText ''notification migration target is not active-empty'')
       else bind_io (wrapping ''record imported notification migration'' (workspace_insert (cs_controls cs) control_clash
            ''_notification_migration_controls'' ws ws (imported_row ws mid fingerprint at_text)))
         (\<lambda>_. migration_status cs ws))))"

end
