(* ===== verification/Portable_Schema.thy ===== *)
theory Portable_Schema
  imports Migration_Control
begin

text \<open>
  The tables as data: definition.go and ownership.go of internal/infrastructure/persistence/database/schema, with what
  migrations.go says of column kinds, tables and indexes. The portability store reads and writes rows by these lists, so
  the database it works on has rows of plain driver values instead of the typed rows of \<open>Schema\<close>: a row gives the value
  of every column. Of values the driver knows nil, integers, texts (bytes included) and booleans; the tables have no
  other columns.
\<close>

section \<open>Columns, tables, indexes\<close>

datatype column_kind = IdentifierColumn | IndexedTextColumn | DocumentColumn | PlainTextColumn | IntegerColumn
  | BigIntegerColumn | BooleanColumn

datatype sql_value = SqlNull | SqlInt int | SqlText string | SqlBool bool

record schema_column =
  sc_name :: string
  sc_kind :: column_kind
  sc_nullable :: bool
  sc_default :: "sql_value option"
  sc_primary :: bool

record schema_table =
  st_name :: string
  st_columns :: "schema_column list"

record schema_index =
  si_name :: string
  si_table :: string
  si_unique :: bool
  si_columns :: "string list"

definition required_column :: "string \<Rightarrow> column_kind \<Rightarrow> schema_column" where
  "required_column n k = \<lparr>sc_name = n, sc_kind = k, sc_nullable = False, sc_default = None, sc_primary = False\<rparr>"

definition optional_column :: "string \<Rightarrow> column_kind \<Rightarrow> schema_column" where
  "optional_column n k = \<lparr>sc_name = n, sc_kind = k, sc_nullable = True, sc_default = None, sc_primary = False\<rparr>"

definition defaulted_column :: "string \<Rightarrow> column_kind \<Rightarrow> sql_value \<Rightarrow> schema_column" where
  "defaulted_column n k v = \<lparr>sc_name = n, sc_kind = k, sc_nullable = False, sc_default = Some v, sc_primary = False\<rparr>"

definition primary_column :: "string \<Rightarrow> column_kind \<Rightarrow> schema_column" where
  "primary_column n k = \<lparr>sc_name = n, sc_kind = k, sc_nullable = False, sc_default = None, sc_primary = True\<rparr>"

definition schema_table_of :: "string \<Rightarrow> schema_column list \<Rightarrow> schema_table" where
  "schema_table_of n cs = \<lparr>st_name = n, st_columns = cs\<rparr>"

definition schema_index_of :: "string \<Rightarrow> string \<Rightarrow> bool \<Rightarrow> string list \<Rightarrow> schema_index" where
  "schema_index_of n t u cs = \<lparr>si_name = n, si_table = t, si_unique = u, si_columns = cs\<rparr>"

definition base_schema_tables :: "schema_table list" where
  "base_schema_tables = [
    schema_table_of ''_notification_templates''
      [primary_column ''template_key'' IdentifierColumn, optional_column ''draft_json'' DocumentColumn,
       optional_column ''published_json'' DocumentColumn, defaulted_column ''published_version'' IntegerColumn (SqlInt 0),
       defaulted_column ''status'' IdentifierColumn (SqlText ''active''), required_column ''updated_by'' IdentifierColumn,
       required_column ''created_at'' IdentifierColumn, required_column ''updated_at'' IdentifierColumn],
    schema_table_of ''_notification_template_versions''
      [required_column ''id'' IdentifierColumn, required_column ''template_key'' IdentifierColumn,
       required_column ''version'' IntegerColumn, required_column ''payload_json'' DocumentColumn,
       required_column ''content_hash'' IdentifierColumn, required_column ''published_by'' IdentifierColumn,
       required_column ''published_at'' IdentifierColumn],
    schema_table_of ''_notification_template_publication_requests''
      [primary_column ''id'' IdentifierColumn, required_column ''template_key'' IdentifierColumn,
       required_column ''snapshot_json'' DocumentColumn, required_column ''candidate_hash'' IdentifierColumn,
       required_column ''draft_updated_at'' IdentifierColumn, required_column ''status'' IdentifierColumn,
       defaulted_column ''scheduled_for'' IdentifierColumn (SqlText ''''), required_column ''requested_by'' IdentifierColumn,
       required_column ''requested_at'' IdentifierColumn, defaulted_column ''reviewed_by'' IdentifierColumn (SqlText ''''),
       defaulted_column ''reviewed_at'' IdentifierColumn (SqlText ''''),
       defaulted_column ''published_version'' IntegerColumn (SqlInt 0), required_column ''failure'' PlainTextColumn,
       defaulted_column ''lease_owner'' IdentifierColumn (SqlText ''''),
       defaulted_column ''lease_expires_at'' IdentifierColumn (SqlText ''''),
       defaulted_column ''fencing_token'' BigIntegerColumn (SqlInt 0), required_column ''updated_at'' IdentifierColumn],
    schema_table_of ''_notification_template_publication_locks''
      [primary_column ''template_key'' IdentifierColumn, required_column ''request_id'' IdentifierColumn,
       required_column ''created_at'' IdentifierColumn],
    schema_table_of ''_notification_delivery_policies''
      [primary_column ''policy_key'' IdentifierColumn, required_column ''payload_json'' DocumentColumn,
       required_column ''updated_by'' IdentifierColumn, required_column ''updated_at'' IdentifierColumn],
    schema_table_of ''_notification_recipient_preferences''
      [required_column ''workspace_id'' IdentifierColumn, required_column ''recipient_key'' IdentifierColumn,
       required_column ''payload_json'' DocumentColumn, required_column ''updated_by'' IdentifierColumn,
       required_column ''updated_at'' IdentifierColumn],
    schema_table_of ''_notification_delivery_reservations''
      [required_column ''id'' IdentifierColumn, required_column ''workspace_id'' IdentifierColumn,
       required_column ''recipient_key'' IndexedTextColumn, required_column ''template_key'' IndexedTextColumn,
       required_column ''channel'' IndexedTextColumn, defaulted_column ''dedupe_key'' IndexedTextColumn (SqlText ''''),
       required_column ''created_at'' IndexedTextColumn],
    schema_table_of ''_notification_events''
      [required_column ''id'' IdentifierColumn, required_column ''workspace_id'' IdentifierColumn,
       required_column ''source'' IndexedTextColumn, required_column ''source_event_id'' IndexedTextColumn,
       required_column ''status'' IndexedTextColumn, required_column ''payload_json'' DocumentColumn,
       defaulted_column ''attempt_count'' IntegerColumn (SqlInt 0),
       defaulted_column ''next_attempt_at'' IndexedTextColumn (SqlText ''''),
       defaulted_column ''last_error_code'' IndexedTextColumn (SqlText ''''),
       defaulted_column ''lease_owner'' IndexedTextColumn (SqlText ''''),
       defaulted_column ''lease_expires_at'' IndexedTextColumn (SqlText ''''),
       defaulted_column ''fencing_token'' BigIntegerColumn (SqlInt 0), required_column ''occurred_at'' IndexedTextColumn,
       required_column ''created_at'' IndexedTextColumn, required_column ''updated_at'' IndexedTextColumn],
    schema_table_of ''_notification_event_failures''
      [required_column ''id'' IdentifierColumn, required_column ''workspace_id'' IdentifierColumn,
       required_column ''event_id'' IndexedTextColumn, required_column ''event_type'' IndexedTextColumn,
       required_column ''source'' IndexedTextColumn, required_column ''source_event_id'' IndexedTextColumn,
       required_column ''stage'' IndexedTextColumn, required_column ''error_code'' IndexedTextColumn,
       required_column ''attempt'' IntegerColumn, required_column ''disposition'' IndexedTextColumn,
       defaulted_column ''retryable'' IntegerColumn (SqlInt 0),
       defaulted_column ''next_attempt_at'' IndexedTextColumn (SqlText ''''), required_column ''fencing_token'' BigIntegerColumn,
       required_column ''occurred_at'' IndexedTextColumn],
    schema_table_of ''_notification_channel_plans''
      [required_column ''id'' IdentifierColumn, required_column ''workspace_id'' IdentifierColumn,
       required_column ''event_id'' IndexedTextColumn, required_column ''channel'' IndexedTextColumn,
       required_column ''status'' IndexedTextColumn, required_column ''payload_json'' DocumentColumn,
       defaulted_column ''attempt_count'' IntegerColumn (SqlInt 0),
       defaulted_column ''next_attempt_at'' IndexedTextColumn (SqlText ''''),
       defaulted_column ''last_error_code'' IndexedTextColumn (SqlText ''''),
       defaulted_column ''outbox_message_id'' IndexedTextColumn (SqlText ''''),
       defaulted_column ''lease_owner'' IndexedTextColumn (SqlText ''''),
       defaulted_column ''lease_expires_at'' IndexedTextColumn (SqlText ''''),
       defaulted_column ''fencing_token'' BigIntegerColumn (SqlInt 0), required_column ''created_at'' IndexedTextColumn,
       required_column ''updated_at'' IndexedTextColumn],
    schema_table_of ''_notification_inbox_items''
      [required_column ''id'' IdentifierColumn, required_column ''workspace_id'' IdentifierColumn,
       required_column ''recipient_user_id'' IndexedTextColumn, required_column ''event_id'' IndexedTextColumn,
       required_column ''event_type'' IndexedTextColumn, required_column ''source'' IndexedTextColumn,
       required_column ''category'' IndexedTextColumn, required_column ''severity'' IndexedTextColumn,
       required_column ''title'' DocumentColumn, required_column ''body'' DocumentColumn,
       required_column ''search_text'' DocumentColumn, required_column ''payload_json'' DocumentColumn,
       defaulted_column ''subject_type'' IndexedTextColumn (SqlText ''''),
       defaulted_column ''subject_id'' IndexedTextColumn (SqlText ''''), required_column ''action_state'' IndexedTextColumn,
       defaulted_column ''alert_state'' IndexedTextColumn (SqlText ''''),
       defaulted_column ''group_key'' IndexedTextColumn (SqlText ''''),
       defaulted_column ''occurrence_count'' IntegerColumn (SqlInt 1), required_column ''first_occurred_at'' IndexedTextColumn,
       required_column ''last_occurred_at'' IndexedTextColumn, defaulted_column ''read_at'' IndexedTextColumn (SqlText ''''),
       defaulted_column ''archived_at'' IndexedTextColumn (SqlText ''''),
       defaulted_column ''expires_at'' IndexedTextColumn (SqlText ''''), required_column ''created_at'' IndexedTextColumn,
       required_column ''updated_at'' IndexedTextColumn],
    schema_table_of ''_notification_inbox_delegations''
      [required_column ''id'' IdentifierColumn, required_column ''workspace_id'' IdentifierColumn,
       required_column ''owner_user_id'' IndexedTextColumn, required_column ''delegate_user_id'' IndexedTextColumn,
       defaulted_column ''starts_at'' IndexedTextColumn (SqlText ''''),
       defaulted_column ''ends_at'' IndexedTextColumn (SqlText ''''), defaulted_column ''enabled'' BooleanColumn (SqlBool True),
       required_column ''created_at'' IndexedTextColumn, required_column ''updated_at'' IndexedTextColumn],
    schema_table_of ''_notification_alert_groups''
      [required_column ''workspace_id'' IdentifierColumn, required_column ''recipient_user_id'' IndexedTextColumn,
       required_column ''group_key'' IndexedTextColumn, required_column ''state'' IndexedTextColumn,
       defaulted_column ''occurrence_count'' IntegerColumn (SqlInt 1), required_column ''first_occurred_at'' IndexedTextColumn,
       required_column ''last_occurred_at'' IndexedTextColumn,
       defaulted_column ''acknowledged_at'' IndexedTextColumn (SqlText ''''),
       defaulted_column ''acknowledged_by'' IndexedTextColumn (SqlText ''''),
       defaulted_column ''resolved_at'' IndexedTextColumn (SqlText ''''), required_column ''last_event_id'' IndexedTextColumn,
       required_column ''updated_at'' IndexedTextColumn],
    schema_table_of ''_notification_inbox_saved_views''
      [required_column ''workspace_id'' IdentifierColumn, required_column ''recipient_user_id'' IndexedTextColumn,
       required_column ''view_key'' IndexedTextColumn, required_column ''payload_json'' DocumentColumn,
       required_column ''created_at'' IndexedTextColumn, required_column ''updated_at'' IndexedTextColumn]]"

definition base_schema_indexes :: "schema_index list" where
  "base_schema_indexes = [
    schema_index_of ''uniq_notification_template_version'' ''_notification_template_versions'' True [''template_key'', ''version''],
    schema_index_of ''idx_notification_publication_template'' ''_notification_template_publication_requests'' False [''template_key'', ''requested_at''],
    schema_index_of ''idx_notification_publication_due'' ''_notification_template_publication_requests'' False [''status'', ''scheduled_for''],
    schema_index_of ''uniq_notification_recipient_preference'' ''_notification_recipient_preferences'' True [''workspace_id'', ''recipient_key''],
    schema_index_of ''idx_notification_delivery_frequency'' ''_notification_delivery_reservations'' False [''workspace_id'', ''recipient_key'', ''channel'', ''created_at''],
    schema_index_of ''uniq_notification_delivery_reservation_workspace_identity'' ''_notification_delivery_reservations'' True [''workspace_id'', ''id''],
    schema_index_of ''idx_notification_delivery_dedupe'' ''_notification_delivery_reservations'' False [''workspace_id'', ''recipient_key'', ''template_key'', ''channel'', ''dedupe_key''],
    schema_index_of ''uniq_notification_event_workspace_identity'' ''_notification_events'' True [''workspace_id'', ''id''],
    schema_index_of ''uniq_notification_event_source_identity'' ''_notification_events'' True [''workspace_id'', ''source'', ''source_event_id''],
    schema_index_of ''idx_notification_event_due'' ''_notification_events'' False [''status'', ''next_attempt_at'', ''lease_expires_at''],
    schema_index_of ''uniq_notification_event_failure_identity'' ''_notification_event_failures'' True [''workspace_id'', ''id''],
    schema_index_of ''uniq_notification_event_failure_attempt'' ''_notification_event_failures'' True [''workspace_id'', ''event_id'', ''fencing_token''],
    schema_index_of ''idx_notification_event_failure_governance'' ''_notification_event_failures'' False [''workspace_id'', ''occurred_at'', ''stage'', ''error_code''],
    schema_index_of ''uniq_notification_channel_plan_identity'' ''_notification_channel_plans'' True [''workspace_id'', ''id''],
    schema_index_of ''idx_notification_channel_plan_due'' ''_notification_channel_plans'' False [''status'', ''next_attempt_at'', ''lease_expires_at'', ''created_at''],
    schema_index_of ''uniq_notification_inbox_workspace_identity'' ''_notification_inbox_items'' True [''workspace_id'', ''id''],
    schema_index_of ''idx_notification_inbox_mailbox'' ''_notification_inbox_items'' False [''workspace_id'', ''recipient_user_id'', ''archived_at'', ''updated_at'', ''id''],
    schema_index_of ''idx_notification_inbox_unread'' ''_notification_inbox_items'' False [''workspace_id'', ''recipient_user_id'', ''read_at'', ''archived_at''],
    schema_index_of ''idx_notification_inbox_facets'' ''_notification_inbox_items'' False [''workspace_id'', ''recipient_user_id'', ''category'', ''source'', ''severity'', ''archived_at''],
    schema_index_of ''idx_notification_inbox_group'' ''_notification_inbox_items'' False [''workspace_id'', ''recipient_user_id'', ''group_key'', ''alert_state''],
    schema_index_of ''uniq_notification_inbox_delegation_identity'' ''_notification_inbox_delegations'' True [''workspace_id'', ''id''],
    schema_index_of ''idx_notification_inbox_delegation_delegate'' ''_notification_inbox_delegations'' False [''workspace_id'', ''delegate_user_id'', ''enabled'', ''starts_at'', ''ends_at''],
    schema_index_of ''uniq_notification_alert_group'' ''_notification_alert_groups'' True [''workspace_id'', ''recipient_user_id'', ''group_key''],
    schema_index_of ''idx_notification_alert_group_state'' ''_notification_alert_groups'' False [''workspace_id'', ''state'', ''updated_at''],
    schema_index_of ''uniq_notification_inbox_saved_view'' ''_notification_inbox_saved_views'' True [''workspace_id'', ''recipient_user_id'', ''view_key'']]"

definition retention_archive_tables :: "schema_table list" where
  "retention_archive_tables = [
    schema_table_of ''_notification_retention_archive_entries''
      [primary_column ''id'' IdentifierColumn, required_column ''workspace_id'' IdentifierColumn,
       required_column ''policy_key'' IndexedTextColumn, required_column ''policy_version'' IndexedTextColumn,
       required_column ''job_id'' IndexedTextColumn, required_column ''source_table'' IndexedTextColumn,
       required_column ''resource_id'' IndexedTextColumn, required_column ''payload_hash'' IndexedTextColumn,
       required_column ''payload_json'' DocumentColumn, required_column ''archived_at'' IndexedTextColumn]]"

definition retention_archive_indexes :: "schema_index list" where
  "retention_archive_indexes = [
    schema_index_of ''uniq_notification_retention_archive_entries'' ''_notification_retention_archive_entries'' True [''workspace_id'', ''policy_key'', ''source_table'', ''resource_id''],
    schema_index_of ''idx_notification_retention_archive_entries_job'' ''_notification_retention_archive_entries'' False [''workspace_id'', ''job_id'', ''archived_at'']]"

definition migration_control_tables :: "schema_table list" where
  "migration_control_tables = [
    schema_table_of ''_notification_migration_controls''
      [primary_column ''workspace_id'' IdentifierColumn, required_column ''migration_id'' IdentifierColumn,
       required_column ''role'' IndexedTextColumn, required_column ''state'' IndexedTextColumn,
       defaulted_column ''bundle_fingerprint'' IdentifierColumn (SqlText ''''), required_column ''frozen_at'' IndexedTextColumn,
       defaulted_column ''activated_at'' IndexedTextColumn (SqlText ''''), required_column ''updated_at'' IndexedTextColumn]]"

definition owned_schema_tables :: "schema_table list" where
  "owned_schema_tables = base_schema_tables @ retention_archive_tables @ migration_control_tables"

text \<open>The version 4 migration appends a workspace column to the five tables that had none.\<close>

definition portable_schema_table :: "schema_table \<Rightarrow> schema_table" where
  "portable_schema_table t =
    (if st_name t \<in> {''_notification_templates'', ''_notification_template_versions'', ''_notification_template_publication_requests'',
       ''_notification_template_publication_locks'', ''_notification_delivery_policies''}
     then t\<lparr>st_columns := st_columns t @ [required_column ''workspace_id'' IdentifierColumn]\<rparr> else t)"

definition portable_schema_tables :: "schema_table list" where
  "portable_schema_tables = map portable_schema_table base_schema_tables @ retention_archive_tables"

datatype portable_kind = PortableText | PortableInteger | PortableBoolean

fun portable_kind_of :: "column_kind \<Rightarrow> portable_kind" where
  "portable_kind_of IntegerColumn = PortableInteger"
| "portable_kind_of BigIntegerColumn = PortableInteger"
| "portable_kind_of BooleanColumn = PortableBoolean"
| "portable_kind_of _ = PortableText"

type_synonym table_definition = "string \<times> (string \<times> portable_kind) list"

definition portable_tables :: "table_definition list" where
  "portable_tables = map (\<lambda>t. (st_name t, map (\<lambda>c. (sc_name c, portable_kind_of (sc_kind c))) (st_columns t))) portable_schema_tables"

datatype data_scope = SystemData | WorkspaceData

definition schema_ownership :: "(string \<times> data_scope) list" where
  "schema_ownership = [
    (''_notification_alert_groups'', WorkspaceData),
    (''_notification_channel_plans'', WorkspaceData),
    (''_notification_delivery_policies'', WorkspaceData),
    (''_notification_delivery_reservations'', WorkspaceData),
    (''_notification_event_failures'', WorkspaceData),
    (''_notification_events'', WorkspaceData),
    (''_notification_inbox_delegations'', WorkspaceData),
    (''_notification_inbox_items'', WorkspaceData),
    (''_notification_inbox_saved_views'', WorkspaceData),
    (''_notification_migration_controls'', WorkspaceData),
    (''_notification_recipient_preferences'', WorkspaceData),
    (''_notification_retention_archive_entries'', WorkspaceData),
    (''_notification_template_publication_locks'', WorkspaceData),
    (''_notification_template_publication_requests'', WorkspaceData),
    (''_notification_template_versions'', WorkspaceData),
    (''_notification_templates'', WorkspaceData)]"

definition owned_tables :: "string list" where
  "owned_tables = map fst schema_ownership"

section \<open>Rows of driver values\<close>

type_synonym raw_row = "string \<Rightarrow> sql_value"

record raw_database =
  rd_rows :: "string \<Rightarrow> raw_row list"
  rd_controls :: "control_row list"

definition raw_controls_table :: "(raw_database, control_row) table" where
  "raw_controls_table = (rd_controls, \<lambda>rs. rd_controls_update (\<lambda>_. rs))"

definition raw_leased :: "string \<Rightarrow> workspace_id \<Rightarrow> raw_database \<Rightarrow> int" where
  "raw_leased table ws d = int (length (filter (\<lambda>r. r ''workspace_id'' = SqlText ws \<and> r ''lease_owner'' \<noteq> SqlText []) (rd_rows d table)))"

definition raw_controls :: "raw_database control_store" where
  "raw_controls = \<lparr>cs_controls = raw_controls_table, cs_leased =
     [(''count notification migration leases in _notification_events'', raw_leased ''_notification_events''),
      (''count notification migration leases in _notification_channel_plans'', raw_leased ''_notification_channel_plans''),
      (''count notification publication migration leases'', raw_leased ''_notification_template_publication_requests'')]\<rparr>"

definition raw_table :: "string \<Rightarrow> (raw_database, raw_row) table" where
  "raw_table name = (\<lambda>d. rd_rows d name, \<lambda>rs d. d\<lparr>rd_rows := (rd_rows d)(name := rs)\<rparr>)"

text \<open>The primary key of a table and its unique indexes; none of their columns may be null.\<close>

definition unique_keys_of :: "schema_table \<Rightarrow> string list list" where
  "unique_keys_of t = (let primary = map sc_name (filter sc_primary (st_columns t)) in
     (if primary = [] then [] else [primary]) @
     map si_columns (filter (\<lambda>i. si_unique i \<and> si_table i = st_name t) (base_schema_indexes @ retention_archive_indexes)))"

definition raw_clash :: "schema_table \<Rightarrow> raw_row \<Rightarrow> raw_row \<Rightarrow> bool" where
  "raw_clash t a b \<longleftrightarrow> list_ex (\<lambda>key. map a key = map b key) (unique_keys_of t)"

definition missing_value :: "schema_table \<Rightarrow> raw_row \<Rightarrow> bool" where
  "missing_value t r \<longleftrightarrow> list_ex (\<lambda>c. \<not> sc_nullable c \<and> r (sc_name c) = SqlNull) (st_columns t)"

text \<open>\<open>INSERT INTO table (columns) VALUES (values)\<close>. \<open>stored\<close> is what the engine hands out for a value it was given for
  a column of the kind; a column that is not named gets its default.\<close>

definition raw_value :: "(column_kind \<Rightarrow> sql_value \<Rightarrow> sql_value) \<Rightarrow> schema_table \<Rightarrow> (string \<times> sql_value) list \<Rightarrow> raw_row" where
  "raw_value stored t vs c = (case List.find (\<lambda>x. sc_name x = c) (st_columns t) of
     None \<Rightarrow> SqlNull
   | Some x \<Rightarrow> (case map_of vs c of
       Some v \<Rightarrow> stored (sc_kind x) v
     | None \<Rightarrow> (case sc_default x of None \<Rightarrow> SqlNull | Some v \<Rightarrow> stored (sc_kind x) v)))"

definition raw_insert ::
  "(column_kind \<Rightarrow> sql_value \<Rightarrow> sql_value) \<Rightarrow> schema_table \<Rightarrow> (string \<times> sql_value) list \<Rightarrow> (raw_database, unit) statement" where
  "raw_insert stored t vs =
     exec (\<lambda>d. let r = raw_value stored t vs; name = st_name t in
       if missing_value t r \<or> list_ex (raw_clash t r) (rd_rows d name) then Inl (ConstraintError name)
       else Inr ((), d\<lparr>rd_rows := (rd_rows d)(name := rd_rows d name @ [r])\<rparr>))"

end
