(* ===== verification/Migration_Steps.thy ===== *)
theory Migration_Steps
  imports Migration_Control Portable_Schema Samples
begin

text \<open>
  What the migration control promises. A workspace is in one of five phases of its migration, and each operation of
  \<open>Migration_Control\<close> is a partial function of the phase. The locale \<open>control_laws\<close> states what a representation of the
  database has to provide; inside it the operations are shown to implement the phases, under any driver outcomes.
\<close>

section \<open>Phases\<close>

text \<open>Of a source: not taking part, back after a rollback, frozen with the fingerprint of the bundle once there is one.
  Of a target: imported, then cut over.\<close>

datatype phase = Fresh | Returned | Frozen string string | Imported string string | Cutover string string

definition row_phase :: "control_row \<Rightarrow> phase option" where
  "row_phase r =
    (if cw_migration r = [] then None
     else if cw_role r = ''source'' \<and> cw_state r = ''active'' then Some Returned
     else if cw_role r = ''source'' \<and> cw_state r = ''frozen'' then Some (Frozen (cw_migration r) (cw_fingerprint r))
     else if cw_role r = ''target'' \<and> cw_state r = ''imported'' then Some (Imported (cw_migration r) (cw_fingerprint r))
     else if cw_role r = ''target'' \<and> cw_state r = ''cutover'' then Some (Cutover (cw_migration r) (cw_fingerprint r))
     else None)"

definition workspace_row :: "workspace_id \<Rightarrow> control_row list \<Rightarrow> control_row option" where
  "workspace_row ws rows = List.find (\<lambda>r. cw_workspace r = ws) rows"

definition phase_at :: "workspace_id \<Rightarrow> control_row list \<Rightarrow> phase option" where
  "phase_at ws rows = (case workspace_row ws rows of None \<Rightarrow> Some Fresh | Some r \<Rightarrow> row_phase r)"

definition controls_ok :: "control_row list \<Rightarrow> bool" where
  "controls_ok rows \<longleftrightarrow> no_clash control_clash rows \<and> list_all (\<lambda>r. row_phase r \<noteq> None) rows"

definition writes_open :: "phase \<Rightarrow> bool" where
  "writes_open p = (case p of Frozen m f \<Rightarrow> False | Imported m f \<Rightarrow> False | _ \<Rightarrow> True)"

section \<open>Operations\<close>

datatype control_op = Freeze string instant | Pin string string instant | Import string string instant
  | Activate string string instant | Rollback string string instant

fun run_control :: "'d control_store \<Rightarrow> workspace_id \<Rightarrow> control_op \<Rightarrow> ('d, migration_control) statement" where
  "run_control cs ws (Freeze mid at) = freeze_migration cs ws mid at"
| "run_control cs ws (Pin mid f at) = record_migration_fingerprint cs ws mid f at"
| "run_control cs ws (Import mid f at) = record_imported_migration cs ws mid f at"
| "run_control cs ws (Activate mid f at) = activate_migration cs ws mid f at"
| "run_control cs ws (Rollback mid f at) = rollback_migration cs ws mid f at"

definition bundle_fits :: "string \<Rightarrow> string \<Rightarrow> bool" where
  "bundle_fits f g \<longleftrightarrow> f = [] \<or> f = g"

fun control_spec :: "control_op \<Rightarrow> phase \<Rightarrow> phase option" where
  "control_spec (Freeze mid at) p = (case p of
     Fresh \<Rightarrow> Some (Frozen (trim_space mid) [])
   | Returned \<Rightarrow> Some (Frozen (trim_space mid) [])
   | Frozen m f \<Rightarrow> if m = trim_space mid then Some p else None
   | _ \<Rightarrow> None)"
| "control_spec (Pin mid g at) p = (case p of
     Frozen m f \<Rightarrow> if m = trim_space mid \<and> bundle_fits f (trim_space g) then Some (Frozen m (trim_space g)) else None
   | _ \<Rightarrow> None)"
| "control_spec (Import mid g at) p = (case p of
     Fresh \<Rightarrow> Some (Imported (trim_space mid) (trim_space g))
   | _ \<Rightarrow> None)"
| "control_spec (Activate mid g at) p = (case p of
     Imported m f \<Rightarrow> if m = trim_space mid \<and> bundle_fits f (trim_space g) then Some (Cutover m (trim_space g)) else None
   | _ \<Rightarrow> None)"
| "control_spec (Rollback mid g at) p = (case p of
     Frozen m f \<Rightarrow> if m = trim_space mid \<and> bundle_fits f (trim_space g) then Some Returned else None
   | _ \<Rightarrow> None)"

section \<open>Rows\<close>

lemma workspace_row_Some: "workspace_row ws rows = Some r \<Longrightarrow> r \<in> set rows \<and> cw_workspace r = ws"
  by (auto simp: workspace_row_def find_Some_iff)

lemma workspace_row_None: "workspace_row ws rows = None \<longleftrightarrow> (\<forall>r \<in> set rows. cw_workspace r \<noteq> ws)"
  by (auto simp: workspace_row_def find_None_iff)

lemma workspace_row_unique:
  assumes "no_clash control_clash rows" "x \<in> set rows" "cw_workspace x = ws" shows "workspace_row ws rows = Some x"
proof (cases "workspace_row ws rows")
  case None
  with assms show ?thesis by (simp add: workspace_row_None)
next
  case (Some r)
  have "r = x"
    by (rule no_clash_unique [OF assms(1)]) (use workspace_row_Some [OF Some] assms in \<open>auto simp: control_clash_def\<close>)
  with Some show ?thesis by simp
qed

lemma workspace_row_append:
  "workspace_row ws (rows @ [r]) = (case workspace_row ws rows of None \<Rightarrow> if cw_workspace r = ws then Some r else None | x \<Rightarrow> x)"
  unfolding workspace_row_def by (induction rows) auto

lemma workspace_row_update:
  assumes "\<And>r. cw_workspace (f r) = cw_workspace r"
  shows "workspace_row ws (update_where P f rows) = map_option (\<lambda>r. if P r then f r else r) (workspace_row ws rows)"
proof -
  have "(\<lambda>r. cw_workspace (if P r then f r else r) = ws) = (\<lambda>r. cw_workspace r = ws)" using assms by auto
  then show ?thesis unfolding workspace_row_def find_update_where by (simp split: option.splits)
qed

lemma phase_at_known: "controls_ok rows \<Longrightarrow> phase_at ws rows \<noteq> None"
  by (auto simp: phase_at_def controls_ok_def list_all_iff split: option.splits dest!: workspace_row_Some)

lemma workspace_row_filter: "workspace_row ws rows = (case filter (\<lambda>r. cw_workspace r = ws) rows of [] \<Rightarrow> None | r # rs \<Rightarrow> Some r)"
  unfolding workspace_row_def by (induction rows) auto

lemma phase_at_filter:
  "filter (\<lambda>r. cw_workspace r = ws) rows' = filter (\<lambda>r. cw_workspace r = ws) rows \<Longrightarrow> phase_at ws rows' = phase_at ws rows"
  by (simp add: phase_at_def workspace_row_filter)

text \<open>An update that touches only the row of the workspace and leads from its phase to another.\<close>

lemma controls_ok_update:
  assumes "controls_ok rows" "\<And>r. cw_workspace (f r) = cw_workspace r" "\<And>r. P r \<Longrightarrow> r \<in> set rows \<Longrightarrow> row_phase (f r) \<noteq> None"
  shows "controls_ok (update_where P f rows)"
  unfolding controls_ok_def
proof
  show "no_clash control_clash (update_where P f rows)"
    using assms(1,2) by (intro no_clash_update) (auto simp: controls_ok_def control_clash_def)
  show "list_all (\<lambda>r. row_phase r \<noteq> None) (update_where P f rows)"
    using assms(1,3) by (auto simp: controls_ok_def list_all_iff in_update_where)
qed

lemma filter_other_update:
  assumes "\<And>r. P r \<Longrightarrow> cw_workspace r = ws" "\<And>r. cw_workspace (f r) = cw_workspace r" "ws' \<noteq> ws"
  shows "filter (\<lambda>r. cw_workspace r = ws') (update_where P f rows) = filter (\<lambda>r. cw_workspace r = ws') rows"
  using assms by (intro filter_update_other) auto

lemma list_ex_filter: "length (filter P xs) = 1 \<Longrightarrow> list_ex P xs"
  by (induction xs) (auto split: if_splits)

section \<open>Statements\<close>

lemma preserves_active_leases [preserves_intros]: "preserves P (active_leases cs ws)"
proof -
  have "preserves P ((case x of (msg, leased) \<Rightarrow> \<lambda>total.
     bind_io (wrapping msg (query (leased ws))) (\<lambda>n. ret (total + n))) s)" for x and s :: int
    by (cases x) (auto intro!: preserves_intros)
  then show ?thesis unfolding active_leases_def by (rule preserves_fold)
qed

lemma preserves_migration_status [preserves_intros]: "preserves P (migration_status cs ws)"
  unfolding migration_status_def Let_def by (intro preserves_intros)

lemma migration_status_db: "migration_status cs ws w = (r, w') \<Longrightarrow> db w' = db w"
  by (rule preservesD [where P = "\<lambda>d. d = db w", OF preserves_migration_status refl])

lemma migration_status_Inr:
  assumes "migration_status cs ws w = (Inr st, w')"
  obtains n where "st = control_of_row (trim_space ws) (workspace_row (trim_space ws) (fst (cs_controls cs) (db w))) n"
    "trim_space ws \<noteq> []"
proof -
  from assms obtain row w1 where ws: "trim_space ws \<noteq> []"
    and sel: "select_row (cs_controls cs) (\<lambda>r. cw_workspace r = trim_space ws) w = (Inr row, w1)"
    and rest: "(case row of None \<Rightarrow> ret (control_of_row (trim_space ws) None 0)
      | Some r \<Rightarrow> bind_io (active_leases cs (trim_space ws)) (\<lambda>n. ret (control_of_row (trim_space ws) (Some r) n))) w1 = (Inr st, w')"
    by (auto simp: migration_status_def Let_def guard_io_Inr bind_io_Inr wrapping_Inr)
  from select_row_Inr [OF sel] have row: "row = workspace_row (trim_space ws) (fst (cs_controls cs) (db w))"
    by (simp add: workspace_row_def)
  from rest have "\<exists>n. st = control_of_row (trim_space ws) row n"
    by (cases row) (auto simp: bind_io_Inr)
  with row ws that show thesis by blast
qed

definition status_phase :: "migration_control \<Rightarrow> phase option" where
  "status_phase st = (if mx_migration st = [] then Some Fresh
     else row_phase \<lparr>cw_workspace = mx_workspace st, cw_migration = mx_migration st, cw_role = mx_role st, cw_state = mx_state st,
       cw_fingerprint = mx_fingerprint st, cw_frozen = mx_frozen st, cw_activated = mx_activated st, cw_updated = mx_updated st\<rparr>)"

lemma status_phase_row:
  assumes "controls_ok rows"
  shows "status_phase (control_of_row ws (workspace_row ws rows) n) = phase_at ws rows"
proof (cases "workspace_row ws rows")
  case None
  then show ?thesis by (simp add: status_phase_def control_of_row_def phase_at_def)
next
  case (Some r)
  with assms have "row_phase r \<noteq> None" using workspace_row_Some [OF Some] by (auto simp: controls_ok_def list_all_iff)
  then have "cw_migration r \<noteq> []" by (auto simp: row_phase_def)
  with Some show ?thesis by (simp add: status_phase_def control_of_row_def phase_at_def row_phase_def)
qed

lemma migration_status_phase:
  assumes "migration_status cs ws w = (Inr st, w')" "controls_ok (fst (cs_controls cs) (db w))"
  shows "status_phase st = phase_at (trim_space ws) (fst (cs_controls cs) (db w))"
  by (rule migration_status_Inr [OF assms(1)]) (simp add: status_phase_row [OF assms(2)])

section \<open>Operations and phases\<close>

text \<open>What an operation does to the rows: it leaves them alone and fails or finds the workspace where the operation
  wants it, adds a row, or updates the row of the workspace; after a change it may still fail, reading the status.\<close>

lemma transition_matches_workspace: "transition_matches ws mid role state f r \<Longrightarrow> cw_workspace r = ws"
  by (simp add: transition_matches_def)

lemma transitioned_workspace: "cw_workspace (transitioned role state f at r) = cw_workspace r"
  by (simp add: transitioned_def)

definition status_read :: "'d control_store \<Rightarrow> workspace_id \<Rightarrow> 'd \<Rightarrow> err + migration_control \<Rightarrow> bool" where
  "status_read cs ws d r \<longleftrightarrow> (\<forall>st. r = Inr st \<longrightarrow> (\<exists>w1 w2. db w1 = d \<and> migration_status cs ws w1 = (Inr st, w2)))"

lemma status_read_Inl [simp]: "status_read cs ws d (Inl e)"
  by (simp add: status_read_def)

lemma status_read_run: "migration_status cs ws w = (r, w') \<Longrightarrow> db w = d \<Longrightarrow> status_read cs ws d r"
  by (auto simp: status_read_def)

lemma transition_cases:
  assumes "transition_migration cs ws mid before after bundle at w = (r, w')"
  defines "P \<equiv> transition_matches (trim_space ws) (trim_space mid) (fst before) (snd before) (trim_space bundle)"
    and "f \<equiv> transitioned (fst after) (snd after) (trim_space bundle) (format_nano at)"
  shows "db w' = db w \<and> (\<exists>e. r = Inl e) \<or>
    db w' = snd (cs_controls cs) (update_where P f (fst (cs_controls cs) (db w))) (db w) \<and>
      status_read cs (trim_space ws) (db w') r \<and> (\<forall>st. r = Inr st \<longrightarrow> length (filter P (fst (cs_controls cs) (db w))) = 1)"
proof (cases "trim_space ws = [] \<or> trim_space mid = [] \<or> trim_space bundle = [] \<or> at = zero_time")
  case True
  with assms(1) show ?thesis by (auto simp: transition_migration_def guard_io_def)
next
  case False
  obtain x w1 where u: "wrapping ''transition notification migration'' (update_rows (cs_controls cs) P f) w = (x, w1)" by fastforce
  with assms False have rest: "(case x of Inl e \<Rightarrow> (Inl e, w1)
      | Inr n \<Rightarrow> (if n \<noteq> 1 then fail (ErrorText ''notification migration transition conflict'') else migration_status cs (trim_space ws)) w1) = (r, w')"
    by (simp add: transition_migration_def guard_io_def bind_io_def Let_def)
  from u obtain y where "update_rows (cs_controls cs) P f w = (y, w1)" by (auto dest: wrapping_db)
  then have w1: "db w1 = db w \<or> db w1 = snd (cs_controls cs) (update_where P f (fst (cs_controls cs) (db w))) (db w)"
    by (rule update_rows_db)
  show ?thesis
  proof (cases x)
    case (Inl e)
    with rest w1 show ?thesis by auto
  next
    case (Inr n)
    with u have n: "n = int (length (filter P (fst (cs_controls cs) (db w))))"
      and eff: "db w1 = snd (cs_controls cs) (update_where P f (fst (cs_controls cs) (db w))) (db w)"
      by (auto simp: wrapping_Inr dest: update_rows_Inr)
    show ?thesis
    proof (cases "n = 1")
      case True
      with rest Inr have st: "migration_status cs (trim_space ws) w1 = (r, w')" by simp
      then have "db w' = db w1" by (rule migration_status_db)
      with st eff n True show ?thesis by (auto intro: status_read_run)
    next
      case False
      with rest Inr eff show ?thesis by auto
    qed
  qed
qed

text \<open>The three ways an operation can change the rows: not at all, a new row, an update of the row of the workspace.\<close>

definition rows_step :: "control_op \<Rightarrow> workspace_id \<Rightarrow> control_row list \<Rightarrow> control_row list \<Rightarrow> bool \<Rightarrow> bool" where
  "rows_step op ws rows rows' fine \<longleftrightarrow>
     rows' = rows \<and> (fine \<longrightarrow> (\<exists>p. phase_at ws rows = Some p \<and> control_spec op p = Some p)) \<or>
     (\<exists>r. rows' = rows @ [r] \<and> cw_workspace r = ws \<and> workspace_row ws rows = None \<and> row_phase r \<noteq> None \<and> row_phase r = control_spec op Fresh) \<or>
     (\<exists>P f. rows' = update_where P f rows \<and> (\<forall>r. P r \<longrightarrow> cw_workspace r = ws) \<and> (\<forall>r. cw_workspace (f r) = cw_workspace r) \<and>
       (\<forall>r p. P r \<longrightarrow> row_phase r = Some p \<longrightarrow> row_phase (f r) \<noteq> None \<and> row_phase (f r) = control_spec op p) \<and>
       (fine \<longrightarrow> list_ex P rows))"

lemma rows_step_same: "\<not> fine \<Longrightarrow> rows_step op ws rows rows fine"
  by (simp add: rows_step_def)

lemma rows_step_new:
  assumes "cw_workspace r = ws" "workspace_row ws rows = None" "row_phase r \<noteq> None" "row_phase r = control_spec op Fresh"
  shows "rows_step op ws rows (rows @ [r]) fine"
  unfolding rows_step_def using assms by blast

lemma rows_step_update:
  assumes "\<And>r. P r \<Longrightarrow> cw_workspace r = ws" "\<And>r. cw_workspace (f r) = cw_workspace r"
    "\<And>r p. P r \<Longrightarrow> row_phase r = Some p \<Longrightarrow> row_phase (f r) \<noteq> None \<and> row_phase (f r) = control_spec op p" "fine \<Longrightarrow> list_ex P rows"
  shows "rows_step op ws rows (update_where P f rows) fine"
  unfolding rows_step_def by (intro disjI2 exI [of _ P] exI [of _ f]) (use assms in blast)

lemma rows_step_ok:
  assumes "rows_step op ws rows rows' fine" "controls_ok rows"
  shows "controls_ok rows'"
    and "ws' \<noteq> ws \<Longrightarrow> filter (\<lambda>r. cw_workspace r = ws') rows' = filter (\<lambda>r. cw_workspace r = ws') rows"
    and "phase_at ws rows' = phase_at ws rows \<or> phase_at ws rows' = Option.bind (phase_at ws rows) (control_spec op)"
    and "fine \<Longrightarrow> phase_at ws rows' = Option.bind (phase_at ws rows) (control_spec op)"
proof -
  consider (same) "rows' = rows" "fine \<longrightarrow> (\<exists>p. phase_at ws rows = Some p \<and> control_spec op p = Some p)"
    | (new) r where "rows' = rows @ [r]" "cw_workspace r = ws" "workspace_row ws rows = None" "row_phase r \<noteq> None" "row_phase r = control_spec op Fresh"
    | (upd) P f where "rows' = update_where P f rows" "\<And>r. P r \<Longrightarrow> cw_workspace r = ws" "\<And>r. cw_workspace (f r) = cw_workspace r"
        "\<And>r p. P r \<Longrightarrow> row_phase r = Some p \<Longrightarrow> row_phase (f r) \<noteq> None \<and> row_phase (f r) = control_spec op p" "fine \<longrightarrow> list_ex P rows"
    using assms(1) unfolding rows_step_def by blast
  then have "controls_ok rows' \<and> (ws' \<noteq> ws \<longrightarrow> filter (\<lambda>r. cw_workspace r = ws') rows' = filter (\<lambda>r. cw_workspace r = ws') rows) \<and>
    (phase_at ws rows' = phase_at ws rows \<or> phase_at ws rows' = Option.bind (phase_at ws rows) (control_spec op)) \<and>
    (fine \<longrightarrow> phase_at ws rows' = Option.bind (phase_at ws rows) (control_spec op))"
  proof cases
    case same
    with assms(2) show ?thesis by auto
  next
    case new
    have none: "\<not> list_ex (control_clash r) rows" using new(2,3) by (auto simp: workspace_row_None control_clash_def list_ex_iff)
    have ph: "phase_at ws rows' = Option.bind (phase_at ws rows) (control_spec op)"
      using new by (simp add: phase_at_def workspace_row_append)
    show ?thesis using assms(2) new none ph by (auto simp: controls_ok_def no_clash_append)
  next
    case upd
    have ph: "phase_at ws rows' = (if \<exists>r. workspace_row ws rows = Some r \<and> P r then Option.bind (phase_at ws rows) (control_spec op) else phase_at ws rows)"
    proof (cases "workspace_row ws rows")
      case None
      then show ?thesis by (simp add: phase_at_def upd(1) workspace_row_update [OF upd(3)])
    next
      case (Some r)
      then obtain p where p: "row_phase r = Some p" using assms(2) workspace_row_Some [OF Some] by (auto simp: controls_ok_def list_all_iff)
      show ?thesis
      proof (cases "P r")
        case True
        with upd(4) [OF True p] Some p show ?thesis by (auto simp: phase_at_def upd(1) workspace_row_update [OF upd(3)])
      next
        case False
        with Some show ?thesis by (simp add: phase_at_def upd(1) workspace_row_update [OF upd(3)])
      qed
    qed
    have hit: "\<exists>r. workspace_row ws rows = Some r \<and> P r" if "list_ex P rows"
    proof -
      from that obtain x where x: "x \<in> set rows" "P x" by (auto simp: list_ex_iff)
      then have "workspace_row ws rows = Some x" using assms(2) upd(2) by (auto simp: controls_ok_def intro: workspace_row_unique)
      with x show ?thesis by blast
    qed
    have known: "row_phase (f r) \<noteq> None" if "P r" "r \<in> set rows" for r
    proof -
      from that(2) assms(2) obtain p where "row_phase r = Some p" by (auto simp: controls_ok_def list_all_iff)
      with upd(4) [OF that(1)] show ?thesis by blast
    qed
    have "controls_ok rows'" unfolding upd(1) by (rule controls_ok_update [OF assms(2) upd(3) known])
    moreover have "filter (\<lambda>r. cw_workspace r = ws') rows' = filter (\<lambda>r. cw_workspace r = ws') rows" if "ws' \<noteq> ws"
      unfolding upd(1) by (rule filter_other_update [OF upd(2,3) that])
    ultimately show ?thesis using ph hit upd(5) by auto
  qed
  then show "controls_ok rows'" "ws' \<noteq> ws \<Longrightarrow> filter (\<lambda>r. cw_workspace r = ws') rows' = filter (\<lambda>r. cw_workspace r = ws') rows"
    "phase_at ws rows' = phase_at ws rows \<or> phase_at ws rows' = Option.bind (phase_at ws rows) (control_spec op)"
    "fine \<Longrightarrow> phase_at ws rows' = Option.bind (phase_at ws rows) (control_spec op)" by auto
qed

section \<open>The operations implement the phases\<close>

text \<open>What a representation of the database provides: the table of the controls can be replaced, and the rest does not
  change with it.\<close>

locale control_laws =
  fixes cs :: "'d control_store" and others :: "'d \<Rightarrow> 'x"
  assumes controls_put: "fst (cs_controls cs) (snd (cs_controls cs) rs d) = rs"
    and others_put: "others (snd (cs_controls cs) rs d) = others d"
begin

abbreviation controls :: "'d \<Rightarrow> control_row list" where
  "controls d \<equiv> fst (cs_controls cs) d"

definition control_effect :: "control_op \<Rightarrow> workspace_id \<Rightarrow> 'd \<Rightarrow> 'd \<Rightarrow> err + migration_control \<Rightarrow> bool" where
  "control_effect op ws d d' r \<longleftrightarrow> others d' = others d \<and> status_read cs ws d' r \<and>
     rows_step op ws (controls d) (controls d') (\<exists>st. r = Inr st)"

lemma phase_transition_effect:
  assumes "transition_migration cs ws mid before after bundle at w = (r, w')"
    and "\<And>x p. transition_matches (trim_space ws) (trim_space mid) (fst before) (snd before) (trim_space bundle) x \<Longrightarrow> row_phase x = Some p \<Longrightarrow>
      row_phase (transitioned (fst after) (snd after) (trim_space bundle) (format_nano at) x) \<noteq> None \<and>
      row_phase (transitioned (fst after) (snd after) (trim_space bundle) (format_nano at) x) = control_spec op p"
  shows "control_effect op (trim_space ws) (db w) (db w') r"
proof -
  let ?P = "transition_matches (trim_space ws) (trim_space mid) (fst before) (snd before) (trim_space bundle)"
    and ?f = "transitioned (fst after) (snd after) (trim_space bundle) (format_nano at)"
  from transition_cases [OF assms(1)] consider (same) e where "db w' = db w" "r = Inl e"
    | (upd) "db w' = snd (cs_controls cs) (update_where ?P ?f (controls (db w))) (db w)" "status_read cs (trim_space ws) (db w') r"
      "\<forall>st. r = Inr st \<longrightarrow> length (filter ?P (controls (db w))) = 1" by blast
  then show ?thesis
  proof cases
    case same
    then show ?thesis by (simp add: control_effect_def rows_step_same)
  next
    case upd
    have "rows_step op (trim_space ws) (controls (db w)) (update_where ?P ?f (controls (db w))) (\<exists>st. r = Inr st)"
      using upd(3) by (intro rows_step_update assms(2)) (auto simp: transitioned_workspace dest: transition_matches_workspace intro: list_ex_filter)
    with upd(1,2) show ?thesis by (simp add: control_effect_def controls_put others_put)
  qed
qed

lemma pin_effect: "record_migration_fingerprint cs ws mid f at w = (r, w') \<Longrightarrow> control_effect (Pin mid f at) (trim_space ws) (db w) (db w') r"
  unfolding record_migration_fingerprint_def
  by (erule phase_transition_effect) (auto simp: transition_matches_def transitioned_def row_phase_def bundle_fits_def split: if_splits)

lemma activate_effect: "activate_migration cs ws mid f at w = (r, w') \<Longrightarrow> control_effect (Activate mid f at) (trim_space ws) (db w) (db w') r"
  unfolding activate_migration_def
  by (erule phase_transition_effect) (auto simp: transition_matches_def transitioned_def row_phase_def bundle_fits_def split: if_splits)

lemma rollback_effect: "rollback_migration cs ws mid f at w = (r, w') \<Longrightarrow> control_effect (Rollback mid f at) (trim_space ws) (db w) (db w') r"
  unfolding rollback_migration_def
  by (erule phase_transition_effect) (auto simp: transition_matches_def transitioned_def row_phase_def bundle_fits_def split: if_splits)

text \<open>After an insert or an update of the row of a workspace the status is read again.\<close>

lemma written_then_status:
  assumes "bind_io (wrapping msg m) (\<lambda>_. migration_status cs ws) w = (r, w')"
    and "\<And>x w1. m w = (x, w1) \<Longrightarrow> db w1 = db w \<and> (\<exists>e. x = Inl e) \<or> others (db w1) = others (db w) \<and> (\<forall>fine. rows_step op ws (controls (db w)) (controls (db w1)) fine)"
  shows "control_effect op ws (db w) (db w') r"
proof -
  obtain x w1 where m: "m w = (x, w1)" by fastforce
  show ?thesis
  proof (cases x)
    case (Inl e)
    with m have wr: "wrapping msg m w = (Inl (Wrapped msg e), w1)" by (simp add: wrapping_def)
    with assms(1) have "r = Inl (Wrapped msg e)" "w' = w1" by (auto simp: bind_io_def)
    with assms(2) [OF m] show ?thesis by (auto simp: control_effect_def rows_step_same)
  next
    case (Inr a)
    with m have "wrapping msg m w = (Inr a, w1)" by (simp add: wrapping_Inr)
    with assms(1) have st: "migration_status cs ws w1 = (r, w')" by (simp add: bind_io_def)
    then have "db w' = db w1" by (rule migration_status_db)
    with assms(2) [OF m] Inr st show ?thesis by (auto simp: control_effect_def intro: status_read_run)
  qed
qed

lemma insert_step:
  assumes "workspace_insert (cs_controls cs) control_clash name ws ws row w = (x, w1)" "cw_workspace row = ws" 
    "workspace_row ws (controls (db w)) = None" "row_phase row \<noteq> None" "row_phase row = control_spec op Fresh"
  shows "db w1 = db w \<and> (\<exists>e. x = Inl e) \<or> others (db w1) = others (db w) \<and> (\<forall>fine. rows_step op ws (controls (db w)) (controls (db w1)) fine)"
proof -
  have new: "\<forall>fine. rows_step op ws (controls (db w)) (controls (db w) @ [row]) fine"
    using assms(2-5) by (intro allI rows_step_new)
  show ?thesis
  proof (cases "db w1 = db w")
    case True
    show ?thesis
    proof (cases x)
      case (Inr u)
      with assms(1) have "db w1 = snd (cs_controls cs) (controls (db w) @ [row]) (db w)" by (auto dest: workspace_insert_Inr)
      with new show ?thesis by (simp add: controls_put others_put)
    qed (use True in simp)
  next
    case False
    with workspace_insert_db [OF assms(1)] have "db w1 = snd (cs_controls cs) (controls (db w) @ [row]) (db w)" by blast
    with new show ?thesis by (simp add: controls_put others_put)
  qed
qed

lemma refreeze_step:
  assumes "bind_io (update_rows (cs_controls cs) P f) (\<lambda>_. ret ()) w = (x, w1)" "\<And>r. P r \<Longrightarrow> cw_workspace r = ws"
    "\<And>r. cw_workspace (f r) = cw_workspace r" "\<And>r p. P r \<Longrightarrow> row_phase r = Some p \<Longrightarrow> row_phase (f r) \<noteq> None \<and> row_phase (f r) = control_spec op p"
    "list_ex P (controls (db w))"
  shows "db w1 = db w \<and> (\<exists>e. x = Inl e) \<or> others (db w1) = others (db w) \<and> (\<forall>fine. rows_step op ws (controls (db w)) (controls (db w1)) fine)"
proof -
  have upd: "\<forall>fine. rows_step op ws (controls (db w)) (update_where P f (controls (db w))) fine"
    using assms(2-5) by (intro allI rows_step_update)
  obtain y w2 where u: "update_rows (cs_controls cs) P f w = (y, w2)" by fastforce
  with assms(1) have "(case y of Inl e \<Rightarrow> (Inl e, w2) | Inr n \<Rightarrow> (Inr (), w2)) = (x, w1)" by (cases y) (simp_all add: bind_io_def ret_def)
  then have w1: "w1 = w2" and y: "(\<exists>e. y = Inl e) \<longrightarrow> (\<exists>e. x = Inl e)" by (auto split: sum.splits)
  show ?thesis
  proof (cases "db w2 = db w")
    case True
    show ?thesis
    proof (cases y)
      case (Inr n)
      with u have "db w2 = snd (cs_controls cs) (update_where P f (controls (db w))) (db w)" by (auto dest: update_rows_Inr)
      with upd w1 show ?thesis by (simp add: controls_put others_put)
    qed (use True w1 y in simp)
  next
    case False
    with update_rows_db [OF u] have "db w2 = snd (cs_controls cs) (update_where P f (controls (db w))) (db w)" by blast
    with upd w1 show ?thesis by (simp add: controls_put others_put)
  qed
qed

lemma write_frozen_step:
  assumes "write_frozen cs ws (trim_space mid) at_text (mx_migration cur = []) w = (x, w1)" "controls_ok (controls (db w))"
    "cur = control_of_row ws (workspace_row ws (controls (db w))) n" "mx_state cur = ''active''" "trim_space mid \<noteq> []"
  shows "db w1 = db w \<and> (\<exists>e. x = Inl e) \<or>
    others (db w1) = others (db w) \<and> (\<forall>fine. rows_step (Freeze mid at) ws (controls (db w)) (controls (db w1)) fine)"
proof (cases "workspace_row ws (controls (db w))")
  case None
  with assms(1,3) have "workspace_insert (cs_controls cs) control_clash ''_notification_migration_controls'' ws ws (frozen_row ws (trim_space mid) at_text) w = (x, w1)"
    by (simp add: write_frozen_def control_of_row_def)
  then show ?thesis by (rule insert_step) (use None assms(5) in \<open>auto simp: frozen_row_def row_phase_def\<close>)
next
  case (Some row)
  then have row: "row \<in> set (controls (db w))" "cw_workspace row = ws" by (simp_all add: workspace_row_Some)
  with assms(2) have "row_phase row \<noteq> None" by (auto simp: controls_ok_def list_all_iff)
  then have "cw_migration row \<noteq> []" by (auto simp: row_phase_def)
  with assms(1,3) Some have "bind_io (update_rows (cs_controls cs) (\<lambda>r. cw_workspace r = ws \<and> cw_state r = ''active'') (refrozen (trim_space mid) at_text)) (\<lambda>_. ret ()) w = (x, w1)"
    by (simp add: write_frozen_def control_of_row_def)
  then show ?thesis
  proof (rule refreeze_step)
    show "list_ex (\<lambda>r. cw_workspace r = ws \<and> cw_state r = ''active'') (controls (db w))"
      using assms(3,4) Some row by (auto simp: list_ex_iff control_of_row_def)
  qed (use assms(5) in \<open>auto simp: refrozen_def row_phase_def split: if_splits\<close>)
qed

lemma freeze_effect:
  assumes "freeze_migration cs ws mid at w = (r, w')" "controls_ok (controls (db w))"
  shows "control_effect (Freeze mid at) (trim_space ws) (db w) (db w') r"
proof (cases "trim_space ws = [] \<or> trim_space mid = [] \<or> at = zero_time")
  case True
  with assms(1) show ?thesis by (auto simp: freeze_migration_def guard_io_def control_effect_def rows_step_same)
next
  case False
  let ?ws = "trim_space ws" and ?mid = "trim_space mid"
  obtain x w1 where st: "migration_status cs ?ws w = (x, w1)" by fastforce
  then have w1: "db w1 = db w" by (rule migration_status_db)
  show ?thesis
  proof (cases x)
    case (Inl e)
    with assms(1) False st w1 show ?thesis
      by (auto simp: freeze_migration_def guard_io_def bind_io_def Let_def control_effect_def rows_step_same)
  next
    case (Inr cur)
    with st obtain n where cur: "cur = control_of_row ?ws (workspace_row ?ws (controls (db w))) n"
      by (auto elim: migration_status_Inr simp: trim_space_idem)
    note run = assms(1) [unfolded freeze_migration_def Let_def guard_io_def]
    consider (again) "mx_state cur = ''frozen''" "mx_role cur = ''source''" "mx_migration cur = ?mid"
      | (bad) "\<not> (mx_state cur = ''frozen'' \<and> mx_role cur = ''source'' \<and> mx_migration cur = ?mid)" "mx_state cur \<noteq> ''active''"
      | (go) "mx_state cur = ''active''" by auto
    then show ?thesis
    proof cases
      case again
      with run False st Inr have r: "r = Inr cur" "w' = w1" by (auto simp: bind_io_def)
      from again cur obtain row where row: "workspace_row ?ws (controls (db w)) = Some row" "cw_state row = ''frozen''" "cw_role row = ''source''"
          "cw_migration row = ?mid" by (auto simp: control_of_row_def split: option.splits)
      with False have "phase_at ?ws (controls (db w)) = Some (Frozen ?mid (cw_fingerprint row))" by (simp add: phase_at_def row_phase_def)
      then have "rows_step (Freeze mid at) ?ws (controls (db w)) (controls (db w)) True" by (simp add: rows_step_def)
      moreover have "status_read cs ?ws (db w) r" using st r Inr unfolding status_read_def by blast
      ultimately show ?thesis using r w1 by (simp add: control_effect_def)
    next
      case bad
      with run False st Inr w1 show ?thesis by (auto simp: bind_io_def control_effect_def rows_step_same)
    next
      case go
      with run False st Inr have "bind_io (wrapping ''freeze notification migration'' (write_frozen cs ?ws ?mid (format_nano at) (mx_migration cur = [])))
          (\<lambda>_. migration_status cs ?ws) w1 = (r, w')"
        by (simp add: bind_io_def)
      then have "control_effect (Freeze mid at) ?ws (db w1) (db w') r"
        by (rule written_then_status, elim write_frozen_step) (use go cur assms(2) w1 False in auto)
      with w1 show ?thesis by simp
    qed
  qed
qed

lemma import_effect:
  assumes "record_imported_migration cs ws mid f at w = (r, w')" "controls_ok (controls (db w))"
  shows "control_effect (Import mid f at) (trim_space ws) (db w) (db w') r"
proof (cases "trim_space ws = [] \<or> trim_space mid = [] \<or> trim_space f = [] \<or> at = zero_time")
  case True
  with assms(1) show ?thesis by (auto simp: record_imported_migration_def guard_io_def control_effect_def rows_step_same)
next
  case False
  let ?ws = "trim_space ws"
  note run = assms(1) [unfolded record_imported_migration_def Let_def guard_io_def]
  obtain x w1 where st: "migration_status cs ?ws w = (x, w1)" by fastforce
  then have w1: "db w1 = db w" by (rule migration_status_db)
  show ?thesis
  proof (cases "\<exists>cur. x = Inr cur \<and> mx_state cur = ''active''")
    case no: False
    with run False st w1 show ?thesis
      by (cases x) (auto simp: bind_io_def control_effect_def rows_step_same)
  next
    case True
    then obtain cur where cur: "x = Inr cur" "mx_state cur = ''active''" by blast
    let ?m = "workspace_insert (cs_controls cs) control_clash ''_notification_migration_controls'' ?ws ?ws
       (imported_row ?ws (trim_space mid) (trim_space f) (format_nano at))"
    from cur run False st have "bind_io (wrapping ''record imported notification migration'' ?m) (\<lambda>_. migration_status cs ?ws) w1 = (r, w')"
      by (simp add: bind_io_def)
    then have "control_effect (Import mid f at) ?ws (db w1) (db w') r"
    proof (rule written_then_status)
      fix y w2 assume ins: "?m w1 = (y, w2)"
      show "db w2 = db w1 \<and> (\<exists>e. y = Inl e) \<or> others (db w2) = others (db w1) \<and> (\<forall>fine. rows_step (Import mid f at) ?ws (controls (db w1)) (controls (db w2)) fine)"
      proof (cases "workspace_row ?ws (controls (db w1))")
        case None
        show ?thesis by (rule insert_step [OF ins]) (use None False in \<open>auto simp: imported_row_def row_phase_def\<close>)
      next
        case (Some row)
        have "list_ex (control_clash (imported_row ?ws (trim_space mid) (trim_space f) (format_nano at))) (controls (db w1))"
          using workspace_row_Some [OF Some] by (force simp: list_ex_iff control_clash_def imported_row_def)
        from workspace_insert_clash [OF this ins] show ?thesis by simp
      qed
    qed
    with w1 show ?thesis by simp
  qed
qed

lemma control_effect:
  assumes "run_control cs ws op w = (r, w')" "controls_ok (controls (db w))"
  shows "control_effect op (trim_space ws) (db w) (db w') r"
  using assms by (cases op) (simp_all add: freeze_effect pin_effect import_effect activate_effect rollback_effect)

text \<open>Every operation implements its partial function of the phase: the phase of the workspace stays or becomes the one
  the function gives, the function is defined when the operation returns, and the status it returns is of the new phase.\<close>

lemma refines_phases:
  assumes "run_control cs ws op w = (r, w')" "controls_ok (controls (db w))" "phase_at (trim_space ws) (controls (db w)) = Some p"
  shows "others (db w') = others (db w)" and "controls_ok (controls (db w'))"
    and "ws' \<noteq> trim_space ws \<Longrightarrow> phase_at ws' (controls (db w')) = phase_at ws' (controls (db w))"
    and "phase_at (trim_space ws) (controls (db w')) = Some p \<or> phase_at (trim_space ws) (controls (db w')) = control_spec op p"
    and "r = Inr st \<Longrightarrow> control_spec op p \<noteq> None \<and> phase_at (trim_space ws) (controls (db w')) = control_spec op p \<and> status_phase st = control_spec op p"
proof -
  from control_effect [OF assms(1,2)] have eff: "others (db w') = others (db w)" "status_read cs (trim_space ws) (db w') r"
    "rows_step op (trim_space ws) (controls (db w)) (controls (db w')) (\<exists>st. r = Inr st)" by (simp_all add: control_effect_def)
  note ok = rows_step_ok [OF eff(3) assms(2)]
  show "others (db w') = others (db w)" by (rule eff(1))
  show kept: "controls_ok (controls (db w'))" by (rule ok(1))
  show "phase_at (trim_space ws) (controls (db w')) = Some p \<or> phase_at (trim_space ws) (controls (db w')) = control_spec op p"
    using ok(3) assms(3) by simp
  show "phase_at ws' (controls (db w')) = phase_at ws' (controls (db w))" if "ws' \<noteq> trim_space ws"
    by (rule phase_at_filter [OF ok(2) [OF that]])
  show "control_spec op p \<noteq> None \<and> phase_at (trim_space ws) (controls (db w')) = control_spec op p \<and> status_phase st = control_spec op p" if "r = Inr st"
  proof -
    from ok(4) that assms(3) have ph: "phase_at (trim_space ws) (controls (db w')) = control_spec op p" by simp
    from eff(2) that obtain w1 w2 where "db w1 = db w'" "migration_status cs (trim_space ws) w1 = (Inr st, w2)" by (auto simp: status_read_def)
    with kept have "status_phase st = phase_at (trim_space ws) (controls (db w'))"
      using migration_status_phase [of cs "trim_space ws" w1 st w2] by (simp add: trim_space_idem)
    with ph phase_at_known [OF kept, of "trim_space ws"] show ?thesis by simp
  qed
qed

end

interpretation typed_controls: control_laws sql_controls "\<lambda>d. d\<lparr>db_controls := []\<rparr>"
  by unfold_locales (simp_all add: sql_controls_def)

text \<open>The rows as the portability store has them satisfy the laws too.\<close>

interpretation row_controls: control_laws raw_controls rd_rows
  by unfold_locales (simp_all add: raw_controls_def raw_controls_table_def)

section \<open>The typed rows\<close>

text \<open>C36: The migration control implements the phases of a workspace. Whatever the driver does, an operation leaves every other
  table and the phase of every other workspace alone, and the workspace stays in its phase or moves to the one the phase
  function gives; it succeeds only where that function is defined, and the status it returns is then of the new phase.\<close>

theorem control_refines:
  assumes "run_control sql_controls ws op w = (r, w')" "controls_ok (db_controls (db w))"
    and "phase_at (trim_space ws) (db_controls (db w)) = Some p"
  shows "(db w')\<lparr>db_controls := []\<rparr> = (db w)\<lparr>db_controls := []\<rparr> \<and> controls_ok (db_controls (db w')) \<and>
    (\<forall>ws'. ws' \<noteq> trim_space ws \<longrightarrow> phase_at ws' (db_controls (db w')) = phase_at ws' (db_controls (db w))) \<and>
    phase_at (trim_space ws) (db_controls (db w')) \<in> {Some p, control_spec op p} \<and>
    (\<forall>st. r = Inr st \<longrightarrow> control_spec op p \<noteq> None \<and> phase_at (trim_space ws) (db_controls (db w')) = control_spec op p \<and>
       status_phase st = control_spec op p)"
proof -
  have rows: "fst (cs_controls sql_controls) d = db_controls d" for d by (simp add: sql_controls_def)
  note step = typed_controls.refines_phases [OF assms(1), unfolded rows, OF assms(2,3)]
  show ?thesis using step(1,2,3,4) step(5) by blast
qed

lemma control_refines_witness:
  "phase_at ''ws'' (db_controls (db (snd (run_control sql_controls ''ws'' (Freeze '' m1'' 5) (calm_world empty_database))))) \<in>
    {Some Fresh, Some (Frozen ''m1'' [])}"
proof -
  obtain r w' where run: "run_control sql_controls ''ws'' (Freeze '' m1'' 5) (calm_world empty_database) = (r, w')" by fastforce
  have "controls_ok (db_controls (db (calm_world empty_database)))" "phase_at (trim_space ''ws'') (db_controls (db (calm_world empty_database))) = Some Fresh" "trim_space ''ws'' = ''ws''"
    "control_spec (Freeze '' m1'' 5) Fresh = Some (Frozen ''m1'' [])"
    by code_simp+
  with control_refines [OF run] run show ?thesis by simp
qed

definition run_controls :: "(workspace_id \<times> control_op) list \<Rightarrow> database driver \<Rightarrow> database driver" where
  "run_controls ops w = fold (\<lambda>(ws, op) w. snd (run_control sql_controls ws op w)) ops w"

text \<open>A target: imported or cut over, of one migration and one bundle.\<close>

definition target_of :: "string \<Rightarrow> string \<Rightarrow> phase option \<Rightarrow> bool" where
  "target_of m f p \<longleftrightarrow> p = Some (Imported m f) \<or> p = Some (Cutover m f)"

lemma target_step:
  assumes "target_of m f (Some p)" "f \<noteq> []" "control_spec op p = Some p'" shows "target_of m f (Some p')"
  using assms by (cases op) (auto simp: target_of_def bundle_fits_def split: if_splits)

lemma target_run:
  assumes "controls_ok (db_controls (db w))" "target_of m f (phase_at ws (db_controls (db w)))" "f \<noteq> []"
  shows "controls_ok (db_controls (db (snd (run_control sql_controls ws' op w))))"
    and "target_of m f (phase_at ws (db_controls (db (snd (run_control sql_controls ws' op w)))))"
proof -
  obtain r w' where run: "run_control sql_controls ws' op w = (r, w')" by fastforce
  have rows: "fst (cs_controls sql_controls) d = db_controls d" for d by (simp add: sql_controls_def)
  obtain p where p: "phase_at (trim_space ws') (db_controls (db w)) = Some p" using phase_at_known [OF assms(1)] by blast
  note step = typed_controls.refines_phases [OF run, unfolded rows, OF assms(1) p]
  show "controls_ok (db_controls (db (snd (run_control sql_controls ws' op w))))" using step(2) run by simp
  show "target_of m f (phase_at ws (db_controls (db (snd (run_control sql_controls ws' op w)))))"
  proof (cases "ws = trim_space ws'")
    case False
    then show ?thesis using step(3) [of ws] assms(2) run by simp
  next
    case True
    with assms(2) p have tp: "target_of m f (Some p)" by simp
    have "phase_at ws (db_controls (db w')) \<noteq> None" by (rule phase_at_known [OF step(2)])
    with step(4) True target_step [OF tp assms(3), of op] tp run show ?thesis by auto
  qed
qed

text \<open>C37: A target never goes back. However the operations of any workspaces follow on each other, and whatever the driver
  does, a workspace that was imported stays imported or is cut over, for the migration and the bundle it was imported from.\<close>

theorem target_final:
  assumes "controls_ok (db_controls (db w))" "target_of m f (phase_at ws (db_controls (db w)))" "f \<noteq> []"
  shows "target_of m f (phase_at ws (db_controls (db (run_controls ops w))))"
  using assms
proof (induction ops arbitrary: w)
  case (Cons x ops)
  obtain ws' op where x: "x = (ws', op)" by fastforce
  from Cons.IH [OF target_run [OF Cons.prems]] Cons.prems(3) show ?case by (simp add: run_controls_def x)
qed (simp add: run_controls_def)

definition imported_rows :: world where
  "imported_rows = calm_world (empty_database\<lparr>db_controls := [imported_row ''ws'' ''m'' ''f'' ''2024'']\<rparr>)"

lemma target_final_witness:
  "target_of ''m'' ''f'' (phase_at ''ws'' (db_controls (db (run_controls
     [(''ws'', Rollback ''m'' ''f'' 1), (''ws'', Activate ''m'' ''f'' 2), (''ws'', Freeze ''n'' 3)] imported_rows))))"
proof (rule target_final)
  show "controls_ok (db_controls (db imported_rows))" "target_of ''m'' ''f'' (phase_at ''ws'' (db_controls (db imported_rows)))" by code_simp+
qed simp

end
