(* ===== verification/Portable_Store.thy ===== *)
theory Portable_Store
  imports Portable_Schema Mailbox_Cursor
begin

text \<open>
  The portability store: portable.go of internal/infrastructure/persistence/database/portability. A workspace is exported as
  a bundle of all its tables, each cell the JSON text of the driver value, with a SHA-256 fingerprint of the whole; it is
  imported into a database that holds nothing of the workspace, in one transaction, and compared with the bundle by its
  fingerprint. A \<open>json.RawMessage\<close> is its text; the bundles the store gets went through \<open>json.Marshal\<close> and have no
  white space between tokens. \<open>stored\<close> is the engine (see \<open>raw_insert\<close>).
\<close>

section \<open>Bundles\<close>

record portable_scope =
  px_workspace :: workspace_id
  px_application :: string

record portable_table =
  pb_name :: string
  pb_columns :: "string list"
  pb_rows :: "string list list"

record portable_bundle =
  bu_format :: string
  bu_migration :: string
  bu_source :: portable_scope
  bu_tables :: "portable_table list"
  bu_fingerprint :: string

record portable_inventory =
  iv_tables :: "(string \<times> int) list"
  iv_rows :: int
  iv_leases :: int
  iv_fingerprint :: string

record import_receipt =
  im_format :: string
  im_fingerprint :: string
  im_rows :: int
  im_present :: bool

definition portable_format :: string where
  "portable_format = ''domainry-notification-portable-v1''"

section \<open>Cells\<close>

fun cell_json :: "sql_value \<Rightarrow> string" where
  "cell_json SqlNull = ''null''"
| "cell_json (SqlInt n) = show_int n"
| "cell_json (SqlText s) = json_string s"
| "cell_json (SqlBool b) = (if b then ''true'' else ''false'')"

text \<open>\<open>json.Unmarshal\<close> of a text into an \<open>int64\<close>, a \<open>string\<close>, a \<open>bool\<close>; \<open>null\<close> leaves the zero value.\<close>

definition unsigned_digits :: "string \<Rightarrow> bool" where
  "unsigned_digits s \<longleftrightarrow> s \<noteq> [] \<and> list_all is_digit s \<and> (hd s = CHR ''0'' \<longrightarrow> tl s = [])"

definition json_integer :: "string \<Rightarrow> int option" where
  "json_integer s =
    (let negative = (take 1 s = ''-''); ds = (if negative then tl s else s);
         n = (if negative then - number_of 0 ds else number_of 0 ds) in
     if unsigned_digits ds \<and> - (2 ^ 63) \<le> n \<and> n < 2 ^ 63 then Some n else None)"

definition json_string_value :: "string \<Rightarrow> string option" where
  "json_string_value s = (case json_text s of None \<Rightarrow> None | Some (v, rest) \<Rightarrow> if skip_space rest = [] then Some v else None)"

definition unmarshal_int :: "string \<Rightarrow> int option" where
  "unmarshal_int s = (if s = ''null'' then Some 0 else json_integer s)"

definition unmarshal_string :: "string \<Rightarrow> string option" where
  "unmarshal_string s = (if s = ''null'' then Some [] else json_string_value s)"

definition unmarshal_bool :: "string \<Rightarrow> bool option" where
  "unmarshal_bool s = (if s = ''true'' then Some True else if s = ''false'' \<or> s = ''null'' then Some False else None)"

fun decode_portable_cell :: "string \<Rightarrow> portable_kind \<Rightarrow> sql_value option" where
  "decode_portable_cell raw kind =
    (if raw = ''null'' then Some SqlNull
     else case kind of
       PortableInteger \<Rightarrow> map_option SqlInt (unmarshal_int raw)
     | PortableBoolean \<Rightarrow> (case unmarshal_bool raw of
         Some b \<Rightarrow> Some (SqlBool b)
       | None \<Rightarrow> map_option (\<lambda>n. SqlBool (n \<noteq> 0)) (unmarshal_int raw))
     | PortableText \<Rightarrow> map_option SqlText (unmarshal_string raw))"

text \<open>\<open>fmt.Sprint\<close> of a value.\<close>

fun sprint_value :: "sql_value \<Rightarrow> string" where
  "sprint_value SqlNull = ''<nil>''"
| "sprint_value (SqlInt n) = show_int n"
| "sprint_value (SqlText s) = s"
| "sprint_value (SqlBool b) = (if b then ''true'' else ''false'')"

section \<open>Fingerprints\<close>

definition portable_row_key :: "string list \<Rightarrow> string" where
  "portable_row_key row = json_array row"

definition table_json :: "portable_table \<Rightarrow> string" where
  "table_json t = json_object [field ''name'' (json_string (pb_name t)), field ''columns'' (json_array (map json_string (pb_columns t))),
     field ''rows'' (json_array (map json_array (pb_rows t)))]"

definition bundle_json :: "portable_bundle \<Rightarrow> string" where
  "bundle_json b = json_object [field ''format_version'' (json_string (bu_format b)), text_field ''migration_id'' (bu_migration b),
     field ''source'' (json_object [field ''workspace_id'' (json_string (px_workspace (bu_source b))),
       field ''application_key'' (json_string (px_application (bu_source b)))]),
     field ''tables'' (json_array (map table_json (bu_tables b))), field ''fingerprint'' (json_string (bu_fingerprint b))]"

definition portable_fingerprint :: "portable_bundle \<Rightarrow> string" where
  "portable_fingerprint b = value_hash (bundle_json (b\<lparr>bu_fingerprint := []\<rparr>))"

section \<open>Export\<close>

fun index_of :: "'a \<Rightarrow> 'a list \<Rightarrow> nat option" where
  "index_of x [] = None"
| "index_of x (y # ys) = (if y = x then Some 0 else map_option Suc (index_of x ys))"

definition active_portable_leases :: "portable_table \<Rightarrow> int" where
  "active_portable_leases t = (case index_of ''lease_owner'' (pb_columns t) of None \<Rightarrow> 0
   | Some i \<Rightarrow> int (length (filter (\<lambda>row. i < length row \<and>
       (case unmarshal_string (row ! i) of None \<Rightarrow> False | Some owner \<Rightarrow> trim_space owner \<noteq> [])) (pb_rows t))))"

definition is_workspace_table :: "string \<Rightarrow> bool" where
  "is_workspace_table name \<longleftrightarrow> map_of schema_ownership name = Some WorkspaceData"

definition exported_rows :: "portable_scope \<Rightarrow> table_definition \<Rightarrow> raw_database \<Rightarrow> string list list" where
  "exported_rows scope t d =
     map (\<lambda>r. map (\<lambda>c. cell_json (r c)) (map fst (snd t)))
       (filter (\<lambda>r. is_workspace_table (fst t) \<longrightarrow> r ''workspace_id'' = SqlText (px_workspace scope)) (rd_rows d (fst t)))"

definition exported_table :: "portable_scope \<Rightarrow> table_definition \<Rightarrow> raw_database \<Rightarrow> portable_table" where
  "exported_table scope t d = \<lparr>pb_name = fst t, pb_columns = map fst (snd t),
     pb_rows = sort_key portable_row_key (exported_rows scope t d)\<rparr>"

definition export_table :: "portable_scope \<Rightarrow> table_definition \<Rightarrow> (raw_database, portable_table) statement" where
  "export_table scope t =
     bind_io (wrapping (''export notification table '' @ fst t) (query (exported_rows scope t))) (\<lambda>rows.
     ret \<lparr>pb_name = fst t, pb_columns = map fst (snd t), pb_rows = sort_key portable_row_key rows\<rparr>)"

definition count_table :: "portable_table \<Rightarrow> portable_inventory \<Rightarrow> portable_inventory" where
  "count_table t i = i\<lparr>iv_tables := iv_tables i @ [(pb_name t, int (length (pb_rows t)))],
     iv_rows := iv_rows i + int (length (pb_rows t)), iv_leases := iv_leases i + active_portable_leases t\<rparr>"

definition empty_inventory :: portable_inventory where
  "empty_inventory = \<lparr>iv_tables = [], iv_rows = 0, iv_leases = 0, iv_fingerprint = []\<rparr>"

definition export_portable :: "portable_scope \<Rightarrow> (raw_database, portable_bundle \<times> portable_inventory) statement" where
  "export_portable scope =
     guard_io (trim_space (px_workspace scope) = [] \<or> trim_space (px_application scope) = [])
       (ErrorText ''notification portable export dependencies and scope are required'')
      (bind_io (fold_io (\<lambda>t (tables, inventory). bind_io (export_table scope t) (\<lambda>table.
          ret (tables @ [table], count_table table inventory))) portable_tables ([], empty_inventory)) (\<lambda>(tables, inventory).
       let bundle = \<lparr>bu_format = portable_format, bu_migration = [], bu_source = scope, bu_tables = tables, bu_fingerprint = []\<rparr>;
           fingerprint = portable_fingerprint bundle in
       ret (bundle\<lparr>bu_fingerprint := fingerprint\<rparr>, inventory\<lparr>iv_fingerprint := fingerprint\<rparr>)))"

definition export_portable_migration ::
  "portable_scope \<Rightarrow> string \<Rightarrow> (raw_database, portable_bundle \<times> portable_inventory) statement" where
  "export_portable_migration scope migration =
     bind_io (export_portable scope) (\<lambda>(bundle, inventory).
     let mid = trim_space migration; named = bundle\<lparr>bu_migration := mid\<rparr>; fingerprint = portable_fingerprint named in
     if mid = [] then fail (ErrorText ''notification portable migration id is required'')
     else ret (named\<lparr>bu_fingerprint := fingerprint\<rparr>, inventory\<lparr>iv_fingerprint := fingerprint\<rparr>))"

section \<open>Validation\<close>

definition foreign_row :: "portable_scope \<Rightarrow> portable_table \<Rightarrow> string list \<Rightarrow> bool" where
  "foreign_row target t row = (case index_of ''workspace_id'' (pb_columns t) of None \<Rightarrow> True
   | Some i \<Rightarrow> unmarshal_string (row ! i) \<noteq> Some (px_workspace target))"

fun row_problem :: "portable_scope \<Rightarrow> portable_table \<Rightarrow> string list list \<Rightarrow> err option" where
  "row_problem target t [] = None"
| "row_problem target t (row # rows) =
    (if length row \<noteq> length (pb_columns t)
     then Some (ErrorText (''notification portable table '' @ pb_name t @ '' row width mismatch''))
     else if is_workspace_table (pb_name t) \<and> foreign_row target t row
     then Some (ErrorText (''notification portable table '' @ pb_name t @ '' contains a foreign workspace row''))
     else row_problem target t rows)"

definition table_problem :: "portable_scope \<Rightarrow> nat \<Rightarrow> table_definition \<Rightarrow> portable_table \<Rightarrow> err option" where
  "table_problem target i definition t =
    (if pb_name t \<noteq> fst definition \<or> length (pb_columns t) \<noteq> length (snd definition)
     then Some (ErrorText (''notification portable table '' @ show_nat i @ '' schema mismatch''))
     else if pb_columns t \<noteq> map fst (snd definition)
     then Some (ErrorText (''notification portable table '' @ pb_name t @ '' columns mismatch''))
     else row_problem target t (pb_rows t))"

fun tables_problem :: "portable_scope \<Rightarrow> nat \<Rightarrow> table_definition list \<Rightarrow> portable_table list \<Rightarrow> err option" where
  "tables_problem target i (definition # ds) (t # ts) =
     (case table_problem target i definition t of Some e \<Rightarrow> Some e | None \<Rightarrow> tables_problem target (Suc i) ds ts)"
| "tables_problem target i _ _ = None"

definition validate_portable :: "portable_bundle \<Rightarrow> portable_scope \<Rightarrow> err option" where
  "validate_portable b target =
    (if bu_format b \<noteq> portable_format \<or> trim_space (px_workspace (bu_source b)) = [] \<or> trim_space (px_application (bu_source b)) = []
     then Some (ErrorText ''notification portable bundle format or source scope is invalid'')
     else if px_workspace (bu_source b) \<noteq> px_workspace target \<or> px_application (bu_source b) \<noteq> px_application target
     then Some (ErrorText ''notification portable bundle target scope mismatch'')
     else if length (bu_tables b) \<noteq> length portable_tables
     then Some (ErrorText ''notification portable bundle table inventory is incomplete'')
     else case tables_problem target 0 portable_tables (bu_tables b) of Some e \<Rightarrow> Some e
     | None \<Rightarrow> if portable_fingerprint b \<noteq> bu_fingerprint b
         then Some (ErrorText ''notification portable bundle fingerprint mismatch'') else None)"

section \<open>Import\<close>

definition portable_table_named :: "string \<Rightarrow> table_definition option" where
  "portable_table_named name = List.find (\<lambda>t. fst t = name) portable_tables"

definition physical_table :: "string \<Rightarrow> schema_table" where
  "physical_table name = (case List.find (\<lambda>t. st_name t = name) portable_schema_tables of Some t \<Rightarrow> t | None \<Rightarrow> schema_table_of name [])"

text \<open>The values of a row, in the order of the columns; an index past the definition's columns is out of range there,
  which validation excludes.\<close>

fun decode_row :: "string list \<Rightarrow> (string \<times> portable_kind) list \<Rightarrow> sql_value list option" where
  "decode_row [] _ = Some []"
| "decode_row (raw # row) ((c, kind) # cs) = (case decode_portable_cell raw kind of None \<Rightarrow> None
     | Some v \<Rightarrow> map_option (Cons v) (decode_row row cs))"
| "decode_row _ [] = None"

fun delete_at :: "nat \<Rightarrow> 'a list \<Rightarrow> 'a list" where
  "delete_at i [] = []"
| "delete_at 0 (x # xs) = xs"
| "delete_at (Suc i) (x # xs) = x # delete_at i xs"

definition import_row ::
  "(column_kind \<Rightarrow> sql_value \<Rightarrow> sql_value) \<Rightarrow> portable_scope \<Rightarrow> portable_table \<Rightarrow> table_definition \<Rightarrow> string list \<Rightarrow>
   (raw_database, unit) statement" where
  "import_row stored target t definition row =
    (case decode_row row (snd definition) of
       None \<Rightarrow> fail (Wrapped ''decode notification portable cell'' (HostError ''json''))
     | Some vs \<Rightarrow>
        if is_workspace_table (pb_name t)
        then (case index_of ''workspace_id'' (pb_columns t) of
            None \<Rightarrow> fail (ErrorText (''notification portable table '' @ pb_name t @ '' contains an invalid workspace row''))
          | Some i \<Rightarrow> if trim_space (sprint_value (vs ! i)) \<noteq> px_workspace target
              then fail (ErrorText (''notification portable table '' @ pb_name t @ '' contains an invalid workspace row''))
              else wrapping (''import notification table '' @ pb_name t) (raw_insert stored (physical_table (pb_name t))
                ((''workspace_id'', SqlText (px_workspace target)) # zip (delete_at i (pb_columns t)) (delete_at i vs))))
        else wrapping (''import notification table '' @ pb_name t) (raw_insert stored (physical_table (pb_name t)) (zip (pb_columns t) vs)))"

definition import_table ::
  "(column_kind \<Rightarrow> sql_value \<Rightarrow> sql_value) \<Rightarrow> portable_scope \<Rightarrow> portable_table \<Rightarrow> int \<Rightarrow> (raw_database, int) statement" where
  "import_table stored target t count =
    (case portable_table_named (pb_name t) of
       None \<Rightarrow> fail (ErrorText (''notification portable table '' @ pb_name t @ '' is not owned by this module''))
     | Some definition \<Rightarrow> fold_io (\<lambda>row n. bind_io (import_row stored target t definition row) (\<lambda>_. ret (n + 1))) (pb_rows t) count)"

definition receipt_of :: "portable_bundle \<Rightarrow> int \<Rightarrow> bool \<Rightarrow> import_receipt" where
  "receipt_of b n present = \<lparr>im_format = portable_format, im_fingerprint = bu_fingerprint b, im_rows = n, im_present = present\<rparr>"

text \<open>After the commit the target is exported again and compared.\<close>

definition reconcile_import :: "portable_scope \<Rightarrow> portable_bundle \<Rightarrow> int \<Rightarrow> (raw_database, import_receipt) statement" where
  "reconcile_import target b rows = bind_io (export_portable target) (\<lambda>(imported, found).
     if portable_fingerprint (imported\<lparr>bu_migration := bu_migration b\<rparr>) \<noteq> bu_fingerprint b \<or> iv_rows found \<noteq> rows
     then fail (ErrorText ''notification portable import reconciliation failed'')
     else ret (receipt_of b rows False))"

definition import_portable ::
  "(column_kind \<Rightarrow> sql_value \<Rightarrow> sql_value) \<Rightarrow> portable_scope \<Rightarrow> portable_bundle \<Rightarrow> (raw_database, import_receipt) statement" where
  "import_portable stored target b =
    (case validate_portable b target of Some e \<Rightarrow> fail e
     | None \<Rightarrow> bind_io (export_portable target) (\<lambda>(existing, inventory).
       if iv_rows inventory > 0
       then (if portable_fingerprint (existing\<lparr>bu_migration := bu_migration b\<rparr>) \<noteq> bu_fingerprint b
         then fail (ErrorText ''notification portable import target is not empty and does not match the bundle'')
         else ret (receipt_of b (iv_rows inventory) True))
       else bind_io (transaction (bind_io (fold_io (import_table stored target) (bu_tables b) 0) (\<lambda>n. commit_with n)))
         (reconcile_import target b)))"

end
