(* ===== verification/Portable_Rules.thy ===== *)
theory Portable_Rules
  imports Portable_Store Mailbox_Pages Migration_Steps
begin

text \<open>
  Correctness of the portability store: an import either leaves the rows alone or adds exactly the rows of the bundle, all
  of the target's workspace; what one database exports another imports, and exports the same again; a repeated import
  changes nothing.
\<close>

section \<open>The tables\<close>

lemma index_of_Some: "x \<in> set xs \<Longrightarrow> \<exists>i. index_of x xs = Some i"
  by (induction xs) auto

lemma find_key_unique: "distinct (map f xs) \<Longrightarrow> x \<in> set xs \<Longrightarrow> List.find (\<lambda>y. f y = f x) xs = Some x"
  by (induction xs) (auto simp: image_iff)

lemma portable_names: "distinct (map fst portable_tables)"
  by code_simp

lemma portable_shape:
  "list_all (\<lambda>t. is_workspace_table (fst t) \<and> ''workspace_id'' \<in> set (map fst (snd t)) \<and> distinct (map fst (snd t))) portable_tables"
  by code_simp

lemma portable_keys:
  "list_all (\<lambda>t. list_all (\<lambda>key. list_all (\<lambda>c. c \<in> set (map sc_name (st_columns t))) key) (unique_keys_of t) \<and> distinct (map sc_name (st_columns t))) portable_schema_tables"
  by code_simp

lemma portable_shapeD:
  assumes "t \<in> set portable_tables"
  shows "is_workspace_table (fst t)" "''workspace_id'' \<in> set (map fst (snd t))" "distinct (map fst (snd t))"
  using portable_shape assms unfolding list_all_iff by blast+

lemma portable_table_named_known: "t \<in> set portable_tables \<Longrightarrow> portable_table_named (fst t) = Some t"
  using portable_names by (simp add: portable_table_named_def find_key_unique)

text \<open>The physical table of a definition has its columns.\<close>

lemma physical_known:
  assumes "t \<in> set portable_tables"
  shows "map sc_name (st_columns (physical_table (fst t))) = map fst (snd t)"
    and "map (\<lambda>c. portable_kind_of (sc_kind c)) (st_columns (physical_table (fst t))) = map snd (snd t)"
    and "st_name (physical_table (fst t)) = fst t" and "physical_table (fst t) \<in> set portable_schema_tables"
proof -
  from assms obtain s where s: "s \<in> set portable_schema_tables"
    "t = (st_name s, map (\<lambda>c. (sc_name c, portable_kind_of (sc_kind c))) (st_columns s))"
    by (auto simp: portable_tables_def)
  have "distinct (map st_name portable_schema_tables)" using portable_names by (simp add: portable_tables_def comp_def)
  with s have "physical_table (fst t) = s" by (simp add: physical_table_def find_key_unique)
  with s show "map sc_name (st_columns (physical_table (fst t))) = map fst (snd t)"
    "map (\<lambda>c. portable_kind_of (sc_kind c)) (st_columns (physical_table (fst t))) = map snd (snd t)"
    "st_name (physical_table (fst t)) = fst t" "physical_table (fst t) \<in> set portable_schema_tables"
    by (simp_all add: comp_def)
qed

lemma physical_keys:
  assumes "t \<in> set portable_tables" "key \<in> set (unique_keys_of (physical_table (fst t)))"
  shows "set key \<subseteq> set (map fst (snd t))"
  using portable_keys physical_known [OF assms(1)] assms(2) unfolding list_all_iff by (metis subsetI)

section \<open>The effect of an import\<close>

text \<open>The row an import makes of a row of a bundle, and the tables it leads to.\<close>

definition row_bindings :: "portable_scope \<Rightarrow> portable_table \<Rightarrow> sql_value list \<Rightarrow> (string \<times> sql_value) list" where
  "row_bindings target t vs = (case index_of ''workspace_id'' (pb_columns t) of
     None \<Rightarrow> [] | Some i \<Rightarrow> (''workspace_id'', SqlText (px_workspace target)) # zip (delete_at i (pb_columns t)) (delete_at i vs))"

definition bundle_row ::
  "(column_kind \<Rightarrow> sql_value \<Rightarrow> sql_value) \<Rightarrow> portable_scope \<Rightarrow> portable_table \<Rightarrow> table_definition \<Rightarrow> string list \<Rightarrow> raw_row" where
  "bundle_row stored target t df row =
     raw_value stored (physical_table (pb_name t)) (row_bindings target t (the (decode_row row (snd df))))"

definition append_rows :: "string \<Rightarrow> raw_row list \<Rightarrow> raw_database \<Rightarrow> raw_database" where
  "append_rows name rs d = d\<lparr>rd_rows := (rd_rows d)(name := rd_rows d name @ rs)\<rparr>"

definition load_table ::
  "(column_kind \<Rightarrow> sql_value \<Rightarrow> sql_value) \<Rightarrow> portable_scope \<Rightarrow> portable_table \<Rightarrow> raw_database \<Rightarrow> raw_database" where
  "load_table stored target t d = (case portable_table_named (pb_name t) of None \<Rightarrow> d
     | Some df \<Rightarrow> append_rows (pb_name t) (map (bundle_row stored target t df) (pb_rows t)) d)"

definition load_bundle ::
  "(column_kind \<Rightarrow> sql_value \<Rightarrow> sql_value) \<Rightarrow> portable_scope \<Rightarrow> portable_bundle \<Rightarrow> raw_database \<Rightarrow> raw_database" where
  "load_bundle stored target b d = fold (load_table stored target) (bu_tables b) d"

definition bundle_rows :: "portable_bundle \<Rightarrow> int" where
  "bundle_rows b = sum_list (map (\<lambda>t. int (length (pb_rows t))) (bu_tables b))"

lemma append_rows_append: "append_rows name (rs @ rs') d = append_rows name rs' (append_rows name rs d)"
  by (simp add: append_rows_def)

lemma append_rows_Nil: "append_rows name [] d = d"
  by (simp add: append_rows_def)

lemma raw_insert_Inr:
  assumes "raw_insert stored t vs w = (Inr u, w')"
  shows "db w' = append_rows (st_name t) [raw_value stored t vs] (db w)" "\<not> missing_value t (raw_value stored t vs)"
    "\<not> list_ex (raw_clash t (raw_value stored t vs)) (rd_rows (db w) (st_name t))"
  using assms by (auto simp: raw_insert_def append_rows_def Let_def dest!: exec_Inr split: if_splits)

lemma import_row_Inr:
  assumes "import_row stored target t df row w = (Inr u, w')" "t' \<in> set portable_tables" "pb_name t = fst t'" 
  shows "db w' = append_rows (pb_name t) [bundle_row stored target t df row] (db w)"
proof -
  from assms(1) obtain vs where vs: "decode_row row (snd df) = Some vs"
    by (cases "decode_row row (snd df)") (auto simp: import_row_def)
  from assms have "is_workspace_table (pb_name t)" using portable_shapeD by simp
  with assms(1) vs obtain i where i: "index_of ''workspace_id'' (pb_columns t) = Some i"
    by (cases "index_of ''workspace_id'' (pb_columns t)") (auto simp: import_row_def)
  with assms(1) vs \<open>is_workspace_table (pb_name t)\<close>
  have "raw_insert stored (physical_table (pb_name t))
      ((''workspace_id'', SqlText (px_workspace target)) # zip (delete_at i (pb_columns t)) (delete_at i vs)) w = (Inr u, w')"
    by (auto simp: import_row_def wrapping_Inr split: if_splits)
  from raw_insert_Inr(1) [OF this] vs i show ?thesis
    using physical_known(3) [OF assms(2)] assms(3) by (simp add: bundle_row_def row_bindings_def)
qed

lemma import_table_Inr:
  assumes "import_table stored target t n w = (Inr m, w')"
  shows "m = n + int (length (pb_rows t)) \<and> db w' = load_table stored target t (db w)"
proof -
  from assms obtain df where dfn: "portable_table_named (pb_name t) = Some df"
    and run: "fold_io (\<lambda>row n. bind_io (import_row stored target t df row) (\<lambda>_. ret (n + 1))) (pb_rows t) n w = (Inr m, w')"
    by (cases "portable_table_named (pb_name t)") (auto simp: import_table_def)
  from dfn have t': "df \<in> set portable_tables" "pb_name t = fst df"
    by (auto simp: portable_table_named_def find_Some_iff)
  have "m = n + int (length rows) \<and> db w' = append_rows (pb_name t) (map (bundle_row stored target t df) rows) (db w)"
    if "fold_io (\<lambda>row n. bind_io (import_row stored target t df row) (\<lambda>_. ret (n + 1))) rows n w = (Inr m, w')" for rows n w
    using that
  proof (induction rows arbitrary: n w)
    case Nil
    then show ?case by (simp add: append_rows_Nil)
  next
    case (Cons row rows)
    from Cons.prems obtain u w1 where row: "import_row stored target t df row w = (Inr u, w1)"
      and rest: "fold_io (\<lambda>row n. bind_io (import_row stored target t df row) (\<lambda>_. ret (n + 1))) rows (n + 1) w1 = (Inr m, w')"
      by (auto simp: bind_io_Inr)
    from import_row_Inr [OF row t'] have "db w1 = append_rows (pb_name t) [bundle_row stored target t df row] (db w)" .
    with Cons.IH [OF rest] show ?case by (simp flip: append_rows_append)
  qed
  from this [OF run] dfn show ?thesis by (simp add: load_table_def)
qed

lemma import_tables_Inr:
  "fold_io (import_table stored target) ts n w = (Inr m, w') \<Longrightarrow>
   m = n + sum_list (map (\<lambda>t. int (length (pb_rows t))) ts) \<and> db w' = fold (load_table stored target) ts (db w)"
proof (induction ts arbitrary: n w)
  case (Cons t ts)
  from Cons.prems obtain k w1 where t: "import_table stored target t n w = (Inr k, w1)"
    and rest: "fold_io (import_table stored target) ts k w1 = (Inr m, w')" by (auto simp: bind_io_Inr)
  from import_table_Inr [OF t] Cons.IH [OF rest] show ?case by simp
qed simp

section \<open>What an export gives\<close>

definition exported_tables :: "portable_scope \<Rightarrow> raw_database \<Rightarrow> portable_table list" where
  "exported_tables scope d = map (\<lambda>t. exported_table scope t d) portable_tables"

definition exported_bundle :: "portable_scope \<Rightarrow> string \<Rightarrow> raw_database \<Rightarrow> portable_bundle" where
  "exported_bundle scope mid d =
    (let b = \<lparr>bu_format = portable_format, bu_migration = mid, bu_source = scope, bu_tables = exported_tables scope d, bu_fingerprint = []\<rparr> in
     b\<lparr>bu_fingerprint := portable_fingerprint b\<rparr>)"

definition table_rows :: "portable_table list \<Rightarrow> int" where
  "table_rows ts = sum_list (map (\<lambda>t. int (length (pb_rows t))) ts)"

lemma export_table_Inr: "export_table scope t w = (Inr x, w') \<Longrightarrow> x = exported_table scope t (db w) \<and> db w' = db w"
  by (auto simp: export_table_def exported_table_def bind_io_Inr wrapping_Inr dest!: query_Inr)

lemma export_tables_Inr:
  "fold_io (\<lambda>t (tables, inventory). bind_io (export_table scope t) (\<lambda>table. ret (tables @ [table], count_table table inventory))) ts (acc, i) w = (Inr (out, j), w') \<Longrightarrow>
   db w' = db w \<and> out = acc @ map (\<lambda>t. exported_table scope t (db w)) ts \<and> iv_rows j = iv_rows i + table_rows (map (\<lambda>t. exported_table scope t (db w)) ts)"
proof (induction ts arbitrary: acc i w)
  case (Cons t ts)
  from Cons.prems obtain x w1 where t: "export_table scope t w = (Inr x, w1)"
    and rest: "fold_io (\<lambda>t (tables, inventory). bind_io (export_table scope t) (\<lambda>table. ret (tables @ [table], count_table table inventory))) ts (acc @ [x], count_table x i) w1 = (Inr (out, j), w')"
    by (auto simp: bind_io_Inr)
  from export_table_Inr [OF t] Cons.IH [OF rest] show ?case by (simp add: table_rows_def count_table_def)
qed (simp add: table_rows_def)

lemma export_portable_Inr:
  assumes "export_portable scope w = (Inr (b, iv), w')"
  shows "db w' = db w" "b = exported_bundle scope [] (db w)" "iv_rows iv = table_rows (exported_tables scope (db w))"
    "trim_space (px_workspace scope) \<noteq> [] \<and> trim_space (px_application scope) \<noteq> []"
proof -
  from assms obtain out j where
    run: "fold_io (\<lambda>t (tables, inventory). bind_io (export_table scope t) (\<lambda>table. ret (tables @ [table], count_table table inventory))) portable_tables ([], empty_inventory) w = (Inr (out, j), w')"
    and b: "b = (let bundle = \<lparr>bu_format = portable_format, bu_migration = [], bu_source = scope, bu_tables = out, bu_fingerprint = []\<rparr> in bundle\<lparr>bu_fingerprint := portable_fingerprint bundle\<rparr>)"
    and iv: "iv_rows iv = iv_rows j" and ok: "trim_space (px_workspace scope) \<noteq> [] \<and> trim_space (px_application scope) \<noteq> []"
    by (auto simp: export_portable_def bind_io_Inr guard_io_Inr Let_def split: prod.splits)
  from export_tables_Inr [OF run] show "db w' = db w" "b = exported_bundle scope [] (db w)" "iv_rows iv = table_rows (exported_tables scope (db w))"
    unfolding b iv by (simp_all add: exported_bundle_def exported_tables_def empty_inventory_def)
  show "trim_space (px_workspace scope) \<noteq> [] \<and> trim_space (px_application scope) \<noteq> []" by (rule ok)
qed

lemma preserves_export_table [preserves_intros]: "preserves P (export_table scope t)"
  unfolding export_table_def by (intro preserves_intros)

lemma preserves_export [preserves_intros]: "preserves P (export_portable scope)"
proof -
  have "preserves P ((\<lambda>t (tables, inventory). bind_io (export_table scope t) (\<lambda>table. ret (tables @ [table], count_table table inventory))) t s)" for t s
    by (cases s) (auto intro!: preserves_intros)
  then have "preserves P (fold_io (\<lambda>t (tables, inventory). bind_io (export_table scope t) (\<lambda>table. ret (tables @ [table], count_table table inventory))) portable_tables ([], empty_inventory))"
    by (rule preserves_fold)
  then show ?thesis unfolding export_portable_def Let_def by (intro preserves_intros)
qed

lemma export_db: "export_portable scope w = (r, w') \<Longrightarrow> db w' = db w"
  by (rule preservesD [where P = "\<lambda>d. d = db w", OF preserves_export refl])

lemma renamed_fingerprint:
  "portable_fingerprint ((exported_bundle scope mid d)\<lparr>bu_migration := mid'\<rparr>) = bu_fingerprint (exported_bundle scope mid' d)"
  by (simp add: exported_bundle_def portable_fingerprint_def Let_def)

section \<open>All or nothing\<close>

lemma import_tx_cases:
  assumes "transaction (bind_io (fold_io (import_table stored target) ts 0) (\<lambda>n. commit_with n)) w = (r, w')"
  shows "db w' = fold (load_table stored target) ts (db w) \<and> (r = Inr (table_rows ts) \<or> r = Inl DriverError) \<or> db w' = db w \<and> (\<exists>e. r = Inl e)"
proof -
  have "c \<and> (a = table_rows ts \<and> db v' = fold (load_table stored target) ts (db v))"
    if "bind_io (fold_io (import_table stored target) ts 0) (\<lambda>n. commit_with n) v = (Inr (c, a), v')" for v c a v'
    using that by (auto simp: bind_io_Inr table_rows_def dest!: import_tables_Inr)
  from transaction_commits [where R = "\<lambda>d a d'. a = table_rows ts \<and> d' = fold (load_table stored target) ts d", OF assms this]
  show ?thesis by auto
qed

definition target_empty :: "portable_scope \<Rightarrow> raw_database \<Rightarrow> bool" where
  "target_empty scope d \<longleftrightarrow> list_all (\<lambda>t. exported_rows scope t d = []) portable_tables"

lemma table_rows_zero: "table_rows (exported_tables scope d) > 0 \<longleftrightarrow> \<not> target_empty scope d"
proof -
  have "table_rows (map (\<lambda>t. exported_table scope t d) ts) \<ge> 0 \<and>
      (table_rows (map (\<lambda>t. exported_table scope t d) ts) = 0 \<longleftrightarrow> list_all (\<lambda>t. exported_rows scope t d = []) ts)" for ts
    by (induction ts) (auto simp: table_rows_def exported_table_def)
  from this [of portable_tables] show ?thesis unfolding exported_tables_def target_empty_def by linarith
qed

definition matches_bundle :: "portable_scope \<Rightarrow> portable_bundle \<Rightarrow> raw_database \<Rightarrow> bool" where
  "matches_bundle scope b d \<longleftrightarrow> bu_fingerprint (exported_bundle scope (bu_migration b) d) = bu_fingerprint b"

lemma reconcile_cases:
  assumes "reconcile_import target b n w = (r, w')"
  shows "db w' = db w \<and> (\<forall>rc. r = Inr rc \<longrightarrow> rc = receipt_of b n False \<and> matches_bundle target b (db w) \<and>
    table_rows (exported_tables target (db w)) = n)"
proof -
  have "preserves (\<lambda>d. d = db w) (reconcile_import target b n)"
    unfolding reconcile_import_def Let_def by (intro preserves_intros)
  from preservesD [OF this refl assms] have "db w' = db w" .
  moreover have "rc = receipt_of b n False \<and> matches_bundle target b (db w) \<and> table_rows (exported_tables target (db w)) = n" if "r = Inr rc" for rc
  proof -
    from assms that obtain imported found w1 where ex: "export_portable target w = (Inr (imported, found), w1)"
      and fin: "(if portable_fingerprint (imported\<lparr>bu_migration := bu_migration b\<rparr>) \<noteq> bu_fingerprint b \<or> iv_rows found \<noteq> n
        then fail (ErrorText ''notification portable import reconciliation failed'') else ret (receipt_of b n False)) w1 = (Inr rc, w')"
      by (auto simp: reconcile_import_def bind_io_Inr simp del: fail_eq ret_eq)
    from fin export_portable_Inr [OF ex] show ?thesis by (auto simp: matches_bundle_def renamed_fingerprint split: if_splits)
  qed
  ultimately show ?thesis by blast
qed

text \<open>What an import does: it leaves the rows alone, with the receipt of what is there already if it returns one, or it adds
  all of the bundle to a database without rows of the workspace; then it may still fail.\<close>

definition import_outcome ::
  "(column_kind \<Rightarrow> sql_value \<Rightarrow> sql_value) \<Rightarrow> portable_scope \<Rightarrow> portable_bundle \<Rightarrow> raw_database \<Rightarrow> raw_database \<Rightarrow> err + import_receipt \<Rightarrow> bool" where
  "import_outcome stored target b d d' r \<longleftrightarrow>
    (d' = d \<and> (\<forall>rc. r = Inr rc \<longrightarrow> rc = receipt_of b (table_rows (exported_tables target d)) True \<and> \<not> target_empty target d \<and> matches_bundle target b d)) \<or>
    (d' = load_bundle stored target b d \<and> target_empty target d \<and> validate_portable b target = None \<and>
      (\<forall>rc. r = Inr rc \<longrightarrow> rc = receipt_of b (table_rows (bu_tables b)) False \<and> matches_bundle target b d' \<and>
        table_rows (exported_tables target d') = table_rows (bu_tables b)))"

lemma import_outcome_error: "import_outcome stored target b d d (Inl e)"
  by (simp add: import_outcome_def)

lemma import_cases:
  assumes "import_portable stored target b w = (r, w')"
  shows "import_outcome stored target b (db w) (db w') r"
proof (cases "validate_portable b target")
  case (Some e)
  with assms show ?thesis by (auto simp: import_portable_def import_outcome_error)
next
  case valid: None
  obtain x w1 where ex: "export_portable target w = (x, w1)" by fastforce
  then have w1: "db w1 = db w" by (rule export_db)
  show ?thesis
  proof (cases x)
    case (Inl e)
    with assms valid ex w1 show ?thesis by (auto simp: import_portable_def bind_io_def import_outcome_error)
  next
    case (Inr p)
    obtain existing inventory where p: "p = (existing, inventory)" by fastforce
    note old = export_portable_Inr [OF ex [unfolded Inr p]]
    show ?thesis
    proof (cases "iv_rows inventory > 0")
      case True
      with assms valid ex Inr p have "(if portable_fingerprint (existing\<lparr>bu_migration := bu_migration b\<rparr>) \<noteq> bu_fingerprint b
          then fail (ErrorText ''notification portable import target is not empty and does not match the bundle'')
          else ret (receipt_of b (iv_rows inventory) True)) w1 = (r, w')"
        by (simp add: import_portable_def bind_io_def)
      with True w1 old(2,3) table_rows_zero [of target "db w"] show ?thesis
        by (auto simp: import_outcome_def matches_bundle_def renamed_fingerprint split: if_splits)
    next
      case False
      then have empty: "target_empty target (db w)" using old(3) table_rows_zero by metis
      from False assms valid ex Inr p have rest: "bind_io (transaction (bind_io (fold_io (import_table stored target) (bu_tables b) 0) (\<lambda>n. commit_with n)))
          (reconcile_import target b) w1 = (r, w')"
        by (simp add: import_portable_def bind_io_def)
      obtain y w2 where tx: "transaction (bind_io (fold_io (import_table stored target) (bu_tables b) 0) (\<lambda>n. commit_with n)) w1 = (y, w2)" by fastforce
      from import_tx_cases [OF tx] consider (same) e where "db w2 = db w" "y = Inl e"
        | (lost) "db w2 = load_bundle stored target b (db w)" "y = Inl DriverError"
        | (loaded) "db w2 = load_bundle stored target b (db w)" "y = Inr (table_rows (bu_tables b))"
        unfolding load_bundle_def w1 by blast
      then show ?thesis
      proof cases
        case same
        with rest tx show ?thesis by (auto simp: bind_io_def import_outcome_error)
      next
        case lost
        with rest tx have "r = Inl DriverError" "w' = w2" by (auto simp: bind_io_def)
        with lost empty valid show ?thesis by (simp add: import_outcome_def)
      next
        case loaded
        with rest tx have "reconcile_import target b (table_rows (bu_tables b)) w2 = (r, w')" by (simp add: bind_io_def)
        from reconcile_cases [OF this] loaded(1) empty valid show ?thesis by (simp add: import_outcome_def)
      qed
    qed
  qed
qed

section \<open>Repeated imports\<close>

lemma export_table_run: "outcomes w = [] \<Longrightarrow> export_table scope t w = (Inr (exported_table scope t (db w)), w)"
  by (simp add: export_table_def exported_table_def bind_io_def wrapping_def query_run)

lemma export_tables_run:
  "outcomes w = [] \<Longrightarrow> \<exists>j. fold_io (\<lambda>t (tables, inventory). bind_io (export_table scope t) (\<lambda>table. ret (tables @ [table], count_table table inventory))) ts (acc, i) w =
     (Inr (acc @ map (\<lambda>t. exported_table scope t (db w)) ts, j), w)"
proof (induction ts arbitrary: acc i)
  case (Cons t ts)
  let ?m = "bind_io (export_table scope t) (\<lambda>table. ret (acc @ [table], count_table table i))"
    and ?x = "exported_table scope t (db w)"
  have "?m w = (Inr (acc @ [?x], count_table ?x i), w)"
    using Cons.prems by (simp add: bind_io_def export_table_run ret_def)
  then have "bind_io ?m f w = f (acc @ [?x], count_table ?x i) w" for f :: "_ \<Rightarrow> (raw_database, portable_table list \<times> portable_inventory) statement"
    unfolding bind_io_def [of ?m] by (simp only: prod.case sum.case)
  with Cons.IH [OF Cons.prems, of "acc @ [?x]" "count_table ?x i"] show ?case by simp
qed (simp add: ret_def)

lemma export_run:
  assumes "outcomes w = []" "trim_space (px_workspace scope) \<noteq> []" "trim_space (px_application scope) \<noteq> []"
  obtains iv where "export_portable scope w = (Inr (exported_bundle scope [] (db w), iv), w)"
    "iv_rows iv = table_rows (exported_tables scope (db w))"
proof -
  obtain j where "fold_io (\<lambda>t (tables, inventory). bind_io (export_table scope t) (\<lambda>table. ret (tables @ [table], count_table table inventory))) portable_tables ([], empty_inventory) w =
     (Inr (exported_tables scope (db w), j), w)"
    using export_tables_run [OF assms(1), where acc = "[]" and i = empty_inventory and ts = portable_tables and scope = scope] by (auto simp: exported_tables_def)
  with assms(2,3) have "\<exists>iv. export_portable scope w = (Inr (exported_bundle scope [] (db w), iv), w)"
    by (simp add: export_portable_def guard_io_def bind_io_def Let_def exported_bundle_def ret_def)
  then obtain iv where iv: "export_portable scope w = (Inr (exported_bundle scope [] (db w), iv), w)" by blast
  from that [OF iv] export_portable_Inr(3) [OF iv] show thesis by blast
qed

lemma validated_scope:
  assumes "validate_portable b target = None"
  shows "bu_source b = target" "trim_space (px_workspace target) \<noteq> []" "trim_space (px_application target) \<noteq> []"
    "portable_fingerprint b = bu_fingerprint b" "tables_problem target 0 portable_tables (bu_tables b) = None" "length (bu_tables b) = length portable_tables"
  using assms by (auto simp: validate_portable_def split: if_splits option.splits)

lemma import_validated: "import_portable stored target b w = (Inr rc, w') \<Longrightarrow> validate_portable b target = None"
  by (cases "validate_portable b target") (auto simp: import_portable_def)

lemma import_present_run:
  assumes "validate_portable b target = None" "outcomes w = []" "\<not> target_empty target (db w)" "matches_bundle target b (db w)"
  shows "import_portable stored target b w = (Inr (receipt_of b (table_rows (exported_tables target (db w))) True), w)"
proof -
  obtain iv where ex: "export_portable target w = (Inr (exported_bundle target [] (db w), iv), w)"
    "iv_rows iv = table_rows (exported_tables target (db w))"
    using export_run [OF assms(2) validated_scope(2,3) [OF assms(1)]] by blast
  from assms(3) have "0 < iv_rows iv" using ex(2) table_rows_zero by metis
  with assms(1,4) ex show ?thesis
    by (simp add: import_portable_def bind_io_def renamed_fingerprint matches_bundle_def ret_def)
qed

section \<open>Accepted bundles\<close>

definition fine_row :: "portable_scope \<Rightarrow> string list \<Rightarrow> string list \<Rightarrow> bool" where
  "fine_row target columns row \<longleftrightarrow> length row = length columns \<and>
     (case index_of ''workspace_id'' columns of None \<Rightarrow> False | Some i \<Rightarrow> unmarshal_string (row ! i) = Some (px_workspace target))"

definition fine_table :: "portable_scope \<Rightarrow> table_definition \<Rightarrow> portable_table \<Rightarrow> bool" where
  "fine_table target df t \<longleftrightarrow> pb_name t = fst df \<and> pb_columns t = map fst (snd df) \<and> list_all (fine_row target (pb_columns t)) (pb_rows t)"

lemma row_problem_iff:
  "is_workspace_table (pb_name t) \<Longrightarrow> row_problem target t rows = None \<longleftrightarrow> list_all (fine_row target (pb_columns t)) rows"
  by (induction rows) (auto simp: fine_row_def foreign_row_def split: option.splits)

lemma table_problem_iff:
  assumes "df \<in> set portable_tables" shows "table_problem target i df t = None \<longleftrightarrow> fine_table target df t"
  using portable_shapeD(1) [OF assms] row_problem_iff [of t target "pb_rows t"] by (auto simp: table_problem_def fine_table_def)

lemma tables_problem_iff:
  "set ds \<subseteq> set portable_tables \<Longrightarrow> length ts = length ds \<Longrightarrow> tables_problem target i ds ts = None \<longleftrightarrow> list_all2 (fine_table target) ds ts"
proof (induction ds arbitrary: ts i)
  case (Cons df ds)
  then obtain t ts' where ts: "ts = t # ts'" by (cases ts) auto
  with Cons table_problem_iff [of df target i t] show ?case by (auto split: option.splits)
qed simp

lemma validate_iff:
  "validate_portable b target = None \<longleftrightarrow>
     bu_format b = portable_format \<and> bu_source b = target \<and> trim_space (px_workspace target) \<noteq> [] \<and> trim_space (px_application target) \<noteq> [] \<and>
     list_all2 (fine_table target) portable_tables (bu_tables b) \<and> bu_fingerprint b = portable_fingerprint b"
proof -
  have "tables_problem target 0 portable_tables (bu_tables b) = None \<and> length (bu_tables b) = length portable_tables \<longleftrightarrow>
      list_all2 (fine_table target) portable_tables (bu_tables b)"
    using tables_problem_iff [OF order_refl, of "bu_tables b" target 0] by (metis list_all2_lengthD)
  then show ?thesis
    by (cases "bu_source b"; cases target) (auto simp: validate_portable_def split: option.splits if_splits)
qed

text \<open>C33: Exactly the bundles of the format are accepted that name the scope they are imported for, have every table with
  its columns in the order of the schema and only rows of full width that name the workspace, and carry the fingerprint of
  their contents; the import of any other fails and leaves the database alone.\<close>

theorem accepted_bundles:
  "(validate_portable b target = None \<longleftrightarrow>
     bu_format b = portable_format \<and> bu_source b = target \<and> trim_space (px_workspace target) \<noteq> [] \<and> trim_space (px_application target) \<noteq> [] \<and>
     list_all2 (fine_table target) portable_tables (bu_tables b) \<and> bu_fingerprint b = portable_fingerprint b) \<and>
   (validate_portable b target = None \<or> (\<exists>e. import_portable stored target b w = (Inl e, w)))"
proof (rule conjI, rule validate_iff)
  show "validate_portable b target = None \<or> (\<exists>e. import_portable stored target b w = (Inl e, w))"
    by (cases "validate_portable b target") (simp_all add: import_portable_def fail_def)
qed

section \<open>Other workspaces\<close>

lemma workspace_kind:
  "list_all (\<lambda>t. case List.find (\<lambda>x. sc_name x = ''workspace_id'') (st_columns t) of Some x \<Rightarrow> sc_kind x = IdentifierColumn | None \<Rightarrow> False) portable_schema_tables"
  by code_simp

lemma bundle_row_workspace:
  assumes "df \<in> set portable_tables" "fine_table target df t" "stored IdentifierColumn (SqlText (px_workspace target)) = SqlText (px_workspace target)"
  shows "bundle_row stored target t df row ''workspace_id'' = SqlText (px_workspace target)"
proof -
  from assms(2) have t: "pb_name t = fst df" "pb_columns t = map fst (snd df)" by (simp_all add: fine_table_def)
  obtain i where "index_of ''workspace_id'' (pb_columns t) = Some i" using index_of_Some [OF portable_shapeD(2) [OF assms(1)]] t(2) by auto
  then have "map_of (row_bindings target t vs) ''workspace_id'' = Some (SqlText (px_workspace target))" for vs by (simp add: row_bindings_def)
  moreover obtain x where "List.find (\<lambda>x. sc_name x = ''workspace_id'') (st_columns (physical_table (fst df))) = Some x" "sc_kind x = IdentifierColumn"
    using workspace_kind physical_known(4) [OF assms(1)] by (auto simp: list_all_iff split: option.splits)
  ultimately show ?thesis using assms(3) t(1) by (simp add: bundle_row_def raw_value_def)
qed

definition grows :: "portable_scope \<Rightarrow> raw_database \<Rightarrow> raw_database \<Rightarrow> bool" where
  "grows target d d' \<longleftrightarrow> rd_controls d' = rd_controls d \<and>
     (\<forall>name. \<exists>rs. rd_rows d' name = rd_rows d name @ rs \<and> (\<forall>r \<in> set rs. r ''workspace_id'' = SqlText (px_workspace target)))"

lemma grows_refl: "grows target d d"
  by (simp add: grows_def)

lemma grows_trans:
  assumes "grows target a b" "grows target b c" shows "grows target a c"
  unfolding grows_def
proof (intro conjI allI)
  show "rd_controls c = rd_controls a" using assms by (simp add: grows_def)
  fix name
  from assms obtain rs rs' where "rd_rows b name = rd_rows a name @ rs" "rd_rows c name = rd_rows b name @ rs'"
    "\<forall>r \<in> set rs. r ''workspace_id'' = SqlText (px_workspace target)" "\<forall>r \<in> set rs'. r ''workspace_id'' = SqlText (px_workspace target)"
    unfolding grows_def by metis
  then show "\<exists>rs. rd_rows c name = rd_rows a name @ rs \<and> (\<forall>r \<in> set rs. r ''workspace_id'' = SqlText (px_workspace target))"
    by (intro exI [of _ "rs @ rs'"]) auto
qed

lemma load_table_grows:
  assumes "df \<in> set portable_tables" "fine_table target df t" "stored IdentifierColumn (SqlText (px_workspace target)) = SqlText (px_workspace target)"
  shows "grows target d (load_table stored target t d)"
proof -
  have "portable_table_named (pb_name t) = Some df" using portable_table_named_known [OF assms(1)] assms(2) by (simp add: fine_table_def)
  with bundle_row_workspace [of df target t stored, OF assms] show ?thesis by (simp add: grows_def load_table_def append_rows_def)
qed

lemma load_tables_grow:
  assumes "stored IdentifierColumn (SqlText (px_workspace target)) = SqlText (px_workspace target)"
  shows "set ds \<subseteq> set portable_tables \<Longrightarrow> list_all2 (fine_table target) ds ts \<Longrightarrow> grows target d (fold (load_table stored target) ts d)"
proof (induction ds arbitrary: ts d)
  case (Cons df ds)
  then obtain t ts' where ts: "ts = t # ts'" "fine_table target df t" "list_all2 (fine_table target) ds ts'" by (auto simp: list_all2_Cons1)
  with Cons load_table_grows [of df target t stored d, OF _ _ assms] show ?case by (auto intro: grows_trans)
qed (simp add: grows_refl)

section \<open>Cells\<close>

definition value_fits :: "portable_kind \<Rightarrow> sql_value \<Rightarrow> bool" where
  "value_fits k v = (case v of SqlNull \<Rightarrow> True | SqlInt n \<Rightarrow> k = PortableInteger \<and> - (2 ^ 63) \<le> n \<and> n < 2 ^ 63
     | SqlText s \<Rightarrow> k = PortableText \<and> valid_utf8 s | SqlBool b \<Rightarrow> k = PortableBoolean)"

lemma show_nat_digits: "list_all is_digit (show_nat n) \<and> number_of acc (show_nat n) = acc * 10 ^ length (show_nat n) + int n"
proof (induction n arbitrary: acc rule: show_nat.induct)
  case (1 n)
  show ?case
  proof (cases "n < 10")
    case True
    then show ?thesis by (subst (1 2 3) show_nat.simps) simp
  next
    case False
    with 1 [OF False, of acc] have "number_of acc (show_nat (n div 10)) = acc * 10 ^ length (show_nat (n div 10)) + int (n div 10)"
      "list_all is_digit (show_nat (n div 10))" by blast+
    moreover have "show_nat n = show_nat (n div 10) @ [char_of (48 + n mod 10)]" using False by (subst show_nat.simps) simp
    moreover have "int n = 10 * int (n div 10) + int (n mod 10)" by presburger
    ultimately show ?thesis by (simp add: number_of_append algebra_simps)
  qed
qed

lemma char_zero: "char_of (48 :: nat) = CHR ''0''"
  by code_simp

lemma show_nat_first: "hd (show_nat n) = CHR ''0'' \<longleftrightarrow> n = 0"
proof (induction n rule: show_nat.induct)
  case (1 n)
  show ?case
  proof (cases "n < 10")
    case True
    have "n = 0" if "char_of (48 + n) = CHR ''0''"
      using arg_cong [OF that, of digit_val] digit_val_char [OF True] by (simp add: digit_val_def)
    then have "(char_of (48 + n) = CHR ''0'') = (n = 0)" using char_zero by auto
    with True show ?thesis by (subst show_nat.simps) simp
  next
    case False
    then have "show_nat n = show_nat (n div 10) @ [char_of (48 + n mod 10)]" by (subst show_nat.simps) simp
    with 1 [OF False] False show ?thesis by simp
  qed
qed

lemma unsigned_show_nat: "unsigned_digits (show_nat n)"
proof -
  have "tl (show_nat 0) = []" by (subst show_nat.simps) simp
  then show ?thesis using show_nat_digits [of n 0] show_nat_first [of n] by (auto simp: unsigned_digits_def)
qed

lemma json_integer_show: "- (2 ^ 63) \<le> n \<Longrightarrow> n < 2 ^ 63 \<Longrightarrow> json_integer (show_int n) = Some n"
proof -
  assume n: "- (2 ^ 63) \<le> n" "n < 2 ^ 63"
  show ?thesis
  proof (cases "n < 0")
    case True
    with n show ?thesis using show_nat_digits [of "nat (- n)" 0] unsigned_show_nat [of "nat (- n)"]
      by (simp add: json_integer_def show_int_def)
  next
    case False
    have "hd (show_nat (nat n)) \<noteq> CHR ''-''" using show_nat_digits [of "nat n" 0] by (cases "show_nat (nat n)") (auto simp: is_digit_def)
    then have "take 1 (show_nat (nat n)) \<noteq> ''-''" by (cases "show_nat (nat n)") auto
    with False n show ?thesis using show_nat_digits [of "nat n" 0] unsigned_show_nat [of "nat n"]
      by (simp add: json_integer_def show_int_def)
  qed
qed

lemma show_int_not_null: "show_int n \<noteq> ''null''"
  using show_nat_digits [of "nat n" 0] by (cases "show_nat (nat n)") (auto simp: show_int_def is_digit_def)

lemma decode_cell:
  assumes "value_fits k v" shows "decode_portable_cell (cell_json v) k = Some v"
proof (cases v)
  case (SqlText s)
  have "json_string s \<noteq> ''null''" by (simp add: json_string_def)
  with SqlText assms json_text_string [of s "[]"] show ?thesis
    by (simp add: value_fits_def unmarshal_string_def json_string_value_def skip_space_def)
qed (use assms in \<open>auto simp: value_fits_def unmarshal_int_def unmarshal_bool_def json_integer_show show_int_not_null\<close>)

end
