(* ===== verification/Portable_Transfer.thy ===== *)
theory Portable_Transfer
  imports Portable_Rules "HOL-Library.Multiset"
begin

text \<open>
  Moving a workspace: what one database exports, an engine that hands out what it was given imports, whatever other
  workspaces the target holds, and the target then exports the same bundle.
\<close>

section \<open>Lists\<close>

lemma insort_key_map: "insort_key k (f x) (map f xs) = map f (insort_key (\<lambda>y. k (f y)) x xs)"
  by (induction xs) auto

lemma sort_key_map: "sort_key k (map f xs) = map f (sort_key (\<lambda>y. k (f y)) xs)"
  by (induction xs) (simp_all add: insort_key_map)

text \<open>A symmetric relation between all elements does not depend on their order.\<close>

lemma sorted_wrt_insort:
  assumes "\<And>a b. P a b = P b a"
  shows "sorted_wrt P (insort_key k x xs) = sorted_wrt P (x # xs)"
proof (induction xs)
  case (Cons y ys)
  then show ?case using assms [of x y] by (auto simp: set_insort_key)
qed simp

lemma sorted_wrt_sort:
  assumes "\<And>a b. P a b = P b a"
  shows "sorted_wrt P (sort_key k xs) = sorted_wrt P xs"
  by (induction xs) (simp_all add: sorted_wrt_insort [OF assms])

lemma map_of_zip_map: "map_of (zip xs (map f xs)) x = (if x \<in> set xs then Some (f x) else None)"
  by (induction xs) auto

lemma zip_maps: "zip (map f xs) (map g xs) = map (\<lambda>x. (f x, g x)) xs"
  by (induction xs) auto

lemma index_of_nth: "index_of x xs = Some i \<Longrightarrow> i < length xs \<and> xs ! i = x"
  by (induction xs arbitrary: i) (auto split: if_splits)

lemma delete_at_map: "delete_at i (map f xs) = map f (delete_at i xs)"
  by (induction i xs rule: delete_at.induct) auto

lemma set_delete_at: "index_of x xs = Some i \<Longrightarrow> set xs \<subseteq> insert x (set (delete_at i xs))"
proof (induction xs arbitrary: i)
  case (Cons y ys)
  show ?case
  proof (cases "y = x")
    case True
    with Cons.prems show ?thesis by auto
  next
    case False
    with Cons.prems obtain j where "index_of x ys = Some j" "i = Suc j" by auto
    with Cons.IH show ?thesis by auto
  qed
qed simp

section \<open>Rows\<close>

text \<open>The rows of a table an engine can carry over: of the workspace, each value of the kind of its column and handed out
  as it was given, no value missing, and no two rows with a key in common.\<close>

definition workspace_rows :: "portable_scope \<Rightarrow> string \<Rightarrow> raw_database \<Rightarrow> raw_row list" where
  "workspace_rows scope name d = filter (\<lambda>r. r ''workspace_id'' = SqlText (px_workspace scope)) (rd_rows d name)"

definition carried :: "(column_kind \<Rightarrow> sql_value \<Rightarrow> sql_value) \<Rightarrow> schema_table \<Rightarrow> raw_row \<Rightarrow> bool" where
  "carried stored s r \<longleftrightarrow> \<not> missing_value s r \<and> (\<forall>x \<in> set (st_columns s).
     value_fits (portable_kind_of (sc_kind x)) (r (sc_name x)) \<and> stored (sc_kind x) (r (sc_name x)) = r (sc_name x))"

definition agree :: "string list \<Rightarrow> raw_row \<Rightarrow> raw_row \<Rightarrow> bool" where
  "agree cs r r' \<longleftrightarrow> (\<forall>c \<in> set cs. r c = r' c)"

definition row_cells :: "table_definition \<Rightarrow> raw_row \<Rightarrow> string list" where
  "row_cells t r = map (\<lambda>c. cell_json (r c)) (map fst (snd t))"

lemma exported_rows_known:
  "t \<in> set portable_tables \<Longrightarrow> exported_rows scope t d = map (row_cells t) (workspace_rows scope (fst t) d)"
  using portable_shapeD(1) [of t] by (simp add: exported_rows_def workspace_rows_def row_cells_def)

lemma decode_row_cells:
  "list_all (\<lambda>c. value_fits (snd c) (r (fst c))) cs \<Longrightarrow> decode_row (map (\<lambda>c. cell_json (r c)) (map fst cs)) cs = Some (map r (map fst cs))"
  by (induction cs) (auto simp: decode_cell simp del: decode_portable_cell.simps)

lemma physical_column:
  assumes "t \<in> set portable_tables" "c \<in> set (map fst (snd t))"
  obtains x where "x \<in> set (st_columns (physical_table (fst t)))" "sc_name x = c"
    "List.find (\<lambda>x. sc_name x = c) (st_columns (physical_table (fst t))) = Some x"
proof -
  from assms(2) physical_known(1) [OF assms(1)] obtain x where x: "x \<in> set (st_columns (physical_table (fst t)))" "sc_name x = c"
    by (metis (no_types, lifting) imageE list.set_map)
  have "distinct (map sc_name (st_columns (physical_table (fst t))))"
    using physical_known(1) [OF assms(1)] portable_shapeD(3) [OF assms(1)] by simp
  from find_key_unique [OF this x(1)] x that show thesis by simp
qed

lemma carried_fits:
  assumes "t \<in> set portable_tables" "carried stored (physical_table (fst t)) r"
  shows "list_all (\<lambda>c. value_fits (snd c) (r (fst c))) (snd t)"
proof -
  let ?cs = "st_columns (physical_table (fst t))"
  have "snd t = zip (map fst (snd t)) (map snd (snd t))" by (simp add: zip_map_fst_snd)
  also have "\<dots> = map (\<lambda>x. (sc_name x, portable_kind_of (sc_kind x))) ?cs"
    unfolding physical_known(1,2) [OF assms(1), symmetric] by (rule zip_maps)
  finally have "snd t = map (\<lambda>x. (sc_name x, portable_kind_of (sc_kind x))) ?cs" .
  with assms(2) show ?thesis by (simp add: list_all_iff carried_def)
qed

lemma decode_carried:
  assumes "t \<in> set portable_tables" "carried stored (physical_table (fst t)) r"
  shows "decode_row (row_cells t r) (snd t) = Some (map r (map fst (snd t)))"
  unfolding row_cells_def by (rule decode_row_cells [OF carried_fits [OF assms]])

text \<open>The row an import makes of an exported row has the same values.\<close>

lemma bundle_row_agrees:
  assumes "t \<in> set portable_tables" "pb_name p = fst t" "pb_columns p = map fst (snd t)"
    and "carried stored (physical_table (fst t)) r" "r ''workspace_id'' = SqlText (px_workspace target)"
  shows "agree (map fst (snd t)) (bundle_row stored target p t (row_cells t r)) r"
  unfolding agree_def
proof
  let ?cols = "map fst (snd t)" and ?s = "physical_table (fst t)"
  fix c assume c: "c \<in> set ?cols"
  obtain i where i: "index_of ''workspace_id'' ?cols = Some i" using index_of_Some [OF portable_shapeD(2) [OF assms(1)]] ..
  have vs: "decode_row (row_cells t r) (snd t) = Some (map r ?cols)" by (rule decode_carried [OF assms(1,4)])
  have "map_of (row_bindings target p (map r ?cols)) c = Some (r c)"
    using set_delete_at [OF i] c assms(3,5) i by (auto simp: row_bindings_def delete_at_map map_of_zip_map simp del: map_map)
  note bound = this
  have row: "bundle_row stored target p t (row_cells t r) = raw_value stored ?s (row_bindings target p (map r ?cols))"
    unfolding bundle_row_def vs assms(2) by simp
  obtain x where x: "x \<in> set (st_columns ?s)" "sc_name x = c" "List.find (\<lambda>x. sc_name x = c) (st_columns ?s) = Some x"
    by (rule physical_column [OF assms(1) c])
  with assms(4) have "stored (sc_kind x) (r c) = r c" by (auto simp: carried_def)
  then show "bundle_row stored target p t (row_cells t r) c = r c"
    unfolding row raw_value_def x(3) option.case bound .
qed

lemma agree_keys:
  assumes "t \<in> set portable_tables" "agree (map fst (snd t)) a a'" "agree (map fst (snd t)) b b'"
  shows "raw_clash (physical_table (fst t)) a b = raw_clash (physical_table (fst t)) a' b'"
proof -
  have "map a key = map a' key \<and> map b key = map b' key" if "key \<in> set (unique_keys_of (physical_table (fst t)))" for key
    using physical_keys [OF assms(1) that] assms(2,3) unfolding agree_def by (auto simp: subset_iff)
  then show ?thesis unfolding raw_clash_def list_ex_iff by metis
qed

lemma agree_missing:
  assumes "t \<in> set portable_tables" "agree (map fst (snd t)) a a'"
  shows "missing_value (physical_table (fst t)) a = missing_value (physical_table (fst t)) a'"
proof -
  have "a (sc_name x) = a' (sc_name x)" if "x \<in> set (st_columns (physical_table (fst t)))" for x
  proof -
    have "sc_name x \<in> set (map fst (snd t))" using that physical_known(1) [OF assms(1)] by (metis imageI list.set_map)
    with assms(2) show ?thesis unfolding agree_def by blast
  qed
  then show ?thesis unfolding missing_value_def list_ex_iff by metis
qed

lemma agree_cells: "agree (map fst (snd t)) a b \<Longrightarrow> row_cells t a = row_cells t b"
  by (auto simp: agree_def row_cells_def)

section \<open>Inserting them\<close>

lemma raw_clash_sym: "raw_clash s a b = raw_clash s b a"
  unfolding raw_clash_def by (rule arg_cong [where f = "\<lambda>P. list_ex P _"]) auto

lemma agree_refl: "agree cs r r"
  by (simp add: agree_def)

lemma raw_insert_run:
  assumes "outcomes w = []" "\<not> missing_value s (raw_value stored s vs)" "\<not> list_ex (raw_clash s (raw_value stored s vs)) (rd_rows (db w) (st_name s))"
  shows "raw_insert stored s vs w = (Inr (), w\<lparr>db := append_rows (st_name s) [raw_value stored s vs] (db w)\<rparr>)"
  using assms by (simp add: raw_insert_def exec_run Let_def append_rows_def)

text \<open>A table of a bundle, as the import sees it.\<close>

definition bundle_table :: "table_definition \<Rightarrow> raw_row list \<Rightarrow> portable_table" where
  "bundle_table t rs = \<lparr>pb_name = fst t, pb_columns = map fst (snd t), pb_rows = map (row_cells t) rs\<rparr>"

lemma bundle_table_simps [simp]:
  "pb_name (bundle_table t rs) = fst t" "pb_columns (bundle_table t rs) = map fst (snd t)" "pb_rows (bundle_table t rs) = map (row_cells t) rs"
  by (simp_all add: bundle_table_def)

definition new_row :: "(column_kind \<Rightarrow> sql_value \<Rightarrow> sql_value) \<Rightarrow> portable_scope \<Rightarrow> table_definition \<Rightarrow> raw_row \<Rightarrow> raw_row" where
  "new_row stored target t r = raw_value stored (physical_table (fst t)) (row_bindings target (bundle_table t []) (map r (map fst (snd t))))"

definition transferable :: "(column_kind \<Rightarrow> sql_value \<Rightarrow> sql_value) \<Rightarrow> portable_scope \<Rightarrow> table_definition \<Rightarrow> raw_row \<Rightarrow> bool" where
  "transferable stored target t r \<longleftrightarrow> carried stored (physical_table (fst t)) r \<and> r ''workspace_id'' = SqlText (px_workspace target)"

lemma new_row_eq:
  assumes "t \<in> set portable_tables" "transferable stored target t r" 
  shows "bundle_row stored target (bundle_table t rs) t (row_cells t r) = new_row stored target t r"
proof -
  have vs: "decode_row (row_cells t r) (snd t) = Some (map r (map fst (snd t)))"
    using decode_carried [OF assms(1)] assms(2) unfolding transferable_def by blast
  show ?thesis unfolding bundle_row_def new_row_def row_bindings_def bundle_table_simps vs option.sel ..
qed

lemma new_row_agrees:
  assumes "t \<in> set portable_tables" "transferable stored target t r"
  shows "agree (map fst (snd t)) (new_row stored target t r) r"
  using bundle_row_agrees [OF assms(1), of "bundle_table t []" stored r target] assms(2) new_row_eq [OF assms]
  by (simp add: transferable_def)

lemma import_row_run:
  assumes t: "t \<in> set portable_tables" and r: "transferable stored target t r" and ws: "trim_space (px_workspace target) = px_workspace target"
    and w: "outcomes w = []" and free: "\<not> list_ex (raw_clash (physical_table (fst t)) r) (rd_rows (db w) (fst t))"
  shows "import_row stored target (bundle_table t rs) t (row_cells t r) w = (Inr (), w\<lparr>db := append_rows (fst t) [new_row stored target t r] (db w)\<rparr>)"
proof -
  let ?s = "physical_table (fst t)" and ?cols = "map fst (snd t)"
  obtain i where i: "index_of ''workspace_id'' ?cols = Some i" using index_of_Some [OF portable_shapeD(2) [OF t]] ..
  have vs: "decode_row (row_cells t r) (snd t) = Some (map r ?cols)"
    using decode_carried [OF t] r unfolding transferable_def by blast
  from index_of_nth [OF i] r have own: "map r ?cols ! i = SqlText (px_workspace target)"
    unfolding transferable_def by (metis nth_map)
  have new: "raw_value stored ?s (row_bindings target (bundle_table t rs) (map r ?cols)) = new_row stored target t r"
    unfolding new_row_def row_bindings_def bundle_table_simps ..
  have agree: "agree ?cols (new_row stored target t r) r" by (rule new_row_agrees [OF t r])
  have "\<not> missing_value ?s (new_row stored target t r)"
    using agree_missing [OF t agree] r by (simp add: transferable_def carried_def)
  moreover have "\<not> list_ex (raw_clash ?s (new_row stored target t r)) (rd_rows (db w) (fst t))"
    using free agree_keys [OF t agree agree_refl] by (simp add: list_ex_iff)
  ultimately have ins: "raw_insert stored ?s (row_bindings target (bundle_table t rs) (map r ?cols)) w =
      (Inr (), w\<lparr>db := append_rows (fst t) [new_row stored target t r] (db w)\<rparr>)"
    using raw_insert_run [OF w, of ?s stored "row_bindings target (bundle_table t rs) (map r ?cols)"]
    unfolding new physical_known(3) [OF t] by blast
  have "row_bindings target (bundle_table t rs) (map r ?cols) = (''workspace_id'', SqlText (px_workspace target)) # zip (delete_at i ?cols) (delete_at i (map r ?cols))"
    using i unfolding row_bindings_def bundle_table_simps by simp
  with ins own ws show ?thesis
    unfolding import_row_def vs bundle_table_simps i using portable_shapeD(1) [OF t] by (simp add: wrapping_def del: map_map)
qed

lemma import_rows_run:
  assumes t: "t \<in> set portable_tables" and ws: "trim_space (px_workspace target) = px_workspace target"
  shows "list_all (transferable stored target t) rs \<Longrightarrow> sorted_wrt (\<lambda>a b. \<not> raw_clash (physical_table (fst t)) a b) rs \<Longrightarrow>
    list_all (\<lambda>r. \<not> list_ex (raw_clash (physical_table (fst t)) r) (rd_rows (db w) (fst t))) rs \<Longrightarrow> outcomes w = [] \<Longrightarrow>
    fold_io (\<lambda>row n. bind_io (import_row stored target (bundle_table t all) t row) (\<lambda>_. ret (n + 1))) (map (row_cells t) rs) n w =
      (Inr (n + int (length rs)), w\<lparr>db := append_rows (fst t) (map (new_row stored target t) rs) (db w)\<rparr>)"
proof (induction rs arbitrary: n w)
  case Nil
  then show ?case by (simp add: ret_def append_rows_Nil)
next
  case (Cons r rs)
  let ?w = "w\<lparr>db := append_rows (fst t) [new_row stored target t r] (db w)\<rparr>" and ?s = "physical_table (fst t)"
  from Cons.prems have r: "transferable stored target t r" and rest: "list_all (transferable stored target t) rs"
    "sorted_wrt (\<lambda>a b. \<not> raw_clash ?s a b) rs" by auto
  have row: "import_row stored target (bundle_table t all) t (row_cells t r) w = (Inr (), ?w)"
    using Cons.prems by (intro import_row_run [OF t r ws]) auto
  have "raw_clash ?s x (new_row stored target t r) = raw_clash ?s r x" for x
    using agree_keys [OF t agree_refl new_row_agrees [OF t r]] raw_clash_sym by metis
  with Cons.prems(2,3) have free: "list_all (\<lambda>r. \<not> list_ex (raw_clash ?s r) (rd_rows (db ?w) (fst t))) rs"
    by (auto simp: list_all_iff append_rows_def)
  show ?case
    using Cons.IH [OF rest free, of "n + 1"] Cons.prems(4) by (simp add: bind_io_def row ret_def append_rows_def)
qed

lemma import_table_run:
  assumes "t \<in> set portable_tables" "trim_space (px_workspace target) = px_workspace target" "list_all (transferable stored target t) rs"
    "sorted_wrt (\<lambda>a b. \<not> raw_clash (physical_table (fst t)) a b) rs"
    "list_all (\<lambda>r. \<not> list_ex (raw_clash (physical_table (fst t)) r) (rd_rows (db w) (fst t))) rs" "outcomes w = []"
  shows "import_table stored target (bundle_table t rs) n w =
    (Inr (n + int (length rs)), w\<lparr>db := append_rows (fst t) (map (new_row stored target t) rs) (db w)\<rparr>)"
  using import_rows_run [OF assms, of rs n] portable_table_named_known [OF assms(1)] by (simp add: import_table_def)

definition fill :: "(column_kind \<Rightarrow> sql_value \<Rightarrow> sql_value) \<Rightarrow> portable_scope \<Rightarrow> (table_definition \<Rightarrow> raw_row list) \<Rightarrow> table_definition list \<Rightarrow> raw_database \<Rightarrow> raw_database" where
  "fill stored target R ts d = fold (\<lambda>t. append_rows (fst t) (map (new_row stored target t) (R t))) ts d"

lemma fill_other: "name \<notin> set (map fst ts) \<Longrightarrow> rd_rows (fill stored target R ts d) name = rd_rows d name"
  by (induction ts arbitrary: d) (auto simp: fill_def append_rows_def)

lemma fill_controls: "rd_controls (fill stored target R ts d) = rd_controls d"
  by (induction ts arbitrary: d) (auto simp: fill_def append_rows_def)

lemma fill_rows:
  "distinct (map fst ts) \<Longrightarrow> t \<in> set ts \<Longrightarrow> rd_rows (fill stored target R ts d) (fst t) = rd_rows d (fst t) @ map (new_row stored target t) (R t)"
proof (induction ts arbitrary: d)
  case (Cons x xs)
  have step: "fill stored target R (x # xs) d = fill stored target R xs (append_rows (fst x) (map (new_row stored target x) (R x)) d)" by (simp add: fill_def)
  show ?case
  proof (cases "t = x")
    case True
    with Cons.prems(1) have "fst t \<notin> set (map fst xs)" by auto
    from fill_other [OF this] True show ?thesis unfolding step by (simp add: append_rows_def)
  next
    case False
    with Cons.prems have xs: "t \<in> set xs" "distinct (map fst xs)" by simp_all
    then have "fst t \<in> set (map fst xs)" by simp
    with Cons.prems(1) have "fst t \<noteq> fst x" by (metis distinct.simps(2) list.map(2))
    with xs Cons.IH show ?thesis unfolding step by (simp add: append_rows_def)
  qed
qed simp

lemma import_tables_run:
  assumes "trim_space (px_workspace target) = px_workspace target"
  shows "set ts \<subseteq> set portable_tables \<Longrightarrow> distinct (map fst ts) \<Longrightarrow> outcomes w = [] \<Longrightarrow>
    (\<And>t. t \<in> set ts \<Longrightarrow> list_all (transferable stored target t) (R t) \<and> sorted_wrt (\<lambda>a b. \<not> raw_clash (physical_table (fst t)) a b) (R t) \<and>
      list_all (\<lambda>r. \<not> list_ex (raw_clash (physical_table (fst t)) r) (rd_rows (db w) (fst t))) (R t)) \<Longrightarrow>
    fold_io (import_table stored target) (map (\<lambda>t. bundle_table t (R t)) ts) n w =
      (Inr (n + table_rows (map (\<lambda>t. bundle_table t (R t)) ts)), w\<lparr>db := fill stored target R ts (db w)\<rparr>)"
proof (induction ts arbitrary: n w)
  case Nil
  then show ?case by (simp add: ret_def fill_def table_rows_def)
next
  case (Cons t ts)
  let ?w = "w\<lparr>db := append_rows (fst t) (map (new_row stored target t) (R t)) (db w)\<rparr>"
  have t: "t \<in> set portable_tables" using Cons.prems(1) by simp
  have row: "import_table stored target (bundle_table t (R t)) n w = (Inr (n + int (length (R t))), ?w)"
    using Cons.prems(4) [of t] Cons.prems(3) by (intro import_table_run [OF t assms]) auto
  have others: "rd_rows (db ?w) (fst x) = rd_rows (db w) (fst x)" if "x \<in> set ts" for x
    using that Cons.prems(2) by (auto simp: append_rows_def image_iff)
  have "fold_io (import_table stored target) (map (\<lambda>t. bundle_table t (R t)) ts) (n + int (length (R t))) ?w =
      (Inr (n + int (length (R t)) + table_rows (map (\<lambda>t. bundle_table t (R t)) ts)), ?w\<lparr>db := fill stored target R ts (db ?w)\<rparr>)"
  proof (rule Cons.IH)
    show "list_all (transferable stored target x) (R x) \<and> sorted_wrt (\<lambda>a b. \<not> raw_clash (physical_table (fst x)) a b) (R x) \<and>
      list_all (\<lambda>r. \<not> list_ex (raw_clash (physical_table (fst x)) r) (rd_rows (db ?w) (fst x))) (R x)" if "x \<in> set ts" for x
      using Cons.prems(4) [of x] that unfolding others [OF that] by simp
  qed (use Cons.prems(1-3) in auto)
  then show ?case by (simp add: bind_io_def row fill_def table_rows_def)
qed

lemma transaction_run:
  assumes "m w = (Inr (True, a), w2)" "outcomes w = []" "outcomes w2 = []"
  shows "transaction m w = (Inr a, w2)"
  using assms by (simp add: transaction_def begin_tx_def bind_io_def query_run in_tx_def)

section \<open>The bundle of a workspace\<close>

definition bundle_order :: "portable_scope \<Rightarrow> raw_database \<Rightarrow> table_definition \<Rightarrow> raw_row list" where
  "bundle_order scope d t = sort_key (\<lambda>r. portable_row_key (row_cells t r)) (workspace_rows scope (fst t) d)"

lemma exported_table_rows:
  assumes "t \<in> set portable_tables"
  shows "exported_table scope t d = bundle_table t (bundle_order scope d t)"
  by (simp add: exported_table_def bundle_table_def exported_rows_known [OF assms] bundle_order_def sort_key_map)

definition movable :: "(column_kind \<Rightarrow> sql_value \<Rightarrow> sql_value) \<Rightarrow> portable_scope \<Rightarrow> raw_database \<Rightarrow> raw_database \<Rightarrow> bool" where
  "movable stored scope d e \<longleftrightarrow> (\<forall>t \<in> set portable_tables.
     (\<forall>r \<in> set (workspace_rows scope (fst t) d). carried stored (physical_table (fst t)) r \<and>
       (\<forall>x \<in> set (rd_rows e (fst t)). \<not> raw_clash (physical_table (fst t)) r x)) \<and>
     sorted_wrt (\<lambda>a b. \<not> raw_clash (physical_table (fst t)) a b) (workspace_rows scope (fst t) d))"

lemma movable_rows:
  assumes "movable stored scope d e" "t \<in> set portable_tables"
  shows "list_all (transferable stored scope t) (bundle_order scope d t)"
    "sorted_wrt (\<lambda>a b. \<not> raw_clash (physical_table (fst t)) a b) (bundle_order scope d t)"
    "list_all (\<lambda>r. \<not> list_ex (raw_clash (physical_table (fst t)) r) (rd_rows e (fst t))) (bundle_order scope d t)"
proof -
  from assms have rows: "\<And>r. r \<in> set (workspace_rows scope (fst t) d) \<Longrightarrow> carried stored (physical_table (fst t)) r \<and>
       (\<forall>x \<in> set (rd_rows e (fst t)). \<not> raw_clash (physical_table (fst t)) r x)"
    and key: "sorted_wrt (\<lambda>a b. \<not> raw_clash (physical_table (fst t)) a b) (workspace_rows scope (fst t) d)"
    unfolding movable_def by blast+
  show "list_all (transferable stored scope t) (bundle_order scope d t)"
    using rows by (auto simp: list_all_iff bundle_order_def transferable_def workspace_rows_def)
  show "sorted_wrt (\<lambda>a b. \<not> raw_clash (physical_table (fst t)) a b) (bundle_order scope d t)"
    unfolding bundle_order_def by (subst sorted_wrt_sort) (use raw_clash_sym key in auto)
  show "list_all (\<lambda>r. \<not> list_ex (raw_clash (physical_table (fst t)) r) (rd_rows e (fst t))) (bundle_order scope d t)"
    using rows by (auto simp: list_all_iff list_ex_iff bundle_order_def)
qed

lemma new_row_cells:
  assumes "t \<in> set portable_tables" "transferable stored scope t r"
  shows "row_cells t (new_row stored scope t r) = row_cells t r" "new_row stored scope t r ''workspace_id'' = SqlText (px_workspace scope)"
    "map (new_row stored scope t r) (map fst (snd t)) = map r (map fst (snd t))"
proof -
  from new_row_agrees [OF assms] have agree: "agree (map fst (snd t)) (new_row stored scope t r) r" .
  then show "row_cells t (new_row stored scope t r) = row_cells t r" by (rule agree_cells)
  from agree portable_shapeD(2) [OF assms(1)] have "new_row stored scope t r ''workspace_id'' = r ''workspace_id''" unfolding agree_def by blast
  with assms(2) show "new_row stored scope t r ''workspace_id'' = SqlText (px_workspace scope)" by (simp add: transferable_def)
  from agree show "map (new_row stored scope t r) (map fst (snd t)) = map r (map fst (snd t))" unfolding agree_def by (intro map_cong refl) blast
qed

text \<open>After the tables are filled the workspace has the rows of the source, and exports what the source exports.\<close>

lemma filled_rows:
  assumes t: "t \<in> set portable_tables" and mv: "movable stored scope d e" and empty: "target_empty scope e"
  shows "workspace_rows scope (fst t) (fill stored scope (bundle_order scope d) portable_tables e) = map (new_row stored scope t) (bundle_order scope d t)"
proof -
  from empty t exported_rows_known [OF t, of scope e] have none: "workspace_rows scope (fst t) e = []" by (auto simp: target_empty_def list_all_iff)
  have own: "\<forall>r \<in> set (bundle_order scope d t). new_row stored scope t r ''workspace_id'' = SqlText (px_workspace scope)"
    using movable_rows(1) [OF mv t] new_row_cells(2) [OF t] by (auto simp: list_all_iff)
  with none fill_rows [OF portable_names t, of stored scope "bundle_order scope d" e] show ?thesis
    by (simp add: workspace_rows_def filter_map filter_id_conv o_def)
qed

lemma filled_exports:
  assumes mv: "movable stored scope d e" and empty: "target_empty scope e"
  shows "exported_tables scope (fill stored scope (bundle_order scope d) portable_tables e) = exported_tables scope d"
  unfolding exported_tables_def
proof (rule map_cong [OF refl])
  fix t assume t: "t \<in> set portable_tables"
  let ?e = "fill stored scope (bundle_order scope d) portable_tables e"
  have cells: "map (row_cells t) (map (new_row stored scope t) (bundle_order scope d t)) = map (row_cells t) (bundle_order scope d t)"
    using movable_rows(1) [OF mv t] new_row_cells(1) [OF t] by (simp add: list_all_iff)
  have "exported_rows scope t ?e = sort_key portable_row_key (exported_rows scope t d)"
    unfolding exported_rows_known [OF t] filled_rows [OF t mv empty] cells by (simp add: sort_key_map bundle_order_def)
  then show "exported_table scope t ?e = exported_table scope t d" by (simp add: exported_table_def sort_key_id_if_sorted)
qed

lemma row_problem_none:
  assumes t: "t \<in> set portable_tables" and rs: "list_all (transferable stored scope t) rs"
  shows "row_problem scope (bundle_table t all) (map (row_cells t) rs) = None"
  using rs
proof (induction rs)
  case (Cons r rs)
  obtain i where i: "index_of ''workspace_id'' (map fst (snd t)) = Some i" using index_of_Some [OF portable_shapeD(2) [OF t]] ..
  from index_of_nth [OF i] have at: "row_cells t r ! i = cell_json (r ''workspace_id'')" unfolding row_cells_def by (metis nth_map)
  from Cons.prems have ws: "r ''workspace_id'' = SqlText (px_workspace scope)" and c: "carried stored (physical_table (fst t)) r"
    by (simp_all add: transferable_def)
  obtain x where x: "x \<in> set (st_columns (physical_table (fst t)))" "sc_name x = ''workspace_id''"
    by (rule physical_column [OF t portable_shapeD(2) [OF t]])
  with c ws have "valid_utf8 (px_workspace scope)" by (auto simp: carried_def value_fits_def)
  then have "json_string_value (json_string (px_workspace scope)) = Some (px_workspace scope)"
    using json_text_string [of _ "[]"] by (simp add: json_string_value_def skip_space_def)
  then have "unmarshal_string (row_cells t r ! i) = Some (px_workspace scope)"
    unfolding at ws by (simp add: unmarshal_string_def json_string_def)
  then have "\<not> foreign_row scope (bundle_table t all) (row_cells t r)"
    unfolding foreign_row_def bundle_table_simps i by simp
  with Cons show ?case by (simp add: row_cells_def)
qed simp

lemma tables_problem_none:
  assumes mv: "movable stored scope d e" and ts: "set ts \<subseteq> set portable_tables"
  shows "tables_problem scope i ts (map (\<lambda>t. exported_table scope t d) ts) = None"
  using ts
proof (induction ts arbitrary: i)
  case (Cons t ts)
  then have t: "t \<in> set portable_tables" by simp
  have "table_problem scope i t (exported_table scope t d) = None"
    using row_problem_none [OF t movable_rows(1) [OF mv t]]
    by (simp add: table_problem_def exported_table_rows [OF t])
  with Cons show ?case by simp
qed simp

lemma validate_exported:
  assumes mv: "movable stored scope d e" and scope: "trim_space (px_workspace scope) \<noteq> []" "trim_space (px_application scope) \<noteq> []"
  shows "validate_portable (exported_bundle scope mid d) scope = None"
proof -
  have "portable_fingerprint (exported_bundle scope mid d) = bu_fingerprint (exported_bundle scope mid d)"
    by (simp add: exported_bundle_def Let_def portable_fingerprint_def)
  moreover have "bu_tables (exported_bundle scope mid d) = map (\<lambda>t. exported_table scope t d) portable_tables"
    by (simp add: exported_bundle_def Let_def exported_tables_def)
  ultimately show ?thesis
    using tables_problem_none [OF mv order_refl] scope by (simp add: validate_portable_def exported_bundle_def Let_def)
qed

lemma import_exported:
  assumes mv: "movable stored scope d (db w)" and empty: "target_empty scope (db w)" and w: "outcomes w = []"
    and scope: "trim_space (px_workspace scope) = px_workspace scope" "px_workspace scope \<noteq> []" "trim_space (px_application scope) \<noteq> []"
  shows "import_portable stored scope (exported_bundle scope mid d) w =
    (Inr (receipt_of (exported_bundle scope mid d) (table_rows (exported_tables scope d)) False),
     w\<lparr>db := fill stored scope (bundle_order scope d) portable_tables (db w)\<rparr>)"
proof -
  let ?b = "exported_bundle scope mid d" and ?w = "w\<lparr>db := fill stored scope (bundle_order scope d) portable_tables (db w)\<rparr>"
  have trims: "trim_space (px_workspace scope) \<noteq> []" using scope by simp
  note same = filled_exports [OF mv empty]
  have tables: "bu_tables ?b = map (\<lambda>t. bundle_table t (bundle_order scope d t)) portable_tables"
    by (simp add: exported_bundle_def Let_def exported_tables_def exported_table_rows)
  have rows: "table_rows (exported_tables scope d) = table_rows (bu_tables ?b)" by (simp add: exported_bundle_def Let_def)
  have "fold_io (import_table stored scope) (bu_tables ?b) 0 w = (Inr (table_rows (bu_tables ?b)), ?w)"
    using import_tables_run [OF scope(1), of portable_tables w stored "bundle_order scope d" 0] movable_rows [OF mv] portable_names w
    unfolding tables by simp
  then have tx: "transaction (bind_io (fold_io (import_table stored scope) (bu_tables ?b) 0) (\<lambda>n. commit_with n)) w = (Inr (table_rows (bu_tables ?b)), ?w)"
    by (intro transaction_run) (simp_all add: bind_io_def w)
  obtain iv where ex: "export_portable scope w = (Inr (exported_bundle scope [] (db w), iv), w)" "iv_rows iv = table_rows (exported_tables scope (db w))"
    using export_run [OF w trims scope(3)] by blast
  with empty have "\<not> iv_rows iv > 0" using table_rows_zero by metis
  with validate_exported [OF mv trims scope(3), of mid] ex
  have "import_portable stored scope ?b w = bind_io (transaction (bind_io (fold_io (import_table stored scope) (bu_tables ?b) 0) (\<lambda>n. commit_with n)))
      (reconcile_import scope ?b) w"
    by (simp add: import_portable_def bind_io_def)
  also have "\<dots> = reconcile_import scope ?b (table_rows (bu_tables ?b)) ?w" by (simp add: bind_io_def tx)
  also have "\<dots> = (Inr (receipt_of ?b (table_rows (bu_tables ?b)) False), ?w)"
  proof -
    obtain iv' where ex': "export_portable scope ?w = (Inr (exported_bundle scope [] (db ?w), iv'), ?w)" "iv_rows iv' = table_rows (exported_tables scope (db ?w))"
      using export_run [of ?w, OF _ trims scope(3)] w by auto
    have "bu_fingerprint (exported_bundle scope mid (db ?w)) = bu_fingerprint ?b" "bu_migration ?b = mid"
      using same by (simp_all add: exported_bundle_def Let_def)
    with ex' same rows show ?thesis
      by (simp add: reconcile_import_def bind_io_def renamed_fingerprint ret_def)
  qed
  finally show ?thesis unfolding rows .
qed

lemma filled_tables:
  assumes "movable stored scope d e" "target_empty scope e"
  defines "f \<equiv> fill stored scope (bundle_order scope d) portable_tables e"
  shows "list_all (\<lambda>t. mset (map (\<lambda>r. map r (map fst (snd t))) (workspace_rows scope (fst t) f)) =
        mset (map (\<lambda>r. map r (map fst (snd t))) (workspace_rows scope (fst t) d)) \<and>
      filter (\<lambda>r. r ''workspace_id'' \<noteq> SqlText (px_workspace scope)) (rd_rows f (fst t)) = rd_rows e (fst t)) portable_tables"
  unfolding list_all_iff
proof (intro ballI conjI)
  fix t assume t: "t \<in> set portable_tables"
  note same = new_row_cells [OF t]
  have all: "list_all (transferable stored scope t) (bundle_order scope d t)" by (rule movable_rows(1) [OF assms(1) t])
  then have "map (\<lambda>r. map r (map fst (snd t))) (map (new_row stored scope t) (bundle_order scope d t)) =
      map (\<lambda>r. map r (map fst (snd t))) (bundle_order scope d t)"
    using same(3) by (simp add: list_all_iff)
  then have "map (\<lambda>r. map r (map fst (snd t))) (workspace_rows scope (fst t) f) = map (\<lambda>r. map r (map fst (snd t))) (bundle_order scope d t)"
    using filled_rows [OF t assms(1,2)] by (simp add: f_def)
  then show "mset (map (\<lambda>r. map r (map fst (snd t))) (workspace_rows scope (fst t) f)) =
      mset (map (\<lambda>r. map r (map fst (snd t))) (workspace_rows scope (fst t) d))"
    by (simp add: bundle_order_def del: map_map)
  have none: "\<forall>r \<in> set (rd_rows e (fst t)). r ''workspace_id'' \<noteq> SqlText (px_workspace scope)"
    using assms(2) t exported_rows_known [OF t, of scope e] by (auto simp: target_empty_def list_all_iff workspace_rows_def filter_empty_conv)
  have "\<forall>r \<in> set (bundle_order scope d t). new_row stored scope t r ''workspace_id'' = SqlText (px_workspace scope)"
    using all same(2) by (auto simp: list_all_iff)
  with none show "filter (\<lambda>r. r ''workspace_id'' \<noteq> SqlText (px_workspace scope)) (rd_rows f (fst t)) = rd_rows e (fst t)"
    by (simp add: f_def fill_rows [OF portable_names t] filter_id_conv filter_map filter_empty_conv)
qed

text \<open>C35: A workspace can be moved: the bundle one database exported is imported by another that holds nothing of the
  workspace and no key of its rows, on an engine that hands out the values as it was given them. The import reports all of
  the rows, the target has the rows of the source in every table and exports the same tables, and the rows of the other
  workspaces and the migration controls are as before.\<close>

theorem portable_roundtrip:
  assumes "export_portable_migration scope mid v = (Inr (b, iv), v')"
    and "movable stored scope (db v) (db w)" "target_empty scope (db w)" "outcomes w = []"
    and "trim_space (px_workspace scope) = px_workspace scope"
  shows "\<exists>w'. import_portable stored scope b w = (Inr (receipt_of b (iv_rows iv) False), w') \<and>
    exported_tables scope (db w') = exported_tables scope (db v) \<and> rd_controls (db w') = rd_controls (db w) \<and>
    list_all (\<lambda>t. mset (map (\<lambda>r. map r (map fst (snd t))) (workspace_rows scope (fst t) (db w'))) =
        mset (map (\<lambda>r. map r (map fst (snd t))) (workspace_rows scope (fst t) (db v))) \<and>
      filter (\<lambda>r. r ''workspace_id'' \<noteq> SqlText (px_workspace scope)) (rd_rows (db w') (fst t)) = rd_rows (db w) (fst t)) portable_tables"
proof -
  from assms(1) obtain b0 iv0 v1 where ex: "export_portable scope v = (Inr (b0, iv0), v1)"
    and b: "b = (let n = b0\<lparr>bu_migration := trim_space mid\<rparr> in n\<lparr>bu_fingerprint := portable_fingerprint n\<rparr>)" and iv: "iv_rows iv = iv_rows iv0"
    by (auto simp: export_portable_migration_def bind_io_Inr Let_def split: if_splits prod.splits)
  note exported = export_portable_Inr [OF ex]
  have whole: "b = exported_bundle scope (trim_space mid) (db v)"
    unfolding b exported(2) by (simp add: exported_bundle_def Let_def portable_fingerprint_def)
  let ?w = "w\<lparr>db := fill stored scope (bundle_order scope (db v)) portable_tables (db w)\<rparr>"
  have run: "import_portable stored scope b w = (Inr (receipt_of b (iv_rows iv) False), ?w)"
    using import_exported [OF assms(2-5)] exported(3,4) assms(5) unfolding whole iv by simp
  note tables = filled_tables [OF assms(2,3)]
  show ?thesis
    using run tables filled_exports [OF assms(2,3)] fill_controls [of stored scope "bundle_order scope (db v)" portable_tables "db w"]
    by (intro exI [of _ ?w]) simp
qed

text \<open>A saved view of workspace \<open>ws\<close>, into a database with one of another workspace.\<close>

definition sample_view :: "string \<Rightarrow> raw_row" where
  "sample_view ws c = (if c = ''workspace_id'' then SqlText ws else if c = ''payload_json'' then SqlText ''{}'' else SqlText ''x'')"

definition sample_views :: "string \<Rightarrow> raw_database" where
  "sample_views ws = \<lparr>rd_rows = (\<lambda>_. [])(''_notification_inbox_saved_views'' := [sample_view ws]), rd_controls = []\<rparr>"

definition sample_scope :: portable_scope where
  "sample_scope = \<lparr>px_workspace = ''ws'', px_application = ''app''\<rparr>"

definition quiet :: "raw_database \<Rightarrow> raw_database driver" where
  "quiet d = \<lparr>db = d, outcomes = []\<rparr>"

lemma quiet_simps [simp]: "db (quiet d) = d" "outcomes (quiet d) = []"
  by (simp_all add: quiet_def)

lemma sample_rows:
  "rd_rows (sample_views ws) name = (if name = ''_notification_inbox_saved_views'' then [sample_view ws] else [])"
  by (simp add: sample_views_def)

lemma sample_view_carried: "carried (\<lambda>k v. v) (physical_table ''_notification_inbox_saved_views'') (sample_view ''ws'')"
proof -
  have "\<not> missing_value (physical_table ''_notification_inbox_saved_views'') (sample_view ''ws'')" by code_simp
  moreover have "list_all (\<lambda>x. value_fits (portable_kind_of (sc_kind x)) (sample_view ''ws'' (sc_name x))) (st_columns (physical_table ''_notification_inbox_saved_views''))"
    by code_simp
  ultimately show ?thesis by (simp add: carried_def list_all_iff)
qed

lemma sample_movable: "movable (\<lambda>k v. v) sample_scope (sample_views ''ws'') (sample_views ''other'')"
proof -
  have "\<not> raw_clash (physical_table ''_notification_inbox_saved_views'') (sample_view ''ws'') (sample_view ''other'')" by code_simp
  then show ?thesis unfolding movable_def workspace_rows_def sample_rows
    using sample_view_carried by auto
qed

lemma sample_export:
  obtains iv where "export_portable_migration sample_scope ''m'' (quiet (sample_views ''ws'')) =
    (Inr (exported_bundle sample_scope ''m'' (sample_views ''ws''), iv), quiet (sample_views ''ws''))" "iv_rows iv = 1"
proof -
  have scope: "trim_space (px_workspace sample_scope) \<noteq> []" "trim_space (px_application sample_scope) \<noteq> []" "trim_space ''m'' = ''m''"
    by code_simp+
  obtain iv where ex: "export_portable sample_scope (quiet (sample_views ''ws'')) = (Inr (exported_bundle sample_scope [] (sample_views ''ws''), iv), quiet (sample_views ''ws''))"
    and n: "iv_rows iv = table_rows (exported_tables sample_scope (sample_views ''ws''))"
    using export_run [of "quiet (sample_views ''ws'')", OF _ scope(1,2)] by auto
  have one: "table_rows (exported_tables sample_scope (sample_views ''ws'')) = 1" by code_simp
  have "export_portable_migration sample_scope ''m'' (quiet (sample_views ''ws'')) = (Inr (exported_bundle sample_scope ''m'' (sample_views ''ws''),
      iv\<lparr>iv_fingerprint := bu_fingerprint (exported_bundle sample_scope ''m'' (sample_views ''ws''))\<rparr>), quiet (sample_views ''ws''))"
    using ex scope(3) by (simp add: export_portable_migration_def bind_io_def Let_def ret_def exported_bundle_def portable_fingerprint_def)
  from that [OF this] n one show thesis by simp
qed

lemma portable_roundtrip_witness:
  "\<exists>b w'. import_portable (\<lambda>k v. v) sample_scope b (quiet (sample_views ''other'')) = (Inr (receipt_of b 1 False), w') \<and>
    exported_tables sample_scope (db w') = exported_tables sample_scope (sample_views ''ws'')"
proof -
  obtain iv where ex: "export_portable_migration sample_scope ''m'' (quiet (sample_views ''ws'')) =
    (Inr (exported_bundle sample_scope ''m'' (sample_views ''ws''), iv), quiet (sample_views ''ws''))" "iv_rows iv = 1"
    by (rule sample_export)
  have "target_empty sample_scope (sample_views ''other'')" "trim_space (px_workspace sample_scope) = px_workspace sample_scope" by code_simp+
  with portable_roundtrip [OF ex(1), of "\<lambda>k v. v" "quiet (sample_views ''other'')"] sample_movable ex(2) show ?thesis by auto
qed

text \<open>C34: An import is all or nothing, whatever the driver does: it leaves the database alone, or it adds all rows of the
  bundle to a database that had none of the workspace, every one of them a row of the workspace, and touches no other row.
  A receipt says which of the two, with the number of rows.\<close>

theorem import_all_or_nothing:
  assumes "import_portable stored target b w = (r, w')"
    and "stored IdentifierColumn (SqlText (px_workspace target)) = SqlText (px_workspace target)"
  shows "db w' = db w \<and> (\<forall>rc. r = Inr rc \<longrightarrow> im_present rc \<and> im_rows rc = table_rows (exported_tables target (db w))) \<or>
    target_empty target (db w) \<and> db w' = load_bundle stored target b (db w) \<and> grows target (db w) (db w') \<and>
      (\<forall>rc. r = Inr rc \<longrightarrow> \<not> im_present rc \<and> im_rows rc = bundle_rows b \<and> table_rows (exported_tables target (db w')) = bundle_rows b)"
proof (cases "db w' = db w \<and> (\<forall>rc. r = Inr rc \<longrightarrow> rc = receipt_of b (table_rows (exported_tables target (db w))) True)")
  case True
  then have "im_present rc \<and> im_rows rc = table_rows (exported_tables target (db w))" if "r = Inr rc" for rc
    using that by (simp add: receipt_of_def)
  with True show ?thesis by blast
next
  case False
  with import_cases [OF assms(1)] have out: "db w' = load_bundle stored target b (db w)" "target_empty target (db w)" "validate_portable b target = None"
    "\<And>rc. r = Inr rc \<Longrightarrow> rc = receipt_of b (table_rows (bu_tables b)) False \<and> table_rows (exported_tables target (db w')) = table_rows (bu_tables b)"
    unfolding import_outcome_def by blast+
  have "grows target (db w) (load_bundle stored target b (db w))" unfolding load_bundle_def
    using load_tables_grow [of stored target portable_tables "bu_tables b" "db w", OF assms(2) order_refl] out(3) [unfolded validate_iff] by blast
  then have "grows target (db w) (db w')" unfolding out(1) .
  moreover have "bundle_rows b = table_rows (bu_tables b)" by (simp add: bundle_rows_def table_rows_def)
  then have "\<not> im_present rc \<and> im_rows rc = bundle_rows b \<and> table_rows (exported_tables target (db w')) = bundle_rows b" if "r = Inr rc" for rc
    using out(4) [OF that] by (simp add: receipt_of_def)
  ultimately show ?thesis using out(1,2) by blast
qed

lemma import_all_or_nothing_witness:
  "\<exists>b r w'. import_portable (\<lambda>k v. v) sample_scope b (quiet (sample_views ''other'')) = (Inr r, w') \<and> \<not> im_present r \<and>
    grows sample_scope (sample_views ''other'') (db w')"
proof -
  have scope: "target_empty sample_scope (sample_views ''other'')" "trim_space (px_workspace sample_scope) = px_workspace sample_scope"
    "px_workspace sample_scope \<noteq> []" "trim_space (px_application sample_scope) \<noteq> []" by code_simp+
  have one: "table_rows (exported_tables sample_scope (sample_views ''ws'')) = 1" by code_simp
  from import_exported [of "\<lambda>k v. v" sample_scope "sample_views ''ws''" "quiet (sample_views ''other'')" "''m''"] sample_movable scope
  obtain w' where run: "import_portable (\<lambda>k v. v) sample_scope (exported_bundle sample_scope ''m'' (sample_views ''ws'')) (quiet (sample_views ''other'')) =
      (Inr (receipt_of (exported_bundle sample_scope ''m'' (sample_views ''ws'')) 1 False), w')" unfolding one by simp
  have absent: "\<not> im_present (receipt_of b n False)" for b n by (simp add: receipt_of_def)
  from import_all_or_nothing [OF run refl] have "grows sample_scope (db (quiet (sample_views ''other''))) (db w')"
  proof (elim disjE conjE)
    assume "\<forall>rc. Inr (receipt_of (exported_bundle sample_scope ''m'' (sample_views ''ws'')) 1 False) = Inr rc \<longrightarrow>
      im_present rc \<and> im_rows rc = table_rows (exported_tables sample_scope (db (quiet (sample_views ''other''))))"
    with absent have False by blast
    then show ?thesis ..
  qed
  then have "grows sample_scope (sample_views ''other'') (db w')" unfolding quiet_simps .
  with run absent show ?thesis by blast
qed

text \<open>Importing the same bundle again reports that it is there already and changes nothing.\<close>

theorem import_repeatable:
  assumes "import_portable stored target b w = (Inr rc, w')" "0 < im_rows rc" "outcomes w' = []"
  shows "import_portable stored target b w' = (Inr (rc\<lparr>im_present := True\<rparr>), w')"
proof -
  note valid = import_validated [OF assms(1)]
  from import_cases [OF assms(1)] consider
      (there) "db w' = db w" "rc = receipt_of b (table_rows (exported_tables target (db w))) True" "matches_bundle target b (db w)" "\<not> target_empty target (db w)"
    | (loaded) "rc = receipt_of b (table_rows (bu_tables b)) False" "matches_bundle target b (db w')" "table_rows (exported_tables target (db w')) = table_rows (bu_tables b)"
    unfolding import_outcome_def by blast
  then show ?thesis
  proof cases
    case there
    from import_present_run [OF valid assms(3)] there show ?thesis by (simp add: receipt_of_def)
  next
    case loaded
    with assms(2) have "\<not> target_empty target (db w')" using table_rows_zero [of target "db w'"] by (simp add: receipt_of_def)
    from import_present_run [OF valid assms(3) this loaded(2)] loaded show ?thesis by (simp add: receipt_of_def)
  qed
qed

section \<open>An import that does not reconcile\<close>

lemma failed_import_stays:
  assumes "import_portable stored target b w = (Inl (ErrorText ''notification portable import reconciliation failed''), w')"
    and "target_empty target (db w)" "\<not> target_empty target (db w')" "\<not> matches_bundle target b (db w')" "outcomes w' = []"
  shows "db w' = load_bundle stored target b (db w)"
    and "import_portable stored target b w' = (Inl (ErrorText ''notification portable import target is not empty and does not match the bundle''), w')"
proof -
  from import_cases [OF assms(1)] assms(2,3) have eff: "db w' = load_bundle stored target b (db w)" "validate_portable b target = None"
    unfolding import_outcome_def by auto
  then show "db w' = load_bundle stored target b (db w)" by simp
  obtain iv where ex: "export_portable target w' = (Inr (exported_bundle target [] (db w'), iv), w')" "iv_rows iv = table_rows (exported_tables target (db w'))"
    using export_run [OF assms(5) validated_scope(2,3) [OF eff(2)]] by blast
  from assms(3) have "0 < iv_rows iv" using ex(2) table_rows_zero by metis
  with eff(2) assms(4) ex show "import_portable stored target b w' = (Inl (ErrorText ''notification portable import target is not empty and does not match the bundle''), w')"
    by (simp add: import_portable_def bind_io_def renamed_fingerprint matches_bundle_def fail_def)
qed

lemma boolean_cells:
  "decode_portable_cell (cell_json (SqlInt 1)) PortableBoolean = Some (SqlBool True)" "cell_json (SqlBool True) \<noteq> cell_json (SqlInt 1)"
  "decode_portable_cell (cell_json (SqlText ''1'')) PortableBoolean = None"
  by code_simp+

end
