(* ===== verification/Module_Migration.thy ===== *)
theory Module_Migration
  imports Migration_Steps Portable_Transfer Delivery_Policy
begin

text \<open>
  Moving a workspace through the module: \<open>moduleSystemMigration\<close> of internal/assembly/module/services.go, over the
  migration control and the portability store. The commands and bundles of the SDK contract have the fields of the
  stores' values and are these values; the conversions between them go through JSON and keep them. The SDK's
  \<open>Validate\<close> and \<open>ValidateEnvelope\<close> are arguments. The mutex makes each operation a step of its own.
\<close>

record 'd portability =
  py_controls :: "'d control_store"
  py_export :: "portable_scope \<Rightarrow> string \<Rightarrow> ('d, portable_bundle \<times> portable_inventory) statement"
  py_import :: "portable_scope \<Rightarrow> portable_bundle \<Rightarrow> ('d, import_receipt) statement"

definition raw_portability :: "(column_kind \<Rightarrow> sql_value \<Rightarrow> sql_value) \<Rightarrow> raw_database portability" where
  "raw_portability stored = \<lparr>py_controls = raw_controls, py_export = export_portable_migration, py_import = import_portable stored\<rparr>"

record migration_command =
  mc_migration :: string
  mc_fingerprint :: string
  mc_at :: instant

record migration_report =
  ct_migration :: string
  ct_role :: string
  ct_state :: string
  ct_fingerprint :: string
  ct_frozen :: instant
  ct_activated :: instant
  ct_leases :: int

record 'd migration_module =
  md_store :: "'d portability"
  md_scope :: portable_scope
  md_command :: "migration_command \<Rightarrow> bool \<Rightarrow> err option"
  md_envelope :: "portable_bundle \<Rightarrow> err option"

text \<open>\<open>time.Parse\<close> with the error dropped leaves the zero time.\<close>

definition parsed_or_zero :: "string \<Rightarrow> instant" where
  "parsed_or_zero s = (case parse_rfc3339 s of None \<Rightarrow> zero_time | Some t \<Rightarrow> t)"

definition migration_status_contract :: "migration_control \<Rightarrow> migration_report" where
  "migration_status_contract st = \<lparr>ct_migration = mx_migration st, ct_role = mx_role st, ct_state = mx_state st,
     ct_fingerprint = mx_fingerprint st, ct_frozen = parsed_or_zero (mx_frozen st), ct_activated = parsed_or_zero (mx_activated st),
     ct_leases = mx_leases st\<rparr>"

definition portable_row_count :: "portable_bundle \<Rightarrow> int" where
  "portable_row_count b = fold (\<lambda>t rows. rows + int (length (pb_rows t))) (bu_tables b) 0"

definition validated :: "err option \<Rightarrow> ('d, 'a) statement \<Rightarrow> ('d, 'a) statement" where
  "validated problem m = (case problem of Some e \<Rightarrow> fail e | None \<Rightarrow> m)"

definition reporting :: "('d, migration_control) statement \<Rightarrow> ('d, migration_report) statement" where
  "reporting m = bind_io m (\<lambda>st. ret (migration_status_contract st))"

definition module_status :: "'d migration_module \<Rightarrow> ('d, migration_report) statement" where
  "module_status m = reporting (migration_status (py_controls (md_store m)) (px_workspace (md_scope m)))"

definition module_freeze :: "'d migration_module \<Rightarrow> migration_command \<Rightarrow> ('d, migration_report) statement" where
  "module_freeze m c = validated (md_command m c False)
     (reporting (freeze_migration (py_controls (md_store m)) (px_workspace (md_scope m)) (mc_migration c) (mc_at c)))"

definition not_quiescent :: "migration_control \<Rightarrow> err" where
  "not_quiescent st = SdkError 409 ''notification.migration_not_quiescent'' (mx_leases st \<noteq> 0) None"

definition module_export :: "'d migration_module \<Rightarrow> instant \<Rightarrow> ('d, portable_bundle \<times> portable_inventory) statement" where
  "module_export m now = bind_io (migration_status (py_controls (md_store m)) (px_workspace (md_scope m))) (\<lambda>st.
     guard_io (mx_role st \<noteq> ''source'' \<or> mx_state st \<noteq> ''frozen'' \<or> mx_leases st \<noteq> 0) (not_quiescent st)
      (bind_io (py_export (md_store m) (md_scope m) (mx_migration st)) (\<lambda>(bundle, inventory).
       bind_io (record_migration_fingerprint (py_controls (md_store m)) (px_workspace (md_scope m)) (mx_migration st) (bu_fingerprint bundle) now)
         (\<lambda>_. ret (bundle, inventory)))))"

definition already_imported :: "portable_bundle \<Rightarrow> migration_control \<Rightarrow> bool" where
  "already_imported b st \<longleftrightarrow> mx_role st = ''target'' \<and> mx_state st = ''imported'' \<and> mx_migration st = bu_migration b \<and>
     mx_fingerprint st = bu_fingerprint b"

definition module_import :: "'d migration_module \<Rightarrow> instant \<Rightarrow> portable_bundle \<Rightarrow> ('d, import_receipt) statement" where
  "module_import m now b = validated (md_envelope m b)
    (bind_io (migration_status (py_controls (md_store m)) (px_workspace (md_scope m))) (\<lambda>st.
     if already_imported b st
     then ret \<lparr>im_format = bu_format b, im_fingerprint = bu_fingerprint b, im_rows = portable_row_count b, im_present = True\<rparr>
     else bind_io (py_import (md_store m) (md_scope m) b) (\<lambda>receipt.
       bind_io (record_imported_migration (py_controls (md_store m)) (px_workspace (md_scope m)) (bu_migration b) (bu_fingerprint b) now)
         (\<lambda>_. ret receipt))))"

definition module_activate :: "'d migration_module \<Rightarrow> migration_command \<Rightarrow> ('d, migration_report) statement" where
  "module_activate m c = validated (md_command m c True)
     (reporting (activate_migration (py_controls (md_store m)) (px_workspace (md_scope m)) (mc_migration c) (mc_fingerprint c) (mc_at c)))"

definition module_rollback :: "'d migration_module \<Rightarrow> migration_command \<Rightarrow> ('d, migration_report) statement" where
  "module_rollback m c = validated (md_command m c True)
     (reporting (rollback_migration (py_controls (md_store m)) (px_workspace (md_scope m)) (mc_migration c) (mc_fingerprint c) (mc_at c)))"

section \<open>The control rows of the portability store\<close>

lemma raw_table [simp]: "fst (cs_controls raw_controls) d = rd_controls d" "snd (cs_controls raw_controls) rs d = d\<lparr>rd_controls := rs\<rparr>"
  by (simp_all add: raw_controls_def raw_controls_table_def)

definition leases_of :: "workspace_id \<Rightarrow> raw_database \<Rightarrow> int" where
  "leases_of ws d = raw_leased ''_notification_events'' ws d + raw_leased ''_notification_channel_plans'' ws d +
     raw_leased ''_notification_template_publication_requests'' ws d"

lemma leases_of_controls [simp]: "leases_of ws (d\<lparr>rd_controls := rs\<rparr>) = leases_of ws d"
  by (simp add: leases_of_def raw_leased_def)

lemma active_leases_run: "outcomes w = [] \<Longrightarrow> active_leases raw_controls ws w = (Inr (leases_of ws (db w)), w)"
  by (simp add: active_leases_def raw_controls_def bind_io_def wrapping_def query_run ret_def leases_of_def)

definition control_report :: "workspace_id \<Rightarrow> raw_database \<Rightarrow> migration_control" where
  "control_report ws d = (let row = workspace_row ws (rd_controls d) in
     control_of_row ws row (case row of None \<Rightarrow> 0 | Some r \<Rightarrow> leases_of ws d))"

lemma migration_status_run:
  assumes "outcomes w = []" "trim_space ws = ws" "ws \<noteq> []"
  shows "migration_status raw_controls ws w = (Inr (control_report ws (db w)), w)"
  using assms active_leases_run [of w ws]
  by (simp add: migration_status_def Let_def guard_io_def bind_io_def wrapping_def select_row_def query_run workspace_row_def control_report_def ret_def
      split: option.split)

lemma insert_control_run:
  assumes "outcomes w = []" "cw_workspace r = ws" "workspace_row ws (rd_controls (db w)) = None"
  shows "workspace_insert (cs_controls raw_controls) control_clash name ws ws r w = (Inr (), w\<lparr>db := (db w)\<lparr>rd_controls := rd_controls (db w) @ [r]\<rparr>\<rparr>)"
proof -
  have "\<not> list_ex (control_clash r) (rd_controls (db w))" using assms(2,3) by (auto simp: workspace_row_None control_clash_def list_ex_iff)
  with assms(1) show ?thesis by (simp add: workspace_insert_def insert_row_def exec_run)
qed

lemma freeze_run:
  assumes "outcomes w = []" "trim_space ws = ws" "ws \<noteq> []" "trim_space mid \<noteq> []" "at \<noteq> zero_time" "workspace_row ws (rd_controls (db w)) = None"
  defines "w' \<equiv> w\<lparr>db := (db w)\<lparr>rd_controls := rd_controls (db w) @ [frozen_row ws (trim_space mid) (format_nano at)]\<rparr>\<rparr>"
  shows "freeze_migration raw_controls ws mid at w = (Inr (control_report ws (db w')), w')"
proof -
  have row: "control_report ws (db w) = control_of_row ws None 0" using assms(6) by (simp add: control_report_def)
  have ins: "write_frozen raw_controls ws (trim_space mid) (format_nano at) True w = (Inr (), w')"
    unfolding write_frozen_def w'_def using insert_control_run [OF assms(1) _ assms(6)] by (simp add: frozen_row_def)
  have "migration_status raw_controls ws w' = (Inr (control_report ws (db w')), w')"
    by (rule migration_status_run) (use assms(1-3) in \<open>simp_all add: w'_def\<close>)
  with migration_status_run [OF assms(1-3)] ins show ?thesis
    using assms(2-5) by (simp add: freeze_migration_def Let_def guard_io_def bind_io_def wrapping_def row control_of_row_def)
qed

lemma import_record_run:
  assumes "outcomes w = []" "trim_space ws = ws" "ws \<noteq> []" "trim_space mid \<noteq> []" "trim_space f \<noteq> []" "at \<noteq> zero_time"
    and "workspace_row ws (rd_controls (db w)) = None"
  defines "w' \<equiv> w\<lparr>db := (db w)\<lparr>rd_controls := rd_controls (db w) @ [imported_row ws (trim_space mid) (trim_space f) (format_nano at)]\<rparr>\<rparr>"
  shows "record_imported_migration raw_controls ws mid f at w = (Inr (control_report ws (db w')), w')"
proof -
  have row: "control_report ws (db w) = control_of_row ws None 0" using assms(7) by (simp add: control_report_def)
  have ins: "workspace_insert (cs_controls raw_controls) control_clash ''_notification_migration_controls'' ws ws
      (imported_row ws (trim_space mid) (trim_space f) (format_nano at)) w = (Inr (), w')"
    unfolding w'_def using insert_control_run [OF assms(1) _ assms(7)] by (simp add: imported_row_def)
  have "migration_status raw_controls ws w' = (Inr (control_report ws (db w')), w')"
    by (rule migration_status_run) (use assms(1-3) in \<open>simp_all add: w'_def\<close>)
  with migration_status_run [OF assms(1-3)] ins show ?thesis
    using assms(2-6) by (simp add: record_imported_migration_def Let_def guard_io_def bind_io_def wrapping_def row control_of_row_def)
qed

lemma matching_rows:
  assumes "controls_ok rows" "workspace_row ws rows = Some r" "P r" "\<And>x. P x \<Longrightarrow> cw_workspace x = ws"
  shows "length (filter P rows) = 1"
proof -
  have "length (filter P rows) \<le> 1"
    using assms(1,4) by (intro no_clash_count [where c = control_clash]) (auto simp: controls_ok_def control_clash_def)
  moreover have "filter P rows \<noteq> []" using workspace_row_Some [OF assms(2)] assms(3) by (auto simp: filter_empty_conv)
  ultimately show ?thesis by (cases "filter P rows") auto
qed

lemma transition_run:
  fixes after :: "string \<times> string"
  assumes "outcomes w = []" "trim_space ws = ws" "ws \<noteq> []" "trim_space mid \<noteq> []" "trim_space f \<noteq> []" "at \<noteq> zero_time"
    and "controls_ok (rd_controls (db w))" "workspace_row ws (rd_controls (db w)) = Some r"
    and "transition_matches ws (trim_space mid) (fst before) (snd before) (trim_space f) r"
  defines "w' \<equiv> w\<lparr>db := (db w)\<lparr>rd_controls := update_where (transition_matches ws (trim_space mid) (fst before) (snd before) (trim_space f))
      (transitioned (fst after) (snd after) (trim_space f) (format_nano at)) (rd_controls (db w))\<rparr>\<rparr>"
  shows "transition_migration raw_controls ws mid before after f at w = (Inr (control_report ws (db w')), w')"
    "workspace_row ws (rd_controls (db w')) = Some (transitioned (fst after) (snd after) (trim_space f) (format_nano at) r)"
proof -
  have one: "length (filter (transition_matches ws (trim_space mid) (fst before) (snd before) (trim_space f)) (rd_controls (db w))) = 1"
    by (rule matching_rows [of "rd_controls (db w)" ws r, OF assms(7,8), where P = "transition_matches ws (trim_space mid) (fst before) (snd before) (trim_space f)",
        OF assms(9)]) (rule transition_matches_workspace)
  have "migration_status raw_controls ws w' = (Inr (control_report ws (db w')), w')"
    by (rule migration_status_run) (use assms(1-3) in \<open>simp_all add: w'_def\<close>)
  with one show "transition_migration raw_controls ws mid before after f at w = (Inr (control_report ws (db w')), w')"
    using assms(1-6) by (simp add: transition_migration_def Let_def guard_io_def bind_io_def wrapping_def update_rows_def exec_run w'_def)
  have "workspace_row ws (rd_controls (db w')) = map_option (\<lambda>r. if transition_matches ws (trim_space mid) (fst before) (snd before) (trim_space f) r
      then transitioned (fst after) (snd after) (trim_space f) (format_nano at) r else r) (workspace_row ws (rd_controls (db w)))"
    unfolding w'_def by (simp add: workspace_row_update transitioned_workspace)
  with assms(8,9) show "workspace_row ws (rd_controls (db w')) = Some (transitioned (fst after) (snd after) (trim_space f) (format_nano at) r)" by simp
qed

section \<open>Moving a workspace\<close>

lemma workspace_rows_controls [simp]: "workspace_rows scope t (d\<lparr>rd_controls := rs\<rparr>) = workspace_rows scope t d"
  by (simp add: workspace_rows_def)

lemma exported_tables_controls [simp]: "exported_tables scope (d\<lparr>rd_controls := rs\<rparr>) = exported_tables scope d"
  by (simp add: exported_tables_def exported_table_def exported_rows_def)

lemma exported_bundle_controls [simp]: "exported_bundle scope mid (d\<lparr>rd_controls := rs\<rparr>) = exported_bundle scope mid d"
  by (simp add: exported_bundle_def)

lemma exported_fingerprint:
  "trim_space (bu_fingerprint (exported_bundle scope mid d)) = bu_fingerprint (exported_bundle scope mid d)"
  "bu_fingerprint (exported_bundle scope mid d) \<noteq> []" "bu_migration (exported_bundle scope mid d) = mid"
  by (simp_all add: exported_bundle_def Let_def portable_fingerprint_def value_hash_def)

lemma export_migration_run:
  assumes "outcomes w = []" "trim_space (px_workspace scope) \<noteq> []" "trim_space (px_application scope) \<noteq> []" "trim_space mid = mid" "mid \<noteq> []"
  obtains iv where "export_portable_migration scope mid w = (Inr (exported_bundle scope mid (db w), iv), w)"
    "iv_rows iv = table_rows (exported_tables scope (db w))"
proof -
  obtain iv where ex: "export_portable scope w = (Inr (exported_bundle scope [] (db w), iv), w)" "iv_rows iv = table_rows (exported_tables scope (db w))"
    using export_run [OF assms(1-3)] by blast
  have "export_portable_migration scope mid w = (Inr (exported_bundle scope mid (db w),
      iv\<lparr>iv_fingerprint := bu_fingerprint (exported_bundle scope mid (db w))\<rparr>), w)"
    using ex(1) assms(4,5) by (simp add: export_portable_migration_def bind_io_def Let_def ret_def exported_bundle_def portable_fingerprint_def)
  from that [OF this] ex(2) show thesis by simp
qed

text \<open>The two sides of a move: a source freezes and exports, a target imports and is activated.\<close>

definition ready_source :: "portable_scope \<Rightarrow> raw_database \<Rightarrow> bool" where
  "ready_source scope d \<longleftrightarrow> controls_ok (rd_controls d) \<and> workspace_row (px_workspace scope) (rd_controls d) = None \<and> leases_of (px_workspace scope) d = 0"

definition ready_target :: "(column_kind \<Rightarrow> sql_value \<Rightarrow> sql_value) \<Rightarrow> portable_scope \<Rightarrow> raw_database \<Rightarrow> raw_database \<Rightarrow> bool" where
  "ready_target stored scope d e \<longleftrightarrow> controls_ok (rd_controls e) \<and> workspace_row (px_workspace scope) (rd_controls e) = None \<and>
     movable stored scope d e \<and> target_empty scope e"

lemma controls_ok_append:
  assumes "controls_ok rows" "workspace_row (cw_workspace r) rows = None" "row_phase r \<noteq> None" shows "controls_ok (rows @ [r])"
proof -
  have "\<not> list_ex (control_clash r) rows" using assms(2) unfolding workspace_row_None control_clash_def list_ex_iff by metis
  with assms(1,3) show ?thesis by (auto simp: controls_ok_def intro!: no_clash_append)
qed

lemma frozen_phase: "mid \<noteq> [] \<Longrightarrow> row_phase (frozen_row ws mid at) = Some (Frozen mid [])"
  and imported_phase: "mid \<noteq> [] \<Longrightarrow> row_phase (imported_row ws mid f at) = Some (Imported mid f)"
  by (simp_all add: row_phase_def frozen_row_def imported_row_def)

lemma source_runs:
  assumes "outcomes v = []" "trim_space (px_workspace scope) = px_workspace scope" "px_workspace scope \<noteq> []" "trim_space (px_application scope) \<noteq> []"
    and "trim_space mid = mid" "mid \<noteq> []" "t1 \<noteq> zero_time" "t2 \<noteq> zero_time" "ready_source scope (db v)"
    and src: "md_store src = raw_portability stored" "md_scope src = scope" "md_command src \<lparr>mc_migration = mid, mc_fingerprint = [], mc_at = t1\<rparr> False = None"
  obtains rep v1 iv v2 where "module_freeze src \<lparr>mc_migration = mid, mc_fingerprint = [], mc_at = t1\<rparr> v = (Inr rep, v1)"
    "module_export src t2 v1 = (Inr (exported_bundle scope mid (db v), iv), v2)" "iv_rows iv = table_rows (exported_tables scope (db v))"
    "phase_at (px_workspace scope) (rd_controls (db v2)) = Some (Frozen mid (bu_fingerprint (exported_bundle scope mid (db v))))"
    "rd_rows (db v2) = rd_rows (db v)"
proof -
  let ?ws = "px_workspace scope" and ?b = "exported_bundle scope mid (db v)"
  let ?row = "frozen_row ?ws mid (format_nano t1)"
  define v1 where "v1 = v\<lparr>db := (db v)\<lparr>rd_controls := rd_controls (db v) @ [?row]\<rparr>\<rparr>"
  from assms(9) have ok: "controls_ok (rd_controls (db v))" and none: "workspace_row ?ws (rd_controls (db v)) = None" and quiet: "leases_of ?ws (db v) = 0"
    by (simp_all add: ready_source_def)
  have v1: "outcomes v1 = []" "workspace_row ?ws (rd_controls (db v1)) = Some ?row" "leases_of ?ws (db v1) = 0"
    using assms(1) none quiet by (simp_all add: v1_def workspace_row_append frozen_row_def)
  have ok1: "controls_ok (rd_controls (db v1))"
    using ok none frozen_phase [OF assms(6)] by (auto simp: v1_def frozen_row_def intro!: controls_ok_append)
  have fr: "freeze_migration raw_controls ?ws mid t1 v = (Inr (control_report ?ws (db v1)), v1)"
    using freeze_run [OF assms(1-3), of mid t1] assms(5-7) none by (simp add: v1_def)
  have rep1: "mx_role (control_report ?ws (db v1)) = ''source''" "mx_state (control_report ?ws (db v1)) = ''frozen''"
    "mx_leases (control_report ?ws (db v1)) = 0" "mx_migration (control_report ?ws (db v1)) = mid"
    using v1(2,3) by (simp_all add: control_report_def control_of_row_def frozen_row_def)
  obtain iv where ex: "export_portable_migration scope mid v1 = (Inr (?b, iv), v1)" "iv_rows iv = table_rows (exported_tables scope (db v))"
    using export_migration_run [OF v1(1), of scope mid] assms(2-6) by (auto simp: v1_def)
  note fp = exported_fingerprint [of scope mid "db v"]
  have matches: "transition_matches ?ws (trim_space mid) ''source'' ''frozen'' (trim_space (bu_fingerprint ?b)) ?row"
    using assms(5) by (simp add: transition_matches_def frozen_row_def)
  note pin = transition_run [where before = "(''source'', ''frozen'')" and after = "(''source'', ''frozen'')" and ws = ?ws and mid = mid and f = "bu_fingerprint ?b"
      and at = t2 and w = v1 and r = ?row, OF v1(1) assms(2,3) _ _ assms(8) ok1 v1(2), unfolded fst_conv snd_conv, OF _ _ matches]
  from pin assms(5,6) fp(1,2) obtain v2 where v2:
    "transition_migration raw_controls ?ws mid (''source'', ''frozen'') (''source'', ''frozen'') (bu_fingerprint ?b) t2 v1 = (Inr (control_report ?ws (db v2)), v2)"
    "workspace_row ?ws (rd_controls (db v2)) = Some (transitioned ''source'' ''frozen'' (bu_fingerprint ?b) (format_nano t2) ?row)" "rd_rows (db v2) = rd_rows (db v1)"
    by auto
  have "module_freeze src \<lparr>mc_migration = mid, mc_fingerprint = [], mc_at = t1\<rparr> v = (Inr (migration_status_contract (control_report ?ws (db v1))), v1)"
    using fr src by (simp add: module_freeze_def validated_def reporting_def raw_portability_def bind_io_def ret_def)
  moreover have "module_export src t2 v1 = (Inr (?b, iv), v2)"
    using migration_status_run [OF v1(1) assms(2,3)] rep1 ex(1) v2(1) src
    by (simp add: module_export_def raw_portability_def bind_io_def guard_io_def ret_def record_migration_fingerprint_def)
  moreover have "phase_at ?ws (rd_controls (db v2)) = Some (Frozen mid (bu_fingerprint ?b))"
    using v2(2) assms(6) by (simp add: phase_at_def row_phase_def transitioned_def frozen_row_def)
  moreover have "rd_rows (db v2) = rd_rows (db v)" using v2(3) by (simp add: v1_def)
  ultimately show thesis using that ex(2) by blast
qed

lemma target_runs:
  assumes "outcomes w = []" "trim_space (px_workspace scope) = px_workspace scope" "px_workspace scope \<noteq> []" "trim_space (px_application scope) \<noteq> []"
    and "trim_space mid = mid" "mid \<noteq> []" "t3 \<noteq> zero_time" "t4 \<noteq> zero_time" "ready_target stored scope d (db w)"
    and tgt: "md_store tgt = raw_portability stored" "md_scope tgt = scope" "md_envelope tgt (exported_bundle scope mid d) = None"
  defines "b \<equiv> exported_bundle scope mid d"
  obtains w1 where "module_import tgt t3 b w = (Inr (receipt_of b (table_rows (exported_tables scope d)) False), w1)"
    "exported_tables scope (db w1) = exported_tables scope d"
    "phase_at (px_workspace scope) (rd_controls (db w1)) = Some (Imported mid (bu_fingerprint b))"
    "md_command tgt \<lparr>mc_migration = mid, mc_fingerprint = bu_fingerprint b, mc_at = t4\<rparr> True = None \<longrightarrow>
       (\<exists>rep w2. module_activate tgt \<lparr>mc_migration = mid, mc_fingerprint = bu_fingerprint b, mc_at = t4\<rparr> w1 = (Inr rep, w2) \<and> ct_state rep = ''cutover'' \<and>
         exported_tables scope (db w2) = exported_tables scope d \<and>
         phase_at (px_workspace scope) (rd_controls (db w2)) = Some (Cutover mid (bu_fingerprint b)))"
proof -
  let ?ws = "px_workspace scope"
  from assms(9) have ok: "controls_ok (rd_controls (db w))" and none: "workspace_row ?ws (rd_controls (db w)) = None"
    and mv: "movable stored scope d (db w)" and empty: "target_empty scope (db w)" by (simp_all add: ready_target_def)
  note fp = exported_fingerprint [of scope mid d, folded b_def]
  define x where "x = w\<lparr>db := fill stored scope (bundle_order scope d) portable_tables (db w)\<rparr>"
  have x: "outcomes x = []" "rd_controls (db x) = rd_controls (db w)" "exported_tables scope (db x) = exported_tables scope d"
    using assms(1) fill_controls filled_exports [OF mv empty] by (simp_all add: x_def)
  have im: "import_portable stored scope b w = (Inr (receipt_of b (table_rows (exported_tables scope d)) False), x)"
    unfolding b_def x_def by (rule import_exported [OF mv empty assms(1-4)])
  let ?row = "imported_row ?ws mid (bu_fingerprint b) (format_nano t3)"
  define w1 where "w1 = x\<lparr>db := (db x)\<lparr>rd_controls := rd_controls (db x) @ [?row]\<rparr>\<rparr>"
  have w1: "outcomes w1 = []" "workspace_row ?ws (rd_controls (db w1)) = Some ?row" "exported_tables scope (db w1) = exported_tables scope d"
    using x none by (simp_all add: w1_def workspace_row_append imported_row_def)
  have ok1: "controls_ok (rd_controls (db w1))"
    using ok none x(2) imported_phase [OF assms(6)] by (auto simp: w1_def imported_row_def intro!: controls_ok_append)
  have rec: "record_imported_migration raw_controls ?ws (bu_migration b) (bu_fingerprint b) t3 x = (Inr (control_report ?ws (db w1)), w1)"
    using import_record_run [OF x(1) assms(2,3), of mid "bu_fingerprint b" t3] assms(5-7) fp none x(2) by (simp add: w1_def)
  have fresh: "control_report ?ws (db w) = control_of_row ?ws None 0" using none by (simp add: control_report_def)
  have imported: "module_import tgt t3 b w = (Inr (receipt_of b (table_rows (exported_tables scope d)) False), w1)"
    using migration_status_run [OF assms(1-3)] im rec tgt [folded b_def]
    by (simp add: module_import_def validated_def raw_portability_def bind_io_def ret_def fresh already_imported_def control_of_row_def)
  have matches: "transition_matches ?ws (trim_space mid) ''target'' ''imported'' (trim_space (bu_fingerprint b)) ?row"
    using assms(5) fp(1) by (simp add: transition_matches_def imported_row_def)
  note cut = transition_run [where before = "(''target'', ''imported'')" and after = "(''target'', ''cutover'')" and ws = ?ws and mid = mid and f = "bu_fingerprint b"
      and at = t4 and w = w1 and r = ?row, OF w1(1) assms(2,3) _ _ assms(8) ok1 w1(2), unfolded fst_conv snd_conv, OF _ _ matches]
  from cut assms(5,6) fp(1,2) w1(3) obtain w2 where w2:
    "transition_migration raw_controls ?ws mid (''target'', ''imported'') (''target'', ''cutover'') (bu_fingerprint b) t4 w1 = (Inr (control_report ?ws (db w2)), w2)"
    "workspace_row ?ws (rd_controls (db w2)) = Some (transitioned ''target'' ''cutover'' (bu_fingerprint b) (format_nano t4) ?row)"
    "exported_tables scope (db w2) = exported_tables scope d" by auto
  have "module_activate tgt \<lparr>mc_migration = mid, mc_fingerprint = bu_fingerprint b, mc_at = t4\<rparr> w1 = (Inr (migration_status_contract (control_report ?ws (db w2))), w2)"
    if "md_command tgt \<lparr>mc_migration = mid, mc_fingerprint = bu_fingerprint b, mc_at = t4\<rparr> True = None"
    using w2(1) tgt that by (simp add: module_activate_def validated_def reporting_def raw_portability_def bind_io_def ret_def activate_migration_def)
  moreover have "ct_state (migration_status_contract (control_report ?ws (db w2))) = ''cutover''"
    using w2(2) by (simp add: migration_status_contract_def control_report_def control_of_row_def transitioned_def)
  moreover have "phase_at ?ws (rd_controls (db w2)) = Some (Cutover mid (bu_fingerprint b))"
    using w2(2) assms(6) by (simp add: phase_at_def row_phase_def transitioned_def imported_row_def)
  moreover have "phase_at ?ws (rd_controls (db w1)) = Some (Imported mid (bu_fingerprint b))"
    using w1(2) imported_phase [OF assms(6)] by (simp add: phase_at_def)
  ultimately show thesis using that [OF imported w1(3)] w2(3) by meson
qed


text \<open>
  A module whose checks are as strict as the fields of the contract allow: a command needs a migration, a time and,
  where the operation is about a bundle, its fingerprint; an envelope needs the portable format, a migration and a fingerprint.
\<close>

definition strict_module :: "(column_kind \<Rightarrow> sql_value \<Rightarrow> sql_value) \<Rightarrow> portable_scope \<Rightarrow> raw_database migration_module" where
  "strict_module stored scope = \<lparr>md_store = raw_portability stored, md_scope = scope,
     md_command = (\<lambda>c pinned. if trim_space (mc_migration c) = [] \<or> mc_at c = zero_time \<or> pinned \<and> mc_fingerprint c = []
       then Some (ErrorText ''notification migration command is invalid'') else None),
     md_envelope = (\<lambda>b. if bu_format b \<noteq> portable_format \<or> trim_space (bu_migration b) = [] \<or> bu_fingerprint b = []
       then Some (ErrorText ''notification portable bundle is invalid'') else None)\<rparr>"


end
