(* ===== verification/Governance_Metrics.thy ===== *)
theory Governance_Metrics
  imports Mailbox_Manager "HOL-Library.Multiset"
begin

text \<open>
  The governance metrics of a workspace: governance_metrics.go of internal/infrastructure/persistence/database/inbox, the
  records of domain/inbox/model/metrics.go, and \<open>GovernanceMetrics\<close> of the mailbox manager. Seven statements, each an
  aggregate over the rows of the workspace since a lower bound: a summary of the inbox, the same grouped by four columns,
  and the failures of the event worker with two groupings. Groups come largest first, then by key.
\<close>

record aggregate =
  ag_key :: string
  ag_items :: int
  ag_occurrences :: int
  ag_unread :: int
  ag_actions :: int
  ag_alerts :: int

record failure_aggregate =
  fg_key :: string
  fg_count :: int

record failure_metrics =
  fm_total :: int
  fm_retry :: int
  fm_dead :: int
  fm_stage :: "failure_aggregate list"
  fm_code :: "failure_aggregate list"

record governance_metrics =
  gv_since :: string
  gv_generated :: string
  gv_summary :: aggregate
  gv_failures :: failure_metrics
  gv_event_type :: "aggregate list"
  gv_category :: "aggregate list"
  gv_severity :: "aggregate list"
  gv_source :: "aggregate list"

section \<open>Statements\<close>

definition count_of :: "('r \<Rightarrow> bool) \<Rightarrow> 'r list \<Rightarrow> int" where
  "count_of P rs = int (length (filter P rs))"

text \<open>\<open>inboxAggregateProjections\<close>.\<close>

definition inbox_aggregate :: "string \<Rightarrow> item_row list \<Rightarrow> aggregate" where
  "inbox_aggregate key rs = \<lparr>ag_key = key, ag_items = int (length rs), ag_occurrences = sum_list (map ir_occurrences rs),
     ag_unread = count_of (\<lambda>r. ir_read r = []) rs, ag_actions = count_of (\<lambda>r. ir_action_state r = ''open'') rs,
     ag_alerts = count_of (\<lambda>r. ir_alert_state r = ''firing'') rs\<rparr>"

text \<open>\<open>GROUP BY column ORDER BY COUNT( * ) DESC, column\<close>.\<close>

definition groups_by :: "('r \<Rightarrow> string) \<Rightarrow> 'r list \<Rightarrow> (string \<times> 'r list) list" where
  "groups_by column rs = sort_key (\<lambda>(k, g). (- int (length g), k))
     (map (\<lambda>k. (k, filter (\<lambda>r. column r = k) rs)) (remdups (map column rs)))"

definition metric_items :: "workspace_id \<Rightarrow> string \<Rightarrow> database \<Rightarrow> item_row list" where
  "metric_items ws since d = filter (\<lambda>r. ir_workspace r = ws \<and> since \<le> ir_last r) (db_items d)"

definition metric_failures :: "workspace_id \<Rightarrow> string \<Rightarrow> database \<Rightarrow> event_failure list" where
  "metric_failures ws since d = filter (\<lambda>r. ef_workspace r = ws \<and> since \<le> ef_occurred r) (db_failures d)"

definition inbox_aggregate_summary :: "workspace_id \<Rightarrow> string \<Rightarrow> aggregate sql" where
  "inbox_aggregate_summary ws since =
     wrapping ''aggregate notification inbox metrics'' (query (\<lambda>d. inbox_aggregate [] (metric_items ws since d)))"

definition inbox_aggregate_rows :: "workspace_id \<Rightarrow> string \<Rightarrow> string \<times> (item_row \<Rightarrow> string) \<Rightarrow> aggregate list sql" where
  "inbox_aggregate_rows ws since dimension = wrapping (''aggregate notification inbox metrics by '' @ fst dimension)
     (query (\<lambda>d. map (\<lambda>(k, g). inbox_aggregate k g) (groups_by (snd dimension) (metric_items ws since d))))"

definition failure_counts :: "event_failure list \<Rightarrow> failure_metrics" where
  "failure_counts rs = \<lparr>fm_total = int (length rs), fm_retry = count_of (\<lambda>r. ef_disposition r = ''retry_scheduled'') rs,
     fm_dead = count_of (\<lambda>r. ef_disposition r = ''dead_letter'') rs, fm_stage = [], fm_code = []\<rparr>"

definition failure_rows :: "workspace_id \<Rightarrow> string \<Rightarrow> string \<times> (event_failure \<Rightarrow> string) \<Rightarrow> failure_aggregate list sql" where
  "failure_rows ws since dimension = wrapping (''aggregate notification event failures by '' @ fst dimension)
     (query (\<lambda>d. map (\<lambda>(k, g). \<lparr>fg_key = k, fg_count = int (length g)\<rparr>) (groups_by (snd dimension) (metric_failures ws since d))))"

definition event_failure_metrics :: "workspace_id \<Rightarrow> string \<Rightarrow> failure_metrics sql" where
  "event_failure_metrics ws since =
     bind_io (wrapping ''aggregate notification event failures'' (query (\<lambda>d. failure_counts (metric_failures ws since d)))) (\<lambda>m.
     bind_io (failure_rows ws since (''stage'', ef_stage)) (\<lambda>stages.
     bind_io (failure_rows ws since (''error_code'', ef_error_code)) (\<lambda>codes.
     ret (m\<lparr>fm_stage := stages, fm_code := codes\<rparr>))))"

definition store_governance_metrics :: "instant \<Rightarrow> workspace_id \<Rightarrow> string \<Rightarrow> governance_metrics sql" where
  "store_governance_metrics now ws since0 = (let since = trim_space since0 in
     guard_io (ws = [] \<or> since = []) (ErrorText ''notification governance metrics workspace and lower bound are required'')
      (bind_io (inbox_aggregate_summary ws since) (\<lambda>summary.
       bind_io (inbox_aggregate_rows ws since (''event_type'', ir_event_type)) (\<lambda>types.
       bind_io (inbox_aggregate_rows ws since (''category'', ir_category)) (\<lambda>categories.
       bind_io (inbox_aggregate_rows ws since (''severity'', ir_severity)) (\<lambda>severities.
       bind_io (inbox_aggregate_rows ws since (''source'', ir_source)) (\<lambda>sources.
       bind_io (event_failure_metrics ws since) (\<lambda>failures.
       ret \<lparr>gv_since = since, gv_generated = timestamp now, gv_summary = summary\<lparr>ag_key := ''all''\<rparr>, gv_failures = failures,
         gv_event_type = types, gv_category = categories, gv_severity = severities, gv_source = sources\<rparr>))))))))"

type_synonym 'w metrics_store = "workspace_id \<Rightarrow> string \<Rightarrow> ('w, governance_metrics) io"

definition mailbox_metrics :: "'w metrics_store option \<Rightarrow> workspace_id \<Rightarrow> string \<Rightarrow> ('w, governance_metrics) io" where
  "mailbox_metrics store ws0 since = (let ws = trim_space ws0; code = ''backend.notification.inbox_metrics_unavailable'' in
     guard_io (ws = []) (unavailable code None [])
       (available_store code store (\<lambda>s. s ws (trim_space since))))"

section \<open>Groups\<close>

lemma groups_set: "(k, g) \<in> set (groups_by f rs) \<longleftrightarrow> k \<in> f ` set rs \<and> g = filter (\<lambda>r. f r = k) rs"
  by (auto simp: groups_by_def)

lemma groups_distinct: "distinct (map fst (groups_by f rs))"
proof -
  let ?gs = "map (\<lambda>k. (k, filter (\<lambda>r. f r = k) rs)) (remdups (map f rs))"
  have "mset (map fst (groups_by f rs)) = mset (map fst ?gs)" unfolding groups_by_def mset_map mset_sort ..
  moreover have "map fst ?gs = remdups (map f rs)" by (simp add: o_def)
  ultimately show ?thesis by (metis distinct_remdups mset_eq_imp_distinct_iff)
qed

lemma groups_sorted: "sorted_wrt (\<lambda>(k, g) (l, h). length h < length g \<or> length h = length g \<and> k \<le> l) (groups_by f rs)"
proof -
  have "sorted (map (\<lambda>(k, g). (- int (length g), k)) (groups_by f rs))" unfolding groups_by_def by (rule sorted_sort_key)
  then show ?thesis by (auto simp: sorted_map less_eq_prod_def elim!: sorted_wrt_mono_rel [rotated])
qed

text \<open>A sum over rows is the sum over the groups of their sums.\<close>

lemma sum_list_remdups:
  fixes h :: "'k \<Rightarrow> int"
  assumes "distinct ks" "set rs \<subseteq> {r. f r \<in> set ks}"
  shows "sum_list (map (\<lambda>k. sum_list (map w (filter (\<lambda>r. f r = k) rs))) ks) = sum_list (map (w :: 'r \<Rightarrow> int) rs)"
  using assms
proof (induction rs)
  case (Cons r rs)
  have "(\<Sum>k\<leftarrow>ks. sum_list (map w (filter (\<lambda>x. f x = k) (r # rs)))) =
      (\<Sum>k\<leftarrow>ks. (if k = f r then w r else 0) + sum_list (map w (filter (\<lambda>x. f x = k) rs)))"
    by (intro arg_cong [where f = sum_list] map_cong) auto
  also have "\<dots> = (\<Sum>k\<leftarrow>ks. if k = f r then w r else 0) + (\<Sum>k\<leftarrow>ks. sum_list (map w (filter (\<lambda>x. f x = k) rs)))"
    by (rule sum_list_addf)
  also have "(\<Sum>k\<leftarrow>ks. if k = f r then w r else 0) = w r"
    using Cons.prems by (simp add: sum_list_distinct_conv_sum_set)
  also have "(\<Sum>k\<leftarrow>ks. sum_list (map w (filter (\<lambda>x. f x = k) rs))) = sum_list (map w rs)" using Cons by auto
  finally show ?case by simp
qed simp

lemma groups_sum: "sum_list (map (\<lambda>(k, g). sum_list (map w g)) (groups_by f rs)) = sum_list (map (w :: 'r \<Rightarrow> int) rs)"
proof -
  let ?gs = "map (\<lambda>k. (k, filter (\<lambda>r. f r = k) rs)) (remdups (map f rs))"
  have "mset (map (\<lambda>(k, g). sum_list (map w g)) (groups_by f rs)) = mset (map (\<lambda>(k, g). sum_list (map w g)) ?gs)"
    unfolding groups_by_def mset_map mset_sort ..
  from arg_cong [OF this, of sum_mset]
  have "sum_list (map (\<lambda>(k, g). sum_list (map w g)) (groups_by f rs)) = sum_list (map (\<lambda>(k, g). sum_list (map w g)) ?gs)"
    by (simp only: sum_mset_sum_list)
  also have "\<dots> = (\<Sum>k\<leftarrow>remdups (map f rs). sum_list (map w (filter (\<lambda>r. f r = k) rs)))" by (simp add: o_def)
  also have "\<dots> = sum_list (map w rs)" by (rule sum_list_remdups) auto
  finally show ?thesis .
qed

lemma count_of_sum: "count_of P rs = sum_list (map (\<lambda>r. if P r then 1 else 0) rs)"
  by (induction rs) (simp_all add: count_of_def)

lemma length_sum: "int (length rs) = sum_list (map (\<lambda>r. 1) rs)"
  by (induction rs) simp_all

section \<open>The report\<close>

text \<open>
  What a figure of the report means, written over the rows: \<open>summarises a rs\<close> says that \<open>a\<close> counts the rows
  \<open>rs\<close>, and \<open>groups_exactly\<close> that a list of figures has one entry for every value of a column, none
  empty, each over exactly the rows with that value, the largest first and then by key.
\<close>

definition summarises :: "aggregate \<Rightarrow> item_row list \<Rightarrow> bool" where
  "summarises a rs \<longleftrightarrow> ag_items a = int (length rs) \<and> ag_occurrences a = (\<Sum>r\<leftarrow>rs. ir_occurrences r) \<and>
     ag_unread a = int (length [r \<leftarrow> rs. ir_read r = '''']) \<and>
     ag_actions a = int (length [r \<leftarrow> rs. ir_action_state r = ''open'']) \<and>
     ag_alerts a = int (length [r \<leftarrow> rs. ir_alert_state r = ''firing''])"

definition groups_exactly :: "(item_row \<Rightarrow> string) \<Rightarrow> aggregate list \<Rightarrow> item_row list \<Rightarrow> bool" where
  "groups_exactly column gs rs \<longleftrightarrow> set (map ag_key gs) = column ` set rs \<and> distinct (map ag_key gs) \<and>
     (\<forall>g \<in> set gs. 0 < ag_items g \<and> summarises g [r \<leftarrow> rs. column r = ag_key g]) \<and>
     sorted_wrt (\<lambda>a b. ag_items b < ag_items a \<or> ag_items a = ag_items b \<and> ag_key a \<le> ag_key b) gs"

definition failures_exactly :: "(event_failure \<Rightarrow> string) \<Rightarrow> failure_aggregate list \<Rightarrow> event_failure list \<Rightarrow> bool" where
  "failures_exactly column gs rs \<longleftrightarrow> set (map fg_key gs) = column ` set rs \<and> distinct (map fg_key gs) \<and>
     (\<forall>g \<in> set gs. 0 < fg_count g \<and> fg_count g = int (length [r \<leftarrow> rs. column r = fg_key g])) \<and>
     sorted_wrt (\<lambda>a b. fg_count b < fg_count a \<or> fg_count a = fg_count b \<and> fg_key a \<le> fg_key b) gs"

text \<open>The figures of the groups add up to the summary.\<close>

definition adds_up :: "aggregate \<Rightarrow> aggregate list \<Rightarrow> bool" where
  "adds_up s gs \<longleftrightarrow>
     sum_list (map ag_items gs) = ag_items s \<and> sum_list (map ag_occurrences gs) = ag_occurrences s \<and>
     sum_list (map ag_unread gs) = ag_unread s \<and> sum_list (map ag_actions gs) = ag_actions s \<and>
     sum_list (map ag_alerts gs) = ag_alerts s"

lemma aggregate_summarises: "summarises (inbox_aggregate key rs) rs"
  by (simp add: summarises_def inbox_aggregate_def count_of_def)

lemma group_nonempty: "(k, g) \<in> set (groups_by f rs) \<Longrightarrow> 0 < length g"
  unfolding groups_set by (auto simp: filter_empty_conv)

lemma groups_keys: "fst ` set (groups_by f rs) = f ` set rs"
  by (auto simp: groups_set Domain_fst [symmetric] Domain_iff)

lemma grouped_rows: "groups_exactly f (map (\<lambda>(k, g). inbox_aggregate k g) (groups_by f rs)) rs"
  unfolding groups_exactly_def
proof (intro conjI)
  let ?gs = "map (\<lambda>(k, g). inbox_aggregate k g) (groups_by f rs)"
  have keys: "map ag_key ?gs = map fst (groups_by f rs)" by (auto simp: inbox_aggregate_def)
  show "set (map ag_key ?gs) = f ` set rs" unfolding keys set_map by (rule groups_keys)
  show "distinct (map ag_key ?gs)" unfolding keys by (rule groups_distinct)
  show "\<forall>g \<in> set ?gs. 0 < ag_items g \<and> summarises g [r \<leftarrow> rs. f r = ag_key g]"
    using group_nonempty aggregate_summarises by (fastforce simp: groups_set inbox_aggregate_def)
  show "sorted_wrt (\<lambda>a b. ag_items b < ag_items a \<or> ag_items a = ag_items b \<and> ag_key a \<le> ag_key b) ?gs"
    unfolding sorted_wrt_map by (rule sorted_wrt_mono_rel [OF _ groups_sorted]) (auto simp: inbox_aggregate_def)
qed

lemma grouped_failures:
  "failures_exactly f (map (\<lambda>(k, g). \<lparr>fg_key = k, fg_count = int (length g)\<rparr>) (groups_by f rs)) rs"
  unfolding failures_exactly_def
proof (intro conjI)
  let ?gs = "map (\<lambda>(k, g). \<lparr>fg_key = k, fg_count = int (length g)\<rparr>) (groups_by f rs)"
  have keys: "map fg_key ?gs = map fst (groups_by f rs)" by auto
  show "set (map fg_key ?gs) = f ` set rs" unfolding keys set_map by (rule groups_keys)
  show "distinct (map fg_key ?gs)" unfolding keys by (rule groups_distinct)
  show "\<forall>g \<in> set ?gs. 0 < fg_count g \<and> fg_count g = int (length [r \<leftarrow> rs. f r = fg_key g])"
    using group_nonempty by (fastforce simp: groups_set)
  show "sorted_wrt (\<lambda>a b. fg_count b < fg_count a \<or> fg_count a = fg_count b \<and> fg_key a \<le> fg_key b) ?gs"
    unfolding sorted_wrt_map by (rule sorted_wrt_mono_rel [OF _ groups_sorted]) auto
qed

lemma groups_projection:
  fixes w :: "item_row \<Rightarrow> int"
  assumes "\<And>k g. h (inbox_aggregate k g) = sum_list (map w g)"
  shows "sum_list (map h (map (\<lambda>(k, g). inbox_aggregate k g) (groups_by f rs))) = h (inbox_aggregate key rs)"
proof -
  have "map h (map (\<lambda>(k, g). inbox_aggregate k g) (groups_by f rs)) = map (\<lambda>(k, g). sum_list (map w g)) (groups_by f rs)"
    using assms by (auto simp: fun_eq_iff)
  then have "sum_list (map h (map (\<lambda>(k, g). inbox_aggregate k g) (groups_by f rs))) = sum_list (map w rs)"
    by (simp only: groups_sum)
  then show ?thesis by (simp only: assms)
qed

lemma grouped_items: "adds_up (inbox_aggregate key rs) (map (\<lambda>(k, g). inbox_aggregate k g) (groups_by f rs))"
  unfolding adds_up_def
proof (intro conjI)
  let ?gs = "map (\<lambda>(k, g). inbox_aggregate k g) (groups_by f rs)"
  show "sum_list (map ag_items ?gs) = ag_items (inbox_aggregate key rs)"
    by (rule groups_projection [where w = "\<lambda>_. 1"]) (simp add: inbox_aggregate_def length_sum)
  show "sum_list (map ag_occurrences ?gs) = ag_occurrences (inbox_aggregate key rs)"
    by (rule groups_projection [where w = ir_occurrences]) (simp add: inbox_aggregate_def)
  show "sum_list (map ag_unread ?gs) = ag_unread (inbox_aggregate key rs)"
    by (rule groups_projection) (simp add: inbox_aggregate_def count_of_sum)
  show "sum_list (map ag_actions ?gs) = ag_actions (inbox_aggregate key rs)"
    by (rule groups_projection) (simp add: inbox_aggregate_def count_of_sum)
  show "sum_list (map ag_alerts ?gs) = ag_alerts (inbox_aggregate key rs)"
    by (rule groups_projection) (simp add: inbox_aggregate_def count_of_sum)
qed

text \<open>C40: The governance report counts the rows it is about. With \<open>items\<close> the inbox rows of the workspace last seen at or
  after the bound, and \<open>failures\<close> the failures of the workspace from the bound on: the summary counts all, unread,
  open and firing rows of \<open>items\<close>; each grouping has exactly one entry for every event type, category, severity and
  source that occurs, over exactly the rows with it, the largest first, and the entries add up to the summary;
  the failures are counted in all, as retried, as given up, by stage and by error code in the same way. Reading
  the report changes nothing.\<close>

theorem governance_adds_up:
  assumes "store_governance_metrics now ws since w = (Inr m, w')"
  defines "items \<equiv> [r \<leftarrow> db_items (db w). ir_workspace r = ws \<and> trim_space since \<le> ir_last r]"
    and "failures \<equiv> [r \<leftarrow> db_failures (db w). ef_workspace r = ws \<and> trim_space since \<le> ef_occurred r]"
  shows "db w' = db w \<and> gv_since m = trim_space since \<and> gv_generated m = timestamp now \<and>
    ag_key (gv_summary m) = ''all'' \<and> summarises (gv_summary m) items \<and>
    groups_exactly ir_event_type (gv_event_type m) items \<and> groups_exactly ir_category (gv_category m) items \<and>
    groups_exactly ir_severity (gv_severity m) items \<and> groups_exactly ir_source (gv_source m) items \<and>
    list_all (adds_up (gv_summary m)) [gv_event_type m, gv_category m, gv_severity m, gv_source m] \<and>
    fm_total (gv_failures m) = int (length failures) \<and>
    fm_retry (gv_failures m) = int (length [r \<leftarrow> failures. ef_disposition r = ''retry_scheduled'']) \<and>
    fm_dead (gv_failures m) = int (length [r \<leftarrow> failures. ef_disposition r = ''dead_letter'']) \<and>
    failures_exactly ef_stage (fm_stage (gv_failures m)) failures \<and>
    failures_exactly ef_error_code (fm_code (gv_failures m)) failures"
proof -
  let ?g = "\<lambda>f. map (\<lambda>(k, g). inbox_aggregate k g) (groups_by f items)"
  let ?h = "\<lambda>f. map (\<lambda>(k, g). \<lparr>fg_key = k, fg_count = int (length g)\<rparr>) (groups_by f failures)"
  have rows: "metric_items ws (trim_space since) (db w) = items" "metric_failures ws (trim_space since) (db w) = failures"
    by (simp_all add: items_def failures_def metric_items_def metric_failures_def)
  from assms(1) have m: "db w' = db w \<and> m = \<lparr>gv_since = trim_space since, gv_generated = timestamp now,
      gv_summary = inbox_aggregate ''all'' items, gv_failures = (failure_counts failures)\<lparr>fm_stage := ?h ef_stage, fm_code := ?h ef_error_code\<rparr>,
      gv_event_type = ?g ir_event_type, gv_category = ?g ir_category, gv_severity = ?g ir_severity, gv_source = ?g ir_source\<rparr>"
    unfolding rows [symmetric]
    by (auto simp: store_governance_metrics_def Let_def guard_io_Inr bind_io_Inr wrapping_Inr inbox_aggregate_summary_def inbox_aggregate_rows_def
        event_failure_metrics_def failure_rows_def inbox_aggregate_def ret_def dest!: query_Inr)
  have key: "ag_key (inbox_aggregate ''all'' items) = ''all''" by (simp add: inbox_aggregate_def)
  show ?thesis
    using m key grouped_items [of "''all''" items] grouped_rows [of _ items] grouped_failures [of _ failures] aggregate_summarises [of "''all''" items]
    by (simp add: failure_counts_def count_of_def)
qed

lemma governance_run:
  assumes "outcomes w = []" "ws \<noteq> []" "trim_space since \<noteq> []"
  shows "\<exists>m. store_governance_metrics now ws since w = (Inr m, w)"
  using assms by (simp add: store_governance_metrics_def Let_def guard_io_def bind_io_def wrapping_def query_run inbox_aggregate_summary_def
      inbox_aggregate_rows_def event_failure_metrics_def failure_rows_def ret_def)

definition reported_database :: database where
  "reported_database = empty_database\<lparr>db_items := [new_item_row sample_item,
     new_item_row (sample_item\<lparr>it_id := ''i2'', it_category := ''stock'', it_read := ''2026-01-02''\<rparr>),
     new_item_row (sample_item\<lparr>it_id := ''i3'', it_workspace := ''other''\<rparr>)]\<rparr>"

text \<open>Two rows of the workspace, one of them read; a third belongs to another workspace.\<close>

lemma governance_adds_up_witness:
  "\<exists>m. store_governance_metrics 5 ''ws'' ''2025'' (calm_world reported_database) = (Inr m, calm_world reported_database) \<and>
    ag_items (gv_summary m) = 2 \<and> ag_unread (gv_summary m) = 1 \<and> ag_key ` set (gv_category m) = {''orders'', ''stock''}"
proof -
  let ?rows = "[r \<leftarrow> db_items (db (calm_world reported_database)). ir_workspace r = ''ws'' \<and> trim_space ''2025'' \<le> ir_last r]"
  have "trim_space ''2025'' = ''2025''" by code_simp
  then obtain m where run: "store_governance_metrics 5 ''ws'' ''2025'' (calm_world reported_database) = (Inr m, calm_world reported_database)"
    using governance_run [of "calm_world reported_database" "''ws''" "''2025''" 5] by auto
  have rows: "length ?rows = 2 \<and> length [r \<leftarrow> ?rows. ir_read r = ''''] = 1 \<and> ir_category ` set ?rows = {''orders'', ''stock''}" by code_simp
  have "summarises (gv_summary m) ?rows \<and> groups_exactly ir_category (gv_category m) ?rows"
    using governance_adds_up [OF run] by blast
  with run rows show ?thesis unfolding summarises_def groups_exactly_def by simp
qed

end
