(* ===== verification/Access_Control.thy ===== *)
theory Access_Control
  imports Go_Time Model
begin

text \<open>
  Who may call the module: base/exact_permission.go of internal/infrastructure/persistence, and \<open>authenticate\<close> and
  \<open>authorizeAction\<close> of internal/assembly/module/binding.go. Identities come from the identity SDK, which is not part of the
  repository: a \<open>principal\<close> has the fields the code reads, and the SDK's functions are the fields of \<open>identity\<close>: the
  validation of the credentials, their resolution to a principal, \<open>Principal.HasPermission\<close>,
  \<open>evaluator.CompileRecordFilter\<close> and \<open>Authorization().Reauthorize\<close>. Nothing is assumed of them.
\<close>

section \<open>Identities\<close>

datatype policy_effect = EffectAllow | OtherEffect string

datatype record_scope = DataScopeAll | OtherScope string

record data_policy =
  dp_resource :: string
  dp_action :: string
  dp_effect :: policy_effect
  dp_scopes :: "record_scope list"

record access_bundle =
  ab_workspace :: string
  ab_policies :: "data_policy list"

record principal =
  pn_known :: bool
  pn_workspace :: string
  pn_user :: string
  pn_reporting :: "string list"
  pn_bundle :: "access_bundle option"
  pn_revision :: string

record record_filter =
  rf_unrestricted :: bool
  rf_denied :: int

record decision_request =
  dr_principal :: principal
  dr_token :: string
  dr_object :: string
  dr_action :: string
  dr_facts :: "(string \<times> string) list"

record identity =
  id_valid :: "string \<Rightarrow> err option"
  id_authenticate :: "string \<Rightarrow> err + principal"
  id_permits :: "principal \<Rightarrow> string \<Rightarrow> bool"
  id_filter :: "access_bundle \<Rightarrow> string \<Rightarrow> string \<Rightarrow> instant \<Rightarrow> err + record_filter"
  id_reauthorize :: "decision_request \<Rightarrow> err + (bool \<times> string)"

section \<open>Exact permissions\<close>

text \<open>\<open>strings.LastIndex(key, ".")\<close> with both sides of it non-empty.\<close>

definition action_parts :: "string \<Rightarrow> (string \<times> string) option" where
  "action_parts key =
    (let operation = takeWhile (\<lambda>c. c \<noteq> CHR ''.'') (List.rev key); object = List.rev (drop (Suc (length operation)) (List.rev key)) in
     if CHR ''.'' \<notin> set key \<or> object = [] \<or> operation = [] then None else Some (object, List.rev operation))"

definition permission_denied :: err where
  "permission_denied = Sentinel ErrExactPermissionDenied"

definition allows_all :: "data_policy \<Rightarrow> bool" where
  "allows_all p \<longleftrightarrow> dp_effect p = EffectAllow \<and> dp_scopes p = [DataScopeAll]"

definition matching_policies :: "access_bundle \<Rightarrow> string \<Rightarrow> string \<Rightarrow> data_policy list" where
  "matching_policies b object operation = filter (\<lambda>p. dp_resource p = object \<and> dp_action p = operation) (ab_policies b)"

definition exact_permission :: "identity \<Rightarrow> principal \<Rightarrow> string \<Rightarrow> workspace_id \<Rightarrow> instant \<Rightarrow> err + string" where
  "exact_permission idn p permission workspace now =
    (let key = trim_space permission; ws = trim_space workspace in
     case (action_parts key, pn_bundle p) of
       (Some (object, operation), Some b) \<Rightarrow>
         if \<not> id_permits idn p key then Inl permission_denied
         else if \<not> pn_known p \<or> trim_space (pn_workspace p) \<noteq> ws \<or> trim_space (ab_workspace b) \<noteq> ws then Inl permission_denied
         else if list_ex (\<lambda>d. \<not> allows_all d) (matching_policies b object operation) then Inl permission_denied
         else if matching_policies b object operation = [] then Inl permission_denied
         else (case id_filter idn b object operation now of
           Inl e \<Rightarrow> Inl (Wrapped [] permission_denied)
         | Inr f \<Rightarrow> if \<not> rf_unrestricted f \<or> rf_denied f \<noteq> 0 then Inl permission_denied else Inr key)
     | _ \<Rightarrow> Inl permission_denied)"

section \<open>The binding's checks\<close>

definition scope_mismatch :: err where
  "scope_mismatch = SdkError 403 ''notification.application_scope_mismatch'' False None"

definition action_denied :: "err option \<Rightarrow> err" where
  "action_denied cause = SdkError 403 ''notification.permission_denied'' False cause"

definition authenticate :: "identity \<Rightarrow> workspace_id \<Rightarrow> string \<Rightarrow> err + principal" where
  "authenticate idn ws token =
    (case id_valid idn token of Some e \<Rightarrow> Inl e
     | None \<Rightarrow> (case id_authenticate idn token of Inl e \<Rightarrow> Inl e
       | Inr p \<Rightarrow> if \<not> pn_known p \<or> trim_space (pn_workspace p) \<noteq> ws \<or> trim_space (pn_user p) = [] \<or> pn_bundle p = None
           then Inl scope_mismatch else Inr p))"

definition reauthorization :: "principal \<Rightarrow> string \<Rightarrow> string \<times> string \<Rightarrow> workspace_id \<Rightarrow> string \<Rightarrow> decision_request" where
  "reauthorization p token parts ws app = \<lparr>dr_principal = p, dr_token = token, dr_object = fst parts, dr_action = snd parts,
     dr_facts = [(''workspace_id'', ws), (''application_key'', app)]\<rparr>"

definition reauthorize_action :: "identity \<Rightarrow> workspace_id \<Rightarrow> string \<Rightarrow> string \<Rightarrow> string \<times> string \<Rightarrow> principal \<Rightarrow> err + principal" where
  "reauthorize_action idn ws app token parts p =
    (case id_reauthorize idn (reauthorization p token parts ws app) of
       Inl e \<Rightarrow> Inl (SdkError 503 ''notification.identity_reauthorization_failed'' True (Some e))
     | Inr (allowed, revision) \<Rightarrow> if \<not> allowed then Inl (action_denied None) else Inr (p\<lparr>pn_revision := revision\<rparr>))"

definition authorize_action ::
  "identity \<Rightarrow> workspace_id \<Rightarrow> string \<Rightarrow> string \<Rightarrow> string \<Rightarrow> bool \<Rightarrow> instant \<Rightarrow> err + principal" where
  "authorize_action idn ws app token action again now =
    (case authenticate idn ws token of Inl e \<Rightarrow> Inl e
     | Inr p \<Rightarrow> (let key = trim_space action in
       case action_parts key of None \<Rightarrow> Inl (action_denied None)
       | Some parts \<Rightarrow>
           if \<not> id_permits idn p key then Inl (action_denied None)
           else (case exact_permission idn p key ws now of Inl e \<Rightarrow> Inl (action_denied (Some e))
             | Inr _ \<Rightarrow> if \<not> again then Inr p else reauthorize_action idn ws app token parts p)))"

section \<open>What an authorization means\<close>

lemma action_parts_join: "action_parts key = Some (object, operation) \<Longrightarrow> key = object @ ''.'' @ operation \<and> CHR ''.'' \<notin> set operation"
proof -
  assume parts: "action_parts key = Some (object, operation)"
  let ?op = "takeWhile (\<lambda>c. c \<noteq> CHR ''.'') (List.rev key)"
  from parts have dot: "CHR ''.'' \<in> set key" and op: "operation = List.rev ?op" and ob: "object = List.rev (drop (Suc (length ?op)) (List.rev key))"
    by (auto simp: action_parts_def Let_def split: if_splits)
  from dot have "dropWhile (\<lambda>c. c \<noteq> CHR ''.'') (List.rev key) \<noteq> []" by (simp add: dropWhile_eq_Nil_conv)
  then obtain c rest where drop: "dropWhile (\<lambda>c. c \<noteq> CHR ''.'') (List.rev key) = c # rest" by (cases "dropWhile (\<lambda>c. c \<noteq> CHR ''.'') (List.rev key)") auto
  then have "c = CHR ''.''" using hd_dropWhile [of "\<lambda>c. c \<noteq> CHR ''.''" "List.rev key"] by auto
  with drop have whole: "List.rev key = ?op @ CHR ''.'' # rest" using takeWhile_dropWhile_id [of "\<lambda>c. c \<noteq> CHR ''.''" "List.rev key"] by simp
  then have "drop (Suc (length ?op)) (List.rev key) = drop (Suc (length ?op)) (?op @ CHR ''.'' # rest)" by (rule arg_cong)
  also have "\<dots> = rest" by simp
  finally have "drop (Suc (length ?op)) (List.rev key) = rest" .
  with whole ob op have "List.rev key = List.rev operation @ CHR ''.'' # List.rev object" by simp
  then have "key = object @ ''.'' @ operation" by (metis append_Cons append_Nil append_assoc rev.simps(2) rev_append rev_rev_ident)
  moreover have "CHR ''.'' \<notin> set ?op" by (auto dest: set_takeWhileD)
  then have "CHR ''.'' \<notin> set operation" unfolding op by simp
  ultimately show ?thesis by blast
qed

text \<open>The grant of an action: a known user of the workspace with the permission of exactly that key, and for the resource
  and operation of the key data policies that all allow everything, at least one of them, and no other restriction.\<close>

definition granted_action :: "identity \<Rightarrow> workspace_id \<Rightarrow> string \<Rightarrow> instant \<Rightarrow> principal \<Rightarrow> bool" where
  "granted_action idn ws action now p \<longleftrightarrow> pn_known p \<and> trim_space (pn_workspace p) = ws \<and> trim_space (pn_user p) \<noteq> [] \<and> id_permits idn p (trim_space action) \<and>
     (case (action_parts (trim_space action), pn_bundle p) of
        (Some (object, operation), Some b) \<Rightarrow> trim_space (ab_workspace b) = ws \<and>
          (matching_policies b object operation \<noteq> [] \<and> list_all allows_all (matching_policies b object operation)) \<and>
          (case id_filter idn b object operation now of Inl e \<Rightarrow> False | Inr f \<Rightarrow> rf_unrestricted f \<and> rf_denied f = 0)
      | _ \<Rightarrow> False)"

text \<open>The second look at the identity service that every writing operation takes.\<close>

definition confirmed_action :: "identity \<Rightarrow> workspace_id \<Rightarrow> string \<Rightarrow> string \<Rightarrow> string \<Rightarrow> principal \<Rightarrow> principal \<Rightarrow> bool" where
  "confirmed_action idn ws app token action p0 p \<longleftrightarrow> (case action_parts (trim_space action) of None \<Rightarrow> False
     | Some parts \<Rightarrow> id_reauthorize idn (reauthorization p0 token parts ws app) = Inr (True, pn_revision p) \<and> p = p0\<lparr>pn_revision := pn_revision p\<rparr>)"

lemma authenticate_Inr:
  "authenticate idn ws token = Inr p \<longleftrightarrow> id_valid idn token = None \<and> id_authenticate idn token = Inr p \<and>
     pn_known p \<and> trim_space (pn_workspace p) = ws \<and> trim_space (pn_user p) \<noteq> [] \<and> pn_bundle p \<noteq> None"
  by (auto simp: authenticate_def split: option.splits sum.splits)

lemma exact_permission_Inr:
  assumes "pn_known p" "trim_space (pn_workspace p) = ws"
  shows "exact_permission idn p action ws now = Inr k \<longleftrightarrow> k = trim_space action \<and> id_permits idn p (trim_space action) \<and>
     (case (action_parts (trim_space action), pn_bundle p) of
        (Some (object, operation), Some b) \<Rightarrow> trim_space (ab_workspace b) = ws \<and>
          (matching_policies b object operation \<noteq> [] \<and> list_all allows_all (matching_policies b object operation)) \<and>
          (case id_filter idn b object operation now of Inl e \<Rightarrow> False | Inr f \<Rightarrow> rf_unrestricted f \<and> rf_denied f = 0)
      | _ \<Rightarrow> False)"
proof -
  have "trim_space ws = ws" unfolding assms(2) [symmetric] by (rule trim_space_idem)
  with assms show ?thesis
    by (auto simp: exact_permission_def Let_def list_ex_iff list_all_iff split: option.splits sum.splits if_splits)
qed

lemma trim_action_twice: "exact_permission idn p (trim_space action) ws now = exact_permission idn p action ws now"
  by (simp add: exact_permission_def trim_space_idem)

text \<open>C39: An action is authorized exactly for a principal of the workspace who has the permission of its very key and, for the
  resource and the operation the key names, only data policies that allow everything and at least one of them, with no
  restriction left; an operation that writes needs the consent of the identity service besides, for the same key and the
  binding's own workspace and application.\<close>

theorem authorized_exactly:
  "authorize_action idn ws app token action again now = Inr p \<longleftrightarrow>
    (\<exists>p0. id_valid idn token = None \<and> id_authenticate idn token = Inr p0 \<and> granted_action idn ws action now p0 \<and>
      (if again then confirmed_action idn ws app token action p0 p else p = p0))"
proof (cases "authenticate idn ws token")
  case (Inl e)
  then have no: "authenticate idn ws token \<noteq> Inr p0" for p0 by simp
  have "\<not> (id_valid idn token = None \<and> id_authenticate idn token = Inr p0 \<and> granted_action idn ws action now p0)" for p0
    using no [of p0] by (auto simp: authenticate_Inr granted_action_def split: option.splits)
  with Inl show ?thesis by (auto simp: authorize_action_def)
next
  case (Inr p0)
  then have known: "id_valid idn token = None" "id_authenticate idn token = Inr p0" "pn_known p0" "trim_space (pn_workspace p0) = ws"
    "trim_space (pn_user p0) \<noteq> []" by (simp_all add: authenticate_Inr)
  have grant: "granted_action idn ws action now p0 \<longleftrightarrow> exact_permission idn p0 action ws now = Inr (trim_space action)"
    using exact_permission_Inr [OF known(3,4)] known(3-5) by (simp add: granted_action_def)
  have parts: "granted_action idn ws action now p0 \<Longrightarrow> id_permits idn p0 (trim_space action) \<and> action_parts (trim_space action) \<noteq> None"
    by (auto simp: granted_action_def split: option.splits)
  have "authorize_action idn ws app token action again now = Inr p \<longleftrightarrow> granted_action idn ws action now p0 \<and>
      (if again then confirmed_action idn ws app token action p0 p else p = p0)"
  proof (cases "granted_action idn ws action now p0")
    case True
    with grant parts Inr show ?thesis
      by (cases p, cases p0) (auto simp: authorize_action_def Let_def trim_action_twice reauthorize_action_def confirmed_action_def reauthorization_def
          split: sum.splits option.splits)
  next
    case False
    have "exact_permission idn p0 action ws now \<noteq> Inr k" for k
      using False exact_permission_Inr [OF known(3,4), of idn action now k] grant exact_permission_Inr [OF known(3,4), of idn action now "trim_space action"] by auto
    with False Inr show ?thesis
      by (auto simp: authorize_action_def Let_def trim_action_twice split: sum.splits option.splits if_splits)
  qed
  then show ?thesis using known(1,2) by auto
qed

end
