(* ===== verification/Spec2Isabelle.thy ===== *)
theory Spec2Isabelle
  imports Event_History Plan_Queue Inbox_Processor Policy_Limits Quiet_Hours Delivery_Policy Delivery_Worker
    Template_Safety Publication_Workflow Mailbox_Alerts Mailbox_Owners Catalog_Rules
    Erasure_Rules Retention_Rules Module_Migration Governance_Metrics Access_Control
begin

text \<open>
  A verification development for the Domainry Notification module (Go, internal/ of the
  repository): durable notification events, the inbox they are delivered to, channel plans and
  the delivery policy, and the templates messages are rendered from.

  The program. A producer publishes a compiled event through the inbox publisher; the event
  store keeps it as a row of \<open>_notification_events\<close>. The inbox worker claims due events under a
  lease with a fencing token and materializes each in one transaction: an inbox item per
  recipient, an alert group, and the event's channel plans. The delivery worker claims due
  plans, asks the policy manager (limits, deduplication, quiet hours, preferences), renders the
  template and hands the message to the host's outbox through a dispatcher. Templates are drafted,
  reviewed by a second person and published by the publication processor; every process holds a
  catalog of the published ones.

  Foundations.
  \<^item> \<open>Prelude\<close>, \<open>Go_Strings\<close>, \<open>Go_Time\<close>, \<open>Go_Parse\<close>: the state-and-error monad \<open>('w, 'a) io\<close>,
    list lemmas, byte strings with \<open>strings.TrimSpace\<close> and the like, instants in nanoseconds with
    the civil calendar, \<open>notification.Timestamp\<close> and the parsers of \<open>time.Parse\<close> the code uses.
  \<^item> \<open>Model\<close> (internal/domain/*/model): identities, errors, events, items, plans, templates,
    policies as records; string enumerations stay strings where the code compares strings.
  \<^item> \<open>Schema\<close>, \<open>Sql\<close> (persistence/database/schema/definition.go, base/sql_store.go): the tables as
    row lists with their unique keys, statements and transactions. A statement consumes one
    outcome of the driver: done, refused without effect, or done with the reply lost, so every
    theorem about a store holds under any failures of the database connection. \<open>no_clash\<close> is the
    uniqueness the schema declares, \<open>schema_ok\<close> its conjunction over the tables.
  \<^item> \<open>Sha256\<close>, \<open>Template_Json\<close>: the hash functions, executable, and the JSON encoder under them.
  \<^item> \<open>Lease\<close>: the locale of rows that are claimed by an owner with a lease and a token, and what
    follows for histories of claims; events, plans and publication requests interpret it.

  Events and the inbox.
  \<^item> \<open>Event_Store\<close>, \<open>Event_Queue\<close>, \<open>Event_History\<close> (persistence/database/event): every operation of
    the event store; materialization as one atomic step; at-most-once settling, fencing and
    idempotent enqueueing for every sequence of operations.
  \<^item> \<open>Inbox_Processor\<close> (application/inbox, domain/inbox/service/publisher.go): the worker over the
    store's contract, with the SQL store as interpretation; what a processed event leaves in the inbox of every recipient.

  Plans and delivery.
  \<^item> \<open>Plan_Store\<close>, \<open>Plan_Queue\<close> (persistence/database/delivery/plan_lifecycle.go): plan rows, leases,
    digest batches that complete together or not at all.
  \<^item> \<open>Policy_Store\<close>, \<open>Policy_Limits\<close> (delivery/policy.go): policies, preferences, frequency
    reservations; the hourly limit and the deduplication window hold for every history.
  \<^item> \<open>Quiet_Hours\<close>, \<open>Delivery_Policy\<close> (domain/delivery/service/policy_manager.go): quiet hours
    (their end is exact where the zone's offset is steady), and the evaluation of a delivery over the policy store's contract.
  \<^item> \<open>Delivery_Processor\<close>, \<open>Delivery_Worker\<close> (application/delivery/processor.go): immediate and digest
    deliveries over the contracts of the plan store, the renderer and the dispatcher; what an accepted
    evaluation of a plan books and respects, and what a reported delivery means.

  Templates and publications.
  \<^item> \<open>Template_Tokens\<close>, \<open>Template_Validation\<close> (domain/template/validation): the token grammar and the
    validator. \<open>Template_Render\<close>, \<open>Template_Safety\<close> (domain/template/service): rendering, and that
    an HTML body holds only escaped values, that accepted templates render for values without braces and that a message is pinned to its
    template.
  \<^item> \<open>Template_Store\<close>, \<open>Template_Records\<close> (persistence/database/template/record.go): records and
    versions, refined by updates of a map from keys to records.
  \<^item> \<open>Template_Manager\<close>, \<open>Template_Catalog\<close> (service/manager.go, engine.go): administration and the
    process-local catalog over the contract of a template store.
  \<^item> \<open>Publication_Store\<close>, \<open>Publication_Steps\<close>, \<open>Publication_Processor\<close>, \<open>Publication_Workflow\<close>
    (template/publication.go, application/template/publication_processor.go): publication requests as
    a step relation with invariants by rule induction, the store operations as its steps, and the
    processor's operations, by any number of processes, as sequences of them.

  Conventions. Go strings are byte strings (\<open>string\<close>), \<open>int\<close> and \<open>int64\<close> are \<open>int\<close>: the counters
  concerned (attempts, tokens, versions, limits) grow by one per operation. A Go interface is a
  record of functions, a map with observable order an association list sorted where the code
  sorts. Errors are values of \<open>err\<close>. A JSON column holds the encoded value itself. The clock is
  an argument of each operation. Code outside the repository (retry policy, time zone
  database, URL, mail and float parsers, recipient resolver, dispatcher, identity checks,
  identifier generators, queue index) is an argument of the definitions that use it.
  \<open>Samples\<close> holds the concrete values of the witnesses.

  The catalog and the compiler.
  \<^item> \<open>Inbox_Events\<close>, \<open>Event_Rules\<close> (domain/inbox/validation/validation.go): \<open>ValidateEvent\<close>, and the rule
    book \<open>event_ok\<close> it establishes and leaves alone. The snapshots of the locales are validated by
    recursion on an event without localized snapshots, so the recursion is one level deep.
  \<^item> \<open>Inbox_Catalog\<close> (configuration.go, catalog_validation.go, service/catalog_registry.go): event
    types, rules and the catalog. Go maps are association lists in the order the loop meets
    them; the copies the code makes through JSON are the values themselves.
  \<^item> \<open>Inbox_Compiler\<close> (service/compiler.go): from an intent to the event the publisher enqueues.
    \<open>Catalog_Rules\<close>: accepted catalogs are well formed (\<open>catalog_ok\<close>), compiled events obey the rule
    book and the catalog, their plans are those of the rule, and compiling is repeatable.

  The reader's inbox.
  \<^item> \<open>Mailbox_Store\<close>, \<open>Mailbox_Views\<close> (persistence/database/inbox/): lists with filters and a page
    cursor, single items, facets, read and archive marks, acknowledging an alert with its group,
    delegations, saved views. The LIKE operator of the database is an argument.
  \<^item> \<open>Inbox_Validation\<close> (domain/inbox/validation/validation.go): what makes a query, a saved view and
    a delegation valid, and whose items a query may see.
  \<^item> \<open>Mailbox_Cursor\<close>, \<open>Mailbox_Manager\<close> (domain/inbox/service/mailbox_manager.go, action_resolver.go):
    the use cases, with Base64 and JSON decoding of the cursor, over records of the stores.
  \<^item> \<open>Mailbox_Pages\<close>: the cursor comes back as issued, and following the pages is the unbounded list;
    a client that follows them needs one call more than there are items at most.
    \<open>Mailbox_Access\<close>: reads stay within the grant, mutations within the viewer's rows, resolved
    actions are open and published. \<open>Mailbox_State\<close>: marking all read and the facets.
    \<open>Mailbox_Alerts\<close>: acknowledging is one step on two tables. \<open>Mailbox_Owners\<close>: the window of a
    delegation and the round trip of saved views.

  The life cycle of the data (persistence/database/lifecycle).
  \<^item> \<open>Subject_Erasure\<close>, \<open>Erasure_Rules\<close> (subject.go): preview, export and erasure of a person; the
    erasure is one step of the database (\<open>erased_database\<close>) after which no row of the live tables names the
    subject; the retention archive and the digest texts inside event payloads stay as they were.
  \<^item> \<open>Retention\<close>, \<open>Retention_Rules\<close> (retention.go): batches that archive and purge the rows of eight
    tables. A row goes only when a row under its identity is expired, terminal, not held and copied (the
    row itself, where the identity is unique); a batch that says it is done left nothing; purging ends after at most as many batches as rows.
    Both theories close with what the code does beside its intent, as lemmas.

  Moving a workspace (persistence/database/portability, schema).
  \<^item> \<open>Migration_Control\<close>, \<open>Migration_Steps\<close> (control.go): freezing, pinning, importing, activating and rolling
    back, over an open representation of the database; the five phases of a workspace and their
    partial functions, implemented on the typed rows and on the rows of the portability store.
  \<^item> \<open>Portable_Schema\<close> (schema/definition.go, ownership.go): the tables as data, and rows of driver values.
    \<open>Portable_Store\<close> (portable.go): export, validation and import, with the cells, keys and the
    fingerprint executable. \<open>Portable_Rules\<close>: which bundles are accepted, and what an import leaves.
    \<open>Portable_Transfer\<close>: an import is all or nothing, and export and import are inverse.
  \<^item> \<open>Module_Migration\<close> (assembly/module/services.go, \<open>moduleSystemMigration\<close>): the operations the module offers, and
    that with them a whole workspace can be moved.

  Administration.
  \<^item> \<open>Governance_Metrics\<close> (persistence/database/inbox/governance_metrics.go): the report on the inbox and the failed
    events, and that it adds up.
  \<^item> \<open>Access_Control\<close> (base/exact_permission.go, assembly/module/binding.go): who may do what; the identity
    service is an argument.

  Not modelled: HTTP transport, assembly and start-up, SDK conversions, the capability
  description, the SQL text of migrations and the dialect profiles: glue and data without a rule of
  their own. Mutexes inside one process are not
  modelled; an operation of a process is one step, and interleaving is that of whole
  operations, or of whole statements where the lemmas say so.
\<close>

end
